(* ===== verification/Prelude.thy ===== *)
theory Prelude
  imports Main "HOL-Library.Word"
begin

section \<open>Shared vocabulary of the development\<close>

text \<open>
  What every component of the model uses: the collections of rules, saturating 64-bit
  arithmetic (Rust's \<open>usize\<close> and \<open>u64\<close> on the supported 64-bit targets), the
  state-and-error computations the control loops are written in, and Hoare-style rules
  for them.  Strings are Rust \<open>str\<close> values, that is lists of bytes (\<^typ>\<open>string\<close>), so
  \<^const>\<open>length\<close> is \<open>str::len\<close>.
\<close>

named_theorems act_simps \<open>evaluation of state-and-error computations\<close>
named_theorems act_rules \<open>Hoare rules of state-and-error computations\<close>

subsection \<open>Saturating 64-bit arithmetic\<close>

definition u64_max :: nat where
  "u64_max = 2 ^ 64 - 1"

definition sat_add :: "nat \<Rightarrow> nat \<Rightarrow> nat" where
  "sat_add a b = min (a + b) u64_max"

definition sat_mul :: "nat \<Rightarrow> nat \<Rightarrow> nat" where
  "sat_mul a b = min (a * b) u64_max"

lemma u64_max_pos [simp]: "0 < u64_max"
  by (simp add: u64_max_def)

lemma sat_add_le [simp]: "sat_add a b \<le> u64_max"
  by (simp add: sat_add_def)

lemma sat_add_eq: "a + b \<le> u64_max \<Longrightarrow> sat_add a b = a + b"
  by (simp add: sat_add_def)

lemma sat_add_le_sum: "sat_add a b \<le> a + b"
  by (simp add: sat_add_def)

lemma sat_add_zero_left: "a \<le> u64_max \<Longrightarrow> sat_add 0 a = a"
  by (simp add: sat_add_def)

lemma sat_add_ge_left: "a \<le> u64_max \<Longrightarrow> a \<le> sat_add a b"
  by (simp add: sat_add_def)

lemma sat_add_mono: "a \<le> c \<Longrightarrow> b \<le> d \<Longrightarrow> sat_add a b \<le> sat_add c d"
  by (auto simp: sat_add_def min_def)

lemma sat_add_less_max: "sat_add a b < u64_max \<Longrightarrow> sat_add a b = a + b"
  by (simp add: sat_add_def min_def split: if_splits)

lemma sat_add_le_below: "sat_add a b \<le> n \<Longrightarrow> n < u64_max \<Longrightarrow> a + b \<le> n"
  by (auto simp: sat_add_def min_def split: if_splits)

subsection \<open>Computations with a state, an error and fuel\<close>

text \<open>
  A routine that threads a state through fallible calls returns an \<open>outcome\<close> and the
  state it leaves behind.  \<open>Raised\<close> is Rust's \<open>Err\<close> (or the early return through
  \<open>?\<close>); the state then is the one reached when the error left the routine, since the
  code mutates in place.  \<open>Out_of_fuel\<close> is the value of a loop that was cut off: it
  stands for "has not returned yet", never for a result.
\<close>

datatype ('e, 'a) outcome = Done 'a | Raised 'e | Out_of_fuel

type_synonym ('s, 'e, 'a) act = "'s \<Rightarrow> ('e, 'a) outcome \<times> 's"

definition retA :: "'a \<Rightarrow> ('s, 'e, 'a) act" where
  "retA x = (\<lambda>s. (Done x, s))"

definition raiseA :: "'e \<Rightarrow> ('s, 'e, 'a) act" where
  "raiseA e = (\<lambda>s. (Raised e, s))"

definition starveA :: "('s, 'e, 'a) act" where
  "starveA = (\<lambda>s. (Out_of_fuel, s))"

definition getA :: "('s \<Rightarrow> 'a) \<Rightarrow> ('s, 'e, 'a) act" where
  "getA f = (\<lambda>s. (Done (f s), s))"

definition modA :: "('s \<Rightarrow> 's) \<Rightarrow> ('s, 'e, unit) act" where
  "modA f = (\<lambda>s. (Done (), f s))"

definition stepA :: "('s \<Rightarrow> 'a \<times> 's) \<Rightarrow> ('s, 'e, 'a) act" where
  "stepA f = (\<lambda>s. case f s of (x, s') \<Rightarrow> (Done x, s'))"

definition bindA :: "('s, 'e, 'a) act \<Rightarrow> ('a \<Rightarrow> ('s, 'e, 'b) act) \<Rightarrow> ('s, 'e, 'b) act" where
  "bindA m f = (\<lambda>s. case m s of
       (Done x, s') \<Rightarrow> f x s'
     | (Raised e, s') \<Rightarrow> (Raised e, s')
     | (Out_of_fuel, s') \<Rightarrow> (Out_of_fuel, s'))"

definition seqA :: "('s, 'e, unit) act \<Rightarrow> ('s, 'e, 'b) act \<Rightarrow> ('s, 'e, 'b) act" where
  "seqA m n = bindA m (\<lambda>_. n)"

text \<open>\<open>map_err\<close> on a fallible routine.\<close>

definition map_errA :: "('e \<Rightarrow> 'f) \<Rightarrow> ('s, 'e, 'a) act \<Rightarrow> ('s, 'f, 'a) act" where
  "map_errA g m = (\<lambda>s. case m s of
       (Done x, s') \<Rightarrow> (Done x, s')
     | (Raised e, s') \<Rightarrow> (Raised (g e), s')
     | (Out_of_fuel, s') \<Rightarrow> (Out_of_fuel, s'))"

text \<open>A \<open>match\<close> on the result of a fallible routine: both branches continue.\<close>

definition caseA :: "('s, 'e, 'a) act \<Rightarrow> ('a \<Rightarrow> ('s, 'f, 'b) act) \<Rightarrow> ('e \<Rightarrow> ('s, 'f, 'b) act)
    \<Rightarrow> ('s, 'f, 'b) act" where
  "caseA m f g = (\<lambda>s. case m s of
       (Done x, s') \<Rightarrow> f x s'
     | (Raised e, s') \<Rightarrow> g e s'
     | (Out_of_fuel, s') \<Rightarrow> (Out_of_fuel, s'))"

fun forA :: "('x \<Rightarrow> ('s, 'e, unit) act) \<Rightarrow> 'x list \<Rightarrow> ('s, 'e, unit) act" where
  "forA f [] = retA ()"
| "forA f (x # xs) = seqA (f x) (forA f xs)"

lemma retA_apply [act_simps]: "retA x s = (Done x, s)"
  by (simp add: retA_def)

lemma raiseA_apply [act_simps]: "raiseA e s = (Raised e, s)"
  by (simp add: raiseA_def)

lemma starveA_apply [act_simps]: "starveA s = (Out_of_fuel, s)"
  by (simp add: starveA_def)

lemma getA_apply [act_simps]: "getA f s = (Done (f s), s)"
  by (simp add: getA_def)

lemma modA_apply [act_simps]: "modA f s = (Done (), f s)"
  by (simp add: modA_def)

lemma stepA_apply [act_simps]: "stepA f s = (Done (fst (f s)), snd (f s))"
  by (simp add: stepA_def split: prod.splits)

lemma bindA_apply [act_simps]:
  "bindA m f s = (case m s of (Done x, s') \<Rightarrow> f x s'
     | (Raised e, s') \<Rightarrow> (Raised e, s') | (Out_of_fuel, s') \<Rightarrow> (Out_of_fuel, s'))"
  by (simp add: bindA_def)

lemma seqA_apply [act_simps]:
  "seqA m n s = (case m s of (Done x, s') \<Rightarrow> n s'
     | (Raised e, s') \<Rightarrow> (Raised e, s') | (Out_of_fuel, s') \<Rightarrow> (Out_of_fuel, s'))"
  by (simp add: seqA_def bindA_def)

lemma caseA_apply [act_simps]:
  "caseA m f g s = (case m s of (Done x, s') \<Rightarrow> f x s'
     | (Raised e, s') \<Rightarrow> g e s' | (Out_of_fuel, s') \<Rightarrow> (Out_of_fuel, s'))"
  by (simp add: caseA_def)

lemma map_errA_apply [act_simps]:
  "map_errA g m s = (case m s of (Done x, s') \<Rightarrow> (Done x, s')
     | (Raised e, s') \<Rightarrow> (Raised (g e), s') | (Out_of_fuel, s') \<Rightarrow> (Out_of_fuel, s'))"
  by (simp add: map_errA_def)

lemma bindA_retA [simp]: "bindA (retA x) f = f x"
  by (simp add: fun_eq_iff act_simps)

lemma bindA_assoc: "bindA (bindA m f) g = bindA m (\<lambda>x. bindA (f x) g)"
  by (auto simp: fun_eq_iff act_simps split: prod.splits outcome.splits)

subsection \<open>Hoare triples\<close>

text \<open>
  \<open>hoare P m R\<close>: started in a state with \<open>P\<close>, the computation ends with an outcome and a
  state related by \<open>R\<close>, whichever way it ends.  Running out of fuel is an ending too, so
  a safety property proved for every ending holds of every prefix of a run.
\<close>

definition hoare :: "('s \<Rightarrow> bool) \<Rightarrow> ('s, 'e, 'a) act \<Rightarrow> (('e, 'a) outcome \<Rightarrow> 's \<Rightarrow> bool) \<Rightarrow> bool" where
  "hoare P m R \<longleftrightarrow> (\<forall>s. P s \<longrightarrow> R (fst (m s)) (snd (m s)))"

definition keeps :: "('s \<Rightarrow> bool) \<Rightarrow> ('s, 'e, 'a) act \<Rightarrow> bool" where
  "keeps P m \<longleftrightarrow> (\<forall>s. P s \<longrightarrow> P (snd (m s)))"

lemma hoareI: "(\<And>s r s'. P s \<Longrightarrow> m s = (r, s') \<Longrightarrow> R r s') \<Longrightarrow> hoare P m R"
  by (simp add: hoare_def)

lemma hoareD: "hoare P m R \<Longrightarrow> P s \<Longrightarrow> m s = (r, s') \<Longrightarrow> R r s'"
  by (force simp: hoare_def)

lemma keepsI: "(\<And>s r s'. P s \<Longrightarrow> m s = (r, s') \<Longrightarrow> P s') \<Longrightarrow> keeps P m"
  unfolding keeps_def by (metis prod.collapse)

lemma keepsD: "keeps P m \<Longrightarrow> P s \<Longrightarrow> m s = (r, s') \<Longrightarrow> P s'"
  by (force simp: keeps_def)

lemma keeps_retA [act_rules]: "keeps P (retA x)"
  by (simp add: keeps_def act_simps)

lemma keeps_raiseA [act_rules]: "keeps P (raiseA e)"
  by (simp add: keeps_def act_simps)

lemma keeps_starveA [act_rules]: "keeps P starveA"
  by (simp add: keeps_def act_simps)

lemma keeps_getA [act_rules]: "keeps P (getA f)"
  by (simp add: keeps_def act_simps)

lemma keeps_modA: "(\<And>s. P s \<Longrightarrow> P (f s)) \<Longrightarrow> keeps P (modA f)"
  by (simp add: keeps_def act_simps)

lemma keeps_stepA: "(\<And>s. P s \<Longrightarrow> P (snd (f s))) \<Longrightarrow> keeps P (stepA f)"
  by (simp add: keeps_def act_simps)

lemma keeps_bindA [act_rules]:
  assumes "keeps P m" and "\<And>x. keeps P (f x)"
  shows "keeps P (bindA m f)"
proof (rule keepsI)
  fix s r s'
  assume P: "P s" and run: "bindA m f s = (r, s')"
  obtain r1 s1 where m: "m s = (r1, s1)" by (cases "m s") auto
  with assms(1) P have P1: "P s1" by (rule keepsD)
  show "P s'"
  proof (cases r1)
    case (Done x)
    with run m have "f x s1 = (r, s')" by (simp add: act_simps)
    with assms(2) P1 show ?thesis by (rule keepsD)
  qed (use run m P1 in \<open>auto simp: act_simps\<close>)
qed

lemma keeps_seqA [act_rules]: "keeps P m \<Longrightarrow> keeps P n \<Longrightarrow> keeps P (seqA m n)"
  unfolding seqA_def by (rule keeps_bindA)

lemma keeps_map_errA [act_rules]: "keeps P m \<Longrightarrow> keeps P (map_errA g m)"
  by (auto simp: keeps_def act_simps split: prod.splits outcome.splits)

lemma keeps_caseA [act_rules]:
  assumes "keeps P m" and "\<And>x. keeps P (f x)" and "\<And>e. keeps P (g e)"
  shows "keeps P (caseA m f g)"
proof (rule keepsI)
  fix s r s'
  assume P: "P s" and run: "caseA m f g s = (r, s')"
  obtain r1 s1 where m: "m s = (r1, s1)" by (cases "m s") auto
  with assms(1) P have P1: "P s1" by (rule keepsD)
  show "P s'"
  proof (cases r1)
    case (Done x)
    with run m have "f x s1 = (r, s')" by (simp add: act_simps)
    with assms(2) P1 show ?thesis by (rule keepsD)
  next
    case (Raised e)
    with run m have "g e s1 = (r, s')" by (simp add: act_simps)
    with assms(3) P1 show ?thesis by (rule keepsD)
  qed (use run m P1 in \<open>auto simp: act_simps\<close>)
qed

lemma keeps_forA [act_rules]: "(\<And>x. keeps P (f x)) \<Longrightarrow> keeps P (forA f xs)"
  by (induction xs) (auto intro: act_rules)

lemma keeps_if [act_rules]: "keeps P m \<Longrightarrow> keeps P n \<Longrightarrow> keeps P (if b then m else n)"
  by simp

lemma keeps_option [act_rules]:
  "keeps P m \<Longrightarrow> (\<And>x. keeps P (f x)) \<Longrightarrow> keeps P (case opt of None \<Rightarrow> m | Some x \<Rightarrow> f x)"
  by (cases opt) auto

lemma keeps_sum [act_rules]:
  "(\<And>a. keeps P (f a)) \<Longrightarrow> (\<And>b. keeps P (g b)) \<Longrightarrow> keeps P (case x of Inl a \<Rightarrow> f a | Inr b \<Rightarrow> g b)"
  by (cases x) auto

lemma keeps_let [act_rules]: "(\<And>x. keeps P (f x)) \<Longrightarrow> keeps P (let x = t in f x)"
  by (simp add: Let_def)

lemma hoare_bindA:
  assumes m: "hoare P m Q"
    and f: "\<And>x. hoare (Q (Done x)) (f x) R"
    and e: "\<And>err s. Q (Raised err) s \<Longrightarrow> R (Raised err) s"
    and o: "\<And>s. Q Out_of_fuel s \<Longrightarrow> R Out_of_fuel s"
  shows "hoare P (bindA m f) R"
proof (rule hoareI)
  fix s r s'
  assume P: "P s" and run: "bindA m f s = (r, s')"
  obtain r1 s1 where ms: "m s = (r1, s1)" by (cases "m s") auto
  with m P have Q: "Q r1 s1" by (rule hoareD)
  show "R r s'"
  proof (cases r1)
    case (Done x)
    with run ms have "f x s1 = (r, s')" by (simp add: act_simps)
    with f Q Done show ?thesis by (auto dest: hoareD)
  qed (use run ms Q e o in \<open>auto simp: act_simps\<close>)
qed

lemma hoare_keeps: "hoare P m (\<lambda>_. P) \<longleftrightarrow> keeps P m"
  by (auto simp: hoare_def keeps_def)

lemma hoare_weaken:
  "hoare P m R \<Longrightarrow> (\<And>s. P' s \<Longrightarrow> P s) \<Longrightarrow> (\<And>r s. R r s \<Longrightarrow> R' r s) \<Longrightarrow> hoare P' m R'"
  by (auto simp: hoare_def)

lemma hoare_conj: "hoare P m Q \<Longrightarrow> hoare P m R \<Longrightarrow> hoare P m (\<lambda>r s. Q r s \<and> R r s)"
  by (auto simp: hoare_def)

subsection \<open>Weakest preconditions\<close>

text \<open>
  \<open>wp m R s\<close>: the run of \<open>m\<close> from \<open>s\<close> ends as \<open>R\<close> says.  The equations in
  \<open>wp_simps\<close> compute it through a whole routine; a routine with a lemma of its own is
  stepped over by \<open>wp_conseq\<close>.
\<close>

named_theorems wp_simps \<open>weakest preconditions of computations\<close>

definition wp :: "('s, 'e, 'a) act \<Rightarrow> (('e, 'a) outcome \<Rightarrow> 's \<Rightarrow> bool) \<Rightarrow> 's \<Rightarrow> bool" where
  "wp m R s \<longleftrightarrow> R (fst (m s)) (snd (m s))"

lemma wpI: "(\<And>r s'. m s = (r, s') \<Longrightarrow> R r s') \<Longrightarrow> wp m R s"
  by (simp add: wp_def)

lemma wpD: "wp m R s \<Longrightarrow> m s = (r, s') \<Longrightarrow> R r s'"
  by (simp add: wp_def)

lemma wp_conseq: "wp m R s \<Longrightarrow> (\<And>r s'. R r s' \<Longrightarrow> R' r s') \<Longrightarrow> wp m R' s"
  by (simp add: wp_def)

lemma wp_conj: "wp m R s \<Longrightarrow> wp m R' s \<Longrightarrow> wp m (\<lambda>r s'. R r s' \<and> R' r s') s"
  by (simp add: wp_def)

lemma wp_retA [wp_simps]: "wp (retA x) R s \<longleftrightarrow> R (Done x) s"
  by (simp add: wp_def act_simps)

lemma wp_raiseA [wp_simps]: "wp (raiseA e) R s \<longleftrightarrow> R (Raised e) s"
  by (simp add: wp_def act_simps)

lemma wp_starveA [wp_simps]: "wp starveA R s \<longleftrightarrow> R Out_of_fuel s"
  by (simp add: wp_def act_simps)

lemma wp_getA [wp_simps]: "wp (getA f) R s \<longleftrightarrow> R (Done (f s)) s"
  by (simp add: wp_def act_simps)

lemma wp_modA [wp_simps]: "wp (modA f) R s \<longleftrightarrow> R (Done ()) (f s)"
  by (simp add: wp_def act_simps)

lemma wp_stepA [wp_simps]: "wp (stepA f) R s \<longleftrightarrow> (case f s of (x, s') \<Rightarrow> R (Done x) s')"
  by (simp add: wp_def act_simps split: prod.split)

lemma wp_bindA [wp_simps]:
  "wp (bindA m f) R s \<longleftrightarrow> wp m (\<lambda>r s'. case r of Done x \<Rightarrow> wp (f x) R s'
     | Raised e \<Rightarrow> R (Raised e) s' | Out_of_fuel \<Rightarrow> R Out_of_fuel s') s"
  by (auto simp: wp_def act_simps split: prod.split outcome.split)

lemma wp_seqA [wp_simps]:
  "wp (seqA m n) R s \<longleftrightarrow> wp m (\<lambda>r s'. case r of Done x \<Rightarrow> wp n R s'
     | Raised e \<Rightarrow> R (Raised e) s' | Out_of_fuel \<Rightarrow> R Out_of_fuel s') s"
  by (auto simp: wp_def act_simps split: prod.split outcome.split)

lemma wp_caseA [wp_simps]:
  "wp (caseA m f g) R s \<longleftrightarrow> wp m (\<lambda>r s'. case r of Done x \<Rightarrow> wp (f x) R s'
     | Raised e \<Rightarrow> wp (g e) R s' | Out_of_fuel \<Rightarrow> R Out_of_fuel s') s"
  by (auto simp: wp_def act_simps split: prod.split outcome.split)

lemma wp_map_errA [wp_simps]:
  "wp (map_errA g m) R s \<longleftrightarrow> wp m (\<lambda>r s'. case r of Done x \<Rightarrow> R (Done x) s'
     | Raised e \<Rightarrow> R (Raised (g e)) s' | Out_of_fuel \<Rightarrow> R Out_of_fuel s') s"
  by (auto simp: wp_def act_simps split: prod.split outcome.split)

lemma wp_if [wp_simps]: "wp (if b then m else n) R s \<longleftrightarrow> (if b then wp m R s else wp n R s)"
  by simp

lemma wp_keeps: "keeps P m \<Longrightarrow> P s \<Longrightarrow> wp m (\<lambda>_. P) s"
  by (simp add: wp_def keeps_def)

subsection \<open>Computations that always return\<close>

named_theorems settle_rules \<open>computations that never run out of fuel\<close>

definition settles :: "('s, 'e, 'a) act \<Rightarrow> bool" where
  "settles m \<longleftrightarrow> (\<forall>s. fst (m s) \<noteq> Out_of_fuel)"

lemma settlesD: "settles m \<Longrightarrow> m s = (Out_of_fuel, s') \<Longrightarrow> False"
  by (metis fst_conv settles_def)

lemma settles_basic [settle_rules]:
  "settles (retA x)" "settles (raiseA e)" "settles (getA f)" "settles (modA g)" "settles (stepA h)"
  by (simp_all add: settles_def act_simps)

lemma settles_bindA [settle_rules]:
  assumes "settles m" and "\<And>x. settles (f x)"
  shows "settles (bindA m f)"
  unfolding settles_def
proof
  fix s
  show "fst (bindA m f s) \<noteq> Out_of_fuel"
    using assms by (cases "m s"; cases "fst (m s)") (auto simp: act_simps settles_def dest: settlesD [OF assms(1)])
qed

lemma settles_seqA [settle_rules]: "settles m \<Longrightarrow> settles n \<Longrightarrow> settles (seqA m n)"
  unfolding seqA_def by (rule settles_bindA)

lemma settles_map_errA [settle_rules]: "settles m \<Longrightarrow> settles (map_errA g m)"
  by (auto simp: settles_def act_simps split: prod.splits outcome.splits) (metis fst_conv)

lemma settles_caseA [settle_rules]:
  assumes "settles m" and "\<And>x. settles (f x)" and "\<And>e. settles (g e)"
  shows "settles (caseA m f g)"
  unfolding settles_def
proof
  fix s
  show "fst (caseA m f g s) \<noteq> Out_of_fuel"
    using assms by (cases "m s"; cases "fst (m s)") (auto simp: act_simps settles_def dest: settlesD [OF assms(1)])
qed

lemma settles_forA [settle_rules]: "(\<And>x. settles (f x)) \<Longrightarrow> settles (forA f xs)"
  by (induction xs) (auto intro: settle_rules)

lemma settles_if [settle_rules]: "settles m \<Longrightarrow> settles n \<Longrightarrow> settles (if b then m else n)"
  by simp

lemma settles_option [settle_rules]:
  "settles m \<Longrightarrow> (\<And>x. settles (f x)) \<Longrightarrow> settles (case opt of None \<Rightarrow> m | Some x \<Rightarrow> f x)"
  by (cases opt) auto

lemma settles_sum [settle_rules]:
  "(\<And>x. settles (f x)) \<Longrightarrow> (\<And>y. settles (g y)) \<Longrightarrow> settles (case r of Inl x \<Rightarrow> f x | Inr y \<Rightarrow> g y)"
  by (cases r) auto

lemma settles_let [settle_rules]: "(\<And>x. settles (f x)) \<Longrightarrow> settles (let x = t in f x)"
  by (simp add: Let_def)

lemma settles_prod [settle_rules]: "(\<And>x y. settles (f x y)) \<Longrightarrow> settles (case p of (x, y) \<Rightarrow> f x y)"
  by (cases p) auto

lemma not_starved: "settles m \<Longrightarrow> m s \<noteq> (Out_of_fuel, s')"
  using settlesD by metis

lemma forA_never_raises:
  assumes "\<And>x s. fst (f x s) = Done ()"
  shows "fst (forA f xs s) = Done ()"
proof (induction xs arbitrary: s)
  case (Cons x xs)
  obtain s1 where "f x s = (Done (), s1)" using assms by (metis prod.collapse)
  then show ?case using Cons by (simp add: act_simps)
qed (simp add: act_simps)

subsection \<open>Computations that have returned a value\<close>

named_theorems done_simps \<open>what a computation that returned a value has done\<close>

lemma done_retA [done_simps]: "retA x s = (Done y, s') \<longleftrightarrow> y = x \<and> s' = s"
  by (auto simp: act_simps)

lemma done_raiseA [done_simps]: "raiseA e s \<noteq> (Done y, s')"
  by (simp add: act_simps)

lemma done_getA [done_simps]: "getA f s = (Done y, s') \<longleftrightarrow> y = f s \<and> s' = s"
  by (auto simp: act_simps)

lemma done_modA [done_simps]: "modA f s = (Done y, s') \<longleftrightarrow> s' = f s"
  by (auto simp: act_simps)

lemma done_bindA [done_simps]:
  "bindA m f s = (Done y, s') \<longleftrightarrow> (\<exists>x s1. m s = (Done x, s1) \<and> f x s1 = (Done y, s'))"
  by (auto simp: act_simps split: prod.split outcome.split)

lemma done_seqA [done_simps]:
  "seqA m n s = (Done y, s') \<longleftrightarrow> (\<exists>s1. m s = (Done (), s1) \<and> n s1 = (Done y, s'))"
  by (auto simp: act_simps split: prod.split outcome.split)

lemma done_map_errA [done_simps]: "map_errA g m s = (Done y, s') \<longleftrightarrow> m s = (Done y, s')"
  by (auto simp: act_simps split: prod.split outcome.split)

lemma done_caseA [done_simps]:
  "caseA m f g s = (Done y, s') \<longleftrightarrow> (\<exists>x s1. m s = (Done x, s1) \<and> f x s1 = (Done y, s'))
    \<or> (\<exists>e s1. m s = (Raised e, s1) \<and> g e s1 = (Done y, s'))"
  by (auto simp: act_simps split: prod.split outcome.split)

subsection \<open>Lists\<close>

text \<open>Rust's \<open>Vec::contains\<close>, \<open>iter().position\<close> and \<open>Vec::remove\<close>.\<close>

fun position :: "('a \<Rightarrow> bool) \<Rightarrow> 'a list \<Rightarrow> nat option" where
  "position p [] = None"
| "position p (x # xs) = (if p x then Some 0 else map_option Suc (position p xs))"

definition remove_at :: "nat \<Rightarrow> 'a list \<Rightarrow> 'a list" where
  "remove_at i xs = take i xs @ drop (Suc i) xs"

lemma position_None_iff: "position p xs = None \<longleftrightarrow> (\<forall>x \<in> set xs. \<not> p x)"
  by (induction xs) auto

lemma position_SomeD:
  "position p xs = Some i \<Longrightarrow> i < length xs \<and> p (xs ! i) \<and> (\<forall>x \<in> set (take i xs). \<not> p x)"
  by (induction xs arbitrary: i) (auto split: if_splits)

lemma position_split:
  assumes "position p xs = Some i"
  shows "xs = take i xs @ xs ! i # drop (Suc i) xs"
  using position_SomeD [OF assms] by (simp add: id_take_nth_drop)

lemma filter_remove_at:
  assumes "position p xs = Some i"
  shows "filter p xs = xs ! i # filter p (remove_at i xs)"
    and "filter (\<lambda>x. \<not> p x) (remove_at i xs) = filter (\<lambda>x. \<not> p x) xs"
proof -
  note pos = position_SomeD [OF assms]
  note split = position_split [OF assms]
  have pre: "filter p (take i xs) = []"
    using pos by (simp add: filter_empty_conv)
  have "filter p xs = filter p (take i xs @ xs ! i # drop (Suc i) xs)"
    using split by simp
  also have "\<dots> = xs ! i # filter p (drop (Suc i) xs)"
    using pre pos by simp
  finally show "filter p xs = xs ! i # filter p (remove_at i xs)"
    using pre by (simp add: remove_at_def)
  have "filter (\<lambda>x. \<not> p x) xs = filter (\<lambda>x. \<not> p x) (take i xs @ xs ! i # drop (Suc i) xs)"
    using split by simp
  also have "\<dots> = filter (\<lambda>x. \<not> p x) (remove_at i xs)"
    using pos by (simp add: remove_at_def)
  finally show "filter (\<lambda>x. \<not> p x) (remove_at i xs) = filter (\<lambda>x. \<not> p x) xs" by simp
qed

lemma set_remove_at: "set (remove_at i xs) \<subseteq> set xs"
  by (auto simp: remove_at_def dest: in_set_takeD in_set_dropD)

lemma length_remove_at: "i < length xs \<Longrightarrow> length (remove_at i xs) = length xs - 1"
  by (simp add: remove_at_def)

lemma sum_list_remove_at: "sum_list (map f (remove_at i xs)) \<le> sum_list (map (f :: 'a \<Rightarrow> nat) xs)"
proof (cases "i < length xs")
  case True
  then have "xs = take i xs @ xs ! i # drop (Suc i) xs" by (simp add: id_take_nth_drop)
  then have "sum_list (map f xs) = sum_list (map f (take i xs @ xs ! i # drop (Suc i) xs))" by simp
  then show ?thesis by (simp add: remove_at_def)
qed (simp add: remove_at_def)

end
