(* ===== verification/Rust_Str.thy ===== *)
theory Rust_Str
  imports Prelude
begin

section \<open>Rust strings\<close>

text \<open>
  The part of Rust's \<open>str\<close> the program uses, over the bytes of the string: UTF-8
  well-formedness (the invariant of every \<open>str\<close>), char boundaries, and the searching,
  stripping, splitting and trimming operations of the standard library.  Searching is by
  bytes, which on well-formed UTF-8 is the same as searching by characters.
\<close>

subsection \<open>Well-formed UTF-8 and char boundaries\<close>

definition bv :: "char \<Rightarrow> nat" where
  "bv c = of_char c"

definition cont_byte :: "char \<Rightarrow> bool" where
  "cont_byte c \<longleftrightarrow> 0x80 \<le> bv c \<and> bv c < 0xC0"

text \<open>
  The length a lead byte announces and the restrictions on the byte after it: the table of
  well-formed UTF-8 byte sequences of the Unicode standard.  \<open>char_width\<close> is the length of
  the well-formed character at the head of a byte string, 0 when there is none.
\<close>

definition lead_len :: "nat \<Rightarrow> nat" where
  "lead_len b =
    (if b < 0x80 then 1
     else if 0xC2 \<le> b \<and> b \<le> 0xDF then 2
     else if 0xE0 \<le> b \<and> b \<le> 0xEF then 3
     else if 0xF0 \<le> b \<and> b \<le> 0xF4 then 4
     else 0)"

definition second_ok :: "nat \<Rightarrow> nat \<Rightarrow> bool" where
  "second_ok b c \<longleftrightarrow> (b = 0xE0 \<longrightarrow> 0xA0 \<le> c) \<and> (b = 0xED \<longrightarrow> c \<le> 0x9F)
     \<and> (b = 0xF0 \<longrightarrow> 0x90 \<le> c) \<and> (b = 0xF4 \<longrightarrow> c \<le> 0x8F)"

definition char_width :: "string \<Rightarrow> nat" where
  "char_width s = (case s of
     [] \<Rightarrow> 0
   | c # s1 \<Rightarrow> let n = lead_len (bv c) in
       if n - 1 \<le> length s1 \<and> list_all cont_byte (take (n - 1) s1)
          \<and> (2 \<le> n \<longrightarrow> second_ok (bv c) (bv (s1 ! 0))) then n else 0)"

lemma lead_len_le_4: "lead_len b \<le> 4"
  by (simp add: lead_len_def)

lemma lead_len_head: "0 < lead_len (bv c) \<Longrightarrow> \<not> cont_byte c"
  by (auto simp: lead_len_def cont_byte_def split: if_splits)

lemma char_width_le: "char_width s \<le> length s"
  by (cases s) (auto simp: char_width_def Let_def)

lemma char_width_le_4: "char_width s \<le> 4"
  using lead_len_le_4 by (cases s) (auto simp: char_width_def Let_def)

lemma char_width_head: "0 < char_width s \<Longrightarrow> \<not> cont_byte (s ! 0)"
  by (cases s) (auto simp: char_width_def Let_def lead_len_head split: if_splits)

lemma char_width_tail:
  assumes "0 < i" and "i < char_width s"
  shows "cont_byte (s ! i)"
proof (cases s)
  case Nil
  with assms(2) show ?thesis by (simp add: char_width_def)
next
  case (Cons c s1)
  from assms(2) Cons have "list_all cont_byte (take (char_width s - 1) s1)"
    by (auto simp: char_width_def Let_def split: if_splits)
  moreover have "i - 1 < length (take (char_width s - 1) s1)"
    using assms char_width_le [of s] Cons by simp
  ultimately have "cont_byte (take (char_width s - 1) s1 ! (i - 1))"
    by (simp only: list_all_length)
  with assms Cons show ?thesis by (simp add: nth_Cons')
qed

lemma char_width_append: "0 < char_width s \<Longrightarrow> char_width (s @ t) = char_width s"
  by (cases s) (auto simp: char_width_def Let_def nth_append split: if_splits)

lemma char_width_take:
  assumes "char_width s \<le> k" and "0 < char_width s"
  shows "char_width (take k s) = char_width s"
proof (cases s)
  case Nil
  with assms(2) show ?thesis by (simp add: char_width_def)
next
  case (Cons c s1)
  with assms obtain k' where k: "k = Suc k'" by (cases k) auto
  let ?n = "lead_len (bv c)"
  have w: "?n = char_width s" and ok: "?n - 1 \<le> length s1" "list_all cont_byte (take (?n - 1) s1)"
      "2 \<le> ?n \<longrightarrow> second_ok (bv c) (bv (s1 ! 0))"
    using assms(2) Cons by (simp_all add: char_width_def Let_def split: if_splits)
  have le: "?n - 1 \<le> k'" using assms(1) w k by simp
  then have "take (?n - 1) (take k' s1) = take (?n - 1) s1" by (simp add: min_absorb1)
  moreover have "2 \<le> ?n \<longrightarrow> take k' s1 ! 0 = s1 ! 0" using le by simp
  ultimately have "char_width (c # take k' s1) = ?n"
    using ok le by (simp add: char_width_def Let_def)
  with Cons k w show ?thesis by simp
qed

function utf8 :: "string \<Rightarrow> bool" where
  "utf8 s = (if s = [] then True else if char_width s = 0 then False
     else utf8 (drop (char_width s) s))"
  by pat_completeness auto
termination
  by (relation "measure length") auto

declare utf8.simps [simp del]

lemma utf8_Nil [simp]: "utf8 []"
  by (simp add: utf8.simps)

lemma utf8_nonempty: "utf8 s \<Longrightarrow> s \<noteq> [] \<Longrightarrow> 0 < char_width s \<and> utf8 (drop (char_width s) s)"
  by (subst (asm) utf8.simps) (simp split: if_splits)

lemma utf8_step: "0 < char_width s \<Longrightarrow> utf8 s = utf8 (drop (char_width s) s)"
  by (subst utf8.simps) (auto simp: char_width_def)

lemma utf8_append: "utf8 s \<Longrightarrow> utf8 t \<Longrightarrow> utf8 (s @ t)"
proof (induction s rule: utf8.induct)
  case (1 s)
  show ?case
  proof (cases "s = []")
    case False
    with "1.prems"(1) have w: "0 < char_width s" "utf8 (drop (char_width s) s)"
      by (auto dest: utf8_nonempty)
    with "1.IH" False "1.prems"(2) have "utf8 (drop (char_width s) s @ t)" by simp
    with w char_width_le [of s] show ?thesis
      by (simp add: utf8_step [of "s @ t"] char_width_append)
  qed (use "1.prems" in simp)
qed

text \<open>\<open>str::is_char_boundary\<close>.\<close>

definition is_char_boundary :: "string \<Rightarrow> nat \<Rightarrow> bool" where
  "is_char_boundary s i \<longleftrightarrow> i = 0 \<or> (if length s \<le> i then i = length s else \<not> cont_byte (s ! i))"

lemma is_char_boundary_0 [simp]: "is_char_boundary s 0"
  by (simp add: is_char_boundary_def)

lemma is_char_boundary_length [simp]: "is_char_boundary s (length s)"
  by (simp add: is_char_boundary_def)

lemma is_char_boundary_le: "is_char_boundary s i \<Longrightarrow> i \<le> length s"
  by (auto simp: is_char_boundary_def split: if_splits)

lemma utf8_split:
  assumes "utf8 s" and "is_char_boundary s i"
  shows "utf8 (take i s) \<and> utf8 (drop i s)"
  using assms
proof (induction s arbitrary: i rule: utf8.induct)
  case (1 s)
  show ?case
  proof (cases "s = [] \<or> i = 0")
    case True
    then show ?thesis using "1.prems" by auto
  next
    case False
    let ?n = "char_width s"
    from "1.prems"(1) False have w: "0 < ?n" "utf8 (drop ?n s)"
      by (auto dest: utf8_nonempty)
    have ni: "?n \<le> i"
    proof (rule ccontr)
      assume "\<not> ?n \<le> i"
      with False char_width_tail [of i s] char_width_le [of s] "1.prems"(2) show False
        by (auto simp: is_char_boundary_def)
    qed
    have "is_char_boundary (drop ?n s) (i - ?n)"
      using "1.prems"(2) ni is_char_boundary_le [OF "1.prems"(2)]
      by (auto simp: is_char_boundary_def split: if_splits)
    with "1.IH" w False have "utf8 (take (i - ?n) (drop ?n s)) \<and> utf8 (drop (i - ?n) (drop ?n s))"
      by simp
    with ni w show ?thesis
      by (simp add: utf8_step [of "take i s"] char_width_take drop_take)
  qed
qed

text \<open>Within any four bytes after a position there is a boundary at or below.\<close>

lemma utf8_boundary_within_4:
  assumes "utf8 s" and "i \<le> length s"
  shows "\<exists>j \<le> i. i < j + 4 \<and> is_char_boundary s j"
  using assms
proof (induction s arbitrary: i rule: utf8.induct)
  case (1 s)
  let ?n = "char_width s"
  show ?case
  proof (cases "s = [] \<or> i < ?n")
    case True
    then have "i < 4" using "1.prems" char_width_le_4 [of s] by auto
    then show ?thesis by (intro exI [of _ 0]) auto
  next
    case False
    with "1.prems" have w: "0 < ?n" "utf8 (drop ?n s)"
      by (auto dest: utf8_nonempty)
    from False "1.prems" have "i - ?n \<le> length (drop ?n s)" by simp
    with "1.IH" False w obtain j where j: "j \<le> i - ?n" "i - ?n < j + 4"
      "is_char_boundary (drop ?n s) j" by auto
    have "is_char_boundary s (?n + j)"
    proof (cases "j = 0")
      case True
      show ?thesis
      proof (cases "?n = length s")
        case neq: False
        then have "drop ?n s \<noteq> []" using char_width_le [of s] by simp
        with w(2) have "0 < char_width (drop ?n s)" by (auto dest: utf8_nonempty)
        from char_width_head [OF this] neq char_width_le [of s] True show ?thesis
          by (simp add: is_char_boundary_def)
      qed (simp add: True)
    next
      case False
      with j(3) char_width_le [of s] show ?thesis
        by (auto simp: is_char_boundary_def split: if_splits)
    qed
    with j False show ?thesis by (intro exI [of _ "?n + j"]) auto
  qed
qed

subsection \<open>Searching and stripping\<close>

definition starts_with :: "string \<Rightarrow> string \<Rightarrow> bool" where
  "starts_with p s \<longleftrightarrow> take (length p) s = p"

definition ends_with :: "string \<Rightarrow> string \<Rightarrow> bool" where
  "ends_with p s \<longleftrightarrow> starts_with (rev p) (rev s)"

definition strip_prefix :: "string \<Rightarrow> string \<Rightarrow> string option" where
  "strip_prefix p s = (if starts_with p s then Some (drop (length p) s) else None)"

definition strip_suffix :: "string \<Rightarrow> string \<Rightarrow> string option" where
  "strip_suffix p s = (if ends_with p s then Some (take (length s - length p) s) else None)"

fun find_sub :: "string \<Rightarrow> string \<Rightarrow> nat option" where
  "find_sub p [] = (if p = [] then Some 0 else None)"
| "find_sub p (c # s) = (if starts_with p (c # s) then Some 0 else map_option Suc (find_sub p s))"

definition contains_sub :: "string \<Rightarrow> string \<Rightarrow> bool" where
  "contains_sub p s \<longleftrightarrow> find_sub p s \<noteq> None"

definition split_once :: "string \<Rightarrow> string \<Rightarrow> (string \<times> string) option" where
  "split_once p s = (case find_sub p s of
     None \<Rightarrow> None
   | Some i \<Rightarrow> Some (take i s, drop (i + length p) s))"

definition find_any :: "char list \<Rightarrow> string \<Rightarrow> nat option" where
  "find_any cs s = position (\<lambda>c. c \<in> set cs) s"

lemma starts_with_append [simp]: "starts_with p (p @ s)"
  by (simp add: starts_with_def)

lemma find_sub_head [simp]: "starts_with p s \<Longrightarrow> find_sub p s = Some 0"
  by (cases s) (auto simp: starts_with_def)

lemma starts_with_iff: "starts_with p s \<longleftrightarrow> (\<exists>t. s = p @ t)"
  unfolding starts_with_def by (metis append_eq_conv_conj append_take_drop_id)

lemma starts_with_Nil [simp]: "starts_with [] s"
  by (simp add: starts_with_def)

lemma starts_with_Cons_Cons [simp]: "starts_with (c # p) (d # s) \<longleftrightarrow> c = d \<and> starts_with p s"
  by (auto simp: starts_with_def)

lemma starts_with_Cons_Nil [simp]: "\<not> starts_with (c # p) []"
  by (simp add: starts_with_def)

lemma ends_with_iff: "ends_with p s \<longleftrightarrow> (\<exists>t. s = t @ p)"
proof -
  have "ends_with p s \<longleftrightarrow> (\<exists>t. rev s = rev p @ t)"
    by (simp add: ends_with_def starts_with_iff)
  also have "\<dots> \<longleftrightarrow> (\<exists>t. s = t @ p)"
    by (metis rev_append rev_rev_ident)
  finally show ?thesis .
qed

lemma strip_prefix_Some_iff: "strip_prefix p s = Some t \<longleftrightarrow> s = p @ t"
  by (auto simp: strip_prefix_def starts_with_iff)

lemma strip_prefix_append [simp]: "strip_prefix p (p @ s) = Some s"
  by (simp add: strip_prefix_def)

lemma strip_suffix_Some_iff: "strip_suffix p s = Some t \<longleftrightarrow> s = t @ p"
  by (auto simp: strip_suffix_def ends_with_iff)

lemma find_sub_SomeD:
  "find_sub p s = Some i \<Longrightarrow> s = take i s @ p @ drop (i + length p) s \<and> i + length p \<le> length s"
proof (induction s arbitrary: i)
  case (Cons c s)
  show ?case
  proof (cases "starts_with p (c # s)")
    case True
    then obtain t where "c # s = p @ t" by (auto simp: starts_with_iff)
    moreover have "i = 0" using True Cons.prems by simp
    ultimately show ?thesis by (metis add_0 append_Nil append_eq_conv_conj le_add1 length_append take0)
  next
    case False
    with Cons.prems obtain j where "find_sub p s = Some j" "i = Suc j" by auto
    with Cons.IH [of j] show ?thesis by auto
  qed
qed (auto split: if_splits)

lemma split_once_SomeD: "split_once p s = Some (a, b) \<Longrightarrow> s = a @ p @ b"
  using find_sub_SomeD by (fastforce simp: split_once_def split: option.splits)

lemma contains_sub_iff: "contains_sub p s \<longleftrightarrow> (\<exists>a b. s = a @ p @ b)"
proof
  assume "contains_sub p s"
  then show "\<exists>a b. s = a @ p @ b"
    unfolding contains_sub_def using find_sub_SomeD by blast
next
  assume "\<exists>a b. s = a @ p @ b"
  then obtain a b where "s = a @ p @ b" by blast
  moreover have "find_sub p (a @ p @ b) \<noteq> None"
  proof (induction a)
    case (Cons c a)
    then show ?case by auto
  qed simp
  ultimately show "contains_sub p s" by (simp add: contains_sub_def)
qed

text \<open>A delimiter is found right where it is put when it does not begin earlier.\<close>

lemma find_sub_here:
  assumes "\<And>k. k < length a \<Longrightarrow> \<not> starts_with p (drop k a @ p @ b)"
  shows "find_sub p (a @ p @ b) = Some (length a)"
  using assms
proof (induction a)
  case Nil
  show ?case by simp
next
  case (Cons c a)
  have "\<not> starts_with p (c # a @ p @ b)" using Cons.prems [of 0] by simp
  moreover have "find_sub p (a @ p @ b) = Some (length a)"
  proof (rule Cons.IH)
    fix k assume "k < length a"
    then show "\<not> starts_with p (drop k a @ p @ b)" using Cons.prems [of "Suc k"] by simp
  qed
  ultimately show ?case by simp
qed

lemma split_once_here:
  assumes "\<And>k. k < length a \<Longrightarrow> \<not> starts_with p (drop k a @ p @ b)"
  shows "split_once p (a @ p @ b) = Some (a, b)"
  using find_sub_here [OF assms] by (simp add: split_once_def)

lemma split_once_head:
  assumes "c \<notin> set a"
  shows "split_once (c # p) (a @ (c # p) @ b) = Some (a, b)"
proof (rule split_once_here)
  fix k assume "k < length a"
  then have "drop k a = a ! k # drop (Suc k) a" by (simp add: Cons_nth_drop_Suc)
  moreover have "a ! k \<noteq> c" using assms \<open>k < length a\<close> by auto
  ultimately show "\<not> starts_with (c # p) (drop k a @ (c # p) @ b)" by simp
qed

text \<open>
  Two ways to know that a delimiter does not begin earlier: the text before it ends with a
  byte the delimiter lacks and lacks a byte the delimiter has; or it does not contain the
  delimiter, whose first byte does not recur in it.
\<close>

lemma split_once_guarded:
  assumes "d \<notin> set p" and "q \<in> set p" and "q \<notin> set a"
  shows "split_once p ((a @ [d]) @ p @ b) = Some (a @ [d], b)"
proof (rule split_once_here)
  fix k assume k: "k < length (a @ [d])"
  show "\<not> starts_with p (drop k (a @ [d]) @ p @ b)"
  proof
    assume "starts_with p (drop k (a @ [d]) @ p @ b)"
    then obtain t where eq: "drop k a @ d # p @ b = p @ t"
      using k by (auto simp: starts_with_iff)
    show False
    proof (cases "length p \<le> length (drop k a)")
      case True
      with eq have "p = take (length p) (drop k a)"
        by (metis append_eq_append_conv_if append_take_drop_id append_eq_conv_conj)
      then have "set p \<subseteq> set a" by (metis in_set_dropD in_set_takeD subsetI)
      with assms show False by blast
    next
      case False
      then have "p ! length (drop k a) = d" using eq by (metis nth_append nth_append_length not_le)
      with False assms(1) show False by (metis nth_mem not_le)
    qed
  qed
qed

lemma split_once_no_occurrence:
  assumes "c \<notin> set p" and "\<not> contains_sub (c # p) a"
  shows "split_once (c # p) (a @ (c # p) @ b) = Some (a, b)"
proof (rule split_once_here)
  fix k assume k: "k < length a"
  show "\<not> starts_with (c # p) (drop k a @ (c # p) @ b)"
  proof
    assume "starts_with (c # p) (drop k a @ (c # p) @ b)"
    then obtain t where eq: "drop k a @ c # p @ b = c # p @ t"
      by (auto simp: starts_with_iff)
    show False
    proof (cases "length (c # p) \<le> length (drop k a)")
      case True
      have "(c # p) @ t = drop k a @ c # p @ b" using eq by simp
      with True have "drop k a = (c # p) @ drop (length (c # p)) (drop k a)"
        by (metis append_eq_append_conv_if append_take_drop_id append_eq_conv_conj)
      then have "a = take k a @ (c # p) @ drop (length (c # p)) (drop k a)"
        by (metis append_take_drop_id)
      with assms(2) show False by (metis contains_sub_iff)
    next
      case False
      have "((c # p) @ t) ! length (drop k a) = c" using eq by (metis append_Cons nth_append_length)
      with False have "(c # p) ! length (drop k a) = c" by (metis nth_append not_le)
      moreover have "0 < length (drop k a)" using k by simp
      ultimately have "p ! (length (drop k a) - 1) = c" by (simp add: nth_Cons')
      with False \<open>0 < length (drop k a)\<close> assms(1) show False
        by (metis One_nat_def Suc_less_eq Suc_pred length_Cons not_le nth_mem)
    qed
  qed
qed

subsection \<open>White space, trimming and case\<close>

text \<open>
  The width of the white-space character (Unicode's \<open>White_Space\<close>, as
  \<open>char::is_whitespace\<close>) at the head of a string, 0 when there is none.
\<close>

definition ws_width :: "string \<Rightarrow> nat" where
  "ws_width s = (case map bv (take 3 s) of
     b0 # bs \<Rightarrow>
       if (0x09 \<le> b0 \<and> b0 \<le> 0x0D) \<or> b0 = 0x20 then 1
       else (case bs of
         b1 # bs' \<Rightarrow>
           if b0 = 0xC2 \<and> (b1 = 0x85 \<or> b1 = 0xA0) then 2
           else (case bs' of
             b2 # _ \<Rightarrow>
               if (b0 = 0xE1 \<and> b1 = 0x9A \<and> b2 = 0x80)
                 \<or> (b0 = 0xE2 \<and> b1 = 0x80 \<and> ((0x80 \<le> b2 \<and> b2 \<le> 0x8A) \<or> b2 = 0xA8 \<or> b2 = 0xA9 \<or> b2 = 0xAF))
                 \<or> (b0 = 0xE2 \<and> b1 = 0x81 \<and> b2 = 0x9F)
                 \<or> (b0 = 0xE3 \<and> b1 = 0x80 \<and> b2 = 0x80) then 3 else 0
             | [] \<Rightarrow> 0)
       | [] \<Rightarrow> 0)
   | [] \<Rightarrow> 0)"

definition starts_with_ws :: "string \<Rightarrow> bool" where
  "starts_with_ws s \<longleftrightarrow> 0 < ws_width s"

lemma ws_width_Nil [simp]: "ws_width [] = 0"
  by (simp add: ws_width_def)

function trim_start :: "string \<Rightarrow> string" where
  "trim_start s = (if ws_width s = 0 then s else trim_start (drop (ws_width s) s))"
  by pat_completeness auto
termination
proof (relation "measure length")
  fix s assume "ws_width s \<noteq> 0"
  then have "s \<noteq> []" by auto
  with \<open>ws_width s \<noteq> 0\<close> show "(drop (ws_width s) s, s) \<in> measure length"
    by (cases s) auto
qed simp

declare trim_start.simps [simp del]

text \<open>The white-space character that ends a string: its last one, two or three bytes.\<close>

definition ws_width_end :: "string \<Rightarrow> nat" where
  "ws_width_end s =
    (let tail = (\<lambda>n. drop (length s - n) s) in
     if ws_width (tail 1) = 1 then 1
     else if ws_width (tail 2) = 2 then 2
     else if ws_width (tail 3) = 3 then 3 else 0)"

lemma ws_width_end_Nil [simp]: "ws_width_end [] = 0"
  by (simp add: ws_width_end_def)

function trim_end :: "string \<Rightarrow> string" where
  "trim_end s = (if ws_width_end s = 0 then s else trim_end (take (length s - ws_width_end s) s))"
  by pat_completeness auto
termination
proof (relation "measure length")
  fix s assume "ws_width_end s \<noteq> 0"
  then have "s \<noteq> []" by auto
  with \<open>ws_width_end s \<noteq> 0\<close> show "(take (length s - ws_width_end s) s, s) \<in> measure length"
    by (cases s) auto
qed simp

declare trim_end.simps [simp del]

definition trim :: "string \<Rightarrow> string" where
  "trim s = trim_end (trim_start s)"

lemma length_trim_start: "length (trim_start s) \<le> length s"
proof (induction s rule: trim_start.induct)
  case (1 s)
  then show ?case
    by (subst trim_start.simps) (simp, meson diff_le_self le_trans)
qed

lemma length_trim_end: "length (trim_end s) \<le> length s"
proof (induction s rule: trim_end.induct)
  case (1 s)
  then show ?case
    by (subst trim_end.simps) (simp, meson diff_le_self le_trans)
qed

lemma length_trim: "length (trim s) \<le> length s"
  unfolding trim_def using length_trim_end length_trim_start le_trans by blast

definition ascii_lower :: "char \<Rightarrow> char" where
  "ascii_lower c = (if 0x41 \<le> bv c \<and> bv c \<le> 0x5A then char_of (bv c + 32) else c)"

definition to_ascii_lowercase :: "string \<Rightarrow> string" where
  "to_ascii_lowercase s = map ascii_lower s"

definition replace_char :: "char \<Rightarrow> char \<Rightarrow> string \<Rightarrow> string" where
  "replace_char a b s = map (\<lambda>c. if c = a then b else c) s"

lemma length_to_ascii_lowercase [simp]: "length (to_ascii_lowercase s) = length s"
  by (simp add: to_ascii_lowercase_def)

lemma length_replace_char [simp]: "length (replace_char a b s) = length s"
  by (simp add: replace_char_def)

definition newline_byte :: char where
  "newline_byte = CHR 0x0A"

text \<open>Decimal digits, as \<open>{}\<close> formats an unsigned integer.\<close>

function decimal :: "nat \<Rightarrow> string" where
  "decimal n = (if n < 10 then [char_of (48 + n)] else decimal (n div 10) @ [char_of (48 + n mod 10)])"
  by pat_completeness auto
termination
  by (relation "measure id") auto

declare decimal.simps [simp del]

end
