(* ===== verification/Protocol.thy ===== *)
theory Protocol
  imports Rust_Str
begin

section \<open>The portable protocol (crate mini-agent-protocol)\<close>

text \<open>
  The data every layer exchanges: messages, tool calls and outcomes, turns and threads,
  observer events, limits and stop reasons, and the traits \<open>Model\<close> and \<open>Tool\<close> as records
  of functions.  The type variable \<open>'v\<close> stands for \<open>serde_json::Value\<close>, \<open>'w\<close> for the
  world outside the runtime (provider, tools, files, other threads), \<open>'e\<close> for
  \<open>Model::Error\<close>.  The encoder \<open>serde_json\<close> is not part of the repository: it is the
  record \<open>'v serde\<close>, an argument of every definition that measures or writes JSON.
  Constructors that several source enums share carry the enum's name as a prefix.
\<close>

subsection \<open>Models and messages (model.rs)\<close>

type_synonym u32 = "32 word"
type_synonym u64 = "64 word"

record model_selection =
  ms_provider_id :: string
  ms_model_id :: string

record model_context_snapshot =
  mcs_selection :: model_selection
  mcs_context_window_tokens :: "u32 option"
  mcs_max_output_tokens :: "u32 option"

definition available_input_tokens :: "model_context_snapshot \<Rightarrow> u32 option" where
  "available_input_tokens c =
    (case (mcs_context_window_tokens c, mcs_max_output_tokens c) of
       (Some window, Some output) \<Rightarrow> if output \<le> window then Some (window - output) else None
     | (Some window, None) \<Rightarrow> Some window
     | (None, _) \<Rightarrow> None)"

datatype reasoning_selection = ApiDefault | Level string

definition level_value :: "reasoning_selection \<Rightarrow> string option" where
  "level_value r = (case r of ApiDefault \<Rightarrow> None | Level v \<Rightarrow> Some v)"

datatype tool_execution_status =
  Tool_Completed | Tool_Failed | Tool_NeedsApproval | Tool_Deferred | Tool_Retryable | Tool_Cancelled

definition is_error :: "tool_execution_status \<Rightarrow> bool" where
  "is_error s \<longleftrightarrow> s \<noteq> Tool_Completed"

record 'v tool_call =
  tc_id :: string
  tc_name :: string
  tc_arguments :: 'v

datatype 'v message =
    Context string
  | User string
  | Assistant (m_reasoning: string) (m_text: string) (m_tool_calls: "'v tool_call list")
  | Tool (m_call_id: string) (m_name: string) (m_content: string) (m_is_error: bool)
      (m_outcome: "tool_execution_status option")

record model_usage =
  mu_input_tokens :: u64
  mu_cached_input_tokens :: "u64 option"
  mu_output_tokens :: u64

record 'v model_response =
  mr_reasoning :: string
  mr_text :: string
  mr_tool_calls :: "'v tool_call list"
  mr_usage :: "model_usage option"

record model_timing =
  mt_ttft_ms :: "nat option"
  mt_response_ms :: nat

record context_byte_breakdown =
  cb_system_prompt :: nat
  cb_project_instructions :: nat
  cb_skills :: nat
  cb_workspace_state :: nat
  cb_conversation :: nat
  cb_tools :: nat
  cb_other :: nat

datatype context_injection_kind = Kind_ProjectInstructions | Kind_Skill | Kind_WorkspaceState | Kind_Other

record context_injection_record =
  ci_id :: string
  ci_kind :: context_injection_kind
  ci_source :: string
  ci_workspace :: "string option"
  ci_path :: "string option"
  ci_scope :: string
  ci_bytes :: nat
  ci_fingerprint :: string
  ci_supersedes :: "string option"
  ci_reused :: bool

record 'v tool_spec =
  ts_name :: string
  ts_description :: string
  ts_parameters :: 'v

text \<open>
  What the code uses of \<open>serde_json\<close>: the compact encodings it measures, hashes or writes
  and the decoder of the context-injection header.
\<close>

record 'v serde =
  ser_message :: "'v message \<Rightarrow> string"
  ser_messages :: "'v message list \<Rightarrow> string"
  ser_specs :: "'v tool_spec list \<Rightarrow> string"
  ser_calls :: "'v tool_call list \<Rightarrow> string"
  ser_input :: "string \<times> 'v message list \<times> 'v tool_spec list \<Rightarrow> string"
  ser_injection :: "context_injection_record \<Rightarrow> string"
  de_injection :: "string \<Rightarrow> context_injection_record option"

definition metadata_open :: string where
  "metadata_open = ''<context_injection_metadata>''"

definition metadata_close :: string where
  "metadata_close = ''</context_injection_metadata>''"

definition newline :: string where
  "newline = [newline_byte]"

definition context_message :: "'v serde \<Rightarrow> context_injection_record \<Rightarrow> string \<Rightarrow> string" where
  "context_message js r body =
    ''<'' @ ci_id r @ '' fingerprint=\"'' @ ci_fingerprint r @ ''\">'' @ newline
    @ metadata_open @ ser_injection js r @ metadata_close @ newline
    @ body @ newline @ ''</'' @ ci_id r @ ''>''"

definition replace_context_message_metadata ::
  "'v serde \<Rightarrow> context_injection_record \<Rightarrow> string \<Rightarrow> string option" where
  "replace_context_message_metadata js r text =
    (case split_once newline text of
       None \<Rightarrow> None
     | Some (opening, rest) \<Rightarrow>
         if \<not> starts_with (''<'' @ ci_id r @ '' '') opening \<and> \<not> starts_with (''<'' @ ci_id r @ ''>'') opening
         then None
         else (case split_once metadata_close rest of
             None \<Rightarrow> None
           | Some (_, suffix) \<Rightarrow>
               Some (opening @ newline @ metadata_open @ ser_injection js r @ metadata_close @ suffix)))"

definition from_context_message :: "'v serde \<Rightarrow> string \<Rightarrow> context_injection_record option" where
  "from_context_message js text =
    (case split_once newline text of
       None \<Rightarrow> None
     | Some (opening, rest) \<Rightarrow>
         (case (strip_prefix ''<'' opening, split_once ''fingerprint=\"'' opening, strip_prefix metadata_open rest) of
            (Some after_lt, Some (_, after_fp), Some after_open) \<Rightarrow>
              (let slot = takeWhile (\<lambda>c. c \<notin> set [CHR '' '', CHR ''>'', CHR 0x09]) after_lt in
               case (split_once ''\"'' after_fp, split_once metadata_close after_open) of
                 (Some (fingerprint, _), Some (metadata, _)) \<Rightarrow>
                   (case de_injection js metadata of
                      None \<Rightarrow> None
                    | Some r \<Rightarrow> if ci_id r = slot \<and> ci_fingerprint r = fingerprint then Some r else None)
               | _ \<Rightarrow> None)
          | _ \<Rightarrow> None))"

datatype model_event = ReasoningDelta string | TextDelta string

record 'v model_request =
  rq_system_prompt :: string
  rq_messages :: "'v message list"
  rq_tools :: "'v tool_spec list"
  rq_allowed_tools :: "string list option"
  rq_max_response_bytes :: nat
  rq_model_selection :: "model_selection option"
  rq_reasoning_selection :: "reasoning_selection option"
  rq_reasoning_effort :: "string option"

text \<open>
  The trait \<open>Model\<close>.  \<open>respond\<close> returns a future; \<open>md_poll\<close> is one poll of it: the events
  it emits into the sink, and its result when it is ready (\<open>None\<close> is \<open>Poll::Pending\<close>).
\<close>

record ('w, 'v, 'e) model =
  md_context_snapshot :: "'w \<Rightarrow> model_selection option \<Rightarrow> model_context_snapshot option"
  md_is_context_window_error :: "'w \<Rightarrow> 'e \<Rightarrow> bool"
  md_poll :: "'v model_request \<Rightarrow> 'w \<Rightarrow> (model_event list \<times> ('e + 'v model_response) option) \<times> 'w"

subsection \<open>Threads and turns (turn.rs)\<close>

datatype thread_id = ThreadId (thread_id_str: string)

datatype turn_id = TurnId (turn_id_str: string)

datatype turn_source = ChildWakeup | SessionResume

datatype child_task_attempt_kind = Attempt_Initial | Attempt_Retry | Attempt_FollowUp

datatype turn_input_mode = Start | StartIfIdle | Steer | FollowUp

datatype turn_workflow_kind = SkillGroup

datatype turn_workflow_mode = Auto

record turn_workflow =
  tw_kind :: turn_workflow_kind
  tw_id :: string
  tw_mode :: turn_workflow_mode

record turn_input =
  ti_mode :: turn_input_mode
  ti_text :: string
  ti_selected_skills :: "string list"
  ti_workflow :: "turn_workflow option"
  ti_model_selection :: "model_selection option"
  ti_reasoning_selection :: "reasoning_selection option"
  ti_reasoning_effort :: "string option"
  ti_steer_request_id :: "string option"

definition turn_input_new :: "turn_input_mode \<Rightarrow> string \<Rightarrow> turn_input" where
  "turn_input_new mode text = \<lparr>ti_mode = mode, ti_text = text, ti_selected_skills = [],
     ti_workflow = None, ti_model_selection = None, ti_reasoning_selection = None,
     ti_reasoning_effort = None, ti_steer_request_id = None\<rparr>"

record turn_start =
  tst_input :: turn_input
  tst_operation_id :: "string option"
  tst_operation_attempt :: "u32 option"
  tst_operation_attempt_kind :: "child_task_attempt_kind option"
  tst_operation_group_id :: "string option"
  tst_execution_mode :: "string option"
  tst_group_sequence :: "u32 option"

definition turn_start_new :: "turn_input \<Rightarrow> turn_start" where
  "turn_start_new input = \<lparr>tst_input = input, tst_operation_id = None, tst_operation_attempt = None,
     tst_operation_attempt_kind = None, tst_operation_group_id = None, tst_execution_mode = None,
     tst_group_sequence = None\<rparr>"

datatype turn_cancel = TurnCancel (cancel_turn_id: turn_id)

datatype thread_status = Thread_Idle | Thread_Running | Thread_AwaitingInput | Thread_Failed | Thread_Closed

datatype turn_status =
  Turn_InProgress | Turn_Completed | Turn_StepLimit | Turn_Steered | Turn_Cancelled | Turn_Failed

datatype turn_submission = Sub_Started turn_id | Sub_Steered turn_id | Sub_Queued | Sub_NotSubmitted string

subsection \<open>Limits and stop reasons (lib.rs)\<close>

datatype limit_kind =
  ContextItemBytes | UserInputBytes | ModelResponseBytes | ToolCallsPerStep | ToolOutputBytes | ContextBytes

definition limit_kind_text :: "limit_kind \<Rightarrow> string" where
  "limit_kind_text k = (case k of
     ContextItemBytes \<Rightarrow> ''context item bytes''
   | UserInputBytes \<Rightarrow> ''user input bytes''
   | ModelResponseBytes \<Rightarrow> ''model response bytes''
   | ToolCallsPerStep \<Rightarrow> ''tool calls per step''
   | ToolOutputBytes \<Rightarrow> ''tool output bytes''
   | ContextBytes \<Rightarrow> ''context bytes'')"

record limit_exceeded =
  le_kind :: limit_kind
  le_limit :: nat
  le_actual :: nat

definition limit_exceeded_text :: "limit_exceeded \<Rightarrow> string" where
  "limit_exceeded_text l = limit_kind_text (le_kind l) @ '' limit exceeded: ''
     @ decimal (le_actual l) @ '' > '' @ decimal (le_limit l)"

definition limit :: "limit_kind \<Rightarrow> nat \<Rightarrow> nat \<Rightarrow> limit_exceeded" where
  "limit k l a = \<lparr>le_kind = k, le_limit = l, le_actual = a\<rparr>"

datatype stop_reason = Stop_Completed | Stop_StepLimit | Stop_Steered | Stop_Cancelled

subsection \<open>Observer events (event.rs)\<close>

datatype skill_load_phase = Skill_Started | Skill_Loaded

record skill_load_record =
  sk_name :: string
  sk_qualified_name :: "string option"
  sk_source :: string
  sk_group :: "string option"

datatype run_failure = Failure_Model | Failure_Compaction | Failure_LimitExceeded limit_exceeded

datatype 'v event =
    TurnStarted turn_input_mode string
  | SkillsLoaded skill_load_phase "string option" "skill_load_record list"
  | SkillsLoadFailed "string option" "string list" string
  | SkillGroupActivated string string
  | ContextInjected "context_injection_record list"
  | RunStarted string
  | ModelStarted (ev_step: nat) (ev_input_bytes: nat) (ev_input_hash: string) (ev_tool_manifest_hash: string)
  | AssistantReasoningDelta string
  | AssistantTextDelta string
  | ModelResponded (ev_reasoning: string) (ev_text: string) (ev_tool_calls: "'v tool_call list")
      (ev_usage: "model_usage option") (ev_timing: "model_timing option")
      (ev_context_bytes: "context_byte_breakdown option") (ev_model_context: "model_context_snapshot option")
  | ToolStarted "'v tool_call"
  | ToolFinished (ev_call_id: string) (ev_name: string) (ev_arguments: 'v) (ev_content: string)
      (ev_is_error: bool) (ev_truncated: bool) (ev_outcome: "tool_execution_status option")
  | ContextCompactionStarted nat
  | ContextCompactionFinished nat nat "model_usage option"
  | RunFinished stop_reason nat
  | TurnFinished turn_status
  | RunFailed run_failure

record 'v event_envelope =
  ee_thread_id :: thread_id
  ee_turn_id :: "turn_id option"
  ee_sequence :: nat
  ee_item_id :: "string option"
  ee_turn_source :: "turn_source option"
  ee_event :: "'v event"

definition event_envelope_new ::
  "thread_id \<Rightarrow> turn_id option \<Rightarrow> nat \<Rightarrow> 'v event \<Rightarrow> 'v event_envelope" where
  "event_envelope_new th tn n ev = \<lparr>ee_thread_id = th, ee_turn_id = tn, ee_sequence = n,
     ee_item_id = None, ee_turn_source = None, ee_event = ev\<rparr>"

text \<open>
  The trait \<open>EventSink\<close> with its two hooks, each a function of the sink's state \<open>'k\<close> that
  also hands back the sequence counter it may have advanced.
\<close>

record ('k, 'v) event_sink =
  es_emit :: "'v event_envelope \<Rightarrow> 'k \<Rightarrow> 'k"
  es_before_event :: "thread_id \<Rightarrow> turn_id \<Rightarrow> 'v event \<Rightarrow> nat \<Rightarrow> 'k \<Rightarrow> nat \<times> 'k"
  es_after_event :: "thread_id \<Rightarrow> turn_id \<Rightarrow> 'v event \<Rightarrow> nat \<Rightarrow> 'k \<Rightarrow> nat \<times> 'k"

subsection \<open>Tools (tool.rs)\<close>

record tool_execution_context =
  tec_thread_id :: thread_id
  tec_turn_id :: turn_id
  tec_project_id :: "string option"
  tec_workspace_id :: "string option"
  tec_workspace_revision :: "nat option"
  tec_session_id :: "string option"

text \<open>
  \<open>cancellation\<close> is a shared atomic handle that never leaves the process; the field records
  whether one is attached.
\<close>

record 'v tool_execution_request =
  ter_call_id :: string
  ter_name :: string
  ter_arguments :: 'v
  ter_context :: "tool_execution_context option"
  ter_known_context_injections :: "context_injection_record list"
  ter_cancellation :: "unit option"

definition request_eq :: "'v tool_execution_request \<Rightarrow> 'v tool_execution_request \<Rightarrow> bool" where
  "request_eq a b \<longleftrightarrow> ter_call_id a = ter_call_id b \<and> ter_name a = ter_name b
     \<and> ter_arguments a = ter_arguments b \<and> ter_context a = ter_context b
     \<and> ter_known_context_injections a = ter_known_context_injections b"

definition request_new :: "string \<Rightarrow> string \<Rightarrow> 'v \<Rightarrow> 'v tool_execution_request" where
  "request_new call_id name arguments = \<lparr>ter_call_id = call_id, ter_name = name,
     ter_arguments = arguments, ter_context = None, ter_known_context_injections = [],
     ter_cancellation = None\<rparr>"

definition with_context :: "tool_execution_context \<Rightarrow> 'v tool_execution_request \<Rightarrow> 'v tool_execution_request" where
  "with_context c r = r\<lparr>ter_context := Some c\<rparr>"

definition with_known_context_injections ::
  "context_injection_record list \<Rightarrow> 'v tool_execution_request \<Rightarrow> 'v tool_execution_request" where
  "with_known_context_injections is r = r\<lparr>ter_known_context_injections := is\<rparr>"

definition with_cancellation :: "'v tool_execution_request \<Rightarrow> 'v tool_execution_request" where
  "with_cancellation r = r\<lparr>ter_cancellation := Some ()\<rparr>"

definition request_from_call :: "'v tool_call \<Rightarrow> 'v tool_execution_request" where
  "request_from_call c = request_new (tc_id c) (tc_name c) (tc_arguments c)"

datatype approval_policy = Interactive | Automatic | Trusted

datatype action_grant_scope = Once | Session | Project

datatype approval_outcome = Approved | Denied | Expired | Revoked | Unavailable

record action_grant_key =
  ak_action_class :: string
  ak_normalized_action :: string
  ak_target_paths :: "string list"
  ak_access_scope :: string
  ak_workspace_id :: string
  ak_workspace_revision :: nat

record tool_approval_resolution =
  tar_outcome :: approval_outcome
  tar_grant_scope :: action_grant_scope
  tar_reason :: "string option"

definition resolution_once :: "approval_outcome \<Rightarrow> tool_approval_resolution" where
  "resolution_once out = \<lparr>tar_outcome = out, tar_grant_scope = Once, tar_reason = None\<rparr>"

record tool_approval_request =
  ar_action :: string
  ar_action_summary :: "string option"
  ar_tool_name :: "string option"
  ar_call_id :: "string option"
  ar_thread_id :: "thread_id option"
  ar_turn_id :: "turn_id option"
  ar_project_id :: "string option"
  ar_workspace_id :: "string option"
  ar_workspace_revision :: "nat option"
  ar_session_id :: "string option"
  ar_target_paths :: "string list"

definition approval_request_legacy :: "string \<Rightarrow> tool_approval_request" where
  "approval_request_legacy action = \<lparr>ar_action = action, ar_action_summary = None, ar_tool_name = None,
     ar_call_id = None, ar_thread_id = None, ar_turn_id = None, ar_project_id = None,
     ar_workspace_id = None, ar_workspace_revision = None, ar_session_id = None, ar_target_paths = []\<rparr>"

definition from_execution_with_summary ::
  "string \<Rightarrow> string option \<Rightarrow> string list \<Rightarrow> 'v tool_execution_request \<Rightarrow> tool_approval_request" where
  "from_execution_with_summary action summary targets request =
    (let context = ter_context request in
     \<lparr>ar_action = action, ar_action_summary = summary,
      ar_tool_name = Some (ter_name request), ar_call_id = Some (ter_call_id request),
      ar_thread_id = map_option tec_thread_id context,
      ar_turn_id = map_option tec_turn_id context,
      ar_project_id = Option.bind context tec_project_id,
      ar_workspace_id = Option.bind context tec_workspace_id,
      ar_workspace_revision = Option.bind context tec_workspace_revision,
      ar_session_id = Option.bind context tec_session_id,
      ar_target_paths = targets\<rparr>)"

record tool_execution_outcome =
  teo_status :: tool_execution_status
  teo_content :: string
  teo_output_truncated :: bool
  teo_context_messages :: "string list"
  teo_context_injections :: "context_injection_record list"

datatype tool_replay_safety = Replay_Never | Replay_Safe

definition plain_outcome :: "tool_execution_status \<Rightarrow> string \<Rightarrow> tool_execution_outcome" where
  "plain_outcome st content = \<lparr>teo_status = st, teo_content = content, teo_output_truncated = False,
     teo_context_messages = [], teo_context_injections = []\<rparr>"

definition outcome_completed :: "string \<Rightarrow> tool_execution_outcome" where
  "outcome_completed content = plain_outcome Tool_Completed content"

definition outcome_failed :: "string \<Rightarrow> tool_execution_outcome" where
  "outcome_failed content = plain_outcome Tool_Failed content"

definition outcome_needs_approval :: "string \<Rightarrow> tool_execution_outcome" where
  "outcome_needs_approval content = plain_outcome Tool_NeedsApproval content"

definition outcome_deferred :: "string \<Rightarrow> tool_execution_outcome" where
  "outcome_deferred content = plain_outcome Tool_Deferred content"

definition outcome_retryable :: "string \<Rightarrow> tool_execution_outcome" where
  "outcome_retryable content = plain_outcome Tool_Retryable content"

definition outcome_cancelled :: "string \<Rightarrow> tool_execution_outcome" where
  "outcome_cancelled content = plain_outcome Tool_Cancelled content"

definition with_context_injection ::
  "string list \<Rightarrow> context_injection_record list \<Rightarrow> tool_execution_outcome \<Rightarrow> tool_execution_outcome" where
  "with_context_injection messages records out =
     out\<lparr>teo_context_messages := messages, teo_context_injections := records\<rparr>"

definition with_truncated_output :: "tool_execution_outcome \<Rightarrow> tool_execution_outcome" where
  "with_truncated_output out = out\<lparr>teo_output_truncated := True\<rparr>"

datatype tool_admission =
    Legacy
  | Allowed (ta_paths: "string list")
  | Deferred string
  | ApprovalRequired (ta_action: string) (ta_paths: "string list") (ta_summary: "string option")

definition admission_target_paths :: "tool_admission \<Rightarrow> string list option" where
  "admission_target_paths a = (case a of
     Allowed paths \<Rightarrow> Some paths
   | ApprovalRequired _ paths _ \<Rightarrow> Some paths
   | Legacy \<Rightarrow> None
   | Deferred _ \<Rightarrow> None)"

definition classify_execution :: "string + string \<Rightarrow> tool_execution_outcome" where
  "classify_execution r = (case r of Inr content \<Rightarrow> outcome_completed content | Inl err \<Rightarrow> outcome_failed err)"

text \<open>
  The traits \<open>ToolHandler\<close> and \<open>ToolRuntime\<close>.  A tool acts on the world; admission may read
  it and never changes it (the trait forbids side effects there).  The trait's default
  methods are \<open>legacy_tool\<close>, given only the specification and \<open>execute\<close>.
\<close>

record ('w, 'v) tool =
  tl_spec :: "'v tool_spec"
  tl_admission :: "'v tool_execution_request \<Rightarrow> 'w \<Rightarrow> string + tool_admission"
  tl_execute_outcome :: "'v \<Rightarrow> 'w \<Rightarrow> tool_execution_outcome \<times> 'w"
  tl_execute_after_admission ::
    "'v tool_execution_request \<Rightarrow> tool_admission \<Rightarrow> 'w \<Rightarrow> tool_execution_outcome \<times> 'w"
  tl_recovery_replay_safety :: "'v tool_execution_request \<Rightarrow> tool_replay_safety"

definition legacy_tool :: "'v tool_spec \<Rightarrow> ('v \<Rightarrow> 'w \<Rightarrow> (string + string) \<times> 'w) \<Rightarrow> ('w, 'v) tool" where
  "legacy_tool spec execute = \<lparr>tl_spec = spec,
     tl_admission = (\<lambda>_ _. Inr Legacy),
     tl_execute_outcome = (\<lambda>args w. apfst classify_execution (execute args w)),
     tl_execute_after_admission = (\<lambda>request _ w. apfst classify_execution (execute (ter_arguments request) w)),
     tl_recovery_replay_safety = (\<lambda>_. Replay_Never)\<rparr>"

text \<open>The trait \<open>ToolExecutionDelegate\<close>.\<close>

type_synonym ('w, 'v) delegate =
  "('w, 'v) tool \<Rightarrow> 'v tool_execution_request \<Rightarrow> 'w \<Rightarrow> tool_execution_outcome \<times> 'w"

subsection \<open>User questions (user_question.rs)\<close>

record user_question_option =
  uqo_id :: string
  uqo_label :: string
  uqo_description :: "string option"
  uqo_recommended :: bool
  uqo_recommendation_reason :: "string option"

record user_question =
  uq_id :: string
  uq_prompt :: string
  uq_options :: "user_question_option list"
  uq_allow_free_text :: bool
  uq_allow_skip :: bool

datatype user_question_answer = Answer_Option string | Answer_Text string | Answer_Skipped

record user_question_interaction =
  uqi_interaction_id :: string
  uqi_thread_id :: thread_id
  uqi_turn_id :: turn_id
  uqi_call_id :: string
  uqi_questions :: "user_question list"
  uqi_answers :: "user_question_answer option list"
  uqi_current_index :: nat

definition interaction_is_complete :: "user_question_interaction \<Rightarrow> bool" where
  "interaction_is_complete i \<longleftrightarrow> length (uqi_answers i) = length (uqi_questions i)
     \<and> list_all (\<lambda>a. a \<noteq> None) (uqi_answers i)"

definition current_question :: "user_question_interaction \<Rightarrow> user_question option" where
  "current_question i = (if uqi_current_index i < length (uqi_questions i)
     then Some (uqi_questions i ! uqi_current_index i) else None)"

end
