(* ===== verification/Digest.thy ===== *)
theory Digest
  imports Protocol
begin

unbundle bit_operations_syntax

section \<open>The diagnostic digest (mini-agent-protocol/src/lib.rs)\<close>

text \<open>
  \<open>stable_digest\<close> is 64-bit FNV-1a with \<open>wrapping_mul\<close>, printed as sixteen lower-case hex
  digits.  The lemmas show that each step permutes the hash state, so the digest separates
  any two inputs that differ in one byte.
\<close>

definition fnv_prime :: u64 where
  "fnv_prime = 1099511628211"

definition fnv_offset :: u64 where
  "fnv_offset = 14695981039346656037"

definition fnv_step :: "u64 \<Rightarrow> char \<Rightarrow> u64" where
  "fnv_step hash byte = (hash XOR of_nat (bv byte)) * fnv_prime"

definition fnv_hash :: "string \<Rightarrow> u64" where
  "fnv_hash bytes = foldl fnv_step fnv_offset bytes"

definition hex_digit :: "nat \<Rightarrow> char" where
  "hex_digit n = (if n < 10 then char_of (48 + n) else char_of (87 + n))"

fun hex_digits :: "nat \<Rightarrow> nat \<Rightarrow> string" where
  "hex_digits 0 n = []"
| "hex_digits (Suc k) n = hex_digits k (n div 16) @ [hex_digit (n mod 16)]"

definition stable_digest :: "string \<Rightarrow> string" where
  "stable_digest bytes = ''fnv1a64-'' @ hex_digits 16 (unat (fnv_hash bytes))"

lemma length_hex_digits [simp]: "length (hex_digits k n) = k"
  by (induction k arbitrary: n) auto

lemma hex_digit_inj: "a < 16 \<Longrightarrow> b < 16 \<Longrightarrow> hex_digit a = hex_digit b \<longleftrightarrow> a = b"
proof -
  assume a: "a < 16" and b: "b < 16"
  define v where "v = (\<lambda>n::nat. if n < 10 then 48 + n else 87 + n)"
  have d: "hex_digit n = char_of (v n)" for n by (simp add: hex_digit_def v_def)
  have "v a < 256" "v b < 256" using a b by (simp_all add: v_def)
  then have "hex_digit a = hex_digit b \<longleftrightarrow> v a = v b"
    by (metis d of_char_of mod_less)
  then show ?thesis using a b by (auto simp: v_def split: if_splits)
qed

lemma hex_digits_inj: "m < 16 ^ k \<Longrightarrow> n < 16 ^ k \<Longrightarrow> hex_digits k m = hex_digits k n \<longleftrightarrow> m = n"
proof (induction k arbitrary: m n)
  case (Suc k)
  have lt: "m div 16 < 16 ^ k" "n div 16 < 16 ^ k"
    using Suc.prems by (simp_all add: less_mult_imp_div_less mult.commute)
  have "hex_digits (Suc k) m = hex_digits (Suc k) n \<longleftrightarrow> m div 16 = n div 16 \<and> m mod 16 = n mod 16"
    using Suc.IH [OF lt] by (simp add: hex_digit_inj)
  also have "\<dots> \<longleftrightarrow> m = n" by (metis div_mult_mod_eq)
  finally show ?case .
qed simp

lemma fnv_prime_invertible: "fnv_prime * 14886173955864302971 = 1"
  by (simp add: fnv_prime_def)

lemma fnv_step_inj_state: "fnv_step g c = fnv_step h c \<longleftrightarrow> g = h"
proof
  assume "fnv_step g c = fnv_step h c"
  then have "(g XOR of_nat (bv c)) * (fnv_prime * 14886173955864302971)
      = (h XOR of_nat (bv c)) * (fnv_prime * 14886173955864302971)"
    by (simp add: fnv_step_def mult.assoc [symmetric])
  then have "(g XOR of_nat (bv c)) XOR of_nat (bv c) = (h XOR of_nat (bv c)) XOR of_nat (bv c)"
    by (simp add: fnv_prime_invertible)
  then show "g = h" by (simp add: xor.assoc)
qed simp

lemma fnv_step_inj_byte: "fnv_step h c = fnv_step h d \<longleftrightarrow> c = d"
proof
  assume "fnv_step h c = fnv_step h d"
  then have "(h XOR of_nat (bv c)) * (fnv_prime * 14886173955864302971)
      = (h XOR of_nat (bv d)) * (fnv_prime * 14886173955864302971)"
    by (simp add: fnv_step_def mult.assoc [symmetric])
  then have "h XOR (h XOR of_nat (bv c)) = h XOR (h XOR of_nat (bv d))"
    by (simp add: fnv_prime_invertible)
  then have eq: "(of_nat (bv c) :: u64) = of_nat (bv d)" by (simp add: xor.assoc [symmetric])
  have lt: "bv x < 256" for x by (simp add: bv_def)
  have "unat (of_nat (bv x) :: u64) = bv x" for x
    using lt [of x] by (simp add: unat_of_nat)
  with eq have "bv c = bv d" by metis
  then show "c = d" by (simp add: bv_def)
qed simp

lemma foldl_fnv_inj: "foldl fnv_step g b = foldl fnv_step h b \<longleftrightarrow> g = h"
  by (induction b arbitrary: g h) (simp_all add: fnv_step_inj_state)

lemma fnv_hash_one_byte: "fnv_hash (a @ c # b) = fnv_hash (a @ d # b) \<longleftrightarrow> c = d"
  by (simp add: fnv_hash_def foldl_fnv_inj fnv_step_inj_byte)

lemma stable_digest_eq_iff: "stable_digest x = stable_digest y \<longleftrightarrow> fnv_hash x = fnv_hash y"
proof -
  have "unat h < 16 ^ 16" for h :: u64
    using unsigned_less [of h] by simp
  then show ?thesis
    by (simp add: stable_digest_def hex_digits_inj word_unat_eq_iff)
qed

lemma length_stable_digest: "length (stable_digest x) = 24"
  by (simp add: stable_digest_def)

text \<open>
  The digest of a bounded record has always 24 bytes, and any two inputs that differ in
  exactly one byte have different digests.
\<close>

theorem stable_digest_detects_one_byte:
  "length (stable_digest (a @ c # b)) = 24 \<and>
   (stable_digest (a @ c # b) = stable_digest (a @ d # b) \<longleftrightarrow> c = d)"
  by (simp add: length_stable_digest stable_digest_eq_iff fnv_hash_one_byte)

end
