(* ===== verification/Session.thy ===== *)
theory Session
  imports Digest "HOL-Library.Sublist"
begin

section \<open>The conversation (session.rs)\<close>

text \<open>
  \<open>SessionState\<close>: the messages the model sees and a revision counter.  The operations that
  append, replace and repair messages, the inventory of injected contexts, and the byte
  measures of the model input.  The invariant of a conversation a provider accepts is the
  fold \<open>owed\<close>: every assistant message with tool calls is followed at once by the results
  of exactly those calls.  \<open>repair_tool_groups\<close> is shown to establish it.
\<close>

record 'v session_state =
  st_messages :: "'v message list"
  st_context_revision :: nat

definition session_new :: "'v session_state" where
  "session_new = \<lparr>st_messages = [], st_context_revision = 0\<rparr>"

definition from_messages :: "'v message list \<Rightarrow> 'v session_state" where
  "from_messages ms = \<lparr>st_messages = ms, st_context_revision = 0\<rparr>"

definition bump_revision :: "'v session_state \<Rightarrow> 'v session_state" where
  "bump_revision st = st\<lparr>st_context_revision := sat_add (st_context_revision st) 1\<rparr>"

definition replace_messages :: "'v message list \<Rightarrow> 'v session_state \<Rightarrow> 'v session_state" where
  "replace_messages ms st = bump_revision (st\<lparr>st_messages := ms\<rparr>)"

definition truncate_messages :: "nat \<Rightarrow> 'v session_state \<Rightarrow> 'v session_state" where
  "truncate_messages n st =
    (if n < length (st_messages st) then bump_revision (st\<lparr>st_messages := take n (st_messages st)\<rparr>)
     else st)"

definition session_clear :: "'v session_state \<Rightarrow> 'v session_state" where
  "session_clear st = bump_revision (st\<lparr>st_messages := []\<rparr>)"

definition push :: "'v message \<Rightarrow> 'v session_state \<Rightarrow> 'v session_state" where
  "push m st = bump_revision (st\<lparr>st_messages := st_messages st @ [m]\<rparr>)"

definition with_context_revision :: "nat \<Rightarrow> 'v session_state \<Rightarrow> 'v session_state" where
  "with_context_revision revision st = st\<lparr>st_context_revision := revision\<rparr>"

definition context_slot_matches :: "string \<Rightarrow> string \<Rightarrow> bool" where
  "context_slot_matches text slot_prefix = (case strip_prefix slot_prefix text of
     None \<Rightarrow> False
   | Some rest \<Rightarrow> starts_with ''>'' rest \<or> starts_with_ws rest)"

text \<open>\<open>find_map\<close> over the messages from the last to the first.\<close>

fun find_slot :: "string \<Rightarrow> string \<Rightarrow> 'v message list \<Rightarrow> bool option" where
  "find_slot slot_prefix text [] = None"
| "find_slot slot_prefix text (m # ms) =
    (case m of
       Context current \<Rightarrow>
         if context_slot_matches current slot_prefix then Some (current = text) else find_slot slot_prefix text ms
     | _ \<Rightarrow> find_slot slot_prefix text ms)"

definition append_context_slot_if_changed :: "string \<Rightarrow> string \<Rightarrow> 'v session_state \<Rightarrow> bool \<times> 'v session_state" where
  "append_context_slot_if_changed slot text st =
    (if find_slot (''<'' @ slot) text (rev (st_messages st)) = Some True then (False, st)
     else (True, push (Context text) st))"

definition upsert_injection ::
  "context_injection_record list \<Rightarrow> context_injection_record \<Rightarrow> context_injection_record list" where
  "upsert_injection injections r = filter (\<lambda>c. ci_id c \<noteq> ci_id r) injections @ [r]"

definition note_injection ::
  "'v serde \<Rightarrow> 'v message \<Rightarrow> context_injection_record list \<Rightarrow> context_injection_record list" where
  "note_injection js m injections = (case m of
     Context text \<Rightarrow> (case from_context_message js text of
         None \<Rightarrow> injections
       | Some r \<Rightarrow> upsert_injection injections r)
   | _ \<Rightarrow> injections)"

definition context_injections_from_messages ::
  "'v serde \<Rightarrow> 'v message list \<Rightarrow> context_injection_record list" where
  "context_injections_from_messages js ms = fold (note_injection js) ms []"

definition injection_header_ok :: "string \<Rightarrow> context_injection_record \<Rightarrow> bool" where
  "injection_header_ok text r = (case strip_prefix (''<'' @ ci_id r) text of
     None \<Rightarrow> False
   | Some tail \<Rightarrow> (starts_with ''>'' tail \<or> starts_with_ws tail)
       \<and> contains_sub (''fingerprint=\"'' @ ci_fingerprint r @ ''\"'') tail)"

definition append_context_injection ::
  "'v serde \<Rightarrow> string \<Rightarrow> context_injection_record \<Rightarrow> 'v session_state
    \<Rightarrow> context_injection_record option \<times> 'v session_state" where
  "append_context_injection js text r st =
    (if \<not> injection_header_ok text r then (None, st)
     else
       (let previous = find (\<lambda>p. ci_id p = ci_id r) (context_injections_from_messages js (st_messages st));
            store = (\<lambda>r. case replace_context_message_metadata js r text of
               None \<Rightarrow> (None, st)
             | Some t \<Rightarrow> (Some r, bump_revision (st\<lparr>st_messages := st_messages st @ [Context t]\<rparr>)))
        in case previous of
             None \<Rightarrow> store r
           | Some p \<Rightarrow>
               if ci_fingerprint p = ci_fingerprint r then (None, st)
               else store (r\<lparr>ci_supersedes := Some (ci_fingerprint p)\<rparr>)))"

subsection \<open>Repair of interrupted tool batches\<close>

text \<open>
  The loop of \<open>repair_tool_groups\<close>: the repaired prefix, the calls of the open group
  without a result (a set), and where the open group starts in the prefix.
\<close>

type_synonym 'v repair = "'v message list \<times> string set \<times> nat option"

definition drop_group :: "'v message list \<Rightarrow> nat option \<Rightarrow> 'v message list" where
  "drop_group repaired group_start = (case group_start of None \<Rightarrow> repaired | Some i \<Rightarrow> take i repaired)"

definition repair_step :: "'v repair \<Rightarrow> 'v message \<Rightarrow> 'v repair" where
  "repair_step acc m = (case acc of (repaired, pending, group_start) \<Rightarrow>
    (case m of
       Assistant r t calls \<Rightarrow>
         if calls \<noteq> [] then
           (let kept = drop_group repaired group_start;
                pending' = (if group_start = None then pending else {})
            in (kept @ [m], pending' \<union> set (map tc_id calls), Some (length kept)))
         else if group_start \<noteq> None then (drop_group repaired group_start @ [m], {}, None)
         else (repaired @ [m], pending, None)
     | Tool call_id n c e out \<Rightarrow>
         if group_start \<noteq> None then
           (if call_id \<in> pending then
              (let pending' = pending - {call_id}
               in (repaired @ [m], pending', if pending' = {} then None else group_start))
            else (drop_group repaired group_start, {}, None))
         else (repaired @ [m], pending, None)
     | _ \<Rightarrow>
         if group_start \<noteq> None then (drop_group repaired group_start @ [m], {}, None)
         else (repaired @ [m], pending, None)))"

definition repair_tool_groups :: "'v message list \<Rightarrow> 'v message list" where
  "repair_tool_groups ms =
    (case foldl repair_step ([], {}, None) ms of (repaired, _, group_start) \<Rightarrow> drop_group repaired group_start)"

definition repair_incomplete_tool_groups :: "'v session_state \<Rightarrow> nat \<times> 'v session_state" where
  "repair_incomplete_tool_groups st =
    (let repaired = repair_tool_groups (st_messages st);
         removed = length (st_messages st) - length repaired
     in (removed, if 0 < removed then replace_messages repaired st else st))"

subsection \<open>Measures of the model input\<close>

definition context_bytes_for :: "'v serde \<Rightarrow> string \<Rightarrow> 'v message list \<Rightarrow> 'v tool_spec list \<Rightarrow> nat" where
  "context_bytes_for js prompt ms specs =
    length prompt + length (ser_messages js ms) + length (ser_specs js specs)"

definition context_bytes :: "'v serde \<Rightarrow> string \<Rightarrow> 'v tool_spec list \<Rightarrow> 'v session_state \<Rightarrow> nat" where
  "context_bytes js prompt specs st = context_bytes_for js prompt (st_messages st) specs"

definition add_breakdown :: "nat \<Rightarrow> 'v message \<Rightarrow> context_byte_breakdown \<Rightarrow> context_byte_breakdown" where
  "add_breakdown bytes m b = (case m of
     Context text \<Rightarrow>
       if context_slot_matches text ''<activated_skills'' \<or> context_slot_matches text ''<available_extensions''
          \<or> starts_with ''<skill_definition_'' text
       then b\<lparr>cb_skills := sat_add (cb_skills b) bytes\<rparr>
       else if context_slot_matches text ''<world_state'' \<or> context_slot_matches text ''<session_capabilities''
       then b\<lparr>cb_workspace_state := sat_add (cb_workspace_state b) bytes\<rparr>
       else if starts_with ''<workspace_instruction_'' text
       then b\<lparr>cb_project_instructions := sat_add (cb_project_instructions b) bytes\<rparr>
       else b\<lparr>cb_other := sat_add (cb_other b) bytes\<rparr>
   | _ \<Rightarrow> b\<lparr>cb_conversation := sat_add (cb_conversation b) bytes\<rparr>)"

definition context_byte_breakdown_for ::
  "'v serde \<Rightarrow> string \<Rightarrow> 'v message list \<Rightarrow> 'v tool_spec list \<Rightarrow> context_byte_breakdown" where
  "context_byte_breakdown_for js prompt ms specs =
    fold (\<lambda>m. add_breakdown (length (ser_message js m)) m) ms
      \<lparr>cb_system_prompt = length prompt, cb_project_instructions = 0, cb_skills = 0,
       cb_workspace_state = 0, cb_conversation = 0, cb_tools = length (ser_specs js specs), cb_other = 0\<rparr>"

definition model_input_digest :: "'v serde \<Rightarrow> string \<Rightarrow> 'v message list \<Rightarrow> 'v tool_spec list \<Rightarrow> string" where
  "model_input_digest js prompt ms specs = stable_digest (ser_input js (prompt, ms, specs))"

definition tool_manifest_digest :: "'v serde \<Rightarrow> 'v tool_spec list \<Rightarrow> string" where
  "tool_manifest_digest js specs = stable_digest (ser_specs js specs)"

subsection \<open>Answered tool calls\<close>

text \<open>
  The calls still owed a result after a conversation; \<open>None\<close> when a group was left
  incomplete.  A tool message outside any open group is let through, as the code does.
\<close>

definition owed_step :: "string set option \<Rightarrow> 'v message \<Rightarrow> string set option" where
  "owed_step acc m = (case acc of None \<Rightarrow> None | Some pending \<Rightarrow>
    (case m of
       Assistant r t calls \<Rightarrow> if pending = {} then Some (set (map tc_id calls)) else None
     | Tool call_id n c e out \<Rightarrow>
         if pending = {} then Some {} else if call_id \<in> pending then Some (pending - {call_id}) else None
     | _ \<Rightarrow> if pending = {} then Some {} else None))"

definition owed :: "'v message list \<Rightarrow> string set option" where
  "owed ms = foldl owed_step (Some {}) ms"

definition complete_groups :: "'v message list \<Rightarrow> bool" where
  "complete_groups ms \<longleftrightarrow> owed ms = Some {}"

text \<open>The messages a repair never drops: contexts, user input and plain answers.\<close>

definition plain_message :: "'v message \<Rightarrow> bool" where
  "plain_message m = (case m of
     Assistant r t calls \<Rightarrow> calls = [] | Tool call_id n c e out \<Rightarrow> False | _ \<Rightarrow> True)"

lemma owed_Nil [simp]: "owed [] = Some {}"
  by (simp add: owed_def)

lemma owed_snoc [simp]: "owed (ms @ [m]) = owed_step (owed ms) m"
  by (simp add: owed_def)

lemma owed_append: "owed xs = Some {} \<Longrightarrow> owed (xs @ ys) = owed ys"
  by (simp add: owed_def)

lemma owed_step_None [simp]: "owed_step None m = None"
  by (simp add: owed_step_def)

lemma owed_step_simps:
  "owed_step (Some P) (Context text) = (if P = {} then Some {} else None)"
  "owed_step (Some P) (User text) = (if P = {} then Some {} else None)"
  "owed_step (Some P) (Assistant r t calls) = (if P = {} then Some (set (map tc_id calls)) else None)"
  "owed_step (Some P) (Tool i n c e out) =
    (if P = {} then Some {} else if i \<in> P then Some (P - {i}) else None)"
  by (simp_all add: owed_step_def)

lemma complete_groups_append:
  "complete_groups xs \<Longrightarrow> complete_groups ys \<Longrightarrow> complete_groups (xs @ ys)"
  by (simp add: complete_groups_def owed_append)

lemma complete_groups_plain: "list_all plain_message ms \<Longrightarrow> complete_groups ms"
proof (induction ms rule: rev_induct)
  case (snoc m ms)
  then show ?case
    by (auto simp: complete_groups_def owed_step_def plain_message_def split: message.splits)
qed (simp add: complete_groups_def)

lemma complete_groups_snoc_plain: "complete_groups ms \<Longrightarrow> plain_message m \<Longrightarrow> complete_groups (ms @ [m])"
  by (simp add: complete_groups_append complete_groups_plain)

text \<open>The invariant of the repair loop after the messages \<open>done\<close>.\<close>

definition repair_inv :: "'v message list \<Rightarrow> 'v repair \<Rightarrow> bool" where
  "repair_inv seen acc = (case acc of (repaired, pending, group_start) \<Rightarrow>
     subseq repaired seen \<and> filter plain_message repaired = filter plain_message seen \<and>
     owed repaired = Some pending \<and>
     (case group_start of
        None \<Rightarrow> pending = {}
      | Some i \<Rightarrow> pending \<noteq> {} \<and> i \<le> length repaired \<and> owed (take i repaired) = Some {} \<and>
          (\<forall>m \<in> set (drop i repaired). \<not> plain_message m)))"

lemma repair_inv_drop_group:
  assumes "repair_inv seen (repaired, pending, gs)"
  shows "subseq (drop_group repaired gs) seen"
    and "filter plain_message (drop_group repaired gs) = filter plain_message seen"
    and "owed (drop_group repaired gs) = Some {}"
    and "\<And>i. gs = Some i \<Longrightarrow> length (drop_group repaired gs) = i"
proof -
  show "subseq (drop_group repaired gs) seen"
    using assms subseq_order.order_trans [OF prefix_imp_subseq [OF take_is_prefix]]
    by (cases gs) (auto simp: repair_inv_def drop_group_def)
  show "owed (drop_group repaired gs) = Some {}"
    using assms by (cases gs) (auto simp: repair_inv_def drop_group_def)
  show "filter plain_message (drop_group repaired gs) = filter plain_message seen"
  proof (cases gs)
    case (Some i)
    have "filter plain_message repaired
        = filter plain_message (take i repaired) @ filter plain_message (drop i repaired)"
      by (metis append_take_drop_id filter_append)
    with assms Some show ?thesis
      by (auto simp: repair_inv_def drop_group_def filter_empty_conv)
  qed (use assms in \<open>auto simp: repair_inv_def drop_group_def\<close>)
  show "\<And>i. gs = Some i \<Longrightarrow> length (drop_group repaired gs) = i"
    using assms by (auto simp: repair_inv_def drop_group_def)
qed

lemma repair_inv_step: 
  assumes "repair_inv seen acc"
  shows "repair_inv (seen @ [m]) (repair_step acc m)"
proof -
  obtain rep P gs where acc: "acc = (rep, P, gs)" by (cases acc) auto
  note inv = assms [unfolded acc]
  note d = repair_inv_drop_group [OF inv]
  show ?thesis
  proof (cases m)
    case (Assistant r t calls)
    show ?thesis
    proof (cases "calls = []")
      case False
      show ?thesis using inv d Assistant False
        by (cases gs) (auto simp: acc repair_step_def repair_inv_def owed_step_def plain_message_def
          Let_def list_emb_append_mono)
    qed (use inv d Assistant in \<open>cases gs; auto simp: acc repair_step_def repair_inv_def owed_step_def
          plain_message_def list_emb_append_mono\<close>)
  next
    case (Tool call_id n c e out)
    then show ?thesis using inv d
      by (cases gs) (auto simp: acc repair_step_def repair_inv_def owed_step_def plain_message_def
          Let_def list_emb_append_mono)
  qed (use inv d in \<open>cases gs; auto simp: acc repair_step_def repair_inv_def owed_step_def
          plain_message_def list_emb_append_mono\<close>)+
qed

lemma repair_inv_foldl: "repair_inv seen acc \<Longrightarrow> repair_inv (seen @ ms) (foldl repair_step acc ms)"
proof (induction ms arbitrary: seen acc)
  case (Cons m ms)
  show ?case using Cons.IH [OF repair_inv_step [OF Cons.prems, of m]] by simp
qed simp

lemma repair_inv_all: "repair_inv ms (foldl repair_step ([], {}, None) ms)"
  using repair_inv_foldl [of "[]" "([], {}, None)" ms] by (simp add: repair_inv_def)

lemma repair_tool_groups_inv:
  "subseq (repair_tool_groups ms) ms"
  "filter plain_message (repair_tool_groups ms) = filter plain_message ms"
  "complete_groups (repair_tool_groups ms)"
proof -
  obtain rep P gs where acc: "foldl repair_step ([], {}, None) ms = (rep, P, gs)"
    using prod_cases3 by blast
  from repair_inv_drop_group [OF repair_inv_all [of ms, unfolded acc]]
  show "subseq (repair_tool_groups ms) ms"
    "filter plain_message (repair_tool_groups ms) = filter plain_message ms"
    "complete_groups (repair_tool_groups ms)"
    by (simp_all add: repair_tool_groups_def acc complete_groups_def)
qed

text \<open>While nothing is missing the loop copies its input.\<close>

lemma repair_step_copies:
  assumes "owed_step (Some Q) m = Some P" and "gs = None \<longleftrightarrow> Q = {}"
  shows "\<exists>gs'. repair_step (rep, Q, gs) m = (rep @ [m], P, gs') \<and> (gs' = None \<longleftrightarrow> P = {})"
  using assms
  by (cases m) (auto simp: repair_step_def owed_step_def drop_group_def Let_def split: if_splits)

lemma repair_copies:
  "owed ms = Some P \<Longrightarrow>
    \<exists>gs. foldl repair_step ([], {}, None) ms = (ms, P, gs) \<and> (gs = None \<longleftrightarrow> P = {})"
proof (induction ms arbitrary: P rule: rev_induct)
  case (snoc m ms)
  then obtain Q where Q: "owed ms = Some Q" by (cases "owed ms") auto
  from snoc.IH [OF this] obtain gs where gs: "foldl repair_step ([], {}, None) ms = (ms, Q, gs)"
      "gs = None \<longleftrightarrow> Q = {}" by blast
  from snoc.prems Q have step: "owed_step (Some Q) m = Some P" by simp
  show ?case using repair_step_copies [OF step gs(2)] gs(1) by simp
qed simp

lemma repair_complete_id: "complete_groups ms \<Longrightarrow> repair_tool_groups ms = ms"
  using repair_copies [of ms "{}"] by (auto simp: complete_groups_def repair_tool_groups_def drop_group_def)

lemma length_repair: "length (repair_tool_groups ms) \<le> length ms"
  using repair_tool_groups_inv(1) list_emb_length by blast

lemma repair_removed_zero: "length ms - length (repair_tool_groups ms) = 0 \<longleftrightarrow> complete_groups ms"
proof
  assume "length ms - length (repair_tool_groups ms) = 0"
  with length_repair [of ms] have "length (repair_tool_groups ms) = length ms" by simp
  with repair_tool_groups_inv(1) have "repair_tool_groups ms = ms" by (rule subseq_same_length)
  with repair_tool_groups_inv(3) [of ms] show "complete_groups ms" by simp
qed (simp add: repair_complete_id)

lemma repair_incomplete_spec:
  "repair_incomplete_tool_groups st = (if complete_groups (st_messages st) then (0, st)
     else (length (st_messages st) - length (repair_tool_groups (st_messages st)),
           replace_messages (repair_tool_groups (st_messages st)) st))"
  using repair_removed_zero [of "st_messages st"]
  by (auto simp: repair_incomplete_tool_groups_def Let_def repair_complete_id)

lemma complete_groups_repaired: "complete_groups (st_messages (snd (repair_incomplete_tool_groups st)))"
  by (simp add: repair_incomplete_spec replace_messages_def bump_revision_def repair_tool_groups_inv)

text \<open>
  C34.  Repairing an interrupted history yields one in which every assistant message with tool
  calls is followed at once by the results of all of them; a history that already has this
  form is left as it is; no context, user message or plain answer is ever dropped or moved,
  and nothing is added.
\<close>

theorem repair_restores_complete_groups:
  "complete_groups (repair_tool_groups ms)
   \<and> (repair_tool_groups ms = ms \<longleftrightarrow> complete_groups ms)
   \<and> filter plain_message (repair_tool_groups ms) = filter plain_message ms
   \<and> subseq (repair_tool_groups ms) ms"
  using repair_tool_groups_inv repair_complete_id by metis
subsection \<open>The inventory of injected contexts\<close>

text \<open>
  The contract of the inventory: one record per slot, the latest one.  The client's lemma
  says what a whole conversation leaves in it.
\<close>

locale slot_store =
  fixes lookup :: "'k \<Rightarrow> 'i \<Rightarrow> 'r option"
    and upsert :: "'i \<Rightarrow> 'r \<Rightarrow> 'i"
    and empty :: 'i
    and key :: "'r \<Rightarrow> 'k"
  assumes lookup_empty: "lookup k empty = None"
    and lookup_upsert: "lookup k (upsert i r) = (if k = key r then Some r else lookup k i)"
begin

lemma lookup_foldl:
  "lookup k (foldl upsert i rs) = (case find (\<lambda>r. key r = k) (rev rs) of None \<Rightarrow> lookup k i | Some r \<Rightarrow> Some r)"
  by (induction rs rule: rev_induct) (auto simp: lookup_upsert)

lemma latest_wins: "lookup k (foldl upsert empty rs) = find (\<lambda>r. key r = k) (rev rs)"
  by (simp add: lookup_foldl lookup_empty split: option.splits)

end

definition lookup_injection ::
  "string \<Rightarrow> context_injection_record list \<Rightarrow> context_injection_record option" where
  "lookup_injection i injections = find (\<lambda>p. ci_id p = i) injections"

lemma find_append: "find p (xs @ ys) = (case find p xs of None \<Rightarrow> find p ys | Some x \<Rightarrow> Some x)"
  by (induction xs) auto

lemma find_filter_other:
  "k \<noteq> l \<Longrightarrow> find (\<lambda>p. f p = k) (filter (\<lambda>c. f c \<noteq> l) xs) = find (\<lambda>p. f p = k) xs"
  by (induction xs) auto

lemma lookup_upsert_injection:
  "lookup_injection k (upsert_injection is r) = (if k = ci_id r then Some r else lookup_injection k is)"
proof -
  have "find (\<lambda>p. ci_id p = ci_id r) (filter (\<lambda>c. ci_id c \<noteq> ci_id r) is) = None"
    by (auto simp: find_None_iff)
  then show ?thesis
    by (simp add: lookup_injection_def upsert_injection_def find_append find_filter_other
        split: option.splits)
qed

interpretation inventory: slot_store lookup_injection upsert_injection "[]" ci_id
  by unfold_locales (simp_all add: lookup_upsert_injection, simp add: lookup_injection_def)

definition injection_of :: "'v serde \<Rightarrow> 'v message \<Rightarrow> context_injection_record option" where
  "injection_of js m = (case m of Context text \<Rightarrow> from_context_message js text | _ \<Rightarrow> None)"

lemma note_injection_alt:
  "note_injection js m is = (case injection_of js m of None \<Rightarrow> is | Some r \<Rightarrow> upsert_injection is r)"
  by (simp add: note_injection_def injection_of_def split: message.splits)

lemma fold_note_injection:
  "fold (note_injection js) ms is = foldl upsert_injection is (List.map_filter (injection_of js) ms)"
  by (induction ms arbitrary: "is") (auto simp: note_injection_alt map_filter_simps split: option.splits)

lemma context_injections_snoc:
  "context_injections_from_messages js (ms @ [m])
    = note_injection js m (context_injections_from_messages js ms)"
  by (simp add: context_injections_from_messages_def)

lemma distinct_upsert: "distinct (map ci_id is) \<Longrightarrow> distinct (map ci_id (upsert_injection is r))"
  by (auto simp: upsert_injection_def distinct_map_filter)

lemma distinct_injections: "distinct (map ci_id (context_injections_from_messages js ms))"
  by (induction ms rule: rev_induct)
    (auto simp: context_injections_snoc note_injection_alt distinct_upsert
      context_injections_from_messages_def [of _ "[]"] split: option.splits)

text \<open>
  The inventory of injected contexts holds one record per slot, and it is the record of the
  last message that declares the slot.
\<close>

theorem context_inventory_latest_wins:
  "distinct (map ci_id (context_injections_from_messages js ms))
   \<and> find (\<lambda>r. ci_id r = slot) (context_injections_from_messages js ms)
     = find (\<lambda>r. ci_id r = slot) (rev (List.map_filter (injection_of js) ms))"
  using inventory.latest_wins [of slot "List.map_filter (injection_of js) ms"] distinct_injections
  by (simp add: context_injections_from_messages_def fold_note_injection lookup_injection_def)

subsection \<open>Context records round-trip through the conversation\<close>

definition injection_ok :: "'v serde \<Rightarrow> context_injection_record \<Rightarrow> bool" where
  "injection_ok js r \<longleftrightarrow> de_injection js (ser_injection js r) = Some r
     \<and> \<not> contains_sub metadata_close (ser_injection js r)
     \<and> newline_byte \<notin> set (ci_id r) \<and> set (ci_id r) \<inter> {CHR '' '', CHR ''>'', CHR 0x09, CHR 0x22} = {}
     \<and> newline_byte \<notin> set (ci_fingerprint r) \<and> CHR 0x22 \<notin> set (ci_fingerprint r)"

lemma from_context_message_parts:
  assumes "injection_ok js r"
  shows "from_context_message js (''<'' @ ci_id r @ '' fingerprint=\"'' @ ci_fingerprint r @ ''\">'' @ newline
    @ metadata_open @ ser_injection js r @ metadata_close @ rest) = Some r"
proof -
  note ok = assms [unfolded injection_ok_def]
  let ?opening = "''<'' @ ci_id r @ '' fingerprint=\"'' @ ci_fingerprint r @ ''\">''"
  have 1: "split_once newline (?opening @ newline @ t) = Some (?opening, t)" for t
    unfolding newline_def by (rule split_once_head) (use ok in \<open>auto simp: newline_byte_def\<close>)
  have 2: "split_once ''fingerprint=\"'' ?opening = Some (''<'' @ ci_id r @ '' '', ci_fingerprint r @ ''\">'')"
    using split_once_guarded [of "CHR '' ''" "''fingerprint=\"''" "CHR 0x22" "''<'' @ ci_id r"
        "ci_fingerprint r @ ''\">''"] ok by auto
  have 3: "split_once ''\"'' (ci_fingerprint r @ ''\">'') = Some (ci_fingerprint r, ''>'')"
    using split_once_head [of "CHR 0x22" "ci_fingerprint r" "[]" "''>''"] ok by simp
  have 4: "split_once metadata_close (ser_injection js r @ metadata_close @ rest) = Some (ser_injection js r, rest)"
    unfolding metadata_close_def
    by (rule split_once_no_occurrence) (use ok in \<open>auto simp: metadata_close_def\<close>)
  have 5: "takeWhile (\<lambda>c. c \<notin> set [CHR '' '', CHR ''>'', CHR 0x09]) (ci_id r @ '' fingerprint=\"'' @ t) = ci_id r" for t
    using ok by (subst takeWhile_append2) auto
  have 6: "strip_prefix ''<'' ?opening = Some (ci_id r @ '' fingerprint=\"'' @ ci_fingerprint r @ ''\">'')"
    by (simp only: strip_prefix_append)
  show ?thesis
    using 1 [of "metadata_open @ ser_injection js r @ metadata_close @ rest"] 2 3 4 5 6 ok
    by (simp add: from_context_message_def Let_def)
qed

text \<open>
  The header of a context message reads back as the record it was written from, when the
  encoder's output decodes and holds no closing tag and the slot and fingerprint are
  delimiter-free.
\<close>

theorem context_message_roundtrip:
  assumes "injection_ok js r"
  shows "from_context_message js (context_message js r body) = Some r"
  unfolding context_message_def by (rule from_context_message_parts [OF assms])

lemma context_message_from: "injection_ok js r \<Longrightarrow> from_context_message js (context_message js r body) = Some r"
  unfolding context_message_def by (rule from_context_message_parts)

text \<open>
  Rewriting the metadata header of a framed context: the opening line stays, so a record
  with the same slot and fingerprint reads back.
\<close>

lemma replace_metadata_framed:
  assumes ok: "injection_ok js r" and eq: "ci_id r' = ci_id r" "ci_fingerprint r' = ci_fingerprint r"
  shows "replace_context_message_metadata js r' (context_message js r body) = Some (context_message js r' body)"
proof -
  let ?opening = "''<'' @ ci_id r @ '' fingerprint=\"'' @ ci_fingerprint r @ ''\">''"
  note ok' = ok [unfolded injection_ok_def]
  have 1: "split_once newline (?opening @ newline @ t) = Some (?opening, t)" for t
    unfolding newline_def by (rule split_once_head) (use ok' in \<open>auto simp: newline_byte_def\<close>)
  have open_free: "\<not> contains_sub metadata_close (metadata_open @ ser_injection js r)"
  proof
    assume "contains_sub metadata_close (metadata_open @ ser_injection js r)"
    then obtain a b where ab: "metadata_open @ ser_injection js r = a @ metadata_close @ b"
      by (auto simp: contains_sub_iff)
    show False
    proof (cases "length metadata_open \<le> length a")
      case True
      with ab have "ser_injection js r = drop (length metadata_open) a @ metadata_close @ b"
        by (metis append_eq_append_conv_if append_eq_conv_conj drop_append diff_is_0_eq' drop_0)
      with ok' show False by (metis contains_sub_iff)
    next
      case False
      then have "length a < 28" by (simp add: metadata_open_def)
      have "(metadata_open @ ser_injection js r) ! length a = CHR ''<''"
        unfolding ab by (simp add: metadata_close_def)
      then have "metadata_open ! length a = CHR ''<''" using False by (simp add: nth_append)
      moreover have "metadata_open = CHR ''<'' # tl metadata_open" "CHR ''<'' \<notin> set (tl metadata_open)"
        by (simp_all add: metadata_open_def)
      ultimately have "a = []" using False
        by (metis Suc_less_eq Suc_pred length_Cons length_greater_0_conv not_le nth_Cons_Suc nth_mem)
      with ab have "(metadata_open @ ser_injection js r) ! 1 = CHR ''/''" by (simp add: metadata_close_def)
      then show False by (simp add: metadata_open_def nth_append)
    qed
  qed
  have 2: "split_once metadata_close (metadata_open @ ser_injection js r @ metadata_close @ t)
      = Some (metadata_open @ ser_injection js r, t)" for t
    using split_once_no_occurrence [of "CHR ''<''" "tl metadata_close" "metadata_open @ ser_injection js r" t]
      open_free by (simp add: metadata_close_def)
  have 3: "starts_with (''<'' @ ci_id r @ '' '') ?opening"
    by (simp add: starts_with_iff)
  show ?thesis
    unfolding replace_context_message_metadata_def context_message_def
    using 1 [of "metadata_open @ ser_injection js r @ metadata_close @ newline @ body @ newline @ ''</'' @ ci_id r @ ''>''"] 2 3
    by (simp add: eq)
qed

lemma injection_header_framed: "injection_header_ok (context_message js r body) r"
proof -
  have tail: "strip_prefix (''<'' @ ci_id r) (context_message js r body)
      = Some ('' '' @ (''fingerprint=\"'' @ ci_fingerprint r @ ''\"'') @ ''>'' @ newline @ metadata_open
          @ ser_injection js r @ metadata_close @ newline @ body @ newline @ ''</'' @ ci_id r @ ''>'')"
    by (simp add: strip_prefix_Some_iff context_message_def)
  have "starts_with_ws ('' '' @ t)" for t
    by (simp add: starts_with_ws_def ws_width_def bv_def)
  moreover have "contains_sub (''fingerprint=\"'' @ ci_fingerprint r @ ''\"'')
      ('' '' @ (''fingerprint=\"'' @ ci_fingerprint r @ ''\"'') @ t)" for t
    unfolding contains_sub_iff by blast
  ultimately show ?thesis unfolding injection_header_ok_def tail by simp
qed

definition superseding ::
  "context_injection_record option \<Rightarrow> context_injection_record \<Rightarrow> context_injection_record" where
  "superseding previous r = (case previous of None \<Rightarrow> r | Some p \<Rightarrow> r\<lparr>ci_supersedes := Some (ci_fingerprint p)\<rparr>)"

definition active_injection :: "'v serde \<Rightarrow> 'v session_state \<Rightarrow> string \<Rightarrow> context_injection_record option" where
  "active_injection js st slot =
    find (\<lambda>p. ci_id p = slot) (context_injections_from_messages js (st_messages st))"

lemma injection_ok_superseding:
  assumes "\<And>s. injection_ok js (r\<lparr>ci_supersedes := s\<rparr>)"
  shows "injection_ok js (superseding p r)"
  using assms [of "ci_supersedes r"] assms by (simp add: superseding_def split: option.split)

lemma superseding_key [simp]:
  "ci_id (superseding p r) = ci_id r" "ci_fingerprint (superseding p r) = ci_fingerprint r"
  by (simp_all add: superseding_def split: option.split)

lemma append_framed_context:
  assumes "\<And>s. injection_ok js (r\<lparr>ci_supersedes := s\<rparr>)"
  shows "append_context_injection js (context_message js r body) r st =
    (if map_option ci_fingerprint (active_injection js st (ci_id r)) = Some (ci_fingerprint r) then (None, st)
     else (Some (superseding (active_injection js st (ci_id r)) r),
       push (Context (context_message js (superseding (active_injection js st (ci_id r)) r) body)) st))"
proof -
  have ok: "injection_ok js r" using assms [of "ci_supersedes r"] by simp
  have repl: "replace_context_message_metadata js (superseding p r) (context_message js r body)
      = Some (context_message js (superseding p r) body)" for p
    by (rule replace_metadata_framed [OF ok]) simp_all
  show ?thesis
  proof (cases "active_injection js st (ci_id r)")
    case None
    then show ?thesis using repl [of None]
      by (simp add: append_context_injection_def injection_header_framed active_injection_def
          superseding_def push_def)
  next
    case (Some p)
    then show ?thesis using repl [of "Some p"]
      by (simp add: append_context_injection_def injection_header_framed active_injection_def
          superseding_def push_def)
  qed
qed

text \<open>
  Appending a host context either leaves the conversation as it is, when the active record of
  its slot has the same fingerprint, or appends one message at the end, whose record names the
  fingerprint it supersedes and becomes the active record of its slot, all other slots unchanged.
\<close>

theorem append_context_injection_spec:
  assumes "\<And>s. injection_ok js (r\<lparr>ci_supersedes := s\<rparr>)"
  shows "(case append_context_injection js (context_message js r body) r st of
      (None, st') \<Rightarrow> st' = st \<and> map_option ci_fingerprint (active_injection js st (ci_id r)) = Some (ci_fingerprint r)
    | (Some r', st') \<Rightarrow> r' = superseding (active_injection js st (ci_id r)) r
        \<and> st' = push (Context (context_message js r' body)) st
        \<and> active_injection js st' = (active_injection js st)(ci_id r \<mapsto> r'))"
proof -
  let ?r' = "superseding (active_injection js st (ci_id r)) r"
  have "injection_of js (Context (context_message js ?r' body)) = Some ?r'"
    by (simp add: injection_of_def context_message_from injection_ok_superseding assms)
  then have "active_injection js (push (Context (context_message js ?r' body)) st)
      = (active_injection js st)(ci_id r \<mapsto> ?r')"
    using inventory.lookup_upsert [of _ _ ?r']
    by (simp add: active_injection_def fun_eq_iff push_def bump_revision_def context_injections_snoc
        note_injection_alt lookup_injection_def)
  then show ?thesis by (simp add: append_framed_context [OF assms])
qed

subsection \<open>The byte breakdown accounts for every byte\<close>

definition breakdown_total :: "context_byte_breakdown \<Rightarrow> nat" where
  "breakdown_total b = cb_system_prompt b + cb_project_instructions b + cb_skills b
     + cb_workspace_state b + cb_conversation b + cb_tools b + cb_other b"

lemma add_breakdown_total:
  "breakdown_total b + n \<le> u64_max \<Longrightarrow> breakdown_total (add_breakdown n m b) = breakdown_total b + n"
  by (auto simp: add_breakdown_def breakdown_total_def sat_add_eq split: message.splits)

lemma fold_breakdown_total:
  "breakdown_total b + sum_list (map f ms) \<le> u64_max \<Longrightarrow>
    breakdown_total (fold (\<lambda>m. add_breakdown (f m) m) ms b) = breakdown_total b + sum_list (map f ms)"
  by (induction ms arbitrary: b) (auto simp: add_breakdown_total)

text \<open>
  The parts of the context breakdown add up to the prompt, the tool manifest and every
  message's encoding, so no byte is counted twice or left out.
\<close>

theorem context_byte_breakdown_exact:
  assumes "length prompt + length (ser_specs js specs) + (\<Sum>m\<leftarrow>ms. length (ser_message js m)) \<le> u64_max"
  shows "breakdown_total (context_byte_breakdown_for js prompt ms specs)
    = length prompt + length (ser_specs js specs) + (\<Sum>m\<leftarrow>ms. length (ser_message js m))"
  using fold_breakdown_total [of "\<lparr>cb_system_prompt = length prompt, cb_project_instructions = 0,
      cb_skills = 0, cb_workspace_state = 0, cb_conversation = 0, cb_tools = length (ser_specs js specs),
      cb_other = 0\<rparr>" "\<lambda>m. length (ser_message js m)" ms] assms
  by (simp add: context_byte_breakdown_for_def breakdown_total_def)
subsection \<open>Witnesses\<close>

text \<open>A small encoder at which the theorems about encoded contexts are applied.\<close>

definition sample_enc :: "string \<Rightarrow> string" where
  "sample_enc s = concat (map (\<lambda>c. if c = CHR ''<'' then ''aa'' else [CHR ''b'', c]) s)"

fun sample_dec :: "string \<Rightarrow> string" where
  "sample_dec (a # c # s) = (if a = CHR ''a'' then CHR ''<'' else c) # sample_dec s"
| "sample_dec _ = []"

definition sample_record :: context_injection_record where
  "sample_record = \<lparr>ci_id = ''world_state'', ci_kind = Kind_WorkspaceState, ci_source = ''host'',
     ci_workspace = None, ci_path = None, ci_scope = ''session'', ci_bytes = 4,
     ci_fingerprint = ''f1'', ci_supersedes = None, ci_reused = False\<rparr>"

definition sample_serde :: "nat serde" where
  "sample_serde = \<lparr>ser_message = (\<lambda>m. ''{}''), ser_messages = (\<lambda>ms. replicate (2 * length ms + 2) (CHR ''m'')),
     ser_specs = (\<lambda>ts. replicate (2 * length ts + 2) (CHR ''t'')), ser_calls = (\<lambda>cs. ''[]''),
     ser_input = (\<lambda>i. ''[]''),
     ser_injection = (\<lambda>r. case ci_supersedes r of None \<Rightarrow> ''n'' | Some s \<Rightarrow> ''s'' @ sample_enc s),
     de_injection = (\<lambda>t. if t = ''n'' then Some sample_record
       else Some (sample_record\<lparr>ci_supersedes := Some (sample_dec (tl t))\<rparr>))\<rparr>"

lemma sample_dec_enc: "sample_dec (sample_enc s) = s"
  by (induction s) (auto simp: sample_enc_def)

lemma sample_enc_free: "CHR ''<'' \<notin> set (sample_enc s)"
  by (induction s) (auto simp: sample_enc_def)

lemma sample_injection_ok: "injection_ok sample_serde (sample_record\<lparr>ci_supersedes := s\<rparr>)"
proof -
  let ?r = "sample_record\<lparr>ci_supersedes := s\<rparr>"
  have "CHR ''<'' \<notin> set (ser_injection sample_serde ?r)"
    using sample_enc_free by (auto simp: sample_serde_def split: option.splits)
  then have "\<not> contains_sub metadata_close (ser_injection sample_serde ?r)"
    by (auto simp: contains_sub_iff metadata_close_def)
  moreover have "de_injection sample_serde (ser_injection sample_serde ?r) = Some ?r"
    by (simp add: sample_serde_def sample_dec_enc split: option.split) (simp add: sample_record_def)
  ultimately show ?thesis by (simp add: injection_ok_def sample_record_def newline_byte_def)
qed

theorem append_context_injection_spec_witness:
  "(case append_context_injection sample_serde (context_message sample_serde sample_record ''idle'')
       sample_record session_new of
      (None, st') \<Rightarrow> st' = session_new \<and> map_option ci_fingerprint
        (active_injection sample_serde session_new (ci_id sample_record)) = Some (ci_fingerprint sample_record)
    | (Some r', st') \<Rightarrow> r' = superseding (active_injection sample_serde session_new (ci_id sample_record)) sample_record
        \<and> st' = push (Context (context_message sample_serde r' ''idle'')) session_new
        \<and> active_injection sample_serde st' = (active_injection sample_serde session_new)(ci_id sample_record \<mapsto> r'))"
  by (rule append_context_injection_spec) (rule sample_injection_ok)

theorem context_message_roundtrip_witness:
  "from_context_message sample_serde (context_message sample_serde (sample_record\<lparr>ci_supersedes := None\<rparr>) ''idle'')
    = Some (sample_record\<lparr>ci_supersedes := None\<rparr>)"
  by (rule context_message_roundtrip) (rule sample_injection_ok)

theorem context_byte_breakdown_exact_witness:
  "breakdown_total (context_byte_breakdown_for sample_serde ''hello'' [User ''x'', Context ''y''] [])
    = length ''hello'' + length (ser_specs sample_serde []) + (\<Sum>m\<leftarrow>[User ''x'', Context ''y'']. length (ser_message sample_serde m))"
  by (rule context_byte_breakdown_exact) (simp add: sample_serde_def u64_max_def)

text \<open>
  A repaired history can still hold the result of a dropped call: when a foreign result
  interrupts a batch, the batch is dropped but a later result of it stays.
\<close>

theorem repair_keeps_orphan_result:
  "repair_tool_groups [Assistant [] [] [\<lparr>tc_id = ''a'', tc_name = ''f'', tc_arguments = v\<rparr>],
      Tool ''x'' ''f'' [] False None, Tool ''a'' ''f'' [] False None] = [Tool ''a'' ''f'' [] False None]"
  by (simp add: repair_tool_groups_def repair_step_def drop_group_def)
end
