(* ===== verification/Text_Cut.thy ===== *)
theory Text_Cut
  imports Rust_Str
begin

section \<open>Cutting text at char boundaries (tool_batch_executor.rs)\<close>

text \<open>
  \<open>truncate_utf8\<close> bounds the output of every tool: it keeps a head and a tail of the text
  around a marker, each cut at a char boundary.  The two loops that look for the boundary
  satisfy one contract, the locale \<open>boundary_search\<close>, on which the slicing lemmas rest.
\<close>

fun floor_char_boundary :: "string \<Rightarrow> nat \<Rightarrow> nat" where
  "floor_char_boundary text index =
    (if 0 < index \<and> \<not> is_char_boundary text index then floor_char_boundary text (index - 1) else index)"

declare floor_char_boundary.simps [simp del]

function ceil_char_boundary :: "string \<Rightarrow> nat \<Rightarrow> nat" where
  "ceil_char_boundary text index =
    (if index < length text \<and> \<not> is_char_boundary text index then ceil_char_boundary text (index + 1)
     else index)"
  by pat_completeness auto
termination
  by (relation "measure (\<lambda>(text, index). length text - index)") auto

declare ceil_char_boundary.simps [simp del]

definition marker :: string where
  "marker = newline_byte # ''[truncated]''"

definition truncate_utf8 :: "string \<Rightarrow> nat \<Rightarrow> string" where
  "truncate_utf8 content max_bytes =
    (if length content \<le> max_bytes then content
     else if max_bytes \<le> length marker
     then take (floor_char_boundary content max_bytes) content
     else
       (let retained_bytes = max_bytes - length marker;
            head_bytes = (retained_bytes + 1) div 2;
            tail_bytes = retained_bytes - head_bytes;
            head_end = floor_char_boundary content head_bytes;
            tail_start = ceil_char_boundary content (length content - tail_bytes)
        in take head_end content @ marker @ drop tail_start content))"

subsection \<open>The contract of a boundary search\<close>

locale boundary_search =
  fixes cut :: "string \<Rightarrow> nat \<Rightarrow> nat"
  assumes cut_boundary: "i \<le> length s \<Longrightarrow> is_char_boundary s (cut s i)"
    and cut_fixed: "is_char_boundary s i \<Longrightarrow> cut s i = i"
begin

lemma utf8_take_cut: "utf8 s \<Longrightarrow> i \<le> length s \<Longrightarrow> utf8 (take (cut s i) s)"
  using utf8_split cut_boundary by blast

lemma utf8_drop_cut: "utf8 s \<Longrightarrow> i \<le> length s \<Longrightarrow> utf8 (drop (cut s i) s)"
  using utf8_split cut_boundary by blast

lemma cut_idem: "i \<le> length s \<Longrightarrow> cut s (cut s i) = cut s i"
  by (simp add: cut_fixed cut_boundary)

lemma cut_le_length: "i \<le> length s \<Longrightarrow> cut s i \<le> length s"
  using is_char_boundary_le cut_boundary by blast

end

lemma floor_char_boundary_le: "floor_char_boundary s i \<le> i"
proof (induction i)
  case (Suc i)
  then show ?case by (subst floor_char_boundary.simps) simp
qed (simp add: floor_char_boundary.simps)

lemma floor_char_boundary_boundary: "is_char_boundary s (floor_char_boundary s i)"
proof (induction i)
  case (Suc i)
  then show ?case by (subst floor_char_boundary.simps) simp
qed (simp add: floor_char_boundary.simps)

lemma floor_char_boundary_greatest:
  "is_char_boundary s j \<Longrightarrow> j \<le> i \<Longrightarrow> j \<le> floor_char_boundary s i"
proof (induction i)
  case (Suc i)
  then show ?case by (subst floor_char_boundary.simps) (auto simp: le_Suc_eq)
qed (simp add: floor_char_boundary.simps)

lemma ceil_char_boundary_props:
  "i \<le> length s \<Longrightarrow> i \<le> ceil_char_boundary s i \<and> is_char_boundary s (ceil_char_boundary s i)"
proof (induction s i rule: ceil_char_boundary.induct)
  case (1 s i)
  show ?case
  proof (cases "i < length s \<and> \<not> is_char_boundary s i")
    case True
    with "1.IH" have "i + 1 \<le> ceil_char_boundary s (i + 1) \<and> is_char_boundary s (ceil_char_boundary s (i + 1))"
      by simp
    with True show ?thesis by (simp add: ceil_char_boundary.simps [of s i])
  next
    case False
    with "1.prems" have "is_char_boundary s i" by (cases "i = length s") auto
    with False show ?thesis by (simp add: ceil_char_boundary.simps [of s i])
  qed
qed

lemma floor_char_boundary_fixed: "is_char_boundary s i \<Longrightarrow> floor_char_boundary s i = i"
  by (subst floor_char_boundary.simps) simp

lemma ceil_char_boundary_fixed: "is_char_boundary s i \<Longrightarrow> ceil_char_boundary s i = i"
  by (subst ceil_char_boundary.simps) simp

interpretation floor: boundary_search floor_char_boundary
  by unfold_locales (simp_all add: floor_char_boundary_boundary floor_char_boundary_fixed)

interpretation ceil: boundary_search ceil_char_boundary
  by unfold_locales (simp_all add: ceil_char_boundary_props ceil_char_boundary_fixed)

subsection \<open>What a truncated text is\<close>

lemma utf8_marker [simp]: "utf8 marker"
proof -
  have "char_width (c # s) = 1 \<and> drop 1 (c # s) = s" if "bv c < 0x80" for c s
    using that by (simp add: char_width_def lead_len_def)
  then have ascii: "utf8 (c # s) = utf8 s" if "bv c < 0x80" for c s
    using that utf8_step [of "c # s"] by simp
  show ?thesis by (simp add: marker_def newline_byte_def ascii bv_def)
qed

lemma length_marker [simp]: "length marker = 12"
  by (simp add: marker_def)

lemma truncate_utf8_long:
  assumes "n < length content" and "12 < n"
  obtains h t where "h \<le> (n - 12 + 1) div 2" and "t \<le> n - 12 - (n - 12 + 1) div 2"
    and "t \<le> length content"
    and "truncate_utf8 content n = take h content @ marker @ drop (length content - t) content"
proof -
  define r where "r = n - 12"
  define h where "h = floor_char_boundary content ((r + 1) div 2)"
  define c where "c = ceil_char_boundary content (length content - (r - (r + 1) div 2))"
  have h: "h \<le> (r + 1) div 2" unfolding h_def by (rule floor_char_boundary_le)
  have c: "length content - (r - (r + 1) div 2) \<le> c" "c \<le> length content"
    unfolding c_def using ceil_char_boundary_props ceil.cut_le_length diff_le_self by blast+
  have "truncate_utf8 content n = take h content @ marker @ drop c content"
    using assms by (simp add: truncate_utf8_def Let_def h_def c_def r_def add.commute add.left_commute)
  moreover have "length content - (length content - c) = c" using c by simp
  moreover have "length content - c \<le> r - (r + 1) div 2" using c by linarith
  ultimately show thesis using h that [of h "length content - c"] by (simp only: r_def) simp
qed

lemma length_truncate_utf8: "length (truncate_utf8 content n) \<le> n"
proof (cases "length content \<le> n \<or> n \<le> length marker")
  case True
  then show ?thesis
    using floor_char_boundary_le [of content n] by (auto simp: truncate_utf8_def min_def)
next
  case False
  then obtain h t where ht: "h \<le> (n - 12 + 1) div 2" "t \<le> n - 12 - (n - 12 + 1) div 2"
    and eq: "truncate_utf8 content n = take h content @ marker @ drop (length content - t) content"
    using truncate_utf8_long [of n content] by (metis length_marker not_le)
  have "length (truncate_utf8 content n) \<le> h + 12 + t" unfolding eq by simp
  also have "\<dots> \<le> n" using ht False by auto
  finally show ?thesis .
qed

lemma utf8_truncate_utf8: "utf8 content \<Longrightarrow> utf8 (truncate_utf8 content n)"
  by (auto simp: truncate_utf8_def Let_def floor.utf8_take_cut ceil.utf8_drop_cut
      intro!: utf8_append)

lemma truncate_utf8_idem: "truncate_utf8 (truncate_utf8 content n) n = truncate_utf8 content n"
  using length_truncate_utf8 [of content n] by (simp add: truncate_utf8_def [of "truncate_utf8 content n"])

lemma truncate_utf8_short: "length content \<le> n \<Longrightarrow> truncate_utf8 content n = content"
  by (simp add: truncate_utf8_def)

end
