(* ===== verification/Compaction.thy ===== *)
theory Compaction
  imports Session Text_Cut
begin

section \<open>Context compaction (context_controller.rs)\<close>

text \<open>
  When the context grows past a waterline the history is split into a prefix to summarise,
  the latest context of every slot, and a short tail; the prefix is trimmed group by group
  until the summary request fits.  The theory holds the waterline test on machine words, the
  splitting, trimming and assembling routines, and shows that they keep tool groups complete,
  end, and respect their byte targets.
\<close>

definition loop_warning_prefix :: string where
  "loop_warning_prefix = ''[Loop warning:''"

definition compaction_prefix :: string where
  "compaction_prefix = ''[Compacted conversation context]''"

subsection \<open>The usage waterline\<close>

definition small_context_window_max :: u32 where
  "small_context_window_max = 262144"

definition large_context_window_min :: u32 where
  "large_context_window_min = 1000000"

definition div_ceil :: "u64 \<Rightarrow> u64 \<Rightarrow> u64" where
  "div_ceil a b = (if a mod b = 0 then a div b else a div b + 1)"

definition saturating_add_u64 :: "u64 \<Rightarrow> u64 \<Rightarrow> u64" where
  "saturating_add_u64 a b = (if a + b < a then - 1 else a + b)"

definition usage_reaches_context_waterline :: "model_context_snapshot \<Rightarrow> model_usage \<Rightarrow> bool" where
  "usage_reaches_context_waterline context usage =
    (case mcs_context_window_tokens context of
       None \<Rightarrow> False
     | Some window \<Rightarrow>
         if window = 0 then False
         else
           (let ratio = (if window \<le> small_context_window_max then 80
                         else if large_context_window_min \<le> window then 50 else 0);
                watermark = (if 0 < ratio then Some (div_ceil (ucast window * ratio) 100) else None);
                reached_watermark = (case watermark of None \<Rightarrow> False | Some tokens \<Rightarrow> tokens \<le> mu_input_tokens usage);
                output_reserve_exceeded = (case mcs_max_output_tokens context of
                    None \<Rightarrow> False
                  | Some output \<Rightarrow> output \<le> window
                      \<and> ucast window < saturating_add_u64 (mu_input_tokens usage) (ucast output))
            in reached_watermark \<or> output_reserve_exceeded))"

subsection \<open>Splitting the history\<close>

definition is_tool_message :: "'v message \<Rightarrow> bool" where
  "is_tool_message m = (case m of Tool i n c e out \<Rightarrow> True | _ \<Rightarrow> False)"

definition is_assistant :: "'v message \<Rightarrow> bool" where
  "is_assistant m = (case m of Assistant r t calls \<Rightarrow> True | _ \<Rightarrow> False)"

definition context_slot :: "string \<Rightarrow> string option" where
  "context_slot text = (case strip_prefix ''<'' text of
     None \<Rightarrow> None
   | Some rest \<Rightarrow> (case find_any [CHR ''>'', CHR ''/'', CHR '' '', CHR 0x09, CHR 0x0A] rest of
       None \<Rightarrow> None
     | Some end_at \<Rightarrow> if 0 < end_at then Some (take end_at rest) else None))"

text \<open>A context message that is not a loop warning.\<close>

definition carried_context :: "'v message \<Rightarrow> bool" where
  "carried_context m = (case m of Context text \<Rightarrow> \<not> starts_with loop_warning_prefix text | _ \<Rightarrow> False)"

definition untagged :: "nat \<Rightarrow> string" where
  "untagged index = ''<untagged:'' @ decimal index @ ''>''"

definition slot_key :: "nat \<Rightarrow> string \<Rightarrow> string" where
  "slot_key index text = (case context_slot text of
     Some slot \<Rightarrow> slot | None \<Rightarrow> untagged index)"

definition latest_step ::
  "nat \<times> 'v message \<Rightarrow> string set \<times> 'v message list \<Rightarrow> string set \<times> 'v message list" where
  "latest_step im acc = (case (im, acc) of ((index, m), (seen, contexts)) \<Rightarrow>
     (case m of
        Context text \<Rightarrow>
          if starts_with loop_warning_prefix text then (seen, contexts)
          else if slot_key index text \<in> seen then (seen, contexts)
          else (insert (slot_key index text) seen, contexts @ [m])
      | _ \<Rightarrow> (seen, contexts)))"

definition take_latest_contexts :: "'v message list \<Rightarrow> 'v message list \<times> 'v message list" where
  "take_latest_contexts ms =
    (filter (\<lambda>m. \<not> carried_context m) ms,
     rev (snd (fold latest_step (rev (enumerate 0 ms)) ({}, []))))"

definition compact_tail_groups :: nat where
  "compact_tail_groups = 2"

definition compact_tail_max_bytes :: nat where
  "compact_tail_max_bytes = 128 * 1024"

definition assistant_starts :: "'v message list \<Rightarrow> nat list" where
  "assistant_starts ms = map fst (filter (\<lambda>(i, m). is_assistant m) (enumerate 0 ms))"

definition serialized_len :: "'v serde \<Rightarrow> 'v message list \<Rightarrow> nat" where
  "serialized_len js ms = length (ser_messages js ms)"

lemma assistant_starts_less: "i \<in> set (assistant_starts ms) \<Longrightarrow> i < length ms \<and> is_assistant (ms ! i)"
  by (auto simp: assistant_starts_def in_set_enumerate_eq)

lemma sorted_assistant_starts: "sorted_wrt (<) (assistant_starts ms)"
proof -
  have "sorted_wrt (<) (map fst (enumerate 0 ms))" by simp
  then show ?thesis
    unfolding assistant_starts_def by (simp only: sorted_wrt_map sorted_wrt_filter)
qed

lemma assistant_starts_second:
  "1 < length (assistant_starts ms) \<Longrightarrow> 0 < assistant_starts ms ! 1 \<and> assistant_starts ms ! 1 < length ms"
  using sorted_wrt_nth_less [OF sorted_assistant_starts, of 0 1 ms] assistant_starts_less [OF nth_mem, of 1 ms]
  by auto

text \<open>The loop that moves the start of the tail past whole groups while it is too long.\<close>

function shrink_tail :: "'v serde \<Rightarrow> 'v message list \<Rightarrow> nat \<Rightarrow> nat" where
  "shrink_tail js ms tail_start =
    (let tail = drop tail_start ms; inner = assistant_starts tail
     in if 1 < length inner then
          if compact_tail_max_bytes < serialized_len js tail then shrink_tail js ms (tail_start + inner ! 1)
          else tail_start
        else tail_start)"
  by pat_completeness auto
termination
proof (relation "measure (\<lambda>(js, ms, n). length ms - n)", goal_cases)
  case (2 js ms n tail inner)
  then have "0 < inner ! 1" "inner ! 1 < length ms - n"
    using assistant_starts_second [of tail] by simp_all
  then show ?case by simp
qed simp

declare shrink_tail.simps [simp del]

definition split_prefix_tail :: "'v serde \<Rightarrow> 'v message list \<Rightarrow> 'v message list \<times> 'v message list" where
  "split_prefix_tail js ms =
    (let starts = assistant_starts ms in
     if starts = [] then (ms, [])
     else
       (let group_count = min (length starts) compact_tail_groups;
            tail_start = shrink_tail js ms (starts ! (length starts - group_count))
        in (take tail_start ms, drop tail_start ms)))"

definition split_compaction_parts ::
  "'v serde \<Rightarrow> 'v message list \<Rightarrow> 'v message list \<times> 'v message list \<times> 'v message list" where
  "split_compaction_parts js ms =
    (case take_latest_contexts ms of (without_context, contexts) \<Rightarrow>
       (case split_prefix_tail js without_context of (prefix_part, tail) \<Rightarrow> (prefix_part, contexts, tail)))"

subsection \<open>Trimming and assembling\<close>

definition remove_first_message_group :: "'v message list \<Rightarrow> 'v message list" where
  "remove_first_message_group ms = (case ms of
     [] \<Rightarrow> []
   | m # rest \<Rightarrow>
       dropWhile is_tool_message
         (case m of
            Assistant r t calls \<Rightarrow> if calls \<noteq> [] then dropWhile is_tool_message rest else rest
          | _ \<Rightarrow> rest))"

lemma remove_first_message_group_eq: "remove_first_message_group ms = dropWhile is_tool_message (tl ms)"
  by (cases ms) (auto simp: remove_first_message_group_def dropWhile_idem split: message.splits)

lemma length_remove_first: "ms \<noteq> [] \<Longrightarrow> length (remove_first_message_group ms) < length ms"
  using length_dropWhile_le [of is_tool_message "tl ms"]
  by (cases ms) (auto simp: remove_first_message_group_eq)

function trim_prefix_to_fit ::
  "'v serde \<Rightarrow> string \<Rightarrow> string \<Rightarrow> 'v tool_spec list \<Rightarrow> nat \<Rightarrow> 'v message list \<Rightarrow> 'v message list" where
  "trim_prefix_to_fit js prompt system_prompt specs max_bytes ms =
    (if ms = [] then []
     else if context_bytes_for js system_prompt (ms @ [User prompt]) specs \<le> max_bytes then ms
     else trim_prefix_to_fit js prompt system_prompt specs max_bytes (remove_first_message_group ms))"
  by pat_completeness auto
termination
  by (relation "measure (\<lambda>(js, p, s, ts, n, ms). length ms)") (simp_all add: length_remove_first)

declare trim_prefix_to_fit.simps [simp del]

definition assemble_compacted ::
  "string option \<Rightarrow> 'v message list \<Rightarrow> 'v message list \<Rightarrow> nat \<Rightarrow> 'v message list" where
  "assemble_compacted summary contexts tail max_user_input_bytes =
    (case summary of
       None \<Rightarrow> []
     | Some text \<Rightarrow> [User (truncate_utf8 (compaction_prefix @ newline @ text) max_user_input_bytes)])
    @ contexts @ tail"

function mechanical_compact ::
  "'v serde \<Rightarrow> 'v message list \<Rightarrow> 'v message list \<Rightarrow> 'v message list \<Rightarrow> nat \<Rightarrow> string
    \<Rightarrow> 'v tool_spec list \<Rightarrow> nat \<Rightarrow> 'v message list" where
  "mechanical_compact js ms contexts tail compact_at system_prompt specs max_input =
    (let candidate = ms @ assemble_compacted None contexts tail max_input in
     if ms = [] then candidate
     else if context_bytes_for js system_prompt candidate specs < compact_at then candidate
     else mechanical_compact js (remove_first_message_group ms) contexts tail compact_at system_prompt
       specs max_input)"
  by pat_completeness auto
termination
  by (relation "measure (\<lambda>(js, ms, _). length ms)") (simp_all add: length_remove_first)

declare mechanical_compact.simps [simp del]

definition compaction_prompt :: string where
  "compaction_prompt = trim_end
    (''Summarize the conversation state for another coding agent that must continue the work. ''
     @ ''Preserve the active objective and constraints, decisions, verified facts, current plan, ''
     @ ''files changed, commands and tests already run, and the exact next actions. ''
     @ ''Retain key failure evidence instead of replacing it with a vague statement that something failed. ''
     @ ''Include usable retrieval pointers such as Session artifact handles and cursors or workspace paths; ''
     @ ''retrieve needed detail with read_tool_output rather than copying large output into the summary. ''
     @ ''Mark unverified claims as unverified. ''
     @ ''Be concise but preserve what is needed to continue. ''
     @ ''Output only the summary and do not call tools.'' @ newline)"

definition bounded_compaction_prompt :: "nat \<Rightarrow> string" where
  "bounded_compaction_prompt max_user_input_bytes = truncate_utf8 compaction_prompt max_user_input_bytes"

subsection \<open>The waterline is exact\<close>

lemma unat_ucast_u32 [simp]: "unat (ucast (w :: u32) :: u64) = unat w"
proof -
  have "unat w < 2 ^ 32" using unsigned_less [of w] by simp
  then have "take_bit 64 (unat w) = unat w" by (simp add: take_bit_nat_eq_self)
  then show ?thesis by (simp add: unsigned_ucast_eq)
qed

lemma unat_u32_lt: "unat (w :: u32) < 2 ^ 32"
  using unsigned_less [of w] by simp

lemma unat_u64_lt: "unat (w :: u64) < 2 ^ 64"
  using unsigned_less [of w] by simp

lemma ceil_100: "(if m mod 100 = 0 then m div 100 else m div 100 + 1) = (m + 99) div (100 :: nat)"
proof -
  define q r where "q = m div 100" and "r = m mod 100"
  have m: "m = q * 100 + r" and r: "r < 100" by (simp_all add: q_def r_def)
  have "(m + 99) div 100 = q + (r + 99) div 100" unfolding m by (simp add: add.assoc)
  moreover have "(r + 99) div 100 = (if r = 0 then 0 else 1)"
    using r by (auto intro: div_nat_eqI)
  ultimately show ?thesis by (simp add: q_def r_def)
qed

lemma ceil_100_le: "(m + 99) div 100 \<le> i \<longleftrightarrow> m \<le> 100 * (i :: nat)"
proof -
  have "(m + 99) div 100 \<le> i \<longleftrightarrow> (m + 99) div 100 < Suc i" by (simp add: less_Suc_eq_le)
  also have "\<dots> \<longleftrightarrow> m + 99 < Suc i * 100" by (rule div_less_iff_less_mult) simp
  finally show ?thesis by auto
qed

lemma unat_div_ceil_100:
  assumes "unat a \<le> 2 ^ 63"
  shows "unat (div_ceil a 100) = (unat a + 99) div 100"
proof -
  have mod: "a mod 100 = 0 \<longleftrightarrow> unat a mod 100 = 0"
    by (simp add: word_unat_eq_iff unat_mod_distrib)
  have "unat (a div 100 + 1) = unat a div 100 + 1"
    using assms by (subst unat_add_lem [THEN iffD1]) (auto simp: unat_div_distrib)
  moreover have "unat (a div 100) = unat a div 100" by (simp add: unat_div_distrib)
  ultimately have "unat (div_ceil a 100) = (if unat a mod 100 = 0 then unat a div 100 else unat a div 100 + 1)"
    using mod by (simp add: div_ceil_def)
  then show ?thesis by (simp only: ceil_100)
qed

lemma unat_saturating_add_u64: "unat (saturating_add_u64 a b) = min (unat a + unat b) (2 ^ 64 - 1)"
proof (cases "unat a + unat b < 2 ^ 64")
  case True
  then have "unat (a + b) = unat a + unat b" by (subst unat_add_lem [THEN iffD1]) auto
  then have "\<not> a + b < a" by (simp add: word_less_nat_alt)
  with \<open>unat (a + b) = unat a + unat b\<close> True show ?thesis by (simp add: saturating_add_u64_def)
next
  case False
  have lt: "unat a < 2 ^ 64" "unat b < 2 ^ 64" by (rule unat_u64_lt)+
  have "unat (a + b) = (unat a + unat b) mod 2 ^ 64" by (simp add: unat_word_ariths)
  also have "\<dots> = unat a + unat b - 2 ^ 64" using False lt by (simp add: mod_if)
  finally have "unat (a + b) = unat a + unat b - 2 ^ 64" .
  moreover have "unat a + unat b - 2 ^ 64 < unat a" using lt False by linarith
  ultimately have "a + b < a" by (simp only: word_less_nat_alt)
  with False show ?thesis by (simp add: saturating_add_u64_def unsigned_minus_1_eq_mask mask_eq_exp_minus_1)
qed

lemma watermark_reached:
  assumes "r \<le> 100" and "0 < r"
  shows "div_ceil (ucast (w :: u32) * word_of_nat r) 100 \<le> (i :: u64) \<longleftrightarrow> r * unat w \<le> 100 * unat i"
proof -
  have "unat w * r \<le> 2 ^ 32 * 100"
    using unat_u32_lt [of w] assms by (intro mult_mono) auto
  moreover have "unat (word_of_nat r :: u64) = r" using assms by (simp add: unat_of_nat)
  ultimately have m: "unat (ucast w * word_of_nat r :: u64) = unat w * r"
    by (subst unat_mult_lem [THEN iffD1]) auto
  with \<open>unat w * r \<le> 2 ^ 32 * 100\<close> have "unat (div_ceil (ucast w * word_of_nat r :: u64) 100) = (unat w * r + 99) div 100"
    by (subst unat_div_ceil_100) auto
  then show ?thesis by (simp only: word_le_nat_alt ceil_100_le mult.commute)
qed

lemmas watermark_80 = watermark_reached [of 80, simplified]
lemmas watermark_50 = watermark_reached [of 50, simplified]

text \<open>
  The waterline test computed on 32- and 64-bit words is the exact arithmetic one: at most
  262144 tokens of window and 80 percent used, at least a million and 50 percent used, or a
  declared output reserve that no longer fits.  No multiplication, rounding or addition wraps.
\<close>

theorem usage_reaches_context_waterline_exact:
  "usage_reaches_context_waterline context usage \<longleftrightarrow>
    (\<exists>w. mcs_context_window_tokens context = Some w \<and> 0 < unat w \<and>
      ((unat w \<le> 262144 \<and> 80 * unat w \<le> 100 * unat (mu_input_tokens usage))
       \<or> (1000000 \<le> unat w \<and> 50 * unat w \<le> 100 * unat (mu_input_tokens usage))
       \<or> (\<exists>out. mcs_max_output_tokens context = Some out \<and> unat out \<le> unat w
             \<and> unat w < unat (mu_input_tokens usage) + unat out)))"
proof (cases "mcs_context_window_tokens context")
  case None
  then show ?thesis by (simp add: usage_reaches_context_waterline_def)
next
  case (Some w)
  have reserve: "ucast w < saturating_add_u64 (mu_input_tokens usage) (ucast (out :: u32))
      \<longleftrightarrow> unat w < unat (mu_input_tokens usage) + unat out" for out
    using unat_u32_lt [of w] by (simp add: word_less_nat_alt unat_saturating_add_u64)
  have pos: "0 < unat w \<longleftrightarrow> w \<noteq> 0" using unat_eq_zero [of w] by linarith
  show ?thesis
    using Some reserve watermark_80 [of w "mu_input_tokens usage"] watermark_50 [of w "mu_input_tokens usage"]
    by (auto simp: usage_reaches_context_waterline_def Let_def small_context_window_max_def
        large_context_window_min_def word_le_nat_alt word_less_nat_alt pos split: option.splits)
qed
subsection \<open>The latest context of every slot\<close>

text \<open>
  The reference: a context survives when its slot is untagged or no later context fills the
  same slot.
\<close>

definition message_slot :: "'v message \<Rightarrow> string option" where
  "message_slot m = (case m of
     Context text \<Rightarrow> if carried_context m then context_slot text else None | _ \<Rightarrow> None)"

fun latest_contexts :: "'v message list \<Rightarrow> 'v message list" where
  "latest_contexts [] = []"
| "latest_contexts (m # ms) =
    (if carried_context m \<and> (case message_slot m of None \<Rightarrow> True | Some s \<Rightarrow> Some s \<notin> message_slot ` set ms)
     then m # latest_contexts ms else latest_contexts ms)"

lemma decimal_inj: "decimal m = decimal n \<Longrightarrow> m = n"
proof (induction m arbitrary: n rule: decimal.induct)
  case (1 m)
  have len: "n \<ge> 10 \<Longrightarrow> length (decimal n) \<ge> 2" for n
    by (subst decimal.simps, subst decimal.simps) auto
  have small: "n < 10 \<Longrightarrow> decimal n = [char_of (48 + n)]" for n by (subst decimal.simps) simp
  have big: "n \<ge> 10 \<Longrightarrow> decimal n = decimal (n div 10) @ [char_of (48 + n mod 10)]" for n
    by (subst decimal.simps) simp
  have digit: "a < 10 \<Longrightarrow> b < 10 \<Longrightarrow> (char_of (48 + a) :: char) = char_of (48 + b) \<Longrightarrow> a = b" for a b :: nat
  proof -
    assume ab: "a < 10" "b < 10" and eq: "(char_of (48 + a) :: char) = char_of (48 + b)"
    have "of_char (char_of (48 + a) :: char) = 48 + a" "of_char (char_of (48 + b) :: char) = 48 + b"
      using ab by simp_all
    with eq show "a = b" by simp
  qed
  show ?case
  proof (cases "m < 10")
    case True
    have "length (decimal n) = 1" using "1.prems" small [OF True] by (metis length_Cons list.size(3) One_nat_def)
    with len [of n] have "n < 10" by linarith
    with True "1.prems" show ?thesis using digit by (simp add: small)
  next
    case False
    have "2 \<le> length (decimal n)" using "1.prems" len [of m] False by simp
    with small [of n] have n: "\<not> n < 10" by (cases "n < 10") auto
    from "1.prems" have "decimal (m div 10) = decimal (n div 10)"
      "char_of (48 + m mod 10) = (char_of (48 + n mod 10) :: char)"
      using False n by (simp_all add: big)
    with "1.IH" False digit [of "m mod 10" "n mod 10"] have "m div 10 = n div 10" "m mod 10 = n mod 10"
      by simp_all
    then show ?thesis by (metis div_mult_mod_eq)
  qed
qed

lemma context_slot_chars: "context_slot text = Some s \<Longrightarrow> CHR ''>'' \<notin> set s"
  by (auto simp: context_slot_def find_any_def dest!: position_SomeD split: option.splits if_splits)

lemma untagged_not_slot: "context_slot text = Some s \<Longrightarrow> s \<noteq> untagged i"
  by (auto simp: untagged_def dest: context_slot_chars)

lemma untagged_no_slot [simp]: "context_slot text \<noteq> Some (untagged i)"
  using untagged_not_slot by blast

lemma untagged_inj [simp]: "untagged i = untagged j \<longleftrightarrow> i = j"
  by (auto simp: untagged_def dest: decimal_inj)

lemma latest_loop:
  "fold latest_step (rev (enumerate n ms)) ({}, []) = (seen, contexts) \<Longrightarrow>
    rev contexts = latest_contexts ms \<and>
    (\<forall>text s. context_slot text = Some s \<longrightarrow> (s \<in> seen \<longleftrightarrow> Some s \<in> message_slot ` set ms)) \<and>
    (\<forall>i < n. untagged i \<notin> seen)"
proof (induction ms arbitrary: n seen contexts)
  case Nil
  then show ?case by auto
next
  case (Cons m ms)
  obtain seen1 contexts1 where f: "fold latest_step (rev (enumerate (Suc n) ms)) ({}, []) = (seen1, contexts1)"
    by (cases "fold latest_step (rev (enumerate (Suc n) ms)) ({}, [])") auto
  note ih = Cons.IH [OF f]
  from Cons.prems f have step: "latest_step (n, m) (seen1, contexts1) = (seen, contexts)" by simp
  show ?case
  proof (cases "carried_context m")
    case False
    then have "seen = seen1" "contexts = contexts1" "message_slot m = None"
      using step by (auto simp: latest_step_def carried_context_def message_slot_def split: message.splits)
    with ih False show ?thesis by auto
  next
    case True
    then obtain body where m: "m = Context body" and w: "\<not> starts_with loop_warning_prefix body"
      by (auto simp: carried_context_def split: message.splits)
    have ms: "message_slot m = context_slot body" using True by (simp add: m message_slot_def)
    show ?thesis
    proof (cases "context_slot body")
      case None
      have fresh: "slot_key n body \<notin> seen1" using ih None by (auto simp: slot_key_def)
      then have eq: "seen = insert (slot_key n body) seen1" "contexts = contexts1 @ [m]"
        using step m w by (auto simp: latest_step_def)
      show ?thesis
        using ih None ms True
        by (auto simp: eq slot_key_def)
    next
      case (Some s)
      have slot: "slot_key n body = s" using Some by (simp add: slot_key_def)
      have mem: "s \<in> seen1 \<longleftrightarrow> Some s \<in> message_slot ` set ms" using ih Some by blast
      have eq: "seen = insert s seen1" "contexts = (if s \<in> seen1 then contexts1 else contexts1 @ [m])"
        using step m w slot by (auto simp: latest_step_def split: if_splits)
      have "untagged i \<noteq> s" for i using untagged_not_slot [OF Some] by metis
      with ih mem ms Some True show ?thesis by (auto simp: eq)
    qed
  qed
qed

lemma take_latest_contexts_eq:
  "take_latest_contexts ms = (filter (\<lambda>m. \<not> carried_context m) ms, latest_contexts ms)"
proof -
  obtain seen contexts where f: "fold latest_step (rev (enumerate 0 ms)) ({}, []) = (seen, contexts)"
    by (cases "fold latest_step (rev (enumerate 0 ms)) ({}, [])") auto
  from latest_loop [OF f] f show ?thesis by (simp add: take_latest_contexts_def)
qed

text \<open>
  Compaction carries over exactly the contexts no later context of the same slot replaces,
  untagged ones always, in their order, and leaves every other message in the conversation.
\<close>

theorem take_latest_contexts_reference:
  "take_latest_contexts ms = (filter (\<lambda>m. \<not> carried_context m) ms, latest_contexts ms)"
  by (rule take_latest_contexts_eq)

lemma latest_contexts_subseq: "subseq (latest_contexts ms) ms"
  by (induction ms) auto

lemma latest_contexts_carried: "list_all carried_context (latest_contexts ms)"
  by (induction ms) auto

subsection \<open>Compaction keeps tool groups complete\<close>

lemma plain_carried: "carried_context m \<Longrightarrow> plain_message m"
  by (auto simp: carried_context_def plain_message_def split: message.splits)

lemma owed_step_context:
  "carried_context m \<Longrightarrow> owed_step acc m = Some P \<Longrightarrow> acc = Some {} \<and> P = {}"
  by (auto simp: carried_context_def owed_step_def split: message.splits option.splits if_splits)

lemma owed_filter_contexts:
  "owed ms = Some P \<Longrightarrow> owed (filter (\<lambda>m. \<not> carried_context m) ms) = Some P"
proof (induction ms arbitrary: P rule: rev_induct)
  case (snoc m ms)
  then obtain Q where Q: "owed ms = Some Q" by (cases "owed ms") auto
  with snoc.IH have "owed (filter (\<lambda>m. \<not> carried_context m) ms) = Some Q" by simp
  with snoc.prems Q owed_step_context [of m "Some Q" P] show ?case by auto
qed simp

lemma complete_filter_contexts:
  "complete_groups ms \<Longrightarrow> complete_groups (filter (\<lambda>m. \<not> carried_context m) ms)"
  by (simp add: complete_groups_def owed_filter_contexts)

text \<open>A complete history can be cut before any assistant message.\<close>

lemma foldl_owed_None [simp]: "foldl owed_step None ms = None"
  by (induction ms) auto

lemma complete_split_assistant:
  assumes "complete_groups ms" and "i < length ms" and "is_assistant (ms ! i)"
  shows "complete_groups (take i ms)" and "complete_groups (drop i ms)"
proof -
  have ms: "ms = take i ms @ ms ! i # drop (Suc i) ms" using assms(2) by (rule id_take_nth_drop)
  obtain r t calls where a: "ms ! i = Assistant r t calls"
    using assms(3) by (auto simp: is_assistant_def split: message.splits)
  have "foldl owed_step (owed_step (owed (take i ms)) (ms ! i)) (drop (Suc i) ms) = Some {}"
    using assms(1) ms by (metis complete_groups_def owed_def foldl_append foldl_Cons)
  then obtain Q where "owed_step (owed (take i ms)) (ms ! i) = Some Q"
    by (cases "owed_step (owed (take i ms)) (ms ! i)") auto
  then have *: "owed (take i ms) = Some {}"
    by (cases "owed (take i ms)") (auto simp: a owed_step_simps split: if_splits)
  then show "complete_groups (take i ms)" by (simp add: complete_groups_def)
  have "owed ms = owed (drop i ms)" using owed_append [OF *, of "drop i ms"] by simp
  with assms(1) show "complete_groups (drop i ms)" by (simp add: complete_groups_def)
qed

lemma owed_dropWhile_tools:
  "foldl owed_step (Some P) ms = Some {} \<Longrightarrow> complete_groups (dropWhile is_tool_message ms)"
proof (induction ms arbitrary: P)
  case (Cons m ms)
  show ?case
  proof (cases "is_tool_message m")
    case True
    obtain Q where "owed_step (Some P) m = Some Q"
      using Cons.prems by (cases "owed_step (Some P) m") auto
    with True Cons show ?thesis by auto
  next
    case False
    with Cons.prems have "P = {}"
      by (cases m) (auto simp: owed_step_simps is_tool_message_def split: if_splits)
    with False Cons.prems show ?thesis by (simp add: complete_groups_def owed_def)
  qed
qed (simp add: complete_groups_def)

lemma complete_remove_first: "complete_groups ms \<Longrightarrow> complete_groups (remove_first_message_group ms)"
proof (cases ms)
  case (Cons m rest)
  assume "complete_groups ms"
  then have *: "foldl owed_step (owed_step (Some {}) m) rest = Some {}"
    by (simp add: Cons complete_groups_def owed_def)
  then obtain Q where "owed_step (Some {}) m = Some Q" by (cases "owed_step (Some {}) m") auto
  with * show ?thesis by (simp add: Cons remove_first_message_group_eq owed_dropWhile_tools)
qed (simp add: remove_first_message_group_def)

lemma take_latest_parts:
  "fst (take_latest_contexts ms) = filter (\<lambda>m. \<not> carried_context m) ms"
  "list_all carried_context (snd (take_latest_contexts ms))"
  using latest_contexts_carried by (simp_all add: take_latest_contexts_eq)

lemma assistant_starts_nth:
  "k < length (assistant_starts ms) \<Longrightarrow> assistant_starts ms ! k < length ms
     \<and> is_assistant (ms ! (assistant_starts ms ! k))"
  using assistant_starts_less nth_mem by blast

lemma shrink_tail_props:
  "is_assistant (ms ! n) \<Longrightarrow> n < length ms \<Longrightarrow>
    n \<le> shrink_tail js ms n \<and> shrink_tail js ms n < length ms \<and> is_assistant (ms ! shrink_tail js ms n)
    \<and> (serialized_len js (drop (shrink_tail js ms n) ms) \<le> compact_tail_max_bytes
       \<or> length (assistant_starts (drop (shrink_tail js ms n) ms)) \<le> 1)"
proof (induction js ms n rule: shrink_tail.induct)
  case (1 js ms n)
  let ?tail = "drop n ms"
  let ?k = "assistant_starts ?tail ! 1"
  show ?case
  proof (cases "1 < length (assistant_starts ?tail) \<and> compact_tail_max_bytes < serialized_len js ?tail")
    case True
    then have k: "?k < length ?tail" "is_assistant (?tail ! ?k)"
      using assistant_starts_nth [of 1 ?tail] by auto
    then have "is_assistant (ms ! (n + ?k))" "n + ?k < length ms" using "1.prems" by auto
    moreover have "shrink_tail js ms n = shrink_tail js ms (n + ?k)"
      using True by (subst shrink_tail.simps) (simp add: Let_def)
    ultimately show ?thesis
      using "1.IH" [OF refl refl] True by (metis (no_types, lifting) add_leD1)
  next
    case False
    then have "shrink_tail js ms n = n" by (subst shrink_tail.simps) (simp add: Let_def)
    with False "1.prems" show ?thesis by auto
  qed
qed

lemma length_assistant_starts: "length (assistant_starts ms) = length (filter is_assistant ms)"
proof -
  have "map snd (filter (\<lambda>(i, m). is_assistant m) (enumerate n ms)) = filter is_assistant ms" for n
    by (induction ms arbitrary: n) auto
  from this [of 0] show ?thesis by (metis assistant_starts_def length_map)
qed

lemma assistant_starts_Cons:
  "assistant_starts (m # ms) = (if is_assistant m then [0] else []) @ map Suc (assistant_starts ms)"
proof -
  have "map fst (filter (\<lambda>(i, m). is_assistant m) (enumerate (Suc n) ms))
      = map Suc (map fst (filter (\<lambda>(i, m). is_assistant m) (enumerate n ms)))" for n
    by (induction ms arbitrary: n) auto
  from this [of 0] show ?thesis by (auto simp: assistant_starts_def)
qed

lemma assistants_from_start:
  "k < length (assistant_starts ms) \<Longrightarrow>
    length (filter is_assistant (drop (assistant_starts ms ! k) ms)) = length (assistant_starts ms) - k"
proof (induction ms arbitrary: k)
  case Nil
  then show ?case by (simp add: assistant_starts_def)
next
  case (Cons m ms)
  show ?case
  proof (cases "is_assistant m")
    case True
    show ?thesis
    proof (cases k)
      case 0
      with True show ?thesis by (simp add: assistant_starts_Cons length_assistant_starts)
    next
      case (Suc l)
      with True Cons.prems have "l < length (assistant_starts ms)" by (simp add: assistant_starts_Cons)
      with Cons.IH [of l] True Suc show ?thesis by (simp add: assistant_starts_Cons)
    qed
  next
    case False
    with Cons.IH [of k] Cons.prems show ?thesis by (simp add: assistant_starts_Cons)
  qed
qed

lemma filter_drop_mono: "m \<le> n \<Longrightarrow> length (filter p (drop n xs)) \<le> length (filter p (drop m xs))"
proof -
  assume "m \<le> n"
  then have "drop m xs = take (n - m) (drop m xs) @ drop n xs"
    by (metis append_take_drop_id drop_drop le_add_diff_inverse2)
  then show ?thesis by (metis filter_append length_append le_add2)
qed

lemma split_prefix_tail_props:
  assumes "split_prefix_tail js ms = (before, tail)"
  shows "before @ tail = ms"
    and "complete_groups ms \<Longrightarrow> complete_groups before \<and> complete_groups tail"
    and "length (filter is_assistant tail) \<le> compact_tail_groups"
    and "serialized_len js tail \<le> compact_tail_max_bytes \<or> length (filter is_assistant tail) \<le> 1"
    and "tail = [] \<longleftrightarrow> list_all (\<lambda>m. \<not> is_assistant m) ms"
proof -
  let ?s = "assistant_starts ms"
  have none: "?s = [] \<longleftrightarrow> list_all (\<lambda>m. \<not> is_assistant m) ms"
    using length_assistant_starts [of ms]
    by (metis filter_empty_conv length_0_conv list_all_iff)
  show "before @ tail = ms"
    using assms by (auto simp: split_prefix_tail_def Let_def split: if_splits)
  define j where "j = length ?s - min (length ?s) compact_tail_groups"
  define t where "t = shrink_tail js ms (?s ! j)"
  have split: "?s \<noteq> [] \<Longrightarrow> before = take t ms \<and> tail = drop t ms"
    using assms by (auto simp: split_prefix_tail_def Let_def j_def t_def)
  have j: "?s \<noteq> [] \<Longrightarrow> j < length ?s" by (simp add: j_def compact_tail_groups_def)
  have t: "?s ! j \<le> t \<and> t < length ms \<and> is_assistant (ms ! t)
      \<and> (serialized_len js (drop t ms) \<le> compact_tail_max_bytes \<or> length (assistant_starts (drop t ms)) \<le> 1)"
    if "?s \<noteq> []"
    unfolding t_def using shrink_tail_props assistant_starts_nth [OF j [OF that]] by blast
  have empty: "?s = [] \<Longrightarrow> before = ms \<and> tail = []"
    using assms by (simp add: split_prefix_tail_def)
  show "complete_groups ms \<Longrightarrow> complete_groups before \<and> complete_groups tail"
    using complete_split_assistant t split empty by (cases "?s = []") (auto simp: complete_groups_def)
  show "length (filter is_assistant tail) \<le> compact_tail_groups"
  proof (cases "?s = []")
    case False
    then have "length (filter is_assistant (drop t ms)) \<le> length ?s - j"
      using filter_drop_mono [of "?s ! j" t] t assistants_from_start [OF j] by metis
    with split False show ?thesis by (simp add: j_def)
  qed (use empty in auto)
  show "serialized_len js tail \<le> compact_tail_max_bytes \<or> length (filter is_assistant tail) \<le> 1"
    using t split empty by (cases "?s = []") (auto simp: length_assistant_starts)
  show "tail = [] \<longleftrightarrow> list_all (\<lambda>m. \<not> is_assistant m) ms"
    using none t split empty by (cases "?s = []") auto
qed

lemma split_compaction_parts_props:
  assumes "split_compaction_parts js ms = (before, contexts, tail)"
  shows "before @ tail = filter (\<lambda>m. \<not> carried_context m) ms"
    and "list_all carried_context contexts"
    and "complete_groups ms \<Longrightarrow> complete_groups before \<and> complete_groups contexts \<and> complete_groups tail"
    and "length (filter is_assistant tail) \<le> 2"
    and "serialized_len js tail \<le> 131072 \<or> length (filter is_assistant tail) \<le> 1"
proof -
  obtain without c where l: "take_latest_contexts ms = (without, c)"
    by (cases "take_latest_contexts ms") auto
  obtain b t where st: "split_prefix_tail js without = (b, t)"
    by (cases "split_prefix_tail js without") auto
  from assms l st have eq: "before = b" "contexts = c" "tail = t"
    by (simp_all add: split_compaction_parts_def)
  from take_latest_parts [of ms] l have w: "without = filter (\<lambda>m. \<not> carried_context m) ms"
    and c: "list_all carried_context c" by simp_all
  note props = split_prefix_tail_props [OF st]
  show "before @ tail = filter (\<lambda>m. \<not> carried_context m) ms" using props(1) w eq by simp
  show "list_all carried_context contexts" using c eq by simp
  have "complete_groups c"
    using c by (intro complete_groups_plain) (auto simp: list_all_iff plain_carried)
  then show "complete_groups ms \<Longrightarrow> complete_groups before \<and> complete_groups contexts \<and> complete_groups tail"
    using props(2) w eq complete_filter_contexts [of ms] by simp
  show "length (filter is_assistant tail) \<le> 2"
    using props(3) eq by (simp add: compact_tail_groups_def)
  show "serialized_len js tail \<le> 131072 \<or> length (filter is_assistant tail) \<le> 1"
    using props(4) eq by (simp add: compact_tail_max_bytes_def)
qed

lemma suffix_remove_first: "suffix (remove_first_message_group ms) ms"
  unfolding remove_first_message_group_eq
  by (cases ms) (auto intro: suffix_dropWhile suffix_ConsI)

lemma trim_prefix_props:
  fixes js prompt sys specs n
  defines "fit \<equiv> trim_prefix_to_fit js prompt sys specs n"
  shows "(complete_groups ms \<longrightarrow> complete_groups (fit ms)) \<and> suffix (fit ms) ms
    \<and> (fit ms = [] \<or> context_bytes_for js sys (fit ms @ [User prompt]) specs \<le> n)"
proof (induction "length ms" arbitrary: ms rule: less_induct)
  case less
  show ?case
  proof (cases "ms = [] \<or> context_bytes_for js sys (ms @ [User prompt]) specs \<le> n")
    case True
    then have "fit ms = ms" unfolding fit_def by (subst trim_prefix_to_fit.simps) auto
    with True show ?thesis by auto
  next
    case False
    then have eq: "fit ms = fit (remove_first_message_group ms)"
      unfolding fit_def by (subst trim_prefix_to_fit.simps) auto
    from False have "length (remove_first_message_group ms) < length ms" by (simp add: length_remove_first)
    from less [OF this] show ?thesis
      unfolding eq using complete_remove_first suffix_remove_first suffix_order.trans by blast
  qed
qed

lemma mechanical_compact_props:
  fixes js contexts tail target sys specs limit
  defines "mech \<equiv> (\<lambda>ms. mechanical_compact js ms contexts tail target sys specs limit)"
  shows "\<exists>kept. mech ms = kept @ contexts @ tail \<and> suffix kept ms
    \<and> (complete_groups ms \<longrightarrow> complete_groups kept)
    \<and> (kept = [] \<or> context_bytes_for js sys (mech ms) specs < target)"
proof (induction "length ms" arbitrary: ms rule: less_induct)
  case less
  let ?c = "ms @ contexts @ tail"
  show ?case
  proof (cases "ms = [] \<or> context_bytes_for js sys ?c specs < target")
    case True
    then have "mech ms = ?c"
      unfolding mech_def by (subst mechanical_compact.simps) (auto simp: assemble_compacted_def Let_def)
    with True show ?thesis by (intro exI [of _ ms]) auto
  next
    case False
    then have eq: "mech ms = mech (remove_first_message_group ms)"
      unfolding mech_def by (subst mechanical_compact.simps) (auto simp: assemble_compacted_def Let_def)
    from False have "length (remove_first_message_group ms) < length ms" by (simp add: length_remove_first)
    from less [OF this] show ?thesis
      unfolding eq using complete_remove_first suffix_remove_first suffix_order.trans by blast
  qed
qed

lemma complete_assemble:
  "complete_groups contexts \<Longrightarrow> complete_groups tail
    \<Longrightarrow> complete_groups (assemble_compacted summary contexts tail n)"
  by (auto simp: assemble_compacted_def complete_groups_append complete_groups_plain plain_message_def
      split: option.splits)

text \<open>
  C35.  Compaction of a history with complete tool groups, by a summary as well as mechanically,
  yields one with complete tool groups: the split never cuts a group, trimming drops whole
  groups, and the mechanical result either meets its byte target or has dropped all of the
  prefix.
\<close>

theorem compaction_keeps_groups_complete:
  assumes "complete_groups ms" and "split_compaction_parts js ms = (before, contexts, tail)"
  shows "complete_groups (assemble_compacted summary contexts tail max_input)
    \<and> complete_groups (trim_prefix_to_fit js prompt sys [] max_bytes before)
    \<and> complete_groups (mechanical_compact js (trim_prefix_to_fit js prompt sys [] max_bytes before)
        contexts tail target sys specs max_input)
    \<and> (context_bytes_for js sys (mechanical_compact js (trim_prefix_to_fit js prompt sys [] max_bytes before)
        contexts tail target sys specs max_input) specs < target
       \<or> mechanical_compact js (trim_prefix_to_fit js prompt sys [] max_bytes before)
        contexts tail target sys specs max_input = contexts @ tail)"
proof -
  let ?p = "trim_prefix_to_fit js prompt sys [] max_bytes before"
  from split_compaction_parts_props(3) [OF assms(2,1)]
  have parts: "complete_groups before" "complete_groups contexts" "complete_groups tail" by auto
  with trim_prefix_props [where ms = before] have p: "complete_groups ?p" by blast
  obtain kept where "mechanical_compact js ?p contexts tail target sys specs max_input = kept @ contexts @ tail"
      "complete_groups ?p \<longrightarrow> complete_groups kept"
      "kept = [] \<or> context_bytes_for js sys (mechanical_compact js ?p contexts tail target sys specs max_input) specs < target"
    using mechanical_compact_props [of js ?p contexts tail target sys specs max_input] by blast
  with p parts show ?thesis
    by (auto simp: complete_assemble intro!: complete_groups_append)
qed

theorem compaction_keeps_groups_complete_witness:
  "complete_groups (assemble_compacted (Some ''s'') [] [Assistant [] ''hi'' ([] :: nat tool_call list)] 100)
    \<and> complete_groups (trim_prefix_to_fit sample_serde ''p'' ''s'' [] 100 [User ''x''])
    \<and> complete_groups (mechanical_compact sample_serde (trim_prefix_to_fit sample_serde ''p'' ''s'' [] 100 [User ''x''])
        [] [Assistant [] ''hi'' ([] :: nat tool_call list)] 50 ''s'' [] 100)
    \<and> (context_bytes_for sample_serde ''s'' (mechanical_compact sample_serde
        (trim_prefix_to_fit sample_serde ''p'' ''s'' [] 100 [User ''x'']) [] [Assistant [] ''hi'' ([] :: nat tool_call list)] 50 ''s'' [] 100) [] < 50
       \<or> mechanical_compact sample_serde (trim_prefix_to_fit sample_serde ''p'' ''s'' [] 100 [User ''x''])
        [] [Assistant [] ''hi'' ([] :: nat tool_call list)] 50 ''s'' [] 100 = [] @ [Assistant [] ''hi'' ([] :: nat tool_call list)])"
proof (rule compaction_keeps_groups_complete [where ms = "[User ''x'', Assistant [] ''hi'' ([] :: nat tool_call list)]"])
  show "complete_groups [User ''x'', Assistant [] ''hi'' ([] :: nat tool_call list)]"
    by (simp add: complete_groups_def owed_def owed_step_simps)
  have "shrink_tail sample_serde [User ''x'', Assistant [] ''hi'' ([] :: nat tool_call list)] 1 = 1"
    by (subst shrink_tail.simps) (simp add: assistant_starts_def)
  then show "split_compaction_parts sample_serde [User ''x'', Assistant [] ''hi'' ([] :: nat tool_call list)]
      = ([User ''x''], [], [Assistant [] ''hi'' ([] :: nat tool_call list)])"
    by (simp add: split_compaction_parts_def take_latest_contexts_def latest_step_def carried_context_def
        split_prefix_tail_def assistant_starts_def is_assistant_def compact_tail_groups_def)
qed
end
