(* ===== verification/Run_Control.thy ===== *)
theory Run_Control
  imports Session
begin

section \<open>Pending inputs and run control (input.rs, run_control.rs)\<close>

text \<open>
  The bounded queue of inputs submitted while a turn runs, and the flags through which other
  threads steer or cancel it.  The queue counts allocated capacities, not lengths, so every
  queued input carries the capacities of its strings.  The first part models the operations
  as they run alone; the second part interleaves the atomic steps of producers, the running
  turn and a cancelling thread.
\<close>

subsection \<open>The queue\<close>

record input_caps =
  cap_text :: nat
  cap_skills :: nat
  cap_skill_names :: "nat list"
  cap_workflow_id :: nat
  cap_provider_id :: nat
  cap_model_id :: nat
  cap_reasoning_level :: nat
  cap_reasoning_effort :: nat
  cap_steer_request_id :: nat

type_synonym queued_input = "turn_input \<times> input_caps"

datatype input_queue_error = Full nat | ByteLimit nat nat | UnsupportedMode turn_input_mode

record pending_input_queue =
  pq_inputs :: "queued_input list"
  pq_poisoned :: bool
  pq_capacity :: nat

definition default_max_pending_inputs :: nat where
  "default_max_pending_inputs = 16"

definition max_pending_input_bytes :: nat where
  "max_pending_input_bytes = 512 * 1024"

definition max_pending_input_item_bytes :: nat where
  "max_pending_input_item_bytes = 64 * 1024"

text \<open>\<open>size_of::<String>()\<close>: pointer, capacity and length.\<close>

definition size_of_string :: nat where
  "size_of_string = 24"

definition retained_bytes :: "queued_input \<Rightarrow> nat" where
  "retained_bytes q = (case q of (input, c) \<Rightarrow>
    (let skill_bytes = sat_add (sat_mul (cap_skills c) size_of_string) (foldl sat_add 0 (cap_skill_names c));
         workflow_bytes = (case ti_workflow input of None \<Rightarrow> 0 | Some _ \<Rightarrow> cap_workflow_id c);
         model_bytes = (case ti_model_selection input of
             None \<Rightarrow> 0 | Some _ \<Rightarrow> sat_add (cap_provider_id c) (cap_model_id c));
         reasoning_bytes = (case ti_reasoning_selection input of
             None \<Rightarrow> 0 | Some ApiDefault \<Rightarrow> 0 | Some (Level _) \<Rightarrow> cap_reasoning_level c);
         effort_bytes = (case ti_reasoning_effort input of None \<Rightarrow> 0 | Some _ \<Rightarrow> cap_reasoning_effort c);
         request_bytes = (case ti_steer_request_id input of None \<Rightarrow> 0 | Some _ \<Rightarrow> cap_steer_request_id c)
     in sat_add (sat_add (sat_add (sat_add (sat_add (sat_add (cap_text c) skill_bytes) workflow_bytes)
          model_bytes) reasoning_bytes) effort_bytes) request_bytes))"

definition queue_new :: "nat \<Rightarrow> pending_input_queue" where
  "queue_new capacity = \<lparr>pq_inputs = [], pq_poisoned = False, pq_capacity = capacity\<rparr>"

definition queue_submit ::
  "queued_input \<Rightarrow> pending_input_queue \<Rightarrow> (input_queue_error + unit) \<times> pending_input_queue" where
  "queue_submit q pq =
    (if ti_mode (fst q) = Start \<or> ti_mode (fst q) = StartIfIdle
     then (Inl (UnsupportedMode (ti_mode (fst q))), pq)
     else
       (let input_bytes = retained_bytes q in
        if max_pending_input_item_bytes < input_bytes
        then (Inl (ByteLimit max_pending_input_item_bytes input_bytes), pq)
        else if pq_poisoned pq then (Inl (Full (pq_capacity pq)), pq)
        else if pq_capacity pq \<le> length (pq_inputs pq) then (Inl (Full (pq_capacity pq)), pq)
        else
          (let queued_bytes = foldl sat_add 0 (map retained_bytes (pq_inputs pq));
               actual = sat_add queued_bytes input_bytes
           in if max_pending_input_bytes < actual then (Inl (ByteLimit max_pending_input_bytes actual), pq)
              else (Inr (), pq\<lparr>pq_inputs := pq_inputs pq @ [q]\<rparr>))))"

definition take_matching ::
  "(queued_input \<Rightarrow> bool) \<Rightarrow> pending_input_queue \<Rightarrow> queued_input option \<times> pending_input_queue" where
  "take_matching p pq =
    (if pq_poisoned pq then (None, pq)
     else (case position p (pq_inputs pq) of
        None \<Rightarrow> (None, pq)
      | Some i \<Rightarrow> (Some (pq_inputs pq ! i), pq\<lparr>pq_inputs := remove_at i (pq_inputs pq)\<rparr>)))"

definition is_steer :: "queued_input \<Rightarrow> bool" where
  "is_steer q \<longleftrightarrow> ti_mode (fst q) = Steer"

definition is_follow_up :: "queued_input \<Rightarrow> bool" where
  "is_follow_up q \<longleftrightarrow> ti_mode (fst q) = FollowUp"

definition take_steer :: "pending_input_queue \<Rightarrow> queued_input option \<times> pending_input_queue" where
  "take_steer = take_matching is_steer"

definition take_follow_up :: "pending_input_queue \<Rightarrow> queued_input option \<times> pending_input_queue" where
  "take_follow_up = take_matching is_follow_up"

definition cancel_steers :: "pending_input_queue \<Rightarrow> queued_input list \<times> pending_input_queue" where
  "cancel_steers pq =
    (if pq_poisoned pq then ([], pq)
     else (filter is_steer (pq_inputs pq), pq\<lparr>pq_inputs := filter (\<lambda>q. \<not> is_steer q) (pq_inputs pq)\<rparr>))"

definition has_steer :: "pending_input_queue \<Rightarrow> bool" where
  "has_steer pq \<longleftrightarrow> \<not> pq_poisoned pq \<and> list_ex is_steer (pq_inputs pq)"

definition queue_len :: "pending_input_queue \<Rightarrow> nat" where
  "queue_len pq = (if pq_poisoned pq then 0 else length (pq_inputs pq))"

subsection \<open>Run control\<close>

datatype steering_mode = StopAtCheckpoint | ContinueSameTurn

text \<open>
  The waker slot holds the number of the task that polls; \<open>rc_woken\<close> records the wake-ups
  handed to the executor.
\<close>

record run_control =
  rc_steer_requested :: bool
  rc_cancel_requested :: bool
  rc_cancel_waker :: "nat option"
  rc_woken :: "nat list"
  rc_pending_inputs :: pending_input_queue

definition run_control_new :: run_control where
  "run_control_new = \<lparr>rc_steer_requested = False, rc_cancel_requested = False, rc_cancel_waker = None,
     rc_woken = [], rc_pending_inputs = queue_new default_max_pending_inputs\<rparr>"

definition request_steer :: "run_control \<Rightarrow> run_control" where
  "request_steer c = c\<lparr>rc_steer_requested := True\<rparr>"

definition wake_canceller :: "run_control \<Rightarrow> run_control" where
  "wake_canceller c = (case rc_cancel_waker c of
     None \<Rightarrow> c | Some task \<Rightarrow> c\<lparr>rc_cancel_waker := None, rc_woken := rc_woken c @ [task]\<rparr>)"

definition request_cancel :: "run_control \<Rightarrow> run_control" where
  "request_cancel c = wake_canceller (c\<lparr>rc_cancel_requested := True\<rparr>)"

definition clear_cancel :: "run_control \<Rightarrow> run_control" where
  "clear_cancel c = c\<lparr>rc_cancel_requested := False\<rparr>"

definition clear_steer :: "run_control \<Rightarrow> run_control" where
  "clear_steer c = c\<lparr>rc_steer_requested := False\<rparr>"

definition submit_steer ::
  "queued_input \<Rightarrow> string option \<Rightarrow> run_control \<Rightarrow> (input_queue_error + unit) \<times> run_control" where
  "submit_steer q request_id c =
    (let steer = is_steer q;
         q' = (fst q\<lparr>ti_steer_request_id := request_id\<rparr>, snd q)
     in case queue_submit q' (rc_pending_inputs c) of
          (Inl e, pq) \<Rightarrow> (Inl e, c\<lparr>rc_pending_inputs := pq\<rparr>)
        | (Inr _, pq) \<Rightarrow>
            (Inr (), if steer then request_steer (c\<lparr>rc_pending_inputs := pq\<rparr>) else c\<lparr>rc_pending_inputs := pq\<rparr>))"

definition submit :: "queued_input \<Rightarrow> run_control \<Rightarrow> (input_queue_error + unit) \<times> run_control" where
  "submit q = submit_steer q None"

definition take_steer_input :: "run_control \<Rightarrow> queued_input option \<times> run_control" where
  "take_steer_input c =
    (case take_steer (rc_pending_inputs c) of (input, pq) \<Rightarrow>
       (input, if input = None \<or> \<not> has_steer pq then clear_steer (c\<lparr>rc_pending_inputs := pq\<rparr>)
               else c\<lparr>rc_pending_inputs := pq\<rparr>))"

definition cancel_pending_steers :: "run_control \<Rightarrow> queued_input list \<times> run_control" where
  "cancel_pending_steers c =
    (case cancel_steers (rc_pending_inputs c) of (cancelled, pq) \<Rightarrow>
       (cancelled, clear_steer (c\<lparr>rc_pending_inputs := pq\<rparr>)))"

definition take_follow_up_input :: "run_control \<Rightarrow> queued_input option \<times> run_control" where
  "take_follow_up_input c =
    (case take_follow_up (rc_pending_inputs c) of (input, pq) \<Rightarrow> (input, c\<lparr>rc_pending_inputs := pq\<rparr>))"

definition pending_input_count :: "run_control \<Rightarrow> nat" where
  "pending_input_count c = queue_len (rc_pending_inputs c)"

definition is_steer_requested :: "run_control \<Rightarrow> bool" where
  "is_steer_requested c = rc_steer_requested c"

definition take_cancel_requested :: "run_control \<Rightarrow> bool \<times> run_control" where
  "take_cancel_requested c = (rc_cancel_requested c, c\<lparr>rc_cancel_requested := False\<rparr>)"

definition is_cancel_requested :: "run_control \<Rightarrow> bool" where
  "is_cancel_requested c = rc_cancel_requested c"

subsection \<open>The bounds of the queue\<close>

definition queue_ok :: "pending_input_queue \<Rightarrow> bool" where
  "queue_ok pq \<longleftrightarrow> length (pq_inputs pq) \<le> pq_capacity pq
     \<and> (\<Sum>q\<leftarrow>pq_inputs pq. retained_bytes q) \<le> max_pending_input_bytes
     \<and> (\<forall>q \<in> set (pq_inputs pq). retained_bytes q \<le> max_pending_input_item_bytes
          \<and> (is_steer q \<or> is_follow_up q))"

lemma foldl_sat_add: "foldl sat_add a xs = (if xs = [] then a else min (a + sum_list xs) u64_max)"
  by (induction xs arbitrary: a) (auto simp: sat_add_def min_def)

lemma queue_submit_accepts:
  "queue_submit q pq = (Inr (), pq') \<Longrightarrow>
    pq' = pq\<lparr>pq_inputs := pq_inputs pq @ [q]\<rparr> \<and> \<not> pq_poisoned pq \<and> (is_steer q \<or> is_follow_up q)
    \<and> length (pq_inputs pq) < pq_capacity pq \<and> retained_bytes q \<le> max_pending_input_item_bytes
    \<and> (\<Sum>q\<leftarrow>pq_inputs pq. retained_bytes q) + retained_bytes q \<le> max_pending_input_bytes"
  by (cases "ti_mode (fst q)")
    (auto simp: queue_submit_def Let_def is_steer_def is_follow_up_def foldl_sat_add sat_add_def min_def
      max_pending_input_bytes_def u64_max_def split: if_splits)

lemma queue_submit_rejects: "queue_submit q pq = (Inl e, pq') \<Longrightarrow> pq' = pq"
  by (auto simp: queue_submit_def Let_def split: if_splits)

lemma queue_ok_sub:
  assumes "queue_ok pq" and "set xs \<subseteq> set (pq_inputs pq)" and "length xs \<le> length (pq_inputs pq)"
    and "(\<Sum>q\<leftarrow>xs. retained_bytes q) \<le> (\<Sum>q\<leftarrow>pq_inputs pq. retained_bytes q)"
  shows "queue_ok (pq\<lparr>pq_inputs := xs\<rparr>)"
  using assms by (auto simp: queue_ok_def)

lemma queue_ok_take_matching: "queue_ok pq \<Longrightarrow> queue_ok (snd (take_matching p pq))"
proof (cases "position p (pq_inputs pq)")
  case (Some i)
  assume ok: "queue_ok pq"
  have "length (remove_at i (pq_inputs pq)) \<le> length (pq_inputs pq)"
    using position_SomeD [OF Some] by (simp add: length_remove_at)
  with ok Some show ?thesis
    by (auto simp: take_matching_def intro!: queue_ok_sub set_remove_at sum_list_remove_at)
qed (simp add: take_matching_def)

lemma queue_ok_submit: "queue_ok pq \<Longrightarrow> queue_ok (snd (queue_submit q pq))"
proof (cases "queue_submit q pq")
  case (Pair r pq')
  assume ok: "queue_ok pq"
  show ?thesis
  proof (cases r)
    case (Inl e)
    with Pair ok queue_submit_rejects show ?thesis by fastforce
  next
    case (Inr u)
    with Pair have "queue_submit q pq = (Inr (), pq')" by simp
    from queue_submit_accepts [OF this] ok Pair show ?thesis by (auto simp: queue_ok_def)
  qed
qed

lemma queue_ok_cancel_steers: "queue_ok pq \<Longrightarrow> queue_ok (snd (cancel_steers pq))"
  by (auto simp: cancel_steers_def intro!: queue_ok_sub sum_list_filter_le_nat)

lemma queue_ok_new: "queue_ok (queue_new n)"
  by (simp add: queue_ok_def queue_new_def)


subsection \<open>Two first-in first-out lanes\<close>

text \<open>
  The contract a lane of the queue keeps: what is put is taken in order, and nothing else
  touches the lane.
\<close>

locale fifo_lane =
  fixes lane :: "'q \<Rightarrow> 'x list"
    and put :: "'x \<Rightarrow> 'q \<Rightarrow> 'q"
    and take_first :: "'q \<Rightarrow> 'x option \<times> 'q"
    and accepts :: "'x \<Rightarrow> 'q \<Rightarrow> bool"
    and live :: "'q \<Rightarrow> bool"
  assumes lane_put: "live q \<Longrightarrow> accepts x q \<Longrightarrow> lane (put x q) = lane q @ [x] \<and> live (put x q)"
    and take_empty: "live q \<Longrightarrow> lane q = [] \<Longrightarrow> take_first q = (None, q)"
    and take_some: "live q \<Longrightarrow> lane q = x # xs \<Longrightarrow>
      fst (take_first q) = Some x \<and> lane (snd (take_first q)) = xs \<and> live (snd (take_first q))"
begin

fun drain :: "nat \<Rightarrow> 'q \<Rightarrow> 'x list \<times> 'q" where
  "drain 0 q = ([], q)"
| "drain (Suc n) q = (case take_first q of
     (None, q') \<Rightarrow> ([], q')
   | (Some x, q') \<Rightarrow> (case drain n q' of (xs, q'') \<Rightarrow> (x # xs, q'')))"

lemma drain_lane: "live q \<Longrightarrow> length (lane q) \<le> n \<Longrightarrow> fst (drain n q) = lane q"
proof (induction n arbitrary: q)
  case (Suc n)
  show ?case
  proof (cases "lane q")
    case Nil
    with Suc.prems show ?thesis by (simp add: take_empty)
  next
    case (Cons x xs)
    from take_some [OF Suc.prems(1) Cons] obtain q' where
      t: "take_first q = (Some x, q')" "lane q' = xs" "live q'"
      by (cases "take_first q") auto
    with Suc.IH [of q'] Suc.prems Cons show ?thesis by (auto split: prod.splits)
  qed
qed simp

end

definition queue_put :: "queued_input \<Rightarrow> pending_input_queue \<Rightarrow> pending_input_queue" where
  "queue_put q pq = snd (queue_submit q pq)"

definition lane_of :: "(queued_input \<Rightarrow> bool) \<Rightarrow> pending_input_queue \<Rightarrow> queued_input list" where
  "lane_of p pq = filter p (pq_inputs pq)"

definition lane_accepts :: "(queued_input \<Rightarrow> bool) \<Rightarrow> queued_input \<Rightarrow> pending_input_queue \<Rightarrow> bool" where
  "lane_accepts p q pq \<longleftrightarrow> p q \<and> fst (queue_submit q pq) = Inr ()"

definition queue_live :: "pending_input_queue \<Rightarrow> bool" where
  "queue_live pq \<longleftrightarrow> \<not> pq_poisoned pq"

lemma lane_put_matching:
  assumes "queue_live pq" and "lane_accepts p q pq"
  shows "lane_of p (queue_put q pq) = lane_of p pq @ [q] \<and> queue_live (queue_put q pq)"
proof -
  have "queue_submit q pq = (Inr (), queue_put q pq)"
    using assms(2) by (simp add: lane_accepts_def queue_put_def prod_eq_iff)
  from queue_submit_accepts [OF this] assms show ?thesis
    by (simp add: lane_of_def lane_accepts_def queue_live_def)
qed

lemma take_matching_empty: "queue_live pq \<Longrightarrow> lane_of p pq = [] \<Longrightarrow> take_matching p pq = (None, pq)"
  by (auto simp: take_matching_def lane_of_def queue_live_def filter_empty_conv position_None_iff
      dest!: position_SomeD split: option.splits)

lemma take_matching_first:
  assumes "queue_live pq" and "lane_of p pq = x # xs"
  shows "fst (take_matching p pq) = Some x \<and> lane_of p (snd (take_matching p pq)) = xs
    \<and> queue_live (snd (take_matching p pq))
    \<and> lane_of (\<lambda>q. \<not> p q) (snd (take_matching p pq)) = lane_of (\<lambda>q. \<not> p q) pq"
proof -
  have "position p (pq_inputs pq) \<noteq> None"
    using assms(2) by (auto simp: lane_of_def position_None_iff filter_empty_conv dest: filter_eq_ConsD)
  then obtain i where i: "position p (pq_inputs pq) = Some i" by auto
  from filter_remove_at [OF i] assms i show ?thesis
    by (simp add: take_matching_def lane_of_def queue_live_def)
qed

interpretation steers: fifo_lane "lane_of is_steer" queue_put take_steer "lane_accepts is_steer" queue_live
  by unfold_locales
    (simp_all add: take_steer_def take_matching_empty take_matching_first lane_put_matching)

interpretation follow_ups: fifo_lane "lane_of is_follow_up" queue_put take_follow_up "lane_accepts is_follow_up" queue_live
  by unfold_locales
    (simp_all add: take_follow_up_def take_matching_empty take_matching_first lane_put_matching)

text \<open>
  Every operation of the queue keeps its bounds: the number of inputs, their allocated bytes
  together and one by one, and only steers and follow-ups are ever queued.
\<close>

theorem queue_operations_stay_bounded:
  assumes "queue_ok pq"
  shows "queue_ok (snd (queue_submit q pq)) \<and> queue_ok (snd (take_steer pq))
    \<and> queue_ok (snd (take_follow_up pq)) \<and> queue_ok (snd (cancel_steers pq))"
  using assms by (simp add: queue_ok_submit take_steer_def take_follow_up_def queue_ok_take_matching
      queue_ok_cancel_steers)

text \<open>One operation on the control, run alone.\<close>

datatype control_op =
    Op_submit queued_input "string option"
  | Op_take_steer
  | Op_take_follow_up
  | Op_cancel_steers
  | Op_request_cancel
  | Op_clear_cancel

fun apply_op :: "control_op \<Rightarrow> run_control \<Rightarrow> run_control" where
  "apply_op (Op_submit q r) c = snd (submit_steer q r c)"
| "apply_op Op_take_steer c = snd (take_steer_input c)"
| "apply_op Op_take_follow_up c = snd (take_follow_up_input c)"
| "apply_op Op_cancel_steers c = snd (cancel_pending_steers c)"
| "apply_op Op_request_cancel c = request_cancel c"
| "apply_op Op_clear_cancel c = clear_cancel c"

definition steer_flag_ok :: "run_control \<Rightarrow> bool" where
  "steer_flag_ok c \<longleftrightarrow> (has_steer (rc_pending_inputs c) \<longrightarrow> rc_steer_requested c)"

lemma has_steer_iff: "has_steer pq \<longleftrightarrow> queue_live pq \<and> lane_of is_steer pq \<noteq> []"
  by (auto simp: has_steer_def queue_live_def lane_of_def list_ex_iff filter_empty_conv)

lemma is_steer_request_id [simp]: "is_steer (fst q\<lparr>ti_steer_request_id := r\<rparr>, snd q) = is_steer q"
  by (simp add: is_steer_def)

lemma follow_up_keeps_steers: "lane_of is_steer (snd (take_follow_up pq)) = lane_of is_steer pq
    \<and> pq_poisoned (snd (take_follow_up pq)) = pq_poisoned pq"
proof (cases "position is_follow_up (pq_inputs pq)")
  case (Some i)
  have disj: "filter is_steer xs = filter is_steer (filter (\<lambda>q. \<not> is_follow_up q) xs)" for xs
    by (auto simp: is_steer_def is_follow_up_def intro: filter_cong)
  from filter_remove_at(2) [OF Some] disj [of "pq_inputs pq"] disj [of "remove_at i (pq_inputs pq)"] Some
  show ?thesis by (simp add: take_follow_up_def take_matching_def lane_of_def)
qed (simp add: take_follow_up_def take_matching_def)

lemma take_steer_lane:
  assumes "queue_live pq" and "take_steer pq = (x, pq')"
  shows "queue_live pq' \<and> lane_of is_steer pq = (case x of None \<Rightarrow> [] | Some q \<Rightarrow> [q]) @ lane_of is_steer pq'"
proof (cases "lane_of is_steer pq")
  case Nil
  with steers.take_empty [OF assms(1)] assms show ?thesis by simp
next
  case (Cons y ys)
  with steers.take_some [OF assms(1) Cons] assms(2) show ?thesis by auto
qed

lemma apply_op_steer_flag: "steer_flag_ok c \<Longrightarrow> steer_flag_ok (apply_op op c)"
proof (cases op)
  case (Op_submit q r)
  assume ok: "steer_flag_ok c"
  let ?q = "(fst q\<lparr>ti_steer_request_id := r\<rparr>, snd q)"
  show ?thesis
  proof (cases "queue_submit ?q (rc_pending_inputs c)")
    case (Pair res pq)
    show ?thesis
    proof (cases res)
      case (Inl e)
      with Pair have "pq = rc_pending_inputs c" using queue_submit_rejects by blast
      with Pair Inl ok Op_submit show ?thesis by (simp add: submit_steer_def Let_def steer_flag_ok_def)
    next
      case (Inr u)
      with Pair queue_submit_accepts [of ?q "rc_pending_inputs c" pq] ok Op_submit show ?thesis
        by (auto simp: submit_steer_def Let_def steer_flag_ok_def request_steer_def has_steer_def)
    qed
  qed
next
  case Op_take_follow_up
  assume "steer_flag_ok c"
  with follow_up_keeps_steers [of "rc_pending_inputs c"] Op_take_follow_up show ?thesis
    by (cases "take_follow_up (rc_pending_inputs c)")
      (simp add: take_follow_up_input_def steer_flag_ok_def has_steer_iff queue_live_def)
next
  case Op_take_steer
  assume ok: "steer_flag_ok c"
  obtain x pq where t: "take_steer (rc_pending_inputs c) = (x, pq)"
    by (cases "take_steer (rc_pending_inputs c)") auto
  have "has_steer pq \<Longrightarrow> x \<noteq> None \<and> has_steer (rc_pending_inputs c)"
  proof (cases "queue_live (rc_pending_inputs c)")
    case False
    assume "has_steer pq"
    with False t show ?thesis by (auto simp: take_steer_def take_matching_def queue_live_def has_steer_def)
  next
    case True
    assume has: "has_steer pq"
    from take_steer_lane [OF True t] has have ne: "lane_of is_steer (rc_pending_inputs c) \<noteq> []"
      by (auto simp: has_steer_iff)
    then obtain y ys where "lane_of is_steer (rc_pending_inputs c) = y # ys"
      by (cases "lane_of is_steer (rc_pending_inputs c)") auto
    from steers.take_some [OF True this] t ne True show ?thesis by (simp add: has_steer_iff)
  qed
  with ok t Op_take_steer show ?thesis
    by (auto simp: steer_flag_ok_def take_steer_input_def clear_steer_def)
qed (auto simp: steer_flag_ok_def clear_steer_def
    cancel_pending_steers_def cancel_steers_def has_steer_def list_ex_iff request_cancel_def
    wake_canceller_def clear_cancel_def split: prod.splits option.splits if_splits)

text \<open>
  Whenever each operation on the control runs alone, a pending steer is always signalled:
  after any sequence of submissions, takes and cancellations the flag is set if the queue
  holds a steer.
\<close>

theorem steer_flag_follows_queue:
  "steer_flag_ok (fold apply_op ops run_control_new)"
proof -
  have "steer_flag_ok c \<Longrightarrow> steer_flag_ok (fold apply_op ops c)" for c
    by (induction ops arbitrary: c) (simp_all add: apply_op_steer_flag)
  then show ?thesis
    by (simp add: steer_flag_ok_def run_control_new_def has_steer_def queue_new_def)
qed

subsection \<open>Interleaved operations\<close>

text \<open>
  \<open>submit_steer\<close> is two atomic steps, the locked push and the store of the flag;
  \<open>take_steer_input\<close> is three, the locked take, the locked test and the store.  Any number of
  producers may be between their two steps (\<open>sr_unsignalled\<close>); the running turn is the only
  consumer.  \<open>sr_accepted\<close> and \<open>sr_taken\<close> record what the queue accepted and handed out.
\<close>

datatype taker = Taker_Idle | Taker_Took "queued_input option" | Taker_Clearing

record steer_race =
  sr_queue :: pending_input_queue
  sr_flag :: bool
  sr_unsignalled :: nat
  sr_taker :: taker
  sr_accepted :: "queued_input list"
  sr_taken :: "queued_input list"

definition steer_race_init :: "nat \<Rightarrow> steer_race" where
  "steer_race_init capacity = \<lparr>sr_queue = queue_new capacity, sr_flag = False, sr_unsignalled = 0,
     sr_taker = Taker_Idle, sr_accepted = [], sr_taken = []\<rparr>"

lemma steer_race_init_sel [simp]:
  "sr_queue (steer_race_init n) = queue_new n" "sr_flag (steer_race_init n) = False"
  "sr_unsignalled (steer_race_init n) = 0" "sr_taker (steer_race_init n) = Taker_Idle"
  "sr_accepted (steer_race_init n) = []" "sr_taken (steer_race_init n) = []"
  by (simp_all add: steer_race_init_def)

lemma queue_new_sel [simp]:
  "pq_inputs (queue_new n) = []" "pq_poisoned (queue_new n) = False" "pq_capacity (queue_new n) = n"
  by (simp_all add: queue_new_def)

inductive steer_step :: "steer_race \<Rightarrow> steer_race \<Rightarrow> bool" where
  push_steer: "queue_submit q (sr_queue s) = (Inr (), pq) \<Longrightarrow> is_steer q \<Longrightarrow>
    steer_step s (s\<lparr>sr_queue := pq, sr_unsignalled := sr_unsignalled s + 1, sr_accepted := sr_accepted s @ [q]\<rparr>)"
| push_follow_up: "queue_submit q (sr_queue s) = (Inr (), pq) \<Longrightarrow> \<not> is_steer q \<Longrightarrow>
    steer_step s (s\<lparr>sr_queue := pq\<rparr>)"
| signal: "0 < sr_unsignalled s \<Longrightarrow>
    steer_step s (s\<lparr>sr_flag := True, sr_unsignalled := sr_unsignalled s - 1\<rparr>)"
| take_first: "sr_taker s = Taker_Idle \<Longrightarrow> take_steer (sr_queue s) = (x, pq) \<Longrightarrow>
    steer_step s (s\<lparr>sr_queue := pq, sr_taker := Taker_Took x,
      sr_taken := sr_taken s @ (case x of None \<Rightarrow> [] | Some q \<Rightarrow> [q])\<rparr>)"
| test: "sr_taker s = Taker_Took x \<Longrightarrow>
    steer_step s (s\<lparr>sr_taker := (if x = None \<or> \<not> has_steer (sr_queue s) then Taker_Clearing else Taker_Idle)\<rparr>)"
| clear: "sr_taker s = Taker_Clearing \<Longrightarrow>
    steer_step s (s\<lparr>sr_flag := False, sr_taker := Taker_Idle\<rparr>)"

inductive steer_reach :: "nat \<Rightarrow> steer_race \<Rightarrow> bool" for capacity where
  start: "steer_reach capacity (steer_race_init capacity)"
| step: "steer_reach capacity s \<Longrightarrow> steer_step s s' \<Longrightarrow> steer_reach capacity s'"

inductive_cases steer_step_cases: "steer_step s s'"

lemma steer_step_invariant:
  assumes "steer_step s s'" and "queue_live (sr_queue s)" and "queue_ok (sr_queue s)"
    and "sr_accepted s = sr_taken s @ lane_of is_steer (sr_queue s)"
  shows "queue_live (sr_queue s') \<and> queue_ok (sr_queue s')
    \<and> sr_accepted s' = sr_taken s' @ lane_of is_steer (sr_queue s')"
  using assms
proof (cases rule: steer_step.cases)
  case (push_steer q pq)
  from queue_submit_accepts [OF this(2)] queue_ok_submit [OF assms(3), of q] assms push_steer show ?thesis
    by (simp add: lane_of_def queue_live_def)
next
  case (push_follow_up q pq)
  from queue_submit_accepts [OF this(2)] queue_ok_submit [OF assms(3), of q] assms push_follow_up show ?thesis
    by (simp add: lane_of_def queue_live_def)
next
  case (take_first x pq)
  from take_steer_lane [OF assms(2) take_first(3)] queue_ok_take_matching [OF assms(3), of is_steer]
    assms take_first show ?thesis by (simp add: take_steer_def)
qed simp_all

text \<open>
  C9.  However producers and the running turn interleave, no steer is lost, duplicated or
  reordered: the accepted steers are those handed out so far followed by those still queued,
  and the queue stays within its bounds.
\<close>

theorem steers_conserved_under_interleaving:
  assumes "steer_reach capacity s"
  shows "sr_accepted s = sr_taken s @ filter is_steer (pq_inputs (sr_queue s)) \<and> queue_ok (sr_queue s)"
proof -
  from assms have "queue_live (sr_queue s) \<and> queue_ok (sr_queue s)
    \<and> sr_accepted s = sr_taken s @ lane_of is_steer (sr_queue s)"
  proof induction
    case start
    then show ?case
      by (simp add: steer_race_init_def queue_live_def lane_of_def queue_new_def queue_ok_def)
  next
    case (step s s')
    with steer_step_invariant [OF step.hyps(2)] show ?case by blast
  qed
  then show ?thesis by (simp add: lane_of_def)
qed

definition sample_steer :: "string \<Rightarrow> queued_input" where
  "sample_steer t = (turn_input_new Steer t, \<lparr>cap_text = length t, cap_skills = 0, cap_skill_names = [],
     cap_workflow_id = 0, cap_provider_id = 0, cap_model_id = 0, cap_reasoning_level = 0,
     cap_reasoning_effort = 0, cap_steer_request_id = 0\<rparr>)"

lemma sample_steer_retained: "length t \<le> 100 \<Longrightarrow> retained_bytes (sample_steer t) = length t"
proof -
  assume "length t \<le> 100"
  then have "sat_add (length t) 0 = length t" by (simp add: sat_add_eq u64_max_def)
  moreover have "sat_mul 0 n = 0" "sat_add 0 0 = 0" for n by (simp_all add: sat_mul_def sat_add_def)
  ultimately show ?thesis
    by (simp add: retained_bytes_def sample_steer_def turn_input_new_def)
qed

lemma sample_submit:
  "length t \<le> 100 \<Longrightarrow> \<not> pq_poisoned pq \<Longrightarrow> pq_inputs pq = [] \<Longrightarrow> 0 < pq_capacity pq \<Longrightarrow>
    queue_submit (sample_steer t) pq = (Inr (), pq\<lparr>pq_inputs := [sample_steer t]\<rparr>)"
  using sample_steer_retained [of t]
  by (simp add: queue_submit_def sample_steer_def turn_input_new_def max_pending_input_item_bytes_def
      max_pending_input_bytes_def Let_def sat_add_def u64_max_def)

lemma is_steer_sample [simp]: "is_steer (sample_steer t)"
  by (simp add: is_steer_def sample_steer_def turn_input_new_def)

theorem steers_conserved_under_interleaving_witness:
  "\<exists>s :: steer_race. sr_accepted s = [sample_steer ''a''] \<and>
     sr_accepted s = sr_taken s @ filter is_steer (pq_inputs (sr_queue s)) \<and> queue_ok (sr_queue s)"
proof -
  let ?s = "(steer_race_init 16)\<lparr>sr_queue := (queue_new 16)\<lparr>pq_inputs := [sample_steer ''a'']\<rparr>,
     sr_unsignalled := 1, sr_accepted := [sample_steer ''a'']\<rparr>"
  have "queue_submit (sample_steer ''a'') (sr_queue (steer_race_init 16))
      = (Inr (), (queue_new 16)\<lparr>pq_inputs := [sample_steer ''a'']\<rparr>)"
    by (simp add: sample_submit)
  from push_steer [OF this] have "steer_step (steer_race_init 16) ?s" by simp
  then have "steer_reach 16 ?s" by (rule steer_reach.step [OF steer_reach.start])
  from steers_conserved_under_interleaving [OF this] show ?thesis
    by (intro exI [of _ ?s]) simp
qed

text \<open>
  The three steps of \<open>take_steer_input\<close> are not atomic: a steer pushed and signalled between
  its test and its store stays queued with the flag down, every routine at rest.  The running
  turn then does not see it at its next checkpoints.
\<close>

theorem steer_signal_can_be_lost:
  "\<exists>s :: steer_race. steer_reach 16 s \<and> sr_taker s = Taker_Idle \<and> sr_unsignalled s = 0
     \<and> has_steer (sr_queue s) \<and> \<not> sr_flag s"
proof -
  let ?q = "\<lambda>t. (queue_new 16)\<lparr>pq_inputs := [sample_steer t]\<rparr>"
  have submit: "queue_submit (sample_steer t) (queue_new 16) = (Inr (), ?q t)" if "length t \<le> 100" for t
    using that by (simp add: sample_submit)
  have take: "take_steer (?q t) = (Some (sample_steer t), queue_new 16)" for t
    by (simp add: take_steer_def take_matching_def remove_at_def)
  have reach: "steer_reach 16 \<lparr>sr_queue = qu, sr_flag = f, sr_unsignalled = n, sr_taker = k,
      sr_accepted = a, sr_taken = b\<rparr>"
    if "steer_reach 16 s" "steer_step s \<lparr>sr_queue = qu, sr_flag = f, sr_unsignalled = n, sr_taker = k,
      sr_accepted = a, sr_taken = b\<rparr>" for s qu f n k a b
    using that by (rule steer_reach.step)
  let ?st = "\<lambda>qu f n k a b. \<lparr>sr_queue = qu, sr_flag = f, sr_unsignalled = n, sr_taker = k,
      sr_accepted = a, sr_taken = b\<rparr>"
  let ?a = "[sample_steer ''a'']" and ?ab = "[sample_steer ''a'', sample_steer ''b'']"
  have 0: "steer_reach 16 (?st (queue_new 16) False 0 Taker_Idle [] [])"
    using steer_reach.start [of 16] by (simp add: steer_race_init_def)
  have 1: "steer_reach 16 (?st (?q ''a'') False 1 Taker_Idle ?a [])"
    by (rule reach [OF 0]) (use push_steer [of "sample_steer ''a''" "?st (queue_new 16) False 0 Taker_Idle [] []"]
        submit in simp)
  have 2: "steer_reach 16 (?st (?q ''a'') True 0 Taker_Idle ?a [])"
    by (rule reach [OF 1]) (use signal [of "?st (?q ''a'') False 1 Taker_Idle ?a []"] in simp)
  have 3: "steer_reach 16 (?st (queue_new 16) True 0 (Taker_Took (Some (sample_steer ''a''))) ?a ?a)"
    by (rule reach [OF 2]) (use take_first [of "?st (?q ''a'') True 0 Taker_Idle ?a []"] take in simp)
  have 4: "steer_reach 16 (?st (queue_new 16) True 0 Taker_Clearing ?a ?a)"
    by (rule reach [OF 3]) (use test [of "?st (queue_new 16) True 0 (Taker_Took (Some (sample_steer ''a''))) ?a ?a"]
        in \<open>simp add: has_steer_def\<close>)
  have 5: "steer_reach 16 (?st (?q ''b'') True 1 Taker_Clearing ?ab ?a)"
    by (rule reach [OF 4]) (use push_steer [of "sample_steer ''b''" "?st (queue_new 16) True 0 Taker_Clearing ?a ?a"]
        submit in simp)
  have 6: "steer_reach 16 (?st (?q ''b'') True 0 Taker_Clearing ?ab ?a)"
    by (rule reach [OF 5]) (use signal [of "?st (?q ''b'') True 1 Taker_Clearing ?ab ?a"] in simp)
  have "steer_reach 16 (?st (?q ''b'') False 0 Taker_Idle ?ab ?a)"
    by (rule reach [OF 6]) (use clear [of "?st (?q ''b'') True 0 Taker_Clearing ?ab ?a"] in simp)
  then show ?thesis
    by (intro exI [of _ "?st (?q ''b'') False 0 Taker_Idle ?ab ?a"]) (simp add: has_steer_def)
qed

subsection \<open>Cancellation wakes a parked turn\<close>

text \<open>
  One poll of \<open>until_cancelled\<close> loads the flag, stores its waker, loads the flag again and polls
  the inner future; \<open>request_cancel\<close> stores the flag and then takes and wakes the waker.  The
  steps of one polling task and any number of cancelling threads (\<open>cw_cancelling\<close> of them
  between their two steps) interleave.  A wake-up that arrives while the task runs makes the
  executor poll it again.
\<close>

datatype poll_phase =
  Poll_Ready | Poll_Checked | Poll_Registered | Poll_Inner | Poll_Parked | Poll_Cancelled | Poll_Finished

record cancel_wait =
  cw_flag :: bool
  cw_waker :: bool
  cw_notified :: bool
  cw_phase :: poll_phase
  cw_cancelling :: nat

definition cancel_wait_init :: cancel_wait where
  "cancel_wait_init = \<lparr>cw_flag = False, cw_waker = False, cw_notified = False, cw_phase = Poll_Ready,
     cw_cancelling = 0\<rparr>"

inductive cancel_step :: "cancel_wait \<Rightarrow> cancel_wait \<Rightarrow> bool" where
  first_load: "cw_phase s = Poll_Ready \<Longrightarrow>
    cancel_step s (s\<lparr>cw_phase := (if cw_flag s then Poll_Cancelled else Poll_Checked)\<rparr>)"
| store_waker: "cw_phase s = Poll_Checked \<Longrightarrow>
    cancel_step s (s\<lparr>cw_waker := True, cw_phase := Poll_Registered\<rparr>)"
| second_load: "cw_phase s = Poll_Registered \<Longrightarrow>
    cancel_step s (s\<lparr>cw_phase := (if cw_flag s then Poll_Cancelled else Poll_Inner)\<rparr>)"
| inner_ready: "cw_phase s = Poll_Inner \<Longrightarrow> cancel_step s (s\<lparr>cw_phase := Poll_Finished\<rparr>)"
| inner_pending: "cw_phase s = Poll_Inner \<Longrightarrow> cancel_step s (s\<lparr>cw_phase := Poll_Parked\<rparr>)"
| repoll: "cw_phase s = Poll_Parked \<Longrightarrow> cw_notified s \<Longrightarrow>
    cancel_step s (s\<lparr>cw_phase := Poll_Ready, cw_notified := False\<rparr>)"
| inner_wakes: "cw_phase s = Poll_Parked \<Longrightarrow> cancel_step s (s\<lparr>cw_notified := True\<rparr>)"
| set_flag: "cancel_step s (s\<lparr>cw_flag := True, cw_cancelling := cw_cancelling s + 1\<rparr>)"
| take_waker: "0 < cw_cancelling s \<Longrightarrow>
    cancel_step s (s\<lparr>cw_waker := False, cw_notified := (cw_notified s \<or> cw_waker s),
      cw_cancelling := cw_cancelling s - 1\<rparr>)"

inductive cancel_reach :: "cancel_wait \<Rightarrow> bool" where
  start: "cancel_reach cancel_wait_init"
| step: "cancel_reach s \<Longrightarrow> cancel_step s s' \<Longrightarrow> cancel_reach s'"

inductive_cases cancel_step_cases: "cancel_step s s'"

text \<open>
  While a task that has registered its waker is not yet notified, the waker is still there;
  and past the second load a set flag means that a canceller has yet to take the waker.
\<close>

definition cancel_inv :: "cancel_wait \<Rightarrow> bool" where
  "cancel_inv s \<longleftrightarrow>
     (cw_phase s \<in> {Poll_Registered, Poll_Inner, Poll_Parked} \<longrightarrow> cw_waker s \<or> cw_notified s \<or> cw_flag s) \<and>
     (cw_phase s \<in> {Poll_Inner, Poll_Parked} \<longrightarrow> cw_flag s \<longrightarrow>
        cw_notified s \<or> (0 < cw_cancelling s \<and> cw_waker s))"

lemma cancel_step_inv: "cancel_step s s' \<Longrightarrow> cancel_inv s \<Longrightarrow> cancel_inv s'"
  by (induction rule: cancel_step.induct) (auto simp: cancel_inv_def)

text \<open>
  C36.  A cancellation is never slept through: once every cancelling thread has finished, a parked
  turn whose flag is set has been notified, and its next poll ends it as cancelled.
\<close>

theorem cancellation_never_sleeps:
  assumes "cancel_reach s" and "cw_phase s = Poll_Parked" and "cw_flag s" and "cw_cancelling s = 0"
  shows "\<exists>s1 s2. cancel_step s s1 \<and> cancel_step s1 s2 \<and> cw_phase s2 = Poll_Cancelled"
proof -
  from assms(1) have "cancel_inv s"
  proof induction
    case start
    show ?case by (simp add: cancel_inv_def cancel_wait_init_def)
  next
    case (step s s')
    then show ?case using cancel_step_inv by blast
  qed
  with assms have notified: "cw_notified s" by (simp add: cancel_inv_def)
  let ?s1 = "s\<lparr>cw_phase := Poll_Ready, cw_notified := False\<rparr>"
  have "cancel_step s ?s1" using repoll assms(2) notified by blast
  moreover have "cancel_step ?s1 (?s1\<lparr>cw_phase := Poll_Cancelled\<rparr>)"
    using first_load [of ?s1] assms(3) by simp
  ultimately show ?thesis by (metis cancel_wait.select_convs(4) cancel_wait.surjective cancel_wait.update_convs(4))
qed

theorem cancellation_never_sleeps_witness:
  "\<exists>s s1 s2 :: cancel_wait. cw_phase s = Poll_Parked \<and> cancel_step s s1 \<and> cancel_step s1 s2
     \<and> cw_phase s2 = Poll_Cancelled"
proof -
  let ?st = "\<lambda>f w n p k. \<lparr>cw_flag = f, cw_waker = w, cw_notified = n, cw_phase = p, cw_cancelling = k\<rparr>"
  have 0: "cancel_reach (?st False False False Poll_Ready 0)"
    using cancel_reach.start by (simp add: cancel_wait_init_def)
  have 1: "cancel_reach (?st False False False Poll_Checked 0)"
    by (rule cancel_reach.step [OF 0]) (use first_load [of "?st False False False Poll_Ready 0"] in simp)
  have 2: "cancel_reach (?st False True False Poll_Registered 0)"
    by (rule cancel_reach.step [OF 1]) (use store_waker [of "?st False False False Poll_Checked 0"] in simp)
  have 3: "cancel_reach (?st False True False Poll_Inner 0)"
    by (rule cancel_reach.step [OF 2]) (use second_load [of "?st False True False Poll_Registered 0"] in simp)
  have 4: "cancel_reach (?st False True False Poll_Parked 0)"
    by (rule cancel_reach.step [OF 3]) (use inner_pending [of "?st False True False Poll_Inner 0"] in simp)
  have 5: "cancel_reach (?st True True False Poll_Parked 1)"
    by (rule cancel_reach.step [OF 4]) (use set_flag [of "?st False True False Poll_Parked 0"] in simp)
  have 6: "cancel_reach (?st True False True Poll_Parked 0)"
    by (rule cancel_reach.step [OF 5]) (use take_waker [of "?st True True False Poll_Parked 1"] in simp)
  from cancellation_never_sleeps [OF 6] show ?thesis
    by (metis cancel_wait.select_convs)
qed

theorem queue_operations_stay_bounded_witness:
  "queue_ok (snd (queue_submit (sample_steer ''a'') (queue_new 2))) \<and> queue_ok (snd (take_steer (queue_new 2)))
    \<and> queue_ok (snd (take_follow_up (queue_new 2))) \<and> queue_ok (snd (cancel_steers (queue_new 2)))"
  by (rule queue_operations_stay_bounded) (rule queue_ok_new)

end
