(* ===== verification/Execution.thy ===== *)
theory Execution
  imports Run_Control Text_Cut
begin

section \<open>Execution state: checkpoints, journal, tool router, model events\<close>

text \<open>
  The recoverable execution records and journal entries (execution.rs), the tool router
  (tool.rs) and the forwarding of model events (turn_engine.rs), and the runtime state the
  control loop of the harness threads through its calls.  What surrounds the loop is the
  record \<open>host_env\<close>: the JSON encoder, the journal and the observer with their effect on the
  world, the clock, and the other threads, which act on the run control before every atomic
  access the loop makes to it.  \<open>rt_trace\<close> is a history of the effects; nothing reads it.
\<close>

subsection \<open>Checkpoints and journal entries (execution.rs)\<close>

datatype execution_phase = Phase_ModelRequest | Phase_ToolBatch

record 'v execution_checkpoint =
  ecp_turn_id :: turn_id
  ecp_input :: turn_input
  ecp_messages :: "'v message list"
  ecp_next_model_step :: nat
  ecp_final_text :: string
  ecp_phase :: execution_phase
  ecp_applied_steer_request_ids :: "string list"

record 'v tool_batch_intent =
  tbi_turn_id :: turn_id
  tbi_step :: nat
  tbi_reasoning :: string
  tbi_text :: string
  tbi_calls :: "'v tool_call list"

record 'v execution_tool_call =
  etc_call :: "'v tool_call"
  etc_started :: bool
  etc_outcome :: "tool_execution_outcome option"

record 'v execution_tool_batch =
  etb_intent :: "'v tool_batch_intent"
  etb_calls :: "'v execution_tool_call list"

record execution_run_context =
  erc_turn_id :: turn_id
  erc_input :: turn_input
  erc_applied_steer_request_ids :: "string list"

record 'v execution_run_options =
  ero_tool_context :: "tool_execution_context option"
  ero_execution_context :: "execution_run_context option"
  ero_resume :: "('v execution_checkpoint \<times> 'v execution_tool_batch option) option"

datatype 'v execution_journal_entry =
    J_Checkpoint "'v execution_checkpoint"
  | J_SteerAccepted turn_id string string
  | J_SteerUnapplied turn_id string string
  | J_ToolBatchStarted "'v tool_batch_intent"
  | J_ToolCallStarted turn_id nat string
  | J_ToolCallFinished turn_id nat string tool_execution_outcome
  | J_ToolBatchSettled turn_id nat
  | J_WaitingForContinue turn_id string
  | J_Resumed turn_id string nat
  | J_Heartbeat turn_id execution_phase nat nat
  | J_NeedsReconciliation turn_id string
  | J_Settled turn_id

subsection \<open>The tool router (tool.rs)\<close>

record ('w, 'v) tool_router =
  tr_tools :: "('w, 'v) tool list"
  tr_executor :: "('w, 'v) delegate"
  tr_hidden :: "string list"

definition direct_tool_execution :: "('w, 'v) delegate" where
  "direct_tool_execution tool request = tl_execute_outcome tool (ter_arguments request)"

definition router_with_executor :: "('w, 'v) tool list \<Rightarrow> ('w, 'v) delegate \<Rightarrow> ('w, 'v) tool_router" where
  "router_with_executor tools executor = \<lparr>tr_tools = tools, tr_executor = executor, tr_hidden = []\<rparr>"

definition router_new :: "('w, 'v) tool list \<Rightarrow> ('w, 'v) tool_router" where
  "router_new tools = router_with_executor tools direct_tool_execution"

definition is_hidden :: "('w, 'v) tool_router \<Rightarrow> string \<Rightarrow> bool" where
  "is_hidden router name \<longleftrightarrow> name \<in> set (tr_hidden router)"

definition router_specs :: "('w, 'v) tool_router \<Rightarrow> 'v tool_spec list" where
  "router_specs router =
    map tl_spec (filter (\<lambda>t. \<not> is_hidden router (ts_name (tl_spec t))) (tr_tools router))"

definition router_extend :: "('w, 'v) tool list \<Rightarrow> ('w, 'v) tool_router \<Rightarrow> ('w, 'v) tool_router" where
  "router_extend tools router = router\<lparr>tr_tools := tr_tools router @ tools\<rparr>"

definition set_hidden_tools :: "string list \<Rightarrow> ('w, 'v) tool_router \<Rightarrow> ('w, 'v) tool_router" where
  "set_hidden_tools names router = router\<lparr>tr_hidden := names\<rparr>"

definition find_tool :: "('w, 'v) tool_router \<Rightarrow> string \<Rightarrow> ('w, 'v) tool option" where
  "find_tool router name =
    find (\<lambda>t. ts_name (tl_spec t) = name \<and> \<not> is_hidden router (ts_name (tl_spec t))) (tr_tools router)"

definition execute_outcome ::
  "('w, 'v) tool_router \<Rightarrow> 'v tool_execution_request \<Rightarrow> 'w \<Rightarrow> tool_execution_outcome \<times> 'w" where
  "execute_outcome router request w =
    (case find_tool router (ter_name request) of
       None \<Rightarrow> (outcome_failed (''unknown tool: '' @ ter_name request), w)
     | Some t \<Rightarrow> tr_executor router t request w)"

definition recovery_replay_safety :: "('w, 'v) tool_router \<Rightarrow> 'v tool_execution_request \<Rightarrow> tool_replay_safety" where
  "recovery_replay_safety router request =
    (case find_tool router (ter_name request) of
       None \<Rightarrow> Replay_Never
     | Some t \<Rightarrow> tl_recovery_replay_safety t request)"

subsection \<open>The runtime state and its effects\<close>

datatype 'v effect =
    E_Observe "'v event"
  | E_Journal "'v execution_journal_entry"
  | E_Tool "'v tool_execution_request"
  | E_Model "'v model_request"

record ('w, 'v) runtime =
  rt_session :: "'v session_state"
  rt_pending :: "(string \<times> context_injection_record) list"
  rt_control :: run_control
  rt_world :: 'w
  rt_trace :: "'v effect list"

record ('w, 'v) host_env =
  he_json :: "'v serde"
  he_journal :: "('v execution_journal_entry \<Rightarrow> 'w \<Rightarrow> (string + nat) \<times> 'w) option"
  he_observe :: "'v event \<Rightarrow> 'w \<Rightarrow> 'w"
  he_clock :: "'w \<Rightarrow> nat"
  he_others :: "run_control \<Rightarrow> 'w \<Rightarrow> run_control \<times> 'w"

definition observe :: "('w, 'v) host_env \<Rightarrow> 'v event \<Rightarrow> (('w, 'v) runtime, 'err, unit) act" where
  "observe env ev = modA (\<lambda>s. s\<lparr>rt_world := he_observe env ev (rt_world s),
     rt_trace := rt_trace s @ [E_Observe ev]\<rparr>)"

definition append_if_present ::
  "('w, 'v) host_env \<Rightarrow> 'v execution_journal_entry \<Rightarrow> (('w, 'v) runtime, string, unit) act" where
  "append_if_present env entry =
    (case he_journal env of
       None \<Rightarrow> retA ()
     | Some write \<Rightarrow> (\<lambda>s. case write entry (rt_world s) of
           (Inl err, w) \<Rightarrow> (Raised err, s\<lparr>rt_world := w\<rparr>)
         | (Inr _, w) \<Rightarrow> (Done (), s\<lparr>rt_world := w, rt_trace := rt_trace s @ [E_Journal entry]\<rparr>)))"

definition mod_session :: "('v session_state \<Rightarrow> 'v session_state) \<Rightarrow> (('w, 'v) runtime, 'err, unit) act" where
  "mod_session f = modA (\<lambda>s. s\<lparr>rt_session := f (rt_session s)\<rparr>)"

definition step_session ::
  "('v session_state \<Rightarrow> 'a \<times> 'v session_state) \<Rightarrow> (('w, 'v) runtime, 'err, 'a) act" where
  "step_session f = stepA (\<lambda>s. case f (rt_session s) of (x, st) \<Rightarrow> (x, s\<lparr>rt_session := st\<rparr>))"

text \<open>
  One atomic access to the run control, after whatever the other threads did since the last
  one.
\<close>

definition on_control ::
  "('w, 'v) host_env \<Rightarrow> (run_control \<Rightarrow> 'a \<times> run_control) \<Rightarrow> (('w, 'v) runtime, 'err, 'a) act" where
  "on_control env f = stepA (\<lambda>s. case he_others env (rt_control s) (rt_world s) of
     (c, w) \<Rightarrow> (case f c of (x, c') \<Rightarrow> (x, s\<lparr>rt_control := c', rt_world := w\<rparr>)))"

definition load_cancel :: "('w, 'v) host_env \<Rightarrow> (('w, 'v) runtime, 'err, bool) act" where
  "load_cancel env = on_control env (\<lambda>c. (is_cancel_requested c, c))"

definition swap_cancel :: "('w, 'v) host_env \<Rightarrow> (('w, 'v) runtime, 'err, bool) act" where
  "swap_cancel env = on_control env take_cancel_requested"

definition load_steer :: "('w, 'v) host_env \<Rightarrow> (('w, 'v) runtime, 'err, bool) act" where
  "load_steer env = on_control env (\<lambda>c. (is_steer_requested c, c))"

text \<open>\<open>take_steer_input\<close>, its take, test and store as separate accesses.\<close>

definition take_steer_steps :: "('w, 'v) host_env \<Rightarrow> (('w, 'v) runtime, 'err, queued_input option) act" where
  "take_steer_steps env =
    bindA (on_control env (\<lambda>c. case take_steer (rc_pending_inputs c) of
        (x, pq) \<Rightarrow> (x, c\<lparr>rc_pending_inputs := pq\<rparr>)))
      (\<lambda>input. if input = None
         then seqA (on_control env (\<lambda>c. ((), clear_steer c))) (retA input)
         else bindA (on_control env (\<lambda>c. (has_steer (rc_pending_inputs c), c)))
           (\<lambda>more. if more then retA input
              else seqA (on_control env (\<lambda>c. ((), clear_steer c))) (retA input)))"

subsection \<open>Model requests (turn_engine.rs)\<close>

definition model_response_bytes :: "'v serde \<Rightarrow> 'v model_response \<Rightarrow> nat" where
  "model_response_bytes js r = length (mr_reasoning r) + length (mr_text r) + length (ser_calls js (mr_tool_calls r))"

record forwarder =
  fw_emitted_bytes :: nat
  fw_max_bytes :: nat
  fw_started_at :: nat
  fw_first_output_ms :: "nat option"

definition elapsed_ms :: "nat \<Rightarrow> nat \<Rightarrow> nat" where
  "elapsed_ms started now = min (now - started) u64_max"

definition forwarder_new :: "nat \<Rightarrow> nat \<Rightarrow> forwarder" where
  "forwarder_new max_bytes now = \<lparr>fw_emitted_bytes = 0, fw_max_bytes = max_bytes, fw_started_at = now,
     fw_first_output_ms = None\<rparr>"

definition timing :: "forwarder \<Rightarrow> nat \<Rightarrow> model_timing" where
  "timing fw now = \<lparr>mt_ttft_ms = fw_first_output_ms fw, mt_response_ms = elapsed_ms (fw_started_at fw) now\<rparr>"

definition record_first_output :: "string \<Rightarrow> nat \<Rightarrow> forwarder \<Rightarrow> forwarder" where
  "record_first_output delta now fw =
    (if delta \<noteq> [] \<and> fw_first_output_ms fw = None
     then fw\<lparr>fw_first_output_ms := Some (elapsed_ms (fw_started_at fw) now)\<rparr> else fw)"

definition model_event_delta :: "model_event \<Rightarrow> string" where
  "model_event_delta ev = (case ev of ReasoningDelta d \<Rightarrow> d | TextDelta d \<Rightarrow> d)"

definition model_event_event :: "model_event \<Rightarrow> 'v event" where
  "model_event_event ev = (case ev of
     ReasoningDelta d \<Rightarrow> AssistantReasoningDelta d | TextDelta d \<Rightarrow> AssistantTextDelta d)"

definition forward_event ::
  "('w, 'v) host_env \<Rightarrow> forwarder \<Rightarrow> model_event \<Rightarrow> (('w, 'v) runtime, 'err, forwarder) act" where
  "forward_event env fw ev =
    bindA (getA (\<lambda>s. he_clock env (rt_world s)))
      (\<lambda>now. let delta = model_event_delta ev;
                 fw1 = record_first_output delta now fw;
                 fw2 = fw1\<lparr>fw_emitted_bytes := sat_add (fw_emitted_bytes fw1) (length delta)\<rparr>
             in if fw_emitted_bytes fw2 \<le> fw_max_bytes fw2
                then seqA (observe env (model_event_event ev)) (retA fw2) else retA fw2)"

fun forward_events ::
  "('w, 'v) host_env \<Rightarrow> forwarder \<Rightarrow> model_event list \<Rightarrow> (('w, 'v) runtime, 'err, forwarder) act" where
  "forward_events env fw [] = retA fw"
| "forward_events env fw (ev # evs) = bindA (forward_event env fw ev) (\<lambda>fw'. forward_events env fw' evs)"

definition poll_model ::
  "('w, 'v, 'e) model \<Rightarrow> 'v model_request \<Rightarrow>
    (('w, 'v) runtime, 'err, model_event list \<times> ('e + 'v model_response) option) act" where
  "poll_model m request = stepA (\<lambda>s. case md_poll m request (rt_world s) of
     (r, w) \<Rightarrow> (r, s\<lparr>rt_world := w\<rparr>))"

text \<open>
  \<open>control.until_cancelled(model.respond(...))\<close>: poll by poll, the two loads of the flag and
  the store of the waker around each.  \<open>Inl ()\<close> is a cancelled request.
\<close>

fun respond_until_cancelled ::
  "nat \<Rightarrow> ('w, 'v) host_env \<Rightarrow> ('w, 'v, 'e) model \<Rightarrow> 'v model_request \<Rightarrow> forwarder
    \<Rightarrow> (('w, 'v) runtime, 'err, (unit + ('e + 'v model_response)) \<times> forwarder) act" where
  "respond_until_cancelled 0 env m request fw = starveA"
| "respond_until_cancelled (Suc n) env m request fw =
    bindA (load_cancel env) (\<lambda>c1. if c1 then retA (Inl (), fw) else
    seqA (on_control env (\<lambda>c. ((), c\<lparr>rc_cancel_waker := Some 0\<rparr>)))
    (bindA (load_cancel env) (\<lambda>c2. if c2 then retA (Inl (), fw) else
    bindA (poll_model m request) (\<lambda>(events, ready).
    bindA (forward_events env fw events) (\<lambda>fw'.
    case ready of Some r \<Rightarrow> retA (Inr r, fw') | None \<Rightarrow> respond_until_cancelled n env m request fw')))))"

text \<open>A request awaited without cancellation and with a silent sink.\<close>

fun respond_silently ::
  "nat \<Rightarrow> ('w, 'v, 'e) model \<Rightarrow> 'v model_request \<Rightarrow> (('w, 'v) runtime, 'err, 'e + 'v model_response) act" where
  "respond_silently 0 m request = starveA"
| "respond_silently (Suc n) m request =
    bindA (poll_model m request) (\<lambda>(events, ready).
      case ready of Some r \<Rightarrow> retA r | None \<Rightarrow> respond_silently n m request)"

definition send_request :: "'v model_request \<Rightarrow> (('w, 'v) runtime, 'err, unit) act" where
  "send_request request = modA (\<lambda>s. s\<lparr>rt_trace := rt_trace s @ [E_Model request]\<rparr>)"


subsection \<open>What the primitives do to the state\<close>

text \<open>Updates of different fields commute; these rules bring them into the order of the fields.\<close>

lemma runtime_updates [simp]:
  "s\<lparr>rt_trace := t, rt_world := w\<rparr> = s\<lparr>rt_world := w, rt_trace := t\<rparr>"
  "s\<lparr>rt_trace := t, rt_control := c\<rparr> = s\<lparr>rt_control := c, rt_trace := t\<rparr>"
  "s\<lparr>rt_trace := t, rt_pending := p\<rparr> = s\<lparr>rt_pending := p, rt_trace := t\<rparr>"
  "s\<lparr>rt_trace := t, rt_session := st\<rparr> = s\<lparr>rt_session := st, rt_trace := t\<rparr>"
  "s\<lparr>rt_world := w, rt_control := c\<rparr> = s\<lparr>rt_control := c, rt_world := w\<rparr>"
  "s\<lparr>rt_world := w, rt_pending := p\<rparr> = s\<lparr>rt_pending := p, rt_world := w\<rparr>"
  "s\<lparr>rt_world := w, rt_session := st\<rparr> = s\<lparr>rt_session := st, rt_world := w\<rparr>"
  "s\<lparr>rt_control := c, rt_pending := p\<rparr> = s\<lparr>rt_pending := p, rt_control := c\<rparr>"
  "s\<lparr>rt_control := c, rt_session := st\<rparr> = s\<lparr>rt_session := st, rt_control := c\<rparr>"
  "s\<lparr>rt_pending := p, rt_session := st\<rparr> = s\<lparr>rt_session := st, rt_pending := p\<rparr>"
  by (simp_all add: runtime.defs)

lemma wp_observe [wp_simps]:
  "wp (observe env ev) R s \<longleftrightarrow> R (Done ()) (s\<lparr>rt_world := he_observe env ev (rt_world s),
     rt_trace := rt_trace s @ [E_Observe ev]\<rparr>)"
  by (simp add: observe_def wp_simps)

lemma wp_mod_session [wp_simps]:
  "wp (mod_session f) R s \<longleftrightarrow> R (Done ()) (s\<lparr>rt_session := f (rt_session s)\<rparr>)"
  by (simp add: mod_session_def wp_simps)

lemma wp_step_session [wp_simps]:
  "wp (step_session f) R s \<longleftrightarrow>
    R (Done (fst (f (rt_session s)))) (s\<lparr>rt_session := snd (f (rt_session s))\<rparr>)"
  by (simp add: step_session_def wp_simps split: prod.split)

lemma wp_send_request [wp_simps]:
  "wp (send_request request) R s \<longleftrightarrow> R (Done ()) (s\<lparr>rt_trace := rt_trace s @ [E_Model request]\<rparr>)"
  by (simp add: send_request_def wp_simps)

lemma wp_on_control [wp_simps]:
  "wp (on_control env f) R s \<longleftrightarrow> (case he_others env (rt_control s) (rt_world s) of (c, w) \<Rightarrow>
     R (Done (fst (f c))) (s\<lparr>rt_control := snd (f c), rt_world := w\<rparr>))"
  by (simp add: on_control_def wp_simps split: prod.split)

lemma wp_poll_model [wp_simps]:
  "wp (poll_model m request) R s \<longleftrightarrow>
    R (Done (fst (md_poll m request (rt_world s)))) (s\<lparr>rt_world := snd (md_poll m request (rt_world s))\<rparr>)"
  by (simp add: poll_model_def wp_simps split: prod.split)

text \<open>The effects a journal write leaves in the trace: none without a journal.\<close>

definition journaled :: "('w, 'v) host_env \<Rightarrow> 'v execution_journal_entry \<Rightarrow> 'v effect list" where
  "journaled env entry = (case he_journal env of None \<Rightarrow> [] | Some _ \<Rightarrow> [E_Journal entry])"

definition journal_can_fail :: "('w, 'v) host_env \<Rightarrow> bool" where
  "journal_can_fail env \<longleftrightarrow> (\<exists>wr entry w err. he_journal env = Some wr \<and> fst (wr entry w) = Inl err)"

lemma wp_append_if_presentI:
  assumes "\<And>w. R (Done ()) (s\<lparr>rt_world := w, rt_trace := rt_trace s @ journaled env entry\<rparr>)"
    and "\<And>e w. journal_can_fail env \<Longrightarrow> R (Raised e) (s\<lparr>rt_world := w\<rparr>)"
  shows "wp (append_if_present env entry) R s"
proof (cases "he_journal env")
  case None
  have "s\<lparr>rt_world := rt_world s, rt_trace := rt_trace s @ []\<rparr> = s" by simp
  with assms(1) [of "rt_world s"] None show ?thesis
    by (simp add: append_if_present_def wp_simps journaled_def)
next
  case (Some wr)
  have "journal_can_fail env" if "wr entry (rt_world s) = (Inl e, w)" for e w
    unfolding journal_can_fail_def using Some that by (metis fst_conv)
  with Some assms show ?thesis
    by (auto simp: append_if_present_def wp_def journaled_def split: prod.split sum.split)
qed

text \<open>
  Everything but the control, the world and the trace stays; the trace grows.  Reading and
  writing the control, forwarding events and awaiting a response are of this kind.
\<close>

definition outside_only :: "('w, 'v) runtime \<Rightarrow> ('w, 'v) runtime \<Rightarrow> bool" where
  "outside_only s s' \<longleftrightarrow> rt_session s' = rt_session s \<and> rt_pending s' = rt_pending s
     \<and> (\<exists>ext. rt_trace s' = rt_trace s @ ext \<and> (\<forall>e \<in> set ext. \<exists>ev. e = E_Observe ev))"

lemma outside_only_refl [simp]: "outside_only s s"
  by (simp add: outside_only_def)

lemma outside_only_trans: "outside_only s t \<Longrightarrow> outside_only t u \<Longrightarrow> outside_only s u"
  unfolding outside_only_def by (metis UnE append.assoc set_append)

lemma outside_onlyI:
  "outside_only s (s\<lparr>rt_control := c, rt_world := w\<rparr>)" "outside_only s (s\<lparr>rt_world := w\<rparr>)"
  "outside_only s (s\<lparr>rt_world := w, rt_trace := rt_trace s @ [E_Observe ev]\<rparr>)"
  by (auto simp: outside_only_def)

lemma wp_forward_event: "wp (forward_event env fw ev) (\<lambda>r s'. (\<exists>fw'. r = Done fw') \<and> outside_only s s') s"
  by (simp add: forward_event_def wp_simps Let_def outside_onlyI)

lemma wp_forward_events: "wp (forward_events env fw evs) (\<lambda>r s'. (\<exists>fw'. r = Done fw') \<and> outside_only s s') s"
proof (induction evs arbitrary: fw s)
  case (Cons ev evs)
  show ?case
    unfolding forward_events.simps wp_bindA
    by (rule wp_conseq [OF wp_forward_event])
      (auto intro!: wp_conseq [OF Cons.IH] elim: outside_only_trans)
qed (simp add: wp_simps)

lemma wp_respond_until_cancelled:
  "wp (respond_until_cancelled n env m request fw) (\<lambda>r s'. outside_only s s' \<and> (\<forall>e. r \<noteq> Raised e)) s"
proof (induction n arbitrary: fw s)
  case (Suc n)
  have fwd: "outside_only s t \<Longrightarrow> wp (forward_events env fw evs)
      (\<lambda>r s'. (\<exists>fw'. r = Done fw') \<and> outside_only s s') t" for t evs
    by (rule wp_conseq [OF wp_forward_events]) (auto intro: outside_only_trans)
  show ?case
    unfolding respond_until_cancelled.simps load_cancel_def
    by (auto simp: wp_simps outside_onlyI
        intro!: wp_conseq [OF fwd] wp_conseq [OF Suc.IH] split: prod.split option.split
        elim: outside_only_trans)
qed (simp add: wp_simps)

lemma wp_respond_silently:
  "wp (respond_silently n m request) (\<lambda>r s'. (\<exists>w. s' = s\<lparr>rt_world := w\<rparr>) \<and> (\<forall>e. r \<noteq> Raised e)) s"
proof (induction n arbitrary: s)
  case (Suc n)
  show ?case
    unfolding respond_silently.simps
    by (auto simp: wp_simps intro!: wp_conseq [OF Suc.IH] split: prod.split option.split)
next
  case 0
  have "s = s\<lparr>rt_world := rt_world s\<rparr>" by simp
  then show ?case by (auto simp: wp_simps intro: exI [of _ "rt_world s"])
qed

end
