(* ===== verification/Tool_Batch.thy ===== *)
theory Tool_Batch
  imports Execution
begin

section \<open>Executing and recovering a tool batch (tool_batch_executor.rs)\<close>

text \<open>
  The calls of one model response run one after the other: journal the start, announce it,
  execute unless the turn is cancelled or the host just injected instructions, journal the
  outcome, announce it, append the bounded result.  Recovery replays a journaled batch from
  its durable outcomes.  The properties are over the trace of effects: a call's effects
  follow one life cycle, with the journal ahead of the side effect.
\<close>

record tool_batch_options =
  tbo_max_output_bytes :: nat
  tbo_context :: "tool_execution_context option"
  tbo_turn_id :: "turn_id option"
  tbo_step :: nat

datatype tool_batch_recovery_error = NeedsReconciliation_Batch string | Journal_Batch string

type_synonym 'v executed = "string \<times> 'v \<times> string"

definition journal_for ::
  "('w, 'v) host_env \<Rightarrow> tool_batch_options \<Rightarrow> (turn_id \<Rightarrow> 'v execution_journal_entry)
    \<Rightarrow> (('w, 'v) runtime, string, unit) act" where
  "journal_for env opts entry =
    (case tbo_turn_id opts of None \<Rightarrow> retA () | Some turn_id \<Rightarrow> append_if_present env (entry turn_id))"

definition tool_finished :: "'v tool_call \<Rightarrow> tool_execution_outcome \<Rightarrow> nat \<Rightarrow> 'v event" where
  "tool_finished call out max_output =
     ToolFinished (tc_id call) (tc_name call) (tc_arguments call) (truncate_utf8 (teo_content out) max_output)
       (is_error (teo_status out)) (teo_output_truncated out \<or> max_output < length (teo_content out))
       (Some (teo_status out))"

definition tool_message :: "'v tool_call \<Rightarrow> tool_execution_outcome \<Rightarrow> nat \<Rightarrow> 'v message" where
  "tool_message call out max_output =
     Tool (tc_id call) (tc_name call) (truncate_utf8 (teo_content out) max_output)
       (is_error (teo_status out)) (Some (teo_status out))"

definition executed_entry :: "'v tool_call \<Rightarrow> tool_execution_outcome \<Rightarrow> nat \<Rightarrow> 'v executed" where
  "executed_entry call out max_output =
     (tc_name call, tc_arguments call, truncate_utf8 (teo_content out) max_output)"

definition record_tool_result ::
  "('w, 'v) host_env \<Rightarrow> tool_batch_options \<Rightarrow> 'v tool_call \<Rightarrow> tool_execution_outcome
    \<Rightarrow> (('w, 'v) runtime, string, 'v executed) act" where
  "record_tool_result env opts call out =
    seqA (journal_for env opts (\<lambda>t. J_ToolCallFinished t (tbo_step opts) (tc_id call) out))
    (seqA (observe env (tool_finished call out (tbo_max_output_bytes opts)))
    (seqA (mod_session (push (tool_message call out (tbo_max_output_bytes opts))))
    (retA (executed_entry call out (tbo_max_output_bytes opts)))))"

definition cancelled_before_start :: string where
  "cancelled_before_start = ''Turn cancelled before this tool call started; the call was not executed.''"

definition cancelled_before_run :: string where
  "cancelled_before_run = ''Turn cancelled before this tool call executed; the call was not run.''"

definition replan_reason :: string where
  "replan_reason = ''Host added workspace instructions. Review them, then retry the remaining operation.''"

definition run_tool ::
  "('w, 'v) tool_router \<Rightarrow> 'v tool_execution_request \<Rightarrow> (('w, 'v) runtime, string, tool_execution_outcome) act" where
  "run_tool router request = stepA (\<lambda>s. case execute_outcome router request (rt_world s) of
     (out, w) \<Rightarrow> (out, s\<lparr>rt_world := w, rt_trace := rt_trace s @ [E_Tool request]\<rparr>))"

definition build_request ::
  "('w, 'v) host_env \<Rightarrow> tool_execution_context option \<Rightarrow> 'v tool_call \<Rightarrow> ('w, 'v) runtime \<Rightarrow> 'v tool_execution_request" where
  "build_request env context call s =
    with_cancellation (with_known_context_injections
      (context_injections_from_messages (he_json env) (st_messages (rt_session s)))
      (case context of None \<Rightarrow> request_from_call call | Some c \<Rightarrow> with_context c (request_from_call call)))"

text \<open>The outcome of a started call: cancelled, deferred, or what the tool returns.\<close>

definition decide_outcome ::
  "('w, 'v) host_env \<Rightarrow> ('w, 'v) tool_router \<Rightarrow> 'v tool_execution_request \<Rightarrow> bool
    \<Rightarrow> (('w, 'v) runtime, string, tool_execution_outcome) act" where
  "decide_outcome env router request replan =
    bindA (load_cancel env) (\<lambda>cancelled.
      if cancelled then retA (outcome_cancelled cancelled_before_run)
      else if replan then retA (outcome_deferred replan_reason)
      else run_tool router request)"

type_synonym 'v batch_vars = "bool \<times> string list \<times> context_injection_record list \<times> 'v executed list"

definition start_call ::
  "('w, 'v) host_env \<Rightarrow> ('w, 'v) tool_router \<Rightarrow> tool_batch_options \<Rightarrow> 'v tool_call \<Rightarrow> 'v batch_vars
    \<Rightarrow> (('w, 'v) runtime, string, 'v batch_vars) act" where
  "start_call env router opts call vars = (case vars of (replan, messages, injections, executed) \<Rightarrow>
    seqA (journal_for env opts (\<lambda>t. J_ToolCallStarted t (tbo_step opts) (tc_id call)))
    (seqA (observe env (ToolStarted call))
    (bindA (getA (build_request env (tbo_context opts) call)) (\<lambda>request.
    bindA (decide_outcome env router request replan) (\<lambda>out.
    bindA (record_tool_result env opts call out) (\<lambda>e.
    retA (replan \<or> teo_context_messages out \<noteq> [], messages @ teo_context_messages out,
      injections @ teo_context_injections out, executed @ [e])))))))"

definition execute_call ::
  "('w, 'v) host_env \<Rightarrow> ('w, 'v) tool_router \<Rightarrow> tool_batch_options \<Rightarrow> 'v tool_call \<Rightarrow> 'v batch_vars
    \<Rightarrow> (('w, 'v) runtime, string, 'v batch_vars) act" where
  "execute_call env router opts call vars =
    bindA (load_cancel env) (\<lambda>cancelled. if cancelled
      then bindA (record_tool_result env opts call (outcome_cancelled cancelled_before_start))
        (\<lambda>e. case vars of (replan, messages, injections, executed) \<Rightarrow>
          retA (replan, messages, injections, executed @ [e]))
      else start_call env router opts call vars)"

fun execute_calls ::
  "('w, 'v) host_env \<Rightarrow> ('w, 'v) tool_router \<Rightarrow> tool_batch_options \<Rightarrow> 'v tool_call list \<Rightarrow> 'v batch_vars
    \<Rightarrow> (('w, 'v) runtime, string, 'v batch_vars) act" where
  "execute_calls env router opts [] vars = retA vars"
| "execute_calls env router opts (call # calls) vars =
    bindA (execute_call env router opts call vars) (execute_calls env router opts calls)"

text \<open>
  The collected context messages, each with the record of the same index; the records that
  were really appended are announced.
\<close>

fun append_contexts ::
  "('w, 'v) host_env \<Rightarrow> string list \<Rightarrow> context_injection_record list \<Rightarrow> context_injection_record list
    \<Rightarrow> (('w, 'v) runtime, 'err, context_injection_record list) act" where
  "append_contexts env [] records appended = retA appended"
| "append_contexts env (t # ts) [] appended =
    seqA (mod_session (push (Context t))) (append_contexts env ts [] appended)"
| "append_contexts env (t # ts) (r # rs) appended =
    bindA (step_session (append_context_injection (he_json env) t r))
      (\<lambda>done. append_contexts env ts rs (appended @ (case done of None \<Rightarrow> [] | Some r' \<Rightarrow> [r'])))"

definition settle_contexts ::
  "('w, 'v) host_env \<Rightarrow> string list \<Rightarrow> context_injection_record list \<Rightarrow> (('w, 'v) runtime, 'err, unit) act" where
  "settle_contexts env messages injections =
    bindA (append_contexts env messages injections [])
      (\<lambda>appended. if appended = [] then retA () else observe env (ContextInjected appended))"

definition execute_tool_batch ::
  "('w, 'v) host_env \<Rightarrow> ('w, 'v) tool_router \<Rightarrow> 'v tool_call list \<Rightarrow> tool_batch_options
    \<Rightarrow> (('w, 'v) runtime, string, 'v executed list) act" where
  "execute_tool_batch env router calls opts =
    bindA (execute_calls env router opts calls (False, [], [], []))
      (\<lambda>(replan, messages, injections, executed).
        seqA (settle_contexts env messages injections) (retA executed))"

subsection \<open>Recovery\<close>

fun validate_calls :: "('w, 'v) tool_router \<Rightarrow> 'v execution_tool_call list \<Rightarrow> string + unit" where
  "validate_calls router [] = Inr ()"
| "validate_calls router (c # cs) =
    (if etc_started c \<and> etc_outcome c = None
        \<and> recovery_replay_safety router (request_from_call (etc_call c)) \<noteq> Replay_Safe
     then Inl (''tool call '' @ tc_id (etc_call c) @ '' ('' @ tc_name (etc_call c)
            @ '') started without a durable result'')
     else validate_calls router cs)"

definition validate_tool_batch_recovery ::
  "('w, 'v) tool_router \<Rightarrow> 'v execution_tool_batch \<Rightarrow> string + unit" where
  "validate_tool_batch_recovery router batch = validate_calls router (etb_calls batch)"

definition append_recovered_call ::
  "('w, 'v) host_env \<Rightarrow> 'v tool_batch_intent \<Rightarrow> nat \<Rightarrow> 'v tool_call \<Rightarrow> tool_execution_outcome \<Rightarrow> bool
    \<Rightarrow> (('w, 'v) runtime, tool_batch_recovery_error, 'v executed) act" where
  "append_recovered_call env intent max_output call out started =
    seqA (if started then observe env (ToolStarted call) else retA ())
    (seqA (map_errA Journal_Batch (append_if_present env
       (J_ToolCallFinished (tbi_turn_id intent) (tbi_step intent) (tc_id call) out)))
    (seqA (observe env (tool_finished call out max_output))
    (seqA (mod_session (push (tool_message call out max_output)))
    (retA (executed_entry call out max_output)))))"

definition recover_call ::
  "('w, 'v) host_env \<Rightarrow> ('w, 'v) tool_router \<Rightarrow> tool_batch_options \<Rightarrow> 'v tool_batch_intent
    \<Rightarrow> 'v execution_tool_call \<Rightarrow> string list \<times> context_injection_record list \<times> 'v executed list
    \<Rightarrow> (('w, 'v) runtime, tool_batch_recovery_error,
         string list \<times> context_injection_record list \<times> 'v executed list) act" where
  "recover_call env router opts intent c vars = (case vars of (messages, injections, executed) \<Rightarrow>
    bindA (case etc_outcome c of
        Some out \<Rightarrow> retA (out, etc_started c)
      | None \<Rightarrow>
          seqA (map_errA Journal_Batch (append_if_present env
            (J_ToolCallStarted (tbi_turn_id intent) (tbi_step intent) (tc_id (etc_call c)))))
          (bindA (getA (build_request env (tbo_context opts) (etc_call c))) (\<lambda>request.
           bindA (map_errA Journal_Batch (run_tool router request)) (\<lambda>out. retA (out, True)))))
    (\<lambda>(out, started).
      bindA (append_recovered_call env intent (tbo_max_output_bytes opts) (etc_call c) out started) (\<lambda>e.
      retA (messages @ teo_context_messages out, injections @ teo_context_injections out, executed @ [e]))))"

fun recover_calls ::
  "('w, 'v) host_env \<Rightarrow> ('w, 'v) tool_router \<Rightarrow> tool_batch_options \<Rightarrow> 'v tool_batch_intent
    \<Rightarrow> 'v execution_tool_call list \<Rightarrow> string list \<times> context_injection_record list \<times> 'v executed list
    \<Rightarrow> (('w, 'v) runtime, tool_batch_recovery_error,
         string list \<times> context_injection_record list \<times> 'v executed list) act" where
  "recover_calls env router opts intent [] vars = retA vars"
| "recover_calls env router opts intent (c # cs) vars =
    bindA (recover_call env router opts intent c vars) (recover_calls env router opts intent cs)"

definition recover_tool_batch ::
  "('w, 'v) host_env \<Rightarrow> ('w, 'v) tool_router \<Rightarrow> 'v execution_tool_batch \<Rightarrow> tool_batch_options
    \<Rightarrow> (('w, 'v) runtime, tool_batch_recovery_error, 'v executed list) act" where
  "recover_tool_batch env router batch opts =
    (case validate_tool_batch_recovery router batch of
       Inl reason \<Rightarrow> raiseA (NeedsReconciliation_Batch reason)
     | Inr _ \<Rightarrow>
         bindA (recover_calls env router opts (etb_intent batch) (etb_calls batch) ([], [], []))
           (\<lambda>(messages, injections, executed).
             seqA (settle_contexts env messages injections) (retA executed)))"

subsection \<open>The effects of one call\<close>

text \<open>
  What one call adds to the trace: \<open>request\<close> is the request the tool was run with, if it was
  run; \<open>started\<close> is false for a call that was cancelled before it began.
\<close>

definition journaled_for ::
  "('w, 'v) host_env \<Rightarrow> tool_batch_options \<Rightarrow> (turn_id \<Rightarrow> 'v execution_journal_entry) \<Rightarrow> 'v effect list" where
  "journaled_for env opts entry =
    (case tbo_turn_id opts of None \<Rightarrow> [] | Some t \<Rightarrow> journaled env (entry t))"

definition start_effects :: "('w, 'v) host_env \<Rightarrow> tool_batch_options \<Rightarrow> 'v tool_call \<Rightarrow> 'v effect list" where
  "start_effects env opts call =
    journaled_for env opts (\<lambda>t. J_ToolCallStarted t (tbo_step opts) (tc_id call)) @ [E_Observe (ToolStarted call)]"

definition finish_effects ::
  "('w, 'v) host_env \<Rightarrow> tool_batch_options \<Rightarrow> 'v tool_call \<Rightarrow> tool_execution_outcome \<Rightarrow> 'v effect list" where
  "finish_effects env opts call out =
    journaled_for env opts (\<lambda>t. J_ToolCallFinished t (tbo_step opts) (tc_id call) out)
    @ [E_Observe (tool_finished call out (tbo_max_output_bytes opts))]"

definition call_effects ::
  "('w, 'v) host_env \<Rightarrow> tool_batch_options \<Rightarrow> 'v tool_call \<Rightarrow> bool \<Rightarrow> 'v tool_execution_request option
    \<Rightarrow> tool_execution_outcome \<Rightarrow> 'v effect list" where
  "call_effects env opts call started request out =
    (if started then start_effects env opts call
       @ (case request of None \<Rightarrow> [] | Some r \<Rightarrow> [E_Tool r]) else [])
    @ finish_effects env opts call out"

text \<open>How a call may go, given whether instructions were injected before it.\<close>

definition call_ok ::
  "('w, 'v) runtime \<Rightarrow> ('w, 'v) host_env \<Rightarrow> tool_batch_options \<Rightarrow> 'v tool_call \<Rightarrow> bool \<Rightarrow> bool
    \<Rightarrow> 'v tool_execution_request option \<Rightarrow> tool_execution_outcome \<Rightarrow> bool" where
  "call_ok s env opts call replan started request out \<longleftrightarrow>
    (case request of
       Some r \<Rightarrow> started \<and> \<not> replan \<and> r = build_request env (tbo_context opts) call s
     | None \<Rightarrow> out = (if \<not> started then outcome_cancelled cancelled_before_start
         else if replan then out else outcome_cancelled cancelled_before_run)
         \<and> out \<in> {outcome_cancelled cancelled_before_start, outcome_cancelled cancelled_before_run,
                  outcome_deferred replan_reason})"

definition call_state ::
  "('w, 'v) runtime \<Rightarrow> run_control \<Rightarrow> 'w \<Rightarrow> 'v effect list \<Rightarrow> 'v message list \<Rightarrow> ('w, 'v) runtime" where
  "call_state s c w effects messages = s\<lparr>rt_control := c, rt_world := w,
     rt_trace := rt_trace s @ effects, rt_session := fold push messages (rt_session s)\<rparr>"

lemma wp_journal_forI:
  assumes "\<And>w. R (Done ()) (s\<lparr>rt_world := w, rt_trace := rt_trace s @ journaled_for env opts entry\<rparr>)"
    and "\<And>e w. journal_can_fail env \<Longrightarrow> R (Raised e) (s\<lparr>rt_world := w\<rparr>)"
  shows "wp (journal_for env opts entry) R s"
proof (cases "tbo_turn_id opts")
  case None
  have "s\<lparr>rt_world := rt_world s, rt_trace := rt_trace s @ []\<rparr> = s" by simp
  with assms(1) [of "rt_world s"] None show ?thesis
    by (simp add: journal_for_def journaled_for_def wp_simps)
next
  case (Some t)
  with assms show ?thesis
    by (auto simp: journal_for_def journaled_for_def intro!: wp_append_if_presentI)
qed

text \<open>The result of a call: its outcome is recorded, or the journal failed on the way.\<close>

definition call_result ::
  "('w, 'v) runtime \<Rightarrow> ('w, 'v) host_env \<Rightarrow> tool_batch_options \<Rightarrow> 'v tool_call \<Rightarrow> 'v batch_vars
    \<Rightarrow> (string, 'v batch_vars) outcome \<Rightarrow> ('w, 'v) runtime \<Rightarrow> bool" where
  "call_result s env opts call vars r s' = (case vars of (replan, messages, injections, executed) \<Rightarrow>
    (\<exists>started request out. call_ok s env opts call replan started request out \<and>
      ((\<exists>c w. r = Done (replan \<or> teo_context_messages out \<noteq> [], messages @ teo_context_messages out,
            injections @ teo_context_injections out,
            executed @ [executed_entry call out (tbo_max_output_bytes opts)])
          \<and> s' = call_state s c w (call_effects env opts call started request out)
              [tool_message call out (tbo_max_output_bytes opts)])
       \<or> (\<exists>e c w k. r = Raised e \<and> journal_can_fail env
          \<and> s' = call_state s c w (take k (call_effects env opts call started request out)) []))))"

lemma wp_record_tool_result:
  assumes "\<And>w. R (Done (executed_entry call out (tbo_max_output_bytes opts)))
      (s\<lparr>rt_world := w, rt_trace := rt_trace s @ finish_effects env opts call out,
        rt_session := push (tool_message call out (tbo_max_output_bytes opts)) (rt_session s)\<rparr>)"
    and "\<And>e w. journal_can_fail env \<Longrightarrow> R (Raised e) (s\<lparr>rt_world := w\<rparr>)"
  shows "wp (record_tool_result env opts call out) R s"
  unfolding record_tool_result_def wp_seqA
  by (rule wp_journal_forI) (use assms in \<open>simp_all add: wp_simps finish_effects_def\<close>)

lemma start_effects_nonempty: "start_effects env opts call \<noteq> []"
  by (simp add: start_effects_def)

lemma outcome_no_context [simp]:
  "teo_context_messages (outcome_cancelled t) = []" "teo_context_injections (outcome_cancelled t) = []"
  "teo_context_messages (outcome_deferred t) = []" "teo_context_injections (outcome_deferred t) = []"
  by (simp_all add: outcome_cancelled_def outcome_deferred_def plain_outcome_def)

lemma call_result_cancelled_early:
  "call_result s env opts call vars
    (Done (case vars of (replan, messages, injections, executed) \<Rightarrow> (replan, messages, injections,
      executed @ [executed_entry call (outcome_cancelled cancelled_before_start) (tbo_max_output_bytes opts)])))
    (s\<lparr>rt_control := c, rt_world := w,
      rt_trace := rt_trace s @ finish_effects env opts call (outcome_cancelled cancelled_before_start),
      rt_session := push (tool_message call (outcome_cancelled cancelled_before_start) (tbo_max_output_bytes opts)) (rt_session s)\<rparr>)"
  unfolding call_result_def
  by (cases vars, simp, intro exI [of _ False] exI [of _ None] exI [of _ "outcome_cancelled cancelled_before_start"])
    (auto simp: call_ok_def call_state_def call_effects_def)

lemma call_result_raised:
  assumes "call_ok s env opts call (fst vars) started request out"
    and "effects = take k (call_effects env opts call started request out)"
    and "journal_can_fail env"
  shows "call_result s env opts call vars (Raised e)
    (s\<lparr>rt_control := c, rt_world := w, rt_trace := rt_trace s @ effects\<rparr>)"
  unfolding call_result_def
  using assms by (cases vars) (force simp: call_state_def)

lemma call_result_done:
  assumes "call_ok s env opts call replan True request out"
    and "effects = start_effects env opts call @ (case request of None \<Rightarrow> [] | Some r \<Rightarrow> [E_Tool r])
      @ finish_effects env opts call out"
  shows "call_result s env opts call (replan, messages, injections, executed)
    (Done (replan \<or> teo_context_messages out \<noteq> [], messages @ teo_context_messages out,
       injections @ teo_context_injections out, executed @ [executed_entry call out (tbo_max_output_bytes opts)]))
    (s\<lparr>rt_control := c, rt_world := w, rt_trace := rt_trace s @ effects,
      rt_session := push (tool_message call out (tbo_max_output_bytes opts)) (rt_session s)\<rparr>)"
proof -
  have "call_state s c w (call_effects env opts call True request out)
        [tool_message call out (tbo_max_output_bytes opts)]
      = s\<lparr>rt_control := c, rt_world := w, rt_trace := rt_trace s @ effects,
        rt_session := push (tool_message call out (tbo_max_output_bytes opts)) (rt_session s)\<rparr>"
    by (simp add: call_state_def call_effects_def assms(2))
  with assms(1) show ?thesis
    unfolding call_result_def prod.case
    by (intro exI [of _ True] exI [of _ request] exI [of _ out] conjI disjI1 exI [of _ c] exI [of _ w])
      simp_all
qed

lemma wp_decide_outcome:
  assumes "\<And>c w out request'. call_ok s0 env opts call replan True request' out \<Longrightarrow>
      R (Done out) (s\<lparr>rt_control := c, rt_world := w, rt_trace := rt_trace s @
        (case request' of None \<Rightarrow> [] | Some r \<Rightarrow> [E_Tool r])\<rparr>)"
    and "request = build_request env (tbo_context opts) call s0"
  shows "wp (decide_outcome env router request replan) R s"
proof -
  have cancelled: "R (Done (outcome_cancelled cancelled_before_run)) (s\<lparr>rt_control := c, rt_world := w\<rparr>)"
    if "\<not> replan" for c w
    using assms(1) [where request' = None and out = "outcome_cancelled cancelled_before_run" and c = c and w = w] that by (simp add: call_ok_def)
  have cancelled': "R (Done (outcome_cancelled cancelled_before_run)) (s\<lparr>rt_control := c, rt_world := w\<rparr>)"
    if "replan" for c w
    using assms(1) [where request' = None and out = "outcome_cancelled cancelled_before_run" and c = c and w = w] that by (simp add: call_ok_def)
  have deferred: "R (Done (outcome_deferred replan_reason)) (s\<lparr>rt_control := c, rt_world := w\<rparr>)"
    if "replan" for c w
    using assms(1) [where request' = None and out = "outcome_deferred replan_reason" and c = c and w = w] that by (simp add: call_ok_def)
  have ran: "R (Done out) (s\<lparr>rt_control := c, rt_world := w, rt_trace := rt_trace s @ [E_Tool request]\<rparr>)"
    if "\<not> replan" for c w out
    using assms(1) [where request' = "Some request" and out = out and c = c and w = w] that assms(2) by (simp add: call_ok_def)
  show ?thesis
    unfolding decide_outcome_def load_cancel_def run_tool_def
    using cancelled cancelled' deferred ran by (cases replan) (auto simp: wp_simps split: prod.split)
qed

lemma take_call_effects:
  "[] = take 0 xs" "start_effects env opts call = take (length (start_effects env opts call))
      (call_effects env opts call True request out)"
  "journaled_for env opts (\<lambda>t. J_ToolCallStarted t (tbo_step opts) (tc_id call))
     @ [E_Observe (ToolStarted call)] @ (case request of None \<Rightarrow> [] | Some r \<Rightarrow> [E_Tool r])
   = take (length (start_effects env opts call) + length (case request of None \<Rightarrow> [] | Some r \<Rightarrow> [E_Tool r]))
      (call_effects env opts call True request out)"
  by (auto simp: call_effects_def start_effects_def split: option.split)

lemma build_request_session:
  "rt_session s = rt_session t \<Longrightarrow> build_request env context call s = build_request env context call t"
  by (simp add: build_request_def)

lemma wp_finish_call:
  assumes ok: "call_ok s env opts call replan True request out"
  shows "wp (bindA (record_tool_result env opts call out) (\<lambda>e.
      retA (replan \<or> teo_context_messages out \<noteq> [], messages @ teo_context_messages out,
        injections @ teo_context_injections out, executed @ [e])))
      (call_result s env opts call (replan, messages, injections, executed))
      (s\<lparr>rt_control := c', rt_world := w', rt_trace := rt_trace s @ start_effects env opts call
        @ (case request of None \<Rightarrow> [] | Some r \<Rightarrow> [E_Tool r])\<rparr>)"
  unfolding wp_bindA
proof (rule wp_record_tool_result, goal_cases)
  case (1 w2)
  show ?case
    using call_result_done [OF ok refl, where c = c' and w = w2] by (simp add: wp_simps)
next
  case (2 e w2)
  have "call_result s env opts call (replan, messages, injections, executed) (Raised e)
    (s\<lparr>rt_control := c', rt_world := w2, rt_trace := rt_trace s @ (start_effects env opts call
        @ (case request of None \<Rightarrow> [] | Some r \<Rightarrow> [E_Tool r]))\<rparr>)"
    by (rule call_result_raised [where started = True and request = request and out = out])
      (use ok 2 take_call_effects(3) [of env opts call request out] in \<open>simp_all add: start_effects_def\<close>)
  then show ?case by simp
qed

lemma wp_start_call:
  "wp (start_call env router opts call vars) (call_result s env opts call vars)
    (s\<lparr>rt_control := c, rt_world := w\<rparr>)"
proof -
  obtain replan messages injections executed where vars: "vars = (replan, messages, injections, executed)"
    by (cases vars) auto
  have ok0: "call_ok s env opts call b False None (outcome_cancelled cancelled_before_start)" for b
    by (simp add: call_ok_def)
  have raised0: "call_result s env opts call vars (Raised e) (s\<lparr>rt_control := c, rt_world := w\<rparr>)"
    if "journal_can_fail env" for e w
    using that call_result_raised [OF ok0 [of "fst vars"], where effects = "[]" and k = 0 and e = e and c = c and w = w]
    by simp
  show ?thesis
    unfolding start_call_def vars prod.case wp_seqA
  proof (rule wp_journal_forI, goal_cases)
    case (1 w2)
    let ?s = "s\<lparr>rt_control := c, rt_world := he_observe env (ToolStarted call) w2,
        rt_trace := rt_trace s @ start_effects env opts call\<rparr>"
    have "wp (decide_outcome env router (build_request env (tbo_context opts) call ?s) replan)
      (\<lambda>r s'. case r of Done out \<Rightarrow> wp (bindA (record_tool_result env opts call out) (\<lambda>e.
          retA (replan \<or> teo_context_messages out \<noteq> [], messages @ teo_context_messages out,
            injections @ teo_context_injections out, executed @ [e])))
          (call_result s env opts call (replan, messages, injections, executed)) s'
        | Raised e \<Rightarrow> call_result s env opts call (replan, messages, injections, executed) (Raised e) s'
        | Out_of_fuel \<Rightarrow> call_result s env opts call (replan, messages, injections, executed) Out_of_fuel s') ?s"
    proof (rule wp_decide_outcome [where ?s0.0 = s and call = call and opts = opts and env = env], goal_cases)
      case (1 c3 w3 out request)
      from wp_finish_call [OF 1] show ?case by simp
    next
      case 2
      show ?case by (rule build_request_session) simp
    qed
    then show ?case by (simp add: wp_simps start_effects_def)
  next
    case (2 e w2)
    show ?case using raised0 2 by (simp add: vars)
  qed
qed

lemma wp_execute_call:
  "wp (execute_call env router opts call vars) (call_result s env opts call vars) s"
proof -
  have early: "wp (bindA (record_tool_result env opts call (outcome_cancelled cancelled_before_start))
        (\<lambda>e. case vars of (replan, messages, injections, executed) \<Rightarrow>
          retA (replan, messages, injections, executed @ [e])))
      (call_result s env opts call vars) (s\<lparr>rt_control := c, rt_world := w\<rparr>)" for c w
    unfolding wp_bindA
  proof (rule wp_record_tool_result, goal_cases)
    case (1 w2)
    show ?case
      using call_result_cancelled_early [where s = s and vars = vars and c = c and w = w2]
      by (cases vars) (simp add: wp_simps)
  next
    case (2 e w2)
    have "call_ok s env opts call (fst vars) False None (outcome_cancelled cancelled_before_start)"
      by (simp add: call_ok_def)
    from call_result_raised [OF this, where effects = "[]" and k = 0 and e = e and c = c and w = w2] 2
    show ?case by simp
  qed
  show ?thesis
    unfolding execute_call_def load_cancel_def
    using early wp_start_call [of env router opts call vars s] by (auto simp: wp_simps split: prod.split)
qed

subsection \<open>The batch\<close>

lemma execute_calls_rule:
  assumes start: "I calls vars s"
    and step: "\<And>call rest vars s r s'. I (call # rest) vars s \<Longrightarrow> call_result s env opts call vars r s' \<Longrightarrow>
      (case r of Done vars' \<Rightarrow> I rest vars' s' | Raised e \<Rightarrow> E s' | Out_of_fuel \<Rightarrow> True)"
  shows "wp (execute_calls env router opts calls vars)
    (\<lambda>r s'. case r of Done vars' \<Rightarrow> I [] vars' s' | Raised e \<Rightarrow> E s' | Out_of_fuel \<Rightarrow> False) s"
  using start
proof (induction calls arbitrary: vars s)
  case (Cons call calls)
  have not_starved: "\<not> call_result s env opts call vars Out_of_fuel s'" for s'
    by (auto simp: call_result_def split: prod.split)
  show ?case
    unfolding execute_calls.simps wp_bindA
  proof (rule wp_conseq [OF wp_execute_call], goal_cases)
    case (1 r s')
    from step [OF Cons.prems 1] not_starved 1 show ?case
      by (cases r) (auto intro: Cons.IH)
  qed
qed (simp add: wp_simps)

lemma wp_append_contexts:
  "wp (append_contexts env ts rs acc) (\<lambda>r s'. (\<exists>x. r = Done x) \<and>
     (\<exists>st. s' = s\<lparr>rt_session := st\<rparr> \<and> (\<exists>cs. st_messages st = st_messages (rt_session s) @ map Context cs))) s"
proof (induction env ts rs acc arbitrary: s rule: append_contexts.induct)
  case (1 env rs acc)
  have "s\<lparr>rt_session := rt_session s\<rparr> = s" by simp
  then show ?case by (auto simp: wp_simps intro: exI [of _ "rt_session s"] exI [of _ "[]"])
next
  case (2 env t ts acc)
  have more: "\<exists>cs'. xs @ Context t # map Context cs = xs @ map Context cs'" for xs :: "'b message list" and cs
    by (rule exI [of _ "t # cs"]) simp
  show ?case
    unfolding append_contexts.simps wp_seqA wp_mod_session outcome.case
    by (rule wp_conseq [OF "2.IH"]) (use more in \<open>force simp: push_def bump_revision_def\<close>)
next
  case (3 env t ts r rs acc)
  have "\<exists>cs. st_messages (snd (append_context_injection (he_json env) t r st)) = st_messages st @ map Context cs" for st
    by (auto simp: append_context_injection_def Let_def bump_revision_def split: option.split
        intro: exI [of _ "[]"] exI [of _ "[x]" for x])
  then obtain cs where cs: "st_messages (snd (append_context_injection (he_json env) t r (rt_session s)))
      = st_messages (rt_session s) @ map Context cs" by blast
  show ?case
    unfolding append_contexts.simps wp_bindA wp_step_session outcome.case
    by (rule wp_conseq [OF "3.IH"]) (auto simp: cs simp flip: map_append)
qed

lemma wp_settle_contexts:
  assumes "\<And>st cs w effects. st_messages st = st_messages (rt_session s) @ map Context cs \<Longrightarrow>
      effects = [] \<or> (\<exists>rs. effects = [E_Observe (ContextInjected rs)]) \<Longrightarrow>
      R (Done ()) (s\<lparr>rt_session := st, rt_world := w, rt_trace := rt_trace s @ effects\<rparr>)"
  shows "wp (settle_contexts env ms is) R s"
proof -
  have quiet: "R (Done ()) (s\<lparr>rt_session := st\<rparr>)"
    if "st_messages st = st_messages (rt_session s) @ map Context cs" for st cs
  proof -
    have "s\<lparr>rt_session := st, rt_world := rt_world s, rt_trace := rt_trace s @ []\<rparr> = s\<lparr>rt_session := st\<rparr>"
      by simp
    with assms [OF that, of "[]" "rt_world s"] show ?thesis by simp
  qed
  show ?thesis
    unfolding settle_contexts_def wp_bindA
    by (rule wp_conseq [OF wp_append_contexts]) (use quiet assms in \<open>auto simp: wp_simps\<close>)
qed

subsection \<open>Every call is answered\<close>

definition answered ::
  "nat \<Rightarrow> 'v message list \<Rightarrow> 'v tool_call list \<Rightarrow> tool_execution_outcome list \<Rightarrow> 'v message list" where
  "answered max_output before calls outs = before @ map2 (\<lambda>c out. tool_message c out max_output) calls outs"

lemma owed_answers:
  "distinct (map tc_id calls) \<Longrightarrow> length outs = length calls \<Longrightarrow> owed ms = Some (set (map tc_id calls)) \<Longrightarrow>
    owed (answered n ms calls outs) = Some {}"
proof (induction calls arbitrary: outs ms)
  case (Cons c calls)
  then obtain out outs' where outs: "outs = out # outs'" by (cases outs) auto
  have "owed (ms @ [tool_message c out n]) = Some (set (map tc_id calls))"
    using Cons.prems by (auto simp: tool_message_def owed_step_simps)
  with Cons.IH [of outs' "ms @ [tool_message c out n]"] Cons.prems outs show ?case
    by (simp add: answered_def)
qed (simp add: answered_def)

lemma map2_snoc: "length xs = length ys \<Longrightarrow> map2 f (xs @ [x]) (ys @ [y]) = map2 f xs ys @ [f x y]"
  by simp

lemma execute_calls_answers:
  "wp (execute_calls env router opts calls (False, [], [], []))
    (\<lambda>r s'. \<exists>done rest outs. calls = done @ rest \<and> length outs = length done
       \<and> st_messages (rt_session s') = answered (tbo_max_output_bytes opts) (st_messages (rt_session s)) done outs
       \<and> (case r of Done (replan, messages, injections, executed) \<Rightarrow>
            rest = [] \<and> executed = map2 (\<lambda>c out. executed_entry c out (tbo_max_output_bytes opts)) calls outs
          | Raised e \<Rightarrow> rest \<noteq> [] \<and> journal_can_fail env | Out_of_fuel \<Rightarrow> False)) s"
proof (rule wp_conseq)
  let ?n = "tbo_max_output_bytes opts"
  let ?I = "\<lambda>rest vars s'. \<exists>done outs. calls = done @ rest \<and> length outs = length done
       \<and> st_messages (rt_session s') = answered ?n (st_messages (rt_session s)) done outs
       \<and> snd (snd (snd vars)) = map2 (\<lambda>c out. executed_entry c out ?n) done outs"
  let ?E = "\<lambda>s'. \<exists>done rest outs. calls = done @ rest \<and> length outs = length done \<and> rest \<noteq> [] \<and> journal_can_fail env
       \<and> st_messages (rt_session s') = answered ?n (st_messages (rt_session s)) done outs"
  show "wp (execute_calls env router opts calls (False, [], [], []))
     (\<lambda>r s'. case r of Done vars' \<Rightarrow> ?I [] vars' s' | Raised e \<Rightarrow> ?E s' | Out_of_fuel \<Rightarrow> False) s"
  proof (rule execute_calls_rule [where I = ?I and E = ?E])
    show "?I calls (False, [], [], []) s" by (auto simp: answered_def intro!: exI [of _ "[]"])
    fix call rest vars t r t'
    assume inv: "?I (call # rest) vars t" and step: "call_result t env opts call vars r t'"
    from inv obtain "done" outs where i: "calls = done @ call # rest" "length outs = length done"
      "st_messages (rt_session t) = answered ?n (st_messages (rt_session s)) done outs"
      "snd (snd (snd vars)) = map2 (\<lambda>c out. executed_entry c out ?n) done outs" by blast
    show "case r of Done vars' \<Rightarrow> ?I rest vars' t' | Raised e \<Rightarrow> ?E t' | Out_of_fuel \<Rightarrow> True"
    proof (cases r)
      case (Done vars')
      with step obtain out where "st_messages (rt_session t') = st_messages (rt_session t) @ [tool_message call out ?n]"
          "snd (snd (snd vars')) = snd (snd (snd vars)) @ [executed_entry call out ?n]"
        by (auto simp: call_result_def call_state_def push_def bump_revision_def split: prod.splits)
      with i have "?I rest vars' t'"
        by (intro exI [of _ "done @ [call]"] exI [of _ "outs @ [out]"]) (simp add: answered_def)
      with Done show ?thesis by simp
    next
      case (Raised e)
      with step have "rt_session t' = rt_session t" "journal_can_fail env"
        by (auto simp: call_result_def call_state_def split: prod.splits)
      with i have "?E t'" by (intro exI [of _ "done"] exI [of _ "call # rest"] exI [of _ outs]) simp
      with Raised show ?thesis by simp
    qed simp
  qed
  fix r s'
  assume "case r of Done vars' \<Rightarrow> ?I [] vars' s' | Raised e \<Rightarrow> ?E s' | Out_of_fuel \<Rightarrow> False"
  then show "\<exists>done rest outs. calls = done @ rest \<and> length outs = length done
       \<and> st_messages (rt_session s') = answered ?n (st_messages (rt_session s)) done outs
       \<and> (case r of Done (replan, messages, injections, executed) \<Rightarrow>
            rest = [] \<and> executed = map2 (\<lambda>c out. executed_entry c out ?n) calls outs
          | Raised e \<Rightarrow> rest \<noteq> [] \<and> journal_can_fail env | Out_of_fuel \<Rightarrow> False)"
  proof (cases r)
    case (Done vars)
    obtain replan messages injections executed where "vars = (replan, messages, injections, executed)"
      by (cases vars) auto
    with Done \<open>case r of Done vars' \<Rightarrow> ?I [] vars' s' | Raised e \<Rightarrow> ?E s' | Out_of_fuel \<Rightarrow> False\<close>
    obtain outs where "length outs = length calls"
        "st_messages (rt_session s') = answered ?n (st_messages (rt_session s)) calls outs"
        "executed = map2 (\<lambda>c out. executed_entry c out ?n) calls outs" by auto
    with Done \<open>vars = _\<close> show ?thesis
      by (intro exI [of _ calls] exI [of _ "[]"] exI [of _ outs]) simp
  qed auto
qed

lemma complete_groups_contexts: "complete_groups ms \<Longrightarrow> complete_groups (ms @ map Context cs)"
  by (rule complete_groups_append) (auto intro!: complete_groups_plain simp: list_all_iff plain_message_def)

lemma executed_entries:
  assumes "length outs = length calls" and "executed = map2 (\<lambda>c out. executed_entry c out n) calls outs"
  shows "map fst executed = map tc_name calls"
    and "list_all (\<lambda>x. length (snd (snd x)) \<le> n) executed"
proof -
  have "map fst executed = map (tc_name \<circ> fst) (zip calls outs)"
    by (simp add: assms(2) executed_entry_def case_prod_unfold comp_def)
  also have "\<dots> = map tc_name calls" using assms(1) by (metis map_fst_zip map_map)
  finally show "map fst executed = map tc_name calls" .
  show "list_all (\<lambda>x. length (snd (snd x)) \<le> n) executed"
    by (auto simp: assms(2) list_all_iff executed_entry_def length_truncate_utf8)
qed

text \<open>
  What the model is to see of a call: one tool message with the call's own identifier and name,
  at most \<open>n\<close> bytes long, whose error flag is that of the recorded status.
\<close>

definition answers_call :: "nat \<Rightarrow> 'v tool_call \<Rightarrow> 'v message \<Rightarrow> bool" where
  "answers_call n call m = (case m of
     Tool i name content failed (Some status) \<Rightarrow>
       i = tc_id call \<and> name = tc_name call \<and> length content \<le> n \<and> failed = is_error status
   | _ \<Rightarrow> False)"

lemma answers_call_tool_message: "answers_call n call (tool_message call out n)"
  by (simp add: answers_call_def tool_message_def length_truncate_utf8)

lemma answered_shape:
  "length outs = length calls \<Longrightarrow> list_all2 (answers_call n) calls (map2 (\<lambda>c out. tool_message c out n) calls outs)"
  by (simp add: list_all2_conv_all_nth answers_call_tool_message)

definition batch_answered ::
  "nat \<Rightarrow> 'v tool_call list \<Rightarrow> 'v message list \<Rightarrow> 'v executed list \<Rightarrow> 'v message list \<Rightarrow> bool" where
  "batch_answered n calls before executed after \<longleftrightarrow>
     (\<exists>answers contexts. after = before @ answers @ map Context contexts
        \<and> list_all2 (answers_call n) calls answers
        \<and> executed = map2 (\<lambda>c m. (tc_name c, tc_arguments c, m_content m)) calls answers)"

lemma batch_answered_intro:
  assumes "length outs = length calls" and "executed = map2 (\<lambda>c out. executed_entry c out n) calls outs"
    and "after = answered n before calls outs @ map Context contexts"
  shows "batch_answered n calls before executed after"
  unfolding batch_answered_def
proof (intro exI conjI)
  show "after = before @ map2 (\<lambda>c out. tool_message c out n) calls outs @ map Context contexts"
    using assms(3) by (simp add: answered_def)
  show "list_all2 (answers_call n) calls (map2 (\<lambda>c out. tool_message c out n) calls outs)"
    using assms(1) by (rule answered_shape)
  show "executed = map2 (\<lambda>c m. (tc_name c, tc_arguments c, m_content m)) calls
      (map2 (\<lambda>c out. tool_message c out n) calls outs)"
    using assms(1,2) by (auto simp: list_eq_iff_nth_eq executed_entry_def tool_message_def)
qed

lemma wp_execute_tool_batch:
  assumes "distinct (map tc_id calls)" and "owed (st_messages (rt_session s)) = Some (set (map tc_id calls))"
  shows "wp (execute_tool_batch env router calls opts)
    (\<lambda>r s'. case r of
       Done executed \<Rightarrow> complete_groups (st_messages (rt_session s')) \<and> map fst executed = map tc_name calls
         \<and> list_all (\<lambda>x. length (snd (snd x)) \<le> tbo_max_output_bytes opts) executed
         \<and> batch_answered (tbo_max_output_bytes opts) calls (st_messages (rt_session s)) executed
             (st_messages (rt_session s'))
     | Raised e \<Rightarrow> journal_can_fail env
     | Out_of_fuel \<Rightarrow> False) s"
  unfolding execute_tool_batch_def wp_bindA
proof (rule wp_conseq [OF execute_calls_answers], goal_cases)
  case (1 r s')
  note post = 1
  let ?n = "tbo_max_output_bytes opts"
  show ?case
  proof (cases r)
    case (Done vars)
    obtain replan messages injections executed where vars: "vars = (replan, messages, injections, executed)"
      by (cases vars) auto
    with post Done obtain outs where outs: "length outs = length calls"
        "st_messages (rt_session s') = answered ?n (st_messages (rt_session s)) calls outs"
        "executed = map2 (\<lambda>c out. executed_entry c out ?n) calls outs" by auto
    have "complete_groups (st_messages (rt_session s'))"
      using owed_answers [OF assms(1) outs(1) assms(2)] outs(2) by (simp add: complete_groups_def)
    then show ?thesis
      using executed_entries [OF outs(1,3)] complete_groups_contexts
        batch_answered_intro [OF outs(1,3), of _ "st_messages (rt_session s)"] outs(2)
      by (auto simp: Done vars wp_seqA wp_retA intro!: wp_settle_contexts)
  qed (use post in auto)
qed

subsection \<open>The life cycle of a call\<close>

text \<open>
  The order of a batch's effects as an automaton.  A call is journaled as started, announced,
  possibly run, journaled as finished and announced as finished; a call that is not run ends
  as cancelled or deferred.  Once an outcome brought context messages (\<open>True\<close> in the second
  component) no tool runs any more.
\<close>

datatype life = L_Idle | L_Started string | L_Announced string | L_Ran string | L_Recorded string

definition life_finish :: "life \<Rightarrow> bool \<Rightarrow> string \<Rightarrow> tool_execution_outcome \<Rightarrow> (life \<times> bool) option" where
  "life_finish ph replan i out = (case ph of
     L_Idle \<Rightarrow> if teo_status out = Tool_Cancelled \<and> teo_context_messages out = []
       then Some (L_Recorded i, replan) else None
   | L_Announced j \<Rightarrow> if i = j \<and> teo_status out \<in> {Tool_Cancelled, Tool_Deferred} \<and> teo_context_messages out = []
       then Some (L_Recorded i, replan) else None
   | L_Ran j \<Rightarrow> if i = j then Some (L_Recorded i, replan \<or> teo_context_messages out \<noteq> []) else None
   | _ \<Rightarrow> None)"

definition life_step :: "(life \<times> bool) option \<Rightarrow> 'v effect \<Rightarrow> (life \<times> bool) option" where
  "life_step acc e = (case acc of None \<Rightarrow> None | Some (ph, replan) \<Rightarrow>
    (case e of
       E_Journal (J_ToolCallStarted t n i) \<Rightarrow> if ph = L_Idle then Some (L_Started i, replan) else None
     | E_Journal (J_ToolCallFinished t n i out) \<Rightarrow> life_finish ph replan i out
     | E_Observe (ToolStarted call) \<Rightarrow>
         if ph = L_Started (tc_id call) then Some (L_Announced (tc_id call), replan) else None
     | E_Observe (ToolFinished i name args content err tr out) \<Rightarrow>
         if ph = L_Recorded i then Some (L_Idle, replan) else None
     | E_Observe (ContextInjected rs) \<Rightarrow> if ph = L_Idle then acc else None
     | E_Tool r \<Rightarrow> if ph = L_Announced (ter_call_id r) \<and> \<not> replan then Some (L_Ran (ter_call_id r), replan) else None
     | _ \<Rightarrow> None))"

definition life_cycle :: "(life \<times> bool) option \<Rightarrow> 'v effect list \<Rightarrow> (life \<times> bool) option" where
  "life_cycle acc effects = foldl life_step acc effects"

lemma life_cycle_append: "life_cycle acc (xs @ ys) = life_cycle (life_cycle acc xs) ys"
  by (simp add: life_cycle_def)

lemma life_cycle_None [simp]: "life_cycle None xs = None"
  by (induction xs) (auto simp: life_cycle_def life_step_def)

lemma life_cycle_take: "life_cycle acc xs \<noteq> None \<Longrightarrow> life_cycle acc (take k xs) \<noteq> None"
  by (metis append_take_drop_id life_cycle_None life_cycle_append)

lemma life_step_simps:
  "life_step (Some (L_Idle, b)) (E_Journal (J_ToolCallStarted t n i)) = Some (L_Started i, b)"
  "life_step (Some (ph, b)) (E_Journal (J_ToolCallFinished t n i out)) = life_finish ph b i out"
  "life_step (Some (L_Started (tc_id call), b)) (E_Observe (ToolStarted call)) = Some (L_Announced (tc_id call), b)"
  "life_step (Some (L_Recorded (tc_id call), b)) (E_Observe (tool_finished call out m)) = Some (L_Idle, b)"
  "life_step (Some (L_Idle, b)) (E_Observe (ContextInjected rs)) = Some (L_Idle, b)"
  "life_step (Some (L_Announced (ter_call_id r), False)) (E_Tool r) = Some (L_Ran (ter_call_id r), False)"
  by (simp_all add: life_step_def tool_finished_def)

lemma build_request_id: "ter_call_id (build_request env context call s) = tc_id call"
  by (simp add: build_request_def with_cancellation_def with_known_context_injections_def with_context_def
      request_from_call_def request_new_def split: option.split)

lemma call_life_cycle:
  assumes "he_journal env \<noteq> None" and "tbo_turn_id opts \<noteq> None"
    and "call_ok s env opts call replan started request out"
  shows "life_cycle (Some (L_Idle, replan)) (call_effects env opts call started request out)
    = Some (L_Idle, replan \<or> teo_context_messages out \<noteq> [])"
proof -
  have j: "journaled_for env opts entry = [E_Journal (entry (the (tbo_turn_id opts)))]" for entry
    using assms(1,2) by (auto simp: journaled_for_def journaled_def)
  show ?thesis
  proof (cases request)
    case None
    with assms(3) show ?thesis
      by (cases started) (auto simp: call_ok_def call_effects_def start_effects_def finish_effects_def j life_cycle_def
          life_step_simps life_finish_def outcome_cancelled_def outcome_deferred_def plain_outcome_def split: if_splits)
  next
    case (Some r)
    with assms(3) have "started" "\<not> replan" "ter_call_id r = tc_id call"
      by (auto simp: call_ok_def build_request_id)
    with Some life_step_simps(6) [of r] show ?thesis
      by (simp add: call_effects_def start_effects_def finish_effects_def j life_cycle_def life_step_simps life_finish_def)
  qed
qed

definition life_after :: "'v effect list \<Rightarrow> ('w, 'v) runtime \<Rightarrow> (life \<times> bool) option \<Rightarrow> bool" where
  "life_after before s st \<longleftrightarrow> (\<exists>effects. rt_trace s = before @ effects \<and> life_cycle (Some (L_Idle, False)) effects = st)"

lemma execute_calls_life:
  assumes "he_journal env \<noteq> None" and "tbo_turn_id opts \<noteq> None"
  shows "wp (execute_calls env router opts calls (False, [], [], []))
    (\<lambda>r s'. case r of Done vars \<Rightarrow> life_after (rt_trace s) s' (Some (L_Idle, fst vars))
      | Raised e \<Rightarrow> \<exists>st. life_after (rt_trace s) s' (Some st) | Out_of_fuel \<Rightarrow> False) s"
proof -
  have step: "case r of Done vars' \<Rightarrow> life_after b s' (Some (L_Idle, fst vars'))
      | Raised e \<Rightarrow> \<exists>st. life_after b s' (Some st) | Out_of_fuel \<Rightarrow> True"
    if inv: "life_after b t (Some (L_Idle, fst vars))" and res: "call_result t env opts call vars r s'"
    for b t vars call r s'
  proof -
    obtain replan ms "is" ex where vars: "vars = (replan, ms, is, ex)" by (cases vars) auto
    obtain effects where tr: "rt_trace t = b @ effects" "life_cycle (Some (L_Idle, False)) effects = Some (L_Idle, replan)"
      using inv by (auto simp: life_after_def vars)
    obtain started request out where ok: "call_ok t env opts call replan started request out"
      and cases: "(\<exists>c w. r = Done (replan \<or> teo_context_messages out \<noteq> [], ms @ teo_context_messages out,
            is @ teo_context_injections out, ex @ [executed_entry call out (tbo_max_output_bytes opts)])
          \<and> s' = call_state t c w (call_effects env opts call started request out)
              [tool_message call out (tbo_max_output_bytes opts)])
       \<or> (\<exists>e c w k. r = Raised e \<and> journal_can_fail env
          \<and> s' = call_state t c w (take k (call_effects env opts call started request out)) [])"
      using res unfolding call_result_def vars prod.case by blast
    note life = call_life_cycle [OF assms ok]
    from cases show ?thesis
    proof (elim disjE exE conjE)
      fix c w
      assume "r = Done (replan \<or> teo_context_messages out \<noteq> [], ms @ teo_context_messages out,
            is @ teo_context_injections out, ex @ [executed_entry call out (tbo_max_output_bytes opts)])"
        and "s' = call_state t c w (call_effects env opts call started request out)
              [tool_message call out (tbo_max_output_bytes opts)]"
      with tr life show ?thesis by (auto simp: life_after_def call_state_def life_cycle_append)
    next
      fix e c w k
      assume r: "r = Raised e" and s': "s' = call_state t c w (take k (call_effects env opts call started request out)) []"
      have "life_cycle (Some (L_Idle, replan)) (take k (call_effects env opts call started request out)) \<noteq> None"
        by (rule life_cycle_take) (simp add: life)
      with r s' tr show ?thesis by (auto simp: life_after_def call_state_def life_cycle_append)
    qed
  qed
  show ?thesis
    by (rule wp_conseq [OF execute_calls_rule [where I = "\<lambda>_ vars s'. life_after (rt_trace s) s' (Some (L_Idle, fst vars))"
            and E = "\<lambda>s'. \<exists>st. life_after (rt_trace s) s' (Some st)"]])
      (use step in \<open>auto simp: life_after_def life_cycle_def\<close>)
qed

lemma life_after_settle:
  "life_after b s (Some (L_Idle, x)) \<Longrightarrow> effects = [] \<or> (\<exists>rs. effects = [E_Observe (ContextInjected rs)])
    \<Longrightarrow> rt_trace s' = rt_trace s @ effects \<Longrightarrow> life_after b s' (Some (L_Idle, x))"
  by (auto simp: life_after_def life_cycle_append) (auto simp: life_cycle_def life_step_simps)

text \<open>
  C7.  With a journal, the effects of a batch follow the life cycle of its calls, on every ending:
  a tool runs only after its start is in the journal and announced, its outcome is announced
  only after it is in the journal, calls do not overlap, no tool runs after an outcome that
  brought host instructions, and when the journal fails nothing follows.
\<close>

theorem batch_effects_follow_life_cycle:
  assumes "he_journal env \<noteq> None" and "tbo_turn_id opts \<noteq> None"
    and "execute_tool_batch env router calls opts s = (r, s')"
  shows "\<exists>effects st. rt_trace s' = rt_trace s @ effects
    \<and> life_cycle (Some (L_Idle, False)) effects = Some st
    \<and> r \<noteq> Out_of_fuel \<and> (\<forall>executed. r = Done executed \<longrightarrow> fst st = L_Idle)"
proof -
  have "wp (execute_tool_batch env router calls opts)
    (\<lambda>r s'. case r of Done x \<Rightarrow> \<exists>b. life_after (rt_trace s) s' (Some (L_Idle, b))
      | Raised e \<Rightarrow> \<exists>st. life_after (rt_trace s) s' (Some st) | Out_of_fuel \<Rightarrow> False) s"
    unfolding execute_tool_batch_def wp_bindA
  proof (rule wp_conseq [OF execute_calls_life [OF assms(1,2)]], goal_cases)
    case (1 r t)
    show ?case
    proof (cases r)
      case (Done vars)
      obtain replan ms "is" ex where vars: "vars = (replan, ms, is, ex)" by (cases vars) auto
      from 1 Done vars have t: "life_after (rt_trace s) t (Some (L_Idle, replan))" by simp
      show ?thesis
        unfolding Done vars outcome.case prod.case wp_seqA
      proof (rule wp_settle_contexts, goal_cases)
        case (1 st cs w effects)
        have "life_after (rt_trace s) (t\<lparr>rt_session := st, rt_world := w, rt_trace := rt_trace t @ effects\<rparr>)
            (Some (L_Idle, replan))"
          by (rule life_after_settle [OF t 1(2)]) simp
        then show ?case by (auto simp: wp_retA)
      qed
    qed (use 1 in auto)
  qed
  from wpD [OF this assms(3)] show ?thesis
    by (cases r) (auto simp: life_after_def)
qed

subsection \<open>Recovery runs only what is unsettled\<close>

definition tool_runs :: "'v effect list \<Rightarrow> string list" where
  "tool_runs effects = List.map_filter (\<lambda>e. case e of E_Tool r \<Rightarrow> Some (ter_call_id r) | _ \<Rightarrow> None) effects"

lemma tool_runs_simps [simp]:
  "tool_runs [] = []" "tool_runs (xs @ ys) = tool_runs xs @ tool_runs ys"
  "tool_runs (E_Observe ev # xs) = tool_runs xs" "tool_runs (E_Journal j # xs) = tool_runs xs"
  "tool_runs (E_Model m # xs) = tool_runs xs"
  "tool_runs (E_Tool r # xs) = ter_call_id r # tool_runs xs"
  by (simp_all add: tool_runs_def map_filter_simps map_filter_def)

lemma tool_runs_journaled [simp]: "tool_runs (journaled env j) = []"
  by (simp add: journaled_def split: option.split)

definition unsettled :: "'v execution_tool_call \<Rightarrow> bool" where
  "unsettled c \<longleftrightarrow> etc_outcome c = None"

definition recovered_by ::
  "('w, 'v) runtime \<Rightarrow> tool_batch_options \<Rightarrow> 'v execution_tool_call \<Rightarrow> 'v executed list
    \<Rightarrow> (tool_batch_recovery_error, string list \<times> context_injection_record list \<times> 'v executed list) outcome
    \<Rightarrow> ('w, 'v) runtime \<Rightarrow> bool" where
  "recovered_by s opts c executed r s' \<longleftrightarrow>
    (\<exists>effects out. rt_trace s' = rt_trace s @ effects \<and> (\<forall>o'. etc_outcome c = Some o' \<longrightarrow> out = o') \<and>
      (case r of
         Done vars \<Rightarrow> tool_runs effects = (if unsettled c then [tc_id (etc_call c)] else [])
           \<and> snd (snd vars) = executed @ [executed_entry (etc_call c) out (tbo_max_output_bytes opts)]
           \<and> st_messages (rt_session s') = st_messages (rt_session s)
               @ [tool_message (etc_call c) out (tbo_max_output_bytes opts)]
       | Raised e \<Rightarrow> (\<exists>t. e = Journal_Batch t)
           \<and> (tool_runs effects = [] \<or> tool_runs effects = [tc_id (etc_call c)] \<and> unsettled c)
           \<and> rt_session s' = rt_session s
       | Out_of_fuel \<Rightarrow> False))"

lemma wp_append_recovered_call:
  assumes "\<And>w effects. tool_runs effects = [] \<Longrightarrow>
      R (Done (executed_entry call out n)) (s\<lparr>rt_session := push (tool_message call out n) (rt_session s),
        rt_world := w, rt_trace := rt_trace s @ effects\<rparr>)"
    and "\<And>t w effects. tool_runs effects = [] \<Longrightarrow>
      R (Raised (Journal_Batch t)) (s\<lparr>rt_world := w, rt_trace := rt_trace s @ effects\<rparr>)"
  shows "wp (append_recovered_call env intent n call out started) R s"
proof -
  have finish: "wp (seqA (map_errA Journal_Batch (append_if_present env
       (J_ToolCallFinished (tbi_turn_id intent) (tbi_step intent) (tc_id call) out)))
    (seqA (observe env (tool_finished call out n))
    (seqA (mod_session (push (tool_message call out n))) (retA (executed_entry call out n)))))
    R (s\<lparr>rt_world := w0, rt_trace := rt_trace s @ before\<rparr>)" if "tool_runs before = []" for w0 before
    unfolding wp_seqA wp_map_errA
  proof (rule wp_append_if_presentI, goal_cases)
    case (1 w)
    show ?case
      using assms(1) [of "before @ journaled env (J_ToolCallFinished (tbi_turn_id intent) (tbi_step intent) (tc_id call) out)
          @ [E_Observe (tool_finished call out n)]"] that by (simp add: wp_simps)
  next
    case (2 e w)
    show ?case using assms(2) [of before e w] that by simp
  qed
  have "s\<lparr>rt_world := rt_world s, rt_trace := rt_trace s @ []\<rparr> = s" by simp
  with finish [of "[]" "rt_world s"] have same: "wp (seqA (map_errA Journal_Batch (append_if_present env
       (J_ToolCallFinished (tbi_turn_id intent) (tbi_step intent) (tc_id call) out)))
    (seqA (observe env (tool_finished call out n))
    (seqA (mod_session (push (tool_message call out n))) (retA (executed_entry call out n))))) R s" by simp
  show ?thesis
    unfolding append_recovered_call_def
    using finish [of "[E_Observe (ToolStarted call)]"] same
    by (cases started) (simp_all add: wp_seqA [of "observe env e" for e] wp_seqA [of "retA u" for u]
        wp_observe wp_retA)
qed

lemma wp_recover_call:
  "wp (recover_call env router opts intent c (ms, is, ex)) (recovered_by s opts c ex) s"
proof -
  let ?n = "tbo_max_output_bytes opts"
  have finish: "wp (bindA (append_recovered_call env intent ?n (etc_call c) out started)
      (\<lambda>e. retA (ms @ teo_context_messages out, is @ teo_context_injections out, ex @ [e])))
      (recovered_by s opts c ex) (s\<lparr>rt_world := w, rt_trace := rt_trace s @ effects\<rparr>)"
    if "\<forall>o'. etc_outcome c = Some o' \<longrightarrow> out = o'"
      and "tool_runs effects = (if unsettled c then [tc_id (etc_call c)] else [])" for out started w effects
    unfolding wp_bindA
    by (rule wp_append_recovered_call)
      (use that in \<open>auto simp: wp_simps recovered_by_def push_def bump_revision_def\<close>)
  show ?thesis
  proof (cases "etc_outcome c")
    case (Some out)
    have "s\<lparr>rt_world := rt_world s, rt_trace := rt_trace s @ []\<rparr> = s" by simp
    with finish [of out "[]" "etc_started c" "rt_world s"] Some show ?thesis
      by (simp add: recover_call_def unsettled_def wp_bindA [of "retA x" for x] wp_retA)
  next
    case None
    have run: "wp (bindA (getA (build_request env (tbo_context opts) (etc_call c))) (\<lambda>request.
           bindA (map_errA Journal_Batch (run_tool router request)) (\<lambda>out. retA (out, True))))
        (\<lambda>r s'. \<exists>out w effects. r = Done (out, True) \<and> s' = s\<lparr>rt_world := w, rt_trace := rt_trace s @ effects\<rparr>
          \<and> tool_runs effects = [tc_id (etc_call c)])
        (s\<lparr>rt_world := w0, rt_trace := rt_trace s @ journaled env j\<rparr>)" for w0 j
      by (auto simp: wp_simps run_tool_def build_request_id split: prod.split
          intro!: exI [of _ "journaled env j @ [E_Tool r]" for r])
    show ?thesis
      unfolding recover_call_def prod.case None option.case wp_bindA [of "seqA m n" for m n] wp_seqA wp_map_errA
    proof (rule wp_append_if_presentI, goal_cases)
      case (1 w)
      show ?case
        unfolding outcome.case
        by (rule wp_conseq [OF run]) (use finish None in \<open>auto simp: unsettled_def\<close>)
    next
      case (2 e w)
      show ?case using None by (auto simp: recovered_by_def intro!: exI [of _ "[]"])
    qed
  qed
qed

definition recovery_result ::
  "('w, 'v) runtime \<Rightarrow> nat \<Rightarrow> 'v execution_tool_call list \<Rightarrow> ('w, 'v) runtime \<Rightarrow> bool \<Rightarrow> bool" where
  "recovery_result s n calls s' settled \<longleftrightarrow>
    (\<exists>effects outs k. rt_trace s' = rt_trace s @ effects
      \<and> tool_runs effects = take k (map (tc_id \<circ> etc_call) (filter unsettled calls))
      \<and> (settled \<longrightarrow> length outs = length calls \<and> tool_runs effects = map (tc_id \<circ> etc_call) (filter unsettled calls)
          \<and> (\<exists>cs. st_messages (rt_session s')
              = answered n (st_messages (rt_session s)) (map etc_call calls) outs @ map Context cs)
          \<and> (\<forall>i < length calls. \<forall>out. etc_outcome (calls ! i) = Some out \<longrightarrow> outs ! i = out)))"

lemma recovery_result_contexts:
  assumes "recovery_result s n calls t b" and "rt_trace u = rt_trace t @ effects" and "tool_runs effects = []"
    and "st_messages (rt_session u) = st_messages (rt_session t) @ map Context cs"
  shows "recovery_result s n calls u b"
proof -
  from assms(1) obtain effects' outs k where t: "rt_trace t = rt_trace s @ effects'"
    "tool_runs effects' = take k (map (tc_id \<circ> etc_call) (filter unsettled calls))"
    "b \<longrightarrow> length outs = length calls \<and> tool_runs effects' = map (tc_id \<circ> etc_call) (filter unsettled calls)
      \<and> (\<exists>cs. st_messages (rt_session t)
        = answered n (st_messages (rt_session s)) (map etc_call calls) outs @ map Context cs)
      \<and> (\<forall>i < length calls. \<forall>out. etc_outcome (calls ! i) = Some out \<longrightarrow> outs ! i = out)"
    unfolding recovery_result_def by blast
  have "\<exists>cs'. st_messages (rt_session u)
        = answered n (st_messages (rt_session s)) (map etc_call calls) outs @ map Context cs'" if b
  proof -
    from t(3) that obtain cs' where "st_messages (rt_session t)
        = answered n (st_messages (rt_session s)) (map etc_call calls) outs @ map Context cs'" by blast
    with assms(4) show ?thesis by (intro exI [of _ "cs' @ cs"]) simp
  qed
  with t assms(2,3) show ?thesis
    unfolding recovery_result_def
    by (intro exI [of _ "effects' @ effects"] exI [of _ outs] exI [of _ k]) simp
qed

lemma recover_calls_result:
  "wp (recover_calls env router opts intent calls vars)
    (\<lambda>r s'. case r of Done _ \<Rightarrow> recovery_result s (tbo_max_output_bytes opts) calls s' True
       | Raised e \<Rightarrow> (\<exists>t. e = Journal_Batch t) \<and> recovery_result s (tbo_max_output_bytes opts) calls s' False
       | Out_of_fuel \<Rightarrow> False) s"
proof (induction calls arbitrary: vars s)
  case Nil
  show ?case
    by (simp add: wp_simps recovery_result_def answered_def)
next
  case (Cons c calls)
  let ?n = "tbo_max_output_bytes opts"
  obtain ms "is" ex where vars: "vars = (ms, is, ex)" by (cases vars) auto
  show ?case
    unfolding recover_calls.simps wp_bindA vars
  proof (rule wp_conseq [OF wp_recover_call], goal_cases)
    case (1 r t)
    then obtain effects out where e: "rt_trace t = rt_trace s @ effects"
      "\<forall>o'. etc_outcome c = Some o' \<longrightarrow> out = o'"
      and r: "case r of
         Done vars \<Rightarrow> tool_runs effects = (if unsettled c then [tc_id (etc_call c)] else [])
           \<and> snd (snd vars) = ex @ [executed_entry (etc_call c) out ?n]
           \<and> st_messages (rt_session t) = st_messages (rt_session s) @ [tool_message (etc_call c) out ?n]
       | Raised e \<Rightarrow> (\<exists>t. e = Journal_Batch t)
           \<and> (tool_runs effects = [] \<or> tool_runs effects = [tc_id (etc_call c)] \<and> unsettled c)
           \<and> rt_session t = rt_session s
       | Out_of_fuel \<Rightarrow> False" by (auto simp: recovered_by_def)
    show ?case
    proof (cases r)
      case (Done vars')
      have lift: "recovery_result t ?n calls u b \<Longrightarrow> recovery_result s ?n (c # calls) u b" for u b
      proof -
        assume "recovery_result t ?n calls u b"
        then obtain effects' outs k where u: "rt_trace u = rt_trace t @ effects'"
          "tool_runs effects' = take k (map (tc_id \<circ> etc_call) (filter unsettled calls))"
          "b \<longrightarrow> length outs = length calls \<and> tool_runs effects' = map (tc_id \<circ> etc_call) (filter unsettled calls)
          \<and> (\<exists>cs. st_messages (rt_session u)
              = answered ?n (st_messages (rt_session t)) (map etc_call calls) outs @ map Context cs)
          \<and> (\<forall>i < length calls. \<forall>out. etc_outcome (calls ! i) = Some out \<longrightarrow> outs ! i = out)"
          unfolding recovery_result_def by blast
        have runs: "tool_runs (effects @ effects')
            = take (if unsettled c then Suc k else k) (map (tc_id \<circ> etc_call) (filter unsettled (c # calls)))"
          using r Done u(2) by simp
        have first: "\<forall>i < length (c # calls). \<forall>o'. etc_outcome ((c # calls) ! i) = Some o' \<longrightarrow> (out # outs) ! i = o'"
          if b using u(3) e(2) that by (auto simp: nth_Cons split: nat.split)
        show ?thesis
          unfolding recovery_result_def
          by (rule exI [of _ "effects @ effects'"], rule exI [of _ "out # outs"],
              rule exI [of _ "if unsettled c then Suc k else k"])
            (use u e r Done runs first in \<open>auto simp: answered_def\<close>)
      qed
      show ?thesis
        unfolding Done outcome.case
        by (rule wp_conseq [OF Cons.IH]) (use lift in \<open>auto split: outcome.splits\<close>)
    next
      case (Raised err)
      have "recovery_result s ?n (c # calls) t False"
        unfolding recovery_result_def
        by (rule exI [of _ effects], rule exI [of _ "[]"],
            rule exI [of _ "if tool_runs effects = [] then 0 else 1"]) (use r Raised e in auto)
      with Raised r show ?thesis by simp
    qed (use r in simp)
  qed
qed

lemma validate_calls_ok:
  "validate_calls router calls = Inr () \<longleftrightarrow>
    (\<forall>c \<in> set calls. etc_started c \<and> unsettled c \<longrightarrow>
      recovery_replay_safety router (request_from_call (etc_call c)) = Replay_Safe)"
  by (induction calls) (auto simp: unsettled_def)

lemma wp_recover_tool_batch:
  assumes safe: "validate_calls router (etb_calls batch) = Inr ()"
  shows "wp (recover_tool_batch env router batch opts)
    (\<lambda>r s'. case r of Done _ \<Rightarrow> recovery_result s (tbo_max_output_bytes opts) (etb_calls batch) s' True
       | Raised e \<Rightarrow> (\<exists>t. e = Journal_Batch t)
           \<and> recovery_result s (tbo_max_output_bytes opts) (etb_calls batch) s' False
       | Out_of_fuel \<Rightarrow> False) s"
  unfolding recover_tool_batch_def validate_tool_batch_recovery_def safe sum.case wp_bindA
proof (rule wp_conseq [OF recover_calls_result], goal_cases)
  case (1 r t)
  let ?n = "tbo_max_output_bytes opts" and ?calls = "etb_calls batch"
  show ?case
  proof (cases r)
    case (Done vars)
    obtain ms "is" ex where vars: "vars = (ms, is, ex)" by (cases vars) auto
    from 1 Done have t: "recovery_result s ?n ?calls t True" by simp
    show ?thesis
      unfolding Done vars outcome.case prod.case wp_seqA
    proof (rule wp_settle_contexts, goal_cases)
      case (1 st cs w effects)
      have "recovery_result s ?n ?calls (t\<lparr>rt_session := st, rt_world := w, rt_trace := rt_trace t @ effects\<rparr>) True"
        by (rule recovery_result_contexts [OF t, where effects = effects and cs = cs]) (use 1 in auto)
      then show ?case by (simp add: wp_retA)
    qed
  qed (use 1 in auto)
qed

text \<open>
  C8.  Recovery of an interrupted batch either refuses before any effect, when some call had
  started without a durable result and is not declared safe to repeat, or it runs exactly the
  calls without a durable result, in order, each once, and never a settled one; the results of
  all calls are appended in order, the durable ones unchanged.  A failing journal stops it.
\<close>

theorem recovery_runs_only_unsettled_calls:
  assumes "recover_tool_batch env router batch opts s = (r, s')"
  defines "n \<equiv> tbo_max_output_bytes opts" and "calls \<equiv> etb_calls batch"
  shows "(\<exists>reason. r = Raised (NeedsReconciliation_Batch reason) \<and> s' = s
      \<and> (\<exists>c \<in> set calls. etc_started c \<and> unsettled c
          \<and> recovery_replay_safety router (request_from_call (etc_call c)) \<noteq> Replay_Safe))
    \<or> (\<forall>c \<in> set calls. etc_started c \<and> unsettled c \<longrightarrow>
          recovery_replay_safety router (request_from_call (etc_call c)) = Replay_Safe)
      \<and> ((\<exists>executed. r = Done executed) \<and> recovery_result s n calls s' True
         \<or> (\<exists>t. r = Raised (Journal_Batch t)) \<and> recovery_result s n calls s' False)"
proof (cases "validate_calls router calls")
  case (Inl reason)
  have "\<not> validate_calls router calls = Inr ()" using Inl by simp
  then have "\<exists>c \<in> set calls. etc_started c \<and> unsettled c
      \<and> recovery_replay_safety router (request_from_call (etc_call c)) \<noteq> Replay_Safe"
    unfolding validate_calls_ok by blast
  moreover have "r = Raised (NeedsReconciliation_Batch reason)" "s' = s"
    using assms(1) Inl by (simp_all add: recover_tool_batch_def validate_tool_batch_recovery_def calls_def act_simps)
  ultimately show ?thesis by blast
next
  case (Inr u)
  then have safe: "validate_calls router calls = Inr ()" by simp
  from wp_recover_tool_batch [OF this [unfolded calls_def]]
  have "wp (recover_tool_batch env router batch opts)
    (\<lambda>r s'. case r of Done _ \<Rightarrow> recovery_result s n calls s' True
       | Raised e \<Rightarrow> (\<exists>t. e = Journal_Batch t) \<and> recovery_result s n calls s' False
       | Out_of_fuel \<Rightarrow> False) s"
    unfolding n_def calls_def .
  from wpD [OF this assms(1)] show ?thesis
    using safe by (cases r) (auto simp: validate_calls_ok)
qed

subsection \<open>Answers and cancellation\<close>

text \<open>
  C10.  A batch of calls with different ids, run right after the assistant message that made
  them, ends with every call answered: the conversation has grown by one tool message per call,
  in the order of the calls, each with the identifier and the name of its call and at most the
  configured number of bytes, followed only by context messages, so that its tool groups are
  complete.  The outputs the batch reports are those answers.  The only error is that of a
  failing journal.
\<close>

theorem batch_answers_every_call:
  assumes "distinct (map tc_id calls)"
    and "owed (st_messages (rt_session s)) = Some (set (map tc_id calls))"
    and "execute_tool_batch env router calls opts s = (r, s')"
  shows "(\<exists>executed answers contexts. r = Done executed
        \<and> st_messages (rt_session s') = st_messages (rt_session s) @ answers @ map Context contexts
        \<and> list_all2 (answers_call (tbo_max_output_bytes opts)) calls answers
        \<and> executed = map2 (\<lambda>c m. (tc_name c, tc_arguments c, m_content m)) calls answers
        \<and> complete_groups (st_messages (rt_session s'))
        \<and> map fst executed = map tc_name calls
        \<and> list_all (\<lambda>x. length (snd (snd x)) \<le> tbo_max_output_bytes opts) executed)
    \<or> (\<exists>e. r = Raised e) \<and> journal_can_fail env"
  using wpD [OF wp_execute_tool_batch [OF assms(1,2)] assms(3)] by (cases r) (auto simp: batch_answered_def)

definition cancelled_quietly :: "('w, 'v) runtime \<Rightarrow> ('w, 'v) runtime \<Rightarrow> bool" where
  "cancelled_quietly s s' \<longleftrightarrow> rc_cancel_requested (rt_control s')
     \<and> (\<exists>effects. rt_trace s' = rt_trace s @ effects \<and> tool_runs effects = [])"

lemma cancelled_quietly_trans: "cancelled_quietly s t \<Longrightarrow> cancelled_quietly t u \<Longrightarrow> cancelled_quietly s u"
  by (auto simp: cancelled_quietly_def)

lemma tool_runs_finish [simp]: "tool_runs (finish_effects env opts call out) = []"
  by (simp add: finish_effects_def journaled_for_def split: option.split)

lemma execute_call_cancelled:
  assumes others: "\<And>c w. rc_cancel_requested c \<Longrightarrow> rc_cancel_requested (fst (he_others env c w))"
    and flag: "rc_cancel_requested (rt_control s)"
  shows "wp (execute_call env router opts call vars) (\<lambda>r s'. cancelled_quietly s s') s"
proof -
  obtain c w where cw: "he_others env (rt_control s) (rt_world s) = (c, w)"
    by (cases "he_others env (rt_control s) (rt_world s)") auto
  with others [OF flag] have c: "rc_cancel_requested c" by (metis fst_conv)
  have "wp (bindA (record_tool_result env opts call (outcome_cancelled cancelled_before_start))
        (\<lambda>e. case vars of (replan, messages, injections, executed) \<Rightarrow>
          retA (replan, messages, injections, executed @ [e])))
      (\<lambda>r s'. cancelled_quietly s s') (s\<lparr>rt_control := c, rt_world := w\<rparr>)"
    unfolding wp_bindA
    by (rule wp_record_tool_result) (use c in \<open>auto simp: wp_simps cancelled_quietly_def split: prod.split\<close>)
  then show ?thesis
    using c by (simp add: execute_call_def load_cancel_def wp_simps cw is_cancel_requested_def)
qed

text \<open>
  Once a turn is cancelled, and as long as nobody withdraws the request, a batch runs no tool
  at all: every call is recorded as cancelled.
\<close>

theorem cancelled_batch_runs_nothing:
  assumes "\<And>c w. rc_cancel_requested c \<Longrightarrow> rc_cancel_requested (fst (he_others env c w))"
    and "rc_cancel_requested (rt_control s)"
    and "execute_tool_batch env router calls opts s = (r, s')"
  shows "\<exists>effects. rt_trace s' = rt_trace s @ effects \<and> tool_runs effects = []"
proof -
  have calls: "rc_cancel_requested (rt_control s) \<Longrightarrow>
    wp (execute_calls env router opts calls vars) (\<lambda>r s'. cancelled_quietly s s') s" for vars s
  proof (induction calls arbitrary: vars s)
    case Nil
    then show ?case by (simp add: wp_simps cancelled_quietly_def)
  next
    case (Cons call calls)
    show ?case
      unfolding execute_calls.simps wp_bindA
    proof (rule wp_conseq [OF execute_call_cancelled [OF assms(1) Cons.prems]], goal_cases)
      case (2 r t)
      then have t: "rc_cancel_requested (rt_control t)" by (simp add: cancelled_quietly_def)
      have "wp (execute_calls env router opts calls v) (\<lambda>r s'. cancelled_quietly s s') t" for v
        by (rule wp_conseq [OF Cons.IH [OF t]]) (rule cancelled_quietly_trans [OF 2])
      with 2 show ?case by (cases r) simp_all
    qed
  qed
  have "wp (execute_tool_batch env router calls opts) (\<lambda>r s'. cancelled_quietly s s') s"
    unfolding execute_tool_batch_def wp_bindA
  proof (rule wp_conseq [OF calls [OF assms(2)]], goal_cases)
    case (1 r t)
    show ?case
    proof (cases r)
      case (Done vars)
      obtain replan ms "is" ex where vars: "vars = (replan, ms, is, ex)" by (cases vars) auto
      show ?thesis
        unfolding Done vars outcome.case prod.case wp_seqA
        by (rule wp_settle_contexts) (use 1 in \<open>auto simp: wp_retA cancelled_quietly_def\<close>)
    qed (use 1 in auto)
  qed
  from wpD [OF this assms(3)] show ?thesis by (simp add: cancelled_quietly_def)
qed

subsection \<open>Witnesses\<close>

text \<open>A host with a journal that always succeeds and one tool that reports success.\<close>

definition sample_env :: "(nat, nat) host_env" where
  "sample_env = \<lparr>he_json = sample_serde, he_journal = Some (\<lambda>e w. (Inr w, w + 1)), he_observe = (\<lambda>ev w. w),
     he_clock = (\<lambda>w. w), he_others = (\<lambda>c w. (c, w))\<rparr>"

definition sample_tool :: "(nat, nat) tool" where
  "sample_tool = legacy_tool \<lparr>ts_name = ''f'', ts_description = [], ts_parameters = 0\<rparr> (\<lambda>v w. (Inr ''ok'', w))"

definition sample_router :: "(nat, nat) tool_router" where
  "sample_router = router_new [sample_tool]"

definition sample_call :: "string \<Rightarrow> nat tool_call" where
  "sample_call i = \<lparr>tc_id = i, tc_name = ''f'', tc_arguments = 0\<rparr>"

definition sample_opts :: tool_batch_options where
  "sample_opts = \<lparr>tbo_max_output_bytes = 64, tbo_context = None, tbo_turn_id = Some (TurnId ''t''), tbo_step = 1\<rparr>"

definition sample_state :: "nat message list \<Rightarrow> bool \<Rightarrow> (nat, nat) runtime" where
  "sample_state ms cancelled = \<lparr>rt_session = from_messages ms, rt_pending = [],
     rt_control = run_control_new\<lparr>rc_cancel_requested := cancelled\<rparr>, rt_world = 0, rt_trace = []\<rparr>"

lemma sample_env_sel [simp]:
  "he_journal sample_env = Some (\<lambda>e w. (Inr w, w + 1))" "he_others sample_env = (\<lambda>c w. (c, w))"
  "he_observe sample_env = (\<lambda>ev w. w)" "he_json sample_env = sample_serde"
  by (simp_all add: sample_env_def)

lemma sample_journal_succeeds [simp]: "\<not> journal_can_fail sample_env"
  by (simp add: journal_can_fail_def)

theorem batch_effects_follow_life_cycle_witness:
  "\<exists>effects st. rt_trace (snd (execute_tool_batch sample_env sample_router [sample_call ''a'']
        sample_opts (sample_state [] False))) = [] @ effects
    \<and> life_cycle (Some (L_Idle, False)) effects = Some st"
proof -
  obtain r s' where run: "execute_tool_batch sample_env sample_router [sample_call ''a'']
      sample_opts (sample_state [] False) = (r, s')" by (meson surj_pair)
  have "he_journal sample_env \<noteq> None" "tbo_turn_id sample_opts \<noteq> None"
    by (simp_all add: sample_opts_def)
  from batch_effects_follow_life_cycle [OF this run] run show ?thesis
    by (auto simp: sample_state_def)
qed

theorem batch_answers_every_call_witness:
  "\<exists>executed answers. fst (execute_tool_batch sample_env sample_router [sample_call ''a'', sample_call ''b''] sample_opts
      (sample_state [Assistant [] [] [sample_call ''a'', sample_call ''b'']] False)) = Done executed
    \<and> map fst executed = [''f'', ''f'']
    \<and> list_all2 (answers_call 64) [sample_call ''a'', sample_call ''b''] answers"
proof -
  let ?calls = "[sample_call ''a'', sample_call ''b'']"
  let ?s = "sample_state [Assistant [] [] ?calls] False"
  obtain r s' where run: "execute_tool_batch sample_env sample_router ?calls sample_opts ?s = (r, s')"
    by (meson surj_pair)
  have "distinct (map tc_id ?calls)" by (simp add: sample_call_def)
  moreover have "owed (st_messages (rt_session ?s)) = Some (set (map tc_id ?calls))"
    by (simp add: sample_state_def from_messages_def owed_def owed_step_simps)
  ultimately show ?thesis
    using batch_answers_every_call [OF _ _ run] run
    by (auto simp: sample_opts_def) (auto simp: sample_call_def)
qed

theorem cancelled_batch_runs_nothing_witness:
  "\<exists>effects. rt_trace (snd (execute_tool_batch sample_env sample_router [sample_call ''a''] sample_opts
      (sample_state [] True))) = [] @ effects \<and> tool_runs effects = []"
proof -
  obtain r s' where run: "execute_tool_batch sample_env sample_router [sample_call ''a'']
      sample_opts (sample_state [] True) = (r, s')" by (meson surj_pair)
  have "rc_cancel_requested c \<Longrightarrow> rc_cancel_requested (fst (he_others sample_env c w))" for c w by simp
  moreover have "rc_cancel_requested (rt_control (sample_state [] True))" by (simp add: sample_state_def)
  ultimately show ?thesis
    using cancelled_batch_runs_nothing [OF _ _ run] run by (auto simp: sample_state_def)
qed

definition sample_batch :: "tool_execution_outcome option \<Rightarrow> bool \<Rightarrow> nat execution_tool_batch" where
  "sample_batch settled started = \<lparr>etb_intent = \<lparr>tbi_turn_id = TurnId ''t'', tbi_step = 1, tbi_reasoning = [],
       tbi_text = [], tbi_calls = [sample_call ''a'', sample_call ''b'']\<rparr>,
     etb_calls = [\<lparr>etc_call = sample_call ''a'', etc_started = True, etc_outcome = settled\<rparr>,
       \<lparr>etc_call = sample_call ''b'', etc_started = started, etc_outcome = None\<rparr>]\<rparr>"

theorem recovery_runs_only_unsettled_calls_witness:
  "let batch = sample_batch (Some (outcome_completed ''ok'')) False;
       run = recover_tool_batch sample_env sample_router batch sample_opts (sample_state [] False)
   in (\<exists>executed. fst run = Done executed) \<and> recovery_result (sample_state [] False) 64 (etb_calls batch) (snd run) True
     \<or> (\<exists>t. fst run = Raised (Journal_Batch t)) \<and> recovery_result (sample_state [] False) 64 (etb_calls batch) (snd run) False"
proof -
  let ?batch = "sample_batch (Some (outcome_completed ''ok'')) False"
  obtain r s' where run: "recover_tool_batch sample_env sample_router ?batch sample_opts (sample_state [] False)
      = (r, s')" by (meson surj_pair)
  have "\<not> (\<exists>c \<in> set (etb_calls ?batch). etc_started c \<and> unsettled c)"
    by (simp add: sample_batch_def unsettled_def)
  with recovery_runs_only_unsettled_calls [OF run] show ?thesis
    unfolding Let_def run by (auto simp: sample_opts_def)
qed

text \<open>
  Recovery has no counterpart of the deferral in a live batch: the durable outcome of the
  first call brought host instructions, and the turn is being cancelled, yet the second call
  runs; the live batch never runs a tool in either case.
\<close>

theorem recovery_ignores_instructions_and_cancellation:
  "tool_runs (rt_trace (snd (recover_tool_batch sample_env sample_router
      (sample_batch (Some ((outcome_completed ''ok'')\<lparr>teo_context_messages := [''<agents>'']\<rparr>)) False)
      sample_opts (sample_state [] True)))) = [''b'']"
  by (simp add: recover_tool_batch_def validate_tool_batch_recovery_def sample_batch_def recover_call_def
      append_recovered_call_def act_simps append_if_present_def observe_def mod_session_def run_tool_def
      execute_outcome_def find_tool_def is_hidden_def sample_router_def router_new_def router_with_executor_def
      sample_tool_def legacy_tool_def sample_call_def build_request_def with_cancellation_def
      with_known_context_injections_def request_from_call_def request_new_def settle_contexts_def
      sample_opts_def direct_tool_execution_def classify_execution_def outcome_completed_def plain_outcome_def
      sample_state_def)

end
