(* ===== verification/Harness.thy ===== *)
theory Harness
  imports Compaction Tool_Batch
begin

section \<open>The harness (harness.rs)\<close>

text \<open>
  The bounded loop that owns a conversation: configuration, context management at settled
  boundaries, restoring and forking a session, and the run loop with its control points,
  model rounds, compaction and tool batches.  A run reads the fixed fields of the harness
  record and threads its mutable ones (\<open>session\<close>, \<open>pending_context_injections\<close>) in the
  runtime state; every await is a loop over polls with its own fuel, and the run loop has
  fuel for its iterations.
\<close>

subsection \<open>Configuration and data\<close>

definition max_context_injection_bytes :: nat where
  "max_context_injection_bytes = 64 * 1024"

definition max_context_window_compaction_retries :: nat where
  "max_context_window_compaction_retries = 1"

datatype context_limit_behavior = Reject | Compact

datatype fork_context_policy = Fork_Exact | Fork_Compact

datatype fork_compaction_method = Method_Exact | Method_ModelSummary | Method_Mechanical

record 'v fork_preparation =
  fp_session :: "'v session_state"
  fp_context_before_bytes :: nat
  fp_context_after_bytes :: nat
  fp_method :: fork_compaction_method

record harness_config =
  hc_system_prompt :: string
  hc_max_steps :: nat
  hc_max_context_item_bytes :: nat
  hc_max_user_input_bytes :: nat
  hc_max_model_response_bytes :: nat
  hc_max_tool_calls_per_step :: nat
  hc_max_tool_output_bytes :: nat
  hc_max_context_bytes :: nat
  hc_context_limit_behavior :: context_limit_behavior

definition harness_config_default :: "string \<Rightarrow> harness_config" where
  "harness_config_default prompt_file = \<lparr>hc_system_prompt = trim_end prompt_file, hc_max_steps = 8,
     hc_max_context_item_bytes = 8 * 1024, hc_max_user_input_bytes = 32 * 1024,
     hc_max_model_response_bytes = 16 * 1024 * 1024, hc_max_tool_calls_per_step = 8,
     hc_max_tool_output_bytes = 16 * 1024, hc_max_context_bytes = 64 * 1024 * 1024,
     hc_context_limit_behavior = Compact\<rparr>"

definition with_copilot_loop :: "harness_config \<Rightarrow> harness_config" where
  "with_copilot_loop c = c\<lparr>hc_max_steps := 0, hc_context_limit_behavior := Compact\<rparr>"

record 'v run_outcome =
  ro_final_text :: string
  ro_messages :: "'v message list"
  ro_steps :: nat
  ro_stop_reason :: stop_reason

datatype 'e harness_error =
    HE_Model 'e
  | HE_Compaction string
  | HE_Limit limit_exceeded
  | HE_Thread string
  | HE_ExecutionJournal string
  | HE_NeedsReconciliation string

definition harness_error_text :: "('e \<Rightarrow> string) \<Rightarrow> 'e harness_error \<Rightarrow> string" where
  "harness_error_text show_model err = (case err of
     HE_Model e \<Rightarrow> ''model request failed: '' @ show_model e
   | HE_Compaction e \<Rightarrow> ''context compaction failed: '' @ e
   | HE_Limit l \<Rightarrow> limit_exceeded_text l
   | HE_Thread e \<Rightarrow> ''thread operation failed: '' @ e
   | HE_ExecutionJournal e \<Rightarrow> ''execution checkpoint could not be persisted: '' @ e
   | HE_NeedsReconciliation reason \<Rightarrow> ''execution needs reconciliation before continuing: '' @ reason)"

record ('w, 'v, 'e) harness =
  hn_model :: "('w, 'v, 'e) model"
  hn_tools :: "('w, 'v) tool_router"
  hn_config :: harness_config
  hn_session :: "'v session_state"
  hn_pending :: "(string \<times> context_injection_record) list"
  hn_model_selection :: "model_selection option"
  hn_reasoning_selection :: "reasoning_selection option"
  hn_reasoning_effort :: "string option"

datatype 'v loop_action = Proceed | ContinueTurn | Finish "'v run_outcome"

definition harness_new ::
  "('w, 'v, 'e) model \<Rightarrow> ('w, 'v) tool_router \<Rightarrow> harness_config \<Rightarrow> ('w, 'v, 'e) harness" where
  "harness_new m tools config = \<lparr>hn_model = m, hn_tools = tools, hn_config = config,
     hn_session = session_new, hn_pending = [], hn_model_selection = None,
     hn_reasoning_selection = None, hn_reasoning_effort = None\<rparr>"

subsection \<open>Operations at settled boundaries\<close>

definition validate_user_input :: "harness_config \<Rightarrow> string \<Rightarrow> limit_exceeded + unit" where
  "validate_user_input c prompt =
    (if hc_max_user_input_bytes c < length prompt
     then Inl (limit UserInputBytes (hc_max_user_input_bytes c) (length prompt)) else Inr ())"

definition set_model_selection ::
  "model_selection option \<Rightarrow> string option \<Rightarrow> ('w, 'v, 'e) harness \<Rightarrow> ('w, 'v, 'e) harness" where
  "set_model_selection selection effort h =
     h\<lparr>hn_model_selection := selection, hn_reasoning_selection := None, hn_reasoning_effort := effort\<rparr>"

definition set_model_preferences ::
  "model_selection option \<Rightarrow> reasoning_selection option \<Rightarrow> string option
    \<Rightarrow> ('w, 'v, 'e) harness \<Rightarrow> ('w, 'v, 'e) harness" where
  "set_model_preferences selection reasoning effort h =
     h\<lparr>hn_model_selection := selection, hn_reasoning_selection := reasoning, hn_reasoning_effort := effort\<rparr>"

definition set_system_prompt :: "string \<Rightarrow> ('w, 'v, 'e) harness \<Rightarrow> ('w, 'v, 'e) harness" where
  "set_system_prompt prompt h = h\<lparr>hn_config := (hn_config h)\<lparr>hc_system_prompt := prompt\<rparr>\<rparr>"

definition clear_history :: "('w, 'v, 'e) harness \<Rightarrow> ('w, 'v, 'e) harness" where
  "clear_history h = h\<lparr>hn_session := session_clear (hn_session h)\<rparr>"

definition replace_config :: "harness_config \<Rightarrow> ('w, 'v, 'e) harness \<Rightarrow> ('w, 'v, 'e) harness" where
  "replace_config c h = h\<lparr>hn_config := c\<rparr>"

definition extend_tools :: "('w, 'v) tool list \<Rightarrow> ('w, 'v, 'e) harness \<Rightarrow> ('w, 'v, 'e) harness" where
  "extend_tools tools h = h\<lparr>hn_tools := router_extend tools (hn_tools h)\<rparr>"

definition harness_set_hidden_tools :: "string list \<Rightarrow> ('w, 'v, 'e) harness \<Rightarrow> ('w, 'v, 'e) harness" where
  "harness_set_hidden_tools names h = h\<lparr>hn_tools := set_hidden_tools names (hn_tools h)\<rparr>"

text \<open>\<open>append_context\<close> on the session; the loop uses it too.\<close>

definition append_context :: "harness_config \<Rightarrow> string \<Rightarrow> 'v session_state \<Rightarrow> (limit_exceeded + unit) \<times> 'v session_state" where
  "append_context c t st =
    (if hc_max_context_item_bytes c < length t
     then (Inl (limit ContextItemBytes (hc_max_context_item_bytes c) (length t)), st)
     else (Inr (), push (Context t) st))"

definition harness_append_context_injection ::
  "'v serde \<Rightarrow> string \<Rightarrow> context_injection_record \<Rightarrow> ('w, 'v, 'e) harness
    \<Rightarrow> (limit_exceeded + context_injection_record option) \<times> ('w, 'v, 'e) harness" where
  "harness_append_context_injection js t r h =
    (if max_context_injection_bytes < length t
     then (Inl (limit ContextItemBytes max_context_injection_bytes (length t)), h)
     else (case append_context_injection js t r (hn_session h) of
         (None, st) \<Rightarrow> (Inr None, h\<lparr>hn_session := st\<rparr>)
       | (Some r', st) \<Rightarrow> (Inr (Some r'), h\<lparr>hn_session := st, hn_pending := hn_pending h @ [(t, r')]\<rparr>)))"

definition harness_append_context_slot_if_changed ::
  "string \<Rightarrow> string \<Rightarrow> ('w, 'v, 'e) harness \<Rightarrow> (limit_exceeded + bool) \<times> ('w, 'v, 'e) harness" where
  "harness_append_context_slot_if_changed slot t h =
    (if hc_max_context_item_bytes (hn_config h) < length t
     then (Inl (limit ContextItemBytes (hc_max_context_item_bytes (hn_config h)) (length t)), h)
     else (case append_context_slot_if_changed slot t (hn_session h) of
         (changed, st) \<Rightarrow> (Inr changed, h\<lparr>hn_session := st\<rparr>)))"

text \<open>The bound of one restored message.\<close>

definition check_message :: "'v serde \<Rightarrow> harness_config \<Rightarrow> 'v message \<Rightarrow> limit_exceeded + unit" where
  "check_message js c m = (case m of
     Context t \<Rightarrow>
       (let bound = (if from_context_message js t \<noteq> None then max_context_injection_bytes
                     else hc_max_context_item_bytes c)
        in if bound < length t then Inl (limit ContextItemBytes bound (length t)) else Inr ())
   | User t \<Rightarrow>
       if hc_max_user_input_bytes c < length t
       then Inl (limit UserInputBytes (hc_max_user_input_bytes c) (length t)) else Inr ()
   | Assistant r t calls \<Rightarrow>
       (let actual = length r + length t + length (ser_calls js calls)
        in if hc_max_model_response_bytes c < actual
           then Inl (limit ModelResponseBytes (hc_max_model_response_bytes c) actual)
           else if hc_max_tool_calls_per_step c < length calls
           then Inl (limit ToolCallsPerStep (hc_max_tool_calls_per_step c) (length calls))
           else Inr ())
   | Tool i n content e out \<Rightarrow>
       if hc_max_tool_output_bytes c < length content
       then Inl (limit ToolOutputBytes (hc_max_tool_output_bytes c) (length content)) else Inr ())"

fun check_messages :: "'v serde \<Rightarrow> harness_config \<Rightarrow> 'v message list \<Rightarrow> limit_exceeded + unit" where
  "check_messages js c [] = Inr ()"
| "check_messages js c (m # ms) =
    (case check_message js c m of Inl e \<Rightarrow> Inl e | Inr _ \<Rightarrow> check_messages js c ms)"

text \<open>Injections appended since the last run are applied to a restored session again.\<close>

fun reapply_pending ::
  "'v serde \<Rightarrow> (string \<times> context_injection_record) list \<Rightarrow> 'v session_state
    \<Rightarrow> (string \<times> context_injection_record) list \<times> 'v session_state" where
  "reapply_pending js [] st = ([], st)"
| "reapply_pending js ((t, r) # ps) st =
    (case append_context_injection js t r st of
       (done, st') \<Rightarrow> (case reapply_pending js ps st' of
          (kept, st'') \<Rightarrow> ((case done of None \<Rightarrow> kept | Some r' \<Rightarrow> (t, r') # kept), st'')))"

definition context_limit_of ::
  "'v serde \<Rightarrow> harness_config \<Rightarrow> 'v tool_spec list \<Rightarrow> 'v session_state \<Rightarrow> limit_exceeded + unit" where
  "context_limit_of js c specs st =
    (let actual = context_bytes js (hc_system_prompt c) specs st
     in if actual \<le> hc_max_context_bytes c then Inr ()
        else Inl (limit ContextBytes (hc_max_context_bytes c) actual))"

definition restore_parts ::
  "'v serde \<Rightarrow> harness_config \<Rightarrow> 'v tool_spec list \<Rightarrow> (string \<times> context_injection_record) list \<Rightarrow> 'v session_state
    \<Rightarrow> limit_exceeded + ('v session_state \<times> (string \<times> context_injection_record) list)" where
  "restore_parts js c specs pending st =
    (case reapply_pending js pending st of (kept, st1) \<Rightarrow>
      (case check_messages js c (st_messages st1) of
         Inl e \<Rightarrow> Inl e
       | Inr _ \<Rightarrow>
           (let st2 = snd (repair_incomplete_tool_groups st1) in
            case context_limit_of js c specs st2 of Inl e \<Rightarrow> Inl e | Inr _ \<Rightarrow> Inr (st2, kept))))"

definition restore_session ::
  "'v serde \<Rightarrow> 'v session_state \<Rightarrow> ('w, 'v, 'e) harness \<Rightarrow> (limit_exceeded + unit) \<times> ('w, 'v, 'e) harness" where
  "restore_session js st h =
    (case restore_parts js (hn_config h) (router_specs (hn_tools h)) (hn_pending h) st of
       Inl e \<Rightarrow> (Inl e, h)
     | Inr (st', kept) \<Rightarrow> (Inr (), h\<lparr>hn_session := st', hn_pending := kept\<rparr>))"

definition restore_history ::
  "'v serde \<Rightarrow> 'v message list \<Rightarrow> ('w, 'v, 'e) harness \<Rightarrow> (limit_exceeded + unit) \<times> ('w, 'v, 'e) harness" where
  "restore_history js ms = restore_session js (from_messages ms)"


subsection \<open>Ending a run and the context limit\<close>

definition finish ::
  "('w, 'v) host_env \<Rightarrow> string \<Rightarrow> 'v message list \<Rightarrow> nat \<Rightarrow> stop_reason
    \<Rightarrow> (('w, 'v) runtime, 'err, 'v run_outcome) act" where
  "finish env final_text ms steps reason =
    seqA (observe env (RunFinished reason steps))
      (retA \<lparr>ro_final_text = final_text, ro_messages = ms, ro_steps = steps, ro_stop_reason = reason\<rparr>)"

definition session_messages :: "(('w, 'v) runtime, 'err, 'v message list) act" where
  "session_messages = getA (\<lambda>s. st_messages (rt_session s))"

definition fail_limit :: "('w, 'v) host_env \<Rightarrow> limit_exceeded \<Rightarrow> (('w, 'v) runtime, 'e harness_error, 'a) act" where
  "fail_limit env l = seqA (observe env (RunFailed (Failure_LimitExceeded l))) (raiseA (HE_Limit l))"

definition fail_compaction :: "('w, 'v) host_env \<Rightarrow> string \<Rightarrow> (('w, 'v) runtime, 'e harness_error, 'a) act" where
  "fail_compaction env reason = seqA (observe env (RunFailed Failure_Compaction)) (raiseA (HE_Compaction reason))"

definition liftA :: "('err + 'a) \<Rightarrow> ('s, 'err, 'a) act" where
  "liftA r = (case r of Inl e \<Rightarrow> raiseA e | Inr x \<Rightarrow> retA x)"

definition ensure_context_limit ::
  "('w, 'v) host_env \<Rightarrow> harness_config \<Rightarrow> 'v tool_spec list \<Rightarrow> (('w, 'v) runtime, limit_exceeded, unit) act" where
  "ensure_context_limit env c specs =
    bindA (getA (\<lambda>s. context_limit_of (he_json env) c specs (rt_session s))) liftA"

definition append_user_input :: "harness_config \<Rightarrow> string \<Rightarrow> (('w, 'v) runtime, limit_exceeded, unit) act" where
  "append_user_input c t =
    (if hc_max_user_input_bytes c < length t
     then raiseA (limit UserInputBytes (hc_max_user_input_bytes c) (length t))
     else mod_session (push (User t)))"

definition prepare_context ::
  "('w, 'v) host_env \<Rightarrow> harness_config \<Rightarrow> 'v tool_spec list
    \<Rightarrow> (('w, 'v) runtime, 'e harness_error, unit) act" where
  "prepare_context env c specs = caseA (ensure_context_limit env c specs) retA (fail_limit env)"

subsection \<open>The variables of the loop and the control point\<close>

record 'v loop_vars =
  lv_final_text :: string
  lv_step :: nat
  lv_execution :: "execution_run_context option"
  lv_duplicates :: nat
  lv_last_batch :: "'v executed list option"

definition note_applied_steer :: "string option \<Rightarrow> execution_run_context option \<Rightarrow> execution_run_context option" where
  "note_applied_steer request_id execution =
    (case (request_id, execution) of
       (Some i, Some x) \<Rightarrow>
         Some (if i \<in> set (erc_applied_steer_request_ids x) then x
               else x\<lparr>erc_applied_steer_request_ids := erc_applied_steer_request_ids x @ [i]\<rparr>)
     | _ \<Rightarrow> execution)"

definition finish_now ::
  "('w, 'v) host_env \<Rightarrow> 'v loop_vars \<Rightarrow> stop_reason \<Rightarrow> (('w, 'v) runtime, 'err, 'v run_outcome) act" where
  "finish_now env lv reason =
    bindA session_messages (\<lambda>ms. finish env (lv_final_text lv) ms (lv_step lv) reason)"

definition apply_steer ::
  "('w, 'v) host_env \<Rightarrow> harness_config \<Rightarrow> turn_input \<Rightarrow> 'v loop_vars
    \<Rightarrow> (('w, 'v) runtime, 'e harness_error, 'v loop_action \<times> 'v loop_vars) act" where
  "apply_steer env c pending lv =
    seqA (caseA (append_user_input c (ti_text pending)) retA (fail_limit env))
      (retA (ContinueTurn, lv\<lparr>lv_execution := note_applied_steer (ti_steer_request_id pending) (lv_execution lv),
                             lv_final_text := []\<rparr>))"

definition control_action ::
  "('w, 'v) host_env \<Rightarrow> harness_config \<Rightarrow> steering_mode \<Rightarrow> 'v loop_vars
    \<Rightarrow> (('w, 'v) runtime, 'e harness_error, 'v loop_action \<times> 'v loop_vars) act" where
  "control_action env c mode lv =
    bindA (swap_cancel env) (\<lambda>cancelled. if cancelled
      then bindA (finish_now env lv Stop_Cancelled) (\<lambda>out. retA (Finish out, lv\<lparr>lv_final_text := []\<rparr>))
      else bindA (if mode = ContinueSameTurn then take_steer_steps env else retA None) (\<lambda>pending.
        case pending of
          Some (input, caps) \<Rightarrow> apply_steer env c input lv
        | None \<Rightarrow> bindA (load_steer env) (\<lambda>steered. if steered
            then bindA (finish_now env lv Stop_Steered) (\<lambda>out. retA (Finish out, lv\<lparr>lv_final_text := []\<rparr>))
            else retA (Proceed, lv))))"

subsection \<open>Compaction\<close>

definition model_request_of ::
  "('w, 'v, 'e) harness \<Rightarrow> 'v message list \<Rightarrow> 'v tool_spec list \<Rightarrow> 'v model_request" where
  "model_request_of h ms specs = \<lparr>rq_system_prompt = hc_system_prompt (hn_config h), rq_messages = ms,
     rq_tools = specs, rq_allowed_tools = None,
     rq_max_response_bytes = hc_max_model_response_bytes (hn_config h),
     rq_model_selection = hn_model_selection h, rq_reasoning_selection = hn_reasoning_selection h,
     rq_reasoning_effort = hn_reasoning_effort h\<rparr>"

definition finish_compacted ::
  "('w, 'v) host_env \<Rightarrow> harness_config \<Rightarrow> 'v message list \<Rightarrow> nat \<Rightarrow> model_usage option \<Rightarrow> 'v tool_spec list
    \<Rightarrow> (('w, 'v) runtime, 'e harness_error, unit) act" where
  "finish_compacted env c compacted before_bytes usage specs =
    (let after_bytes = context_bytes_for (he_json env) (hc_system_prompt c) compacted specs in
     if before_bytes \<le> after_bytes
     then fail_compaction env (''summary did not reduce context: '' @ decimal before_bytes @ '' -> ''
            @ decimal after_bytes @ '' bytes'')
     else if hc_max_context_bytes c < after_bytes
     then fail_limit env (limit ContextBytes (hc_max_context_bytes c) after_bytes)
     else seqA (mod_session (replace_messages compacted))
            (observe env (ContextCompactionFinished before_bytes after_bytes usage)))"

text \<open>The summary of a response, when it may replace the history.\<close>

definition accepted_summary ::
  "'v serde \<Rightarrow> harness_config \<Rightarrow> 'v tool_spec list \<Rightarrow> 'v message list \<Rightarrow> 'v message list \<Rightarrow> nat \<Rightarrow> nat \<Rightarrow> bool
    \<Rightarrow> 'v model_response option \<Rightarrow> 'v message list option" where
  "accepted_summary js c specs contexts tail before_bytes compact_at must_reach response =
    (case response of
       None \<Rightarrow> None
     | Some r \<Rightarrow>
         if model_response_bytes js r \<le> hc_max_model_response_bytes c
         then (let summary = trim (mr_text r) in
           if mr_tool_calls r = [] \<and> summary \<noteq> [] then
             (let candidate = assemble_compacted (Some summary) contexts tail (hc_max_user_input_bytes c);
                  after_bytes = context_bytes_for js (hc_system_prompt c) candidate specs
              in if after_bytes < before_bytes \<and> after_bytes \<le> hc_max_context_bytes c
                   \<and> (\<not> must_reach \<or> after_bytes < compact_at)
                 then Some candidate else None)
           else None)
         else None)"

definition summary_or_mechanical ::
  "'v serde \<Rightarrow> harness_config \<Rightarrow> 'v tool_spec list \<Rightarrow> 'v message list \<Rightarrow> 'v message list \<Rightarrow> 'v message list
    \<Rightarrow> nat \<Rightarrow> nat \<Rightarrow> bool \<Rightarrow> 'v model_response option \<Rightarrow> fork_compaction_method \<times> 'v message list" where
  "summary_or_mechanical js c specs before_part contexts tail before_bytes compact_at must_reach response =
    (case accepted_summary js c specs contexts tail before_bytes compact_at must_reach response of
       Some candidate \<Rightarrow> (Method_ModelSummary, candidate)
     | None \<Rightarrow> (Method_Mechanical, mechanical_compact js before_part contexts tail compact_at
         (hc_system_prompt c) specs (hc_max_user_input_bytes c)))"

definition response_of :: "'e + 'v model_response \<Rightarrow> 'v model_response option" where
  "response_of r = (case r of Inl e \<Rightarrow> None | Inr x \<Rightarrow> Some x)"

definition compact_parts ::
  "nat \<Rightarrow> ('w, 'v) host_env \<Rightarrow> ('w, 'v, 'e) harness \<Rightarrow> 'v tool_spec list \<Rightarrow> nat \<Rightarrow> bool \<Rightarrow> nat
    \<Rightarrow> 'v message list \<Rightarrow> 'v message list \<Rightarrow> 'v message list
    \<Rightarrow> (('w, 'v) runtime, 'e harness_error, fork_compaction_method) act" where
  "compact_parts k env h specs compact_at must_reach before_bytes before_part contexts tail =
    (let c = hn_config h; js = he_json env;
         prompt = bounded_compaction_prompt (hc_max_user_input_bytes c);
         fitted = trim_prefix_to_fit js prompt (hc_system_prompt c) [] (hc_max_context_bytes c) before_part;
         request = model_request_of h (fitted @ [User prompt]) []
     in seqA (observe env (ContextCompactionStarted before_bytes))
        (if fitted = []
         then seqA (finish_compacted env c (assemble_compacted None contexts tail (hc_max_user_input_bytes c))
                     before_bytes None specs) (retA Method_Mechanical)
         else seqA (send_request request)
           (bindA (respond_silently k (hn_model h) request) (\<lambda>result.
             let response = response_of result in
             case summary_or_mechanical js c specs fitted contexts tail before_bytes compact_at must_reach response of
               (how, compacted) \<Rightarrow>
                 seqA (finish_compacted env c compacted before_bytes (Option.bind response mr_usage) specs)
                   (retA how)))))"

definition compact_context_to ::
  "nat \<Rightarrow> ('w, 'v) host_env \<Rightarrow> ('w, 'v, 'e) harness \<Rightarrow> 'v tool_spec list \<Rightarrow> nat \<Rightarrow> bool
    \<Rightarrow> (('w, 'v) runtime, 'e harness_error, fork_compaction_method) act" where
  "compact_context_to k env h specs compact_at must_reach =
    bindA session_messages (\<lambda>ms.
      case split_compaction_parts (he_json env) ms of (before_part, contexts, tail) \<Rightarrow>
        if before_part = [] then retA Method_Exact
        else compact_parts k env h specs compact_at must_reach
               (context_bytes_for (he_json env) (hc_system_prompt (hn_config h)) ms specs)
               before_part contexts tail)"

definition compact_context ::
  "nat \<Rightarrow> ('w, 'v) host_env \<Rightarrow> ('w, 'v, 'e) harness \<Rightarrow> 'v tool_spec list
    \<Rightarrow> (('w, 'v) runtime, 'e harness_error, fork_compaction_method) act" where
  "compact_context k env h specs =
    compact_context_to k env h specs (hc_max_context_bytes (hn_config h) div 2) False"

definition run_context_bytes ::
  "('w, 'v) host_env \<Rightarrow> ('w, 'v, 'e) harness \<Rightarrow> 'v tool_spec list \<Rightarrow> (('w, 'v) runtime, 'err, nat) act" where
  "run_context_bytes env h specs =
    getA (\<lambda>s. context_bytes (he_json env) (hc_system_prompt (hn_config h)) specs (rt_session s))"

definition compact_context_with_reduction_target ::
  "nat \<Rightarrow> ('w, 'v) host_env \<Rightarrow> ('w, 'v, 'e) harness \<Rightarrow> 'v tool_spec list
    \<Rightarrow> (('w, 'v) runtime, 'e harness_error, bool) act" where
  "compact_context_with_reduction_target k env h specs =
    bindA (run_context_bytes env h specs) (\<lambda>before_bytes.
    bindA (compact_context_to k env h specs (sat_mul before_bytes 9 div 10) True) (\<lambda>how.
    bindA (run_context_bytes env h specs) (\<lambda>after_bytes.
      retA (how \<noteq> Method_Exact \<and> after_bytes < before_bytes))))"


subsection \<open>Fork checkpoints\<close>

text \<open>The observer \<open>()\<close> of a fork: nothing is shown to anybody.\<close>

definition silent :: "('w, 'v) host_env \<Rightarrow> ('w, 'v) host_env" where
  "silent env = env\<lparr>he_observe := (\<lambda>ev w. w)\<rparr>"

definition fork_checkpoint ::
  "nat \<Rightarrow> ('w, 'v) host_env \<Rightarrow> ('w, 'v, 'e) harness \<Rightarrow> 'v tool_spec list \<Rightarrow> fork_context_policy
    \<Rightarrow> (('w, 'v) runtime, 'e harness_error, 'v fork_preparation) act" where
  "fork_checkpoint k env h specs policy =
    bindA (run_context_bytes env h specs) (\<lambda>before_bytes.
      if policy = Fork_Exact
      then seqA (map_errA HE_Limit (ensure_context_limit env (hn_config h) specs))
        (getA (\<lambda>s. \<lparr>fp_session = rt_session s, fp_context_before_bytes = before_bytes,
           fp_context_after_bytes = before_bytes, fp_method = Method_Exact\<rparr>))
      else bindA (compact_context k (silent env) h specs) (\<lambda>how.
        bindA (run_context_bytes env h specs) (\<lambda>after_bytes.
          seqA (map_errA HE_Limit (ensure_context_limit env (hn_config h) specs))
            (getA (\<lambda>s. \<lparr>fp_session = rt_session s, fp_context_before_bytes = before_bytes,
               fp_context_after_bytes = after_bytes, fp_method = how\<rparr>)))))"

text \<open>
  The original session comes back on every ending; a call that is still waiting for its
  summary has not replaced it yet.
\<close>

definition prepare_fork_checkpoint ::
  "nat \<Rightarrow> ('w, 'v) host_env \<Rightarrow> fork_context_policy \<Rightarrow> ('w, 'v, 'e) harness
    \<Rightarrow> (('w, 'v) runtime, 'e harness_error, 'v fork_preparation) act" where
  "prepare_fork_checkpoint k env policy h =
    bindA (getA rt_session) (\<lambda>original.
      caseA (fork_checkpoint k env h (router_specs (hn_tools h)) policy)
        (\<lambda>fork. seqA (mod_session (\<lambda>_. original)) (retA fork))
        (\<lambda>e. seqA (mod_session (\<lambda>_. original)) (raiseA e)))"

subsection \<open>Starting a run\<close>

definition journal_entry ::
  "('w, 'v) host_env \<Rightarrow> 'v execution_journal_entry \<Rightarrow> (('w, 'v) runtime, 'e harness_error, unit) act" where
  "journal_entry env entry = map_errA HE_ExecutionJournal (append_if_present env entry)"

definition write_checkpoint ::
  "('w, 'v) host_env \<Rightarrow> execution_run_context option \<Rightarrow> nat \<Rightarrow> string
    \<Rightarrow> (('w, 'v) runtime, 'e harness_error, unit) act" where
  "write_checkpoint env execution next_step final_text =
    (case execution of
       None \<Rightarrow> retA ()
     | Some x \<Rightarrow> bindA session_messages (\<lambda>ms. journal_entry env (J_Checkpoint
         \<lparr>ecp_turn_id = erc_turn_id x, ecp_input = erc_input x, ecp_messages = ms,
          ecp_next_model_step = next_step, ecp_final_text = final_text, ecp_phase = Phase_ModelRequest,
          ecp_applied_steer_request_ids = erc_applied_steer_request_ids x\<rparr>)))"

text \<open>\<open>restore_history\<close> of a checkpoint on the runtime state.\<close>

definition restore_run ::
  "('w, 'v) host_env \<Rightarrow> ('w, 'v, 'e) harness \<Rightarrow> 'v tool_spec list \<Rightarrow> 'v message list
    \<Rightarrow> (('w, 'v) runtime, limit_exceeded, unit) act" where
  "restore_run env h specs ms =
    bindA (getA (\<lambda>s. restore_parts (he_json env) (hn_config h) specs (rt_pending s) (from_messages ms)))
      (\<lambda>r. bindA (liftA r) (\<lambda>(st, kept). modA (\<lambda>s. s\<lparr>rt_session := st, rt_pending := kept\<rparr>)))"

definition begin_fresh ::
  "('w, 'v) host_env \<Rightarrow> ('w, 'v, 'e) harness \<Rightarrow> 'v tool_spec list \<Rightarrow> execution_run_context option \<Rightarrow> string
    \<Rightarrow> (('w, 'v) runtime, 'e harness_error, string \<times> nat) act" where
  "begin_fresh env h specs execution prompt =
    bindA (getA (\<lambda>s. length (st_messages (rt_session s)))) (\<lambda>previous_message_count.
    seqA (mod_session (push (User prompt)))
    (seqA (write_checkpoint env execution 1 [])
    (caseA (prepare_context env (hn_config h) specs)
      (\<lambda>_. retA ([], 0))
      (\<lambda>e. seqA (if hc_context_limit_behavior (hn_config h) = Reject
                 then mod_session (truncate_messages previous_message_count) else retA ())
             (raiseA e)))))"

definition begin_resumed ::
  "('w, 'v) host_env \<Rightarrow> ('w, 'v, 'e) harness \<Rightarrow> 'v tool_spec list \<Rightarrow> 'v execution_checkpoint
    \<Rightarrow> (('w, 'v) runtime, 'e harness_error, string \<times> nat) act" where
  "begin_resumed env h specs cp =
    seqA (map_errA HE_Limit (restore_run env h specs (ecp_messages cp)))
    (seqA (map_errA HE_Limit (ensure_context_limit env (hn_config h) specs))
      (retA (ecp_final_text cp, ecp_next_model_step cp - 1)))"

definition begin_run ::
  "('w, 'v) host_env \<Rightarrow> ('w, 'v, 'e) harness \<Rightarrow> 'v tool_spec list \<Rightarrow> 'v execution_run_options \<Rightarrow> string
    \<Rightarrow> (('w, 'v) runtime, 'e harness_error, string \<times> nat) act" where
  "begin_run env h specs opts given =
    (let prompt = (case ero_resume opts of None \<Rightarrow> given | Some (cp, _) \<Rightarrow> ti_text (ecp_input cp)) in
     seqA (mod_session (\<lambda>st. snd (repair_incomplete_tool_groups st)))
     (case validate_user_input (hn_config h) prompt of
        Inl l \<Rightarrow> fail_limit env l
      | Inr _ \<Rightarrow>
          seqA (observe env (RunStarted prompt))
            (case ero_resume opts of
               Some (cp, _) \<Rightarrow> begin_resumed env h specs cp
             | None \<Rightarrow> begin_fresh env h specs (ero_execution_context opts) prompt)))"

text \<open>The pending tool batch of a resumed execution.\<close>

definition recovery_error :: "tool_batch_recovery_error \<Rightarrow> 'e harness_error" where
  "recovery_error e = (case e of
     NeedsReconciliation_Batch reason \<Rightarrow> HE_NeedsReconciliation reason
   | Journal_Batch err \<Rightarrow> HE_ExecutionJournal err)"

definition batch_options ::
  "harness_config \<Rightarrow> 'v execution_run_options \<Rightarrow> turn_id option \<Rightarrow> nat \<Rightarrow> tool_batch_options" where
  "batch_options c opts turn_id step = \<lparr>tbo_max_output_bytes = hc_max_tool_output_bytes c,
     tbo_context = ero_tool_context opts, tbo_turn_id = turn_id, tbo_step = step\<rparr>"

definition settle_batch ::
  "('w, 'v) host_env \<Rightarrow> execution_run_context option \<Rightarrow> nat \<Rightarrow> string
    \<Rightarrow> (('w, 'v) runtime, 'e harness_error, unit) act" where
  "settle_batch env execution step final_text =
    (case execution of
       None \<Rightarrow> retA ()
     | Some x \<Rightarrow> seqA (journal_entry env (J_ToolBatchSettled (erc_turn_id x) step))
         (write_checkpoint env execution (sat_add step 1) final_text))"

definition mismatch_reason :: string where
  "mismatch_reason = ''checkpoint and pending tool batch do not identify the same model step''"

definition resume_batch ::
  "('w, 'v) host_env \<Rightarrow> ('w, 'v, 'e) harness \<Rightarrow> 'v execution_run_options \<Rightarrow> 'v execution_checkpoint
    \<Rightarrow> 'v execution_tool_batch \<Rightarrow> (('w, 'v) runtime, 'e harness_error, string \<times> nat) act" where
  "resume_batch env h opts cp batch =
    (let intent = etb_intent batch; execution = ero_execution_context opts in
     if ecp_turn_id cp \<noteq> tbi_turn_id intent \<or> ecp_next_model_step cp \<noteq> tbi_step intent
     then raiseA (HE_NeedsReconciliation mismatch_reason)
     else (case validate_tool_batch_recovery (hn_tools h) batch of
       Inl reason \<Rightarrow>
         seqA (case execution of None \<Rightarrow> retA ()
               | Some x \<Rightarrow> journal_entry env (J_NeedsReconciliation (erc_turn_id x) reason))
           (raiseA (HE_NeedsReconciliation reason))
     | Inr _ \<Rightarrow>
         seqA (mod_session (push (Assistant (tbi_reasoning intent) (tbi_text intent) (tbi_calls intent))))
         (bindA (map_errA recovery_error (recover_tool_batch env (hn_tools h) batch
             (batch_options (hn_config h) opts None (tbi_step intent)))) (\<lambda>executed.
          seqA (settle_batch env execution (tbi_step intent) (tbi_text intent))
            (retA (tbi_text intent, tbi_step intent))))))"

definition start_run ::
  "('w, 'v) host_env \<Rightarrow> ('w, 'v, 'e) harness \<Rightarrow> 'v tool_spec list \<Rightarrow> 'v execution_run_options \<Rightarrow> string
    \<Rightarrow> (('w, 'v) runtime, 'e harness_error, 'v loop_vars) act" where
  "start_run env h specs opts given =
    bindA (begin_run env h specs opts given) (\<lambda>begun.
    bindA (case ero_resume opts of
        Some (cp, Some batch) \<Rightarrow> resume_batch env h opts cp batch
      | _ \<Rightarrow> retA begun) (\<lambda>(final_text, step).
      retA \<lparr>lv_final_text = final_text, lv_step = step, lv_execution = ero_execution_context opts,
            lv_duplicates = 0, lv_last_batch = None\<rparr>))"


subsection \<open>A model round\<close>

definition model_started ::
  "('w, 'v) host_env \<Rightarrow> ('w, 'v, 'e) harness \<Rightarrow> 'v tool_spec list \<Rightarrow> nat \<Rightarrow> ('w, 'v) runtime \<Rightarrow> 'v event" where
  "model_started env h specs step s =
    (let js = he_json env; prompt = hc_system_prompt (hn_config h); ms = st_messages (rt_session s) in
     ModelStarted step (context_bytes js prompt specs (rt_session s)) (model_input_digest js prompt ms specs)
       (tool_manifest_digest js specs))"

type_synonym 'v answered_model = "'v model_response \<times> model_timing \<times> model_context_snapshot option"

text \<open>One request of a turn: \<open>None\<close> when it was cancelled.\<close>

definition request_once ::
  "nat \<Rightarrow> ('w, 'v) host_env \<Rightarrow> ('w, 'v, 'e) harness \<Rightarrow> 'v tool_spec list \<Rightarrow> nat
    \<Rightarrow> (('w, 'v) runtime, 'e harness_error, ('e + 'v answered_model) option) act" where
  "request_once k env h specs step =
    bindA (getA (model_started env h specs step)) (\<lambda>ev.
    seqA (observe env ev)
    (bindA (getA (\<lambda>s. forwarder_new (hc_max_model_response_bytes (hn_config h)) (he_clock env (rt_world s)))) (\<lambda>fw.
    bindA session_messages (\<lambda>ms.
    let request = model_request_of h ms specs in
    bindA (getA (\<lambda>s. md_context_snapshot (hn_model h) (rt_world s) (rq_model_selection request))) (\<lambda>snapshot.
    seqA (send_request request)
    (bindA (respond_until_cancelled k env (hn_model h) request fw) (\<lambda>(result, fw').
     case result of
       Inl _ \<Rightarrow> retA None
     | Inr (Inl e) \<Rightarrow> retA (Some (Inl e))
     | Inr (Inr response) \<Rightarrow>
         bindA (getA (\<lambda>s. timing fw' (he_clock env (rt_world s)))) (\<lambda>t.
           retA (Some (Inr (response, t, snapshot)))))))))))"

definition fail_model :: "('w, 'v) host_env \<Rightarrow> 'e \<Rightarrow> (('w, 'v) runtime, 'e harness_error, 'a) act" where
  "fail_model env e = seqA (observe env (RunFailed Failure_Model)) (raiseA (HE_Model e))"

text \<open>
  The request with its retries, \<open>left\<close> the ones that remain: a context-window error of the
  provider compacts the history and tries again.  \<open>Inl\<close> is the outcome of a cancelled run.
\<close>

fun model_round ::
  "nat \<Rightarrow> nat \<Rightarrow> ('w, 'v) host_env \<Rightarrow> ('w, 'v, 'e) harness \<Rightarrow> 'v tool_spec list \<Rightarrow> 'v loop_vars
    \<Rightarrow> (('w, 'v) runtime, 'e harness_error, 'v run_outcome + 'v answered_model) act" where
  "model_round left k env h specs lv =
    bindA (request_once k env h specs (lv_step lv)) (\<lambda>result. case result of
       None \<Rightarrow> bindA (swap_cancel env) (\<lambda>_. bindA (finish_now env lv Stop_Cancelled) (\<lambda>out. retA (Inl out)))
     | Some (Inr answer) \<Rightarrow> retA (Inr answer)
     | Some (Inl e) \<Rightarrow>
         bindA (getA (\<lambda>s. hc_context_limit_behavior (hn_config h) = Compact \<and> 0 < left
             \<and> md_is_context_window_error (hn_model h) (rt_world s) e)) (\<lambda>again.
           case left of
             0 \<Rightarrow> fail_model env e
           | Suc left' \<Rightarrow>
               if again
               then bindA (compact_context_with_reduction_target k env h specs) (\<lambda>reduced.
                 if reduced
                 then seqA (write_checkpoint env (lv_execution lv) (lv_step lv) (lv_final_text lv))
                        (model_round left' k env h specs lv)
                 else fail_model env e)
               else fail_model env e))"

declare model_round.simps [simp del]

subsection \<open>One iteration of the loop\<close>

text \<open>An iteration either ends the run with an outcome or goes round again.\<close>

type_synonym 'v iteration = "'v run_outcome + 'v loop_vars"

definition loop_warning_text :: string where
  "loop_warning_text = ''[Loop warning: identical tool calls and outputs were repeated without progress. Please adjust arguments or try an alternate strategy.]''"

definition show_pending_injections :: "('w, 'v) host_env \<Rightarrow> (('w, 'v) runtime, 'err, unit) act" where
  "show_pending_injections env =
    bindA (getA rt_pending) (\<lambda>pending. if pending = [] then retA ()
      else seqA (modA (\<lambda>s. s\<lparr>rt_pending := []\<rparr>)) (observe env (ContextInjected (map snd pending))))"

text \<open>What a control point makes of the iteration, \<open>next\<close> being the code after it.\<close>

definition at_control_point ::
  "('w, 'v) host_env \<Rightarrow> harness_config \<Rightarrow> steering_mode \<Rightarrow> 'v loop_vars
    \<Rightarrow> ('v loop_vars \<Rightarrow> (('w, 'v) runtime, 'e harness_error, 'v iteration) act)
    \<Rightarrow> (('w, 'v) runtime, 'e harness_error, 'v iteration) act" where
  "at_control_point env c mode lv continue_with =
    bindA (control_action env c mode lv) (\<lambda>(action, lv'). case action of
       Proceed \<Rightarrow> continue_with lv'
     | ContinueTurn \<Rightarrow> retA (Inr lv')
     | Finish out \<Rightarrow> retA (Inl out))"

definition check_response ::
  "('w, 'v) host_env \<Rightarrow> harness_config \<Rightarrow> 'v model_response \<Rightarrow> (('w, 'v) runtime, 'e harness_error, unit) act" where
  "check_response env c response =
    (let response_bytes = model_response_bytes (he_json env) response in
     if hc_max_model_response_bytes c < response_bytes
     then fail_limit env (limit ModelResponseBytes (hc_max_model_response_bytes c) response_bytes)
     else if hc_max_tool_calls_per_step c < length (mr_tool_calls response)
     then fail_limit env (limit ToolCallsPerStep (hc_max_tool_calls_per_step c) (length (mr_tool_calls response)))
     else retA ())"

definition compacts_after :: "harness_config \<Rightarrow> 'v model_response \<Rightarrow> model_context_snapshot option \<Rightarrow> bool" where
  "compacts_after c response snapshot \<longleftrightarrow> hc_context_limit_behavior c = Compact
     \<and> (case mr_usage response of None \<Rightarrow> False
        | Some usage \<Rightarrow> (case snapshot of None \<Rightarrow> False
            | Some context \<Rightarrow> usage_reaches_context_waterline context usage))"

definition take_response ::
  "nat \<Rightarrow> ('w, 'v) host_env \<Rightarrow> ('w, 'v, 'e) harness \<Rightarrow> 'v tool_spec list \<Rightarrow> 'v answered_model
    \<Rightarrow> (('w, 'v) runtime, 'e harness_error, unit) act" where
  "take_response k env h specs answer = (case answer of (response, model_timing, snapshot) \<Rightarrow>
    seqA (check_response env (hn_config h) response)
    (bindA session_messages (\<lambda>ms.
    seqA (observe env (ModelResponded (mr_reasoning response) (mr_text response) (mr_tool_calls response)
      (mr_usage response) (Some model_timing)
      (Some (context_byte_breakdown_for (he_json env) (hc_system_prompt (hn_config h)) ms specs)) snapshot))
    (seqA (mod_session (push (Assistant (mr_reasoning response) (mr_text response) (mr_tool_calls response))))
    (if compacts_after (hn_config h) response snapshot
     then bindA (compact_context_with_reduction_target k env h specs) (\<lambda>_. retA ()) else retA ())))))"

definition count_duplicates :: "'v executed list \<Rightarrow> 'v loop_vars \<Rightarrow> 'v loop_vars" where
  "count_duplicates executed lv =
    (if lv_last_batch lv = Some executed
     then lv\<lparr>lv_duplicates := sat_add (lv_duplicates lv) 1\<rparr>
     else lv\<lparr>lv_duplicates := 0, lv_last_batch := Some executed\<rparr>)"

definition warn_of_loop :: "harness_config \<Rightarrow> 'v loop_vars \<Rightarrow> (('w, 'v) runtime, 'err, unit) act" where
  "warn_of_loop c lv =
    (if 2 \<le> lv_duplicates lv
     then bindA (step_session (append_context c loop_warning_text)) (\<lambda>ignored. retA ()) else retA ())"

definition run_batch ::
  "('w, 'v) host_env \<Rightarrow> ('w, 'v, 'e) harness \<Rightarrow> 'v execution_run_options \<Rightarrow> 'v model_response \<Rightarrow> 'v loop_vars
    \<Rightarrow> (('w, 'v) runtime, 'e harness_error, 'v loop_vars) act" where
  "run_batch env h opts response lv =
    seqA (case lv_execution lv of
        None \<Rightarrow> retA ()
      | Some x \<Rightarrow> journal_entry env (J_ToolBatchStarted \<lparr>tbi_turn_id = erc_turn_id x, tbi_step = lv_step lv,
          tbi_reasoning = mr_reasoning response, tbi_text = mr_text response,
          tbi_calls = mr_tool_calls response\<rparr>))
    (bindA (map_errA HE_ExecutionJournal (execute_tool_batch env (hn_tools h) (mr_tool_calls response)
        (batch_options (hn_config h) opts (map_option erc_turn_id (lv_execution lv)) (lv_step lv))))
      (\<lambda>executed. seqA (settle_batch env (lv_execution lv) (lv_step lv) (lv_final_text lv))
        (let lv' = count_duplicates executed lv
         in seqA (warn_of_loop (hn_config h) lv') (retA lv'))))"

definition after_response ::
  "nat \<Rightarrow> ('w, 'v) host_env \<Rightarrow> ('w, 'v, 'e) harness \<Rightarrow> 'v tool_spec list \<Rightarrow> steering_mode
    \<Rightarrow> 'v execution_run_options \<Rightarrow> 'v answered_model \<Rightarrow> 'v loop_vars
    \<Rightarrow> (('w, 'v) runtime, 'e harness_error, 'v iteration) act" where
  "after_response k env h specs mode opts answer lv0 =
    (let response = fst answer; c = hn_config h; lv = lv0\<lparr>lv_final_text := mr_text response\<rparr> in
     seqA (take_response k env h specs answer)
     (if mr_tool_calls response = []
      then at_control_point env c mode lv (\<lambda>lv'.
        bindA (finish_now env lv' Stop_Completed) (\<lambda>out. retA (Inl out)))
      else bindA (run_batch env h opts response lv) (\<lambda>lv'.
        at_control_point env c mode lv' (\<lambda>lv''.
          caseA (ensure_context_limit env c specs) (\<lambda>_. retA (Inr lv'')) (fail_limit env)))))"

definition model_step ::
  "nat \<Rightarrow> ('w, 'v) host_env \<Rightarrow> ('w, 'v, 'e) harness \<Rightarrow> 'v tool_spec list \<Rightarrow> steering_mode
    \<Rightarrow> 'v execution_run_options \<Rightarrow> 'v loop_vars
    \<Rightarrow> (('w, 'v) runtime, 'e harness_error, 'v iteration) act" where
  "model_step k env h specs mode opts lv =
    seqA (show_pending_injections env)
    (seqA (prepare_context env (hn_config h) specs)
    (seqA (write_checkpoint env (lv_execution lv) (lv_step lv) (lv_final_text lv))
    (bindA (model_round max_context_window_compaction_retries k env h specs lv) (\<lambda>r. case r of
       Inl out \<Rightarrow> retA (Inl out)
     | Inr answer \<Rightarrow> after_response k env h specs mode opts answer lv))))"

definition loop_iteration ::
  "nat \<Rightarrow> ('w, 'v) host_env \<Rightarrow> ('w, 'v, 'e) harness \<Rightarrow> 'v tool_spec list \<Rightarrow> steering_mode
    \<Rightarrow> 'v execution_run_options \<Rightarrow> 'v loop_vars
    \<Rightarrow> (('w, 'v) runtime, 'e harness_error, 'v iteration) act" where
  "loop_iteration k env h specs mode opts lv =
    at_control_point env (hn_config h) mode lv (\<lambda>lv'.
      let lv'' = lv'\<lparr>lv_step := sat_add (lv_step lv') 1\<rparr> in
      if hc_max_steps (hn_config h) \<noteq> 0 \<and> hc_max_steps (hn_config h) < lv_step lv''
      then bindA session_messages (\<lambda>ms.
        bindA (finish env (lv_final_text lv'') ms (lv_step lv'' - 1) Stop_StepLimit) (\<lambda>out. retA (Inl out)))
      else model_step k env h specs mode opts lv'')"

subsection \<open>A run\<close>

fun run_loop ::
  "nat \<Rightarrow> nat \<Rightarrow> ('w, 'v) host_env \<Rightarrow> ('w, 'v, 'e) harness \<Rightarrow> 'v tool_spec list \<Rightarrow> steering_mode
    \<Rightarrow> 'v execution_run_options \<Rightarrow> 'v loop_vars
    \<Rightarrow> (('w, 'v) runtime, 'e harness_error, 'v run_outcome) act" where
  "run_loop 0 k env h specs mode opts lv = starveA"
| "run_loop (Suc n) k env h specs mode opts lv =
    bindA (loop_iteration k env h specs mode opts lv) (\<lambda>r. case r of
      Inl out \<Rightarrow> retA out | Inr lv' \<Rightarrow> run_loop n k env h specs mode opts lv')"

definition run_turn ::
  "nat \<Rightarrow> nat \<Rightarrow> ('w, 'v) host_env \<Rightarrow> ('w, 'v, 'e) harness \<Rightarrow> steering_mode \<Rightarrow> 'v execution_run_options \<Rightarrow> string
    \<Rightarrow> (('w, 'v) runtime, 'e harness_error, 'v run_outcome) act" where
  "run_turn n k env h mode opts prompt =
    (let specs = router_specs (hn_tools h) in
     bindA (start_run env h specs opts prompt) (run_loop n k env h specs mode opts))"

text \<open>The runtime a run starts from, and the harness it leaves behind.\<close>

definition runtime_of :: "('w, 'v, 'e) harness \<Rightarrow> run_control \<Rightarrow> 'w \<Rightarrow> ('w, 'v) runtime" where
  "runtime_of h control w = \<lparr>rt_session = hn_session h, rt_pending = hn_pending h, rt_control = control,
     rt_world = w, rt_trace = []\<rparr>"

definition run_with_control_mode_and_tool_context ::
  "nat \<Rightarrow> nat \<Rightarrow> ('w, 'v) host_env \<Rightarrow> steering_mode \<Rightarrow> 'v execution_run_options \<Rightarrow> string
    \<Rightarrow> run_control \<Rightarrow> 'w \<Rightarrow> ('w, 'v, 'e) harness
    \<Rightarrow> ('e harness_error, 'v run_outcome) outcome \<times> ('w, 'v, 'e) harness \<times> ('w, 'v) runtime" where
  "run_with_control_mode_and_tool_context n k env mode opts prompt control w h =
    (case run_turn n k env h mode opts prompt (runtime_of h control w) of
       (r, s) \<Rightarrow> (r, h\<lparr>hn_session := rt_session s, hn_pending := rt_pending s\<rparr>, s))"

definition default_run_options :: "'v execution_run_options" where
  "default_run_options = \<lparr>ero_tool_context = None, ero_execution_context = None, ero_resume = None\<rparr>"

text \<open>The public entry points: no journal, no execution context.\<close>

definition run_with_control_mode ::
  "nat \<Rightarrow> nat \<Rightarrow> ('w, 'v) host_env \<Rightarrow> steering_mode \<Rightarrow> string \<Rightarrow> run_control \<Rightarrow> 'w \<Rightarrow> ('w, 'v, 'e) harness
    \<Rightarrow> ('e harness_error, 'v run_outcome) outcome \<times> ('w, 'v, 'e) harness \<times> ('w, 'v) runtime" where
  "run_with_control_mode n k env mode =
    run_with_control_mode_and_tool_context n k (env\<lparr>he_journal := None\<rparr>) mode default_run_options"

definition run_with_control ::
  "nat \<Rightarrow> nat \<Rightarrow> ('w, 'v) host_env \<Rightarrow> string \<Rightarrow> run_control \<Rightarrow> 'w \<Rightarrow> ('w, 'v, 'e) harness
    \<Rightarrow> ('e harness_error, 'v run_outcome) outcome \<times> ('w, 'v, 'e) harness \<times> ('w, 'v) runtime" where
  "run_with_control n k env = run_with_control_mode n k env StopAtCheckpoint"

definition harness_run ::
  "nat \<Rightarrow> nat \<Rightarrow> ('w, 'v) host_env \<Rightarrow> string \<Rightarrow> 'w \<Rightarrow> ('w, 'v, 'e) harness
    \<Rightarrow> ('e harness_error, 'v run_outcome) outcome \<times> ('w, 'v, 'e) harness \<times> ('w, 'v) runtime" where
  "harness_run n k env prompt = run_with_control n k env prompt run_control_new"

end
