(* ===== verification/Harness_Safety.thy ===== *)
theory Harness_Safety
  imports Harness
begin

section \<open>Safety of the run loop\<close>

text \<open>
  What every run of the harness leaves in the trace, on every ending: the requests it sends,
  the checkpoints it writes, the steps it announces and how it reports its end.  One invariant
  is carried through the operations of \<open>Harness\<close> in the order the loop composes them.
\<close>

subsection \<open>Effects of a kind\<close>

text \<open>\<open>traced P s\<close>: every effect of the trace satisfies \<open>P\<close>.\<close>

definition traced :: "('v effect \<Rightarrow> bool) \<Rightarrow> ('w, 'v) runtime \<Rightarrow> bool" where
  "traced P s \<longleftrightarrow> list_all P (rt_trace s)"

lemma traced_updates [simp]:
  "traced P (s\<lparr>rt_world := w\<rparr>) = traced P s" "traced P (s\<lparr>rt_session := st\<rparr>) = traced P s"
  "traced P (s\<lparr>rt_control := c\<rparr>) = traced P s" "traced P (s\<lparr>rt_pending := p\<rparr>) = traced P s"
  "traced P (s\<lparr>rt_trace := rt_trace t @ xs\<rparr>) \<longleftrightarrow> traced P t \<and> list_all P xs"
  by (simp_all add: traced_def)

text \<open>The effects a tool batch and the forwarding of a response may have.\<close>

definition batch_effect :: "'v effect \<Rightarrow> bool" where
  "batch_effect e = (case e of
     E_Tool r \<Rightarrow> True
   | E_Journal (J_ToolCallStarted t n i) \<Rightarrow> True
   | E_Journal (J_ToolCallFinished t n i out) \<Rightarrow> True
   | E_Observe (ToolStarted call) \<Rightarrow> True
   | E_Observe (ToolFinished i n args content err tr out) \<Rightarrow> True
   | E_Observe (ContextInjected rs) \<Rightarrow> True
   | _ \<Rightarrow> False)"

lemma keeps_prod [act_rules]: "(\<And>a b. keeps P (f a b)) \<Longrightarrow> keeps P (case x of (a, b) \<Rightarrow> f a b)"
  by (cases x) auto

lemma keeps_traced_observe: "P (E_Observe ev) \<Longrightarrow> keeps (traced P) (observe env ev)"
  unfolding observe_def by (rule keeps_modA) simp

lemma keeps_traced_journal: "P (E_Journal entry) \<Longrightarrow> keeps (traced P) (append_if_present env entry)"
  by (auto simp: append_if_present_def keeps_def act_simps split: option.split prod.split sum.split)

lemma keeps_traced_quiet:
  "keeps (traced P) (mod_session f)" "keeps (traced P) (step_session g)" "keeps (traced P) (on_control env k)"
  by (auto simp: mod_session_def step_session_def on_control_def keeps_def act_simps split: prod.split)

lemmas traced_rules = act_rules keeps_traced_observe keeps_traced_journal keeps_traced_quiet

lemma keeps_journal_for:
  "(\<And>t. P (E_Journal (entry t))) \<Longrightarrow> keeps (traced P) (journal_for env opts entry)"
  unfolding journal_for_def by (auto intro!: traced_rules)

lemma keeps_run_tool: "(\<And>r. P (E_Tool r)) \<Longrightarrow> keeps (traced P) (run_tool router request)"
  unfolding run_tool_def by (rule keeps_stepA) (simp split: prod.split)

lemma keeps_append_contexts: "keeps (traced P) (append_contexts env ts rs acc)"
  by (induction env ts rs acc rule: append_contexts.induct) (auto intro!: traced_rules)

lemma batch_effect_simps:
  "batch_effect (E_Tool r)" "batch_effect (E_Journal (J_ToolCallStarted t n i))"
  "batch_effect (E_Journal (J_ToolCallFinished t n i out))" "batch_effect (E_Observe (ToolStarted call))"
  "batch_effect (E_Observe (tool_finished call out m))" "batch_effect (E_Observe (ContextInjected rs))"
  by (simp_all add: batch_effect_def tool_finished_def)

locale batch_log =
  fixes P :: "'v effect \<Rightarrow> bool"
  assumes batch: "\<And>e. batch_effect e \<Longrightarrow> P e"
begin

lemma keeps_settle_contexts: "keeps (traced P) (settle_contexts env ms is)"
  unfolding settle_contexts_def
  by (auto intro!: traced_rules keeps_append_contexts batch simp: batch_effect_simps)

lemma keeps_record_tool_result: "keeps (traced P) (record_tool_result env opts call out)"
  unfolding record_tool_result_def
  by (auto intro!: traced_rules keeps_journal_for batch simp: batch_effect_simps)

lemma keeps_start_call: "keeps (traced P) (start_call env router opts call vars)"
  unfolding start_call_def decide_outcome_def load_cancel_def
  by (cases vars) (auto intro!: traced_rules keeps_journal_for keeps_run_tool keeps_record_tool_result batch
      simp: batch_effect_simps)

lemma keeps_execute_calls: "keeps (traced P) (execute_calls env router opts calls vars)"
  unfolding execute_call_def load_cancel_def
  by (induction calls arbitrary: vars)
    (auto intro!: traced_rules keeps_record_tool_result keeps_start_call simp: execute_call_def load_cancel_def)

lemma keeps_execute_tool_batch: "keeps (traced P) (execute_tool_batch env router calls opts)"
  unfolding execute_tool_batch_def
  by (auto intro!: traced_rules keeps_execute_calls keeps_settle_contexts)

lemma keeps_append_recovered_call: "keeps (traced P) (append_recovered_call env intent n call out started)"
  unfolding append_recovered_call_def
  by (auto intro!: traced_rules batch simp: batch_effect_simps)

lemma keeps_recover_call: "keeps (traced P) (recover_call env router opts intent c vars)"
  unfolding recover_call_def
  by (cases vars) (auto intro!: traced_rules keeps_run_tool keeps_append_recovered_call batch
      simp: batch_effect_simps)

lemma keeps_recover_tool_batch: "keeps (traced P) (recover_tool_batch env router batch' opts)"
proof -
  have "keeps (traced P) (recover_calls env router opts intent cs vars)" for intent cs vars
    by (induction cs arbitrary: vars) (auto intro!: traced_rules keeps_recover_call)
  then show ?thesis
    unfolding recover_tool_batch_def
    by (auto intro!: traced_rules keeps_settle_contexts split: sum.split)
qed

end


subsection \<open>The invariant of a run\<close>

text \<open>
  \<open>D\<close> says whether the model keeps the ids of a response's calls apart: the claims on tool
  groups rest on it, those on sizes, steps and endings do not.
\<close>

definition request_fits :: "'v serde \<Rightarrow> harness_config \<Rightarrow> 'v model_request \<Rightarrow> bool" where
  "request_fits js c r \<longleftrightarrow>
    context_bytes_for js (rq_system_prompt r) (rq_messages r) (rq_tools r) \<le> hc_max_context_bytes c"

definition step_ok :: "harness_config \<Rightarrow> nat \<Rightarrow> bool" where
  "step_ok c step \<longleftrightarrow> 0 < step \<and> (hc_max_steps c = 0 \<or> step \<le> hc_max_steps c)"

definition effect_ok :: "bool \<Rightarrow> 'v serde \<Rightarrow> harness_config \<Rightarrow> 'v effect \<Rightarrow> bool" where
  "effect_ok D js c e = (case e of
     E_Model r \<Rightarrow> request_fits js c r \<and> (D \<longrightarrow> complete_groups (rq_messages r))
   | E_Journal (J_Checkpoint cp) \<Rightarrow> D \<longrightarrow> complete_groups (ecp_messages cp)
   | E_Observe (ModelStarted step bytes hash tools) \<Rightarrow> step_ok c step
   | E_Observe (RunFinished reason steps) \<Rightarrow> False
   | E_Observe (TurnStarted mode prompt) \<Rightarrow> False
   | E_Observe (TurnFinished status) \<Rightarrow> False
   | _ \<Rightarrow> True)"

interpretation run_log: batch_log "effect_ok D js c" for D js c
  by unfold_locales (auto simp: batch_effect_def effect_ok_def split: effect.splits event.splits
      execution_journal_entry.splits)

definition owes :: "bool \<Rightarrow> string set \<Rightarrow> ('w, 'v) runtime \<Rightarrow> bool" where
  "owes D P s \<longleftrightarrow> (D \<longrightarrow> owed (st_messages (rt_session s)) = Some P)"

definition within_limit ::
  "'v serde \<Rightarrow> harness_config \<Rightarrow> 'v tool_spec list \<Rightarrow> ('w, 'v) runtime \<Rightarrow> bool" where
  "within_limit js c specs s \<longleftrightarrow> context_bytes js (hc_system_prompt c) specs (rt_session s) \<le> hc_max_context_bytes c"

definition ended :: "bool \<Rightarrow> 'v serde \<Rightarrow> harness_config \<Rightarrow> 'v run_outcome \<Rightarrow> ('w, 'v) runtime \<Rightarrow> bool" where
  "ended D js c out s \<longleftrightarrow>
    (\<exists>log. rt_trace s = log @ [E_Observe (RunFinished (ro_stop_reason out) (ro_steps out))]
       \<and> list_all (effect_ok D js c) log \<and> ro_messages out = st_messages (rt_session s))"

definition ok ::
  "bool \<Rightarrow> 'v serde \<Rightarrow> harness_config \<Rightarrow> ('a \<Rightarrow> ('w, 'v) runtime \<Rightarrow> bool)
    \<Rightarrow> ('err, 'a) outcome \<Rightarrow> ('w, 'v) runtime \<Rightarrow> bool" where
  "ok D js c Q r s = (case r of
     Done x \<Rightarrow> Q x s | Raised e \<Rightarrow> traced (effect_ok D js c) s | Out_of_fuel \<Rightarrow> traced (effect_ok D js c) s)"

lemma ok_simps [simp]:
  "ok D js c Q (Done x) s = Q x s" "ok D js c Q (Raised e) s = traced (effect_ok D js c) s"
  "ok D js c Q Out_of_fuel s = traced (effect_ok D js c) s"
  by (simp_all add: ok_def)

lemma effect_ok_simps [simp]:
  "effect_ok D js c (E_Model r) \<longleftrightarrow> request_fits js c r \<and> (D \<longrightarrow> complete_groups (rq_messages r))"
  "effect_ok D js c (E_Journal (J_Checkpoint cp)) \<longleftrightarrow> (D \<longrightarrow> complete_groups (ecp_messages cp))"
  "effect_ok D js c (E_Journal (J_ToolBatchStarted bi))" "effect_ok D js c (E_Journal (J_ToolBatchSettled ti n))"
  "effect_ok D js c (E_Journal (J_NeedsReconciliation ti why))"
  "effect_ok D js c (E_Observe (ModelStarted step bytes hash tools)) \<longleftrightarrow> step_ok c step"
  "effect_ok D js c (E_Observe (AssistantReasoningDelta d))" "effect_ok D js c (E_Observe (AssistantTextDelta d))"
  "effect_ok D js c (E_Observe (ModelResponded re tx cs u tm cb sn))" "effect_ok D js c (E_Observe (RunStarted p))"
  "effect_ok D js c (E_Observe (ContextInjected rs))" "effect_ok D js c (E_Observe (RunFailed f))"
  "effect_ok D js c (E_Observe (ContextCompactionStarted n))"
  "effect_ok D js c (E_Observe (ContextCompactionFinished n m us))"
  by (simp_all add: effect_ok_def)

lemma owes_updates [simp]:
  "owes D P (s\<lparr>rt_world := w\<rparr>) = owes D P s" "owes D P (s\<lparr>rt_trace := t\<rparr>) = owes D P s"
  "owes D P (s\<lparr>rt_control := k\<rparr>) = owes D P s" "owes D P (s\<lparr>rt_pending := p\<rparr>) = owes D P s"
  by (simp_all add: owes_def)

lemma within_limit_updates [simp]:
  "within_limit js c specs (s\<lparr>rt_world := w\<rparr>) = within_limit js c specs s"
  "within_limit js c specs (s\<lparr>rt_trace := t\<rparr>) = within_limit js c specs s"
  "within_limit js c specs (s\<lparr>rt_control := k\<rparr>) = within_limit js c specs s"
  "within_limit js c specs (s\<lparr>rt_pending := p\<rparr>) = within_limit js c specs s"
  by (simp_all add: within_limit_def)

text \<open>Stepping over a routine whose result is already known.\<close>

lemma ok_bindA:
  assumes "wp m (ok D js c Q) s" and "\<And>x t. Q x t \<Longrightarrow> wp (f x) (ok D js c R) t"
  shows "wp (bindA m f) (ok D js c R) s"
  unfolding wp_bindA by (rule wp_conseq [OF assms(1)]) (auto simp: ok_def assms(2) split: outcome.splits)

lemma ok_seqA:
  assumes "wp m (ok D js c Q) s" and "\<And>t. Q () t \<Longrightarrow> wp n (ok D js c R) t"
  shows "wp (seqA m n) (ok D js c R) s"
  unfolding seqA_def by (rule ok_bindA [OF assms(1)]) (simp add: assms(2))

lemma ok_conseq:
  assumes "wp m (ok D js c Q) s" and "\<And>x t. Q x t \<Longrightarrow> R x t"
  shows "wp m (ok D js c R) s"
  by (rule wp_conseq [OF assms(1)]) (auto simp: ok_def assms(2) split: outcome.splits)

lemma ok_map_errA: "wp m (ok D js c Q) s \<Longrightarrow> wp (map_errA g m) (ok D js c Q) s"
  unfolding wp_map_errA by (erule wp_conseq) (auto simp: ok_def split: outcome.splits)

subsection \<open>Small steps\<close>

lemma wp_finish [wp_simps]:
  "wp (finish env t ms n reason) R s \<longleftrightarrow> R (Done \<lparr>ro_final_text = t, ro_messages = ms, ro_steps = n,
     ro_stop_reason = reason\<rparr>) (s\<lparr>rt_world := he_observe env (RunFinished reason n) (rt_world s),
     rt_trace := rt_trace s @ [E_Observe (RunFinished reason n)]\<rparr>)"
  by (simp add: finish_def wp_simps)

lemma wp_session_messages [wp_simps]:
  "wp session_messages R s \<longleftrightarrow> R (Done (st_messages (rt_session s))) s"
  by (simp add: session_messages_def wp_simps)

lemma ended_finish:
  "traced (effect_ok D js c) s \<Longrightarrow>
    ended D js c \<lparr>ro_final_text = t, ro_messages = st_messages (rt_session s), ro_steps = n, ro_stop_reason = reason\<rparr>
      (s\<lparr>rt_world := w, rt_trace := rt_trace s @ [E_Observe (RunFinished reason n)]\<rparr>)"
  by (simp add: ended_def traced_def)

lemma wp_finish_now: "traced (effect_ok D js c) s \<Longrightarrow> wp (finish_now env lv reason) (ok D js c (ended D js c)) s"
  by (simp add: finish_now_def wp_simps ended_finish)

lemma wp_fail_limit [wp_simps]:
  "wp (fail_limit env l) R s \<longleftrightarrow> R (Raised (HE_Limit l)) (s\<lparr>rt_world :=
     he_observe env (RunFailed (Failure_LimitExceeded l)) (rt_world s),
     rt_trace := rt_trace s @ [E_Observe (RunFailed (Failure_LimitExceeded l))]\<rparr>)"
  by (simp add: fail_limit_def wp_simps)

lemma wp_fail_compaction [wp_simps]:
  "wp (fail_compaction env t) R s \<longleftrightarrow> R (Raised (HE_Compaction t)) (s\<lparr>rt_world :=
     he_observe env (RunFailed Failure_Compaction) (rt_world s),
     rt_trace := rt_trace s @ [E_Observe (RunFailed Failure_Compaction)]\<rparr>)"
  by (simp add: fail_compaction_def wp_simps)

lemma wp_fail_model [wp_simps]:
  "wp (fail_model env e) R s \<longleftrightarrow> R (Raised (HE_Model e)) (s\<lparr>rt_world :=
     he_observe env (RunFailed Failure_Model) (rt_world s),
     rt_trace := rt_trace s @ [E_Observe (RunFailed Failure_Model)]\<rparr>)"
  by (simp add: fail_model_def wp_simps)

lemma wp_ensure_context_limit:
  "wp (ensure_context_limit env c specs) R s \<longleftrightarrow>
    (if within_limit (he_json env) c specs s then R (Done ()) s
     else R (Raised (limit ContextBytes (hc_max_context_bytes c)
       (context_bytes (he_json env) (hc_system_prompt c) specs (rt_session s)))) s)"
  by (simp add: ensure_context_limit_def context_limit_of_def within_limit_def liftA_def wp_simps Let_def)

lemma wp_prepare_context:
  "traced (effect_ok D js c) s \<Longrightarrow>
    wp (prepare_context env c' specs) (ok D js c (\<lambda>_ t. t = s \<and> within_limit (he_json env) c' specs s)) s"
  by (simp add: prepare_context_def wp_simps wp_ensure_context_limit)

lemma owes_push:
  "owes D {} s \<Longrightarrow> plain_message m \<Longrightarrow> owes D {} (s\<lparr>rt_session := push m (rt_session s)\<rparr>)"
  using complete_groups_snoc_plain [of "st_messages (rt_session s)" m]
  by (auto simp: owes_def push_def bump_revision_def complete_groups_def simp del: owed_snoc)


lemma plain_message_simps [simp]: "plain_message (User t)" "plain_message (Context t)"
  by (simp_all add: plain_message_def)

text \<open>Between two steps a run is settled: its log is fine and no call is unanswered.\<close>

definition settled :: "bool \<Rightarrow> 'v serde \<Rightarrow> harness_config \<Rightarrow> ('w, 'v) runtime \<Rightarrow> bool" where
  "settled D js c s \<longleftrightarrow> traced (effect_ok D js c) s \<and> owes D {} s"

lemma settledD: "settled D js c s \<Longrightarrow> traced (effect_ok D js c) s" "settled D js c s \<Longrightarrow> owes D {} s"
  by (simp_all add: settled_def)

lemma settled_updates [simp]:
  "settled D js c (s\<lparr>rt_world := w\<rparr>) = settled D js c s"
  "settled D js c (s\<lparr>rt_control := k\<rparr>) = settled D js c s"
  "settled D js c (s\<lparr>rt_pending := p\<rparr>) = settled D js c s"
  "settled D js c (s\<lparr>rt_trace := rt_trace s @ xs\<rparr>) \<longleftrightarrow> settled D js c s \<and> list_all (effect_ok D js c) xs"
  "settled D js c (s\<lparr>rt_world := w, rt_trace := rt_trace s @ xs\<rparr>)
    \<longleftrightarrow> settled D js c s \<and> list_all (effect_ok D js c) xs"
  by (auto simp: settled_def traced_def)

lemma settled_push:
  "settled D js c s \<Longrightarrow> plain_message m \<Longrightarrow> settled D js c (s\<lparr>rt_session := push m (rt_session s)\<rparr>)"
  by (simp add: settled_def owes_push)

lemma wp_on_control_settled:
  assumes "settled D js c s"
  shows "wp (on_control env f) (ok D js c (\<lambda>_ t. settled D js c t)) s"
  using assms by (simp add: wp_on_control split: prod.split)

lemma wp_take_steer_steps:
  assumes "settled D js c s"
  shows "wp (take_steer_steps env) (ok D js c (\<lambda>_ t. settled D js c t)) s"
  unfolding take_steer_steps_def using assms
  by (auto simp: wp_simps split: prod.split)

definition iterated ::
  "bool \<Rightarrow> 'v serde \<Rightarrow> harness_config \<Rightarrow> steering_mode \<Rightarrow> nat \<Rightarrow> 'v loop_action \<times> 'v loop_vars
    \<Rightarrow> ('w, 'v) runtime \<Rightarrow> bool" where
  "iterated D js c mode step x s \<longleftrightarrow> (case fst x of
     Finish out \<Rightarrow> ended D js c out s
   | Proceed \<Rightarrow> settled D js c s \<and> lv_step (snd x) = step
   | ContinueTurn \<Rightarrow> settled D js c s \<and> lv_step (snd x) = step \<and> mode = ContinueSameTurn)"

lemma wp_apply_steer:
  assumes "settled D js c s" and "mode = ContinueSameTurn"
  shows "wp (apply_steer env c' input lv) (ok D js c (iterated D js c mode (lv_step lv))) s"
  unfolding apply_steer_def append_user_input_def
  using assms by (auto simp: wp_simps iterated_def settledD settled_push)

lemma wp_control_action:
  assumes "settled D js c s"
  shows "wp (control_action env c' mode lv) (ok D js c (iterated D js c mode (lv_step lv))) s"
proof -
  have stop: "wp (bindA (finish_now env lv reason) (\<lambda>out. retA (Finish out, lv\<lparr>lv_final_text := []\<rparr>)))
      (ok D js c (iterated D js c mode (lv_step lv))) t" if "settled D js c t" for t reason
    using that by (simp add: finish_now_def wp_simps iterated_def settledD ended_finish)
  have rest: "wp (bindA (load_steer env) (\<lambda>steered. if steered
        then bindA (finish_now env lv Stop_Steered) (\<lambda>out. retA (Finish out, lv\<lparr>lv_final_text := []\<rparr>))
        else retA (Proceed, lv))) (ok D js c (iterated D js c mode (lv_step lv))) t" if "settled D js c t" for t
    unfolding load_steer_def
    by (rule ok_bindA [OF wp_on_control_settled [OF that]]) (auto simp: wp_retA iterated_def intro!: stop)
  have pending: "wp (if mode = ContinueSameTurn then take_steer_steps env else retA None)
      (ok D js c (\<lambda>x u. settled D js c u \<and> (x \<noteq> None \<longrightarrow> mode = ContinueSameTurn))) t"
    if "settled D js c t" for t
    using that by (auto simp: wp_retA intro!: ok_conseq [OF wp_take_steer_steps])
  show ?thesis
    unfolding control_action_def swap_cancel_def
  proof (rule ok_bindA [OF wp_on_control_settled [OF assms]], goal_cases)
    case (1 x t)
    show ?case
    proof (cases x)
      case True
      with stop [OF 1] show ?thesis by simp
    next
      case False
      show ?thesis
      proof (simp only: False if_False, rule ok_bindA [OF pending [OF 1]], goal_cases)
        case (1 x u)
        then show ?case using rest [of u] by (cases x) (auto intro: wp_apply_steer)
      qed
    qed
  qed
qed

subsection \<open>Compaction keeps what is owed\<close>

lemma owed_split_assistant:
  assumes "owed ms = Some P" and "i < length ms" and "is_assistant (ms ! i)"
  shows "complete_groups (take i ms)" and "owed (drop i ms) = Some P"
proof -
  have ms: "ms = take i ms @ ms ! i # drop (Suc i) ms" using assms(2) by (rule id_take_nth_drop)
  obtain r t calls where a: "ms ! i = Assistant r t calls"
    using assms(3) by (auto simp: is_assistant_def split: message.splits)
  have "foldl owed_step (owed_step (owed (take i ms)) (ms ! i)) (drop (Suc i) ms) = Some P"
    using assms(1) ms by (metis owed_def foldl_append foldl_Cons)
  then obtain Q where "owed_step (owed (take i ms)) (ms ! i) = Some Q"
    by (cases "owed_step (owed (take i ms)) (ms ! i)") auto
  then show *: "complete_groups (take i ms)"
    by (auto simp: a owed_step_def complete_groups_def split: option.splits if_splits)
  then have "owed (take i ms @ drop i ms) = owed (drop i ms)"
    by (simp only: owed_append complete_groups_def)
  with assms(1) show "owed (drop i ms) = Some P" by simp
qed

lemma owed_no_assistant:
  "list_all (\<lambda>m. \<not> is_assistant m) ms \<Longrightarrow> owed ms = Some P \<Longrightarrow> P = {}"
proof (induction ms arbitrary: P rule: rev_induct)
  case (snoc m ms)
  then obtain Q where "owed ms = Some Q" by (cases "owed ms") auto
  with snoc show ?case
    by (auto simp: owed_step_def is_assistant_def split: message.splits if_splits)
qed simp

lemma split_prefix_tail_owed:
  assumes "split_prefix_tail js ms = (before, tail)" and "owed ms = Some P"
  shows "complete_groups before \<and> owed tail = Some P"
proof (cases "assistant_starts ms = []")
  case True
  with assms(1) have "before = ms" "tail = []" by (simp_all add: split_prefix_tail_def)
  moreover have "P = {}"
    using split_prefix_tail_props(5) [OF assms(1)] \<open>tail = []\<close> assms(2) owed_no_assistant by blast
  ultimately show ?thesis using assms(2) by (simp add: complete_groups_def)
next
  case False
  let ?s = "assistant_starts ms"
  let ?k = "?s ! (length ?s - min (length ?s) compact_tail_groups)"
  let ?n = "shrink_tail js ms ?k"
  have "length ?s - min (length ?s) compact_tail_groups < length ?s"
    using False by (simp add: compact_tail_groups_def)
  then have "?k < length ms \<and> is_assistant (ms ! ?k)" by (rule assistant_starts_nth)
  then have "?n < length ms" "is_assistant (ms ! ?n)" using shrink_tail_props by blast+
  moreover have "before = take ?n ms" "tail = drop ?n ms"
    using assms(1) False by (simp_all add: split_prefix_tail_def Let_def)
  ultimately show ?thesis using owed_split_assistant [OF assms(2)] by simp
qed

lemma split_compaction_parts_owed:
  assumes "split_compaction_parts js ms = (before, contexts, tail)" and "owed ms = Some P"
  shows "complete_groups before" and "complete_groups contexts" and "owed tail = Some P"
proof -
  obtain without c where l: "take_latest_contexts ms = (without, c)"
    by (cases "take_latest_contexts ms") auto
  then have w: "without = filter (\<lambda>m. \<not> carried_context m) ms"
    using take_latest_parts(1) [of ms] by simp
  have s: "split_prefix_tail js without = (before, tail)"
    using assms(1) l by (auto simp: split_compaction_parts_def split: prod.splits)
  show "complete_groups before" "owed tail = Some P"
    using split_prefix_tail_owed [OF s] owed_filter_contexts [OF assms(2)] w by simp_all
  show "complete_groups contexts"
    using split_compaction_parts_props(2) [OF assms(1)] plain_carried
    by (intro complete_groups_plain) (auto simp: list_all_iff)
qed


lemma owed_assemble:
  assumes "complete_groups contexts" and "owed tail = Some P"
  shows "owed (assemble_compacted summary contexts tail n) = Some P"
proof -
  have c: "owed (contexts @ tail) = Some P"
    using assms by (simp add: owed_append complete_groups_def)
  have "owed [User t] = Some {}" for t by (simp add: owed_def owed_step_simps)
  then have "owed ([User t] @ contexts @ tail) = Some P" for t
    using c owed_append by metis
  with c show ?thesis by (auto simp: assemble_compacted_def split: option.split)
qed

lemma owed_mechanical:
  assumes "complete_groups before" and "complete_groups contexts" and "owed tail = Some P"
  shows "owed (mechanical_compact js before contexts tail target sys specs n) = Some P"
proof -
  obtain kept where k: "mechanical_compact js before contexts tail target sys specs n = kept @ contexts @ tail"
      "complete_groups before \<longrightarrow> complete_groups kept"
    using mechanical_compact_props [of js before contexts tail target sys specs n] by blast
  have "owed (contexts @ tail) = Some P" using assms by (simp add: owed_append complete_groups_def)
  with k assms(1) show ?thesis by (simp add: owed_append complete_groups_def)
qed

lemma owed_summary_or_mechanical:
  assumes "complete_groups before" and "complete_groups contexts" and "owed tail = Some P"
    and "summary_or_mechanical js c specs before contexts tail n target must response = (how, compacted)"
  shows "owed compacted = Some P" and "how \<noteq> Method_Exact"
  using assms owed_mechanical [OF assms(1-3)] owed_assemble [OF assms(2,3)]
  by (auto simp: summary_or_mechanical_def accepted_summary_def Let_def split: option.splits if_splits)

text \<open>
  What a compaction leaves: the same calls are owed; without a result the session is as it was,
  with one it is smaller and within the limit.
\<close>

definition shrunk ::
  "bool \<Rightarrow> 'v serde \<Rightarrow> harness_config \<Rightarrow> 'v tool_spec list \<Rightarrow> string set \<Rightarrow> ('w, 'v) runtime
    \<Rightarrow> fork_compaction_method \<Rightarrow> ('w, 'v) runtime \<Rightarrow> bool" where
  "shrunk D js c specs P s how t \<longleftrightarrow> traced (effect_ok D js c) t \<and> owes D P t
    \<and> (if how = Method_Exact then rt_session t = rt_session s
       else within_limit js c specs t
         \<and> context_bytes js (hc_system_prompt c) specs (rt_session t)
           < context_bytes js (hc_system_prompt c) specs (rt_session s))"

lemma wp_finish_compacted:
  assumes "traced (effect_ok D (he_json env) c) s" and "D \<longrightarrow> owed compacted = Some P"
    and "n = context_bytes (he_json env) (hc_system_prompt c) specs (rt_session s0)" and "how \<noteq> Method_Exact"
  shows "wp (seqA (finish_compacted env c compacted n usage specs) (retA how))
    (ok D (he_json env) c (shrunk D (he_json env) c specs P s0)) s"
  using assms
  by (auto simp: finish_compacted_def Let_def wp_simps shrunk_def owes_def within_limit_def context_bytes_def
      replace_messages_def bump_revision_def)

lemma compaction_request_ok:
  assumes "D \<longrightarrow> complete_groups before"
    and "fitted = trim_prefix_to_fit js prompt (hc_system_prompt (hn_config h)) [] (hc_max_context_bytes (hn_config h)) before"
    and "fitted \<noteq> []"
  shows "effect_ok D js (hn_config h) (E_Model (model_request_of h (fitted @ [User prompt]) []))"
    and "D \<longrightarrow> complete_groups fitted"
proof -
  note props = trim_prefix_props [of before js prompt "hc_system_prompt (hn_config h)" "[]"
      "hc_max_context_bytes (hn_config h)"]
  show groups: "D \<longrightarrow> complete_groups fitted" using props assms(1,2) by blast
  then have "D \<longrightarrow> complete_groups (fitted @ [User prompt])" by (auto intro: complete_groups_snoc_plain)
  then show "effect_ok D js (hn_config h) (E_Model (model_request_of h (fitted @ [User prompt]) []))"
    using props assms(2,3) by (auto simp: model_request_of_def request_fits_def)
qed

lemma traced_log [simp]:
  "traced P (s\<lparr>rt_world := w, rt_trace := rt_trace s @ xs\<rparr>) \<longleftrightarrow> traced P s \<and> list_all P xs"
  by (simp add: traced_def)

lemma wp_compact_parts:
  fixes h :: "('w, 'v, 'e) harness"
  assumes clean: "traced (effect_ok D (he_json env) (hn_config h)) s"
    and parts: "D \<longrightarrow> complete_groups before \<and> complete_groups contexts \<and> owed tail = Some P"
    and n: "n = context_bytes (he_json env) (hc_system_prompt (hn_config h)) specs (rt_session s)"
  shows "wp (compact_parts k env h specs target must n before contexts tail)
    (ok D (he_json env) (hn_config h) (shrunk D (he_json env) (hn_config h) specs P s)) s"
proof -
  let ?js = "he_json env" and ?c = "hn_config h"
  let ?prompt = "bounded_compaction_prompt (hc_max_user_input_bytes ?c)"
  let ?fitted = "trim_prefix_to_fit ?js ?prompt (hc_system_prompt ?c) [] (hc_max_context_bytes ?c) before"
  let ?request = "model_request_of h (?fitted @ [User ?prompt]) []"
  let ?ok = "ok D ?js ?c (shrunk D ?js ?c specs P s)"
  note request = compaction_request_ok [OF _ refl, where D = D and js = ?js and h = h and prompt = ?prompt and before = before]
  have empty: "wp (seqA (finish_compacted env ?c (assemble_compacted None contexts tail (hc_max_user_input_bytes ?c))
      n None specs) (retA Method_Mechanical)) ?ok t" if "traced (effect_ok D ?js ?c) t" for t
    by (rule wp_finish_compacted [OF that _ n]) (use parts owed_assemble in auto)
  have answered: "wp (let response = response_of result in
      case summary_or_mechanical ?js ?c specs ?fitted contexts tail n target must response of
        (how, compacted) \<Rightarrow> seqA (finish_compacted env ?c compacted n (Option.bind response mr_usage) specs)
          (retA how)) ?ok t"
    if t: "traced (effect_ok D ?js ?c) t" and f: "?fitted \<noteq> []" for t and result :: "'e + 'v model_response"
  proof (cases "summary_or_mechanical ?js ?c specs ?fitted contexts tail n target must (response_of result)")
    case (Pair how compacted)
    have "D \<longrightarrow> owed compacted = Some P"
      using owed_summary_or_mechanical(1) [OF _ _ _ Pair] parts request(2) f by blast
    moreover have "how \<noteq> Method_Exact"
      using Pair by (auto simp: summary_or_mechanical_def split: option.splits)
    ultimately show ?thesis
      by (simp add: Pair Let_def wp_finish_compacted [OF t _ n])
  qed
  have asked: "wp (bindA (respond_silently k (hn_model h) ?request) (\<lambda>result.
      let response = response_of result in
      case summary_or_mechanical ?js ?c specs ?fitted contexts tail n target must response of
        (how, compacted) \<Rightarrow> seqA (finish_compacted env ?c compacted n (Option.bind response mr_usage) specs)
          (retA how))) ?ok t"
    if t: "traced (effect_ok D ?js ?c) t" and f: "?fitted \<noteq> []" for t
  proof (rule ok_bindA [where Q = "\<lambda>_ u. traced (effect_ok D ?js ?c) u"])
    show "wp (respond_silently k (hn_model h) ?request) (ok D ?js ?c (\<lambda>_ u. traced (effect_ok D ?js ?c) u)) t"
      by (rule wp_conseq [OF wp_respond_silently]) (use t in \<open>auto simp: ok_def split: outcome.split\<close>)
  qed (rule answered [OF _ f])
  show ?thesis
    unfolding compact_parts_def Let_def
  proof (rule ok_seqA [where Q = "\<lambda>_. traced (effect_ok D ?js ?c)"], goal_cases)
    case 1
    show ?case using clean by (simp add: wp_observe)
  next
    case (2 t)
    show ?case
    proof (cases "?fitted = []")
      case True
      show ?thesis using empty [OF 2] by (simp only: if_P [OF True])
    next
      case False
      have sent: "wp (send_request ?request) (ok D ?js ?c (\<lambda>_. traced (effect_ok D ?js ?c))) t"
        using 2 request(1) parts False by (auto simp: wp_send_request)
      show ?thesis
        by (simp only: if_not_P [OF False], rule ok_seqA [OF sent asked [unfolded Let_def, OF _ False]])
    qed
  qed
qed

lemma wp_compact_context_to:
  assumes "traced (effect_ok D (he_json env) (hn_config h)) s" and "owes D P s"
  shows "wp (compact_context_to k env h specs target must)
    (ok D (he_json env) (hn_config h) (shrunk D (he_json env) (hn_config h) specs P s)) s"
proof -
  obtain before contexts tail
    where split: "split_compaction_parts (he_json env) (st_messages (rt_session s)) = (before, contexts, tail)"
    using prod_cases3 by blast
  have parts: "D \<longrightarrow> complete_groups before \<and> complete_groups contexts \<and> owed tail = Some P"
    using split_compaction_parts_owed [OF split] assms(2) by (auto simp: owes_def)
  show ?thesis
    unfolding compact_context_to_def wp_bindA wp_session_messages
    using wp_compact_parts [OF assms(1) parts] assms
    by (simp add: split wp_retA shrunk_def context_bytes_def)
qed

lemma wp_compact_reducing:
  assumes "traced (effect_ok D (he_json env) (hn_config h)) s" and "owes D P s"
  shows "wp (compact_context_with_reduction_target k env h specs)
    (ok D (he_json env) (hn_config h) (\<lambda>reduced t. traced (effect_ok D (he_json env) (hn_config h)) t \<and> owes D P t
       \<and> (reduced \<longrightarrow> within_limit (he_json env) (hn_config h) specs t))) s"
  unfolding compact_context_with_reduction_target_def run_context_bytes_def wp_bindA wp_getA outcome.case
  by (rule wp_conseq [OF wp_compact_context_to [OF assms]])
    (auto simp: wp_simps ok_def shrunk_def split: outcome.splits if_splits)


subsection \<open>A model round\<close>

text \<open>The ids of the calls of every response are distinct.\<close>

definition distinct_call_ids :: "('w, 'v, 'e) model \<Rightarrow> bool" where
  "distinct_call_ids m \<longleftrightarrow>
    (\<forall>request w events response. fst (md_poll m request w) = (events, Some (Inr response))
       \<longrightarrow> distinct (map tc_id (mr_tool_calls response)))"

lemma settled_outside:
  assumes "outside_only s t" and "settled D js c s"
    and "\<And>ext. rt_trace t = rt_trace s @ ext \<Longrightarrow> list_all (effect_ok D js c) ext"
  shows "settled D js c t"
  using assms by (auto simp: outside_only_def settled_def owes_def traced_def)

lemma keeps_forward_events: "keeps (traced (effect_ok D js c)) (forward_events env fw evs)"
proof (induction evs arbitrary: fw)
  case (Cons ev evs)
  have "effect_ok D js c (E_Observe (model_event_event e))" for e
    by (cases e) (simp_all add: model_event_event_def)
  then have "keeps (traced (effect_ok D js c)) (forward_event env fw ev)" for fw
    unfolding forward_event_def Let_def by (auto intro!: traced_rules)
  then show ?case by (auto intro!: traced_rules Cons.IH)
qed (auto intro: traced_rules)

lemma keeps_respond_until_cancelled:
  "keeps (traced (effect_ok D js c)) (respond_until_cancelled n env m request fw)"
proof (induction n arbitrary: fw)
  case (Suc n)
  have "keeps (traced (effect_ok D js c)) (poll_model m request)"
    unfolding poll_model_def by (rule keeps_stepA) (simp split: prod.split)
  then show ?case
    unfolding respond_until_cancelled.simps load_cancel_def
    by (auto intro!: traced_rules keeps_forward_events Suc.IH)
qed (auto intro: traced_rules)

lemma wp_respond_ids:
  assumes "D \<longrightarrow> distinct_call_ids m"
  shows "wp (respond_until_cancelled n env m request fw) (\<lambda>r t. \<forall>response fw'.
    r = Done (Inr (Inr response), fw') \<longrightarrow> D \<longrightarrow> distinct (map tc_id (mr_tool_calls response))) s"
proof (induction n arbitrary: fw s)
  case (Suc n)
  have ids: "fst (md_poll m request w) = (events, Some (Inr response)) \<Longrightarrow> D \<Longrightarrow>
      distinct (map tc_id (mr_tool_calls response))" for w events response
    using assms by (auto simp: distinct_call_ids_def)
  have fwd: "wp (forward_events env fw evs) (\<lambda>r s'. \<exists>fw'. r = Done fw') t" for fw evs t
    by (rule wp_conseq [OF wp_forward_events]) blast
  show ?case
    unfolding respond_until_cancelled.simps load_cancel_def
    by (auto simp: wp_simps intro!: wp_conseq [OF fwd] wp_conseq [OF Suc.IH] intro: ids
        split: prod.split option.split)
qed (simp add: wp_simps)

definition answered_ok :: "bool \<Rightarrow> ('e + 'v answered_model) option \<Rightarrow> bool" where
  "answered_ok D r \<longleftrightarrow> (\<forall>response t snapshot. r = Some (Inr (response, t, snapshot)) \<longrightarrow> D \<longrightarrow>
     distinct (map tc_id (mr_tool_calls response)))"

lemma wp_respond_settled:
  assumes "settled D js c s" and "D \<longrightarrow> distinct_call_ids m"
  shows "wp (respond_until_cancelled k env m request fw) (ok D js c (\<lambda>x t. settled D js c t \<and>
    (\<forall>response. fst x = Inr (Inr response) \<longrightarrow> D \<longrightarrow> distinct (map tc_id (mr_tool_calls response))))) s"
proof (rule wp_conseq [OF wp_conj [OF wp_conj [OF wp_respond_until_cancelled
        wp_keeps [OF keeps_respond_until_cancelled settledD(1) [OF assms(1)]]] wp_respond_ids [OF assms(2)]]], goal_cases)
  case (1 r t)
  then have "owes D {} t" using settledD(2) [OF assms(1)] by (simp add: outside_only_def owes_def)
  with 1 have "settled D js c t" by (simp add: settled_def)
  with 1 show ?case by (auto simp: ok_def split: outcome.split)
qed

lemma wp_request_once:
  assumes "settled D (he_json env) (hn_config h) s" and "within_limit (he_json env) (hn_config h) specs s"
    and "D \<longrightarrow> distinct_call_ids (hn_model h)" and "step_ok (hn_config h) step"
  shows "wp (request_once k env h specs step) (ok D (he_json env) (hn_config h)
    (\<lambda>x t. settled D (he_json env) (hn_config h) t \<and> answered_ok D x)) s"
proof -
  let ?js = "he_json env" and ?c = "hn_config h"
  have request: "effect_ok D ?js ?c (E_Model (model_request_of h (st_messages (rt_session s)) specs))"
    using assms(1,2)
    by (simp add: model_request_of_def request_fits_def within_limit_def context_bytes_def settled_def owes_def
        complete_groups_def)
  have finish: "wp (case result of
       Inl _ \<Rightarrow> retA None
     | Inr (Inl e) \<Rightarrow> retA (Some (Inl e))
     | Inr (Inr response) \<Rightarrow> bindA (getA (\<lambda>s. timing fw' (he_clock env (rt_world s)))) (\<lambda>t.
           retA (Some (Inr (response, t, snapshot)))))
      (ok D ?js ?c (\<lambda>x t. settled D ?js ?c t \<and> answered_ok D x)) t"
    if "settled D ?js ?c t"
      "\<forall>response. result = Inr (Inr response) \<longrightarrow> D \<longrightarrow> distinct (map tc_id (mr_tool_calls response))"
    for result fw' t snapshot
    using that by (auto simp: wp_simps answered_ok_def split: sum.split)
  show ?thesis
    unfolding request_once_def wp_bindA wp_seqA wp_getA wp_observe wp_session_messages wp_send_request outcome.case Let_def
  proof (rule wp_conseq [OF wp_respond_settled [where js = ?js and c = ?c, OF _ assms(3)]], goal_cases)
    case 1
    show ?case using assms(1,4) request by (simp add: model_started_def Let_def)
  next
    case (2 r t)
    show ?case
    proof (cases r)
      case (Done x)
      obtain result fw' where x: "x = (result, fw')" by (cases x) auto
      show ?thesis
        unfolding Done x outcome.case prod.case by (rule finish) (use 2 Done x in simp_all)
    qed (use 2 in simp_all)
  qed
qed


lemma wp_journal_entry:
  assumes "traced (effect_ok D js c) s" and "effect_ok D js c (E_Journal entry)"
  shows "wp (journal_entry env entry)
    (ok D js c (\<lambda>_ t. traced (effect_ok D js c) t \<and> rt_session t = rt_session s)) s"
  unfolding journal_entry_def
proof (rule ok_map_errA, rule wp_append_if_presentI)
  show "ok D js c (\<lambda>_ t. traced (effect_ok D js c) t \<and> rt_session t = rt_session s) (Done ())
      (s\<lparr>rt_world := w, rt_trace := rt_trace s @ journaled env entry\<rparr>)" for w
    using assms by (simp add: journaled_def split: option.split)
qed (use assms in simp)

lemma wp_write_checkpoint:
  assumes "settled D js c s"
  shows "wp (write_checkpoint env execution n t)
    (ok D js c (\<lambda>_ u. settled D js c u \<and> rt_session u = rt_session s)) s"
proof (cases execution)
  case None
  then show ?thesis using assms by (simp add: write_checkpoint_def wp_simps)
next
  case (Some x)
  show ?thesis
    unfolding write_checkpoint_def Some option.case wp_bindA wp_session_messages outcome.case
    by (rule ok_conseq [OF wp_journal_entry])
      (use assms in \<open>auto simp: settled_def owes_def complete_groups_def\<close>)
qed

definition rounded ::
  "bool \<Rightarrow> 'v serde \<Rightarrow> harness_config \<Rightarrow> 'v run_outcome + 'v answered_model \<Rightarrow> ('w, 'v) runtime \<Rightarrow> bool" where
  "rounded D js c x s \<longleftrightarrow> (case x of
     Inl out \<Rightarrow> ended D js c out s
   | Inr answer \<Rightarrow> settled D js c s \<and> (D \<longrightarrow> distinct (map tc_id (mr_tool_calls (fst answer)))))"

lemma wp_cancelled_round:
  assumes "settled D js c s"
  shows "wp (bindA (swap_cancel env) (\<lambda>_. bindA (finish_now env lv reason) (\<lambda>out. retA (Inl out))))
    (ok D js c (rounded D js c)) s"
  unfolding swap_cancel_def
  by (rule ok_bindA [OF wp_on_control_settled [OF assms]])
    (simp add: finish_now_def wp_simps rounded_def settledD ended_finish)

lemma wp_model_round:
  fixes h :: "('w, 'v, 'e) harness"
  assumes "settled D (he_json env) (hn_config h) s" and "within_limit (he_json env) (hn_config h) specs s"
    and ids: "D \<longrightarrow> distinct_call_ids (hn_model h)" and step: "step_ok (hn_config h) (lv_step lv)"
  shows "wp (model_round left k env h specs lv) (ok D (he_json env) (hn_config h)
    (rounded D (he_json env) (hn_config h))) s"
  using assms(1,2)
proof (induction left arbitrary: s)
  case 0
  let ?js = "he_json env" and ?c = "hn_config h"
  show ?case
  proof (subst model_round.simps, rule ok_bindA [OF wp_request_once [OF 0 ids step]], goal_cases)
    case (1 x t)
    then show ?case
      by (auto simp: wp_simps rounded_def answered_ok_def settledD intro: wp_cancelled_round
          simp del: wp_bindA split: option.split sum.split)
        (auto simp: wp_simps rounded_def settledD)
  qed
next
  case (Suc left)
  let ?js = "he_json env" and ?c = "hn_config h"
  have again: "wp (bindA (compact_context_with_reduction_target k env h specs) (\<lambda>reduced.
      if reduced
      then seqA (write_checkpoint env (lv_execution lv) (lv_step lv) (lv_final_text lv))
             (model_round left k env h specs lv)
      else fail_model env e)) (ok D ?js ?c (rounded D ?js ?c)) t"
    if t: "settled D ?js ?c t" for t e
  proof (rule ok_bindA [OF wp_compact_reducing [OF settledD [OF t]]], goal_cases)
    case (1 reduced u)
    then have u: "settled D ?js ?c u" by (simp add: settled_def)
    show ?case
    proof (cases reduced)
      case True
      show ?thesis
        unfolding if_P [OF True]
        by (rule ok_seqA [OF wp_write_checkpoint [OF u]])
          (use 1 True in \<open>auto intro!: Suc.IH simp: within_limit_def\<close>)
    qed (use 1 in \<open>simp add: wp_simps\<close>)
  qed
  show ?case
  proof (subst model_round.simps, rule ok_bindA [OF wp_request_once [OF Suc.prems ids step]], goal_cases)
    case (1 x t)
    then have t: "settled D ?js ?c t" by simp
    show ?case
    proof (cases x)
      case None
      then show ?thesis using wp_cancelled_round [OF t] by simp
    next
      case (Some r)
      show ?thesis
      proof (cases r)
        case (Inl e)
        show ?thesis
          using t again [OF t] by (auto simp: Some Inl wp_bindA [of "getA _"] wp_getA wp_fail_model settledD)
      next
        case (Inr answer)
        then show ?thesis using 1 Some by (cases answer) (auto simp: wp_retA rounded_def answered_ok_def)
      qed
    qed
  qed
qed


subsection \<open>One iteration\<close>

text \<open>Around again: the log is fine, nothing is owed and the step is the given one.\<close>

definition around ::
  "bool \<Rightarrow> 'v serde \<Rightarrow> harness_config \<Rightarrow> nat \<Rightarrow> 'v iteration \<Rightarrow> ('w, 'v) runtime \<Rightarrow> bool" where
  "around D js c step x s \<longleftrightarrow> (case x of
     Inl out \<Rightarrow> ended D js c out s | Inr lv \<Rightarrow> settled D js c s \<and> lv_step lv = step)"

lemma wp_at_control_point:
  assumes "settled D js c s"
    and "\<And>lv' t. settled D js c t \<Longrightarrow> lv_step lv' = lv_step lv \<Longrightarrow>
      wp (continue_with lv') (ok D js c R) t"
    and "\<And>lv' t. settled D js c t \<Longrightarrow> lv_step lv' = lv_step lv \<Longrightarrow> mode = ContinueSameTurn \<Longrightarrow> R (Inr lv') t"
    and "\<And>out t. ended D js c out t \<Longrightarrow> R (Inl out) t"
  shows "wp (at_control_point env c' mode lv continue_with) (ok D js c R) s"
  unfolding at_control_point_def
proof (rule ok_bindA [OF wp_control_action [OF assms(1)]], goal_cases)
  case (1 x t)
  obtain action lv' where x: "x = (action, lv')" by (cases x) auto
  show ?case
    using 1 assms(2-4) unfolding x by (cases action) (auto simp: iterated_def wp_retA)
qed

lemma wp_take_response:
  assumes "settled D (he_json env) (hn_config h) s"
  shows "wp (take_response k env h specs (response, t, snapshot)) (ok D (he_json env) (hn_config h)
    (\<lambda>_ u. traced (effect_ok D (he_json env) (hn_config h)) u
       \<and> owes D (set (map tc_id (mr_tool_calls response))) u)) s"
proof -
  let ?js = "he_json env" and ?c = "hn_config h"
  let ?post = "ok D ?js ?c (\<lambda>_ u. traced (effect_ok D ?js ?c) u \<and> owes D (set (map tc_id (mr_tool_calls response))) u)"
  let ?message = "Assistant (mr_reasoning response) (mr_text response) (mr_tool_calls response)"
  let ?pushed = "\<lambda>u. u\<lparr>rt_session := push ?message (rt_session u)\<rparr>"
  have checked: "wp (check_response env ?c response) (ok D ?js ?c (\<lambda>_ u. settled D ?js ?c u)) s"
    using assms by (auto simp: check_response_def Let_def wp_simps settledD)
  have compacted: "wp (if compacts_after ?c response snapshot
      then bindA (compact_context_with_reduction_target k env h specs) (\<lambda>_. retA ()) else retA ()) ?post u"
    if u: "traced (effect_ok D ?js ?c) u" "owes D (set (map tc_id (mr_tool_calls response))) u" for u
    using u by (auto simp: wp_retA intro!: ok_bindA [OF wp_compact_reducing [OF u]])
  have push: "traced (effect_ok D ?js ?c) (?pushed u)" "owes D (set (map tc_id (mr_tool_calls response))) (?pushed u)"
    if "settled D ?js ?c u" for u
    using that by (simp_all add: settled_def owes_def push_def bump_revision_def owed_step_simps)
  show ?thesis
    unfolding take_response_def prod.case
  proof (rule ok_seqA [OF checked], goal_cases)
    case (1 u)
    then show ?case
      unfolding wp_bindA wp_session_messages outcome.case wp_seqA wp_observe wp_mod_session
      by (intro compacted push) simp_all
  qed
qed


lemma wp_batch_settled:
  assumes "traced (effect_ok D js c) s" and "owes D (set (map tc_id calls)) s" and "D \<longrightarrow> distinct (map tc_id calls)"
  shows "wp (execute_tool_batch env router calls opts) (ok D js c (\<lambda>_ t. settled D js c t)) s"
proof -
  have clean: "wp (execute_tool_batch env router calls opts) (\<lambda>r t. traced (effect_ok D js c) t) s"
    by (rule wp_keeps [OF run_log.keeps_execute_tool_batch assms(1)])
  show ?thesis
  proof (cases D)
    case True
    then have "distinct (map tc_id calls)" "owed (st_messages (rt_session s)) = Some (set (map tc_id calls))"
      using assms(2,3) by (simp_all add: owes_def)
    from wp_conj [OF clean wp_execute_tool_batch [OF this]] show ?thesis
      by (rule wp_conseq) (auto simp: ok_def settled_def owes_def complete_groups_def split: outcome.splits)
  next
    case False
    from clean show ?thesis
      by (rule wp_conseq) (auto simp: ok_def settled_def owes_def False split: outcome.splits)
  qed
qed

lemma wp_settle_batch:
  assumes "settled D js c s"
  shows "wp (settle_batch env execution step t) (ok D js c (\<lambda>_ u. settled D js c u)) s"
proof (cases execution)
  case None
  then show ?thesis using assms by (simp add: settle_batch_def wp_retA)
next
  case (Some x)
  show ?thesis
    unfolding settle_batch_def Some option.case
  proof (rule ok_seqA [OF wp_journal_entry [OF settledD(1) [OF assms]]], goal_cases)
    case (2 u)
    then have "settled D js c u" using assms by (simp add: settled_def owes_def)
    then show ?case by (rule ok_conseq [OF wp_write_checkpoint]) simp
  qed simp
qed

lemma wp_warn_of_loop:
  assumes "settled D js c s"
  shows "wp (warn_of_loop c' lv) (ok D js c (\<lambda>_ u. settled D js c u)) s"
  using assms by (auto simp: warn_of_loop_def append_context_def wp_simps settled_push)

lemma wp_run_batch:
  assumes "traced (effect_ok D js c) s" and "owes D (set (map tc_id (mr_tool_calls response))) s"
    and "D \<longrightarrow> distinct (map tc_id (mr_tool_calls response))"
  shows "wp (run_batch env h opts response lv)
    (ok D js c (\<lambda>lv' t. settled D js c t \<and> lv_step lv' = lv_step lv)) s"
proof -
  let ?calls = "mr_tool_calls response"
  have started: "wp (case lv_execution lv of None \<Rightarrow> retA ()
      | Some x \<Rightarrow> journal_entry env (J_ToolBatchStarted (intent x)))
    (ok D js c (\<lambda>_ t. traced (effect_ok D js c) t \<and> owes D (set (map tc_id ?calls)) t)) s" for intent
    using assms(1,2)
    by (auto simp: wp_retA owes_def intro!: ok_conseq [OF wp_journal_entry] split: option.split)
  have step: "lv_step (count_duplicates executed lv) = lv_step lv" for executed
    by (simp add: count_duplicates_def)
  have after: "wp (seqA (settle_batch env (lv_execution lv) (lv_step lv) (lv_final_text lv))
      (let lv' = count_duplicates executed lv in seqA (warn_of_loop (hn_config h) lv') (retA lv')))
      (ok D js c (\<lambda>lv' t. settled D js c t \<and> lv_step lv' = lv_step lv)) u"
    if "settled D js c u" for u executed
    unfolding Let_def
    by (rule ok_seqA [OF wp_settle_batch [OF that]], rule ok_seqA [OF wp_warn_of_loop])
      (auto simp: wp_retA step)
  have run: "wp (map_errA HE_ExecutionJournal (execute_tool_batch env (hn_tools h) ?calls bo))
      (ok D js c (\<lambda>_ t. settled D js c t)) u"
    if "traced (effect_ok D js c) u" "owes D (set (map tc_id ?calls)) u" for u bo
    by (rule ok_map_errA [OF wp_batch_settled [OF that assms(3)]])
  show ?thesis
    unfolding run_batch_def
    by (rule ok_seqA [OF started], rule ok_bindA [OF run]) (auto intro: after)
qed

lemma wp_after_response:
  fixes h :: "('w, 'v, 'e) harness"
  assumes "settled D (he_json env) (hn_config h) s"
    and "D \<longrightarrow> distinct (map tc_id (mr_tool_calls (fst answer)))"
  shows "wp (after_response k env h specs mode opts answer lv)
    (ok D (he_json env) (hn_config h) (around D (he_json env) (hn_config h) (lv_step lv))) s"
proof -
  let ?js = "he_json env" and ?c = "hn_config h"
  obtain response t snapshot where answer: "answer = (response, t, snapshot)" by (cases answer) auto
  let ?calls = "mr_tool_calls response" and ?lv = "lv\<lparr>lv_final_text := mr_text response\<rparr>"
  let ?post = "ok D ?js ?c (around D ?js ?c (lv_step lv))"
  have final: "wp (bindA (finish_now env lv' Stop_Completed) (\<lambda>out. retA (Inl out))) ?post u"
    if "settled D ?js ?c u" for u lv'
    using that by (simp add: finish_now_def wp_simps around_def settledD ended_finish)
  have plain: "wp (at_control_point env ?c mode ?lv (\<lambda>lv'.
      bindA (finish_now env lv' Stop_Completed) (\<lambda>out. retA (Inl out)))) ?post u"
    if "settled D ?js ?c u" for u
    by (rule wp_at_control_point [OF that]) (auto simp: around_def intro: final)
  have called: "wp (at_control_point env ?c mode lv' (\<lambda>lv''.
      caseA (ensure_context_limit env ?c specs) (\<lambda>_. retA (Inr lv'')) (fail_limit env))) ?post u"
    if "settled D ?js ?c u" "lv_step lv' = lv_step lv" for u lv'
    by (rule wp_at_control_point [OF that(1)])
      (auto simp: around_def that(2) wp_caseA wp_ensure_context_limit wp_retA wp_fail_limit settledD)
  have taken: "wp (take_response k env h specs answer) (ok D ?js ?c (\<lambda>_ u. traced (effect_ok D ?js ?c) u
      \<and> owes D (set (map tc_id ?calls)) u)) s"
    unfolding answer by (rule wp_take_response [OF assms(1)])
  show ?thesis
    unfolding after_response_def Let_def answer fst_conv
  proof (rule ok_seqA [OF taken [unfolded answer]], goal_cases)
    case (1 u)
    show ?case
    proof (cases "?calls = []")
      case True
      with 1 have "settled D ?js ?c u" by (simp add: settled_def)
      then show ?thesis unfolding if_P [OF True] by (rule plain)
    next
      case False
      show ?thesis
        unfolding if_not_P [OF False]
        by (rule ok_bindA [OF wp_run_batch]) (use 1 assms(2) answer in \<open>auto intro!: called\<close>)
    qed
  qed
qed

lemma wp_show_pending:
  assumes "settled D js c s"
  shows "wp (show_pending_injections env) (ok D js c (\<lambda>_ t. settled D js c t)) s"
  using assms by (auto simp: show_pending_injections_def wp_simps settled_def traced_def owes_def)

lemma wp_model_step:
  fixes h :: "('w, 'v, 'e) harness"
  assumes "settled D (he_json env) (hn_config h) s"
    and "D \<longrightarrow> distinct_call_ids (hn_model h)" and "step_ok (hn_config h) (lv_step lv)"
  shows "wp (model_step k env h specs mode opts lv)
    (ok D (he_json env) (hn_config h) (around D (he_json env) (hn_config h) (lv_step lv))) s"
proof -
  let ?js = "he_json env" and ?c = "hn_config h"
  let ?post = "ok D ?js ?c (around D ?js ?c (lv_step lv))"
  have answered: "wp (case r of Inl out \<Rightarrow> retA (Inl out)
      | Inr answer \<Rightarrow> after_response k env h specs mode opts answer lv) ?post u"
    if "rounded D ?js ?c r u" for r u
    using that by (cases r) (auto simp: rounded_def wp_retA around_def intro: wp_after_response)
  have prepared: "wp (prepare_context env ?c specs)
      (ok D ?js ?c (\<lambda>_ t. settled D ?js ?c t \<and> within_limit ?js ?c specs t)) u" if "settled D ?js ?c u" for u
    by (rule ok_conseq [OF wp_prepare_context]) (use that in \<open>auto simp: settledD\<close>)
  have written: "wp (write_checkpoint env (lv_execution lv) (lv_step lv) (lv_final_text lv))
      (ok D ?js ?c (\<lambda>_ t. settled D ?js ?c t \<and> within_limit ?js ?c specs t)) u"
    if "settled D ?js ?c u \<and> within_limit ?js ?c specs u" for u
    by (rule ok_conseq [OF wp_write_checkpoint]) (use that in \<open>auto simp: within_limit_def\<close>)
  show ?thesis
    unfolding model_step_def
    by (rule ok_seqA [OF wp_show_pending [OF assms(1)]], rule ok_seqA [OF prepared], assumption,
        rule ok_seqA [OF written], assumption, rule ok_bindA [OF wp_model_round [OF _ _ assms(2,3)]])
      (auto intro: answered)
qed

lemma step_ok_next:
  "\<not> (hc_max_steps c \<noteq> 0 \<and> hc_max_steps c < sat_add n 1) \<Longrightarrow> step_ok c (sat_add n 1)"
  by (auto simp: step_ok_def sat_add_def u64_max_def)

lemma wp_loop_iteration:
  fixes h :: "('w, 'v, 'e) harness"
  assumes "settled D (he_json env) (hn_config h) s" and "D \<longrightarrow> distinct_call_ids (hn_model h)"
  shows "wp (loop_iteration k env h specs mode opts lv) (ok D (he_json env) (hn_config h) (\<lambda>x t. case x of
     Inl out \<Rightarrow> ended D (he_json env) (hn_config h) out t
   | Inr lv' \<Rightarrow> settled D (he_json env) (hn_config h) t
       \<and> (mode = ContinueSameTurn \<or> lv_step lv' = sat_add (lv_step lv) 1 \<and> step_ok (hn_config h) (lv_step lv')))) s"
  unfolding loop_iteration_def Let_def
proof (rule wp_at_control_point [OF assms(1)], goal_cases)
  case (1 lv' t)
  show ?case
  proof (cases "hc_max_steps (hn_config h) \<noteq> 0 \<and> hc_max_steps (hn_config h) < sat_add (lv_step lv') 1")
    case True
    then show ?thesis using 1 by (simp add: wp_simps ended_finish settledD)
  next
    case False
    have "wp (model_step k env h specs mode opts (lv'\<lparr>lv_step := sat_add (lv_step lv') 1\<rparr>))
      (ok D (he_json env) (hn_config h) (around D (he_json env) (hn_config h) (sat_add (lv_step lv') 1))) t"
      using wp_model_step [OF 1(1) assms(2), where lv = "lv'\<lparr>lv_step := sat_add (lv_step lv') 1\<rparr>"]
        step_ok_next [OF False] by simp
    from ok_conseq [OF this] show ?thesis
      using False 1(2) step_ok_next [OF False] by (auto simp: around_def split: sum.splits)
  qed
qed auto

lemma wp_run_loop:
  fixes h :: "('w, 'v, 'e) harness"
  assumes "settled D (he_json env) (hn_config h) s" and "D \<longrightarrow> distinct_call_ids (hn_model h)"
  shows "wp (run_loop n k env h specs mode opts lv)
    (ok D (he_json env) (hn_config h) (ended D (he_json env) (hn_config h))) s"
  using assms(1)
proof (induction n arbitrary: lv s)
  case 0
  then show ?case by (simp add: wp_starveA settledD)
next
  case (Suc n)
  show ?case
    unfolding run_loop.simps
  proof (rule ok_bindA [OF wp_loop_iteration [OF Suc.prems assms(2)]], goal_cases)
    case (1 x t)
    then show ?case using Suc.IH by (cases x) (auto simp: wp_retA)
  qed
qed


subsection \<open>Starting, and the run as a whole\<close>

text \<open>
  What a journal records of a pending batch: the durable calls are those of the intent, with
  different ids.
\<close>

definition resume_ok :: "'v execution_run_options \<Rightarrow> bool" where
  "resume_ok opts \<longleftrightarrow> (case ero_resume opts of
     Some (cp, Some batch) \<Rightarrow> map etc_call (etb_calls batch) = tbi_calls (etb_intent batch)
       \<and> distinct (map tc_id (tbi_calls (etb_intent batch)))
   | _ \<Rightarrow> True)"

lemma recovery_result_settled:
  assumes "recovery_result s n calls t True" and "D \<longrightarrow> distinct (map (tc_id \<circ> etc_call) calls)"
    and "owes D (set (map (tc_id \<circ> etc_call) calls)) s"
  shows "owes D {} t"
proof -
  from assms(1) obtain outs cs where t: "length outs = length calls"
    "st_messages (rt_session t) = answered n (st_messages (rt_session s)) (map etc_call calls) outs @ map Context cs"
    unfolding recovery_result_def by blast
  have "owed (answered n (st_messages (rt_session s)) (map etc_call calls) outs) = Some {}" if D
    using owed_answers [of "map etc_call calls" outs] assms(2,3) that t(1) by (simp add: owes_def)
  then show ?thesis
    using complete_groups_contexts t(2) by (auto simp: owes_def complete_groups_def)
qed

lemma wp_begin_fresh:
  assumes "settled D js c s"
  shows "wp (begin_fresh env h specs execution prompt) (ok D js c (\<lambda>_ t. settled D js c t)) s"
proof -
  have pushed: "wp (mod_session (push (User prompt))) (ok D js c (\<lambda>_ t. settled D js c t)) s"
    using assms by (simp add: wp_mod_session settled_push)
  have prepared: "wp (caseA (prepare_context env (hn_config h) specs) (\<lambda>_. retA ([], 0))
      (\<lambda>e. seqA (if hc_context_limit_behavior (hn_config h) = Reject
         then mod_session (truncate_messages n) else retA ()) (raiseA e)))
      (ok D js c (\<lambda>_ t. settled D js c t)) t" if "settled D js c t" for t n
    using that by (simp add: prepare_context_def wp_simps wp_ensure_context_limit settledD)
  show ?thesis
    unfolding begin_fresh_def wp_bindA wp_getA outcome.case
    by (rule ok_seqA [OF pushed], rule ok_seqA [OF wp_write_checkpoint], assumption) (rule prepared, simp)
qed

lemma complete_restored:
  "restore_parts js c specs pending st = Inr (st', kept) \<Longrightarrow> complete_groups (st_messages st')"
  by (auto simp: restore_parts_def Let_def complete_groups_repaired split: prod.splits sum.splits)

lemma wp_begin_resumed:
  assumes "settled D js c s"
  shows "wp (begin_resumed env h specs cp) (ok D js c (\<lambda>_ t. settled D js c t)) s"
proof -
  have restored: "wp (restore_run env h specs ms) (ok D js c (\<lambda>_ t. settled D js c t)) s" for ms
    using assms
    by (auto simp: restore_run_def liftA_def wp_simps settled_def traced_def owes_def
        dest!: complete_restored simp: complete_groups_def split: sum.split)
  show ?thesis
    unfolding begin_resumed_def
    by (rule ok_seqA [OF ok_map_errA [OF restored]]) (auto simp: wp_simps wp_ensure_context_limit settledD)
qed

lemma wp_begin_run:
  assumes "traced (effect_ok D js c) s"
  shows "wp (begin_run env h specs opts given) (ok D js c (\<lambda>_ t. settled D js c t)) s"
proof -
  have repaired: "wp (mod_session (\<lambda>st. snd (repair_incomplete_tool_groups st)))
      (ok D js c (\<lambda>_ t. settled D js c t)) s"
    using assms complete_groups_repaired [of "rt_session s"]
    by (simp add: wp_mod_session settled_def owes_def complete_groups_def)
  show ?thesis
    unfolding begin_run_def Let_def
    by (rule ok_seqA [OF repaired])
      (auto simp: wp_fail_limit settledD wp_seqA wp_observe intro!: wp_begin_fresh wp_begin_resumed
        split: sum.split option.split)
qed

lemma wp_resume_batch:
  assumes "settled D js c s" and "ero_resume opts = Some (cp, Some batch)" and "D \<longrightarrow> resume_ok opts"
  shows "wp (resume_batch env h opts cp batch) (ok D js c (\<lambda>_ t. settled D js c t)) s"
proof -
  let ?intent = "etb_intent batch" and ?calls = "etb_calls batch"
  let ?message = "Assistant (tbi_reasoning ?intent) (tbi_text ?intent) (tbi_calls ?intent)"
  have batch_ids: "D \<longrightarrow> map tc_id (tbi_calls ?intent) = map (tc_id \<circ> etc_call) ?calls
      \<and> distinct (map (tc_id \<circ> etc_call) ?calls)"
    using assms(2,3) by (auto simp: resume_ok_def simp flip: map_map)
  have pushed: "wp (mod_session (push ?message)) (ok D js c (\<lambda>_ t. traced (effect_ok D js c) t
      \<and> owes D (set (map (tc_id \<circ> etc_call) ?calls)) t)) s"
    using assms(1) batch_ids
    by (auto simp: wp_mod_session settled_def owes_def push_def bump_revision_def owed_step_simps simp flip: set_map)
  have recovered: "wp (map_errA recovery_error (recover_tool_batch env (hn_tools h) batch bo))
      (ok D js c (\<lambda>_ t. settled D js c t)) t"
    if "validate_tool_batch_recovery (hn_tools h) batch = Inr ()"
      and t: "traced (effect_ok D js c) t" "owes D (set (map (tc_id \<circ> etc_call) ?calls)) t" for t bo
  proof (rule ok_map_errA, rule wp_conseq [OF wp_conj [OF
        wp_keeps [OF run_log.keeps_recover_tool_batch t(1)] wp_recover_tool_batch]], goal_cases)
    case (2 r u)
    then show ?case
      using recovery_result_settled [OF _ _ t(2)] batch_ids
      by (auto simp: ok_def settled_def split: outcome.splits)
  qed (use that in \<open>simp add: validate_tool_batch_recovery_def\<close>)
  show ?thesis
  proof (cases "validate_tool_batch_recovery (hn_tools h) batch")
    case (Inl reason)
    show ?thesis
      unfolding resume_batch_def Let_def Inl sum.case
      using settledD [OF assms(1)]
      by (auto simp: wp_raiseA wp_retA
          intro!: ok_seqA [where Q = "\<lambda>_ t. traced (effect_ok D js c) t"] ok_conseq [OF wp_journal_entry]
          split: option.split)
  next
    case (Inr u)
    then have safe: "validate_tool_batch_recovery (hn_tools h) batch = Inr ()" by simp
    have settle: "wp (seqA (settle_batch env x n t') (retA y)) (ok D js c (\<lambda>_ t. settled D js c t)) t"
      if "settled D js c t" for t x n t' y
      by (rule ok_seqA [OF wp_settle_batch [OF that]]) (simp add: wp_retA)
    show ?thesis
      unfolding resume_batch_def Let_def safe sum.case
      using settledD [OF assms(1)]
      by (auto simp: wp_raiseA intro!: ok_seqA [OF pushed] ok_bindA [OF recovered [OF safe]] settle)
  qed
qed

lemma wp_start_run:
  assumes "traced (effect_ok D js c) s" and "D \<longrightarrow> resume_ok opts"
  shows "wp (start_run env h specs opts given) (ok D js c (\<lambda>_ t. settled D js c t)) s"
proof -
  have resumed: "wp (case ero_resume opts of
        Some (cp, Some batch) \<Rightarrow> resume_batch env h opts cp batch | _ \<Rightarrow> retA begun)
      (ok D js c (\<lambda>_ t. settled D js c t)) t" if "settled D js c t" for t begun
    using that assms(2) by (auto simp: wp_retA intro!: wp_resume_batch split: option.split)
  show ?thesis
    unfolding start_run_def
    by (rule ok_bindA [OF wp_begin_run [OF assms(1)]], rule ok_bindA [OF resumed])
      (auto simp: wp_retA split: prod.split)
qed

lemma wp_run_turn:
  fixes h :: "('w, 'v, 'e) harness"
  assumes "rt_trace s = []" and "D \<longrightarrow> resume_ok opts" and "D \<longrightarrow> distinct_call_ids (hn_model h)"
  shows "wp (run_turn n k env h mode opts prompt)
    (ok D (he_json env) (hn_config h) (ended D (he_json env) (hn_config h))) s"
proof -
  have "traced (effect_ok D (he_json env) (hn_config h)) s" by (simp add: traced_def assms(1))
  then show ?thesis
    unfolding run_turn_def Let_def
    by (rule ok_bindA [OF wp_start_run [OF _ assms(2)]]) (rule wp_run_loop [OF _ assms(3)])
qed

end
