(* ===== verification/Harness_Claims.thy ===== *)
theory Harness_Claims
  imports Harness_Safety
begin

section \<open>What a run promises\<close>

text \<open>
  The properties of the harness that rest on the invariant of \<open>Harness_Safety\<close>: the requests
  and checkpoints of a run, how it reports its end, that it ends, and what restoring, forking,
  rejecting and cancelling leave behind.
\<close>

subsection \<open>Requests, checkpoints, endings\<close>

lemma run_effects:
  fixes h :: "('w, 'v, 'e) harness"
  assumes "D \<longrightarrow> resume_ok opts" and "D \<longrightarrow> distinct_call_ids (hn_model h)"
    and "run_with_control_mode_and_tool_context n k env mode opts prompt control w h = (r, h', s)"
  shows "ok D (he_json env) (hn_config h) (ended D (he_json env) (hn_config h)) r s"
    and "hn_session h' = rt_session s" and "hn_config h' = hn_config h"
proof -
  obtain r' s' where run: "run_turn n k env h mode opts prompt (runtime_of h control w) = (r', s')"
    by (meson surj_pair)
  then have eq: "r' = r" "s' = s" "h' = h\<lparr>hn_session := rt_session s, hn_pending := rt_pending s\<rparr>"
    using assms(3) by (auto simp: run_with_control_mode_and_tool_context_def)
  have "rt_trace (runtime_of h control w) = []" by (simp add: runtime_of_def)
  from wpD [OF wp_run_turn [OF this assms(1,2)] run]
  show "ok D (he_json env) (hn_config h) (ended D (he_json env) (hn_config h)) r s" by (simp add: eq)
  show "hn_session h' = rt_session s" "hn_config h' = hn_config h" by (simp_all add: eq)
qed

lemma ok_ended_effects:
  assumes "ok D js c (ended D js c) r s" and "e \<in> set (rt_trace s)"
    and "\<And>reason n. e \<noteq> E_Observe (RunFinished reason n)"
  shows "effect_ok D js c e"
  using assms by (auto simp: ok_def ended_def traced_def list_all_iff split: outcome.splits)

text \<open>
  C2.  Whatever the model, the tools, the journal and the other threads do, and whichever way a run
  ends: every request it sends, for a turn or for a summary, fits the configured context limit.
\<close>

theorem run_requests_fit:
  assumes "run_with_control_mode_and_tool_context n k env mode opts prompt control w h = (r, h', s)"
    and "E_Model request \<in> set (rt_trace s)"
  shows "context_bytes_for (he_json env) (rq_system_prompt request) (rq_messages request) (rq_tools request)
    \<le> hc_max_context_bytes (hn_config h)"
  using ok_ended_effects [OF run_effects(1) [where D = False, OF _ _ assms(1)] assms(2)]
  by (simp add: request_fits_def)

text \<open>
  C1.  If the model keeps the ids of a response's calls apart, then in every request a run sends
  and every checkpoint it writes each assistant message with tool calls is followed by the results
  of all of them: through steering, cancellation, compaction, recovery and every error path.
\<close>

theorem run_history_answers_every_call:
  assumes "distinct_call_ids (hn_model h)" and "resume_ok opts"
    and "run_with_control_mode_and_tool_context n k env mode opts prompt control w h = (r, h', s)"
  shows "(\<forall>request. E_Model request \<in> set (rt_trace s) \<longrightarrow> complete_groups (rq_messages request))
    \<and> (\<forall>cp. E_Journal (J_Checkpoint cp) \<in> set (rt_trace s) \<longrightarrow> complete_groups (ecp_messages cp))"
  using ok_ended_effects [OF run_effects(1) [where D = True, OF _ _ assms(3)]] assms(1,2) by fastforce

definition endings :: "'v effect list \<Rightarrow> (stop_reason \<times> nat) list" where
  "endings log = List.map_filter (\<lambda>e. case e of
     E_Observe (RunFinished reason steps) \<Rightarrow> Some (reason, steps) | _ \<Rightarrow> None) log"

lemma endings_append: "endings (xs @ ys) = endings xs @ endings ys"
  by (simp add: endings_def map_filter_def)

lemma endings_ok: "list_all (effect_ok D js c) log \<Longrightarrow> endings log = []"
  by (induction log) (auto simp: endings_def map_filter_simps effect_ok_def split: effect.splits event.splits)

text \<open>
  C4.  A run that returns an outcome announces its end exactly once, as the last thing it does, with
  the stop reason and step count of the outcome, and the outcome carries the history the harness
  keeps; a run that fails, or has not returned yet, announces none.
\<close>

theorem run_reports_its_outcome:
  assumes "run_with_control_mode_and_tool_context n k env mode opts prompt control w h = (r, h', s)"
  shows "case r of
      Done out \<Rightarrow> (\<exists>log. rt_trace s = log @ [E_Observe (RunFinished (ro_stop_reason out) (ro_steps out))]
          \<and> endings log = []) \<and> ro_messages out = st_messages (hn_session h')
    | _ \<Rightarrow> endings (rt_trace s) = []"
  using run_effects(1) [where D = False, OF _ _ assms] run_effects(2) [where D = False, OF _ _ assms]
  by (auto simp: ok_def ended_def traced_def endings_ok split: outcome.split)

text \<open>
  With a step cap every model step a run announces lies between one and the cap, on every
  ending, a resumed run included.
\<close>

theorem run_steps_bounded:
  assumes "run_with_control_mode_and_tool_context n k env mode opts prompt control w h = (r, h', s)"
    and "E_Observe (ModelStarted step bytes hash tools) \<in> set (rt_trace s)" and "hc_max_steps (hn_config h) \<noteq> 0"
  shows "0 < step \<and> step \<le> hc_max_steps (hn_config h)"
  using ok_ended_effects [OF run_effects(1) [where D = False, OF _ _ assms(1)] assms(2)] assms(3)
  by (simp add: step_ok_def)

subsection \<open>A run ends\<close>

text \<open>\<open>lively m\<close>: the computation returns.\<close>

definition lively :: "('s, 'err, 'a) act \<Rightarrow> bool" where
  "lively m \<longleftrightarrow> (\<forall>s. fst (m s) \<noteq> Out_of_fuel)"

named_theorems lively_rules \<open>computations that return\<close>

lemma lively_basic [lively_rules]:
  "lively (retA x)" "lively (raiseA e)" "lively (getA f)" "lively (modA g)" "lively (stepA k)"
  by (simp_all add: lively_def act_simps)

lemma lively_bindA [lively_rules]:
  assumes "lively m" and "\<And>x. lively (f x)"
  shows "lively (bindA m f)"
  unfolding lively_def
proof
  fix s
  have "fst (m s) \<noteq> Out_of_fuel" using assms(1) by (simp add: lively_def)
  then show "fst (bindA m f s) \<noteq> Out_of_fuel"
    using assms(2) by (auto simp: lively_def act_simps split: prod.split outcome.split)
qed

lemma lively_seqA [lively_rules]: "lively m \<Longrightarrow> lively n \<Longrightarrow> lively (seqA m n)"
  by (simp add: seqA_def lively_bindA)

lemma lively_map_errA [lively_rules]: "lively m \<Longrightarrow> lively (map_errA g m)"
proof -
  assume m: "lively m"
  have "fst (map_errA g m s) \<noteq> Out_of_fuel" for s
  proof -
    have "fst (m s) \<noteq> Out_of_fuel" using m by (simp add: lively_def)
    then show ?thesis by (auto simp: act_simps split: prod.split outcome.split)
  qed
  then show ?thesis by (simp add: lively_def)
qed

lemma lively_caseA [lively_rules]:
  assumes "lively m" and "\<And>x. lively (f x)" and "\<And>e. lively (g e)"
  shows "lively (caseA m f g)"
  unfolding lively_def
proof
  fix s
  have "fst (m s) \<noteq> Out_of_fuel" using assms(1) by (simp add: lively_def)
  then show "fst (caseA m f g s) \<noteq> Out_of_fuel"
    using assms(2,3) by (auto simp: lively_def act_simps split: prod.split outcome.split)
qed

lemma lively_cases [lively_rules]:
  "lively m \<Longrightarrow> lively n \<Longrightarrow> lively (if b then m else n)"
  "lively m \<Longrightarrow> (\<And>x. lively (f x)) \<Longrightarrow> lively (case opt of None \<Rightarrow> m | Some x \<Rightarrow> f x)"
  "(\<And>a b. lively (p a b)) \<Longrightarrow> lively (case x of (a, b) \<Rightarrow> p a b)"
  "(\<And>a. lively (l a)) \<Longrightarrow> (\<And>b. lively (q b)) \<Longrightarrow> lively (case y of Inl a \<Rightarrow> l a | Inr b \<Rightarrow> q b)"
  by (simp_all split: option.split prod.split sum.split)

lemma lively_primitives [lively_rules]:
  "lively (observe env ev)" "lively (mod_session f)" "lively (step_session g)" "lively (on_control env k)"
  "lively (send_request q)" "lively (append_if_present env entry)" "lively (session_messages)"
  "lively (load_cancel env)" "lively (swap_cancel env)" "lively (load_steer env)"
  by (auto simp: observe_def mod_session_def step_session_def on_control_def send_request_def session_messages_def
      append_if_present_def load_cancel_def swap_cancel_def load_steer_def lively_def act_simps
      split: option.split prod.split sum.split)

subsubsection \<open>Awaits\<close>

text \<open>
  The model answers within \<open>k\<close> polls: some measure of what is left to wait for drops with every
  poll that is not ready and is not raised by the observer or the other threads.
\<close>

definition answers_within :: "nat \<Rightarrow> ('w, 'v) host_env \<Rightarrow> ('w, 'v, 'e) model \<Rightarrow> bool" where
  "answers_within k env m \<longleftrightarrow> (\<exists>left.
     (\<forall>request w. left request w < k
       \<and> (snd (fst (md_poll m request w)) = None \<longrightarrow> left request (snd (md_poll m request w)) < (left request w :: nat)))
     \<and> (\<forall>request w ev. left request (he_observe env ev w) \<le> left request w)
     \<and> (\<forall>request w c. left request (snd (he_others env c w)) \<le> left request w))"

lemma forward_events_wait:
  assumes "\<And>w ev. left (he_observe env ev w) \<le> (left w :: nat)"
  shows "wp (forward_events env fw evs) (\<lambda>r t. (\<exists>fw'. r = Done fw') \<and> left (rt_world t) \<le> left (rt_world s)) s"
proof (induction evs arbitrary: fw s)
  case (Cons ev evs)
  have one: "wp (forward_event env fw ev) (\<lambda>r t. (\<exists>fw'. r = Done fw') \<and> left (rt_world t) \<le> left (rt_world s)) s"
    using assms by (simp add: forward_event_def wp_simps Let_def)
  show ?case
    unfolding forward_events.simps wp_bindA
    by (rule wp_conseq [OF one]) (auto intro!: wp_conseq [OF Cons.IH] elim: order_trans)
qed (simp add: wp_simps)

lemma forward_events_then:
  assumes "\<And>w ev. left (he_observe env ev w) \<le> (left w :: nat)"
    and "\<And>fw' u. left (rt_world u) \<le> left (rt_world t) \<Longrightarrow> wp (f fw') R u"
  shows "wp (bindA (forward_events env fw evs) f) R t"
  unfolding wp_bindA by (rule wp_conseq [OF forward_events_wait [where left = left, OF assms(1)]]) (auto intro: assms(2))

lemma on_control_then:
  assumes "\<And>w c. left (snd (he_others env c w)) \<le> (left w :: nat)"
    and "\<And>x u. left (rt_world u) \<le> left (rt_world t) \<Longrightarrow> wp (f x) R u"
  shows "wp (bindA (on_control env g) f) R t"
  using assms(1) [of "rt_control t" "rt_world t"]
  by (auto simp: wp_bindA wp_on_control intro!: assms(2) split: prod.split)

lemma poll_then:
  "wp (bindA (poll_model m request) f) R t \<longleftrightarrow> wp (f (fst (md_poll m request (rt_world t)))) R
     (t\<lparr>rt_world := snd (md_poll m request (rt_world t))\<rparr>)"
  by (simp add: wp_bindA wp_poll_model)

lemma respond_until_cancelled_returns:
  assumes poll: "\<And>w. snd (fst (md_poll m request w)) = None \<Longrightarrow> left (snd (md_poll m request w)) < (left w :: nat)"
    and quiet: "\<And>w ev. left (he_observe env ev w) \<le> left w" "\<And>w c. left (snd (he_others env c w)) \<le> left w"
  shows "left (rt_world s) < n \<Longrightarrow> wp (respond_until_cancelled n env m request fw) (\<lambda>r t. r \<noteq> Out_of_fuel) s"
proof (induction n arbitrary: fw s)
  case (Suc n)
  note control = on_control_then [where left = left, OF quiet(2)]
  show ?case
    unfolding respond_until_cancelled.simps load_cancel_def seqA_def
  proof (rule control, goal_cases)
    case (1 c1 t1)
    show ?case
    proof (cases c1)
      case False
      show ?thesis
      proof (simp only: False if_False, rule control, rule control, goal_cases)
        case (1 x t2 c2 t3)
        show ?case
        proof (cases c2)
          case False
          obtain events ready w where polled: "md_poll m request (rt_world t3) = ((events, ready), w)"
            by (metis surj_pair)
          have "left w < n" if "ready = None"
            using poll [of "rt_world t3"] polled that 1 \<open>left (rt_world t1) \<le> left (rt_world s)\<close> Suc.prems by simp
          then show ?thesis
            by (simp only: False if_False poll_then polled fst_conv snd_conv prod.case)
              (auto intro!: forward_events_then [where left = left, OF quiet(1)] Suc.IH simp: wp_retA
                split: option.split)
        qed (simp add: wp_retA)
      qed
    qed (simp add: wp_retA)
  qed
qed simp

lemma respond_silently_returns:
  assumes "\<And>w. snd (fst (md_poll m request w)) = None \<Longrightarrow> left (snd (md_poll m request w)) < (left w :: nat)"
  shows "left (rt_world s) < n \<Longrightarrow> wp (respond_silently n m request) (\<lambda>r t. r \<noteq> Out_of_fuel) s"
proof (induction n arbitrary: s)
  case (Suc n)
  have "left (snd (md_poll m request (rt_world s))) < n" if "snd (fst (md_poll m request (rt_world s))) = None"
    using assms [OF that] Suc.prems by linarith
  then show ?case
    unfolding respond_silently.simps
    by (auto simp: wp_simps intro!: Suc.IH split: prod.split option.split)
qed simp

lemma lively_respond:
  assumes "answers_within k env m"
  shows "lively (respond_until_cancelled k env m request fw)" and "lively (respond_silently k m request)"
proof -
  from assms obtain left where l: "\<And>request w. left request w < k"
    "\<And>request w. snd (fst (md_poll m request w)) = None \<Longrightarrow> left request (snd (md_poll m request w)) < (left request w :: nat)"
    "\<And>request w ev. left request (he_observe env ev w) \<le> left request w"
    "\<And>request w c. left request (snd (he_others env c w)) \<le> left request w"
    unfolding answers_within_def by blast
  show "lively (respond_until_cancelled k env m request fw)"
    unfolding lively_def
    by (intro allI respond_until_cancelled_returns [unfolded wp_def, where left = "left request", OF l(2-4) l(1)])
  show "lively (respond_silently k m request)"
    unfolding lively_def
    by (intro allI respond_silently_returns [unfolded wp_def, where left = "left request", OF l(2) l(1)])
qed

lemma lively_batch [lively_rules]:
  "lively (execute_tool_batch env router calls opts)" "lively (recover_tool_batch env router batch opts)"
proof -
  have contexts: "lively (append_contexts env ts rs acc)" for ts rs acc
    by (induction env ts rs acc rule: append_contexts.induct) (auto intro!: lively_rules)
  then have settle: "lively (settle_contexts env ms is)" for ms "is"
    unfolding settle_contexts_def by (auto intro!: lively_rules)
  have journal: "lively (journal_for env opts entry)" for opts entry
    unfolding journal_for_def by (auto intro!: lively_rules)
  have run: "lively (run_tool router request)" for request
    unfolding run_tool_def by (auto intro!: lively_rules)
  have recorded: "lively (record_tool_result env opts call out)" for opts call out
    unfolding record_tool_result_def by (auto intro!: lively_rules journal)
  have call: "lively (execute_call env router opts call vars)" for call vars
    unfolding execute_call_def start_call_def decide_outcome_def
    by (auto intro!: lively_rules journal run recorded)
  have "lively (execute_calls env router opts calls vars)" for calls vars
    by (induction calls arbitrary: vars) (auto intro!: lively_rules call)
  then show "lively (execute_tool_batch env router calls opts)"
    unfolding execute_tool_batch_def by (auto intro!: lively_rules settle)
  have "lively (recover_call env router opts intent c vars)" for intent c vars
    unfolding recover_call_def append_recovered_call_def by (auto intro!: lively_rules run)
  then have "lively (recover_calls env router opts intent cs vars)" for intent cs vars
    by (induction cs arbitrary: vars) (auto intro!: lively_rules)
  then show "lively (recover_tool_batch env router batch opts)"
    unfolding recover_tool_batch_def by (auto intro!: lively_rules settle)
qed

lemma lively_small [lively_rules]:
  "lively (finish env t ms n reason)" "lively (finish_now env lv reason)" "lively (fail_limit env l)"
  "lively (fail_compaction env t)" "lively (fail_model env e)" "lively (ensure_context_limit env c specs)"
  "lively (prepare_context env c specs)" "lively (append_user_input c t)" "lively (apply_steer env c input lv)"
  "lively (take_steer_steps env)" "lively (write_checkpoint env x n t)" "lively (settle_batch env x n t)"
  "lively (journal_entry env entry)" "lively (show_pending_injections env)" "lively (warn_of_loop c lv)"
  "lively (check_response env c response)" "lively (finish_compacted env c ms n usage specs)"
  by (auto simp: finish_def finish_now_def fail_limit_def fail_compaction_def fail_model_def ensure_context_limit_def
      liftA_def prepare_context_def append_user_input_def apply_steer_def take_steer_steps_def write_checkpoint_def
      settle_batch_def journal_entry_def show_pending_injections_def warn_of_loop_def check_response_def
      finish_compacted_def Let_def intro!: lively_rules)

lemma lively_control_action [lively_rules]: "lively (control_action env c mode lv)"
  unfolding control_action_def by (auto intro!: lively_rules)

lemma lively_at_control_point [lively_rules]:
  "(\<And>lv'. lively (continue_with lv')) \<Longrightarrow> lively (at_control_point env c mode lv continue_with)"
  unfolding at_control_point_def by (auto intro!: lively_rules split: loop_action.split)

lemma lively_run_batch [lively_rules]: "lively (run_batch env h opts response lv)"
  unfolding run_batch_def Let_def by (auto intro!: lively_rules)

lemma lively_start_run: "lively (start_run env h specs opts given)"
  unfolding start_run_def begin_run_def begin_fresh_def begin_resumed_def restore_run_def liftA_def resume_batch_def Let_def
  by (auto intro!: lively_rules)

lemma lively_compaction:
  fixes h :: "('w, 'v, 'e) harness"
  assumes "answers_within k env (hn_model h)"
  shows "lively (compact_context_with_reduction_target k env h specs)"
  unfolding compact_context_with_reduction_target_def run_context_bytes_def compact_context_to_def compact_parts_def Let_def
  by (auto intro!: lively_rules lively_respond [OF assms])

lemma lively_model_round:
  fixes h :: "('w, 'v, 'e) harness"
  assumes "answers_within k env (hn_model h)"
  shows "lively (model_round left k env h specs lv)"
proof -
  have once: "lively (request_once k env h specs step)" for step
    unfolding request_once_def Let_def by (auto intro!: lively_rules lively_respond [OF assms])
  show ?thesis
  proof (induction left)
    case 0
    show ?case by (subst model_round.simps) (auto intro!: lively_rules once)
  next
    case (Suc left)
    show ?case by (subst model_round.simps) (auto intro!: lively_rules once Suc.IH lively_compaction [OF assms])
  qed
qed

lemma lively_loop_iteration:
  fixes h :: "('w, 'v, 'e) harness"
  assumes "answers_within k env (hn_model h)"
  shows "lively (loop_iteration k env h specs mode opts lv)"
  unfolding loop_iteration_def model_step_def after_response_def take_response_def Let_def
  by (auto intro!: lively_rules lively_model_round [OF assms] lively_compaction [OF assms])

lemma run_loop_returns:
  fixes h :: "('w, 'v, 'e) harness"
  assumes wait: "answers_within k env (hn_model h)" and cap: "hc_max_steps (hn_config h) \<noteq> 0"
    and small: "hc_max_steps (hn_config h) < u64_max"
    and log: "settled False (he_json env) (hn_config h) s"
    and enough: "0 < n" "lv_step lv \<le> hc_max_steps (hn_config h) \<Longrightarrow> hc_max_steps (hn_config h) < lv_step lv + n"
  shows "wp (run_loop n k env h specs StopAtCheckpoint opts lv) (\<lambda>r t. r \<noteq> Out_of_fuel) s"
  using log enough
proof (induction n arbitrary: lv s)
  case (Suc n)
  let ?cap = "hc_max_steps (hn_config h)"
  have returns: "wp (loop_iteration k env h specs StopAtCheckpoint opts lv) (\<lambda>r t. r \<noteq> Out_of_fuel) s"
    using lively_loop_iteration [OF wait] by (simp add: wp_def lively_def)
  show ?case
    unfolding run_loop.simps wp_bindA
  proof (rule wp_conseq [OF wp_conj [OF wp_loop_iteration [where D = False, OF Suc.prems(1)] returns]], goal_cases)
    case (2 r t)
    show ?case
    proof (cases r)
      case (Done x)
      show ?thesis
      proof (cases x)
        case (Inr lv')
        from 2 Done Inr have t: "settled False (he_json env) (hn_config h) t"
          and step: "lv_step lv' = sat_add (lv_step lv) 1" "lv_step lv' \<le> ?cap" "0 < lv_step lv'"
          using cap by (auto simp: step_ok_def)
        have "lv_step lv' = Suc (lv_step lv)"
          using step small by (auto simp: sat_add_def min_def split: if_splits)
        then have "0 < n" "lv_step lv' \<le> ?cap \<Longrightarrow> ?cap < lv_step lv' + n"
          using Suc.prems(3) step(2) by auto
        with Suc.IH [OF t] show ?thesis by (simp add: Done Inr)
      qed (simp add: Done wp_retA)
    qed (use 2 in auto)
  qed simp
qed simp

text \<open>
  C3.  With a step cap and the default steering mode every run returns: an outcome or an error, never
  an endless loop.  One iteration more than the cap is enough, whatever the model, the tools and
  the other threads do, as long as the model answers its requests; a resumed run is no exception.
\<close>

theorem run_returns:
  fixes h :: "('w, 'v, 'e) harness"
  assumes "answers_within k env (hn_model h)" and "hc_max_steps (hn_config h) \<noteq> 0"
    and "hc_max_steps (hn_config h) < u64_max" and "hc_max_steps (hn_config h) < n"
    and "run_with_control_mode_and_tool_context n k env StopAtCheckpoint opts prompt control w h = (r, h', s)"
  shows "r \<noteq> Out_of_fuel"
proof -
  let ?s0 = "runtime_of h control w" and ?specs = "router_specs (hn_tools h)"
  have log: "traced (effect_ok False (he_json env) (hn_config h)) ?s0" by (simp add: traced_def runtime_of_def)
  have started: "wp (start_run env h ?specs opts prompt) (\<lambda>r t. r \<noteq> Out_of_fuel) ?s0"
    by (simp add: wp_def lively_start_run [unfolded lively_def])
  have "wp (run_turn n k env h StopAtCheckpoint opts prompt) (\<lambda>r t. r \<noteq> Out_of_fuel) ?s0"
    unfolding run_turn_def Let_def wp_bindA
  proof (rule wp_conseq [OF wp_conj [OF wp_start_run [where D = False, OF log] started]], goal_cases)
    case (2 r t)
    show ?case
    proof (cases r)
      case (Done lv)
      then show ?thesis
        using 2 assms(4) by (auto intro!: run_loop_returns [OF assms(1-3)])
    qed (use 2 in auto)
  qed simp
  then show ?thesis
    using assms(5) by (auto simp: run_with_control_mode_and_tool_context_def wp_def split: prod.splits)
qed

subsection \<open>Restoring a session\<close>

lemma check_messages_ok: "check_messages js c ms = Inr () \<longleftrightarrow> list_all (\<lambda>m. check_message js c m = Inr ()) ms"
  by (induction ms) (auto split: sum.split)

lemma check_message_error: "check_message js c m = Inl e \<Longrightarrow> le_limit e < le_actual e"
  by (auto simp: check_message_def limit_def Let_def split: message.splits if_splits)

lemma check_messages_error: "check_messages js c ms = Inl e \<Longrightarrow> le_limit e < le_actual e"
  by (induction ms) (auto split: sum.splits dest: check_message_error)

lemma repaired_messages: "set (st_messages (snd (repair_incomplete_tool_groups st))) \<subseteq> set (st_messages st)"
proof -
  have "set (repair_tool_groups ms) \<subseteq> set ms" for ms :: "'v message list"
  proof
    fix m
    assume "m \<in> set (repair_tool_groups ms)"
    then have "subseq [m] (repair_tool_groups ms)" by (simp add: subseq_singleton_left)
    then have "subseq [m] ms" using repair_tool_groups_inv(1) by (rule subseq_order.order_trans)
    then show "m \<in> set ms" by (simp add: subseq_singleton_left)
  qed
  then show ?thesis by (auto simp: repair_incomplete_spec replace_messages_def bump_revision_def)
qed

lemma restore_parts_result:
  "case restore_parts js c specs pending st of
     Inl e \<Rightarrow> le_limit e < le_actual e
   | Inr (st', kept) \<Rightarrow> complete_groups (st_messages st')
       \<and> context_bytes js (hc_system_prompt c) specs st' \<le> hc_max_context_bytes c
       \<and> list_all (\<lambda>m. check_message js c m = Inr ()) (st_messages st')"
proof -
  obtain kept st1 where st1: "reapply_pending js pending st = (kept, st1)" by (meson surj_pair)
  show ?thesis
  proof (cases "check_messages js c (st_messages st1)")
    case (Inl e)
    then show ?thesis using check_messages_error [OF Inl] by (simp add: restore_parts_def st1)
  next
    case (Inr u)
    then have "list_all (\<lambda>m. check_message js c m = Inr ()) (st_messages (snd (repair_incomplete_tool_groups st1)))"
      using check_messages_ok [of js c "st_messages st1"] repaired_messages [of st1] by (auto simp: list_all_iff)
    then show ?thesis
      using complete_groups_repaired [of st1]
      by (simp add: restore_parts_def st1 Inr Let_def context_limit_of_def limit_def)
  qed
qed

text \<open>
  C5.  Restoring a session is all or nothing.  A refused session leaves the harness as it was, and
  the refusal names a bound that is really exceeded; an accepted one has complete tool groups, fits
  the context limit and holds no item over its own bound, even when interrupted groups had to be
  repaired and pending injections applied again.
\<close>

theorem restore_session_all_or_nothing:
  assumes "restore_session js st h = (r, h')"
  shows "case r of
      Inl e \<Rightarrow> h' = h \<and> le_limit e < le_actual e
    | Inr _ \<Rightarrow> complete_groups (st_messages (hn_session h'))
        \<and> context_bytes js (hc_system_prompt (hn_config h')) (router_specs (hn_tools h')) (hn_session h')
            \<le> hc_max_context_bytes (hn_config h')
        \<and> list_all (\<lambda>m. check_message js (hn_config h') m = Inr ()) (st_messages (hn_session h'))
        \<and> hn_config h' = hn_config h \<and> hn_tools h' = hn_tools h"
  using assms restore_parts_result [of js "hn_config h" "router_specs (hn_tools h)" "hn_pending h" st]
  by (auto simp: restore_session_def split: sum.splits prod.splits)

subsection \<open>Fork checkpoints\<close>

definition fork_effect :: "'v effect \<Rightarrow> bool" where
  "fork_effect e = (case e of
     E_Model request \<Rightarrow> rq_tools request = []
   | E_Observe (ContextCompactionStarted n) \<Rightarrow> True
   | E_Observe (ContextCompactionFinished n m usage) \<Rightarrow> True
   | E_Observe (RunFailed failure) \<Rightarrow> True
   | _ \<Rightarrow> False)"

definition aside ::
  "(string \<times> context_injection_record) list \<Rightarrow> run_control \<Rightarrow> ('w, 'v) runtime \<Rightarrow> bool" where
  "aside pending control s \<longleftrightarrow> rt_pending s = pending \<and> rt_control s = control \<and> traced fork_effect s"

lemma keeps_aside [act_rules]:
  "keeps (aside p c) (mod_session f)" "keeps (aside p c) (fail_limit env l)" "keeps (aside p c) (fail_compaction env t)"
  "keeps (aside p c) (observe env (ContextCompactionStarted n))"
  "keeps (aside p c) (observe env (ContextCompactionFinished n m usage))"
  "rq_tools request = [] \<Longrightarrow> keeps (aside p c) (send_request request)"
  by (auto simp: keeps_def act_simps mod_session_def observe_def fail_limit_def fail_compaction_def send_request_def
      aside_def fork_effect_def)

lemma keeps_respond_silently: "keeps (aside p c) (respond_silently k m request)"
  by (rule keepsI, drule wpD [OF wp_respond_silently]) (auto simp: aside_def)

lemma keeps_compact_context_to: "keeps (aside p c) (compact_context_to k env h specs target must)"
  unfolding compact_context_to_def compact_parts_def finish_compacted_def session_messages_def Let_def
  by (auto intro!: act_rules keeps_respond_silently simp: model_request_of_def)

lemma keeps_fork_checkpoint: "keeps (aside p c) (fork_checkpoint k env h specs policy)"
  unfolding fork_checkpoint_def run_context_bytes_def ensure_context_limit_def compact_context_def
  by (auto intro!: act_rules keeps_compact_context_to simp: liftA_def split: sum.split)

definition forked ::
  "('w, 'v) host_env \<Rightarrow> ('w, 'v, 'e) harness \<Rightarrow> fork_context_policy \<Rightarrow> 'v fork_preparation \<Rightarrow> bool" where
  "forked env h policy fork \<longleftrightarrow>
    fp_context_after_bytes fork = context_bytes (he_json env) (hc_system_prompt (hn_config h))
      (router_specs (hn_tools h)) (fp_session fork)
    \<and> fp_context_after_bytes fork \<le> hc_max_context_bytes (hn_config h)
    \<and> fp_context_before_bytes fork = context_bytes (he_json env) (hc_system_prompt (hn_config h))
      (router_specs (hn_tools h)) (hn_session h)
    \<and> (complete_groups (st_messages (hn_session h)) \<longrightarrow> complete_groups (st_messages (fp_session fork)))
    \<and> (fp_method fork = Method_Exact \<longrightarrow> fp_session fork = hn_session h)
    \<and> (fp_method fork \<noteq> Method_Exact \<longrightarrow> policy = Fork_Compact
         \<and> fp_context_after_bytes fork < fp_context_before_bytes fork)"

lemma silent_json [simp]: "he_json (silent env) = he_json env"
  by (simp add: silent_def)

lemma wp_fork_checkpoint:
  fixes h :: "('w, 'v, 'e) harness"
  assumes "rt_session s = hn_session h" and "rt_trace s = []"
  shows "wp (fork_checkpoint k env h (router_specs (hn_tools h)) policy)
    (\<lambda>r t. \<forall>fork. r = Done fork \<longrightarrow> forked env h policy fork) s"
proof (cases policy)
  case Fork_Exact
  then show ?thesis
    using assms(1)
    by (simp add: fork_checkpoint_def run_context_bytes_def wp_simps wp_ensure_context_limit within_limit_def forked_def)
next
  case Fork_Compact
  let ?D = "complete_groups (st_messages (hn_session h))"
  let ?js = "he_json env" and ?c = "hn_config h" and ?specs = "router_specs (hn_tools h)"
  have "traced (effect_ok ?D (he_json (silent env)) ?c) s" "owes ?D {} s"
    using assms by (simp_all add: traced_def owes_def complete_groups_def)
  note compact = wp_compact_context_to [OF this, where k = k and specs = ?specs
      and target = "hc_max_context_bytes ?c div 2" and must = False, simplified]
  have compacted: "wp (compact_context k (silent env) h ?specs) (\<lambda>r t. \<forall>how. r = Done how \<longrightarrow>
      shrunk ?D ?js ?c ?specs {} s how t) s"
    unfolding compact_context_def by (rule wp_conseq [OF compact]) auto
  show ?thesis
    unfolding fork_checkpoint_def run_context_bytes_def wp_bindA [of "getA _"] wp_getA outcome.case
    using Fork_Compact assms(1)
    by (auto simp: wp_simps wp_ensure_context_limit within_limit_def forked_def shrunk_def owes_def complete_groups_def
        intro!: wp_conseq [OF compacted] split: outcome.split if_splits)
qed

text \<open>A fork that is still waiting has not replaced the session.\<close>

definition waits_unchanged :: "(('w, 'v) runtime, 'err, 'a) act \<Rightarrow> bool" where
  "waits_unchanged m \<longleftrightarrow> (\<forall>s s'. m s = (Out_of_fuel, s') \<longrightarrow> rt_session s' = rt_session s)"

lemma waits_lively: "lively m \<Longrightarrow> waits_unchanged m"
  unfolding lively_def waits_unchanged_def
proof (intro allI impI)
  fix s s'
  assume "\<forall>s. fst (m s) \<noteq> Out_of_fuel" and run: "m s = (Out_of_fuel, s')"
  then have "fst (m s) \<noteq> Out_of_fuel" by blast
  with run show "rt_session s' = rt_session s" by simp
qed

lemma waits_bind_quiet:
  assumes "waits_unchanged m" and "\<And>s x s'. m s = (Done x, s') \<Longrightarrow> rt_session s' = rt_session s"
    and "\<And>x. waits_unchanged (f x)"
  shows "waits_unchanged (bindA m f)"
  unfolding waits_unchanged_def
proof (intro allI impI)
  fix s s'
  assume run: "bindA m f s = (Out_of_fuel, s')"
  obtain r1 s1 where m: "m s = (r1, s1)" by (meson surj_pair)
  show "rt_session s' = rt_session s"
    using run m assms by (cases r1) (auto simp: act_simps waits_unchanged_def)
qed

lemma waits_bind_lively:
  assumes "waits_unchanged m" and "\<And>x. lively (f x)"
  shows "waits_unchanged (bindA m f)"
  unfolding waits_unchanged_def
proof (intro allI impI)
  fix s s'
  assume run: "bindA m f s = (Out_of_fuel, s')"
  obtain r1 s1 where m: "m s = (r1, s1)" by (meson surj_pair)
  have "fst (f x s1) \<noteq> Out_of_fuel" for x using assms(2) by (simp add: lively_def)
  then show "rt_session s' = rt_session s"
    using run m assms(1) by (cases r1) (auto simp: act_simps waits_unchanged_def, metis fst_conv)
qed

lemma waits_respond_silently: "waits_unchanged (respond_silently k m request)"
  unfolding waits_unchanged_def by (auto dest!: wpD [OF wp_respond_silently])

lemma waits_rules:
  "waits_unchanged (retA x)"
  "(\<And>x. waits_unchanged (l x)) \<Longrightarrow> waits_unchanged (bindA (getA g) l)"
  "(\<And>x. waits_unchanged (f x)) \<Longrightarrow> waits_unchanged (bindA (observe env ev) f)"
  "(\<And>x. waits_unchanged (f x)) \<Longrightarrow> waits_unchanged (bindA (send_request request) f)"
  "(\<And>a b. waits_unchanged (p a b)) \<Longrightarrow> waits_unchanged (case y of (a, b) \<Rightarrow> p a b)"
  "waits_unchanged m \<Longrightarrow> waits_unchanged n \<Longrightarrow> waits_unchanged (if c then m else n)"
  by (auto simp: waits_unchanged_def act_simps observe_def send_request_def split: prod.split)

lemma waits_compact_context: "waits_unchanged (compact_context k env h specs)"
proof -
  have settle: "lively (bindA (finish_compacted env c ms n usage sp) (\<lambda>_. retA how))" for c ms n usage sp how
    by (intro lively_rules)
  show ?thesis
    unfolding compact_context_def compact_context_to_def compact_parts_def session_messages_def Let_def seqA_def
    by (intro waits_rules waits_lively [OF settle] waits_bind_lively [OF waits_respond_silently] lively_cases settle)
qed

lemma fork_waiting:
  fixes h :: "('w, 'v, 'e) harness"
  assumes "fork_checkpoint k env h specs policy s = (r, s')" and "r = Out_of_fuel" and "rt_session s = st"
  shows "rt_session s' = st"
proof -
  have exact: "lively (seqA (map_errA HE_Limit (ensure_context_limit env (hn_config h) specs))
      (getA (\<lambda>s. \<lparr>fp_session = rt_session s, fp_context_before_bytes = a, fp_context_after_bytes = b,
        fp_method = how\<rparr>)))" for a b how
    by (intro lively_rules)
  have "waits_unchanged (fork_checkpoint k env h specs policy)"
    unfolding fork_checkpoint_def run_context_bytes_def
    by (intro waits_rules waits_bind_lively [OF waits_compact_context] waits_lively [OF exact] lively_bindA exact
        lively_basic)
  then show ?thesis using assms unfolding waits_unchanged_def by blast
qed

text \<open>
  C6.  Preparing a fork never changes the harness: session, pending injections and control are the
  same on every ending, even while the summary is still awaited, and nothing but compaction events
  and requests without tools happens.  The checkpoint fits the limit, reports its true sizes, keeps
  complete groups complete, is the session itself when nothing was compacted and strictly smaller
  when something was.
\<close>

theorem fork_leaves_harness_alone:
  fixes h :: "('w, 'v, 'e) harness"
  assumes "prepare_fork_checkpoint k env policy h (runtime_of h control w) = (r, s)"
  shows "rt_session s = hn_session h \<and> rt_pending s = hn_pending h \<and> rt_control s = control
    \<and> list_all fork_effect (rt_trace s) \<and> (\<forall>fork. r = Done fork \<longrightarrow> forked env h policy fork)"
proof -
  let ?s0 = "runtime_of h control w" and ?specs = "router_specs (hn_tools h)"
  obtain r1 s1 where fork: "fork_checkpoint k env h ?specs policy ?s0 = (r1, s1)" by (meson surj_pair)
  have s0: "rt_session ?s0 = hn_session h" "rt_trace ?s0 = []" "aside (hn_pending h) control ?s0"
    by (simp_all add: runtime_of_def aside_def traced_def)
  have aside: "aside (hn_pending h) control s1"
    using keepsD [OF keeps_fork_checkpoint s0(3) fork] .
  have result: "r1 = Done f \<Longrightarrow> forked env h policy f" for f
    using wpD [OF wp_fork_checkpoint [OF s0(1,2)] fork] by blast
  show ?thesis
  proof (cases "r1 = Out_of_fuel")
    case True
    have "rt_session s1 = hn_session h" using fork True s0(1) by (rule fork_waiting)
    then show ?thesis
      using assms fork True aside
      by (simp add: prepare_fork_checkpoint_def act_simps aside_def traced_def)
  next
    case False
    then show ?thesis
      using assms fork aside result s0(1)
      by (cases r1) (auto simp: prepare_fork_checkpoint_def act_simps mod_session_def aside_def traced_def)
  qed
qed

subsection \<open>A prompt over the limit, and a cancelled run\<close>

text \<open>The history a run starts from: the session, its interrupted groups dropped.\<close>

definition starting_history :: "('w, 'v, 'e) harness \<Rightarrow> 'v message list" where
  "starting_history h = st_messages (snd (repair_incomplete_tool_groups (hn_session h)))"

definition asks_model :: "'v effect list \<Rightarrow> bool" where
  "asks_model log \<longleftrightarrow> (\<exists>request. E_Model request \<in> set log)"

text \<open>
  A prompt that would push the history over the context limit fails the run with the true sizes
  and without asking the model.  Under \<open>Reject\<close> the history is afterwards what it was before the
  prompt; under \<open>Compact\<close> the prompt stays in it, although nothing was compacted.
\<close>

theorem over_limit_prompt:
  fixes h :: "('w, 'v, 'e) harness"
  assumes "ero_resume opts = None" and "length prompt \<le> hc_max_user_input_bytes (hn_config h)"
    and "\<not> journal_can_fail env"
    and "bytes = context_bytes_for (he_json env) (hc_system_prompt (hn_config h))
      (starting_history h @ [User prompt]) (router_specs (hn_tools h))"
    and "hc_max_context_bytes (hn_config h) < bytes"
    and "run_with_control_mode_and_tool_context n k env mode opts prompt control w h = (r, h', s)"
  shows "r = Raised (HE_Limit (limit ContextBytes (hc_max_context_bytes (hn_config h)) bytes))
    \<and> \<not> asks_model (rt_trace s)
    \<and> st_messages (hn_session h') = (if hc_context_limit_behavior (hn_config h) = Reject
        then starting_history h else starting_history h @ [User prompt])"
proof -
  let ?c = "hn_config h" and ?specs = "router_specs (hn_tools h)"
  let ?st = "snd (repair_incomplete_tool_groups (hn_session h))"
  define l where "l = limit ContextBytes (hc_max_context_bytes ?c) bytes"
  let ?post = "\<lambda>r t. r = Raised (HE_Limit l) \<and> \<not> asks_model (rt_trace t)
    \<and> st_messages (rt_session t) = (if hc_context_limit_behavior ?c = Reject
        then starting_history h else starting_history h @ [User prompt])"
  have rejected: "wp (caseA (prepare_context env ?c ?specs) (\<lambda>_. retA ([], 0))
      (\<lambda>e. seqA (if hc_context_limit_behavior ?c = Reject
         then mod_session (truncate_messages (length (starting_history h))) else retA ()) (raiseA e))) ?post t"
    if "rt_session t = push (User prompt) ?st" and "\<not> asks_model (rt_trace t)" for t
    using that assms(4,5)
    by (auto simp: prepare_context_def wp_simps wp_ensure_context_limit within_limit_def context_bytes_def
        push_def bump_revision_def truncate_messages_def starting_history_def asks_model_def l_def)
  have written: "wp (seqA (write_checkpoint env x 1 [])
      (caseA (prepare_context env ?c ?specs) (\<lambda>_. retA ([], 0))
      (\<lambda>e. seqA (if hc_context_limit_behavior ?c = Reject
         then mod_session (truncate_messages (length (starting_history h))) else retA ()) (raiseA e)))) ?post t"
    if t: "rt_session t = push (User prompt) ?st" "\<not> asks_model (rt_trace t)" for t x
  proof (cases x)
    case None
    with rejected [OF t] show ?thesis by (simp only: write_checkpoint_def option.case wp_seqA wp_retA outcome.case)
  next
    case (Some y)
    show ?thesis
      unfolding write_checkpoint_def Some option.case wp_seqA wp_bindA [of session_messages] wp_session_messages
        outcome.case journal_entry_def wp_map_errA
    proof (rule wp_append_if_presentI, goal_cases)
      case (1 v)
      show ?case
        unfolding outcome.case
        by (rule rejected) (use t in \<open>auto simp: asks_model_def journaled_def split: option.splits\<close>)
    qed (use assms(3) in simp)
  qed
  have fresh: "wp (begin_fresh env h ?specs x prompt) ?post t"
    if t: "rt_session t = ?st" "\<not> asks_model (rt_trace t)" for t x
  proof -
    have n: "length (st_messages (rt_session t)) = length (starting_history h)"
      by (simp add: t(1) starting_history_def)
    show ?thesis
      unfolding begin_fresh_def wp_bindA [of "getA _"] wp_getA outcome.case n wp_seqA [of "mod_session _"] wp_mod_session
      by (rule written) (use t in simp_all)
  qed
  have valid: "validate_user_input ?c prompt = Inr ()"
    using assms(2) by (simp add: validate_user_input_def)
  have begun: "wp (begin_run env h ?specs opts prompt) ?post (runtime_of h control w)"
    unfolding begin_run_def Let_def assms(1) option.case valid sum.case wp_seqA wp_mod_session wp_observe outcome.case
    by (rule fresh) (simp_all add: runtime_of_def asks_model_def)
  have "wp (run_turn n k env h mode opts prompt) ?post (runtime_of h control w)"
    unfolding run_turn_def Let_def start_run_def wp_bindA
    by (rule wp_conseq [OF begun]) auto
  then show ?thesis
    using assms(6) by (auto simp: run_with_control_mode_and_tool_context_def wp_def l_def split: prod.splits)
qed

text \<open>Nothing so far took the cancellation, and the model was not asked.\<close>

definition calm :: "run_control \<Rightarrow> ('w, 'v) runtime \<Rightarrow> bool" where
  "calm control s \<longleftrightarrow> rt_control s = control \<and> \<not> asks_model (rt_trace s)"

lemma keeps_calm [act_rules]:
  "keeps (calm c) (mod_session f)" "keeps (calm c) (observe env ev)" "keeps (calm c) (append_if_present env entry)"
  "keeps (calm c) (fail_limit env l)" "keeps (calm c) session_messages"
  by (auto simp: keeps_def act_simps mod_session_def observe_def fail_limit_def append_if_present_def calm_def
      asks_model_def session_messages_def split: option.split prod.split sum.split)

lemma keeps_start_fresh:
  assumes "ero_resume opts = None"
  shows "keeps (calm c) (start_run env h specs opts given)"
  unfolding start_run_def begin_run_def begin_fresh_def assms option.case write_checkpoint_def journal_entry_def
    prepare_context_def ensure_context_limit_def liftA_def Let_def
  by (auto intro!: act_rules split: sum.split option.split)

text \<open>
  A run that was cancelled before it starts, the request standing, never asks the model: it
  ends as cancelled at its first control point, unless it already failed on its input or journal.
\<close>

theorem cancelled_run_asks_nothing:
  fixes h :: "('w, 'v, 'e) harness"
  assumes "rc_cancel_requested control" and "ero_resume opts = None"
    and "\<And>c w. rc_cancel_requested c \<Longrightarrow> rc_cancel_requested (fst (he_others env c w))"
    and "run_with_control_mode_and_tool_context (Suc n) k env mode opts prompt control w h = (r, h', s)"
  shows "\<not> asks_model (rt_trace s)
    \<and> (case r of Done out \<Rightarrow> ro_stop_reason out = Stop_Cancelled | Raised e \<Rightarrow> True | Out_of_fuel \<Rightarrow> False)"
proof -
  let ?specs = "router_specs (hn_tools h)"
  let ?post = "\<lambda>r t. \<not> asks_model (rt_trace t)
    \<and> (case r of Done out \<Rightarrow> ro_stop_reason out = Stop_Cancelled | Raised e \<Rightarrow> True | Out_of_fuel \<Rightarrow> False)"
  have stop: "wp (run_loop (Suc n) k env h ?specs mode opts lv) ?post t" if t: "calm control t" for lv t
  proof -
    obtain c w where cw: "he_others env control (rt_world t) = (c, w)" by (meson surj_pair)
    then have "rc_cancel_requested c"
      using assms(1,3) by (metis fst_conv)
    then show ?thesis
      using t by (simp add: loop_iteration_def at_control_point_def control_action_def swap_cancel_def wp_simps cw
          take_cancel_requested_def finish_now_def calm_def asks_model_def)
  qed
  have "calm control (runtime_of h control w)" by (simp add: calm_def runtime_of_def asks_model_def)
  then have calm: "wp (start_run env h ?specs opts prompt) (\<lambda>r t. calm control t) (runtime_of h control w)"
    by (rule wp_keeps [OF keeps_start_fresh [OF assms(2)]])
  have returns: "wp (start_run env h ?specs opts prompt) (\<lambda>r t. r \<noteq> Out_of_fuel) (runtime_of h control w)"
    by (simp add: wp_def lively_start_run [unfolded lively_def])
  have "wp (run_turn (Suc n) k env h mode opts prompt) ?post (runtime_of h control w)"
    unfolding run_turn_def Let_def wp_bindA
  proof (rule wp_conseq [OF wp_conj [OF calm returns]], goal_cases)
    case (1 r t)
    then show ?case using stop by (cases r) (auto simp: calm_def)
  qed
  then show ?thesis
    using assms(4) by (auto simp: run_with_control_mode_and_tool_context_def wp_def split: prod.splits)
qed

subsection \<open>Witnesses\<close>

text \<open>A model that answers every request at once, and a harness around it.\<close>

definition sample_model :: "nat tool_call list \<Rightarrow> (nat, nat, unit) model" where
  "sample_model calls = \<lparr>md_context_snapshot = (\<lambda>w s. None), md_is_context_window_error = (\<lambda>w e. False),
     md_poll = (\<lambda>request w. (([], Some (Inr \<lparr>mr_reasoning = [], mr_text = ''done'', mr_tool_calls = calls,
       mr_usage = None\<rparr>)), w))\<rparr>"

definition sample_config :: harness_config where
  "sample_config = \<lparr>hc_system_prompt = ''p'', hc_max_steps = 2, hc_max_context_item_bytes = 64,
     hc_max_user_input_bytes = 64, hc_max_model_response_bytes = 64, hc_max_tool_calls_per_step = 4,
     hc_max_tool_output_bytes = 64, hc_max_context_bytes = 64, hc_context_limit_behavior = Reject\<rparr>"

definition sample_harness :: "nat tool_call list \<Rightarrow> (nat, nat, unit) harness" where
  "sample_harness calls = harness_new (sample_model calls) sample_router sample_config"

lemma sample_serde_sel [simp]:
  "ser_messages sample_serde ms = replicate (2 * length ms + 2) (CHR ''m'')"
  "ser_specs sample_serde ts = replicate (2 * length ts + 2) (CHR ''t'')"
  "ser_calls sample_serde cs = ''[]''"
  by (simp_all add: sample_serde_def)

lemma sample_history: "st_messages (snd (repair_incomplete_tool_groups session_new)) = []"
  by (simp add: repair_incomplete_spec session_new_def complete_groups_def)


lemma sample_config_sel [simp]:
  "hc_system_prompt sample_config = ''p''" "hc_max_steps sample_config = 2"
  "hc_max_user_input_bytes sample_config = 64" "hc_max_model_response_bytes sample_config = 64"
  "hc_max_tool_calls_per_step sample_config = 4" "hc_max_context_bytes sample_config = 64"
  "hc_max_tool_output_bytes sample_config = 64" "hc_context_limit_behavior sample_config = Reject"
  by (simp_all add: sample_config_def)

lemma sample_harness_sel [simp]:
  "hn_model (sample_harness calls) = sample_model calls" "hn_tools (sample_harness calls) = sample_router"
  "hn_config (sample_harness calls) = sample_config" "hn_session (sample_harness calls) = session_new"
  "hn_pending (sample_harness calls) = []"
  by (simp_all add: sample_harness_def harness_new_def)

lemma sample_specs: "router_specs sample_router = [\<lparr>ts_name = ''f'', ts_description = [], ts_parameters = 0\<rparr>]"
  by (simp add: router_specs_def is_hidden_def sample_router_def router_new_def router_with_executor_def
      sample_tool_def legacy_tool_def)

lemma sample_within: "within_limit sample_serde sample_config specs s \<longleftrightarrow> length (st_messages (rt_session s)) + length specs \<le> 29"
  by (simp add: within_limit_def context_bytes_def context_bytes_for_def) arith


lemma sample_run_asks:
  "wp (run_turn (Suc (Suc (Suc 0))) (Suc 0) sample_env (sample_harness []) StopAtCheckpoint default_run_options ''hi'')
    (\<lambda>r s. (\<exists>request. E_Model request \<in> set (rt_trace s))
       \<and> (\<exists>step bytes hash tools. E_Observe (ModelStarted step bytes hash tools) \<in> set (rt_trace s)))
    (runtime_of (sample_harness []) run_control_new 0)"
  apply (simp add: run_turn_def start_run_def begin_run_def begin_fresh_def wp_simps default_run_options_def Let_def
    validate_user_input_def write_checkpoint_def prepare_context_def wp_ensure_context_limit sample_within sample_specs
   runtime_of_def sample_history push_def bump_revision_def)
  apply (simp add: loop_iteration_def at_control_point_def control_action_def swap_cancel_def load_steer_def wp_simps
   take_cancel_requested_def is_steer_requested_def run_control_new_def Let_def model_step_def show_pending_injections_def
   prepare_context_def wp_ensure_context_limit sample_within sat_add_def u64_max_def write_checkpoint_def max_context_window_compaction_retries_def)
  apply (subst model_round.simps)
  apply (simp add: request_once_def wp_simps Let_def load_cancel_def is_cancel_requested_def sample_model_def)
  apply (simp add: after_response_def take_response_def check_response_def model_response_bytes_def Let_def wp_simps compacts_after_def
   at_control_point_def control_action_def swap_cancel_def load_steer_def take_cancel_requested_def is_steer_requested_def finish_now_def model_started_def)
  done

lemma sample_distinct: "distinct_call_ids (sample_model [])"
  by (simp add: distinct_call_ids_def sample_model_def)

lemma sample_answers: "answers_within (Suc 0) sample_env (sample_model calls)"
  unfolding answers_within_def
  by (rule exI [of _ "\<lambda>request w. 0"]) (simp add: sample_model_def)

lemma sample_resume: "resume_ok default_run_options"
  by (simp add: resume_ok_def default_run_options_def)

text \<open>The run every witness is about.\<close>

definition sample_run ::
  "harness_config \<Rightarrow> bool \<Rightarrow> (unit harness_error, nat run_outcome) outcome \<times> (nat, nat, unit) harness \<times> (nat, nat) runtime" where
  "sample_run c cancelled = run_with_control_mode_and_tool_context (Suc (Suc (Suc 0))) (Suc 0) sample_env
     StopAtCheckpoint default_run_options ''hi'' (run_control_new\<lparr>rc_cancel_requested := cancelled\<rparr>) 0
     (replace_config c (sample_harness []))"

lemma sample_run_obtain:
  obtains r h' s where "run_with_control_mode_and_tool_context (Suc (Suc (Suc 0))) (Suc 0) sample_env
     StopAtCheckpoint default_run_options ''hi'' (run_control_new\<lparr>rc_cancel_requested := cancelled\<rparr>) 0
     (replace_config c (sample_harness [])) = (r, h', s)" and "sample_run c cancelled = (r, h', s)"
  unfolding sample_run_def by (metis surj_pair)

lemma sample_replace [simp]:
  "replace_config sample_config (sample_harness calls) = sample_harness calls"
  "run_control_new\<lparr>rc_cancel_requested := False\<rparr> = run_control_new"
  by (simp_all add: replace_config_def sample_harness_def harness_new_def run_control_new_def)

lemma replace_config_sel [simp]:
  "hn_config (replace_config c h) = c" "hn_session (replace_config c h) = hn_session h"
  "hn_tools (replace_config c h) = hn_tools h" "hn_model (replace_config c h) = hn_model h"
  by (simp_all add: replace_config_def)

lemma sample_run_trace:
  "\<exists>request. E_Model request \<in> set (rt_trace (snd (snd (sample_run sample_config False))))"
  "\<exists>step bytes hash tools. E_Observe (ModelStarted step bytes hash tools)
     \<in> set (rt_trace (snd (snd (sample_run sample_config False))))"
  using sample_run_asks
  by (auto simp: sample_run_def run_with_control_mode_and_tool_context_def wp_def split: prod.splits) blast

theorem run_requests_fit_witness:
  "\<exists>request. E_Model request \<in> set (rt_trace (snd (snd (sample_run sample_config False))))
    \<and> context_bytes_for sample_serde (rq_system_prompt request) (rq_messages request) (rq_tools request) \<le> 64"
proof -
  obtain r h' s where run: "run_with_control_mode_and_tool_context (Suc (Suc (Suc 0))) (Suc 0) sample_env
     StopAtCheckpoint default_run_options ''hi'' (run_control_new\<lparr>rc_cancel_requested := False\<rparr>) 0
     (replace_config sample_config (sample_harness [])) = (r, h', s)" "sample_run sample_config False = (r, h', s)"
    by (rule sample_run_obtain)
  from sample_run_trace(1) obtain request where q: "E_Model request \<in> set (rt_trace s)" by (auto simp: run(2))
  from run_requests_fit [OF run(1) q] q show ?thesis by (auto simp: run(2))
qed

theorem run_history_answers_every_call_witness:
  "list_all (\<lambda>e. case e of E_Model request \<Rightarrow> complete_groups (rq_messages request) | _ \<Rightarrow> True)
     (rt_trace (snd (snd (sample_run sample_config False))))"
proof -
  obtain r h' s where run: "run_with_control_mode_and_tool_context (Suc (Suc (Suc 0))) (Suc 0) sample_env
     StopAtCheckpoint default_run_options ''hi'' (run_control_new\<lparr>rc_cancel_requested := False\<rparr>) 0
     (replace_config sample_config (sample_harness [])) = (r, h', s)" "sample_run sample_config False = (r, h', s)"
    by (rule sample_run_obtain)
  have "distinct_call_ids (hn_model (replace_config sample_config (sample_harness [])))"
    by (simp add: sample_distinct)
  from run_history_answers_every_call [OF this sample_resume run(1)] show ?thesis
    by (auto simp: run(2) list_all_iff split: effect.splits)
qed

theorem run_reports_its_outcome_witness:
  "case fst (sample_run sample_config False) of
      Done out \<Rightarrow> ro_messages out = st_messages (hn_session (fst (snd (sample_run sample_config False))))
    | _ \<Rightarrow> endings (rt_trace (snd (snd (sample_run sample_config False)))) = []"
proof -
  obtain r h' s where run: "run_with_control_mode_and_tool_context (Suc (Suc (Suc 0))) (Suc 0) sample_env
     StopAtCheckpoint default_run_options ''hi'' (run_control_new\<lparr>rc_cancel_requested := False\<rparr>) 0
     (replace_config sample_config (sample_harness [])) = (r, h', s)" "sample_run sample_config False = (r, h', s)"
    by (rule sample_run_obtain)
  from run_reports_its_outcome [OF run(1)] show ?thesis by (simp add: run(2) split: outcome.splits)
qed

theorem run_steps_bounded_witness:
  "\<exists>step bytes hash tools. E_Observe (ModelStarted step bytes hash tools)
     \<in> set (rt_trace (snd (snd (sample_run sample_config False)))) \<and> 0 < step \<and> step \<le> 2"
proof -
  obtain r h' s where run: "run_with_control_mode_and_tool_context (Suc (Suc (Suc 0))) (Suc 0) sample_env
     StopAtCheckpoint default_run_options ''hi'' (run_control_new\<lparr>rc_cancel_requested := False\<rparr>) 0
     (replace_config sample_config (sample_harness [])) = (r, h', s)" "sample_run sample_config False = (r, h', s)"
    by (rule sample_run_obtain)
  from sample_run_trace(2) obtain step bytes hash tools
    where e: "E_Observe (ModelStarted step bytes hash tools) \<in> set (rt_trace s)" by (auto simp: run(2))
  have "hc_max_steps (hn_config (replace_config sample_config (sample_harness []))) \<noteq> 0" by simp
  from run_steps_bounded [OF run(1) e this] e show ?thesis by (auto simp: run(2))
qed

theorem run_returns_witness: "fst (sample_run sample_config False) \<noteq> Out_of_fuel"
proof -
  obtain r h' s where run: "run_with_control_mode_and_tool_context (Suc (Suc (Suc 0))) (Suc 0) sample_env
     StopAtCheckpoint default_run_options ''hi'' (run_control_new\<lparr>rc_cancel_requested := False\<rparr>) 0
     (replace_config sample_config (sample_harness [])) = (r, h', s)" "sample_run sample_config False = (r, h', s)"
    by (rule sample_run_obtain)
  have "r \<noteq> Out_of_fuel"
    by (rule run_returns [OF _ _ _ _ run(1)]) (simp_all add: sample_answers u64_max_def)
  then show ?thesis by (simp add: run(2))
qed

theorem restore_session_all_or_nothing_witness:
  "case fst (restore_session sample_serde (from_messages [User ''a'', Assistant [] [] [sample_call ''i'']]) (sample_harness [])) of
     Inl e \<Rightarrow> le_limit e < le_actual e
   | Inr _ \<Rightarrow> complete_groups (st_messages (hn_session (snd (restore_session sample_serde
       (from_messages [User ''a'', Assistant [] [] [sample_call ''i'']]) (sample_harness [])))))"
proof -
  obtain r h' where run: "restore_session sample_serde (from_messages [User ''a'', Assistant [] [] [sample_call ''i'']])
      (sample_harness []) = (r, h')" by (meson surj_pair)
  from restore_session_all_or_nothing [OF run] show ?thesis by (simp add: run split: sum.splits)
qed

theorem fork_leaves_harness_alone_witness:
  "rt_session (snd (prepare_fork_checkpoint (Suc 0) sample_env Fork_Compact (sample_harness [])
      (runtime_of (sample_harness []) run_control_new 0))) = session_new"
proof -
  obtain r s where run: "prepare_fork_checkpoint (Suc 0) sample_env Fork_Compact (sample_harness [])
      (runtime_of (sample_harness []) run_control_new 0) = (r, s)" by (meson surj_pair)
  from fork_leaves_harness_alone [OF run] show ?thesis by (simp add: run)
qed

theorem over_limit_prompt_witness:
  "fst (sample_run (sample_config\<lparr>hc_max_context_bytes := 4, hc_context_limit_behavior := Compact\<rparr>) False)
      = Raised (HE_Limit (limit ContextBytes 4 9))
    \<and> st_messages (hn_session (fst (snd (sample_run (sample_config\<lparr>hc_max_context_bytes := 4,
        hc_context_limit_behavior := Compact\<rparr>) False)))) = [User ''hi'']"
proof -
  let ?c = "sample_config\<lparr>hc_max_context_bytes := 4, hc_context_limit_behavior := Compact\<rparr>"
  obtain r h' s where run: "run_with_control_mode_and_tool_context (Suc (Suc (Suc 0))) (Suc 0) sample_env
     StopAtCheckpoint default_run_options ''hi'' (run_control_new\<lparr>rc_cancel_requested := False\<rparr>) 0
     (replace_config ?c (sample_harness [])) = (r, h', s)" "sample_run ?c False = (r, h', s)"
    by (rule sample_run_obtain)
  have start: "starting_history (replace_config ?c (sample_harness [])) = []"
    by (simp add: starting_history_def sample_history)
  have bytes: "9 = context_bytes_for (he_json sample_env) (hc_system_prompt (hn_config (replace_config ?c (sample_harness []))))
      (starting_history (replace_config ?c (sample_harness [])) @ [User ''hi''])
      (router_specs (hn_tools (replace_config ?c (sample_harness []))))"
    by (simp add: start sample_specs context_bytes_for_def)
  show ?thesis
    using over_limit_prompt [OF _ _ _ bytes _ run(1)] start
    by (simp add: run(2) default_run_options_def)
qed

theorem cancelled_run_asks_nothing_witness:
  "\<not> asks_model (rt_trace (snd (snd (sample_run sample_config True))))"
proof -
  obtain r h' s where run: "run_with_control_mode_and_tool_context (Suc (Suc (Suc 0))) (Suc 0) sample_env
     StopAtCheckpoint default_run_options ''hi'' (run_control_new\<lparr>rc_cancel_requested := True\<rparr>) 0
     (replace_config sample_config (sample_harness [])) = (r, h', s)" "sample_run sample_config True = (r, h', s)"
    by (rule sample_run_obtain)
  have "\<not> asks_model (rt_trace s)"
    by (rule conjunct1 [OF cancelled_run_asks_nothing [OF _ _ _ run(1)]]) (simp_all add: default_run_options_def)
  then show ?thesis by (simp add: run(2))
qed

subsection \<open>A silent failure\<close>

definition announces_failure :: "'v effect list \<Rightarrow> bool" where
  "announces_failure log \<longleftrightarrow> (\<exists>failure. E_Observe (RunFailed failure) \<in> set log)"

definition sample_checkpoint :: "nat execution_checkpoint" where
  "sample_checkpoint = \<lparr>ecp_turn_id = TurnId ''t'', ecp_input = turn_input_new Start ''hi'', ecp_messages = [User ''hi''],
     ecp_next_model_step = 1, ecp_final_text = [], ecp_phase = Phase_ModelRequest, ecp_applied_steer_request_ids = []\<rparr>"

text \<open>
  A limit failure is not always announced: a resumed run whose checkpoint no longer fits the
  context limit announces its start, fails with the limit error and emits no failure event.
\<close>

theorem resumed_limit_failure_is_silent:
  "\<exists>h' s. run_with_control_mode_and_tool_context n k sample_env mode
      (default_run_options\<lparr>ero_resume := Some (sample_checkpoint, None)\<rparr>) ''hi'' run_control_new 0
      (replace_config (sample_config\<lparr>hc_max_context_bytes := 4\<rparr>) (sample_harness []))
      = (Raised (HE_Limit (limit ContextBytes 4 9)), h', s)
    \<and> rt_trace s = [E_Observe (RunStarted ''hi'')] \<and> \<not> announces_failure (rt_trace s)"
proof -
  let ?h = "replace_config (sample_config\<lparr>hc_max_context_bytes := 4\<rparr>) (sample_harness [])"
  have groups: "complete_groups [User ''hi'' :: nat message]"
    by (rule complete_groups_plain) simp
  have "wp (run_turn n k sample_env ?h mode (default_run_options\<lparr>ero_resume := Some (sample_checkpoint, None)\<rparr>) ''hi'')
    (\<lambda>r s. r = Raised (HE_Limit (limit ContextBytes 4 9)) \<and> rt_trace s = [E_Observe (RunStarted ''hi'')])
    (runtime_of ?h run_control_new 0)"
    by (simp add: run_turn_def start_run_def begin_run_def begin_resumed_def restore_run_def wp_simps Let_def
        validate_user_input_def sample_checkpoint_def turn_input_new_def runtime_of_def liftA_def restore_parts_def
        from_messages_def check_message_def repair_incomplete_spec groups context_limit_of_def context_bytes_def
        context_bytes_for_def sample_specs replace_config_def default_run_options_def)
  then show ?thesis
    by (auto simp: run_with_control_mode_and_tool_context_def wp_def announces_failure_def split: prod.split)
qed

end
