(* ===== verification/Thread.thy ===== *)
theory Thread
  imports Harness
begin

section \<open>Threads and turns (thread.rs)\<close>

text \<open>
  A thread owns a harness and runs one turn at a time over it: the admission of a turn and
  its identifier, the settled checkpoints a host stores, and the observer that wraps every
  event of a turn in a numbered envelope for a sink.  The sink acts on the world; the fields
  of the observer are its own, so a run under it works on pairs of the observer and the
  world, and every other party is lifted to the second component.
\<close>

subsection \<open>Data\<close>

datatype 'e thread_error =
    TE_Harness "'e harness_error"
  | TE_Busy
  | TE_Closed
  | TE_NoActiveTurn
  | TE_TurnNotActive turn_id
  | TE_InvalidInputMode turn_input_mode
  | TE_SkillActivation string

definition input_mode_debug :: "turn_input_mode \<Rightarrow> string" where
  "input_mode_debug mode = (case mode of
     Start \<Rightarrow> ''Start'' | StartIfIdle \<Rightarrow> ''StartIfIdle'' | Steer \<Rightarrow> ''Steer'' | FollowUp \<Rightarrow> ''FollowUp'')"

definition thread_error_text :: "('e \<Rightarrow> string) \<Rightarrow> 'e thread_error \<Rightarrow> string" where
  "thread_error_text show_model err = (case err of
     TE_Harness e \<Rightarrow> harness_error_text show_model e
   | TE_Busy \<Rightarrow> ''thread already has an active turn''
   | TE_Closed \<Rightarrow> ''thread is closed''
   | TE_NoActiveTurn \<Rightarrow> ''thread has no active turn''
   | TE_TurnNotActive i \<Rightarrow> ''turn '' @ turn_id_str i @ '' is not active''
   | TE_InvalidInputMode mode \<Rightarrow> ''cannot start turn with '' @ input_mode_debug mode
   | TE_SkillActivation e \<Rightarrow> ''skill activation failed: '' @ e)"

record 'v turn_result =
  trs_id :: turn_id
  trs_status :: turn_status
  trs_outcome :: "'v run_outcome"

record 'v thread_checkpoint =
  tcp_thread_id :: thread_id
  tcp_session :: "'v session_state"
  tcp_status :: thread_status
  tcp_next_turn_number :: nat
  tcp_last_turn_id :: "turn_id option"
  tcp_next_event_sequence :: nat

record ('w, 'v, 'e) thread =
  th_id :: thread_id
  th_harness :: "('w, 'v, 'e) harness"
  th_status :: thread_status
  th_next_turn_number :: nat
  th_last_turn_id :: "turn_id option"
  th_next_event_sequence :: nat

text \<open>\<open>journal\<close> is the one of the environment.\<close>

record 'v turn_execution_options =
  txo_prelude :: "'v event list"
  txo_preflight_error :: "string option"
  txo_resume :: "('v execution_checkpoint \<times> 'v execution_tool_batch option) option"
  txo_applied_steer_request_ids :: "string list"

subsection \<open>Operations at settled boundaries\<close>

definition thread_new :: "thread_id \<Rightarrow> ('w, 'v, 'e) harness \<Rightarrow> ('w, 'v, 'e) thread" where
  "thread_new i h = \<lparr>th_id = i, th_harness = h, th_status = Thread_Idle, th_next_turn_number = 1,
     th_last_turn_id = None, th_next_event_sequence = 1\<rparr>"

definition set_id :: "thread_id \<Rightarrow> ('w, 'v, 'e) thread \<Rightarrow> ('w, 'v, 'e) thread" where
  "set_id i th = (if th_id th \<noteq> i
     then th\<lparr>th_id := i, th_next_turn_number := 1, th_last_turn_id := None, th_next_event_sequence := 1\<rparr>
     else th)"

definition set_next_turn_number :: "nat \<Rightarrow> ('w, 'v, 'e) thread \<Rightarrow> ('w, 'v, 'e) thread" where
  "set_next_turn_number n th = th\<lparr>th_next_turn_number := max n 1\<rparr>"

definition turn_name :: "thread_id \<Rightarrow> nat \<Rightarrow> turn_id" where
  "turn_name i n = TurnId (''turn-'' @ thread_id_str i @ ''-'' @ decimal n)"

definition next_turn_id :: "('w, 'v, 'e) thread \<Rightarrow> turn_id" where
  "next_turn_id th = turn_name (th_id th) (th_next_turn_number th)"

definition checkpoint :: "('w, 'v, 'e) thread \<Rightarrow> 'e thread_error + 'v thread_checkpoint" where
  "checkpoint th =
    (if th_status th = Thread_Running then Inl TE_Busy
     else Inr \<lparr>tcp_thread_id = th_id th, tcp_session = hn_session (th_harness th),
       tcp_status = th_status th, tcp_next_turn_number = th_next_turn_number th,
       tcp_last_turn_id = th_last_turn_id th, tcp_next_event_sequence = th_next_event_sequence th\<rparr>)"

definition restore_checkpoint ::
  "'v serde \<Rightarrow> 'v thread_checkpoint \<Rightarrow> ('w, 'v, 'e) thread \<Rightarrow> ('e thread_error + unit) \<times> ('w, 'v, 'e) thread" where
  "restore_checkpoint js cp th =
    (if th_status th = Thread_Running then (Inl TE_Busy, th)
     else (case restore_session js (tcp_session cp) (th_harness th) of
         (Inl l, h) \<Rightarrow> (Inl (TE_Harness (HE_Limit l)), th\<lparr>th_harness := h\<rparr>)
       | (Inr _, h) \<Rightarrow> (Inr (), th\<lparr>th_id := tcp_thread_id cp, th_harness := h, th_status := tcp_status cp,
           th_next_turn_number := max (tcp_next_turn_number cp) 1, th_last_turn_id := tcp_last_turn_id cp,
           th_next_event_sequence := max (tcp_next_event_sequence cp) 1\<rparr>)))"

definition close :: "('w, 'v, 'e) thread \<Rightarrow> ('e thread_error + unit) \<times> ('w, 'v, 'e) thread" where
  "close th = (if th_status th = Thread_Running then (Inl TE_Busy, th)
     else (Inr (), th\<lparr>th_status := Thread_Closed\<rparr>))"

definition cancel_turn ::
  "turn_cancel \<Rightarrow> ('w, 'v, 'e) thread \<Rightarrow> run_control \<Rightarrow> ('e thread_error + unit) \<times> run_control" where
  "cancel_turn cancel th control =
    (if th_status th = Thread_Closed then (Inl TE_Closed, control)
     else if th_status th \<noteq> Thread_Running then (Inl TE_NoActiveTurn, control)
     else if th_last_turn_id th \<noteq> Some (cancel_turn_id cancel)
     then (Inl (TE_TurnNotActive (cancel_turn_id cancel)), control)
     else (Inr (), request_cancel control))"

subsection \<open>Admission and ending of a turn\<close>

definition begin_turn :: "turn_input \<Rightarrow> ('w, 'v, 'e) thread \<Rightarrow> ('e thread_error + turn_id) \<times> ('w, 'v, 'e) thread" where
  "begin_turn input th =
    (if th_status th = Thread_Closed then (Inl TE_Closed, th)
     else if th_status th = Thread_Running then (Inl TE_Busy, th)
     else if ti_mode input \<noteq> Start \<and> ti_mode input \<noteq> StartIfIdle
     then (Inl (TE_InvalidInputMode (ti_mode input)), th)
     else (case validate_user_input (hn_config (th_harness th)) (ti_text input) of
         Inl l \<Rightarrow> (Inl (TE_Harness (HE_Limit l)), th)
       | Inr _ \<Rightarrow> (Inr (next_turn_id th),
           th\<lparr>th_status := Thread_Running, th_next_turn_number := sat_add (th_next_turn_number th) 1,
             th_last_turn_id := Some (next_turn_id th)\<rparr>)))"

text \<open>The admission of a recovered turn, which keeps its identifier.\<close>

definition resume_turn ::
  "'v execution_checkpoint \<Rightarrow> turn_input \<Rightarrow> ('w, 'v, 'e) thread \<Rightarrow> ('e thread_error + turn_id) \<times> ('w, 'v, 'e) thread" where
  "resume_turn cp input th =
    (if th_status th = Thread_Closed then (Inl TE_Closed, th)
     else if th_status th = Thread_Running then (Inl TE_Busy, th)
     else if ecp_input cp \<noteq> input then (Inl (TE_InvalidInputMode (ti_mode input)), th)
     else (case validate_user_input (hn_config (th_harness th)) (ti_text input) of
         Inl l \<Rightarrow> (Inl (TE_Harness (HE_Limit l)), th)
       | Inr _ \<Rightarrow> (Inr (ecp_turn_id cp),
           th\<lparr>th_status := Thread_Running, th_last_turn_id := Some (ecp_turn_id cp)\<rparr>)))"

definition admit_turn ::
  "'v turn_execution_options \<Rightarrow> turn_input \<Rightarrow> ('w, 'v, 'e) thread
    \<Rightarrow> ('e thread_error + turn_id) \<times> ('w, 'v, 'e) thread" where
  "admit_turn opts input th =
    (case txo_resume opts of Some (cp, _) \<Rightarrow> resume_turn cp input th | None \<Rightarrow> begin_turn input th)"

definition status_for_outcome :: "'v run_outcome \<Rightarrow> turn_status" where
  "status_for_outcome out = (case ro_stop_reason out of
     Stop_Completed \<Rightarrow> Turn_Completed
   | Stop_StepLimit \<Rightarrow> Turn_StepLimit
   | Stop_Steered \<Rightarrow> Turn_Steered
   | Stop_Cancelled \<Rightarrow> Turn_Cancelled)"

definition finish_turn ::
  "turn_id \<Rightarrow> 'e harness_error + 'v run_outcome \<Rightarrow> ('w, 'v, 'e) thread
    \<Rightarrow> ('e thread_error + 'v turn_result) \<times> ('w, 'v, 'e) thread" where
  "finish_turn i result th = (case result of
     Inr out \<Rightarrow> (Inr \<lparr>trs_id = i, trs_status = status_for_outcome out, trs_outcome = out\<rparr>,
       th\<lparr>th_status := Thread_Idle\<rparr>)
   | Inl e \<Rightarrow> (Inl (TE_Harness e), th\<lparr>th_status := Thread_Failed\<rparr>))"

definition finished_status :: "'e harness_error + 'v run_outcome \<Rightarrow> turn_status" where
  "finished_status result = (case result of Inr out \<Rightarrow> status_for_outcome out | Inl _ \<Rightarrow> Turn_Failed)"

definition prefer_models :: "turn_input \<Rightarrow> ('w, 'v, 'e) thread \<Rightarrow> ('w, 'v, 'e) thread" where
  "prefer_models input th = th\<lparr>th_harness := set_model_preferences (ti_model_selection input)
     (ti_reasoning_selection input) (ti_reasoning_effort input) (th_harness th)\<rparr>"

definition turn_context :: "('w, 'v, 'e) thread \<Rightarrow> turn_id \<Rightarrow> tool_execution_context" where
  "turn_context th i = \<lparr>tec_thread_id = th_id th, tec_turn_id = i, tec_project_id = None,
     tec_workspace_id = None, tec_workspace_revision = None, tec_session_id = None\<rparr>"

text \<open>The result of a computation that returned.\<close>

definition returned :: "('e, 'a) outcome \<Rightarrow> ('e + 'a) option" where
  "returned r = (case r of Done x \<Rightarrow> Some (Inr x) | Raised e \<Rightarrow> Some (Inl e) | Out_of_fuel \<Rightarrow> None)"

definition as_outcome :: "'e + 'a \<Rightarrow> ('e, 'a) outcome" where
  "as_outcome r = (case r of Inr x \<Rightarrow> Done x | Inl e \<Rightarrow> Raised e)"

subsection \<open>A turn under an observer\<close>

text \<open>
  What a turn leaves behind: its result, the thread, the run control, the world and the
  effects.  A turn whose run has not returned leaves the thread in the middle of it.
\<close>

record ('w, 'v, 'e) turn_end =
  te_result :: "('e thread_error, 'v turn_result) outcome"
  te_thread :: "('w, 'v, 'e) thread"
  te_control :: run_control
  te_world :: 'w
  te_trace :: "'v effect list"

definition run_turn_observed ::
  "nat \<Rightarrow> nat \<Rightarrow> ('w, 'v) host_env \<Rightarrow> steering_mode \<Rightarrow> turn_input \<Rightarrow> run_control \<Rightarrow> 'w
    \<Rightarrow> ('w, 'v, 'e) thread \<Rightarrow> ('w, 'v, 'e) turn_end" where
  "run_turn_observed n k env mode input control w th0 =
    (case begin_turn input th0 of
       (Inl e, th) \<Rightarrow> \<lparr>te_result = Raised e, te_thread = th, te_control = control, te_world = w, te_trace = []\<rparr>
     | (Inr i, th) \<Rightarrow>
         let th1 = prefer_models input th;
             started = TurnStarted (ti_mode input) (ti_text input);
             opts = default_run_options\<lparr>ero_tool_context := Some (turn_context th1 i)\<rparr>
         in (case run_with_control_mode_and_tool_context n k (env\<lparr>he_journal := None\<rparr>) mode opts (ti_text input)
               control (he_observe env started w) (th_harness th1) of
           (r, h, s) \<Rightarrow>
             let th2 = th1\<lparr>th_harness := h\<rparr>; log = E_Observe started # rt_trace s in
             (case returned r of
                None \<Rightarrow> \<lparr>te_result = Out_of_fuel, te_thread = th2, te_control = rt_control s,
                  te_world = rt_world s, te_trace = log\<rparr>
              | Some result \<Rightarrow>
                  let finished = TurnFinished (finished_status result) in
                  (case finish_turn i result th2 of
                     (result', th3) \<Rightarrow> \<lparr>te_result = as_outcome result', te_thread = th3,
                       te_control = rt_control s, te_world = he_observe env finished (rt_world s),
                       te_trace = log @ [E_Observe finished]\<rparr>))))"

subsection \<open>Envelopes\<close>

text \<open>\<open>eo_emitted\<close> is the history of the envelopes handed to the sink; nothing reads it.\<close>

record 'v envelope_observer =
  eo_thread_id :: thread_id
  eo_turn_id :: turn_id
  eo_next_sequence :: nat
  eo_active_compaction_item_id :: "string option"
  eo_active_model_item_id :: "string option"
  eo_emitted :: "'v event_envelope list"

definition envelope_observer_new :: "thread_id \<Rightarrow> turn_id \<Rightarrow> nat \<Rightarrow> 'v envelope_observer" where
  "envelope_observer_new th i n = \<lparr>eo_thread_id = th, eo_turn_id = i, eo_next_sequence = n,
     eo_active_compaction_item_id = None, eo_active_model_item_id = None, eo_emitted = []\<rparr>"

definition skills_item_id :: "turn_id \<Rightarrow> string" where
  "skills_item_id i = turn_id_str i @ '':skills''"

definition model_item_id :: "turn_id \<Rightarrow> nat \<Rightarrow> string" where
  "model_item_id i step = turn_id_str i @ '':model:'' @ decimal step"

definition compaction_item_id :: "turn_id \<Rightarrow> nat \<Rightarrow> string" where
  "compaction_item_id i n = turn_id_str i @ '':compaction:'' @ decimal n"

text \<open>The item an event belongs to, and the observer after it.\<close>

definition assign_item :: "'v event \<Rightarrow> nat \<Rightarrow> 'v envelope_observer \<Rightarrow> string option \<times> 'v envelope_observer" where
  "assign_item ev n o' = (case ev of
     SkillsLoaded _ _ _ \<Rightarrow> (Some (skills_item_id (eo_turn_id o')), o')
   | SkillsLoadFailed _ _ _ \<Rightarrow> (Some (skills_item_id (eo_turn_id o')), o')
   | SkillGroupActivated _ _ \<Rightarrow> (Some (skills_item_id (eo_turn_id o')), o')
   | ModelStarted step _ _ _ \<Rightarrow>
       (let item = Some (model_item_id (eo_turn_id o') step) in (item, o'\<lparr>eo_active_model_item_id := item\<rparr>))
   | AssistantReasoningDelta _ \<Rightarrow> (eo_active_model_item_id o', o')
   | AssistantTextDelta _ \<Rightarrow> (eo_active_model_item_id o', o')
   | ModelResponded _ _ _ _ _ _ _ \<Rightarrow> (eo_active_model_item_id o', o'\<lparr>eo_active_model_item_id := None\<rparr>)
   | ContextCompactionStarted _ \<Rightarrow>
       (let item = Some (compaction_item_id (eo_turn_id o') n) in (item, o'\<lparr>eo_active_compaction_item_id := item\<rparr>))
   | ContextCompactionFinished _ _ _ \<Rightarrow>
       (eo_active_compaction_item_id o', o'\<lparr>eo_active_compaction_item_id := None\<rparr>)
   | _ \<Rightarrow> (None, o'))"

definition observe_envelope ::
  "('w, 'v) event_sink \<Rightarrow> 'v event \<Rightarrow> 'v envelope_observer \<times> 'w \<Rightarrow> 'v envelope_observer \<times> 'w" where
  "observe_envelope sink ev = (\<lambda>(o0, w0).
    (case es_before_event sink (eo_thread_id o0) (eo_turn_id o0) ev (eo_next_sequence o0) w0 of (n, w1) \<Rightarrow>
    (case assign_item ev n (o0\<lparr>eo_next_sequence := sat_add n 1\<rparr>) of (item, o1) \<Rightarrow>
      let envelope = (event_envelope_new (eo_thread_id o1) (Some (eo_turn_id o1)) n ev)\<lparr>ee_item_id := item\<rparr>;
          o2 = o1\<lparr>eo_emitted := eo_emitted o1 @ [envelope]\<rparr>
      in (case es_after_event sink (eo_thread_id o2) (eo_turn_id o2) ev (eo_next_sequence o2)
                 (es_emit sink envelope w1) of
            (m, w2) \<Rightarrow> (o2\<lparr>eo_next_sequence := m\<rparr>, w2)))))"

subsection \<open>The parties of a run beside the observer\<close>

text \<open>
  A function of the world, run beside the observer's fields.  The tools, the model, the
  journal and the other threads of a run under envelopes are the ones of the harness,
  lifted; a lifted executor finds the tool of a request in the original router.
\<close>

definition beside :: "('w \<Rightarrow> 'a \<times> 'w) \<Rightarrow> 'o \<times> 'w \<Rightarrow> 'a \<times> ('o \<times> 'w)" where
  "beside f = (\<lambda>(o0, w). case f w of (x, w') \<Rightarrow> (x, (o0, w')))"

definition lift_tool :: "('w, 'v) tool \<Rightarrow> ('o \<times> 'w, 'v) tool" where
  "lift_tool t = \<lparr>tl_spec = tl_spec t,
     tl_admission = (\<lambda>request w. tl_admission t request (snd w)),
     tl_execute_outcome = (\<lambda>args. beside (tl_execute_outcome t args)),
     tl_execute_after_admission = (\<lambda>request admission. beside (tl_execute_after_admission t request admission)),
     tl_recovery_replay_safety = tl_recovery_replay_safety t\<rparr>"

definition lift_router :: "('w, 'v) tool_router \<Rightarrow> ('o \<times> 'w, 'v) tool_router" where
  "lift_router router = \<lparr>tr_tools = map lift_tool (tr_tools router),
     tr_executor = (\<lambda>_ request. beside (execute_outcome router request)), tr_hidden = tr_hidden router\<rparr>"

definition lift_model :: "('w, 'v, 'e) model \<Rightarrow> ('o \<times> 'w, 'v, 'e) model" where
  "lift_model m = \<lparr>md_context_snapshot = (\<lambda>w. md_context_snapshot m (snd w)),
     md_is_context_window_error = (\<lambda>w. md_is_context_window_error m (snd w)),
     md_poll = (\<lambda>request. beside (md_poll m request))\<rparr>"

definition lift_harness :: "('w, 'v, 'e) harness \<Rightarrow> ('o \<times> 'w, 'v, 'e) harness" where
  "lift_harness h = \<lparr>hn_model = lift_model (hn_model h), hn_tools = lift_router (hn_tools h),
     hn_config = hn_config h, hn_session = hn_session h, hn_pending = hn_pending h,
     hn_model_selection = hn_model_selection h, hn_reasoning_selection = hn_reasoning_selection h,
     hn_reasoning_effort = hn_reasoning_effort h\<rparr>"

definition envelope_env ::
  "('w, 'v) event_sink \<Rightarrow> ('w, 'v) host_env \<Rightarrow> ('v envelope_observer \<times> 'w, 'v) host_env" where
  "envelope_env sink env = \<lparr>he_json = he_json env,
     he_journal = map_option (\<lambda>write entry. beside (write entry)) (he_journal env),
     he_observe = observe_envelope sink,
     he_clock = (\<lambda>w. he_clock env (snd w)),
     he_others = (\<lambda>control. beside (he_others env control))\<rparr>"

subsection \<open>A turn with envelopes\<close>

definition observe_prelude ::
  "('w, 'v) event_sink \<Rightarrow> 'v event list \<Rightarrow> 'v envelope_observer \<times> 'w \<Rightarrow> 'v envelope_observer \<times> 'w" where
  "observe_prelude sink evs x = foldl (\<lambda>x ev. observe_envelope sink ev x) x evs"

definition event_run_options ::
  "'v turn_execution_options \<Rightarrow> turn_input \<Rightarrow> ('w, 'v, 'e) thread \<Rightarrow> turn_id \<Rightarrow> 'v execution_run_options" where
  "event_run_options opts input th i = \<lparr>ero_tool_context = Some (turn_context th i),
     ero_execution_context = Some \<lparr>erc_turn_id = i, erc_input = input,
       erc_applied_steer_request_ids = txo_applied_steer_request_ids opts\<rparr>,
     ero_resume = txo_resume opts\<rparr>"

text \<open>What a turn leaves behind, the observer it dropped included.\<close>

record ('w, 'v, 'e) event_turn_end =
  ete_result :: "('e thread_error, 'v turn_result) outcome"
  ete_thread :: "('w, 'v, 'e) thread"
  ete_control :: run_control
  ete_world :: 'w
  ete_observer :: "'v envelope_observer option"
  ete_trace :: "'v effect list"

definition take_harness :: "('o \<times> 'w, 'v, 'e) harness \<Rightarrow> ('w, 'v, 'e) thread \<Rightarrow> ('w, 'v, 'e) thread" where
  "take_harness h th = th\<lparr>th_harness := (th_harness th)\<lparr>hn_session := hn_session h, hn_pending := hn_pending h\<rparr>\<rparr>"

definition end_event_turn ::
  "('w, 'v) event_sink \<Rightarrow> turn_id \<Rightarrow> 'e harness_error + 'v run_outcome \<Rightarrow> run_control
    \<Rightarrow> 'v envelope_observer \<times> 'w \<Rightarrow> 'v effect list \<Rightarrow> ('w, 'v, 'e) thread \<Rightarrow> ('w, 'v, 'e) event_turn_end" where
  "end_event_turn sink i result control x log th =
    (let finished = TurnFinished (finished_status result) in
     case observe_envelope sink finished x of (o', w) \<Rightarrow>
     case finish_turn i result (th\<lparr>th_next_event_sequence := eo_next_sequence o'\<rparr>) of (result', th') \<Rightarrow>
       \<lparr>ete_result = as_outcome result', ete_thread = th', ete_control = control, ete_world = w,
        ete_observer = Some o', ete_trace = log @ [E_Observe finished]\<rparr>)"

definition refuse_event_turn ::
  "('w, 'v) event_sink \<Rightarrow> string \<Rightarrow> run_control \<Rightarrow> 'v envelope_observer \<times> 'w \<Rightarrow> 'v effect list
    \<Rightarrow> ('w, 'v, 'e) thread \<Rightarrow> ('w, 'v, 'e) event_turn_end" where
  "refuse_event_turn sink err control x log th =
    (case observe_envelope sink (TurnFinished Turn_Failed) x of (o', w) \<Rightarrow>
       \<lparr>ete_result = Raised (TE_SkillActivation err),
        ete_thread = th\<lparr>th_next_event_sequence := eo_next_sequence o', th_status := Thread_Idle\<rparr>,
        ete_control = control, ete_world = w, ete_observer = Some o',
        ete_trace = log @ [E_Observe (TurnFinished Turn_Failed)]\<rparr>)"

text \<open>
  \<open>run_turn_with_events_and_preflight_and_journal_resume\<close>; its shorter forms only fix some
  of the options.
\<close>

definition run_turn_with_events_and_journal_resume ::
  "nat \<Rightarrow> nat \<Rightarrow> ('w, 'v) host_env \<Rightarrow> ('w, 'v) event_sink \<Rightarrow> steering_mode \<Rightarrow> 'v turn_execution_options
    \<Rightarrow> turn_input \<Rightarrow> run_control \<Rightarrow> 'w \<Rightarrow> ('w, 'v, 'e) thread \<Rightarrow> ('w, 'v, 'e) event_turn_end" where
  "run_turn_with_events_and_journal_resume n k env sink mode opts input control w th0 =
    (case admit_turn opts input th0 of
       (Inl e, th) \<Rightarrow> \<lparr>ete_result = Raised e, ete_thread = th, ete_control = control, ete_world = w,
          ete_observer = None, ete_trace = []\<rparr>
     | (Inr i, th) \<Rightarrow>
         let th1 = prefer_models input th;
             opening = TurnStarted (ti_mode input) (ti_text input) # txo_prelude opts;
             x = observe_prelude sink opening
                   (envelope_observer_new (th_id th1) i (th_next_event_sequence th1), w);
             log = map E_Observe opening
         in (case txo_preflight_error opts of
               Some err \<Rightarrow> refuse_event_turn sink err control x log th1
             | None \<Rightarrow>
                 (case run_with_control_mode_and_tool_context n k (envelope_env sink env) mode
                     (event_run_options opts input th1 i) (ti_text input) control x (lift_harness (th_harness th1)) of
                   (r, h, s) \<Rightarrow>
                     (case returned r of
                        None \<Rightarrow> \<lparr>ete_result = Out_of_fuel, ete_thread = take_harness h th1,
                          ete_control = rt_control s, ete_world = snd (rt_world s),
                          ete_observer = Some (fst (rt_world s)), ete_trace = log @ rt_trace s\<rparr>
                      | Some result \<Rightarrow> end_event_turn sink i result (rt_control s) (rt_world s)
                          (log @ rt_trace s) (take_harness h th1)))))"

definition run_turn_with_events_and_preflight ::
  "nat \<Rightarrow> nat \<Rightarrow> ('w, 'v) host_env \<Rightarrow> ('w, 'v) event_sink \<Rightarrow> steering_mode \<Rightarrow> 'v event list \<Rightarrow> string option
    \<Rightarrow> turn_input \<Rightarrow> run_control \<Rightarrow> 'w \<Rightarrow> ('w, 'v, 'e) thread \<Rightarrow> ('w, 'v, 'e) event_turn_end" where
  "run_turn_with_events_and_preflight n k env sink mode prelude preflight_error =
    run_turn_with_events_and_journal_resume n k (env\<lparr>he_journal := None\<rparr>) sink mode
      \<lparr>txo_prelude = prelude, txo_preflight_error = preflight_error, txo_resume = None,
       txo_applied_steer_request_ids = []\<rparr>"

definition run_turn_with_events_and_prelude ::
  "nat \<Rightarrow> nat \<Rightarrow> ('w, 'v) host_env \<Rightarrow> ('w, 'v) event_sink \<Rightarrow> steering_mode \<Rightarrow> 'v event list
    \<Rightarrow> turn_input \<Rightarrow> run_control \<Rightarrow> 'w \<Rightarrow> ('w, 'v, 'e) thread \<Rightarrow> ('w, 'v, 'e) event_turn_end" where
  "run_turn_with_events_and_prelude n k env sink mode prelude =
    run_turn_with_events_and_preflight n k env sink mode prelude None"

definition run_turn_with_events ::
  "nat \<Rightarrow> nat \<Rightarrow> ('w, 'v) host_env \<Rightarrow> ('w, 'v) event_sink \<Rightarrow> steering_mode
    \<Rightarrow> turn_input \<Rightarrow> run_control \<Rightarrow> 'w \<Rightarrow> ('w, 'v, 'e) thread \<Rightarrow> ('w, 'v, 'e) event_turn_end" where
  "run_turn_with_events n k env sink mode = run_turn_with_events_and_prelude n k env sink mode []"

subsection \<open>The lifted parties act on the world alone\<close>

lemma beside_simps [simp]: "fst (snd (beside f x)) = fst x" "snd (snd (beside f x)) = snd (f (snd x))"
    "fst (beside f x) = fst (f (snd x))"
  by (simp_all add: beside_def split: prod.split)

lemma spec_lift_tool [simp]: "tl_spec (lift_tool t) = tl_spec t"
  by (simp add: lift_tool_def)

lemma router_specs_lift [simp]: "router_specs (lift_router router) = router_specs router"
  by (simp add: router_specs_def lift_router_def is_hidden_def filter_map comp_def)

lemma find_tool_lift: "find_tool (lift_router router) name = map_option lift_tool (find_tool router name)"
proof -
  have "find (\<lambda>t. ts_name (tl_spec t) = name \<and> ts_name (tl_spec t) \<notin> hidden) (map lift_tool ts)
      = map_option lift_tool (find (\<lambda>t. ts_name (tl_spec t) = name \<and> ts_name (tl_spec t) \<notin> hidden) ts)" for ts hidden
    by (induction ts) auto
  then show ?thesis by (simp add: find_tool_def lift_router_def is_hidden_def)
qed

lemma execute_outcome_lift: "execute_outcome (lift_router router) request = beside (execute_outcome router request)"
proof (cases "find_tool router (ter_name request)")
  case None
  then show ?thesis
    by (simp add: execute_outcome_def [of "lift_router router"] find_tool_lift fun_eq_iff)
      (simp add: beside_def execute_outcome_def)
next
  case (Some t)
  then show ?thesis
    by (simp add: execute_outcome_def [of "lift_router router"] find_tool_lift fun_eq_iff)
      (simp add: lift_router_def)
qed

lemma recovery_replay_safety_lift: "recovery_replay_safety (lift_router router) = recovery_replay_safety router"
  by (simp add: recovery_replay_safety_def find_tool_lift fun_eq_iff lift_tool_def split: option.split)

end
