(* ===== verification/Str_Split.thy ===== *)
theory Str_Split
  imports Rust_Str
begin

section \<open>Splitting strings\<close>

text \<open>
  The splitting and trimming functions of \<open>str\<close> that the capability and host crates use:
  \<open>rfind\<close>, \<open>split_whitespace\<close>, \<open>trim_matches\<close>, \<open>rsplit\<close>, \<open>split\<close>, \<open>lines\<close> and the parsing of
  unsigned integers, on the bytes of UTF-8 strings.
\<close>

text \<open>The index of the last occurrence of a pattern.\<close>

fun rfind_sub :: "string \<Rightarrow> string \<Rightarrow> nat option" where
  "rfind_sub p [] = (if p = [] then Some 0 else None)"
| "rfind_sub p (c # s) = (case rfind_sub p s of
     Some i \<Rightarrow> Some (Suc i)
   | None \<Rightarrow> if starts_with p (c # s) then Some 0 else None)"

fun until_ws :: "string \<Rightarrow> string \<times> string" where
  "until_ws [] = ([], [])"
| "until_ws (c # s) = (if starts_with_ws (c # s) then ([], c # s) else (case until_ws s of (t, r) \<Rightarrow> (c # t, r)))"

lemma until_ws_length: "length (snd (until_ws s)) \<le> length s"
  by (induction s) (auto split: prod.split)

lemma until_ws_head:
  assumes "\<not> starts_with_ws s" and "s \<noteq> []"
  shows "length (snd (until_ws s)) < length s"
  using assms until_ws_length [of "tl s"] by (cases s) (auto split: prod.split)

lemma trim_start_no_ws: "\<not> starts_with_ws (trim_start s)"
proof (induction s rule: trim_start.induct)
  case (1 s)
  then show ?case by (subst trim_start.simps) (auto simp: starts_with_ws_def)
qed

function split_whitespace :: "string \<Rightarrow> string list" where
  "split_whitespace s = (if trim_start s = [] then []
     else fst (until_ws (trim_start s)) # split_whitespace (snd (until_ws (trim_start s))))"
  by pat_completeness auto
termination
proof (relation "measure length")
  fix s :: string
  assume "trim_start s \<noteq> []"
  then show "(snd (until_ws (trim_start s)), s) \<in> measure length"
    using until_ws_head [OF trim_start_no_ws] length_trim_start [of s] by (auto intro: less_le_trans)
qed simp

declare split_whitespace.simps [simp del]

definition trim_matches :: "(char \<Rightarrow> bool) \<Rightarrow> string \<Rightarrow> string" where
  "trim_matches p s = rev (dropWhile p (rev (dropWhile p s)))"

text \<open>The part after the last of the given separators.\<close>

definition after_last :: "char list \<Rightarrow> string \<Rightarrow> string" where
  "after_last seps s = rev (takeWhile (\<lambda>c. c \<notin> set seps) (rev s))"

definition forward_slashes :: "string \<Rightarrow> string" where
  "forward_slashes s = replace_char (CHR 0x5C) (CHR ''/'') s"

text \<open>\<open>str::lines\<close>: newline terminated, a carriage return before it dropped.\<close>

fun split_on :: "char \<Rightarrow> string \<Rightarrow> string list" where
  "split_on c [] = [[]]"
| "split_on c (x # xs) = (if x = c then [] # split_on c xs
     else (case split_on c xs of [] \<Rightarrow> [[x]] | l # ls \<Rightarrow> (x # l) # ls))"

definition str_lines :: "string \<Rightarrow> string list" where
  "str_lines s = (let ls = split_on newline_byte s;
      kept = (if last ls = [] then butlast ls else ls);
      ended = (if last ls = [] then length kept else length kept - 1) in
    map (\<lambda>(i, l). if i < ended then (case strip_suffix [CHR 0x0D] l of Some l' \<Rightarrow> l' | None \<Rightarrow> l) else l)
      (enumerate 0 kept))"

definition ascii_digit :: "char \<Rightarrow> bool" where
  "ascii_digit c \<longleftrightarrow> 0x30 \<le> bv c \<and> bv c \<le> 0x39"

fun digits_value :: "nat \<Rightarrow> string \<Rightarrow> nat" where
  "digits_value acc [] = acc"
| "digits_value acc (c # cs) = digits_value (10 * acc + (bv c - 0x30)) cs"

lemma digit_char: "d < 10 \<Longrightarrow> ascii_digit (char_of (48 + d))" for d :: nat
  by (simp add: ascii_digit_def bv_def)

lemma decimal_digits: "list_all ascii_digit (decimal n)"
proof (induction n rule: decimal.induct)
  case (1 n)
  show ?case
  proof (cases "n < 10")
    case True
    then show ?thesis by (subst decimal.simps) (simp add: digit_char)
  next
    case False
    then show ?thesis using 1 by (subst decimal.simps) (simp add: digit_char)
  qed
qed

lemma decimal_nonempty [simp]: "decimal n \<noteq> []"
  by (subst decimal.simps) simp

lemma decimal_no_char: "\<not> ascii_digit c \<Longrightarrow> c \<notin> set (decimal n)"
  using decimal_digits [of n] by (auto simp: list_all_iff)

lemma digits_value_append: "digits_value acc (xs @ ys) = digits_value (digits_value acc xs) ys"
  by (induction xs arbitrary: acc) simp_all

lemma decimal_value [simp]: "digits_value 0 (decimal n) = n"
proof (induction n rule: decimal.induct)
  case (1 n)
  show ?case
  proof (cases "n < 10")
    case True
    then show ?thesis by (subst decimal.simps) (simp add: bv_def)
  next
    case False
    then show ?thesis using 1 by (subst decimal.simps) (simp add: digits_value_append bv_def)
  qed
qed

lemma decimal_inject [simp]: "decimal m = decimal n \<longleftrightarrow> m = n"
  by (metis decimal_value)

lemma last_separator:
  assumes "xs @ c # us = ys @ c # vs" and "c \<notin> set us" and "c \<notin> set vs"
  shows "xs = ys \<and> us = vs"
proof -
  have "takeWhile (\<lambda>x. x \<noteq> c) (rev (xs @ c # us)) = rev us" "takeWhile (\<lambda>x. x \<noteq> c) (rev (ys @ c # vs)) = rev vs"
    using assms(2,3) by (auto simp: takeWhile_append)
  then show ?thesis using assms(1) by simp
qed

text \<open>The last occurrence of a character that the rest of the string does not hold.\<close>

lemma rfind_sub_absent: "c \<notin> set s \<Longrightarrow> rfind_sub [c] s = None"
  by (induction s) (auto simp: starts_with_iff)

lemma rfind_sub_last: "c \<notin> set t \<Longrightarrow> rfind_sub [c] (s @ c # t) = Some (length s)"
  by (induction s) (auto simp: rfind_sub_absent)

text \<open>The lines of a text that ends in a newline.\<close>

lemma split_on_nonempty [simp]: "split_on c s \<noteq> []"
  by (cases s) (auto split: list.split)

lemma split_on_append: "split_on c (s @ c # t) = split_on c s @ split_on c t"
proof (induction s)
  case (Cons x s)
  then show ?case by (cases "split_on c s") (auto split: list.split)
qed simp

lemma split_on_absent: "c \<notin> set s \<Longrightarrow> split_on c s = [s]"
  by (induction s) auto

definition parse_u32 :: "string \<Rightarrow> nat option" where
  "parse_u32 s = (if s = [] \<or> \<not> list_all ascii_digit s \<or> 2 ^ 32 \<le> digits_value 0 s then None
     else Some (digits_value 0 s))"

text \<open>\<open>chars().take(n)\<close>: a prefix that ends at a character boundary.\<close>

function take_chars :: "nat \<Rightarrow> string \<Rightarrow> string" where
  "take_chars n s = (if n = 0 \<or> s = [] \<or> char_width s = 0 then []
     else take (char_width s) s @ take_chars (n - 1) (drop (char_width s) s))"
  by pat_completeness auto
termination
  by (relation "measure fst") auto

declare take_chars.simps [simp del]

text \<open>ASCII text is UTF-8.\<close>

lemma utf8_ascii: "list_all (\<lambda>c. bv c < 128) s \<Longrightarrow> utf8 s"
proof (induction s)
  case (Cons c s)
  then have "char_width (c # s) = 1" by (simp add: char_width_def lead_len_def)
  with Cons show ?case by (simp add: utf8_step [of "c # s"])
qed simp

lemma utf8_decimal [simp]: "utf8 (decimal n)"
  by (rule utf8_ascii) (use decimal_digits [of n] in \<open>auto simp: list_all_iff ascii_digit_def\<close>)

end
