(* ===== verification/World_Invariant.thy ===== *)
theory World_Invariant
  imports Harness_Safety
begin

section \<open>Invariants of the world\<close>

text \<open>
  A property of the world and the effects so far that the observer, the journal, the other
  threads, the model and the tools each keep is kept by a whole run, on every ending.
\<close>

definition in_world :: "('w \<Rightarrow> 'v effect list \<Rightarrow> bool) \<Rightarrow> ('w, 'v) runtime \<Rightarrow> bool" where
  "in_world I s \<longleftrightarrow> I (rt_world s) (rt_trace s)"

lemma keeps_loop_action [act_rules]:
  "keeps P f \<Longrightarrow> keeps P g \<Longrightarrow> (\<And>out. keeps P (k out)) \<Longrightarrow>
    keeps P (case a of Proceed \<Rightarrow> f | ContinueTurn \<Rightarrow> g | Finish out \<Rightarrow> k out)"
  by (cases a) auto

lemma keeps_Let [act_rules]: "keeps P (f x) \<Longrightarrow> keeps P (Let x f)"
  by simp

lemma keeps_nat [act_rules]: "keeps P f \<Longrightarrow> (\<And>m. keeps P (g m)) \<Longrightarrow> keeps P (case n of 0 \<Rightarrow> f | Suc m \<Rightarrow> g m)"
  by (cases n) auto

lemma keeps_session_parts [act_rules]:
  "keeps (in_world I) (mod_session f)" "keeps (in_world I) (step_session g)"
  "keeps (in_world I) session_messages"
  by (auto simp: mod_session_def step_session_def session_messages_def keeps_def in_world_def
      act_simps split: prod.split)

locale world_invariant =
  fixes env :: "('w, 'v) host_env" and m :: "('w, 'v, 'e) model" and router :: "('w, 'v) tool_router"
    and I :: "'w \<Rightarrow> 'v effect list \<Rightarrow> bool"
  assumes observe_world: "I w log \<Longrightarrow> I (he_observe env ev w) (log @ [E_Observe ev])"
    and journal_world: "he_journal env = Some write \<Longrightarrow> I w log \<Longrightarrow> write entry w = (Inr bytes, w') \<Longrightarrow>
      I w' (log @ [E_Journal entry])"
    and journal_failed_world: "he_journal env = Some write \<Longrightarrow> I w log \<Longrightarrow> write entry w = (Inl err, w') \<Longrightarrow>
      I w' log"
    and others_world: "I w log \<Longrightarrow> I (snd (he_others env control w)) log"
    and request_world: "I w log \<Longrightarrow> I w (log @ [E_Model request])"
    and model_world: "I w log \<Longrightarrow> I (snd (md_poll m request w)) log"
    and tool_world: "I w log \<Longrightarrow> I (snd (execute_outcome router call w)) (log @ [E_Tool call])"
begin

lemma keeps_send_request [act_rules]: "keeps (in_world I) (send_request request)"
  unfolding send_request_def by (rule keeps_modA) (simp add: in_world_def request_world)

lemma keeps_observe [act_rules]: "keeps (in_world I) (observe env ev)"
  unfolding observe_def by (rule keeps_modA) (simp add: in_world_def observe_world)

lemma keeps_append_if_present [act_rules]: "keeps (in_world I) (append_if_present env entry)"
proof (cases "he_journal env")
  case None
  then show ?thesis by (simp add: append_if_present_def keeps_retA)
next
  case (Some wr)
  then show ?thesis
    by (auto simp: append_if_present_def keeps_def in_world_def split: prod.split sum.split
        dest: journal_world [OF Some, where entry = entry] journal_failed_world [OF Some, where entry = entry])
qed

lemma keeps_on_control [act_rules]: "keeps (in_world I) (on_control env f)"
  unfolding on_control_def
  by (rule keeps_stepA) (simp add: in_world_def split_beta others_world)

lemma keeps_poll_model [act_rules]: "keeps (in_world I) (poll_model m request)"
  unfolding poll_model_def
  by (rule keeps_stepA) (simp add: in_world_def split_beta model_world)

lemma world_run_tool [act_rules]: "keeps (in_world I) (run_tool router request)"
  unfolding run_tool_def
  by (rule keeps_stepA) (simp add: in_world_def split_beta tool_world)

lemma keeps_control_steps [act_rules]:
  "keeps (in_world I) (load_cancel env)" "keeps (in_world I) (swap_cancel env)"
  "keeps (in_world I) (load_steer env)" "keeps (in_world I) (take_steer_steps env)"
  unfolding load_cancel_def swap_cancel_def load_steer_def take_steer_steps_def
  by (auto intro!: act_rules)

lemma world_forward_events [act_rules]: "keeps (in_world I) (forward_events env fw evs)"
  by (induction evs arbitrary: fw) (auto intro!: act_rules simp: forward_event_def Let_def)

lemma keeps_respond [act_rules]:
  "keeps (in_world I) (respond_until_cancelled n env m request fw)"
  "keeps (in_world I) (respond_silently n m request)"
  by (induction n arbitrary: fw) (auto intro!: act_rules)

lemma keeps_calls [act_rules]:
  "keeps (in_world I) (journal_for env opts entry)"
  "keeps (in_world I) (record_tool_result env opts call out)"
  "keeps (in_world I) (append_contexts env ts rs acc)"
  "keeps (in_world I) (settle_contexts env ms is)"
proof -
  show contexts: "keeps (in_world I) (append_contexts env ts rs acc)" for ts rs acc
    by (induction env ts rs acc rule: append_contexts.induct) (auto intro!: act_rules)
  show journal: "keeps (in_world I) (journal_for env opts entry)" for opts entry
    unfolding journal_for_def by (auto intro!: act_rules)
  show "keeps (in_world I) (record_tool_result env opts call out)"
    unfolding record_tool_result_def by (auto intro!: act_rules journal)
  show "keeps (in_world I) (settle_contexts env ms is)"
    unfolding settle_contexts_def by (auto intro!: act_rules contexts)
qed

lemma keeps_start_call [act_rules]: "keeps (in_world I) (start_call env router opts call vars)"
  unfolding start_call_def decide_outcome_def by (cases vars) (auto intro!: act_rules)

lemma keeps_execute_tool_batch [act_rules]: "keeps (in_world I) (execute_tool_batch env router calls opts)"
proof -
  have "keeps (in_world I) (execute_calls env router opts calls vars)" for vars
    by (induction calls arbitrary: vars) (auto intro!: act_rules simp: execute_call_def)
  then show ?thesis unfolding execute_tool_batch_def by (auto intro!: act_rules)
qed

lemma keeps_recover_tool_batch [act_rules]: "keeps (in_world I) (recover_tool_batch env router batch opts)"
proof -
  have one: "keeps (in_world I) (recover_call env router opts intent c vars)" for intent c vars
    unfolding recover_call_def append_recovered_call_def by (cases vars) (auto intro!: act_rules)
  have "keeps (in_world I) (recover_calls env router opts intent cs vars)" for intent cs vars
    by (induction cs arbitrary: vars) (auto intro!: act_rules one)
  then show ?thesis unfolding recover_tool_batch_def by (auto intro!: act_rules split: sum.split)
qed

lemma keeps_endings [act_rules]:
  "keeps (in_world I) (finish env t ms n reason)" "keeps (in_world I) (finish_now env lv reason)"
  "keeps (in_world I) (fail_limit env l)" "keeps (in_world I) (fail_compaction env why)"
  "keeps (in_world I) (fail_model env e)"
  unfolding finish_def finish_now_def fail_limit_def fail_compaction_def fail_model_def
  by (auto intro!: act_rules)

lemma keeps_checks [act_rules]:
  "keeps (in_world I) (ensure_context_limit env c specs)" "keeps (in_world I) (append_user_input c t)"
  "keeps (in_world I) (prepare_context env c specs)" "keeps (in_world I) (journal_entry env entry)"
  "keeps (in_world I) (write_checkpoint env x step t)" "keeps (in_world I) (settle_batch env x step t)"
  "keeps (in_world I) (check_response env c response)"
  unfolding ensure_context_limit_def append_user_input_def prepare_context_def journal_entry_def
    write_checkpoint_def settle_batch_def check_response_def liftA_def
  by (auto intro!: act_rules)

lemma keeps_control_action [act_rules]: "keeps (in_world I) (control_action env c mode lv)"
  unfolding control_action_def apply_steer_def
  by (auto intro!: act_rules split: option.split)

lemma keeps_finish_compacted [act_rules]:
  "keeps (in_world I) (finish_compacted env c compacted before_bytes usage specs)"
  unfolding finish_compacted_def by (auto intro!: act_rules simp: Let_def)

end

locale harness_world = world_invariant env "hn_model h" "hn_tools h" I
  for env :: "('w, 'v) host_env" and h :: "('w, 'v, 'e) harness" and I
begin

lemma keeps_compact [act_rules]:
  "keeps (in_world I) (compact_context_with_reduction_target k env h specs)"
  unfolding compact_context_with_reduction_target_def compact_context_to_def compact_parts_def run_context_bytes_def
  by (auto intro!: act_rules simp: Let_def split: prod.split)

lemma keeps_model_round [act_rules]: "keeps (in_world I) (model_round left k env h specs lv)"
proof -
  have request: "keeps (in_world I) (request_once k env h specs step)" for step
    unfolding request_once_def by (auto intro!: act_rules simp: Let_def split: sum.split)
  show ?thesis
    by (induction left) (subst model_round.simps; auto intro!: act_rules request split: option.split sum.split)+
qed

lemma keeps_at_control_point [act_rules]:
  "(\<And>lv'. keeps (in_world I) (f lv')) \<Longrightarrow> keeps (in_world I) (at_control_point env c mode lv f)"
  unfolding at_control_point_def by (auto intro!: act_rules)

lemma keeps_after_response [act_rules]:
  "keeps (in_world I) (after_response k env h specs mode opts answer lv)"
  unfolding after_response_def take_response_def run_batch_def warn_of_loop_def
  by (auto intro!: act_rules simp: Let_def split: prod.split)

lemma keeps_loop_iteration [act_rules]: "keeps (in_world I) (loop_iteration k env h specs mode opts lv)"
proof -
  have pending: "keeps (in_world I) (show_pending_injections env)"
    unfolding show_pending_injections_def
    by (auto intro!: act_rules keeps_modA simp: in_world_def)
  show ?thesis
    unfolding loop_iteration_def model_step_def by (auto intro!: act_rules pending simp: Let_def split: sum.split)
qed

lemma keeps_run_loop [act_rules]: "keeps (in_world I) (run_loop n k env h specs mode opts lv)"
  by (induction n arbitrary: lv) (auto intro!: act_rules split: sum.split)

lemma keeps_start_run [act_rules]: "keeps (in_world I) (start_run env h specs opts given)"
proof -
  have restore: "keeps (in_world I) (restore_run env h specs ms)" for ms
    unfolding restore_run_def liftA_def
    by (auto intro!: act_rules keeps_modA simp: in_world_def)
  have begins: "keeps (in_world I) (begin_run env h specs opts given)"
    unfolding begin_run_def begin_fresh_def begin_resumed_def
    by (auto intro!: act_rules restore simp: Let_def split: option.split sum.split)
  have resume: "keeps (in_world I) (resume_batch env h opts cp batch)" for cp batch
    unfolding resume_batch_def by (auto intro!: act_rules simp: Let_def split: option.split sum.split)
  show ?thesis
    unfolding start_run_def by (auto intro!: act_rules begins resume split: option.split)
qed

lemma keeps_run_turn: "keeps (in_world I) (run_turn n k env h mode opts prompt)"
  unfolding run_turn_def Let_def by (auto intro!: act_rules)

lemma run_keeps_world:
  assumes "I w []" and "run_with_control_mode_and_tool_context n k env mode opts prompt control w h = (r, h', s)"
  shows "I (rt_world s) (rt_trace s)"
proof -
  obtain r' s' where run: "run_turn n k env h mode opts prompt (runtime_of h control w) = (r', s')"
    by (meson surj_pair)
  then have "s' = s" using assms(2) by (simp add: run_with_control_mode_and_tool_context_def)
  moreover have "in_world I (runtime_of h control w)" using assms(1) by (simp add: in_world_def runtime_of_def)
  ultimately show ?thesis
    using keepsD [OF keeps_run_turn _ run] by (simp add: in_world_def)
qed

end

end
