(* ===== verification/Run_Simulation.thy ===== *)
theory Run_Simulation
  imports Harness_Safety
begin

section \<open>Runs in a larger world\<close>

text \<open>
  A run in a world with additional state simulates the run in the world without it, when every
  party acts on the common part alike: the same result, the same effects, the same conversation,
  and the smaller world is the projection of the larger one after every step.
\<close>

subsection \<open>Computations that agree under a projection of the state\<close>

named_theorems sim_rules \<open>computations that agree under a projection\<close>

definition sim :: "('s \<Rightarrow> 't) \<Rightarrow> ('s, 'e, 'a) act \<Rightarrow> ('t, 'e, 'a) act \<Rightarrow> bool" where
  "sim p m m' \<longleftrightarrow> (\<forall>s. m' (p s) = (fst (m s), p (snd (m s))))"

lemma simD: "sim p m m' \<Longrightarrow> m s = (r, s') \<Longrightarrow> m' (p s) = (r, p s')"
  by (simp add: sim_def)

lemma sim_basic [sim_rules]:
  "sim p (retA x) (retA x)" "sim p (raiseA e) (raiseA e)" "sim p starveA starveA"
  by (simp_all add: sim_def act_simps)

lemma sim_getA: "(\<And>s. f' (p s) = f s) \<Longrightarrow> sim p (getA f) (getA f')"
  by (simp add: sim_def act_simps)

lemma sim_modA: "(\<And>s. f' (p s) = p (f s)) \<Longrightarrow> sim p (modA f) (modA f')"
  by (simp add: sim_def act_simps)

lemma sim_stepA: "(\<And>s. f' (p s) = (fst (f s), p (snd (f s)))) \<Longrightarrow> sim p (stepA f) (stepA f')"
  by (simp add: sim_def act_simps)

lemma sim_bindA [sim_rules]:
  assumes "sim p m m'" and "\<And>x. sim p (f x) (f' x)"
  shows "sim p (bindA m f) (bindA m' f')"
  unfolding sim_def
proof
  fix s
  obtain r t where m: "m s = (r, t)" by (cases "m s") auto
  from simD [OF assms(1) m] m assms(2)
  show "bindA m' f' (p s) = (fst (bindA m f s), p (snd (bindA m f s)))"
    by (auto simp: act_simps sim_def split: outcome.split)
qed

lemma sim_seqA [sim_rules]: "sim p m m' \<Longrightarrow> sim p n n' \<Longrightarrow> sim p (seqA m n) (seqA m' n')"
  by (simp add: seqA_def sim_bindA)

lemma sim_caseA [sim_rules]:
  assumes "sim p m m'" and "\<And>x. sim p (f x) (f' x)" and "\<And>e. sim p (g e) (g' e)"
  shows "sim p (caseA m f g) (caseA m' f' g')"
  unfolding sim_def
proof
  fix s
  obtain r t where m: "m s = (r, t)" by (cases "m s") auto
  from simD [OF assms(1) m] m assms(2,3)
  show "caseA m' f' g' (p s) = (fst (caseA m f g s), p (snd (caseA m f g s)))"
    by (auto simp: act_simps sim_def split: outcome.split)
qed

lemma sim_map_errA [sim_rules]: "sim p m m' \<Longrightarrow> sim p (map_errA g m) (map_errA g m')"
  unfolding sim_def by (auto simp: act_simps split: prod.split outcome.split)

lemma sim_forA [sim_rules]: "(\<And>x. sim p (f x) (f' x)) \<Longrightarrow> sim p (forA f xs) (forA f' xs)"
  by (induction xs) (auto intro: sim_rules)

lemma sim_if [sim_rules]: "sim p m m' \<Longrightarrow> sim p n n' \<Longrightarrow> sim p (if b then m else n) (if b then m' else n')"
  by simp

lemma sim_option [sim_rules]:
  "sim p m m' \<Longrightarrow> (\<And>x. sim p (f x) (f' x)) \<Longrightarrow>
    sim p (case opt of None \<Rightarrow> m | Some x \<Rightarrow> f x) (case opt of None \<Rightarrow> m' | Some x \<Rightarrow> f' x)"
  by (cases opt) auto

lemma sim_sum [sim_rules]:
  "(\<And>a. sim p (f a) (f' a)) \<Longrightarrow> (\<And>b. sim p (g b) (g' b)) \<Longrightarrow>
    sim p (case x of Inl a \<Rightarrow> f a | Inr b \<Rightarrow> g b) (case x of Inl a \<Rightarrow> f' a | Inr b \<Rightarrow> g' b)"
  by (cases x) auto

lemma sim_prod [sim_rules]:
  "(\<And>a b. sim p (f a b) (f' a b)) \<Longrightarrow> sim p (case x of (a, b) \<Rightarrow> f a b) (case x of (a, b) \<Rightarrow> f' a b)"
  by (cases x) auto

lemma sim_nat [sim_rules]:
  "sim p f f' \<Longrightarrow> (\<And>m. sim p (g m) (g' m)) \<Longrightarrow>
    sim p (case n of 0 \<Rightarrow> f | Suc m \<Rightarrow> g m) (case n of 0 \<Rightarrow> f' | Suc m \<Rightarrow> g' m)"
  by (cases n) auto

lemma sim_loop_action [sim_rules]:
  "sim p f f' \<Longrightarrow> sim p g g' \<Longrightarrow> (\<And>out. sim p (k out) (k' out)) \<Longrightarrow>
    sim p (case a of Proceed \<Rightarrow> f | ContinueTurn \<Rightarrow> g | Finish out \<Rightarrow> k out)
      (case a of Proceed \<Rightarrow> f' | ContinueTurn \<Rightarrow> g' | Finish out \<Rightarrow> k' out)"
  by (cases a) auto

lemma sim_Let [sim_rules]: "(\<And>x. sim p (f x) (f' x)) \<Longrightarrow> sim p (Let a f) (Let a f')"
  by simp

subsection \<open>The projection of a runtime\<close>

definition project :: "('x \<Rightarrow> 'w) \<Rightarrow> ('x, 'v) runtime \<Rightarrow> ('w, 'v) runtime" where
  "project p s = \<lparr>rt_session = rt_session s, rt_pending = rt_pending s, rt_control = rt_control s,
     rt_world = p (rt_world s), rt_trace = rt_trace s\<rparr>"

lemma project_simps [simp]:
  "rt_session (project p s) = rt_session s" "rt_pending (project p s) = rt_pending s"
  "rt_control (project p s) = rt_control s" "rt_world (project p s) = p (rt_world s)"
  "rt_trace (project p s) = rt_trace s"
  by (simp_all add: project_def)

lemma project_updates:
  "project p (s\<lparr>rt_session := st\<rparr>) = (project p s)\<lparr>rt_session := st\<rparr>"
  "project p (s\<lparr>rt_pending := ps\<rparr>) = (project p s)\<lparr>rt_pending := ps\<rparr>"
  "project p (s\<lparr>rt_control := c\<rparr>) = (project p s)\<lparr>rt_control := c\<rparr>"
  "project p (s\<lparr>rt_world := w\<rparr>) = (project p s)\<lparr>rt_world := p w\<rparr>"
  "project p (s\<lparr>rt_trace := t\<rparr>) = (project p s)\<lparr>rt_trace := t\<rparr>"
  by (simp_all add: project_def)

lemma sim_session_parts [sim_rules]:
  "sim (project p) (mod_session f) (mod_session f)" "sim (project p) (step_session g) (step_session g)"
  "sim (project p) session_messages session_messages" "sim (project p) (send_request request) (send_request request)"
  unfolding mod_session_def step_session_def session_messages_def send_request_def
  by (auto intro!: sim_modA sim_stepA sim_getA simp: project_updates split: prod.split)

locale larger_world =
  fixes p :: "'x \<Rightarrow> 'w"
    and env' :: "('x, 'v) host_env" and env :: "('w, 'v) host_env"
    and h' :: "('x, 'v, 'e) harness" and h :: "('w, 'v, 'e) harness"
  assumes json: "he_json env' = he_json env"
    and journal_none: "he_journal env' = None \<longleftrightarrow> he_journal env = None"
    and journal_some: "he_journal env' = Some write' \<Longrightarrow> he_journal env = Some write \<Longrightarrow>
      write entry (p x) = (fst (write' entry x), p (snd (write' entry x)))"
    and observer: "he_observe env ev (p x) = p (he_observe env' ev x)"
    and clock: "he_clock env (p x) = he_clock env' x"
    and others: "he_others env control (p x) = (fst (he_others env' control x), p (snd (he_others env' control x)))"
    and poll: "md_poll (hn_model h) request (p x)
      = (fst (md_poll (hn_model h') request x), p (snd (md_poll (hn_model h') request x)))"
    and snapshot: "md_context_snapshot (hn_model h) (p x) = md_context_snapshot (hn_model h') x"
    and window_error: "md_is_context_window_error (hn_model h) (p x) = md_is_context_window_error (hn_model h') x"
    and tool: "execute_outcome (hn_tools h) call (p x)
      = (fst (execute_outcome (hn_tools h') call x), p (snd (execute_outcome (hn_tools h') call x)))"
    and replay: "recovery_replay_safety (hn_tools h') = recovery_replay_safety (hn_tools h)"
    and specs: "router_specs (hn_tools h') = router_specs (hn_tools h)"
    and config: "hn_config h' = hn_config h"
    and conversation: "hn_session h' = hn_session h" "hn_pending h' = hn_pending h"
    and preferences: "hn_model_selection h' = hn_model_selection h"
      "hn_reasoning_selection h' = hn_reasoning_selection h" "hn_reasoning_effort h' = hn_reasoning_effort h"
begin

abbreviation agrees :: "(('x, 'v) runtime, 'err, 'a) act \<Rightarrow> (('w, 'v) runtime, 'err, 'a) act \<Rightarrow> bool" where
  "agrees \<equiv> sim (project p)"

lemmas same = json observer clock snapshot window_error replay specs config conversation preferences

lemma agrees_observe [sim_rules]: "agrees (observe env' ev) (observe env ev)"
  unfolding observe_def by (rule sim_modA) (simp add: project_updates observer)

lemma agrees_append_if_present [sim_rules]: "agrees (append_if_present env' entry) (append_if_present env entry)"
proof (cases "he_journal env'")
  case None
  then show ?thesis using journal_none by (simp add: append_if_present_def sim_rules)
next
  case (Some wr')
  then obtain wr where wr: "he_journal env = Some wr" using journal_none by fastforce
  show ?thesis
    using journal_some [OF Some wr, where entry = entry]
    by (auto simp: append_if_present_def sim_def Some wr project_updates split: prod.split sum.split)
qed

lemma agrees_on_control [sim_rules]: "agrees (on_control env' f) (on_control env f)"
  unfolding on_control_def by (rule sim_stepA) (simp add: others project_updates split_beta)

lemma agrees_poll_model [sim_rules]: "agrees (poll_model (hn_model h') request) (poll_model (hn_model h) request)"
  unfolding poll_model_def by (rule sim_stepA) (simp add: poll project_updates split_beta)

lemma agrees_run_tool [sim_rules]: "agrees (run_tool (hn_tools h') request) (run_tool (hn_tools h) request)"
  unfolding run_tool_def by (rule sim_stepA) (simp add: tool project_updates split_beta)

lemma agrees_control_steps [sim_rules]:
  "agrees (load_cancel env') (load_cancel env)" "agrees (swap_cancel env') (swap_cancel env)"
  "agrees (load_steer env') (load_steer env)" "agrees (take_steer_steps env') (take_steer_steps env)"
  unfolding load_cancel_def swap_cancel_def load_steer_def take_steer_steps_def
  by (auto intro!: sim_rules)

lemma agrees_forward_events [sim_rules]: "agrees (forward_events env' fw evs) (forward_events env fw evs)"
proof (induction evs arbitrary: fw)
  case (Cons ev evs)
  have "agrees (forward_event env' fw ev) (forward_event env fw ev)"
    unfolding forward_event_def by (auto intro!: sim_rules sim_getA simp: clock Let_def)
  with Cons show ?case by (auto intro!: sim_rules)
qed (auto intro!: sim_rules)

lemma agrees_respond [sim_rules]:
  "agrees (respond_until_cancelled n env' (hn_model h') request fw) (respond_until_cancelled n env (hn_model h) request fw)"
  "agrees (respond_silently n (hn_model h') request) (respond_silently n (hn_model h) request)"
  by (induction n arbitrary: fw) (auto intro!: sim_rules)

lemma agrees_calls [sim_rules]:
  "agrees (journal_for env' opts entry) (journal_for env opts entry)"
  "agrees (record_tool_result env' opts call out) (record_tool_result env opts call out)"
  "agrees (append_contexts env' ts rs acc) (append_contexts env ts rs acc)"
  "agrees (settle_contexts env' ms rs) (settle_contexts env ms rs)"
proof -
  show contexts: "agrees (append_contexts env' ts rs acc) (append_contexts env ts rs acc)" for ts rs acc
  proof (induction ts arbitrary: rs acc)
    case (Cons t ts)
    then show ?case by (cases rs) (auto intro!: sim_rules simp: json)
  qed (auto intro!: sim_rules)
  show journal: "agrees (journal_for env' opts entry) (journal_for env opts entry)" for opts entry
    unfolding journal_for_def by (auto intro!: sim_rules)
  show "agrees (record_tool_result env' opts call out) (record_tool_result env opts call out)"
    unfolding record_tool_result_def by (auto intro!: sim_rules journal simp: json)
  show "agrees (settle_contexts env' ms rs) (settle_contexts env ms rs)"
    unfolding settle_contexts_def by (auto intro!: sim_rules contexts)
qed

lemma agrees_start_call [sim_rules]:
  "agrees (start_call env' (hn_tools h') opts call vars) (start_call env (hn_tools h) opts call vars)"
  unfolding start_call_def decide_outcome_def
  by (auto intro!: sim_rules sim_getA simp: build_request_def json)

lemma agrees_execute_tool_batch [sim_rules]:
  "agrees (execute_tool_batch env' (hn_tools h') calls opts) (execute_tool_batch env (hn_tools h) calls opts)"
proof -
  have one: "agrees (execute_call env' (hn_tools h') opts call vars) (execute_call env (hn_tools h) opts call vars)"
    for call vars
    unfolding execute_call_def by (auto intro!: sim_rules)
  have "agrees (execute_calls env' (hn_tools h') opts calls vars) (execute_calls env (hn_tools h) opts calls vars)" for vars
    by (induction calls arbitrary: vars) (auto intro!: sim_rules one)
  then show ?thesis unfolding execute_tool_batch_def by (auto intro!: sim_rules)
qed

lemma same_validation:
  "validate_tool_batch_recovery (hn_tools h') batch = validate_tool_batch_recovery (hn_tools h) batch"
proof -
  have "validate_calls (hn_tools h') cs = validate_calls (hn_tools h) cs" for cs
    by (induction cs) (simp_all add: replay)
  then show ?thesis by (simp add: validate_tool_batch_recovery_def)
qed

lemma agrees_recover_tool_batch [sim_rules]:
  "agrees (recover_tool_batch env' (hn_tools h') batch opts) (recover_tool_batch env (hn_tools h) batch opts)"
proof -
  have one: "agrees (recover_call env' (hn_tools h') opts intent c vars) (recover_call env (hn_tools h) opts intent c vars)"
    for intent c vars
    unfolding recover_call_def append_recovered_call_def
    by (auto intro!: sim_rules sim_getA simp: build_request_def json)
  have "agrees (recover_calls env' (hn_tools h') opts intent cs vars) (recover_calls env (hn_tools h) opts intent cs vars)"
    for intent cs vars
    by (induction cs arbitrary: vars) (auto intro!: sim_rules one)
  then show ?thesis
    unfolding recover_tool_batch_def same_validation by (auto intro!: sim_rules)
qed

lemma agrees_endings [sim_rules]:
  "agrees (finish env' t ms n reason) (finish env t ms n reason)"
  "agrees (finish_now env' lv reason) (finish_now env lv reason)"
  "agrees (fail_limit env' l) (fail_limit env l)" "agrees (fail_compaction env' why) (fail_compaction env why)"
  "agrees (fail_model env' e) (fail_model env e)"
  unfolding finish_def finish_now_def fail_limit_def fail_compaction_def fail_model_def
  by (auto intro!: sim_rules)

lemma agrees_checks [sim_rules]:
  "agrees (ensure_context_limit env' c sp) (ensure_context_limit env c sp)"
  "agrees (append_user_input c t) (append_user_input c t)"
  "agrees (prepare_context env' c sp) (prepare_context env c sp)"
  "agrees (journal_entry env' entry) (journal_entry env entry)"
  "agrees (write_checkpoint env' x step t) (write_checkpoint env x step t)"
  "agrees (settle_batch env' x step t) (settle_batch env x step t)"
  "agrees (check_response env' c response) (check_response env c response)"
  unfolding ensure_context_limit_def append_user_input_def prepare_context_def journal_entry_def
    write_checkpoint_def settle_batch_def check_response_def liftA_def
  by (auto intro!: sim_rules sim_getA simp: json)

lemma agrees_control_action [sim_rules]: "agrees (control_action env' c mode lv) (control_action env c mode lv)"
  unfolding control_action_def apply_steer_def by (auto intro!: sim_rules)

lemma agrees_at_control_point [sim_rules]:
  "(\<And>lv'. agrees (f lv') (f' lv')) \<Longrightarrow> agrees (at_control_point env' c mode lv f) (at_control_point env c mode lv f')"
  unfolding at_control_point_def by (auto intro!: sim_rules)

lemma same_request: "model_request_of h' = model_request_of h"
  by (intro ext) (simp add: model_request_of_def config preferences)

lemma agrees_compact [sim_rules]:
  "agrees (compact_context_with_reduction_target k env' h' sp) (compact_context_with_reduction_target k env h sp)"
proof -
  have finish: "agrees (finish_compacted env' c compacted before_bytes usage sp)
      (finish_compacted env c compacted before_bytes usage sp)" for c compacted before_bytes usage
    unfolding finish_compacted_def json Let_def by (auto intro!: sim_rules)
  have bytes: "agrees (run_context_bytes env' h' sp) (run_context_bytes env h sp)"
    unfolding run_context_bytes_def json config by (rule sim_getA) simp
  show ?thesis
    unfolding compact_context_with_reduction_target_def compact_context_to_def compact_parts_def json config
      same_request Let_def
    by (auto intro!: sim_rules finish bytes)
qed

lemma agrees_model_round [sim_rules]:
  "agrees (model_round left k env' h' sp lv) (model_round left k env h sp lv)"
proof -
  have request: "agrees (request_once k env' h' sp step) (request_once k env h sp step)" for step
    unfolding request_once_def same_request config Let_def
    by (auto intro!: sim_rules sim_getA simp: model_started_def json clock snapshot config)
  show ?thesis
  proof (induction left)
    case 0
    show ?case
      by (subst model_round.simps [of 0 k env' h'], subst model_round.simps [of 0 k env h])
        (auto intro!: sim_rules request sim_getA simp: config window_error)
  next
    case (Suc left)
    show ?case
      by (subst model_round.simps [of "Suc left" k env' h'], subst model_round.simps [of "Suc left" k env h])
        (auto intro!: sim_rules request sim_getA Suc simp: config window_error)
  qed
qed

lemma agrees_after_response [sim_rules]:
  "agrees (after_response k env' h' sp mode opts answer lv) (after_response k env h sp mode opts answer lv)"
proof -
  have take: "agrees (take_response k env' h' sp answer) (take_response k env h sp answer)"
    unfolding take_response_def json config by (auto intro!: sim_rules)
  have batch: "agrees (run_batch env' h' opts response lv) (run_batch env h opts response lv)" for response lv
    unfolding run_batch_def warn_of_loop_def config by (auto intro!: sim_rules simp: Let_def)
  show ?thesis
    unfolding after_response_def config Let_def by (auto intro!: sim_rules take batch)
qed

lemma agrees_run_loop [sim_rules]:
  "agrees (run_loop n k env' h' sp mode opts lv) (run_loop n k env h sp mode opts lv)"
proof -
  have pending: "agrees (show_pending_injections env') (show_pending_injections env)"
    unfolding show_pending_injections_def
    by (auto intro!: sim_rules sim_getA sim_modA simp: project_updates)
  have iteration: "agrees (loop_iteration k env' h' sp mode opts lv) (loop_iteration k env h sp mode opts lv)" for lv
    unfolding loop_iteration_def model_step_def config Let_def by (auto intro!: sim_rules pending)
  show ?thesis
    by (induction n arbitrary: lv) (auto intro!: sim_rules iteration)
qed

lemma agrees_start_run [sim_rules]:
  "agrees (start_run env' h' sp opts given) (start_run env h sp opts given)"
proof -
  have restore: "agrees (restore_run env' h' sp ms) (restore_run env h sp ms)" for ms
    unfolding restore_run_def liftA_def json config
    by (auto intro!: sim_rules sim_getA sim_modA simp: project_updates)
  have begins: "agrees (begin_run env' h' sp opts given) (begin_run env h sp opts given)"
    unfolding begin_run_def begin_fresh_def begin_resumed_def config Let_def
    by (auto intro!: sim_rules restore sim_getA)
  have resume: "agrees (resume_batch env' h' opts cp batch) (resume_batch env h opts cp batch)" for cp batch
    unfolding resume_batch_def config same_validation Let_def by (auto intro!: sim_rules)
  show ?thesis
    unfolding start_run_def by (auto intro!: sim_rules begins resume)
qed

lemma runs_agree:
  assumes "run_with_control_mode_and_tool_context n k env' mode opts prompt control x h' = (r, g', s')"
    and "run_with_control_mode_and_tool_context n k env mode opts prompt control (p x) h = (q, g, s)"
  shows "q = r \<and> s = project p s' \<and> hn_session g = hn_session g' \<and> hn_pending g = hn_pending g'"
proof -
  have "agrees (run_turn n k env' h' mode opts prompt) (run_turn n k env h mode opts prompt)"
    unfolding run_turn_def specs Let_def by (auto intro!: sim_rules)
  moreover have "runtime_of h control (p x) = project p (runtime_of h' control x)"
    by (simp add: runtime_of_def project_def conversation)
  ultimately have "run_turn n k env h mode opts prompt (runtime_of h control (p x)) = (r, project p s')"
    using assms(1) by (auto simp: run_with_control_mode_and_tool_context_def sim_def split: prod.splits)
  then show ?thesis
    using assms by (auto simp: run_with_control_mode_and_tool_context_def split: prod.splits)
qed

end

end
