(* ===== verification/Thread_Claims.thy ===== *)
theory Thread_Claims
  imports Thread Str_Split World_Invariant Run_Simulation Harness_Claims
begin

section \<open>What a thread promises\<close>

text \<open>
  Properties of \<open>Thread\<close>: the envelopes a sink receives, the life cycle of a turn, the
  uniqueness of turn identifiers and the round trip of checkpoints.
\<close>

subsection \<open>Envelopes\<close>

definition observed :: "'v effect list \<Rightarrow> 'v event list" where
  "observed log = List.map_filter (\<lambda>e. case e of E_Observe ev \<Rightarrow> Some ev | _ \<Rightarrow> None) log"

lemma observed_simps [simp]:
  "observed [] = []" "observed (xs @ ys) = observed xs @ observed ys"
  "observed (E_Observe ev # log) = ev # observed log"
  "observed [E_Journal entry] = []" "observed [E_Tool call] = []" "observed [E_Model request] = []"
  "observed (map E_Observe evs) = evs"
proof -
  show "observed (map E_Observe evs) = evs" by (induction evs) (simp_all add: observed_def map_filter_simps)
qed (simp_all add: observed_def map_filter_def)

text \<open>The hooks of a sink hand out sequence numbers, they never take one back.\<close>

definition sink_advances :: "('w, 'v) event_sink \<Rightarrow> bool" where
  "sink_advances sink \<longleftrightarrow>
    (\<forall>th i ev n w. n \<le> fst (es_before_event sink th i ev n w) \<and> n \<le> fst (es_after_event sink th i ev n w))"

definition numbered :: "nat \<Rightarrow> 'v envelope_observer \<Rightarrow> bool" where
  "numbered start o' \<longleftrightarrow> (eo_next_sequence o' < u64_max \<longrightarrow> start \<le> eo_next_sequence o'
     \<and> sorted_wrt (<) (map ee_sequence (eo_emitted o'))
     \<and> (\<forall>e \<in> set (eo_emitted o'). start \<le> ee_sequence e \<and> ee_sequence e < eo_next_sequence o'))"

text \<open>The model item that is open after the given events: the reference for \<open>active_model_item_id\<close>.\<close>

definition open_item_step :: "turn_id \<Rightarrow> string option \<Rightarrow> 'v event \<Rightarrow> string option" where
  "open_item_step i item ev = (case ev of
     ModelStarted step _ _ _ \<Rightarrow> Some (model_item_id i step)
   | ModelResponded _ _ _ _ _ _ _ \<Rightarrow> None
   | _ \<Rightarrow> item)"

definition open_item :: "turn_id \<Rightarrow> 'v event list \<Rightarrow> string option" where
  "open_item i evs = foldl (open_item_step i) None evs"

definition model_output :: "'v event \<Rightarrow> bool" where
  "model_output ev = (case ev of
     AssistantReasoningDelta _ \<Rightarrow> True | AssistantTextDelta _ \<Rightarrow> True
   | ModelResponded _ _ _ _ _ _ _ \<Rightarrow> True | _ \<Rightarrow> False)"

definition addressed :: "thread_id \<Rightarrow> turn_id \<Rightarrow> 'v envelope_observer \<Rightarrow> bool" where
  "addressed th i o' \<longleftrightarrow> eo_thread_id o' = th \<and> eo_turn_id o' = i
     \<and> (\<forall>e \<in> set (eo_emitted o'). ee_thread_id e = th \<and> ee_turn_id e = Some i)"

definition filed :: "turn_id \<Rightarrow> 'v envelope_observer \<Rightarrow> bool" where
  "filed i o' \<longleftrightarrow> eo_active_model_item_id o' = open_item i (map ee_event (eo_emitted o'))
     \<and> (\<forall>k < length (eo_emitted o'). model_output (ee_event (eo_emitted o' ! k)) \<longrightarrow>
         ee_item_id (eo_emitted o' ! k) = open_item i (map ee_event (take k (eo_emitted o'))))"

definition enveloped ::
  "thread_id \<Rightarrow> turn_id \<Rightarrow> nat \<Rightarrow> 'v event list \<Rightarrow> 'v envelope_observer \<Rightarrow> bool" where
  "enveloped th i start evs o' \<longleftrightarrow> addressed th i o' \<and> filed i o' \<and> numbered start o'
     \<and> map ee_event (eo_emitted o') = evs"

lemma enveloped_new: "enveloped th i n [] (envelope_observer_new th i n)"
  by (simp add: enveloped_def addressed_def filed_def numbered_def envelope_observer_new_def open_item_def)

lemma assign_item_observer:
  assumes "assign_item ev n o' = (item, o1)"
  shows "eo_thread_id o1 = eo_thread_id o'" "eo_turn_id o1 = eo_turn_id o'"
    "eo_next_sequence o1 = eo_next_sequence o'" "eo_emitted o1 = eo_emitted o'"
    "eo_active_model_item_id o1 = open_item_step (eo_turn_id o') (eo_active_model_item_id o') ev"
    "model_output ev \<Longrightarrow> item = eo_active_model_item_id o'"
  using assms by (auto simp: assign_item_def open_item_step_def model_output_def Let_def split: event.splits)

text \<open>One observed event, with the numbers the hooks leave.\<close>

lemma observe_envelope_shape:
  assumes "sink_advances sink" and "observe_envelope sink ev (o0, w) = (o3, w')"
  obtains n item o1 envelope where "eo_next_sequence o0 \<le> n"
    and "assign_item ev n (o0\<lparr>eo_next_sequence := sat_add n 1\<rparr>) = (item, o1)"
    and "envelope = (event_envelope_new (eo_thread_id o0) (Some (eo_turn_id o0)) n ev)\<lparr>ee_item_id := item\<rparr>"
    and "eo_emitted o3 = eo_emitted o0 @ [envelope]" and "sat_add n 1 \<le> eo_next_sequence o3"
    and "eo_thread_id o3 = eo_thread_id o0" and "eo_turn_id o3 = eo_turn_id o0"
    and "eo_active_model_item_id o3 = eo_active_model_item_id o1"
proof -
  obtain n w1 where b: "es_before_event sink (eo_thread_id o0) (eo_turn_id o0) ev (eo_next_sequence o0) w = (n, w1)"
    by (meson surj_pair)
  obtain item o1 where a: "assign_item ev n (o0\<lparr>eo_next_sequence := sat_add n 1\<rparr>) = (item, o1)"
    by (meson surj_pair)
  note o1 = assign_item_observer [OF a]
  have n: "eo_next_sequence o0 \<le> n"
    using assms(1) b unfolding sink_advances_def by (metis fst_conv)
  define envelope where "envelope = (event_envelope_new (eo_thread_id o0) (Some (eo_turn_id o0)) n ev)\<lparr>ee_item_id := item\<rparr>"
  obtain m w2 where c: "es_after_event sink (eo_thread_id o1) (eo_turn_id o1) ev (eo_next_sequence o1)
      (es_emit sink envelope w1) = (m, w2)"
    by (meson surj_pair)
  have m: "sat_add n 1 \<le> m"
    using assms(1) c o1(3) unfolding sink_advances_def by (metis fst_conv envelope_observer.select_convs(3)
        envelope_observer.surjective envelope_observer.update_convs(3))
  have "o3 = o1\<lparr>eo_emitted := eo_emitted o1 @ [envelope], eo_next_sequence := m\<rparr>"
    using assms(2) a b c o1(1,2) by (simp add: observe_envelope_def envelope_def)
  then show ?thesis
    using that [OF n a envelope_def] m o1 by simp
qed

lemma open_item_snoc: "open_item i (evs @ [ev]) = open_item_step i (open_item i evs) ev"
  by (simp add: open_item_def)

lemma enveloped_observe:
  assumes "sink_advances sink" and "enveloped th i start evs o0" and "observe_envelope sink ev (o0, w) = (o3, w')"
  shows "enveloped th i start (evs @ [ev]) o3"
proof -
  obtain n item o1 envelope where shape: "eo_next_sequence o0 \<le> n"
      "assign_item ev n (o0\<lparr>eo_next_sequence := sat_add n 1\<rparr>) = (item, o1)"
      "envelope = (event_envelope_new (eo_thread_id o0) (Some (eo_turn_id o0)) n ev)\<lparr>ee_item_id := item\<rparr>"
      "eo_emitted o3 = eo_emitted o0 @ [envelope]" "sat_add n 1 \<le> eo_next_sequence o3"
      "eo_thread_id o3 = eo_thread_id o0" "eo_turn_id o3 = eo_turn_id o0"
      "eo_active_model_item_id o3 = eo_active_model_item_id o1"
    by (rule observe_envelope_shape [OF assms(1,3)])
  note o1 = assign_item_observer [OF shape(2)]
  have env: "ee_event envelope = ev" "ee_sequence envelope = n" "ee_item_id envelope = item"
      "ee_thread_id envelope = eo_thread_id o0" "ee_turn_id envelope = Some (eo_turn_id o0)"
    by (simp_all add: shape(3) event_envelope_new_def)
  have "addressed th i o3"
    using assms(2) shape(4,6,7) env by (auto simp: enveloped_def addressed_def)
  moreover have "filed i o3"
    using assms(2) shape(4,7,8) env o1(5,6)
    by (auto simp: enveloped_def addressed_def filed_def open_item_snoc nth_append less_Suc_eq)
  moreover have "numbered start o3"
    using assms(2) shape(1,4,5) env
    by (auto simp: enveloped_def numbered_def sat_add_def u64_max_def sorted_wrt_append min_def split: if_splits)
  ultimately show ?thesis
    using assms(2) shape(4) env by (simp add: enveloped_def)
qed

text \<open>A whole run keeps the invariant of its observer.\<close>

definition enveloping ::
  "('w, 'v) event_sink \<Rightarrow> thread_id \<Rightarrow> turn_id \<Rightarrow> nat \<Rightarrow> 'v event list
    \<Rightarrow> 'v envelope_observer \<times> 'w \<Rightarrow> 'v effect list \<Rightarrow> bool" where
  "enveloping sink th i start evs x log \<longleftrightarrow>
    (sink_advances sink \<longrightarrow> enveloped th i start (evs @ observed log) (fst x))"

lemma enveloping_beside [simp]:
  "enveloping sink th i start evs (snd (beside f x)) log = enveloping sink th i start evs x log"
  "beside f x = (r, x') \<Longrightarrow> enveloping sink th i start evs x' log = enveloping sink th i start evs x log"
  by (auto simp: enveloping_def beside_def split: prod.splits)

lemma enveloping_silent [simp]:
  "enveloping sink th i start evs x (log @ [E_Journal entry]) = enveloping sink th i start evs x log"
  "enveloping sink th i start evs x (log @ [E_Tool call]) = enveloping sink th i start evs x log"
  "enveloping sink th i start evs x (log @ [E_Model request]) = enveloping sink th i start evs x log"
  by (simp_all add: enveloping_def)

lemma enveloping_observe:
  "enveloping sink th i start evs x log \<Longrightarrow>
    enveloping sink th i start evs (observe_envelope sink ev x) (log @ [E_Observe ev])"
  unfolding enveloping_def
  using enveloped_observe [of sink th i start "evs @ observed log" "fst x" ev "snd x"]
  by (cases "observe_envelope sink ev x") auto

interpretation enveloping_run: harness_world "envelope_env sink env" "lift_harness h" "enveloping sink th i start evs"
  for sink env h th i start evs
  by unfold_locales
    (auto simp: envelope_env_def enveloping_observe lift_harness_def lift_model_def execute_outcome_lift)

lemma enveloped_prelude:
  assumes "sink_advances sink" and "enveloped th i start evs (fst x)"
  shows "enveloped th i start (evs @ extra) (fst (observe_prelude sink extra x))"
  using assms(2)
proof (induction extra arbitrary: evs x)
  case (Cons ev extra)
  obtain o3 w' where step: "observe_envelope sink ev (fst x, snd x) = (o3, w')" by (meson surj_pair)
  from Cons.IH [of "evs @ [ev]" "(o3, w')"] enveloped_observe [OF assms(1) Cons.prems step] step
  show ?case by (simp add: observe_prelude_def)
qed (simp add: observe_prelude_def)

lemma enveloped_prelude_new:
  "sink_advances sink \<Longrightarrow> enveloped th i n evs (fst (observe_prelude sink evs (envelope_observer_new th i n, w)))"
  using enveloped_prelude [of sink th i n "[]" "(envelope_observer_new th i n, w)" evs]
  by (simp add: enveloped_new)

lemma enveloped_observe_pair:
  assumes "sink_advances sink" and "enveloped th i start evs (fst x)" and "observe_envelope sink ev x = (o3, w')"
  shows "enveloped th i start (evs @ [ev]) o3"
  using enveloped_observe [OF assms(1,2)] assms(3) by (cases x) simp

subsection \<open>Admission and ending of a turn\<close>

lemma begin_turn_admits:
  assumes "begin_turn input th = (Inr i, th')"
  shows "th_status th \<noteq> Thread_Running" "th_status th \<noteq> Thread_Closed" "i = next_turn_id th"
    "th' = th\<lparr>th_status := Thread_Running, th_next_turn_number := sat_add (th_next_turn_number th) 1,
       th_last_turn_id := Some i\<rparr>"
  using assms by (auto simp: begin_turn_def split: if_splits sum.splits)

lemma admit_turn_admits:
  assumes "admit_turn opts input th = (Inr i, th')"
  shows "th_id th' = th_id th" "th_harness th' = th_harness th" "th_last_turn_id th' = Some i"
    "th_next_event_sequence th' = th_next_event_sequence th" "th_status th' = Thread_Running"
    "th_status th \<noteq> Thread_Running" "th_status th \<noteq> Thread_Closed"
  using assms by (auto simp: admit_turn_def begin_turn_def resume_turn_def split: if_splits sum.splits option.splits)

lemma admit_turn_refuses: "admit_turn opts input th = (Inl err, th') \<Longrightarrow> th' = th"
  by (auto simp: admit_turn_def begin_turn_def resume_turn_def split: if_splits sum.splits option.splits)

lemma prefer_models_simps [simp]:
  "th_id (prefer_models input th) = th_id th" "th_last_turn_id (prefer_models input th) = th_last_turn_id th"
  "th_status (prefer_models input th) = th_status th"
  "th_next_turn_number (prefer_models input th) = th_next_turn_number th"
  "th_next_event_sequence (prefer_models input th) = th_next_event_sequence th"
  by (simp_all add: prefer_models_def)

lemma take_harness_simps [simp]:
  "th_id (take_harness h th) = th_id th" "th_last_turn_id (take_harness h th) = th_last_turn_id th"
  "th_status (take_harness h th) = th_status th"
  "th_next_turn_number (take_harness h th) = th_next_turn_number th"
  "th_next_event_sequence (take_harness h th) = th_next_event_sequence th"
  by (simp_all add: take_harness_def)

lemma finish_turn_keeps:
  assumes "finish_turn i result th = (r, th')"
  shows "th' = th\<lparr>th_status := (case result of Inl _ \<Rightarrow> Thread_Failed | Inr _ \<Rightarrow> Thread_Idle)\<rparr>"
    "r = (case result of Inl err \<Rightarrow> Inl (TE_Harness err)
       | Inr out \<Rightarrow> Inr \<lparr>trs_id = i, trs_status = status_for_outcome out, trs_outcome = out\<rparr>)"
  using assms by (auto simp: finish_turn_def split: sum.splits)

text \<open>The three ways an admitted turn goes on.\<close>

definition opening_events :: "'v turn_execution_options \<Rightarrow> turn_input \<Rightarrow> 'v event list" where
  "opening_events opts input = TurnStarted (ti_mode input) (ti_text input) # txo_prelude opts"

lemma ended_turn_observer [simp]:
  "ete_observer (end_event_turn sink i result control x log th) \<noteq> None"
  "ete_observer (refuse_event_turn sink err control x log th) \<noteq> None"
  by (simp_all add: end_event_turn_def refuse_event_turn_def split_beta Let_def)

lemma finish_turn_thread [simp]:
  "th_id (snd (finish_turn i result th)) = th_id th"
  "th_next_turn_number (snd (finish_turn i result th)) = th_next_turn_number th"
  "th_last_turn_id (snd (finish_turn i result th)) = th_last_turn_id th"
  by (simp_all add: finish_turn_def split: sum.split)

lemma ended_turn_thread [simp]:
  "th_id (ete_thread (end_event_turn sink i result control x log th)) = th_id th"
  "th_next_turn_number (ete_thread (end_event_turn sink i result control x log th)) = th_next_turn_number th"
  "th_last_turn_id (ete_thread (end_event_turn sink i result control x log th)) = th_last_turn_id th"
  "th_id (ete_thread (refuse_event_turn sink err control x log th)) = th_id th"
  "th_next_turn_number (ete_thread (refuse_event_turn sink err control x log th)) = th_next_turn_number th"
  "th_last_turn_id (ete_thread (refuse_event_turn sink err control x log th)) = th_last_turn_id th"
  by (simp_all add: end_event_turn_def refuse_event_turn_def split_beta Let_def)

lemma event_turn_cases:
  assumes "run_turn_with_events_and_journal_resume n k env sink mode opts input control w th0 = e"
  obtains
    (refused) err where "admit_turn opts input th0 = (Inl err, th0)"
      "e = \<lparr>ete_result = Raised err, ete_thread = th0, ete_control = control, ete_world = w,
          ete_observer = None, ete_trace = []\<rparr>"
  | (preflight) err i th1 x where "admit_turn opts input th0 = (Inr i, th1)" "txo_preflight_error opts = Some err"
      "x = observe_prelude sink (opening_events opts input)
         (envelope_observer_new (th_id th0) i (th_next_event_sequence th0), w)"
      "e = refuse_event_turn sink err control x (map E_Observe (opening_events opts input)) (prefer_models input th1)"
  | (run) i th1 x r h s where "admit_turn opts input th0 = (Inr i, th1)" "txo_preflight_error opts = None"
      "x = observe_prelude sink (opening_events opts input)
         (envelope_observer_new (th_id th0) i (th_next_event_sequence th0), w)"
      "run_with_control_mode_and_tool_context n k (envelope_env sink env) mode
         (event_run_options opts input (prefer_models input th1) i) (ti_text input) control x
         (lift_harness (th_harness (prefer_models input th1))) = (r, h, s)"
      "e = (case returned r of
         None \<Rightarrow> \<lparr>ete_result = Out_of_fuel, ete_thread = take_harness h (prefer_models input th1),
           ete_control = rt_control s, ete_world = snd (rt_world s), ete_observer = Some (fst (rt_world s)),
           ete_trace = map E_Observe (opening_events opts input) @ rt_trace s\<rparr>
       | Some result \<Rightarrow> end_event_turn sink i result (rt_control s) (rt_world s)
           (map E_Observe (opening_events opts input) @ rt_trace s) (take_harness h (prefer_models input th1)))"
proof (cases "admit_turn opts input th0")
  case (Pair a th1)
  show ?thesis
  proof (cases a)
    case (Inl err)
    then show ?thesis
      using refused Pair admit_turn_refuses [of opts input th0 err th1] assms
      by (simp add: run_turn_with_events_and_journal_resume_def)
  next
    case (Inr i)
    note admitted = admit_turn_admits [OF Pair [unfolded Inr]]
    show ?thesis
    proof (cases "txo_preflight_error opts")
      case None
      let ?x = "observe_prelude sink (opening_events opts input)
         (envelope_observer_new (th_id th0) i (th_next_event_sequence th0), w)"
      obtain r h s where ran: "run_with_control_mode_and_tool_context n k (envelope_env sink env) mode
         (event_run_options opts input (prefer_models input th1) i) (ti_text input) control ?x
         (lift_harness (th_harness (prefer_models input th1))) = (r, h, s)"
        by (metis surj_pair)
      show ?thesis
        by (rule run [OF Pair [unfolded Inr] None refl ran])
          (use assms admitted ran None in \<open>simp add: run_turn_with_events_and_journal_resume_def Pair Inr Let_def
            flip: opening_events_def\<close>)
    next
      case (Some err)
      then show ?thesis
        using preflight [OF Pair [unfolded Inr] Some refl] assms admitted
        by (simp add: run_turn_with_events_and_journal_resume_def Pair Inr Let_def opening_events_def)
    qed
  qed
qed

lemma event_turn_enveloped:
  assumes "sink_advances sink"
    and "run_turn_with_events_and_journal_resume n k env sink mode opts input control w th = e"
    and "ete_observer e = Some o'"
  obtains i where "th_last_turn_id (ete_thread e) = Some i"
    "enveloped (th_id th) i (th_next_event_sequence th) (observed (ete_trace e)) o'"
    "ete_result e \<noteq> Out_of_fuel \<Longrightarrow> th_next_event_sequence (ete_thread e) = eo_next_sequence o'"
  using assms(2)
proof (cases rule: event_turn_cases)
  case refused
  then show ?thesis using assms(3) by simp
next
  case (preflight err i th1 x)
  have x: "enveloped (th_id th) i (th_next_event_sequence th) (opening_events opts input) (fst x)"
    using enveloped_prelude_new [OF assms(1)] preflight(3) by simp
  obtain o3 w' where step: "observe_envelope sink (TurnFinished Turn_Failed) x = (o3, w')" by (meson surj_pair)
  show ?thesis
    using that [of i] enveloped_observe_pair [OF assms(1) x step] admit_turn_admits [OF preflight(1)] assms(3)
    by (simp add: preflight(4) refuse_event_turn_def step)
next
  case (run i th1 x r h s)
  have x: "enveloped (th_id th) i (th_next_event_sequence th) (opening_events opts input) (fst x)"
    using enveloped_prelude_new [OF assms(1)] run(3) by simp
  have s: "enveloped (th_id th) i (th_next_event_sequence th)
      (opening_events opts input @ observed (rt_trace s)) (fst (rt_world s))"
    using enveloping_run.run_keeps_world [OF _ run(4), where th = "th_id th" and i = i
        and start = "th_next_event_sequence th" and evs = "opening_events opts input"] x assms(1)
    by (simp add: enveloping_def)
  show ?thesis
  proof (cases "returned r")
    case None
    then show ?thesis
      using that [of i] s admit_turn_admits [OF run(1)] assms(3) by (simp add: run(5))
  next
    case (Some result)
    obtain o3 w' where step: "observe_envelope sink (TurnFinished (finished_status result)) (rt_world s) = (o3, w')"
      by (meson surj_pair)
    show ?thesis
      using that [of i] enveloped_observe_pair [OF assms(1) s step] admit_turn_admits [OF run(1)] assms(3) Some
      by (auto simp: run(5) end_event_turn_def step split: prod.splits dest!: finish_turn_keeps(1))
  qed
qed

text \<open>
  C11.  The sink of a turn receives exactly the events the turn observes, in their order, each once:
  every envelope carries the thread and the turn, the sequence numbers strictly increase from the
  thread's next number and stay below the number the thread goes on with, as long as the counter
  has not saturated and the hooks of the sink only move it forward.
\<close>

theorem envelopes_number_the_turn:
  assumes "sink_advances sink"
    and "run_turn_with_events_and_journal_resume n k env sink mode opts input control w th = e"
    and "ete_observer e = Some o'"
  shows "map ee_event (eo_emitted o') = observed (ete_trace e)
    \<and> (\<forall>x \<in> set (eo_emitted o'). ee_thread_id x = th_id th \<and> ee_turn_id x = th_last_turn_id (ete_thread e))
    \<and> (eo_next_sequence o' < u64_max \<longrightarrow> sorted_wrt (<) (map ee_sequence (eo_emitted o'))
        \<and> (\<forall>x \<in> set (eo_emitted o'). th_next_event_sequence th \<le> ee_sequence x \<and> ee_sequence x < eo_next_sequence o'))
    \<and> (ete_result e \<noteq> Out_of_fuel \<longrightarrow> th_next_event_sequence (ete_thread e) = eo_next_sequence o')"
  by (rule event_turn_enveloped [OF assms]) (simp add: enveloped_def addressed_def numbered_def)

text \<open>
  What the model says in a turn is filed under the step that is open: every envelope of a
  reasoning or text delta, and of the response itself, carries the item of the last model step that
  was started and not yet answered, retries after a compaction included.
\<close>

theorem model_output_filed_under_its_step:
  assumes "sink_advances sink"
    and "run_turn_with_events_and_journal_resume n k env sink mode opts input control w th = e"
    and "ete_observer e = Some o'"
    and "j < length (eo_emitted o')" and "model_output (ee_event (eo_emitted o' ! j))"
  shows "\<exists>i. th_last_turn_id (ete_thread e) = Some i
    \<and> ee_item_id (eo_emitted o' ! j) = open_item i (map ee_event (take j (eo_emitted o')))"
  by (rule event_turn_enveloped [OF assms(1-3)]) (use assms(4,5) in \<open>auto simp: enveloped_def filed_def\<close>)

subsection \<open>The life cycle of a turn\<close>

definition is_turn_mark :: "'v event \<Rightarrow> bool" where
  "is_turn_mark ev = (case ev of TurnStarted _ _ \<Rightarrow> True | TurnFinished _ \<Rightarrow> True | _ \<Rightarrow> False)"

definition turn_marks :: "'v effect list \<Rightarrow> 'v event list" where
  "turn_marks log = filter is_turn_mark (observed log)"

lemma turn_marks_simps [simp]:
  "turn_marks (xs @ ys) = turn_marks xs @ turn_marks ys"
  "turn_marks (map E_Observe evs) = filter is_turn_mark evs"
  "turn_marks (E_Observe ev # log) = (if is_turn_mark ev then ev # turn_marks log else turn_marks log)"
  "turn_marks [] = []"
  by (simp_all add: turn_marks_def)

lemma effect_ok_unmarked: "list_all (effect_ok D js c) log \<Longrightarrow> turn_marks log = []"
  unfolding turn_marks_def observed_def
  by (induction log) (auto simp: map_filter_simps is_turn_mark_def effect_ok_def split: effect.splits event.splits)

lemma run_unmarked:
  assumes "run_with_control_mode_and_tool_context n k env mode opts prompt control w h = (r, h', s)"
  shows "turn_marks (rt_trace s) = []"
  using run_effects(1) [where D = False, OF _ _ assms]
  by (auto simp: ok_def ended_def traced_def effect_ok_unmarked is_turn_mark_def split: outcome.splits)

definition unmarked_prelude :: "'v turn_execution_options \<Rightarrow> bool" where
  "unmarked_prelude opts \<longleftrightarrow> list_all (\<lambda>ev. \<not> is_turn_mark ev) (txo_prelude opts)"

lemma opening_marks: "unmarked_prelude opts \<Longrightarrow>
    filter is_turn_mark (opening_events opts input) = [TurnStarted (ti_mode input) (ti_text input)]"
  by (auto simp: unmarked_prelude_def opening_events_def is_turn_mark_def list_all_iff filter_empty_conv)

definition status_after :: "('e thread_error, 'v turn_result) outcome \<Rightarrow> thread_status" where
  "status_after r = (case r of
     Done _ \<Rightarrow> Thread_Idle
   | Raised (TE_Harness _) \<Rightarrow> Thread_Failed
   | Raised _ \<Rightarrow> Thread_Idle
   | Out_of_fuel \<Rightarrow> Thread_Running)"

definition closing_marks :: "('e thread_error, 'v turn_result) outcome \<Rightarrow> 'v event list" where
  "closing_marks r = (case r of
     Done res \<Rightarrow> [TurnFinished (trs_status res)]
   | Raised _ \<Rightarrow> [TurnFinished Turn_Failed]
   | Out_of_fuel \<Rightarrow> [])"

text \<open>
   An admitted turn is announced once and closed once: \<open>TurnStarted\<close> is its first effect; when
  it ends, \<open>TurnFinished\<close> with the status of its result is its last, and no other turn mark lies
  between.  The thread is running exactly while the turn has not returned, idle after an outcome or
  a failed preflight, failed after an error of the harness; the result names the turn and carries
  the status of its outcome.
\<close>

theorem turn_life_cycle:
  assumes "run_turn_with_events_and_journal_resume n k env sink mode opts input control w th = e"
    and "admit_turn opts input th = (Inr i, th')" and "unmarked_prelude opts"
  shows "(\<exists>log. ete_trace e = E_Observe (TurnStarted (ti_mode input) (ti_text input)) # log)
    \<and> turn_marks (ete_trace e) = TurnStarted (ti_mode input) (ti_text input) # closing_marks (ete_result e)
    \<and> (ete_result e \<noteq> Out_of_fuel \<longrightarrow>
        (\<exists>log. ete_trace e = log @ map E_Observe (closing_marks (ete_result e))))
    \<and> th_status (ete_thread e) = status_after (ete_result e) \<and> th_last_turn_id (ete_thread e) = Some i
    \<and> (\<forall>res. ete_result e = Done res \<longrightarrow>
        trs_id res = i \<and> trs_status res = status_for_outcome (trs_outcome res))"
  using assms(1)
proof (cases rule: event_turn_cases)
  case refused
  then show ?thesis using assms(2) by simp
next
  case (preflight err j th1 x)
  obtain o3 w' where step: "observe_envelope sink (TurnFinished Turn_Failed) x = (o3, w')" by (meson surj_pair)
  show ?thesis
    using assms(2) preflight(1) admit_turn_admits [OF assms(2)] opening_marks [OF assms(3)]
    by (auto simp: preflight(4) refuse_event_turn_def step status_after_def closing_marks_def opening_events_def
        is_turn_mark_def)
next
  case (run j th1 x r h s)
  note facts = assms(2) run(1) admit_turn_admits [OF assms(2)] opening_marks [OF assms(3), of input] run_unmarked [OF run(4)]
  show ?thesis
  proof (cases "returned r")
    case None
    then show ?thesis
      using facts by (auto simp: run(5) status_after_def closing_marks_def opening_events_def is_turn_mark_def)
  next
    case (Some result)
    obtain o3 w' where step: "observe_envelope sink (TurnFinished (finished_status result)) (rt_world s) = (o3, w')"
      by (meson surj_pair)
    show ?thesis
      using facts Some
      by (cases result) (auto simp: run(5) end_event_turn_def step finish_turn_def as_outcome_def finished_status_def
          status_after_def closing_marks_def opening_events_def is_turn_mark_def Let_def split_beta)
  qed
qed

text \<open>
  A turn is admitted exactly when the thread is neither running nor closed, the input starts a
  turn (or is the input of the recovered one) and its text is within the bound.  A refused turn
  leaves the thread, the control and the world as they were, and shows nothing to the sink.
\<close>

theorem refused_turn_changes_nothing:
  assumes "run_turn_with_events_and_journal_resume n k env sink mode opts input control w th = e"
  shows "(ete_observer e = None \<longleftrightarrow>
      th_status th = Thread_Closed \<or> th_status th = Thread_Running
      \<or> hc_max_user_input_bytes (hn_config (th_harness th)) < length (ti_text input)
      \<or> (case txo_resume opts of None \<Rightarrow> ti_mode input \<notin> {Start, StartIfIdle} | Some (cp, _) \<Rightarrow> ecp_input cp \<noteq> input))
    \<and> (ete_observer e = None \<longrightarrow> ete_thread e = th \<and> ete_control e = control \<and> ete_world e = w
        \<and> ete_trace e = [] \<and> (\<exists>err. ete_result e = Raised err))"
proof -
  have admitted: "(\<exists>i th'. admit_turn opts input th = (Inr i, th')) \<longleftrightarrow> \<not> (th_status th = Thread_Closed
      \<or> th_status th = Thread_Running \<or> hc_max_user_input_bytes (hn_config (th_harness th)) < length (ti_text input)
      \<or> (case txo_resume opts of None \<Rightarrow> ti_mode input \<notin> {Start, StartIfIdle}
          | Some (cp, _) \<Rightarrow> ecp_input cp \<noteq> input))"
    by (auto simp: admit_turn_def begin_turn_def resume_turn_def validate_user_input_def
        split: if_splits sum.splits option.splits)
  show ?thesis
    using assms
  proof (cases rule: event_turn_cases)
    case (refused err)
    then show ?thesis using admitted by simp
  next
    case (preflight err i th1 x)
    then show ?thesis using admitted by simp
  next
    case (run i th1 x r h s)
    then show ?thesis using admitted by (simp split: option.split del: not_None_eq)
  qed
qed

subsection \<open>Turn identifiers\<close>

lemma turn_name_inject [simp]: "turn_name a m = turn_name b n \<longleftrightarrow> a = b \<and> m = n"
proof
  assume eq: "turn_name a m = turn_name b n"
  have "CHR ''-'' \<notin> set (decimal k)" for k
    using decimal_digits [of k] by (auto simp: list_all_iff ascii_digit_def bv_def)
  then show "a = b \<and> m = n"
    using last_separator [of "''turn-'' @ thread_id_str a" "CHR ''-''" "decimal m" "''turn-'' @ thread_id_str b" "decimal n"]
      eq by (auto simp: turn_name_def thread_id.expand)
qed simp

text \<open>
  The steps of a thread that keep its identity and do not set its counter back, with the turns
  they start and the numbers they skip: a host may set the counter forward or restore a
  checkpoint, which passes over the numbers in between.  The harness may be changed through the
  mutable reference at any time.
\<close>

abbreviation skipped_numbers :: "('w, 'v, 'e) thread \<Rightarrow> ('w, 'v, 'e) thread \<Rightarrow> nat set" where
  "skipped_numbers th th' \<equiv> {th_next_turn_number th ..< th_next_turn_number th'}"

inductive thread_step ::
  "('w, 'v, 'e) thread \<Rightarrow> turn_id list \<Rightarrow> nat set \<Rightarrow> ('w, 'v, 'e) thread \<Rightarrow> bool" where
  refused: "admit_turn opts input th = (Inl err, th') \<Longrightarrow> thread_step th [] {} th'"
| turn: "run_turn_with_events_and_journal_resume n k env sink mode opts input control w th = e \<Longrightarrow>
    txo_resume opts = None \<Longrightarrow> ete_observer e = Some o' \<Longrightarrow> th_last_turn_id (ete_thread e) = Some i \<Longrightarrow>
    thread_step th [i] {} (ete_thread e)"
| plain_turn: "run_turn_observed n k env mode input control w th = e \<Longrightarrow> te_trace e \<noteq> [] \<Longrightarrow>
    th_last_turn_id (te_thread e) = Some i \<Longrightarrow> thread_step th [i] {} (te_thread e)"
| resumed: "run_turn_with_events_and_journal_resume n k env sink mode opts input control w th = e \<Longrightarrow>
    txo_resume opts \<noteq> None \<Longrightarrow> thread_step th [] {} (ete_thread e)"
| closed: "close th = (r, th') \<Longrightarrow> thread_step th [] {} th'"
| harness_changed: "thread_step th [] {} (th\<lparr>th_harness := h\<rparr>)"
| renamed: "set_id (th_id th) th = th' \<Longrightarrow> thread_step th [] {} th'"
| counter_set: "set_next_turn_number m th = th' \<Longrightarrow> th_next_turn_number th \<le> th_next_turn_number th' \<Longrightarrow>
    thread_step th [] (skipped_numbers th th') th'"
| restored: "restore_checkpoint js cp th = (r, th') \<Longrightarrow> th_id th' = th_id th \<Longrightarrow>
    th_next_turn_number th \<le> th_next_turn_number th' \<Longrightarrow> thread_step th [] (skipped_numbers th th') th'"

inductive thread_runs ::
  "('w, 'v, 'e) thread \<Rightarrow> turn_id list \<Rightarrow> nat set \<Rightarrow> ('w, 'v, 'e) thread \<Rightarrow> bool" where
  start: "thread_runs th [] {} th"
| step: "thread_runs th ids skipped th' \<Longrightarrow> thread_step th' js passed th'' \<Longrightarrow>
    thread_runs th (ids @ js) (skipped \<union> passed) th''"

definition turn_numbers :: "('w, 'v, 'e) thread \<Rightarrow> nat set \<Rightarrow> ('w, 'v, 'e) thread \<Rightarrow> nat list" where
  "turn_numbers th skipped th' =
     filter (\<lambda>k. k \<notin> skipped) [th_next_turn_number th ..< th_next_turn_number th']"

definition counted :: "('w, 'v, 'e) thread \<Rightarrow> turn_id list \<Rightarrow> nat set \<Rightarrow> ('w, 'v, 'e) thread \<Rightarrow> bool" where
  "counted th ids skipped th' \<longleftrightarrow> th_id th' = th_id th
     \<and> (th_next_turn_number th' < u64_max \<longrightarrow> th_next_turn_number th \<le> th_next_turn_number th'
         \<and> skipped \<subseteq> skipped_numbers th th'
         \<and> ids = map (turn_name (th_id th)) (turn_numbers th skipped th'))"

lemma event_turn_thread:
  assumes "run_turn_with_events_and_journal_resume n k env sink mode opts input control w th = e"
  shows "th_id (ete_thread e) = th_id th"
    and "th_next_turn_number (ete_thread e) =
      (if ete_observer e = None \<or> txo_resume opts \<noteq> None then th_next_turn_number th
       else sat_add (th_next_turn_number th) 1)"
    and "ete_observer e \<noteq> None \<Longrightarrow> txo_resume opts = None \<Longrightarrow>
      th_last_turn_id (ete_thread e) = Some (next_turn_id th)"
proof -
  have admitted: "th_id th1 = th_id th \<and> th_next_turn_number th1 =
      (if txo_resume opts \<noteq> None then th_next_turn_number th else sat_add (th_next_turn_number th) 1)
      \<and> (txo_resume opts = None \<longrightarrow> th_last_turn_id th1 = Some (next_turn_id th))"
    if "admit_turn opts input th = (Inr i, th1)" for i th1
    using that by (auto simp: admit_turn_def begin_turn_def resume_turn_def split: if_splits sum.splits option.splits)
  have all: "th_id (ete_thread e) = th_id th \<and> th_next_turn_number (ete_thread e) =
      (if ete_observer e = None \<or> txo_resume opts \<noteq> None then th_next_turn_number th
       else sat_add (th_next_turn_number th) 1)
      \<and> (ete_observer e \<noteq> None \<longrightarrow> txo_resume opts = None \<longrightarrow>
        th_last_turn_id (ete_thread e) = Some (next_turn_id th))"
    using assms
  proof (cases rule: event_turn_cases)
    case (refused err)
    then show ?thesis by simp
  next
    case (preflight err i th1 x)
    then show ?thesis
      using admitted [OF preflight(1)] by (auto simp del: not_None_eq)
  next
    case (run i th1 x r h s)
    then show ?thesis
      using admitted [OF run(1)]
      by (auto split: option.split simp del: not_None_eq)
  qed
  then show "th_id (ete_thread e) = th_id th"
    and "th_next_turn_number (ete_thread e) =
      (if ete_observer e = None \<or> txo_resume opts \<noteq> None then th_next_turn_number th
       else sat_add (th_next_turn_number th) 1)"
    and "ete_observer e \<noteq> None \<Longrightarrow> txo_resume opts = None \<Longrightarrow>
      th_last_turn_id (ete_thread e) = Some (next_turn_id th)"
    by simp_all
qed

lemma plain_turn_thread:
  assumes "run_turn_observed n k env mode input control w th = e" and "te_trace e \<noteq> []"
  shows "th_id (te_thread e) = th_id th \<and> th_next_turn_number (te_thread e) = sat_add (th_next_turn_number th) 1
    \<and> th_last_turn_id (te_thread e) = Some (next_turn_id th)"
proof -
  obtain a th1 where adm: "begin_turn input th = (a, th1)" by (meson surj_pair)
  show ?thesis
  proof (cases a)
    case (Inl err)
    then show ?thesis using assms adm by (auto simp: run_turn_observed_def)
  next
    case (Inr i)
    note th1 = begin_turn_admits [OF adm [unfolded Inr]]
    show ?thesis
      using assms(1) adm Inr th1(3,4)
      by (auto simp: run_turn_observed_def Let_def split: prod.splits option.splits dest!: finish_turn_keeps(1))
  qed
qed

lemma counted_skip:
  "th_id th' = th_id th \<Longrightarrow> th_next_turn_number th \<le> th_next_turn_number th' \<Longrightarrow>
    counted th [] (skipped_numbers th th') th'"
  by (simp add: counted_def turn_numbers_def)

lemma thread_step_counted: "thread_step th ids skipped th' \<Longrightarrow> counted th ids skipped th'"
proof (induction rule: thread_step.induct)
  case (refused opts input th err th')
  then show ?case using admit_turn_refuses [of opts input th err th'] by (simp add: counted_def turn_numbers_def)
next
  case (turn n k env sink mode opts input control w th e o' i)
  then show ?case
    using event_turn_thread [OF turn(1)]
    by (auto simp: counted_def turn_numbers_def next_turn_id_def sat_add_def min_def split: if_splits)
next
  case (plain_turn n k env mode input control w th e i)
  then show ?case
    using plain_turn_thread [OF plain_turn(1,2)]
    by (auto simp: counted_def turn_numbers_def next_turn_id_def sat_add_def min_def split: if_splits)
next
  case (resumed n k env sink mode opts input control w th e)
  then show ?case using event_turn_thread [OF resumed(1)] by (simp add: counted_def turn_numbers_def)
next
  case (counter_set m th th')
  then show ?case by (auto simp: set_next_turn_number_def intro!: counted_skip)
next
  case (restored js cp th r th')
  then show ?case by (intro counted_skip)
qed (auto simp: counted_def turn_numbers_def close_def set_id_def split: if_splits)

lemma upt_join: "i \<le> j \<Longrightarrow> j \<le> k \<Longrightarrow> [i ..< j] @ [j ..< k] = [i ..< k]"
  using upt_add_eq_append [of i j "k - j"] by simp

lemma turn_numbers_join:
  assumes "th_next_turn_number th \<le> th_next_turn_number th'" and "th_next_turn_number th' \<le> th_next_turn_number th''"
    and "skipped \<subseteq> skipped_numbers th th'" and "passed \<subseteq> skipped_numbers th' th''"
  shows "turn_numbers th skipped th' @ turn_numbers th' passed th'' = turn_numbers th (skipped \<union> passed) th''"
proof -
  have "turn_numbers th skipped th' = turn_numbers th (skipped \<union> passed) th'"
    unfolding turn_numbers_def by (rule filter_cong) (use assms(4) in auto)
  moreover have "turn_numbers th' passed th'' = turn_numbers th' (skipped \<union> passed) th''"
    unfolding turn_numbers_def by (rule filter_cong) (use assms(3) in auto)
  ultimately show ?thesis
    using assms(1,2) by (simp add: turn_numbers_def upt_join flip: filter_append)
qed

lemma thread_step_grows:
  assumes "thread_step th ids skipped th'" and "th_next_turn_number th' < u64_max"
  shows "th_next_turn_number th < u64_max"
  using assms thread_step_counted [OF assms(1)] by (simp add: counted_def)

lemma thread_runs_counted: "thread_runs th ids skipped th' \<Longrightarrow> counted th ids skipped th'"
proof (induction rule: thread_runs.induct)
  case (step th ids skipped th' js passed th'')
  show ?case
  proof (cases "th_next_turn_number th'' < u64_max")
    case True
    then have "th_next_turn_number th' < u64_max" using thread_step_grows [OF step(2)] by simp
    with True step(3) thread_step_counted [OF step(2)] show ?thesis
      using turn_numbers_join [of th th' th'' skipped passed]
      by (auto simp: counted_def simp flip: map_append)
  next
    case False
    then show ?thesis using step(3) thread_step_counted [OF step(2)] by (simp add: counted_def)
  qed
qed (simp add: counted_def turn_numbers_def)

text \<open>
  C12.  The turns a thread starts, whatever mix of admitted, refused, recovered and plain turns,
  closings and changes of its harness it goes through, are named in order by the thread and by
  consecutive numbers of its counter, of which only those are left out that the host passed over
  by setting the counter forward or by restoring a checkpoint with a greater one.  So no identifier
  is used twice, and two threads with different names share none.  This is as long as the counter
  has not saturated and the host neither gives the thread another name nor sets its counter
  back (\<open>set_id\<close>, \<open>set_next_turn_number\<close> and \<open>restore_checkpoint\<close> can do both).
\<close>

theorem turn_ids_never_repeat:
  assumes "thread_runs th ids skipped th'" and "th_next_turn_number th' < u64_max"
    and "thread_runs other js passed other'" and "th_next_turn_number other' < u64_max" and "th_id other \<noteq> th_id th"
  shows "ids = map (\<lambda>k. TurnId (''turn-'' @ thread_id_str (th_id th) @ ''-'' @ decimal k))
        (filter (\<lambda>k. k \<notin> skipped) [th_next_turn_number th ..< th_next_turn_number th'])
    \<and> skipped \<subseteq> {th_next_turn_number th ..< th_next_turn_number th'}
    \<and> distinct ids \<and> set ids \<inter> set js = {}"
proof -
  note facts = thread_runs_counted [OF assms(1)] thread_runs_counted [OF assms(3)]
  then have "distinct ids \<and> set ids \<inter> set js = {}"
    using assms(2,4,5) by (auto simp: counted_def turn_numbers_def distinct_map inj_on_def)
  then show ?thesis
    using facts(1) assms(2) by (simp add: counted_def turn_numbers_def turn_name_def)
qed

subsection \<open>Checkpoints\<close>

lemma restore_parts_settled:
  assumes "complete_groups (st_messages st)" and "check_messages js c (st_messages st) = Inr ()"
    and "context_limit_of js c specs st = Inr ()"
  shows "restore_parts js c specs [] st = Inr (st, [])"
proof -
  have "repair_tool_groups (st_messages st) = st_messages st" by (rule repair_complete_id [OF assms(1)])
  then have "snd (repair_incomplete_tool_groups st) = st"
    by (simp add: repair_incomplete_tool_groups_def Let_def)
  then show ?thesis using assms(2,3) by (simp add: restore_parts_def Let_def)
qed

text \<open>
  A checkpoint of a settled thread restores into another settled thread of the same limits and
  tools: the session, the status, the turn counter, the last turn and the event counter all come
  back, so that a checkpoint taken there is the same checkpoint; model, tools and configuration of
  the host thread stay.
\<close>

theorem checkpoint_roundtrip:
  assumes "checkpoint th = Inr cp" and "0 < th_next_turn_number th" and "0 < th_next_event_sequence th"
    and "th_status host \<noteq> Thread_Running" and "hn_pending (th_harness host) = []"
    and "complete_groups (st_messages (hn_session (th_harness th)))"
    and "check_messages js (hn_config (th_harness host)) (st_messages (hn_session (th_harness th))) = Inr ()"
    and "context_limit_of js (hn_config (th_harness host)) (router_specs (hn_tools (th_harness host)))
      (hn_session (th_harness th)) = Inr ()"
  shows "\<exists>th'. restore_checkpoint js cp host = (Inr (), th') \<and> checkpoint th' = Inr cp
    \<and> th_harness th' = (th_harness host)\<lparr>hn_session := hn_session (th_harness th)\<rparr>"
proof -
  have cp: "th_status th \<noteq> Thread_Running" "cp = \<lparr>tcp_thread_id = th_id th, tcp_session = hn_session (th_harness th),
       tcp_status = th_status th, tcp_next_turn_number = th_next_turn_number th,
       tcp_last_turn_id = th_last_turn_id th, tcp_next_event_sequence = th_next_event_sequence th\<rparr>"
    using assms(1) by (auto simp: checkpoint_def split: if_splits)
  have "restore_session js (tcp_session cp) (th_harness host)
      = (Inr (), (th_harness host)\<lparr>hn_session := hn_session (th_harness th)\<rparr>)"
    using restore_parts_settled [OF assms(6-8)] assms(5) by (simp add: restore_session_def cp(2))
  then show ?thesis
    using cp(1) assms(2-4) by (simp add: restore_checkpoint_def cp(2) checkpoint_def max_def)
qed

subsection \<open>Envelopes are transparent\<close>

text \<open>A sink with the hooks of the trait's defaults that delivers the events alone.\<close>

definition event_only_sink :: "('v event \<Rightarrow> 'w \<Rightarrow> 'w) \<Rightarrow> ('w, 'v) event_sink" where
  "event_only_sink f = \<lparr>es_emit = (\<lambda>envelope. f (ee_event envelope)),
     es_before_event = (\<lambda>th i ev n w. (n, w)), es_after_event = (\<lambda>th i ev n w. (n, w))\<rparr>"

lemma event_only_observe [simp]: "snd (observe_envelope (event_only_sink f) ev x) = f ev (snd x)"
  by (simp add: observe_envelope_def event_only_sink_def event_envelope_new_def split_beta Let_def)

interpretation transparent: larger_world snd "envelope_env (event_only_sink f) env" "env\<lparr>he_observe := f\<rparr>"
    "lift_harness h" h for f env h
  by unfold_locales
    (auto simp: envelope_env_def lift_harness_def lift_model_def execute_outcome_lift recovery_replay_safety_lift)

lemma event_only_prelude: "snd (observe_prelude (event_only_sink f) evs x) = fold f evs (snd x)"
  by (induction evs arbitrary: x) (simp_all add: observe_prelude_def)

text \<open>
  C37.  The envelopes only wrap: under a sink that delivers the events alone, a turn refines the run
  of the bare harness observed by the same deliveries.  It returns the result of that run, leaves
  its conversation, its world and its effects, framed by the events that open and close the turn.
\<close>

theorem envelopes_are_transparent:
  assumes "run_turn_with_events_and_journal_resume n k env (event_only_sink f) mode opts input control w th = e"
    and "admit_turn opts input th = (Inr i, th1)" and "txo_preflight_error opts = None"
    and "run_with_control_mode_and_tool_context n k (env\<lparr>he_observe := f\<rparr>) mode
      (event_run_options opts input (prefer_models input th1) i) (ti_text input) control
      (fold f (opening_events opts input) w) (th_harness (prefer_models input th1)) = (r, h, s)"
  shows "th_harness (ete_thread e) = h \<and> ete_control e = rt_control s
    \<and> (case returned r of
        None \<Rightarrow> ete_result e = Out_of_fuel \<and> ete_world e = rt_world s
          \<and> ete_trace e = map E_Observe (opening_events opts input) @ rt_trace s
      | Some result \<Rightarrow> ete_result e = as_outcome (fst (finish_turn i result th1))
          \<and> ete_world e = f (TurnFinished (finished_status result)) (rt_world s)
          \<and> ete_trace e = map E_Observe (opening_events opts input) @ rt_trace s
              @ [E_Observe (TurnFinished (finished_status result))])"
  using assms(1)
proof (cases rule: event_turn_cases)
  case (run j th1' x r' h' s')
  have same: "j = i" "th1' = th1" using run(1) assms(2) by simp_all
  have x: "snd x = fold f (opening_events opts input) w" by (simp add: run(3) event_only_prelude)
  have agree: "r = r' \<and> s = project snd s' \<and> hn_session h = hn_session h' \<and> hn_pending h = hn_pending h'"
    using transparent.runs_agree [OF run(4)] assms(4) by (simp add: x same)
  have h: "h = (th_harness (prefer_models input th1))\<lparr>hn_session := rt_session s, hn_pending := rt_pending s\<rparr>"
    using assms(4) by (simp add: run_with_control_mode_and_tool_context_def split: prod.splits)
  then have harness: "th_harness (take_harness h' (prefer_models input th1)) = h"
    using agree by (simp add: take_harness_def)
  show ?thesis
  proof (cases "returned r'")
    case None
    then show ?thesis using agree harness by (simp add: run(5) same)
  next
    case (Some result)
    then show ?thesis
      using agree harness
      by (cases result)
        (auto simp: run(5) same end_event_turn_def Let_def split_beta finish_turn_def)
  qed
qed (use assms(2,3) in simp_all)

subsection \<open>Witnesses\<close>

definition sample_thread :: "string \<Rightarrow> (nat, nat, unit) thread" where
  "sample_thread name = thread_new (ThreadId name) (sample_harness [])"

definition sample_turn_options :: "nat event list \<Rightarrow> string option \<Rightarrow> nat turn_execution_options" where
  "sample_turn_options prelude refusal = \<lparr>txo_prelude = prelude, txo_preflight_error = refusal, txo_resume = None,
     txo_applied_steer_request_ids = []\<rparr>"

definition sample_sink :: "(nat, nat) event_sink" where
  "sample_sink = event_only_sink (\<lambda>ev w. Suc w)"

definition sample_turn ::
  "nat event list \<Rightarrow> string option \<Rightarrow> turn_input_mode \<Rightarrow> string \<Rightarrow> (nat, nat, unit) event_turn_end" where
  "sample_turn prelude refusal mode name =
    run_turn_with_events_and_journal_resume (Suc (Suc (Suc 0))) (Suc 0) sample_env sample_sink StopAtCheckpoint
      (sample_turn_options prelude refusal) (turn_input_new mode ''hi'') run_control_new 0 (sample_thread name)"

lemma sample_sink_advances: "sink_advances sample_sink"
  by (simp add: sink_advances_def sample_sink_def event_only_sink_def)

lemma sample_admitted: "\<exists>th. admit_turn (sample_turn_options prelude refusal) (turn_input_new Start ''hi'') (sample_thread name)
    = (Inr (turn_name (ThreadId name) 1), th)"
  by (simp add: admit_turn_def sample_turn_options_def begin_turn_def sample_thread_def thread_new_def
      turn_input_new_def validate_user_input_def sample_config_def next_turn_id_def)

definition sample_prelude :: "nat event list" where
  "sample_prelude = [ModelStarted 7 0 [] [], AssistantTextDelta ''x'']"

text \<open>A turn refused by its preflight, evaluated.\<close>

lemma sample_turn_evaluated:
  "ete_observer (sample_turn sample_prelude (Some ''no'') Start ''a'') = Some \<lparr>eo_thread_id = ThreadId ''a'',
     eo_turn_id = turn_name (ThreadId ''a'') 1, eo_next_sequence = 5, eo_active_compaction_item_id = None,
     eo_active_model_item_id = Some (model_item_id (turn_name (ThreadId ''a'') 1) 7),
     eo_emitted = map (\<lambda>(n, item, ev). (event_envelope_new (ThreadId ''a'') (Some (turn_name (ThreadId ''a'') 1)) n ev)
        \<lparr>ee_item_id := item\<rparr>)
       [(1, None, TurnStarted Start ''hi''),
        (2, Some (model_item_id (turn_name (ThreadId ''a'') 1) 7), ModelStarted 7 0 [] []),
        (3, Some (model_item_id (turn_name (ThreadId ''a'') 1) 7), AssistantTextDelta ''x''),
        (4, None, TurnFinished Turn_Failed)]\<rparr>"
  by (simp add: sample_turn_def run_turn_with_events_and_journal_resume_def admit_turn_def sample_turn_options_def
      begin_turn_def sample_thread_def thread_new_def turn_input_new_def validate_user_input_def sample_config_def
      next_turn_id_def Let_def refuse_event_turn_def observe_envelope_def observe_prelude_def sample_sink_def
      event_only_sink_def envelope_observer_new_def assign_item_def sample_prelude_def event_envelope_new_def
      sat_add_def u64_max_def prefer_models_def)

theorem envelopes_number_the_turn_witness:
  "case ete_observer (sample_turn sample_prelude (Some ''no'') Start ''a'') of
     None \<Rightarrow> False
   | Some o' \<Rightarrow> map ee_event (eo_emitted o') = observed (ete_trace (sample_turn sample_prelude (Some ''no'') Start ''a''))
       \<and> sorted_wrt (<) (map ee_sequence (eo_emitted o')) \<and> length (eo_emitted o') = 4"
  using envelopes_number_the_turn [OF sample_sink_advances sample_turn_def [symmetric] sample_turn_evaluated]
  by (simp add: sample_turn_evaluated u64_max_def)

theorem model_output_filed_under_its_step_witness:
  "\<exists>i. th_last_turn_id (ete_thread (sample_turn sample_prelude (Some ''no'') Start ''a'')) = Some i
    \<and> Some (model_item_id (turn_name (ThreadId ''a'') 1) 7) = open_item i ([TurnStarted Start ''hi'', ModelStarted 7 0 [] []] :: nat event list)"
  using model_output_filed_under_its_step [OF sample_sink_advances sample_turn_def [symmetric] sample_turn_evaluated,
      where j = 2]
  by (simp add: model_output_def event_envelope_new_def numeral_2_eq_2)

theorem turn_life_cycle_witness:
  "th_status (ete_thread (sample_turn [] None Start ''a'')) = status_after (ete_result (sample_turn [] None Start ''a''))
    \<and> turn_marks (ete_trace (sample_turn [] None Start ''a''))
        = TurnStarted Start ''hi'' # closing_marks (ete_result (sample_turn [] None Start ''a''))"
proof -
  obtain th where adm: "admit_turn (sample_turn_options [] None) (turn_input_new Start ''hi'') (sample_thread ''a'')
      = (Inr (turn_name (ThreadId ''a'') 1), th)"
    using sample_admitted by blast
  have "unmarked_prelude (sample_turn_options [] None)" by (simp add: unmarked_prelude_def sample_turn_options_def)
  from turn_life_cycle [OF sample_turn_def [symmetric] adm this] show ?thesis by (simp add: turn_input_new_def)
qed

theorem refused_turn_changes_nothing_witness:
  "ete_observer (sample_turn [] None Steer ''a'') = None
    \<and> ete_thread (sample_turn [] None Steer ''a'') = sample_thread ''a''
    \<and> ete_trace (sample_turn [] None Steer ''a'') = []"
  using refused_turn_changes_nothing [OF sample_turn_def [symmetric, of "[]" None Steer "''a''"]]
  by (simp add: sample_turn_options_def turn_input_new_def)

lemma sample_thread_runs:
  "thread_runs (sample_thread name) [turn_name (ThreadId name) 1] {} (ete_thread (sample_turn [] (Some ''no'') Start name))
    \<and> th_next_turn_number (ete_thread (sample_turn [] (Some ''no'') Start name)) = 2"
proof -
  let ?e = "sample_turn [] (Some ''no'') Start name"
  obtain o' where o': "ete_observer ?e = Some o'" and last_id: "th_last_turn_id (ete_thread ?e) = Some (turn_name (ThreadId name) 1)"
    and next_number: "th_next_turn_number (ete_thread ?e) = 2"
    by (simp add: sample_turn_def run_turn_with_events_and_journal_resume_def admit_turn_def sample_turn_options_def
      begin_turn_def sample_thread_def thread_new_def turn_input_new_def validate_user_input_def sample_config_def
      next_turn_id_def Let_def refuse_event_turn_def split_beta sat_add_def u64_max_def)
  have "thread_step (sample_thread name) [turn_name (ThreadId name) 1] {} (ete_thread ?e)"
    by (rule thread_step.turn [OF sample_turn_def [symmetric] _ o' last_id]) (simp add: sample_turn_options_def)
  from thread_runs.step [OF thread_runs.start this] next_number show ?thesis by simp
qed

theorem turn_ids_never_repeat_witness:
  "[turn_name (ThreadId ''a'') 1] = map (turn_name (ThreadId ''a'')) (filter (\<lambda>k. k \<notin> {2 ..< 5}) [1 ..< 5])
    \<and> turn_name (ThreadId ''a'') 1 \<noteq> turn_name (ThreadId ''b'') 1"
proof -
  let ?ended = "\<lambda>name. ete_thread (sample_turn [] (Some ''no'') Start name)"
  have number: "th_next_turn_number (sample_thread name) = 1" and name: "th_id (sample_thread name) = ThreadId name" for name
    by (simp_all add: sample_thread_def thread_new_def)
  have a: "thread_runs (sample_thread ''a'') [turn_name (ThreadId ''a'') 1] {} (?ended ''a'')"
    and b: "thread_runs (sample_thread ''b'') [turn_name (ThreadId ''b'') 1] {} (?ended ''b'')"
    and n: "th_next_turn_number (?ended ''a'') = 2" "th_next_turn_number (?ended ''b'') = 2"
    using sample_thread_runs by auto
  have "thread_step (?ended ''a'') [] (skipped_numbers (?ended ''a'') (set_next_turn_number 5 (?ended ''a'')))
      (set_next_turn_number 5 (?ended ''a''))"
    by (rule thread_step.counter_set [OF refl]) (simp add: set_next_turn_number_def n)
  then have "thread_step (?ended ''a'') [] {2 ..< 5} (set_next_turn_number 5 (?ended ''a''))"
    by (simp add: set_next_turn_number_def n)
  with a have "thread_runs (sample_thread ''a'') ([turn_name (ThreadId ''a'') 1] @ []) ({} \<union> {2 ..< 5})
      (set_next_turn_number 5 (?ended ''a''))"
    by (rule thread_runs.step)
  from turn_ids_never_repeat [OF this _ b] show ?thesis
    by (simp add: set_next_turn_number_def n number name u64_max_def turn_name_def)
qed

theorem checkpoint_roundtrip_witness:
  "\<exists>cp th'. checkpoint (sample_thread ''a'') = Inr cp
    \<and> restore_checkpoint sample_serde cp (sample_thread ''b'') = (Inr (), th') \<and> checkpoint th' = Inr cp"
proof -
  have cp: "\<exists>cp. checkpoint (sample_thread ''a'') = Inr cp"
    by (simp add: checkpoint_def sample_thread_def thread_new_def)
  then obtain cp where cp: "checkpoint (sample_thread ''a'') = Inr cp" ..
  have "\<exists>th'. restore_checkpoint sample_serde cp (sample_thread ''b'') = (Inr (), th') \<and> checkpoint th' = Inr cp
      \<and> th_harness th' = (th_harness (sample_thread ''b''))\<lparr>hn_session := hn_session (th_harness (sample_thread ''a''))\<rparr>"
    by (rule checkpoint_roundtrip [OF cp])
      (simp_all add: sample_thread_def thread_new_def session_new_def complete_groups_def context_limit_of_def
        context_bytes_def context_bytes_for_def sample_config_def sample_router_def router_specs_def
        router_new_def router_with_executor_def is_hidden_def Let_def)
  then show ?thesis using cp by blast
qed

theorem envelopes_are_transparent_witness:
  "\<exists>r h s. run_with_control_mode_and_tool_context (Suc (Suc (Suc 0))) (Suc 0) (sample_env\<lparr>he_observe := \<lambda>ev w. Suc w\<rparr>)
      StopAtCheckpoint (event_run_options (sample_turn_options [] None) (turn_input_new Start ''hi'')
        (prefer_models (turn_input_new Start ''hi'') (snd (admit_turn (sample_turn_options [] None)
           (turn_input_new Start ''hi'') (sample_thread ''a'')))) (turn_name (ThreadId ''a'') 1))
      ''hi'' run_control_new 1
      (th_harness (prefer_models (turn_input_new Start ''hi'') (snd (admit_turn (sample_turn_options [] None)
        (turn_input_new Start ''hi'') (sample_thread ''a''))))) = (r, h, s)
    \<and> th_harness (ete_thread (sample_turn [] None Start ''a'')) = h"
proof -
  obtain th where adm: "admit_turn (sample_turn_options [] None) (turn_input_new Start ''hi'') (sample_thread ''a'')
      = (Inr (turn_name (ThreadId ''a'') 1), th)"
    using sample_admitted by blast
  have input: "ti_text (turn_input_new Start ''hi'') = ''hi''" by (simp add: turn_input_new_def)
  have world: "fold (\<lambda>ev w. Suc w) (opening_events (sample_turn_options [] None) (turn_input_new Start ''hi'')) 0 = 1"
    by (simp add: opening_events_def sample_turn_options_def)
  obtain r h s where ran: "run_with_control_mode_and_tool_context (Suc (Suc (Suc 0))) (Suc 0)
      (sample_env\<lparr>he_observe := \<lambda>ev w. Suc w\<rparr>) StopAtCheckpoint
      (event_run_options (sample_turn_options [] None) (turn_input_new Start ''hi'')
        (prefer_models (turn_input_new Start ''hi'') th) (turn_name (ThreadId ''a'') 1))
      (ti_text (turn_input_new Start ''hi'')) run_control_new
      (fold (\<lambda>ev w. Suc w) (opening_events (sample_turn_options [] None) (turn_input_new Start ''hi'')) 0)
      (th_harness (prefer_models (turn_input_new Start ''hi'') th)) = (r, h, s)"
    by (metis surj_pair)
  have "txo_preflight_error (sample_turn_options [] None) = None" by (simp add: sample_turn_options_def)
  from envelopes_are_transparent [OF sample_turn_def [symmetric, unfolded sample_sink_def] adm this ran]
  have "th_harness (ete_thread (sample_turn [] None Start ''a'')) = h" by simp
  with ran show ?thesis by (simp add: adm input world)
qed

end
