(* ===== verification/Security.thy ===== *)
theory Security
  imports Str_Split Protocol "HOL-Library.List_Lexorder" "HOL-Library.Char_ord"
begin

section \<open>Security policy and approvals (security.rs, workspace/approval.rs)\<close>

text \<open>
  The static policy that decides an action by its patterns, the classification of risky
  requests, the store of approval grants and the controller that asks the user.  The
  controller's locks are taken one at a time and never held across a call, so one request is
  modelled as one function of the controller's state; the user's callback is a parameter that
  acts on the world.
\<close>

subsection \<open>Grant keys and risk (security.rs)\<close>

definition grant_target_paths :: "string list \<Rightarrow> string list" where
  "grant_target_paths paths =
    remdups_adj (sort (filter (\<lambda>p. p \<noteq> []) (map (\<lambda>p. forward_slashes (trim p)) paths)))"

definition action_grant_key_of :: "tool_approval_request \<Rightarrow> string \<Rightarrow> action_grant_key option" where
  "action_grant_key_of request access_scope =
    (case (ar_tool_name request, ar_workspace_id request, ar_workspace_revision request) of
       (Some tool, Some workspace, Some revision) \<Rightarrow>
         (let action_class = trim tool; normalized_action = forward_slashes (trim (ar_action request));
              workspace_id = trim workspace; scope = trim access_scope
          in if action_class = [] \<or> normalized_action = [] \<or> workspace_id = [] \<or> scope = [] then None
             else Some \<lparr>ak_action_class = action_class, ak_normalized_action = normalized_action,
               ak_target_paths = grant_target_paths (ar_target_paths request), ak_access_scope = scope,
               ak_workspace_id = workspace_id, ak_workspace_revision = revision\<rparr>)
     | _ \<Rightarrow> None)"

definition lower_tool_name :: "tool_approval_request \<Rightarrow> string" where
  "lower_tool_name request = to_ascii_lowercase (trim (case ar_tool_name request of None \<Rightarrow> [] | Some t \<Rightarrow> t))"

definition is_high_risk :: "tool_approval_request \<Rightarrow> bool" where
  "is_high_risk request \<longleftrightarrow> (case ar_tool_name request of
     None \<Rightarrow> True
   | Some class \<Rightarrow> to_ascii_lowercase (trim class) \<notin> {''read_file'', ''read_image'', ''file_read'', ''web_fetch''})"

definition shell_command_of :: "string \<Rightarrow> string" where
  "shell_command_of normalized =
    (case Option.bind (strip_prefix ''shell command `'' (trim normalized)) (strip_suffix ''`'') of
       Some c \<Rightarrow> c
     | None \<Rightarrow> (case strip_prefix ''shell:'' (trim normalized) of
         Some c \<Rightarrow> c
       | None \<Rightarrow> (case Option.bind (strip_prefix ''start process `'' (trim normalized)) (strip_suffix ''`'') of
           Some c \<Rightarrow> c
         | None \<Rightarrow> normalized)))"

definition token_noise :: "char \<Rightarrow> bool" where
  "token_noise c \<longleftrightarrow> \<not> ((0x30 \<le> bv c \<and> bv c \<le> 0x39) \<or> (0x41 \<le> bv c \<and> bv c \<le> 0x5A) \<or> (0x61 \<le> bv c \<and> bv c \<le> 0x7A)
     \<or> c = CHR ''-'' \<or> c = CHR ''/'' \<or> c = CHR ''_'')"

definition command_tokens :: "string \<Rightarrow> string list" where
  "command_tokens command = filter (\<lambda>t. t \<noteq> []) (map (trim_matches token_noise) (split_whitespace command))"

definition destructive_git :: "string list \<Rightarrow> bool" where
  "destructive_git args = (case args of
     [] \<Rightarrow> False
   | sub # _ \<Rightarrow>
       if sub = ''reset'' then ''--hard'' \<in> set args
       else if sub = ''clean'' then list_ex (\<lambda>a. starts_with ''-'' a \<and> CHR ''f'' \<in> set a) args
       else if sub = ''push'' then list_ex (\<lambda>a. a = ''--force'' \<or> a = ''-f'' \<or> a = ''--force-with-lease'') args
       else if sub = ''branch'' then list_ex (\<lambda>a. a = ''-d'' \<or> a = ''-D'') args
       else if sub = ''checkout'' then ''--'' \<in> set args
       else sub = ''restore'')"

definition destructive_program :: "string \<Rightarrow> string list \<Rightarrow> bool" where
  "destructive_program program args =
    (if program = ''rm''
     then list_ex (\<lambda>a. starts_with ''-'' a
       \<and> (CHR ''r'' \<in> set a \<or> CHR ''f'' \<in> set a \<or> a = ''--recursive'' \<or> a = ''--force'')) args
     else if program \<in> {''rmdir'', ''rd'', ''remove-item'', ''ri''} then True
     else if program \<in> {''del'', ''erase''} then list_ex (\<lambda>a. a = ''/s'' \<or> a = ''/q'' \<or> a = ''/f'') args
     else if program = ''git'' then destructive_git args
     else program \<in> {''format-volume'', ''diskpart'', ''shutdown'', ''stop-computer''})"

fun destructive_tokens :: "string list \<Rightarrow> bool" where
  "destructive_tokens [] = False"
| "destructive_tokens (t # ts) =
    (destructive_program (after_last [CHR ''/'', CHR 0x5C] t) ts \<or> destructive_tokens ts)"

definition destructive_fragments :: "string list" where
  "destructive_fragments = [''shutil.rmtree'', ''remove-item -recurse'', ''remove-item -force'', ''os.remove('', ''.unlink('']"

definition is_destructive_shell_command :: "string \<Rightarrow> bool" where
  "is_destructive_shell_command action =
    (let command = shell_command_of (to_ascii_lowercase (trim action)) in
     destructive_tokens (command_tokens command) \<or> list_ex (\<lambda>f. contains_sub f command) destructive_fragments)"

definition is_trusted_high_risk :: "tool_approval_request \<Rightarrow> bool" where
  "is_trusted_high_risk request =
    (let tool = lower_tool_name request in
     if tool \<in> {''shell'', ''bash'', ''exec''} then is_destructive_shell_command (ar_action request)
     else if tool \<in> {''read_image'', ''apply_patch'', ''mcp'', ''mcp_tool''} then True
     else is_high_risk request \<or> is_destructive_shell_command (ar_action request))"

subsection \<open>The policy (security.rs)\<close>

datatype security_preset = Preset_Default | Preset_FullMachine | Preset_Custom

definition preset_parse :: "string \<Rightarrow> string + security_preset" where
  "preset_parse text =
    (let t = to_ascii_lowercase text in
     if t = ''default'' then Inr Preset_Default
     else if t = ''full-machine'' \<or> t = ''full_machine'' \<or> t = ''fullmachine'' then Inr Preset_FullMachine
     else if t = ''custom'' then Inr Preset_Custom
     else Inl (''unknown security preset: '' @ t))"

definition preset_name :: "security_preset \<Rightarrow> string" where
  "preset_name p = (case p of
     Preset_Default \<Rightarrow> ''default'' | Preset_FullMachine \<Rightarrow> ''full-machine'' | Preset_Custom \<Rightarrow> ''custom'')"

datatype security_decision = Decide_Allow | Decide_Ask | Decide_Deny

record security_policy =
  sp_preset :: security_preset
  sp_deny_patterns :: "string list"
  sp_ask_patterns :: "string list"
  sp_allow_patterns :: "string list"

definition policy_for_preset :: "security_preset \<Rightarrow> security_policy" where
  "policy_for_preset p = (case p of
     Preset_Default \<Rightarrow> \<lparr>sp_preset = p,
       sp_deny_patterns = [''**/.env*'', ''**/*.pem'', ''**/*.key'', ''rm -rf *'', ''rm -rf /*'', ''gh auth *''],
       sp_ask_patterns = [''*''], sp_allow_patterns = []\<rparr>
   | Preset_FullMachine \<Rightarrow> \<lparr>sp_preset = p, sp_deny_patterns = [''rm -rf *'', ''rm -rf /*''],
       sp_ask_patterns = [''shell:*''], sp_allow_patterns = [''file:*'']\<rparr>
   | Preset_Custom \<Rightarrow> \<lparr>sp_preset = p, sp_deny_patterns = [], sp_ask_patterns = [], sp_allow_patterns = []\<rparr>)"

text \<open>The path of a \<open>write\<close> action without the byte count it may carry.\<close>

definition write_path :: "string \<Rightarrow> string" where
  "write_path path = (case rfind_sub '' ('' path of
     Some i \<Rightarrow> if ends_with '' bytes)'' path then take i path else path
   | None \<Rightarrow> path)"

definition first_prefix :: "string list \<Rightarrow> string \<Rightarrow> string option" where
  "first_prefix ps s = (case filter (\<lambda>p. starts_with p s) ps of
     [] \<Rightarrow> None | p # _ \<Rightarrow> Some (drop (length p) s))"

definition normalize_action :: "string \<Rightarrow> string option \<times> string" where
  "normalize_action action =
    (let trimmed = trim action in
     case Option.bind (strip_prefix ''shell command `'' trimmed) (strip_suffix ''`'') of
       Some c \<Rightarrow> (Some ''shell'', c)
     | None \<Rightarrow> (case Option.bind (strip_prefix ''start process `'' trimmed) (strip_suffix ''`'') of
       Some c \<Rightarrow> (Some ''shell'', c)
     | None \<Rightarrow> (case strip_prefix ''shell:'' trimmed of
       Some c \<Rightarrow> (Some ''shell'', c)
     | None \<Rightarrow> (case strip_prefix ''write '' trimmed of
       Some path \<Rightarrow> (Some ''file'', forward_slashes (write_path path))
     | None \<Rightarrow> (case first_prefix [''edit '', ''read '', ''file:write:'', ''file:edit:'', ''file:read:'', ''file:''] trimmed of
       Some path \<Rightarrow> (Some ''file'', forward_slashes path)
     | None \<Rightarrow> (case first_prefix [''mcp tool '', ''mcp:''] trimmed of
       Some mcp \<Rightarrow> (Some ''mcp'', mcp)
     | None \<Rightarrow> (None, forward_slashes trimmed)))))))"

definition simple_match :: "string \<Rightarrow> string \<Rightarrow> bool" where
  "simple_match pattern text = (case strip_suffix ''*'' pattern of
     Some prefix \<Rightarrow> starts_with prefix text
   | None \<Rightarrow> (case strip_prefix ''*'' pattern of
       Some suffix \<Rightarrow> ends_with suffix text
     | None \<Rightarrow> pattern = text))"

function match_single :: "string \<Rightarrow> string \<Rightarrow> bool" where
  "match_single pattern text =
    (if pattern = ''*'' \<or> pattern = ''**'' then True
     else (case strip_prefix ''**/'' pattern of
         None \<Rightarrow> simple_match pattern text
       | Some glob_suffix \<Rightarrow>
           match_single glob_suffix text
           \<or> (case rfind_sub ''/'' text of Some i \<Rightarrow> match_single glob_suffix (drop (Suc i) text) | None \<Rightarrow> False)
           \<or> simple_match pattern text))"
  by pat_completeness auto
termination
  by (relation "measure (\<lambda>(p, t). length p)") (auto simp: strip_prefix_def starts_with_iff split: if_splits)

declare match_single.simps [simp del]

definition matches_pattern :: "string \<Rightarrow> string \<Rightarrow> bool" where
  "matches_pattern pattern text =
    (if pattern = ''*'' \<or> pattern = ''**'' then True
     else (case normalize_action text of (kind, normalized) \<Rightarrow>
       match_single pattern (forward_slashes text) \<or> match_single pattern normalized
       \<or> (case kind of None \<Rightarrow> False | Some k \<Rightarrow>
            match_single pattern (k @ '':'' @ normalized)
            \<or> (k = ''file'' \<and> (match_single pattern (''file:write:'' @ normalized)
                \<or> match_single pattern (''file:edit:'' @ normalized)
                \<or> match_single pattern (''file:read:'' @ normalized))))))"

definition evaluate :: "security_policy \<Rightarrow> string \<Rightarrow> security_decision" where
  "evaluate policy action =
    (if list_ex (\<lambda>p. matches_pattern p action) (sp_deny_patterns policy) then Decide_Deny
     else if list_ex (\<lambda>p. matches_pattern p action) (sp_ask_patterns policy) then Decide_Ask
     else if list_ex (\<lambda>p. matches_pattern p action) (sp_allow_patterns policy) then Decide_Allow
     else if sp_preset policy = Preset_FullMachine \<and> starts_with ''file:'' action then Decide_Allow
     else Decide_Ask)"

subsection \<open>Approval grants (security.rs)\<close>

definition max_cached_approvals :: nat where
  "max_cached_approvals = 1024"

record approval_grant =
  ag_scope :: action_grant_scope
  ag_owner :: string
  ag_key :: action_grant_key

text \<open>A hash set: the list holds no grant twice.\<close>

type_synonym approval_store = "approval_grant list"

definition approval_store_new :: approval_store where
  "approval_store_new = []"

definition grant :: "action_grant_scope \<Rightarrow> string \<Rightarrow> action_grant_key \<Rightarrow> approval_grant" where
  "grant scope owner key = \<lparr>ag_scope = scope, ag_owner = owner, ag_key = key\<rparr>"

definition store_contains :: "action_grant_scope \<Rightarrow> string \<Rightarrow> action_grant_key \<Rightarrow> approval_store \<Rightarrow> bool" where
  "store_contains scope owner key store \<longleftrightarrow> grant scope owner key \<in> set store"

definition store_insert :: "action_grant_scope \<Rightarrow> string \<Rightarrow> action_grant_key \<Rightarrow> approval_store \<Rightarrow> approval_store" where
  "store_insert scope owner key store =
    (if max_cached_approvals \<le> length store then store else List.insert (grant scope owner key) store)"

subsection \<open>The approval controller (workspace/approval.rs)\<close>

datatype approval_failure = PolicyDenied string | UserDenied string | Internal string

definition approval_failure_text :: "approval_failure \<Rightarrow> string" where
  "approval_failure_text e = (case e of PolicyDenied m \<Rightarrow> m | UserDenied m \<Rightarrow> m | Internal m \<Rightarrow> m)"

record approval_binding =
  ab_project_id :: "string option"
  ab_workspace_id :: "string option"
  ab_workspace_revision :: "nat option"
  ab_session_id :: "string option"

definition binding_default :: approval_binding where
  "binding_default = \<lparr>ab_project_id = None, ab_workspace_id = None, ab_workspace_revision = None, ab_session_id = None\<rparr>"

definition binding_owner :: "action_grant_scope \<Rightarrow> approval_binding \<Rightarrow> string option" where
  "binding_owner scope b = (case scope of
     Once \<Rightarrow> None
   | Session \<Rightarrow> ab_session_id b
   | Project \<Rightarrow> (case (ab_project_id b, ab_workspace_id b) of
       (Some project, Some workspace) \<Rightarrow> Some (project @ [CHR 0x00] @ workspace)
     | _ \<Rightarrow> None))"

text \<open>
  Paths are strings; the functions of \<open>std::path\<close> the controller calls are parameters.
\<close>

record plan_access_state =
  pa_session_plan :: "string option"
  pa_mode_active :: bool

record approval_controller =
  ac_approval_policy :: approval_policy
  ac_access_scope :: string
  ac_policy :: security_policy
  ac_store :: approval_store
  ac_plan_access :: plan_access_state
  ac_read_only_agent :: bool
  ac_goal_dir :: "string option"
  ac_session_dir :: "string option"
  ac_binding :: approval_binding

definition controller_with_policy :: "approval_policy \<Rightarrow> security_policy \<Rightarrow> approval_controller" where
  "controller_with_policy approval policy = \<lparr>ac_approval_policy = approval, ac_access_scope = ''project'',
     ac_policy = policy, ac_store = approval_store_new,
     ac_plan_access = \<lparr>pa_session_plan = None, pa_mode_active = False\<rparr>, ac_read_only_agent = False,
     ac_goal_dir = None, ac_session_dir = None, ac_binding = binding_default\<rparr>"

definition controller_new :: "approval_policy \<Rightarrow> approval_controller" where
  "controller_new approval = controller_with_policy approval (policy_for_preset Preset_Default)"

definition controller_with_preset :: "approval_policy \<Rightarrow> security_preset \<Rightarrow> approval_controller" where
  "controller_with_preset approval preset = controller_with_policy approval (policy_for_preset preset)"

definition set_policy :: "security_policy \<Rightarrow> approval_controller \<Rightarrow> approval_controller" where
  "set_policy policy c = c\<lparr>ac_policy := policy\<rparr>"

definition ensure_not_denied :: "string \<Rightarrow> approval_controller \<Rightarrow> string + unit" where
  "ensure_not_denied action c = (if evaluate (ac_policy c) action = Decide_Deny
     then Inl (''forbidden by security policy: '' @ action) else Inr ())"

definition set_approval_policy :: "approval_policy \<Rightarrow> approval_controller \<Rightarrow> approval_controller" where
  "set_approval_policy policy c = c\<lparr>ac_approval_policy := policy\<rparr>"

definition set_access_scope :: "string \<Rightarrow> approval_controller \<Rightarrow> approval_controller" where
  "set_access_scope scope c = c\<lparr>ac_access_scope := scope\<rparr>"

definition bind_approval_context ::
  "string option \<Rightarrow> string option \<Rightarrow> nat option \<Rightarrow> string option \<Rightarrow> approval_controller \<Rightarrow> approval_controller" where
  "bind_approval_context project workspace revision session c = c\<lparr>ac_binding := \<lparr>ab_project_id = project,
     ab_workspace_id = workspace, ab_workspace_revision = revision, ab_session_id = session\<rparr>\<rparr>"

definition with_approval_store :: "approval_store \<Rightarrow> approval_controller \<Rightarrow> approval_controller" where
  "with_approval_store store c = c\<lparr>ac_store := store\<rparr>"

definition set_plan_context :: "(string \<Rightarrow> string) \<Rightarrow> string option \<Rightarrow> bool \<Rightarrow> approval_controller \<Rightarrow> approval_controller" where
  "set_plan_context normalize_path path active c =
     c\<lparr>ac_plan_access := \<lparr>pa_session_plan = map_option normalize_path path, pa_mode_active = active\<rparr>\<rparr>"

definition set_plan_mode_active :: "bool \<Rightarrow> approval_controller \<Rightarrow> approval_controller" where
  "set_plan_mode_active active c = c\<lparr>ac_plan_access := (ac_plan_access c)\<lparr>pa_mode_active := active\<rparr>\<rparr>"

definition plan_scratch ::
  "(string \<Rightarrow> string option) \<Rightarrow> (string \<Rightarrow> string \<Rightarrow> string) \<Rightarrow> approval_controller \<Rightarrow> string option" where
  "plan_scratch parent join c =
    (if pa_mode_active (ac_plan_access c)
     then map_option (\<lambda>p. join p ''scratch'') (Option.bind (pa_session_plan (ac_plan_access c)) parent)
     else None)"

definition set_read_only_agent :: "bool \<Rightarrow> approval_controller \<Rightarrow> approval_controller" where
  "set_read_only_agent read_only c = c\<lparr>ac_read_only_agent := read_only\<rparr>"

definition set_goal_dir :: "(string \<Rightarrow> string) \<Rightarrow> string option \<Rightarrow> approval_controller \<Rightarrow> approval_controller" where
  "set_goal_dir normalize_path path c = c\<lparr>ac_goal_dir := map_option normalize_path path\<rparr>"

definition bind_session_file ::
  "(string \<Rightarrow> string) \<Rightarrow> (string \<Rightarrow> string option) \<Rightarrow> string \<Rightarrow> approval_controller \<Rightarrow> approval_controller" where
  "bind_session_file normalize_path parent session_jsonl c =
     c\<lparr>ac_session_dir := map_option normalize_path (parent session_jsonl)\<rparr>"

definition plan_mode_block_reason :: "approval_controller \<Rightarrow> string option" where
  "plan_mode_block_reason c =
    (if ac_read_only_agent c then Some ''workspace mutations disabled by the active agent profile''
     else if pa_mode_active (ac_plan_access c)
     then Some (case pa_session_plan (ac_plan_access c) of
         Some plan \<Rightarrow> ''workspace mutations locked in Plan Mode; living plan is '' @ plan
       | None \<Rightarrow> ''workspace mutations locked in Plan Mode'')
     else None)"

definition ensure_plan_mode_unlocked :: "approval_controller \<Rightarrow> string + unit" where
  "ensure_plan_mode_unlocked c = (case plan_mode_block_reason c of None \<Rightarrow> Inr () | Some reason \<Rightarrow> Inl reason)"

text \<open>The identity the host has bound replaces the one a request carries.\<close>

definition bind_request :: "approval_binding \<Rightarrow> tool_approval_request \<Rightarrow> tool_approval_request" where
  "bind_request b r = r\<lparr>
     ar_project_id := (if ab_project_id b \<noteq> None then ab_project_id b else ar_project_id r),
     ar_workspace_id := (if ab_workspace_id b \<noteq> None then ab_workspace_id b else ar_workspace_id r),
     ar_workspace_revision := (if ab_workspace_revision b \<noteq> None then ab_workspace_revision b else ar_workspace_revision r),
     ar_session_id := (if ab_session_id b \<noteq> None then ab_session_id b else ar_session_id r)\<rparr>"

definition requires_approval :: "approval_policy \<Rightarrow> tool_approval_request \<Rightarrow> bool" where
  "requires_approval policy request = (case policy of
     Interactive \<Rightarrow> True
   | Automatic \<Rightarrow> is_high_risk request
   | Trusted \<Rightarrow> is_trusted_high_risk request)"

definition granted :: "action_grant_scope \<Rightarrow> string option \<Rightarrow> action_grant_key option \<Rightarrow> approval_store \<Rightarrow> bool" where
  "granted scope owner key store = (case (key, owner) of
     (Some k, Some o') \<Rightarrow> store_contains scope o' k store | _ \<Rightarrow> False)"

definition grant_owner :: "action_grant_scope \<Rightarrow> approval_binding \<Rightarrow> approval_controller \<Rightarrow> string option" where
  "grant_owner scope b c = (case binding_owner scope b of
     Some o' \<Rightarrow> Some o' | None \<Rightarrow> (if scope = Session then ac_session_dir c else None))"

definition denial_message :: "tool_approval_request \<Rightarrow> string option \<Rightarrow> string" where
  "denial_message request reason =
    (let r = (case reason of Some x \<Rightarrow> x | None \<Rightarrow> ar_action request) in
     if starts_with ''denied non-interactive action:'' r then r else ''user denied: '' @ r)"

text \<open>
  The user's answer, and the grant it may leave in the store.  The key and the binding are the
  ones read before the question; the session directory is read again.
\<close>

definition settle_resolution ::
  "tool_approval_request \<Rightarrow> action_grant_key option \<Rightarrow> approval_binding \<Rightarrow> tool_approval_resolution
    \<Rightarrow> approval_controller \<Rightarrow> (approval_failure + unit) \<times> approval_controller" where
  "settle_resolution request key b resolution c =
    (if tar_outcome resolution \<noteq> Approved
     then (Inl (UserDenied (denial_message request (tar_reason resolution))), c)
     else if tar_grant_scope resolution = Once then (Inr (), c)
     else (case key of
         None \<Rightarrow> (Inl (Internal ''approval grant requires a complete action key''), c)
       | Some k \<Rightarrow> (case grant_owner (tar_grant_scope resolution) b c of
           None \<Rightarrow> (Inl (Internal ''approval grant owner is unavailable''), c)
         | Some o' \<Rightarrow> (Inr (), c\<lparr>ac_store := store_insert (tar_grant_scope resolution) o' k (ac_store c)\<rparr>))))"

text \<open>
  While the user thinks, other threads may change the controller: a callback acts on both.
\<close>

type_synonym 'w approval_callback =
  "tool_approval_request \<Rightarrow> approval_controller \<times> 'w \<Rightarrow> (string + tool_approval_resolution) \<times> (approval_controller \<times> 'w)"

definition approve_request_with_classification ::
  "'w approval_callback \<Rightarrow> tool_approval_request \<Rightarrow> approval_controller \<times> 'w
    \<Rightarrow> (approval_failure + unit) \<times> (approval_controller \<times> 'w)" where
  "approve_request_with_classification callback request0 = (\<lambda>(c, w).
    (let request = bind_request (ac_binding c) request0 in
     case evaluate (ac_policy c) (ar_action request) of
       Decide_Deny \<Rightarrow> (Inl (PolicyDenied (''forbidden by security policy: '' @ ar_action request)), (c, w))
     | Decide_Allow \<Rightarrow> (Inr (), (c, w))
     | Decide_Ask \<Rightarrow>
         if \<not> requires_approval (ac_approval_policy c) request then (Inr (), (c, w))
         else (let key = action_grant_key_of request (ac_access_scope c) in
           if granted Session (grant_owner Session (ac_binding c) c) key (ac_store c) then (Inr (), (c, w))
           else if granted Project (binding_owner Project (ac_binding c)) key (ac_store c) then (Inr (), (c, w))
           else (case callback request (c, w) of
               (Inl err, x) \<Rightarrow> (Inl (Internal err), x)
             | (Inr resolution, (c', w')) \<Rightarrow> (case settle_resolution request key (ac_binding c) resolution c' of
                   (r, c'') \<Rightarrow> (r, (c'', w')))))))"

definition approve_request ::
  "'w approval_callback \<Rightarrow> tool_approval_request \<Rightarrow> approval_controller \<times> 'w
    \<Rightarrow> (string + unit) \<times> (approval_controller \<times> 'w)" where
  "approve_request callback request x = apfst (map_sum approval_failure_text id)
     (approve_request_with_classification callback request x)"

definition approve ::
  "'w approval_callback \<Rightarrow> string \<Rightarrow> approval_controller \<times> 'w \<Rightarrow> (string + unit) \<times> (approval_controller \<times> 'w)" where
  "approve callback action = approve_request callback (approval_request_legacy action)"

text \<open>
  The callback of a terminal: \<open>tty\<close> says whether standard input is one, \<open>read_line\<close> reads
  from it.
\<close>

definition terminal_approval :: "('w \<Rightarrow> bool) \<Rightarrow> (string \<Rightarrow> 'w \<Rightarrow> (string + string) \<times> 'w) \<Rightarrow> 'w approval_callback" where
  "terminal_approval tty read_line request = (\<lambda>(c, w).
    (let action = ar_action request in
     if \<not> tty w
     then (Inr \<lparr>tar_outcome = Denied, tar_grant_scope = Once,
             tar_reason = Some (''denied non-interactive action: '' @ action)\<rparr>, (c, w))
     else (case read_line (''approve '' @ action @ ''? [y/N] '') w of
         (Inl err, w') \<Rightarrow> (Inl err, (c, w'))
       | (Inr answer, w') \<Rightarrow>
           (if to_ascii_lowercase (trim answer) \<in> {''y'', ''yes''} then (Inr (resolution_once Approved), (c, w'))
            else (Inr \<lparr>tar_outcome = Denied, tar_grant_scope = Once, tar_reason = Some ''user denied the action''\<rparr>,
              (c, w'))))))"

end
