(* ===== verification/Disk.thy ===== *)
theory Disk
  imports Prelude Rust_Str "HOL-Library.AList"
begin

section \<open>Files\<close>

text \<open>
  What the stores of the host and the capabilities use of \<open>std::fs\<close>: a finite tree of files
  and directories under their paths.  Every call takes one tick of the disk; the disk's
  schedule says at which ticks a call fails, with which error, and what a failing write or
  removal leaves behind (\<open>fs::write\<close> truncates first, \<open>remove_dir_all\<close> may stop half way; neither
  is atomic).  A call whose parent directory is missing fails, so the schedule covers it.
\<close>

datatype io_kind = Io_NotFound | Io_InvalidInput | Io_InvalidData | Io_Other

record io_error =
  ie_kind :: io_kind
  ie_text :: string

definition io_error :: "io_kind \<Rightarrow> string \<Rightarrow> io_error" where
  "io_error k t = \<lparr>ie_kind = k, ie_text = t\<rparr>"

datatype node = File_Node string | Dir_Node | Special_Node

datatype entry = File_Entry string nat | Dir_Entry string "entry list" | Special_Entry string

text \<open>A fault: the error, what a write that fails has written, which paths a removal has removed.\<close>

record fault =
  ft_error :: io_error
  ft_leftover :: "string option"
  ft_removed :: "string list"

record disk =
  dk_nodes :: "(string \<times> node) list"
  dk_fault :: "nat \<Rightarrow> fault option"
  dk_clock :: "nat \<Rightarrow> nat"
  dk_tick :: nat

type_synonym 'a io = "(disk, io_error, 'a) act"

definition node_at :: "disk \<Rightarrow> string \<Rightarrow> node option" where
  "node_at d p = map_of (dk_nodes d) p"

definition file_of :: "node option \<Rightarrow> string option" where
  "file_of n = (case n of Some (File_Node s) \<Rightarrow> Some s | _ \<Rightarrow> None)"

definition file_at :: "disk \<Rightarrow> string \<Rightarrow> string option" where
  "file_at d p = file_of (node_at d p)"

definition put_node :: "string \<Rightarrow> node \<Rightarrow> disk \<Rightarrow> disk" where
  "put_node p n d = d\<lparr>dk_nodes := AList.update p n (dk_nodes d)\<rparr>"

definition drop_nodes :: "(string \<Rightarrow> bool) \<Rightarrow> disk \<Rightarrow> disk" where
  "drop_nodes q d = d\<lparr>dk_nodes := filter (\<lambda>(p, n). \<not> q p) (dk_nodes d)\<rparr>"

definition ticked :: "disk \<Rightarrow> disk" where
  "ticked d = d\<lparr>dk_tick := Suc (dk_tick d)\<rparr>"

definition join_path :: "string \<Rightarrow> string \<Rightarrow> string" where
  "join_path dir name = dir @ ''/'' @ name"

definition below :: "string \<Rightarrow> string \<Rightarrow> bool" where
  "below dir p \<longleftrightarrow> p = dir \<or> starts_with (dir @ ''/'') p"

subsection \<open>Calls\<close>

definition tick :: "fault option io" where
  "tick = stepA (\<lambda>d. (dk_fault d (dk_tick d), ticked d))"

text \<open>A call that fails as the schedule says, and otherwise goes on.\<close>

definition unless_fault :: "'a io \<Rightarrow> 'a io" where
  "unless_fault m = bindA tick (\<lambda>f. case f of None \<Rightarrow> m | Some x \<Rightarrow> raiseA (ft_error x))"

definition fs_now_ms :: "nat io" where
  "fs_now_ms = stepA (\<lambda>d. (dk_clock d (dk_tick d), ticked d))"

definition not_found :: io_error where
  "not_found = io_error Io_NotFound ''No such file or directory (os error 2)''"

definition not_a_file :: io_error where
  "not_a_file = io_error Io_Other ''Is a directory (os error 21)''"

definition not_a_dir :: io_error where
  "not_a_dir = io_error Io_Other ''Not a directory (os error 20)''"

definition with_file :: "string \<Rightarrow> (string \<Rightarrow> 'a io) \<Rightarrow> 'a io" where
  "with_file p m = bindA (getA (\<lambda>d. node_at d p)) (\<lambda>n. case n of
     None \<Rightarrow> raiseA not_found | Some (File_Node s) \<Rightarrow> m s | Some _ \<Rightarrow> raiseA not_a_file)"

definition with_dir :: "string \<Rightarrow> 'a io \<Rightarrow> 'a io" where
  "with_dir p m = bindA (getA (\<lambda>d. node_at d p)) (\<lambda>n. case n of
     None \<Rightarrow> raiseA not_found | Some Dir_Node \<Rightarrow> m | Some _ \<Rightarrow> raiseA not_a_dir)"

text \<open>\<open>fs::read\<close> and \<open>fs::read_to_string\<close>.\<close>

definition fs_read_bytes :: "string \<Rightarrow> string io" where
  "fs_read_bytes p = unless_fault (with_file p retA)"

definition fs_read :: "string \<Rightarrow> string io" where
  "fs_read p = bindA (fs_read_bytes p) (\<lambda>s. if utf8 s then retA s
     else raiseA (io_error Io_InvalidData ''stream did not contain valid UTF-8''))"

definition put_file :: "string \<Rightarrow> string \<Rightarrow> unit io" where
  "put_file p s = modA (put_node p (File_Node s))"

text \<open>A write to a directory fails and writes nothing.\<close>

definition writing :: "string \<Rightarrow> (string \<Rightarrow> disk \<Rightarrow> string) \<Rightarrow> string \<Rightarrow> unit io" where
  "writing p content s = bindA tick (\<lambda>f. bindA (getA (\<lambda>d. node_at d p)) (\<lambda>n.
     if n = Some Dir_Node then raiseA not_a_file
     else (case f of
         None \<Rightarrow> bindA (getA (content s)) (put_file p)
       | Some x \<Rightarrow> seqA (case ft_leftover x of None \<Rightarrow> retA () | Some left \<Rightarrow> bindA (getA (content left)) (put_file p))
           (raiseA (ft_error x)))))"

text \<open>\<open>fs::write\<close>, and \<open>write_all\<close> on a file opened to truncate or to append.\<close>

definition fs_write :: "string \<Rightarrow> string \<Rightarrow> unit io" where
  "fs_write p s = writing p (\<lambda>t d. t) s"

definition fs_write_all :: "string \<Rightarrow> string \<Rightarrow> unit io" where
  "fs_write_all p s = writing p (\<lambda>t d. (case file_at d p of None \<Rightarrow> [] | Some c \<Rightarrow> c) @ t) s"

definition fs_open_truncate :: "string \<Rightarrow> unit io" where
  "fs_open_truncate p = unless_fault (bindA (getA (\<lambda>d. node_at d p)) (\<lambda>n.
     if n = Some Dir_Node then raiseA not_a_file else put_file p []))"

definition fs_open :: "string \<Rightarrow> unit io" where
  "fs_open p = unless_fault (with_file p (\<lambda>_. retA ()))"

definition fs_sync :: "unit io" where
  "fs_sync = unless_fault (retA ())"

definition fs_remove_file :: "string \<Rightarrow> unit io" where
  "fs_remove_file p = unless_fault (with_file p (\<lambda>_. modA (drop_nodes (\<lambda>q. q = p))))"

definition fs_rename :: "string \<Rightarrow> string \<Rightarrow> unit io" where
  "fs_rename source target = unless_fault (with_file source (\<lambda>s.
     bindA (getA (\<lambda>d. node_at d target)) (\<lambda>n. if n = Some Dir_Node then raiseA not_a_file
       else seqA (modA (drop_nodes (\<lambda>q. q = source))) (put_file target s))))"

text \<open>\<open>File::set_len\<close> and \<open>seek\<close> to the end, where \<open>write_all\<close> then appends.\<close>

definition fs_set_len :: "string \<Rightarrow> nat \<Rightarrow> unit io" where
  "fs_set_len p n = unless_fault (with_file p (\<lambda>s. put_file p (take n s @ replicate (n - length s) (CHR 0x00))))"

definition fs_seek_end :: "unit io" where
  "fs_seek_end = unless_fault (retA ())"

text \<open>\<open>Path::exists\<close> and its kin answer no when the question fails.\<close>

definition fs_is_file :: "string \<Rightarrow> bool io" where
  "fs_is_file p = bindA tick (\<lambda>f. getA (\<lambda>d. f = None \<and> file_at d p \<noteq> None))"

definition fs_is_dir :: "string \<Rightarrow> bool io" where
  "fs_is_dir p = bindA tick (\<lambda>f. getA (\<lambda>d. f = None \<and> node_at d p = Some Dir_Node))"

definition fs_exists :: "string \<Rightarrow> bool io" where
  "fs_exists p = bindA tick (\<lambda>f. getA (\<lambda>d. f = None \<and> node_at d p \<noteq> None))"

subsection \<open>Directories\<close>

definition ancestors :: "string \<Rightarrow> string list" where
  "ancestors p = filter (\<lambda>a. a \<noteq> []) (map (\<lambda>i. take i p) (filter (\<lambda>i. p ! i = CHR ''/'') [0..<length p]))"

definition ensure_dir :: "string \<Rightarrow> disk \<Rightarrow> disk" where
  "ensure_dir p d = (if node_at d p = None then put_node p Dir_Node d else d)"

definition fs_create_dir_all :: "string \<Rightarrow> unit io" where
  "fs_create_dir_all p = unless_fault (bindA (getA (\<lambda>d. list_all (\<lambda>q. node_at d q \<in> {None, Some Dir_Node}) (ancestors p @ [p])))
     (\<lambda>ok. if ok then modA (fold ensure_dir (ancestors p @ [p])) else raiseA not_a_dir))"

text \<open>A failing removal has removed some of the entries.\<close>

definition fs_remove_dir_all :: "string \<Rightarrow> unit io" where
  "fs_remove_dir_all p = bindA tick (\<lambda>f. case f of
     None \<Rightarrow> with_dir p (modA (drop_nodes (below p)))
   | Some x \<Rightarrow> seqA (modA (drop_nodes (\<lambda>q. below p q \<and> q \<in> set (ft_removed x)))) (raiseA (ft_error x)))"

definition child_name :: "string \<Rightarrow> string \<Rightarrow> string option" where
  "child_name dir p = (case strip_prefix (dir @ ''/'') p of
     Some name \<Rightarrow> if name = [] \<or> CHR ''/'' \<in> set name then None else Some name | None \<Rightarrow> None)"

text \<open>The tree below a directory; no path has more components than the disk has nodes.\<close>

fun dir_tree :: "nat \<Rightarrow> (string \<times> node) list \<Rightarrow> string \<Rightarrow> entry list" where
  "dir_tree 0 nodes dir = []"
| "dir_tree (Suc n) nodes dir = List.map_filter (\<lambda>(p, node). case child_name dir p of
     None \<Rightarrow> None
   | Some name \<Rightarrow> Some (case node of
       File_Node s \<Rightarrow> File_Entry name (length s)
     | Dir_Node \<Rightarrow> Dir_Entry name (dir_tree n nodes p)
     | Special_Node \<Rightarrow> Special_Entry name)) nodes"

definition fs_read_dir :: "string \<Rightarrow> entry list io" where
  "fs_read_dir p = unless_fault (with_dir p (getA (\<lambda>d. dir_tree (length (dk_nodes d)) (dk_nodes d) p)))"

definition entry_name :: "entry \<Rightarrow> string" where
  "entry_name e = (case e of File_Entry name _ \<Rightarrow> name | Dir_Entry name _ \<Rightarrow> name | Special_Entry name \<Rightarrow> name)"

text \<open>\<open>let _ = ...\<close>: an error is dropped.\<close>

definition ignoring :: "'a io \<Rightarrow> unit io" where
  "ignoring m = caseA m (\<lambda>_. retA ()) (\<lambda>_. retA ())"

definition fs_copy :: "string \<Rightarrow> string \<Rightarrow> unit io" where
  "fs_copy source target = unless_fault (with_file source (\<lambda>s. fs_write target s))"

text \<open>A call on the disk by a component that has a state of its own beside it.\<close>

definition on_disk :: "'a io \<Rightarrow> ('s \<times> disk, io_error, 'a) act" where
  "on_disk m = (\<lambda>(s, d). case m d of (r, d') \<Rightarrow> (r, (s, d')))"

subsection \<open>Weakest preconditions of the calls\<close>

lemma node_at_ticked [simp]: "node_at (ticked d) p = node_at d p"
  by (simp add: node_at_def ticked_def)

lemma file_at_ticked [simp]: "file_at (ticked d) p = file_at d p"
  by (simp add: file_at_def)

lemma dk_fault_ticked [simp]: "dk_fault (ticked d) = dk_fault d"
  by (simp add: ticked_def)

lemma dk_tick_ticked [simp]: "dk_tick (ticked d) = Suc (dk_tick d)"
  by (simp add: ticked_def)

lemma dk_clock_ticked [simp]: "dk_clock (ticked d) = dk_clock d"
  by (simp add: ticked_def)

lemma file_at_node [simp]: "node_at d p = Some (File_Node s) \<Longrightarrow> file_at d p = Some s"
  by (simp add: file_at_def file_of_def)

lemma node_at_put [simp]: "node_at (put_node q n d) p = (if p = q then Some n else node_at d p)"
  by (simp add: node_at_def put_node_def update_conv')

lemma file_of_simps [simp]: "file_of None = None" "file_of (Some (File_Node s)) = Some s" "file_of (Some Dir_Node) = None"
  by (simp_all add: file_of_def)

lemma file_of_Some_iff: "file_of n = Some s \<longleftrightarrow> n = Some (File_Node s)"
  by (auto simp: file_of_def split: option.splits node.splits)

lemma file_at_put [simp]: "file_at (put_node q n d) p = (if p = q then file_of (Some n) else file_at d p)"
  by (simp add: file_at_def)

lemma dk_put [simp]: "dk_fault (put_node q n d) = dk_fault d" "dk_tick (put_node q n d) = dk_tick d"
    "dk_clock (put_node q n d) = dk_clock d"
  by (simp_all add: put_node_def)

lemma map_of_filter_keys: "map_of (filter (\<lambda>(p, n). q p) xs) p = (if q p then map_of xs p else None)"
  by (induction xs) auto

lemma node_at_drop [simp]: "node_at (drop_nodes q d) p = (if q p then None else node_at d p)"
  by (simp add: node_at_def drop_nodes_def map_of_filter_keys [of "\<lambda>p. \<not> q p"])

lemma file_at_drop [simp]: "file_at (drop_nodes q d) p = (if q p then None else file_at d p)"
  by (simp add: file_at_def)

lemma dk_drop [simp]: "dk_fault (drop_nodes q d) = dk_fault d" "dk_tick (drop_nodes q d) = dk_tick d"
    "dk_clock (drop_nodes q d) = dk_clock d"
  by (simp_all add: drop_nodes_def)

lemma wp_tick [wp_simps]: "wp tick R d \<longleftrightarrow> R (Done (dk_fault d (dk_tick d))) (ticked d)"
  by (simp add: tick_def wp_simps)

lemma wp_fs_now_ms [wp_simps]: "wp fs_now_ms R d \<longleftrightarrow> R (Done (dk_clock d (dk_tick d))) (ticked d)"
  by (simp add: fs_now_ms_def wp_simps)

lemma wp_unless_fault [wp_simps]:
  "wp (unless_fault m) R d \<longleftrightarrow> (case dk_fault d (dk_tick d) of
     None \<Rightarrow> wp m R (ticked d) | Some x \<Rightarrow> R (Raised (ft_error x)) (ticked d))"
  by (simp add: unless_fault_def wp_simps split: option.split)

lemma wp_with_file [wp_simps]:
  "wp (with_file p m) R d \<longleftrightarrow> (case node_at d p of
     None \<Rightarrow> R (Raised not_found) d | Some (File_Node s) \<Rightarrow> wp (m s) R d | Some _ \<Rightarrow> R (Raised not_a_file) d)"
  by (simp add: with_file_def wp_simps split: option.split node.split)

lemma wp_with_dir [wp_simps]:
  "wp (with_dir p m) R d \<longleftrightarrow> (case node_at d p of
     None \<Rightarrow> R (Raised not_found) d | Some Dir_Node \<Rightarrow> wp m R d | Some _ \<Rightarrow> R (Raised not_a_dir) d)"
  by (simp add: with_dir_def wp_simps split: option.split node.split)

lemma wp_put_file [wp_simps]: "wp (put_file p s) R d \<longleftrightarrow> R (Done ()) (put_node p (File_Node s) d)"
  by (simp add: put_file_def wp_simps)

lemma wp_writing [wp_simps]:
  "wp (writing p content s) R d \<longleftrightarrow>
    (if node_at d p = Some Dir_Node then R (Raised not_a_file) (ticked d)
     else (case dk_fault d (dk_tick d) of
         None \<Rightarrow> R (Done ()) (put_node p (File_Node (content s (ticked d))) (ticked d))
       | Some x \<Rightarrow> R (Raised (ft_error x)) (case ft_leftover x of
           None \<Rightarrow> ticked d
         | Some left \<Rightarrow> put_node p (File_Node (content left (ticked d))) (ticked d))))"
  by (simp add: writing_def wp_simps split: option.split)

lemma wp_on_disk [wp_simps]: "wp (on_disk m) R (s, d) \<longleftrightarrow> wp m (\<lambda>r d'. R r (s, d')) d"
  by (simp add: on_disk_def wp_def split: prod.split)

lemmas fs_calls = fs_set_len_def fs_seek_end_def fs_read_bytes_def fs_read_def fs_write_def fs_write_all_def fs_open_truncate_def fs_open_def
  fs_sync_def fs_remove_file_def fs_rename_def fs_is_file_def fs_is_dir_def fs_exists_def ignoring_def fs_copy_def

subsection \<open>Calls that succeeded\<close>

lemma done_sum [done_simps]:
  "(case r of Inl e \<Rightarrow> f e | Inr x \<Rightarrow> g x) s = (Done y, s') \<longleftrightarrow>
    (\<exists>e. r = Inl e \<and> f e s = (Done y, s')) \<or> (\<exists>x. r = Inr x \<and> g x s = (Done y, s'))"
  by (cases r) auto

lemma done_option [done_simps]:
  "(case r of None \<Rightarrow> f | Some x \<Rightarrow> g x) s = (Done y, s') \<longleftrightarrow>
    (r = None \<and> f s = (Done y, s')) \<or> (\<exists>x. r = Some x \<and> g x s = (Done y, s'))"
  by (cases r) auto

lemma done_if [done_simps]:
  "(if b then f else g) s = (Done y, s') \<longleftrightarrow> (if b then f s = (Done y, s') else g s = (Done y, s'))"
  by simp

lemma done_tick [done_simps]: "tick d = (Done f, d') \<longleftrightarrow> f = dk_fault d (dk_tick d) \<and> d' = ticked d"
  by (auto simp: tick_def act_simps)

lemma done_fs_now_ms [done_simps]: "fs_now_ms d = (Done n, d') \<longleftrightarrow> n = dk_clock d (dk_tick d) \<and> d' = ticked d"
  by (auto simp: fs_now_ms_def act_simps)

lemma done_unless_fault [done_simps]:
  "unless_fault m d = (Done x, d') \<longleftrightarrow> dk_fault d (dk_tick d) = None \<and> m (ticked d) = (Done x, d')"
  by (auto simp: unless_fault_def done_simps split: option.split)

lemma done_with_file [done_simps]:
  "with_file p m d = (Done x, d') \<longleftrightarrow> (\<exists>s. node_at d p = Some (File_Node s) \<and> m s d = (Done x, d'))"
  by (cases "node_at d p"; cases "the (node_at d p)") (auto simp: with_file_def done_simps)

lemma done_writing [done_simps]:
  "writing p content s d = (Done x, d') \<longleftrightarrow> dk_fault d (dk_tick d) = None \<and> node_at d p \<noteq> Some Dir_Node
    \<and> d' = put_node p (File_Node (content s (ticked d))) (ticked d)"
  by (auto simp: writing_def put_file_def done_simps split: option.split)

lemma done_fs [done_simps]:
  "fs_read_bytes p d = (Done s, d') \<longleftrightarrow> dk_fault d (dk_tick d) = None \<and> node_at d p = Some (File_Node s) \<and> d' = ticked d"
  "fs_read p d = (Done s, d') \<longleftrightarrow> dk_fault d (dk_tick d) = None \<and> node_at d p = Some (File_Node s) \<and> utf8 s \<and> d' = ticked d"
  "fs_write p s d = (Done u, d') \<longleftrightarrow> dk_fault d (dk_tick d) = None \<and> node_at d p \<noteq> Some Dir_Node
    \<and> d' = put_node p (File_Node s) (ticked d)"
  "fs_open p d = (Done u, d') \<longleftrightarrow> dk_fault d (dk_tick d) = None \<and> (\<exists>s. node_at d p = Some (File_Node s)) \<and> d' = ticked d"
  "fs_sync d = (Done u, d') \<longleftrightarrow> dk_fault d (dk_tick d) = None \<and> d' = ticked d"
  "fs_open_truncate p d = (Done u, d') \<longleftrightarrow> dk_fault d (dk_tick d) = None \<and> node_at d p \<noteq> Some Dir_Node
    \<and> d' = put_node p (File_Node []) (ticked d)"
  "fs_write_all p s d = (Done u, d') \<longleftrightarrow> dk_fault d (dk_tick d) = None \<and> node_at d p \<noteq> Some Dir_Node
    \<and> d' = put_node p (File_Node ((case file_at d p of None \<Rightarrow> [] | Some c \<Rightarrow> c) @ s)) (ticked d)"
  "fs_exists p d = (Done b, d') \<longleftrightarrow> b = (dk_fault d (dk_tick d) = None \<and> node_at d p \<noteq> None) \<and> d' = ticked d"
  "fs_is_file p d = (Done b, d') \<longleftrightarrow> b = (dk_fault d (dk_tick d) = None \<and> file_at d p \<noteq> None) \<and> d' = ticked d"
  "fs_is_dir p d = (Done b, d') \<longleftrightarrow> b = (dk_fault d (dk_tick d) = None \<and> node_at d p = Some Dir_Node) \<and> d' = ticked d"
  by (auto simp: fs_calls put_file_def done_simps)

lemma done_fs_rename [done_simps]:
  "fs_rename p q d = (Done u, d') \<longleftrightarrow> dk_fault d (dk_tick d) = None \<and> (\<exists>s. node_at d p = Some (File_Node s)
    \<and> node_at d q \<noteq> Some Dir_Node \<and> d' = put_node q (File_Node s) (drop_nodes (\<lambda>x. x = p) (ticked d)))"
  by (auto simp: fs_calls put_file_def done_simps)

lemma done_fs_remove_file [done_simps]:
  "fs_remove_file p d = (Done u, d') \<longleftrightarrow> dk_fault d (dk_tick d) = None \<and> (\<exists>s. node_at d p = Some (File_Node s))
    \<and> d' = drop_nodes (\<lambda>x. x = p) (ticked d)"
  by (auto simp: fs_calls done_simps)

lemma done_fs_set_len [done_simps]:
  "fs_set_len p n d = (Done u, d') \<longleftrightarrow> dk_fault d (dk_tick d) = None \<and> (\<exists>s. node_at d p = Some (File_Node s)
    \<and> d' = put_node p (File_Node (take n s @ replicate (n - length s) (CHR 0x00))) (ticked d))"
  by (auto simp: fs_calls put_file_def done_simps)

lemma done_fs_seek_end [done_simps]:
  "fs_seek_end d = (Done u, d') \<longleftrightarrow> dk_fault d (dk_tick d) = None \<and> d' = ticked d"
  by (auto simp: fs_calls done_simps)

subsection \<open>Every call returns\<close>

lemma settles_calls [settle_rules]: "settles tick" "settles fs_now_ms"
  by (simp_all add: tick_def fs_now_ms_def settle_rules)

lemma settles_unless_fault [settle_rules]: "settles m \<Longrightarrow> settles (unless_fault m)"
  by (auto simp: unless_fault_def intro: settle_rules)

lemma settles_with_file [settle_rules]: "(\<And>s. settles (m s)) \<Longrightarrow> settles (with_file p m)"
  by (auto simp: with_file_def intro!: settle_rules split: node.split)

lemma settles_with_dir [settle_rules]: "settles m \<Longrightarrow> settles (with_dir p m)"
  by (auto simp: with_dir_def intro!: settle_rules split: node.split)

lemma settles_writing [settle_rules]: "settles (writing p content s)"
  by (auto simp: writing_def put_file_def intro!: settle_rules)

lemma settles_fs [settle_rules]: "settles (fs_read_bytes p)" "settles (fs_read p)" "settles (fs_write p s)"
    "settles (fs_write_all p s)" "settles (fs_set_len p n)" "settles fs_seek_end" "settles (fs_open_truncate p)" "settles (fs_open p)" "settles fs_sync"
    "settles (fs_remove_file p)" "settles (fs_rename p q)" "settles (fs_is_file p)" "settles (fs_is_dir p)"
    "settles (fs_exists p)" "settles (fs_copy p q)" "settles (fs_read_dir p)" "settles (fs_create_dir_all p)"
    "settles (fs_remove_dir_all p)"
  by (auto simp: fs_calls fs_read_dir_def fs_create_dir_all_def fs_remove_dir_all_def put_file_def intro!: settle_rules)

lemma settles_ignoring [settle_rules]: "settles m \<Longrightarrow> settles (ignoring m)"
  by (auto simp: ignoring_def intro!: settle_rules)

lemma settles_on_disk [settle_rules]: "settles m \<Longrightarrow> settles (on_disk m)"
  by (auto simp: settles_def on_disk_def split: prod.split) (metis fst_conv)

subsection \<open>What a call leaves of the files\<close>

definition touches :: "string set \<Rightarrow> disk \<Rightarrow> disk \<Rightarrow> bool" where
  "touches P d d' \<longleftrightarrow> (\<forall>p. p \<notin> P \<longrightarrow> node_at d' p = node_at d p)
    \<and> dk_fault d' = dk_fault d \<and> dk_tick d \<le> dk_tick d'"

lemma touches_refl [simp]: "touches P d d"
  by (simp add: touches_def)

lemma touches_trans: "touches P d d' \<Longrightarrow> touches P d' d'' \<Longrightarrow> touches P d d''"
  by (auto simp: touches_def)

lemma touches_mono: "touches P d d' \<Longrightarrow> P \<subseteq> Q \<Longrightarrow> touches Q d d'"
  by (auto simp: touches_def)

text \<open>A disk whose schedule has no fault left.\<close>

definition calm :: "disk \<Rightarrow> bool" where
  "calm d \<longleftrightarrow> (\<forall>t \<ge> dk_tick d. dk_fault d t = None)"

lemma calm_now [simp]: "calm d \<Longrightarrow> dk_fault d (dk_tick d) = None"
  by (simp add: calm_def)

lemma calm_ticked [simp]: "calm d \<Longrightarrow> calm (ticked d)"
  by (simp add: calm_def)

lemma calm_put [simp]: "calm (put_node q n d) = calm d"
  by (simp add: calm_def)

lemma calm_drop [simp]: "calm (drop_nodes q d) = calm d"
  by (simp add: calm_def)

end
