(* ===== verification/Goal.thy ===== *)
theory Goal
  imports Disk Str_Split Protocol
begin

section \<open>Goals and plan mode (goal.rs)\<close>

text \<open>
  The durable goal of a session: its state file, the transitions of its status, the verdicts
  of the verifier and the plan-mode files.  Every operation is a sequence of file calls that
  may each fail; \<open>serde_json\<close> is the record \<open>host_json\<close>.
\<close>

subsection \<open>Data\<close>

definition goal_schema_version :: nat where "goal_schema_version = 3"
definition max_goal_objective_bytes :: nat where "max_goal_objective_bytes = 8 * 1024"
definition max_goal_plan_bytes :: nat where "max_goal_plan_bytes = 32 * 1024"
definition default_goal_max_loops :: nat where "default_goal_max_loops = 100"
definition max_plan_scratch_entries :: nat where "max_plan_scratch_entries = 256"
definition max_plan_scratch_bytes :: nat where "max_plan_scratch_bytes = 16 * 1024 * 1024"
definition max_goal_error_chars :: nat where "max_goal_error_chars = 512"

record goal_limits =
  gl_max_loops :: nat
  gl_milestone_step_budget :: nat
  gl_milestone_timeout_secs :: nat

definition goal_limits_default :: goal_limits where
  "goal_limits_default = \<lparr>gl_max_loops = default_goal_max_loops, gl_milestone_step_budget = 200,
     gl_milestone_timeout_secs = 1800\<rparr>"

datatype goal_status = Goal_Running | Goal_Converged | Goal_Failed | Goal_UserPaused | Goal_UsageLimited | Goal_BudgetLimited

datatype goal_verification_status = Verification_Idle | Verification_Running | Verification_Completed | Verification_Failed

record goal_state =
  go_schema_version :: nat
  go_goal_id :: string
  go_objective :: string
  go_status :: goal_status
  go_current_milestone :: nat
  go_total_milestones :: nat
  go_loop_count :: nat
  go_max_loops :: nat
  go_milestone_step_budget :: nat
  go_milestone_timeout_secs :: nat
  go_verifier_model :: "string option"
  go_verifier_model_selection :: "model_selection option"
  go_last_verifier_score :: "nat option"
  go_token_budget :: "int option"
  go_tokens_used :: int
  go_created_at_ms :: nat
  go_updated_at_ms :: nat
  go_active_turn_id :: "string option"
  go_active_turn_settled :: bool
  go_last_error :: "string option"
  go_verification_status :: goal_verification_status

record plan_mode_state =
  pm_schema_version :: nat
  pm_active :: bool
  pm_review_pending :: bool
  pm_plan_file :: string
  pm_scratch_dir :: string
  pm_cleanup_manifest :: string
  pm_cleanup_pending :: bool
  pm_updated_at_ms :: nat

record plan_tool_selection =
  ps_review_pending :: bool
  ps_allowed_tools :: "string list"

record plan_cleanup_manifest =
  pc_schema_version :: nat
  pc_status :: string
  pc_scratch_dir :: string
  pc_paths :: "string list"
  pc_updated_at_ms :: nat
  pc_error :: "string option"

datatype verdict_outcome = Verdict_Approved | Verdict_Rejected | Verdict_NeedsClarification | Verdict_Invalid

record verifier_verdict =
  vv_outcome :: verdict_outcome
  vv_score :: "nat option"
  vv_summary :: string

record host_json =
  hj_goal :: "goal_state \<Rightarrow> string"
  hj_goal_of :: "string \<Rightarrow> string + goal_state"
  hj_plan :: "plan_mode_state \<Rightarrow> string"
  hj_plan_of :: "string \<Rightarrow> string + plan_mode_state"
  hj_cleanup :: "plan_cleanup_manifest \<Rightarrow> string"

text \<open>The store, with what it uses of \<open>std::path\<close>.\<close>

record host_workflow_store =
  hw_session_dir :: string
  hw_goal_limits :: goal_limits
  hw_json :: host_json
  hw_normalize :: "string \<Rightarrow> string"

definition goal_dir :: "host_workflow_store \<Rightarrow> string" where
  "goal_dir hw = join_path (hw_session_dir hw) ''goal''"

definition state_file :: "host_workflow_store \<Rightarrow> string" where
  "state_file hw = join_path (goal_dir hw) ''state.json''"

definition verdict_file :: "host_workflow_store \<Rightarrow> string" where
  "verdict_file hw = join_path (goal_dir hw) ''verifier_verdict.md''"

definition goal_plan_file :: "host_workflow_store \<Rightarrow> string" where
  "goal_plan_file hw = join_path (goal_dir hw) ''plan.md''"

definition living_plan_path :: "string \<Rightarrow> string" where
  "living_plan_path session_dir = join_path (join_path session_dir ''plan'') ''plan.md''"

definition plan_scratch_path :: "string \<Rightarrow> string" where
  "plan_scratch_path session_dir = join_path (join_path session_dir ''plan'') ''scratch''"

definition plan_cleanup_path :: "string \<Rightarrow> string" where
  "plan_cleanup_path session_dir = join_path (join_path session_dir ''plan'') ''cleanup.json''"

definition plan_mode_file :: "string \<Rightarrow> string" where
  "plan_mode_file session_dir = join_path session_dir ''plan_mode.json''"

subsection \<open>The state file\<close>

definition load_goal_state :: "host_workflow_store \<Rightarrow> goal_state option io" where
  "load_goal_state hw =
    bindA (fs_exists (state_file hw)) (\<lambda>there. if \<not> there then retA None else
    bindA (fs_read (state_file hw)) (\<lambda>content. case hj_goal_of (hw_json hw) content of
      Inl err \<Rightarrow> raiseA (io_error Io_InvalidData err)
    | Inr state \<Rightarrow> retA (Some state)))"

definition write_goal_state :: "host_workflow_store \<Rightarrow> goal_state \<Rightarrow> unit io" where
  "write_goal_state hw state = fs_write (state_file hw) (hj_goal (hw_json hw) state)"

text \<open>
  \<open>update\<close> reads the clock too; it answers \<open>None\<close> when the state is not to be changed.
\<close>

definition update_goal_state ::
  "host_workflow_store \<Rightarrow> (goal_state \<Rightarrow> goal_state option io) \<Rightarrow> goal_state option io" where
  "update_goal_state hw update =
    bindA (load_goal_state hw) (\<lambda>loaded. case loaded of
      None \<Rightarrow> retA None
    | Some state \<Rightarrow> bindA (update state) (\<lambda>updated. case updated of
        None \<Rightarrow> retA None
      | Some state' \<Rightarrow> seqA (write_goal_state hw state') (retA (Some state'))))"

definition stamped :: "(goal_state \<Rightarrow> goal_state) \<Rightarrow> goal_state \<Rightarrow> goal_state option io" where
  "stamped f state = bindA fs_now_ms (\<lambda>now. retA (Some ((f state)\<lparr>go_updated_at_ms := now\<rparr>)))"

definition update_running_goal ::
  "host_workflow_store \<Rightarrow> string \<Rightarrow> string option \<Rightarrow> (goal_state \<Rightarrow> goal_state) \<Rightarrow> goal_state option io" where
  "update_running_goal hw goal_id turn_id f = update_goal_state hw (\<lambda>state.
     if go_goal_id state \<noteq> goal_id \<or> go_status state \<noteq> Goal_Running
       \<or> (turn_id \<noteq> None \<and> go_active_turn_id state \<noteq> turn_id)
     then retA None else stamped f state)"

subsection \<open>Setting, changing and clearing a goal\<close>

definition initial_goal :: "goal_limits \<Rightarrow> string \<Rightarrow> nat \<Rightarrow> nat \<Rightarrow> goal_state" where
  "initial_goal limits objective id_ms now = \<lparr>go_schema_version = goal_schema_version,
     go_goal_id = ''g_'' @ decimal id_ms, go_objective = objective, go_status = Goal_Running,
     go_current_milestone = 1, go_total_milestones = 3, go_loop_count = 0,
     go_max_loops = (if gl_max_loops limits = 0 then default_goal_max_loops else gl_max_loops limits),
     go_milestone_step_budget = gl_milestone_step_budget limits,
     go_milestone_timeout_secs = gl_milestone_timeout_secs limits, go_verifier_model = None,
     go_verifier_model_selection = None, go_last_verifier_score = None, go_token_budget = None,
     go_tokens_used = 0, go_created_at_ms = now, go_updated_at_ms = now, go_active_turn_id = None,
     go_active_turn_settled = False, go_last_error = None, go_verification_status = Verification_Idle\<rparr>"

definition initial_goal_plan :: "string \<Rightarrow> string" where
  "initial_goal_plan objective = ''# Autonomous Goal Plan: '' @ objective @ [newline_byte, newline_byte]
     @ ''## Acceptance Criteria'' @ [newline_byte]
     @ ''- Full workspace tests and linting pass with zero warnings.'' @ [newline_byte]
     @ ''- Independent Goal verifier gives APPROVED verdict.'' @ [newline_byte, newline_byte]
     @ ''## Milestones'' @ [newline_byte]
     @ ''- [ ] Milestone 1: Workspace inspection and baseline test verification.'' @ [newline_byte]
     @ ''- [ ] Milestone 2: Incremental implementation and unit testing.'' @ [newline_byte]
     @ ''- [ ] Milestone 3: Full end-to-end verification and cleanup.'' @ [newline_byte]"

definition init_goal_workspace_with_limits :: "host_workflow_store \<Rightarrow> string \<Rightarrow> goal_state io" where
  "init_goal_workspace_with_limits hw objective =
    (if max_goal_objective_bytes < length objective
     then raiseA (io_error Io_InvalidInput (''goal objective exceeds '' @ decimal max_goal_objective_bytes @ '' byte limit''))
     else seqA (fs_create_dir_all (goal_dir hw))
       (bindA fs_now_ms (\<lambda>id_ms. bindA fs_now_ms (\<lambda>now.
        let state = initial_goal (hw_goal_limits hw) objective id_ms now;
            root_plan = living_plan_path (hw_session_dir hw) in
        seqA (write_goal_state hw state)
        (bindA (fs_is_file root_plan) (\<lambda>there.
         seqA (if there
               then seqA (ignoring (fs_copy root_plan (join_path (goal_dir hw) ''plan.baseline.md'')))
                 (ignoring (fs_copy root_plan (goal_plan_file hw)))
               else fs_write (goal_plan_file hw) (initial_goal_plan objective))
           (retA state)))))))"

definition set_goal :: "host_workflow_store \<Rightarrow> string \<Rightarrow> int option \<Rightarrow> goal_state io" where
  "set_goal hw objective token_budget =
    (if (case token_budget of Some b \<Rightarrow> b \<le> 0 | None \<Rightarrow> False)
     then raiseA (io_error Io_InvalidInput ''goal token budget must be positive'')
     else bindA (init_goal_workspace_with_limits hw objective) (\<lambda>state.
       let state' = state\<lparr>go_token_budget := token_budget\<rparr> in
       seqA (write_goal_state hw state') (retA state')))"

definition set_goal_verifier_selection :: "host_workflow_store \<Rightarrow> model_selection option \<Rightarrow> goal_state option io" where
  "set_goal_verifier_selection hw selection =
    update_goal_state hw (stamped (\<lambda>state. state\<lparr>go_verifier_model_selection := selection\<rparr>))"

definition update_goal :: "host_workflow_store \<Rightarrow> string option \<Rightarrow> int option option \<Rightarrow> goal_state option io" where
  "update_goal hw objective token_budget =
    (if (case objective of Some v \<Rightarrow> trim v = [] | None \<Rightarrow> False)
     then raiseA (io_error Io_InvalidInput ''goal objective must not be empty'')
     else if (case token_budget of Some (Some b) \<Rightarrow> b \<le> 0 | _ \<Rightarrow> False)
     then raiseA (io_error Io_InvalidInput ''goal token budget must be positive'')
     else update_goal_state hw (\<lambda>state.
       if objective = None \<and> token_budget = None then retA (Some state)
       else stamped (\<lambda>state. state\<lparr>
           go_objective := (case objective of Some v \<Rightarrow> trim v | None \<Rightarrow> go_objective state),
           go_token_budget := (case token_budget of Some b \<Rightarrow> b | None \<Rightarrow> go_token_budget state)\<rparr>) state))"

definition clear_goal :: "host_workflow_store \<Rightarrow> bool io" where
  "clear_goal hw = caseA (fs_remove_file (state_file hw)) (\<lambda>_. retA True)
     (\<lambda>err. if ie_kind err = Io_NotFound then retA False else raiseA err)"

subsection \<open>Turns, usage and limits\<close>

definition mark_goal_turn_started :: "host_workflow_store \<Rightarrow> string \<Rightarrow> string \<Rightarrow> goal_state option io" where
  "mark_goal_turn_started hw goal_id turn_id = update_running_goal hw goal_id None
     (\<lambda>state. state\<lparr>go_active_turn_id := Some turn_id, go_active_turn_settled := False\<rparr>)"

definition mark_goal_turn_settled :: "host_workflow_store \<Rightarrow> string \<Rightarrow> string \<Rightarrow> goal_state option io" where
  "mark_goal_turn_settled hw goal_id turn_id = update_running_goal hw goal_id (Some turn_id)
     (\<lambda>state. state\<lparr>go_active_turn_settled := True\<rparr>)"

definition verifier_progress :: "nat \<Rightarrow> string" where
  "verifier_progress seq = ''# Goal Verification'' @ [newline_byte, newline_byte] @ ''- Status: running'' @ [newline_byte]
     @ ''- Source checkpoint sequence: '' @ decimal seq @ [newline_byte, newline_byte]
     @ ''The independent verifier is evaluating this settled milestone.'' @ [newline_byte]"

definition mark_goal_verification_started ::
  "host_workflow_store \<Rightarrow> string \<Rightarrow> string \<Rightarrow> nat \<Rightarrow> goal_state option io" where
  "mark_goal_verification_started hw goal_id turn_id seq =
    bindA (update_running_goal hw goal_id (Some turn_id)
        (\<lambda>state. state\<lparr>go_verification_status := Verification_Running\<rparr>))
      (\<lambda>updated. seqA (if updated = None then retA () else fs_write (verdict_file hw) (verifier_progress seq))
        (retA updated))"

definition i64_max :: int where "i64_max = 2 ^ 63 - 1"
definition i64_min :: int where "i64_min = - (2 ^ 63)"

definition i64_saturating_add :: "int \<Rightarrow> int \<Rightarrow> int" where
  "i64_saturating_add a b = max i64_min (min i64_max (a + b))"

text \<open>\<open>i64::try_from(tokens).unwrap_or(i64::MAX)\<close>.\<close>

definition i64_of :: "nat \<Rightarrow> int" where
  "i64_of tokens = (if int tokens \<le> i64_max then int tokens else i64_max)"

definition add_usage :: "nat \<Rightarrow> goal_state \<Rightarrow> goal_state" where
  "add_usage tokens state =
    (let state1 = state\<lparr>go_tokens_used := i64_saturating_add (go_tokens_used state) (i64_of tokens)\<rparr> in
     case go_token_budget state1 of
       None \<Rightarrow> state1
     | Some b \<Rightarrow> if b \<le> go_tokens_used state1
         then state1\<lparr>go_status := Goal_BudgetLimited, go_last_error := Some ''goal token budget exhausted''\<rparr>
         else state1)"

definition record_goal_usage :: "host_workflow_store \<Rightarrow> string \<Rightarrow> string \<Rightarrow> nat \<Rightarrow> goal_state option io" where
  "record_goal_usage hw goal_id turn_id tokens = update_running_goal hw goal_id (Some turn_id) (add_usage tokens)"

definition limit_goal_turn ::
  "host_workflow_store \<Rightarrow> string \<Rightarrow> string \<Rightarrow> goal_status \<Rightarrow> string \<Rightarrow> goal_state option io" where
  "limit_goal_turn hw goal_id turn_id status reason = update_running_goal hw goal_id (Some turn_id)
     (\<lambda>state. state\<lparr>go_status := status, go_last_error := Some reason\<rparr>)"

subsection \<open>Verdicts\<close>

definition goal_verification_criteria :: "host_workflow_store \<Rightarrow> string io" where
  "goal_verification_criteria hw = bindA (fs_read (goal_plan_file hw)) (\<lambda>plan.
     if max_goal_plan_bytes < length plan
     then raiseA (io_error Io_InvalidData (''goal plan exceeds '' @ decimal max_goal_plan_bytes @ '' byte limit''))
     else retA plan)"

definition record_verifier_verdict :: "host_workflow_store \<Rightarrow> nat \<Rightarrow> string \<Rightarrow> unit io" where
  "record_verifier_verdict hw seq output =
    (let entry = ''source_checkpoint_seq: '' @ decimal seq @ [newline_byte, newline_byte] @ output in
     if max_goal_plan_bytes < length entry
     then raiseA (io_error Io_InvalidData (''verifier output exceeds '' @ decimal max_goal_plan_bytes @ '' byte limit''))
     else fs_write (verdict_file hw) entry)"

definition verifier_failure_text :: "nat option \<Rightarrow> string \<Rightarrow> string" where
  "verifier_failure_text seq err = ''# Goal Verification'' @ [newline_byte, newline_byte] @ ''- Status: failed'' @ [newline_byte]
     @ ''- Source checkpoint sequence: '' @ (case seq of Some n \<Rightarrow> decimal n | None \<Rightarrow> ''unknown'') @ [newline_byte, newline_byte]
     @ ''Verifier error: '' @ take_chars max_goal_error_chars err @ [newline_byte]"

definition write_verifier_failure :: "host_workflow_store \<Rightarrow> nat option \<Rightarrow> string \<Rightarrow> unit io" where
  "write_verifier_failure hw seq err = fs_write (verdict_file hw) (verifier_failure_text seq err)"

definition record_verifier_failure :: "host_workflow_store \<Rightarrow> nat \<Rightarrow> string \<Rightarrow> unit io" where
  "record_verifier_failure hw seq = write_verifier_failure hw (Some seq)"

definition limited :: "goal_status \<Rightarrow> string option \<Rightarrow> nat \<Rightarrow> goal_state \<Rightarrow> goal_state" where
  "limited status reason now state = state\<lparr>go_status := status,
     go_last_error := map_option (take_chars max_goal_error_chars) reason,
     go_verification_status := (if go_verification_status state = Verification_Running then Verification_Failed
       else go_verification_status state),
     go_updated_at_ms := now\<rparr>"

definition goal_not_found :: io_error where
  "goal_not_found = io_error Io_NotFound ''goal state not found''"

definition limit_goal_with_reason :: "host_workflow_store \<Rightarrow> goal_status \<Rightarrow> string option \<Rightarrow> goal_state io" where
  "limit_goal_with_reason hw status reason =
    bindA (load_goal_state hw) (\<lambda>loaded. case loaded of
      None \<Rightarrow> raiseA goal_not_found
    | Some state \<Rightarrow> bindA fs_now_ms (\<lambda>now.
        let state' = limited status reason now state in
        seqA (write_goal_state hw state')
        (seqA (if go_verification_status state = Verification_Running
               then write_verifier_failure hw None
                 (case go_last_error state' of Some e \<Rightarrow> e | None \<Rightarrow> ''goal verifier failed'')
               else retA ())
          (retA state'))))"

definition fail_goal_with_reason :: "host_workflow_store \<Rightarrow> string \<Rightarrow> goal_state io" where
  "fail_goal_with_reason hw reason = limit_goal_with_reason hw Goal_Failed (Some reason)"

definition verdict_outcome_of :: "string \<Rightarrow> verdict_outcome" where
  "verdict_outcome_of content =
    (let lower = to_ascii_lowercase content in
     if contains_sub ''verdict: approved'' lower \<or> contains_sub ''verdict: approve'' lower
       \<or> contains_sub ''**verdict**: approved'' lower then Verdict_Approved
     else if contains_sub ''verdict: needs_clarification'' lower \<or> contains_sub ''verdict: clarification'' lower
     then Verdict_NeedsClarification
     else if contains_sub ''verdict: rejected'' lower \<or> contains_sub ''verdict: reject'' lower then Verdict_Rejected
     else Verdict_Invalid)"

definition score_of_line :: "string \<Rightarrow> nat option" where
  "score_of_line l = (case split_on (CHR '':'') l of
     _ # second # _ \<Rightarrow> parse_u32 (takeWhile ascii_digit (trim second)) | _ \<Rightarrow> None)"

definition parse_verifier_verdict :: "string \<Rightarrow> verifier_verdict" where
  "parse_verifier_verdict content = \<lparr>vv_outcome = verdict_outcome_of content,
     vv_score = Option.bind (find (\<lambda>l. contains_sub ''score:'' (to_ascii_lowercase l)) (str_lines content)) score_of_line,
     vv_summary = (case find (\<lambda>l. contains_sub ''summary:'' (to_ascii_lowercase l) \<or> starts_with ''### Summary'' l)
         (str_lines content) of Some l \<Rightarrow> l | None \<Rightarrow> ''No summary provided'')\<rparr>"

definition advanced :: "verifier_verdict option \<Rightarrow> goal_state \<Rightarrow> goal_state" where
  "advanced verdict state0 =
    (let state = state0\<lparr>go_loop_count := go_loop_count state0 + 1\<rparr>;
         stepped = (case verdict of
           Some v \<Rightarrow>
             (let s1 = state\<lparr>go_verification_status := Verification_Completed, go_last_verifier_score := vv_score v\<rparr> in
              if vv_outcome v = Verdict_Approved
              then (if go_total_milestones s1 \<le> go_current_milestone s1 then s1\<lparr>go_status := Goal_Converged\<rparr>
                    else s1\<lparr>go_current_milestone := go_current_milestone s1 + 1\<rparr>)
              else if go_max_loops s1 \<le> go_loop_count s1 then s1\<lparr>go_status := Goal_Failed\<rparr> else s1)
         | None \<Rightarrow> if go_max_loops state \<le> go_loop_count state then state\<lparr>go_status := Goal_Failed\<rparr> else state)
     in stepped\<lparr>go_active_turn_id := None, go_active_turn_settled := False, go_last_error := None\<rparr>)"

definition advance_goal_milestone :: "host_workflow_store \<Rightarrow> verifier_verdict option \<Rightarrow> goal_state io" where
  "advance_goal_milestone hw verdict =
    bindA (load_goal_state hw) (\<lambda>loaded. case loaded of
      None \<Rightarrow> raiseA goal_not_found
    | Some state \<Rightarrow>
        if go_status state \<noteq> Goal_Running then retA state
        else bindA fs_now_ms (\<lambda>now.
          let state' = (advanced verdict state)\<lparr>go_updated_at_ms := now\<rparr> in
          seqA (write_goal_state hw state') (retA state')))"

definition pause_goal :: "host_workflow_store \<Rightarrow> goal_state option io" where
  "pause_goal hw = update_goal_state hw (\<lambda>state.
     if go_status state = Goal_UserPaused then retA None
     else stamped (\<lambda>s. s\<lparr>go_status := Goal_UserPaused, go_active_turn_id := None, go_active_turn_settled := False\<rparr>) state)"

definition resume_goal :: "host_workflow_store \<Rightarrow> goal_state option io" where
  "resume_goal hw = update_goal_state hw (\<lambda>state.
     if go_status state \<noteq> Goal_UserPaused then retA None
     else stamped (\<lambda>s. s\<lparr>go_status := Goal_Running\<rparr>) state)"

subsection \<open>Plan mode\<close>

definition plan_mode_allowed_tools :: "string list" where
  "plan_mode_allowed_tools = [''read_file'', ''read_image'', ''shell'', ''apply_patch'', ''read_tool_output'',
     ''web_fetch'', ''web_search'', ''ask_user'']"

text \<open>The tools a session in plan mode may use; \<open>None\<close> when it is not in plan mode.\<close>

definition plan_mode_tool_selection ::
  "host_json \<Rightarrow> string option \<Rightarrow> string list \<Rightarrow> (disk, string, plan_tool_selection option) act" where
  "plan_mode_tool_selection js session_dir available =
    (case session_dir of
       None \<Rightarrow> retA None
     | Some dir \<Rightarrow> caseA (fs_read (plan_mode_file dir))
         (\<lambda>content. case hj_plan_of js content of
            Inl err \<Rightarrow> raiseA ''cannot parse the Session Plan Mode state''
          | Inr state \<Rightarrow>
              if \<not> pm_active state then retA None
              else retA (Some \<lparr>ps_review_pending = pm_review_pending state,
                ps_allowed_tools = filter (\<lambda>name. name \<in> set available) plan_mode_allowed_tools\<rparr>))
         (\<lambda>err. if ie_kind err = Io_NotFound then retA None
           else raiseA ''cannot read the Session Plan Mode state''))"

definition one_line :: "string \<Rightarrow> string" where
  "one_line t = concat (case split_whitespace t of [] \<Rightarrow> [] | w # ws \<Rightarrow> w # map (\<lambda>x. '' '' @ x) ws)"

definition initial_plan_markdown :: "string option \<Rightarrow> string" where
  "initial_plan_markdown prompt =
    (let goals = (case map_option trim prompt of
         Some (c # cs) \<Rightarrow> ''- Goals:'' @ [newline_byte] @ ''  - '' @ c # cs
       | _ \<Rightarrow> ''- Goals:'')
     in ''# Implementation Plan'' @ [newline_byte, newline_byte] @ ''## 1. Problem & Scope'' @ [newline_byte]
       @ goals @ [newline_byte] @ ''- Non-Goals:'' @ [newline_byte, newline_byte]
       @ ''## 2. Critical Files'' @ [newline_byte] @ ''- `path/to/file` [MODIFY/NEW]'' @ [newline_byte, newline_byte]
       @ ''## 3. Phased Milestones'' @ [newline_byte] @ ''- [ ] Phase 1: Exploration & Setup'' @ [newline_byte]
       @ ''- [ ] Phase 2: Core Implementation'' @ [newline_byte]
       @ ''- [ ] Phase 3: Verification & Tests'' @ [newline_byte, newline_byte]
       @ ''## 4. Verification Plan'' @ [newline_byte] @ ''- Automated test checks'' @ [newline_byte])"

definition write_plan_cleanup_manifest ::
  "host_workflow_store \<Rightarrow> string \<Rightarrow> string list \<Rightarrow> string option \<Rightarrow> plan_cleanup_manifest io" where
  "write_plan_cleanup_manifest hw status paths err =
    bindA fs_now_ms (\<lambda>now.
    let manifest = \<lparr>pc_schema_version = goal_schema_version, pc_status = status,
          pc_scratch_dir = hw_normalize hw (plan_scratch_path (hw_session_dir hw)), pc_paths = paths,
          pc_updated_at_ms = now, pc_error = map_option (take_chars max_goal_error_chars) err\<rparr> in
    seqA (fs_create_dir_all (join_path (hw_session_dir hw) ''plan''))
    (seqA (fs_write (plan_cleanup_path (hw_session_dir hw)) (hj_cleanup (hw_json hw) manifest))
      (retA manifest)))"

definition write_plan_mode_state :: "host_workflow_store \<Rightarrow> plan_mode_state \<Rightarrow> unit io" where
  "write_plan_mode_state hw state = fs_write (plan_mode_file (hw_session_dir hw)) (hj_plan (hw_json hw) state)"

definition init_plan_mode :: "host_workflow_store \<Rightarrow> string option \<Rightarrow> string io" where
  "init_plan_mode hw given =
    (let dir = hw_session_dir hw; plan_path = living_plan_path dir;
         prompt = (case map_option one_line given of Some [] \<Rightarrow> None | p \<Rightarrow> p) in
     seqA (fs_create_dir_all (plan_scratch_path dir))
     (bindA (fs_exists plan_path) (\<lambda>there.
      seqA (if there then (case prompt of
              None \<Rightarrow> retA ()
            | Some p \<Rightarrow> bindA (fs_read plan_path) (\<lambda>content.
                if contains_sub (''- '' @ p) content then retA ()
                else fs_write plan_path (content @ [newline_byte] @ ''## User Request'' @ [newline_byte] @ ''- '' @ p @ [newline_byte])))
            else fs_write plan_path (initial_plan_markdown prompt))
      (bindA (write_plan_cleanup_manifest hw ''active'' [] None) (\<lambda>manifest.
       bindA fs_now_ms (\<lambda>now.
       seqA (write_plan_mode_state hw \<lparr>pm_schema_version = goal_schema_version, pm_active = True,
           pm_review_pending = False, pm_plan_file = hw_normalize hw plan_path,
           pm_scratch_dir = hw_normalize hw (plan_scratch_path dir),
           pm_cleanup_manifest = hw_normalize hw (plan_cleanup_path dir), pm_cleanup_pending = False,
           pm_updated_at_ms = now\<rparr>)
         (retA (hw_normalize hw plan_path))))))))"

text \<open>
  The entries below a directory, their paths relative to the root; an error carries the paths
  collected before it.
\<close>

type_synonym 'a collecting = "(disk, io_error \<times> string list, 'a) act"

definition scratch_entries_error :: io_error where
  "scratch_entries_error = io_error Io_Other (''Plan scratch exceeds '' @ decimal max_plan_scratch_entries @ '' entries'')"

definition scratch_bytes_error :: io_error where
  "scratch_bytes_error = io_error Io_Other (''Plan scratch exceeds '' @ decimal max_plan_scratch_bytes @ '' bytes'')"

definition relative_name :: "string \<Rightarrow> string \<Rightarrow> string" where
  "relative_name dir name = (if dir = [] then name else join_path dir name)"

fun collect_plan_scratch_entries ::
  "string \<Rightarrow> entry list \<Rightarrow> string list \<Rightarrow> nat \<Rightarrow> (string list \<times> nat) collecting" where
  "collect_plan_scratch_entries dir [] paths bytes = retA (paths, bytes)"
| "collect_plan_scratch_entries dir (e # es) paths bytes =
    (if max_plan_scratch_entries \<le> length paths then raiseA (scratch_entries_error, paths)
     else bindA (case e of
         File_Entry name file_bytes \<Rightarrow>
           (let bytes' = sat_add bytes file_bytes; paths' = paths @ [relative_name dir name] in
            if max_plan_scratch_bytes < bytes' then raiseA (scratch_bytes_error, paths') else retA (paths', bytes'))
       | Special_Entry name \<Rightarrow> retA (paths @ [relative_name dir name], bytes)
       | Dir_Entry name inner \<Rightarrow>
           seqA (map_errA (\<lambda>err. (err, paths @ [relative_name dir name])) (unless_fault (retA ())))
             (collect_plan_scratch_entries (relative_name dir name) inner (paths @ [relative_name dir name]) bytes))
       (\<lambda>(paths', bytes'). collect_plan_scratch_entries dir es paths' bytes'))"

definition cleanup_plan_scratch :: "host_workflow_store \<Rightarrow> plan_cleanup_manifest io" where
  "cleanup_plan_scratch hw =
    (let scratch = plan_scratch_path (hw_session_dir hw);
         collect = bindA (map_errA (\<lambda>err. (err, [])) (fs_is_dir scratch)) (\<lambda>there. if there
           then bindA (map_errA (\<lambda>err. (err, [])) (fs_read_dir scratch))
             (\<lambda>es. bindA (collect_plan_scratch_entries [] es [] 0) (\<lambda>(paths, bytes). retA paths))
           else retA [])
     in caseA collect
       (\<lambda>paths.
         bindA (write_plan_cleanup_manifest hw ''cleanup_pending'' paths None) (\<lambda>pending.
         bindA (fs_exists scratch) (\<lambda>there.
         seqA (caseA (if there then fs_remove_dir_all scratch else retA ()) retA
             (\<lambda>err. seqA (ignoring (write_plan_cleanup_manifest hw ''cleanup_pending'' paths (Some (ie_text err))))
                (raiseA err)))
         (seqA (fs_create_dir_all scratch) (write_plan_cleanup_manifest hw ''clean'' [] None)))))
       (\<lambda>(err, paths).
         seqA (ignoring (write_plan_cleanup_manifest hw ''cleanup_pending'' paths (Some (ie_text err))))
           (raiseA err)))"

definition disable_plan_mode :: "host_workflow_store \<Rightarrow> unit io" where
  "disable_plan_mode hw =
    (let dir = hw_session_dir hw;
         settle = (\<lambda>cleanup_error.
           bindA (fs_exists (plan_mode_file dir)) (\<lambda>there.
           caseA (if there
               then bindA fs_now_ms (\<lambda>now. write_plan_mode_state hw \<lparr>pm_schema_version = goal_schema_version,
                 pm_active = False, pm_review_pending = False, pm_plan_file = living_plan_path dir,
                 pm_scratch_dir = plan_scratch_path dir, pm_cleanup_manifest = plan_cleanup_path dir,
                 pm_cleanup_pending = (cleanup_error \<noteq> None), pm_updated_at_ms = now\<rparr>)
               else retA ())
             (\<lambda>_. case cleanup_error of None \<Rightarrow> retA () | Some err \<Rightarrow> raiseA err)
             (\<lambda>state_error. case cleanup_error of None \<Rightarrow> raiseA state_error | Some err \<Rightarrow> raiseA err)))
     in caseA (cleanup_plan_scratch hw) (\<lambda>_. settle None) (\<lambda>err. settle (Some err)))"

text \<open>The mode as the other parts of the host ask for it: no file and no valid file is no mode.\<close>

definition read_plan_mode :: "host_workflow_store \<Rightarrow> plan_mode_state option io" where
  "read_plan_mode hw = caseA (fs_read (plan_mode_file (hw_session_dir hw)))
     (\<lambda>content. case hj_plan_of (hw_json hw) content of Inl err \<Rightarrow> retA None | Inr state \<Rightarrow> retA (Some state))
     (\<lambda>_. retA None)"

definition is_plan_mode_active :: "host_workflow_store \<Rightarrow> bool io" where
  "is_plan_mode_active hw = bindA (read_plan_mode hw) (\<lambda>state.
     retA (case state of None \<Rightarrow> False | Some s \<Rightarrow> pm_active s))"

definition is_plan_review_pending :: "host_workflow_store \<Rightarrow> bool io" where
  "is_plan_review_pending hw = bindA (read_plan_mode hw) (\<lambda>state.
     retA (case state of None \<Rightarrow> False | Some s \<Rightarrow> pm_active s \<and> pm_review_pending s))"

definition set_plan_review_pending :: "host_workflow_store \<Rightarrow> bool \<Rightarrow> unit io" where
  "set_plan_review_pending hw pending =
    bindA (fs_read (plan_mode_file (hw_session_dir hw))) (\<lambda>content. case hj_plan_of (hw_json hw) content of
      Inl err \<Rightarrow> raiseA (io_error Io_InvalidData err)
    | Inr state \<Rightarrow> bindA fs_now_ms (\<lambda>now. write_plan_mode_state hw
        (state\<lparr>pm_review_pending := pm_active state \<and> pending, pm_updated_at_ms := now\<rparr>)))"

end
