(* ===== verification/Project_Context.thy ===== *)
theory Project_Context
  imports Digest Text_Cut Disk Str_Split Protocol "HOL-Library.List_Lexorder" "HOL-Library.Char_ord"
begin

section \<open>Workspace instructions (project_context.rs)\<close>

text \<open>
  The \<open>AGENTS.md\<close> files of the configured workspaces: the bounded loading of one file, the
  instructions of the roots at start-up, and those that apply to the paths a file tool was
  admitted for.  Resolving symbolic links is the parameter \<open>canon\<close>: the canonical form of a
  path on a disk, or the error.  Warnings go to standard error and are not modelled.
\<close>

subsection \<open>Paths\<close>

definition utf8_bytes :: "nat list \<Rightarrow> string" where
  "utf8_bytes = map char_of"

type_synonym canon = "disk \<Rightarrow> string \<Rightarrow> io_error + string"

definition fs_canonicalize :: "canon \<Rightarrow> string \<Rightarrow> string io" where
  "fs_canonicalize canon p = unless_fault (bindA (getA (\<lambda>d. canon d p)) (\<lambda>r. case r of
     Inl err \<Rightarrow> raiseA err | Inr q \<Rightarrow> retA q))"

definition path_parent :: "string \<Rightarrow> string option" where
  "path_parent p = (if p = [] \<or> p = ''/'' then None
     else Some (case rfind_sub ''/'' p of None \<Rightarrow> [] | Some i \<Rightarrow> if i = 0 then ''/'' else take i p))"

definition path_file_name :: "string \<Rightarrow> string option" where
  "path_file_name p = (let name = after_last ''/'' p in if name = [] \<or> name = ''..'' then None else Some name)"

definition path_starts_with :: "string \<Rightarrow> string \<Rightarrow> bool" where
  "path_starts_with root p \<longleftrightarrow> (if root = ''/'' then starts_with ''/'' p else below root p)"

definition components :: "string \<Rightarrow> string list" where
  "components p = filter (\<lambda>c. c \<noteq> [] \<and> c \<noteq> ''.'') (split_on (CHR ''/'') p)"

fun join_components :: "string list \<Rightarrow> string" where
  "join_components [] = []"
| "join_components [c] = c"
| "join_components (c # cs) = c @ ''/'' @ join_components cs"

definition relative_to :: "string \<Rightarrow> string \<Rightarrow> string list" where
  "relative_to root p = components (drop (length root) p)"

subsection \<open>Loading one file\<close>

definition max_project_instructions_bytes :: nat where "max_project_instructions_bytes = 16 * 1024"
definition max_project_instruction_roots :: nat where "max_project_instruction_roots = 16"
definition max_project_instructions_total_bytes :: nat where
  "max_project_instructions_total_bytes = max_project_instructions_bytes * max_project_instruction_roots"
definition max_applicable_instructions :: nat where "max_applicable_instructions = 16"

definition agents_marker :: string where
  "agents_marker = newline_byte # ''[truncated]'' @ [newline_byte]"

definition truncate_agents_md :: "string \<Rightarrow> nat \<Rightarrow> string" where
  "truncate_agents_md content max_bytes =
    (if length content \<le> max_bytes then content
     else if max_bytes \<le> length agents_marker
     then take (floor_char_boundary content max_bytes) content
     else
       (let retained_bytes = max_bytes - length agents_marker;
            head_bytes = (retained_bytes + 1) div 2;
            tail_bytes = retained_bytes - head_bytes;
            head_end = floor_char_boundary content head_bytes;
            tail_start = ceil_char_boundary content (length content - tail_bytes)
        in take head_end content @ agents_marker @ drop tail_start content))"

datatype agents_md =
    Absent
  | Loaded (am_body: string) (am_truncated: bool) (am_source_bytes: nat) (am_fingerprint: string)

definition agents_fingerprint :: "agents_md \<Rightarrow> string option" where
  "agents_fingerprint a = (case a of Absent \<Rightarrow> None | Loaded _ _ _ f \<Rightarrow> Some f)"

definition agents_augment :: "string \<Rightarrow> agents_md \<Rightarrow> string" where
  "agents_augment base a = (case a of
     Absent \<Rightarrow> base
   | Loaded body _ _ _ \<Rightarrow> base @ [newline_byte, newline_byte] @ ''Project instructions from AGENTS.md:'' @ [newline_byte]
       @ ''---'' @ [newline_byte] @ body @ [newline_byte] @ ''---'')"

definition oversize_warning :: "nat \<Rightarrow> string" where
  "oversize_warning source_bytes = ''AGENTS.md exceeds '' @ decimal max_project_instructions_bytes @ '' bytes (''
     @ decimal source_bytes @ ''); using bounded head and tail''"

definition truncation_warning :: "agents_md \<Rightarrow> string option" where
  "truncation_warning a = (case a of
     Loaded _ True source_bytes _ \<Rightarrow> Some (oversize_warning source_bytes) | _ \<Rightarrow> None)"

definition load_agents_file :: "string \<Rightarrow> (disk, string, agents_md) act" where
  "load_agents_file path = caseA (fs_read_bytes path)
     (\<lambda>instructions.
       if \<not> utf8 instructions then raiseA (path @ '' must be valid UTF-8'')
       else (let trimmed = trim instructions; truncated = max_project_instructions_bytes < length trimmed in
         if trimmed = [] then retA Absent
         else retA (Loaded (if truncated then truncate_agents_md trimmed max_project_instructions_bytes else trimmed)
           truncated (length instructions) (stable_digest instructions))))
     (\<lambda>err. if ie_kind err = Io_NotFound then retA Absent else raiseA (''cannot read '' @ path @ '': '' @ ie_text err))"

definition load_agents_md :: "string \<Rightarrow> (disk, string, agents_md) act" where
  "load_agents_md workspace = load_agents_file (join_path workspace ''AGENTS.md'')"

subsection \<open>Roots and sources\<close>

record project_instruction_root =
  pr_label :: string
  pr_path :: string

record injected_project_instruction =
  ij_message :: string
  ij_record :: context_injection_record
  ij_warning :: "string option"

definition label_main :: string where
  "label_main = utf8_bytes [0xe4, 0xb8, 0xbb, 0xe5, 0xb7, 0xa5, 0xe4, 0xbd, 0x9c, 0xe5, 0x8c, 0xba]"

definition label_extra :: "nat \<Rightarrow> string" where
  "label_extra n = utf8_bytes [0xe9, 0x99, 0x84, 0xe5, 0x8a, 0xa0, 0xe5, 0xb7, 0xa5, 0xe4, 0xbd, 0x9c, 0xe5, 0x8c, 0xba]
     @ '' '' @ decimal n"

fun configured_roots ::
  "canon \<Rightarrow> (string \<times> string) list \<Rightarrow> project_instruction_root list \<Rightarrow> string list
    \<Rightarrow> (disk, string, project_instruction_root list) act" where
  "configured_roots canon [] roots seen = retA roots"
| "configured_roots canon ((label, given) # configured) roots seen =
    caseA (fs_canonicalize canon given)
      (\<lambda>path. bindA (map_errA ie_text (fs_is_dir path)) (\<lambda>there.
        if \<not> there \<or> path \<in> set seen then configured_roots canon configured roots seen
        else if length roots = max_project_instruction_roots then retA roots
        else configured_roots canon configured (roots @ [\<lparr>pr_label = label, pr_path = path\<rparr>]) (path # seen)))
      (\<lambda>_. configured_roots canon configured roots seen)"

definition from_configured_roots ::
  "canon \<Rightarrow> string \<Rightarrow> string list \<Rightarrow> (disk, string, project_instruction_root list) act" where
  "from_configured_roots canon workspace extra_read_roots = configured_roots canon
     ((label_main, workspace) # map (\<lambda>(i, p). (label_extra (i + 1), p)) (enumerate 0 extra_read_roots)) [] []"

definition scope_text :: "string \<Rightarrow> string" where
  "scope_text directory =
    (if directory = ''.''
     then utf8_bytes [0xe6, 0x95, 0xb4, 0xe4, 0xb8, 0xaa, 0xe5, 0xb7, 0xa5, 0xe4, 0xbd, 0x9c, 0xe5, 0x8c, 0xba,
       0xe5, 0x8f, 0x8a, 0xe5, 0x85, 0xb6, 0xe5, 0xad, 0x90, 0xe7, 0x9b, 0xae, 0xe5, 0xbd, 0x95]
     else directory @ '' '' @ utf8_bytes [0xe5, 0x8f, 0x8a, 0xe5, 0x85, 0xb6, 0xe5, 0xad, 0x90, 0xe7, 0x9b, 0xae, 0xe5, 0xbd, 0x95])"

definition source_text :: "string \<Rightarrow> string" where
  "source_text relative =
    (if relative = ''AGENTS.md'' then utf8_bytes [0xe5, 0xb7, 0xa5, 0xe4, 0xbd, 0x9c, 0xe5, 0x8c, 0xba]
     else utf8_bytes [0xe5, 0xad, 0x90, 0xe7, 0x9b, 0xae, 0xe5, 0xbd, 0x95]) @ '' AGENTS.md''"

definition instruction_id :: "string \<Rightarrow> string \<Rightarrow> string" where
  "instruction_id label relative = ''workspace_instruction_''
     @ replace_char (CHR ''-'') (CHR ''_'') (stable_digest (label @ [newline_byte] @ relative))"

definition instruction_injection ::
  "'v serde \<Rightarrow> project_instruction_root \<Rightarrow> string \<Rightarrow> string \<Rightarrow> bool \<Rightarrow> nat \<Rightarrow> string \<Rightarrow> injected_project_instruction" where
  "instruction_injection js root relative body truncated source_bytes fingerprint =
    (let source = source_text relative;
         directory = (case rfind_sub ''/'' relative of None \<Rightarrow> ''.'' | Some i \<Rightarrow> take i relative);
         separator = utf8_bytes [0x20, 0xc2, 0xb7, 0x20];
         message_body = ''['' @ utf8_bytes [0xe6, 0x9d, 0xa5, 0xe6, 0xba, 0x90] @ '': '' @ source @ separator @ pr_label root
           @ separator @ relative @ '']'' @ [newline_byte] @ body;
         r = \<lparr>ci_id = instruction_id (pr_label root) relative, ci_kind = Kind_ProjectInstructions, ci_source = source,
            ci_workspace = Some (pr_label root), ci_path = Some relative, ci_scope = scope_text directory,
            ci_bytes = source_bytes, ci_fingerprint = fingerprint, ci_supersedes = None, ci_reused = False\<rparr>
     in \<lparr>ij_message = context_message js r message_body, ij_record = r,
         ij_warning = (if truncated then Some (oversize_warning source_bytes) else None)\<rparr>)"

text \<open>The relative path is a list of components.\<close>

definition load_source ::
  "'v serde \<Rightarrow> canon \<Rightarrow> project_instruction_root \<Rightarrow> string list \<Rightarrow> (disk, string, injected_project_instruction option) act" where
  "load_source js canon root relative_path =
    (if ''..'' \<in> set relative_path then retA None
     else bindA (caseA (fs_canonicalize canon (join_path (pr_path root) (join_components relative_path)))
         (\<lambda>path. if path_starts_with (pr_path root) path
            then bindA (map_errA ie_text (fs_is_file path)) (\<lambda>there. retA (if there then Some path else None))
            else retA None)
         (\<lambda>err. if ie_kind err = Io_NotFound then retA None
            else raiseA (''cannot read project instructions: '' @ ie_text err)))
       (\<lambda>found. case found of
          None \<Rightarrow> retA None
        | Some path \<Rightarrow> bindA (load_agents_file path) (\<lambda>loaded. retA (case loaded of
            Absent \<Rightarrow> None
          | Loaded body truncated source_bytes fingerprint \<Rightarrow>
              Some (instruction_injection js root (forward_slashes (join_components (relative_to (pr_path root) path)))
                body truncated source_bytes fingerprint)))))"

definition sources_bytes :: "injected_project_instruction list \<Rightarrow> nat" where
  "sources_bytes sources = foldl (\<lambda>n s. sat_add n (ci_bytes (ij_record s))) 0 sources"

definition aggregate_error :: "string \<Rightarrow> string" where
  "aggregate_error which = which @ '' AGENTS.md sources exceed the '' @ decimal max_project_instructions_total_bytes
     @ '' byte aggregate limit''"

fun startup_from ::
  "'v serde \<Rightarrow> canon \<Rightarrow> project_instruction_root list \<Rightarrow> injected_project_instruction list \<Rightarrow> nat
    \<Rightarrow> (disk, string, injected_project_instruction list) act" where
  "startup_from js canon [] injections bytes = retA injections"
| "startup_from js canon (root # roots) injections bytes =
    bindA (load_source js canon root [''AGENTS.md'']) (\<lambda>found. case found of
      None \<Rightarrow> startup_from js canon roots injections bytes
    | Some injection \<Rightarrow>
        (let bytes' = sat_add bytes (ci_bytes (ij_record injection)) in
         if max_project_instructions_total_bytes < bytes' then raiseA (aggregate_error ''workspace'')
         else startup_from js canon roots (injections @ [injection]) bytes'))"

definition startup_injections ::
  "'v serde \<Rightarrow> canon \<Rightarrow> project_instruction_root list \<Rightarrow> (disk, string, injected_project_instruction list) act" where
  "startup_injections js canon roots = startup_from js canon roots [] 0"

subsection \<open>The instructions that apply to admitted paths\<close>

definition canonical_target_path :: "canon \<Rightarrow> string \<Rightarrow> (disk, string, string option) act" where
  "canonical_target_path canon target = caseA (fs_canonicalize canon target) (\<lambda>p. retA (Some p))
     (\<lambda>_. case path_parent target of
        None \<Rightarrow> retA None
      | Some parent \<Rightarrow> caseA (fs_canonicalize canon parent)
          (\<lambda>q. retA (map_option (join_path q) (path_file_name target))) (\<lambda>_. retA None))"

text \<open>The directories from the root down to the one that holds the target.\<close>

definition directories_down_to :: "string \<Rightarrow> string \<Rightarrow> string list list" where
  "directories_down_to root target =
    (if \<not> path_starts_with root target then []
     else (case path_parent target of
         None \<Rightarrow> []
       | Some parent \<Rightarrow>
           if \<not> path_starts_with root parent then []
           else (let comps = takeWhile (\<lambda>c. c \<noteq> ''..'') (relative_to root parent)
                 in map (\<lambda>i. take i comps) [0..<Suc (length comps)])))"

fun applicable_directories ::
  "canon \<Rightarrow> string \<Rightarrow> string list \<Rightarrow> string list list \<Rightarrow> (disk, string, string list list) act" where
  "applicable_directories canon root [] found = retA (remdups_adj (sort found))"
| "applicable_directories canon root (target # targets) found =
    bindA (canonical_target_path canon target) (\<lambda>t.
      applicable_directories canon root targets (found @ (case t of None \<Rightarrow> [] | Some p \<Rightarrow> directories_down_to root p)))"

fun load_directories ::
  "'v serde \<Rightarrow> canon \<Rightarrow> project_instruction_root \<Rightarrow> string list list \<Rightarrow> injected_project_instruction list
    \<Rightarrow> (disk, string, injected_project_instruction list) act" where
  "load_directories js canon root [] sources = retA sources"
| "load_directories js canon root (directory # directories) sources =
    bindA (load_source js canon root (directory @ [''AGENTS.md''])) (\<lambda>found. case found of
      None \<Rightarrow> load_directories js canon root directories sources
    | Some source \<Rightarrow>
        if max_applicable_instructions < length (sources @ [source])
        then raiseA (''applicable AGENTS.md sources exceed the '' @ decimal max_applicable_instructions @ '' source limit'')
        else load_directories js canon root directories (sources @ [source]))"

fun load_roots ::
  "'v serde \<Rightarrow> canon \<Rightarrow> string list \<Rightarrow> project_instruction_root list \<Rightarrow> injected_project_instruction list
    \<Rightarrow> (disk, string, injected_project_instruction list) act" where
  "load_roots js canon targets [] sources = retA sources"
| "load_roots js canon targets (root # roots) sources =
    bindA (applicable_directories canon (pr_path root) targets []) (\<lambda>directories.
    bindA (load_directories js canon root directories sources) (\<lambda>sources'.
    load_roots js canon targets roots sources'))"

definition is_known :: "context_injection_record list \<Rightarrow> injected_project_instruction \<Rightarrow> bool" where
  "is_known known source \<longleftrightarrow> list_ex (\<lambda>r. ci_id r = ci_id (ij_record source)
     \<and> ci_fingerprint r = ci_fingerprint (ij_record source)) known"

definition applicable_injections ::
  "'v serde \<Rightarrow> canon \<Rightarrow> project_instruction_root list \<Rightarrow> string list \<Rightarrow> context_injection_record list
    \<Rightarrow> (disk, string, injected_project_instruction list) act" where
  "applicable_injections js canon roots target_paths known =
    bindA (load_roots js canon target_paths roots []) (\<lambda>sources.
      if max_project_instructions_total_bytes < sources_bytes sources then raiseA (aggregate_error ''applicable'')
      else retA (filter (\<lambda>s. \<not> is_known known s) sources))"

end
