(* ===== verification/Result_Store.thy ===== *)
theory Result_Store
  imports Text_Cut Disk Str_Split
begin

section \<open>Retained tool outputs (result_store.rs)\<close>

text \<open>
  The bounded cache of large tool outputs and its pages.  A store bound to a session also
  writes each result to a sidecar file, appends a record to the session file, and reads both
  back when the session is opened again.  JSON is not part of the repository: values are of a
  type \<open>'v\<close>, and \<open>'v value_api\<close> is what the code uses of \<open>serde_json::Value\<close>.
\<close>

unbundle bit_operations_syntax

subsection \<open>Data\<close>

definition max_results :: nat where "max_results = 8"
definition max_total_bytes :: nat where "max_total_bytes = 16 * 1024 * 1024"
definition max_result_bytes :: nat where "max_result_bytes = 8 * 1024 * 1024"
definition preview_bytes :: nat where "preview_bytes = 4 * 1024"
definition max_page_bytes :: nat where "max_page_bytes = 16 * 1024"
definition max_record_bytes :: nat where "max_record_bytes = 128 * 1024 * 1024"

record 'v value_api =
  va_parse :: "string \<Rightarrow> 'v option"
  va_encode :: "'v \<Rightarrow> string + string"
  va_get :: "'v \<Rightarrow> string \<Rightarrow> 'v option"
  va_as_str :: "'v \<Rightarrow> string option"
  va_as_u64 :: "'v \<Rightarrow> nat option"
  va_as_bool :: "'v \<Rightarrow> bool option"
  va_is_null :: "'v \<Rightarrow> bool"
  va_object :: "(string \<times> 'v) list \<Rightarrow> 'v"
  va_str :: "string \<Rightarrow> 'v"
  va_num :: "nat \<Rightarrow> 'v"
  va_bool :: "bool \<Rightarrow> 'v"
  va_null :: 'v

record session_binding =
  sb_path :: string
  sb_output_dir :: string
  sb_namespace :: string

record 'v stored_entry =
  se_handle :: string
  se_content :: string
  se_sidecar_path :: "string option"
  se_source_bytes :: nat
  se_source_truncated :: bool
  se_metadata :: "'v option"

record 'v result_state =
  rs_next_id :: nat
  rs_total_bytes :: nat
  rs_entries :: "'v stored_entry list"

record stored_result =
  sr_handle :: string
  sr_preview :: string
  sr_stored_bytes :: nat
  sr_source_bytes :: nat
  sr_source_truncated :: bool

record 'v stored_page =
  pg_content :: string
  pg_next_cursor :: "nat option"
  pg_source_bytes :: nat
  pg_source_truncated :: bool
  pg_metadata :: "'v option"

definition result_state_default :: "'v result_state" where
  "result_state_default = \<lparr>rs_next_id = 0, rs_total_bytes = 0, rs_entries = []\<rparr>"

definition truncation_notice :: string where
  "truncation_notice = newline_byte # ''... [stored result truncated] ...'' @ [newline_byte]"

definition retain_head_and_tail :: "string \<Rightarrow> nat \<Rightarrow> string" where
  "retain_head_and_tail content max_bytes =
    (if length content \<le> max_bytes then content
     else (let retained = max_bytes - length truncation_notice;
               head_end = floor_char_boundary content ((retained + 1) div 2);
               tail_start = ceil_char_boundary content (length content - retained div 2)
           in take head_end content @ truncation_notice @ drop tail_start content))"

definition bounded_preview :: "string \<Rightarrow> nat \<Rightarrow> string" where
  "bounded_preview = retain_head_and_tail"

subsection \<open>Trimming\<close>

function trim_entries :: "'v stored_entry list \<Rightarrow> nat \<Rightarrow> 'v stored_entry list \<times> nat" where
  "trim_entries entries bytes =
    (if max_results < length entries \<or> max_total_bytes < bytes
     then (case entries of
         [] \<Rightarrow> ([], bytes)
       | removed # rest \<Rightarrow> trim_entries rest (bytes - length (se_content removed)))
     else (entries, bytes))"
  by pat_completeness auto
termination
  by (relation "measure (\<lambda>(es, t). length es)") auto

declare trim_entries.simps [simp del]

definition trimmed :: "'v result_state \<Rightarrow> 'v result_state" where
  "trimmed st = (case trim_entries (rs_entries st) (rs_total_bytes st) of
     (es, bytes) \<Rightarrow> st\<lparr>rs_entries := es, rs_total_bytes := bytes\<rparr>)"

definition push_entry :: "'v stored_entry \<Rightarrow> 'v result_state \<Rightarrow> 'v result_state" where
  "push_entry e st = st\<lparr>rs_total_bytes := sat_add (rs_total_bytes st) (length (se_content e)),
     rs_entries := rs_entries st @ [e]\<rparr>"

subsection \<open>Sidecar files\<close>

definition result_handle :: "session_binding option \<Rightarrow> nat \<Rightarrow> string" where
  "result_handle session i = (case session of
     None \<Rightarrow> ''result-'' @ decimal i
   | Some b \<Rightarrow> ''result-'' @ sb_namespace b @ ''-'' @ decimal i)"

definition session_sidecar_path :: "string \<Rightarrow> string \<Rightarrow> string \<Rightarrow> string option" where
  "session_sidecar_path output_dir namespace handle =
    (case strip_prefix (''result-'' @ namespace @ ''-'') handle of
       None \<Rightarrow> None
     | Some identifier \<Rightarrow>
         if identifier = [] \<or> \<not> list_all ascii_digit identifier then None
         else Some (join_path output_dir (handle @ ''.txt'')))"

definition with_tmp_extension :: "string \<Rightarrow> string" where
  "with_tmp_extension p = (case rfind_sub ''.'' p of Some i \<Rightarrow> take i p @ ''.tmp'' | None \<Rightarrow> p @ ''.tmp'')"

definition namespace_digit :: "nat \<Rightarrow> char" where
  "namespace_digit n = ''0123456789abcdef'' ! n"

text \<open>The digest and the canonical form of a path are functions of libraries.\<close>

definition session_namespace :: "(string \<Rightarrow> 8 word list) \<Rightarrow> (string \<Rightarrow> string) \<Rightarrow> (string \<Rightarrow> string) \<Rightarrow> string \<Rightarrow> string" where
  "session_namespace sha256 canonical parent path =
    concat (map (\<lambda>b. [namespace_digit (unat (drop_bit 4 b)), namespace_digit (unat (b AND 0x0f))])
      (take 16 (sha256 (canonical (parent path)))))"

definition bind_session ::
  "(string \<Rightarrow> 8 word list) \<Rightarrow> (string \<Rightarrow> string) \<Rightarrow> (string \<Rightarrow> string) \<Rightarrow> string \<Rightarrow> session_binding" where
  "bind_session sha256 canonical parent path = \<lparr>sb_path = path,
     sb_output_dir = join_path (parent path) ''tool_outputs'',
     sb_namespace = session_namespace sha256 canonical parent path\<rparr>"

definition remove_unreferenced_sidecars :: "session_binding \<Rightarrow> 'v stored_entry list \<Rightarrow> unit io" where
  "remove_unreferenced_sidecars b entries =
    caseA (fs_read_dir (sb_output_dir b))
      (\<lambda>found. forA (\<lambda>e. let path = join_path (sb_output_dir b) (entry_name e) in
         if Some path \<in> se_sidecar_path ` set entries then retA () else ignoring (fs_remove_file path)) found)
      (\<lambda>_. retA ())"

definition tool_error_of :: "string \<Rightarrow> io_error \<Rightarrow> string" where
  "tool_error_of what err = what @ '': '' @ ie_text err"

definition write_sidecar :: "string \<Rightarrow> string \<Rightarrow> (disk, string, unit) act" where
  "write_sidecar sidecar_path content =
    (let temporary_path = with_tmp_extension sidecar_path in
     caseA (seqA (map_errA (tool_error_of ''cannot create tool output sidecar'') (fs_open_truncate temporary_path))
         (seqA (map_errA (tool_error_of ''cannot persist tool output sidecar'')
             (seqA (fs_write_all temporary_path content) (seqA fs_sync fs_sync)))
           (map_errA (tool_error_of ''cannot finalize tool output sidecar'') (fs_rename temporary_path sidecar_path))))
       retA
       (\<lambda>err. seqA (map_errA ie_text (ignoring (fs_remove_file temporary_path))) (raiseA err)))"

subsection \<open>Records of the session file\<close>

definition file_lines :: "string \<Rightarrow> string list" where
  "file_lines bytes = filter (\<lambda>l. l \<noteq> []) (split_on newline_byte bytes)"

definition next_seq :: "'v value_api \<Rightarrow> string \<Rightarrow> nat" where
  "next_seq js bytes = sat_add 1
    (fold max (List.map_filter (\<lambda>r. Option.bind (va_get js r ''seq'') (va_as_u64 js))
      (List.map_filter (va_parse js) (file_lines bytes))) 0)"

definition result_record :: "'v value_api \<Rightarrow> 'v stored_entry \<Rightarrow> nat \<Rightarrow> nat \<Rightarrow> 'v" where
  "result_record js e now seq = va_object js
    [(''kind'', va_str js ''result_stored''), (''handle'', va_str js (se_handle e)),
     (''storage'', va_str js ''sidecar''), (''source_bytes'', va_num js (se_source_bytes e)),
     (''source_truncated'', va_bool js (se_source_truncated e)),
     (''metadata'', (case se_metadata e of None \<Rightarrow> va_null js | Some m \<Rightarrow> m)),
     (''timestamp_ms'', va_num js now), (''seq'', va_num js seq)]"

definition append_record :: "'v value_api \<Rightarrow> string \<Rightarrow> 'v stored_entry \<Rightarrow> (disk, string, unit) act" where
  "append_record js path e =
    bindA (map_errA (tool_error_of ''cannot read session before storing tool result'') (fs_read_bytes path)) (\<lambda>bytes.
    bindA (map_errA ie_text fs_now_ms) (\<lambda>now.
    (case va_encode js (result_record js e now (next_seq js bytes)) of
       Inl err \<Rightarrow> raiseA (''cannot encode stored tool result: '' @ err)
     | Inr encoded \<Rightarrow>
         if max_record_bytes < length encoded then raiseA ''stored tool result exceeds session record limit''
         else seqA (map_errA (tool_error_of ''cannot open session for tool result'') (fs_open path))
           (map_errA (tool_error_of ''cannot persist tool result metadata'')
             (seqA (fs_write_all path encoded) (seqA (fs_write_all path [newline_byte]) (seqA fs_sync fs_sync)))))))"

definition persist_session_result ::
  "'v value_api \<Rightarrow> session_binding \<Rightarrow> 'v stored_entry \<Rightarrow> (disk, string, string) act" where
  "persist_session_result js b e =
    seqA (map_errA (tool_error_of ''cannot create Session tool output directory'') (fs_create_dir_all (sb_output_dir b)))
    (case session_sidecar_path (sb_output_dir b) (sb_namespace b) (se_handle e) of
       None \<Rightarrow> raiseA ''invalid tool output handle''
     | Some sidecar_path \<Rightarrow>
         seqA (write_sidecar sidecar_path (se_content e))
           (caseA (append_record js (sb_path b) e) (\<lambda>_. retA sidecar_path)
             (\<lambda>err. seqA (map_errA ie_text (ignoring (fs_remove_file sidecar_path))) (raiseA err))))"

text \<open>\<open>str::parse::<u64>\<close>, which allows a plus sign.\<close>

definition parse_u64 :: "string \<Rightarrow> nat option" where
  "parse_u64 s = (let digits = (case s of c # cs \<Rightarrow> if c = CHR ''+'' then cs else s | [] \<Rightarrow> s) in
     if digits = [] \<or> \<not> list_all ascii_digit digits \<or> u64_max < digits_value 0 digits then None
     else Some (digits_value 0 digits))"

definition numeric_id :: "string \<Rightarrow> nat" where
  "numeric_id handle = (case rfind_sub ''-'' handle of
     None \<Rightarrow> 0
   | Some i \<Rightarrow> (case parse_u64 (drop (Suc i) handle) of None \<Rightarrow> 0 | Some n \<Rightarrow> n))"

text \<open>
  The content of a record: inline, or in its sidecar, of which no more than the bound plus one
  byte is read.
\<close>

definition load_content ::
  "'v value_api \<Rightarrow> session_binding \<Rightarrow> 'v \<Rightarrow> string \<Rightarrow> (string \<times> string option) option io" where
  "load_content js b r handle =
    (case Option.bind (va_get js r ''content'') (va_as_str js) of
       Some content \<Rightarrow> retA (Some (content, None))
     | None \<Rightarrow> (case session_sidecar_path (sb_output_dir b) (sb_namespace b) handle of
         None \<Rightarrow> retA None
       | Some sidecar_path \<Rightarrow>
           caseA (fs_open sidecar_path)
             (\<lambda>_. caseA (fs_read_bytes sidecar_path)
               (\<lambda>s. let content = take (max_result_bytes + 1) s in
                  retA (if \<not> utf8 content \<or> max_result_bytes < length content then None
                    else Some (content, Some sidecar_path)))
               (\<lambda>_. retA None))
             (\<lambda>_. retA None)))"

definition loaded_entry :: "'v value_api \<Rightarrow> 'v \<Rightarrow> string \<Rightarrow> string \<times> string option \<Rightarrow> 'v stored_entry" where
  "loaded_entry js r handle found = \<lparr>se_handle = handle, se_content = fst found, se_sidecar_path = snd found,
     se_source_bytes = (case Option.bind (va_get js r ''source_bytes'') (va_as_u64 js) of
        None \<Rightarrow> length (fst found) | Some n \<Rightarrow> n),
     se_source_truncated = (case Option.bind (va_get js r ''source_truncated'') (va_as_bool js) of
        None \<Rightarrow> False | Some t \<Rightarrow> t),
     se_metadata = (case va_get js r ''metadata'' of None \<Rightarrow> None | Some m \<Rightarrow> if va_is_null js m then None else Some m)\<rparr>"

definition result_handle_of :: "'v value_api \<Rightarrow> string \<Rightarrow> ('v \<times> string) option" where
  "result_handle_of js line = (case va_parse js line of
     None \<Rightarrow> None
   | Some r \<Rightarrow> if Option.bind (va_get js r ''kind'') (va_as_str js) \<noteq> Some ''result_stored'' then None
       else map_option (\<lambda>h. (r, h)) (Option.bind (va_get js r ''handle'') (va_as_str js)))"

definition load_line :: "'v value_api \<Rightarrow> session_binding \<Rightarrow> string \<Rightarrow> ('v result_state \<times> disk, io_error, unit) act" where
  "load_line js b line = (case result_handle_of js line of
     None \<Rightarrow> retA ()
   | Some (r, handle) \<Rightarrow> bindA (on_disk (load_content js b r handle)) (\<lambda>found. case found of
       None \<Rightarrow> retA ()
     | Some c \<Rightarrow> modA (apfst (\<lambda>st. push_entry (loaded_entry js r handle c)
         (st\<lparr>rs_next_id := max (rs_next_id st) (numeric_id handle)\<rparr>)))))"

definition load_session_results :: "'v value_api \<Rightarrow> session_binding \<Rightarrow> ('v result_state \<times> disk, io_error, unit) act" where
  "load_session_results js b = caseA (on_disk (fs_read_bytes (sb_path b)))
     (\<lambda>bytes. forA (load_line js b) (file_lines bytes)) (\<lambda>_. retA ())"

subsection \<open>The store\<close>

definition sweep :: "session_binding option \<Rightarrow> ('v result_state \<times> disk, io_error, unit) act" where
  "sweep session = (case session of
     None \<Rightarrow> retA ()
   | Some b \<Rightarrow> bindA (getA fst) (\<lambda>st. on_disk (remove_unreferenced_sidecars b (rs_entries st))))"

definition trim_to_limits :: "session_binding option \<Rightarrow> ('v result_state \<times> disk, io_error, unit) act" where
  "trim_to_limits session = seqA (modA (apfst trimmed)) (sweep session)"

text \<open>The store of a session as it is opened; it starts from an empty state.\<close>

definition for_session :: "'v value_api \<Rightarrow> session_binding \<Rightarrow> ('v result_state \<times> disk, io_error, unit) act" where
  "for_session js b = seqA (modA (apfst (\<lambda>_. result_state_default)))
     (seqA (load_session_results js b) (seqA (trim_to_limits (Some b)) (sweep (Some b))))"

definition store_with_metadata ::
  "'v value_api \<Rightarrow> session_binding option \<Rightarrow> string \<Rightarrow> nat \<Rightarrow> bool \<Rightarrow> 'v option
    \<Rightarrow> ('v result_state \<times> disk, string, stored_result) act" where
  "store_with_metadata js session given source_bytes given_truncated metadata =
    (let source_truncated = given_truncated \<or> max_result_bytes < length given;
         content = retain_head_and_tail given max_result_bytes;
         preview = retain_head_and_tail content preview_bytes in
     seqA (modA (apfst (\<lambda>st. st\<lparr>rs_next_id := sat_add (rs_next_id st) 1\<rparr>)))
     (bindA (getA (\<lambda>(st, d). result_handle session (rs_next_id st))) (\<lambda>handle.
      let entry = \<lparr>se_handle = handle, se_content = content, se_sidecar_path = None, se_source_bytes = source_bytes,
            se_source_truncated = source_truncated, se_metadata = metadata\<rparr> in
      bindA (case session of
          None \<Rightarrow> retA None
        | Some b \<Rightarrow> bindA (\<lambda>(st, d). apsnd (Pair st) (persist_session_result js b entry d)) (\<lambda>p. retA (Some p)))
        (\<lambda>sidecar_path.
      seqA (modA (apfst (\<lambda>st. trimmed (push_entry (entry\<lparr>se_sidecar_path := sidecar_path\<rparr>) st))))
      (seqA (map_errA ie_text (sweep session))
        (retA \<lparr>sr_handle = handle, sr_preview = preview, sr_stored_bytes = length content,
           sr_source_bytes = source_bytes, sr_source_truncated = source_truncated\<rparr>))))))"

definition store_result ::
  "'v value_api \<Rightarrow> session_binding option \<Rightarrow> string \<Rightarrow> nat \<Rightarrow> bool \<Rightarrow> ('v result_state \<times> disk, string, stored_result) act" where
  "store_result js session content source_bytes source_truncated =
    store_with_metadata js session content source_bytes source_truncated None"

subsection \<open>Reading\<close>

definition page_end :: "string \<Rightarrow> nat \<Rightarrow> nat \<Rightarrow> nat" where
  "page_end content cursor max_bytes =
    max cursor (floor_char_boundary content (min (sat_add cursor max_bytes) (length content)))"

definition read_page :: "string \<Rightarrow> nat \<Rightarrow> nat \<Rightarrow> 'v result_state \<Rightarrow> string + 'v stored_page" where
  "read_page handle cursor max_bytes st =
    (if max_bytes = 0 \<or> max_page_bytes < max_bytes
     then Inl ''result page limit must be between 1 and 16384 bytes''
     else (case find (\<lambda>e. se_handle e = handle) (rs_entries st) of
         None \<Rightarrow> Inl ''result handle is missing or expired''
       | Some entry \<Rightarrow>
           if length (se_content entry) < cursor \<or> \<not> is_char_boundary (se_content entry) cursor
           then Inl ''result cursor is invalid''
           else (let stop = page_end (se_content entry) cursor max_bytes in
             Inr \<lparr>pg_content = take (stop - cursor) (drop cursor (se_content entry)),
               pg_next_cursor = (if stop < length (se_content entry) then Some stop else None),
               pg_source_bytes = se_source_bytes entry, pg_source_truncated = se_source_truncated entry,
               pg_metadata = se_metadata entry\<rparr>)))"

text \<open>A reader that follows \<open>next_cursor\<close>, as the notice in a truncated output tells the model to.\<close>

fun read_on :: "nat \<Rightarrow> string \<Rightarrow> nat \<Rightarrow> nat \<Rightarrow> 'v result_state \<Rightarrow> (string + string) option" where
  "read_on 0 handle cursor max_bytes st = None"
| "read_on (Suc n) handle cursor max_bytes st =
    (case read_page handle cursor max_bytes st of
       Inl err \<Rightarrow> Some (Inl err)
     | Inr page \<Rightarrow> (case pg_next_cursor page of
         None \<Rightarrow> Some (Inr (pg_content page))
       | Some next_cursor \<Rightarrow> map_option (map_sum id (\<lambda>rest. pg_content page @ rest))
           (read_on n handle next_cursor max_bytes st)))"

end
