(* ===== verification/Orchestrator.thy ===== *)
theory Orchestrator
  imports Security Goal Project_Context Result_Store
begin

section \<open>The tool orchestrator (tool_orchestrator.rs)\<close>

text \<open>
  The host's \<open>ToolExecutionDelegate\<close>: the Plan Mode gate, the admission of the tool, the
  instructions that must be read first, the approval, the execution, and the retention of a
  large output.  It acts on the part of the world it owns, with the rest of the world beside it.
\<close>

definition core_tool_output_bytes :: nat where "core_tool_output_bytes = 16 * 1024"
definition output_failure_preview_bytes :: nat where "output_failure_preview_bytes = 6 * 1024"

record ('v, 'u) host_world =
  ow_approval :: approval_controller
  ow_results :: "'v result_state"
  ow_disk :: disk
  ow_rest :: 'u

text \<open>What the orchestrator is built from, with the libraries its parts call.\<close>

record ('v, 'u) tool_orchestrator =
  or_callback :: "('v result_state \<times> disk \<times> 'u) approval_callback"
  or_project_instructions :: "project_instruction_root list option"
  or_results :: "session_binding option option"
  or_serde :: "'v serde"
  or_json :: "'v value_api"
  or_host_json :: host_json
  or_canon :: canon

subsection \<open>Retaining large outputs\<close>

definition retained_notice :: "bool \<Rightarrow> string" where
  "retained_notice source_truncated = (if source_truncated
     then '' The source exceeded the 8 MiB artifact limit; the retained artifact contains a head-and-tail excerpt.''
     else [])"

definition stored_output_text :: "stored_result \<Rightarrow> string" where
  "stored_output_text stored =
     ''Tool output exceeded the inline limit and was truncated for context. Full output handle: '' @ sr_handle stored
     @ ''. Read it with read_tool_output(handle: \"'' @ sr_handle stored
     @ ''\", cursor: 0); continue with each next_cursor.'' @ retained_notice (sr_source_truncated stored)
     @ [newline_byte, newline_byte] @ sr_preview stored"

definition unstored_output_text :: "string \<Rightarrow> string \<Rightarrow> string" where
  "unstored_output_text err content =
     ''Tool output exceeded the inline limit. The complete output was not retained because Session artifact storage failed: ''
     @ bounded_preview err 512 @ [newline_byte] @ ''Source bytes: '' @ decimal (length content)
     @ ''. Only this head-and-tail preview remains available:'' @ [newline_byte, newline_byte]
     @ bounded_preview content output_failure_preview_bytes"

definition persist_large_output ::
  "('v, 'u) tool_orchestrator \<Rightarrow> tool_execution_outcome \<Rightarrow> ('v, 'u) host_world \<Rightarrow> tool_execution_outcome \<times> ('v, 'u) host_world" where
  "persist_large_output orch out w =
    (if length (teo_content out) \<le> core_tool_output_bytes then (out, w)
     else (let (stored, (results, disk)) = (case or_results orch of
               None \<Rightarrow> (Raised ''Session artifact storage is unavailable'', (ow_results w, ow_disk w))
             | Some session \<Rightarrow> store_with_metadata (or_json orch) session (teo_content out) (length (teo_content out)) False
                 (Some (va_object (or_json orch) [(''kind'', va_str (or_json orch) ''tool_output'')])) (ow_results w, ow_disk w));
               w' = w\<lparr>ow_results := results, ow_disk := disk\<rparr>
           in case stored of
                Done s \<Rightarrow> (out\<lparr>teo_content := stored_output_text s, teo_output_truncated := True\<rparr>, w')
              | Raised err \<Rightarrow>
                  (out\<lparr>teo_content := unstored_output_text err (teo_content out), teo_output_truncated := True\<rparr>, w')
              | Out_of_fuel \<Rightarrow> (out, w')))"

subsection \<open>The Plan Mode gate\<close>

definition plan_unverified_text :: string where
  "plan_unverified_text = ''Plan Mode state could not be verified; this tool call was not executed. Retry after restoring the Session state.''"

definition plan_review_text :: string where
  "plan_review_text = ''Plan review is pending; this tool call was not executed. Review the plan, then continue.''"

definition plan_deferred_text :: string where
  "plan_deferred_text = ''Plan Mode deferred this tool call without execution because it is outside the active tool selection. Choose an allowed planning tool or exit Plan Mode.''"

definition enforce_plan_selection ::
  "('v, 'u) tool_orchestrator \<Rightarrow> 'v tool_execution_request \<Rightarrow> ('v, 'u) host_world
    \<Rightarrow> (tool_execution_outcome + unit) \<times> ('v, 'u) host_world" where
  "enforce_plan_selection orch request w = (case ac_session_dir (ow_approval w) of
     None \<Rightarrow> (Inr (), w)
   | Some session_dir \<Rightarrow>
       (case plan_mode_tool_selection (or_host_json orch) (Some session_dir) [ter_name request] (ow_disk w) of
          (r, d) \<Rightarrow> (case r of
              Done None \<Rightarrow> Inr ()
            | Done (Some selection) \<Rightarrow>
                if ps_review_pending selection then Inl (outcome_deferred plan_review_text)
                else if ter_name request \<notin> set (ps_allowed_tools selection) then Inl (outcome_deferred plan_deferred_text)
                else Inr ()
            | _ \<Rightarrow> Inl (outcome_deferred plan_unverified_text), w\<lparr>ow_disk := d\<rparr>)))"

subsection \<open>Instructions before an operation\<close>

definition instruction_source :: "injected_project_instruction \<Rightarrow> string" where
  "instruction_source injection =
    (case ci_workspace (ij_record injection) of Some label \<Rightarrow> label
       | None \<Rightarrow> utf8_bytes [0xe5, 0xb7, 0xa5, 0xe4, 0xbd, 0x9c, 0xe5, 0x8c, 0xba])
    @ '':'' @ (case ci_path (ij_record injection) of Some path \<Rightarrow> path | None \<Rightarrow> ''AGENTS.md'')"

fun join_sources :: "string list \<Rightarrow> string" where
  "join_sources [] = []"
| "join_sources [s] = s"
| "join_sources (s # ss) = s @ utf8_bytes [0xe3, 0x80, 0x81] @ join_sources ss"

definition injected_outcome :: "injected_project_instruction list \<Rightarrow> tool_execution_outcome" where
  "injected_outcome injections = with_context_injection (map ij_message injections) (map ij_record injections)
     (outcome_deferred (''Host injected applicable workspace instructions from '' @ join_sources (map instruction_source injections)
       @ ''. Review them, then retry the operation.''))"

definition instruction_outcome ::
  "('v, 'u) tool_orchestrator \<Rightarrow> 'v tool_execution_request \<Rightarrow> tool_admission \<Rightarrow> ('v, 'u) host_world
    \<Rightarrow> tool_execution_outcome option \<times> ('v, 'u) host_world" where
  "instruction_outcome orch request admission w =
    (if ter_name request \<notin> {''read_file'', ''read_image'', ''apply_patch''} then (None, w)
     else (case (admission_target_paths admission, or_project_instructions orch) of
         (Some target_paths, Some roots) \<Rightarrow>
           (case applicable_injections (or_serde orch) (or_canon orch) roots target_paths (ter_known_context_injections request) (ow_disk w) of
              (r, d) \<Rightarrow> (case r of
                  Done [] \<Rightarrow> None
                | Done (i # is') \<Rightarrow> Some (injected_outcome (i # is'))
                | Raised err \<Rightarrow> Some (outcome_failed err)
                | Out_of_fuel \<Rightarrow> None, w\<lparr>ow_disk := d\<rparr>))
       | _ \<Rightarrow> (None, w)))"

subsection \<open>Executing a call\<close>

definition ask_approval ::
  "('v, 'u) tool_orchestrator \<Rightarrow> tool_approval_request \<Rightarrow> ('v, 'u) host_world
    \<Rightarrow> (approval_failure + unit) \<times> ('v, 'u) host_world" where
  "ask_approval orch request w =
    (case approve_request_with_classification (or_callback orch) request (ow_approval w, (ow_results w, ow_disk w, ow_rest w)) of
       (r, (c, (results, disk, rest))) \<Rightarrow>
         (r, w\<lparr>ow_approval := c, ow_results := results, ow_disk := disk, ow_rest := rest\<rparr>))"

definition execute_admitted ::
  "('v, 'u) tool_orchestrator \<Rightarrow> (('v, 'u) host_world, 'v) tool \<Rightarrow> 'v tool_execution_request \<Rightarrow> tool_admission
    \<Rightarrow> ('v, 'u) host_world \<Rightarrow> tool_execution_outcome \<times> ('v, 'u) host_world" where
  "execute_admitted orch t request admission w =
    (case instruction_outcome orch request admission w of
       (Some out, w') \<Rightarrow> (out, w')
     | (None, w') \<Rightarrow> tl_execute_after_admission t request admission w')"

definition execute_approved ::
  "('v, 'u) tool_orchestrator \<Rightarrow> (('v, 'u) host_world, 'v) tool \<Rightarrow> 'v tool_execution_request
    \<Rightarrow> string \<Rightarrow> string list \<Rightarrow> string option \<Rightarrow> ('v, 'u) host_world \<Rightarrow> tool_execution_outcome \<times> ('v, 'u) host_world" where
  "execute_approved orch t request action target_paths summary w =
    (case ask_approval orch (from_execution_with_summary action summary target_paths request) w of
       (Inr _, w') \<Rightarrow> tl_execute_after_admission t request (ApprovalRequired action target_paths summary) w'
     | (Inl (UserDenied err), w') \<Rightarrow> (outcome_needs_approval err, w')
     | (Inl err, w') \<Rightarrow> (outcome_failed (approval_failure_text err), w'))"

definition orchestrate :: "('v, 'u) tool_orchestrator \<Rightarrow> (('v, 'u) host_world, 'v) delegate" where
  "orchestrate orch t request w0 =
    (case enforce_plan_selection orch request w0 of
       (Inl out, w) \<Rightarrow> (out, w)
     | (Inr _, w) \<Rightarrow> (case tl_admission t request w of
         Inl err \<Rightarrow> persist_large_output orch (outcome_failed err) w
       | Inr Legacy \<Rightarrow> (case tl_execute_outcome t (ter_arguments request) w of
           (out, w') \<Rightarrow> persist_large_output orch out w')
       | Inr (Allowed paths) \<Rightarrow> (case execute_admitted orch t request (Allowed paths) w of
           (out, w') \<Rightarrow> persist_large_output orch out w')
       | Inr (Deferred reason) \<Rightarrow> persist_large_output orch (outcome_deferred reason) w
       | Inr (ApprovalRequired action paths summary) \<Rightarrow>
           (case instruction_outcome orch request (ApprovalRequired action paths summary) w of
              (Some out, w') \<Rightarrow> (out, w')
            | (None, w') \<Rightarrow> (case execute_approved orch t request action paths summary w' of
                (out, w'') \<Rightarrow> persist_large_output orch out w''))))"

end
