(* ===== verification/Security_Claims.thy ===== *)
theory Security_Claims
  imports Security
begin

section \<open>What the approval policy promises\<close>

text \<open>
  Properties of \<open>Security\<close>: grants come only from answers of the user for the same action, and
  the default preset never lets an action on a secret file pass.
\<close>

subsection \<open>Where grants come from\<close>

text \<open>
  The life of a controller as the store of grants sees it: other threads reconfigure it, and
  questions are settled, each with the key and the binding read when it was asked.  The log holds
  the questions and the answers of the user.
\<close>

inductive answered ::
  "approval_controller \<Rightarrow> (tool_approval_request \<times> string \<times> approval_binding \<times> tool_approval_resolution) list
    \<Rightarrow> approval_controller \<Rightarrow> bool" where
  start: "answered c [] c"
| reconfigured: "answered c log c1 \<Longrightarrow> ac_store c2 = ac_store c1 \<Longrightarrow> answered c log c2"
| settled: "answered c log c1 \<Longrightarrow>
    settle_resolution request (action_grant_key_of request scope) b resolution c1 = (r, c2) \<Longrightarrow>
    answered c (log @ [(request, scope, b, resolution)]) c2"

definition answer_grants ::
  "tool_approval_request \<times> string \<times> approval_binding \<times> tool_approval_resolution \<Rightarrow> approval_grant \<Rightarrow> bool" where
  "answer_grants = (\<lambda>(request, scope, b, resolution) g. tar_outcome resolution = Approved
     \<and> tar_grant_scope resolution = ag_scope g \<and> ag_scope g \<noteq> Once
     \<and> action_grant_key_of request scope = Some (ag_key g)
     \<and> (binding_owner (ag_scope g) b = Some (ag_owner g) \<or> ag_scope g = Session \<and> binding_owner Session b = None))"

lemma settle_resolution_store:
  assumes "settle_resolution request (action_grant_key_of request scope) b resolution c = (r, c')"
  shows "\<forall>g \<in> set (ac_store c'). g \<in> set (ac_store c) \<or> answer_grants (request, scope, b, resolution) g"
    and "length (ac_store c) \<le> max_cached_approvals \<Longrightarrow> length (ac_store c') \<le> max_cached_approvals"
    and "distinct (ac_store c) \<Longrightarrow> distinct (ac_store c')"
    and "set (ac_store c) \<subseteq> set (ac_store c')"
  using assms
  by (auto simp: settle_resolution_def store_insert_def answer_grants_def grant_owner_def grant_def List.insert_def
      split: if_splits option.splits)

lemma answered_store:
  assumes "answered c log c'" and "ac_store c = []"
  shows "(\<forall>g \<in> set (ac_store c'). \<exists>x \<in> set log. answer_grants x g)
    \<and> length (ac_store c') \<le> max_cached_approvals \<and> distinct (ac_store c')"
  using assms
proof (induction rule: answered.induct)
  case (settled c log c1 request scope b resolution r c2)
  note s = settle_resolution_store [OF settled(2)]
  show ?case using settled.IH [OF settled.prems] s by fastforce
qed auto

text \<open>Nobody answers: the approval must come from the policy or from a grant.\<close>

definition nobody :: "string \<Rightarrow> 'w approval_callback" where
  "nobody err = (\<lambda>request x. (Inl err, x))"

lemma passed_without_asking:
  assumes "approve_request_with_classification (nobody err) request (c, w) = (Inr (), x)"
    and "evaluate (ac_policy c) (ar_action request) = Decide_Ask"
    and "requires_approval (ac_approval_policy c) (bind_request (ac_binding c) request)"
  shows "x = (c, w) \<and> (\<exists>g \<in> set (ac_store c). ag_scope g \<in> {Session, Project}
    \<and> action_grant_key_of (bind_request (ac_binding c) request) (ac_access_scope c) = Some (ag_key g)
    \<and> (ag_scope g = Session \<longrightarrow> grant_owner Session (ac_binding c) c = Some (ag_owner g))
    \<and> (ag_scope g = Project \<longrightarrow> binding_owner Project (ac_binding c) = Some (ag_owner g)))"
proof -
  have act: "ar_action (bind_request b r) = ar_action r" for b r by (simp add: bind_request_def)
  show ?thesis
    using assms unfolding approve_request_with_classification_def nobody_def Let_def granted_def store_contains_def grant_def
    by (auto simp: act split: if_splits option.splits) force+
qed

text \<open>
  C16.  Grants come from the user alone: however requests, answers and reconfigurations interleave
  after the store was empty, a request that the policy asks about, that the approval policy covers
  and that nevertheless passes with nobody to answer has been allowed by an earlier answer: an
  approval for a session or project, given for a request of the same tool, action, paths, workspace,
  revision and access scope, and owned by the session or project the controller is bound to.
\<close>

theorem grants_come_from_the_user:
  assumes "answered c0 log c" and "ac_store c0 = []"
    and "approve_request_with_classification (nobody err) request (c, w) = (Inr (), x)"
    and "evaluate (ac_policy c) (ar_action request) = Decide_Ask"
    and "requires_approval (ac_approval_policy c) (bind_request (ac_binding c) request)"
  shows "x = (c, w) \<and> length (ac_store c) \<le> max_cached_approvals
    \<and> (\<exists>(asked, scope, b, resolution) \<in> set log. tar_outcome resolution = Approved
        \<and> tar_grant_scope resolution \<in> {Session, Project}
        \<and> action_grant_key_of asked scope \<noteq> None
        \<and> action_grant_key_of asked scope = action_grant_key_of (bind_request (ac_binding c) request) (ac_access_scope c)
        \<and> (tar_grant_scope resolution = Project \<longrightarrow> binding_owner Project b = binding_owner Project (ac_binding c))
        \<and> (tar_grant_scope resolution = Session \<longrightarrow> binding_owner Session b \<noteq> None \<longrightarrow>
             grant_owner Session (ac_binding c) c = binding_owner Session b))"
proof -
  obtain g where x: "x = (c, w)" and g: "g \<in> set (ac_store c)" "ag_scope g \<in> {Session, Project}"
    "action_grant_key_of (bind_request (ac_binding c) request) (ac_access_scope c) = Some (ag_key g)"
    "ag_scope g = Session \<longrightarrow> grant_owner Session (ac_binding c) c = Some (ag_owner g)"
    "ag_scope g = Project \<longrightarrow> binding_owner Project (ac_binding c) = Some (ag_owner g)"
    using passed_without_asking [OF assms(3-5)] by auto
  obtain entry where "entry \<in> set log" "answer_grants entry g"
    using answered_store [OF assms(1,2)] g(1) by blast
  then show ?thesis
    using answered_store [OF assms(1,2)] x g(2-5) by (intro conjI bexI [of _ entry]) (auto simp: answer_grants_def)
qed

lemma approve_answered:
  assumes "approve_request_with_classification callback request (c, w) = (r, (c2, w2))" and "answered c0 log c"
    and "\<And>q. ac_store (fst (snd (callback q (c, w)))) = ac_store c"
  shows "\<exists>log'. answered c0 (log @ log') c2"
proof -
  let ?q = "bind_request (ac_binding c) request"
  obtain ans c1 w1 where cb: "callback ?q (c, w) = (ans, (c1, w1))" by (metis prod.collapse)
  have c1: "answered c0 log c1"
    using reconfigured [OF assms(2)] assms(3) [of ?q] cb by simp
  show ?thesis
  proof (cases "c2 = c \<or> c2 = c1")
    case True
    then show ?thesis using assms(2) c1 by (metis append_Nil2)
  next
    case False
    then obtain resolution where "settle_resolution ?q (action_grant_key_of ?q (ac_access_scope c)) (ac_binding c) resolution c1 = (r, c2)"
      using assms(1) cb
      by (auto simp: approve_request_with_classification_def Let_def split: security_decision.splits if_splits sum.splits prod.splits)
    from settled [OF c1 this] show ?thesis by blast
  qed
qed

subsection \<open>Secrets\<close>

lemma match_pem: "ends_with ''.pem'' t \<Longrightarrow> match_single ''**/*.pem'' t"
  by (simp add: match_single.simps [of "''**/*.pem''"] match_single.simps [of "''*.pem''"] simple_match_def strip_prefix_def
      strip_suffix_def ends_with_def)

lemma match_key: "ends_with ''.key'' t \<Longrightarrow> match_single ''**/*.key'' t"
  by (simp add: match_single.simps [of "''**/*.key''"] match_single.simps [of "''*.key''"] simple_match_def strip_prefix_def
      strip_suffix_def ends_with_def)

lemma match_env:
  assumes "CHR ''/'' \<notin> set name" and "starts_with ''.env'' name"
  shows "match_single ''**/.env*'' (dir @ CHR ''/'' # name)"
  using rfind_sub_last [OF assms(1), of dir] assms(2)
  by (simp add: match_single.simps [of "''**/.env*''"] match_single.simps [of "''.env*''"] simple_match_def strip_prefix_def
      strip_suffix_def ends_with_def)

lemma forward_slashes_append [simp]: "forward_slashes (a @ b) = forward_slashes a @ forward_slashes b"
    "forward_slashes (c # a) = (if c = CHR 0x5C then CHR ''/'' else c) # forward_slashes a"
    "forward_slashes [] = []"
  by (simp_all add: forward_slashes_def replace_char_def)

lemma forward_slashes_id: "CHR 0x5C \<notin> set s \<Longrightarrow> forward_slashes s = s"
  by (induction s) auto

definition secret_file_name :: "string \<Rightarrow> bool" where
  "secret_file_name name \<longleftrightarrow> starts_with ''.env'' name \<or> ends_with ''.pem'' name \<or> ends_with ''.key'' name"

lemma ends_with_append: "ends_with p s \<Longrightarrow> ends_with p (t @ s)"
  by (auto simp: ends_with_iff)

lemma secret_matches:
  assumes "secret_file_name name" and "CHR ''/'' \<notin> set name" and "CHR 0x5C \<notin> set name"
  shows "\<exists>p \<in> set (sp_deny_patterns (policy_for_preset Preset_Default)). matches_pattern p (verb @ dir @ CHR ''/'' # name)"
proof -
  let ?t = "forward_slashes (verb @ dir) @ CHR ''/'' # name"
  have t: "forward_slashes (verb @ dir @ CHR ''/'' # name) = ?t" using forward_slashes_id [OF assms(3)] by simp
  have hit: "matches_pattern p (verb @ dir @ CHR ''/'' # name)" if "match_single p ?t" for p
    using that unfolding matches_pattern_def t by (simp split: prod.split)
  have tail: "ends_with p ?t" if "ends_with p name" for p
    using ends_with_append [OF that, of "forward_slashes (verb @ dir) @ ''/''"] by simp
  have "matches_pattern ''**/.env*'' (verb @ dir @ CHR ''/'' # name) \<or> matches_pattern ''**/*.pem'' (verb @ dir @ CHR ''/'' # name)
      \<or> matches_pattern ''**/*.key'' (verb @ dir @ CHR ''/'' # name)"
    using assms(1) hit [OF match_env [OF assms(2)]] hit [OF match_pem [OF tail]] hit [OF match_key [OF tail]]
    unfolding secret_file_name_def by blast
  then show ?thesis by (auto simp: policy_for_preset_def)
qed

text \<open>
  Secrets stay denied: under the default preset an action on a file whose name begins with
  \<open>.env\<close> or ends in \<open>.pem\<close> or \<open>.key\<close>, whatever its verb and directory, is forbidden by the policy,
  under every approval policy and with every grant in the store; the user is not even asked and the
  controller is left alone.
\<close>

theorem secret_files_stay_denied:
  assumes "ac_policy c = policy_for_preset Preset_Default" and "ar_action request = verb @ dir @ CHR ''/'' # name"
    and "secret_file_name name" and "CHR ''/'' \<notin> set name" and "CHR 0x5C \<notin> set name"
  shows "ensure_not_denied (ar_action request) c = Inl (''forbidden by security policy: '' @ ar_action request)
    \<and> approve_request_with_classification callback request (c, w)
      = (Inl (PolicyDenied (''forbidden by security policy: '' @ ar_action request)), (c, w))"
proof -
  have "list_ex (\<lambda>p. matches_pattern p (ar_action request)) (sp_deny_patterns (ac_policy c))"
    using secret_matches [OF assms(3-5), of verb dir] assms(1,2) by (simp add: list_ex_iff)
  then have "evaluate (ac_policy c) (ar_action request) = Decide_Deny" by (simp add: evaluate_def)
  moreover have "ar_action (bind_request (ac_binding c) request) = ar_action request" by (simp add: bind_request_def)
  ultimately show ?thesis by (simp add: ensure_not_denied_def approve_request_with_classification_def Let_def)
qed

text \<open>
  The action of a patch carries no path, so no path pattern of the policy sees it: the default
  preset asks about it, whatever files the patch touches.
\<close>

lemma patch_action_names_no_file: "evaluate (policy_for_preset Preset_Default) ''apply_patch'' = Decide_Ask"
  by code_simp

text \<open>A global option of \<open>git\<close> hides the subcommand from the check of the trusted policy.\<close>

lemma git_option_hides_reset:
  "is_destructive_shell_command ''shell:git reset --hard HEAD''" "\<not> is_destructive_shell_command ''shell:git -C . reset --hard HEAD''"
  by code_simp+

theorem secret_files_stay_denied_witness:
  "ensure_not_denied ''edit /w/.env.local'' (controller_new Trusted) = Inl ''forbidden by security policy: edit /w/.env.local''
    \<and> approve_request_with_classification (nobody []) (approval_request_legacy ''edit /w/.env.local'') (controller_new Trusted, ())
      = (Inl (PolicyDenied ''forbidden by security policy: edit /w/.env.local''), (controller_new Trusted, ()))"
  using secret_files_stay_denied [of "controller_new Trusted" "approval_request_legacy ''edit /w/.env.local''" "''edit ''" "''/w''"
      "''.env.local''" "nobody []" "()"]
  by (simp add: controller_new_def controller_with_policy_def approval_request_legacy_def secret_file_name_def)

definition sample_request :: tool_approval_request where
  "sample_request = (approval_request_legacy ''shell:make'')\<lparr>ar_tool_name := Some ''shell'', ar_workspace_id := Some ''w'',
     ar_workspace_revision := Some 1\<rparr>"

definition sample_controller :: approval_controller where
  "sample_controller = bind_approval_context (Some ''p'') (Some ''w'') (Some 1) (Some ''s'') (controller_new Interactive)"

definition sample_resolution :: tool_approval_resolution where
  "sample_resolution = \<lparr>tar_outcome = Approved, tar_grant_scope = Session, tar_reason = None\<rparr>"

definition sample_granted :: approval_controller where
  "sample_granted = snd (settle_resolution sample_request (action_grant_key_of sample_request ''project'')
     (ac_binding sample_controller) sample_resolution sample_controller)"

lemma sample_key: "action_grant_key_of sample_request ''project'' \<noteq> None"
    "action_grant_key_of (bind_request (ac_binding sample_controller) sample_request) ''project''
      = action_grant_key_of sample_request ''project''"
  by (code_simp, simp add: action_grant_key_of_def bind_request_def sample_request_def sample_controller_def
    bind_approval_context_def approval_request_legacy_def Let_def)

lemma sample_controller_sel: "ac_store sample_controller = []" "ac_access_scope sample_controller = ''project''"
    "ac_policy sample_controller = policy_for_preset Preset_Default" "ac_approval_policy sample_controller = Interactive"
    "ab_session_id (ac_binding sample_controller) = Some ''s''"
  by (simp_all add: sample_controller_def bind_approval_context_def controller_new_def controller_with_policy_def approval_store_new_def)

lemma sample_granted_eq:
  assumes "action_grant_key_of sample_request ''project'' = Some k"
  shows "sample_granted = sample_controller\<lparr>ac_store := [grant Session ''s'' k]\<rparr>"
  by (simp add: sample_granted_def settle_resolution_def assms sample_resolution_def grant_owner_def binding_owner_def
      sample_controller_sel store_insert_def max_cached_approvals_def)

lemma sample_facts:
  "fst (approve_request_with_classification (nobody []) sample_request (sample_granted, ())) = Inr ()"
  "evaluate (ac_policy sample_granted) (ar_action sample_request) = Decide_Ask"
  "requires_approval (ac_approval_policy sample_granted) (bind_request (ac_binding sample_granted) sample_request)"
proof -
  obtain k where k: "action_grant_key_of sample_request ''project'' = Some k" using sample_key(1) by auto
  note eq = sample_granted_eq [OF k]
  show ev: "evaluate (ac_policy sample_granted) (ar_action sample_request) = Decide_Ask"
  proof -
    have "evaluate (policy_for_preset Preset_Default) (ar_action sample_request) = Decide_Ask" by code_simp
    then show ?thesis by (simp add: eq sample_controller_sel)
  qed
  show "requires_approval (ac_approval_policy sample_granted) (bind_request (ac_binding sample_granted) sample_request)"
    by (simp add: eq sample_controller_sel requires_approval_def)
  have "ar_action (bind_request b r) = ar_action r" for b r by (simp add: bind_request_def)
  then show "fst (approve_request_with_classification (nobody []) sample_request (sample_granted, ())) = Inr ()"
    using ev sample_key(2) k
    by (simp add: approve_request_with_classification_def Let_def eq sample_controller_sel requires_approval_def granted_def
        grant_owner_def binding_owner_def store_contains_def)
qed

theorem grants_come_from_the_user_witness:
  "case approve_request_with_classification (nobody []) sample_request (sample_granted, ()) of (r, x) \<Rightarrow>
     x = (sample_granted, ()) \<and> length (ac_store sample_granted) \<le> max_cached_approvals
     \<and> (\<exists>(asked, scope, b, resolution) \<in> set [(sample_request, ''project'', ac_binding sample_controller, sample_resolution)].
         tar_outcome resolution = Approved \<and> tar_grant_scope resolution \<in> {Session, Project}
         \<and> action_grant_key_of asked scope \<noteq> None
         \<and> action_grant_key_of asked scope
           = action_grant_key_of (bind_request (ac_binding sample_granted) sample_request) (ac_access_scope sample_granted))"
proof -
  have "answered sample_controller ([] @ [(sample_request, ''project'', ac_binding sample_controller, sample_resolution)]) sample_granted"
    unfolding sample_granted_def by (rule settled [OF start]) (rule surjective_pairing)
  note log = this
  obtain x where run: "approve_request_with_classification (nobody []) sample_request (sample_granted, ()) = (Inr (), x)"
    using sample_facts(1) by (metis prod.collapse)
  show ?thesis
    unfolding run prod.case
    using grants_come_from_the_user [OF log sample_controller_sel(1) run sample_facts(2,3)] by auto
qed

end
