(* ===== verification/Result_Claims.thy ===== *)
theory Result_Claims
  imports Result_Store
begin

section \<open>What the result store promises\<close>

text \<open>
  Properties of \<open>Result_Store\<close>: paging reads a stored result back, the cache stays within its
  bounds, a result survives a restart of the session, and a store that fails changes nothing.
\<close>

subsection \<open>Bounds\<close>

lemma length_truncation_notice: "length truncation_notice = 35"
  by (simp add: truncation_notice_def)

lemma length_retain_head_and_tail:
  assumes "35 \<le> n"
  shows "length (retain_head_and_tail s n) \<le> n"
proof (cases "length s \<le> n")
  case False
  let ?r = "n - length truncation_notice"
  have "length (take (floor_char_boundary s ((?r + 1) div 2)) s) \<le> (?r + 1) div 2"
    using floor_char_boundary_le [of s "(?r + 1) div 2"] by simp
  moreover have "length (drop (ceil_char_boundary s (length s - ?r div 2)) s) \<le> ?r div 2"
    using ceil_char_boundary_props [of "length s - ?r div 2" s] False unfolding length_drop by linarith
  ultimately have "length (retain_head_and_tail s n) \<le> (?r + 1) div 2 + length truncation_notice + ?r div 2"
    using False unfolding retain_head_and_tail_def Let_def by auto
  also have "\<dots> \<le> n" using assms length_truncation_notice by linarith
  finally show ?thesis .
qed (simp add: retain_head_and_tail_def)

lemma utf8_truncation_notice: "utf8 truncation_notice"
  by (simp add: truncation_notice_def newline_byte_def utf8.simps char_width_def lead_len_def bv_def)

lemma utf8_retain_head_and_tail: "utf8 s \<Longrightarrow> utf8 (retain_head_and_tail s n)"
  by (auto simp: retain_head_and_tail_def Let_def floor.utf8_take_cut ceil.utf8_drop_cut utf8_truncation_notice
      intro!: utf8_append)

subsection \<open>Reading page by page\<close>

lemma page_end_le: "cursor \<le> length s \<Longrightarrow> page_end s cursor n \<le> length s"
  using floor_char_boundary_le [of s "min (sat_add cursor n) (length s)"] by (auto simp: page_end_def)

lemma page_end_boundary: "is_char_boundary s cursor \<Longrightarrow> is_char_boundary s (page_end s cursor n)"
  by (simp add: page_end_def max_def floor_char_boundary_boundary)

lemma page_end_advances:
  assumes "utf8 s" and "4 \<le> n" and "cursor < length s" and "cursor + n \<le> u64_max"
  shows "cursor < page_end s cursor n"
proof (cases "length s \<le> cursor + n")
  case True
  then show ?thesis
    using assms by (simp add: page_end_def sat_add_eq floor_char_boundary_fixed)
next
  case False
  then obtain j where "j \<le> cursor + n" "cursor + n < j + 4" "is_char_boundary s j"
    using utf8_boundary_within_4 [OF assms(1), of "cursor + n"] by auto
  then have "j \<le> floor_char_boundary s (cursor + n)" "cursor < j"
    using floor_char_boundary_greatest assms(2) by auto
  then show ?thesis using False assms by (simp add: page_end_def sat_add_eq)
qed

lemma read_on_from:
  assumes "find (\<lambda>e. se_handle e = handle) (rs_entries st) = Some e" and "utf8 (se_content e)"
    and "4 \<le> n" and "n \<le> max_page_bytes" and "length (se_content e) + n \<le> u64_max"
  shows "is_char_boundary (se_content e) cursor \<Longrightarrow> length (se_content e) < fuel + cursor
    \<Longrightarrow> read_on fuel handle cursor n st = Some (Inr (drop cursor (se_content e)))"
proof (induction fuel arbitrary: cursor)
  case 0
  then show ?case using is_char_boundary_le by fastforce
next
  case (Suc fuel)
  let ?s = "se_content e" and ?stop = "page_end (se_content e) cursor n"
  have le: "cursor \<le> length ?s" by (rule is_char_boundary_le [OF Suc.prems(1)])
  have stop: "cursor \<le> ?stop" "?stop \<le> length ?s" "is_char_boundary ?s ?stop"
    using page_end_le [OF le] page_end_boundary [OF Suc.prems(1)] by (auto simp: page_end_def)
  show ?case
  proof (cases "?stop < length ?s")
    case True
    have "cursor < ?stop"
      using page_end_advances [of ?s n cursor] assms le True stop by simp
    then have "read_on fuel handle ?stop n st = Some (Inr (drop ?stop ?s))"
      using Suc.IH [OF stop(3)] Suc.prems(2) by simp
    moreover have "take (?stop - cursor) (drop cursor ?s) @ drop ?stop ?s = drop cursor ?s"
      using stop(1) append_take_drop_id [of "?stop - cursor" "drop cursor ?s"] by simp
    ultimately show ?thesis
      using assms le Suc.prems(1) True by (simp add: read_page_def Let_def max_page_bytes_def)
  next
    case False
    then show ?thesis
      using assms le Suc.prems(1) stop by (simp add: read_page_def Let_def max_page_bytes_def)
  qed
qed

subsection \<open>Handles\<close>

lemma numeric_id_handle [simp]: "i \<le> u64_max \<Longrightarrow> numeric_id (result_handle session i) = i"
proof -
  assume i: "i \<le> u64_max"
  have dash: "CHR ''-'' \<notin> set (decimal i)" by (rule decimal_no_char) (simp add: ascii_digit_def bv_def)
  have plus: "CHR ''+'' \<notin> set (decimal i)" by (rule decimal_no_char) (simp add: ascii_digit_def bv_def)
  have parse: "parse_u64 (decimal i) = Some i"
  proof (cases "decimal i")
    case (Cons c cs)
    with plus have "c \<noteq> CHR ''+''" by auto
    with Cons i decimal_digits [of i] decimal_value [of i] show ?thesis by (simp add: parse_u64_def)
  qed simp
  have "numeric_id (s @ CHR ''-'' # decimal i) = i" for s
    using rfind_sub_last [OF dash, of s] parse by (simp add: numeric_id_def)
  from this [of "''result''"] this [of "''result-'' @ sb_namespace (the session)"] show ?thesis
    by (cases session) (simp_all add: result_handle_def)
qed

subsection \<open>The invariant of the cache\<close>

definition content_bytes :: "'v stored_entry list \<Rightarrow> nat" where
  "content_bytes es = sum_list (map (\<lambda>e. length (se_content e)) es)"

definition entries_ok :: "'v result_state \<Rightarrow> bool" where
  "entries_ok st \<longleftrightarrow> rs_next_id st \<le> u64_max
    \<and> (\<forall>e \<in> set (rs_entries st). utf8 (se_content e) \<and> numeric_id (se_handle e) \<le> rs_next_id st)"

definition store_inv :: "'v result_state \<Rightarrow> bool" where
  "store_inv st \<longleftrightarrow> length (rs_entries st) \<le> max_results \<and> rs_total_bytes st = content_bytes (rs_entries st)
    \<and> rs_total_bytes st \<le> max_total_bytes \<and> entries_ok st"

lemma content_bytes_simps [simp]:
  "content_bytes [] = 0" "content_bytes (e # es) = length (se_content e) + content_bytes es"
  "content_bytes (es @ fs) = content_bytes es + content_bytes fs"
  by (simp_all add: content_bytes_def)

lemma trim_entries_drops: "\<exists>k. fst (trim_entries es n) = drop k es"
proof (induction es arbitrary: n)
  case (Cons e es)
  show ?case
  proof (cases "max_results < length (e # es) \<or> max_total_bytes < n")
    case True
    obtain k where "fst (trim_entries es (n - length (se_content e))) = drop k es" using Cons by blast
    with True show ?thesis by (subst trim_entries.simps) (auto intro: exI [of _ "Suc k"])
  next
    case False
    then show ?thesis by (subst trim_entries.simps) (auto intro: exI [of _ 0])
  qed
qed (subst trim_entries.simps, simp)

lemma trim_entries_result:
  assumes "trim_entries es n = (es', n')" and "n = content_bytes es"
  shows "length es' \<le> max_results \<and> n' = content_bytes es' \<and> n' \<le> max_total_bytes"
  using assms
proof (induction es arbitrary: n)
  case Nil
  then show ?case
    by (subst (asm) trim_entries.simps) (auto simp: max_results_def max_total_bytes_def)
next
  case (Cons e es)
  show ?case
  proof (cases "max_results < length (e # es) \<or> max_total_bytes < n")
    case True
    then have "trim_entries es (n - length (se_content e)) = (es', n')"
      using Cons.prems(1) by (subst (asm) trim_entries.simps) simp
    from Cons.IH [OF this] Cons.prems(2) show ?thesis by simp
  next
    case False
    then show ?thesis using Cons.prems by (subst (asm) trim_entries.simps) auto
  qed
qed

text \<open>Trimming never drops the newest result, whatever the counter says below the true sum.\<close>

lemma trim_entries_keeps_last:
  assumes "n \<le> content_bytes es + length (se_content e)" and "length (se_content e) \<le> max_total_bytes"
  shows "\<exists>k \<le> length es. fst (trim_entries (es @ [e]) n) = drop k es @ [e]"
  using assms(1)
proof (induction es arbitrary: n)
  case Nil
  then show ?case using assms(2) by (subst trim_entries.simps) (auto simp: max_results_def)
next
  case (Cons x es)
  show ?case
  proof (cases "max_results < length (x # es @ [e]) \<or> max_total_bytes < n")
    case True
    have "n - length (se_content x) \<le> content_bytes es + length (se_content e)" using Cons.prems by simp
    from Cons.IH [OF this] obtain k where "k \<le> length es"
      "fst (trim_entries (es @ [e]) (n - length (se_content x))) = drop k es @ [e]" by blast
    with True show ?thesis by (subst trim_entries.simps) (auto intro!: exI [of _ "Suc k"])
  next
    case False
    then show ?thesis by (subst trim_entries.simps) (auto intro!: exI [of _ 0])
  qed
qed

lemma trimmed_simps [simp]: "rs_next_id (trimmed st) = rs_next_id st"
    "rs_entries (trimmed st) = fst (trim_entries (rs_entries st) (rs_total_bytes st))"
    "rs_total_bytes (trimmed st) = snd (trim_entries (rs_entries st) (rs_total_bytes st))"
  by (simp_all add: trimmed_def split: prod.split)

lemma trimmed_inv:
  assumes "rs_total_bytes st = content_bytes (rs_entries st)" and "entries_ok st"
  shows "store_inv (trimmed st)"
proof -
  let ?t = "trim_entries (rs_entries st) (rs_total_bytes st)"
  have "length (fst ?t) \<le> max_results \<and> snd ?t = content_bytes (fst ?t) \<and> snd ?t \<le> max_total_bytes"
    by (rule trim_entries_result [OF prod.collapse [symmetric] assms(1)])
  moreover obtain k where "fst ?t = drop k (rs_entries st)" using trim_entries_drops by blast
  ultimately show ?thesis
    using assms(2) by (auto simp: store_inv_def entries_ok_def dest: in_set_dropD)
qed

lemma push_entry_simps [simp]: "rs_next_id (push_entry e st) = rs_next_id st"
    "rs_entries (push_entry e st) = rs_entries st @ [e]"
    "rs_total_bytes (push_entry e st) = sat_add (rs_total_bytes st) (length (se_content e))"
  by (simp_all add: push_entry_def)

subsection \<open>Storing\<close>

definition counted_state :: "'v result_state \<Rightarrow> 'v result_state" where
  "counted_state st = st\<lparr>rs_next_id := sat_add (rs_next_id st) 1\<rparr>"

definition new_entry ::
  "session_binding option \<Rightarrow> string \<Rightarrow> nat \<Rightarrow> bool \<Rightarrow> 'v option \<Rightarrow> 'v result_state \<Rightarrow> string option \<Rightarrow> 'v stored_entry" where
  "new_entry session given bytes tr meta st p =
    \<lparr>se_handle = result_handle session (sat_add (rs_next_id st) 1), se_content = retain_head_and_tail given max_result_bytes,
     se_sidecar_path = p, se_source_bytes = bytes, se_source_truncated = tr \<or> max_result_bytes < length given,
     se_metadata = meta\<rparr>"

definition answer_for :: "'v stored_entry \<Rightarrow> stored_result" where
  "answer_for e = \<lparr>sr_handle = se_handle e, sr_preview = retain_head_and_tail (se_content e) preview_bytes,
     sr_stored_bytes = length (se_content e), sr_source_bytes = se_source_bytes e,
     sr_source_truncated = se_source_truncated e\<rparr>"

lemma settles_remove [settle_rules]: "settles (remove_unreferenced_sidecars b es)"
  by (auto simp: remove_unreferenced_sidecars_def Let_def intro!: settle_rules)

lemma settles_persist [settle_rules]: "settles (persist_session_result js b e)"
  unfolding persist_session_result_def write_sidecar_def append_record_def Let_def
  by (auto intro!: settle_rules)

lemma removal_never_fails: "fst (remove_unreferenced_sidecars b es d) = Done ()"
proof -
  have ign: "fst (ignoring m s) = Done ()" if "settles m" for m :: "'b io" and s
    using that by (auto simp: ignoring_def act_simps settles_def split: prod.split outcome.split) (metis fst_conv)
  have for_ok: "fst (forA f xs s) = Done ()" if "\<And>x s. fst (f x s) = Done ()" for f :: "entry \<Rightarrow> unit io" and xs s
    using that
  proof (induction xs arbitrary: s)
    case (Cons x xs)
    obtain s1 where "f x s = (Done (), s1)" using Cons.prems by (metis prod.collapse)
    then show ?case using Cons by (simp add: act_simps)
  qed (simp add: act_simps)
  show ?thesis
    using settlesD [of "fs_read_dir (sb_output_dir b)" d]
    by (auto simp: remove_unreferenced_sidecars_def act_simps Let_def settle_rules split: prod.split outcome.split
        intro!: for_ok ign)
qed

lemma store_outcome:
  fixes st :: "'v result_state"
  assumes run: "store_with_metadata js session given bytes tr meta (st, d) = (r, (st', d'))"
  defines "new \<equiv> new_entry session given bytes tr meta st"
  shows "(\<exists>err b. r = Raised err \<and> st' = counted_state st \<and> session = Some b
      \<and> persist_session_result js b (new None) d = (Raised err, d')) \<or>
    (\<exists>p. r = Done (answer_for (new p)) \<and> st' = trimmed (push_entry (new p) (counted_state st)) \<and>
      (case session of None \<Rightarrow> p = None
       | Some b \<Rightarrow> \<exists>path d1. p = Some path \<and> persist_session_result js b (new None) d = (Done path, d1)
           \<and> remove_unreferenced_sidecars b (rs_entries st') d1 = (Done (), d')))"
proof (cases session)
  case None
  then show ?thesis
    using run by (auto simp: store_with_metadata_def Let_def act_simps sweep_def new_def new_entry_def answer_for_def
        counted_state_def)
next
  case (Some b)
  obtain q d1 where per: "persist_session_result js b (new None) d = (q, d1)" by fastforce
  have fine: "q \<noteq> Out_of_fuel" using settlesD [OF settles_persist] per by metis
  have rem: "\<exists>d2. remove_unreferenced_sidecars b es d1 = (Done (), d2)" for es :: "'v stored_entry list"
    using removal_never_fails [of b es d1] by (metis prod.collapse)
  show ?thesis
  proof (cases q)
    case (Done path)
    let ?st = "trimmed (push_entry (new (Some path)) (counted_state st))"
    obtain d2 where d2: "remove_unreferenced_sidecars b (rs_entries ?st) d1 = (Done (), d2)" using rem by blast
    show ?thesis
      using run per Some Done d2
      by (auto simp: store_with_metadata_def Let_def act_simps sweep_def on_disk_def new_def new_entry_def answer_for_def
          counted_state_def)
  next
    case (Raised err)
    then show ?thesis
      using run per Some
      by (auto simp: store_with_metadata_def Let_def act_simps sweep_def on_disk_def new_def new_entry_def answer_for_def
          counted_state_def)
  qed (use fine in simp)
qed

subsection \<open>The invariant through a session\<close>

text \<open>What the code relies on of \<open>serde_json\<close>: a written value reads back, on a line of its own.\<close>

definition value_laws :: "'v value_api \<Rightarrow> bool" where
  "value_laws js \<longleftrightarrow>
     (\<forall>v s. va_encode js v = Inr s \<longrightarrow> va_parse js s = Some v \<and> s \<noteq> [] \<and> newline_byte \<notin> set s)
   \<and> (\<forall>kvs k. distinct (map fst kvs) \<longrightarrow> va_get js (va_object js kvs) k = map_of kvs k)
   \<and> (\<forall>s. utf8 s \<longrightarrow> va_as_str js (va_str js s) = Some s)
   \<and> (\<forall>v s. va_as_str js v = Some s \<longrightarrow> utf8 s)
   \<and> (\<forall>n. n \<le> u64_max \<longrightarrow> va_as_u64 js (va_num js n) = Some n)
   \<and> (\<forall>t. va_as_bool js (va_bool js t) = Some t) \<and> va_is_null js (va_null js)"

definition load_inv :: "'v result_state \<Rightarrow> bool" where
  "load_inv st \<longleftrightarrow> rs_total_bytes st = min (content_bytes (rs_entries st)) u64_max \<and> entries_ok st"

lemma parse_u64_le: "parse_u64 s = Some n \<Longrightarrow> n \<le> u64_max"
  by (auto simp: parse_u64_def Let_def split: if_splits)

lemma numeric_id_le [simp]: "numeric_id h \<le> u64_max"
  using parse_u64_le by (auto simp: numeric_id_def split: option.split)

lemma load_content_utf8:
  "value_laws js \<Longrightarrow> load_content js b v h d = (Done (Some (c, p)), d') \<Longrightarrow> utf8 c"
  by (auto simp: load_content_def act_simps Let_def value_laws_def
      split: option.splits Option.bind_splits prod.splits outcome.splits if_splits)

lemma load_line_keeps:
  assumes "value_laws js"
  shows "keeps (\<lambda>x. load_inv (fst x)) (load_line js b line)"
proof (rule keepsI)
  fix x :: "'a result_state \<times> disk" and r x'
  assume inv: "load_inv (fst x)" and run: "load_line js b line x = (r, x')"
  obtain st d where x: "x = (st, d)" by fastforce
  show "load_inv (fst x')"
  proof (cases "result_handle_of js line")
    case (Some rh)
    obtain v h where rh: "rh = (v, h)" by fastforce
    obtain q d1 where load: "load_content js b v h d = (q, d1)" by fastforce
    show ?thesis
    proof (cases "\<exists>c. q = Done (Some c)")
      case True
      then obtain c p where q: "q = Done (Some (c, p))" by auto
      have "utf8 c" by (rule load_content_utf8 [OF assms load [unfolded q]])
      moreover have "x' = (push_entry (loaded_entry js v h (c, p)) (st\<lparr>rs_next_id := max (rs_next_id st) (numeric_id h)\<rparr>), d1)"
        using run x Some rh load q by (simp add: load_line_def act_simps on_disk_def)
      ultimately show ?thesis
        using inv x by (auto simp: load_inv_def entries_ok_def loaded_entry_def sat_add_def le_max_iff_disj)
    next
      case False
      then show ?thesis
        using run x Some rh load inv
        by (cases q) (auto simp: load_line_def act_simps on_disk_def split: option.splits)
    qed
  qed (use run inv in \<open>simp add: load_line_def act_simps\<close>)
qed

lemma load_session_keeps:
  "value_laws js \<Longrightarrow> keeps (\<lambda>x. load_inv (fst x)) (load_session_results js b)"
  unfolding load_session_results_def
  by (intro keeps_caseA keeps_forA load_line_keeps keeps_retA) (auto simp: keeps_def on_disk_def split: prod.splits)

lemma sweep_state: "sweep session (st, d) = (r, x') \<Longrightarrow> fst x' = st"
  by (auto simp: sweep_def act_simps on_disk_def split: option.splits prod.splits)

lemma settles_load_content [settle_rules]: "settles (load_content js b v h)"
  by (auto simp: load_content_def Let_def intro!: settle_rules)

lemma settles_load_line [settle_rules]: "settles (load_line js b l)"
  by (auto simp: load_line_def intro!: settle_rules)

lemma settles_load [settle_rules]: "settles (load_session_results js b)"
  by (auto simp: load_session_results_def intro!: settle_rules)

lemma load_content_never_raises: "\<exists>c d'. load_content js b v h d = (Done c, d')"
  by (auto simp: load_content_def act_simps Let_def settle_rules not_starved split: option.split outcome.split prod.split)

lemma load_line_never_raises: "fst (load_line js b l x) = Done ()"
proof (cases "result_handle_of js l")
  case (Some q)
  obtain v h where q: "q = (v, h)" by fastforce
  obtain st d where x: "x = (st, d)" by fastforce
  obtain c d' where "load_content js b v h d = (Done c, d')" using load_content_never_raises [of js b v h d] by auto
  then show ?thesis using Some q x by (cases c) (simp_all add: load_line_def act_simps on_disk_def)
qed (simp add: load_line_def act_simps)

lemma load_never_raises: "\<exists>st' d'. load_session_results js b (st, d) = (Done (), (st', d'))"
proof -
  have "fst (load_session_results js b (st, d)) = Done ()"
    by (auto simp: load_session_results_def act_simps on_disk_def settle_rules not_starved forA_never_raises
        load_line_never_raises split: prod.split outcome.split)
  then show ?thesis by (metis prod.collapse)
qed

lemma for_session_run:
  assumes "load_session_results js b (result_state_default, d) = (Done (), (st1, d1))"
  shows "\<exists>d2 d3. for_session js b (st, d) = (Done (), (trimmed st1, d3))
    \<and> remove_unreferenced_sidecars b (rs_entries (trimmed st1)) d1 = (Done (), d2)
    \<and> remove_unreferenced_sidecars b (rs_entries (trimmed st1)) d2 = (Done (), d3)"
proof -
  have rem: "\<exists>d'. remove_unreferenced_sidecars b es d = (Done (), d')" for es :: "'a stored_entry list" and d
    using removal_never_fails [of b es d] by (metis prod.collapse)
  obtain d2 where d2: "remove_unreferenced_sidecars b (rs_entries (trimmed st1)) d1 = (Done (), d2)" using rem by blast
  obtain d3 where d3: "remove_unreferenced_sidecars b (rs_entries (trimmed st1)) d2 = (Done (), d3)" using rem by blast
  show ?thesis
    using assms d2 d3
    by (simp add: for_session_def act_simps trim_to_limits_def sweep_def on_disk_def del: trimmed_simps)
qed

fun serve_results ::
  "'v value_api \<Rightarrow> session_binding option \<Rightarrow> (string \<times> nat \<times> bool \<times> 'v option) list
    \<Rightarrow> 'v result_state \<times> disk \<Rightarrow> 'v result_state \<times> disk" where
  "serve_results js session [] x = x"
| "serve_results js session ((given, bytes, tr, meta) # later) x =
    serve_results js session later (snd (store_with_metadata js session given bytes tr meta x))"

lemma store_keeps_inv:
  assumes run: "store_with_metadata js session given bytes tr meta (st, d) = (r, (st', d'))"
    and inv: "store_inv st" and given: "utf8 given"
  shows "store_inv st'"
  using store_outcome [OF run]
proof (elim disjE exE conjE)
  fix err b
  assume "st' = counted_state st"
  then show ?thesis
    using inv by (auto simp: store_inv_def entries_ok_def counted_state_def sat_add_def intro: le_trans)
next
  fix p
  let ?e = "new_entry session given bytes tr meta st p"
  assume st': "st' = trimmed (push_entry ?e (counted_state st))"
  have len: "length (se_content ?e) \<le> max_result_bytes"
    by (simp add: new_entry_def length_retain_head_and_tail max_result_bytes_def)
  have "sat_add (rs_total_bytes st) (length (se_content ?e)) = rs_total_bytes st + length (se_content ?e)"
    using inv len by (intro sat_add_eq) (simp add: store_inv_def max_total_bytes_def max_result_bytes_def u64_max_def)
  then show ?thesis
    unfolding st' using inv given
    by (intro trimmed_inv) (auto simp: store_inv_def entries_ok_def counted_state_def new_entry_def
        utf8_retain_head_and_tail sat_add_def intro: le_trans)
qed

lemma serve_keeps_inv:
  "store_inv (fst x) \<Longrightarrow> list_all (\<lambda>(given, _). utf8 given) reqs \<Longrightarrow> store_inv (fst (serve_results js session reqs x))"
proof (induction reqs arbitrary: x)
  case (Cons q reqs)
  obtain given bytes tr meta where q: "q = (given, bytes, tr, meta)" by (cases q)
  obtain st d where x: "x = (st, d)" by fastforce
  obtain r st' d' where run: "store_with_metadata js session given bytes tr meta (st, d) = (r, (st', d'))"
    by (metis prod.collapse)
  have "store_inv st'" using store_keeps_inv [OF run] Cons.prems q x by simp
  then show ?case using Cons q x run by simp
qed simp

subsection \<open>Results on the disk\<close>

lemma file_at_ensure_dir [simp]: "file_at (ensure_dir q d) p = file_at d p"
  by (simp add: ensure_dir_def file_at_def)

lemma file_at_fold_ensure: "file_at (fold ensure_dir qs d) p = file_at d p"
  by (induction qs arbitrary: d) simp_all

lemma create_dir_files: "wp (fs_create_dir_all q) (\<lambda>r d'. file_at d' p = file_at d p) d"
  by (simp add: fs_create_dir_all_def wp_simps file_at_fold_ensure split: option.split)

lemma node_of_file: "file_at d p = Some s \<longleftrightarrow> node_at d p = Some (File_Node s)"
  by (simp add: file_at_def file_of_Some_iff)

lemma write_sidecar_files:
  assumes "with_tmp_extension side \<noteq> side" and "write_sidecar side content d = (Done (), d')"
  shows "file_at d' side = Some content \<and> (\<forall>q. q \<noteq> side \<longrightarrow> q \<noteq> with_tmp_extension side \<longrightarrow> file_at d' q = file_at d q)"
  using assms by (auto simp: write_sidecar_def Let_def done_simps)

lemma append_record_files:
  assumes "append_record js path e d = (Done (), d')"
  shows "\<exists>c0 now encoded. file_at d path = Some c0
    \<and> va_encode js (result_record js e now (next_seq js c0)) = Inr encoded \<and> now = dk_clock d (Suc (dk_tick d))
    \<and> file_at d' path = Some (c0 @ encoded @ [newline_byte]) \<and> (\<forall>q. q \<noteq> path \<longrightarrow> file_at d' q = file_at d q)"
  using assms by (auto simp: append_record_def done_simps split: if_splits)

lemma tmp_extension: "\<exists>p. side = p @ ''.txt'' \<Longrightarrow> with_tmp_extension side \<noteq> side \<and> (\<exists>p. side = p @ ''.txt'' \<and> with_tmp_extension side = p @ ''.tmp'')"
  using rfind_sub_last [of "CHR ''.''" "''txt''"] by (auto simp: with_tmp_extension_def)

lemma sidecar_path_of_handle:
  "session_sidecar_path dir ns handle = Some p \<Longrightarrow> p = join_path dir (handle @ ''.txt'')"
  by (auto simp: session_sidecar_path_def split: option.splits if_splits)

lemma sidecar_path_defined [simp]:
  "session_sidecar_path dir (sb_namespace b) (result_handle (Some b) i) = Some (join_path dir (result_handle (Some b) i @ ''.txt''))"
  using decimal_digits [of i] strip_prefix_append [of "''result-'' @ sb_namespace b @ ''-''" "decimal i"]
  by (simp add: session_sidecar_path_def result_handle_def)

definition outside :: "session_binding \<Rightarrow> bool" where
  "outside b \<longleftrightarrow> \<not> starts_with (sb_output_dir b @ ''/'') (sb_path b)"

lemma not_below_join: "outside b \<Longrightarrow> sb_path b \<noteq> join_path (sb_output_dir b) n"
  by (auto simp: outside_def join_path_def starts_with_iff)

lemma persist_files:
  assumes out: "outside b" and handle: "se_handle e = result_handle (Some b) i"
    and run: "persist_session_result js b e d = (Done path, d')"
  shows "path = join_path (sb_output_dir b) (se_handle e @ ''.txt'') \<and> file_at d' path = Some (se_content e)
    \<and> (\<exists>c0 now encoded. file_at d (sb_path b) = Some c0
        \<and> va_encode js (result_record js e now (next_seq js c0)) = Inr encoded
        \<and> file_at d' (sb_path b) = Some (c0 @ encoded @ [newline_byte]))"
proof -
  let ?side = "join_path (sb_output_dir b) (se_handle e @ ''.txt'')"
  have ext: "with_tmp_extension ?side \<noteq> ?side" "sb_path b \<noteq> ?side" "sb_path b \<noteq> with_tmp_extension ?side"
  proof -
    obtain p where p: "?side = p @ ''.txt''" "with_tmp_extension ?side = p @ ''.tmp''" "with_tmp_extension ?side \<noteq> ?side"
      using tmp_extension [of ?side] by (auto simp: join_path_def)
    then have "p = join_path (sb_output_dir b) (se_handle e)" by (simp add: join_path_def)
    then have "with_tmp_extension ?side = join_path (sb_output_dir b) (se_handle e @ ''.tmp'')"
      using p by (simp add: join_path_def)
    then show "with_tmp_extension ?side \<noteq> ?side" "sb_path b \<noteq> ?side" "sb_path b \<noteq> with_tmp_extension ?side"
      using p(3) not_below_join [OF out] by metis+
  qed
  obtain d1 where d1: "fs_create_dir_all (sb_output_dir b) d = (Done (), d1)"
    using run by (auto simp: persist_session_result_def act_simps split: prod.splits outcome.splits)
  obtain d2 where d2: "write_sidecar ?side (se_content e) d1 = (Done (), d2)"
    using run d1 by (auto simp: persist_session_result_def act_simps handle split: prod.splits outcome.splits)
  obtain d3 where d3: "append_record js (sb_path b) e d2 = (Done (), d3)" "path = ?side" "d' = d3"
    using run d1 d2 by (auto simp: persist_session_result_def act_simps handle split: prod.splits outcome.splits)
  have f1: "file_at d1 p = file_at d p" for p using wpD [OF create_dir_files d1] .
  have f2: "file_at d2 ?side = Some (se_content e)" "file_at d2 (sb_path b) = file_at d1 (sb_path b)"
    using write_sidecar_files [OF _ d2] ext by auto
  show ?thesis
    using append_record_files [OF d3(1)] f1 f2 d3 ext by auto
qed

lemma forA_frame:
  assumes "\<And>x d. x \<in> set xs \<Longrightarrow> file_at (snd (f x d)) p = file_at d p"
  shows "file_at (snd (forA f xs d)) p = file_at d p"
  using assms
proof (induction xs arbitrary: d)
  case (Cons x xs)
  have "file_at (snd (f x d)) p = file_at d p" by (simp add: Cons.prems)
  moreover have "file_at (snd (forA f xs d1)) p = file_at d1 p" for d1 using Cons by simp
  ultimately show ?case by (cases "f x d"; cases "fst (f x d)") (auto simp: act_simps)
qed (simp add: act_simps)

lemma removal_files:
  assumes "\<not> starts_with (sb_output_dir b @ ''/'') p \<or> Some p \<in> se_sidecar_path ` set es"
  shows "file_at (snd (remove_unreferenced_sidecars b es d)) p = file_at d p"
proof -
  let ?f = "\<lambda>e. let path = join_path (sb_output_dir b) (entry_name e) in
    if Some path \<in> se_sidecar_path ` set es then retA () else ignoring (fs_remove_file path) :: unit io"
  have rem: "wp (ignoring (fs_remove_file q)) (\<lambda>r d'. p \<noteq> q \<longrightarrow> file_at d' p = file_at d p) d" for q d
    by (simp add: fs_calls wp_simps split: option.split node.split)
  have "file_at (snd (?f e d)) p = file_at d p" for e d
    using assms wpD [OF rem prod.collapse [symmetric], of "join_path (sb_output_dir b) (entry_name e)"]
    by (auto simp: Let_def act_simps join_path_def starts_with_iff)
  then have loop: "file_at (snd (forA ?f xs d)) p = file_at d p" for xs d by (intro forA_frame)
  have read: "wp (fs_read_dir q) (\<lambda>r d'. file_at d' p = file_at d p) d" for q
    by (simp add: fs_read_dir_def wp_simps split: option.split node.split)
  show ?thesis
    using loop wpD [OF read prod.collapse [symmetric]]
    by (auto simp: remove_unreferenced_sidecars_def act_simps split: prod.split outcome.split) (metis snd_conv)+
qed

subsection \<open>Opening the session again\<close>

lemma utf8_result_handle: "utf8 (sb_namespace b) \<Longrightarrow> utf8 (result_handle (Some b) n)"
proof -
  assume ns: "utf8 (sb_namespace b)"
  have "utf8 ''result-''" "utf8 ''-''" by (rule utf8_ascii, simp add: bv_def)+
  then have "utf8 (''result-'' @ sb_namespace b @ ''-'' @ decimal n)" by (intro utf8_append ns utf8_decimal)
  then show ?thesis by (simp add: result_handle_def)
qed

lemma file_lines_append:
  assumes "c0 = [] \<or> last c0 = newline_byte" and "newline_byte \<notin> set l" and "l \<noteq> []"
  shows "file_lines (c0 @ l @ [newline_byte]) = file_lines c0 @ [l]"
proof -
  have l: "split_on newline_byte (l @ [newline_byte]) = [l, []]"
    using split_on_append [of newline_byte l "[]"] by (simp add: split_on_absent assms(2))
  show ?thesis
  proof (cases "c0 = []")
    case False
    then obtain c1 where c1: "c0 = c1 @ [newline_byte]" using assms(1) by (metis append_butlast_last_id)
    have "split_on newline_byte (c1 @ newline_byte # l @ [newline_byte]) = split_on newline_byte c1 @ [l, []]"
      "split_on newline_byte (c1 @ [newline_byte]) = split_on newline_byte c1 @ [[]]"
      using split_on_append [of newline_byte c1 "l @ [newline_byte]"] split_on_append [of newline_byte c1 "[]"] l by simp_all
    then show ?thesis using assms(3) c1 by (simp add: file_lines_def)
  qed (simp add: file_lines_def l assms(3))
qed

lemma forA_append: "forA f (xs @ ys) s = seqA (forA f xs) (forA f ys) s"
  by (induction xs arbitrary: s) (auto simp: act_simps split: prod.split outcome.split)

lemma keeps_quiet:
  "keeps (\<lambda>d. node_at d = N \<and> calm d) (load_content js b v h)"
proof -
  have tick: "keeps (\<lambda>d. node_at d = N \<and> calm d) tick"
    by (auto simp: keeps_def tick_def act_simps fun_eq_iff)
  have read: "keeps (\<lambda>d. node_at d = N \<and> calm d) (with_file p m)"
    if "\<And>s. keeps (\<lambda>d. node_at d = N \<and> calm d) (m s)" for p and m :: "string \<Rightarrow> 'x io"
    unfolding with_file_def
  proof (intro keeps_bindA keeps_getA)
    fix n
    show "keeps (\<lambda>d. node_at d = N \<and> calm d) (case n of None \<Rightarrow> raiseA not_found | Some (File_Node s) \<Rightarrow> m s | Some _ \<Rightarrow> raiseA not_a_file)"
      using that by (auto simp: keeps_raiseA split: option.split node.split)
  qed
  show ?thesis
    unfolding load_content_def fs_open_def fs_read_bytes_def unless_fault_def Let_def
    by (intro keeps_option keeps_caseA keeps_retA keeps_raiseA keeps_bindA tick read keeps_if)
qed

lemma load_line_quiet: "keeps (\<lambda>x. node_at (snd x) = N \<and> calm (snd x)) (load_line js b l)"
proof (rule keepsI)
  fix x r x'
  assume P: "node_at (snd x) = N \<and> calm (snd x)" and run: "load_line js b l x = (r, x')"
  obtain st d where x: "x = (st, d)" by fastforce
  show "node_at (snd x') = N \<and> calm (snd x')"
  proof (cases "result_handle_of js l")
    case (Some q)
    obtain v h where q: "q = (v, h)" by fastforce
    obtain c d1 where load: "load_content js b v h d = (Done c, d1)" using load_content_never_raises [of js b v h d] by auto
    have "node_at d1 = N \<and> calm d1" using keepsD [OF keeps_quiet _ load] P x by simp
    then show ?thesis using run Some q x load by (cases c) (auto simp: load_line_def act_simps on_disk_def)
  qed (use run P in \<open>simp add: load_line_def act_simps\<close>)
qed

lemma load_line_written:
  assumes laws: "value_laws js" and calm: "calm d" and side: "file_at d (join_path (sb_output_dir b) (se_handle e @ ''.txt'')) = Some (se_content e)"
    and enc: "va_encode js (result_record js e now seq) = Inr l" and handle: "se_handle e = result_handle (Some b) i"
    and ns: "utf8 (sb_namespace b)" and small: "utf8 (se_content e)" "length (se_content e) \<le> max_result_bytes"
    and bytes: "se_source_bytes e \<le> u64_max" and meta: "case se_metadata e of None \<Rightarrow> True | Some m \<Rightarrow> \<not> va_is_null js m"
  shows "\<exists>d'. load_line js b l (st, d) = (Done (), (push_entry (e\<lparr>se_sidecar_path := Some (join_path (sb_output_dir b) (se_handle e @ ''.txt''))\<rparr>)
    (st\<lparr>rs_next_id := max (rs_next_id st) (numeric_id (se_handle e))\<rparr>), d'))"
proof -
  let ?rec = "result_record js e now seq"
  have parse: "va_parse js l = Some ?rec" using laws enc by (auto simp: value_laws_def)
  have get: "va_get js (va_object js kvs) k = map_of kvs k" if "distinct (map fst kvs)" for kvs k
    using laws that by (simp add: value_laws_def)
  have str: "utf8 s \<Longrightarrow> va_as_str js (va_str js s) = Some s" for s using laws by (simp add: value_laws_def)
  have kind: "utf8 ''result_stored''" by (rule utf8_ascii) (simp add: bv_def)
  have h: "utf8 (se_handle e)" using utf8_result_handle [OF ns] handle by simp
  have found: "result_handle_of js l = Some (?rec, se_handle e)"
    using parse str [OF kind] str [OF h] by (simp add: result_handle_of_def result_record_def get)
  have "load_content js b ?rec (se_handle e) d = (Done (Some (se_content e,
      Some (join_path (sb_output_dir b) (se_handle e @ ''.txt'')))), ticked (ticked d))"
    using side small handle calm [unfolded calm_def]
    by (simp add: load_content_def result_record_def get done_simps Let_def node_of_file)
  moreover have "loaded_entry js ?rec (se_handle e) (se_content e, p) = e\<lparr>se_sidecar_path := p\<rparr>" for p
    using laws bytes meta by (cases e; cases "se_metadata e") (auto simp: loaded_entry_def result_record_def get value_laws_def)
  ultimately show ?thesis using found by (simp add: load_line_def act_simps on_disk_def)
qed

lemma reopened_store:
  assumes laws: "value_laws js" and calm: "calm d" and side: "file_at d (join_path (sb_output_dir b) (se_handle e @ ''.txt'')) = Some (se_content e)"
    and enc: "va_encode js (result_record js e now seq) = Inr l" and handle: "se_handle e = result_handle (Some b) i"
    and ns: "utf8 (sb_namespace b)" and small: "utf8 (se_content e)" "length (se_content e) \<le> max_result_bytes"
    and bytes: "se_source_bytes e \<le> u64_max" and meta: "case se_metadata e of None \<Rightarrow> True | Some m \<Rightarrow> \<not> va_is_null js m"
    and session: "file_at d (sb_path b) = Some (c0 @ l @ [newline_byte])" and ends: "c0 = [] \<or> last c0 = newline_byte"
  shows "\<exists>es st' d'. for_session js b (st, d) = (Done (), (st', d')) \<and> rs_entries st' =
    es @ [e\<lparr>se_sidecar_path := Some (join_path (sb_output_dir b) (se_handle e @ ''.txt''))\<rparr>]"
proof -
  let ?e = "e\<lparr>se_sidecar_path := Some (join_path (sb_output_dir b) (se_handle e @ ''.txt''))\<rparr>"
  have line: "newline_byte \<notin> set l" "l \<noteq> []" using laws enc by (auto simp: value_laws_def)
  have read: "fs_read_bytes (sb_path b) d = (Done (c0 @ l @ [newline_byte]), ticked d)"
    using session calm by (simp add: fs_read_bytes_def unless_fault_def tick_def with_file_def act_simps node_of_file)
  obtain st0 d0 where run0: "forA (load_line js b) (file_lines c0) (result_state_default, ticked d) = (Done (), (st0, d0))"
    using forA_never_raises [of "load_line js b" "file_lines c0" "(result_state_default, ticked d)"] load_line_never_raises
    by (metis prod.collapse)
  have quiet: "node_at d0 = node_at d \<and> calm d0"
    using keepsD [OF keeps_forA [OF load_line_quiet] _ run0, of "node_at d"] calm by (auto simp: fun_eq_iff)
  have inv: "load_inv st0"
    using keepsD [OF keeps_forA [OF load_line_keeps [OF laws]] _ run0]
    by (simp add: load_inv_def entries_ok_def result_state_default_def)
  have side0: "file_at d0 (join_path (sb_output_dir b) (se_handle e @ ''.txt'')) = Some (se_content e)"
    using side quiet by (simp add: file_at_def)
  obtain d1 where "load_line js b l (st0, d0) = (Done (), (push_entry ?e
      (st0\<lparr>rs_next_id := max (rs_next_id st0) (numeric_id (se_handle e))\<rparr>), d1))"
    using load_line_written [OF laws _ side0 enc handle ns small bytes meta] quiet by blast
  then have load: "load_session_results js b (result_state_default, d) = (Done (), (push_entry ?e
      (st0\<lparr>rs_next_id := max (rs_next_id st0) (numeric_id (se_handle e))\<rparr>), d1))"
    using run0 read by (simp add: load_session_results_def act_simps on_disk_def file_lines_append [OF ends line] forA_append)
  have "sat_add (rs_total_bytes st0) (length (se_content ?e)) \<le> content_bytes (rs_entries st0) + length (se_content ?e)"
    using inv by (simp add: load_inv_def sat_add_def)
  moreover have "length (se_content ?e) \<le> max_total_bytes" using small(2) by (simp add: max_total_bytes_def max_result_bytes_def)
  ultimately obtain k where "fst (trim_entries (rs_entries st0 @ [?e]) (sat_add (rs_total_bytes st0) (length (se_content ?e)))) = drop k (rs_entries st0) @ [?e]"
    using trim_entries_keeps_last by blast
  then show ?thesis using for_session_run [OF load, of st] by auto
qed

subsection \<open>The properties\<close>

lemma retained_props:
  "utf8 given \<Longrightarrow> utf8 (retain_head_and_tail given max_result_bytes) \<and> length (retain_head_and_tail given max_result_bytes) \<le> max_result_bytes"
  by (simp add: utf8_retain_head_and_tail length_retain_head_and_tail max_result_bytes_def)

lemma pushed_entry_last:
  assumes "store_inv st"
  shows "\<exists>k. rs_entries (trimmed (push_entry (new_entry session given bytes tr meta st p) (counted_state st)))
    = drop k (rs_entries st) @ [new_entry session given bytes tr meta st p]"
proof -
  let ?e = "new_entry session given bytes tr meta st p"
  have "length (se_content ?e) \<le> max_result_bytes"
    by (simp add: new_entry_def length_retain_head_and_tail max_result_bytes_def)
  then have "length (se_content ?e) \<le> max_total_bytes" by (simp add: max_total_bytes_def max_result_bytes_def)
  moreover have "sat_add (rs_total_bytes st) (length (se_content ?e)) \<le> content_bytes (rs_entries st) + length (se_content ?e)"
    using assms by (simp add: store_inv_def sat_add_def)
  ultimately show ?thesis
    using trim_entries_keeps_last [of _ "rs_entries st" ?e] by (auto simp: counted_state_def)
qed

lemma find_append_None: "find q xs = None \<Longrightarrow> find q (xs @ ys) = find q ys"
  by (induction xs) (auto split: if_splits)

lemma stored_entry_found:
  assumes run: "store_with_metadata js session given bytes tr meta (st, d) = (Done r, (st', d'))"
    and inv: "store_inv st" and room: "rs_next_id st < u64_max"
  shows "\<exists>p. find (\<lambda>e. se_handle e = sr_handle r) (rs_entries st') = Some (new_entry session given bytes tr meta st p)
    \<and> r = answer_for (new_entry session given bytes tr meta st p)"
proof -
  obtain p where r: "r = answer_for (new_entry session given bytes tr meta st p)"
    and st': "st' = trimmed (push_entry (new_entry session given bytes tr meta st p) (counted_state st))"
    using store_outcome [OF run] by auto
  let ?e = "new_entry session given bytes tr meta st p"
  have suc: "sat_add (rs_next_id st) 1 = Suc (rs_next_id st)" using room by (simp add: sat_add_def)
  obtain k where k: "rs_entries st' = drop k (rs_entries st) @ [?e]"
    using pushed_entry_last [OF inv] unfolding st' by blast
  have "se_handle e \<noteq> se_handle ?e" if "e \<in> set (drop k (rs_entries st))" for e
  proof
    assume "se_handle e = se_handle ?e"
    then have "numeric_id (se_handle e) = Suc (rs_next_id st)" using room suc by (simp add: new_entry_def)
    moreover have "numeric_id (se_handle e) \<le> rs_next_id st"
      using inv that by (auto simp: store_inv_def entries_ok_def dest: in_set_dropD)
    ultimately show False by simp
  qed
  then have "find (\<lambda>e. se_handle e = se_handle ?e) (drop k (rs_entries st)) = None"
    by (auto simp: find_None_iff)
  then have "find (\<lambda>e. se_handle e = se_handle ?e) (rs_entries st') = Some ?e"
    by (simp add: k find_append_None)
  then show ?thesis using r by (auto simp: answer_for_def)
qed

lemma retain_short: "length s \<le> n \<Longrightarrow> retain_head_and_tail s n = s"
  by (simp add: retain_head_and_tail_def)

lemma stored_text_pages:
  assumes "store_with_metadata js session given bytes tr meta (st, d) = (Done r, (st', d'))"
    and "store_inv st" and "rs_next_id st < u64_max" and "utf8 given"
    and "4 \<le> n" and "n \<le> max_page_bytes"
  shows "read_on (Suc (sr_stored_bytes r)) (sr_handle r) 0 n st' = Some (Inr (retain_head_and_tail given max_result_bytes))
    \<and> sr_stored_bytes r = length (retain_head_and_tail given max_result_bytes)
    \<and> sr_source_truncated r = (tr \<or> max_result_bytes < length given)
    \<and> sr_handle r = result_handle session (Suc (rs_next_id st))
    \<and> sr_preview r = retain_head_and_tail (retain_head_and_tail given max_result_bytes) preview_bytes"
proof -
  obtain p where found: "find (\<lambda>e. se_handle e = sr_handle r) (rs_entries st') = Some (new_entry session given bytes tr meta st p)"
    and r: "r = answer_for (new_entry session given bytes tr meta st p)"
    using stored_entry_found [OF assms(1-3)] by blast
  note t = retained_props [OF assms(4)]
  have "length (se_content (new_entry session given bytes tr meta st p)) + n \<le> u64_max"
    using t assms(6) by (simp add: new_entry_def max_result_bytes_def max_page_bytes_def u64_max_def)
  from read_on_from [OF found _ assms(5,6) this, of 0 "Suc (sr_stored_bytes r)"] t assms(3)
  show ?thesis by (simp add: r new_entry_def answer_for_def sat_add_def)
qed

text \<open>
  A stored result reads back: as soon as a store succeeds, a reader that starts at cursor 0 and
  follows \<open>next_cursor\<close> with pages of at least four bytes gets the retained text, complete and in
  order, within one page per byte.  The retained text is the text given, or, above the bound of one
  result, a valid head-and-tail excerpt within the bound that the answer marks as truncated.
\<close>

theorem stored_result_reads_back:
  assumes "store_with_metadata js session given bytes tr meta (st, d) = (Done r, (st', d'))"
    and "store_inv st" and "rs_next_id st < u64_max" and "utf8 given"
    and "4 \<le> n" and "n \<le> max_page_bytes"
  shows "\<exists>t. read_on (Suc (sr_stored_bytes r)) (sr_handle r) 0 n st' = Some (Inr t) \<and> length t = sr_stored_bytes r
    \<and> (if length given \<le> max_result_bytes then t = given
       else sr_source_truncated r \<and> utf8 t \<and> length t \<le> max_result_bytes)"
  using stored_text_pages [OF assms] retained_props [OF assms(4)] retain_short [of given max_result_bytes]
  by (intro exI [of _ "retain_head_and_tail given max_result_bytes"]) (auto simp del: read_on.simps)

text \<open>
  The cache stays within its bounds: opened on whatever the disk holds and then given any
  sequence of results, each stored or refused, it never holds more than eight results or sixteen
  mebibytes, counts its bytes exactly, holds valid text only and knows no handle from the future.
\<close>

theorem results_stay_within_bounds:
  fixes js :: "'v value_api"
  assumes "value_laws js"
    and "content_bytes (rs_entries (fst (snd (load_session_results js b (result_state_default, d))))) \<le> u64_max"
    and "list_all (\<lambda>(given, _). utf8 given) reqs"
  shows "store_inv (fst (serve_results js (Some b) reqs (snd (for_session js b (st0, d)))))"
proof (rule serve_keeps_inv [OF _ assms(3)])
  obtain st1 d1 where load: "load_session_results js b (result_state_default, d) = (Done (), (st1, d1))"
    using load_never_raises by blast
  have "load_inv (fst (st1, d1))"
    by (rule keepsD [OF load_session_keeps [OF assms(1)] _ load])
      (simp add: load_inv_def entries_ok_def result_state_default_def)
  then have "store_inv (trimmed st1)"
    using assms(2) load by (intro trimmed_inv) (simp_all add: load_inv_def)
  then show "store_inv (fst (snd (for_session js b (st0, d))))"
    using for_session_run [OF load, of st0] by auto
qed

text \<open>
  C13.  A result the store accepted for a session survives a restart that follows it: provided the
  session file was empty or ended in a complete line before the store, opening the session on the
  disk the store left, with no file error while it is read, finds the same text, sizes and metadata
  under the same handle, as the newest result, even if the cache has to drop older ones.  After a
  torn last line the record of the result is not readable and the result is lost, although the
  store accepts it (\<open>result_after_torn_tail_is_lost\<close> below).
\<close>

theorem stored_result_survives_restart:
  fixes js :: "'v value_api"
  assumes run: "store_with_metadata js (Some b) given bytes tr meta (st, d) = (Done r, (st', d'))"
    and inv: "store_inv st" and laws: "value_laws js" and calm: "calm d'" and out: "outside b" and ns: "utf8 (sb_namespace b)"
    and session: "file_at d (sb_path b) = Some c0" and ends: "c0 = [] \<or> last c0 = newline_byte"
    and given: "utf8 given" and small: "bytes \<le> u64_max"
    and meta: "case meta of None \<Rightarrow> True | Some m \<Rightarrow> \<not> va_is_null js m"
  shows "\<exists>es e st2 d2. for_session js b (st0, d') = (Done (), (st2, d2)) \<and> rs_entries st2 = es @ [e]
    \<and> se_handle e = sr_handle r \<and> se_content e = retain_head_and_tail given max_result_bytes
    \<and> se_source_bytes e = bytes \<and> se_source_truncated e = sr_source_truncated r \<and> se_metadata e = meta"
proof -
  let ?new = "new_entry (Some b) given bytes tr meta st"
  obtain path d1 where r: "r = answer_for (?new (Some path))"
    and st': "st' = trimmed (push_entry (?new (Some path)) (counted_state st))"
    and per: "persist_session_result js b (?new None) d = (Done path, d1)"
    and rem: "remove_unreferenced_sidecars b (rs_entries st') d1 = (Done (), d')"
    using store_outcome [OF run] by auto
  let ?e = "?new None"
  have handle: "se_handle ?e = result_handle (Some b) (sat_add (rs_next_id st) 1)" by (simp add: new_entry_def)
  obtain now encoded where p: "path = join_path (sb_output_dir b) (se_handle ?e @ ''.txt'')" "file_at d1 path = Some (se_content ?e)"
    "va_encode js (result_record js ?e now (next_seq js c0)) = Inr encoded"
    "file_at d1 (sb_path b) = Some (c0 @ encoded @ [newline_byte])"
    using persist_files [OF out handle per] session by auto
  have frame: "file_at d' q = file_at d1 q" if "\<not> starts_with (sb_output_dir b @ ''/'') q \<or> Some q \<in> se_sidecar_path ` set (rs_entries st')" for q
    using removal_files [OF that] rem by (metis snd_conv)
  obtain k where "rs_entries st' = drop k (rs_entries st) @ [?new (Some path)]"
    using pushed_entry_last [OF inv] unfolding st' by blast
  then have "Some path \<in> se_sidecar_path ` set (rs_entries st')" by (simp add: new_entry_def)
  then have side: "file_at d' (join_path (sb_output_dir b) (se_handle ?e @ ''.txt'')) = Some (se_content ?e)"
    using frame p by simp
  have file': "file_at d' (sb_path b) = Some (c0 @ encoded @ [newline_byte])"
    using frame p(4) out by (simp add: outside_def)
  have e: "utf8 (se_content ?e)" "length (se_content ?e) \<le> max_result_bytes" "se_source_bytes ?e \<le> u64_max"
    "case se_metadata ?e of None \<Rightarrow> True | Some m \<Rightarrow> \<not> va_is_null js m"
    using retained_props [OF given] small meta by (simp_all add: new_entry_def)
  show ?thesis
    using reopened_store [OF laws calm side p(3) handle ns e file' ends, of st0]
    by (auto simp: r new_entry_def answer_for_def)
qed

text \<open>
  A store that fails changes no result: the cache keeps its entries and its byte count, so every
  page of every handle reads as before, and only the number of the failed attempt is used up.
\<close>

theorem failed_store_changes_nothing:
  assumes "store_with_metadata js session given bytes tr meta (st, d) = (x, (st', d'))" and "\<forall>r. x \<noteq> Done r"
  shows "(\<exists>err. x = Raised err) \<and> session \<noteq> None \<and> rs_entries st' = rs_entries st
    \<and> rs_total_bytes st' = rs_total_bytes st \<and> rs_next_id st' = sat_add (rs_next_id st) 1
    \<and> (\<forall>handle cursor n. read_page handle cursor n st' = read_page handle cursor n st)"
proof -
  obtain err where "x = Raised err" "st' = counted_state st" "session \<noteq> None" using store_outcome [OF assms(1)] assms(2) by auto
  then show ?thesis by (simp add: counted_state_def read_page_def)
qed

text \<open>
  A page of fewer than four bytes may hold no character at all: the store then answers with an
  empty page and the cursor it was given, so a reader that follows the cursor never gets further.
\<close>

theorem short_pages_never_advance:
  assumes "find (\<lambda>e. se_handle e = handle) (rs_entries st) = Some e" and "is_char_boundary (se_content e) cursor"
    and "cursor + n < length (se_content e)" and "\<forall>j. cursor < j \<and> j \<le> cursor + n \<longrightarrow> \<not> is_char_boundary (se_content e) j"
    and "0 < n" and "n \<le> max_page_bytes" and "length (se_content e) \<le> u64_max"
  shows "read_on fuel handle cursor n st = None"
proof (induction fuel)
  case (Suc fuel)
  have "floor_char_boundary (se_content e) (cursor + n) = cursor"
    using floor_char_boundary_le [of "se_content e" "cursor + n"] floor_char_boundary_boundary [of "se_content e" "cursor + n"]
      floor_char_boundary_greatest [OF assms(2), of "cursor + n"] assms(4)
    by (metis le_add1 le_neq_implies_less)
  then have "page_end (se_content e) cursor n = cursor"
    using assms by (simp add: page_end_def sat_add_eq)
  then show ?case
    using Suc assms by (simp add: read_page_def Let_def)
qed simp

subsection \<open>At concrete inputs\<close>

text \<open>JSON values that encode one record and refuse every other.\<close>

datatype jv = J_Null | J_Bool bool | J_Num nat | J_Str string | J_Obj "(string \<times> jv) list"

definition sample_api :: "jv \<Rightarrow> jv value_api" where
  "sample_api v0 = \<lparr>va_parse = (\<lambda>s. if s = ''R'' then Some v0 else None),
     va_encode = (\<lambda>v. if v = v0 then Inr ''R'' else Inl ''unsupported''),
     va_get = (\<lambda>v k. case v of J_Obj kvs \<Rightarrow> map_of kvs k | _ \<Rightarrow> None),
     va_as_str = (\<lambda>v. case v of J_Str s \<Rightarrow> if utf8 s then Some s else None | _ \<Rightarrow> None),
     va_as_u64 = (\<lambda>v. case v of J_Num n \<Rightarrow> Some n | _ \<Rightarrow> None),
     va_as_bool = (\<lambda>v. case v of J_Bool b \<Rightarrow> Some b | _ \<Rightarrow> None),
     va_is_null = (\<lambda>v. v = J_Null), va_object = J_Obj, va_str = J_Str, va_num = J_Num, va_bool = J_Bool, va_null = J_Null\<rparr>"

lemma sample_api_laws: "value_laws (sample_api v0)"
  by (auto simp: value_laws_def sample_api_def newline_byte_def split: jv.splits if_splits)

definition sample_binding :: session_binding where
  "sample_binding = \<lparr>sb_path = ''s'', sb_output_dir = ''t'', sb_namespace = ''a''\<rparr>"

definition sample_record :: jv where
  "sample_record = J_Obj [(''kind'', J_Str ''result_stored''), (''handle'', J_Str ''result-a-1''),
     (''storage'', J_Str ''sidecar''), (''source_bytes'', J_Num 5), (''source_truncated'', J_Bool False),
     (''metadata'', J_Null), (''timestamp_ms'', J_Num 7), (''seq'', J_Num 1)]"

definition sample_disk :: "(nat \<Rightarrow> fault option) \<Rightarrow> disk" where
  "sample_disk faults = \<lparr>dk_nodes = [(''s'', File_Node [])], dk_fault = faults, dk_clock = (\<lambda>_. 7), dk_tick = 0\<rparr>"

definition sample_store :: "(nat \<Rightarrow> fault option) \<Rightarrow> (string, stored_result) outcome \<times> jv result_state \<times> disk" where
  "sample_store faults = store_with_metadata (sample_api sample_record) (Some sample_binding) ''hello'' 5 False None
     (result_state_default, sample_disk faults)"

definition no_faults :: "nat \<Rightarrow> fault option" where
  "no_faults t = None"

definition torn_rename :: "nat \<Rightarrow> fault option" where
  "torn_rename t = (if t = 5 then Some \<lparr>ft_error = io_error Io_Other ''disk full'', ft_leftover = None, ft_removed = []\<rparr> else None)"

definition sample_entry :: "jv stored_entry" where
  "sample_entry = \<lparr>se_handle = ''result-a-1'', se_content = ''hello'', se_sidecar_path = None, se_source_bytes = 5,
     se_source_truncated = False, se_metadata = None\<rparr>"

lemma decimal_1: "decimal 1 = ''1''" "decimal (Suc 0) = ''1''"
  by code_simp+

lemma sample_handle: "result_handle (Some sample_binding) 1 = ''result-a-1''" "result_handle (Some sample_binding) (Suc 0) = ''result-a-1''"
  by (simp_all add: result_handle_def sample_binding_def decimal_1)

lemma sample_new_entry: "new_entry (Some sample_binding) ''hello'' 5 False None result_state_default None = sample_entry"
  by (simp add: new_entry_def sample_entry_def result_state_default_def sat_add_def u64_max_def sample_handle
      retain_head_and_tail_def max_result_bytes_def)

lemma sample_sidecar: "session_sidecar_path ''t'' ''a'' ''result-a-1'' = Some ''t/result-a-1.txt''"
    "with_tmp_extension ''t/result-a-1.txt'' = ''t/result-a-1.tmp''"
  by (simp_all add: session_sidecar_path_def strip_prefix_def ascii_digit_def bv_def join_path_def with_tmp_extension_def)

lemma sample_seq: "result_record (sample_api sample_record) sample_entry 7 (next_seq (sample_api sample_record) []) = sample_record"
  by (simp add: result_record_def sample_api_def sample_entry_def sample_record_def next_seq_def file_lines_def sat_add_def
      u64_max_def List.map_filter_def)

lemma sample_persist:
  "\<exists>path d'. persist_session_result (sample_api sample_record) sample_binding sample_entry (sample_disk no_faults) = (Done path, d') \<and> calm d'"
proof -
  have enc: "va_encode (sample_api sample_record) sample_record = Inr ''R''" by (simp add: sample_api_def)
  have flt: "dk_fault (sample_disk no_faults) n = None" "dk_clock (sample_disk no_faults) n = 7" for n
    by (simp_all add: sample_disk_def no_faults_def)
  have nodes: "node_at (sample_disk no_faults) ''s'' = Some (File_Node [])"
    "node_at (sample_disk no_faults) ''t/result-a-1.txt'' = None" "node_at (sample_disk no_faults) ''t/result-a-1.tmp'' = None"
    "node_at (sample_disk no_faults) ''t'' = None"
    by (simp_all add: node_at_def sample_disk_def)
  have dir: "fs_create_dir_all ''t'' (sample_disk no_faults) = (Done (), put_node ''t'' Dir_Node (ticked (sample_disk no_faults)))"
    by (simp add: fs_create_dir_all_def done_simps flt ancestors_def nodes ensure_dir_def) (rule exI [of _ True], simp)
  show ?thesis
    using sample_seq enc
    by (simp add: persist_session_result_def write_sidecar_def append_record_def sample_binding_def done_simps dir flt nodes Let_def
      sample_sidecar sample_entry_def calm_def max_record_bytes_def)
qed

lemma sample_disk_at_s: "file_at (sample_disk faults) ''s'' = Some []"
  by (simp add: file_at_def node_at_def sample_disk_def)

lemma removal_keeps_calm: "keeps calm (remove_unreferenced_sidecars b es)"
proof -
  have tick: "keeps calm tick" by (simp add: keeps_def tick_def act_simps)
  have look: "keeps calm (case n of None \<Rightarrow> raiseA e | Some (File_Node s) \<Rightarrow> m s | Some Dir_Node \<Rightarrow> m' | Some Special_Node \<Rightarrow> m'')"
    if "\<And>s. keeps calm (m s)" "keeps calm m'" "keeps calm m''" for n e m'' and m :: "string \<Rightarrow> 'x io" and m'
    using that by (auto simp: keeps_raiseA split: option.split node.split)
  have drop: "keeps calm (modA (drop_nodes q))" for q by (intro keeps_modA) simp
  have read: "keeps calm (fs_read_dir p)" for p
    unfolding fs_read_dir_def unless_fault_def with_dir_def
    by (intro keeps_bindA keeps_option tick keeps_raiseA keeps_getA look keeps_retA)
  have remove: "keeps calm (ignoring (fs_remove_file p))" for p
    unfolding fs_remove_file_def ignoring_def unless_fault_def with_file_def
    by (intro keeps_caseA keeps_bindA keeps_option tick keeps_raiseA keeps_getA look drop keeps_retA)
  show ?thesis
    unfolding remove_unreferenced_sidecars_def Let_def
    by (intro keeps_caseA keeps_forA keeps_if keeps_retA read remove)
qed

lemma sample_store_done: "\<exists>r st' d'. sample_store no_faults = (Done r, (st', d')) \<and> calm d'"
proof -
  obtain path d1 where per: "persist_session_result (sample_api sample_record) sample_binding sample_entry (sample_disk no_faults) = (Done path, d1)"
    "calm d1" using sample_persist by blast
  obtain x st' d' where run: "sample_store no_faults = (x, (st', d'))" by (metis prod.collapse)
  from store_outcome [OF run [unfolded sample_store_def]] per(1)
  have "\<exists>r. x = Done r \<and> remove_unreferenced_sidecars sample_binding (rs_entries st') d1 = (Done (), d')"
    by (auto simp: sample_new_entry)
  then show ?thesis using run keepsD [OF removal_keeps_calm per(2)] by blast
qed

lemma sample_state_inv: "store_inv result_state_default" "rs_next_id result_state_default < u64_max"
  by (simp_all add: store_inv_def result_state_default_def entries_ok_def)

lemma sample_ascii: "utf8 ''hello''" "utf8 ''a''"
  by (rule utf8_ascii, simp add: bv_def)+

theorem stored_result_reads_back_witness:
  "case sample_store no_faults of
     (Done r, (st, d)) \<Rightarrow> (\<exists>t. read_on (Suc (sr_stored_bytes r)) (sr_handle r) 0 4 st = Some (Inr t) \<and> length t = sr_stored_bytes r
       \<and> (if length ''hello'' \<le> max_result_bytes then t = ''hello''
          else sr_source_truncated r \<and> utf8 t \<and> length t \<le> max_result_bytes))
   | _ \<Rightarrow> False"
proof -
  obtain r st' d' where run: "sample_store no_faults = (Done r, (st', d'))" using sample_store_done by blast
  show ?thesis
    using stored_result_reads_back [OF run [unfolded sample_store_def] sample_state_inv sample_ascii(1), of 4]
    by (simp add: run max_page_bytes_def)
qed

theorem results_stay_within_bounds_witness:
  "store_inv (fst (serve_results (sample_api sample_record) (Some sample_binding) [(''hello'', 5, False, None)]
     (snd (for_session (sample_api sample_record) sample_binding (result_state_default, sample_disk no_faults)))))"
proof (rule results_stay_within_bounds [OF sample_api_laws])
  have "load_session_results (sample_api sample_record) sample_binding (result_state_default, sample_disk no_faults)
      = (Done (), (result_state_default, ticked (sample_disk no_faults)))"
    by (simp add: load_session_results_def act_simps on_disk_def sample_binding_def fs_read_bytes_def unless_fault_def tick_def
        with_file_def node_at_def sample_disk_def no_faults_def ticked_def file_lines_def)
  then show "content_bytes (rs_entries (fst (snd (load_session_results (sample_api sample_record) sample_binding
      (result_state_default, sample_disk no_faults))))) \<le> u64_max"
    by (simp add: result_state_default_def)
qed (simp add: sample_ascii)

theorem stored_result_survives_restart_witness:
  "case sample_store no_faults of
     (Done r, (st, d)) \<Rightarrow> (\<exists>es e st2 d2. for_session (sample_api sample_record) sample_binding (result_state_default, d) = (Done (), (st2, d2))
       \<and> rs_entries st2 = es @ [e] \<and> se_handle e = sr_handle r \<and> se_content e = retain_head_and_tail ''hello'' max_result_bytes
       \<and> se_source_bytes e = 5 \<and> se_source_truncated e = sr_source_truncated r \<and> se_metadata e = None)
   | _ \<Rightarrow> False"
proof -
  obtain r st' d' where run: "sample_store no_faults = (Done r, (st', d'))" and calm: "calm d'" using sample_store_done by blast
  have out: "outside sample_binding" "utf8 (sb_namespace sample_binding)"
    by (simp_all add: outside_def sample_binding_def sample_ascii)
  have at: "file_at (sample_disk no_faults) (sb_path sample_binding) = Some []"
    by (simp add: sample_binding_def sample_disk_at_s)
  show ?thesis
    using stored_result_survives_restart [OF run [unfolded sample_store_def] sample_state_inv(1) sample_api_laws calm out at _ sample_ascii(1),
        of result_state_default]
    by (simp add: run u64_max_def)
qed

text \<open>
  The same store on a session file whose last line is torn: the result is accepted, its record
  continues the torn line, and the reopened session has no result.
\<close>

definition torn_disk :: disk where
  "torn_disk = (sample_disk no_faults)\<lparr>dk_nodes := [(''s'', File_Node ''x'')]\<rparr>"

lemma torn_seq: "result_record (sample_api sample_record) sample_entry 7 (next_seq (sample_api sample_record) ''x'') = sample_record"
  by (simp add: result_record_def sample_api_def sample_entry_def sample_record_def next_seq_def file_lines_def sat_add_def
      u64_max_def List.map_filter_def newline_byte_def)

lemma torn_persist:
  "\<exists>path d'. persist_session_result (sample_api sample_record) sample_binding sample_entry torn_disk = (Done path, d') \<and> calm d'"
proof -
  have enc: "va_encode (sample_api sample_record) sample_record = Inr ''R''" by (simp add: sample_api_def)
  have flt: "dk_fault torn_disk n = None" "dk_clock torn_disk n = 7" for n
    by (simp_all add: torn_disk_def sample_disk_def no_faults_def)
  have nodes: "node_at torn_disk ''s'' = Some (File_Node ''x'')"
    "node_at torn_disk ''t/result-a-1.txt'' = None" "node_at torn_disk ''t/result-a-1.tmp'' = None"
    "node_at torn_disk ''t'' = None"
    by (simp_all add: node_at_def torn_disk_def)
  have dir: "fs_create_dir_all ''t'' torn_disk = (Done (), put_node ''t'' Dir_Node (ticked torn_disk))"
    by (simp add: fs_create_dir_all_def done_simps flt ancestors_def nodes ensure_dir_def) (rule exI [of _ True], simp)
  show ?thesis
    using torn_seq enc
    by (simp add: persist_session_result_def write_sidecar_def append_record_def sample_binding_def done_simps dir flt nodes Let_def
      sample_sidecar sample_entry_def calm_def max_record_bytes_def)
qed

lemma result_after_torn_tail_is_lost:
  "\<exists>r st d st2 d2. store_with_metadata (sample_api sample_record) (Some sample_binding) ''hello'' 5 False None
      (result_state_default, torn_disk) = (Done r, (st, d))
    \<and> for_session (sample_api sample_record) sample_binding (result_state_default, d) = (Done (), (st2, d2))
    \<and> rs_entries st2 = []"
proof -
  let ?js = "sample_api sample_record"
  obtain path d1 where per: "persist_session_result ?js sample_binding sample_entry torn_disk = (Done path, d1)" "calm d1"
    using torn_persist by blast
  obtain x st d where run: "store_with_metadata ?js (Some sample_binding) ''hello'' 5 False None (result_state_default, torn_disk) = (x, (st, d))"
    by (metis prod.collapse)
  from store_outcome [OF run] per(1) obtain r where r: "x = Done r"
      and rem: "remove_unreferenced_sidecars sample_binding (rs_entries st) d1 = (Done (), d)"
    by (auto simp: sample_new_entry)
  have out: "outside sample_binding" by (simp add: outside_def sample_binding_def)
  have handle: "se_handle sample_entry = result_handle (Some sample_binding) 1"
    by (simp add: sample_entry_def sample_handle)
  have at: "file_at torn_disk (sb_path sample_binding) = Some ''x''"
    by (simp add: file_at_def node_at_def torn_disk_def sample_binding_def)
  have "file_at d1 (sb_path sample_binding) = Some (''xR'' @ [newline_byte])"
    using persist_files [OF out handle per(1)] at by (auto simp: sample_api_def split: if_splits)
  moreover have "\<not> starts_with (sb_output_dir sample_binding @ ''/'') (sb_path sample_binding)"
    by (simp add: sample_binding_def starts_with_def)
  ultimately have stored: "file_at d (sb_path sample_binding) = Some (''xR'' @ [newline_byte])"
    using removal_files rem by (metis snd_conv)
  have calm: "calm d" using keepsD [OF removal_keeps_calm per(2) rem] .
  have read: "fs_read_bytes (sb_path sample_binding) d = (Done (''xR'' @ [newline_byte]), ticked d)"
    using stored calm by (simp add: fs_read_bytes_def unless_fault_def tick_def with_file_def act_simps node_of_file)
  have "load_session_results ?js sample_binding (result_state_default, d) = (Done (), (result_state_default, ticked d))"
    using read
    by (simp add: load_session_results_def act_simps on_disk_def file_lines_def newline_byte_def load_line_def
        result_handle_of_def sample_api_def)
  moreover have "rs_entries (trimmed (result_state_default :: jv result_state)) = []"
    using trim_entries_drops [of "[]" 0] by (auto simp: trimmed_def result_state_default_def split_beta)
  moreover note for_session_run [of ?js sample_binding d result_state_default "ticked d" result_state_default]
  ultimately
  have "\<exists>st2 d2. for_session ?js sample_binding (result_state_default, d) = (Done (), (st2, d2)) \<and> rs_entries st2 = []"
    by fastforce
  with run r show ?thesis by blast
qed

text \<open>A store whose rename fails: the sixth call of the disk.\<close>

lemma sample_store_fails: "\<exists>err. fst (sample_store torn_rename) = Raised err"
proof -
  have flt: "dk_fault (sample_disk torn_rename) n = torn_rename n" "dk_clock (sample_disk torn_rename) n = 7" "dk_tick (sample_disk torn_rename) = 0" for n
    by (simp_all add: sample_disk_def)
  have nodes: "node_at (sample_disk torn_rename) ''t/result-a-1.txt'' = None" "node_at (sample_disk torn_rename) ''t/result-a-1.tmp'' = None"
    "node_at (sample_disk torn_rename) ''t'' = None"
    by (simp_all add: node_at_def sample_disk_def)
  have no: "persist_session_result (sample_api sample_record) sample_binding sample_entry (sample_disk torn_rename) \<noteq> (Done path, d')" for path d'
    by (simp add: persist_session_result_def write_sidecar_def sample_binding_def done_simps flt nodes Let_def
      sample_sidecar sample_entry_def fs_create_dir_all_def ancestors_def ensure_dir_def torn_rename_def)
  obtain x st' d' where run: "sample_store torn_rename = (x, (st', d'))" by (metis prod.collapse)
  show ?thesis using store_outcome [OF run [unfolded sample_store_def]] run no by (auto simp: sample_new_entry)
qed

theorem failed_store_changes_nothing_witness:
  "case sample_store torn_rename of
     (x, (st', d')) \<Rightarrow> (\<exists>err. x = Raised err) \<and> Some sample_binding \<noteq> None \<and> rs_entries st' = rs_entries (result_state_default :: jv result_state)
       \<and> rs_total_bytes st' = rs_total_bytes (result_state_default :: jv result_state) \<and> rs_next_id st' = sat_add (rs_next_id (result_state_default :: jv result_state)) 1
       \<and> (\<forall>handle cursor n. read_page handle cursor n st' = read_page handle cursor n result_state_default)"
proof -
  obtain x st' d' where run: "sample_store torn_rename = (x, (st', d'))" by (metis prod.collapse)
  have "\<forall>r. x \<noteq> Done r" using sample_store_fails run by auto
  with failed_store_changes_nothing [OF run [unfolded sample_store_def]] show ?thesis by (simp add: run)
qed

end
