(* ===== verification/Orchestrator_Claims.thy ===== *)
theory Orchestrator_Claims
  imports Orchestrator Security_Claims Result_Claims
begin

section \<open>What the orchestrator promises\<close>

text \<open>
  Properties of \<open>Orchestrator\<close> with the parts it joins: denied actions are never executed, Plan Mode
  fails closed, instructions put a call off once, and no large output is lost silently.
\<close>

definition with_runs ::
  "('v \<Rightarrow> 'w \<Rightarrow> tool_execution_outcome \<times> 'w) \<Rightarrow> ('v tool_execution_request \<Rightarrow> tool_admission \<Rightarrow> 'w \<Rightarrow> tool_execution_outcome \<times> 'w)
    \<Rightarrow> ('w, 'v) tool \<Rightarrow> ('w, 'v) tool" where
  "with_runs f g t = t\<lparr>tl_execute_outcome := f, tl_execute_after_admission := g\<rparr>"

text \<open>The code of the tool has no part in the answer: it was not run.\<close>

definition not_run ::
  "('v, 'u) tool_orchestrator \<Rightarrow> (('v, 'u) host_world, 'v) tool \<Rightarrow> 'v tool_execution_request \<Rightarrow> ('v, 'u) host_world \<Rightarrow> bool" where
  "not_run orch t request w \<longleftrightarrow> (\<forall>f g. orchestrate orch (with_runs f g t) request w = orchestrate orch t request w)"

lemma tl_admission_with_runs [simp]: "tl_admission (with_runs f g t) = tl_admission t"
  by (simp add: with_runs_def)







lemma callback_sel:
  "or_host_json (orch\<lparr>or_callback := cb\<rparr>) = or_host_json orch" "or_project_instructions (orch\<lparr>or_callback := cb\<rparr>) = or_project_instructions orch"
  "or_results (orch\<lparr>or_callback := cb\<rparr>) = or_results orch" "or_serde (orch\<lparr>or_callback := cb\<rparr>) = or_serde orch"
  "or_json (orch\<lparr>or_callback := cb\<rparr>) = or_json orch" "or_canon (orch\<lparr>or_callback := cb\<rparr>) = or_canon orch"
  by simp_all

lemma callback_irrelevant [simp]:
  "enforce_plan_selection (orch\<lparr>or_callback := cb\<rparr>) = enforce_plan_selection orch"
  "instruction_outcome (orch\<lparr>or_callback := cb\<rparr>) = instruction_outcome orch"
  "persist_large_output (orch\<lparr>or_callback := cb\<rparr>) = persist_large_output orch"
  unfolding fun_eq_iff enforce_plan_selection_def instruction_outcome_def persist_large_output_def callback_sel by auto




subsection \<open>Plan Mode\<close>

definition plan_mode_inactive :: "host_json \<Rightarrow> string \<Rightarrow> bool" where
  "plan_mode_inactive js content = (case hj_plan_of js content of Inr state \<Rightarrow> \<not> pm_active state | Inl _ \<Rightarrow> False)"

text \<open>
  C15.  Plan Mode fails closed: while the session has a Plan Mode file, a call of a tool outside the
  eight planning tools is put off without running the tool or touching anything, unless the file can
  be read and says that the mode is off.  An unreadable file, a torn one, or a fault of the disk puts
  the call off as well.
\<close>

theorem plan_mode_fails_closed:
  fixes orch :: "('v, 'u) tool_orchestrator"
  assumes "ac_session_dir (ow_approval w) = Some dir" and "ter_name request \<notin> set plan_mode_allowed_tools"
    and "node_at (ow_disk w) (plan_mode_file dir) = Some (File_Node content)"
    and "\<not> (utf8 content \<and> plan_mode_inactive (or_host_json orch) content)"
    and "\<And>x. dk_fault (ow_disk w) (dk_tick (ow_disk w)) = Some x \<Longrightarrow> ie_kind (ft_error x) \<noteq> Io_NotFound"
  shows "not_run orch t request w
    \<and> (\<exists>text. orchestrate orch t request w = (outcome_deferred text, w\<lparr>ow_disk := ticked (ow_disk w)\<rparr>))"
proof -
  have "\<exists>text. enforce_plan_selection orch request w = (Inl (outcome_deferred text), w\<lparr>ow_disk := ticked (ow_disk w)\<rparr>)"
    using assms
    by (auto simp: enforce_plan_selection_def plan_mode_tool_selection_def caseA_def fs_read_def fs_read_bytes_def bindA_def
        unless_fault_def tick_def stepA_def with_file_def getA_def retA_def raiseA_def plan_mode_inactive_def io_error_def
        split: option.split sum.splits prod.split)
  then show ?thesis by (auto simp: orchestrate_def not_run_def)
qed

subsection \<open>Instructions are asked for once\<close>

text \<open>
  A computation that only reads: on a disk without faults its result depends on the nodes alone,
  and it leaves them as they are.
\<close>

definition calm_with :: "(string \<times> node) list \<Rightarrow> disk \<Rightarrow> bool" where
  "calm_with N d \<longleftrightarrow> dk_nodes d = N \<and> calm d"

definition only_reads :: "(string \<times> node) list \<Rightarrow> (disk, 'e, 'a) act \<Rightarrow> bool" where
  "only_reads N m \<longleftrightarrow> (\<exists>r. \<forall>d. calm_with N d \<longrightarrow> (\<exists>d'. m d = (r, d') \<and> calm_with N d'))"

named_theorems read_rules \<open>computations that only read the disk\<close>

lemma reads_basic [read_rules]: "only_reads N (retA x)" "only_reads N (raiseA e)"
  by (auto simp: only_reads_def act_simps)

lemma reads_getA: "(\<And>d. dk_nodes d = N \<Longrightarrow> f d = c) \<Longrightarrow> only_reads N (getA f)"
  by (auto simp: only_reads_def act_simps calm_with_def intro!: exI [of _ "Done c"])

lemma reads_bindA [read_rules]:
  assumes "only_reads N m" and "\<And>x. only_reads N (f x)"
  shows "only_reads N (bindA m f)"
proof -
  obtain r where r [rule_format]: "\<forall>d. calm_with N d \<longrightarrow> (\<exists>d'. m d = (r, d') \<and> calm_with N d')" using assms(1) unfolding only_reads_def by blast
  show ?thesis
  proof (cases r)
    case (Done x)
    obtain q where q [rule_format]: "\<forall>d. calm_with N d \<longrightarrow> (\<exists>d'. f x d = (q, d') \<and> calm_with N d')" using assms(2) unfolding only_reads_def by blast
    have "\<exists>d'. bindA m f d = (q, d') \<and> calm_with N d'" if "calm_with N d" for d
      using r [OF that] q Done by (auto simp: act_simps)
    then show ?thesis unfolding only_reads_def by blast
  next
    case (Raised e)
    have "\<exists>d'. bindA m f d = (Raised e, d') \<and> calm_with N d'" if "calm_with N d" for d
      using r [OF that] Raised by (auto simp: act_simps)
    then show ?thesis unfolding only_reads_def by blast
  next
    case Out_of_fuel
    have "\<exists>d'. bindA m f d = (Out_of_fuel, d') \<and> calm_with N d'" if "calm_with N d" for d
      using r [OF that] Out_of_fuel by (auto simp: act_simps)
    then show ?thesis unfolding only_reads_def by blast
  qed
qed

lemma reads_caseA [read_rules]:
  assumes "only_reads N m" and "\<And>x. only_reads N (f x)" and "\<And>e. only_reads N (g e)"
  shows "only_reads N (caseA m f g)"
proof -
  obtain r where r [rule_format]: "\<forall>d. calm_with N d \<longrightarrow> (\<exists>d'. m d = (r, d') \<and> calm_with N d')" using assms(1) unfolding only_reads_def by blast
  have "\<exists>q. \<forall>d. calm_with N d \<longrightarrow> (\<exists>d'. caseA m f g d = (q, d') \<and> calm_with N d')"
  proof (cases r)
    case (Done x)
    obtain q where q [rule_format]: "\<forall>d. calm_with N d \<longrightarrow> (\<exists>d'. f x d = (q, d') \<and> calm_with N d')" using assms(2) unfolding only_reads_def by blast
    with r Done q show ?thesis by (intro exI [of _ q]) (fastforce simp: act_simps)
  next
    case (Raised e)
    obtain q where q [rule_format]: "\<forall>d. calm_with N d \<longrightarrow> (\<exists>d'. g e d = (q, d') \<and> calm_with N d')" using assms(3) unfolding only_reads_def by blast
    with r Raised q show ?thesis by (intro exI [of _ q]) (fastforce simp: act_simps)
  next
    case Out_of_fuel
    with r show ?thesis by (intro exI [of _ Out_of_fuel]) (fastforce simp: act_simps)
  qed
  then show ?thesis by (simp add: only_reads_def)
qed

lemma reads_map_errA [read_rules]: "only_reads N m \<Longrightarrow> only_reads N (map_errA g m)"
proof -
  assume "only_reads N m"
  then obtain r where "\<forall>d. calm_with N d \<longrightarrow> (\<exists>d'. m d = (r, d') \<and> calm_with N d')" unfolding only_reads_def by blast
  then show ?thesis
    unfolding only_reads_def
    by (intro exI [of _ "case r of Done x \<Rightarrow> Done x | Raised e \<Rightarrow> Raised (g e) | Out_of_fuel \<Rightarrow> Out_of_fuel"])
      (fastforce simp: act_simps split: outcome.split)
qed

lemma reads_if [read_rules]: "only_reads N m \<Longrightarrow> only_reads N n \<Longrightarrow> only_reads N (if b then m else n)"
  by simp

lemma reads_option [read_rules]:
  "only_reads N m \<Longrightarrow> (\<And>x. only_reads N (f x)) \<Longrightarrow> only_reads N (case q of None \<Rightarrow> m | Some x \<Rightarrow> f x)"
  by (cases q) auto

lemma reads_sum [read_rules]:
  "(\<And>x. only_reads N (f x)) \<Longrightarrow> (\<And>y. only_reads N (g y)) \<Longrightarrow> only_reads N (case q of Inl x \<Rightarrow> f x | Inr y \<Rightarrow> g y)"
  by (cases q) auto

lemma reads_Let [read_rules]: "(\<And>x. only_reads N (f x)) \<Longrightarrow> only_reads N (let x = t in f x)"
  by (simp add: Let_def)

lemma reads_unless_fault [read_rules]:
  assumes "only_reads N m"
  shows "only_reads N (unless_fault m)"
proof -
  obtain r where r [rule_format]: "\<forall>d. calm_with N d \<longrightarrow> (\<exists>d'. m d = (r, d') \<and> calm_with N d')" using assms unfolding only_reads_def by blast
  have t: "calm_with N d \<Longrightarrow> calm_with N (ticked d)" for d by (simp add: calm_with_def) (simp add: ticked_def)
  have "\<exists>d'. unless_fault m d = (r, d') \<and> calm_with N d'" if "calm_with N d" for d
    using r [OF t [OF that]] that by (auto simp: unless_fault_def tick_def act_simps calm_with_def)
  then show ?thesis unfolding only_reads_def by blast
qed

lemma reads_tick_get:
  assumes "\<And>d. dk_nodes d = N \<Longrightarrow> f None d = c"
  shows "only_reads N (bindA tick (\<lambda>x. getA (f x)))"
proof -
  have t: "calm_with N d \<Longrightarrow> calm_with N (ticked d) \<and> dk_nodes (ticked d) = N" for d
    by (simp add: calm_with_def) (simp add: ticked_def)
  have "\<exists>d'. bindA tick (\<lambda>x. getA (f x)) d = (Done c, d') \<and> calm_with N d'" if "calm_with N d" for d
    using t [OF that] that assms [of "ticked d"] by (auto simp: tick_def act_simps calm_with_def)
  then show ?thesis unfolding only_reads_def by blast
qed

lemma node_at_nodes: "dk_nodes d = N \<Longrightarrow> node_at d p = map_of N p"
  by (simp add: node_at_def)

lemma reads_files [read_rules]: "only_reads N (fs_read_bytes p)" "only_reads N (fs_is_file p)" "only_reads N (fs_is_dir p)"
proof -
  have "only_reads N (case n of None \<Rightarrow> raiseA not_found | Some (File_Node s) \<Rightarrow> retA s | Some _ \<Rightarrow> raiseA not_a_file)" for n
    by (auto intro: read_rules split: option.split node.split)
  then show "only_reads N (fs_read_bytes p)"
    unfolding fs_read_bytes_def with_file_def
    by (intro reads_unless_fault reads_bindA reads_getA [where c = "map_of N p"]) (auto simp: node_at_nodes)
  show "only_reads N (fs_is_file p)"
    unfolding fs_is_file_def by (rule reads_tick_get [where c = "file_of (map_of N p) \<noteq> None"]) (simp add: file_at_def node_at_nodes)
  show "only_reads N (fs_is_dir p)"
    unfolding fs_is_dir_def by (rule reads_tick_get [where c = "map_of N p = Some Dir_Node"]) (simp add: node_at_nodes)
qed

text \<open>Resolving a path looks at the nodes of the disk alone.\<close>

definition canon_by_nodes :: "canon \<Rightarrow> bool" where
  "canon_by_nodes canon \<longleftrightarrow> (\<forall>d d' p. dk_nodes d = dk_nodes d' \<longrightarrow> canon d p = canon d' p)"

lemma reads_canonicalize: "canon_by_nodes canon \<Longrightarrow> only_reads N (fs_canonicalize canon p)"
  unfolding fs_canonicalize_def
  by (intro reads_unless_fault reads_bindA reads_sum read_rules
      reads_getA [where c = "canon \<lparr>dk_nodes = N, dk_fault = \<lambda>_. None, dk_clock = \<lambda>_. 0, dk_tick = 0\<rparr> p"])
    (simp add: canon_by_nodes_def)

lemma reads_load_source: "canon_by_nodes canon \<Longrightarrow> only_reads N (load_source js canon root rel)"
  unfolding load_source_def load_agents_file_def by (intro read_rules reads_canonicalize)

lemma reads_applicable_directories:
  "canon_by_nodes canon \<Longrightarrow> only_reads N (applicable_directories canon root targets found)"
  by (induction targets arbitrary: found) (auto simp: canonical_target_path_def intro!: read_rules reads_canonicalize)

lemma reads_load_directories:
  "canon_by_nodes canon \<Longrightarrow> only_reads N (load_directories js canon root directories sources)"
  by (induction directories arbitrary: sources) (auto intro!: read_rules reads_load_source)

lemma reads_load_roots: "canon_by_nodes canon \<Longrightarrow> only_reads N (load_roots js canon targets roots sources)"
  by (induction roots arbitrary: sources) (auto intro!: read_rules reads_applicable_directories reads_load_directories)

lemma applicable_injections_known:
  assumes canon: "canon_by_nodes canon" and d: "calm_with N d" and d2: "calm_with N d2"
    and run: "applicable_injections js canon roots targets known d = (Done found, d')"
    and known: "set known \<subseteq> set known2" "set (map ij_record found) \<subseteq> set known2"
  shows "\<exists>d2'. applicable_injections js canon roots targets known2 d2 = (Done [], d2')"
proof -
  obtain r where r [rule_format]: "\<forall>d. calm_with N d \<longrightarrow> (\<exists>d'. load_roots js canon targets roots [] d = (r, d') \<and> calm_with N d')"
    using reads_load_roots [OF canon, of N js targets roots "[]"] unfolding only_reads_def by blast
  obtain sources where sources: "r = Done sources" "sources_bytes sources \<le> max_project_instructions_total_bytes"
    "found = filter (\<lambda>s. \<not> is_known known s) sources"
    using r [OF d] run by (cases r) (auto simp: applicable_injections_def act_simps split: if_splits)
  have "is_known known2 s" if "s \<in> set sources" for s
  proof (cases "is_known known s")
    case True
    then show ?thesis using known(1) by (auto simp: is_known_def list_ex_iff)
  next
    case False
    then show ?thesis using known(2) sources(3) that by (auto simp: is_known_def list_ex_iff)
  qed
  then have "filter (\<lambda>s. \<not> is_known known2 s) sources = []" by (simp add: filter_empty_conv)
  then show ?thesis using r [OF d2] sources by (auto simp: applicable_injections_def act_simps)
qed

text \<open>
  Instructions put a call off once: when a file operation was put off for workspace instructions
  and is tried again with those instructions known and the files unchanged, the call reaches its
  tool, with the admission it was given.
\<close>

theorem instructions_put_a_call_off_once:
  assumes "instruction_outcome orch request admission w = (Some out, w1)" and "teo_status out = Tool_Deferred"
    and "canon_by_nodes (or_canon orch)" and "calm (ow_disk w)"
    and "enforce_plan_selection orch again w2 = (Inr u, w3)" and "tl_admission t again w3 = Inr (Allowed paths)"
    and "admission_target_paths admission = Some paths" and "calm (ow_disk w3)"
    and "dk_nodes (ow_disk w3) = dk_nodes (ow_disk w)" and "ter_name again = ter_name request"
    and "set (ter_known_context_injections request) \<subseteq> set (ter_known_context_injections again)"
    and "set (teo_context_injections out) \<subseteq> set (ter_known_context_injections again)"
  shows "\<exists>d. orchestrate orch t again w2 = (case tl_execute_after_admission t again (Allowed paths) (w3\<lparr>ow_disk := d\<rparr>) of
      (out', w') \<Rightarrow> persist_large_output orch out' w')"
proof -
  obtain roots found d' where roots: "or_project_instructions orch = Some roots"
    and run: "applicable_injections (or_serde orch) (or_canon orch) roots paths (ter_known_context_injections request) (ow_disk w)
      = (Done found, d')" and out: "out = injected_outcome found"
    and name: "ter_name request \<in> {''read_file'', ''read_image'', ''apply_patch''}"
    using assms(1,2,7)
    by (auto simp: instruction_outcome_def outcome_failed_def plain_outcome_def
        split: if_splits option.splits prod.splits outcome.splits list.splits)
  have "set (map ij_record found) \<subseteq> set (ter_known_context_injections again)"
    using assms(12) out by (simp add: injected_outcome_def with_context_injection_def)
  from applicable_injections_known [OF assms(3) _ _ run assms(11) this, of "dk_nodes (ow_disk w)" "ow_disk w3"]
  obtain d2 where "applicable_injections (or_serde orch) (or_canon orch) roots paths (ter_known_context_injections again) (ow_disk w3)
      = (Done [], d2)" using assms(4,8,9) by (auto simp: calm_with_def)
  then have "instruction_outcome orch again (Allowed paths) w3 = (None, w3\<lparr>ow_disk := d2\<rparr>)"
    using name assms(10) roots by (simp add: instruction_outcome_def admission_target_paths_def)
  then have "orchestrate orch t again w2 = (case tl_execute_after_admission t again (Allowed paths) (w3\<lparr>ow_disk := d2\<rparr>) of
      (out', w') \<Rightarrow> persist_large_output orch out' w')"
    using assms(5,6) by (simp add: orchestrate_def execute_admitted_def)
  then show ?thesis ..
qed

subsection \<open>Large outputs\<close>

lemma length_decimal: "n < 10 ^ k \<Longrightarrow> 0 < k \<Longrightarrow> length (decimal n) \<le> k"
proof (induction k arbitrary: n)
  case (Suc k)
  show ?case
  proof (cases "n < 10")
    case True
    then show ?thesis by (subst decimal.simps) simp
  next
    case False
    then have "n div 10 < 10 ^ k" "0 < k" using Suc.prems by (auto simp: less_mult_imp_div_less intro: gr0I)
    with Suc.IH [of "n div 10"] False show ?thesis by (subst decimal.simps) simp
  qed
qed simp

lemma length_decimal_u64: "n \<le> u64_max \<Longrightarrow> length (decimal n) \<le> 20"
  by (rule length_decimal) (simp_all add: u64_max_def)

definition short_namespace :: "session_binding option \<Rightarrow> bool" where
  "short_namespace session \<longleftrightarrow> (case session of None \<Rightarrow> True | Some b \<Rightarrow> length (sb_namespace b) \<le> 32)"

lemma length_result_handle: "short_namespace session \<Longrightarrow> i \<le> u64_max \<Longrightarrow> length (result_handle session i) \<le> 60"
  using length_decimal_u64 [of i] by (auto simp: result_handle_def short_namespace_def split: option.splits)

lemma length_stored_output_text:
  "length (sr_handle s) \<le> 60 \<Longrightarrow> length (sr_preview s) \<le> preview_bytes \<Longrightarrow> length (stored_output_text s) \<le> core_tool_output_bytes"
  by (simp add: stored_output_text_def retained_notice_def preview_bytes_def core_tool_output_bytes_def)

lemma length_unstored_output_text:
  assumes "length content \<le> u64_max"
  shows "length (unstored_output_text err content) \<le> core_tool_output_bytes"
  using length_retain_head_and_tail [of 512 err] length_retain_head_and_tail [of output_failure_preview_bytes content]
    length_decimal_u64 [OF assms]
  by (simp add: unstored_output_text_def bounded_preview_def output_failure_preview_bytes_def core_tool_output_bytes_def)

text \<open>
  No output is lost silently: an output over the inline bound is replaced by a text within it and
  marked as truncated.  Either the text names a handle under which paging returns the whole output
  (or, above eight mebibytes, its excerpt, which the text says), or it says that the output was not
  retained, with a preview, and everything stored before reads as before.
\<close>

theorem large_output_is_kept_or_disowned:
  assumes run: "persist_large_output orch out w = (out', w')"
    and large: "core_tool_output_bytes < length (teo_content out)" "length (teo_content out) \<le> u64_max" "utf8 (teo_content out)"
    and store: "or_results orch = Some session" "store_inv (ow_results w)" "rs_next_id (ow_results w) < u64_max" "short_namespace session"
    and page: "4 \<le> n" "n \<le> max_page_bytes"
  shows "length (teo_content out') \<le> core_tool_output_bytes \<and> teo_output_truncated out' \<and> teo_status out' = teo_status out
    \<and> ((\<exists>s. teo_content out' = stored_output_text s
          \<and> read_on (Suc (sr_stored_bytes s)) (sr_handle s) 0 n (ow_results w')
            = Some (Inr (retain_head_and_tail (teo_content out) max_result_bytes))
          \<and> sr_source_truncated s = (max_result_bytes < length (teo_content out)))
      \<or> (\<exists>err. teo_content out' = unstored_output_text err (teo_content out) \<and> rs_entries (ow_results w') = rs_entries (ow_results w)))"
proof -
  let ?js = "or_json orch" and ?c = "teo_content out"
  obtain x st d where sto: "store_with_metadata ?js session ?c (length ?c) False
      (Some (va_object ?js [(''kind'', va_str ?js ''tool_output'')])) (ow_results w, ow_disk w) = (x, (st, d))"
    by (metis prod.collapse)
  from store_outcome [OF sto] show ?thesis
  proof (elim disjE exE conjE)
    fix err b
    assume "x = Raised err" "st = counted_state (ow_results w)"
    then show ?thesis
      using run sto large store length_unstored_output_text [OF large(2)]
      by (auto simp: persist_large_output_def Let_def counted_state_def)
  next
    fix p
    assume "x = Done (answer_for (new_entry session ?c (length ?c) False
      (Some (va_object ?js [(''kind'', va_str ?js ''tool_output'')])) (ow_results w) p))" (is "x = Done ?s")
    note pages = stored_text_pages [OF sto [unfolded this] store(2,3) large(3) page]
    have "length (sr_handle ?s) \<le> 60" using pages length_result_handle [OF store(4)] store(3) by simp
    moreover have "length (sr_preview ?s) \<le> preview_bytes"
      using pages length_retain_head_and_tail [of preview_bytes] by (simp add: preview_bytes_def)
    ultimately have "length (stored_output_text ?s) \<le> core_tool_output_bytes" by (rule length_stored_output_text)
    moreover have "out' = out\<lparr>teo_content := stored_output_text ?s, teo_output_truncated := True\<rparr>" "ow_results w' = st"
      using run sto large store \<open>x = Done ?s\<close> by (auto simp: persist_large_output_def Let_def)
    ultimately show ?thesis using pages by (auto simp del: read_on.simps)
  qed
qed

subsection \<open>At concrete inputs\<close>

definition plain_serde :: "'v serde" where
  "plain_serde = \<lparr>ser_message = (\<lambda>_. []), ser_messages = (\<lambda>_. []), ser_specs = (\<lambda>_. []), ser_calls = (\<lambda>_. []),
     ser_input = (\<lambda>_. []), ser_injection = (\<lambda>_. []), de_injection = (\<lambda>_. None)\<rparr>"

definition sample_host_json :: host_json where
  "sample_host_json = \<lparr>hj_goal = (\<lambda>_. []), hj_goal_of = (\<lambda>_. Inl ''not a goal''), hj_plan = (\<lambda>_. []),
     hj_plan_of = (\<lambda>_. Inl ''not a plan''), hj_cleanup = (\<lambda>_. [])\<rparr>"

definition sample_canon :: canon where
  "sample_canon d p = (if node_at d p = None then Inl not_found else Inr p)"

definition sample_orchestrator :: "(jv, unit) tool_orchestrator" where
  "sample_orchestrator = \<lparr>or_callback = nobody [], or_project_instructions = Some [\<lparr>pr_label = ''main'', pr_path = ''/w''\<rparr>],
     or_results = Some None, or_serde = plain_serde, or_json = sample_api J_Null, or_host_json = sample_host_json,
     or_canon = sample_canon\<rparr>"

definition sample_world :: "(string \<times> node) list \<Rightarrow> approval_controller \<Rightarrow> (jv, unit) host_world" where
  "sample_world nodes c = \<lparr>ow_approval = c, ow_results = result_state_default,
     ow_disk = \<lparr>dk_nodes = nodes, dk_fault = no_faults, dk_clock = (\<lambda>_. 7), dk_tick = 0\<rparr>, ow_rest = ()\<rparr>"

definition sample_tool :: "tool_admission \<Rightarrow> ((jv, unit) host_world, jv) tool" where
  "sample_tool admission = \<lparr>tl_spec = \<lparr>ts_name = ''read_file'', ts_description = [], ts_parameters = J_Null\<rparr>,
     tl_admission = (\<lambda>_ _. Inr admission), tl_execute_outcome = (\<lambda>_ w. (outcome_completed ''ran'', w)),
     tl_execute_after_admission = (\<lambda>_ _ w. (outcome_completed ''ran'', w)), tl_recovery_replay_safety = (\<lambda>_. Replay_Never)\<rparr>"

definition sample_call :: "string \<Rightarrow> context_injection_record list \<Rightarrow> jv tool_execution_request" where
  "sample_call name known = \<lparr>ter_call_id = ''c'', ter_name = name, ter_arguments = J_Null, ter_context = None,
     ter_known_context_injections = known, ter_cancellation = None\<rparr>"

lemma sample_sel [simp]:
  "tl_admission (sample_tool admission) request w = Inr admission" "ow_approval (sample_world nodes c) = c"
  "ow_disk (sample_world nodes c) = \<lparr>dk_nodes = nodes, dk_fault = no_faults, dk_clock = (\<lambda>_. 7), dk_tick = 0\<rparr>"
  "ow_results (sample_world nodes c) = result_state_default"
  "ter_name (sample_call name known) = name" "ter_known_context_injections (sample_call name known) = known"
  "or_results sample_orchestrator = Some None" "or_canon sample_orchestrator = sample_canon"
  "or_host_json sample_orchestrator = sample_host_json" "or_serde sample_orchestrator = plain_serde"
  "or_project_instructions sample_orchestrator = Some [\<lparr>pr_label = ''main'', pr_path = ''/w''\<rparr>]"
  by (simp_all add: sample_tool_def sample_world_def sample_call_def sample_orchestrator_def)


theorem plan_mode_fails_closed_witness:
  "let c = (controller_new Automatic)\<lparr>ac_session_dir := Some ''d''\<rparr>; w = sample_world [(''d/plan_mode.json'', File_Node ''{'')] c;
       t = sample_tool Legacy; request = sample_call ''delegate_task'' [] in
   not_run sample_orchestrator t request w
   \<and> (\<exists>text. orchestrate sample_orchestrator t request w = (outcome_deferred text, w\<lparr>ow_disk := ticked (ow_disk w)\<rparr>))"
  unfolding Let_def
  by (rule plan_mode_fails_closed [where dir = "''d''" and content = "''{''"])
    (simp_all add: plan_mode_allowed_tools_def node_at_def plan_mode_file_def join_path_def plan_mode_inactive_def
      sample_host_json_def no_faults_def)

definition sample_nodes :: "(string \<times> node) list" where
  "sample_nodes = [(''/w'', Dir_Node), (''/w/b'', File_Node ''x''), (''/w/AGENTS.md'', File_Node ''be kind'')]"

definition sample_injection :: injected_project_instruction where
  "sample_injection = instruction_injection (plain_serde :: jv serde) \<lparr>pr_label = ''main'', pr_path = ''/w''\<rparr> ''AGENTS.md'' ''be kind'' False 7
     (stable_digest ''be kind'')"

lemma sample_agents: "utf8 ''be kind''" "trim ''be kind'' = ''be kind''"
  by (rule utf8_ascii, simp add: bv_def) code_simp

lemma done_fs_canonicalize [done_simps]:
  "fs_canonicalize canon p d = (Done q, d') \<longleftrightarrow> dk_fault d (dk_tick d) = None \<and> canon (ticked d) p = Inr q \<and> d' = ticked d"
  by (auto simp: fs_canonicalize_def done_simps)

lemma sample_canon_at: "sample_canon d p = Inr q \<longleftrightarrow> node_at d p \<noteq> None \<and> q = p"
  by (auto simp: sample_canon_def)

lemma sample_directories: "directories_down_to ''/w'' ''/w/b'' = [[]]"
  by (simp add: directories_down_to_def path_starts_with_def below_def path_parent_def relative_to_def components_def Let_def)

lemma instruction_small: "ci_bytes (ij_record sample_injection) = 7"
  by (simp add: sample_injection_def instruction_injection_def Let_def)

lemma sample_source:
  assumes "calm_with sample_nodes e"
  shows "load_source (plain_serde :: jv serde) sample_canon \<lparr>pr_label = ''main'', pr_path = ''/w''\<rparr> [''AGENTS.md''] e
    = (Done (Some sample_injection), ticked (ticked (ticked e)))"
proof -
  have nodes: "node_at e p = map_of sample_nodes p" for p using assms by (simp add: calm_with_def node_at_def)
  have flt: "dk_fault e n = None" if "dk_tick e \<le> n" for n using assms that by (simp add: calm_with_def calm_def)
  have canon: "fs_canonicalize sample_canon ''/w/AGENTS.md'' e = (Done ''/w/AGENTS.md'', ticked e)"
    by (simp add: done_simps flt sample_canon_at nodes) (simp add: sample_nodes_def)
  have there: "fs_is_file ''/w/AGENTS.md'' (ticked e) = (Done True, ticked (ticked e))"
    by (simp add: done_simps flt file_at_def nodes) (simp add: sample_nodes_def)
  have agents: "load_agents_file ''/w/AGENTS.md'' (ticked (ticked e))
      = (Done (Loaded ''be kind'' False 7 (stable_digest ''be kind'')), ticked (ticked (ticked e)))"
  proof -
    have "fs_read_bytes ''/w/AGENTS.md'' (ticked (ticked e)) = (Done ''be kind'', ticked (ticked (ticked e)))"
      by (simp add: done_simps flt nodes) (simp add: sample_nodes_def)
    then show ?thesis
      using sample_agents by (simp add: load_agents_file_def act_simps Let_def max_project_instructions_bytes_def)
  qed
  have relative: "relative_to ''/w'' ''/w/AGENTS.md'' = [''AGENTS.md'']" by (simp add: relative_to_def components_def)
  show ?thesis
    by (simp add: load_source_def act_simps join_path_def canon there agents path_starts_with_def below_def relative sample_injection_def)
qed

lemma sample_applicable:
  assumes "calm_with sample_nodes d"
  shows "\<exists>d'. applicable_injections (plain_serde :: jv serde) sample_canon [\<lparr>pr_label = ''main'', pr_path = ''/w''\<rparr>] [''/w/b''] [] d = (Done [sample_injection], d')"
proof -
  have nodes: "node_at d ''/w/b'' = Some (File_Node ''x'')" using assms by (simp add: calm_with_def node_at_def sample_nodes_def)
  have t: "calm_with sample_nodes (ticked d)" using assms by (simp add: calm_with_def) (simp add: ticked_def)
  have canon: "fs_canonicalize sample_canon ''/w/b'' d = (Done ''/w/b'', ticked d)"
    using assms by (simp add: done_simps sample_canon_at nodes calm_with_def)
  have small: "sources_bytes [sample_injection] \<le> max_project_instructions_total_bytes"
    by (simp add: sources_bytes_def instruction_small max_project_instructions_total_bytes_def max_project_instructions_bytes_def
        max_project_instruction_roots_def sat_add_def u64_max_def)
  show ?thesis
    using small by (simp add: applicable_injections_def act_simps canonical_target_path_def canon sample_directories
        sample_source [OF t] max_applicable_instructions_def is_known_def)
qed

lemma sample_deferred:
  "\<exists>d. instruction_outcome sample_orchestrator (sample_call ''read_file'' []) (Allowed [''/w/b'']) (sample_world sample_nodes (controller_new Automatic))
    = (Some (injected_outcome [sample_injection]), (sample_world sample_nodes (controller_new Automatic))\<lparr>ow_disk := d\<rparr>)"
proof -
  have "calm_with sample_nodes (ow_disk (sample_world sample_nodes (controller_new Automatic)))"
    by (simp add: calm_with_def calm_def no_faults_def)
  from sample_applicable [OF this] show ?thesis by (auto simp: instruction_outcome_def admission_target_paths_def)
qed

theorem instructions_put_a_call_off_once_witness:
  "let w = sample_world sample_nodes (controller_new Automatic); t = sample_tool (Allowed [''/w/b'']);
       again = sample_call ''read_file'' (map ij_record [sample_injection]) in
   \<exists>d. orchestrate sample_orchestrator t again w = (case tl_execute_after_admission t again (Allowed [''/w/b'']) (w\<lparr>ow_disk := d\<rparr>) of
      (out', w') \<Rightarrow> persist_large_output sample_orchestrator out' w')"
proof -
  let ?w = "sample_world sample_nodes (controller_new Automatic)"
  obtain d where put_off: "instruction_outcome sample_orchestrator (sample_call ''read_file'' []) (Allowed [''/w/b'']) ?w
      = (Some (injected_outcome [sample_injection]), ?w\<lparr>ow_disk := d\<rparr>)" using sample_deferred by blast
  have gate: "enforce_plan_selection sample_orchestrator (sample_call ''read_file'' (map ij_record [sample_injection])) ?w = (Inr (), ?w)"
    by (simp add: enforce_plan_selection_def controller_new_def controller_with_policy_def)
  show ?thesis
    unfolding Let_def
    by (rule instructions_put_a_call_off_once [OF put_off _ _ _ gate])
      (simp_all add: injected_outcome_def with_context_injection_def outcome_deferred_def plain_outcome_def canon_by_nodes_def
        sample_canon_def node_at_def calm_def no_faults_def admission_target_paths_def)
qed

definition sample_output :: tool_execution_outcome where
  "sample_output = outcome_completed (replicate 20000 (CHR ''a''))"

lemma sample_output_text: "teo_content sample_output = replicate 20000 (CHR ''a'')"
  by (simp add: sample_output_def outcome_completed_def plain_outcome_def)

lemma sample_output_utf8: "utf8 (replicate n (CHR ''a''))"
  by (rule utf8_ascii) (simp add: list_all_iff bv_def)

theorem large_output_is_kept_or_disowned_witness:
  "case persist_large_output sample_orchestrator sample_output (sample_world [] (controller_new Automatic)) of (out', w') \<Rightarrow>
     length (teo_content out') \<le> core_tool_output_bytes \<and> teo_output_truncated out' \<and> teo_status out' = teo_status sample_output
     \<and> ((\<exists>s. teo_content out' = stored_output_text s
          \<and> read_on (Suc (sr_stored_bytes s)) (sr_handle s) 0 4 (ow_results w')
            = Some (Inr (retain_head_and_tail (teo_content sample_output) max_result_bytes))
          \<and> sr_source_truncated s = (max_result_bytes < length (teo_content sample_output)))
      \<or> (\<exists>err. teo_content out' = unstored_output_text err (teo_content sample_output)
          \<and> rs_entries (ow_results w') = rs_entries (result_state_default :: jv result_state)))"
proof -
  let ?w = "sample_world [] (controller_new Automatic)"
  obtain out' w' where run: "persist_large_output sample_orchestrator sample_output ?w = (out', w')" by fastforce
  have "core_tool_output_bytes < length (teo_content sample_output)" "length (teo_content sample_output) \<le> u64_max"
    "utf8 (teo_content sample_output)"
    by (simp_all add: sample_output_text sample_output_utf8 core_tool_output_bytes_def u64_max_def)
  note big = this
  show ?thesis
    using large_output_is_kept_or_disowned [OF run big sample_sel(7) _ _ _ _ _, of 4] sample_state_inv
    unfolding run prod.case by (simp add: short_namespace_def max_page_bytes_def del: read_on.simps)
qed

end
