(* ===== verification/Goal_Runtime.thy ===== *)
theory Goal_Runtime
  imports Goal
begin

section \<open>The owner of a thread's goal (goal_runtime.rs)\<close>

text \<open>
  The App Server's serialized owner of one goal: it decides when a goal is created, paused,
  resumed and scheduled, which settled turn is verified, and what a verdict does to the goal.
  The durable state is the file of \<open>Goal\<close>; the runtime adds the verification in flight
  and the turn reserved for the goal.  The verifier's configuration is opaque to this code, and
  the default verifier of the model catalog is the call \<open>gr_verifier_default\<close>.
\<close>

subsection \<open>Data\<close>

datatype thread_goal_status = Active | Paused | Blocked | UsageLimited | BudgetLimited | Complete

record pending_verification =
  pv_goal_id :: string
  pv_turn_id :: turn_id
  pv_checkpoint_seq :: nat

record ('v, 'c) goal_verification_request =
  vr_thread_id :: thread_id
  vr_goal_id :: string
  vr_turn_id :: turn_id
  vr_checkpoint_seq :: nat
  vr_messages :: "'v message list"
  vr_criteria :: string
  vr_runtime_config :: 'c
  vr_verifier_model_selection :: "model_selection option"

datatype goal_runtime_event =
    Goal_Updated thread_id "turn_id option" goal_state nat
  | Goal_Cleared thread_id nat

text \<open>Sending on a broadcast channel never fails the sender; the channels are what was sent.\<close>

record 'c goal_runtime =
  gr_store :: host_workflow_store
  gr_events :: "goal_runtime_event list"
  gr_notifications :: "goal_runtime_event list option"
  gr_verifier_config :: "'c option"
  gr_verifier_default :: "model_selection option io"
  gr_pending :: "pending_verification option"
  gr_scheduled :: "string option"

type_synonym ('c, 'a) goal_act = "('c goal_runtime \<times> disk, io_error, 'a) act"

definition with_notifications ::
  "host_workflow_store \<Rightarrow> goal_runtime_event list \<Rightarrow> 'c option \<Rightarrow> goal_runtime_event list option
    \<Rightarrow> model_selection option io \<Rightarrow> 'c goal_runtime" where
  "with_notifications store events verifier notifications verifier_default = \<lparr>gr_store = store, gr_events = events,
     gr_notifications = notifications, gr_verifier_config = verifier, gr_verifier_default = verifier_default,
     gr_pending = None, gr_scheduled = None\<rparr>"

text \<open>A call of the store.\<close>

definition in_store :: "(host_workflow_store \<Rightarrow> 'a io) \<Rightarrow> ('c, 'a) goal_act" where
  "in_store f = bindA (getA (\<lambda>(g, d). gr_store g)) (\<lambda>hw. on_disk (f hw))"

definition in_runtime :: "('c goal_runtime \<Rightarrow> 'c goal_runtime) \<Rightarrow> ('c, unit) goal_act" where
  "in_runtime f = modA (\<lambda>(g, d). (f g, d))"

text \<open>\<open>ok_or_else(|| io::Error::other(...))\<close>.\<close>

definition present :: "string \<Rightarrow> 'a option \<Rightarrow> ('s, io_error, 'a) act" where
  "present missing x = (case x of None \<Rightarrow> raiseA (io_error Io_Other missing) | Some v \<Rightarrow> retA v)"

definition owns_continuation_mode :: "('c, bool) goal_act" where
  "owns_continuation_mode = bindA (in_store load_goal_state) (\<lambda>loaded. retA (case loaded of
     None \<Rightarrow> False | Some goal \<Rightarrow> go_status goal = Goal_Running))"

subsection \<open>Setting and clearing\<close>

definition invalid_input :: "string \<Rightarrow> io_error" where
  "invalid_input = io_error Io_InvalidInput"

definition create_goal ::
  "string option \<Rightarrow> thread_goal_status option \<Rightarrow> int option option \<Rightarrow> ('c, goal_state) goal_act" where
  "create_goal objective status token_budget =
    (if status \<noteq> None \<and> status \<noteq> Some Active
     then raiseA (invalid_input ''a new Goal must start with active status'')
     else (case objective of
         None \<Rightarrow> raiseA (invalid_input ''objective is required when creating a Goal'')
       | Some o' \<Rightarrow>
           if trim o' = [] then raiseA (invalid_input ''objective is required when creating a Goal'')
           else seqA (in_runtime (\<lambda>g. g\<lparr>gr_scheduled := None\<rparr>))
             (bindA (in_store (\<lambda>hw. set_goal hw o' (Option.bind token_budget (\<lambda>b. b)))) (\<lambda>created.
              bindA (getA (\<lambda>(g, d). g)) (\<lambda>g.
              bindA (case gr_verifier_config g of None \<Rightarrow> retA None | Some _ \<Rightarrow> on_disk (gr_verifier_default g))
                (\<lambda>selection.
              bindA (in_store (\<lambda>hw. set_goal_verifier_selection hw selection))
                (present ''Goal state disappeared while selecting verifier'')))))))"

definition default_status :: "goal_status \<Rightarrow> thread_goal_status option" where
  "default_status status = (case status of
     Goal_Running \<Rightarrow> Some Active | Goal_UserPaused \<Rightarrow> Some Paused | _ \<Rightarrow> None)"

text \<open>The pause or resume a request asks for.\<close>

definition move_goal :: "goal_state \<Rightarrow> thread_goal_status \<Rightarrow> ('c, goal_state) goal_act" where
  "move_goal goal requested =
    (if go_status goal = Goal_Running \<and> requested = Paused
     then bindA (in_store pause_goal) (present ''goal state disappeared'')
     else if go_status goal = Goal_UserPaused \<and> requested = Active
     then bindA (in_store resume_goal) (present ''goal state disappeared'')
     else retA goal)"

definition apply_goal_set ::
  "string option \<Rightarrow> thread_goal_status option \<Rightarrow> int option option \<Rightarrow> ('c, goal_state) goal_act" where
  "apply_goal_set objective status token_budget =
    bindA (in_store load_goal_state) (\<lambda>loaded. case loaded of
      None \<Rightarrow> create_goal objective status token_budget
    | Some current \<Rightarrow> (case default_status (go_status current) of
        None \<Rightarrow> create_goal objective status token_budget
      | Some usual \<Rightarrow>
          let requested = (case status of None \<Rightarrow> usual | Some s \<Rightarrow> s) in
          if requested \<noteq> Active \<and> requested \<noteq> Paused
          then raiseA (invalid_input ''Goal can only transition to active or paused'')
          else bindA (if objective \<noteq> None \<or> token_budget \<noteq> None
              then bindA (in_store (\<lambda>hw. update_goal hw objective token_budget)) (present ''goal state disappeared'')
              else retA current) (\<lambda>goal.
            bindA (move_goal goal requested) (\<lambda>moved.
            seqA (if go_status moved \<noteq> Goal_Running then in_runtime (\<lambda>g. g\<lparr>gr_scheduled := None\<rparr>) else retA ())
              (retA moved)))))"

record goal_set_outcome =
  gs_previous :: "goal_state option"
  gs_current :: goal_state

definition set_goal_runtime ::
  "string option \<Rightarrow> thread_goal_status option \<Rightarrow> int option option \<Rightarrow> ('c, goal_set_outcome) goal_act" where
  "set_goal_runtime objective status token_budget =
    bindA (in_store load_goal_state) (\<lambda>previous.
    bindA (apply_goal_set objective status token_budget) (\<lambda>current.
    retA \<lparr>gs_previous = previous, gs_current = current\<rparr>))"

definition set_changed :: "goal_set_outcome \<Rightarrow> bool" where
  "set_changed out = (case gs_previous out of
     None \<Rightarrow> True
   | Some previous \<Rightarrow> go_goal_id previous \<noteq> go_goal_id (gs_current out)
       \<or> go_objective previous \<noteq> go_objective (gs_current out)
       \<or> go_status previous \<noteq> go_status (gs_current out)
       \<or> go_token_budget previous \<noteq> go_token_budget (gs_current out))"

definition clear_goal_runtime :: "('c, bool) goal_act" where
  "clear_goal_runtime = seqA (in_runtime (\<lambda>g. g\<lparr>gr_pending := None, gr_scheduled := None\<rparr>)) (in_store clear_goal)"

subsection \<open>Turns of the goal\<close>

definition reserve_turn :: "string \<Rightarrow> 'c goal_runtime \<Rightarrow> bool \<times> 'c goal_runtime" where
  "reserve_turn goal_id g =
    (if gr_scheduled g = Some goal_id then (False, g) else (True, g\<lparr>gr_scheduled := Some goal_id\<rparr>))"

definition release_turn :: "string \<Rightarrow> 'c goal_runtime \<Rightarrow> 'c goal_runtime" where
  "release_turn goal_id g = (if gr_scheduled g = Some goal_id then g\<lparr>gr_scheduled := None\<rparr> else g)"

definition mark_turn_started :: "string \<Rightarrow> turn_id \<Rightarrow> ('c, goal_state option) goal_act" where
  "mark_turn_started goal_id turn_id = seqA (in_runtime (\<lambda>g. g\<lparr>gr_scheduled := None\<rparr>))
     (in_store (\<lambda>hw. mark_goal_turn_started hw goal_id (turn_id_str turn_id)))"

definition mark_turn_settled :: "string \<Rightarrow> turn_id \<Rightarrow> ('c, goal_state option) goal_act" where
  "mark_turn_settled goal_id turn_id = in_store (\<lambda>hw. mark_goal_turn_settled hw goal_id (turn_id_str turn_id))"

definition limit_turn :: "string \<Rightarrow> turn_id \<Rightarrow> goal_status \<Rightarrow> string \<Rightarrow> ('c, goal_state option) goal_act" where
  "limit_turn goal_id turn_id status reason =
    in_store (\<lambda>hw. limit_goal_turn hw goal_id (turn_id_str turn_id) status reason)"

definition record_turn_usage :: "string \<Rightarrow> turn_id \<Rightarrow> nat \<Rightarrow> ('c, goal_state option) goal_act" where
  "record_turn_usage goal_id turn_id tokens =
    in_store (\<lambda>hw. record_goal_usage hw goal_id (turn_id_str turn_id) tokens)"

definition fail_goal :: "string \<Rightarrow> ('c, goal_state) goal_act" where
  "fail_goal reason = in_store (\<lambda>hw. fail_goal_with_reason hw reason)"

subsection \<open>Verification\<close>

definition prepare_verification ::
  "thread_id \<Rightarrow> string \<Rightarrow> nat \<Rightarrow> 'v message list
    \<Rightarrow> ('c, ('v, 'c) goal_verification_request option) goal_act" where
  "prepare_verification thread_id goal_id checkpoint_seq messages =
    bindA (getA (\<lambda>(g, d). g)) (\<lambda>g.
    if gr_pending g \<noteq> None then retA None
    else bindA (in_store load_goal_state) (\<lambda>loaded. case loaded of
      None \<Rightarrow> retA None
    | Some state \<Rightarrow> (case go_active_turn_id state of
        None \<Rightarrow> retA None
      | Some turn \<Rightarrow>
          if go_goal_id state \<noteq> goal_id \<or> go_status state \<noteq> Goal_Running \<or> \<not> go_active_turn_settled state
          then retA None
          else bindA (in_store (\<lambda>hw. mark_goal_verification_started hw (go_goal_id state) turn checkpoint_seq))
            (\<lambda>_. case gr_verifier_config g of
              None \<Rightarrow> raiseA (invalid_input ''goal verifier is not configured'')
            | Some config \<Rightarrow> bindA (in_store goal_verification_criteria) (\<lambda>criteria.
                seqA (in_runtime (\<lambda>g. g\<lparr>gr_pending := Some \<lparr>pv_goal_id = go_goal_id state,
                    pv_turn_id = TurnId turn, pv_checkpoint_seq = checkpoint_seq\<rparr>\<rparr>))
                  (retA (Some \<lparr>vr_thread_id = thread_id, vr_goal_id = go_goal_id state, vr_turn_id = TurnId turn,
                    vr_checkpoint_seq = checkpoint_seq, vr_messages = messages, vr_criteria = criteria,
                    vr_runtime_config = config,
                    vr_verifier_model_selection = go_verifier_model_selection state\<rparr>)))))))"

definition drop_pending :: "('c, unit) goal_act" where
  "drop_pending = in_runtime (\<lambda>g. g\<lparr>gr_pending := None\<rparr>)"

text \<open>What the verifier's answer does to the goal.\<close>

definition settle_verdict :: "nat \<Rightarrow> string + string \<times> verifier_verdict \<Rightarrow> ('c, goal_state) goal_act" where
  "settle_verdict checkpoint_seq result = (case result of
     Inr (output, verdict) \<Rightarrow>
       caseA (in_store (\<lambda>hw. record_verifier_verdict hw checkpoint_seq output))
         (\<lambda>_. in_store (\<lambda>hw. advance_goal_milestone hw (Some verdict)))
         (\<lambda>err. fail_goal (ie_text err))
   | Inl err \<Rightarrow>
       bindA (fail_goal err) (\<lambda>failed.
         seqA (in_store (\<lambda>hw. ignoring (record_verifier_failure hw checkpoint_seq err))) (retA failed)))"

definition stale_reason :: string where
  "stale_reason = ''goal verifier result was stale for the settled checkpoint''"

definition complete_verification ::
  "string \<Rightarrow> turn_id \<Rightarrow> nat \<Rightarrow> nat \<Rightarrow> string + string \<times> verifier_verdict
    \<Rightarrow> ('c, goal_state option) goal_act" where
  "complete_verification goal_id turn_id checkpoint_seq current_checkpoint_seq result =
    bindA (getA (\<lambda>(g, d). gr_pending g)) (\<lambda>pending. case pending of
      None \<Rightarrow> retA None
    | Some p \<Rightarrow>
        if pv_goal_id p \<noteq> goal_id \<or> pv_turn_id p \<noteq> turn_id then retA None
        else bindA (in_store load_goal_state) (\<lambda>loaded. case loaded of
          None \<Rightarrow> seqA drop_pending (retA None)
        | Some state \<Rightarrow>
            if go_goal_id state \<noteq> goal_id \<or> go_status state \<noteq> Goal_Running
              \<or> go_active_turn_id state \<noteq> Some (turn_id_str turn_id) \<or> \<not> go_active_turn_settled state
            then seqA drop_pending (retA None)
            else if pv_checkpoint_seq p \<noteq> checkpoint_seq \<or> pv_checkpoint_seq p \<noteq> current_checkpoint_seq
            then seqA drop_pending (bindA (fail_goal stale_reason) (\<lambda>failed. retA (Some failed)))
            else seqA drop_pending (bindA (settle_verdict checkpoint_seq result) (\<lambda>settled. retA (Some settled)))))"

subsection \<open>What the thread is told\<close>

definition notify :: "goal_runtime_event \<Rightarrow> 'c goal_runtime \<Rightarrow> 'c goal_runtime" where
  "notify ev g = g\<lparr>gr_events := gr_events g @ [ev], gr_notifications := map_option (\<lambda>sent. sent @ [ev]) (gr_notifications g)\<rparr>"

definition notify_updated ::
  "thread_id \<Rightarrow> turn_id option \<Rightarrow> goal_state \<Rightarrow> nat \<Rightarrow> 'c goal_runtime \<Rightarrow> 'c goal_runtime" where
  "notify_updated thread_id turn_id state revision = notify (Goal_Updated thread_id turn_id state revision)"

definition notify_cleared :: "thread_id \<Rightarrow> nat \<Rightarrow> 'c goal_runtime \<Rightarrow> 'c goal_runtime" where
  "notify_cleared thread_id revision = notify (Goal_Cleared thread_id revision)"

record thread_goal =
  tg_thread_id :: thread_id
  tg_objective :: string
  tg_status :: thread_goal_status
  tg_token_budget :: "int option"
  tg_tokens_used :: int
  tg_time_used_seconds :: nat
  tg_created_at :: nat
  tg_updated_at :: nat
  tg_current_milestone :: nat
  tg_total_milestones :: nat
  tg_loop_count :: nat
  tg_verifier_model_selection :: "model_selection option"
  tg_last_verifier_score :: "nat option"
  tg_last_error :: "string option"
  tg_verification_status :: string

definition project_status :: "goal_status \<Rightarrow> thread_goal_status" where
  "project_status status = (case status of
     Goal_Running \<Rightarrow> Active | Goal_Converged \<Rightarrow> Complete | Goal_Failed \<Rightarrow> Blocked
   | Goal_UserPaused \<Rightarrow> Paused | Goal_UsageLimited \<Rightarrow> UsageLimited | Goal_BudgetLimited \<Rightarrow> BudgetLimited)"

definition project_verification :: "goal_verification_status \<Rightarrow> string" where
  "project_verification status = (case status of
     Verification_Idle \<Rightarrow> ''idle'' | Verification_Running \<Rightarrow> ''running''
   | Verification_Completed \<Rightarrow> ''completed'' | Verification_Failed \<Rightarrow> ''failed'')"

definition project_goal :: "thread_id \<Rightarrow> goal_state \<Rightarrow> thread_goal" where
  "project_goal thread_id state = \<lparr>tg_thread_id = thread_id, tg_objective = go_objective state,
     tg_status = project_status (go_status state), tg_token_budget = go_token_budget state,
     tg_tokens_used = go_tokens_used state,
     tg_time_used_seconds = (if go_created_at_ms state = 0 then 0
       else (go_updated_at_ms state - go_created_at_ms state) div 1000),
     tg_created_at = go_created_at_ms state div 1000, tg_updated_at = go_updated_at_ms state div 1000,
     tg_current_milestone = go_current_milestone state, tg_total_milestones = go_total_milestones state,
     tg_loop_count = go_loop_count state, tg_verifier_model_selection = go_verifier_model_selection state,
     tg_last_verifier_score = go_last_verifier_score state, tg_last_error = go_last_error state,
     tg_verification_status = project_verification (go_verification_status state)\<rparr>"

end
