(* ===== verification/Goal_Claims.thy ===== *)
theory Goal_Claims
  imports Goal_Runtime "HOL-Library.Countable"
begin

section \<open>What a goal's file and its owner guarantee\<close>

text \<open>
  The state file is read back through \<open>goal_on_disk\<close>.  Under the round-trip law of
  \<open>serde_json\<close> and with writes that, when they fail, leave no readable goal behind, every
  store operation either leaves the stored goal, loses it, or replaces it by the next state
  (\<open>moves\<close>).  From that follow the properties of the owner: a goal converges only by an
  approving verdict for the settled checkpoint of its own turn, it goes on for a bounded number
  of rounds, and a verdict decides the goal as the milestones say.
\<close>

subsection \<open>The stored goal\<close>

definition goal_text :: "host_workflow_store \<Rightarrow> string \<Rightarrow> goal_state option" where
  "goal_text hw content = (if utf8 content then (case hj_goal_of (hw_json hw) content of Inl _ \<Rightarrow> None | Inr s \<Rightarrow> Some s) else None)"

definition goal_on_disk :: "host_workflow_store \<Rightarrow> disk \<Rightarrow> goal_state option" where
  "goal_on_disk hw d = Option.bind (file_at d (state_file hw)) (goal_text hw)"

definition goal_json_law :: "host_workflow_store \<Rightarrow> bool" where
  "goal_json_law hw \<longleftrightarrow> (\<forall>s. utf8 (hj_goal (hw_json hw) s) \<and> hj_goal_of (hw_json hw) (hj_goal (hw_json hw) s) = Inr s)"

definition torn_writes :: "host_workflow_store \<Rightarrow> disk \<Rightarrow> bool" where
  "torn_writes hw d \<longleftrightarrow> (\<forall>t x left. dk_fault d t = Some x \<longrightarrow> ft_leftover x = Some left \<longrightarrow> goal_text hw left = None)"

lemma goal_text_written [simp]: "goal_json_law hw \<Longrightarrow> goal_text hw (hj_goal (hw_json hw) s) = Some s"
  by (simp add: goal_text_def goal_json_law_def)

lemma torn_leftover: "torn_writes hw d \<Longrightarrow> dk_fault d t = Some x \<Longrightarrow> ft_leftover x = Some left \<Longrightarrow> goal_text hw left = None"
  by (simp add: torn_writes_def)

lemma goal_on_disk_ticked [simp]: "goal_on_disk hw (ticked d) = goal_on_disk hw d"
  by (simp add: goal_on_disk_def)

lemma goal_on_disk_put: "goal_on_disk hw (put_node p n d) =
    (if p = state_file hw then Option.bind (file_of (Some n)) (goal_text hw) else goal_on_disk hw d)"
  by (simp add: goal_on_disk_def)

lemma torn_writes_congs [simp]: "torn_writes hw (ticked d) = torn_writes hw d" "torn_writes hw (put_node p n d) = torn_writes hw d"
    "torn_writes hw (drop_nodes q d) = torn_writes hw d"
  by (simp_all add: torn_writes_def)

lemma goal_files_differ [simp]: "verdict_file hw \<noteq> state_file hw" "state_file hw \<noteq> verdict_file hw"
    "goal_plan_file hw \<noteq> state_file hw" "join_path (goal_dir hw) ''plan.baseline.md'' \<noteq> state_file hw"
    "goal_plan_file hw \<noteq> verdict_file hw" "verdict_file hw \<noteq> goal_plan_file hw"
  by (simp_all add: verdict_file_def state_file_def goal_plan_file_def join_path_def)

subsection \<open>Moves of the stored goal\<close>

text \<open>
  \<open>moves hw U\<close>: a computation keeps the laws of the disk and leaves the stored goal, loses it, or
  replaces it by a \<open>U\<close>-successor.
\<close>

definition moved :: "host_workflow_store \<Rightarrow> (goal_state \<Rightarrow> goal_state \<Rightarrow> bool) \<Rightarrow> disk \<Rightarrow> disk \<Rightarrow> bool" where
  "moved hw U d d' \<longleftrightarrow> torn_writes hw d' \<and> (goal_on_disk hw d' = goal_on_disk hw d \<or> goal_on_disk hw d' = None
     \<or> (\<exists>s s'. goal_on_disk hw d = Some s \<and> goal_on_disk hw d' = Some s' \<and> U s s'))"

definition moves :: "host_workflow_store \<Rightarrow> (goal_state \<Rightarrow> goal_state \<Rightarrow> bool) \<Rightarrow> 'a io \<Rightarrow> bool" where
  "moves hw U m \<longleftrightarrow> (\<forall>d. torn_writes hw d \<longrightarrow> wp m (\<lambda>r d'. moved hw U d d') d)"

text \<open>A computation that writes no goal: the stored goal stays or is lost.\<close>

abbreviation spares :: "host_workflow_store \<Rightarrow> 'a io \<Rightarrow> bool" where
  "spares hw \<equiv> moves hw (\<lambda>s s'. False)"

definition leaves :: "host_workflow_store \<Rightarrow> 'a io \<Rightarrow> bool" where
  "leaves hw m \<longleftrightarrow> (\<forall>d. torn_writes hw d \<longrightarrow> wp m (\<lambda>r d'. torn_writes hw d' \<and> goal_on_disk hw d' = goal_on_disk hw d) d)"

named_theorems leave_rules \<open>computations that leave the stored goal\<close>

lemma leaves_basic [leave_rules]: "leaves hw (retA x)" "leaves hw (raiseA e)" "leaves hw (getA f)" "leaves hw tick" "leaves hw fs_now_ms"
  by (simp_all add: leaves_def wp_simps)

lemma leaves_bindA [leave_rules]: "leaves hw m \<Longrightarrow> (\<And>x. leaves hw (f x)) \<Longrightarrow> leaves hw (bindA m f)"
  unfolding leaves_def wp_simps
  by (auto simp: wp_def split: outcome.split)

lemma leaves_seqA [leave_rules]: "leaves hw m \<Longrightarrow> leaves hw n \<Longrightarrow> leaves hw (seqA m n)"
  unfolding seqA_def by (rule leaves_bindA)

lemma leaves_caseA [leave_rules]:
  "leaves hw m \<Longrightarrow> (\<And>x. leaves hw (f x)) \<Longrightarrow> (\<And>e. leaves hw (g e)) \<Longrightarrow> leaves hw (caseA m f g)"
  unfolding leaves_def wp_simps
  by (auto simp: wp_def split: outcome.split)

lemma leaves_if [leave_rules]: "leaves hw m \<Longrightarrow> leaves hw n \<Longrightarrow> leaves hw (if b then m else n)"
  by simp

lemma leaves_option [leave_rules]:
  "leaves hw m \<Longrightarrow> (\<And>x. leaves hw (f x)) \<Longrightarrow> leaves hw (case opt of None \<Rightarrow> m | Some x \<Rightarrow> f x)"
  by (cases opt) auto

lemma leaves_sum [leave_rules]:
  "(\<And>x. leaves hw (f x)) \<Longrightarrow> (\<And>y. leaves hw (g y)) \<Longrightarrow> leaves hw (case r of Inl x \<Rightarrow> f x | Inr y \<Rightarrow> g y)"
  by (cases r) auto

lemma leaves_let [leave_rules]: "(\<And>x. leaves hw (f x)) \<Longrightarrow> leaves hw (let x = t in f x)"
  by (simp add: Let_def)

lemma leaves_unless_fault [leave_rules]: "leaves hw m \<Longrightarrow> leaves hw (unless_fault m)"
  unfolding unless_fault_def by (intro leave_rules)

lemma leaves_reads [leave_rules]: "leaves hw (fs_read p)" "leaves hw (fs_read_bytes p)" "leaves hw (fs_exists p)" "leaves hw (fs_is_file p)"
  by (auto simp: leaves_def fs_calls wp_simps split: option.split node.split)

lemma leaves_fs_write [leave_rules]: "p \<noteq> state_file hw \<Longrightarrow> leaves hw (fs_write p s)"
  by (auto simp: leaves_def fs_calls wp_simps goal_on_disk_put split: option.split)

lemma leaves_fs_copy [leave_rules]: "q \<noteq> state_file hw \<Longrightarrow> leaves hw (fs_copy p q)"
  unfolding fs_copy_def with_file_def
  by (intro leave_rules) (auto split: node.split intro: leave_rules)

lemma leaves_ignoring [leave_rules]: "leaves hw m \<Longrightarrow> leaves hw (ignoring m)"
  unfolding ignoring_def by (intro leave_rules)

lemma node_at_ensure_dir: "node_at (fold ensure_dir ps d) q = (case node_at d q of Some n \<Rightarrow> Some n
    | None \<Rightarrow> if q \<in> set ps then Some Dir_Node else None)"
  by (induction ps arbitrary: d) (auto simp: ensure_dir_def split: option.splits)

lemma dk_fault_ensure_dir [simp]: "dk_fault (fold ensure_dir ps d) = dk_fault d"
  by (induction ps arbitrary: d) (auto simp: ensure_dir_def)

lemma leaves_create_dir_all [leave_rules]: "leaves hw (fs_create_dir_all p)"
proof -
  have "goal_on_disk hw (fold ensure_dir ps d) = goal_on_disk hw d" for ps d
    by (auto simp: goal_on_disk_def file_at_def node_at_ensure_dir split: option.split)
  moreover have "torn_writes hw (fold ensure_dir ps d) = torn_writes hw d" for ps d
    by (simp add: torn_writes_def)
  ultimately show ?thesis
    by (auto simp: leaves_def fs_create_dir_all_def wp_simps simp del: fold_append split: option.split)
qed

lemma leaves_load [leave_rules]: "leaves hw (load_goal_state hw')"
  unfolding load_goal_state_def by (intro leave_rules)

lemma leaves_moves: "leaves hw m \<Longrightarrow> moves hw U m"
  by (auto simp: leaves_def moves_def moved_def wp_def)

lemma load_answers: "wp (load_goal_state hw) (\<lambda>r d'. goal_on_disk hw d' = goal_on_disk hw d \<and> (torn_writes hw d' = torn_writes hw d)
    \<and> r \<noteq> Out_of_fuel \<and> (\<forall>s. r = Done (Some s) \<longrightarrow> goal_on_disk hw d = Some s)) d"
  by (auto simp: load_goal_state_def fs_calls wp_simps goal_on_disk_def goal_text_def split: option.split node.split sum.split)

lemma write_answers:
  assumes "goal_json_law hw" and "torn_writes hw d"
  shows "wp (write_goal_state hw s) (\<lambda>r d'. torn_writes hw d' \<and> (case r of
      Done _ \<Rightarrow> goal_on_disk hw d' = Some s
    | Raised _ \<Rightarrow> goal_on_disk hw d' = goal_on_disk hw d \<or> goal_on_disk hw d' = None | Out_of_fuel \<Rightarrow> False)) d"
  using assms by (auto simp: write_goal_state_def fs_calls wp_simps goal_on_disk_put dest: torn_leftover split: option.split)

text \<open>How an update ends.\<close>

definition updated :: "host_workflow_store \<Rightarrow> (goal_state \<Rightarrow> goal_state \<Rightarrow> bool) \<Rightarrow> disk
    \<Rightarrow> (io_error, goal_state option) outcome \<Rightarrow> disk \<Rightarrow> bool" where
  "updated hw U d r d' \<longleftrightarrow> torn_writes hw d' \<and> (case r of
     Done None \<Rightarrow> goal_on_disk hw d' = goal_on_disk hw d
   | Done (Some s') \<Rightarrow> goal_on_disk hw d' = Some s' \<and> (\<exists>s. goal_on_disk hw d = Some s \<and> U s s')
   | Raised _ \<Rightarrow> goal_on_disk hw d' = goal_on_disk hw d \<or> goal_on_disk hw d' = None
   | Out_of_fuel \<Rightarrow> False)"

text \<open>An update that only reads the clock and takes a stored goal to a \<open>U\<close>-successor.\<close>

definition takes :: "host_workflow_store \<Rightarrow> (goal_state \<Rightarrow> goal_state \<Rightarrow> bool) \<Rightarrow> (goal_state \<Rightarrow> goal_state option io) \<Rightarrow> bool" where
  "takes hw U upd \<longleftrightarrow> (\<forall>s d. wp (upd s) (\<lambda>r d'. goal_on_disk hw d' = goal_on_disk hw d
     \<and> torn_writes hw d' = torn_writes hw d \<and> (case r of Done (Some s') \<Rightarrow> U s s' | Done None \<Rightarrow> True | _ \<Rightarrow> False)) d)"

lemma takes_stamped: "(\<And>s n. U s ((f s)\<lparr>go_updated_at_ms := n\<rparr>)) \<Longrightarrow> takes hw U (stamped f)"
  by (simp add: takes_def stamped_def wp_simps)

lemma takes_none: "takes hw U (\<lambda>s. retA None)"
  by (simp add: takes_def wp_simps)

lemma takes_some: "(\<And>s. U s s) \<Longrightarrow> takes hw U (\<lambda>s. retA (Some s))"
  by (simp add: takes_def wp_simps)

lemma update_answers:
  assumes law: "goal_json_law hw" and torn: "torn_writes hw d" and upd: "takes hw U upd"
  shows "wp (update_goal_state hw upd) (updated hw U d) d"
proof -
  obtain r1 d1 where load: "load_goal_state hw d = (r1, d1)" by fastforce
  note l = wpD [OF load_answers load]
  show ?thesis
  proof (cases "\<exists>s. r1 = Done (Some s)")
    case False
    with l load torn show ?thesis
      by (cases r1) (auto simp: wp_def update_goal_state_def act_simps updated_def split: option.splits)
  next
    case True
    then obtain s where s: "r1 = Done (Some s)" by blast
    obtain r2 d2 where u: "upd s d1 = (r2, d2)" by fastforce
    from upd have "wp (upd s) (\<lambda>r d'. goal_on_disk hw d' = goal_on_disk hw d1 \<and> torn_writes hw d' = torn_writes hw d1
        \<and> (case r of Done (Some s') \<Rightarrow> U s s' | Done None \<Rightarrow> True | _ \<Rightarrow> False)) d1"
      by (simp add: takes_def)
    note r2 = wpD [OF this u]
    show ?thesis
    proof (cases "r2 = Done None")
      case True
      with l load torn s u r2 show ?thesis
        by (simp add: wp_def update_goal_state_def act_simps updated_def)
    next
      case False
      with r2 obtain s' where s': "r2 = Done (Some s')" "U s s'" by (auto split: outcome.splits option.splits)
      obtain r3 d3 where w: "write_goal_state hw s' d2 = (r3, d3)" by fastforce
      have "torn_writes hw d2" using l r2 torn by simp
      note w3 = wpD [OF write_answers [OF law this] w]
      from l load torn s u r2 s' w w3 show ?thesis
        by (cases r3) (auto simp: wp_def update_goal_state_def act_simps updated_def)
    qed
  qed
qed

lemma updated_moved: "updated hw U d r d' \<Longrightarrow> moved hw U d d'"
  by (auto simp: updated_def moved_def split: outcome.splits option.splits)

lemma update_moves:
  assumes "goal_json_law hw" and "takes hw U upd"
  shows "moves hw U (update_goal_state hw upd)"
  using update_answers [OF assms(1) _ assms(2)] by (auto simp: moves_def intro: wp_conseq dest: updated_moved)

lemma update_running_takes:
  assumes "\<And>s n. go_status s = Goal_Running \<Longrightarrow> go_goal_id s = goal_id \<Longrightarrow> U s ((f s)\<lparr>go_updated_at_ms := n\<rparr>)"
  shows "takes hw U (\<lambda>state. if go_goal_id state \<noteq> goal_id \<or> go_status state \<noteq> Goal_Running
     \<or> (turn_id \<noteq> None \<and> go_active_turn_id state \<noteq> turn_id) then retA None else stamped f state)"
  using assms by (auto simp: takes_def stamped_def wp_simps)

lemmas update_running_moves = update_moves [OF _ update_running_takes, folded update_running_goal_def]
lemmas update_running_answers = update_answers [OF _ _ update_running_takes, folded update_running_goal_def]

text \<open>The other operations that write the goal.\<close>

lemma limit_goal_moves:
  assumes law: "goal_json_law hw" and U: "\<And>s n. U s (limited status reason n s)"
  shows "moves hw U (limit_goal_with_reason hw status reason)"
  unfolding moves_def
proof (intro allI impI)
  fix d assume torn: "torn_writes hw d"
  obtain r1 d1 where load: "load_goal_state hw d = (r1, d1)" by fastforce
  note l = wpD [OF load_answers load]
  show "wp (limit_goal_with_reason hw status reason) (\<lambda>r d'. moved hw U d d') d"
  proof (cases "\<exists>s. r1 = Done (Some s)")
    case False
    with l load torn show ?thesis
      by (cases r1) (auto simp: wp_def limit_goal_with_reason_def act_simps moved_def split: option.splits)
  next
    case True
    then obtain s where s: "r1 = Done (Some s)" by blast
    define s' where "s' = limited status reason (dk_clock d1 (dk_tick d1)) s"
    obtain r3 d3 where w: "write_goal_state hw s' (ticked d1) = (r3, d3)" by fastforce
    have "torn_writes hw (ticked d1)" using l torn by simp
    note w3 = wpD [OF write_answers [OF law this] w]
    have rest: "moved hw U d (snd (n d3))" if "leaves hw n" for n :: "goal_state io"
      using that w3 l s U torn unfolding leaves_def moved_def s'_def wp_def
      by (cases r3) (auto simp: leaves_def)
    have after: "leaves hw (seqA (if b then write_verifier_failure hw None z else retA ()) (retA s'))" for b z
      by (auto simp: write_verifier_failure_def intro!: leave_rules)
    show ?thesis
      using l load s w w3 rest [OF after] rest [OF leaves_basic(1)]
      by (cases r3) (auto simp: wp_def limit_goal_with_reason_def Let_def act_simps s'_def fs_now_ms_def)
  qed
qed

definition advance_step :: "verifier_verdict option \<Rightarrow> goal_state \<Rightarrow> goal_state \<Rightarrow> bool" where
  "advance_step v s s' \<longleftrightarrow> go_status s = Goal_Running \<and> (\<exists>n. s' = (advanced v s)\<lparr>go_updated_at_ms := n\<rparr>)"

lemma advance_answers:
  assumes law: "goal_json_law hw" and torn: "torn_writes hw d"
  shows "wp (advance_goal_milestone hw v) (\<lambda>r d'. moved hw (advance_step v) d d' \<and> (\<forall>s'. r = Done s' \<longrightarrow>
      goal_on_disk hw d' = Some s' \<and> (\<exists>s. goal_on_disk hw d = Some s \<and> (advance_step v s s' \<or> go_status s \<noteq> Goal_Running \<and> s' = s)))) d"
proof -
  obtain r1 d1 where load: "load_goal_state hw d = (r1, d1)" by fastforce
  note l = wpD [OF load_answers load]
  show ?thesis
  proof (cases "\<exists>s. r1 = Done (Some s) \<and> go_status s = Goal_Running")
    case False
    with l load torn show ?thesis
      by (cases r1) (auto simp: wp_def advance_goal_milestone_def act_simps moved_def split: option.splits)
  next
    case True
    then obtain s where s: "r1 = Done (Some s)" "go_status s = Goal_Running" by blast
    define s' where "s' = (advanced v s)\<lparr>go_updated_at_ms := dk_clock d1 (dk_tick d1)\<rparr>"
    obtain r3 d3 where w: "write_goal_state hw s' (ticked d1) = (r3, d3)" by fastforce
    have "torn_writes hw (ticked d1)" using l torn by simp
    note w3 = wpD [OF write_answers [OF law this] w]
    have "advance_step v s s'" using s by (auto simp: advance_step_def s'_def)
    then show ?thesis
      using l load s w w3
      by (cases r3) (auto simp: wp_def advance_goal_milestone_def Let_def act_simps s'_def [symmetric] fs_now_ms_def moved_def)
  qed
qed

lemma clear_moves: "moves hw U (clear_goal hw)"
  by (auto simp: moves_def moved_def clear_goal_def fs_calls wp_simps goal_on_disk_def split: option.split node.split)

lemma spares_write:
  assumes "goal_json_law hw" and "P s" and "torn_writes hw d" and "\<forall>s. goal_on_disk hw d = Some s \<longrightarrow> P s"
  shows "wp (write_goal_state hw s) (\<lambda>r d'. torn_writes hw d' \<and> (\<forall>s. goal_on_disk hw d' = Some s \<longrightarrow> P s)) d"
  by (rule wp_conseq [OF write_answers [OF assms(1,3)]]) (use assms(2,4) in \<open>auto split: outcome.splits\<close>)

subsection \<open>Invariants of the stored goal\<close>

definition goal_inv :: "host_workflow_store \<Rightarrow> (goal_state \<Rightarrow> bool) \<Rightarrow> disk \<Rightarrow> bool" where
  "goal_inv hw P d \<longleftrightarrow> torn_writes hw d \<and> (\<forall>s. goal_on_disk hw d = Some s \<longrightarrow> P s)"

lemma keeps_write: "goal_json_law hw \<Longrightarrow> P s \<Longrightarrow> keeps (goal_inv hw P) (write_goal_state hw s)"
  unfolding keeps_def goal_inv_def using spares_write [of hw P s] unfolding wp_def by blast

lemma keeps_leaves: "leaves hw m \<Longrightarrow> keeps (goal_inv hw P) m"
  by (auto simp: keeps_def leaves_def goal_inv_def wp_def)

lemma keeps_moves: "moves hw U m \<Longrightarrow> (\<And>s s'. U s s' \<Longrightarrow> P s \<Longrightarrow> P s') \<Longrightarrow> keeps (goal_inv hw P) m"
  by (auto simp: keeps_def moves_def moved_def goal_inv_def wp_def)

text \<open>A new goal, whatever its budget.\<close>

definition fresh_goal :: "goal_limits \<Rightarrow> goal_state \<Rightarrow> bool" where
  "fresh_goal limits s \<longleftrightarrow> (\<exists>objective id_ms now budget. s = (initial_goal limits objective id_ms now)\<lparr>go_token_budget := budget\<rparr>)"

lemma fresh_initial [simp]: "fresh_goal limits (initial_goal limits objective id_ms now)"
proof -
  have "initial_goal limits objective id_ms now = (initial_goal limits objective id_ms now)\<lparr>go_token_budget := None\<rparr>"
    by (simp add: initial_goal_def)
  then show ?thesis unfolding fresh_goal_def by blast
qed

lemma keeps_init_goal:
  assumes "goal_json_law hw" and "\<And>s. fresh_goal (hw_goal_limits hw) s \<Longrightarrow> P s"
  shows "keeps (goal_inv hw P) (init_goal_workspace_with_limits hw objective)"
  unfolding init_goal_workspace_with_limits_def Let_def
  using assms by (intro act_rules keeps_write keeps_leaves leave_rules) auto

lemma init_goal_answers: "init_goal_workspace_with_limits hw objective d = (Done s, d') \<Longrightarrow>
    \<exists>id_ms now. s = initial_goal (hw_goal_limits hw) objective id_ms now"
  by (auto simp: init_goal_workspace_with_limits_def done_simps Let_def split: if_splits)

lemma keeps_set_goal:
  assumes "goal_json_law hw" and P: "\<And>s. fresh_goal (hw_goal_limits hw) s \<Longrightarrow> P s"
  shows "keeps (goal_inv hw P) (set_goal hw objective budget)"
proof -
  have "keeps (goal_inv hw P) (bindA (init_goal_workspace_with_limits hw objective) (\<lambda>state.
      let state' = state\<lparr>go_token_budget := budget\<rparr> in seqA (write_goal_state hw state') (retA state')))"
  proof (rule keepsI)
    fix d r d'
    assume inv: "goal_inv hw P d" and run: "bindA (init_goal_workspace_with_limits hw objective) (\<lambda>state.
      let state' = state\<lparr>go_token_budget := budget\<rparr> in seqA (write_goal_state hw state') (retA state')) d = (r, d')"
    obtain r1 d1 where i: "init_goal_workspace_with_limits hw objective d = (r1, d1)" by fastforce
    have "keeps (goal_inv hw P) (init_goal_workspace_with_limits hw objective)"
      using assms by (rule keeps_init_goal)
    from keepsD [OF this inv i] have inv1: "goal_inv hw P d1" .
    show "goal_inv hw P d'"
    proof (cases r1)
      case (Done s)
      with i obtain id_ms now where s: "s = initial_goal (hw_goal_limits hw) objective id_ms now"
        by (auto dest: init_goal_answers)
      then have "P (s\<lparr>go_token_budget := budget\<rparr>)" by (intro P) (auto simp: fresh_goal_def)
      then have "keeps (goal_inv hw P) (seqA (write_goal_state hw (s\<lparr>go_token_budget := budget\<rparr>)) (retA (s\<lparr>go_token_budget := budget\<rparr>)))"
        using assms(1) by (intro act_rules keeps_write)
      with run i Done inv1 show ?thesis by (auto simp: act_simps(1-8) bindA_apply Let_def dest: keepsD)
    qed (use run i inv1 in \<open>auto simp: bindA_apply\<close>)
  qed
  then show ?thesis unfolding set_goal_def by (rule keeps_if [OF keeps_raiseA])
qed

subsection \<open>The calls of the owner\<close>

text \<open>What the thread's actor asks of the owner, and the state it leaves.\<close>

datatype 'v goal_call =
    Set_Goal "string option" "thread_goal_status option" "int option option"
  | Clear_Goal
  | Reserve string
  | Release string
  | Turn_Started string turn_id
  | Turn_Settled string turn_id
  | Turn_Limited string turn_id goal_status string
  | Turn_Usage string turn_id nat
  | Fail_Goal string
  | Prepare thread_id string nat "'v message list"
  | Complete_Verification string turn_id nat nat "string + string \<times> verifier_verdict"

definition perform :: "'v goal_call \<Rightarrow> 'c goal_runtime \<times> disk \<Rightarrow> 'c goal_runtime \<times> disk" where
  "perform c = (case c of
     Set_Goal objective status budget \<Rightarrow> (\<lambda>w. snd (set_goal_runtime objective status budget w))
   | Clear_Goal \<Rightarrow> (\<lambda>w. snd (clear_goal_runtime w))
   | Reserve goal_id \<Rightarrow> (\<lambda>(g, d). (snd (reserve_turn goal_id g), d))
   | Release goal_id \<Rightarrow> (\<lambda>(g, d). (release_turn goal_id g, d))
   | Turn_Started goal_id turn \<Rightarrow> (\<lambda>w. snd (mark_turn_started goal_id turn w))
   | Turn_Settled goal_id turn \<Rightarrow> (\<lambda>w. snd (mark_turn_settled goal_id turn w))
   | Turn_Limited goal_id turn status reason \<Rightarrow> (\<lambda>w. snd (limit_turn goal_id turn status reason w))
   | Turn_Usage goal_id turn tokens \<Rightarrow> (\<lambda>w. snd (record_turn_usage goal_id turn tokens w))
   | Fail_Goal reason \<Rightarrow> (\<lambda>w. snd (fail_goal reason w))
   | Prepare thread goal_id seq messages \<Rightarrow> (\<lambda>w. snd (prepare_verification thread goal_id seq messages w))
   | Complete_Verification goal_id turn seq current result \<Rightarrow>
       (\<lambda>w. snd (complete_verification goal_id turn seq current result w)))"

text \<open>
  The abstract machine: the step a call may take of the stored goal.  Nothing is said of
  files, of the verification in flight or of failures.
\<close>

inductive goal_step :: "'v goal_call \<Rightarrow> goal_state \<Rightarrow> goal_state \<Rightarrow> bool" where
  started: "go_status s = Goal_Running \<Longrightarrow>
    goal_step (Turn_Started (go_goal_id s) turn) s
      (s\<lparr>go_active_turn_id := Some (turn_id_str turn), go_active_turn_settled := False, go_updated_at_ms := now\<rparr>)"
| settled: "go_status s = Goal_Running \<Longrightarrow> go_active_turn_id s = Some (turn_id_str turn) \<Longrightarrow>
    goal_step (Turn_Settled (go_goal_id s) turn) s (s\<lparr>go_active_turn_settled := True, go_updated_at_ms := now\<rparr>)"
| limited: "go_status s = Goal_Running \<Longrightarrow> go_active_turn_id s = Some (turn_id_str turn) \<Longrightarrow>
    goal_step (Turn_Limited (go_goal_id s) turn status reason) s
      (s\<lparr>go_status := status, go_last_error := Some reason, go_updated_at_ms := now\<rparr>)"
| used: "go_status s = Goal_Running \<Longrightarrow> go_active_turn_id s = Some (turn_id_str turn) \<Longrightarrow>
    goal_step (Turn_Usage (go_goal_id s) turn tokens) s ((add_usage tokens s)\<lparr>go_updated_at_ms := now\<rparr>)"
| failed: "goal_step (Fail_Goal reason) s (Goal.limited Goal_Failed (Some reason) now s)"
| verifying: "go_status s = Goal_Running \<Longrightarrow> go_active_turn_id s \<noteq> None \<Longrightarrow> go_active_turn_settled s \<Longrightarrow>
    goal_step (Prepare thread (go_goal_id s) seq messages) s
      (s\<lparr>go_verification_status := Verification_Running, go_updated_at_ms := now\<rparr>)"
| judged: "go_status s = Goal_Running \<Longrightarrow> go_active_turn_id s = Some (turn_id_str turn) \<Longrightarrow> go_active_turn_settled s \<Longrightarrow>
    goal_step (Complete_Verification (go_goal_id s) turn seq seq (Inr (output, verdict))) s
      ((advanced (Some verdict) s)\<lparr>go_updated_at_ms := now\<rparr>)"
| unjudged: "go_status s = Goal_Running \<Longrightarrow> go_active_turn_id s = Some (turn_id_str turn) \<Longrightarrow> go_active_turn_settled s \<Longrightarrow>
    goal_step (Complete_Verification (go_goal_id s) turn seq current result) s
      (Goal.limited Goal_Failed (Some reason) now s)"

inductive_cases judged_cases: "goal_step (Complete_Verification goal_id turn seq current result) s s'"

lemma in_store_apply: "in_store f (g, d) = on_disk (f (gr_store g)) (g, d)"
  by (simp add: in_store_def act_simps)

lemma wp_in_store [wp_simps]: "wp (in_store f) R (g, d) \<longleftrightarrow> wp (f (gr_store g)) (\<lambda>r d'. R r (g, d')) d"
  by (simp add: wp_def in_store_apply on_disk_def split: prod.split)

lemma wp_in_runtime [wp_simps]: "wp (in_runtime f) R (g, d) \<longleftrightarrow> R (Done ()) (f g, d)"
  by (simp add: in_runtime_def wp_simps)

lemma wp_snd: "wp m (\<lambda>r w. P w) w \<longleftrightarrow> P (snd (m w))"
  by (simp add: wp_def)

lemma movesD: "moves hw U m \<Longrightarrow> torn_writes hw d \<Longrightarrow> wp m (\<lambda>r d'. moved hw U d d') d"
  by (simp add: moves_def)

lemma moved_refl: "torn_writes hw d \<Longrightarrow> moved hw U d d"
  by (simp add: moved_def)

lemma moved_after_leaves:
  assumes "moved hw U d d1" and "leaves hw m" and "m d1 = (r, d2)"
  shows "moved hw U d d2"
  using assms unfolding leaves_def moved_def wp_def by (metis snd_conv)

lemma moves_then_leaves:
  assumes "moves hw U m" and "\<And>x. leaves hw (f x)"
  shows "moves hw U (bindA m f)"
  unfolding moves_def
proof (intro allI impI)
  fix d assume torn: "torn_writes hw d"
  obtain r d1 where m: "m d = (r, d1)" by fastforce
  from assms(1) torn m have d1: "moved hw U d d1" by (auto simp: moves_def dest: wpD)
  show "wp (bindA m f) (\<lambda>r d'. moved hw U d d') d"
    using m d1 assms(2) by (cases r) (auto simp: wp_def act_simps intro: moved_after_leaves [OF d1] surjective_pairing)
qed

text \<open>The store operations that take one abstract step.\<close>

lemma verification_started_moves:
  assumes "goal_json_law hw" and "\<And>s n. go_status s = Goal_Running \<Longrightarrow> go_goal_id s = goal_id \<Longrightarrow> go_active_turn_id s = Some turn
    \<Longrightarrow> U s (s\<lparr>go_verification_status := Verification_Running, go_updated_at_ms := n\<rparr>)"
  shows "moves hw U (mark_goal_verification_started hw goal_id turn seq)"
  unfolding mark_goal_verification_started_def
proof (rule moves_then_leaves)
  show "moves hw U (update_running_goal hw goal_id (Some turn) (\<lambda>state. state\<lparr>go_verification_status := Verification_Running\<rparr>))"
    unfolding update_running_goal_def
    by (rule update_moves [OF assms(1)]) (use assms(2) in \<open>auto simp: takes_def stamped_def wp_simps\<close>)
qed (auto intro!: leave_rules)

lemma running_moves:
  assumes "goal_json_law hw" and "\<And>s n. go_status s = Goal_Running \<Longrightarrow> go_goal_id s = goal_id \<Longrightarrow>
      (turn = None \<or> go_active_turn_id s = turn) \<Longrightarrow> U s ((f s)\<lparr>go_updated_at_ms := n\<rparr>)"
  shows "moves hw U (update_running_goal hw goal_id turn f)"
  unfolding update_running_goal_def
  by (rule update_moves [OF assms(1)]) (use assms(2) in \<open>auto simp: takes_def stamped_def wp_simps\<close>)

lemma fail_moves: "goal_json_law hw \<Longrightarrow> (\<And>s n. U s (limited Goal_Failed (Some reason) n s)) \<Longrightarrow> moves hw U (fail_goal_with_reason hw reason)"
  unfolding fail_goal_with_reason_def by (rule limit_goal_moves)

lemma advance_moves: "goal_json_law hw \<Longrightarrow> moves hw (advance_step v) (advance_goal_milestone hw v)"
  unfolding moves_def using advance_answers by (blast intro: wp_conseq)

lemma moves_mono: "moves hw U m \<Longrightarrow> (\<And>s s'. U s s' \<Longrightarrow> V s s') \<Longrightarrow> moves hw V m"
  by (auto simp: moves_def moved_def wp_def)

lemma wp_leaves: "leaves hw m \<Longrightarrow> torn_writes hw d \<Longrightarrow>
    (\<And>r d'. torn_writes hw d' \<Longrightarrow> goal_on_disk hw d' = goal_on_disk hw d \<Longrightarrow> R r d') \<Longrightarrow> wp m R d"
  by (auto simp: leaves_def wp_def)

lemma wp_moves: "moves hw U m \<Longrightarrow> torn_writes hw d \<Longrightarrow> (\<And>r d'. moved hw U d d' \<Longrightarrow> R r d') \<Longrightarrow> wp m R d"
  by (auto simp: moves_def wp_def)

lemma wp_load: "torn_writes hw d \<Longrightarrow>
    (\<And>r d'. torn_writes hw d' \<Longrightarrow> goal_on_disk hw d' = goal_on_disk hw d \<Longrightarrow> r \<noteq> Out_of_fuel \<Longrightarrow>
      (\<forall>s. r = Done (Some s) \<longrightarrow> goal_on_disk hw d = Some s) \<Longrightarrow> R r d') \<Longrightarrow> wp (load_goal_state hw) R d"
  by (rule wp_conseq [OF load_answers]) auto

lemma leavesD: "leaves hw m \<Longrightarrow> torn_writes hw d \<Longrightarrow> m d = (r, d') \<Longrightarrow> torn_writes hw d' \<and> goal_on_disk hw d' = goal_on_disk hw d"
  by (auto simp: leaves_def wp_def)

lemma moved_torn: "moved hw U d d' \<Longrightarrow> torn_writes hw d'"
  by (simp add: moved_def)

text \<open>From an unchanged goal \<open>s\<close>, one move is one abstract step.\<close>

lemma moved_from:
  assumes "moved hw U d1 d2" and "goal_on_disk hw d1 = goal_on_disk hw d" and "goal_on_disk hw d = Some s"
    and "\<And>s'. U s s' \<Longrightarrow> V s s'"
  shows "moved hw V d d2"
  using assms by (auto simp: moved_def)

lemma moved_same: "torn_writes hw d' \<Longrightarrow> goal_on_disk hw d' = goal_on_disk hw d \<Longrightarrow> moved hw U d d'"
  by (simp add: moved_def)

lemma moved_again: "moved hw U d d1 \<Longrightarrow> torn_writes hw d2 \<Longrightarrow> goal_on_disk hw d2 = goal_on_disk hw d1 \<Longrightarrow> moved hw U d d2"
  by (auto simp: moved_def)

definition stays :: "'c goal_runtime \<Rightarrow> 'c goal_runtime \<Rightarrow> bool" where
  "stays g g' \<longleftrightarrow> gr_store g' = gr_store g \<and> gr_verifier_default g' = gr_verifier_default g"

lemma wp_fail_moved:
  assumes "goal_json_law hw" and "torn_writes hw d1" and "goal_on_disk hw d1 = goal_on_disk hw d" and "goal_on_disk hw d = Some s"
    and "\<And>n. V s (limited Goal_Failed (Some reason) n s)"
    and "\<And>r d2. moved hw V d d2 \<Longrightarrow> R r d2"
  shows "wp (fail_goal_with_reason hw reason) R d1"
proof (rule wp_moves)
  show "moves hw (\<lambda>s s'. \<exists>n. s' = limited Goal_Failed (Some reason) n s) (fail_goal_with_reason hw reason)"
    by (rule fail_moves [OF assms(1)]) auto
  show "R r d2" if "moved hw (\<lambda>s s'. \<exists>n. s' = limited Goal_Failed (Some reason) n s) d1 d2" for r d2
    by (rule assms(6), rule moved_from [OF that assms(3,4)]) (use assms(5) in auto)
qed (fact assms(2))

lemma prepare_steps:
  assumes law: "goal_json_law (gr_store g)" and torn: "torn_writes (gr_store g) d"
    and run: "prepare_verification thread goal_id seq messages (g, d) = (r, (g', d'))"
  shows "moved (gr_store g) (goal_step (Prepare thread goal_id seq messages)) d d' \<and> stays g g'"
proof -
  let ?hw = "gr_store g" and ?V = "goal_step (Prepare thread goal_id seq messages)"
  obtain r1 d1 where load: "load_goal_state ?hw d = (r1, d1)" by fastforce
  note l = wpD [OF load_answers load]
  then have same: "moved ?hw ?V d d1" using torn by (simp add: moved_same)
  show ?thesis
  proof (cases "gr_pending g = None \<and> (\<exists>s turn. r1 = Done (Some s) \<and> go_active_turn_id s = Some turn \<and> go_goal_id s = goal_id
      \<and> go_status s = Goal_Running \<and> go_active_turn_settled s)")
    case False
    with run load l same torn show ?thesis
      by (auto simp: prepare_verification_def in_store_apply on_disk_def act_simps stays_def moved_refl
          split: option.splits if_splits outcome.splits)
  next
    case True
    then obtain s turn where s: "r1 = Done (Some s)" "go_active_turn_id s = Some turn" "go_goal_id s = goal_id"
        "go_status s = Goal_Running" "go_active_turn_settled s" and p: "gr_pending g = None" by blast
    obtain r2 d2 where mark: "mark_goal_verification_started ?hw goal_id turn seq d1 = (r2, d2)" by fastforce
    have "moves ?hw (\<lambda>s s'. \<exists>n. s' = s\<lparr>go_verification_status := Verification_Running, go_updated_at_ms := n\<rparr>)
        (mark_goal_verification_started ?hw goal_id turn seq)"
      by (rule verification_started_moves [OF law]) auto
    then have "moved ?hw (\<lambda>s s'. \<exists>n. s' = s\<lparr>go_verification_status := Verification_Running, go_updated_at_ms := n\<rparr>) d1 d2"
      using l torn mark by (auto dest: wpD simp: moves_def)
    then have m2: "moved ?hw ?V d d2"
      by (rule moved_from [of _ _ _ _ _ s]) (use l s in \<open>auto intro!: goal_step.verifying\<close>)
    obtain r3 d3 where crit: "goal_verification_criteria ?hw d2 = (r3, d3)" by fastforce
    have "leaves ?hw (goal_verification_criteria ?hw)"
      by (auto simp: goal_verification_criteria_def intro!: leave_rules)
    from moved_after_leaves [OF m2 this crit] have m3: "moved ?hw ?V d d3" .
    from run load s p mark m2 crit m3 show ?thesis
      by (auto simp: prepare_verification_def in_store_apply in_runtime_def on_disk_def act_simps stays_def
          split: option.splits outcome.splits)
  qed
qed

lemma settle_steps:
  fixes g :: "'c goal_runtime"
  assumes law: "goal_json_law (gr_store g)" and torn: "torn_writes (gr_store g) d1"
    and same: "goal_on_disk (gr_store g) d1 = goal_on_disk (gr_store g) d" "goal_on_disk (gr_store g) d = Some s"
    and failed: "\<And>reason n. V s (limited Goal_Failed (Some reason) n s)"
    and judged: "\<And>out verdict s'. result = Inr (out, verdict) \<Longrightarrow> advance_step (Some verdict) s s' \<Longrightarrow> V s s'"
    and run: "settle_verdict seq result (g, d1) = (r, (g', d'))"
  shows "moved (gr_store g) V d d' \<and> g' = g"
proof (cases result)
  case (Inl err)
  obtain r2 d2 where f: "fail_goal_with_reason (gr_store g) err d1 = (r2, d2)" by fastforce
  have m2: "moved (gr_store g) V d d2"
    using wpD [OF wp_fail_moved [OF law torn same, of V err "\<lambda>r. moved (gr_store g) V d"] f] failed by simp
  obtain r3 d3 where i: "ignoring (record_verifier_failure (gr_store g) seq err) d2 = (r3, d3)" by fastforce
  have "leaves (gr_store g) (ignoring (record_verifier_failure (gr_store g) seq err))"
    by (auto simp: record_verifier_failure_def write_verifier_failure_def intro!: leave_rules)
  from moved_after_leaves [OF m2 this i] have m3: "moved (gr_store g) V d d3" .
  from run Inl f m2 i m3 show ?thesis
    by (auto simp: settle_verdict_def fail_goal_def in_store_apply on_disk_def act_simps split: outcome.splits)
next
  case (Inr answer)
  obtain out verdict where answer: "answer = (out, verdict)" by fastforce
  obtain r2 d2 where rec: "record_verifier_verdict (gr_store g) seq out d1 = (r2, d2)" by fastforce
  have "leaves (gr_store g) (record_verifier_verdict (gr_store g) seq out)"
    by (auto simp: record_verifier_verdict_def Let_def intro!: leave_rules)
  with torn rec have d2: "torn_writes (gr_store g) d2" "goal_on_disk (gr_store g) d2 = goal_on_disk (gr_store g) d"
    using same by (auto dest: leavesD)
  obtain r3 d3 where adv: "advance_goal_milestone (gr_store g) (Some verdict) d2 = (r3, d3)" by fastforce
  have "moved (gr_store g) (advance_step (Some verdict)) d2 d3"
    using advance_moves [OF law] d2(1) adv by (auto simp: moves_def dest: wpD)
  then have m3: "moved (gr_store g) V d d3"
    by (rule moved_from [OF _ d2(2) same(2)]) (use judged Inr answer in blast)
  have m4: "\<forall>reason r4 d4. fail_goal_with_reason (gr_store g) reason d2 = (r4, d4) \<longrightarrow> moved (gr_store g) V d d4"
    using wpD [OF wp_fail_moved [OF law d2 same(2), of V _ "\<lambda>r. moved (gr_store g) V d"]] failed by simp
  from run Inr answer rec adv m3 m4 moved_same [OF d2] show ?thesis
    by (auto simp: settle_verdict_def fail_goal_def in_store_apply on_disk_def act_simps
        split: outcome.splits prod.splits)
qed

text \<open>Whether the runtime awaits the result of a turn, and for which checkpoint.\<close>

definition awaited :: "'c goal_runtime \<Rightarrow> string \<Rightarrow> turn_id \<Rightarrow> bool" where
  "awaited g goal_id turn \<longleftrightarrow> (\<exists>p. gr_pending g = Some p \<and> pv_goal_id p = goal_id \<and> pv_turn_id p = turn)"

definition awaited_at :: "'c goal_runtime \<Rightarrow> string \<Rightarrow> turn_id \<Rightarrow> nat \<Rightarrow> bool" where
  "awaited_at g goal_id turn seq \<longleftrightarrow> gr_pending g = Some \<lparr>pv_goal_id = goal_id, pv_turn_id = turn, pv_checkpoint_seq = seq\<rparr>"

text \<open>A step of a result only when it is awaited; other than failing the goal only at its checkpoint.\<close>

definition awaited_step :: "'c goal_runtime \<Rightarrow> 'v goal_call \<Rightarrow> goal_state \<Rightarrow> goal_state \<Rightarrow> bool" where
  "awaited_step g c s s' \<longleftrightarrow> goal_step c s s' \<and> (case c of
     Complete_Verification goal_id turn seq current result \<Rightarrow>
       awaited g goal_id turn \<and> (go_status s' \<noteq> Goal_Failed \<longrightarrow> awaited_at g goal_id turn seq)
   | _ \<Rightarrow> True)"

lemma complete_steps:
  fixes g :: "'c goal_runtime"
  assumes law: "goal_json_law (gr_store g)" and torn: "torn_writes (gr_store g) d"
    and run: "complete_verification goal_id turn seq current result (g, d) = (r, (g', d'))"
  shows "moved (gr_store g) (awaited_step g (Complete_Verification goal_id turn seq current result :: 'v goal_call)) d d' \<and> stays g g'"
proof -
  let ?hw = "gr_store g" and ?V = "awaited_step g (Complete_Verification goal_id turn seq current result :: 'v goal_call)"
  obtain r1 d1 where load: "load_goal_state ?hw d = (r1, d1)" by fastforce
  note l = wpD [OF load_answers load]
  then have d1: "torn_writes ?hw d1" and same: "goal_on_disk ?hw d1 = goal_on_disk ?hw d" using torn by auto
  show ?thesis
  proof (cases "awaited g goal_id turn \<and> (\<exists>s. r1 = Done (Some s) \<and> go_goal_id s = goal_id \<and> go_status s = Goal_Running
      \<and> go_active_turn_id s = Some (turn_id_str turn) \<and> go_active_turn_settled s)")
    case False
    with run load d1 same torn l show ?thesis
      by (auto simp: complete_verification_def drop_pending_def in_store_apply in_runtime_def on_disk_def act_simps stays_def
          awaited_def moved_refl moved_same split: option.splits if_splits outcome.splits)
  next
    case True
    then obtain s p where s: "r1 = Done (Some s)" "go_goal_id s = goal_id" "go_status s = Goal_Running"
        "go_active_turn_id s = Some (turn_id_str turn)" "go_active_turn_settled s"
      and p: "gr_pending g = Some p" "pv_goal_id p = goal_id" "pv_turn_id p = turn"
      unfolding awaited_def by blast
    have goal: "goal_on_disk ?hw d = Some s" using l s by simp
    let ?g = "g\<lparr>gr_pending := None\<rparr>"
    have failed: "?V s (limited Goal_Failed (Some reason) n s)" for reason n
      using s p by (auto simp: awaited_step_def awaited_def limited_def [symmetric] intro: goal_step.unjudged)
        (simp add: limited_def)
    show ?thesis
    proof (cases "pv_checkpoint_seq p = seq \<and> pv_checkpoint_seq p = current")
      case False
      obtain r2 d2 where f: "fail_goal_with_reason ?hw stale_reason d1 = (r2, d2)" by fastforce
      have m2: "moved ?hw ?V d d2"
        using wpD [OF wp_fail_moved [OF law d1 same goal, of ?V stale_reason "\<lambda>r. moved ?hw ?V d"] f] failed by simp
      from False run load s p f m2 show ?thesis
        by (auto simp: complete_verification_def drop_pending_def fail_goal_def in_store_apply in_runtime_def on_disk_def
            act_simps stays_def split: outcome.splits)
    next
      case True
      obtain r2 g2 d2 where f: "settle_verdict seq result (?g, d1) = (r2, (g2, d2))" by (metis prod.exhaust)
      have "moved (gr_store ?g) ?V d d2 \<and> g2 = ?g"
      proof (rule settle_steps [OF _ _ _ _ _ _ f])
        fix out verdict s' assume "result = Inr (out, verdict)" "advance_step (Some verdict) s s'"
        then show "?V s s'"
          using s p True by (auto simp: awaited_step_def awaited_def awaited_at_def advance_step_def intro: goal_step.judged)
      qed (use law d1 same goal failed in simp_all)
      with True run load s p f show ?thesis
        by (auto simp: complete_verification_def drop_pending_def in_store_apply in_runtime_def on_disk_def
            act_simps stays_def split: outcome.splits)
    qed
  qed
qed

lemma leavesI: "leaves hw m \<Longrightarrow> torn_writes hw d \<Longrightarrow> m d = (r, d') \<Longrightarrow> moved hw U d d'"
  by (auto dest: leavesD intro: moved_same)

lemma movesE: "moves hw U m \<Longrightarrow> torn_writes hw d \<Longrightarrow> m d = (r, d') \<Longrightarrow> moved hw U d d'"
  by (auto simp: moves_def dest: wpD)

lemma call_steps:
  fixes c :: "'v goal_call" and g :: "'c goal_runtime"
  assumes law: "goal_json_law (gr_store g)" and torn: "torn_writes (gr_store g) d"
    and c: "\<And>objective status budget. c \<noteq> Set_Goal objective status budget"
    and run: "perform c (g, d) = (g', d')"
  shows "moved (gr_store g) (awaited_step g c) d d' \<and> stays g g'"
proof (cases c)
  case Clear_Goal
  have "moved (gr_store g) (awaited_step g c) d (snd (clear_goal (gr_store g) d))"
    by (rule movesE [OF clear_moves torn prod.collapse [symmetric]])
  with run Clear_Goal show ?thesis
    by (auto simp: perform_def clear_goal_runtime_def in_runtime_def in_store_apply on_disk_def act_simps stays_def split: prod.splits)
next
  case (Reserve goal_id)
  with run torn show ?thesis by (auto simp: perform_def reserve_turn_def stays_def moved_refl split: if_splits)
next
  case (Release goal_id)
  with run torn show ?thesis by (auto simp: perform_def release_turn_def stays_def moved_refl split: if_splits)
next
  case (Turn_Started goal_id turn)
  have "moves (gr_store g) (awaited_step g c) (mark_goal_turn_started (gr_store g) goal_id (turn_id_str turn))"
    unfolding mark_goal_turn_started_def
    by (rule running_moves [OF law]) (auto simp: awaited_step_def Turn_Started intro: goal_step.started)
  from movesE [OF this torn] run Turn_Started show ?thesis
    by (auto simp: perform_def mark_turn_started_def in_runtime_def in_store_apply on_disk_def act_simps stays_def split: prod.splits)
next
  case (Turn_Settled goal_id turn)
  have "moves (gr_store g) (awaited_step g c) (mark_goal_turn_settled (gr_store g) goal_id (turn_id_str turn))"
    unfolding mark_goal_turn_settled_def
    by (rule running_moves [OF law]) (auto simp: awaited_step_def Turn_Settled intro: goal_step.settled)
  from movesE [OF this torn] run Turn_Settled show ?thesis
    by (auto simp: perform_def mark_turn_settled_def in_store_apply on_disk_def stays_def split: prod.splits)
next
  case (Turn_Limited goal_id turn status reason)
  have "moves (gr_store g) (awaited_step g c) (limit_goal_turn (gr_store g) goal_id (turn_id_str turn) status reason)"
    unfolding limit_goal_turn_def
    by (rule running_moves [OF law]) (auto simp: awaited_step_def Turn_Limited intro: goal_step.limited)
  from movesE [OF this torn] run Turn_Limited show ?thesis
    by (auto simp: perform_def limit_turn_def in_store_apply on_disk_def stays_def split: prod.splits)
next
  case (Turn_Usage goal_id turn tokens)
  have "moves (gr_store g) (awaited_step g c) (record_goal_usage (gr_store g) goal_id (turn_id_str turn) tokens)"
    unfolding record_goal_usage_def
    by (rule running_moves [OF law]) (auto simp: awaited_step_def Turn_Usage intro: goal_step.used)
  from movesE [OF this torn] run Turn_Usage show ?thesis
    by (auto simp: perform_def record_turn_usage_def in_store_apply on_disk_def stays_def split: prod.splits)
next
  case (Fail_Goal reason)
  have "moves (gr_store g) (awaited_step g c) (fail_goal_with_reason (gr_store g) reason)"
    by (rule fail_moves [OF law]) (auto simp: awaited_step_def Fail_Goal intro: goal_step.failed)
  from movesE [OF this torn] run Fail_Goal show ?thesis
    by (auto simp: perform_def fail_goal_def in_store_apply on_disk_def stays_def split: prod.splits)
next
  case (Prepare thread goal_id seq messages)
  have "snd (prepare_verification thread goal_id seq messages (g, d)) = (g', d')"
    using run Prepare by (simp add: perform_def)
  then obtain r where "prepare_verification thread goal_id seq messages (g, d) = (r, (g', d'))"
    by (cases "prepare_verification thread goal_id seq messages (g, d)") simp
  from prepare_steps [OF law torn this] show ?thesis
    by (auto simp: awaited_step_def Prepare moved_def)
next
  case (Complete_Verification goal_id turn seq current result)
  have "snd (complete_verification goal_id turn seq current result (g, d)) = (g', d')"
    using run Complete_Verification by (simp add: perform_def)
  then obtain r where "complete_verification goal_id turn seq current result (g, d) = (r, (g', d'))"
    by (cases "complete_verification goal_id turn seq current result (g, d)") simp
  from complete_steps [OF law torn this] show ?thesis by (simp add: Complete_Verification)
qed (use c in blast)

subsection \<open>Setting a goal\<close>

text \<open>What a request to set a goal may change of one that is there.\<close>

definition edited :: "goal_state \<Rightarrow> goal_state \<Rightarrow> bool" where
  "edited s s' \<longleftrightarrow> (\<exists>objective budget status selection turn settled now. status \<in> {go_status s, Goal_Running, Goal_UserPaused}
     \<and> s' = s\<lparr>go_objective := objective, go_token_budget := budget, go_status := status,
         go_verifier_model_selection := selection, go_active_turn_id := turn, go_active_turn_settled := settled,
         go_updated_at_ms := now\<rparr>)"

lemma editedI [intro]:
  "edited s s"
  "edited s (s\<lparr>go_verifier_model_selection := selection, go_updated_at_ms := now\<rparr>)"
  "edited s (s\<lparr>go_objective := objective, go_token_budget := budget, go_updated_at_ms := now\<rparr>)"
  "edited s (s\<lparr>go_status := Goal_UserPaused, go_active_turn_id := turn, go_active_turn_settled := b, go_updated_at_ms := now\<rparr>)"
  "edited s (s\<lparr>go_status := Goal_Running, go_updated_at_ms := now\<rparr>)"
proof -
  have all: "edited s (s\<lparr>go_objective := objective, go_token_budget := budget, go_status := status,
         go_verifier_model_selection := selection, go_active_turn_id := turn, go_active_turn_settled := settled,
         go_updated_at_ms := now\<rparr>)" if "status \<in> {go_status s, Goal_Running, Goal_UserPaused}"
    for objective budget status selection turn settled now
    using that unfolding edited_def by blast
  show "edited s s" using all [where status = "go_status s" and objective = "go_objective s" and budget = "go_token_budget s" and selection = "go_verifier_model_selection s" and turn = "go_active_turn_id s" and settled = "go_active_turn_settled s" and now = "go_updated_at_ms s"] by simp
  show "edited s (s\<lparr>go_verifier_model_selection := selection, go_updated_at_ms := now\<rparr>)"
    using all [where status = "go_status s" and objective = "go_objective s" and budget = "go_token_budget s" and selection = "selection" and turn = "go_active_turn_id s" and settled = "go_active_turn_settled s" and now = "now"] by simp
  show "edited s (s\<lparr>go_objective := objective, go_token_budget := budget, go_updated_at_ms := now\<rparr>)"
    using all [where status = "go_status s" and objective = "objective" and budget = "budget" and selection = "go_verifier_model_selection s" and turn = "go_active_turn_id s" and settled = "go_active_turn_settled s" and now = "now"] by simp
  show "edited s (s\<lparr>go_status := Goal_UserPaused, go_active_turn_id := turn, go_active_turn_settled := b, go_updated_at_ms := now\<rparr>)"
    using all [where status = "Goal_UserPaused" and objective = "go_objective s" and budget = "go_token_budget s" and selection = "go_verifier_model_selection s" and turn = "turn" and settled = "b" and now = "now"] by simp
  show "edited s (s\<lparr>go_status := Goal_Running, go_updated_at_ms := now\<rparr>)"
    using all [where status = "Goal_Running" and objective = "go_objective s" and budget = "go_token_budget s" and selection = "go_verifier_model_selection s" and turn = "go_active_turn_id s" and settled = "go_active_turn_settled s" and now = "now"] by simp
qed

lemma edit_moves:
  assumes "goal_json_law hw"
  shows "moves hw edited (update_goal hw objective budget)" "moves hw edited (pause_goal hw)" "moves hw edited (resume_goal hw)"
    "moves hw edited (set_goal_verifier_selection hw selection)"
proof -
  have upd: "moves hw edited (update_goal_state hw upd)" if "takes hw edited upd" for upd
    using update_moves [OF assms that] .
  show "moves hw edited (pause_goal hw)" "moves hw edited (resume_goal hw)"
    unfolding pause_goal_def resume_goal_def
    by (rule upd, auto simp: takes_def stamped_def wp_simps)+
  show "moves hw edited (set_goal_verifier_selection hw selection)"
    unfolding set_goal_verifier_selection_def by (rule upd, auto simp: takes_def stamped_def wp_simps)
  have "moves hw edited (update_goal_state hw (\<lambda>state.
       if objective = None \<and> budget = None then retA (Some state)
       else stamped (\<lambda>state. state\<lparr>
           go_objective := (case objective of Some v \<Rightarrow> trim v | None \<Rightarrow> go_objective state),
           go_token_budget := (case budget of Some b \<Rightarrow> b | None \<Rightarrow> go_token_budget state)\<rparr>) state))"
    by (rule upd) (auto simp: takes_def stamped_def wp_simps)
  then show "moves hw edited (update_goal hw objective budget)"
    unfolding update_goal_def by (auto simp: leaves_basic leaves_moves)
qed

text \<open>An invariant of the runtime and the stored goal.\<close>

definition goal_safe :: "host_workflow_store \<Rightarrow> (goal_state \<Rightarrow> bool) \<Rightarrow> 'c goal_runtime \<times> disk \<Rightarrow> bool" where
  "goal_safe hw P = (\<lambda>(g, d). gr_store g = hw \<and> leaves hw (gr_verifier_default g) \<and> goal_inv hw P d)"

lemma keeps_in_store: "keeps (goal_inv hw P) (f hw) \<Longrightarrow> keeps (goal_safe hw P) (in_store f)"
  by (auto simp: keeps_def goal_safe_def in_store_apply on_disk_def split: prod.split)

lemma keeps_in_runtime: "(\<And>g. stays g (f g)) \<Longrightarrow> keeps (goal_safe hw P) (in_runtime f)"
  by (auto simp: keeps_def goal_safe_def in_runtime_def act_simps stays_def)

lemma keeps_present: "keeps P (present missing x)"
  by (auto simp: present_def intro: act_rules)

lemma keeps_set:
  assumes law: "goal_json_law hw" and fresh: "\<And>s. fresh_goal (hw_goal_limits hw) s \<Longrightarrow> P s"
    and edit: "\<And>s s'. edited s s' \<Longrightarrow> P s \<Longrightarrow> P s'"
  shows "keeps (goal_safe hw P) (set_goal_runtime objective status budget)"
proof -
  note edits = keeps_moves [OF edit_moves(1) [OF law] edit] keeps_moves [OF edit_moves(2) [OF law] edit]
    keeps_moves [OF edit_moves(3) [OF law] edit] keeps_moves [OF edit_moves(4) [OF law] edit]
  have default: "keeps (goal_safe hw P) (bindA (getA (\<lambda>(g, d). g)) (\<lambda>g.
      bindA (case gr_verifier_config g of None \<Rightarrow> retA None | Some _ \<Rightarrow> on_disk (gr_verifier_default g)) h))"
    if h: "\<And>x. keeps (goal_safe hw P) (h x)" for h
  proof (rule keepsI)
    fix w r w'
    assume safe: "goal_safe hw P w" and run: "bindA (getA (\<lambda>(g, d). g)) (\<lambda>g.
      bindA (case gr_verifier_config g of None \<Rightarrow> retA None | Some _ \<Rightarrow> on_disk (gr_verifier_default g)) h) w = (r, w')"
    obtain g d where w: "w = (g, d)" by fastforce
    obtain r1 d1 where v: "gr_verifier_default g d = (r1, d1)" by fastforce
    have "goal_safe hw P (g, d1)"
      using safe w v leavesD [of hw "gr_verifier_default g" d r1 d1] by (auto simp: goal_safe_def goal_inv_def)
    then show "goal_safe hw P w'"
      using run w v safe keepsD [OF h]
      by (cases r1) (auto simp: act_simps on_disk_def split: option.splits)
  qed
  have create: "keeps (goal_safe hw P) (create_goal objective status budget)"
    unfolding create_goal_def
    by (auto intro!: act_rules keeps_in_runtime keeps_in_store keeps_set_goal [OF law fresh] default edits keeps_present
        simp: stays_def split: option.split)
  show ?thesis
    unfolding set_goal_runtime_def apply_goal_set_def move_goal_def Let_def
    by (auto intro!: act_rules create keeps_in_runtime keeps_in_store keeps_leaves [OF leaves_load] edits keeps_present
        simp: stays_def split: option.split)
qed

text \<open>
  C17.  A goal converges only by a verdict: whatever call the owner serves and whatever the disk does,
  a stored goal that was not converged is converged afterwards only when the call was the result of
  its verifier: an approving verdict for the goal's own, settled turn, at the checkpoint the
  owner had submitted and that is still the current one, and at the last milestone.
\<close>

theorem goal_converges_only_by_verdict:
  fixes g :: "'c goal_runtime" and c :: "'v goal_call"
  assumes law: "goal_json_law (gr_store g)" and torn: "torn_writes (gr_store g) d"
    and catalog: "leaves (gr_store g) (gr_verifier_default g)"
    and run: "perform c (g, d) = (g', d')" and limits: "\<And>goal_id turn reason. c \<noteq> Turn_Limited goal_id turn Goal_Converged reason"
    and before: "\<And>s. goal_on_disk (gr_store g) d = Some s \<Longrightarrow> go_status s \<noteq> Goal_Converged"
    and after: "goal_on_disk (gr_store g) d' = Some s'" "go_status s' = Goal_Converged"
  shows "\<exists>s turn seq answer verdict. goal_on_disk (gr_store g) d = Some s
    \<and> c = Complete_Verification (go_goal_id s) turn seq seq (Inr (answer, verdict)) \<and> vv_outcome verdict = Verdict_Approved
    \<and> go_status s = Goal_Running \<and> go_active_turn_id s = Some (turn_id_str turn) \<and> go_active_turn_settled s
    \<and> go_total_milestones s \<le> go_current_milestone s \<and> awaited_at g (go_goal_id s) turn seq"
proof (cases "\<exists>objective status budget. c = Set_Goal objective status budget")
  case True
  then obtain objective status budget where c: "c = Set_Goal objective status budget" by blast
  let ?P = "\<lambda>s. go_status s \<noteq> Goal_Converged"
  have "keeps (goal_safe (gr_store g) ?P) (set_goal_runtime objective status budget :: ('c, goal_set_outcome) goal_act)"
    by (rule keeps_set [OF law]) (auto simp: fresh_goal_def initial_goal_def edited_def)
  moreover have "goal_safe (gr_store g) ?P (g, d)"
    using torn catalog before by (simp add: goal_safe_def goal_inv_def)
  ultimately have "goal_safe (gr_store g) ?P (snd (set_goal_runtime objective status budget (g, d)))"
    unfolding keeps_def by blast
  with run c have "goal_safe (gr_store g) ?P (g', d')" by (simp add: perform_def)
  with after show ?thesis by (auto simp: goal_safe_def goal_inv_def)
next
  case False
  with call_steps [OF law torn _ run] have "moved (gr_store g) (awaited_step g c) d d'" by blast
  with after before obtain s where s: "goal_on_disk (gr_store g) d = Some s" "awaited_step g c s s'"
    by (auto simp: moved_def)
  from s(2) have "goal_step c s s'" by (simp add: awaited_step_def)
  then show ?thesis
  proof cases
    case (judged turn seq answer verdict now)
    with after have "vv_outcome verdict = Verdict_Approved" "go_total_milestones s \<le> go_current_milestone s"
      by (auto simp: advanced_def Let_def split: if_splits)
    with judged s after show ?thesis by (auto simp: awaited_step_def)
  qed (use after before s limits in \<open>auto simp: limited_def add_usage_def Let_def split: option.splits if_splits\<close>)
qed

subsection \<open>How long a goal goes on\<close>

definition goes_on :: "'v goal_call \<Rightarrow> 'c goal_runtime \<times> disk \<Rightarrow> bool" where
  "goes_on c w = (case c of
     Complete_Verification goal_id turn seq current result \<Rightarrow>
       (case fst (complete_verification goal_id turn seq current result w) of
          Done (Some s) \<Rightarrow> go_status s = Goal_Running | _ \<Rightarrow> False)
   | _ \<Rightarrow> False)"

fun rounds :: "'v goal_call list \<Rightarrow> 'c goal_runtime \<times> disk \<Rightarrow> nat" where
  "rounds [] w = 0"
| "rounds (c # cs) w = (if goes_on c w then 1 else 0) + rounds cs (perform c w)"

definition rounds_left :: "goal_state \<Rightarrow> nat" where
  "rounds_left s = (go_max_loops s - go_loop_count s) + (go_total_milestones s - go_current_milestone s)"

lemma fail_answers: "fail_goal_with_reason hw reason d = (Done s, d') \<Longrightarrow> go_status s = Goal_Failed"
  by (auto simp: fail_goal_with_reason_def limit_goal_with_reason_def done_simps Let_def limited_def)

lemma settle_running:
  assumes law: "goal_json_law (gr_store g)" and torn: "torn_writes (gr_store g) d"
    and run: "settle_verdict seq result (g, d) = (Done s', (g', d'))" and s': "go_status s' = Goal_Running"
  shows "\<exists>answer v s. result = Inr (answer, v) \<and> goal_on_disk (gr_store g) d = Some s \<and> advance_step (Some v) s s'
    \<and> goal_on_disk (gr_store g) d' = Some s'"
proof (cases result)
  case (Inl err)
  with run s' show ?thesis
    by (auto simp: settle_verdict_def fail_goal_def in_store_apply on_disk_def act_simps dest: fail_answers
        split: outcome.splits prod.splits)
next
  case (Inr x)
  obtain answer v where x: "x = (answer, v)" by fastforce
  obtain r1 d1 where rec: "record_verifier_verdict (gr_store g) seq answer d = (r1, d1)" by fastforce
  have "leaves (gr_store g) (record_verifier_verdict (gr_store g) seq answer)"
    by (auto simp: record_verifier_verdict_def Let_def intro!: leave_rules)
  from leavesD [OF this torn rec] have d1: "torn_writes (gr_store g) d1" "goal_on_disk (gr_store g) d1 = goal_on_disk (gr_store g) d" by auto
  obtain r2 d2 where adv: "advance_goal_milestone (gr_store g) (Some v) d1 = (r2, d2)" by fastforce
  note a = wpD [OF advance_answers [OF law d1(1)] adv]
  from run Inr x rec adv s' have "r2 = Done s' \<and> d2 = d'"
    by (auto simp: settle_verdict_def fail_goal_def in_store_apply on_disk_def act_simps dest: fail_answers
        split: outcome.splits prod.splits)
  with a d1 s' Inr x show ?thesis by auto
qed

lemma goes_on_advances:
  assumes law: "goal_json_law (gr_store g)" and torn: "torn_writes (gr_store g) d" and on: "goes_on c (g, d)"
  shows "\<exists>s s'. goal_on_disk (gr_store g) d = Some s \<and> goal_on_disk (gr_store g) (snd (perform c (g, d))) = Some s'
    \<and> rounds_left s' < rounds_left s"
proof -
  from on obtain goal_id turn seq current result s' where c: "c = Complete_Verification goal_id turn seq current result"
    and r: "fst (complete_verification goal_id turn seq current result (g, d)) = Done (Some s')" "go_status s' = Goal_Running"
    by (auto simp: goes_on_def split: goal_call.splits outcome.splits option.splits)
  obtain r1 d1 where load: "load_goal_state (gr_store g) d = (r1, d1)" by fastforce
  note l = wpD [OF load_answers load]
  obtain r2 g2 d2 where settle: "settle_verdict seq result (g\<lparr>gr_pending := None\<rparr>, d1) = (r2, (g2, d2))" by (metis prod.exhaust)
  have settled: "r2 = Done s' \<and> snd (snd (complete_verification goal_id turn seq current result (g, d))) = d2"
    using r load settle l
    by (auto simp: complete_verification_def drop_pending_def fail_goal_def in_store_apply in_runtime_def on_disk_def act_simps
        dest: fail_answers split: option.splits if_splits outcome.splits prod.splits)
  have "torn_writes (gr_store g) d1" using l torn by simp
  with settle_running [of "g\<lparr>gr_pending := None\<rparr>" d1 seq result s' g2 d2] law settled settle r(2) l obtain answer v s where
    s: "goal_on_disk (gr_store g) d = Some s" "advance_step (Some v) s s'" "goal_on_disk (gr_store g) d2 = Some s'" by auto
  have "rounds_left s' < rounds_left s"
    using s(2) r(2) by (auto simp: advance_step_def advanced_def rounds_left_def Let_def split: if_splits)
  with s settled c show ?thesis by (auto simp: perform_def)
qed

lemma goal_step_rounds: "goal_step c s s' \<Longrightarrow> rounds_left s' \<le> rounds_left s"
  by (induction rule: goal_step.induct)
    (auto simp: rounds_left_def limited_def add_usage_def advanced_def Let_def split: option.splits)

lemma rounds_bounded:
  assumes "goal_json_law (gr_store g)" and "torn_writes (gr_store g) d"
    and "\<And>objective status budget. Set_Goal objective status budget \<notin> set cs"
  shows "rounds cs (g, d) \<le> (case goal_on_disk (gr_store g) d of None \<Rightarrow> 0 | Some s \<Rightarrow> rounds_left s)"
  using assms
proof (induction cs arbitrary: g d)
  case (Cons c cs)
  obtain g1 d1 where p: "perform c (g, d) = (g1, d1)" by fastforce
  from Cons.prems(3) have "c \<noteq> Set_Goal objective status budget" for objective status budget by auto
  from call_steps [OF Cons.prems(1,2) this p] have m: "moved (gr_store g) (awaited_step g c) d d1" and st: "gr_store g1 = gr_store g"
    by (auto simp: stays_def)
  have IH: "rounds cs (g1, d1) \<le> (case goal_on_disk (gr_store g) d1 of None \<Rightarrow> 0 | Some s \<Rightarrow> rounds_left s)"
    using Cons.IH [of g1 d1] Cons.prems moved_torn [OF m] st by simp
  show ?case
  proof (cases "goes_on c (g, d)")
    case True
    with goes_on_advances [OF Cons.prems(1,2) this] p IH show ?thesis by auto
  next
    case False
    with p IH m show ?thesis
      by (auto simp: moved_def awaited_step_def dest!: goal_step_rounds split: option.splits)
  qed
qed simp

text \<open>
  C18.  A goal does not go on for ever: as long as nobody sets a new goal, the verdicts after which
  a goal is still running, and its next turn is scheduled, number at most the loops and
  milestones it has left, whatever calls are interleaved and whatever the disk does.
\<close>

theorem goal_rounds_end:
  assumes "goal_json_law (gr_store g)" and "torn_writes (gr_store g) d"
    and "\<And>objective status budget. Set_Goal objective status budget \<notin> set cs" and "goal_on_disk (gr_store g) d = Some s"
  shows "rounds cs (g, d) \<le> (go_max_loops s - go_loop_count s) + (go_total_milestones s - go_current_milestone s)"
  using rounds_bounded [OF assms(1-3)] assms(4) by (simp add: rounds_left_def)

subsection \<open>What a verdict does\<close>

lemma calm_load:
  assumes "calm d" and "goal_on_disk hw d = Some s"
  shows "load_goal_state hw d = (Done (Some s), ticked (ticked d))"
  using assms
  by (auto simp: load_goal_state_def fs_calls act_simps unless_fault_def with_file_def tick_def goal_on_disk_def goal_text_def
      file_at_def file_of_def calm_def split: option.splits node.splits sum.splits if_splits)

lemma calm_write:
  assumes "calm d" and "node_at d p \<noteq> Some Dir_Node"
  shows "fs_write p s d = (Done (), put_node p (File_Node s) (ticked d))"
  using assms by (simp add: done_simps)

lemma stored_not_dir: "goal_on_disk hw d = Some s \<Longrightarrow> node_at d (state_file hw) \<noteq> Some Dir_Node"
  by (auto simp: goal_on_disk_def file_at_def)

lemma calm_verdict:
  fixes g :: "'c goal_runtime"
  assumes law: "goal_json_law (gr_store g)" and calm: "calm d" and goal: "goal_on_disk (gr_store g) d = Some s"
    and s: "go_status s = Goal_Running" "go_active_turn_id s = Some (turn_id_str turn)" "go_active_turn_settled s"
    and awaited: "awaited_at g (go_goal_id s) turn seq"
    and room: "length (''source_checkpoint_seq: '' @ decimal seq @ [newline_byte, newline_byte] @ answer) \<le> max_goal_plan_bytes"
      "node_at d (verdict_file (gr_store g)) \<noteq> Some Dir_Node"
  shows "\<exists>s' d'. complete_verification (go_goal_id s) turn seq seq (Inr (answer, verdict)) (g, d)
      = (Done (Some s'), (g\<lparr>gr_pending := None\<rparr>, d'))
    \<and> goal_on_disk (gr_store g) d' = Some s'
    \<and> file_at d' (verdict_file (gr_store g)) = Some (''source_checkpoint_seq: '' @ decimal seq @ [newline_byte, newline_byte] @ answer)
    \<and> go_loop_count s' = go_loop_count s + 1 \<and> go_active_turn_id s' = None \<and> go_last_error s' = None
    \<and> go_last_verifier_score s' = vv_score verdict \<and> go_verification_status s' = Verification_Completed
    \<and> go_current_milestone s' = (if vv_outcome verdict = Verdict_Approved \<and> go_current_milestone s < go_total_milestones s
        then go_current_milestone s + 1 else go_current_milestone s)
    \<and> go_status s' = (if vv_outcome verdict = Verdict_Approved
        then (if go_current_milestone s < go_total_milestones s then Goal_Running else Goal_Converged)
        else if go_loop_count s + 1 < go_max_loops s then Goal_Running else Goal_Failed)"
proof -
  let ?hw = "gr_store g" and ?entry = "''source_checkpoint_seq: '' @ decimal seq @ [newline_byte, newline_byte] @ answer"
  define d1 where "d1 = ticked (ticked d)"
  have load: "load_goal_state ?hw d = (Done (Some s), d1)" unfolding d1_def using calm goal by (rule calm_load)
  define d2 where "d2 = put_node (verdict_file ?hw) (File_Node ?entry) (ticked d1)"
  have rec: "record_verifier_verdict ?hw seq answer d1 = (Done (), d2)"
    using room calm by (simp add: record_verifier_verdict_def Let_def d2_def d1_def calm_write)
  have d2: "calm d2" "goal_on_disk ?hw d2 = Some s" using calm goal by (simp_all add: d2_def d1_def goal_on_disk_put)
  define d3 where "d3 = ticked (ticked (ticked d2))"
  define s' where "s' = (advanced (Some verdict) s)\<lparr>go_updated_at_ms := dk_clock d2 (Suc (Suc (dk_tick d2)))\<rparr>"
  define d' where "d' = put_node (state_file ?hw) (File_Node (hj_goal (hw_json ?hw) s')) (ticked d3)"
  have "write_goal_state ?hw s' d3 = (Done (), d')"
    using d2 stored_not_dir [OF d2(2)] by (simp add: write_goal_state_def d'_def d3_def calm_write)
  then have adv: "advance_goal_milestone ?hw (Some verdict) d2 = (Done s', d')"
    using calm_load [OF d2] s(1)
    by (simp add: advance_goal_milestone_def act_simps fs_now_ms_def Let_def s'_def d3_def)
  have "complete_verification (go_goal_id s) turn seq seq (Inr (answer, verdict)) (g, d) = (Done (Some s'), (g\<lparr>gr_pending := None\<rparr>, d'))"
    using load rec adv s awaited
    by (simp add: complete_verification_def settle_verdict_def drop_pending_def in_store_apply in_runtime_def on_disk_def
        act_simps awaited_at_def)
  moreover have "goal_on_disk ?hw d' = Some s'" "file_at d' (verdict_file ?hw) = Some ?entry"
    using law by (simp_all add: d'_def d3_def d2_def goal_on_disk_put)
  moreover have "go_loop_count s' = go_loop_count s + 1 \<and> go_active_turn_id s' = None \<and> go_last_error s' = None
    \<and> go_last_verifier_score s' = vv_score verdict \<and> go_verification_status s' = Verification_Completed
    \<and> go_current_milestone s' = (if vv_outcome verdict = Verdict_Approved \<and> go_current_milestone s < go_total_milestones s
        then go_current_milestone s + 1 else go_current_milestone s)
    \<and> go_status s' = (if vv_outcome verdict = Verdict_Approved
        then (if go_current_milestone s < go_total_milestones s then Goal_Running else Goal_Converged)
        else if go_loop_count s + 1 < go_max_loops s then Goal_Running else Goal_Failed)"
    using s(1) by (auto simp: s'_def advanced_def Let_def)
  ultimately show ?thesis by blast
qed

text \<open>
  A verdict decides the goal as its milestones say: the result awaited for the settled turn, on
  a disk without faults, is recorded in the verdict file, and the goal that is stored and returned
  has one loop more and no active turn.  An approval moves it to the next milestone, or
  converges it at the last one; anything else leaves the milestone and fails the goal when
  its loops are used up.
\<close>

theorem verdict_decides_goal:
  fixes g :: "'c goal_runtime"
  assumes law: "goal_json_law (gr_store g)" and calm: "calm d" and goal: "goal_on_disk (gr_store g) d = Some s"
    and s: "go_status s = Goal_Running" "go_active_turn_id s = Some (turn_id_str turn)" "go_active_turn_settled s"
    and awaited: "awaited_at g (go_goal_id s) turn seq"
    and room: "length (''source_checkpoint_seq: '' @ decimal seq @ [newline_byte, newline_byte] @ answer) \<le> max_goal_plan_bytes"
      "node_at d (verdict_file (gr_store g)) \<noteq> Some Dir_Node"
  shows "\<exists>s' d'. complete_verification (go_goal_id s) turn seq seq (Inr (answer, verdict)) (g, d)
      = (Done (Some s'), (g\<lparr>gr_pending := None\<rparr>, d'))
    \<and> goal_on_disk (gr_store g) d' = Some s'
    \<and> file_at d' (verdict_file (gr_store g)) = Some (''source_checkpoint_seq: '' @ decimal seq @ [newline_byte, newline_byte] @ answer)
    \<and> go_loop_count s' = go_loop_count s + 1 \<and> go_active_turn_id s' = None \<and> go_last_error s' = None
    \<and> go_last_verifier_score s' = vv_score verdict \<and> go_verification_status s' = Verification_Completed
    \<and> go_current_milestone s' = (if vv_outcome verdict = Verdict_Approved \<and> go_current_milestone s < go_total_milestones s
        then go_current_milestone s + 1 else go_current_milestone s)
    \<and> go_status s' = (if vv_outcome verdict = Verdict_Approved
        then (if go_current_milestone s < go_total_milestones s then Goal_Running else Goal_Converged)
        else if go_loop_count s + 1 < go_max_loops s then Goal_Running else Goal_Failed)"
  using assms by (rule calm_verdict)

subsection \<open>What the code does beside its intent\<close>

text \<open>
  The verdict is searched anywhere in the answer: a rejection that mentions the words of an
  approval approves, and the verdict the prompt asks for, in its own words, is none.
\<close>

lemma quoted_approval_approves:
  "vv_outcome (parse_verifier_verdict ''Verdict: REJECTED. Not yet Verdict: APPROVED.'') = Verdict_Approved"
  "vv_outcome (parse_verifier_verdict ''Overall verdict: pass'') = Verdict_Invalid"
  unfolding parse_verifier_verdict_def by (simp_all add: verdict_outcome_of_def) code_simp+

text \<open>
  Setting a goal writes it first without its token budget: when the disk fails after that, the
  call answers with the error and an unlimited goal stays behind, running.
\<close>

definition budget_fault :: "io_error \<Rightarrow> disk" where
  "budget_fault err = \<lparr>dk_nodes = [], dk_fault = (\<lambda>t. if t = 6 then Some \<lparr>ft_error = err, ft_leftover = None, ft_removed = []\<rparr> else None),
     dk_clock = (\<lambda>_. 7), dk_tick = 0\<rparr>"

lemma failed_set_goal_leaves_unlimited_goal:
  assumes law: "goal_json_law hw" and dir: "hw_session_dir hw = ''s''" and size: "length objective \<le> max_goal_objective_bytes"
    and budget: "0 < budget"
  shows "\<exists>d' s. set_goal hw objective (Some budget) (budget_fault err) = (Raised err, d') \<and> goal_on_disk hw d' = Some s
    \<and> go_status s = Goal_Running \<and> go_token_budget s = None"
proof -
  have none: "node_at (budget_fault err) p = None" for p by (simp add: budget_fault_def node_at_def)
  have dirs: "state_file hw = ''s/goal/state.json''" "goal_plan_file hw = ''s/goal/plan.md''" "goal_dir hw = ''s/goal''"
      "living_plan_path (hw_session_dir hw) = ''s/plan/plan.md''"
    using dir by (simp_all add: state_file_def goal_plan_file_def goal_dir_def living_plan_path_def join_path_def)
  have par: "ancestors ''s/goal'' = [''s'']" by code_simp
  have fault: "dk_fault (budget_fault err) t = (if t = 6 then Some \<lparr>ft_error = err, ft_leftover = None, ft_removed = []\<rparr> else None)"
      "dk_tick (budget_fault err) = 0" for t
    by (simp_all add: budget_fault_def)
  have "wp (set_goal hw objective (Some budget)) (\<lambda>r d'. r = Raised err \<and> (\<exists>s. goal_on_disk hw d' = Some s
      \<and> go_status s = Goal_Running \<and> go_token_budget s = None)) (budget_fault err)"
    using size budget law
    by (simp add: set_goal_def init_goal_workspace_with_limits_def Let_def dirs par write_goal_state_def fs_create_dir_all_def
        fs_calls wp_simps none fault ensure_dir_def goal_on_disk_put initial_goal_def file_at_def [of "budget_fault err"])
  then show ?thesis unfolding wp_def by (metis prod.collapse)
qed

subsection \<open>Witnesses\<close>

text \<open>A goal as text: its fields as one number in decimal.\<close>

instance goal_status :: countable by countable_datatype
instance goal_verification_status :: countable by countable_datatype

definition goal_code :: "goal_state \<Rightarrow> nat" where
  "goal_code s = to_nat ((go_schema_version s, go_goal_id s, go_objective s, go_status s, go_current_milestone s,
      go_total_milestones s, go_loop_count s, go_max_loops s, go_milestone_step_budget s, go_milestone_timeout_secs s),
    (go_verifier_model s, map_option (\<lambda>m. (ms_provider_id m, ms_model_id m)) (go_verifier_model_selection s),
      go_last_verifier_score s, go_token_budget s, go_tokens_used s),
    (go_created_at_ms s, go_updated_at_ms s, go_active_turn_id s, go_active_turn_settled s, go_last_error s, go_verification_status s))"

lemma goal_code_inject: "goal_code s = goal_code t \<Longrightarrow> s = t"
proof -
  have sel: "map_option (\<lambda>m. (ms_provider_id m, ms_model_id m)) x = map_option (\<lambda>m. (ms_provider_id m, ms_model_id m)) y \<Longrightarrow> x = y"
    for x y :: "model_selection option"
    by (cases x; cases y) auto
  assume "goal_code s = goal_code t"
  then show "s = t" unfolding goal_code_def by (auto intro!: goal_state.equality dest: sel)
qed

definition sample_goal_json :: host_json where
  "sample_goal_json = \<lparr>hj_goal = (\<lambda>s. decimal (goal_code s)),
     hj_goal_of = (\<lambda>t. if t \<in> range (\<lambda>s. decimal (goal_code s)) then Inr (inv (\<lambda>s. decimal (goal_code s)) t) else Inl ''not a goal''),
     hj_plan = (\<lambda>_. []), hj_plan_of = (\<lambda>_. Inl ''no plan''), hj_cleanup = (\<lambda>_. [])\<rparr>"

definition sample_goal_store :: host_workflow_store where
  "sample_goal_store = \<lparr>hw_session_dir = ''s'', hw_goal_limits = goal_limits_default, hw_json = sample_goal_json, hw_normalize = id\<rparr>"

lemma sample_goal_law: "goal_json_law sample_goal_store"
proof -
  have inj: "inj (\<lambda>s. decimal (goal_code s))" by (rule injI) (auto dest: goal_code_inject)
  have "inv (\<lambda>s. decimal (goal_code s)) (decimal (goal_code s)) = s" for s
    using inv_f_f [OF inj, of s] by simp
  then show ?thesis
    by (auto simp: goal_json_law_def sample_goal_store_def sample_goal_json_def utf8_decimal)
qed

text \<open>A goal at its last milestone whose settled turn is being verified.\<close>

definition sample_goal :: goal_state where
  "sample_goal = (initial_goal goal_limits_default ''ship it'' 7 7)\<lparr>go_current_milestone := 3, go_loop_count := 2,
     go_active_turn_id := Some ''t1'', go_active_turn_settled := True, go_verification_status := Verification_Running\<rparr>"

definition sample_goal_disk :: disk where
  "sample_goal_disk = \<lparr>dk_nodes = [(state_file sample_goal_store, File_Node (hj_goal sample_goal_json sample_goal))],
     dk_fault = (\<lambda>_. None), dk_clock = (\<lambda>_. 9), dk_tick = 0\<rparr>"

definition sample_goal_runtime :: "unit goal_runtime" where
  "sample_goal_runtime = \<lparr>gr_store = sample_goal_store, gr_events = [], gr_notifications = None, gr_verifier_config = Some (),
     gr_verifier_default = retA None,
     gr_pending = Some \<lparr>pv_goal_id = ''g_7'', pv_turn_id = TurnId ''t1'', pv_checkpoint_seq = 5\<rparr>, gr_scheduled = None\<rparr>"

definition sample_verdict :: verifier_verdict where
  "sample_verdict = \<lparr>vv_outcome = Verdict_Approved, vv_score = Some 9, vv_summary = ''done''\<rparr>"

lemma sample_goal_on_disk: "goal_on_disk sample_goal_store sample_goal_disk = Some sample_goal"
  using sample_goal_law
  by (simp add: goal_on_disk_def file_at_def node_at_def sample_goal_disk_def sample_goal_store_def
      goal_text_written [of sample_goal_store, unfolded sample_goal_store_def, simplified])

lemma sample_goal_sel [simp]:
  "gr_store sample_goal_runtime = sample_goal_store" "gr_verifier_default sample_goal_runtime = retA None"
  "torn_writes sample_goal_store sample_goal_disk" "calm sample_goal_disk"
  "go_status sample_goal = Goal_Running" "go_active_turn_id sample_goal = Some ''t1''" "go_active_turn_settled sample_goal"
  "go_current_milestone sample_goal = 3" "go_total_milestones sample_goal = 3" "go_loop_count sample_goal = 2"
  "go_max_loops sample_goal = 100" "go_goal_id sample_goal = ''g_7''"
  "awaited_at sample_goal_runtime ''g_7'' (TurnId ''t1'') 5" "vv_outcome sample_verdict = Verdict_Approved"
proof -
  have "decimal 7 = ''7''" by code_simp
  then show "go_goal_id sample_goal = ''g_7''" by (simp add: sample_goal_def initial_goal_def)
  show "torn_writes sample_goal_store sample_goal_disk" "calm sample_goal_disk"
    by (simp_all add: torn_writes_def calm_def sample_goal_disk_def)
qed (simp_all add: sample_goal_runtime_def sample_goal_def initial_goal_def goal_limits_default_def default_goal_max_loops_def
    awaited_at_def sample_verdict_def)

lemma sample_room: "length (''source_checkpoint_seq: '' @ decimal 5 @ [newline_byte, newline_byte] @ ''ok'') \<le> max_goal_plan_bytes"
    "node_at sample_goal_disk (verdict_file sample_goal_store) \<noteq> Some Dir_Node"
proof -
  have "decimal 5 = ''5''" by code_simp
  then show "length (''source_checkpoint_seq: '' @ decimal 5 @ [newline_byte, newline_byte] @ ''ok'') \<le> max_goal_plan_bytes"
    by (simp add: max_goal_plan_bytes_def)
qed (simp add: node_at_def sample_goal_disk_def)

theorem verdict_decides_goal_witness:
  "\<exists>s' d'. complete_verification ''g_7'' (TurnId ''t1'') 5 5 (Inr (''ok'', sample_verdict)) (sample_goal_runtime, sample_goal_disk)
      = (Done (Some s'), (sample_goal_runtime\<lparr>gr_pending := None\<rparr>, d'))
    \<and> goal_on_disk sample_goal_store d' = Some s' \<and> go_loop_count s' = 3 \<and> go_status s' = Goal_Converged"
  using verdict_decides_goal [of sample_goal_runtime sample_goal_disk sample_goal "TurnId ''t1''" 5 "''ok''" sample_verdict]
    sample_goal_law sample_goal_on_disk sample_room
  by auto

theorem goal_converges_only_by_verdict_witness:
  "\<exists>g' d' s' s turn seq answer verdict.
    perform (Complete_Verification ''g_7'' (TurnId ''t1'') 5 5 (Inr (''ok'', sample_verdict)) :: nat goal_call)
      (sample_goal_runtime, sample_goal_disk) = (g', d')
    \<and> goal_on_disk sample_goal_store d' = Some s' \<and> go_status s' = Goal_Converged
    \<and> goal_on_disk sample_goal_store sample_goal_disk = Some s
    \<and> (Complete_Verification ''g_7'' (TurnId ''t1'') 5 5 (Inr (''ok'', sample_verdict)) :: nat goal_call)
        = Complete_Verification (go_goal_id s) turn seq seq (Inr (answer, verdict))
    \<and> vv_outcome verdict = Verdict_Approved \<and> awaited_at sample_goal_runtime (go_goal_id s) turn seq"
proof -
  let ?c = "Complete_Verification ''g_7'' (TurnId ''t1'') 5 5 (Inr (''ok'', sample_verdict)) :: nat goal_call"
  obtain s' d' where r: "complete_verification ''g_7'' (TurnId ''t1'') 5 5 (Inr (''ok'', sample_verdict))
        (sample_goal_runtime, sample_goal_disk) = (Done (Some s'), (sample_goal_runtime\<lparr>gr_pending := None\<rparr>, d'))"
      "goal_on_disk sample_goal_store d' = Some s'" "go_status s' = Goal_Converged"
    using calm_verdict [of sample_goal_runtime sample_goal_disk sample_goal "TurnId ''t1''" 5 "''ok''" sample_verdict]
      sample_goal_law sample_goal_on_disk sample_room by auto
  then have p: "perform ?c (sample_goal_runtime, sample_goal_disk) = (sample_goal_runtime\<lparr>gr_pending := None\<rparr>, d')"
    by (simp add: perform_def)
  from goal_converges_only_by_verdict [OF _ _ _ p, of s'] r show ?thesis
    using sample_goal_law sample_goal_on_disk p by (auto simp: leaves_basic)
qed

theorem goal_rounds_end_witness:
  "rounds [Complete_Verification ''g_7'' (TurnId ''t1'') 5 5 (Inl ''no answer'') :: nat goal_call, Turn_Settled ''g_7'' (TurnId ''t1'')]
    (sample_goal_runtime, sample_goal_disk) \<le> 98"
  using goal_rounds_end [of sample_goal_runtime sample_goal_disk
      "[Complete_Verification ''g_7'' (TurnId ''t1'') 5 5 (Inl ''no answer'') :: nat goal_call, Turn_Settled ''g_7'' (TurnId ''t1'')]" sample_goal]
    sample_goal_law sample_goal_on_disk
  by simp

end
