(* ===== verification/Session_Record.thy ===== *)
theory Session_Record
  imports Result_Store Execution
begin

section \<open>Records of a session file (session.rs, session/storage.rs)\<close>

text \<open>
  A session is one append-only file of JSON records, a line each.  This theory holds the
  records' data, the reducer that folds the records of an execution into its recoverable state
  (\<open>apply_execution_journal_entry\<close>, \<open>apply_execution_reconciliation\<close>) and the reader that
  rebuilds a session from the bytes of its file (\<open>load_records\<close>).  A \<open>HashMap\<close> is a map; a
  \<open>u64\<close> is a natural number under saturating addition.
\<close>

subsection \<open>Data\<close>

datatype session_execution_status = Exec_Running | Exec_WaitingForContinue | Exec_NeedsReconciliation | Exec_Settled

datatype session_steer_status = Steer_Accepted | Steer_Applied | Steer_Unapplied

record session_steer_request =
  ssr_turn_id :: turn_id
  ssr_request_id :: string
  ssr_text :: string
  ssr_status :: session_steer_status
  ssr_reason :: "string option"

datatype session_reconciliation_disposition = Disposition_Completed | Disposition_NotExecuted

record session_reconciliation_request =
  srr_turn_id :: turn_id
  srr_checkpoint_seq :: nat
  srr_tool_call_id :: string
  srr_request_id :: string
  srr_disposition :: session_reconciliation_disposition
  srr_outcome :: "tool_execution_outcome option"
  srr_evidence_summary :: string

record 'v session_execution_state =
  ses_checkpoint :: "'v execution_checkpoint"
  ses_checkpoint_seq :: nat
  ses_status :: session_execution_status
  ses_phase :: execution_phase
  ses_last_heartbeat_ms :: "nat option"
  ses_last_progress_ms :: "nat option"
  ses_reason :: "string option"
  ses_pending_batch :: "'v execution_tool_batch option"
  ses_pending_user_question :: "user_question_interaction option"
  ses_resume_requests :: "string \<rightharpoonup> nat"
  ses_reconciliation_requests :: "string \<rightharpoonup> session_reconciliation_request"
  ses_steer_requests :: "session_steer_request list"

record 'v session_item =
  si_item_id :: string
  si_thread_id :: string
  si_turn_id :: "string option"
  si_message :: "'v message"
  si_arguments :: "'v option"

text \<open>
  What the code uses of \<open>serde_json\<close> and of the derived encodings of its own types.  \<open>sj_set\<close> is
  the assignment \<open>value[key] = x\<close>; a decoder answers with an error text or the value.
\<close>

record 'v session_json =
  sj_values :: "'v value_api"
  sj_parse :: "string \<Rightarrow> string + 'v"
  sj_set :: "'v \<Rightarrow> string \<Rightarrow> 'v \<Rightarrow> 'v"
  sj_empty_array :: 'v
  sj_message :: "'v message \<Rightarrow> 'v"
  sj_message_of :: "'v \<Rightarrow> string + 'v message"
  sj_messages :: "'v message list \<Rightarrow> 'v"
  sj_messages_of :: "'v \<Rightarrow> string + 'v message list"
  sj_input :: "turn_input \<Rightarrow> 'v"
  sj_input_of :: "'v \<Rightarrow> string + turn_input"
  sj_phase :: "execution_phase \<Rightarrow> 'v"
  sj_phase_of :: "'v \<Rightarrow> string + execution_phase"
  sj_ids :: "string list \<Rightarrow> 'v"
  sj_ids_of :: "'v \<Rightarrow> string + string list"
  sj_entry :: "'v execution_journal_entry \<Rightarrow> string + 'v"
  sj_entry_of :: "'v \<Rightarrow> string + 'v execution_journal_entry"
  sj_reconciliation :: "session_reconciliation_request \<Rightarrow> string + 'v"
  sj_reconciliation_of :: "'v \<Rightarrow> string + session_reconciliation_request"
  sj_interaction :: "user_question_interaction \<Rightarrow> 'v"
  sj_interaction_of :: "'v \<Rightarrow> string + user_question_interaction"
  sj_turn_source_of :: "'v \<Rightarrow> turn_source option"

definition str_field :: "'v session_json \<Rightarrow> 'v \<Rightarrow> string \<Rightarrow> string option" where
  "str_field js r k = Option.bind (va_get (sj_values js) r k) (va_as_str (sj_values js))"

definition u64_field :: "'v session_json \<Rightarrow> 'v \<Rightarrow> string \<Rightarrow> nat option" where
  "u64_field js r k = Option.bind (va_get (sj_values js) r k) (va_as_u64 (sj_values js))"

definition bool_field :: "'v session_json \<Rightarrow> 'v \<Rightarrow> string \<Rightarrow> bool option" where
  "bool_field js r k = Option.bind (va_get (sj_values js) r k) (va_as_bool (sj_values js))"

subsection \<open>The reducer\<close>

text \<open>\<open>iter_mut().find\<close> and an update of what it finds; \<open>position\<close> and \<open>remove\<close>.\<close>

fun update_first :: "('a \<Rightarrow> bool) \<Rightarrow> ('a \<Rightarrow> 'a) \<Rightarrow> 'a list \<Rightarrow> 'a list" where
  "update_first p f [] = []"
| "update_first p f (x # xs) = (if p x then f x # xs else x # update_first p f xs)"

fun remove_first :: "('a \<Rightarrow> bool) \<Rightarrow> 'a list \<Rightarrow> 'a list" where
  "remove_first p [] = []"
| "remove_first p (x # xs) = (if p x then xs else x # remove_first p xs)"

definition not_accepted :: "session_steer_request \<Rightarrow> bool" where
  "not_accepted q \<longleftrightarrow> ssr_status q \<noteq> Steer_Accepted"

lemma length_remove_first_less: "x \<in> set xs \<Longrightarrow> p x \<Longrightarrow> length (remove_first p xs) < length xs"
  by (induction xs) auto

function trim_steers :: "session_steer_request list \<Rightarrow> session_steer_request list" where
  "trim_steers qs = (if 64 < length qs \<and> list_ex not_accepted qs then trim_steers (remove_first not_accepted qs) else qs)"
  by pat_completeness auto
termination
  by (relation "measure length") (auto simp: list_ex_iff length_remove_first_less)

declare trim_steers.simps [simp del]

definition mark_applied :: "session_steer_request \<Rightarrow> session_steer_request" where
  "mark_applied q = q\<lparr>ssr_status := Steer_Applied, ssr_reason := None\<rparr>"

definition apply_checkpoint ::
  "nat \<Rightarrow> nat \<Rightarrow> 'v execution_checkpoint \<Rightarrow> 'v session_execution_state option \<Rightarrow> 'v session_execution_state" where
  "apply_checkpoint seq ts cp current =
    (let before = (case current of None \<Rightarrow> [] | Some s \<Rightarrow> ses_steer_requests s);
         steers = fold (\<lambda>i. update_first (\<lambda>q. ssr_request_id q = i) mark_applied) (ecp_applied_steer_request_ids cp) before
     in \<lparr>ses_checkpoint = cp, ses_checkpoint_seq = seq, ses_status = Exec_Running, ses_phase = ecp_phase cp,
         ses_last_heartbeat_ms = None, ses_last_progress_ms = Some ts, ses_reason = None, ses_pending_batch = None,
         ses_pending_user_question = None, ses_resume_requests = Map.empty, ses_reconciliation_requests = Map.empty,
         ses_steer_requests = trim_steers steers\<rparr>)"

definition ses_turn_id :: "'v session_execution_state \<Rightarrow> turn_id" where
  "ses_turn_id s = ecp_turn_id (ses_checkpoint s)"

text \<open>An update of the current state if it is of the given turn.\<close>

definition on_turn :: "turn_id \<Rightarrow> ('v session_execution_state \<Rightarrow> 'v session_execution_state)
    \<Rightarrow> 'v session_execution_state option \<Rightarrow> 'v session_execution_state option" where
  "on_turn turn f current = map_option (\<lambda>s. if ses_turn_id s = turn then f s else s) current"

definition accept_steer :: "turn_id \<Rightarrow> string \<Rightarrow> string \<Rightarrow> nat \<Rightarrow> 'v session_execution_state \<Rightarrow> 'v session_execution_state" where
  "accept_steer turn request_id text ts s =
    (let kept = (if 64 \<le> length (ses_steer_requests s) then remove_first not_accepted (ses_steer_requests s)
                 else ses_steer_requests s)
     in s\<lparr>ses_steer_requests := kept @ [\<lparr>ssr_turn_id = turn, ssr_request_id = request_id, ssr_text = text,
            ssr_status = Steer_Accepted, ssr_reason = None\<rparr>],
          ses_last_progress_ms := Some ts\<rparr>)"

definition drop_steer :: "turn_id \<Rightarrow> string \<Rightarrow> string \<Rightarrow> nat \<Rightarrow> 'v session_execution_state \<Rightarrow> 'v session_execution_state" where
  "drop_steer turn request_id reason ts s =
    (let pending = (\<lambda>q. ssr_turn_id q = turn \<and> ssr_request_id q = request_id \<and> ssr_status q = Steer_Accepted)
     in if list_ex pending (ses_steer_requests s)
        then s\<lparr>ses_steer_requests := update_first pending (\<lambda>q. q\<lparr>ssr_status := Steer_Unapplied, ssr_reason := Some reason\<rparr>)
               (ses_steer_requests s), ses_last_progress_ms := Some ts\<rparr>
        else s)"

definition start_batch :: "'v tool_batch_intent \<Rightarrow> nat \<Rightarrow> 'v session_execution_state \<Rightarrow> 'v session_execution_state" where
  "start_batch batch ts s = s\<lparr>ses_phase := Phase_ToolBatch, ses_last_progress_ms := Some ts,
     ses_pending_batch := Some \<lparr>etb_intent = batch,
       etb_calls = map (\<lambda>c. \<lparr>etc_call = c, etc_started = False, etc_outcome = None\<rparr>) (tbi_calls batch)\<rparr>\<rparr>"

text \<open>An update of one call of the pending batch of the given step.\<close>

definition call_has_id :: "string \<Rightarrow> 'v execution_tool_call \<Rightarrow> bool" where
  "call_has_id i c \<longleftrightarrow> tc_id (etc_call c) = i"

definition update_call ::
  "string \<Rightarrow> ('v execution_tool_call \<Rightarrow> 'v execution_tool_call) \<Rightarrow> 'v execution_tool_batch \<Rightarrow> 'v execution_tool_batch" where
  "update_call i f b = b\<lparr>etb_calls := update_first (call_has_id i) f (etb_calls b)\<rparr>"

definition on_call :: "nat \<Rightarrow> string \<Rightarrow> ('v execution_tool_call \<Rightarrow> 'v execution_tool_call)
    \<Rightarrow> ('v session_execution_state \<Rightarrow> 'v session_execution_state)
    \<Rightarrow> 'v session_execution_state \<Rightarrow> 'v session_execution_state" where
  "on_call step i f g s = (case ses_pending_batch s of
     None \<Rightarrow> s
   | Some b \<Rightarrow> if tbi_step (etb_intent b) = step \<and> list_ex (call_has_id i) (etb_calls b)
       then g (s\<lparr>ses_pending_batch := Some (update_call i f b)\<rparr>) else s)"

definition finish_call :: "string \<Rightarrow> nat \<Rightarrow> 'v session_execution_state \<Rightarrow> 'v session_execution_state" where
  "finish_call i ts s = s\<lparr>ses_last_progress_ms := Some ts,
     ses_pending_user_question := (case ses_pending_user_question s of
        Some q \<Rightarrow> if uqi_call_id q = i then None else Some q | None \<Rightarrow> None)\<rparr>"

fun apply_execution_journal_entry :: "nat \<Rightarrow> nat \<Rightarrow> 'v execution_journal_entry
    \<Rightarrow> 'v session_execution_state option \<Rightarrow> 'v session_execution_state option" where
  "apply_execution_journal_entry seq ts (J_Checkpoint cp) current = Some (apply_checkpoint seq ts cp current)"
| "apply_execution_journal_entry seq ts (J_SteerAccepted turn i t) current = on_turn turn (accept_steer turn i t ts) current"
| "apply_execution_journal_entry seq ts (J_SteerUnapplied turn i reason) current =
    map_option (drop_steer turn i reason ts) current"
| "apply_execution_journal_entry seq ts (J_ToolBatchStarted batch) current = map_option (start_batch batch ts) current"
| "apply_execution_journal_entry seq ts (J_ToolCallStarted turn step i) current =
    on_turn turn (on_call step i (\<lambda>c. c\<lparr>etc_started := True\<rparr>) (\<lambda>s. s\<lparr>ses_last_progress_ms := Some ts\<rparr>)) current"
| "apply_execution_journal_entry seq ts (J_ToolCallFinished turn step i result) current =
    on_turn turn (on_call step i (\<lambda>c. c\<lparr>etc_outcome := Some result\<rparr>) (finish_call i ts)) current"
| "apply_execution_journal_entry seq ts (J_ToolBatchSettled turn step) current =
    on_turn turn (\<lambda>s. case ses_pending_batch s of
        None \<Rightarrow> s
      | Some b \<Rightarrow> if tbi_step (etb_intent b) = step then s\<lparr>ses_last_progress_ms := Some ts\<rparr> else s) current"
| "apply_execution_journal_entry seq ts (J_WaitingForContinue turn reason) current =
    on_turn turn (\<lambda>s. s\<lparr>ses_status := Exec_WaitingForContinue, ses_reason := Some reason\<rparr>) current"
| "apply_execution_journal_entry seq ts (J_Resumed turn i cseq) current =
    on_turn turn (\<lambda>s. s\<lparr>ses_status := Exec_Running, ses_reason := None,
      ses_resume_requests := (ses_resume_requests s)(i \<mapsto> cseq)\<rparr>) current"
| "apply_execution_journal_entry seq ts (J_Heartbeat turn phase at_ms progress_ms) current =
    on_turn turn (\<lambda>s. s\<lparr>ses_phase := phase, ses_last_heartbeat_ms := Some at_ms, ses_last_progress_ms := Some progress_ms\<rparr>) current"
| "apply_execution_journal_entry seq ts (J_NeedsReconciliation turn reason) current =
    on_turn turn (\<lambda>s. s\<lparr>ses_status := Exec_NeedsReconciliation, ses_reason := Some reason\<rparr>) current"
| "apply_execution_journal_entry seq ts (J_Settled turn) current =
    on_turn turn (\<lambda>s. s\<lparr>ses_status := Exec_Settled, ses_reason := None, ses_pending_batch := None\<rparr>) current"

definition execution_entry_turn_id :: "'v execution_journal_entry \<Rightarrow> turn_id" where
  "execution_entry_turn_id entry = (case entry of
     J_Checkpoint cp \<Rightarrow> ecp_turn_id cp | J_ToolBatchStarted batch \<Rightarrow> tbi_turn_id batch
   | J_SteerAccepted turn _ _ \<Rightarrow> turn | J_SteerUnapplied turn _ _ \<Rightarrow> turn | J_ToolCallStarted turn _ _ \<Rightarrow> turn
   | J_ToolCallFinished turn _ _ _ \<Rightarrow> turn | J_ToolBatchSettled turn _ \<Rightarrow> turn | J_WaitingForContinue turn _ \<Rightarrow> turn
   | J_Resumed turn _ _ \<Rightarrow> turn | J_Heartbeat turn _ _ _ \<Rightarrow> turn | J_NeedsReconciliation turn _ \<Rightarrow> turn
   | J_Settled turn \<Rightarrow> turn)"

definition is_checkpoint_entry :: "'v execution_journal_entry \<Rightarrow> bool" where
  "is_checkpoint_entry entry = (case entry of J_Checkpoint _ \<Rightarrow> True | _ \<Rightarrow> False)"

text \<open>A started call whose result is not known.\<close>

definition uncertain :: "'v execution_tool_call \<Rightarrow> bool" where
  "uncertain c \<longleftrightarrow> etc_started c \<and> etc_outcome c = None"

definition has_uncertain_call :: "'v session_execution_state \<Rightarrow> bool" where
  "has_uncertain_call s = (case ses_pending_batch s of None \<Rightarrow> False | Some b \<Rightarrow> list_ex uncertain (etb_calls b))"

definition dispose_call :: "session_reconciliation_request \<Rightarrow> 'v execution_tool_call \<Rightarrow> 'v execution_tool_call" where
  "dispose_call q c = (case srr_disposition q of
     Disposition_Completed \<Rightarrow> c\<lparr>etc_outcome := srr_outcome q\<rparr>
   | Disposition_NotExecuted \<Rightarrow> c\<lparr>etc_started := False, etc_outcome := None\<rparr>)"

definition reconciled_batch ::
  "session_reconciliation_request \<Rightarrow> 'v execution_tool_batch option \<Rightarrow> 'v execution_tool_batch option" where
  "reconciled_batch q batch = map_option (\<lambda>b. if tbi_turn_id (etb_intent b) = srr_turn_id q
     then update_call (srr_tool_call_id q) (dispose_call q) b else b) batch"

definition reconciled_state ::
  "nat \<Rightarrow> session_reconciliation_request \<Rightarrow> 'v session_execution_state \<Rightarrow> 'v session_execution_state" where
  "reconciled_state ts q s =
    (let s' = s\<lparr>ses_pending_batch := reconciled_batch q (ses_pending_batch s),
           ses_reconciliation_requests := (ses_reconciliation_requests s)(srr_request_id q \<mapsto> q)\<rparr>;
         still_uncertain = has_uncertain_call s'
     in s'\<lparr>ses_status := if still_uncertain then Exec_NeedsReconciliation else Exec_WaitingForContinue,
          ses_reason := if still_uncertain then Some ''other started tool calls still need reconciliation'' else None,
          ses_last_progress_ms := Some ts\<rparr>)"

definition apply_execution_reconciliation :: "nat \<Rightarrow> session_reconciliation_request
    \<Rightarrow> 'v session_execution_state option \<Rightarrow> 'v session_execution_state option" where
  "apply_execution_reconciliation ts q current = map_option (\<lambda>s.
     if ses_turn_id s = srr_turn_id q \<and> ses_checkpoint_seq s = srr_checkpoint_seq q
       \<and> ses_reconciliation_requests s (srr_request_id q) = None
     then reconciled_state ts q s else s) current"

text \<open>The interaction of an \<open>ask_user\<close> call that waits for its answer.\<close>

definition apply_user_question :: "nat \<Rightarrow> user_question_interaction
    \<Rightarrow> 'v session_execution_state option \<Rightarrow> 'v session_execution_state option" where
  "apply_user_question ts q current = on_turn (uqi_turn_id q)
     (\<lambda>s. s\<lparr>ses_pending_user_question := Some q, ses_last_progress_ms := Some ts\<rparr>) current"

subsection \<open>Reading a session back\<close>

datatype session_load_issue = Issue_InvalidRecord | Issue_SequenceGap | Issue_MissingCheckpoint

record session_load_error =
  sle_issue :: session_load_issue
  sle_byte_offset :: "nat option"
  sle_expected_seq :: "nat option"
  sle_found_seq :: "nat option"
  sle_message :: string

definition invalid_record :: "string \<Rightarrow> nat option \<Rightarrow> session_load_error" where
  "invalid_record message offset = \<lparr>sle_issue = Issue_InvalidRecord, sle_byte_offset = offset,
     sle_expected_seq = None, sle_found_seq = None, sle_message = message\<rparr>"

text \<open>\<open>ok_or_else\<close> and \<open>map_err\<close> with \<open>?\<close> in the reader.\<close>

definition trying :: "'e + 'a \<Rightarrow> ('a \<Rightarrow> 'e + 'b) \<Rightarrow> 'e + 'b" where
  "trying r f = (case r of Inl e \<Rightarrow> Inl e | Inr x \<Rightarrow> f x)"

definition required :: "string \<Rightarrow> 'a option \<Rightarrow> session_load_error + 'a" where
  "required message r = (case r of None \<Rightarrow> Inl (invalid_record message None) | Some x \<Rightarrow> Inr x)"

definition decoded :: "string \<Rightarrow> string + 'a \<Rightarrow> session_load_error + 'a" where
  "decoded what r = (case r of Inl e \<Rightarrow> Inl (invalid_record (what @ '': '' @ e) None) | Inr x \<Rightarrow> Inr x)"

record 'v loading =
  ld_offset :: nat
  ld_expected_seq :: nat
  ld_header_seen :: bool
  ld_latest_checkpoint :: "(nat \<times> string \<times> 'v message list) option"
  ld_items :: "'v session_item list"
  ld_turn_sources :: "string \<rightharpoonup> turn_source"
  ld_is_forked :: bool
  ld_turn_count :: nat
  ld_thread_turn_counts :: "string \<rightharpoonup> nat"
  ld_created_at_ms :: nat
  ld_execution_state :: "'v session_execution_state option"
  ld_recovery_gap :: "nat option option"

record 'v loaded_records =
  lr_thread_id :: string
  lr_messages :: "'v message list"
  lr_items :: "'v session_item list"
  lr_turn_sources :: "string \<rightharpoonup> turn_source"
  lr_is_forked :: bool
  lr_next_seq :: nat
  lr_checkpoint_seq :: nat
  lr_turn_count :: nat
  lr_thread_turn_count :: nat
  lr_created_at_ms :: nat
  lr_valid_bytes :: nat
  lr_execution_state :: "'v session_execution_state option"
  lr_recovery_gap :: "nat option option"

definition loading_start :: "'v loading" where
  "loading_start = \<lparr>ld_offset = 0, ld_expected_seq = 1, ld_header_seen = False, ld_latest_checkpoint = None,
     ld_items = [], ld_turn_sources = Map.empty, ld_is_forked = False, ld_turn_count = 0,
     ld_thread_turn_counts = Map.empty, ld_created_at_ms = 0, ld_execution_state = None, ld_recovery_gap = None\<rparr>"

definition schema_version :: nat where "schema_version = 2"

definition load_header ::
  "'v session_json \<Rightarrow> string \<Rightarrow> 'v \<Rightarrow> 'v loading \<Rightarrow> session_load_error + 'v loading" where
  "load_header js session_id r ld =
    trying (required ''session header is missing session_id'' (str_field js r ''session_id'')) (\<lambda>stored_id.
    if stored_id \<noteq> session_id then Inl (invalid_record ''session id does not match its file name'' None)
    else if u64_field js r ''schema_version'' \<noteq> Some schema_version
    then Inl (invalid_record (''unsupported Session schema version ''
       @ (case u64_field js r ''schema_version'' of None \<Rightarrow> ''missing'' | Some n \<Rightarrow> decimal n)
       @ ''; V2 requires exporting or archiving this Session with the previous release before opening it'') None)
    else Inr (ld\<lparr>ld_created_at_ms := (case u64_field js r ''timestamp_ms'' of None \<Rightarrow> 0 | Some n \<Rightarrow> n),
       ld_is_forked := va_get (sj_values js) r ''forked_from'' \<noteq> None, ld_header_seen := True\<rparr>))"

definition record_turn_source :: "'v session_json \<Rightarrow> 'v \<Rightarrow> turn_source option" where
  "record_turn_source js r = Option.bind (va_get (sj_values js) r ''presentation'')
     (\<lambda>p. Option.bind (va_get (sj_values js) p ''turnSource'') (sj_turn_source_of js))"

definition load_turn_started :: "'v session_json \<Rightarrow> 'v \<Rightarrow> 'v loading \<Rightarrow> session_load_error + 'v loading" where
  "load_turn_started js r ld =
    (let execution_resume = (case bool_field js r ''execution_resume'' of None \<Rightarrow> False | Some b \<Rightarrow> b);
         ld1 = (if execution_resume then ld else ld\<lparr>ld_turn_count := sat_add (ld_turn_count ld) 1\<rparr>)
     in trying (required ''turn_started is missing thread_id'' (str_field js r ''thread_id'')) (\<lambda>thread_id.
       let ld2 = (case (str_field js r ''turn_id'', record_turn_source js r) of
             (Some turn_id, Some source) \<Rightarrow> ld1\<lparr>ld_turn_sources := (ld_turn_sources ld1)(turn_id \<mapsto> source)\<rparr>
           | _ \<Rightarrow> ld1);
           count = (case ld_thread_turn_counts ld2 thread_id of None \<Rightarrow> 0 | Some n \<Rightarrow> n)
       in Inr (if execution_resume then ld2
               else ld2\<lparr>ld_thread_turn_counts := (ld_thread_turn_counts ld2)(thread_id \<mapsto> sat_add count 1)\<rparr>)))"

definition load_item :: "'v session_json \<Rightarrow> 'v \<Rightarrow> 'v loading \<Rightarrow> session_load_error + 'v loading" where
  "load_item js r ld =
    trying (required ''item is missing thread_id'' (str_field js r ''thread_id'')) (\<lambda>thread_id.
    trying (required ''item is missing item_id'' (str_field js r ''item_id'')) (\<lambda>item_id.
    trying (required ''item is missing message'' (va_get (sj_values js) r ''message'')) (\<lambda>m.
    trying (decoded ''invalid item message'' (sj_message_of js m)) (\<lambda>message.
    Inr (ld\<lparr>ld_items := ld_items ld @ [\<lparr>si_item_id = item_id, si_thread_id = thread_id,
       si_turn_id = str_field js r ''turn_id'', si_message = message,
       si_arguments = (case va_get (sj_values js) r ''arguments'' of None \<Rightarrow> None
         | Some v \<Rightarrow> if va_is_null (sj_values js) v then None else Some v)\<rparr>]\<rparr>)))))"

definition lacks_outcome :: "'v message \<Rightarrow> bool" where
  "lacks_outcome m = (case m of Tool _ _ _ _ None \<Rightarrow> True | _ \<Rightarrow> False)"

definition load_checkpoint :: "'v session_json \<Rightarrow> nat \<Rightarrow> 'v \<Rightarrow> 'v loading \<Rightarrow> session_load_error + 'v loading" where
  "load_checkpoint js seq r ld =
    trying (required ''checkpoint is missing thread_id'' (str_field js r ''thread_id'')) (\<lambda>thread_id.
    trying (required ''checkpoint is missing messages'' (va_get (sj_values js) r ''messages'')) (\<lambda>m.
    trying (decoded ''invalid checkpoint messages'' (sj_messages_of js m)) (\<lambda>messages.
    if list_ex lacks_outcome messages
    then Inl (invalid_record ''session checkpoint has a tool record without outcome'' None)
    else Inr (ld\<lparr>ld_latest_checkpoint := Some (seq, thread_id, messages)\<rparr>))))"

text \<open>
  The messages an \<open>append\<close> checkpoint extends: those of the state of its own turn, or else the
  settled messages of its thread.
\<close>

definition append_base :: "string \<Rightarrow> string \<Rightarrow> 'v loading \<Rightarrow> 'v message list option" where
  "append_base record_thread turn_id ld =
    (case ld_execution_state ld of
       Some s \<Rightarrow> if turn_id_str (ses_turn_id s) = turn_id then Some (ecp_messages (ses_checkpoint s))
         else (case ld_latest_checkpoint ld of
             Some (_, i, messages) \<Rightarrow> if i = record_thread then Some messages else None | None \<Rightarrow> None)
     | None \<Rightarrow> (case ld_latest_checkpoint ld of
             Some (_, i, messages) \<Rightarrow> if i = record_thread then Some messages else None | None \<Rightarrow> None))"

definition checkpoint_messages :: "string \<Rightarrow> string \<Rightarrow> string \<Rightarrow> 'v message list \<Rightarrow> 'v loading
    \<Rightarrow> session_load_error + 'v message list" where
  "checkpoint_messages mode record_thread turn_id delta ld =
    (if mode = ''append'' then trying (required ''execution checkpoint append has no conversation base''
         (append_base record_thread turn_id ld)) (\<lambda>base. Inr (base @ delta))
     else if mode = ''replace'' then Inr delta
     else Inl (invalid_record ''invalid execution checkpoint message mode'' None))"

definition load_execution_checkpoint ::
  "'v session_json \<Rightarrow> nat \<Rightarrow> nat \<Rightarrow> 'v \<Rightarrow> 'v loading \<Rightarrow> session_load_error + 'v loading" where
  "load_execution_checkpoint js seq ts r ld =
    trying (required ''execution checkpoint is missing thread_id'' (str_field js r ''thread_id'')) (\<lambda>record_thread.
    trying (required ''execution checkpoint is missing turn_id'' (str_field js r ''turn_id'')) (\<lambda>turn_id.
    trying (required ''execution checkpoint is missing message_mode'' (str_field js r ''message_mode'')) (\<lambda>mode.
    trying (required ''execution checkpoint is missing messages'' (va_get (sj_values js) r ''messages'')) (\<lambda>m.
    trying (decoded ''invalid execution checkpoint messages'' (sj_messages_of js m)) (\<lambda>delta.
    trying (checkpoint_messages mode record_thread turn_id delta ld) (\<lambda>messages.
    trying (required ''execution checkpoint is missing input'' (va_get (sj_values js) r ''input'')) (\<lambda>i.
    trying (decoded ''invalid execution checkpoint input'' (sj_input_of js i)) (\<lambda>input.
    trying (required ''execution checkpoint is missing next_model_step'' (u64_field js r ''next_model_step'')) (\<lambda>step.
    trying (required ''execution checkpoint is missing final_text'' (str_field js r ''final_text'')) (\<lambda>final_text.
    trying (required ''execution checkpoint is missing phase'' (va_get (sj_values js) r ''phase'')) (\<lambda>p.
    trying (decoded ''invalid execution checkpoint phase'' (sj_phase_of js p)) (\<lambda>phase.
    trying (decoded ''invalid applied steer request ids'' (sj_ids_of js
        (case va_get (sj_values js) r ''applied_steer_request_ids'' of None \<Rightarrow> sj_empty_array js | Some v \<Rightarrow> v))) (\<lambda>ids.
    Inr (ld\<lparr>ld_execution_state := apply_execution_journal_entry seq ts (J_Checkpoint
        \<lparr>ecp_turn_id = TurnId turn_id, ecp_input = input, ecp_messages = messages, ecp_next_model_step = step,
         ecp_final_text = final_text, ecp_phase = phase, ecp_applied_steer_request_ids = ids\<rparr>)
        (ld_execution_state ld)\<rparr>))))))))))))))"

definition execution_kinds :: "string list" where
  "execution_kinds = [''execution_tool_batch_started'', ''execution_tool_call_started'', ''execution_tool_call_finished'',
     ''execution_tool_batch_settled'', ''execution_waiting_for_continue'', ''execution_resumed'', ''execution_heartbeat'',
     ''execution_needs_reconciliation'', ''execution_steer_accepted'', ''execution_steer_unapplied'', ''execution_settled'']"

text \<open>\<open>trim_start_matches\<close> with a non-empty pattern.\<close>

function trim_start_matches :: "string \<Rightarrow> string \<Rightarrow> string" where
  "trim_start_matches p s = (if p \<noteq> [] \<and> starts_with p s then trim_start_matches p (drop (length p) s) else s)"
  by pat_completeness auto
termination
  by (relation "measure (\<lambda>(p, s). length s)") (auto simp: starts_with_iff)

declare trim_start_matches.simps [simp del]

definition load_execution_entry ::
  "'v session_json \<Rightarrow> nat \<Rightarrow> nat \<Rightarrow> 'v \<Rightarrow> 'v loading \<Rightarrow> session_load_error + 'v loading" where
  "load_execution_entry js seq ts r ld =
    (let kind = trim_start_matches ''execution_'' (case str_field js r ''kind'' of None \<Rightarrow> [] | Some k \<Rightarrow> k)
     in trying (decoded ''invalid execution journal record''
          (sj_entry_of js (sj_set js r ''kind'' (va_str (sj_values js) kind)))) (\<lambda>entry.
       let current = (case ld_execution_state ld of
           Some s \<Rightarrow> if \<not> is_checkpoint_entry entry \<and> ses_turn_id s \<noteq> execution_entry_turn_id entry then None else Some s
         | None \<Rightarrow> None)
       in Inr (ld\<lparr>ld_execution_state := apply_execution_journal_entry seq ts entry current\<rparr>)))"

definition load_user_question ::
  "'v session_json \<Rightarrow> nat \<Rightarrow> 'v \<Rightarrow> 'v loading \<Rightarrow> session_load_error + 'v loading" where
  "load_user_question js ts r ld =
    trying (required ''user question record is missing interaction'' (va_get (sj_values js) r ''interaction'')) (\<lambda>i.
    trying (decoded ''invalid user question interaction'' (sj_interaction_of js i)) (\<lambda>q.
    if thread_id_str (uqi_thread_id q) \<noteq> (case str_field js r ''thread_id'' of None \<Rightarrow> [] | Some t \<Rightarrow> t)
      \<or> turn_id_str (uqi_turn_id q) \<noteq> (case str_field js r ''turn_id'' of None \<Rightarrow> [] | Some t \<Rightarrow> t)
    then Inl (invalid_record ''user question record identity does not match its interaction'' (Some (ld_offset ld)))
    else Inr (ld\<lparr>ld_execution_state := apply_user_question ts q (ld_execution_state ld)\<rparr>)))"

definition load_reconciled ::
  "'v session_json \<Rightarrow> string \<Rightarrow> nat \<Rightarrow> 'v \<Rightarrow> 'v loading \<Rightarrow> session_load_error + 'v loading" where
  "load_reconciled js session_id ts r ld =
    trying (decoded ''invalid execution reconciliation record'' (sj_reconciliation_of js r)) (\<lambda>q.
    if str_field js r ''thread_id'' \<noteq> map_option (\<lambda>(_, i, _). i) (ld_latest_checkpoint ld)
      \<or> str_field js r ''session_id'' \<noteq> Some session_id
    then Inl (invalid_record ''execution reconciliation identity does not match its Session'' (Some (ld_offset ld)))
    else if (case ld_execution_state ld of None \<Rightarrow> True
        | Some s \<Rightarrow> ses_turn_id s \<noteq> srr_turn_id q \<or> ses_checkpoint_seq s \<noteq> srr_checkpoint_seq q)
    then Inl (invalid_record ''execution reconciliation checkpoint does not match its Session state'' (Some (ld_offset ld)))
    else Inr (ld\<lparr>ld_execution_state := apply_execution_reconciliation ts q (ld_execution_state ld)\<rparr>))"

definition load_recovery_gap :: "'v session_json \<Rightarrow> 'v \<Rightarrow> 'v loading \<Rightarrow> 'v loading" where
  "load_recovery_gap js r ld = (if ld_recovery_gap ld = None
     then ld\<lparr>ld_recovery_gap := Some (u64_field js r ''missing_seq'')\<rparr> else ld)"

definition load_kind :: "'v session_json \<Rightarrow> string \<Rightarrow> nat \<Rightarrow> nat \<Rightarrow> string \<Rightarrow> 'v \<Rightarrow> 'v loading
    \<Rightarrow> session_load_error + 'v loading" where
  "load_kind js session_id seq ts kind r ld =
    (if \<not> ld_header_seen ld then
       (if kind = ''session_created'' then load_header js session_id r ld
        else Inl (invalid_record ''session header must be the first record'' (Some (ld_offset ld))))
     else if kind = ''turn_started'' then load_turn_started js r ld
     else if kind = ''item'' then load_item js r ld
     else if kind = ''checkpoint'' then load_checkpoint js seq r ld
     else if kind = ''execution_checkpoint'' then load_execution_checkpoint js seq ts r ld
     else if kind \<in> set execution_kinds then load_execution_entry js seq ts r ld
     else if kind = ''execution_user_question'' then load_user_question js ts r ld
     else if kind = ''execution_reconciled'' then load_reconciled js session_id ts r ld
     else if kind = ''recovery_gap'' then Inr (load_recovery_gap js r ld)
     else Inr ld)"

text \<open>One complete line of the file.\<close>

definition load_record ::
  "'v session_json \<Rightarrow> string \<Rightarrow> string \<Rightarrow> 'v loading \<Rightarrow> session_load_error + 'v loading" where
  "load_record js session_id line ld =
    (if max_record_bytes < length line
     then Inl (invalid_record (''session record exceeds '' @ decimal max_record_bytes @ '' byte limit'') (Some (ld_offset ld)))
     else (case sj_parse js line of
         Inl e \<Rightarrow> Inl (invalid_record (''invalid session record at byte '' @ decimal (ld_offset ld) @ '': '' @ e) (Some (ld_offset ld)))
       | Inr r \<Rightarrow> (case u64_field js r ''seq'' of
           None \<Rightarrow> Inl (invalid_record (''session record at byte '' @ decimal (ld_offset ld) @ '' is missing seq'') (Some (ld_offset ld)))
         | Some seq \<Rightarrow>
             let ts = (case u64_field js r ''timestamp_ms'' of None \<Rightarrow> 0 | Some n \<Rightarrow> n) in
             if seq \<noteq> ld_expected_seq ld
             then Inl \<lparr>sle_issue = Issue_SequenceGap, sle_byte_offset = Some (ld_offset ld),
                sle_expected_seq = Some (ld_expected_seq ld), sle_found_seq = Some seq,
                sle_message = ''session sequence mismatch: expected '' @ decimal (ld_expected_seq ld) @ '', found '' @ decimal seq\<rparr>
             else trying
               (case str_field js r ''kind'' of
                  None \<Rightarrow> Inl (invalid_record ''session record is missing kind'' (Some (ld_offset ld)))
                | Some kind \<Rightarrow> load_kind js session_id seq ts kind r (ld\<lparr>ld_expected_seq := sat_add (ld_expected_seq ld) 1\<rparr>))
               (\<lambda>ld'. Inr (ld'\<lparr>ld_offset := sat_add (ld_offset ld') (length line + 1)\<rparr>)))))"

fun load_all_records ::
  "'v session_json \<Rightarrow> string \<Rightarrow> string list \<Rightarrow> 'v loading \<Rightarrow> session_load_error + 'v loading" where
  "load_all_records js session_id [] ld = Inr ld"
| "load_all_records js session_id (line # rest) ld =
    trying (load_record js session_id line ld) (load_all_records js session_id rest)"

text \<open>The lines that end in a newline; what follows the last one is a torn tail.\<close>

definition complete_lines :: "string \<Rightarrow> string list" where
  "complete_lines bytes = butlast (split_on newline_byte bytes)"

definition finish_loading :: "'v loading \<Rightarrow> session_load_error + 'v loaded_records" where
  "finish_loading ld = (case ld_latest_checkpoint ld of
     None \<Rightarrow> Inl \<lparr>sle_issue = Issue_MissingCheckpoint, sle_byte_offset = None, sle_expected_seq = None,
       sle_found_seq = None, sle_message = ''session has no settled checkpoint to resume''\<rparr>
   | Some (checkpoint_seq, thread_id, messages) \<Rightarrow> Inr \<lparr>lr_thread_id = thread_id, lr_messages = messages,
       lr_items = ld_items ld, lr_turn_sources = ld_turn_sources ld, lr_is_forked = ld_is_forked ld,
       lr_next_seq = ld_expected_seq ld, lr_checkpoint_seq = checkpoint_seq, lr_turn_count = ld_turn_count ld,
       lr_thread_turn_count = (case ld_thread_turn_counts ld thread_id of None \<Rightarrow> 0 | Some n \<Rightarrow> n),
       lr_created_at_ms = ld_created_at_ms ld, lr_valid_bytes = ld_offset ld,
       lr_execution_state = ld_execution_state ld, lr_recovery_gap = ld_recovery_gap ld\<rparr>)"

definition load_records :: "'v session_json \<Rightarrow> string \<Rightarrow> string \<Rightarrow> session_load_error + 'v loaded_records" where
  "load_records js session_id bytes =
    trying (load_all_records js session_id (complete_lines bytes) loading_start) finish_loading"

end
