(* ===== verification/Session_Journal.thy ===== *)
theory Session_Journal
  imports Session_Record
begin

section \<open>The execution journal (session.rs)\<close>

text \<open>
  The journal a turn writes its progress to: every entry is appended to the session file and
  synchronised before the in-memory execution state follows.  The state is shared by the store
  and the journals it hands out; a journal adds what it last wrote (\<open>writer_state\<close>).  The
  mutexes are held over whole operations, so an operation is one atomic step.
\<close>

subsection \<open>State\<close>

record 'v journal_writer =
  jw_turn_id :: "turn_id option"
  jw_messages :: "'v message list"
  jw_checkpoint_seq :: nat

record execution_journal =
  ej_session_id :: string
  ej_thread_id :: string
  ej_path :: string

record 'v journal_live =
  jl_state :: "'v session_execution_state option"
  jl_writer :: "'v journal_writer"

type_synonym ('v, 'a) journal_act = "('v journal_live \<times> disk, string, 'a) act"

datatype steer_request_reservation = Steer_Reserved session_steer_request | Steer_Duplicate session_steer_request

datatype reconciliation_reservation = Reconciliation_Applied | Reconciliation_AlreadyApplied

definition max_session_bytes :: nat where "max_session_bytes = 256 * 1024 * 1024"

text \<open>The writer of a journal the store hands out.\<close>

definition fresh_writer :: "'v session_execution_state option \<Rightarrow> 'v message list \<Rightarrow> 'v journal_writer" where
  "fresh_writer state base_messages = (case state of
     Some s \<Rightarrow> \<lparr>jw_turn_id = Some (ses_turn_id s), jw_messages = ecp_messages (ses_checkpoint s),
       jw_checkpoint_seq = ses_checkpoint_seq s\<rparr>
   | None \<Rightarrow> \<lparr>jw_turn_id = None, jw_messages = base_messages, jw_checkpoint_seq = 0\<rparr>)"

subsection \<open>Appending a record to the session file\<close>

text \<open>The bytes up to and including the last newline.\<close>

definition valid_prefix_length :: "string \<Rightarrow> nat" where
  "valid_prefix_length bytes = length bytes - length (takeWhile (\<lambda>c. c \<noteq> newline_byte) (rev bytes))"

fun scan_seq :: "'v session_json \<Rightarrow> string list \<Rightarrow> nat \<Rightarrow> string + nat" where
  "scan_seq js [] n = Inr n"
| "scan_seq js (line # rest) n = (case sj_parse js line of
     Inl e \<Rightarrow> Inl (''invalid Session journal record: '' @ e)
   | Inr existing \<Rightarrow> (case u64_field js existing ''seq'' of
       None \<Rightarrow> Inl ''Session journal record is missing seq''
     | Some seq \<Rightarrow> scan_seq js rest (sat_add seq 1)))"

definition io_error_of :: "string \<Rightarrow> io_error \<Rightarrow> string" where
  "io_error_of what e = what @ '': '' @ ie_text e"

text \<open>Write, flush and synchronise; what a failure left is cut off again.\<close>

definition write_record :: "string \<Rightarrow> nat \<Rightarrow> string \<Rightarrow> (disk, string, unit) act" where
  "write_record path valid_bytes encoded =
    caseA (seqA (fs_write_all path encoded) (seqA (fs_write_all path [newline_byte]) fs_sync))
      retA
      (\<lambda>e. caseA (seqA (fs_set_len path valid_bytes) fs_sync)
         (\<lambda>_. raiseA (''cannot persist execution journal: '' @ ie_text e))
         (\<lambda>rollback. raiseA (''cannot persist execution journal: '' @ ie_text e
            @ ''; rollback failed: '' @ ie_text rollback)))"

definition append_execution_record :: "'v session_json \<Rightarrow> string \<Rightarrow> 'v \<Rightarrow> (disk, string, nat) act" where
  "append_execution_record js path record =
    bindA (map_errA (io_error_of ''cannot read Session journal'') (fs_read_bytes path)) (\<lambda>bytes.
    let valid_bytes = valid_prefix_length bytes in
    case scan_seq js (file_lines (take valid_bytes bytes)) 1 of
      Inl e \<Rightarrow> raiseA e
    | Inr seq \<Rightarrow> (case va_encode (sj_values js) (sj_set js record ''seq'' (va_num (sj_values js) seq)) of
        Inl e \<Rightarrow> raiseA (''cannot encode execution journal: '' @ e)
      | Inr encoded \<Rightarrow>
          if max_record_bytes < length encoded
          then raiseA (''execution checkpoint exceeds '' @ decimal max_record_bytes @ '' byte limit'')
          else if max_session_bytes < sat_add (sat_add valid_bytes (length encoded)) 1
          then raiseA (''Session exceeds '' @ decimal max_session_bytes @ '' byte limit'')
          else seqA (map_errA (io_error_of ''cannot open Session journal'') (fs_open path))
            (seqA (if valid_bytes < length bytes
                then map_errA (io_error_of ''cannot discard incomplete Session tail'') (fs_set_len path valid_bytes)
                else retA ())
            (seqA (map_errA (io_error_of ''cannot seek Session journal'') fs_seek_end)
            (seqA (write_record path valid_bytes encoded) (retA seq))))))"

subsection \<open>Entries\<close>

text \<open>Whether the new messages extend what the journal wrote last.\<close>

definition can_append :: "'v message list \<Rightarrow> 'v message list \<Rightarrow> bool" where
  "can_append old new \<longleftrightarrow> length old \<le> length new \<and> list_all (\<lambda>(a, b). a = b) (zip old new)"

definition checkpoint_record ::
  "'v session_json \<Rightarrow> string \<Rightarrow> 'v message list \<Rightarrow> nat \<Rightarrow> 'v execution_checkpoint \<Rightarrow> 'v" where
  "checkpoint_record js thread_id written ts cp =
    (let (mode, messages) = (if can_append written (ecp_messages cp)
          then (''append'', drop (length written) (ecp_messages cp)) else (''replace'', ecp_messages cp));
         v = sj_values js
     in va_object v [(''kind'', va_str v ''execution_checkpoint''), (''turn_id'', va_str v (turn_id_str (ecp_turn_id cp))),
       (''thread_id'', va_str v thread_id), (''timestamp_ms'', va_num v ts), (''input'', sj_input js (ecp_input cp)),
       (''next_model_step'', va_num v (ecp_next_model_step cp)), (''final_text'', va_str v (ecp_final_text cp)),
       (''phase'', sj_phase js (ecp_phase cp)),
       (''applied_steer_request_ids'', sj_ids js (ecp_applied_steer_request_ids cp)),
       (''message_mode'', va_str v mode), (''messages'', sj_messages js messages)])"

definition entry_record ::
  "'v session_json \<Rightarrow> string \<Rightarrow> nat \<Rightarrow> 'v execution_journal_entry \<Rightarrow> string + 'v" where
  "entry_record js thread_id ts entry = (case sj_entry js entry of
     Inl e \<Rightarrow> Inl (''cannot encode execution journal: '' @ e)
   | Inr value \<Rightarrow> (case str_field js value ''kind'' of
       None \<Rightarrow> Inl ''execution journal record is missing kind''
     | Some kind \<Rightarrow> Inr (sj_set js (sj_set js (sj_set js value
           ''kind'' (va_str (sj_values js) (''execution_'' @ kind)))
           ''thread_id'' (va_str (sj_values js) thread_id))
           ''timestamp_ms'' (va_num (sj_values js) ts))))"

definition journal_record ::
  "'v session_json \<Rightarrow> string \<Rightarrow> 'v message list \<Rightarrow> nat \<Rightarrow> 'v execution_journal_entry \<Rightarrow> string + 'v" where
  "journal_record js thread_id written ts entry = (case entry of
     J_Checkpoint cp \<Rightarrow> if turn_id_str (ecp_turn_id cp) = [] then Inl ''execution checkpoint turn id must not be empty''
       else Inr (checkpoint_record js thread_id written ts cp)
   | _ \<Rightarrow> entry_record js thread_id ts entry)"

definition entry_timestamp :: "'v execution_journal_entry \<Rightarrow> (disk, string, nat) act" where
  "entry_timestamp entry = (case entry of
     J_Heartbeat _ _ at_ms _ \<Rightarrow> retA at_ms | _ \<Rightarrow> map_errA ie_text fs_now_ms)"

definition written_checkpoint :: "nat \<Rightarrow> 'v execution_journal_entry \<Rightarrow> 'v journal_writer \<Rightarrow> 'v journal_writer" where
  "written_checkpoint seq entry w = (case entry of
     J_Checkpoint cp \<Rightarrow> \<lparr>jw_turn_id = Some (ecp_turn_id cp), jw_messages = ecp_messages cp, jw_checkpoint_seq = seq\<rparr>
   | _ \<Rightarrow> w)"

definition journal_applied :: "nat \<Rightarrow> nat \<Rightarrow> 'v execution_journal_entry \<Rightarrow> 'v journal_live \<Rightarrow> 'v journal_live" where
  "journal_applied seq ts entry l = l\<lparr>jl_writer := written_checkpoint seq entry (jl_writer l),
     jl_state := apply_execution_journal_entry seq ts entry (jl_state l)\<rparr>"

text \<open>A call on the disk alone.\<close>

definition on_file :: "(disk, string, 'a) act \<Rightarrow> ('s \<times> disk, string, 'a) act" where
  "on_file m = (\<lambda>(s, d). case m d of (r, d') \<Rightarrow> (r, (s, d')))"

definition journal_append ::
  "'v session_json \<Rightarrow> execution_journal \<Rightarrow> 'v execution_journal_entry \<Rightarrow> ('v, nat) journal_act" where
  "journal_append js j entry =
    bindA (on_file (entry_timestamp entry)) (\<lambda>ts.
    bindA (getA (jl_writer \<circ> fst)) (\<lambda>w.
    case journal_record js (ej_thread_id j) (jw_messages w) ts entry of
      Inl e \<Rightarrow> raiseA e
    | Inr record \<Rightarrow>
        if (case jw_turn_id w of None \<Rightarrow> False
            | Some current \<Rightarrow> current \<noteq> execution_entry_turn_id entry \<and> \<not> is_checkpoint_entry entry)
        then raiseA ''execution journal entry belongs to another Turn''
        else if turn_id_str (execution_entry_turn_id entry) = [] then raiseA ''execution journal turn id must not be empty''
        else bindA (on_file (append_execution_record js (ej_path j)
            (sj_set js record ''session_id'' (va_str (sj_values js) (ej_session_id j))))) (\<lambda>seq.
          seqA (modA (apfst (journal_applied seq ts entry))) (retA seq))))"

subsection \<open>Steer requests\<close>

definition accepted_steer :: "turn_id \<Rightarrow> string \<Rightarrow> string \<Rightarrow> session_steer_request" where
  "accepted_steer turn request_id text = \<lparr>ssr_turn_id = turn, ssr_request_id = request_id, ssr_text = text,
     ssr_status = Steer_Accepted, ssr_reason = None\<rparr>"

definition accept_steer_request :: "'v session_json \<Rightarrow> execution_journal \<Rightarrow> turn_id \<Rightarrow> string \<Rightarrow> string
    \<Rightarrow> ('v, steer_request_reservation) journal_act" where
  "accept_steer_request js j turn request_id text =
    (if trim request_id = [] \<or> 192 < length request_id
     then raiseA ''steer request id must be non-empty and at most 192 bytes''
     else if trim text = [] \<or> 30 * 1024 < length text
     then raiseA ''steer text must be non-empty and at most 30720 bytes''
     else bindA (getA (jl_state \<circ> fst)) (\<lambda>state. case state of
         None \<Rightarrow> raiseA ''no durable execution checkpoint is available''
       | Some current \<Rightarrow> (case find (\<lambda>q. ssr_request_id q = request_id) (ses_steer_requests current) of
           Some previous \<Rightarrow> if ssr_turn_id previous = turn \<and> ssr_text previous = text
             then retA (Steer_Duplicate previous)
             else raiseA ''steer request id was already used for different content''
         | None \<Rightarrow>
             if ses_turn_id current \<noteq> turn \<or> ses_status current \<noteq> Exec_Running
             then raiseA ''steer request does not match an active durable Turn''
             else if 16 \<le> length (filter (\<lambda>q. ssr_status q = Steer_Accepted) (ses_steer_requests current))
             then raiseA ''too many steer requests are waiting for application''
             else if 64 \<le> length (ses_steer_requests current)
               \<and> list_all (\<lambda>q. ssr_status q = Steer_Accepted) (ses_steer_requests current)
             then raiseA ''steer request history is full''
             else bindA (journal_append js j (J_SteerAccepted turn request_id text)) (\<lambda>_.
               retA (Steer_Reserved (accepted_steer turn request_id text))))))"

definition steer_request :: "string \<Rightarrow> 'v journal_live \<Rightarrow> session_steer_request option" where
  "steer_request request_id l = Option.bind (jl_state l)
     (\<lambda>s. find (\<lambda>q. ssr_request_id q = request_id) (ses_steer_requests s))"

definition pending_steers :: "turn_id \<Rightarrow> 'v session_execution_state option \<Rightarrow> session_steer_request list" where
  "pending_steers turn state = (case state of
     Some s \<Rightarrow> if ses_turn_id s = turn
       then filter (\<lambda>q. ssr_turn_id q = turn \<and> ssr_status q = Steer_Accepted) (ses_steer_requests s) else []
   | None \<Rightarrow> [])"

definition mark_pending_steers_unapplied :: "'v session_json \<Rightarrow> execution_journal \<Rightarrow> turn_id \<Rightarrow> string
    \<Rightarrow> ('v, session_steer_request list) journal_act" where
  "mark_pending_steers_unapplied js j turn reason =
    bindA (getA (pending_steers turn \<circ> jl_state \<circ> fst)) (\<lambda>pending.
    seqA (forA (\<lambda>q. bindA (journal_append js j (J_SteerUnapplied turn (ssr_request_id q) reason)) (\<lambda>_. retA ())) pending)
      (retA pending))"

subsection \<open>Reconciliation\<close>

definition status_debug :: "session_execution_status \<Rightarrow> string" where
  "status_debug s = (case s of Exec_Running \<Rightarrow> ''Running'' | Exec_WaitingForContinue \<Rightarrow> ''WaitingForContinue''
     | Exec_NeedsReconciliation \<Rightarrow> ''NeedsReconciliation'' | Exec_Settled \<Rightarrow> ''Settled'')"

definition outcome_fits :: "session_reconciliation_request \<Rightarrow> bool" where
  "outcome_fits q = (case (srr_disposition q, srr_outcome q) of
     (Disposition_Completed, Some x) \<Rightarrow> teo_status x \<in> {Tool_Completed, Tool_Failed} \<and> length (teo_content x) \<le> 64 * 1024
       \<and> teo_context_messages x = [] \<and> teo_context_injections x = []
   | (Disposition_NotExecuted, None) \<Rightarrow> True
   | _ \<Rightarrow> False)"

definition awaits_reconciliation :: "string \<Rightarrow> 'v session_execution_state \<Rightarrow> bool" where
  "awaits_reconciliation i s = (case ses_pending_batch s of None \<Rightarrow> False
     | Some b \<Rightarrow> list_ex (\<lambda>c. call_has_id i c \<and> uncertain c) (etb_calls b))"

definition reconciliation_record ::
  "'v session_json \<Rightarrow> execution_journal \<Rightarrow> nat \<Rightarrow> 'v \<Rightarrow> 'v" where
  "reconciliation_record js j ts value =
    sj_set js (sj_set js (sj_set js (sj_set js value
      ''kind'' (va_str (sj_values js) ''execution_reconciled''))
      ''thread_id'' (va_str (sj_values js) (ej_thread_id j)))
      ''session_id'' (va_str (sj_values js) (ej_session_id j)))
      ''timestamp_ms'' (va_num (sj_values js) ts)"

definition reconcile_tool_call :: "'v session_json \<Rightarrow> execution_journal \<Rightarrow> session_reconciliation_request
    \<Rightarrow> ('v, reconciliation_reservation) journal_act" where
  "reconcile_tool_call js j q =
    (if trim (srr_request_id q) = [] \<or> 128 < length (srr_request_id q)
     then raiseA ''reconciliation request id must be non-empty and at most 128 bytes''
     else if trim (srr_tool_call_id q) = [] \<or> 128 < length (srr_tool_call_id q)
     then raiseA ''tool call id must be non-empty and at most 128 bytes''
     else if trim (srr_evidence_summary q) = [] \<or> 1024 < length (srr_evidence_summary q)
     then raiseA ''reconciliation evidence must be non-empty and at most 1024 bytes''
     else if \<not> outcome_fits q then raiseA ''reconciliation disposition and bounded tool result do not match''
     else bindA (getA (jl_state \<circ> fst)) (\<lambda>state. case state of
         None \<Rightarrow> raiseA ''no execution checkpoint is available''
       | Some s \<Rightarrow> (case ses_reconciliation_requests s (srr_request_id q) of
           Some previous \<Rightarrow> if previous = q then retA Reconciliation_AlreadyApplied
             else raiseA ''reconciliation request id was already used for another decision''
         | None \<Rightarrow>
             if srr_turn_id q \<noteq> ses_turn_id s
             then raiseA ''reconciliation request does not match the current execution Turn''
             else if srr_checkpoint_seq q \<noteq> ses_checkpoint_seq s
             then raiseA (''execution checkpoint is stale: expected '' @ decimal (srr_checkpoint_seq q)
               @ '', current '' @ decimal (ses_checkpoint_seq s))
             else if ses_status s \<noteq> Exec_NeedsReconciliation
             then raiseA (''execution does not need reconciliation while status is '' @ status_debug (ses_status s))
             else if \<not> awaits_reconciliation (srr_tool_call_id q) s
             then raiseA ''tool call is not awaiting reconciliation''
             else bindA (on_file (map_errA ie_text fs_now_ms)) (\<lambda>ts. case sj_reconciliation js q of
                 Inl e \<Rightarrow> raiseA (''cannot encode reconciliation record: '' @ e)
               | Inr value \<Rightarrow> bindA (on_file (append_execution_record js (ej_path j) (reconciliation_record js j ts value)))
                   (\<lambda>_. seqA (modA (apfst (\<lambda>l. l\<lparr>jl_state := apply_execution_reconciliation ts q (jl_state l)\<rparr>)))
                     (retA Reconciliation_Applied))))))"

subsection \<open>Questions to the user\<close>

definition question_record :: "'v session_json \<Rightarrow> execution_journal \<Rightarrow> nat \<Rightarrow> user_question_interaction \<Rightarrow> 'v" where
  "question_record js j ts q = va_object (sj_values js)
    [(''kind'', va_str (sj_values js) ''execution_user_question''), (''thread_id'', va_str (sj_values js) (ej_thread_id j)),
     (''session_id'', va_str (sj_values js) (ej_session_id j)), (''timestamp_ms'', va_num (sj_values js) ts),
     (''turn_id'', va_str (sj_values js) (turn_id_str (uqi_turn_id q))), (''interaction'', sj_interaction js q)]"

definition persist_user_question :: "'v session_json \<Rightarrow> execution_journal \<Rightarrow> user_question_interaction
    \<Rightarrow> ('v, nat) journal_act" where
  "persist_user_question js j q =
    bindA (getA (jl_writer \<circ> fst)) (\<lambda>w.
    if thread_id_str (uqi_thread_id q) \<noteq> ej_thread_id j then raiseA ''user question belongs to another Thread''
    else if jw_turn_id w \<noteq> Some (uqi_turn_id q) then raiseA ''user question belongs to another Turn''
    else bindA (on_file (map_errA ie_text fs_now_ms)) (\<lambda>ts.
      bindA (on_file (append_execution_record js (ej_path j) (question_record js j ts q))) (\<lambda>seq.
      seqA (modA (apfst (\<lambda>l. l\<lparr>jl_state := apply_user_question ts q (jl_state l)\<rparr>))) (retA seq))))"

end
