(* ===== verification/Session_Replay.thy ===== *)
theory Session_Replay
  imports Session_Journal
begin

section \<open>Replaying what the journal wrote\<close>

text \<open>
  What the code relies on of the JSON library, the lines of a session file, how a record the
  journal appends is read back, and what an append leaves in the file under any faults.
\<close>

subsection \<open>Laws of the encodings\<close>

definition entry_kind :: "'v execution_journal_entry \<Rightarrow> string" where
  "entry_kind entry = (case entry of
     J_Checkpoint _ \<Rightarrow> ''checkpoint'' | J_SteerAccepted _ _ _ \<Rightarrow> ''steer_accepted'' | J_SteerUnapplied _ _ _ \<Rightarrow> ''steer_unapplied''
   | J_ToolBatchStarted _ \<Rightarrow> ''tool_batch_started'' | J_ToolCallStarted _ _ _ \<Rightarrow> ''tool_call_started''
   | J_ToolCallFinished _ _ _ _ \<Rightarrow> ''tool_call_finished'' | J_ToolBatchSettled _ _ \<Rightarrow> ''tool_batch_settled''
   | J_WaitingForContinue _ _ \<Rightarrow> ''waiting_for_continue'' | J_Resumed _ _ _ \<Rightarrow> ''resumed'' | J_Heartbeat _ _ _ _ \<Rightarrow> ''heartbeat''
   | J_NeedsReconciliation _ _ \<Rightarrow> ''needs_reconciliation'' | J_Settled _ \<Rightarrow> ''settled'')"

text \<open>The keys the journal adds to an encoded value; its decoder does not read them.\<close>

definition added_keys :: "string set" where
  "added_keys = {''thread_id'', ''session_id'', ''timestamp_ms'', ''seq''}"

definition value_law :: "'v session_json \<Rightarrow> bool" where
  "value_law js \<longleftrightarrow>
     (\<forall>v l. va_encode (sj_values js) v = Inr l \<longrightarrow> sj_parse js l = Inr v \<and> newline_byte \<notin> set l)
   \<and> (\<forall>v. sj_parse js [] \<noteq> Inr v)
   \<and> (\<forall>kvs k. distinct (map fst kvs) \<longrightarrow> va_get (sj_values js) (va_object (sj_values js) kvs) k = map_of kvs k)
   \<and> (\<forall>v k x i. va_get (sj_values js) (sj_set js v k x) i = (if i = k then Some x else va_get (sj_values js) v i))
   \<and> (\<forall>s. va_as_str (sj_values js) (va_str (sj_values js) s) = Some s)
   \<and> (\<forall>n. va_as_u64 (sj_values js) (va_num (sj_values js) n) = Some n)
   \<and> (\<forall>b. va_as_bool (sj_values js) (va_bool (sj_values js) b) = Some b)"

definition codec_law :: "'v session_json \<Rightarrow> bool" where
  "codec_law js \<longleftrightarrow> (\<forall>ms. sj_messages_of js (sj_messages js ms) = Inr ms) \<and> (\<forall>m. sj_message_of js (sj_message js m) = Inr m)
   \<and> (\<forall>i. sj_input_of js (sj_input js i) = Inr i) \<and> (\<forall>p. sj_phase_of js (sj_phase js p) = Inr p)
   \<and> (\<forall>is. sj_ids_of js (sj_ids js is) = Inr is) \<and> (\<forall>q. sj_interaction_of js (sj_interaction js q) = Inr q)"

definition entry_law :: "'v session_json \<Rightarrow> bool" where
  "entry_law js \<longleftrightarrow>
     (\<forall>e v. sj_entry js e = Inr v \<longrightarrow> va_get (sj_values js) v ''kind'' = Some (va_str (sj_values js) (entry_kind e))
       \<and> (\<forall>v'. (\<forall>k. k \<notin> added_keys \<longrightarrow> va_get (sj_values js) v' k = va_get (sj_values js) v k) \<longrightarrow> sj_entry_of js v' = Inr e))
   \<and> (\<forall>q v. sj_reconciliation js q = Inr v \<longrightarrow>
       (\<forall>v'. (\<forall>k. k \<notin> insert ''kind'' added_keys \<longrightarrow> va_get (sj_values js) v' k = va_get (sj_values js) v k)
         \<longrightarrow> sj_reconciliation_of js v' = Inr q))"

definition session_laws :: "'v session_json \<Rightarrow> bool" where
  "session_laws js \<longleftrightarrow> value_law js \<and> codec_law js \<and> entry_law js"

lemma encoded_line:
  assumes "session_laws js" and "va_encode (sj_values js) v = Inr l"
  shows "sj_parse js l = Inr v" "newline_byte \<notin> set l" "l \<noteq> []"
proof -
  show "sj_parse js l = Inr v" "newline_byte \<notin> set l" using assms by (simp_all add: session_laws_def value_law_def)
  then show "l \<noteq> []" using assms by (auto simp: session_laws_def value_law_def)
qed

lemma parse_empty: "session_laws js \<Longrightarrow> sj_parse js [] \<noteq> Inr v"
  by (simp add: session_laws_def value_law_def)

lemma get_object:
  "session_laws js \<Longrightarrow> distinct (map fst kvs) \<Longrightarrow> va_get (sj_values js) (va_object (sj_values js) kvs) k = map_of kvs k"
  by (simp add: session_laws_def value_law_def)

lemma get_set:
  "session_laws js \<Longrightarrow> va_get (sj_values js) (sj_set js v k x) i = (if i = k then Some x else va_get (sj_values js) v i)"
  by (simp add: session_laws_def value_law_def)

lemma scalars:
  assumes "session_laws js"
  shows "va_as_str (sj_values js) (va_str (sj_values js) s) = Some s" "va_as_u64 (sj_values js) (va_num (sj_values js) n) = Some n"
    "va_as_bool (sj_values js) (va_bool (sj_values js) b) = Some b"
  using assms by (simp_all add: session_laws_def value_law_def)

lemma codecs:
  assumes "session_laws js"
  shows "sj_messages_of js (sj_messages js ms) = Inr ms" "sj_message_of js (sj_message js m) = Inr m"
    "sj_input_of js (sj_input js i) = Inr i" "sj_phase_of js (sj_phase js p) = Inr p" "sj_ids_of js (sj_ids js is) = Inr is"
    "sj_interaction_of js (sj_interaction js q) = Inr q"
  using assms by (simp_all add: session_laws_def codec_law_def)

lemma entry_decodes:
  assumes "session_laws js" and "sj_entry js e = Inr v"
  shows "va_get (sj_values js) v ''kind'' = Some (va_str (sj_values js) (entry_kind e))"
    and "(\<And>k. k \<notin> added_keys \<Longrightarrow> va_get (sj_values js) v' k = va_get (sj_values js) v k) \<Longrightarrow> sj_entry_of js v' = Inr e"
  using assms by (simp_all add: session_laws_def entry_law_def)

lemma reconciliation_decodes:
  assumes "session_laws js" and "sj_reconciliation js q = Inr v"
    and "\<And>k. k \<notin> insert ''kind'' added_keys \<Longrightarrow> va_get (sj_values js) v' k = va_get (sj_values js) v k"
  shows "sj_reconciliation_of js v' = Inr q"
  using assms by (simp add: session_laws_def entry_law_def)

lemma trying_simps [simp]: "trying (Inl e) f = Inl e" "trying (Inr x) f = f x"
  by (simp_all add: trying_def)

lemma trying_Inr_iff: "trying r f = Inr y \<longleftrightarrow> (\<exists>x. r = Inr x \<and> f x = Inr y)"
  by (cases r) auto

lemma required_simps [simp]: "required m (Some x) = Inr x" "required m r = Inr x \<longleftrightarrow> r = Some x"
  by (auto simp: required_def split: option.splits)

lemma decoded_simps [simp]: "decoded m (Inr x) = Inr x" "decoded m r = Inr x \<longleftrightarrow> r = Inr x"
  by (auto simp: decoded_def split: sum.splits)

subsection \<open>The lines of a file\<close>

definition joined :: "string list \<Rightarrow> string" where
  "joined ls = concat (map (\<lambda>l. l @ [newline_byte]) ls)"

lemma joined_simps [simp]: "joined [] = []" "joined (l # ls) = l @ newline_byte # joined ls" "joined (ls @ ms) = joined ls @ joined ms"
  by (simp_all add: joined_def)

lemma complete_lines_joined:
  assumes "\<forall>l \<in> set ls. newline_byte \<notin> set l" and "newline_byte \<notin> set t"
  shows "complete_lines (joined ls @ t) = ls"
  using assms
  by (induction ls) (simp_all add: complete_lines_def split_on_absent split_on_append butlast_append)

lemma split_on_parts: "l \<in> set (split_on c s) \<Longrightarrow> c \<notin> set l"
  by (induction s arbitrary: l) (auto split: if_splits list.splits)

lemma split_on_joined: "s = joined (butlast (split_on newline_byte s)) @ last (split_on newline_byte s)"
proof (induction s)
  case (Cons x s)
  show ?case
  proof (cases "x = newline_byte")
    case True
    then show ?thesis using Cons by simp
  next
    case False
    obtain l ls where split: "split_on newline_byte s = l # ls" by (cases "split_on newline_byte s") auto
    then show ?thesis using Cons False by (cases ls) (simp_all)
  qed
qed simp

lemma file_parts:
  obtains t where "bytes = joined (complete_lines bytes) @ t" and "newline_byte \<notin> set t"
    and "\<forall>l \<in> set (complete_lines bytes). newline_byte \<notin> set l"
proof
  show "bytes = joined (complete_lines bytes) @ last (split_on newline_byte bytes)"
    by (simp add: complete_lines_def split_on_joined [symmetric])
  show "newline_byte \<notin> set (last (split_on newline_byte bytes))"
    by (rule split_on_parts [OF last_in_set]) simp
  show "\<forall>l \<in> set (complete_lines bytes). newline_byte \<notin> set l"
    using split_on_parts by (auto simp: complete_lines_def dest: in_set_butlastD)
qed

lemma joined_ends: "joined ls = [] \<or> (\<exists>s. joined ls = s @ [newline_byte])"
  by (induction ls rule: rev_induct) auto

lemma valid_prefix_length_joined:
  assumes "newline_byte \<notin> set t"
  shows "valid_prefix_length (joined ls @ t) = length (joined ls)"
proof -
  have "takeWhile (\<lambda>c. c \<noteq> newline_byte) (rev (joined ls @ t)) = rev t"
    using joined_ends [of ls] assms by (auto simp: takeWhile_append)
  then show ?thesis by (simp add: valid_prefix_length_def)
qed

lemma file_lines_joined:
  assumes "\<forall>l \<in> set ls. newline_byte \<notin> set l \<and> l \<noteq> []"
  shows "file_lines (joined ls) = ls"
  using assms by (induction ls) (simp_all add: file_lines_def split_on_absent split_on_append)

subsection \<open>Reading records\<close>

lemma load_all_append:
  "load_all_records js i (xs @ ys) ld = trying (load_all_records js i xs ld) (load_all_records js i ys)"
  by (induction xs arbitrary: ld) (simp_all add: trying_def split: sum.split)

definition same_frame :: "'v loading \<Rightarrow> 'v loading \<Rightarrow> bool" where
  "same_frame ld ld' \<longleftrightarrow> ld_expected_seq ld' = ld_expected_seq ld \<and> ld_offset ld' = ld_offset ld \<and> ld_header_seen ld'"

lemma load_kind_frame:
  assumes "load_kind js i seq ts kind r ld = Inr ld'"
  shows "same_frame ld ld'"
  using assms
  by (auto simp: load_kind_def same_frame_def load_header_def load_turn_started_def load_item_def load_checkpoint_def
      load_execution_checkpoint_def load_execution_entry_def load_user_question_def load_reconciled_def load_recovery_gap_def
      trying_Inr_iff Let_def split: if_splits option.splits)

lemma load_record_frame:
  assumes "load_record js i line ld = Inr ld'"
  shows "\<exists>r. sj_parse js line = Inr r \<and> u64_field js r ''seq'' = Some (ld_expected_seq ld)"
    and "ld_expected_seq ld' = sat_add (ld_expected_seq ld) 1" and "ld_header_seen ld'"
    and "ld_offset ld' = sat_add (ld_offset ld) (length line + 1)"
  using assms
  by (auto simp: load_record_def trying_Inr_iff Let_def same_frame_def dest!: load_kind_frame split: if_splits sum.splits option.splits)

lemma load_all_seq:
  assumes "session_laws js"
  shows "load_all_records js i ls ld = Inr ld' \<Longrightarrow> scan_seq js ls (ld_expected_seq ld) = Inr (ld_expected_seq ld') \<and> [] \<notin> set ls"
proof (induction ls arbitrary: ld)
  case (Cons l ls)
  then obtain ld1 where one: "load_record js i l ld = Inr ld1" "load_all_records js i ls ld1 = Inr ld'"
    by (auto simp: trying_Inr_iff)
  obtain r where "sj_parse js l = Inr r" "u64_field js r ''seq'' = Some (ld_expected_seq ld)"
    using load_record_frame(1) [OF one(1)] by blast
  with Cons.IH [OF one(2)] load_record_frame(2) [OF one(1)] show ?case using parse_empty [OF assms] by auto
qed simp

text \<open>A record the journal has encoded, read as its kind says.\<close>

lemma load_encoded_record:
  assumes laws: "session_laws js" and enc: "va_encode (sj_values js) r = Inr line" and len: "length line \<le> max_record_bytes"
    and seq: "u64_field js r ''seq'' = Some (ld_expected_seq ld)"
    and ts: "u64_field js r ''timestamp_ms'' = Some ts" and kind: "str_field js r ''kind'' = Some kind"
    and loads: "load_kind js i (ld_expected_seq ld) ts kind r (ld\<lparr>ld_expected_seq := sat_add (ld_expected_seq ld) 1\<rparr>) = Inr ld'"
  shows "load_record js i line ld = Inr (ld'\<lparr>ld_offset := sat_add (ld_offset ld) (length line + 1)\<rparr>)"
proof -
  have "ld_offset ld' = ld_offset ld" using load_kind_frame [OF loads] by (simp add: same_frame_def)
  then show ?thesis using encoded_line(1) [OF laws enc] len seq ts kind loads by (simp add: load_record_def)
qed

subsection \<open>Reading what the journal wrote\<close>

text \<open>A record the reader takes for the given entry, in a session whose header it has seen.\<close>

definition record_stamped :: "'v session_json \<Rightarrow> 'v \<Rightarrow> string \<Rightarrow> nat \<Rightarrow> 'v" where
  "record_stamped js r session_id seq = sj_set js (sj_set js r ''session_id'' (va_str (sj_values js) session_id)) ''seq''
     (va_num (sj_values js) seq)"

lemma record_stamped_fields:
  assumes "session_laws js"
  shows "u64_field js (record_stamped js r session_id seq) ''seq'' = Some seq"
    "str_field js (record_stamped js r session_id seq) ''session_id'' = Some session_id"
    "k \<noteq> ''seq'' \<Longrightarrow> k \<noteq> ''session_id'' \<Longrightarrow> va_get (sj_values js) (record_stamped js r session_id seq) k = va_get (sj_values js) r k"
  using assms by (simp_all add: record_stamped_def u64_field_def str_field_def get_set scalars)

lemma trim_entry_kind: "\<not> is_checkpoint_entry entry \<Longrightarrow>
    trim_start_matches ''execution_'' (''execution_'' @ entry_kind entry) = entry_kind entry
    \<and> ''execution_'' @ entry_kind entry \<in> set execution_kinds"
  by (cases entry) (simp_all add: trim_start_matches.simps [of "''execution_''"] starts_with_def entry_kind_def
      is_checkpoint_entry_def execution_kinds_def)

lemma load_entry_record:
  assumes laws: "session_laws js" and cp: "\<not> is_checkpoint_entry entry" and rec: "entry_record js th ts entry = Inr r"
    and turn: "case ld_execution_state ld of None \<Rightarrow> True | Some s \<Rightarrow> ses_turn_id s = execution_entry_turn_id entry"
    and hdr: "ld_header_seen ld"
  shows "str_field js (record_stamped js r i n) ''kind'' = Some (''execution_'' @ entry_kind entry)"
    and "u64_field js (record_stamped js r i n) ''timestamp_ms'' = Some ts"
    and "load_kind js i seq ts (''execution_'' @ entry_kind entry) (record_stamped js r i n) ld
      = Inr (ld\<lparr>ld_execution_state := apply_execution_journal_entry seq ts entry (ld_execution_state ld)\<rparr>)"
proof -
  obtain v where v: "sj_entry js entry = Inr v"
    and r: "r = sj_set js (sj_set js (sj_set js v ''kind'' (va_str (sj_values js) (''execution_'' @ entry_kind entry)))
      ''thread_id'' (va_str (sj_values js) th)) ''timestamp_ms'' (va_num (sj_values js) ts)"
    using rec entry_decodes(1) [OF laws] scalars(1) [OF laws]
    by (force simp: entry_record_def str_field_def split: sum.splits option.splits)
  show kind: "str_field js (record_stamped js r i n) ''kind'' = Some (''execution_'' @ entry_kind entry)"
    and "u64_field js (record_stamped js r i n) ''timestamp_ms'' = Some ts"
    by (simp_all add: r record_stamped_def str_field_def u64_field_def get_set laws scalars)
  let ?k = "''execution_'' @ entry_kind entry"
  have dec: "sj_entry_of js (sj_set js (record_stamped js r i n) ''kind'' (va_str (sj_values js) (entry_kind entry))) = Inr entry"
    using entry_decodes(1) [OF laws v]
    by (intro entry_decodes(2) [OF laws v]) (simp add: r record_stamped_def get_set laws added_keys_def)
  have entry: "load_kind js i seq ts ?k (record_stamped js r i n) ld = load_execution_entry js seq ts (record_stamped js r i n) ld"
    using trim_entry_kind [OF cp] hdr by (auto simp: load_kind_def execution_kinds_def)
  show "load_kind js i seq ts ?k (record_stamped js r i n) ld
      = Inr (ld\<lparr>ld_execution_state := apply_execution_journal_entry seq ts entry (ld_execution_state ld)\<rparr>)"
  proof -
    have now: "(case ld_execution_state ld of
        Some s \<Rightarrow> if \<not> is_checkpoint_entry entry \<and> ses_turn_id s \<noteq> execution_entry_turn_id entry then None else Some s
      | None \<Rightarrow> None) = ld_execution_state ld"
      using turn by (auto split: option.split)
    show ?thesis
      unfolding entry load_execution_entry_def using dec trim_entry_kind [OF cp] kind by (simp add: Let_def now)
  qed
qed

text \<open>The messages a checkpoint record stands for when it is read back.\<close>

definition replayed_messages :: "string \<Rightarrow> 'v message list \<Rightarrow> 'v execution_checkpoint \<Rightarrow> 'v loading \<Rightarrow> 'v message list option" where
  "replayed_messages th written cp ld = (if can_append written (ecp_messages cp)
     then map_option (\<lambda>base. base @ drop (length written) (ecp_messages cp)) (append_base th (turn_id_str (ecp_turn_id cp)) ld)
     else Some (ecp_messages cp))"

lemma load_checkpoint_record:
  fixes js :: "'v session_json"
  assumes laws: "session_laws js" and hdr: "ld_header_seen ld"
  shows "str_field js (record_stamped js (checkpoint_record js th written ts cp) i n) ''kind'' = Some ''execution_checkpoint''"
    and "u64_field js (record_stamped js (checkpoint_record js th written ts cp) i n) ''timestamp_ms'' = Some ts"
    and "load_kind js i seq ts ''execution_checkpoint'' (record_stamped js (checkpoint_record js th written ts cp) i n) ld
      = (case replayed_messages th written cp ld of
           None \<Rightarrow> Inl (invalid_record ''execution checkpoint append has no conversation base'' None)
         | Some ms \<Rightarrow> Inr (ld\<lparr>ld_execution_state := Some (apply_checkpoint seq ts (cp\<lparr>ecp_messages := ms\<rparr>) (ld_execution_state ld))\<rparr>))"
proof -
  let ?r = "checkpoint_record js th written ts cp"
  let ?mode = "if can_append written (ecp_messages cp) then ''append'' else ''replace''"
  let ?delta = "if can_append written (ecp_messages cp) then drop (length written) (ecp_messages cp) else ecp_messages cp"
  have get: "va_get (sj_values js) (record_stamped js ?r i n) k = map_of [(''kind'', va_str (sj_values js) ''execution_checkpoint''),
       (''turn_id'', va_str (sj_values js) (turn_id_str (ecp_turn_id cp))), (''thread_id'', va_str (sj_values js) th),
       (''timestamp_ms'', va_num (sj_values js) ts), (''input'', sj_input js (ecp_input cp)),
       (''next_model_step'', va_num (sj_values js) (ecp_next_model_step cp)),
       (''final_text'', va_str (sj_values js) (ecp_final_text cp)), (''phase'', sj_phase js (ecp_phase cp)),
       (''applied_steer_request_ids'', sj_ids js (ecp_applied_steer_request_ids cp)),
       (''message_mode'', va_str (sj_values js) ?mode), (''messages'', sj_messages js ?delta)] k"
    if "k \<noteq> ''seq''" "k \<noteq> ''session_id''" for k
    unfolding record_stamped_fields(3) [OF laws that] by (simp add: checkpoint_record_def Let_def get_object laws)
  show "str_field js (record_stamped js ?r i n) ''kind'' = Some ''execution_checkpoint''"
    and "u64_field js (record_stamped js ?r i n) ''timestamp_ms'' = Some ts"
    by (simp_all add: str_field_def u64_field_def get scalars laws)
  have ms: "checkpoint_messages ?mode th (turn_id_str (ecp_turn_id cp)) ?delta ld
      = (case replayed_messages th written cp ld of
           None \<Rightarrow> Inl (invalid_record ''execution checkpoint append has no conversation base'' None) | Some ms \<Rightarrow> Inr ms)"
    by (auto simp: checkpoint_messages_def replayed_messages_def required_def trying_def split: option.split)
  have cp_eq: "\<lparr>ecp_turn_id = ecp_turn_id cp, ecp_input = ecp_input cp, ecp_messages = ms,
      ecp_next_model_step = ecp_next_model_step cp, ecp_final_text = ecp_final_text cp, ecp_phase = ecp_phase cp,
      ecp_applied_steer_request_ids = ecp_applied_steer_request_ids cp\<rparr> = cp\<lparr>ecp_messages := ms\<rparr>" for ms
    by simp
  have "load_execution_checkpoint js seq ts (record_stamped js ?r i n) ld
      = trying (checkpoint_messages ?mode th (turn_id_str (ecp_turn_id cp)) ?delta ld) (\<lambda>ms.
          Inr (ld\<lparr>ld_execution_state := Some (apply_checkpoint seq ts (cp\<lparr>ecp_messages := ms\<rparr>) (ld_execution_state ld))\<rparr>))"
    by (simp add: load_execution_checkpoint_def str_field_def u64_field_def get scalars codecs laws cp_eq)
  then show "load_kind js i seq ts ''execution_checkpoint'' (record_stamped js ?r i n) ld
      = (case replayed_messages th written cp ld of
           None \<Rightarrow> Inl (invalid_record ''execution checkpoint append has no conversation base'' None)
         | Some ms \<Rightarrow> Inr (ld\<lparr>ld_execution_state := Some (apply_checkpoint seq ts (cp\<lparr>ecp_messages := ms\<rparr>) (ld_execution_state ld))\<rparr>))"
    using hdr by (simp add: load_kind_def ms split: option.split)
qed

lemma load_question_record:
  fixes n ts :: nat
  assumes laws: "session_laws js" and hdr: "ld_header_seen ld" and th: "thread_id_str (uqi_thread_id q) = ej_thread_id j"
  defines "r \<equiv> sj_set js (question_record js j ts q) ''seq'' (va_num (sj_values js) n)"
  shows "u64_field js r ''seq'' = Some n" "str_field js r ''kind'' = Some ''execution_user_question''"
    "u64_field js r ''timestamp_ms'' = Some ts"
    "load_kind js i seq ts ''execution_user_question'' r ld
      = Inr (ld\<lparr>ld_execution_state := apply_user_question ts q (ld_execution_state ld)\<rparr>)"
  using th
  by (simp_all add: r_def question_record_def str_field_def u64_field_def get_set get_object scalars laws load_kind_def hdr
      execution_kinds_def load_user_question_def codecs)

lemma load_reconciliation_record:
  fixes n ts :: nat
  assumes laws: "session_laws js" and hdr: "ld_header_seen ld" and enc: "sj_reconciliation js q = Inr v"
    and latest: "ld_latest_checkpoint ld = Some (m, ej_thread_id j, ms)"
    and state: "ld_execution_state ld = Some s" "ses_turn_id s = srr_turn_id q" "ses_checkpoint_seq s = srr_checkpoint_seq q"
  defines "r \<equiv> sj_set js (reconciliation_record js j ts v) ''seq'' (va_num (sj_values js) n)"
  shows "u64_field js r ''seq'' = Some n" "str_field js r ''kind'' = Some ''execution_reconciled''"
    "u64_field js r ''timestamp_ms'' = Some ts"
    "load_kind js (ej_session_id j) seq ts ''execution_reconciled'' r ld
      = Inr (ld\<lparr>ld_execution_state := apply_execution_reconciliation ts q (ld_execution_state ld)\<rparr>)"
proof -
  show f: "u64_field js r ''seq'' = Some n" "str_field js r ''kind'' = Some ''execution_reconciled''"
    "u64_field js r ''timestamp_ms'' = Some ts"
    by (simp_all add: r_def reconciliation_record_def str_field_def u64_field_def get_set scalars laws)
  have g: "str_field js r ''thread_id'' = Some (ej_thread_id j)" "str_field js r ''session_id'' = Some (ej_session_id j)"
    by (simp_all add: r_def reconciliation_record_def str_field_def u64_field_def get_set scalars laws)
  have "sj_reconciliation_of js r = Inr q"
    by (rule reconciliation_decodes [OF laws enc]) (simp add: r_def reconciliation_record_def get_set laws added_keys_def)
  then show "load_kind js (ej_session_id j) seq ts ''execution_reconciled'' r ld
      = Inr (ld\<lparr>ld_execution_state := apply_execution_reconciliation ts q (ld_execution_state ld)\<rparr>)"
    using g latest state hdr by (simp add: load_kind_def execution_kinds_def load_reconciled_def)
qed

subsection \<open>What an append leaves in the file\<close>

text \<open>A write that fails part way leaves a part of its line: the record holds no newline.\<close>

definition torn_lines :: "disk \<Rightarrow> bool" where
  "torn_lines d \<longleftrightarrow> (\<forall>t x left. dk_fault d t = Some x \<longrightarrow> ft_leftover x = Some left \<longrightarrow> newline_byte \<notin> set left)"

lemma torn_lines_congs [simp]: "torn_lines (ticked d) = torn_lines d" "torn_lines (put_node p n d) = torn_lines d"
  by (simp_all add: torn_lines_def)

definition rollback_failed :: "string \<Rightarrow> bool" where
  "rollback_failed e \<longleftrightarrow> (\<exists>a b. e = ''cannot persist execution journal: '' @ a @ ''; rollback failed: '' @ b)"

text \<open>What may stand in the file after an append of a line to complete lines.\<close>

definition appended :: "string list \<Rightarrow> string \<Rightarrow> (string, 'a) outcome \<Rightarrow> string \<Rightarrow> bool" where
  "appended ls line r bytes \<longleftrightarrow> (case r of
     Done _ \<Rightarrow> bytes = joined (ls @ [line])
   | Raised e \<Rightarrow> (\<exists>t. bytes = joined ls @ t \<and> newline_byte \<notin> set t) \<or> rollback_failed e \<and> bytes = joined (ls @ [line])
   | Out_of_fuel \<Rightarrow> False)"

lemma wp_fs_set_len: "wp (fs_set_len p n) R d \<longleftrightarrow> (case dk_fault d (dk_tick d) of
     Some x \<Rightarrow> R (Raised (ft_error x)) (ticked d)
   | None \<Rightarrow> (case node_at d p of None \<Rightarrow> R (Raised not_found) (ticked d)
       | Some (File_Node s) \<Rightarrow> R (Done ()) (put_node p (File_Node (take n s @ replicate (n - length s) (CHR 0x00))) (ticked d))
       | Some _ \<Rightarrow> R (Raised not_a_file) (ticked d)))"
  by (simp add: fs_set_len_def wp_simps split: option.split node.split)

definition holds_at :: "string \<Rightarrow> string \<Rightarrow> disk \<Rightarrow> bool" where
  "holds_at path s d \<longleftrightarrow> node_at d path = Some (File_Node s) \<and> torn_lines d"

lemma write_step:
  assumes "holds_at path s d" and "fs_write_all path x d = (r, d')"
  shows "(r = Done () \<and> holds_at path (s @ x) d') \<or> (\<exists>e t. r = Raised e \<and> newline_byte \<notin> set t \<and> holds_at path (s @ t) d')"
proof -
  have "wp (fs_write_all path x) (\<lambda>r d'. (r = Done () \<and> holds_at path (s @ x) d')
      \<or> (\<exists>e t. r = Raised e \<and> newline_byte \<notin> set t \<and> holds_at path (s @ t) d')) d"
  proof (cases "dk_fault d (dk_tick d)")
    case None
    then show ?thesis using assms(1) by (simp add: fs_write_all_def wp_simps holds_at_def)
  next
    case (Some f)
    then have "newline_byte \<notin> set left" if "ft_leftover f = Some left" for left
      using assms(1) that unfolding holds_at_def torn_lines_def by blast
    moreover have "newline_byte \<notin> set []" "s = s @ []" by simp_all
    ultimately show ?thesis using Some assms(1)
      by (cases "ft_leftover f") (auto simp add: fs_write_all_def wp_simps holds_at_def)
  qed
  from wpD [OF this assms(2)] show ?thesis .
qed

lemma sync_step: "holds_at path s d \<Longrightarrow> fs_sync d = (r, d') \<Longrightarrow> (r = Done () \<or> (\<exists>e. r = Raised e)) \<and> holds_at path s d'"
  by (auto simp: fs_sync_def unless_fault_def tick_def act_simps holds_at_def split: option.splits)

lemma set_len_step:
  assumes "holds_at path (s @ t) d" and "fs_set_len path (length s) d = (r, d')"
  shows "(r = Done () \<and> holds_at path s d') \<or> (\<exists>e. r = Raised e \<and> holds_at path (s @ t) d')"
  using assms by (auto simp: fs_set_len_def unless_fault_def tick_def with_file_def put_file_def act_simps holds_at_def split: option.splits)

lemma roll_back:
  assumes "holds_at path (s @ t) d" and "seqA (fs_set_len path (length s)) fs_sync d = (r, d')"
  shows "(r = Done () \<and> holds_at path s d') \<or> (\<exists>e. r = Raised e \<and> (holds_at path s d' \<or> holds_at path (s @ t) d'))"
proof -
  obtain r1 d1 where one: "fs_set_len path (length s) d = (r1, d1)" by fastforce
  from set_len_step [OF assms(1) this] sync_step assms(2) show ?thesis
    by (auto simp: act_simps one split: outcome.splits)
qed

lemma write_all_steps:
  assumes "holds_at path s d" and "seqA (fs_write_all path line) (seqA (fs_write_all path [newline_byte]) fs_sync) d = (r, d')"
    and "newline_byte \<notin> set line"
  shows "(r = Done () \<and> holds_at path (s @ line @ [newline_byte]) d')
    \<or> (\<exists>e t. r = Raised e \<and> holds_at path (s @ t) d' \<and> (newline_byte \<notin> set t \<or> t = line @ [newline_byte]))"
proof -
  obtain r1 d1 where one: "fs_write_all path line d = (r1, d1)" by fastforce
  obtain r2 d2 where two: "fs_write_all path [newline_byte] d1 = (r2, d2)" by fastforce
  obtain r3 d3 where three: "fs_sync d2 = (r3, d3)" by fastforce
  from write_step [OF assms(1) one] consider "r1 = Done ()" "holds_at path (s @ line) d1"
    | e t where "r1 = Raised e" "newline_byte \<notin> set t" "holds_at path (s @ t) d1" by blast
  then show ?thesis
  proof cases
    case 1
    from write_step [OF 1(2) two] consider (written) "r2 = Done ()" "holds_at path ((s @ line) @ [newline_byte]) d2"
      | (torn) e t where "r2 = Raised e" "newline_byte \<notin> set t" "holds_at path ((s @ line) @ t) d2" by blast
    then show ?thesis
    proof cases
      case written
      from sync_step [OF written(2) three] written(1) 1(1) assms(2) one two three show ?thesis
        by (auto simp: act_simps)
    next
      case torn
      then have "newline_byte \<notin> set (line @ t)" using assms(3) by simp
      then show ?thesis using torn 1(1) assms(2) one two by (auto simp: act_simps)
    qed
  next
    case 2
    then show ?thesis using assms(2) one by (auto simp: act_simps)
  qed
qed

lemma write_record_outcome:
  assumes here: "holds_at path (joined ls) d" and line: "newline_byte \<notin> set line"
    and run: "write_record path (length (joined ls)) line d = (r, d')"
  shows "\<exists>bytes. holds_at path bytes d' \<and> appended ls line r bytes"
proof -
  let ?w = "seqA (fs_write_all path line) (seqA (fs_write_all path [newline_byte]) fs_sync)"
  obtain r1 d1 where one: "?w d = (r1, d1)" by fastforce
  obtain r2 d2 where two: "seqA (fs_set_len path (length (joined ls))) fs_sync d1 = (r2, d2)" by fastforce
  from write_all_steps [OF here one line] consider "r1 = Done ()" "holds_at path (joined ls @ line @ [newline_byte]) d1"
    | e t where "r1 = Raised e" "holds_at path (joined ls @ t) d1" "newline_byte \<notin> set t \<or> t = line @ [newline_byte]" by blast
  then show ?thesis
  proof cases
    case 1
    then show ?thesis using run one by (auto simp: write_record_def act_simps appended_def)
  next
    case 2
    from roll_back [OF 2(2) two] consider (undone) "r2 = Done ()" "holds_at path (joined ls) d2"
      | (lost) e2 where "r2 = Raised e2" "holds_at path (joined ls) d2 \<or> holds_at path (joined ls @ t) d2" by blast
    then show ?thesis
    proof cases
      case undone
      then have "r = Raised (''cannot persist execution journal: '' @ ie_text e)" "d' = d2"
        using run one two 2(1) by (auto simp: write_record_def act_simps)
      then show ?thesis using undone(2) by (intro exI [of _ "joined ls"]) (auto simp: appended_def)
    next
      case lost
      then have r: "r = Raised (''cannot persist execution journal: '' @ ie_text e @ ''; rollback failed: '' @ ie_text e2)" "d' = d2"
        using run one two 2(1) by (auto simp: write_record_def act_simps)
      have failed: "rollback_failed (''cannot persist execution journal: '' @ ie_text e @ ''; rollback failed: '' @ ie_text e2)"
        unfolding rollback_failed_def by blast
      from lost(2) 2(3) consider "holds_at path (joined ls) d2" | "newline_byte \<notin> set t" "holds_at path (joined ls @ t) d2"
        | "holds_at path (joined (ls @ [line])) d2" by auto
      then show ?thesis
      proof cases
        case 1
        then show ?thesis using r by (intro exI [of _ "joined ls"]) (auto simp: appended_def)
      next
        case 2
        then show ?thesis using r by (intro exI [of _ "joined ls @ t"]) (auto simp: appended_def)
      next
        case 3
        then show ?thesis using r failed by (intro exI [of _ "joined (ls @ [line])"]) (simp add: appended_def)
      qed
    qed
  qed
qed

text \<open>The calls of an append once the line is known: a torn tail of an earlier crash is cut off first.\<close>

lemma place_line:
  assumes here: "holds_at path (joined ls @ t) d" and cut: "b \<longleftrightarrow> t \<noteq> []" and line: "newline_byte \<notin> set line"
    and no: "\<forall>l \<in> set ls. newline_byte \<notin> set l" "newline_byte \<notin> set t"
    and run: "seqA (map_errA g1 (fs_open path)) (seqA (if b then map_errA g2 (fs_set_len path (length (joined ls))) else retA ())
      (seqA (map_errA g3 fs_seek_end) (seqA (write_record path (length (joined ls)) line) (retA n)))) d = (r, d')"
  shows "\<exists>bytes. holds_at path bytes d' \<and> ((\<exists>e. r = Raised e) \<and> complete_lines bytes = ls
    \<or> complete_lines bytes = ls @ [line] \<and> (r = Done n \<or> (\<exists>e. r = Raised e \<and> rollback_failed e)))"
proof -
  have same: "complete_lines (joined ls @ u) = ls" if "newline_byte \<notin> set u" for u by (rule complete_lines_joined [OF no(1) that])
  have new: "complete_lines (joined (ls @ [line])) = ls @ [line]"
    using complete_lines_joined [of "ls @ [line]" "[]"] no line by auto
  obtain r2 d2 where two: "fs_open path d = (r2, d2)" by fastforce
  obtain r3 d3 where three: "(if b then fs_set_len path (length (joined ls)) else retA ()) d2 = (r3, d3)" by fastforce
  obtain r4 d4 where four: "fs_seek_end d3 = (r4, d4)" by fastforce
  obtain r5 d5 where five: "write_record path (length (joined ls)) line d4 = (r5, d5)" by fastforce
  have if_err: "(if b then map_errA g m else retA ()) = map_errA g (if b then m else retA ())" for g and m :: "unit io"
    by (simp add: fun_eq_iff act_simps)
  have at2: "(r2 = Done () \<or> (\<exists>e. r2 = Raised e)) \<and> holds_at path (joined ls @ t) d2"
    using two here by (auto simp: fs_open_def unless_fault_def tick_def with_file_def act_simps holds_at_def split: option.splits)
  have at3: "(r3 = Done () \<and> holds_at path (joined ls) d3) \<or> (\<exists>e. r3 = Raised e \<and> holds_at path (joined ls @ t) d3)"
    using set_len_step [of path "joined ls" t d2 r3 d3] three at2 cut by (cases b) (auto simp: act_simps)
  have at4: "(r4 = Done () \<or> (\<exists>e. r4 = Raised e)) \<and> holds_at path (joined ls) d4" if "holds_at path (joined ls) d3"
    using four that by (auto simp: fs_seek_end_def unless_fault_def tick_def act_simps holds_at_def split: option.splits)
  show ?thesis
  proof (cases "r2 = Done () \<and> r3 = Done () \<and> r4 = Done ()")
    case True
    then have "holds_at path (joined ls) d4" using at3 at4 by auto
    from write_record_outcome [OF this line five] obtain out where out: "holds_at path out d5" "appended ls line r5 out" by blast
    moreover have "r = (case r5 of Done _ \<Rightarrow> Done n | Raised e \<Rightarrow> Raised e | Out_of_fuel \<Rightarrow> Out_of_fuel)" "d' = d5"
      using True two three four five run by (auto simp: act_simps if_err split: outcome.splits)
    ultimately show ?thesis using new same by (cases r5) (auto simp: appended_def)
  next
    case False
    then have "(\<exists>e. r = Raised e) \<and> (holds_at path (joined ls) d' \<or> holds_at path (joined ls @ t) d')"
      using at2 at3 at4 two three four run by (auto simp: act_simps if_err)
    then show ?thesis using same [OF no(2)] same [of "[]"] by auto
  qed
qed

text \<open>The whole append.\<close>

lemma append_outcome:
  fixes d :: disk
  assumes laws: "session_laws js" and here: "holds_at path bytes d"
    and loads: "load_all_records js i (complete_lines bytes) loading_start = Inr ld"
    and run: "append_execution_record js path record d = (r, d')"
  shows "(\<exists>e bytes'. r = Raised e \<and> holds_at path bytes' d' \<and> complete_lines bytes' = complete_lines bytes)
    \<or> (\<exists>line bytes'. va_encode (sj_values js) (sj_set js record ''seq'' (va_num (sj_values js) (ld_expected_seq ld))) = Inr line
      \<and> length line \<le> max_record_bytes \<and> holds_at path bytes' d' \<and> complete_lines bytes' = complete_lines bytes @ [line]
      \<and> (r = Done (ld_expected_seq ld) \<or> (\<exists>e. r = Raised e \<and> rollback_failed e)))"
proof -
  obtain t where bytes: "bytes = joined (complete_lines bytes) @ t" "newline_byte \<notin> set t"
    and no: "\<forall>l \<in> set (complete_lines bytes). newline_byte \<notin> set l" by (rule file_parts)
  let ?ls = "complete_lines bytes"
  have len: "valid_prefix_length bytes = length (joined ?ls)" using valid_prefix_length_joined [OF bytes(2)] bytes(1) by metis
  have pre: "take (length (joined ?ls)) bytes = joined ?ls" using bytes(1) by (metis append_eq_conv_conj)
  have less: "length (joined ?ls) < length bytes \<longleftrightarrow> t \<noteq> []"
    using arg_cong [OF bytes(1), of length] by simp
  have scan: "scan_seq js ?ls 1 = Inr (ld_expected_seq ld)" "[] \<notin> set ?ls"
    using load_all_seq [OF laws loads] by (simp_all add: loading_start_def)
  have lines: "file_lines (joined ?ls) = ?ls" using no scan(2) by (intro file_lines_joined) blast
  obtain r1 d1 where one: "fs_read_bytes path d = (r1, d1)" by fastforce
  from here one have r1: "(r1 = Done bytes \<or> (\<exists>e. r1 = Raised e)) \<and> holds_at path bytes d1"
    by (auto simp: fs_read_bytes_def unless_fault_def tick_def with_file_def act_simps holds_at_def split: option.splits)
  show ?thesis
  proof (cases "r1 = Done bytes")
    case False
    then show ?thesis using r1 run one by (auto simp: append_execution_record_def act_simps)
  next
    case True
    note step = run [unfolded append_execution_record_def, simplified act_simps one True prod.case outcome.case Let_def len pre lines scan(1) sum.case]
    show ?thesis
    proof (cases "va_encode (sj_values js) (sj_set js record ''seq'' (va_num (sj_values js) (ld_expected_seq ld)))")
      case (Inl e)
      then show ?thesis using step r1 by (auto simp: act_simps)
    next
      case (Inr line)
      show ?thesis
      proof (cases "max_record_bytes < length line \<or> max_session_bytes < sat_add (sat_add (length (joined ?ls)) (length line)) 1")
        case True
        then show ?thesis using step r1 Inr by (auto simp: act_simps split: if_splits)
      next
        case False
        have at: "holds_at path (joined ?ls @ t) d1" using r1 bytes(1) by simp
        from step Inr False have "seqA (map_errA (io_error_of ''cannot open Session journal'') (fs_open path))
            (seqA (if length (joined ?ls) < length bytes
                then map_errA (io_error_of ''cannot discard incomplete Session tail'') (fs_set_len path (length (joined ?ls)))
                else retA ())
            (seqA (map_errA (io_error_of ''cannot seek Session journal'') fs_seek_end)
            (seqA (write_record path (length (joined ?ls)) line) (retA (ld_expected_seq ld))))) d1 = (r, d')"
          by simp
        from place_line [OF at less encoded_line(2) [OF laws Inr] no bytes(2) this] show ?thesis using Inr False by auto
      qed
    qed
  qed
qed

end
