(* ===== verification/Session_Samples.thy ===== *)
theory Session_Samples
  imports Session_Replay
begin

section \<open>Sample encodings\<close>

text \<open>
  JSON values and encodings that satisfy the laws the session's properties assume: values of the
  repository's own types without JSON inside are values of their own, messages and journal
  entries are built from arrays, and the lines of a file are the entries of a given table.
\<close>

datatype sv =
    SV_Null | SV_Bool bool | SV_Num nat | SV_Str string | SV_Arr "sv list" | SV_Obj "(string \<times> sv) list"
  | SV_Input turn_input | SV_Phase execution_phase | SV_Result tool_execution_outcome
  | SV_Status "tool_execution_status option" | SV_Decision session_reconciliation_request | SV_Question user_question_interaction

fun sv_s :: "sv \<Rightarrow> string" where
  "sv_s (SV_Str s) = s" | "sv_s _ = []"

fun sv_n :: "sv \<Rightarrow> nat" where
  "sv_n (SV_Num n) = n" | "sv_n _ = 0"

fun sv_a :: "sv \<Rightarrow> sv list" where
  "sv_a (SV_Arr vs) = vs" | "sv_a _ = []"

text \<open>The field at a place of an array.\<close>

definition sv_at :: "sv \<Rightarrow> nat \<Rightarrow> sv" where
  "sv_at v i = (if i < length (sv_a v) then sv_a v ! i else SV_Null)"

definition sv_call :: "sv tool_call \<Rightarrow> sv" where
  "sv_call c = SV_Arr [SV_Str (tc_id c), SV_Str (tc_name c), tc_arguments c]"

definition sv_call_of :: "sv \<Rightarrow> sv tool_call" where
  "sv_call_of v = \<lparr>tc_id = sv_s (sv_at v 0), tc_name = sv_s (sv_at v 1), tc_arguments = sv_at v 2\<rparr>"

fun sv_message :: "sv message \<Rightarrow> sv" where
  "sv_message (Context t) = SV_Arr [SV_Num 0, SV_Str t]"
| "sv_message (User t) = SV_Arr [SV_Num 1, SV_Str t]"
| "sv_message (Assistant r t calls) = SV_Arr [SV_Num 2, SV_Str r, SV_Str t, SV_Arr (map sv_call calls)]"
| "sv_message (Tool i n c e x) = SV_Arr [SV_Num 3, SV_Str i, SV_Str n, SV_Str c, SV_Bool e, SV_Status x]"

definition sv_message_of :: "sv \<Rightarrow> sv message" where
  "sv_message_of v = (let k = sv_n (sv_at v 0) in
     if k = 0 then Context (sv_s (sv_at v 1)) else if k = 1 then User (sv_s (sv_at v 1))
     else if k = 2 then Assistant (sv_s (sv_at v 1)) (sv_s (sv_at v 2)) (map sv_call_of (sv_a (sv_at v 3)))
     else Tool (sv_s (sv_at v 1)) (sv_s (sv_at v 2)) (sv_s (sv_at v 3)) (sv_at v 4 = SV_Bool True)
       (case sv_at v 5 of SV_Status x \<Rightarrow> x | _ \<Rightarrow> None))"

definition sv_input_of :: "sv \<Rightarrow> turn_input" where
  "sv_input_of v = (case v of SV_Input i \<Rightarrow> i | _ \<Rightarrow> turn_input_new Start [])"

definition sv_phase_of :: "sv \<Rightarrow> execution_phase" where
  "sv_phase_of v = (case v of SV_Phase p \<Rightarrow> p | _ \<Rightarrow> Phase_ModelRequest)"

definition sv_result_of :: "sv \<Rightarrow> tool_execution_outcome" where
  "sv_result_of v = (case v of SV_Result x \<Rightarrow> x | _ \<Rightarrow> outcome_completed [])"

fun sv_entry_body :: "sv execution_journal_entry \<Rightarrow> sv list" where
  "sv_entry_body (J_Checkpoint cp) = [SV_Num 0, SV_Str (turn_id_str (ecp_turn_id cp)), SV_Input (ecp_input cp),
     SV_Arr (map sv_message (ecp_messages cp)), SV_Num (ecp_next_model_step cp), SV_Str (ecp_final_text cp),
     SV_Phase (ecp_phase cp), SV_Arr (map SV_Str (ecp_applied_steer_request_ids cp))]"
| "sv_entry_body (J_SteerAccepted t i s) = [SV_Num 1, SV_Str (turn_id_str t), SV_Str i, SV_Str s]"
| "sv_entry_body (J_SteerUnapplied t i s) = [SV_Num 2, SV_Str (turn_id_str t), SV_Str i, SV_Str s]"
| "sv_entry_body (J_ToolBatchStarted b) = [SV_Num 3, SV_Str (turn_id_str (tbi_turn_id b)), SV_Num (tbi_step b),
     SV_Str (tbi_reasoning b), SV_Str (tbi_text b), SV_Arr (map sv_call (tbi_calls b))]"
| "sv_entry_body (J_ToolCallStarted t n i) = [SV_Num 4, SV_Str (turn_id_str t), SV_Num n, SV_Str i]"
| "sv_entry_body (J_ToolCallFinished t n i x) = [SV_Num 5, SV_Str (turn_id_str t), SV_Num n, SV_Str i, SV_Result x]"
| "sv_entry_body (J_ToolBatchSettled t n) = [SV_Num 6, SV_Str (turn_id_str t), SV_Num n]"
| "sv_entry_body (J_WaitingForContinue t s) = [SV_Num 7, SV_Str (turn_id_str t), SV_Str s]"
| "sv_entry_body (J_Resumed t i n) = [SV_Num 8, SV_Str (turn_id_str t), SV_Str i, SV_Num n]"
| "sv_entry_body (J_Heartbeat t p m n) = [SV_Num 9, SV_Str (turn_id_str t), SV_Phase p, SV_Num m, SV_Num n]"
| "sv_entry_body (J_NeedsReconciliation t s) = [SV_Num 10, SV_Str (turn_id_str t), SV_Str s]"
| "sv_entry_body (J_Settled t) = [SV_Num 11, SV_Str (turn_id_str t)]"

definition sv_body_entry :: "sv \<Rightarrow> sv execution_journal_entry" where
  "sv_body_entry v = (let k = sv_n (sv_at v 0); t = TurnId (sv_s (sv_at v 1)) in
     if k = 0 then J_Checkpoint \<lparr>ecp_turn_id = t, ecp_input = sv_input_of (sv_at v 2),
         ecp_messages = map sv_message_of (sv_a (sv_at v 3)), ecp_next_model_step = sv_n (sv_at v 4),
         ecp_final_text = sv_s (sv_at v 5), ecp_phase = sv_phase_of (sv_at v 6),
         ecp_applied_steer_request_ids = map sv_s (sv_a (sv_at v 7))\<rparr>
     else if k = 1 then J_SteerAccepted t (sv_s (sv_at v 2)) (sv_s (sv_at v 3))
     else if k = 2 then J_SteerUnapplied t (sv_s (sv_at v 2)) (sv_s (sv_at v 3))
     else if k = 3 then J_ToolBatchStarted \<lparr>tbi_turn_id = t, tbi_step = sv_n (sv_at v 2), tbi_reasoning = sv_s (sv_at v 3),
         tbi_text = sv_s (sv_at v 4), tbi_calls = map sv_call_of (sv_a (sv_at v 5))\<rparr>
     else if k = 4 then J_ToolCallStarted t (sv_n (sv_at v 2)) (sv_s (sv_at v 3))
     else if k = 5 then J_ToolCallFinished t (sv_n (sv_at v 2)) (sv_s (sv_at v 3)) (sv_result_of (sv_at v 4))
     else if k = 6 then J_ToolBatchSettled t (sv_n (sv_at v 2))
     else if k = 7 then J_WaitingForContinue t (sv_s (sv_at v 2))
     else if k = 8 then J_Resumed t (sv_s (sv_at v 2)) (sv_n (sv_at v 3))
     else if k = 9 then J_Heartbeat t (sv_phase_of (sv_at v 2)) (sv_n (sv_at v 3)) (sv_n (sv_at v 4))
     else if k = 10 then J_NeedsReconciliation t (sv_s (sv_at v 2))
     else J_Settled t)"

definition sv_get :: "sv \<Rightarrow> string \<Rightarrow> sv option" where
  "sv_get v k = (case v of SV_Obj kvs \<Rightarrow> map_of kvs k | _ \<Rightarrow> None)"

definition sv_set :: "sv \<Rightarrow> string \<Rightarrow> sv \<Rightarrow> sv" where
  "sv_set v k x = (case v of SV_Obj kvs \<Rightarrow> SV_Obj ((k, x) # kvs) | _ \<Rightarrow> SV_Obj [(k, x)])"

definition sv_entry_of :: "sv \<Rightarrow> string + sv execution_journal_entry" where
  "sv_entry_of v = (case sv_get v ''body'' of Some b \<Rightarrow> Inr (sv_body_entry b) | None \<Rightarrow> Inl ''bad entry'')"

definition sv_decision_of :: "sv \<Rightarrow> string + session_reconciliation_request" where
  "sv_decision_of v = (case sv_get v ''body'' of Some (SV_Decision q) \<Rightarrow> Inr q | _ \<Rightarrow> Inl ''bad decision'')"

text \<open>Lines of a table: the \<open>i\<close>-th value is the letter \<open>R\<close> and \<open>i\<close> dots.\<close>

definition table_encode :: "sv list \<Rightarrow> sv \<Rightarrow> string + string" where
  "table_encode table v = (case position (\<lambda>x. x = v) table of
     None \<Rightarrow> Inl ''unsupported'' | Some i \<Rightarrow> Inr (CHR ''R'' # replicate i (CHR ''.'')))"

definition table_parse :: "sv list \<Rightarrow> string \<Rightarrow> string + sv" where
  "table_parse table l = (case l of
     c # cs \<Rightarrow> if length cs < length table then Inr (table ! length cs) else Inl ''bad line'' | [] \<Rightarrow> Inl ''empty line'')"

definition sample_values :: "sv list \<Rightarrow> sv value_api" where
  "sample_values table = \<lparr>va_parse = (\<lambda>l. case table_parse table l of Inr v \<Rightarrow> Some v | Inl _ \<Rightarrow> None),
     va_encode = table_encode table, va_get = sv_get,
     va_as_str = (\<lambda>v. case v of SV_Str s \<Rightarrow> Some s | _ \<Rightarrow> None), va_as_u64 = (\<lambda>v. case v of SV_Num n \<Rightarrow> Some n | _ \<Rightarrow> None),
     va_as_bool = (\<lambda>v. case v of SV_Bool b \<Rightarrow> Some b | _ \<Rightarrow> None), va_is_null = (\<lambda>v. v = SV_Null),
     va_object = SV_Obj, va_str = SV_Str, va_num = SV_Num, va_bool = SV_Bool, va_null = SV_Null\<rparr>"

definition sample_json :: "sv list \<Rightarrow> sv session_json" where
  "sample_json table = \<lparr>sj_values = sample_values table, sj_parse = table_parse table, sj_set = sv_set,
     sj_empty_array = SV_Arr [], sj_message = sv_message, sj_message_of = (\<lambda>v. Inr (sv_message_of v)),
     sj_messages = (\<lambda>ms. SV_Arr (map sv_message ms)), sj_messages_of = (\<lambda>v. Inr (map sv_message_of (sv_a v))),
     sj_input = SV_Input, sj_input_of = (\<lambda>v. Inr (sv_input_of v)),
     sj_phase = SV_Phase, sj_phase_of = (\<lambda>v. Inr (sv_phase_of v)),
     sj_ids = (\<lambda>is. SV_Arr (map SV_Str is)), sj_ids_of = (\<lambda>v. Inr (map sv_s (sv_a v))),
     sj_entry = (\<lambda>e. Inr (SV_Obj [(''kind'', SV_Str (entry_kind e)), (''body'', SV_Arr (sv_entry_body e))])),
     sj_entry_of = sv_entry_of,
     sj_reconciliation = (\<lambda>q. Inr (SV_Obj [(''body'', SV_Decision q)])), sj_reconciliation_of = sv_decision_of,
     sj_interaction = SV_Question, sj_interaction_of = (\<lambda>v. case v of SV_Question q \<Rightarrow> Inr q | _ \<Rightarrow> Inl ''bad question''),
     sj_turn_source_of = (\<lambda>v. None)\<rparr>"

lemma sv_call_roundtrip [simp]: "sv_call_of (sv_call c) = c"
  by (simp add: sv_call_def sv_call_of_def sv_at_def)

lemma sv_calls [simp]: "map (sv_call_of \<circ> sv_call) cs = cs" "map (sv_s \<circ> SV_Str) ss = ss"
  by (simp_all add: map_idI)

lemma sv_message_roundtrip [simp]: "sv_message_of (sv_message m) = m"
  by (cases m) (simp_all add: sv_message_of_def sv_at_def)

lemma sv_messages [simp]: "map (sv_message_of \<circ> sv_message) ms = ms"
  by (simp add: map_idI)

lemma sv_body_roundtrip: "sv_body_entry (SV_Arr (sv_entry_body e)) = e"
  by (cases e) (simp_all add: sv_body_entry_def sv_at_def sv_input_of_def sv_phase_of_def sv_result_of_def Let_def)

lemma table_roundtrip: "table_encode table v = Inr l \<Longrightarrow> table_parse table l = Inr v \<and> newline_byte \<notin> set l"
  using position_SomeD [of "\<lambda>x. x = v" table]
  by (auto simp: table_encode_def table_parse_def newline_byte_def split: option.splits)

lemma sample_laws: "session_laws (sample_json table)"
proof -
  have "value_law (sample_json table)"
    using table_roundtrip
    by (auto simp: value_law_def sample_json_def sample_values_def sv_get_def sv_set_def table_parse_def split: sv.split)
  moreover have "codec_law (sample_json table)"
    by (simp add: codec_law_def sample_json_def sv_input_of_def sv_phase_of_def)
  moreover have "entry_law (sample_json table)"
    by (auto simp: entry_law_def sample_json_def sample_values_def sv_get_def sv_entry_of_def sv_decision_of_def sv_body_roundtrip
        added_keys_def)
  ultimately show ?thesis by (simp add: session_laws_def)
qed

subsection \<open>A sample session\<close>

definition sample_journal :: execution_journal where
  "sample_journal = \<lparr>ej_session_id = ''s'', ej_thread_id = ''t'', ej_path = ''p''\<rparr>"

definition sample_checkpoint :: "sv execution_checkpoint" where
  "sample_checkpoint = \<lparr>ecp_turn_id = TurnId ''t-1'', ecp_input = turn_input_new Start ''hi'', ecp_messages = [User ''hi''],
     ecp_next_model_step = 1, ecp_final_text = [], ecp_phase = Phase_ModelRequest, ecp_applied_steer_request_ids = []\<rparr>"

definition sample_call_state :: "sv session_execution_state" where
  "sample_call_state = (apply_checkpoint 2 7 sample_checkpoint None)\<lparr>ses_status := Exec_NeedsReconciliation,
     ses_pending_batch := Some \<lparr>etb_intent = \<lparr>tbi_turn_id = TurnId ''t-1'', tbi_step = 1, tbi_reasoning = [], tbi_text = [], tbi_calls = []\<rparr>,
       etb_calls = [\<lparr>etc_call = \<lparr>tc_id = ''c1'', tc_name = ''shell'', tc_arguments = SV_Null\<rparr>, etc_started = True, etc_outcome = None\<rparr>,
         \<lparr>etc_call = \<lparr>tc_id = ''c2'', tc_name = ''read'', tc_arguments = SV_Null\<rparr>, etc_started = True, etc_outcome = None\<rparr>]\<rparr>\<rparr>"

definition sample_decision :: session_reconciliation_request where
  "sample_decision = \<lparr>srr_turn_id = TurnId ''t-1'', srr_checkpoint_seq = 2, srr_tool_call_id = ''c1'', srr_request_id = ''r1'',
     srr_disposition = Disposition_NotExecuted, srr_outcome = None, srr_evidence_summary = ''seen''\<rparr>"

text \<open>The records of the file: the header, the settled checkpoint, and what the samples append.\<close>

definition sample_table :: "sv list" where
  "sample_table = [
     SV_Obj [(''kind'', SV_Str ''session_created''), (''session_id'', SV_Str ''s''), (''schema_version'', SV_Num 2), (''seq'', SV_Num 1)],
     SV_Obj [(''kind'', SV_Str ''checkpoint''), (''thread_id'', SV_Str ''t''), (''messages'', SV_Arr []), (''seq'', SV_Num 2)],
     record_stamped (sample_json []) (checkpoint_record (sample_json []) ''t'' [] 7 sample_checkpoint) ''s'' 3,
     sv_set (reconciliation_record (sample_json []) sample_journal 7 (SV_Obj [(''body'', SV_Decision sample_decision)])) ''seq'' (SV_Num 3)]"

definition sample_session :: "sv session_json" where
  "sample_session = sample_json sample_table"

definition sample_file :: string where
  "sample_file = joined [''R'', ''R.'']"

definition session_disk :: "(nat \<Rightarrow> fault option) \<Rightarrow> disk" where
  "session_disk faults = \<lparr>dk_nodes = [(''p'', File_Node sample_file)], dk_fault = faults, dk_clock = (\<lambda>_. 7), dk_tick = 0\<rparr>"

definition steady :: "nat \<Rightarrow> fault option" where
  "steady t = None"

text \<open>The write of the record fails with half of it written.\<close>

definition torn_write :: "nat \<Rightarrow> fault option" where
  "torn_write t = (if t = 4 then Some \<lparr>ft_error = io_error Io_Other ''disk full'', ft_leftover = Some ''R'', ft_removed = []\<rparr> else None)"

definition sample_live :: "sv journal_live" where
  "sample_live = \<lparr>jl_state = None, jl_writer = fresh_writer None []\<rparr>"

definition sample_loaded :: "sv loading" where
  "sample_loaded = loading_start\<lparr>ld_offset := 5, ld_expected_seq := 3, ld_header_seen := True,
     ld_latest_checkpoint := Some (2, ''t'', [])\<rparr>"

definition sample_base :: "sv loading" where
  "sample_base = sample_loaded\<lparr>ld_offset := 0, ld_expected_seq := 0, ld_execution_state := None\<rparr>"

lemmas sample_defs = sample_session_def sample_json_def sample_values_def sv_get_def sv_set_def table_parse_def sample_table_def

lemma sample_lines: "complete_lines sample_file = [''R'', ''R.'']" "valid_prefix_length sample_file = length sample_file"
    "take (length sample_file) sample_file = sample_file" "file_lines sample_file = [''R'', ''R.'']"
  using complete_lines_joined [of "[''R'', ''R.'']" "[]"] valid_prefix_length_joined [of "[]" "[''R'', ''R.'']"]
    file_lines_joined [of "[''R'', ''R.'']"]
  by (simp_all add: sample_file_def newline_byte_def)

lemma sample_loads: "load_all_records sample_session ''s'' (complete_lines sample_file) loading_start = Inr sample_loaded"
  unfolding sample_lines
  by (simp add: load_record_def load_kind_def load_header_def load_checkpoint_def str_field_def u64_field_def sample_defs
      max_record_bytes_def trying_def required_def decoded_def loading_start_def sample_loaded_def sat_add_def u64_max_def
      schema_version_def)

lemma sample_scan: "scan_seq sample_session [''R'', ''R.''] (Suc 0) = Inr 3"
  by (simp add: u64_field_def sample_defs sat_add_def u64_max_def)

lemma session_disk_simps [simp]:
  "node_at (session_disk faults) ''p'' = Some (File_Node sample_file)" "dk_fault (session_disk faults) = faults"
  "dk_clock (session_disk faults) = (\<lambda>_. 7)" "dk_tick (session_disk faults) = 0"
  by (simp_all add: session_disk_def node_at_def)

lemma sample_encodings:
  "va_encode (sj_values sample_session) (record_stamped sample_session (checkpoint_record sample_session ''t'' [] 7 sample_checkpoint) ''s'' 3) = Inr ''R..''"
  "va_encode (sj_values sample_session) (sj_set sample_session (reconciliation_record sample_session sample_journal 7
     (SV_Obj [(''body'', SV_Decision sample_decision)])) ''seq'' (va_num (sj_values sample_session) 3)) = Inr ''R...''"
  by (simp_all add: sample_session_def sample_json_def sample_values_def table_encode_def sample_table_def record_stamped_def
      checkpoint_record_def reconciliation_record_def sv_set_def Let_def can_append_def sample_checkpoint_def)

end
