(* ===== verification/Session_Claims.thy ===== *)
theory Session_Claims
  imports Session_Samples
begin

section \<open>Properties of the execution journal\<close>

text \<open>
  The file of a session and the state in memory: what the journal appends replays to the state
  it keeps, through any sequence of its operations and under any faults of the disk; a failed
  append is not seen.
\<close>

subsection \<open>The file replays to the state in memory\<close>

definition loads_at :: "'v session_json \<Rightarrow> execution_journal \<Rightarrow> 'v loading \<Rightarrow> disk \<Rightarrow> bool" where
  "loads_at js j ld d \<longleftrightarrow> (\<exists>bytes. holds_at (ej_path j) bytes d
     \<and> load_all_records js (ej_session_id j) (complete_lines bytes) loading_start = Inr ld)"

text \<open>What the journal does not change: all but the execution state and the position.\<close>

definition settled :: "'v loading \<Rightarrow> 'v loading" where
  "settled ld = ld\<lparr>ld_offset := 0, ld_expected_seq := 0, ld_execution_state := None\<rparr>"

definition settled_messages :: "string \<Rightarrow> 'v loading \<Rightarrow> 'v message list option" where
  "settled_messages th ld = (case ld_latest_checkpoint ld of
     Some (_, i, ms) \<Rightarrow> if i = th then Some ms else None | None \<Rightarrow> None)"

definition writer_ok :: "'v journal_live \<Rightarrow> bool" where
  "writer_ok l \<longleftrightarrow> jl_writer l = fresh_writer (jl_state l) (jw_messages (jl_writer l))"

definition replays :: "'v session_json \<Rightarrow> execution_journal \<Rightarrow> 'v loading \<Rightarrow> 'v journal_live \<times> disk \<Rightarrow> bool" where
  "replays js j base x \<longleftrightarrow> (\<exists>ld. loads_at js j ld (snd x) \<and> settled ld = base \<and> ld_header_seen ld
     \<and> ld_execution_state ld = jl_state (fst x) \<and> writer_ok (fst x))"

text \<open>
  A checkpoint is grounded if it goes on with the turn the journal last wrote, replaces the
  messages, or extends what is settled in the file.
\<close>

definition grounded :: "execution_journal \<Rightarrow> 'v loading \<Rightarrow> 'v journal_live \<Rightarrow> 'v execution_journal_entry \<Rightarrow> bool" where
  "grounded j base l entry \<longleftrightarrow> (case entry of
     J_Checkpoint cp \<Rightarrow> jw_turn_id (jl_writer l) = Some (ecp_turn_id cp) \<or> \<not> can_append (jw_messages (jl_writer l)) (ecp_messages cp)
       \<or> settled_messages (ej_thread_id j) base = Some (jw_messages (jl_writer l))
   | _ \<Rightarrow> True)"

lemma settled_congs [simp]:
  "settled (ld\<lparr>ld_offset := n\<rparr>) = settled ld" "settled (ld\<lparr>ld_expected_seq := n\<rparr>) = settled ld"
  "settled (ld\<lparr>ld_execution_state := s\<rparr>) = settled ld"
  "settled_messages th (settled ld) = settled_messages th ld" "ld_latest_checkpoint (settled ld) = ld_latest_checkpoint ld"
  by (simp_all add: settled_def settled_messages_def)

lemma can_append_take: "can_append old new \<Longrightarrow> old @ drop (length old) new = new"
proof (induction old arbitrary: new)
  case (Cons x old)
  then show ?case by (cases new) (auto simp: can_append_def)
qed simp

lemma turn_id_str_inject [simp]: "turn_id_str a = turn_id_str b \<longleftrightarrow> a = b"
  by (cases a; cases b) simp

lemma fresh_writer_simps:
  "fresh_writer (Some s) ms = \<lparr>jw_turn_id = Some (ses_turn_id s), jw_messages = ecp_messages (ses_checkpoint s),
     jw_checkpoint_seq = ses_checkpoint_seq s\<rparr>"
  "jw_turn_id (fresh_writer None ms) = None" "jw_messages (fresh_writer None ms) = ms"
  by (simp_all add: fresh_writer_def)

lemma append_base_settled:
  "append_base th turn ld = (case ld_execution_state ld of
     Some s \<Rightarrow> if turn_id_str (ses_turn_id s) = turn then Some (ecp_messages (ses_checkpoint s))
       else settled_messages th ld
   | None \<Rightarrow> settled_messages th ld)"
  by (auto simp: append_base_def settled_messages_def split: option.split)

lemma grounded_replays:
  assumes "grounded j base l (J_Checkpoint cp)" and "writer_ok l" and "ld_execution_state ld = jl_state l" and "settled ld = base"
  shows "replayed_messages (ej_thread_id j) (jw_messages (jl_writer l)) cp ld = Some (ecp_messages cp)"
proof (cases "can_append (jw_messages (jl_writer l)) (ecp_messages cp)")
  case True
  have "append_base (ej_thread_id j) (turn_id_str (ecp_turn_id cp)) ld = Some (jw_messages (jl_writer l))"
  proof (cases "jl_state l")
    case None
    then have "settled_messages (ej_thread_id j) ld = Some (jw_messages (jl_writer l))"
      using assms True by (auto simp: grounded_def writer_ok_def fresh_writer_simps)
        (metis fresh_writer_simps(2) option.distinct(1))
    then show ?thesis using None assms(3) by (simp add: append_base_settled)
  next
    case (Some s)
    then have w: "jw_turn_id (jl_writer l) = Some (ses_turn_id s)" "jw_messages (jl_writer l) = ecp_messages (ses_checkpoint s)"
      using assms(2) by (metis writer_ok_def fresh_writer_simps(1) journal_writer.select_convs)+
    then show ?thesis using Some assms True
      by (auto simp: append_base_settled grounded_def)
  qed
  then show ?thesis using True by (simp add: replayed_messages_def can_append_take)
qed (simp add: replayed_messages_def)

lemma holds_at_ticked [simp]: "holds_at p s (ticked d) = holds_at p s d"
  by (simp add: holds_at_def)

lemma loads_at_ticked [simp]: "loads_at js j ld (ticked d) = loads_at js j ld d"
  by (simp add: loads_at_def)

lemma replays_ticked [simp]: "replays js j base (l, ticked d) = replays js j base (l, d)"
  by (simp add: replays_def)

text \<open>Appending a record that is read back as the given execution state.\<close>

lemma append_loads:
  assumes laws: "session_laws js" and at: "loads_at js j ld d"
    and fields: "u64_field js (sj_set js record ''seq'' (va_num (sj_values js) (ld_expected_seq ld))) ''timestamp_ms'' = Some ts"
      "str_field js (sj_set js record ''seq'' (va_num (sj_values js) (ld_expected_seq ld))) ''kind'' = Some kind"
    and loads: "load_kind js (ej_session_id j) (ld_expected_seq ld) ts kind (sj_set js record ''seq'' (va_num (sj_values js) (ld_expected_seq ld)))
      (ld\<lparr>ld_expected_seq := sat_add (ld_expected_seq ld) 1\<rparr>)
      = Inr (ld\<lparr>ld_expected_seq := sat_add (ld_expected_seq ld) 1, ld_execution_state := st\<rparr>)"
    and run: "append_execution_record js (ej_path j) record d = (r, d')"
  shows "((\<exists>e. r = Raised e) \<and> loads_at js j ld d') \<or> (r = Done (ld_expected_seq ld) \<or> (\<exists>e. r = Raised e \<and> rollback_failed e))
    \<and> (\<exists>ld'. loads_at js j ld' d' \<and> settled ld' = settled ld \<and> ld_header_seen ld' \<and> ld_execution_state ld' = st)"
proof -
  let ?v = "sj_set js record ''seq'' (va_num (sj_values js) (ld_expected_seq ld))"
  obtain bytes where at: "holds_at (ej_path j) bytes d" and all: "load_all_records js (ej_session_id j) (complete_lines bytes) loading_start = Inr ld"
    using at by (auto simp: loads_at_def)
  have seq: "u64_field js ?v ''seq'' = Some (ld_expected_seq ld)"
    by (simp add: u64_field_def get_set scalars laws)
  have read: "\<exists>ld'. loads_at js j ld' d' \<and> settled ld' = settled ld \<and> ld_header_seen ld' \<and> ld_execution_state ld' = st"
    if line: "va_encode (sj_values js) ?v = Inr line" "length line \<le> max_record_bytes" "holds_at (ej_path j) bytes' d'"
      "complete_lines bytes' = complete_lines bytes @ [line]" for line bytes'
  proof -
    let ?ld = "ld\<lparr>ld_expected_seq := sat_add (ld_expected_seq ld) 1, ld_execution_state := st\<rparr>"
    let ?ld' = "?ld\<lparr>ld_offset := sat_add (ld_offset ld) (length line + 1)\<rparr>"
    note one = load_encoded_record [OF laws line(1,2) seq fields loads]
    then have "load_all_records js (ej_session_id j) (complete_lines bytes') loading_start = Inr ?ld'"
      using all line(4) by (simp add: load_all_append)
    then have "loads_at js j ?ld' d'" using line(3) unfolding loads_at_def by blast
    moreover have "settled ?ld' = settled ld" "ld_execution_state ?ld' = st" by (simp_all add: settled_def)
    moreover have "ld_header_seen ?ld'" using load_record_frame(3) [OF one] .
    ultimately show ?thesis by blast
  qed
  from append_outcome [OF laws at all run] show ?thesis
  proof (elim disjE exE conjE, goal_cases)
    case (1 e bytes')
    then have "loads_at js j ld d'" using all unfolding loads_at_def by metis
    with 1 show ?thesis by blast
  qed (use read in blast)+
qed

lemma writer_ok_journaled: "writer_ok l \<Longrightarrow> writer_ok (journal_applied seq ts entry l)"
proof -
  assume ok: "writer_ok l"
  show ?thesis
  proof (cases entry)
    case (J_Checkpoint cp)
    then show ?thesis by (simp add: writer_ok_def journal_applied_def written_checkpoint_def fresh_writer_simps apply_checkpoint_def
        ses_turn_id_def Let_def)
  qed (use ok in \<open>auto simp: writer_ok_def journal_applied_def written_checkpoint_def fresh_writer_def ses_turn_id_def on_turn_def
      on_call_def accept_steer_def drop_steer_def start_batch_def finish_call_def Let_def split: option.splits if_splits\<close>)
qed

text \<open>The record of an entry, read back in a file that replays to the state in memory.\<close>

lemma journal_record_loads:
  assumes laws: "session_laws js" and rec: "journal_record js (ej_thread_id j) (jw_messages (jl_writer l)) ts entry = Inr record"
    and turn: "jw_turn_id (jl_writer l) = None \<or> jw_turn_id (jl_writer l) = Some (execution_entry_turn_id entry) \<or> is_checkpoint_entry entry"
    and grounded: "grounded j base l entry" and state: "writer_ok l" "ld_execution_state ld = jl_state l" "settled ld = base" "ld_header_seen ld"
  shows "\<exists>kind. u64_field js (record_stamped js record i n) ''timestamp_ms'' = Some ts \<and> str_field js (record_stamped js record i n) ''kind'' = Some kind
    \<and> load_kind js i seq ts kind (record_stamped js record i n) ld
      = Inr (ld\<lparr>ld_execution_state := apply_execution_journal_entry seq ts entry (jl_state l)\<rparr>)"
proof (cases "is_checkpoint_entry entry")
  case True
  then obtain cp where cp: "entry = J_Checkpoint cp" by (auto simp: is_checkpoint_entry_def split: execution_journal_entry.splits)
  have r: "record = checkpoint_record js (ej_thread_id j) (jw_messages (jl_writer l)) ts cp"
    using rec cp by (simp add: journal_record_def split: if_splits)
  have "replayed_messages (ej_thread_id j) (jw_messages (jl_writer l)) cp ld = Some (ecp_messages cp)"
    using grounded_replays grounded state cp by blast
  then show ?thesis using load_checkpoint_record [OF laws state(4)] state(2) cp by (simp add: r)
next
  case False
  then have rec: "entry_record js (ej_thread_id j) ts entry = Inr record"
    using rec by (auto simp: journal_record_def is_checkpoint_entry_def split: execution_journal_entry.splits)
  have "case ld_execution_state ld of None \<Rightarrow> True | Some s \<Rightarrow> ses_turn_id s = execution_entry_turn_id entry"
    using state(1,2) turn False by (auto simp: writer_ok_def fresh_writer_def split: option.splits)
  then show ?thesis using load_entry_record [OF laws False rec _ state(4)] state(2) by fastforce
qed

lemma entry_timestamp_step: "entry_timestamp entry d = (r, d') \<Longrightarrow> (\<exists>ts. r = Done ts) \<and> (d' = d \<or> d' = ticked d)"
  by (cases entry) (auto simp: entry_timestamp_def act_simps fs_now_ms_def)

lemma journal_append_outcome:
  assumes laws: "session_laws js" and here: "replays js j base (l, d)" and grounded: "grounded j base l entry"
    and run: "journal_append js j entry (l, d) = (r, (l', d'))"
  shows "(\<exists>seq ts. r = Done seq \<and> l' = journal_applied seq ts entry l \<and> replays js j base (l', d'))
    \<or> (\<exists>e. r = Raised e \<and> l' = l \<and> (replays js j base (l, d') \<or> rollback_failed e \<and> (\<exists>seq ts. replays js j base (journal_applied seq ts entry l, d'))))"
proof -
  obtain ts d1 where time: "entry_timestamp entry d = (Done ts, d1)" and d1: "d1 = d \<or> d1 = ticked d"
    using entry_timestamp_step by (metis prod.collapse)
  obtain ld where at: "loads_at js j ld d1" and ld: "settled ld = base" "ld_header_seen ld" "ld_execution_state ld = jl_state l" "writer_ok l"
    using here d1 by (auto simp: replays_def)
  have kept: "replays js j base (l, d1)" using here d1 by auto
  show ?thesis
  proof (cases "\<exists>record. journal_record js (ej_thread_id j) (jw_messages (jl_writer l)) ts entry = Inr record
      \<and> (jw_turn_id (jl_writer l) = None \<or> jw_turn_id (jl_writer l) = Some (execution_entry_turn_id entry) \<or> is_checkpoint_entry entry)
      \<and> turn_id_str (execution_entry_turn_id entry) \<noteq> []")
    case False
    then have "(\<exists>e. r = Raised e) \<and> l' = l \<and> d' = d1"
      using run time by (auto simp: journal_append_def act_simps on_file_def split: sum.splits if_splits option.splits)
    then show ?thesis using kept by auto
  next
    case True
    then obtain v where rec: "journal_record js (ej_thread_id j) (jw_messages (jl_writer l)) ts entry = Inr v"
      and ok: "jw_turn_id (jl_writer l) = None \<or> jw_turn_id (jl_writer l) = Some (execution_entry_turn_id entry) \<or> is_checkpoint_entry entry"
      and ne: "turn_id_str (execution_entry_turn_id entry) \<noteq> []" by blast
    let ?rec = "sj_set js v ''session_id'' (va_str (sj_values js) (ej_session_id j))"
    let ?n = "ld_expected_seq ld"
    obtain r2 d2 where app: "append_execution_record js (ej_path j) ?rec d1 = (r2, d2)" by fastforce
    have go: "r = (case r2 of Done seq \<Rightarrow> Done seq | Raised e \<Rightarrow> Raised e | Out_of_fuel \<Rightarrow> Out_of_fuel)" "d' = d2"
      "l' = (case r2 of Done seq \<Rightarrow> journal_applied seq ts entry l | _ \<Rightarrow> l)"
      using run time rec ok ne app
      by (auto simp: journal_append_def act_simps on_file_def split: outcome.splits option.splits if_splits)
    let ?ld = "ld\<lparr>ld_expected_seq := sat_add ?n 1\<rparr>"
    obtain kind where k: "u64_field js (record_stamped js v (ej_session_id j) ?n) ''timestamp_ms'' = Some ts"
      "str_field js (record_stamped js v (ej_session_id j) ?n) ''kind'' = Some kind"
      "load_kind js (ej_session_id j) ?n ts kind (record_stamped js v (ej_session_id j) ?n) ?ld
        = Inr (?ld\<lparr>ld_execution_state := apply_execution_journal_entry ?n ts entry (jl_state l)\<rparr>)"
      using journal_record_loads [OF laws rec ok grounded ld(4), of ?ld] ld by fastforce
    have st: "apply_execution_journal_entry ?n ts entry (jl_state l) = jl_state (journal_applied ?n ts entry l)" by (simp add: journal_applied_def)
    have read: "replays js j base (journal_applied ?n ts entry l, d2)"
      if "loads_at js j ld' d2" "settled ld' = settled ld" "ld_header_seen ld'"
        "ld_execution_state ld' = apply_execution_journal_entry ?n ts entry (jl_state l)" for ld'
      using that ld writer_ok_journaled [OF ld(4)] by (simp add: replays_def st) (rule exI [of _ ld'], simp)
    from append_loads [OF laws at k [unfolded record_stamped_def] app] show ?thesis
    proof (elim disjE exE conjE, goal_cases)
      case (1 e)
      then show ?thesis using go ld by (auto simp: replays_def)
    next
      case (2 ld')
      then show ?thesis using go read by auto
    next
      case (3 ld' e)
      then show ?thesis using go read by auto
    qed
  qed
qed

text \<open>An operation that raises an error without a rollback error has changed nothing.\<close>

definition undone :: "'v session_json \<Rightarrow> execution_journal \<Rightarrow> 'v loading \<Rightarrow> 'v journal_live \<Rightarrow> disk \<Rightarrow> ('v session_execution_state option \<Rightarrow> bool)
    \<Rightarrow> string \<Rightarrow> bool" where
  "undone js j base l d' next e \<longleftrightarrow> replays js j base (l, d') \<or> rollback_failed e
     \<and> (\<exists>ld. loads_at js j ld d' \<and> settled ld = base \<and> ld_header_seen ld \<and> next (ld_execution_state ld))"

lemma question_outcome:
  assumes laws: "session_laws js" and here: "replays js j base (l, d)"
    and run: "persist_user_question js j q (l, d) = (r, (l', d'))"
  shows "(\<exists>n. r = Done n) \<and> replays js j base (l', d') \<and> jl_writer l' = jl_writer l \<or> (\<exists>e. r = Raised e \<and> l' = l \<and> undone js j base l d' (\<lambda>st. \<exists>ts. st = apply_user_question ts q (jl_state l)) e)"
proof (cases "thread_id_str (uqi_thread_id q) = ej_thread_id j \<and> jw_turn_id (jl_writer l) = Some (uqi_turn_id q)")
  case False
  then show ?thesis using run here by (auto simp: persist_user_question_def act_simps undone_def split: if_splits)
next
  case True
  let ?ts = "dk_clock d (dk_tick d)" and ?d = "ticked d"
  obtain ld where at: "loads_at js j ld ?d" and ld: "settled ld = base" "ld_header_seen ld" "ld_execution_state ld = jl_state l" "writer_ok l"
    using here by (auto simp: replays_def)
  let ?n = "ld_expected_seq ld" and ?st = "apply_user_question (dk_clock d (dk_tick d)) q (jl_state l)"
  obtain r2 d2 where app: "append_execution_record js (ej_path j) (question_record js j ?ts q) ?d = (r2, d2)" by fastforce
  have go: "d' = d2" "r = r2 \<or> r2 = Out_of_fuel" "l' = (case r2 of Done seq \<Rightarrow> l\<lparr>jl_state := ?st\<rparr> | _ \<Rightarrow> l)"
    using run True app by (auto simp: persist_user_question_def act_simps on_file_def fs_now_ms_def split: outcome.splits)
  have hdr: "ld_header_seen (ld\<lparr>ld_expected_seq := sat_add ?n 1\<rparr>)" using ld(2) by simp
  note rec = load_question_record [OF laws hdr conjunct1 [OF True]]
  have "ld\<lparr>ld_expected_seq := sat_add ?n 1, ld_execution_state := apply_user_question ?ts q (ld_execution_state ld)\<rparr>
      = ld\<lparr>ld_expected_seq := sat_add ?n 1, ld_execution_state := ?st\<rparr>" using ld(3) by simp
  from append_loads [OF laws at rec(3,2) _ app, of ?st] rec(4)
  have out: "(\<exists>e. r2 = Raised e) \<and> loads_at js j ld d2 \<or> (r2 = Done ?n \<or> (\<exists>e. r2 = Raised e \<and> rollback_failed e))
    \<and> (\<exists>ld'. loads_at js j ld' d2 \<and> settled ld' = settled ld \<and> ld_header_seen ld' \<and> ld_execution_state ld' = ?st)"
    using ld(3) by simp
  have ok: "writer_ok (l\<lparr>jl_state := ?st\<rparr>)"
    using ld(4) by (auto simp: writer_ok_def fresh_writer_def apply_user_question_def on_turn_def ses_turn_id_def split: option.splits)
  from out show ?thesis
  proof (elim disjE exE conjE, goal_cases)
    case (1 e)
    then show ?thesis using go ld by (auto simp: replays_def undone_def)
  next
    case (2 ld')
    then have "replays js j base (l\<lparr>jl_state := ?st\<rparr>, d2)" using ld ok unfolding replays_def by (intro exI [of _ ld']) simp
    then show ?thesis using go 2 by auto
  next
    case (3 ld' e)
    then show ?thesis using go ld by (auto simp: undone_def)
  qed
qed

lemma writer_ok_same:
  assumes "writer_ok l" and "\<And>s. jl_state l = Some s \<Longrightarrow> \<exists>s'. st = Some s' \<and> ses_checkpoint s' = ses_checkpoint s \<and> ses_checkpoint_seq s' = ses_checkpoint_seq s"
    and "jl_state l = None \<Longrightarrow> st = None"
  shows "writer_ok (l\<lparr>jl_state := st\<rparr>)"
proof (cases "jl_state l")
  case None
  then show ?thesis using assms by (simp add: writer_ok_def)
next
  case (Some s)
  then obtain s' where "st = Some s'" "ses_checkpoint s' = ses_checkpoint s" "ses_checkpoint_seq s' = ses_checkpoint_seq s"
    using assms(2) by blast
  then show ?thesis using assms(1) Some by (simp add: writer_ok_def fresh_writer_def ses_turn_id_def)
qed

text \<open>What a reconciliation has checked before it writes.\<close>

definition reconciles :: "session_reconciliation_request \<Rightarrow> 'v session_execution_state \<Rightarrow> bool" where
  "reconciles q s \<longleftrightarrow> ses_reconciliation_requests s (srr_request_id q) = None \<and> srr_turn_id q = ses_turn_id s
     \<and> srr_checkpoint_seq q = ses_checkpoint_seq s \<and> ses_status s = Exec_NeedsReconciliation
     \<and> awaits_reconciliation (srr_tool_call_id q) s \<and> outcome_fits q"

lemma reconcile_cases:
  assumes "reconcile_tool_call js j q (l, d) = (r, (l', d'))"
  obtains (refused) e where "r = Raised e" "l' = l" "d' = d"
  | (again) s where "r = Done Reconciliation_AlreadyApplied" "l' = l" "d' = d" "jl_state l = Some s"
      "ses_reconciliation_requests s (srr_request_id q) = Some q"
  | (unencoded) e where "r = Raised e" "l' = l" "d' = ticked d"
  | (written) s v r2 where "jl_state l = Some s" "reconciles q s" "sj_reconciliation js q = Inr v"
      "append_execution_record js (ej_path j) (reconciliation_record js j (dk_clock d (dk_tick d)) v) (ticked d) = (r2, d')"
      "l' = (case r2 of Done _ \<Rightarrow> l\<lparr>jl_state := apply_execution_reconciliation (dk_clock d (dk_tick d)) q (jl_state l)\<rparr> | _ \<Rightarrow> l)"
      "r = (case r2 of Done _ \<Rightarrow> Done Reconciliation_Applied | Raised e \<Rightarrow> Raised e | Out_of_fuel \<Rightarrow> Out_of_fuel)"
proof (cases "jl_state l")
  case None
  then show ?thesis using assms refused by (auto simp: reconcile_tool_call_def act_simps split: if_splits)
next
  case (Some s)
  show ?thesis
  proof (cases "reconciles q s \<and> trim (srr_request_id q) \<noteq> [] \<and> length (srr_request_id q) \<le> 128 \<and> trim (srr_tool_call_id q) \<noteq> []
      \<and> length (srr_tool_call_id q) \<le> 128 \<and> trim (srr_evidence_summary q) \<noteq> [] \<and> length (srr_evidence_summary q) \<le> 1024")
    case False
    then show ?thesis using assms Some refused again
      by (auto simp: reconcile_tool_call_def reconciles_def act_simps split: if_splits option.splits)
  next
    case True
    then have run: "reconcile_tool_call js j q (l, d) = (case sj_reconciliation js q of
          Inl e \<Rightarrow> (Raised (''cannot encode reconciliation record: '' @ e), (l, ticked d))
        | Inr v \<Rightarrow> (case append_execution_record js (ej_path j) (reconciliation_record js j (dk_clock d (dk_tick d)) v) (ticked d) of
            (Done n, d2) \<Rightarrow> (Done Reconciliation_Applied, (l\<lparr>jl_state := apply_execution_reconciliation (dk_clock d (dk_tick d)) q (jl_state l)\<rparr>, d2))
          | (Raised e, d2) \<Rightarrow> (Raised e, (l, d2)) | (Out_of_fuel, d2) \<Rightarrow> (Out_of_fuel, (l, d2))))"
      using Some by (auto simp: reconcile_tool_call_def reconciles_def act_simps on_file_def fs_now_ms_def split: sum.split prod.split outcome.split)
    show ?thesis
    proof (cases "sj_reconciliation js q")
      case (Inl e)
      then show ?thesis using run assms unencoded by simp
    next
      case (Inr v)
      obtain r2 d2 where app: "append_execution_record js (ej_path j) (reconciliation_record js j (dk_clock d (dk_tick d)) v) (ticked d) = (r2, d2)"
        by fastforce
      then have "d2 = d'" using run assms Inr by (auto split: outcome.splits)
      with app run assms Inr show ?thesis by (intro written [OF Some _ Inr]) (use True in \<open>auto split: outcome.splits\<close>)
    qed
  qed
qed

lemma reconcile_outcome:
  assumes laws: "session_laws js" and here: "replays js j base (l, d)" and th: "settled_messages (ej_thread_id j) base \<noteq> None"
    and run: "reconcile_tool_call js j q (l, d) = (r, (l', d'))"
  shows "(\<exists>n. r = Done n) \<and> replays js j base (l', d') \<and> jl_writer l' = jl_writer l
    \<or> (\<exists>e. r = Raised e \<and> l' = l \<and> undone js j base l d' (\<lambda>st. \<exists>ts. st = apply_execution_reconciliation ts q (jl_state l)) e)"
  using run
proof (cases rule: reconcile_cases)
  case (written s v r2)
  let ?ts = "dk_clock d (dk_tick d)" and ?d = "ticked d"
  obtain ld where at: "loads_at js j ld ?d" and ld: "settled ld = base" "ld_header_seen ld" "ld_execution_state ld = jl_state l" "writer_ok l"
    using here by (auto simp: replays_def)
  let ?n = "ld_expected_seq ld" and ?st = "apply_execution_reconciliation (dk_clock d (dk_tick d)) q (jl_state l)"
  obtain m ms where latest: "ld_latest_checkpoint ld = Some (m, ej_thread_id j, ms)"
    using th ld(1) by (auto simp: settled_messages_def settled_def split: option.splits if_splits)
  have hdr: "ld_header_seen (ld\<lparr>ld_expected_seq := sat_add ?n 1\<rparr>)"
    "ld_latest_checkpoint (ld\<lparr>ld_expected_seq := sat_add ?n 1\<rparr>) = Some (m, ej_thread_id j, ms)"
    "ld_execution_state (ld\<lparr>ld_expected_seq := sat_add ?n 1\<rparr>) = Some s" using ld latest written by simp_all
  note rec = load_reconciliation_record [OF laws hdr(1) written(3) hdr(2,3)]
  have match: "ses_turn_id s = srr_turn_id q" "ses_checkpoint_seq s = srr_checkpoint_seq q" using written(2) by (simp_all add: reconciles_def)
  from append_loads [OF laws at rec(3,2) [OF match] _ written(4), of ?st] rec(4) [OF match]
  have out: "(\<exists>e. r2 = Raised e) \<and> loads_at js j ld d' \<or> (r2 = Done ?n \<or> (\<exists>e. r2 = Raised e \<and> rollback_failed e))
    \<and> (\<exists>ld'. loads_at js j ld' d' \<and> settled ld' = settled ld \<and> ld_header_seen ld' \<and> ld_execution_state ld' = ?st)"
    using ld(3) written(1) by simp
  have ok: "writer_ok (l\<lparr>jl_state := ?st\<rparr>)"
    by (rule writer_ok_same [OF ld(4)]) (auto simp: apply_execution_reconciliation_def reconciled_state_def Let_def)
  from out show ?thesis
  proof (elim disjE exE conjE, goal_cases)
    case (1 e)
    then show ?thesis using written(5,6) ld by (auto simp: replays_def undone_def)
  next
    case (2 ld')
    then have "replays js j base (l\<lparr>jl_state := ?st\<rparr>, d')" using ld ok unfolding replays_def by (intro exI [of _ ld']) simp
    then show ?thesis using written(5,6) 2 by auto
  next
    case (3 ld' e)
    then show ?thesis using written(5,6) ld by (auto simp: undone_def)
  qed
qed (use here in \<open>auto simp: undone_def\<close>)

subsection \<open>Calls of the journal\<close>

datatype 'v journal_call =
    Call_Append "'v execution_journal_entry"
  | Call_Steer turn_id string string
  | Call_Unapplied turn_id string
  | Call_Reconcile session_reconciliation_request
  | Call_Question user_question_interaction

definition quietly :: "('s, 'e, 'a) act \<Rightarrow> ('s, 'e, unit) act" where
  "quietly m = bindA m (\<lambda>_. retA ())"

fun journal_perform :: "'v session_json \<Rightarrow> execution_journal \<Rightarrow> 'v journal_call \<Rightarrow> ('v, unit) journal_act" where
  "journal_perform js j (Call_Append entry) = quietly (journal_append js j entry)"
| "journal_perform js j (Call_Steer turn i t) = quietly (accept_steer_request js j turn i t)"
| "journal_perform js j (Call_Unapplied turn reason) = quietly (mark_pending_steers_unapplied js j turn reason)"
| "journal_perform js j (Call_Reconcile q) = quietly (reconcile_tool_call js j q)"
| "journal_perform js j (Call_Question q) = quietly (persist_user_question js j q)"

definition call_grounded :: "execution_journal \<Rightarrow> 'v loading \<Rightarrow> 'v journal_live \<Rightarrow> 'v journal_call \<Rightarrow> bool" where
  "call_grounded j base l call = (case call of Call_Append entry \<Rightarrow> grounded j base l entry | _ \<Rightarrow> True)"

text \<open>The record a call appends, as the reducer sees it.\<close>

fun call_effect :: "'v journal_call \<Rightarrow> string \<Rightarrow> nat \<Rightarrow> nat \<Rightarrow> 'v session_execution_state option \<Rightarrow> 'v session_execution_state option" where
  "call_effect (Call_Append entry) i seq ts = apply_execution_journal_entry seq ts entry"
| "call_effect (Call_Steer turn i' t) i seq ts = apply_execution_journal_entry seq ts (J_SteerAccepted turn i' t)"
| "call_effect (Call_Unapplied turn reason) i seq ts = apply_execution_journal_entry seq ts (J_SteerUnapplied turn i reason)"
| "call_effect (Call_Reconcile q) i seq ts = apply_execution_reconciliation ts q"
| "call_effect (Call_Question q) i seq ts = apply_user_question ts q"

definition file_agrees :: "'v session_json \<Rightarrow> execution_journal \<Rightarrow> 'v loading \<Rightarrow> 'v session_execution_state option \<Rightarrow> disk \<Rightarrow> bool" where
  "file_agrees js j base st d \<longleftrightarrow> (\<exists>ld. loads_at js j ld d \<and> settled ld = base \<and> ld_header_seen ld \<and> ld_execution_state ld = st)"

lemma replays_file: "replays js j base (l, d) \<longleftrightarrow> file_agrees js j base (jl_state l) d \<and> writer_ok l"
  by (auto simp: replays_def file_agrees_def)

definition call_outcome :: "'v session_json \<Rightarrow> execution_journal \<Rightarrow> 'v loading \<Rightarrow> 'v journal_call \<Rightarrow> (string, unit) outcome
    \<Rightarrow> 'v journal_live \<times> disk \<Rightarrow> bool" where
  "call_outcome js j base call r x \<longleftrightarrow> (r = Done () \<or> (\<exists>e. r = Raised e)) \<and> (replays js j base x
     \<or> (\<exists>e i seq ts. r = Raised e \<and> rollback_failed e \<and> writer_ok (fst x)
       \<and> file_agrees js j base (call_effect call i seq ts (jl_state (fst x))) (snd x)))"

lemma append_call:
  assumes "session_laws js" and "replays js j base (l, d)" and "grounded j base l entry"
    and "journal_append js j entry (l, d) = (r, (l', d'))"
  shows "((\<exists>n. r = Done n) \<or> (\<exists>e. r = Raised e)) \<and> (replays js j base (l', d')
     \<or> (\<exists>e seq ts. r = Raised e \<and> rollback_failed e \<and> writer_ok l'
       \<and> file_agrees js j base (apply_execution_journal_entry seq ts entry (jl_state l')) d'))"
    and "\<not> (\<exists>n. r = Done n) \<Longrightarrow> l' = l"
  using journal_append_outcome [OF assms] assms(2)
  by (auto simp: replays_file journal_applied_def)

lemma accept_steer_request_step:
  assumes "accept_steer_request js j turn i t (l, d) = (r, x)"
  shows "x = (l, d) \<and> (\<exists>y. r = Done y \<or> (\<exists>e. r = Raised e))
    \<or> (\<exists>r2. journal_append js j (J_SteerAccepted turn i t) (l, d) = (r2, x)
        \<and> r = (case r2 of Done _ \<Rightarrow> Done (Steer_Reserved (accepted_steer turn i t)) | Raised e \<Rightarrow> Raised e | Out_of_fuel \<Rightarrow> Out_of_fuel))"
  using assms
  by (auto simp: accept_steer_request_def act_simps split: if_splits option.splits prod.splits outcome.splits)

lemma unapplied_loop:
  assumes laws: "session_laws js"
  shows "replays js j base (l, d) \<Longrightarrow>
    forA (\<lambda>q. bindA (journal_append js j (J_SteerUnapplied turn (ssr_request_id q) reason)) (\<lambda>_. retA ())) qs (l, d) = (r, x)
    \<Longrightarrow> call_outcome js j base (Call_Unapplied turn reason) r x"
proof (induction qs arbitrary: l d)
  case Nil
  then show ?case by (auto simp: act_simps call_outcome_def)
next
  case (Cons q qs)
  obtain r1 l1 d1 where one: "journal_append js j (J_SteerUnapplied turn (ssr_request_id q) reason) (l, d) = (r1, (l1, d1))"
    by (metis prod.collapse)
  have g: "grounded j base l (J_SteerUnapplied turn (ssr_request_id q) reason)" by (simp add: grounded_def)
  note out = append_call [OF laws Cons.prems(1) g one]
  show ?case
  proof (cases r1)
    case (Done n)
    then have "replays js j base (l1, d1)" using out(1) by auto
    then show ?thesis using Cons.IH Cons.prems(2) one Done by (auto simp: act_simps)
  next
    case (Raised e)
    then have x: "r = Raised e" "x = (l1, d1)" using Cons.prems(2) one by (auto simp: act_simps)
    show ?thesis using out(1) Raised unfolding x call_outcome_def
      by (auto intro: exI [of _ "ssr_request_id q"])
  qed (use out in auto)
qed

lemma perform_outcome:
  assumes laws: "session_laws js" and here: "replays js j base (l, d)" and th: "settled_messages (ej_thread_id j) base \<noteq> None"
    and ok: "call_grounded j base l call" and run: "journal_perform js j call (l, d) = (r, x)"
  shows "call_outcome js j base call r x"
proof (cases call)
  case (Call_Append entry)
  obtain r1 l1 d1 where one: "journal_append js j entry (l, d) = (r1, (l1, d1))" by (metis prod.collapse)
  have g: "grounded j base l entry" using ok Call_Append by (simp add: call_grounded_def)
  show ?thesis using append_call(1) [OF laws here g one] run one Call_Append
    by (cases r1) (auto simp: quietly_def act_simps call_outcome_def)
next
  case (Call_Steer turn i t)
  obtain r1 x1 where one: "accept_steer_request js j turn i t (l, d) = (r1, x1)" by (metis prod.collapse)
  have x: "x = x1" "r = (case r1 of Done _ \<Rightarrow> Done () | Raised e \<Rightarrow> Raised e | Out_of_fuel \<Rightarrow> Out_of_fuel)"
    using run one Call_Steer by (auto simp: quietly_def act_simps split: outcome.splits)
  have g: "grounded j base l (J_SteerAccepted turn i t)" by (simp add: grounded_def)
  from accept_steer_request_step [OF one] show ?thesis
  proof (elim disjE exE conjE, goal_cases)
    case (3 r2)
    obtain l1 d1 where x1: "x1 = (l1, d1)" by fastforce
    show ?thesis using append_call(1) [OF laws here g 3(1) [unfolded x1]] 3 x Call_Steer unfolding x1
      by (cases r2) (auto simp: call_outcome_def)
  qed (use x here in \<open>auto simp: call_outcome_def\<close>)
next
  case (Call_Unapplied turn reason)
  let ?loop = "forA (\<lambda>q. bindA (journal_append js j (J_SteerUnapplied turn (ssr_request_id q) reason)) (\<lambda>_. retA ()))
    (pending_steers turn (jl_state l))"
  obtain r1 x1 where one: "?loop (l, d) = (r1, x1)" by (metis prod.collapse)
  then have "x = x1" "r = r1" using run Call_Unapplied
    by (auto simp: quietly_def mark_pending_steers_unapplied_def act_simps split: outcome.splits)
  then show ?thesis using unapplied_loop [OF laws here one] Call_Unapplied by simp
next
  case (Call_Reconcile q)
  obtain r1 l1 d1 where one: "reconcile_tool_call js j q (l, d) = (r1, (l1, d1))" by (metis prod.collapse)
  have x: "x = (l1, d1)" "r = (case r1 of Done _ \<Rightarrow> Done () | Raised e \<Rightarrow> Raised e | Out_of_fuel \<Rightarrow> Out_of_fuel)"
    using run one Call_Reconcile by (auto simp: quietly_def act_simps split: outcome.splits)
  show ?thesis using reconcile_outcome [OF laws here th one] here x Call_Reconcile
    by (auto simp: call_outcome_def undone_def replays_file file_agrees_def)
next
  case (Call_Question q)
  obtain r1 l1 d1 where one: "persist_user_question js j q (l, d) = (r1, (l1, d1))" by (metis prod.collapse)
  have x: "x = (l1, d1)" "r = (case r1 of Done _ \<Rightarrow> Done () | Raised e \<Rightarrow> Raised e | Out_of_fuel \<Rightarrow> Out_of_fuel)"
    using run one Call_Question by (auto simp: quietly_def act_simps split: outcome.splits)
  show ?thesis using question_outcome [OF laws here one] here x Call_Question
    by (auto simp: call_outcome_def undone_def replays_file file_agrees_def)
qed

text \<open>One call after another, by whoever holds the journal, as long as no rollback fails.\<close>

inductive journal_step :: "'v session_json \<Rightarrow> execution_journal \<Rightarrow> 'v loading \<Rightarrow> 'v journal_live \<times> disk \<Rightarrow> 'v journal_live \<times> disk \<Rightarrow> bool"
  for js j base where
  "journal_perform js j call x = (r, y) \<Longrightarrow> call_grounded j base (fst x) call
    \<Longrightarrow> (\<And>e. r = Raised e \<Longrightarrow> \<not> rollback_failed e) \<Longrightarrow> journal_step js j base x y"

lemma journal_step_replays:
  assumes "journal_step js j base x y" and "session_laws js" and "settled_messages (ej_thread_id j) base \<noteq> None" and "replays js j base x"
  shows "replays js j base y"
  using assms(1)
proof cases
  case (1 call r)
  have "replays js j base (fst x, snd x)" using assms(4) by simp
  from perform_outcome [OF assms(2) this assms(3) 1(2)] 1(1) have "call_outcome js j base call r y" by simp
  then show ?thesis using 1(3) by (auto simp: call_outcome_def)
qed

lemma journal_steps_replay:
  assumes "(journal_step js j base)\<^sup>*\<^sup>* x y" and "session_laws js" and "settled_messages (ej_thread_id j) base \<noteq> None" and "replays js j base x"
  shows "replays js j base y"
  using assms by (induction rule: rtranclp_induct) (auto intro: journal_step_replays)

lemma file_agrees_loads:
  assumes "file_agrees js j base st d" and "settled_messages (ej_thread_id j) base = Some ms"
  shows "\<exists>bytes lr. file_at d (ej_path j) = Some bytes \<and> load_records js (ej_session_id j) bytes = Inr lr
    \<and> lr_execution_state lr = st \<and> lr_messages lr = ms \<and> lr_thread_id lr = ej_thread_id j \<and> lr_items lr = ld_items base
    \<and> lr_turn_count lr = ld_turn_count base"
proof -
  obtain ld bytes where ld: "holds_at (ej_path j) bytes d" "load_all_records js (ej_session_id j) (complete_lines bytes) loading_start = Inr ld"
    "settled ld = base" "ld_execution_state ld = st"
    using assms(1) by (auto simp: file_agrees_def loads_at_def)
  obtain m where "ld_latest_checkpoint ld = Some (m, ej_thread_id j, ms)"
    using assms(2) ld(3) by (auto simp: settled_messages_def settled_def split: option.splits if_splits)
  then show ?thesis using ld by (auto simp: load_records_def finish_loading_def holds_at_def settled_def)
qed

text \<open>
  C19. While no rollback fails and no checkpoint is ungrounded, the journal is a faithful log of the
  execution state.  Given a file that replays to the state in memory and holds a settled checkpoint
  of the thread, any sequence of journal calls (entries, steer requests, unapplied steers, operator
  decisions, questions), each of which may succeed or fail under any faults of the disk, leaves a
  file from which the session loads with exactly the execution state in memory, and with the
  conversation, items and turn count that were settled before.  A checkpoint is grounded when it goes
  on with the turn last written, does not extend the messages last written, or these are the settled
  ones.  The three cases left out do occur: a thread without a settled checkpoint
  (\<open>new_thread_checkpoint_breaks_session\<close>: its file does not load any more), a checkpoint of a later
  turn that extends messages which were never settled (\<open>later_turn_recovers_reply_twice\<close>: they are
  recovered twice), and a failed rollback, after which the file may hold a record that memory does not.
\<close>

theorem journal_replays_to_memory:
  assumes "session_laws js" and "(journal_step js j base)\<^sup>*\<^sup>* x (l, d)" and "replays js j base x"
    and "settled_messages (ej_thread_id j) base = Some ms"
  shows "\<exists>bytes lr. file_at d (ej_path j) = Some bytes \<and> load_records js (ej_session_id j) bytes = Inr lr
    \<and> lr_execution_state lr = jl_state l \<and> lr_messages lr = ms \<and> lr_thread_id lr = ej_thread_id j \<and> lr_items lr = ld_items base
    \<and> lr_turn_count lr = ld_turn_count base"
  using journal_steps_replay [OF assms(2,1) _ assms(3)] assms(4) file_agrees_loads [OF _ assms(4)]
  by (simp add: replays_file)

text \<open>
  C21. A failed append, steer request, operator decision or question is not seen.  Given a file that
  replays to the state in memory and holds a settled checkpoint of the thread, when one of these four
  calls fails (an appended checkpoint being grounded), the state in memory is the old one, and the
  session loads from the file, with the settled conversation, either to that state or, only if the
  error reports a failed rollback, to the state with the call's one record applied: never to anything
  else, and never with an error.  The bytes of the file may differ.  Marking the pending steers of a
  turn unapplied is several appends; it is left out, since it can fail after some of them.
\<close>

theorem failed_journal_call_not_seen:
  assumes "session_laws js" and "replays js j base (l, d)" and "settled_messages (ej_thread_id j) base = Some ms"
    and "call_grounded j base l call" and "\<forall>turn reason. call \<noteq> Call_Unapplied turn reason"
    and "journal_perform js j call (l, d) = (Raised e, (l', d'))"
  shows "l' = l \<and> (\<exists>bytes lr. file_at d' (ej_path j) = Some bytes \<and> load_records js (ej_session_id j) bytes = Inr lr
    \<and> lr_messages lr = ms \<and> (lr_execution_state lr = jl_state l
      \<or> rollback_failed e \<and> (\<exists>i seq ts. lr_execution_state lr = call_effect call i seq ts (jl_state l))))"
proof -
  have same: "l' = l"
  proof (cases call)
    case (Call_Append entry)
    then have "journal_append js j entry (l, d) = (Raised e, (l', d'))"
      using assms(6) by (auto simp: quietly_def act_simps split: prod.splits outcome.splits)
    then show ?thesis using append_call(2) [OF assms(1,2)] assms(4) Call_Append by (simp add: call_grounded_def)
  next
    case (Call_Steer turn i t)
    then have "accept_steer_request js j turn i t (l, d) = (Raised e, (l', d'))"
      using assms(6) by (auto simp: quietly_def act_simps split: prod.splits outcome.splits)
    from accept_steer_request_step [OF this] show ?thesis
    proof (elim disjE exE conjE, goal_cases)
      case (3 r2)
      then have "\<not> (\<exists>n. r2 = Done n)" by auto
      then show ?case using append_call(2) [OF assms(1,2) _ 3(1)] by (simp add: grounded_def)
    qed simp_all
  next
    case (Call_Unapplied turn reason)
    then show ?thesis using assms(5) by simp
  next
    case (Call_Reconcile q)
    then have "reconcile_tool_call js j q (l, d) = (Raised e, (l', d'))"
      using assms(6) by (auto simp: quietly_def act_simps split: prod.splits outcome.splits)
    from reconcile_outcome [OF assms(1,2) _ this] assms(3) show ?thesis by simp
  next
    case (Call_Question q)
    then have "persist_user_question js j q (l, d) = (Raised e, (l', d'))"
      using assms(6) by (auto simp: quietly_def act_simps split: prod.splits outcome.splits)
    from question_outcome [OF assms(1,2) this] show ?thesis by simp
  qed
  have "call_outcome js j base call (Raised e) (l', d')"
    using perform_outcome [OF assms(1,2) _ assms(4,6)] assms(3) by simp
  then obtain st where st: "file_agrees js j base st d'"
    "st = jl_state l \<or> rollback_failed e \<and> (\<exists>i seq ts. st = call_effect call i seq ts (jl_state l))"
    using same by (auto simp: call_outcome_def replays_file)
  from file_agrees_loads [OF st(1) assms(3)] st(2) same show ?thesis by blast
qed

subsection \<open>Checkpoints that are not grounded\<close>

text \<open>What the file says after a checkpoint the journal has accepted, grounded or not.\<close>

lemma checkpoint_append_loads:
  assumes laws: "session_laws js" and at: "loads_at js j ld d" and hdr: "ld_header_seen ld"
    and run: "journal_append js j (J_Checkpoint cp) (l, d) = (Done seq, (l', d'))"
  shows "\<exists>ts bytes n. jl_state l' = Some (apply_checkpoint seq ts cp (jl_state l)) \<and> holds_at (ej_path j) bytes d'
    \<and> load_all_records js (ej_session_id j) (complete_lines bytes) loading_start
      = (case replayed_messages (ej_thread_id j) (jw_messages (jl_writer l)) cp ld of
           None \<Rightarrow> Inl (invalid_record ''execution checkpoint append has no conversation base'' None)
         | Some ms \<Rightarrow> Inr (ld\<lparr>ld_expected_seq := sat_add (ld_expected_seq ld) 1,
             ld_execution_state := Some (apply_checkpoint seq ts (cp\<lparr>ecp_messages := ms\<rparr>) (ld_execution_state ld)), ld_offset := n\<rparr>))"
proof -
  let ?ts = "dk_clock d (dk_tick d)" and ?n = "ld_expected_seq ld"
  let ?v = "record_stamped js (checkpoint_record js (ej_thread_id j) (jw_messages (jl_writer l)) (dk_clock d (dk_tick d)) cp) (ej_session_id j) (ld_expected_seq ld)"
  obtain bytes where b: "holds_at (ej_path j) bytes (ticked d)"
    "load_all_records js (ej_session_id j) (complete_lines bytes) loading_start = Inr ld"
    using at by (auto simp: loads_at_def)
  have app: "append_execution_record js (ej_path j) (sj_set js (checkpoint_record js (ej_thread_id j) (jw_messages (jl_writer l)) ?ts cp)
      ''session_id'' (va_str (sj_values js) (ej_session_id j))) (ticked d) = (Done seq, d')"
    "l' = journal_applied seq ?ts (J_Checkpoint cp) l"
    using run by (auto simp: journal_append_def journal_record_def entry_timestamp_def on_file_def fs_now_ms_def
        is_checkpoint_entry_def act_simps split: if_splits prod.splits outcome.splits option.splits)
  from append_outcome [OF laws b app(1)] obtain line bytes' where new: "seq = ?n" "va_encode (sj_values js) ?v = Inr line"
      "length line \<le> max_record_bytes" "holds_at (ej_path j) bytes' d'" "complete_lines bytes' = complete_lines bytes @ [line]"
    unfolding record_stamped_def by auto
  have hdr': "ld_header_seen (ld\<lparr>ld_expected_seq := sat_add ?n 1\<rparr>)" using hdr by simp
  have rm: "replayed_messages th w cp (ld\<lparr>ld_expected_seq := i\<rparr>) = replayed_messages th w cp ld" for th w i
    by (simp add: replayed_messages_def append_base_def split: option.split)
  have "load_record js (ej_session_id j) line ld = (case replayed_messages (ej_thread_id j) (jw_messages (jl_writer l)) cp ld of
           None \<Rightarrow> Inl (invalid_record ''execution checkpoint append has no conversation base'' None)
         | Some ms \<Rightarrow> Inr (ld\<lparr>ld_expected_seq := sat_add ?n 1,
             ld_execution_state := Some (apply_checkpoint ?n ?ts (cp\<lparr>ecp_messages := ms\<rparr>) (ld_execution_state ld)),
             ld_offset := sat_add (ld_offset ld) (length line + 1)\<rparr>))"
    using load_checkpoint_record [OF laws hdr'] encoded_line(1) [OF laws new(2)] new(3) record_stamped_fields(1) [OF laws]
    by (simp add: load_record_def rm split: option.split)
  then have "load_all_records js (ej_session_id j) (complete_lines bytes') loading_start
      = (case replayed_messages (ej_thread_id j) (jw_messages (jl_writer l)) cp ld of
           None \<Rightarrow> Inl (invalid_record ''execution checkpoint append has no conversation base'' None)
         | Some ms \<Rightarrow> Inr (ld\<lparr>ld_expected_seq := sat_add ?n 1,
             ld_execution_state := Some (apply_checkpoint ?n ?ts (cp\<lparr>ecp_messages := ms\<rparr>) (ld_execution_state ld)),
             ld_offset := sat_add (ld_offset ld) (length line + 1)\<rparr>))"
    using b(2) by (simp add: new(5) load_all_append split: option.split)
  then show ?thesis using new(1,4) app(2) by (auto simp: journal_applied_def)
qed

text \<open>
  The first checkpoint of a later turn in the same process: the journal extends the messages of
  the previous turn's last execution checkpoint, the reader those of the settled checkpoint, which
  already hold the previous reply.  The recovered turn starts from the reply said twice.
\<close>

lemma later_turn_recovers_reply_twice:
  assumes "session_laws js" and "replays js j base (l, d)" and "jl_state l = Some s" and "ecp_turn_id cp \<noteq> ses_turn_id s"
    and "settled_messages (ej_thread_id j) base = Some (ecp_messages (ses_checkpoint s) @ reply)"
    and "ecp_messages cp = ecp_messages (ses_checkpoint s) @ reply @ input"
    and "journal_append js j (J_Checkpoint cp) (l, d) = (Done seq, (l', d'))"
  shows "\<exists>bytes lr s'. file_at d' (ej_path j) = Some bytes \<and> load_records js (ej_session_id j) bytes = Inr lr
    \<and> lr_execution_state lr = Some s' \<and> ecp_messages (ses_checkpoint s') = ecp_messages (ses_checkpoint s) @ reply @ reply @ input
    \<and> map_option (ecp_messages \<circ> ses_checkpoint) (jl_state l') = Some (ecp_messages (ses_checkpoint s) @ reply @ input)"
proof -
  obtain ld where ld: "loads_at js j ld d" "settled ld = base" "ld_header_seen ld" "ld_execution_state ld = Some s" "writer_ok l"
    using assms(2,3) by (auto simp: replays_def)
  have w: "jw_messages (jl_writer l) = ecp_messages (ses_checkpoint s)"
    using ld(5) assms(3) by (metis writer_ok_def fresh_writer_simps(1) journal_writer.select_convs(2))
  have can: "can_append old (old @ new)" for old new :: "'a message list"
    by (induction old) (auto simp: can_append_def)
  have "replayed_messages (ej_thread_id j) (jw_messages (jl_writer l)) cp ld
      = Some (ecp_messages (ses_checkpoint s) @ reply @ reply @ input)"
    using assms(4,5,6) ld(2,4) w can by (auto simp: replayed_messages_def append_base_settled)
  with checkpoint_append_loads [OF assms(1) ld(1,3) assms(7)] obtain ts bytes n where out:
      "jl_state l' = Some (apply_checkpoint seq ts cp (jl_state l))" "holds_at (ej_path j) bytes d'"
      "load_all_records js (ej_session_id j) (complete_lines bytes) loading_start = Inr (ld\<lparr>ld_expected_seq := sat_add (ld_expected_seq ld) 1,
        ld_execution_state := Some (apply_checkpoint seq ts (cp\<lparr>ecp_messages := ecp_messages (ses_checkpoint s) @ reply @ reply @ input\<rparr>)
          (ld_execution_state ld)), ld_offset := n\<rparr>)" by auto
  obtain m where "ld_latest_checkpoint ld = Some (m, ej_thread_id j, ecp_messages (ses_checkpoint s) @ reply)"
    using assms(5) ld(2) by (auto simp: settled_messages_def settled_def split: option.splits if_splits)
  then show ?thesis using out assms(6)
    by (auto simp: load_records_def finish_loading_def holds_at_def apply_checkpoint_def Let_def)
qed

text \<open>
  A session whose thread has no settled checkpoint of its own yet (\<open>start_thread\<close> writes none): the
  first checkpoint of its first turn is accepted, and from then on the session does not load.
\<close>

lemma new_thread_checkpoint_breaks_session:
  assumes "session_laws js" and "loads_at js j ld d" and "ld_header_seen ld"
    and "\<forall>s. ld_execution_state ld = Some s \<longrightarrow> ses_turn_id s \<noteq> ecp_turn_id cp"
    and "settled_messages (ej_thread_id j) ld = None" and "can_append (jw_messages (jl_writer l)) (ecp_messages cp)"
    and "journal_append js j (J_Checkpoint cp) (l, d) = (Done seq, (l', d'))"
  shows "\<exists>bytes. file_at d' (ej_path j) = Some bytes
    \<and> load_records js (ej_session_id j) bytes = Inl (invalid_record ''execution checkpoint append has no conversation base'' None)"
proof -
  have "replayed_messages (ej_thread_id j) (jw_messages (jl_writer l)) cp ld = None"
    using assms(4,5,6) by (simp add: replayed_messages_def append_base_settled split: option.split)
  with checkpoint_append_loads [OF assms(1-3,7)] show ?thesis by (auto simp: load_records_def holds_at_def)
qed

subsection \<open>At concrete inputs\<close>

lemma sample_settled: "settled_messages (ej_thread_id sample_journal) sample_base = Some []"
  by (simp add: settled_messages_def sample_base_def sample_loaded_def sample_journal_def)

lemma sample_replays: "torn_lines (session_disk faults) \<Longrightarrow> replays sample_session sample_journal sample_base (sample_live, session_disk faults)"
  using sample_loads
  by (auto simp: replays_def loads_at_def holds_at_def sample_journal_def settled_def sample_base_def sample_loaded_def loading_start_def
      sample_live_def writer_ok_def fresh_writer_def intro!: exI [of _ sample_loaded] exI [of _ sample_file])

lemma sample_torn: "torn_lines (session_disk steady)" "torn_lines (session_disk torn_write)"
  by (simp_all add: torn_lines_def steady_def torn_write_def newline_byte_def)

lemma sample_grounded: "call_grounded sample_journal sample_base sample_live (Call_Append (J_Checkpoint sample_checkpoint))"
  using sample_settled by (simp add: call_grounded_def grounded_def sample_live_def fresh_writer_simps)

lemma sample_record:
  "journal_record sample_session (ej_thread_id sample_journal) (jw_messages (jl_writer sample_live)) 7 (J_Checkpoint sample_checkpoint)
    = Inr (checkpoint_record sample_session ''t'' [] 7 sample_checkpoint)"
  by (simp add: journal_record_def sample_checkpoint_def sample_journal_def sample_live_def fresh_writer_simps)

lemma sample_append:
  assumes "faults (Suc 0) = None" and "faults (Suc (Suc 0)) = None" and "faults (Suc (Suc (Suc 0))) = None"
  shows "append_execution_record sample_session ''p'' (sj_set sample_session
    (checkpoint_record sample_session ''t'' [] 7 sample_checkpoint) ''session_id'' (va_str (sj_values sample_session) ''s''))
    (ticked (session_disk faults)) =
  (case write_record ''p'' (length sample_file) ''R..'' (ticked (ticked (ticked (ticked (session_disk faults))))) of
     (Done u, d) \<Rightarrow> (Done 3, d) | (Raised e, d) \<Rightarrow> (Raised e, d) | (Out_of_fuel, d) \<Rightarrow> (Out_of_fuel, d))"
proof -
  have size: "length sample_file = 5" by (simp add: sample_file_def newline_byte_def)
  have small: "\<not> max_session_bytes < sat_add (sat_add (length sample_file) (length ''R..'')) 1" "\<not> max_record_bytes < length ''R..''"
    by (simp_all add: size max_session_bytes_def max_record_bytes_def sat_add_def u64_max_def)
  show ?thesis
    using sample_encodings(1) assms small
    by (simp add: append_execution_record_def act_simps fs_calls unless_fault_def tick_def with_file_def sample_lines sample_scan Let_def
        record_stamped_def del: scan_seq.simps split: prod.split outcome.split)
qed

lemma sample_writes:
  "write_record ''p'' (length sample_file) ''R..'' (ticked (ticked (ticked (ticked (session_disk steady)))))
    = (Done (), snd (write_record ''p'' (length sample_file) ''R..'' (ticked (ticked (ticked (ticked (session_disk steady)))))))"
  "write_record ''p'' (length sample_file) ''R..'' (ticked (ticked (ticked (ticked (session_disk torn_write)))))
    = (Raised ''cannot persist execution journal: disk full'',
       snd (write_record ''p'' (length sample_file) ''R..'' (ticked (ticked (ticked (ticked (session_disk torn_write)))))))"
  by (simp_all add: write_record_def act_simps fs_calls writing_def put_file_def unless_fault_def tick_def with_file_def steady_def
      torn_write_def io_error_def)

definition sample_run :: "(nat \<Rightarrow> fault option) \<Rightarrow> (string, unit) outcome \<times> sv journal_live \<times> disk" where
  "sample_run faults = journal_perform sample_session sample_journal (Call_Append (J_Checkpoint sample_checkpoint))
     (sample_live, session_disk faults)"

lemma sample_append_call:
  assumes "faults (Suc 0) = None" and "faults (Suc (Suc 0)) = None" and "faults (Suc (Suc (Suc 0))) = None" and "faults 0 = None"
  shows "journal_append sample_session sample_journal (J_Checkpoint sample_checkpoint) (sample_live, session_disk faults)
    = (case write_record ''p'' (length sample_file) ''R..'' (ticked (ticked (ticked (ticked (session_disk faults))))) of
       (Done u, d) \<Rightarrow> (Done 3, (journal_applied 3 7 (J_Checkpoint sample_checkpoint) sample_live, d))
     | (Raised e, d) \<Rightarrow> (Raised e, (sample_live, d)) | (Out_of_fuel, d) \<Rightarrow> (Out_of_fuel, (sample_live, d)))"
proof -
  have id: "ej_path sample_journal = ''p''" "ej_session_id sample_journal = ''s''" "turn_id_str (TurnId ''t-1'') \<noteq> []"
    "execution_entry_turn_id (J_Checkpoint sample_checkpoint) = TurnId ''t-1''" "jw_turn_id (jl_writer sample_live) = None"
    by (simp_all add: sample_journal_def execution_entry_turn_id_def sample_checkpoint_def sample_live_def fresh_writer_simps)
  show ?thesis
    using sample_append [OF assms(1-3)] sample_record
    by (simp add: journal_append_def entry_timestamp_def act_simps on_file_def fs_now_ms_def id split: prod.split outcome.split)
qed

lemma sample_runs: "\<exists>y. sample_run steady = (Done (), y)"
    "\<exists>l' d'. sample_run torn_write = (Raised ''cannot persist execution journal: disk full'', (l', d'))"
proof -
  show "\<exists>y. sample_run steady = (Done (), y)"
    using sample_append_call [of steady] sample_writes(1)
    by (cases "write_record ''p'' (length sample_file) ''R..'' (ticked (ticked (ticked (ticked (session_disk steady)))))")
      (simp add: sample_run_def quietly_def act_simps steady_def)
  show "\<exists>l' d'. sample_run torn_write = (Raised ''cannot persist execution journal: disk full'', (l', d'))"
    using sample_append_call [of torn_write] sample_writes(2)
    by (cases "write_record ''p'' (length sample_file) ''R..'' (ticked (ticked (ticked (ticked (session_disk torn_write)))))")
      (simp add: sample_run_def quietly_def act_simps torn_write_def)
qed

theorem journal_replays_to_memory_witness:
  "case sample_run steady of (r, (l, d)) \<Rightarrow> r = Done () \<and> (\<exists>bytes lr. file_at d ''p'' = Some bytes
    \<and> load_records sample_session ''s'' bytes = Inr lr \<and> lr_execution_state lr = jl_state l \<and> lr_messages lr = []
    \<and> lr_thread_id lr = ''t'' \<and> lr_items lr = ld_items sample_base \<and> lr_turn_count lr = ld_turn_count sample_base)"
proof -
  obtain l d where run: "sample_run steady = (Done (), (l, d))" using sample_runs(1) by auto
  have "journal_step sample_session sample_journal sample_base (sample_live, session_disk steady) (l, d)"
    using sample_grounded by (intro journal_step.intros [OF run [unfolded sample_run_def]]) simp_all
  then have "(journal_step sample_session sample_journal sample_base)\<^sup>*\<^sup>* (sample_live, session_disk steady) (l, d)" by simp
  from journal_replays_to_memory [OF sample_laws [of sample_table, folded sample_session_def] this
      sample_replays [OF sample_torn(1)] sample_settled]
  show ?thesis by (simp add: run sample_journal_def)
qed

theorem failed_journal_call_not_seen_witness:
  "case sample_run torn_write of (r, (l', d')) \<Rightarrow> (\<exists>e. r = Raised e \<and> l' = sample_live \<and> (\<exists>bytes lr. file_at d' ''p'' = Some bytes
    \<and> load_records sample_session ''s'' bytes = Inr lr \<and> lr_messages lr = [] \<and> (lr_execution_state lr = jl_state sample_live
      \<or> rollback_failed e \<and> (\<exists>i seq ts. lr_execution_state lr
          = call_effect (Call_Append (J_Checkpoint sample_checkpoint)) i seq ts (jl_state sample_live)))))"
proof -
  obtain e l' d' where run: "sample_run torn_write = (Raised e, (l', d'))" using sample_runs(2) by blast
  from failed_journal_call_not_seen [OF sample_laws [of sample_table, folded sample_session_def] sample_replays [OF sample_torn(2)]
      sample_settled sample_grounded _ run [unfolded sample_run_def]]
  show ?thesis by (simp add: run sample_journal_def)
qed

end
