(* ===== verification/Session_Steers.thy ===== *)
theory Session_Steers
  imports Session_Claims
begin

section \<open>Steer requests and operator decisions\<close>

text \<open>
  What the reducer guarantees of the steer requests of a turn and of the decisions an operator
  takes about calls whose result a crash has left unknown.
\<close>

subsection \<open>Lists\<close>

lemma length_update_first [simp]: "length (update_first p f xs) = length xs"
  by (induction xs) auto

lemma map_update_first: "(\<And>x. g (f x) = g x) \<Longrightarrow> map g (update_first p f xs) = map g xs"
  by (induction xs) auto

lemma set_remove_first: "set (remove_first p xs) \<subseteq> set xs"
  by (induction xs) auto

lemma remove_first_keeps: "x \<in> set xs \<Longrightarrow> \<not> p x \<Longrightarrow> x \<in> set (remove_first p xs)"
  by (induction xs) auto

lemma filter_remove_first: "(\<And>x. p x \<Longrightarrow> \<not> q x) \<Longrightarrow> filter q (remove_first p xs) = filter q xs"
  by (induction xs) auto

lemma distinct_remove_first: "distinct (map g xs) \<Longrightarrow> distinct (map g (remove_first p xs))"
  by (induction xs) (auto dest: subsetD [OF set_remove_first])

lemma length_remove_first_le: "length (remove_first p xs) \<le> length xs"
  by (induction xs) auto

lemma update_first_keeps: "x \<in> set xs \<Longrightarrow> \<not> p x \<Longrightarrow> x \<in> set (update_first p f xs)"
  by (induction xs) auto

lemma filter_update_first_length: "(\<And>x. p x \<Longrightarrow> q (f x) \<Longrightarrow> q x) \<Longrightarrow> length (filter q (update_first p f xs)) \<le> length (filter q xs)"
  by (induction xs) auto

subsection \<open>Bounds of the steer requests\<close>

definition is_accepted :: "session_steer_request \<Rightarrow> bool" where
  "is_accepted q \<longleftrightarrow> ssr_status q = Steer_Accepted"

lemma accepted_filter: "filter (\<lambda>q. ssr_status q = Steer_Accepted) qs = filter is_accepted qs"
  by (induction qs) (simp_all add: is_accepted_def)

definition steers_ok :: "session_steer_request list \<Rightarrow> bool" where
  "steers_ok qs \<longleftrightarrow> length qs \<le> 64 \<and> length (filter is_accepted qs) \<le> 16 \<and> distinct (map ssr_request_id qs)"

definition steers_bounded :: "'v journal_live \<Rightarrow> bool" where
  "steers_bounded l \<longleftrightarrow> (case jl_state l of None \<Rightarrow> True | Some s \<Rightarrow> steers_ok (ses_steer_requests s))"

lemma update_steer_ok:
  assumes "steers_ok qs" and "\<And>q. ssr_request_id (f q) = ssr_request_id q" and "\<And>q. \<not> is_accepted (f q)"
  shows "steers_ok (update_first p f qs)"
proof -
  have "length (filter is_accepted (update_first p f qs)) \<le> length (filter is_accepted qs)"
    using assms(3) by (intro filter_update_first_length) auto
  then show ?thesis using assms(1) map_update_first [of ssr_request_id f p qs, OF assms(2)] by (simp add: steers_ok_def)
qed

lemma trim_steers_ok: "steers_ok qs \<Longrightarrow> steers_ok (trim_steers qs)"
  by (subst trim_steers.simps) (simp add: steers_ok_def)

lemma mark_applied_ok: "steers_ok qs \<Longrightarrow> steers_ok (fold (\<lambda>i. update_first (\<lambda>q. ssr_request_id q = i) mark_applied) is qs)"
  by (induction "is" arbitrary: qs) (simp_all add: update_steer_ok mark_applied_def is_accepted_def)

text \<open>Every entry but an accepted steer keeps the bounds.\<close>

lemma entry_keeps_steers:
  assumes "case current of None \<Rightarrow> True | Some s \<Rightarrow> steers_ok (ses_steer_requests s)"
    and "\<And>turn i t. entry \<noteq> J_SteerAccepted turn i t"
  shows "case apply_execution_journal_entry seq ts entry current of None \<Rightarrow> True | Some s \<Rightarrow> steers_ok (ses_steer_requests s)"
proof (cases entry)
  case (J_Checkpoint cp)
  have "steers_ok []" by (simp add: steers_ok_def)
  then show ?thesis using assms(1) J_Checkpoint
    by (auto simp: apply_checkpoint_def Let_def intro!: trim_steers_ok mark_applied_ok split: option.splits)
next
  case (J_SteerUnapplied turn i reason)
  then show ?thesis using assms(1)
    by (auto simp: drop_steer_def Let_def is_accepted_def intro!: update_steer_ok split: option.splits)
qed (use assms in \<open>auto simp: on_turn_def on_call_def start_batch_def finish_call_def Let_def split: option.splits if_splits\<close>)

lemma accept_keeps_steers:
  assumes "steers_ok (ses_steer_requests s)" and "length (filter is_accepted (ses_steer_requests s)) < 16"
    and "find (\<lambda>q. ssr_request_id q = i) (ses_steer_requests s) = None"
  shows "steers_ok (ses_steer_requests (accept_steer turn i t ts s))"
proof -
  let ?qs = "ses_steer_requests s"
  let ?kept = "if 64 \<le> length ?qs then remove_first not_accepted ?qs else ?qs"
  have "\<exists>q \<in> set ?qs. not_accepted q" if "64 \<le> length ?qs"
  proof (rule ccontr)
    assume "\<not> ?thesis"
    then have "filter is_accepted ?qs = ?qs" by (simp add: not_accepted_def is_accepted_def)
    then show False using that assms(2) by simp
  qed
  then have "length ?kept < 64" using assms(1) length_remove_first_less [of _ ?qs not_accepted]
    by (force simp: steers_ok_def)
  moreover have "filter is_accepted ?kept = filter is_accepted ?qs"
    using filter_remove_first [of not_accepted is_accepted ?qs] by (simp add: not_accepted_def is_accepted_def)
  moreover have "distinct (map ssr_request_id ?kept)"
    using assms(1) by (simp add: steers_ok_def distinct_remove_first)
  moreover have "i \<notin> ssr_request_id ` set ?kept"
    using assms(3) subsetD [OF set_remove_first, of _ not_accepted ?qs] by (auto simp: find_None_iff)
  ultimately show ?thesis
    using assms(1,2) by (simp add: accept_steer_def steers_ok_def is_accepted_def Let_def)
qed

lemma journal_append_step:
  assumes "journal_append js j entry (l, d) = (r, (l', d'))"
  shows "l' = l \<or> (\<exists>seq ts. l' = journal_applied seq ts entry l)"
  using assms
  by (auto simp: journal_append_def on_file_def act_simps split: if_splits prod.splits outcome.splits option.splits sum.splits) blast+

lemma append_keeps_steers:
  assumes "journal_append js j entry (l, d) = (r, (l', d'))" and "steers_bounded l" and "\<And>turn i t. entry \<noteq> J_SteerAccepted turn i t"
  shows "steers_bounded l'"
  using journal_append_step [OF assms(1)] entry_keeps_steers [of "jl_state l" entry] assms(2,3)
  by (auto simp: steers_bounded_def journal_applied_def)

lemma steer_call_keeps_steers:
  assumes "accept_steer_request js j turn i t (l, d) = (r, (l', d'))" and "steers_bounded l"
  shows "steers_bounded l'"
proof (cases "(l', d') = (l, d)")
  case False
  then obtain s where s: "jl_state l = Some s" "find (\<lambda>q. ssr_request_id q = i) (ses_steer_requests s) = None"
    "length (filter is_accepted (ses_steer_requests s)) < 16"
    using assms(1) by (auto simp: accept_steer_request_def act_simps accepted_filter not_le split: if_splits option.splits)
  obtain r2 where "journal_append js j (J_SteerAccepted turn i t) (l, d) = (r2, (l', d'))"
    using accept_steer_request_step [OF assms(1)] False by blast
  from journal_append_step [OF this] accept_keeps_steers [OF _ s(3,2)] s assms(2) show ?thesis
    by (auto simp: steers_bounded_def journal_applied_def on_turn_def)
qed (use assms in simp)

text \<open>A call that hands a raw accepted-steer entry to the journal bypasses the checks.\<close>

definition checked_call :: "'v journal_call \<Rightarrow> bool" where
  "checked_call call = (case call of Call_Append (J_SteerAccepted _ _ _) \<Rightarrow> False | _ \<Rightarrow> True)"

lemma unapplied_keeps_steers:
  "forA (\<lambda>q. bindA (journal_append js j (J_SteerUnapplied turn (ssr_request_id q) reason)) (\<lambda>_. retA ())) qs (l, d) = (r, (l', d'))
    \<Longrightarrow> steers_bounded l \<Longrightarrow> steers_bounded l'"
proof (induction qs arbitrary: l d)
  case (Cons q qs)
  obtain r1 l1 d1 where one: "journal_append js j (J_SteerUnapplied turn (ssr_request_id q) reason) (l, d) = (r1, (l1, d1))"
    by (metis prod.collapse)
  have "steers_bounded l1" using append_keeps_steers [OF one Cons.prems(2)] by simp
  then show ?case using Cons one by (cases r1) (auto simp: act_simps)
qed (simp add: act_simps)

lemma perform_keeps_steers:
  assumes "journal_perform js j call (l, d) = (r, (l', d'))" and "steers_bounded l" and "checked_call call"
  shows "steers_bounded l'"
proof (cases call)
  case (Call_Append entry)
  obtain r1 l1 d1 where one: "journal_append js j entry (l, d) = (r1, (l1, d1))" by (metis prod.collapse)
  moreover have "entry \<noteq> J_SteerAccepted turn i t" for turn i t using assms(3) Call_Append by (auto simp: checked_call_def)
  ultimately show ?thesis using append_keeps_steers [OF one assms(2)] assms(1) Call_Append
    by (cases r1) (auto simp: quietly_def act_simps)
next
  case (Call_Steer turn i t)
  obtain r1 l1 d1 where one: "accept_steer_request js j turn i t (l, d) = (r1, (l1, d1))" by (metis prod.collapse)
  then show ?thesis using steer_call_keeps_steers [OF one assms(2)] assms(1) Call_Steer
    by (cases r1) (auto simp: quietly_def act_simps)
next
  case (Call_Unapplied turn reason)
  obtain r1 l1 d1 where one: "forA (\<lambda>q. bindA (journal_append js j (J_SteerUnapplied turn (ssr_request_id q) reason)) (\<lambda>_. retA ()))
    (pending_steers turn (jl_state l)) (l, d) = (r1, (l1, d1))" by (metis prod.collapse)
  then show ?thesis using unapplied_keeps_steers [OF one assms(2)] assms(1) Call_Unapplied
    by (cases r1) (auto simp: quietly_def mark_pending_steers_unapplied_def act_simps)
next
  case (Call_Reconcile q)
  obtain r1 l1 d1 where one: "reconcile_tool_call js j q (l, d) = (r1, (l1, d1))" by (metis prod.collapse)
  have "steers_bounded l1"
    using one assms(2)
    by (cases rule: reconcile_cases) (auto simp: steers_bounded_def apply_execution_reconciliation_def reconciled_state_def Let_def
        split: outcome.splits option.splits)
  then show ?thesis using one assms(1) Call_Reconcile by (cases r1) (auto simp: quietly_def act_simps)
next
  case (Call_Question q)
  then show ?thesis using assms(1,2)
    by (auto simp: quietly_def persist_user_question_def on_file_def act_simps steers_bounded_def apply_user_question_def on_turn_def
        split: if_splits prod.splits outcome.splits option.splits)
qed

text \<open>
  The steer requests a turn keeps are bounded: after any sequence of journal calls, failing or
  not, at most 64 requests are kept, at most 16 of them accepted and not yet applied, and no two
  have the same id; provided that a steer is accepted through \<open>accept_steer_request\<close>.
\<close>

theorem steer_requests_stay_bounded:
  assumes "steers_bounded l"
    and "(l', d') = fold (\<lambda>call x. snd (journal_perform js j call x)) calls (l, d)" and "\<forall>call \<in> set calls. checked_call call"
  shows "case jl_state l' of None \<Rightarrow> True | Some s \<Rightarrow> length (ses_steer_requests s) \<le> 64
    \<and> length (filter (\<lambda>q. ssr_status q = Steer_Accepted) (ses_steer_requests s)) \<le> 16
    \<and> distinct (map ssr_request_id (ses_steer_requests s))"
proof -
  have "steers_bounded (fst (fold (\<lambda>call x. snd (journal_perform js j call x)) calls (l, d)))"
    using assms(1,3)
  proof (induction calls arbitrary: l d)
    case (Cons call calls)
    obtain r l1 d1 where one: "journal_perform js j call (l, d) = (r, (l1, d1))" by (metis prod.collapse)
    then show ?case using Cons.IH [of l1 d1] perform_keeps_steers [OF one Cons.prems(1)] Cons.prems(2) by simp
  qed simp
  then have "steers_bounded l'" using assms(2) by (metis fst_conv)
  then show ?thesis by (auto simp: steers_bounded_def steers_ok_def accepted_filter split: option.splits)
qed

subsection \<open>No accepted steer is lost\<close>

lemma trim_keeps_accepted: "q \<in> set qs \<Longrightarrow> is_accepted q \<Longrightarrow> q \<in> set (trim_steers qs)"
proof (induction qs rule: trim_steers.induct)
  case (1 qs)
  then show ?case
    by (subst trim_steers.simps) (auto simp: remove_first_keeps not_accepted_def is_accepted_def)
qed

lemma applied_keeps_others:
  "q \<in> set qs \<Longrightarrow> ssr_request_id q \<notin> set is \<Longrightarrow> q \<in> set (fold (\<lambda>i. update_first (\<lambda>q. ssr_request_id q = i) mark_applied) is qs)"
  by (induction "is" arbitrary: qs) (auto simp: update_first_keeps)

text \<open>The calls that settle a steer: a checkpoint that names it applied, and its report as unapplied.\<close>

definition settles_entry :: "session_steer_request \<Rightarrow> 'v execution_journal_entry \<Rightarrow> bool" where
  "settles_entry q entry = (case entry of
     J_Checkpoint cp \<Rightarrow> ssr_request_id q \<in> set (ecp_applied_steer_request_ids cp)
   | J_SteerUnapplied turn i reason \<Rightarrow> turn = ssr_turn_id q \<and> i = ssr_request_id q
   | _ \<Rightarrow> False)"

definition settles_call :: "session_steer_request \<Rightarrow> 'v journal_call \<Rightarrow> bool" where
  "settles_call q call = (case call of
     Call_Append entry \<Rightarrow> settles_entry q entry
   | Call_Unapplied turn reason \<Rightarrow> turn = ssr_turn_id q
   | _ \<Rightarrow> False)"

definition waits_in :: "session_steer_request \<Rightarrow> 'v journal_live \<Rightarrow> bool" where
  "waits_in q l \<longleftrightarrow> ssr_status q = Steer_Accepted \<and> (\<exists>s. jl_state l = Some s \<and> q \<in> set (ses_steer_requests s))"

lemma entry_keeps_accepted:
  assumes "q \<in> set (ses_steer_requests s)" and "ssr_status q = Steer_Accepted" and "\<not> settles_entry q entry"
  shows "\<exists>s'. apply_execution_journal_entry seq ts entry (Some s) = Some s' \<and> q \<in> set (ses_steer_requests s')"
proof (cases entry)
  case (J_Checkpoint cp)
  then have "ssr_request_id q \<notin> set (ecp_applied_steer_request_ids cp)" using assms(3) by (simp add: settles_entry_def)
  then have "q \<in> set (trim_steers (fold (\<lambda>i. update_first (\<lambda>q. ssr_request_id q = i) mark_applied)
      (ecp_applied_steer_request_ids cp) (ses_steer_requests s)))"
    using applied_keeps_others [OF assms(1)] assms(2) by (simp add: trim_keeps_accepted is_accepted_def)
  then show ?thesis using J_Checkpoint by (auto simp: apply_checkpoint_def Let_def)
next
  case (J_SteerUnapplied turn i reason)
  then show ?thesis using assms
    by (auto simp: drop_steer_def settles_entry_def Let_def intro!: update_first_keeps)
next
  case (J_SteerAccepted turn i t)
  have "q \<in> set (remove_first not_accepted (ses_steer_requests s))"
    using assms(1,2) by (simp add: remove_first_keeps not_accepted_def)
  then show ?thesis using assms(1) J_SteerAccepted by (auto simp: on_turn_def accept_steer_def Let_def)
qed (use assms(1) in \<open>auto simp: on_turn_def on_call_def start_batch_def finish_call_def Let_def split: option.splits\<close>)

lemma append_keeps_waiting:
  assumes "journal_append js j entry (l, d) = (r, (l', d'))" and "waits_in q l" and "\<not> settles_entry q entry"
  shows "waits_in q l'"
proof -
  have "waits_in q (journal_applied seq ts entry l)" for seq ts
    using entry_keeps_accepted [OF _ _ assms(3)] assms(2) by (auto simp: waits_in_def journal_applied_def)
  then show ?thesis using journal_append_step [OF assms(1)] assms(2) by auto
qed

lemma unapplied_keeps_waiting:
  "forA (\<lambda>q. bindA (journal_append js j (J_SteerUnapplied turn (ssr_request_id q) reason)) (\<lambda>_. retA ())) qs (l, d) = (r, (l', d'))
    \<Longrightarrow> waits_in q l \<Longrightarrow> turn \<noteq> ssr_turn_id q \<Longrightarrow> waits_in q l'"
proof (induction qs arbitrary: l d)
  case (Cons q' qs)
  obtain r1 l1 d1 where one: "journal_append js j (J_SteerUnapplied turn (ssr_request_id q') reason) (l, d) = (r1, (l1, d1))"
    by (metis prod.collapse)
  have "waits_in q l1" using append_keeps_waiting [OF one Cons.prems(2)] Cons.prems(3) by (simp add: settles_entry_def)
  then show ?case using Cons one by (cases r1) (auto simp: act_simps)
qed (simp add: act_simps)

lemma perform_keeps_waiting:
  assumes "journal_perform js j call (l, d) = (r, (l', d'))" and "waits_in q l" and "\<not> settles_call q call"
  shows "waits_in q l'"
proof (cases call)
  case (Call_Append entry)
  obtain r1 l1 d1 where one: "journal_append js j entry (l, d) = (r1, (l1, d1))" by (metis prod.collapse)
  then show ?thesis using append_keeps_waiting [OF one assms(2)] assms(1,3) Call_Append
    by (cases r1) (auto simp: quietly_def act_simps settles_call_def)
next
  case (Call_Steer turn i t)
  obtain r1 l1 d1 where one: "accept_steer_request js j turn i t (l, d) = (r1, (l1, d1))" by (metis prod.collapse)
  have "waits_in q l1"
    using accept_steer_request_step [OF one] append_keeps_waiting [OF _ assms(2), of js j "J_SteerAccepted turn i t"] assms(2)
    by (auto simp: settles_entry_def)
  then show ?thesis using one assms(1) Call_Steer by (cases r1) (auto simp: quietly_def act_simps)
next
  case (Call_Unapplied turn reason)
  obtain r1 l1 d1 where one: "forA (\<lambda>q. bindA (journal_append js j (J_SteerUnapplied turn (ssr_request_id q) reason)) (\<lambda>_. retA ()))
    (pending_steers turn (jl_state l)) (l, d) = (r1, (l1, d1))" by (metis prod.collapse)
  then show ?thesis using unapplied_keeps_waiting [OF one assms(2)] assms(1,3) Call_Unapplied
    by (cases r1) (auto simp: quietly_def mark_pending_steers_unapplied_def act_simps settles_call_def)
next
  case (Call_Reconcile c)
  obtain r1 l1 d1 where one: "reconcile_tool_call js j c (l, d) = (r1, (l1, d1))" by (metis prod.collapse)
  have "waits_in q l1"
    using one assms(2)
    by (cases rule: reconcile_cases) (auto simp: waits_in_def apply_execution_reconciliation_def reconciled_state_def Let_def
        split: outcome.splits option.splits)
  then show ?thesis using one assms(1) Call_Reconcile by (cases r1) (auto simp: quietly_def act_simps)
next
  case (Call_Question u)
  then show ?thesis using assms(1,2)
    by (auto simp: waits_in_def quietly_def persist_user_question_def on_file_def act_simps apply_user_question_def on_turn_def
        split: if_splits prod.splits outcome.splits option.splits)
qed

lemma reserved_steer_waits:
  assumes "accept_steer_request js j turn i t (l, d) = (Done (Steer_Reserved q), (l', d'))"
  shows "q = accepted_steer turn i t \<and> waits_in q l'"
proof -
  obtain s seq ts where "jl_state l = Some s" "ses_turn_id s = turn" "l' = journal_applied seq ts (J_SteerAccepted turn i t) l"
    "q = accepted_steer turn i t"
    using assms
    by (auto simp: accept_steer_request_def journal_append_def on_file_def act_simps
        split: if_splits prod.splits outcome.splits option.splits sum.splits)
  then show ?thesis
    by (auto simp: waits_in_def journal_applied_def on_turn_def accept_steer_def accepted_steer_def Let_def)
qed

text \<open>
  C20. A steer the journal reserved stays accepted in the recoverable state, with its text, through
  any further sequence of journal calls, each of which may fail: other steers, entries of any kind,
  checkpoints of the same and of later turns, questions, operator decisions and reports of
  unapplied steers of other turns.  Only a checkpoint that names it applied or a report that it
  was not applied ends this; neither the eviction of old requests nor a change of turn drops it.
\<close>

theorem accepted_steer_is_not_lost:
  assumes "accept_steer_request js j turn i t (l, d) = (Done (Steer_Reserved q), (l1, d1))"
    and "\<forall>call \<in> set calls. \<not> settles_call (accepted_steer turn i t) call"
    and "fold (\<lambda>call x. snd (journal_perform js j call x)) calls (l1, d1) = (l', d')"
  shows "\<exists>s. jl_state l' = Some s \<and> accepted_steer turn i t \<in> set (ses_steer_requests s)"
proof -
  let ?q = "accepted_steer turn i t"
  have "waits_in ?q l1" using reserved_steer_waits [OF assms(1)] by auto
  with assms(2) have "waits_in ?q (fst (fold (\<lambda>call x. snd (journal_perform js j call x)) calls (l1, d1)))"
  proof (induction calls arbitrary: l1 d1)
    case (Cons call calls)
    obtain r l2 d2 where one: "journal_perform js j call (l1, d1) = (r, (l2, d2))" by (metis prod.collapse)
    then show ?case using Cons.IH [of l2 d2] perform_keeps_waiting [OF one Cons.prems(2)] Cons.prems(1) by simp
  qed simp
  then show ?thesis using assms(3) by (auto simp: waits_in_def)
qed

subsection \<open>Operator decisions\<close>

lemma uncertain_after_update:
  assumes "distinct (map (tc_id \<circ> etc_call) cs)" and "\<And>c. \<not> uncertain (f c)"
  shows "filter uncertain (update_first (call_has_id i) f cs) = filter (\<lambda>c. uncertain c \<and> \<not> call_has_id i c) cs"
  using assms(1)
proof (induction cs)
  case (Cons c cs)
  show ?case
  proof (cases "call_has_id i c")
    case True
    then have "\<forall>x \<in> set cs. \<not> call_has_id i x" using Cons.prems by (auto simp: call_has_id_def image_iff)
    then have "filter uncertain cs = filter (\<lambda>x. uncertain x \<and> \<not> call_has_id i x) cs" by (intro filter_cong) auto
    then show ?thesis using True assms(2) by simp
  qed (use Cons in simp)
qed simp

lemma disposed_not_uncertain: "outcome_fits q \<Longrightarrow> \<not> uncertain (dispose_call q c)"
  by (auto simp: outcome_fits_def dispose_call_def uncertain_def split: session_reconciliation_disposition.splits option.splits)

text \<open>
  An operator's decision settles exactly the call it names: in a batch of distinct calls of the
  current turn, an applied decision takes that call out of the calls with unknown result, leaves
  every other call as it was, leads to \<open>WaitingForContinue\<close> exactly when no call is uncertain any
  more, and is applied once: the same decision again writes nothing and is reported as applied.
\<close>

theorem decision_settles_one_call:
  assumes "reconcile_tool_call js j q (l, d) = (Done Reconciliation_Applied, (l', d'))"
    and "jl_state l = Some s" and "ses_pending_batch s = Some b" and "tbi_turn_id (etb_intent b) = ses_turn_id s"
    and "distinct (map (tc_id \<circ> etc_call) (etb_calls b))"
  shows "\<exists>s' b'. jl_state l' = Some s' \<and> ses_pending_batch s' = Some b'
    \<and> (\<exists>c \<in> set (etb_calls b). uncertain c \<and> call_has_id (srr_tool_call_id q) c)
    \<and> filter uncertain (etb_calls b') = filter (\<lambda>c. uncertain c \<and> \<not> call_has_id (srr_tool_call_id q) c) (etb_calls b)
    \<and> (\<forall>c \<in> set (etb_calls b). \<not> call_has_id (srr_tool_call_id q) c \<longrightarrow> c \<in> set (etb_calls b'))
    \<and> (ses_status s' = Exec_WaitingForContinue \<longleftrightarrow> (\<forall>c \<in> set (etb_calls b'). \<not> uncertain c))
    \<and> reconcile_tool_call js j q (l', d'') = (Done Reconciliation_AlreadyApplied, (l', d''))"
  using assms(1)
proof (cases rule: reconcile_cases)
  case (written s0 v r2)
  have s0: "s0 = s" using written(1) assms(2) by simp
  have ok: "reconciles q s" using written(2) s0 by simp
  let ?b = "update_call (srr_tool_call_id q) (dispose_call q) b"
  define s' where "s' = reconciled_state (dk_clock d (dk_tick d)) q s"
  have fits: "\<not> uncertain (dispose_call q c)" for c using ok disposed_not_uncertain by (auto simp: reconciles_def)
  have state: "jl_state l' = Some s'" using written(1,5,6) ok s0
    by (auto simp: apply_execution_reconciliation_def reconciles_def s'_def split: outcome.splits)
  have batch: "ses_pending_batch s' = Some ?b"
    using assms(3,4) ok by (simp add: s'_def reconciled_state_def reconciled_batch_def reconciles_def Let_def)
  have status: "ses_status s' = Exec_WaitingForContinue \<longleftrightarrow> (\<forall>c \<in> set (etb_calls ?b). \<not> uncertain c)"
    using batch by (auto simp: s'_def reconciled_state_def has_uncertain_call_def list_ex_iff Let_def)
  have known: "ses_reconciliation_requests s' (srr_request_id q) = Some q" by (simp add: s'_def reconciled_state_def Let_def)
  have args: "trim (srr_request_id q) \<noteq> []" "\<not> 128 < length (srr_request_id q)" "trim (srr_tool_call_id q) \<noteq> []"
    "\<not> 128 < length (srr_tool_call_id q)" "trim (srr_evidence_summary q) \<noteq> []" "\<not> 1024 < length (srr_evidence_summary q)" "outcome_fits q"
    using assms(1) by (auto simp: reconcile_tool_call_def act_simps split: if_splits)
  have again: "reconcile_tool_call js j q (l', d'') = (Done Reconciliation_AlreadyApplied, (l', d''))"
    using args state known by (simp add: reconcile_tool_call_def act_simps)
  have "\<exists>c \<in> set (etb_calls b). uncertain c \<and> call_has_id (srr_tool_call_id q) c"
    using ok assms(3) by (auto simp: reconciles_def awaits_reconciliation_def list_ex_iff)
  moreover have "filter uncertain (etb_calls ?b) = filter (\<lambda>c. uncertain c \<and> \<not> call_has_id (srr_tool_call_id q) c) (etb_calls b)"
    using uncertain_after_update [OF assms(5) fits] by (simp add: update_call_def)
  moreover have "c \<in> set (etb_calls ?b)" if "c \<in> set (etb_calls b)" "\<not> call_has_id (srr_tool_call_id q) c" for c
    using that by (simp add: update_call_def update_first_keeps)
  ultimately show ?thesis using state batch status again by blast
qed simp_all

subsection \<open>At concrete inputs\<close>

definition sample_calls :: "sv journal_call list" where
  "sample_calls = [Call_Append (J_Checkpoint sample_checkpoint), Call_Steer (TurnId ''t-1'') ''r1'' ''stop'',
     Call_Unapplied (TurnId ''t-1'') ''done'']"

theorem steer_requests_stay_bounded_witness:
  "case jl_state (fst (fold (\<lambda>call x. snd (journal_perform sample_session sample_journal call x)) sample_calls
      (sample_live, session_disk torn_write))) of None \<Rightarrow> True | Some s \<Rightarrow> length (ses_steer_requests s) \<le> 64
    \<and> length (filter (\<lambda>q. ssr_status q = Steer_Accepted) (ses_steer_requests s)) \<le> 16
    \<and> distinct (map ssr_request_id (ses_steer_requests s))"
proof -
  obtain l' d' where run: "(l', d') = fold (\<lambda>call x. snd (journal_perform sample_session sample_journal call x)) sample_calls
      (sample_live, session_disk torn_write)" by (metis prod.collapse)
  have "steers_bounded sample_live" by (simp add: steers_bounded_def sample_live_def)
  moreover have "\<forall>call \<in> set sample_calls. checked_call call" by (simp add: sample_calls_def checked_call_def)
  ultimately show ?thesis unfolding run [symmetric] fst_conv by (rule steer_requests_stay_bounded [OF _ run])
qed

text \<open>A running turn, and a codec that writes every record as the same line.\<close>

definition sample_running :: "sv journal_live" where
  "sample_running = \<lparr>jl_state = Some (apply_checkpoint 2 7 sample_checkpoint None),
     jl_writer = fresh_writer (Some (apply_checkpoint 2 7 sample_checkpoint None)) []\<rparr>"

definition plain_session :: "sv session_json" where
  "plain_session = sample_session\<lparr>sj_values := (sj_values sample_session)\<lparr>va_encode := \<lambda>_. Inr ''R..''\<rparr>\<rparr>"

definition reserving_run :: "(string, steer_request_reservation) outcome \<times> sv journal_live \<times> disk" where
  "reserving_run = accept_steer_request plain_session sample_journal (TurnId ''t-1'') ''r1'' ''stop''
     (sample_running, session_disk steady)"

definition later_calls :: "sv journal_call list" where
  "later_calls = [Call_Append (J_Checkpoint (sample_checkpoint\<lparr>ecp_turn_id := TurnId ''t-2''\<rparr>)),
     Call_Steer (TurnId ''t-2'') ''r2'' ''go'', Call_Unapplied (TurnId ''t-2'') ''done'']"

lemma trimmed_samples: "trim ''r1'' \<noteq> []" "trim ''c1'' \<noteq> []" "trim ''seen'' \<noteq> []" "trim ''stop'' \<noteq> []"
  by code_simp+

lemma plain_scan: "scan_seq plain_session [''R'', ''R.''] (Suc 0) = Inr 3"
  by (simp add: plain_session_def u64_field_def sample_defs sat_add_def u64_max_def)

lemma plain_append:
  "\<exists>d'. append_execution_record plain_session ''p'' rc (ticked (session_disk steady)) = (Done 3, d')"
proof -
  have size: "length sample_file = 5" by (simp add: sample_file_def newline_byte_def)
  have small: "\<not> max_session_bytes < sat_add (sat_add (length sample_file) (length ''R..'')) 1" "\<not> max_record_bytes < length ''R..''"
    by (simp_all add: size max_session_bytes_def max_record_bytes_def sat_add_def u64_max_def)
  have enc: "va_encode (sj_values plain_session) v = Inr ''R..''" for v by (simp add: plain_session_def)
  show ?thesis
    using small
    by (simp add: append_execution_record_def act_simps fs_calls unless_fault_def tick_def with_file_def sample_lines plain_scan Let_def
        enc write_record_def writing_def put_file_def steady_def del: scan_seq.simps)
qed

lemma sample_reserves: "\<exists>q y. reserving_run = (Done (Steer_Reserved q), y)"
proof -
  let ?entry = "J_SteerAccepted (TurnId ''t-1'') ''r1'' ''stop'' :: sv execution_journal_entry"
  obtain rc where rc: "journal_record plain_session (ej_thread_id sample_journal) (jw_messages (jl_writer sample_running)) 7 ?entry
      = Inr rc"
    by (simp add: journal_record_def entry_record_def str_field_def plain_session_def sample_session_def sample_json_def sample_values_def
        sv_get_def)
  obtain d' where app: "append_execution_record plain_session ''p'' (sj_set plain_session rc ''session_id''
      (va_str (sj_values plain_session) ''s'')) (ticked (session_disk steady)) = (Done 3, d')"
    using plain_append by blast
  have id: "ej_path sample_journal = ''p''" "ej_session_id sample_journal = ''s''" "turn_id_str (TurnId ''t-1'') \<noteq> []"
    "execution_entry_turn_id ?entry = TurnId ''t-1''"
    by (simp_all add: sample_journal_def execution_entry_turn_id_def)
  have live: "\<exists>s. jl_state sample_running = Some s \<and> ses_turn_id s = TurnId ''t-1'' \<and> ses_status s = Exec_Running \<and> ses_steer_requests s = []
      \<and> jw_turn_id (jl_writer sample_running) = Some (TurnId ''t-1'')"
    by (simp add: sample_running_def fresh_writer_simps apply_checkpoint_def ses_turn_id_def sample_checkpoint_def Let_def
        trim_steers.simps [of "[]"])
  show ?thesis
    using live trimmed_samples app rc
    by (auto simp: reserving_run_def accept_steer_request_def journal_append_def entry_timestamp_def on_file_def fs_now_ms_def
        id act_simps)
qed

theorem accepted_steer_is_not_lost_witness:
  "case reserving_run of (r, x) \<Rightarrow> (\<exists>q. r = Done (Steer_Reserved q))
    \<and> (\<exists>s. jl_state (fst (fold (\<lambda>call x. snd (journal_perform plain_session sample_journal call x)) later_calls x)) = Some s
        \<and> accepted_steer (TurnId ''t-1'') ''r1'' ''stop'' \<in> set (ses_steer_requests s))"
proof -
  obtain q l1 d1 where run: "reserving_run = (Done (Steer_Reserved q), (l1, d1))" using sample_reserves by auto
  obtain l' d' where fold: "fold (\<lambda>call x. snd (journal_perform plain_session sample_journal call x)) later_calls (l1, d1) = (l', d')"
    by (meson surj_pair)
  have "\<forall>call \<in> set later_calls. \<not> settles_call (accepted_steer (TurnId ''t-1'') ''r1'' ''stop'') call"
    by (simp add: later_calls_def settles_call_def settles_entry_def accepted_steer_def sample_checkpoint_def)
  from accepted_steer_is_not_lost [OF run [unfolded reserving_run_def] this fold] show ?thesis
    unfolding run prod.case fold fst_conv by blast
qed

definition sample_stuck :: "sv journal_live" where
  "sample_stuck = \<lparr>jl_state = Some sample_call_state, jl_writer = fresh_writer (Some sample_call_state) []\<rparr>"

lemma sample_decides: "\<exists>l' d'. reconcile_tool_call sample_session sample_journal sample_decision (sample_stuck, session_disk steady)
    = (Done Reconciliation_Applied, (l', d'))"
proof -
  have size: "length sample_file = 5" by (simp add: sample_file_def newline_byte_def)
  have small: "\<not> max_session_bytes < sat_add (sat_add (length sample_file) (length ''R...'')) 1" "\<not> max_record_bytes < length ''R...''"
    by (simp_all add: size max_session_bytes_def max_record_bytes_def sat_add_def u64_max_def)
  obtain d' where app: "append_execution_record sample_session ''p'' (reconciliation_record sample_session sample_journal 7
      (SV_Obj [(''body'', SV_Decision sample_decision)])) (ticked (session_disk steady)) = (Done 3, d')"
    using sample_encodings(2) small
    by (simp add: append_execution_record_def act_simps fs_calls unless_fault_def tick_def with_file_def sample_lines sample_scan Let_def
        write_record_def writing_def put_file_def steady_def del: scan_seq.simps)
  have enc: "sj_reconciliation sample_session sample_decision = Inr (SV_Obj [(''body'', SV_Decision sample_decision)])"
    by (simp add: sample_session_def sample_json_def)
  have state: "jl_state sample_stuck = Some sample_call_state" "ses_status sample_call_state = Exec_NeedsReconciliation"
    "ses_turn_id sample_call_state = TurnId ''t-1''" "ses_checkpoint_seq sample_call_state = 2"
    "ses_reconciliation_requests sample_call_state = Map.empty" "awaits_reconciliation ''c1'' sample_call_state"
    by (simp_all add: sample_stuck_def sample_call_state_def apply_checkpoint_def Let_def ses_turn_id_def sample_checkpoint_def
        awaits_reconciliation_def call_has_id_def uncertain_def)
  have q: "srr_request_id sample_decision = ''r1''" "srr_tool_call_id sample_decision = ''c1''" "srr_evidence_summary sample_decision = ''seen''"
    "srr_turn_id sample_decision = TurnId ''t-1''" "srr_checkpoint_seq sample_decision = 2" "outcome_fits sample_decision"
    by (simp_all add: sample_decision_def outcome_fits_def)
  have path: "ej_path sample_journal = ''p''" by (simp add: sample_journal_def)
  show ?thesis
    using trimmed_samples app by (simp add: reconcile_tool_call_def act_simps on_file_def fs_now_ms_def state q enc path)
qed

theorem decision_settles_one_call_witness:
  "case reconcile_tool_call sample_session sample_journal sample_decision (sample_stuck, session_disk steady) of (r, (l', d')) \<Rightarrow>
     r = Done Reconciliation_Applied \<and> (\<exists>s' b'. jl_state l' = Some s' \<and> ses_pending_batch s' = Some b'
       \<and> map (tc_id \<circ> etc_call) (filter uncertain (etb_calls b')) = [''c2'']
       \<and> reconcile_tool_call sample_session sample_journal sample_decision (l', d') = (Done Reconciliation_AlreadyApplied, (l', d')))"
proof -
  obtain l' d' where run: "reconcile_tool_call sample_session sample_journal sample_decision (sample_stuck, session_disk steady)
    = (Done Reconciliation_Applied, (l', d'))" using sample_decides by blast
  have state: "jl_state sample_stuck = Some sample_call_state" by (simp add: sample_stuck_def)
  obtain b where b: "ses_pending_batch sample_call_state = Some b" "tbi_turn_id (etb_intent b) = ses_turn_id sample_call_state"
    "distinct (map (tc_id \<circ> etc_call) (etb_calls b))"
    "map (tc_id \<circ> etc_call) (filter (\<lambda>c. uncertain c \<and> \<not> call_has_id ''c1'' c) (etb_calls b)) = [''c2'']"
    by (simp add: sample_call_state_def apply_checkpoint_def Let_def ses_turn_id_def sample_checkpoint_def call_has_id_def uncertain_def)
  have "srr_tool_call_id sample_decision = ''c1''" by (simp add: sample_decision_def)
  with decision_settles_one_call [OF run state b(1-3), of d'] b(4) show ?thesis by (auto simp: run)
qed

end
