(* ===== verification/Patch.thy ===== *)
theory Patch
  imports Str_Split Disk
begin

section \<open>Patches (workspace/patch.rs)\<close>

text \<open>
  The patch language of the \<open>apply_patch\<close> tool: its parser, the placement of hunks in the lines
  of a file, and the application of a validated plan to the disk with its rollback.  The
  parser's index into the lines is modelled by the list of the lines that are left; its running
  count of hunk lines is passed along.
\<close>

definition max_patch_bytes :: nat where "max_patch_bytes = 512 * 1024"

definition max_patch_files :: nat where "max_patch_files = 16"

definition max_patch_lines :: nat where "max_patch_lines = 32 * 1024"

definition max_write_bytes :: nat where "max_write_bytes = 1024 * 1024"

record hunk =
  hk_old :: "string list"
  hk_new :: "string list"

datatype raw_operation =
    Add_Operation string "string list"
  | Delete_Operation string
  | Update_Operation string "string option" "hunk list"

text \<open>The errors of the parser; two of them quote a line as \<open>{:?}\<close> formats it.\<close>

datatype patch_error =
    Bad_Start | Content_After_End | No_Operation | Too_Many_Files | Missing_Path string
  | Too_Many_Lines | Expected_Hunk string | Missing_Prefix | Bad_Prefix | Unchanged_Hunk | Missing_Hunk
  | Unexpected_Line string | Missing_End

definition patch_error_text :: "(string \<Rightarrow> string) \<Rightarrow> patch_error \<Rightarrow> string" where
  "patch_error_text debug e = (case e of
     Bad_Start \<Rightarrow> ''patch must start with *** Begin Patch''
   | Content_After_End \<Rightarrow> ''unexpected content after *** End Patch''
   | No_Operation \<Rightarrow> ''patch must contain a file operation''
   | Too_Many_Files \<Rightarrow> ''patch exceeds '' @ decimal max_patch_files @ '' file operations''
   | Missing_Path operation \<Rightarrow> operation @ '' operation is missing a path''
   | Too_Many_Lines \<Rightarrow> ''patch exceeds '' @ decimal max_patch_lines @ '' hunk lines''
   | Expected_Hunk line \<Rightarrow> ''expected a hunk header, found '' @ debug line
   | Missing_Prefix \<Rightarrow> ''hunk lines must have a prefix''
   | Bad_Prefix \<Rightarrow> ''hunk lines must start with space, -, or +''
   | Unchanged_Hunk \<Rightarrow> ''patch hunk must add or remove a line''
   | Missing_Hunk \<Rightarrow> ''update operation must contain a hunk''
   | Unexpected_Line line \<Rightarrow> ''unexpected patch line: '' @ debug line
   | Missing_End \<Rightarrow> ''patch is missing *** End Patch'')"

subsection \<open>Parsing\<close>

definition begin_patch :: string where "begin_patch = ''*** Begin Patch''"
definition end_patch :: string where "end_patch = ''*** End Patch''"
definition add_header :: string where "add_header = ''*** Add File: ''"
definition delete_header :: string where "delete_header = ''*** Delete File: ''"
definition update_header :: string where "update_header = ''*** Update File: ''"
definition move_header :: string where "move_header = ''*** Move to: ''"
definition end_of_file :: string where "end_of_file = ''*** End of File''"

definition carriage_return :: char where "carriage_return = CHR 0x0D"

text \<open>The two replacements between \<open>\r\n\<close> and \<open>\n\<close>.\<close>

fun crlf_to_lf :: "string \<Rightarrow> string" where
  "crlf_to_lf [] = []"
| "crlf_to_lf (c # s) = (if c = carriage_return \<and> starts_with [newline_byte] s then crlf_to_lf s else c # crlf_to_lf s)"

fun lf_to_crlf :: "string \<Rightarrow> string" where
  "lf_to_crlf [] = []"
| "lf_to_crlf (c # s) = (if c = newline_byte then carriage_return # newline_byte # lf_to_crlf s else c # lf_to_crlf s)"

definition is_file_operation_header :: "string \<Rightarrow> bool" where
  "is_file_operation_header line \<longleftrightarrow>
     starts_with add_header line \<or> starts_with delete_header line \<or> starts_with update_header line"

text \<open>The added lines of a new file, what follows them and the count of patch lines.\<close>

fun added_lines :: "string list \<Rightarrow> nat \<Rightarrow> patch_error + string list \<times> string list \<times> nat" where
  "added_lines [] n = Inr ([], [], n)"
| "added_lines (line # rest) n =
    (if starts_with ''+'' line
     then if max_patch_lines < Suc n then Inl Too_Many_Lines
       else (case added_lines rest (Suc n) of
           Inl e \<Rightarrow> Inl e
         | Inr (added, left, m) \<Rightarrow> Inr (drop 1 line # added, left, m))
     else Inr ([], line # rest, n))"

text \<open>A line of a hunk: what it says of the old and of the new lines, and whether it changes any.\<close>

definition hunk_line :: "string \<Rightarrow> patch_error + (hunk \<Rightarrow> hunk) \<times> bool" where
  "hunk_line line = (case line of
     [] \<Rightarrow> Inl Missing_Prefix
   | c # content \<Rightarrow>
       if c = CHR '' '' then Inr (\<lambda>h. \<lparr>hk_old = content # hk_old h, hk_new = content # hk_new h\<rparr>, False)
       else if c = CHR ''-'' then Inr (\<lambda>h. h\<lparr>hk_old := content # hk_old h\<rparr>, True)
       else if c = CHR ''+'' then Inr (\<lambda>h. h\<lparr>hk_new := content # hk_new h\<rparr>, True)
       else Inl Bad_Prefix)"

definition ends_hunk :: "string \<Rightarrow> bool" where
  "ends_hunk line \<longleftrightarrow> line = end_patch \<or> is_file_operation_header line \<or> starts_with ''@@'' line"

fun hunk_body :: "string list \<Rightarrow> nat \<Rightarrow> patch_error + hunk \<times> bool \<times> string list \<times> nat" where
  "hunk_body [] n = Inr (\<lparr>hk_old = [], hk_new = []\<rparr>, False, [], n)"
| "hunk_body (line # rest) n =
    (if ends_hunk line then Inr (\<lparr>hk_old = [], hk_new = []\<rparr>, False, line # rest, n)
     else if line = end_of_file then Inr (\<lparr>hk_old = [], hk_new = []\<rparr>, False, rest, n)
     else (case hunk_line line of
         Inl e \<Rightarrow> Inl e
       | Inr (f, change) \<Rightarrow>
           if max_patch_lines < Suc n then Inl Too_Many_Lines
           else (case hunk_body rest (Suc n) of
               Inl e \<Rightarrow> Inl e
             | Inr (h, changed, left, m) \<Rightarrow> Inr (f h, change \<or> changed, left, m))))"

lemma added_lines_shrink: "added_lines ls n = Inr (a, left, m) \<Longrightarrow> length left \<le> length ls"
  by (induction ls n arbitrary: a left m rule: added_lines.induct) (fastforce split: if_splits sum.splits)+

lemma hunk_body_shrink: "hunk_body ls n = Inr (h, changed, left, m) \<Longrightarrow> length left \<le> length ls"
proof (induction ls n arbitrary: h changed left m rule: hunk_body.induct)
  case (2 line rest n)
  then show ?case by (fastforce split: if_splits sum.splits)
qed simp

function update_hunks :: "string list \<Rightarrow> nat \<Rightarrow> patch_error + hunk list \<times> string list \<times> nat" where
  "update_hunks [] n = Inr ([], [], n)"
| "update_hunks (line # rest) n =
    (if line = end_patch \<or> is_file_operation_header line then Inr ([], line # rest, n)
     else if \<not> starts_with ''@@'' line then Inl (Expected_Hunk line)
     else (case hunk_body rest n of
         Inl e \<Rightarrow> Inl e
       | Inr (h, changed, left, m) \<Rightarrow>
           if \<not> changed then Inl Unchanged_Hunk
           else (case update_hunks left m of
               Inl e \<Rightarrow> Inl e
             | Inr (hs, left', m') \<Rightarrow> Inr (h # hs, left', m'))))"
  by pat_completeness auto
termination
  by (relation "measure (\<lambda>(ls, n). length ls)") (auto dest: hunk_body_shrink)

lemma update_hunks_shrink: "update_hunks ls n = Inr (hs, left, m) \<Longrightarrow> length left \<le> length ls"
proof (induction ls n arbitrary: hs left m rule: update_hunks.induct)
  case (2 line rest n)
  show ?case
  proof (cases "line = end_patch \<or> is_file_operation_header line \<or> \<not> starts_with ''@@'' line")
    case True
    then show ?thesis using "2.prems" by (auto split: if_splits)
  next
    case False
    then obtain h left1 m1 hs' where body: "hunk_body rest n = Inr (h, True, left1, m1)"
        and more: "update_hunks left1 m1 = Inr (hs', left, m)"
      using "2.prems" by (auto split: sum.splits prod.splits if_splits)
    have "length left \<le> length left1" by (rule "2.IH") (use False body more in simp_all)
    then show ?thesis using hunk_body_shrink [OF body] by simp
  qed
qed simp

text \<open>One file operation after its header: the operation, the lines left and the count.\<close>

definition add_operation :: "string \<Rightarrow> string list \<Rightarrow> nat \<Rightarrow> patch_error + raw_operation \<times> string list \<times> nat" where
  "add_operation path rest n = (if path = [] then Inl (Missing_Path ''add'')
     else (case added_lines rest n of
         Inl e \<Rightarrow> Inl e
       | Inr (added, left, m) \<Rightarrow> Inr (Add_Operation path added, left, m)))"

definition delete_operation :: "string \<Rightarrow> string list \<Rightarrow> nat \<Rightarrow> patch_error + raw_operation \<times> string list \<times> nat" where
  "delete_operation path rest n = (if path = [] then Inl (Missing_Path ''delete'')
     else Inr (Delete_Operation path, rest, n))"

definition move_target :: "string list \<Rightarrow> string option \<times> string list" where
  "move_target rest = (case rest of
     [] \<Rightarrow> (None, [])
   | line # left \<Rightarrow> (case strip_prefix move_header line of Some p \<Rightarrow> (Some p, left) | None \<Rightarrow> (None, rest)))"

definition update_operation :: "string \<Rightarrow> string list \<Rightarrow> nat \<Rightarrow> patch_error + raw_operation \<times> string list \<times> nat" where
  "update_operation path rest n = (if path = [] then Inl (Missing_Path ''update'')
     else (case move_target rest of (move_to, left) \<Rightarrow> (case update_hunks left n of
         Inl e \<Rightarrow> Inl e
       | Inr (hs, left', m) \<Rightarrow> if move_to = None \<and> hs = [] then Inl Missing_Hunk
           else Inr (Update_Operation path move_to hs, left', m))))"

definition file_operation :: "string \<Rightarrow> string list \<Rightarrow> nat \<Rightarrow> patch_error + raw_operation \<times> string list \<times> nat" where
  "file_operation line rest n = (case strip_prefix add_header line of
     Some path \<Rightarrow> add_operation path rest n
   | None \<Rightarrow> (case strip_prefix delete_header line of
     Some path \<Rightarrow> delete_operation path rest n
   | None \<Rightarrow> (case strip_prefix update_header line of
     Some path \<Rightarrow> update_operation path rest n
   | None \<Rightarrow> Inl (Unexpected_Line line))))"

lemma move_target_shrink: "move_target ls = (p, left) \<Longrightarrow> length left \<le> length ls"
  by (auto simp: move_target_def split: list.splits option.splits)

lemma file_operation_shrink: "file_operation line rest n = Inr (op, left, m) \<Longrightarrow> length left \<le> length rest"
  by (auto simp: file_operation_def add_operation_def delete_operation_def update_operation_def
      split: option.splits if_splits sum.splits prod.splits dest!: move_target_shrink update_hunks_shrink
      dest: added_lines_shrink)

function parse_operations :: "string list \<Rightarrow> raw_operation list \<Rightarrow> nat \<Rightarrow> patch_error + raw_operation list" where
  "parse_operations [] operations n = Inl Missing_End"
| "parse_operations (line # rest) operations n =
    (if line = end_patch
     then if list_ex (\<lambda>l. l \<noteq> []) rest then Inl Content_After_End
       else if operations = [] then Inl No_Operation else Inr operations
     else if max_patch_files \<le> length operations then Inl Too_Many_Files
     else (case file_operation line rest n of
         Inl e \<Rightarrow> Inl e
       | Inr (operation, left, m) \<Rightarrow> parse_operations left (operations @ [operation]) m))"
  by pat_completeness auto
termination
  by (relation "measure (\<lambda>(ls, ops, n). length ls)") (auto dest: file_operation_shrink)

definition parse_patch :: "string \<Rightarrow> patch_error + raw_operation list" where
  "parse_patch input = (case split_on newline_byte (crlf_to_lf input) of
     first # rest \<Rightarrow> if first = begin_patch then parse_operations rest [] 0 else Inl Bad_Start
   | [] \<Rightarrow> Inl Bad_Start)"

subsection \<open>Placing hunks\<close>

datatype hunk_error = Hunk_Missing | Hunk_Ambiguous

definition hunk_error_text :: "hunk_error \<Rightarrow> string" where
  "hunk_error_text e = (case e of
     Hunk_Missing \<Rightarrow> ''patch hunk did not match the current file contents''
   | Hunk_Ambiguous \<Rightarrow> ''patch hunk matched more than once; add context to disambiguate'')"

definition matches_at :: "string list \<Rightarrow> string list \<Rightarrow> nat \<Rightarrow> bool" where
  "matches_at lines old i \<longleftrightarrow> take (length old) (drop i lines) = old"

definition find_hunk :: "string list \<Rightarrow> string list \<Rightarrow> hunk_error + nat" where
  "find_hunk lines old = (if old = [] then Inr (length lines)
     else (case filter (matches_at lines old) [0..<Suc (length lines) - length old] of
         [i] \<Rightarrow> Inr i | [] \<Rightarrow> Inl Hunk_Missing | _ \<Rightarrow> Inl Hunk_Ambiguous))"

fun splice_hunks :: "string list \<Rightarrow> hunk list \<Rightarrow> hunk_error + string list" where
  "splice_hunks lines [] = Inr lines"
| "splice_hunks lines (h # hs) = (case find_hunk lines (hk_old h) of
     Inl e \<Rightarrow> Inl e
   | Inr start \<Rightarrow> splice_hunks (take start lines @ hk_new h @ drop (start + length (hk_old h)) lines) hs)"

fun join_lines :: "string list \<Rightarrow> string" where
  "join_lines [] = []"
| "join_lines [l] = l"
| "join_lines (l # ls) = l @ newline_byte # join_lines ls"

text \<open>The lines of a text after normalisation, and whether it ends in a newline.\<close>

definition text_lines :: "string \<Rightarrow> string list" where
  "text_lines normalized = (if normalized = [] then []
     else if ends_with [newline_byte] normalized then butlast (split_on newline_byte normalized)
     else split_on newline_byte normalized)"

definition render_lines :: "bool \<Rightarrow> bool \<Rightarrow> string list \<Rightarrow> string" where
  "render_lines crlf trailing_newline lines =
    (let updated = join_lines lines @ (if trailing_newline then [newline_byte] else [])
     in if crlf then lf_to_crlf updated else updated)"

definition apply_hunks :: "string \<Rightarrow> hunk list \<Rightarrow> hunk_error + string" where
  "apply_hunks original hunks =
    (let crlf = contains_sub [carriage_return, newline_byte] original;
         normalized = crlf_to_lf original
     in case splice_hunks (text_lines normalized) hunks of
          Inl e \<Rightarrow> Inl e
        | Inr lines \<Rightarrow> Inr (render_lines crlf (ends_with [newline_byte] normalized) lines))"

definition lines_to_text :: "string list \<Rightarrow> string" where
  "lines_to_text lines = (if lines = [] then [] else join_lines lines @ [newline_byte])"

subsection \<open>Applying a plan\<close>

record file_effect =
  fe_path :: string
  fe_before :: "string option"
  fe_after :: "string option"

record patch_plan =
  pp_effects :: "file_effect list"
  pp_paths :: "string list"

text \<open>\<open>File::options().write(true).create_new(true).open\<close>.\<close>

definition fs_create_new :: "string \<Rightarrow> unit io" where
  "fs_create_new p = unless_fault (bindA (getA (\<lambda>d. node_at d p)) (\<lambda>n.
     if n = None then put_file p [] else raiseA (io_error Io_Other ''File exists (os error 17)'')))"

definition apply_effect :: "file_effect \<Rightarrow> unit io" where
  "apply_effect e = (case fe_after e of
     Some bytes \<Rightarrow> seqA (if fe_before e \<noteq> None then fs_open_truncate (fe_path e) else fs_create_new (fe_path e))
       (fs_write_all (fe_path e) bytes)
   | None \<Rightarrow> fs_remove_file (fe_path e))"

definition restore_effect :: "file_effect \<Rightarrow> unit io" where
  "restore_effect e = (case fe_before e of
     Some bytes \<Rightarrow> fs_write (fe_path e) bytes
   | None \<Rightarrow> bindA (fs_exists (fe_path e)) (\<lambda>there. if there then fs_remove_file (fe_path e) else retA ()))"

text \<open>\<open>all(|effect| restore_effect(effect).is_ok())\<close>: it stops at the first failure.\<close>

fun roll_back_effects :: "file_effect list \<Rightarrow> (disk, string, bool) act" where
  "roll_back_effects [] = retA True"
| "roll_back_effects (e # es) = caseA (restore_effect e) (\<lambda>_. roll_back_effects es) (\<lambda>_. retA False)"

definition rollback_suffix :: "bool \<Rightarrow> string" where
  "rollback_suffix ok = (if ok then ''; earlier changes were rolled back'' else ''; rollback also failed'')"

definition cannot_apply :: "string \<Rightarrow> bool \<Rightarrow> string" where
  "cannot_apply reason ok = ''cannot apply patch: '' @ reason @ rollback_suffix ok"

fun check_unchanged :: "file_effect list \<Rightarrow> (disk, string, unit) act" where
  "check_unchanged [] = retA ()"
| "check_unchanged (e # es) =
    bindA (map_errA ie_text (bindA (fs_exists (fe_path e)) (\<lambda>there.
      if there then bindA (fs_read_bytes (fe_path e)) (\<lambda>s. retA (Some s)) else retA None))) (\<lambda>current.
    if current \<noteq> fe_before e then raiseA (''file changed after patch validation: '' @ fe_path e)
    else check_unchanged es)"

text \<open>The applied effects are passed along, the latest first.\<close>

fun apply_effects :: "file_effect list \<Rightarrow> file_effect list \<Rightarrow> (disk, string, unit) act" where
  "apply_effects applied [] = retA ()"
| "apply_effects applied (e # es) = caseA (apply_effect e)
    (\<lambda>_. apply_effects (e # applied) es)
    (\<lambda>error. bindA (roll_back_effects applied) (\<lambda>ok. raiseA (cannot_apply (ie_text error) ok)))"

definition apply_plan :: "patch_plan \<Rightarrow> (disk, string, string) act" where
  "apply_plan plan = seqA (check_unchanged (pp_effects plan)) (seqA (apply_effects [] (pp_effects plan))
     (retA (''applied patch to '' @ decimal (length (pp_paths plan)) @ '' file(s)'')))"

end
