(* ===== verification/Workspace.thy ===== *)
theory Workspace
  imports Project_Context Security Patch "HOL-Library.Product_Lexorder"
begin

section \<open>The workspace of the file tools (workspace.rs, path_policy.rs)\<close>

text \<open>
  Which paths the file tools may read and change, and how the paths a model names are resolved.
  A path is the text of a Unix path; two paths are compared by their components, as \<open>std::path\<close> does.  Resolving
  symbolic links is the parameter \<open>canon\<close>; the home directory and the \<open>{:?}\<close> format of a string
  are parameters too.  The approval controller does not change while one tool call resolves paths.
\<close>

subsection \<open>Paths (std::path)\<close>

datatype path_component = Root_Dir | Cur_Dir | Parent_Dir | Normal_Part string

definition component_key :: "path_component \<Rightarrow> nat \<times> string" where
  "component_key c = (case c of Root_Dir \<Rightarrow> (0, []) | Cur_Dir \<Rightarrow> (1, []) | Parent_Dir \<Rightarrow> (2, []) | Normal_Part s \<Rightarrow> (3, s))"

lemma component_key_inject [simp]: "component_key a = component_key b \<longleftrightarrow> a = b"
  by (auto simp: component_key_def split: path_component.splits)

text \<open>The derived order of \<open>Component\<close>; a path is ordered as the list of its components.\<close>

instantiation path_component :: linorder
begin

definition less_eq_path_component :: "path_component \<Rightarrow> path_component \<Rightarrow> bool" where
  "less_eq_path_component a b \<longleftrightarrow> component_key a \<le> component_key b"

definition less_path_component :: "path_component \<Rightarrow> path_component \<Rightarrow> bool" where
  "less_path_component a b \<longleftrightarrow> component_key a < component_key b"

instance
  by standard (auto simp: less_eq_path_component_def less_path_component_def dest: antisym)

end

definition path_part :: "string \<Rightarrow> path_component" where
  "path_part s = (if s = ''..'' then Parent_Dir else Normal_Part s)"

definition is_absolute :: "string \<Rightarrow> bool" where
  "is_absolute p \<longleftrightarrow> starts_with ''/'' p"

definition path_components :: "string \<Rightarrow> path_component list" where
  "path_components p = (if is_absolute p then [Root_Dir] else if hd (split_on (CHR ''/'') p) = ''.'' then [Cur_Dir] else [])
     @ map path_part (filter (\<lambda>s. s \<notin> {[], ''.''}) (split_on (CHR ''/'') p))"

definition same_text_path :: "string \<Rightarrow> string \<Rightarrow> bool" where
  "same_text_path p q \<longleftrightarrow> path_components p = path_components q"

definition path_in :: "string \<Rightarrow> string \<Rightarrow> bool" where
  "path_in root p \<longleftrightarrow> take (length (path_components root)) (path_components p) = path_components root"

definition path_join :: "string \<Rightarrow> string \<Rightarrow> string" where
  "path_join a b = (if is_absolute b then b else if a = [] \<or> ends_with ''/'' a then a @ b else a @ ''/'' @ b)"

definition component_text :: "path_component \<Rightarrow> string" where
  "component_text c = (case c of Root_Dir \<Rightarrow> ''/'' | Cur_Dir \<Rightarrow> ''.'' | Parent_Dir \<Rightarrow> ''..'' | Normal_Part s \<Rightarrow> s)"

definition of_components :: "path_component list \<Rightarrow> string" where
  "of_components cs = fold (\<lambda>c p. path_join p (component_text c)) cs []"

definition parent_of :: "string \<Rightarrow> string option" where
  "parent_of p = (case rev (path_components p) of
     [] \<Rightarrow> None | Root_Dir # _ \<Rightarrow> None | _ # cs \<Rightarrow> Some (of_components (rev cs)))"

definition file_name_of :: "string \<Rightarrow> string option" where
  "file_name_of p = (case rev (path_components p) of Normal_Part s # _ \<Rightarrow> Some s | _ \<Rightarrow> None)"

definition eq_ignore_ascii_case :: "string \<Rightarrow> string \<Rightarrow> bool" where
  "eq_ignore_ascii_case a b \<longleftrightarrow> to_ascii_lowercase a = to_ascii_lowercase b"

definition has_git_component :: "string \<Rightarrow> bool" where
  "has_git_component p \<longleftrightarrow> list_ex (\<lambda>c. case c of Normal_Part s \<Rightarrow> eq_ignore_ascii_case s ''.git'' | _ \<Rightarrow> False) (path_components p)"

subsection \<open>Path policy (path_policy.rs)\<close>

record workspace_env =
  we_canon :: canon
  we_home :: "string option"
  we_debug :: "string \<Rightarrow> string"

type_synonym 'a tool_io = "(disk, string, 'a) act"

definition normalize_path :: "workspace_env \<Rightarrow> string \<Rightarrow> string tool_io" where
  "normalize_path env p = caseA (fs_canonicalize (we_canon env) p) retA (\<lambda>_. case parent_of p of
     None \<Rightarrow> retA p
   | Some parent \<Rightarrow> caseA (fs_canonicalize (we_canon env) parent)
       (\<lambda>q. case file_name_of p of Some name \<Rightarrow> retA (path_join q name) | None \<Rightarrow> retA p) (\<lambda>_. retA p))"

definition same_path :: "workspace_env \<Rightarrow> string \<Rightarrow> string \<Rightarrow> bool tool_io" where
  "same_path env left right = (if same_text_path left right then retA True
     else bindA (normalize_path env left) (\<lambda>l. bindA (normalize_path env right) (\<lambda>r. retA (same_text_path l r))))"

text \<open>The loop over the components keeps the first name and gives up at anything else.\<close>

fun plan_alias_name :: "path_component list \<Rightarrow> string option \<Rightarrow> string option option" where
  "plan_alias_name [] name = Some name"
| "plan_alias_name (Cur_Dir # cs) name = plan_alias_name cs name"
| "plan_alias_name (Normal_Part s # cs) None = plan_alias_name cs (Some s)"
| "plan_alias_name _ _ = None"

definition is_plan_md_alias :: "string \<Rightarrow> bool" where
  "is_plan_md_alias p \<longleftrightarrow> (case plan_alias_name (path_components p) None of
     Some (Some name) \<Rightarrow> eq_ignore_ascii_case name ''plan.md'' | _ \<Rightarrow> False)"

definition plan_scratch_relative_rest :: "string \<Rightarrow> string option" where
  "plan_scratch_relative_rest p = (case path_components p of
     Normal_Part a # Normal_Part b # rest \<Rightarrow>
       if eq_ignore_ascii_case a ''plan'' \<and> eq_ignore_ascii_case b ''scratch'' \<and> rest \<noteq> [] then Some (of_components rest) else None
   | _ \<Rightarrow> None)"

fun normal_parts :: "path_component list \<Rightarrow> string list option" where
  "normal_parts [] = Some []"
| "normal_parts (Cur_Dir # cs) = normal_parts cs"
| "normal_parts (Normal_Part s # cs) = map_option (Cons s) (normal_parts cs)"
| "normal_parts _ = None"

definition goal_relative_rest :: "string \<Rightarrow> string option" where
  "goal_relative_rest p = (case normal_parts (path_components p) of
     Some (name # rest) \<Rightarrow> if eq_ignore_ascii_case name ''goal'' \<and> rest \<noteq> [] then Some (of_components (map Normal_Part rest)) else None
   | _ \<Rightarrow> None)"

definition is_under_dir :: "workspace_env \<Rightarrow> string \<Rightarrow> string \<Rightarrow> bool tool_io" where
  "is_under_dir env p dir = bindA (normalize_path env p) (\<lambda>q. bindA (normalize_path env dir) (\<lambda>e.
     retA (path_in e q \<and> \<not> same_text_path q e)))"

subsection \<open>The workspace (workspace.rs)\<close>

record workspace =
  ws_root :: string
  ws_extra_read_roots :: "string list"
  ws_session_read_roots :: "string list"
  ws_skill_read_roots :: "string list"
  ws_extra_write_roots :: "string list"

text \<open>The canonical forms of those of the given paths that are directories.\<close>

fun canonical_dirs :: "workspace_env \<Rightarrow> string list \<Rightarrow> (string list) tool_io" where
  "canonical_dirs env [] = retA []"
| "canonical_dirs env (p # ps) = caseA (fs_canonicalize (we_canon env) p)
    (\<lambda>q. caseA (fs_is_dir q) (\<lambda>there. bindA (canonical_dirs env ps) (\<lambda>qs. retA (if there then q # qs else qs))) (\<lambda>e. raiseA (ie_text e)))
    (\<lambda>_. canonical_dirs env ps)"

fun dedup_paths :: "string list \<Rightarrow> string list" where
  "dedup_paths (p # q # ps) = (if same_text_path p q then dedup_paths (p # ps) else p # dedup_paths (q # ps))"
| "dedup_paths ps = ps"

definition skill_read_roots :: "workspace_env \<Rightarrow> string list \<Rightarrow> (string list) tool_io" where
  "skill_read_roots env paths = bindA (canonical_dirs env paths) (\<lambda>roots. retA (dedup_paths (sort_key path_components roots)))"

definition with_read_roots_and_skill_roots ::
  "workspace_env \<Rightarrow> string \<Rightarrow> string list \<Rightarrow> string list \<Rightarrow> string list \<Rightarrow> string list \<Rightarrow> workspace tool_io" where
  "with_read_roots_and_skill_roots env root extra_read session_read skill_read extra_write =
    bindA (map_errA (\<lambda>e. ''invalid workspace: '' @ ie_text e) (fs_canonicalize (we_canon env) root)) (\<lambda>root'.
    bindA (canonical_dirs env extra_read) (\<lambda>reads.
    bindA (canonical_dirs env session_read) (\<lambda>sessions.
    bindA (canonical_dirs env extra_write) (\<lambda>writes.
    retA \<lparr>ws_root = root', ws_extra_read_roots = filter (\<lambda>p. \<not> path_in root' p) reads, ws_session_read_roots = sessions,
      ws_skill_read_roots = skill_read, ws_extra_write_roots = filter (\<lambda>p. \<not> path_in root' p) writes\<rparr>))))"

definition skill_allows :: "workspace \<Rightarrow> string \<Rightarrow> bool" where
  "skill_allows ws p \<longleftrightarrow> list_ex (\<lambda>root. path_in root p) (ws_skill_read_roots ws)"

definition strictly_in :: "string list \<Rightarrow> string \<Rightarrow> bool" where
  "strictly_in roots p \<longleftrightarrow> list_ex (\<lambda>root. path_in root p \<and> \<not> same_text_path p root) roots"

definition is_write_path :: "workspace \<Rightarrow> string \<Rightarrow> bool" where
  "is_write_path ws p \<longleftrightarrow> path_in (ws_root ws) p \<or> list_ex (\<lambda>root. path_in root p) (ws_extra_write_roots ws)"

definition is_read_only_path :: "workspace \<Rightarrow> string \<Rightarrow> bool" where
  "is_read_only_path ws p \<longleftrightarrow> list_ex (\<lambda>root. path_in root p) (ws_session_read_roots ws)
     \<or> (skill_allows ws p \<and> \<not> is_write_path ws p)
     \<or> (list_ex (\<lambda>root. path_in root p) (ws_extra_read_roots ws) \<and> \<not> is_write_path ws p)"

definition allows_outside_paths :: "approval_controller \<Rightarrow> bool" where
  "allows_outside_paths c \<longleftrightarrow> sp_preset (ac_policy c) = Preset_FullMachine"

definition escapes_text :: string where "escapes_text = ''path escapes the workspace''"

definition ensure_inside :: "workspace \<Rightarrow> approval_controller \<Rightarrow> string \<Rightarrow> string + string" where
  "ensure_inside ws c p = (if has_git_component p then Inl escapes_text else if allows_outside_paths c then Inr p
     else if is_write_path ws p then Inr p else Inl escapes_text)"

definition ensure_readable :: "workspace \<Rightarrow> approval_controller \<Rightarrow> string \<Rightarrow> string + string" where
  "ensure_readable ws c p = (if has_git_component p then Inl escapes_text else if allows_outside_paths c then Inr p
     else (case ensure_inside ws c p of
         Inr q \<Rightarrow> Inr q
       | Inl _ \<Rightarrow> if strictly_in (ws_extra_read_roots ws) p \<or> strictly_in (ws_session_read_roots ws) p
           \<or> strictly_in (ws_skill_read_roots ws) p then Inr p else Inl escapes_text))"

text \<open>The files of the session that a controller opens to the tools: the living plan, its scratch
  directory and the files of the goal.\<close>

definition is_session_plan :: "workspace_env \<Rightarrow> approval_controller \<Rightarrow> string \<Rightarrow> bool tool_io" where
  "is_session_plan env c p = (case pa_session_plan (ac_plan_access c) of None \<Rightarrow> retA False | Some living \<Rightarrow> same_path env p living)"

definition scratch_of :: "approval_controller \<Rightarrow> string option" where
  "scratch_of c = plan_scratch parent_of path_join c"

definition is_plan_scratch :: "workspace_env \<Rightarrow> approval_controller \<Rightarrow> string \<Rightarrow> bool tool_io" where
  "is_plan_scratch env c p = (case scratch_of c of None \<Rightarrow> retA False | Some scratch \<Rightarrow> is_under_dir env p scratch)"

definition is_goal_artifact :: "workspace_env \<Rightarrow> approval_controller \<Rightarrow> string \<Rightarrow> bool tool_io" where
  "is_goal_artifact env c p = (case ac_goal_dir c of None \<Rightarrow> retA False | Some dir \<Rightarrow> is_under_dir env p dir)"

definition orA :: "('s, 'e, bool) act \<Rightarrow> ('s, 'e, bool) act \<Rightarrow> ('s, 'e, bool) act" where
  "orA m n = bindA m (\<lambda>b. if b then retA True else n)"

definition is_session_artifact :: "workspace_env \<Rightarrow> approval_controller \<Rightarrow> string \<Rightarrow> bool tool_io" where
  "is_session_artifact env c p = orA (is_session_plan env c p) (orA (is_plan_scratch env c p) (is_goal_artifact env c p))"

subsection \<open>Resolving the path a model names\<close>

text \<open>The aliases of the two global Skill directories, in the order they are tried.\<close>

fun skill_alias :: "workspace_env \<Rightarrow> workspace \<Rightarrow> string \<Rightarrow> (string \<times> string) list \<Rightarrow> string option tool_io" where
  "skill_alias env ws raw [] = retA None"
| "skill_alias env ws raw ((logical, actual) # aliases) = (case strip_prefix logical raw of
     None \<Rightarrow> skill_alias env ws raw aliases
   | Some rest \<Rightarrow>
       if rest \<noteq> [] \<and> \<not> starts_with ''/'' rest then skill_alias env ws raw aliases
       else caseA (fs_canonicalize (we_canon env) (path_join actual (dropWhile (\<lambda>ch. ch = CHR ''/'') rest)))
         (\<lambda>q. if skill_allows ws q then retA (Some q) else skill_alias env ws raw aliases)
         (\<lambda>_. skill_alias env ws raw aliases))"

definition skill_alias_path :: "workspace_env \<Rightarrow> workspace \<Rightarrow> string \<Rightarrow> string option tool_io" where
  "skill_alias_path env ws p = (case we_home env of
     None \<Rightarrow> retA None
   | Some home \<Rightarrow>
       let slashed = forward_slashes p;
           raw = (case strip_prefix ''./'' slashed of Some r \<Rightarrow> r | None \<Rightarrow> slashed)
       in skill_alias env ws raw [(''.mini-agent/skills'', path_join home ''.mini-agent/skills''),
            (''.agents/skills'', path_join home ''.agents/skills'')])"

definition fs_exists_tool :: "string \<Rightarrow> bool tool_io" where
  "fs_exists_tool p = map_errA ie_text (fs_exists p)"

definition fs_is_file_tool :: "string \<Rightarrow> bool tool_io" where
  "fs_is_file_tool p = map_errA ie_text (fs_is_file p)"

definition workspace_candidate :: "workspace_env \<Rightarrow> workspace \<Rightarrow> string \<Rightarrow> string tool_io" where
  "workspace_candidate env ws raw = (if is_absolute raw then retA raw
     else if Parent_Dir \<in> set (path_components raw) \<or> Root_Dir \<in> set (path_components raw)
     then raiseA ''path must be relative, remain in the workspace, and avoid .git''
     else bindA (fs_exists_tool (path_join (ws_root ws) raw)) (\<lambda>there. if there then retA (path_join (ws_root ws) raw)
       else bindA (skill_alias_path env ws raw) (\<lambda>found. case found of
           Some q \<Rightarrow> retA q | None \<Rightarrow> retA (path_join (ws_root ws) raw))))"

definition candidate :: "workspace_env \<Rightarrow> workspace \<Rightarrow> approval_controller \<Rightarrow> string \<Rightarrow> string tool_io" where
  "candidate env ws c raw =
    (if raw = [] \<or> has_git_component raw
     then raiseA ''path must remain in the workspace or a configured extension root, and avoid .git''
     else (case (pa_session_plan (ac_plan_access c), is_plan_md_alias raw) of
       (Some living, True) \<Rightarrow> retA living
     | _ \<Rightarrow> (case (scratch_of c, plan_scratch_relative_rest raw) of
       (Some scratch, Some rest) \<Rightarrow> retA (path_join scratch rest)
     | _ \<Rightarrow> (case (ac_goal_dir c, goal_relative_rest raw) of
       (Some dir, Some rest) \<Rightarrow> retA (path_join dir rest)
     | _ \<Rightarrow> workspace_candidate env ws raw))))"

definition existing_path :: "workspace_env \<Rightarrow> workspace \<Rightarrow> approval_controller \<Rightarrow> string \<Rightarrow> string tool_io" where
  "existing_path env ws c raw = bindA (candidate env ws c raw) (\<lambda>p.
     map_errA (\<lambda>e. ''cannot resolve path: '' @ ie_text e) (fs_canonicalize (we_canon env) p))"

definition ofA :: "string + 'a \<Rightarrow> ('s, string, 'a) act" where
  "ofA r = (case r of Inl e \<Rightarrow> raiseA e | Inr x \<Rightarrow> retA x)"

definition read_path :: "workspace_env \<Rightarrow> workspace \<Rightarrow> approval_controller \<Rightarrow> string \<Rightarrow> string tool_io" where
  "read_path env ws c raw = bindA (existing_path env ws c raw) (\<lambda>p. bindA (is_session_artifact env c p) (\<lambda>artifact.
     if artifact then retA p else ofA (ensure_readable ws c p)))"

text \<open>A path and whether reading it must be approved.\<close>

definition local_file_path_with_admission ::
  "workspace_env \<Rightarrow> workspace \<Rightarrow> approval_controller \<Rightarrow> string \<Rightarrow> (string \<times> bool) tool_io" where
  "local_file_path_with_admission env ws c raw =
    bindA (existing_path env ws c raw) (\<lambda>p. bindA (is_session_artifact env c p) (\<lambda>artifact.
    if artifact then retA (p, False)
    else if ensure_readable ws c p = Inr p then retA (p, False)
    else if has_git_component p then raiseA escapes_text
    else bindA (fs_is_file_tool p) (\<lambda>plain. if \<not> plain then raiseA (''cannot read \"'' @ p @ ''\": not a regular file'')
      else retA (p, True))))"

definition mutate_path :: "workspace_env \<Rightarrow> workspace \<Rightarrow> approval_controller \<Rightarrow> string \<Rightarrow> string tool_io" where
  "mutate_path env ws c raw =
    bindA (existing_path env ws c raw) (\<lambda>p. bindA (is_session_artifact env c p) (\<lambda>artifact.
    if artifact then retA p
    else if is_read_only_path ws p then raiseA ''path is read-only''
    else seqA (ofA (ensure_plan_mode_unlocked c))
      (if allows_outside_paths c \<or> is_write_path ws p \<or> is_absolute p then retA p else raiseA escapes_text)))"

definition create_path :: "workspace_env \<Rightarrow> workspace \<Rightarrow> approval_controller \<Rightarrow> string \<Rightarrow> string tool_io" where
  "create_path env ws c raw =
    bindA (candidate env ws c raw) (\<lambda>p. bindA (is_session_artifact env c p) (\<lambda>artifact. bindA (fs_exists_tool p) (\<lambda>there.
    if there \<and> \<not> artifact then raiseA ''file already exists; use apply_patch for existing files''
    else seqA (if artifact then retA () else ofA (ensure_plan_mode_unlocked c))
      (if \<not> artifact \<and> is_read_only_path ws p then raiseA ''path is read-only''
       else (case parent_of p of
           None \<Rightarrow> raiseA ''path has no parent''
         | Some up \<Rightarrow> bindA (map_errA (\<lambda>e. ''parent directory must exist: '' @ ie_text e) (fs_canonicalize (we_canon env) up)) (\<lambda>parent.
             if \<not> artifact \<and> \<not> allows_outside_paths c \<and> \<not> is_write_path ws parent \<and> \<not> is_absolute p then raiseA escapes_text
             else (case file_name_of p of
                 None \<Rightarrow> raiseA ''path has no file name'' | Some name \<Rightarrow> retA (path_join parent name))))))))"

end
