(* ===== verification/File_Tools.thy ===== *)
theory File_Tools
  imports Workspace Result_Store Text_Cut
begin

section \<open>The tools \<open>apply_patch\<close> and \<open>read_file\<close> (workspace/patch.rs, workspace/files.rs)\<close>

text \<open>
  The preparation of a patch against the workspace and the disk, its admission and execution, and
  the pages of \<open>read_file\<close> with their budget for Skill files.
\<close>

definition string_arg :: "'v value_api \<Rightarrow> 'v \<Rightarrow> string \<Rightarrow> string + string" where
  "string_arg js arguments name = (case Option.bind (va_get js arguments name) (va_as_str js) of
     None \<Rightarrow> Inl (name @ '' must be a string'') | Some s \<Rightarrow> Inr s)"

text \<open>\<open>detect_image\<close> of image.rs: the magic bytes of the four formats.\<close>

definition detect_image :: "string \<Rightarrow> string option" where
  "detect_image bytes =
    (if starts_with (utf8_bytes [0x89, 0x50, 0x4E, 0x47, 0x0D, 0x0A, 0x1A, 0x0A]) bytes then Some ''image/png''
     else if starts_with (utf8_bytes [0xFF, 0xD8, 0xFF]) bytes then Some ''image/jpeg''
     else if starts_with ''GIF87a'' bytes \<or> starts_with ''GIF89a'' bytes then Some ''image/gif''
     else if 12 \<le> length bytes \<and> starts_with ''RIFF'' bytes \<and> take 4 (drop 8 bytes) = ''WEBP'' then Some ''image/webp''
     else None)"

subsection \<open>Preparing a patch\<close>

record patch_draft =
  pd_seen :: "string list"
  pd_effects :: "file_effect list"
  pd_paths :: "string list"

definition validate_patch_path :: "string \<Rightarrow> string + unit" where
  "validate_patch_path p =
    (if p = [] \<or> has_git_component p \<or> Parent_Dir \<in> set (path_components p)
       \<or> (\<not> is_absolute p \<and> Root_Dir \<in> set (path_components p))
     then Inl ''patch paths must be relative registered roots or an absolute explicitly approved path, and avoid .git''
     else Inr ())"

definition reserve_path :: "string \<Rightarrow> patch_draft \<Rightarrow> string + patch_draft" where
  "reserve_path p pd = (if list_ex (same_text_path p) (pd_seen pd)
     then Inl (''patch references the same file more than once: '' @ p) else Inr (pd\<lparr>pd_seen := p # pd_seen pd\<rparr>))"

definition ensure_file_size :: "string \<Rightarrow> string + unit" where
  "ensure_file_size text = (if max_write_bytes < length text
     then Inl (''patched file exceeds '' @ decimal max_write_bytes @ '' byte write limit'') else Inr ())"

definition read_bytes :: "workspace_env \<Rightarrow> string \<Rightarrow> string tool_io" where
  "read_bytes env p = bindA (fs_is_file_tool p) (\<lambda>plain.
     if \<not> plain then raiseA (''cannot patch '' @ we_debug env p @ '': not a regular file'')
     else bindA (map_errA ie_text (fs_read_bytes p)) (\<lambda>bytes.
       if max_write_bytes < length bytes then raiseA (''file exceeds '' @ decimal max_write_bytes @ '' byte patch limit'')
       else retA bytes))"

definition read_text :: "workspace_env \<Rightarrow> string \<Rightarrow> string tool_io" where
  "read_text env p = bindA (read_bytes env p) (\<lambda>bytes.
     if detect_image bytes \<noteq> None then raiseA ''apply_patch only supports UTF-8 text files; use read_image for images''
     else if \<not> utf8 bytes then raiseA ''apply_patch only supports UTF-8 text files'' else retA bytes)"

definition add_effect :: "file_effect \<Rightarrow> patch_draft \<Rightarrow> patch_draft" where
  "add_effect e pd = pd\<lparr>pd_effects := pd_effects pd @ [e]\<rparr>"

definition add_path :: "string \<Rightarrow> patch_draft \<Rightarrow> patch_draft" where
  "add_path p pd = pd\<lparr>pd_paths := pd_paths pd @ [p]\<rparr>"

definition prepare_add :: "workspace_env \<Rightarrow> workspace \<Rightarrow> approval_controller \<Rightarrow> string \<Rightarrow> string list \<Rightarrow> patch_draft \<Rightarrow> patch_draft tool_io" where
  "prepare_add env ws c path lines pd =
    seqA (ofA (validate_patch_path path))
    (bindA (create_path env ws c path) (\<lambda>resolved. bindA (fs_exists_tool resolved) (\<lambda>there.
     if there then bindA (is_session_artifact env c resolved) (\<lambda>artifact.
       if artifact then raiseA (''cannot add existing Session-owned Plan or Goal artifact '' @ we_debug env path @ ''; use *** Update File instead'')
       else raiseA (''cannot add '' @ we_debug env resolved @ '': file already exists''))
     else bindA (ofA (reserve_path resolved pd)) (\<lambda>pd'. seqA (ofA (ensure_file_size (lines_to_text lines)))
       (retA (add_path path (add_effect \<lparr>fe_path = resolved, fe_before = None, fe_after = Some (lines_to_text lines)\<rparr> pd')))))))"

definition prepare_delete :: "workspace_env \<Rightarrow> workspace \<Rightarrow> approval_controller \<Rightarrow> string \<Rightarrow> patch_draft \<Rightarrow> patch_draft tool_io" where
  "prepare_delete env ws c path pd =
    seqA (ofA (validate_patch_path path))
    (bindA (mutate_path env ws c path) (\<lambda>resolved. bindA (ofA (reserve_path resolved pd)) (\<lambda>pd'.
     bindA (read_bytes env resolved) (\<lambda>before.
     retA (add_path path (add_effect \<lparr>fe_path = resolved, fe_before = Some before, fe_after = None\<rparr> pd'))))))"

definition prepare_move ::
  "workspace_env \<Rightarrow> workspace \<Rightarrow> approval_controller \<Rightarrow> string \<Rightarrow> string \<Rightarrow> string \<Rightarrow> string \<Rightarrow> string \<Rightarrow> patch_draft \<Rightarrow> patch_draft tool_io" where
  "prepare_move env ws c path move_to resolved before updated pd =
    seqA (ofA (validate_patch_path move_to))
    (bindA (create_path env ws c move_to) (\<lambda>destination.
     if same_text_path resolved destination then raiseA ''patch move target must differ from source''
     else bindA (fs_exists_tool destination) (\<lambda>there.
       if there then raiseA (''cannot move to '' @ we_debug env destination @ '': file already exists'')
       else bindA (ofA (reserve_path resolved pd)) (\<lambda>pd1. bindA (ofA (reserve_path destination pd1)) (\<lambda>pd2.
         retA (add_path (path @ '' -> '' @ move_to)
           (add_effect \<lparr>fe_path = destination, fe_before = None, fe_after = Some updated\<rparr>
             (add_effect \<lparr>fe_path = resolved, fe_before = Some before, fe_after = None\<rparr> pd2))))))))"

definition prepare_update ::
  "workspace_env \<Rightarrow> workspace \<Rightarrow> approval_controller \<Rightarrow> string \<Rightarrow> string option \<Rightarrow> hunk list \<Rightarrow> patch_draft \<Rightarrow> patch_draft tool_io" where
  "prepare_update env ws c path move_to hunks pd =
    seqA (ofA (validate_patch_path path))
    (bindA (mutate_path env ws c path) (\<lambda>resolved. bindA (read_text env resolved) (\<lambda>original.
     bindA (ofA (map_sum hunk_error_text id (apply_hunks original hunks))) (\<lambda>updated.
     seqA (ofA (ensure_file_size updated))
     (case move_to of
        Some target \<Rightarrow> prepare_move env ws c path target resolved original updated pd
      | None \<Rightarrow> bindA (ofA (reserve_path resolved pd)) (\<lambda>pd'.
          retA (add_path path (add_effect \<lparr>fe_path = resolved, fe_before = Some original, fe_after = Some updated\<rparr> pd'))))))))"

definition prepare_operation ::
  "workspace_env \<Rightarrow> workspace \<Rightarrow> approval_controller \<Rightarrow> raw_operation \<Rightarrow> patch_draft \<Rightarrow> patch_draft tool_io" where
  "prepare_operation env ws c op pd = (case op of
     Add_Operation path lines \<Rightarrow> prepare_add env ws c path lines pd
   | Delete_Operation path \<Rightarrow> prepare_delete env ws c path pd
   | Update_Operation path move_to hunks \<Rightarrow> prepare_update env ws c path move_to hunks pd)"

fun prepare_operations ::
  "workspace_env \<Rightarrow> workspace \<Rightarrow> approval_controller \<Rightarrow> raw_operation list \<Rightarrow> patch_draft \<Rightarrow> patch_draft tool_io" where
  "prepare_operations env ws c [] pd = retA pd"
| "prepare_operations env ws c (op # ops) pd = bindA (prepare_operation env ws c op pd) (prepare_operations env ws c ops)"

definition empty_draft :: patch_draft where
  "empty_draft = \<lparr>pd_seen = [], pd_effects = [], pd_paths = []\<rparr>"

definition prepare_patch ::
  "workspace_env \<Rightarrow> 'v value_api \<Rightarrow> workspace \<Rightarrow> approval_controller \<Rightarrow> 'v \<Rightarrow> patch_plan tool_io" where
  "prepare_patch env js ws c arguments =
    bindA (ofA (string_arg js arguments ''patch'')) (\<lambda>patch.
    if patch = [] \<or> max_patch_bytes < length patch
    then raiseA (''patch must contain 1..='' @ decimal max_patch_bytes @ '' bytes'')
    else bindA (ofA (map_sum (patch_error_text (we_debug env)) id (parse_patch patch))) (\<lambda>ops.
      bindA (prepare_operations env ws c ops empty_draft) (\<lambda>pd.
      retA \<lparr>pp_effects = pd_effects pd, pp_paths = pd_paths pd\<rparr>)))"

subsection \<open>Admitting and executing a patch\<close>

definition canonical_target_paths :: "patch_plan \<Rightarrow> string list" where
  "canonical_target_paths plan = remdups_adj (sort (map fe_path (pp_effects plan)))"

definition count_files :: "nat list \<Rightarrow> nat \<Rightarrow> string list" where
  "count_files verb n = (if 0 < n
     then [utf8_bytes verb @ '' '' @ decimal n @ '' '' @ utf8_bytes [0xE4, 0xB8, 0xAA, 0xE6, 0x96, 0x87, 0xE4, 0xBB, 0xB6]] else [])"

fun join_parts :: "string list \<Rightarrow> string" where
  "join_parts [] = []"
| "join_parts [s] = s"
| "join_parts (s # ss) = s @ utf8_bytes [0x20, 0xC2, 0xB7, 0x20] @ join_parts ss"

definition patch_action_summary :: "file_effect list \<Rightarrow> string" where
  "patch_action_summary effects =
    (let added = length (filter (\<lambda>e. fe_before e = None \<and> fe_after e \<noteq> None) effects);
         updated = length (filter (\<lambda>e. fe_before e \<noteq> None \<and> fe_after e \<noteq> None) effects);
         deleted = length (filter (\<lambda>e. fe_after e = None) effects);
         parts = count_files [0xE6, 0x96, 0xB0, 0xE5, 0xA2, 0x9E] added @ count_files [0xE4, 0xBF, 0xAE, 0xE6, 0x94, 0xB9] updated
           @ count_files [0xE5, 0x88, 0xA0, 0xE9, 0x99, 0xA4] deleted
     in if parts = [] then ''apply_patch'' else ''apply_patch'' @ utf8_bytes [0x20, 0xC2, 0xB7, 0x20] @ join_parts parts)"

text \<open>\<open>any\<close> stops at the first effect outside the session's own files and the writable roots.\<close>

fun has_external_path :: "workspace_env \<Rightarrow> workspace \<Rightarrow> approval_controller \<Rightarrow> file_effect list \<Rightarrow> bool tool_io" where
  "has_external_path env ws c [] = retA False"
| "has_external_path env ws c (e # es) = bindA (is_session_artifact env c (fe_path e)) (\<lambda>artifact.
     if \<not> artifact \<and> \<not> is_write_path ws (fe_path e) then retA True else has_external_path env ws c es)"

definition deny_checks :: "approval_controller \<Rightarrow> file_effect list \<Rightarrow> string + unit" where
  "deny_checks c es = fold (\<lambda>e r. case r of Inl x \<Rightarrow> Inl x | Inr _ \<Rightarrow> ensure_not_denied (''edit '' @ fe_path e) c) es (Inr ())"

definition patch_admission ::
  "workspace_env \<Rightarrow> 'v value_api \<Rightarrow> workspace \<Rightarrow> approval_controller \<Rightarrow> 'v \<Rightarrow> tool_admission tool_io" where
  "patch_admission env js ws c arguments =
    bindA (prepare_patch env js ws c arguments) (\<lambda>plan.
    bindA (has_external_path env ws c (pp_effects plan)) (\<lambda>external.
    if \<not> external \<and> ac_approval_policy c = Trusted \<and> list_all (\<lambda>e. fe_after e \<noteq> None) (pp_effects plan)
    then seqA (ofA (deny_checks c (pp_effects plan))) (retA (Allowed (canonical_target_paths plan)))
    else retA (ApprovalRequired ''apply_patch'' (canonical_target_paths plan) (Some (patch_action_summary (pp_effects plan))))))"

definition into_tool_outcome :: "(string, string) outcome \<Rightarrow> tool_execution_outcome" where
  "into_tool_outcome r = (case r of Done s \<Rightarrow> outcome_completed s | Raised e \<Rightarrow> outcome_failed e | Out_of_fuel \<Rightarrow> outcome_failed [])"

definition patch_result ::
  "workspace_env \<Rightarrow> 'v value_api \<Rightarrow> workspace \<Rightarrow> approval_controller \<Rightarrow> 'v \<Rightarrow> tool_admission \<Rightarrow> string tool_io" where
  "patch_result env js ws c arguments admission =
    bindA (prepare_patch env js ws c arguments) (\<lambda>plan. case admission_target_paths admission of
        None \<Rightarrow> raiseA ''patch has no target admission''
      | Some admitted \<Rightarrow>
          if admitted \<noteq> canonical_target_paths plan then raiseA ''patch targets changed after admission; retry the tool call''
          else apply_plan plan)"

definition patch_execute_after_admission ::
  "workspace_env \<Rightarrow> 'v value_api \<Rightarrow> workspace \<Rightarrow> approval_controller \<Rightarrow> 'v \<Rightarrow> tool_admission \<Rightarrow> disk
    \<Rightarrow> tool_execution_outcome \<times> disk" where
  "patch_execute_after_admission env js ws c arguments admission d =
    (case patch_result env js ws c arguments admission d of (r, d') \<Rightarrow> (into_tool_outcome r, d'))"

definition patch_execute ::
  "workspace_env \<Rightarrow> 'v value_api \<Rightarrow> workspace \<Rightarrow> disk approval_callback \<Rightarrow> 'v
    \<Rightarrow> (approval_controller \<times> disk, string, string) act" where
  "patch_execute env js ws callback arguments = (\<lambda>(c, d).
    case prepare_patch env js ws c arguments d of
      (Done plan, d1) \<Rightarrow>
        (case approve callback (''apply patch to '' @ decimal (length (pp_paths plan)) @ '' file(s)'') (c, d1) of
           (Inl e, x) \<Rightarrow> (Raised e, x)
         | (Inr _, (c', d2)) \<Rightarrow> (case apply_plan plan d2 of (r, d3) \<Rightarrow> (r, (c', d3))))
    | (Raised e, d1) \<Rightarrow> (Raised e, (c, d1))
    | (Out_of_fuel, d1) \<Rightarrow> (Out_of_fuel, (c, d1)))"

subsection \<open>Reading pages of files\<close>

definition max_read_source_bytes :: nat where "max_read_source_bytes = 8 * 1024 * 1024"

definition default_read_lines :: nat where "default_read_lines = 200"

definition max_read_lines :: nat where "max_read_lines = 2000"

definition max_read_page_bytes :: nat where "max_read_page_bytes = 15 * 1024"

definition max_skill_read_bytes :: nat where "max_skill_read_bytes = 64 * 1024"

record skill_read_budget =
  sb_turn_id :: "string option"
  sb_bytes :: nat

definition budget_record :: "string option \<Rightarrow> nat \<Rightarrow> skill_read_budget \<Rightarrow> (string + unit) \<times> skill_read_budget" where
  "budget_record turn bytes b = (case turn of
     None \<Rightarrow> (Inr (), b)
   | Some t \<Rightarrow>
       let b1 = (if sb_turn_id b \<noteq> Some t then \<lparr>sb_turn_id = Some t, sb_bytes = 0\<rparr> else b);
           count = sat_add (sb_bytes b1) bytes
       in if max_skill_read_bytes < count
          then (Inl (''skill file reads exceed '' @ decimal max_skill_read_bytes @ '' bytes for this turn''), b1)
          else (Inr (), b1\<lparr>sb_bytes := count\<rparr>))"

definition record_skill_read :: "workspace \<Rightarrow> string \<Rightarrow> string option \<Rightarrow> nat \<Rightarrow> skill_read_budget \<Rightarrow> (string + unit) \<times> skill_read_budget" where
  "record_skill_read ws p turn bytes b = (if skill_allows ws p then budget_record turn bytes b else (Inr (), b))"

definition bounded_usize :: "'v value_api \<Rightarrow> 'v \<Rightarrow> string \<Rightarrow> nat \<Rightarrow> nat \<Rightarrow> string + nat" where
  "bounded_usize js arguments name default_value maximum = (case va_get js arguments name of
     None \<Rightarrow> Inr default_value
   | Some v \<Rightarrow> (case va_as_u64 js v of
       None \<Rightarrow> Inl (name @ '' must be a non-negative integer'')
     | Some n \<Rightarrow> if maximum < n \<or> (name = ''limit'' \<and> n = 0)
         then Inl (name @ '' must be '' @ (if name = ''limit'' then ''1'' else ''0'') @ ''..='' @ decimal maximum)
         else Inr n))"

definition clipped_marker :: string where
  "clipped_marker = utf8_bytes [0x20, 0xE2, 0x80, 0xA6] @ ''[line truncated]'' @ [newline_byte]"

definition body_limit :: nat where "body_limit = max_read_page_bytes - 180"

definition line_prefix :: "nat \<Rightarrow> string" where
  "line_prefix cursor = decimal (cursor + 1) @ '': ''"

text \<open>The loop over the lines of a page: the text, the cursor after it, and whether a line was clipped.\<close>

fun page_body :: "string list \<Rightarrow> nat \<Rightarrow> string \<Rightarrow> string \<times> nat \<times> bool" where
  "page_body [] cursor out = (out, cursor, False)"
| "page_body (line # rest) cursor out =
    (if length out + (length (line_prefix cursor) + length line + 1) \<le> body_limit
     then page_body rest (cursor + 1) (out @ line_prefix cursor @ line @ [newline_byte])
     else (out @ line_prefix cursor
         @ take (floor_char_boundary line (body_limit - (length out + length (line_prefix cursor) + length clipped_marker))) line
         @ clipped_marker, cursor + 1, True))"

definition page_header :: "string \<Rightarrow> nat \<Rightarrow> nat \<Rightarrow> nat \<Rightarrow> string" where
  "page_header p count offset wanted = ''--- file: '' @ p @ '' | total_lines='' @ decimal count @ '' | offset='' @ decimal offset
     @ '' | limit='' @ decimal wanted @ '' ---'' @ [newline_byte]"

definition page_notice :: "nat \<Rightarrow> nat \<Rightarrow> string" where
  "page_notice cursor count = (if cursor < count
     then ''[page boundary: next_offset='' @ decimal cursor @ ''; call read_file with the same path and this offset]'' @ [newline_byte]
     else [])"

definition clip_notice :: "bool \<Rightarrow> string" where
  "clip_notice clipped = (if clipped
     then ''[one source line was clipped to keep this tool result below the harness limit]'' @ [newline_byte] else [])"

definition format_read_page :: "string \<Rightarrow> string \<Rightarrow> nat \<Rightarrow> nat \<Rightarrow> string" where
  "format_read_page p text offset wanted =
    (let lines = text_lines (crlf_to_lf text); count = length lines;
         requested_end = min (sat_add offset wanted) count; start = min offset count
     in case page_body (take (requested_end - start) (drop start lines)) start (page_header p count offset wanted) of
          (out, cursor, clipped) \<Rightarrow> out @ page_notice cursor count @ clip_notice clipped)"

definition read_file_page ::
  "workspace_env \<Rightarrow> 'v value_api \<Rightarrow> workspace \<Rightarrow> string \<Rightarrow> 'v \<Rightarrow> string option \<Rightarrow> (skill_read_budget \<times> disk, string, string) act" where
  "read_file_page env js ws p arguments turn = (\<lambda>(b, d).
    case bindA (fs_is_file_tool p) (\<lambda>plain.
      if \<not> plain then raiseA (''cannot read '' @ we_debug env p @ '': not a regular file'')
      else seqA (map_errA ie_text (fs_open p)) (bindA (map_errA ie_text (fs_read_bytes p)) (\<lambda>bytes.
        if max_read_source_bytes < length bytes then raiseA (''file exceeds '' @ decimal max_read_source_bytes @ '' byte source limit'')
        else if detect_image bytes \<noteq> None then raiseA ''file is not UTF-8; use read_image for PNG/JPEG/GIF/WebP''
        else if \<not> utf8 bytes then raiseA ''file is not UTF-8 text''
        else bindA (ofA (bounded_usize js arguments ''offset'' 0 u64_max)) (\<lambda>offset.
          bindA (ofA (bounded_usize js arguments ''limit'' default_read_lines max_read_lines)) (\<lambda>wanted.
          retA (format_read_page p bytes offset wanted)))))) d of
      (Done out, d') \<Rightarrow> (case record_skill_read ws p turn (length out) b of
          (Inl e, b') \<Rightarrow> (Raised e, (b', d')) | (Inr _, b') \<Rightarrow> (Done out, (b', d')))
    | (Raised e, d') \<Rightarrow> (Raised e, (b, d'))
    | (Out_of_fuel, d') \<Rightarrow> (Out_of_fuel, (b, d')))"

definition in_budget :: "'a tool_io \<Rightarrow> (skill_read_budget \<times> disk, string, 'a) act" where
  "in_budget m = (\<lambda>(b, d). case m d of (r, d') \<Rightarrow> (r, (b, d')))"

definition read_execute ::
  "workspace_env \<Rightarrow> 'v value_api \<Rightarrow> workspace \<Rightarrow> approval_controller \<Rightarrow> 'v \<Rightarrow> (skill_read_budget \<times> disk, string, string) act" where
  "read_execute env js ws c arguments =
    bindA (in_budget (bindA (ofA (string_arg js arguments ''path'')) (read_path env ws c))) (\<lambda>p.
      read_file_page env js ws p arguments None)"

definition read_admission ::
  "workspace_env \<Rightarrow> 'v value_api \<Rightarrow> workspace \<Rightarrow> approval_controller \<Rightarrow> 'v \<Rightarrow> tool_admission tool_io" where
  "read_admission env js ws c arguments =
    bindA (bindA (ofA (string_arg js arguments ''path'')) (local_file_path_with_admission env ws c)) (\<lambda>(p, requires).
      retA (if requires then ApprovalRequired (''read_file '' @ p) [p] None else Allowed [p]))"

definition verify_admitted_path :: "string \<Rightarrow> bool \<Rightarrow> tool_admission \<Rightarrow> string + unit" where
  "verify_admitted_path p requires admission = (case admission_target_paths admission of
     None \<Rightarrow> Inl ''file operation has no path admission''
   | Some targets \<Rightarrow>
       if length targets \<noteq> 1 \<or> hd targets \<noteq> p
         \<or> (case admission of ApprovalRequired _ _ _ \<Rightarrow> True | _ \<Rightarrow> False) \<noteq> requires
       then Inl ''file target changed after admission; retry the tool call'' else Inr ())"

definition read_result ::
  "workspace_env \<Rightarrow> 'v value_api \<Rightarrow> workspace \<Rightarrow> approval_controller \<Rightarrow> 'v \<Rightarrow> string option \<Rightarrow> tool_admission
    \<Rightarrow> (skill_read_budget \<times> disk, string, string) act" where
  "read_result env js ws c arguments turn admission =
    bindA (in_budget (bindA (ofA (string_arg js arguments ''path'')) (local_file_path_with_admission env ws c))) (\<lambda>(p, requires).
      seqA (ofA (verify_admitted_path p requires admission)) (read_file_page env js ws p arguments turn))"

definition read_execute_after_admission ::
  "workspace_env \<Rightarrow> 'v value_api \<Rightarrow> workspace \<Rightarrow> approval_controller \<Rightarrow> 'v \<Rightarrow> string option \<Rightarrow> tool_admission
    \<Rightarrow> skill_read_budget \<times> disk \<Rightarrow> tool_execution_outcome \<times> (skill_read_budget \<times> disk)" where
  "read_execute_after_admission env js ws c arguments turn admission x =
    (case read_result env js ws c arguments turn admission x of (r, x') \<Rightarrow> (into_tool_outcome r, x'))"

end
