(* ===== verification/Patch_Grammar.thy ===== *)
theory Patch_Grammar
  imports Patch
begin

section \<open>The grammar of patches\<close>

text \<open>
  The grammar of patches, and that the parser accepts exactly the texts of this grammar and reads
  from each the operations it was written from.
\<close>

subsection \<open>Patches as they are written\<close>

text \<open>Lines hold no newline.\<close>

definition unbroken :: "string list \<Rightarrow> bool" where
  "unbroken ls \<longleftrightarrow> (\<forall>l \<in> set ls. newline_byte \<notin> set l)"

text \<open>
  A written hunk is a header line, which may go on after its \<open>@@\<close>, lines that are kept, removed or
  added, in any order, and perhaps the marker \<open>*** End of File\<close>.
\<close>

datatype patch_line = Context_Line string | Old_Line string | New_Line string

record written_hunk =
  wh_title :: string
  wh_lines :: "patch_line list"
  wh_marked :: bool

datatype written_operation =
    Written_Add string "string list"
  | Written_Delete string
  | Written_Update string "string option" "written_hunk list"

fun line_text :: "patch_line \<Rightarrow> string" where
  "line_text (Context_Line l) = CHR '' '' # l"
| "line_text (Old_Line l) = CHR ''-'' # l"
| "line_text (New_Line l) = CHR ''+'' # l"

definition hunk_text :: "written_hunk \<Rightarrow> string list" where
  "hunk_text w = (''@@'' @ wh_title w) # map line_text (wh_lines w) @ (if wh_marked w then [end_of_file] else [])"

definition operation_text :: "written_operation \<Rightarrow> string list" where
  "operation_text w = (case w of
     Written_Add p ls \<Rightarrow> (add_header @ p) # map (Cons (CHR ''+'')) ls
   | Written_Delete p \<Rightarrow> [delete_header @ p]
   | Written_Update p mv hs \<Rightarrow> (update_header @ p) # (case mv of None \<Rightarrow> [] | Some q \<Rightarrow> [move_header @ q])
       @ concat (map hunk_text hs))"

definition patch_lines :: "written_operation list \<Rightarrow> nat \<Rightarrow> string list" where
  "patch_lines ws blank = begin_patch # concat (map operation_text ws) @ end_patch # replicate blank []"

definition patch_text :: "written_operation list \<Rightarrow> nat \<Rightarrow> string" where
  "patch_text ws blank = join_lines (patch_lines ws blank)"

text \<open>What the written operations mean: the old lines of a hunk are the kept and the removed ones, the new lines the kept and the added ones.\<close>

fun old_lines :: "patch_line list \<Rightarrow> string list" where
  "old_lines [] = []"
| "old_lines (Context_Line l # ls) = l # old_lines ls"
| "old_lines (Old_Line l # ls) = l # old_lines ls"
| "old_lines (New_Line l # ls) = old_lines ls"

fun new_lines :: "patch_line list \<Rightarrow> string list" where
  "new_lines [] = []"
| "new_lines (Context_Line l # ls) = l # new_lines ls"
| "new_lines (Old_Line l # ls) = new_lines ls"
| "new_lines (New_Line l # ls) = l # new_lines ls"

definition meant_hunk :: "written_hunk \<Rightarrow> hunk" where
  "meant_hunk w = \<lparr>hk_old = old_lines (wh_lines w), hk_new = new_lines (wh_lines w)\<rparr>"

definition meant_operation :: "written_operation \<Rightarrow> raw_operation" where
  "meant_operation w = (case w of
     Written_Add p ls \<Rightarrow> Add_Operation p ls
   | Written_Delete p \<Rightarrow> Delete_Operation p
   | Written_Update p mv hs \<Rightarrow> Update_Operation p mv (map meant_hunk hs))"

text \<open>
  The well-formed ones: paths are not empty, every hunk removes or adds a line, an update has a
  hunk or a new name, and no piece holds a newline.
\<close>

fun changing :: "patch_line \<Rightarrow> bool" where
  "changing (Context_Line l) = False"
| "changing (Old_Line l) = True"
| "changing (New_Line l) = True"

definition written_hunk_ok :: "written_hunk \<Rightarrow> bool" where
  "written_hunk_ok w \<longleftrightarrow> newline_byte \<notin> set (wh_title w) \<and> unbroken (map line_text (wh_lines w)) \<and> list_ex changing (wh_lines w)"

definition written_ok :: "written_operation \<Rightarrow> bool" where
  "written_ok w = (case w of
     Written_Add p ls \<Rightarrow> p \<noteq> [] \<and> newline_byte \<notin> set p \<and> unbroken ls
   | Written_Delete p \<Rightarrow> p \<noteq> [] \<and> newline_byte \<notin> set p
   | Written_Update p mv hs \<Rightarrow> p \<noteq> [] \<and> newline_byte \<notin> set p \<and> (mv = None \<longrightarrow> hs \<noteq> [])
       \<and> (case mv of None \<Rightarrow> True | Some q \<Rightarrow> newline_byte \<notin> set q) \<and> list_all written_hunk_ok hs)"

definition counted_lines :: "written_operation \<Rightarrow> nat" where
  "counted_lines w = (case w of
     Written_Add p ls \<Rightarrow> length ls
   | Written_Delete p \<Rightarrow> 0
   | Written_Update p mv hs \<Rightarrow> sum_list (map (\<lambda>h. length (wh_lines h)) hs))"

text \<open>A patch holds 1 to 16 operations with at most 32768 added, kept and removed lines in all.\<close>

definition patch_ok :: "written_operation list \<Rightarrow> bool" where
  "patch_ok ws \<longleftrightarrow> list_all written_ok ws \<and> ws \<noteq> [] \<and> length ws \<le> max_patch_files
     \<and> sum_list (map counted_lines ws) \<le> max_patch_lines"

lemmas headers = begin_patch_def end_patch_def add_header_def delete_header_def update_header_def move_header_def end_of_file_def

lemma unbroken_simps [simp]:
  "unbroken []" "unbroken (l # ls) \<longleftrightarrow> newline_byte \<notin> set l \<and> unbroken ls"
  "unbroken (ls @ ls') \<longleftrightarrow> unbroken ls \<and> unbroken ls'" "unbroken (replicate n [])"
  by (auto simp: unbroken_def)

lemma unbroken_map_Cons [simp]: "unbroken (map (Cons c) ls) \<longleftrightarrow> ls = [] \<or> (c \<noteq> newline_byte \<and> unbroken ls)"
  by (induction ls) auto

lemma unbroken_split: "unbroken (split_on newline_byte s)"
  by (induction s) (auto simp: unbroken_def split: list.split)

lemma unbroken_concat: "unbroken (concat lss) \<longleftrightarrow> list_all unbroken lss"
  by (induction lss) auto

lemma unbroken_new_lines: "unbroken (map line_text ls) \<Longrightarrow> unbroken (new_lines ls)"
  by (induction ls rule: new_lines.induct) auto

lemma headers_unbroken [simp]:
  "newline_byte \<notin> set begin_patch" "newline_byte \<notin> set end_patch" "newline_byte \<notin> set add_header"
  "newline_byte \<notin> set delete_header" "newline_byte \<notin> set update_header" "newline_byte \<notin> set move_header"
  "newline_byte \<notin> set end_of_file" "newline_byte \<noteq> CHR ''@''" "newline_byte \<noteq> CHR ''+''" "CHR ''+'' \<noteq> newline_byte"
  by (simp_all add: headers newline_byte_def)

lemma unbroken_hunk_text: "written_hunk_ok w \<Longrightarrow> unbroken (hunk_text w)"
  by (simp add: written_hunk_ok_def hunk_text_def)

lemma unbroken_operation_text: "written_ok w \<Longrightarrow> unbroken (operation_text w)"
  by (auto simp: written_ok_def operation_text_def unbroken_concat list_all_iff unbroken_hunk_text split: written_operation.splits option.splits)

subsection \<open>What is written is read back\<close>

text \<open>What may follow an operation: the end of the patch or the header of another one.\<close>

definition operation_ends :: "string list \<Rightarrow> bool" where
  "operation_ends rest \<longleftrightarrow> rest \<noteq> [] \<and> (hd rest = end_patch \<or> is_file_operation_header (hd rest))"

lemma starts_with_clash: "starts_with (c # p) (d # s) \<longleftrightarrow> c = d \<and> starts_with p s"
  by simp

lemma operation_ends_star: "operation_ends rest \<Longrightarrow> \<exists>s ls. rest = (CHR ''*'' # s) # ls"
  by (cases rest; cases "hd rest")
    (auto simp: operation_ends_def headers is_file_operation_header_def starts_with_clash starts_with_iff)

lemma added_lines_text:
  "operation_ends rest \<Longrightarrow> n + length ls \<le> max_patch_lines
    \<Longrightarrow> added_lines (map (Cons (CHR ''+'')) ls @ rest) n = Inr (ls, rest, n + length ls)"
proof (induction ls arbitrary: n)
  case Nil
  then obtain s ls where "rest = (CHR ''*'' # s) # ls" using operation_ends_star by blast
  then show ?case by (simp add: starts_with_clash)
qed (simp add: starts_with_clash)

lemma line_text_plain: "\<not> ends_hunk (line_text l)" "line_text l \<noteq> end_of_file"
  by (cases l; simp add: ends_hunk_def headers is_file_operation_header_def)+

lemma hunk_line_text:
  "hunk_line (line_text l) = Inr ((\<lambda>h. \<lparr>hk_old = old_lines [l] @ hk_old h, hk_new = new_lines [l] @ hk_new h\<rparr>), changing l)"
  by (cases l) (simp_all add: hunk_line_def fun_eq_iff)

lemma old_new_Cons: "old_lines (l # ls) = old_lines [l] @ old_lines ls" "new_lines (l # ls) = new_lines [l] @ new_lines ls"
  by (cases l; simp)+

lemma hunk_body_text:
  "rest \<noteq> [] \<Longrightarrow> ends_hunk (hd rest) \<Longrightarrow> n + length ls \<le> max_patch_lines
    \<Longrightarrow> hunk_body (map line_text ls @ (if marked then [end_of_file] else []) @ rest) n
      = Inr (\<lparr>hk_old = old_lines ls, hk_new = new_lines ls\<rparr>, list_ex changing ls, rest, n + length ls)"
proof (induction ls arbitrary: n)
  case Nil
  have "\<not> ends_hunk end_of_file" by (simp add: ends_hunk_def headers is_file_operation_header_def)
  then show ?case using Nil by (cases rest) auto
next
  case (Cons l ls)
  show ?case
    using Cons.IH [of "Suc n"] Cons.prems
    by (simp add: line_text_plain hunk_line_text old_new_Cons(1) [of l ls] old_new_Cons(2) [of l ls] del: old_lines.simps new_lines.simps)
qed

lemma hunk_header_line: "''@@'' @ t \<noteq> end_patch" "\<not> is_file_operation_header (''@@'' @ t)" "starts_with ''@@'' (''@@'' @ t)"
  by (simp_all add: headers is_file_operation_header_def)

lemma hunk_rest_ends:
  "operation_ends rest \<Longrightarrow> concat (map hunk_text hs) @ rest \<noteq> [] \<and> ends_hunk (hd (concat (map hunk_text hs) @ rest))"
  by (cases hs) (auto simp: operation_ends_def ends_hunk_def hunk_text_def)

lemma update_hunks_text:
  "operation_ends rest \<Longrightarrow> list_all written_hunk_ok hs \<Longrightarrow> n + sum_list (map (\<lambda>h. length (wh_lines h)) hs) \<le> max_patch_lines
    \<Longrightarrow> update_hunks (concat (map hunk_text hs) @ rest) n
      = Inr (map meant_hunk hs, rest, n + sum_list (map (\<lambda>h. length (wh_lines h)) hs))"
proof (induction hs arbitrary: n)
  case Nil
  then show ?case by (cases rest) (auto simp: operation_ends_def)
next
  case (Cons h hs)
  let ?rest = "concat (map hunk_text hs) @ rest"
  have body: "hunk_body (map line_text (wh_lines h) @ (if wh_marked h then [end_of_file] else []) @ ?rest) n
      = Inr (meant_hunk h, True, ?rest, n + length (wh_lines h))"
    using hunk_body_text [of ?rest n "wh_lines h"] hunk_rest_ends [OF Cons.prems(1), of hs] Cons.prems(2,3)
    by (simp add: written_hunk_ok_def meant_hunk_def)
  have whole: "concat (map hunk_text (h # hs)) @ rest
      = (''@@'' @ wh_title h) # map line_text (wh_lines h) @ (if wh_marked h then [end_of_file] else []) @ ?rest"
    by (simp add: hunk_text_def)
  show ?case
    unfolding whole update_hunks.simps body
    using Cons.IH [of "n + length (wh_lines h)"] Cons.prems hunk_header_line by (simp add: add.assoc)
qed

lemma operation_rest_ends: "operation_ends (concat (map operation_text ws) @ end_patch # tail)"
  by (cases ws) (auto simp: operation_ends_def operation_text_def is_file_operation_header_def split: written_operation.split)

lemma header_prefixes:
  "strip_prefix add_header (add_header @ p) = Some p" "strip_prefix add_header (delete_header @ p) = None"
  "strip_prefix add_header (update_header @ p) = None" "strip_prefix delete_header (delete_header @ p) = Some p"
  "strip_prefix delete_header (update_header @ p) = None" "strip_prefix update_header (update_header @ p) = Some p"
  "strip_prefix move_header (move_header @ p) = Some p" "strip_prefix move_header (''@@'' @ p) = None"
  by (simp_all add: strip_prefix_def headers)

lemma header_lines: "add_header @ p \<noteq> end_patch" "delete_header @ p \<noteq> end_patch" "update_header @ p \<noteq> end_patch"
  by (simp_all add: headers)

lemma move_target_text:
  assumes "mv = None \<longrightarrow> hs \<noteq> []"
  shows "move_target ((case mv of None \<Rightarrow> [] | Some q \<Rightarrow> [move_header @ q]) @ concat (map hunk_text hs) @ rest)
    = (mv, concat (map hunk_text hs) @ rest)"
proof (cases mv)
  case None
  then obtain h hs' where hs: "hs = h # hs'" using assms by (cases hs) auto
  have "strip_prefix move_header (''@@'' @ wh_title h) = None" by (rule header_prefixes)
  then show ?thesis using None hs by (simp add: move_target_def hunk_text_def)
qed (simp add: move_target_def header_prefixes)

lemma file_operation_text:
  assumes "written_ok w" and "operation_ends rest" and "n + counted_lines w \<le> max_patch_lines"
  shows "\<exists>line ls. operation_text w = line # ls \<and> line \<noteq> end_patch
    \<and> file_operation line (ls @ rest) n = Inr (meant_operation w, rest, n + counted_lines w)"
proof (cases w)
  case (Written_Add p ls)
  then show ?thesis using assms added_lines_text [OF assms(2), of n ls]
    by (auto simp: operation_text_def meant_operation_def file_operation_def header_prefixes add_operation_def written_ok_def counted_lines_def header_lines)
next
  case (Written_Delete p)
  then show ?thesis using assms
    by (auto simp: operation_text_def meant_operation_def file_operation_def header_prefixes delete_operation_def written_ok_def counted_lines_def header_lines)
next
  case (Written_Update p mv hs)
  have "update_operation p ((case mv of None \<Rightarrow> [] | Some q \<Rightarrow> [move_header @ q]) @ concat (map hunk_text hs) @ rest) n
      = Inr (meant_operation w, rest, n + counted_lines w)"
    using assms Written_Update update_hunks_text [OF assms(2), of hs n] move_target_text [of mv hs rest]
    by (auto simp: update_operation_def meant_operation_def written_ok_def counted_lines_def)
  then show ?thesis using Written_Update
    by (auto simp: header_lines operation_text_def file_operation_def header_prefixes)
qed

lemma parse_operations_text:
  "list_all written_ok ws \<Longrightarrow> acc = [] \<longrightarrow> ws \<noteq> [] \<Longrightarrow> length acc + length ws \<le> max_patch_files
    \<Longrightarrow> n + sum_list (map counted_lines ws) \<le> max_patch_lines
    \<Longrightarrow> parse_operations (concat (map operation_text ws) @ end_patch # replicate k []) acc n = Inr (acc @ map meant_operation ws)"
proof (induction ws arbitrary: acc n)
  case Nil
  have "\<not> list_ex (\<lambda>l. l \<noteq> []) (replicate k [])" by (induction k) auto
  then show ?case using Nil by simp
next
  case (Cons w ws)
  obtain line ls where w: "operation_text w = line # ls" "line \<noteq> end_patch"
      "file_operation line (ls @ concat (map operation_text ws) @ end_patch # replicate k []) n
        = Inr (meant_operation w, concat (map operation_text ws) @ end_patch # replicate k [], n + counted_lines w)"
    using file_operation_text [OF _ operation_rest_ends, of w n ws "replicate k []"] Cons.prems by auto
  show ?case using w Cons.IH [of "acc @ [meant_operation w]" "n + counted_lines w"] Cons.prems by simp
qed

subsection \<open>What is read was written\<close>

lemma added_lines_read:
  "added_lines ls n = Inr (a, left, m) \<Longrightarrow> n \<le> max_patch_lines
    \<Longrightarrow> ls = map (Cons (CHR ''+'')) a @ left \<and> m = n + length a \<and> m \<le> max_patch_lines"
proof (induction ls n arbitrary: a left m rule: added_lines.induct)
  case (2 line rest n)
  show ?case
  proof (cases "starts_with ''+'' line")
    case True
    then obtain a' where a': "added_lines rest (Suc n) = Inr (a', left, m)" "a = drop 1 line # a'" "Suc n \<le> max_patch_lines"
      using "2.prems"(1) by (auto split: if_splits sum.splits)
    have "line = CHR ''+'' # drop 1 line" using True by (auto simp: starts_with_iff)
    then show ?thesis using "2.IH" [OF True _ a'(1)] a' by auto
  next
    case False
    then show ?thesis using "2.prems" by simp
  qed
qed simp

lemma hunk_line_read: "hunk_line line = Inr (f, change) \<Longrightarrow> \<exists>l. line = line_text l"
  by (auto simp: hunk_line_def split: list.splits if_splits intro: exI [of _ "Context_Line _"] exI [of _ "Old_Line _"] exI [of _ "New_Line _"])

lemma hunk_body_read:
  "hunk_body ls n = Inr (h, changed, left, m) \<Longrightarrow> n \<le> max_patch_lines
    \<Longrightarrow> \<exists>pls marked. ls = map line_text pls @ (if marked then [end_of_file] else []) @ left
      \<and> h = \<lparr>hk_old = old_lines pls, hk_new = new_lines pls\<rparr> \<and> changed = list_ex changing pls
      \<and> m = n + length pls \<and> m \<le> max_patch_lines"
proof (induction ls n arbitrary: h changed left m rule: hunk_body.induct)
  case (1 n)
  then show ?case by (intro exI [of _ "[]"] exI [of _ False]) simp
next
  case (2 line rest n)
  show ?case
  proof (cases "ends_hunk line \<or> line = end_of_file")
    case True
    then show ?thesis using "2.prems" by (intro exI [of _ "[]"] exI [of _ "\<not> ends_hunk line"]) (auto split: if_splits)
  next
    case False
    then obtain f change where line: "hunk_line line = Inr (f, change)" "Suc n \<le> max_patch_lines"
      using "2.prems"(1) by (cases "hunk_line line") (auto split: if_splits)
    with False obtain h' changed' where body: "hunk_body rest (Suc n) = Inr (h', changed', left, m)"
        and h: "h = f h'" "changed = (change \<or> changed')"
      using "2.prems"(1) by (cases "hunk_body rest (Suc n)") (auto split: if_splits)
    obtain l where l: "line = line_text l" using hunk_line_read [OF line(1)] by blast
    obtain pls marked where pls: "rest = map line_text pls @ (if marked then [end_of_file] else []) @ left"
        "h' = \<lparr>hk_old = old_lines pls, hk_new = new_lines pls\<rparr>" "changed' = list_ex changing pls"
        "m = Suc n + length pls" "m \<le> max_patch_lines"
      using "2.IH" [OF _ _ line(1) refl _ body] False line(2) by auto
    have f: "f = (\<lambda>h. \<lparr>hk_old = old_lines [l] @ hk_old h, hk_new = new_lines [l] @ hk_new h\<rparr>)" "change = changing l"
      using line(1) unfolding l hunk_line_text by simp_all
    show ?thesis
      using l pls h line(2) f old_new_Cons [of l pls]
      by (intro exI [of _ "l # pls"] exI [of _ marked]) (simp del: old_lines.simps new_lines.simps)
  qed
qed

lemma update_hunks_read:
  "update_hunks ls n = Inr (hs, left, m) \<Longrightarrow> n \<le> max_patch_lines \<Longrightarrow> unbroken ls
    \<Longrightarrow> \<exists>ws. ls = concat (map hunk_text ws) @ left \<and> hs = map meant_hunk ws \<and> list_all written_hunk_ok ws
      \<and> m = n + sum_list (map (\<lambda>h. length (wh_lines h)) ws) \<and> m \<le> max_patch_lines"
proof (induction ls n arbitrary: hs left m rule: update_hunks.induct)
  case (2 line rest n)
  show ?case
  proof (cases "line = end_patch \<or> is_file_operation_header line \<or> \<not> starts_with ''@@'' line")
    case True
    then show ?thesis using "2.prems" by (intro exI [of _ "[]"]) (auto split: if_splits)
  next
    case False
    then obtain h left1 m1 hs' where body: "hunk_body rest n = Inr (h, True, left1, m1)"
        and more: "update_hunks left1 m1 = Inr (hs', left, m)" and hs: "hs = h # hs'"
      using "2.prems" by (auto split: sum.splits prod.splits if_splits)
    obtain title where title: "line = ''@@'' @ title" using False by (auto simp: starts_with_iff)
    obtain pls marked where pls: "rest = map line_text pls @ (if marked then [end_of_file] else []) @ left1"
        "h = \<lparr>hk_old = old_lines pls, hk_new = new_lines pls\<rparr>" "list_ex changing pls" "m1 = n + length pls" "m1 \<le> max_patch_lines"
      using hunk_body_read [OF body "2.prems"(2)] by auto
    let ?w = "\<lparr>wh_title = title, wh_lines = pls, wh_marked = marked\<rparr>"
    have w: "hunk_text ?w @ left1 = line # rest" "meant_hunk ?w = h" "written_hunk_ok ?w"
      using title pls "2.prems"(3) by (simp_all add: hunk_text_def meant_hunk_def written_hunk_ok_def)
    have "\<exists>ws. left1 = concat (map hunk_text ws) @ left \<and> hs' = map meant_hunk ws \<and> list_all written_hunk_ok ws
        \<and> m = m1 + sum_list (map (\<lambda>h. length (wh_lines h)) ws) \<and> m \<le> max_patch_lines"
      by (rule "2.IH") (use False body more pls "2.prems"(3) in auto)
    then obtain ws where ws: "left1 = concat (map hunk_text ws) @ left" "hs' = map meant_hunk ws" "list_all written_hunk_ok ws"
        "m = m1 + sum_list (map (\<lambda>h. length (wh_lines h)) ws)" "m \<le> max_patch_lines" by blast
    have "line # rest = concat (map hunk_text (?w # ws)) @ left" using w(1) ws(1) by simp
    then show ?thesis by (intro exI [of _ "?w # ws"]) (use w(2,3) ws pls(4) hs in simp)
  qed
qed (auto intro: exI [of _ "[]"])

lemma move_target_read:
  "move_target ls = (mv, left) \<Longrightarrow> ls = (case mv of None \<Rightarrow> [] | Some q \<Rightarrow> [move_header @ q]) @ left"
  by (auto simp: move_target_def strip_prefix_Some_iff split: list.splits option.splits)

lemma file_operation_read:
  assumes "file_operation line rest n = Inr (op, left, m)" and "unbroken (line # rest)" and "n \<le> max_patch_lines"
  shows "\<exists>w. line # rest = operation_text w @ left \<and> op = meant_operation w \<and> written_ok w
    \<and> m = n + counted_lines w \<and> m \<le> max_patch_lines"
proof -
  consider p where "line = add_header @ p" "add_operation p rest n = Inr (op, left, m)"
    | p where "line = delete_header @ p" "delete_operation p rest n = Inr (op, left, m)"
    | p where "line = update_header @ p" "update_operation p rest n = Inr (op, left, m)"
    using assms(1) by (auto simp: file_operation_def strip_prefix_Some_iff split: option.splits)
  then show ?thesis
  proof cases
    case 1
    then obtain ls where ls: "p \<noteq> []" "added_lines rest n = Inr (ls, left, m)" "op = Add_Operation p ls"
      by (auto simp: add_operation_def split: if_splits sum.splits)
    show ?thesis using 1(1) ls added_lines_read [OF ls(2) assms(3)] assms(2)
      by (intro exI [of _ "Written_Add p ls"]) (auto simp: operation_text_def meant_operation_def written_ok_def counted_lines_def)
  next
    case 2
    then show ?thesis using assms(2,3)
      by (intro exI [of _ "Written_Delete p"])
        (auto simp: delete_operation_def operation_text_def meant_operation_def written_ok_def counted_lines_def split: if_splits)
  next
    case 3
    then obtain mv left0 hs where parts: "move_target rest = (mv, left0)" "update_hunks left0 n = Inr (hs, left, m)"
        "op = Update_Operation p mv hs" "p \<noteq> []" "\<not> (mv = None \<and> hs = [])"
      by (auto simp: update_operation_def split: if_splits sum.splits prod.splits)
    note rest = move_target_read [OF parts(1)]
    have moved: "unbroken left0" "case mv of None \<Rightarrow> True | Some q \<Rightarrow> newline_byte \<notin> set q"
      using assms(2) rest by (auto split: option.splits)
    obtain ws where ws: "left0 = concat (map hunk_text ws) @ left" "hs = map meant_hunk ws" "list_all written_hunk_ok ws"
        "m = n + sum_list (map (\<lambda>h. length (wh_lines h)) ws)" "m \<le> max_patch_lines"
      using update_hunks_read [OF parts(2) assms(3) moved(1)] by blast
    show ?thesis using 3(1) parts ws rest moved(2) assms(2)
      by (intro exI [of _ "Written_Update p mv ws"]) (auto simp: operation_text_def meant_operation_def written_ok_def counted_lines_def)
  qed
qed

lemma parse_operations_read:
  "parse_operations ls acc n = Inr ops \<Longrightarrow> unbroken ls \<Longrightarrow> n \<le> max_patch_lines \<Longrightarrow> length acc \<le> max_patch_files
    \<Longrightarrow> \<exists>ws k. ls = concat (map operation_text ws) @ end_patch # replicate k [] \<and> ops = acc @ map meant_operation ws
      \<and> ops \<noteq> [] \<and> list_all written_ok ws \<and> length acc + length ws \<le> max_patch_files
      \<and> n + sum_list (map counted_lines ws) \<le> max_patch_lines"
proof (induction ls acc n arbitrary: ops rule: parse_operations.induct)
  case (2 line rest acc n)
  show ?case
  proof (cases "line = end_patch")
    case True
    then have blank: "list_all (\<lambda>l. l = []) rest" and ops: "ops = acc" "acc \<noteq> []"
      using "2.prems"(1) by (auto simp: list_all_iff list_ex_iff split: if_splits)
    have "rest = replicate (length rest) []" using blank by (induction rest) auto
    then show ?thesis using True ops "2.prems"(3,4) by (intro exI [of _ "[]"] exI [of _ "length rest"]) simp
  next
    case False
    then obtain op left m where op: "file_operation line rest n = Inr (op, left, m)" "length acc < max_patch_files"
        and more: "parse_operations left (acc @ [op]) m = Inr ops"
      using "2.prems"(1) by (auto split: if_splits sum.splits)
    obtain w where w: "line # rest = operation_text w @ left" "op = meant_operation w" "written_ok w"
        "m = n + counted_lines w" "m \<le> max_patch_lines"
      using file_operation_read [OF op(1) "2.prems"(2,3)] by blast
    have left: "unbroken left" using w(1) "2.prems"(2) by (metis unbroken_simps(3))
    have "\<exists>ws k. left = concat (map operation_text ws) @ end_patch # replicate k [] \<and> ops = (acc @ [op]) @ map meant_operation ws
        \<and> ops \<noteq> [] \<and> list_all written_ok ws \<and> length (acc @ [op]) + length ws \<le> max_patch_files
        \<and> m + sum_list (map counted_lines ws) \<le> max_patch_lines"
      by (rule "2.IH" [OF False _ op(1) refl refl more]) (use w(5) op(2) left in auto)
    then obtain ws k where ws: "left = concat (map operation_text ws) @ end_patch # replicate k []"
        "ops = (acc @ [op]) @ map meant_operation ws" "ops \<noteq> []" "list_all written_ok ws"
        "length (acc @ [op]) + length ws \<le> max_patch_files" "m + sum_list (map counted_lines ws) \<le> max_patch_lines" by blast
    show ?thesis by (intro exI [of _ "w # ws"] exI [of _ k]) (use w ws in auto)
  qed
qed simp

lemma split_join_lines: "ls \<noteq> [] \<Longrightarrow> unbroken ls \<Longrightarrow> split_on newline_byte (join_lines ls) = ls"
proof (induction ls rule: join_lines.induct)
  case (3 l l' ls)
  then show ?case using split_on_append [of newline_byte l "join_lines (l' # ls)"] by (simp add: split_on_absent)
qed (simp_all add: split_on_absent)

lemma join_split_lines: "join_lines (split_on newline_byte s) = s"
proof (induction s)
  case (Cons c s)
  then show ?case by (cases "split_on newline_byte s" rule: join_lines.cases) auto
qed simp

lemma crlf_absent: "carriage_return \<notin> set s \<Longrightarrow> crlf_to_lf s = s"
  by (induction s) auto

lemma crlf_lf_inverse [simp]: "crlf_to_lf (lf_to_crlf s) = s"
proof (induction s)
  case (Cons c s)
  have "\<not> starts_with [newline_byte] (lf_to_crlf s)"
    by (cases s) (auto simp: starts_with_iff carriage_return_def newline_byte_def)
  then show ?case using Cons by (auto simp: starts_with_iff carriage_return_def newline_byte_def)
qed simp

lemma patch_text_read:
  "parse_patch input = Inr ops \<longleftrightarrow>
    (\<exists>ws blank. patch_ok ws \<and> crlf_to_lf input = patch_text ws blank \<and> ops = map meant_operation ws)" (is "?read \<longleftrightarrow> ?written")
proof
  assume ?read
  then obtain rest where split: "split_on newline_byte (crlf_to_lf input) = begin_patch # rest"
      and parsed: "parse_operations rest [] 0 = Inr ops"
    by (auto simp: parse_patch_def split: list.splits if_splits)
  have "unbroken rest" using unbroken_split [of "crlf_to_lf input"] split by simp
  from parse_operations_read [OF parsed this] obtain ws k where
    "rest = concat (map operation_text ws) @ end_patch # replicate k []" "ops = map meant_operation ws" "patch_ok ws"
    by (auto simp: patch_ok_def)
  moreover from this split have "crlf_to_lf input = patch_text ws k"
    by (metis join_split_lines patch_lines_def patch_text_def)
  ultimately show ?written by blast
next
  assume ?written
  then obtain ws k where ws: "patch_ok ws" "crlf_to_lf input = patch_text ws k" "ops = map meant_operation ws" by blast
  have "unbroken (patch_lines ws k)"
    using ws(1) by (auto simp: patch_ok_def patch_lines_def unbroken_concat list_all_iff unbroken_operation_text)
  then have "split_on newline_byte (crlf_to_lf input) = patch_lines ws k"
    using ws(2) split_join_lines [of "patch_lines ws k"] by (simp add: patch_text_def patch_lines_def)
  moreover have "parse_operations (concat (map operation_text ws) @ end_patch # replicate k []) [] 0 = Inr ops"
    using parse_operations_text [of ws "[]" 0 k] ws(1,3) by (simp add: patch_ok_def)
  ultimately show ?read by (simp add: parse_patch_def patch_lines_def)
qed

text \<open>The new lines of the hunks of a parsed patch are single lines.\<close>

lemma parsed_hunks_unbroken:
  assumes "parse_patch input = Inr ops" and "Update_Operation p mv hs \<in> set ops" and "h \<in> set hs"
  shows "unbroken (hk_new h)"
proof -
  obtain ws where ws: "patch_ok ws" "ops = map meant_operation ws" using assms(1) by (auto simp: patch_text_read)
  obtain w where w: "w \<in> set ws" "meant_operation w = Update_Operation p mv hs" using ws(2) assms(2) by auto
  obtain whs where whs: "w = Written_Update p mv whs" "hs = map meant_hunk whs"
    using w(2) by (cases w) (auto simp: meant_operation_def)
  then obtain wh where "wh \<in> set whs" "h = meant_hunk wh" using assms(3) by auto
  moreover have "list_all written_hunk_ok whs" using ws(1) w(1) whs(1) by (auto simp: patch_ok_def written_ok_def list_all_iff)
  ultimately show ?thesis by (auto simp: list_all_iff meant_hunk_def written_hunk_ok_def unbroken_new_lines)
qed


subsection \<open>Examples\<close>

text \<open>A patch with every kind of line, its text and what it is read as.\<close>

definition sample_patch :: "written_operation list" where
  "sample_patch = [Written_Add ''a'' [''x''],
     Written_Update ''b'' (Some ''c'') [\<lparr>wh_title = '' f'', wh_lines = [Context_Line ''k'', Old_Line ''y'', New_Line ''z'', Context_Line []],
       wh_marked = True\<rparr>]]"

lemma sample_patch_reads_back:
  "parse_patch (lf_to_crlf (patch_text sample_patch 1))
    = Inr [Add_Operation ''a'' [''x''], Update_Operation ''b'' (Some ''c'') [\<lparr>hk_old = [''k'', ''y'', []], hk_new = [''k'', ''z'', []]\<rparr>]]"
proof -
  have "patch_ok sample_patch"
    by (simp add: patch_ok_def sample_patch_def written_ok_def written_hunk_ok_def counted_lines_def max_patch_files_def max_patch_lines_def newline_byte_def)
  then have "parse_patch (lf_to_crlf (patch_text sample_patch 1)) = Inr (map meant_operation sample_patch)"
    unfolding patch_text_read by (intro exI [of _ sample_patch] exI [of _ 1]) simp
  then show ?thesis by (simp add: sample_patch_def meant_operation_def meant_hunk_def)
qed

text \<open>
  A carriage return at the end of a line is not read back from a text whose lines end in newlines:
  it is taken for a part of the line end.
\<close>

lemma final_carriage_return_is_dropped:
  "parse_patch (patch_text [Written_Add ''a'' [''x'' @ [carriage_return]]] 0) = Inr [Add_Operation ''a'' [''x'']]"
proof -
  let ?w = "[Written_Add ''a'' [''x'']]"
  have "crlf_to_lf (patch_text [Written_Add ''a'' [''x'' @ [carriage_return]]] 0) = patch_text ?w 0"
    by (simp add: patch_text_def patch_lines_def operation_text_def headers carriage_return_def newline_byte_def)
  moreover have "patch_ok ?w"
    by (simp add: patch_ok_def written_ok_def counted_lines_def max_patch_files_def max_patch_lines_def newline_byte_def)
  ultimately have "parse_patch (patch_text [Written_Add ''a'' [''x'' @ [carriage_return]]] 0) = Inr (map meant_operation ?w)"
    unfolding patch_text_read by (intro exI [of _ ?w] exI [of _ 0]) simp
  then show ?thesis by (simp add: meant_operation_def)
qed

end
