(* ===== verification/Patch_Language.thy ===== *)
theory Patch_Language
  imports Patch_Grammar
begin

section \<open>The meaning of hunks\<close>

text \<open>
  Hunks as replacements of blocks of lines that occur once, and the text of the patched file down
  to its line ends.
\<close>

subsection \<open>What a hunk does\<close>

text \<open>
  The meaning of a list of hunks: each in turn replaces the one place where its old lines occur,
  or adds its new lines at the end when it has no old lines.
\<close>

inductive hunks_placed :: "string list \<Rightarrow> hunk list \<Rightarrow> string list \<Rightarrow> bool" where
  no_hunk: "hunks_placed ls [] ls"
| at_end: "hk_old h = [] \<Longrightarrow> hunks_placed (ls @ hk_new h) hs ls' \<Longrightarrow> hunks_placed ls (h # hs) ls'"
| in_place: "hk_old h \<noteq> [] \<Longrightarrow> (\<forall>p q. pre @ hk_old h @ post = p @ hk_old h @ q \<longrightarrow> p = pre)
    \<Longrightarrow> hunks_placed (pre @ hk_new h @ post) hs ls' \<Longrightarrow> hunks_placed (pre @ hk_old h @ post) (h # hs) ls'"

inductive_simps no_hunks_placed [simp]: "hunks_placed ls [] ls'"
inductive_simps hunk_placed: "hunks_placed ls (h # hs) ls'"

lemma matches_at_here: "matches_at (p @ old @ q) old (length p)"
  by (simp add: matches_at_def)

lemma matches_at_parts: "matches_at ls old i \<Longrightarrow> i \<le> length ls \<Longrightarrow> \<exists>p q. ls = p @ old @ q \<and> length p = i"
  unfolding matches_at_def by (rule exI [of _ "take i ls"]) (metis append_take_drop_id length_take min.absorb2)

lemma distinct_singleton_iff: "distinct xs \<Longrightarrow> set xs = {x} \<longleftrightarrow> xs = [x]"
  by (cases xs) (auto simp: subset_singleton_iff)

lemma find_hunk_iff:
  assumes "old \<noteq> []"
  shows "find_hunk ls old = Inr i \<longleftrightarrow>
    (\<exists>pre post. ls = pre @ old @ post \<and> length pre = i \<and> (\<forall>p q. ls = p @ old @ q \<longrightarrow> p = pre))" (is "_ \<longleftrightarrow> ?unique")
proof -
  let ?hits = "filter (matches_at ls old) [0..<Suc (length ls) - length old]"
  have hit: "k \<in> set ?hits \<longleftrightarrow> (\<exists>p q. ls = p @ old @ q \<and> length p = k)" for k
    using matches_at_parts [of ls old k] matches_at_here by auto
  have "find_hunk ls old = Inr i \<longleftrightarrow> ?hits = [i]"
    using assms by (auto simp: find_hunk_def split: list.splits)
  also have "\<dots> \<longleftrightarrow> set ?hits = {i}" by (rule distinct_singleton_iff [symmetric]) simp
  also have "\<dots> \<longleftrightarrow> (\<forall>k. (\<exists>p q. ls = p @ old @ q \<and> length p = k) \<longleftrightarrow> k = i)" using hit by blast
  also have "\<dots> \<longleftrightarrow> ?unique"
  proof
    assume *: "\<forall>k. (\<exists>p q. ls = p @ old @ q \<and> length p = k) \<longleftrightarrow> k = i"
    then obtain pre post where pre: "ls = pre @ old @ post" "length pre = i" by blast
    have "p = pre" if p: "ls = p @ old @ q" for p q
    proof -
      have "length p = i" using * p by blast
      then show ?thesis using pre p by simp
    qed
    with pre show ?unique by blast
  qed auto
  finally show ?thesis .
qed

lemma splice_hunks_iff: "splice_hunks ls hs = Inr ls' \<longleftrightarrow> hunks_placed ls hs ls'"
proof (induction hs arbitrary: ls)
  case (Cons h hs)
  show ?case
  proof (cases "hk_old h = []")
    case True
    have "splice_hunks ls (h # hs) = Inr ls' \<longleftrightarrow> hunks_placed (ls @ hk_new h) hs ls'"
      using True Cons.IH by (simp add: find_hunk_def)
    then show ?thesis using True by (simp only: hunk_placed) blast
  next
    case False
    have "splice_hunks ls (h # hs) = Inr ls' \<longleftrightarrow> (\<exists>i. find_hunk ls (hk_old h) = Inr i
        \<and> hunks_placed (take i ls @ hk_new h @ drop (i + length (hk_old h)) ls) hs ls')"
      using Cons.IH by (simp split: sum.split)
    also have "\<dots> \<longleftrightarrow> (\<exists>pre post. ls = pre @ hk_old h @ post \<and> (\<forall>p q. ls = p @ hk_old h @ q \<longrightarrow> p = pre)
        \<and> hunks_placed (pre @ hk_new h @ post) hs ls')" (is "?l \<longleftrightarrow> ?r")
    proof
      assume ?l
      then obtain i where i: "find_hunk ls (hk_old h) = Inr i"
          and rest: "hunks_placed (take i ls @ hk_new h @ drop (i + length (hk_old h)) ls) hs ls'" by blast
      obtain pre post where pre: "ls = pre @ hk_old h @ post" "length pre = i"
          and once: "\<forall>p q. ls = p @ hk_old h @ q \<longrightarrow> p = pre"
        using iffD1 [OF find_hunk_iff [OF False] i] by (elim exE conjE)
      have same: "take i ls @ hk_new h @ drop (i + length (hk_old h)) ls = pre @ hk_new h @ post" using pre by auto
      show ?r by (intro exI conjI, rule pre(1), rule once, rule rest [unfolded same])
    next
      assume ?r
      then obtain pre post where pre: "ls = pre @ hk_old h @ post" "\<forall>p q. ls = p @ hk_old h @ q \<longrightarrow> p = pre"
          and rest: "hunks_placed (pre @ hk_new h @ post) hs ls'" by blast
      have "find_hunk ls (hk_old h) = Inr (length pre)" using find_hunk_iff [OF False] pre by blast
      moreover have "take (length pre) ls @ hk_new h @ drop (length pre + length (hk_old h)) ls = pre @ hk_new h @ post"
        using pre(1) by auto
      ultimately show ?l using rest by metis
    qed
    finally show ?thesis using False by (simp only: hunk_placed) blast
  qed
qed auto

subsection \<open>The line ends of a file\<close>

text \<open>
  Every text is, in exactly one way, a list of lines each followed by its line end, a newline or a
  carriage return and a newline, and perhaps a last line without one.
\<close>

definition lf_end :: string where "lf_end = [newline_byte]"

definition crlf_end :: string where "crlf_end = [carriage_return, newline_byte]"

definition ended_line :: "string \<times> string \<Rightarrow> bool" where
  "ended_line le \<longleftrightarrow> newline_byte \<notin> set (fst le)
     \<and> (snd le = crlf_end \<or> snd le = lf_end \<and> (fst le = [] \<or> last (fst le) \<noteq> carriage_return))"

definition laid_out :: "string \<Rightarrow> (string \<times> string) list \<Rightarrow> string \<Rightarrow> bool" where
  "laid_out s parts rest \<longleftrightarrow> s = concat (map (\<lambda>(l, e). l @ e) parts) @ rest \<and> list_all ended_line parts \<and> newline_byte \<notin> set rest"

definition all_lines :: "(string \<times> string) list \<Rightarrow> string \<Rightarrow> string list" where
  "all_lines parts rest = map fst parts @ (if rest = [] then [] else [rest])"

text \<open>Lines with the same line end between them.\<close>

fun separated :: "string \<Rightarrow> string list \<Rightarrow> string" where
  "separated e [] = []"
| "separated e [l] = l"
| "separated e (l # ls) = l @ e @ separated e ls"

lemma byte_clash [simp]: "carriage_return \<noteq> newline_byte" "newline_byte \<noteq> carriage_return"
  by (simp_all add: carriage_return_def newline_byte_def)

lemma layout_exists: "\<exists>parts rest. laid_out s parts rest"
proof (induction s)
  case Nil
  then show ?case by (intro exI [of _ "[]"]) (simp add: laid_out_def)
next
  case (Cons c s)
  then obtain parts rest where s: "laid_out s parts rest" by blast
  show ?case
  proof (cases "c = newline_byte")
    case True
    then show ?thesis using s
      by (intro exI [of _ "([], lf_end) # parts"] exI [of _ rest]) (simp add: laid_out_def ended_line_def lf_end_def)
  next
    case False
    show ?thesis
    proof (cases parts)
      case Nil
      then show ?thesis using s False by (intro exI [of _ "[]"] exI [of _ "c # rest"]) (simp add: laid_out_def)
    next
      case (Cons le parts')
      then obtain l e where le: "parts = (l, e) # parts'" by (cases le) auto
      show ?thesis
      proof (cases "c = carriage_return \<and> l = [] \<and> e = lf_end")
        case True
        then show ?thesis using s le
          by (intro exI [of _ "([], crlf_end) # parts'"] exI [of _ rest]) (simp add: laid_out_def ended_line_def lf_end_def crlf_end_def)
      next
        case other: False
        have "ended_line (c # l, e)" using s le False other by (auto simp: laid_out_def ended_line_def)
        then show ?thesis using s le
          by (intro exI [of _ "(c # l, e) # parts'"] exI [of _ rest]) (simp add: laid_out_def)
      qed
    qed
  qed
qed

lemma lf_line: "newline_byte \<notin> set l \<Longrightarrow> l = [] \<or> last l \<noteq> carriage_return \<Longrightarrow> crlf_to_lf (l @ newline_byte # t) = l @ newline_byte # crlf_to_lf t"
proof (induction l)
  case (Cons c l)
  then show ?case by (cases l) auto
qed simp

lemma crlf_line: "newline_byte \<notin> set l \<Longrightarrow> crlf_to_lf (l @ carriage_return # newline_byte # t) = l @ newline_byte # crlf_to_lf t"
proof (induction l)
  case (Cons c l)
  then show ?case by (cases l) auto
qed simp

lemma ended_line_normal: "ended_line (l, e) \<Longrightarrow> crlf_to_lf (l @ e @ t) = l @ newline_byte # crlf_to_lf t"
  by (auto simp: ended_line_def lf_end_def crlf_end_def lf_line crlf_line)

lemma unfinished_line: "newline_byte \<notin> set s \<Longrightarrow> crlf_to_lf s = s"
proof (induction s)
  case (Cons c s)
  then show ?case by (cases s) auto
qed simp

lemma split_layout:
  "laid_out s parts rest \<Longrightarrow> split_on newline_byte (crlf_to_lf s) = map fst parts @ [rest]"
proof (induction parts arbitrary: s)
  case Nil
  then show ?case by (simp add: laid_out_def unfinished_line split_on_absent)
next
  case (Cons le parts)
  obtain l e where le: "le = (l, e)" by (cases le)
  let ?t = "concat (map (\<lambda>(l, e). l @ e) parts) @ rest"
  have parts: "laid_out ?t parts rest" "ended_line (l, e)" "s = l @ e @ ?t" "newline_byte \<notin> set l"
    using Cons.prems by (auto simp: laid_out_def le ended_line_def)
  show ?case
    unfolding parts(3) ended_line_normal [OF parts(2)] split_on_append split_on_absent [OF parts(4)] Cons.IH [OF parts(1)]
    by (simp add: le)
qed

lemma text_lines_split:
  assumes "split_on newline_byte s = ls @ [rest]"
  shows "text_lines s = ls @ (if rest = [] then [] else [rest])"
    and "ends_with [newline_byte] s \<longleftrightarrow> ls \<noteq> [] \<and> rest = []"
proof -
  have s: "s = join_lines (ls @ [rest])" using join_split_lines [of s] assms by simp
  have last: "newline_byte \<notin> set rest" using unbroken_split [of s] assms by simp
  have joined: "ls \<noteq> [] \<Longrightarrow> \<exists>t. join_lines (ls @ [rest]) = t @ newline_byte # rest"
  proof (induction ls rule: join_lines.induct)
    case (3 l l' ls)
    then obtain t where "join_lines ((l' # ls) @ [rest]) = t @ newline_byte # rest" by auto
    then show ?case by (intro exI [of _ "l @ newline_byte # t"]) simp
  qed auto
  show ends: "ends_with [newline_byte] s \<longleftrightarrow> ls \<noteq> [] \<and> rest = []"
  proof (cases "ls = []")
    case True
    then show ?thesis using s last by (auto simp: ends_with_iff)
  next
    case False
    then obtain t where t: "s = t @ newline_byte # rest" using joined s by auto
    show ?thesis using False last unfolding t by (cases rest rule: rev_cases) (auto simp: ends_with_iff)
  qed
  have "s = [] \<longleftrightarrow> ls = [] \<and> rest = []" using s joined by (cases "ls = []") auto
  then show "text_lines s = ls @ (if rest = [] then [] else [rest])"
    using assms ends by (auto simp: text_lines_def)
qed

lemma layout_lines:
  assumes "laid_out s parts rest"
  shows "text_lines (crlf_to_lf s) = all_lines parts rest"
    and "ends_with [newline_byte] (crlf_to_lf s) \<longleftrightarrow> parts \<noteq> [] \<and> rest = []"
  using text_lines_split [OF split_layout [OF assms]] by (simp_all add: all_lines_def)

lemma newline_positions:
  "newline_byte \<notin> set l \<Longrightarrow> l @ newline_byte # t = a @ newline_byte # b
    \<Longrightarrow> (a = l \<and> b = t) \<or> (\<exists>a'. a = l @ newline_byte # a' \<and> t = a' @ newline_byte # b)"
proof (induction l arbitrary: a)
  case Nil
  then show ?case by (cases a) auto
next
  case (Cons c l)
  then show ?case by (cases a) auto
qed

lemma crlf_in_layout:
  "laid_out s parts rest \<Longrightarrow> contains_sub crlf_end s \<longleftrightarrow> crlf_end \<in> set (map snd parts)"
proof (induction parts arbitrary: s)
  case Nil
  then have "newline_byte \<notin> set s" by (simp add: laid_out_def)
  then show ?case by (auto simp: contains_sub_iff crlf_end_def)
next
  case (Cons le parts)
  obtain l e where le: "le = (l, e)" by (cases le)
  let ?t = "concat (map (\<lambda>(l, e). l @ e) parts) @ rest"
  have parts: "laid_out ?t parts rest" "ended_line (l, e)" "s = l @ e @ ?t" "newline_byte \<notin> set l"
    using Cons.prems by (auto simp: laid_out_def le ended_line_def)
  have "contains_sub crlf_end (l @ e @ ?t) \<longleftrightarrow> e = crlf_end \<or> contains_sub crlf_end ?t"
  proof
    assume "contains_sub crlf_end (l @ e @ ?t)"
    then obtain a b where ab: "l @ e @ ?t = (a @ [carriage_return]) @ newline_byte # b"
      by (auto simp: contains_sub_iff crlf_end_def)
    show "e = crlf_end \<or> contains_sub crlf_end ?t"
    proof (cases "e = crlf_end")
      case False
      then have e: "e = lf_end" "l = [] \<or> last l \<noteq> carriage_return" using parts(2) by (auto simp: ended_line_def)
      have "l @ newline_byte # ?t = (a @ [carriage_return]) @ newline_byte # b" using ab e(1) by (simp add: lf_end_def)
      from newline_positions [OF parts(4) this] show ?thesis
      proof (elim disjE exE conjE)
        assume "a @ [carriage_return] = l"
        then have "l \<noteq> [] \<and> last l = carriage_return" by auto
        then show ?thesis using e(2) by simp
      next
        fix a'
        assume a': "a @ [carriage_return] = l @ newline_byte # a'" "?t = a' @ newline_byte # b"
        then obtain a'' where "a' = a'' @ [carriage_return]" by (cases a' rule: rev_cases) auto
        then show ?thesis using a'(2) unfolding contains_sub_iff crlf_end_def by (intro disjI2 exI [of _ a''] exI [of _ b]) simp
      qed
    qed simp
  next
    assume "e = crlf_end \<or> contains_sub crlf_end ?t"
    then show "contains_sub crlf_end (l @ e @ ?t)"
      unfolding contains_sub_iff by (metis append_assoc)
  qed
  then show ?case using Cons.IH [OF parts(1)] parts(3) by (auto simp: le)
qed

lemma lf_to_crlf_append: "lf_to_crlf (s @ t) = lf_to_crlf s @ lf_to_crlf t"
  by (induction s) auto

lemma lf_to_crlf_line: "newline_byte \<notin> set l \<Longrightarrow> lf_to_crlf l = l"
  by (induction l) auto

lemma joined_lines: "join_lines ls = separated lf_end ls"
  by (induction ls rule: join_lines.induct) (simp_all add: lf_end_def)

lemma crlf_lines: "unbroken ls \<Longrightarrow> lf_to_crlf (separated lf_end ls) = separated crlf_end ls"
  by (induction ls rule: join_lines.induct) (simp_all add: lf_end_def crlf_end_def lf_to_crlf_append lf_to_crlf_line)

lemma rendered_lines:
  assumes "unbroken ls"
  shows "render_lines crlf trailing ls
    = separated (if crlf then crlf_end else lf_end) ls @ (if trailing then if crlf then crlf_end else lf_end else [])"
  using crlf_lines [OF assms] by (simp add: render_lines_def joined_lines lf_to_crlf_append Let_def) (simp add: lf_end_def crlf_end_def)

lemma unbroken_placed: "hunks_placed ls hs ls' \<Longrightarrow> unbroken ls \<Longrightarrow> \<forall>h \<in> set hs. unbroken (hk_new h) \<Longrightarrow> unbroken ls'"
  by (induction rule: hunks_placed.induct) auto

lemma unbroken_all_lines: "laid_out s parts rest \<Longrightarrow> unbroken (all_lines parts rest)"
  by (auto simp: laid_out_def all_lines_def unbroken_def list_all_iff ended_line_def)

text \<open>
  C32. A hunk replaces the one place where its old lines occur and nothing else.  For a file given as
  its lines with their line ends, and hunks whose new lines are single lines, as those of every
  parsed patch are: the update succeeds exactly when each hunk in turn finds its old lines at one
  place only in the lines left by those before it (a hunk without old lines adds at the end), and
  then the new text is exactly the lines so obtained.  All its line ends are alike, a carriage
  return and a newline if the old file had one such line end and a newline otherwise, so the line
  ends of a file that mixes the two are not kept; the last line has a line end exactly when the old
  file ended in one.
\<close>

theorem hunks_replace_unique_blocks:
  assumes "laid_out original parts rest" and "\<forall>h \<in> set hunks. unbroken (hk_new h)"
  shows "apply_hunks original hunks = Inr updated \<longleftrightarrow>
    (\<exists>ls e. hunks_placed (all_lines parts rest) hunks ls
      \<and> e = (if crlf_end \<in> set (map snd parts) then crlf_end else lf_end)
      \<and> updated = separated e ls @ (if parts \<noteq> [] \<and> rest = [] then e else []))"
proof -
  have crlf: "contains_sub [carriage_return, newline_byte] original \<longleftrightarrow> crlf_end \<in> set (map snd parts)"
    using crlf_in_layout [OF assms(1)] by (simp add: crlf_end_def)
  have "apply_hunks original hunks = Inr updated \<longleftrightarrow> (\<exists>ls. hunks_placed (all_lines parts rest) hunks ls
      \<and> updated = render_lines (crlf_end \<in> set (map snd parts)) (parts \<noteq> [] \<and> rest = []) ls)"
    unfolding apply_hunks_def Let_def crlf layout_lines [OF assms(1)] splice_hunks_iff [symmetric]
    by (auto split: sum.splits)
  also have "\<dots> \<longleftrightarrow> (\<exists>ls. hunks_placed (all_lines parts rest) hunks ls
      \<and> updated = separated (if crlf_end \<in> set (map snd parts) then crlf_end else lf_end) ls
        @ (if parts \<noteq> [] \<and> rest = [] then if crlf_end \<in> set (map snd parts) then crlf_end else lf_end else []))"
    by (intro ex_cong conj_cong refl) (simp add: rendered_lines unbroken_placed [OF _ unbroken_all_lines [OF assms(1)] assms(2)])
  finally show ?thesis by simp
qed

text \<open>
  Two consequences for the text of a file: removing every line of a file that ends in a newline
  leaves an empty line behind, and in a file with both kinds of line ends a hunk rewrites the line
  ends of lines it does not touch.
\<close>

lemma removing_every_line_leaves_one:
  "apply_hunks (''a'' @ [newline_byte]) [\<lparr>hk_old = [''a''], hk_new = []\<rparr>] = Inr [newline_byte]"
  by code_simp

lemma untouched_line_ends_change:
  "apply_hunks (''a'' @ [carriage_return, newline_byte] @ ''b'' @ [newline_byte] @ ''c'' @ [newline_byte])
     [\<lparr>hk_old = [''c''], hk_new = [''d'']\<rparr>]
   = Inr (''a'' @ [carriage_return, newline_byte] @ ''b'' @ [carriage_return, newline_byte] @ ''d'' @ [carriage_return, newline_byte])"
  by code_simp

text \<open>The lines of a text as the reading tools number them.\<close>

definition lines_of :: "string \<Rightarrow> string list" where
  "lines_of s = text_lines (crlf_to_lf s)"

subsection \<open>Witnesses\<close>

theorem hunks_replace_unique_blocks_witness:
  "apply_hunks (''a'' @ crlf_end @ ''b'' @ lf_end @ ''c'') [\<lparr>hk_old = [''a''], hk_new = [''d'', ''e'']\<rparr>]
      = Inr (''d'' @ crlf_end @ ''e'' @ crlf_end @ ''b'' @ crlf_end @ ''c'') \<longleftrightarrow>
    (\<exists>ls e. hunks_placed (all_lines [(''a'', crlf_end), (''b'', lf_end)] ''c'') [\<lparr>hk_old = [''a''], hk_new = [''d'', ''e'']\<rparr>] ls
      \<and> e = (if crlf_end \<in> set (map snd [(''a'', crlf_end), (''b'', lf_end)]) then crlf_end else lf_end)
      \<and> ''d'' @ crlf_end @ ''e'' @ crlf_end @ ''b'' @ crlf_end @ ''c''
        = separated e ls @ (if [(''a'', crlf_end), (''b'', lf_end)] \<noteq> [] \<and> ''c'' = [] then e else []))"
  by (rule hunks_replace_unique_blocks)
    (simp_all add: laid_out_def ended_line_def newline_byte_def carriage_return_def)

end
