(* ===== verification/Read_Pages.thy ===== *)
theory Read_Pages
  imports File_Tools Patch_Language
begin

section \<open>Pages of \<open>read_file\<close>\<close>

text \<open>Which lines a page shows, and where the reader is sent next.\<close>

fun numbered_lines :: "nat \<Rightarrow> string list \<Rightarrow> string" where
  "numbered_lines k [] = []"
| "numbered_lines k (l # ls) = line_prefix k @ l @ [newline_byte] @ numbered_lines (k + 1) ls"

text \<open>What a page shows of the lines from \<open>k\<close> on, when it shows \<open>n\<close> of them: all of them in full, or the
  last one cut off because the page is full.\<close>

definition page_shows :: "nat \<Rightarrow> string list \<Rightarrow> nat \<Rightarrow> bool \<Rightarrow> string \<Rightarrow> string \<Rightarrow> bool" where
  "page_shows k ls n clipped out body \<longleftrightarrow>
     (if clipped
      then 0 < n \<and> n \<le> length ls \<and> (\<exists>m. body = numbered_lines k (take (n - 1) ls) @ line_prefix (k + n - 1) @ take m (ls ! (n - 1)) @ clipped_marker)
        \<and> body_limit < length out + length (numbered_lines k (take n ls))
      else n = length ls \<and> body = numbered_lines k ls)"

lemma page_body_shows:
  "page_body ls k out = (out', cursor, clipped) \<Longrightarrow> \<exists>n body. cursor = k + n \<and> out' = out @ body \<and> page_shows k ls n clipped out body"
proof (induction ls k out rule: page_body.induct)
  case (1 k out)
  then show ?case by (simp add: page_shows_def)
next
  case (2 line rest k out)
  show ?case
  proof (cases "length out + (length (line_prefix k) + length line + 1) \<le> body_limit")
    case True
    then obtain n body where *: "cursor = k + 1 + n" "out' = (out @ line_prefix k @ line @ [newline_byte]) @ body"
        "page_shows (k + 1) rest n clipped (out @ line_prefix k @ line @ [newline_byte]) body"
      using "2.IH" [OF True] "2.prems" by auto
    then show ?thesis
      by (intro exI [of _ "Suc n"] exI [of _ "line_prefix k @ line @ [newline_byte] @ body"])
        (auto simp: page_shows_def add.assoc nth_Cons' take_Cons' split: if_splits)
  next
    case False
    then have "cursor = k + 1" "clipped" and out': "\<exists>m. out' = out @ line_prefix k @ take m line @ clipped_marker"
      using "2.prems" by auto
    then show ?thesis using False
      by (intro exI [of _ 1]) (auto simp: page_shows_def add.assoc)
  qed
qed

lemma format_read_page_run:
  assumes "lines_of text = ls" and "offset < length ls" and "length ls \<le> u64_max"
    and "page_body (take wanted (drop offset ls)) offset (page_header p (length ls) offset wanted) = (out, cursor, clipped)"
  shows "format_read_page p text offset wanted = out @ page_notice cursor (length ls) @ clip_notice clipped"
proof -
  have range: "min (sat_add offset wanted) (length ls) - min offset (length ls) = min wanted (length ls - offset)"
    using assms(2,3) by (auto simp: sat_add_def min_def)
  have "take (min (sat_add offset wanted) (length ls) - min offset (length ls)) (drop (min offset (length ls)) ls) = take wanted (drop offset ls)"
    unfolding range using assms(2) by (simp add: min_def)
  then show ?thesis using assms by (simp add: format_read_page_def lines_of_def Let_def min_def split: if_splits)
qed

text \<open>
  Every page makes progress and tells the truth: for an offset inside the file, \<open>read_file\<close> shows
  at least one and at most the wanted number of lines, from the offset on, numbered_lines and in order, and
  names the line after the last one shown as the next offset exactly when lines are left.  All of
  them are shown in full, down to the wanted number or the end of the file, or the last one is marked
  as clipped, and then it did not fit in the rest of the page.
\<close>

theorem read_page_shows_lines:
  assumes "lines_of text = ls" and "offset < length ls" and "0 < wanted" and "length ls \<le> u64_max"
  shows "\<exists>n clipped body. 0 < n \<and> n \<le> wanted \<and> offset + n \<le> length ls
    \<and> format_read_page p text offset wanted = page_header p (length ls) offset wanted @ body
      @ (if offset + n < length ls then page_notice (offset + n) (length ls) else []) @ clip_notice clipped
    \<and> page_shows offset (take wanted (drop offset ls)) n clipped (page_header p (length ls) offset wanted) body"
proof -
  obtain out cursor clipped where run: "page_body (take wanted (drop offset ls)) offset (page_header p (length ls) offset wanted) = (out, cursor, clipped)"
    by (metis prod.collapse)
  then obtain n body where n: "cursor = offset + n" "out = page_header p (length ls) offset wanted @ body"
      "page_shows offset (take wanted (drop offset ls)) n clipped (page_header p (length ls) offset wanted) body"
    using page_body_shows by blast
  have bounds: "0 < n \<and> n \<le> wanted \<and> offset + n \<le> length ls"
    using n(3) assms(2,3) by (auto simp: page_shows_def split: if_splits)
  have "format_read_page p text offset wanted = out @ page_notice cursor (length ls) @ clip_notice clipped"
    by (rule format_read_page_run [OF assms(1,2,4) run])
  moreover have "page_notice cursor (length ls) = (if offset + n < length ls then page_notice (offset + n) (length ls) else [])"
    using n(1) by (simp add: page_notice_def)
  ultimately show ?thesis using n bounds by (intro exI [of _ n] exI [of _ clipped] exI [of _ body]) simp
qed

subsection \<open>Lines at a page boundary\<close>

lemma length_decimal_digit: "n < 10 \<Longrightarrow> length (decimal n) = 1"
  by (subst decimal.simps) simp

lemma length_decimal_hundreds: "length (decimal 200) = 3"
  by (subst decimal.simps, subst decimal.simps, subst decimal.simps) simp

definition long_line :: "char \<Rightarrow> string" where
  "long_line c = replicate 10000 c"

definition two_long_lines :: string where
  "two_long_lines = long_line (CHR ''a'') @ newline_byte # long_line (CHR ''b'')"

lemma ends_with_last: "ends_with [c] s \<longleftrightarrow> s \<noteq> [] \<and> last s = c"
  by (cases s rule: rev_cases) (auto simp: ends_with_def starts_with_iff)

lemma lines_of_absent: "carriage_return \<notin> set s \<Longrightarrow> lines_of s = text_lines s"
  by (simp add: lines_of_def crlf_absent)

lemma lines_of_two: "lines_of two_long_lines = [long_line (CHR ''a''), long_line (CHR ''b'')]"
proof -
  have "lines_of two_long_lines = text_lines two_long_lines"
    by (rule lines_of_absent) (simp add: two_long_lines_def long_line_def carriage_return_def newline_byte_def)
  moreover have "split_on newline_byte two_long_lines = [long_line (CHR ''a''), long_line (CHR ''b'')]"
    unfolding two_long_lines_def split_on_append by (simp add: split_on_absent long_line_def newline_byte_def)
  moreover have "\<not> ends_with [newline_byte] two_long_lines" "two_long_lines \<noteq> []"
    by (simp_all add: ends_with_last two_long_lines_def long_line_def newline_byte_def)
  ultimately show ?thesis by (simp add: text_lines_def)
qed

text \<open>
  The loop clips the first line that does not fit in what is left of the page, even when it would fit
  on a page of its own, and the next offset is behind it: of two lines of 10000 bytes the page from
  offset 0 cuts the second one off and reports nothing left to read, while the page from offset 1
  shows it in full.
\<close>

lemma page_boundary_clips_a_whole_line:
  "(\<exists>m < 10000. format_read_page ''f'' two_long_lines 0 200 = page_header ''f'' 2 0 200 @ numbered_lines 0 [long_line (CHR ''a'')]
      @ line_prefix 1 @ take m (long_line (CHR ''b'')) @ clipped_marker @ clip_notice True)
   \<and> format_read_page ''f'' two_long_lines 1 200 = page_header ''f'' 2 1 200 @ numbered_lines 1 [long_line (CHR ''b'')]"
proof -
  have digits: "length (decimal 0) = 1" "length (decimal (Suc 0)) = 1" "length (decimal 2) = 1" "length (decimal (Suc (Suc 0))) = 1"
    using length_decimal_digit by simp_all
  have prefix: "length (line_prefix 0) = 3" "length (line_prefix 1) = 3" "length (line_prefix (Suc 0)) = 3"
    using digits by (simp_all add: line_prefix_def)
  have header: "length (page_header ''f'' 2 k 200) = 55" if "k < 2" for k
    using that digits length_decimal_hundreds length_decimal_digit [of k] by (simp add: page_header_def)
  have sizes: "length (long_line c) = 10000" for c by (simp add: long_line_def)
  have marker: "length clipped_marker = 21" by (simp add: clipped_marker_def utf8_bytes_def)
  have small: "2 \<le> u64_max" by (simp add: u64_max_def)
  let ?ls = "[long_line (CHR ''a''), long_line (CHR ''b'')]"
  have two: "length ?ls = 2" by simp
  have "page_body (take 200 (drop 0 ?ls)) 0 (page_header ''f'' 2 0 200) =
      (page_header ''f'' 2 0 200 @ numbered_lines 0 [long_line (CHR ''a'')]
      @ line_prefix 1 @ take (floor_char_boundary (long_line (CHR ''b'')) (15180 - 10083)) (long_line (CHR ''b'')) @ clipped_marker, 2, True)"
    using header [of 0] prefix by (simp add: sizes marker body_limit_def max_read_page_bytes_def)
  from format_read_page_run [OF lines_of_two, unfolded two, OF _ small this]
  have first: "format_read_page ''f'' two_long_lines 0 200 = page_header ''f'' 2 0 200 @ numbered_lines 0 [long_line (CHR ''a'')]
      @ line_prefix 1 @ take (floor_char_boundary (long_line (CHR ''b'')) (15180 - 10083)) (long_line (CHR ''b'')) @ clipped_marker
      @ clip_notice True"
    by (simp add: page_notice_def)
  have "page_body (take 200 (drop 1 ?ls)) 1 (page_header ''f'' 2 1 200) =
      (page_header ''f'' 2 1 200 @ numbered_lines 1 [long_line (CHR ''b'')], 2, False)"
    using header [of 1] prefix by (simp add: sizes body_limit_def max_read_page_bytes_def)
  from format_read_page_run [OF lines_of_two, unfolded two, OF _ small this]
  have second: "format_read_page ''f'' two_long_lines 1 200 = page_header ''f'' 2 1 200 @ numbered_lines 1 [long_line (CHR ''b'')]"
    by (simp add: page_notice_def clip_notice_def)
  have "floor_char_boundary (long_line (CHR ''b'')) (15180 - 10083) < 10000"
    by (rule le_less_trans [OF floor_char_boundary_le]) simp
  then show ?thesis using first second by blast
qed

text \<open>
  The mark of a clipped line and the two notices need more than the 180 bytes the loop leaves for
  them when the page is filled to the last byte: a page can be longer than its limit.
\<close>

definition filling_text :: string where
  "filling_text = replicate 15123 (CHR ''a'') @ newline_byte # newline_byte # ''b''"

lemma page_can_exceed_its_limit: "max_read_page_bytes < length (format_read_page ''f'' filling_text 0 2)"
proof -
  let ?ls = "[replicate 15123 (CHR ''a''), [], ''b'']"
  have "lines_of filling_text = text_lines filling_text"
    by (rule lines_of_absent) (simp add: filling_text_def carriage_return_def newline_byte_def)
  moreover have "split_on newline_byte filling_text = ?ls"
    unfolding filling_text_def split_on_append by (simp add: split_on_absent newline_byte_def)
  moreover have "\<not> ends_with [newline_byte] filling_text" "filling_text \<noteq> []"
    by (simp_all add: ends_with_last filling_text_def newline_byte_def)
  ultimately have ls: "lines_of filling_text = ?ls" by (simp add: text_lines_def)
  have digits: "length (decimal 0) = 1" "length (decimal (Suc 0)) = 1" "length (decimal 2) = 1" "length (decimal 3) = 1"
      "length (decimal (Suc (Suc (Suc 0)))) = 1" "length (decimal (Suc (Suc 0))) = 1"
    using length_decimal_digit by simp_all
  have prefix: "length (line_prefix 0) = 3" "length (line_prefix (Suc 0)) = 3" using digits by (simp_all add: line_prefix_def)
  have header: "length (page_header ''f'' 3 0 2) = 53" using digits by (simp add: page_header_def)
  have marker: "length clipped_marker = 21" by (simp add: clipped_marker_def utf8_bytes_def)
  have three: "length ?ls = 3" by simp
  have small: "3 \<le> u64_max" by (simp add: u64_max_def)
  have "page_body (take 2 (drop 0 ?ls)) 0 (page_header ''f'' 3 0 2) =
      (page_header ''f'' 3 0 2 @ numbered_lines 0 [replicate 15123 (CHR ''a'')] @ line_prefix 1 @ clipped_marker, 2, True)"
    using header prefix by (simp add: marker body_limit_def max_read_page_bytes_def)
  from format_read_page_run [OF ls, unfolded three, OF _ small this]
  have page: "format_read_page ''f'' filling_text 0 2 = page_header ''f'' 3 0 2 @ numbered_lines 0 [replicate 15123 (CHR ''a'')]
      @ line_prefix 1 @ clipped_marker @ page_notice 2 3 @ clip_notice True"
    by simp
  show ?thesis unfolding page
    using header prefix digits marker by (simp add: page_notice_def clip_notice_def max_read_page_bytes_def)
qed

theorem read_page_shows_lines_witness:
  "\<exists>n clipped body. 0 < n \<and> n \<le> 200 \<and> 0 + n \<le> length [long_line (CHR ''a''), long_line (CHR ''b'')]
    \<and> format_read_page ''f'' two_long_lines 0 200 = page_header ''f'' (length [long_line (CHR ''a''), long_line (CHR ''b'')]) 0 200 @ body
      @ (if 0 + n < length [long_line (CHR ''a''), long_line (CHR ''b'')]
         then page_notice (0 + n) (length [long_line (CHR ''a''), long_line (CHR ''b'')]) else []) @ clip_notice clipped
    \<and> page_shows 0 (take 200 (drop 0 [long_line (CHR ''a''), long_line (CHR ''b'')])) n clipped
        (page_header ''f'' (length [long_line (CHR ''a''), long_line (CHR ''b'')]) 0 200) body"
  by (rule read_page_shows_lines [OF lines_of_two]) (simp_all add: u64_max_def)

end
