(* ===== verification/Shell_Policy.thy ===== *)
theory Shell_Policy
  imports File_Tools
begin

section \<open>Which shell commands need no approval (workspace/shell.rs, workspace.rs)\<close>

text \<open>
  The arguments of the \<open>shell\<close> tool, the classification of commands that only read, the check that
  the paths of such a command stay inside the readable roots, and the admission that rests on both.
  The target is Unix, so the branches for Windows are absent.
\<close>

definition max_command_bytes :: nat where "max_command_bytes = 16 * 1024"

datatype shell_invocation =
    Foreground string
  | Background string string "string option"

definition validated_command :: "'v value_api \<Rightarrow> 'v \<Rightarrow> string + string" where
  "validated_command js arguments = (case string_arg js arguments ''command'' of
     Inl e \<Rightarrow> Inl e
   | Inr command \<Rightarrow> if command = [] \<or> max_command_bytes < length command
       then Inl (''command must contain 1..='' @ decimal max_command_bytes @ '' bytes'') else Inr command)"

definition text_field :: "'v value_api \<Rightarrow> 'v \<Rightarrow> string \<Rightarrow> string option" where
  "text_field js arguments name = Option.bind (va_get js arguments name) (va_as_str js)"

definition background_actions :: "string list" where
  "background_actions = [''start'', ''status'', ''logs'', ''stop'', ''restart'']"

definition background_invocation :: "'v value_api \<Rightarrow> 'v \<Rightarrow> string + shell_invocation" where
  "background_invocation js arguments = (case text_field js arguments ''action'' of
     None \<Rightarrow> Inl ''background shell action is required''
   | Some action \<Rightarrow>
       if action \<notin> set background_actions then Inl ''unknown background shell action''
       else (case text_field js arguments ''task_id'' of
           None \<Rightarrow> Inl ''background shell task_id is required''
         | Some task_id \<Rightarrow>
             if action = ''start''
             then map_sum id (\<lambda>command. Background action task_id (Some command)) (validated_command js arguments)
             else if va_get js arguments ''command'' \<noteq> None
             then Inl ''command is only accepted when starting a background shell task''
             else Inr (Background action task_id None)))"

definition validated_invocation :: "'v value_api \<Rightarrow> 'v \<Rightarrow> string + shell_invocation" where
  "validated_invocation js arguments =
    (let mode = (case text_field js arguments ''mode'' of None \<Rightarrow> ''foreground'' | Some m \<Rightarrow> m) in
     if mode = ''foreground''
     then (if va_get js arguments ''action'' \<noteq> None \<or> va_get js arguments ''task_id'' \<noteq> None
       then Inl ''action and task_id require mode=background''
       else map_sum id Foreground (validated_command js arguments))
     else if mode = ''background'' then background_invocation js arguments
     else Inl ''shell mode must be foreground or background'')"

subsection \<open>Commands that only read\<close>

definition unquote :: "string \<Rightarrow> string" where
  "unquote = trim_matches (\<lambda>c. c = CHR 0x27 \<or> c = CHR 0x22)"

definition program_of :: "string \<Rightarrow> string" where
  "program_of token = to_ascii_lowercase (after_last [CHR 0x5C, CHR ''/''] (unquote token))"

definition shell_meta :: "char list" where
  "shell_meta = [CHR 0x0A, CHR 0x0D, CHR ''&'', CHR ''>'', CHR ''<'', CHR 0x60, CHR ''('', CHR '')'', CHR ''{'', CHR ''}'']"

definition reading_programs :: "string list" where
  "reading_programs = [''cat'', ''echo'', ''fd'', ''file'', ''head'', ''ls'', ''pwd'', ''rg'', ''stat'', ''tail'', ''tree'']"

definition git_reads :: "string list \<Rightarrow> bool" where
  "git_reads tokens =
    (if list_ex (\<lambda>t. starts_with ''--output'' (to_ascii_lowercase t) \<or> to_ascii_lowercase t = ''--ext-diff''
         \<or> to_ascii_lowercase t = ''--textconv'') tokens then False
     else (case tokens of
         [] \<Rightarrow> False
       | sub # rest \<Rightarrow>
           if to_ascii_lowercase sub = ''branch'' then list_all (\<lambda>t. eq_ignore_ascii_case t ''--show-current'') rest
           else to_ascii_lowercase sub \<in> set [''status'', ''log'', ''diff'', ''show'', ''rev-parse'', ''ls-files'']))"

definition is_read_only_shell_segment :: "string \<Rightarrow> bool" where
  "is_read_only_shell_segment segment = (case split_whitespace segment of
     [] \<Rightarrow> False
   | first # tokens \<Rightarrow>
       let program = program_of first in
       if program = ''git'' then git_reads tokens
       else if program = ''fd'' \<and> list_ex (\<lambda>t. to_ascii_lowercase t \<in> set [''--exec'', ''--exec-batch'', ''-x'']) tokens
         \<or> program = ''rg'' \<and> list_ex (\<lambda>t. eq_ignore_ascii_case t ''--pre'') tokens
       then False
       else program \<in> set reading_programs)"

definition is_read_only_shell_sequence :: "string \<Rightarrow> bool" where
  "is_read_only_shell_sequence s \<longleftrightarrow> list_all is_read_only_shell_segment (split_on (CHR ''|'') s)"

definition is_read_only_shell_command :: "string \<Rightarrow> bool" where
  "is_read_only_shell_command command \<longleftrightarrow>
     \<not> (list_ex (\<lambda>c. c \<in> set shell_meta) command \<or> contains_sub ''$('' command)
     \<and> list_all is_read_only_shell_sequence (split_on (CHR '';'') command)"

subsection \<open>Paths of a command\<close>

definition shell_token_looks_like_path :: "string \<Rightarrow> bool" where
  "shell_token_looks_like_path token \<longleftrightarrow> starts_with ''.'' token \<or> starts_with ''~'' token
     \<or> list_ex (\<lambda>c. c \<in> {CHR ''/'', CHR 0x5C, CHR '':''}) token"

definition is_readable_shell_path :: "workspace_env \<Rightarrow> workspace \<Rightarrow> approval_controller \<Rightarrow> string \<Rightarrow> bool tool_io" where
  "is_readable_shell_path env ws c token0 =
    (let token = unquote token0 in
     if CHR '':'' \<in> set token \<or> Parent_Dir \<in> set (path_components token) then retA False
     else caseA (bindA (candidate env ws c token) (normalize_path env))
       (\<lambda>p. retA ((path_in (ws_root ws) p \<or> list_ex (\<lambda>root. path_in root p) (ws_extra_read_roots ws))
          \<and> (case ensure_readable ws c p of Inr _ \<Rightarrow> True | Inl _ \<Rightarrow> False)))
       (\<lambda>_. retA False))"

definition plain_shell_token :: "string \<Rightarrow> bool" where
  "plain_shell_token token \<longleftrightarrow> \<not> (token = [] \<or> CHR ''$'' \<in> set token \<or> CHR ''%'' \<in> set token \<or> starts_with ''~'' token
     \<or> contains_sub ''://'' token \<or> CHR ''='' \<in> set token)"

definition is_bounded_shell_token :: "workspace_env \<Rightarrow> workspace \<Rightarrow> approval_controller \<Rightarrow> string \<Rightarrow> bool tool_io" where
  "is_bounded_shell_token env ws c token0 =
    (let token = unquote token0 in
     if \<not> plain_shell_token token then retA False
     else if \<not> shell_token_looks_like_path token then retA True
     else is_readable_shell_path env ws c token)"

text \<open>\<open>Iterator::all\<close> and \<open>any\<close> stop at the first element that decides.\<close>

fun allA :: "('a \<Rightarrow> ('s, 'e, bool) act) \<Rightarrow> 'a list \<Rightarrow> ('s, 'e, bool) act" where
  "allA f [] = retA True"
| "allA f (x # xs) = bindA (f x) (\<lambda>b. if b then allA f xs else retA False)"

fun anyA :: "('a \<Rightarrow> ('s, 'e, bool) act) \<Rightarrow> 'a list \<Rightarrow> ('s, 'e, bool) act" where
  "anyA f [] = retA False"
| "anyA f (x # xs) = bindA (f x) (\<lambda>b. if b then retA True else anyA f xs)"

definition shell_segments :: "string \<Rightarrow> string list" where
  "shell_segments command = concat (map (split_on (CHR ''|'')) (split_on (CHR '';'') command))"

definition is_bounded_read_only_shell_command ::
  "workspace_env \<Rightarrow> workspace \<Rightarrow> approval_controller \<Rightarrow> string \<Rightarrow> bool tool_io" where
  "is_bounded_read_only_shell_command env ws c command =
    (if \<not> is_read_only_shell_command command then retA False
     else allA (\<lambda>segment. if segment = [] then retA False
       else allA (is_bounded_shell_token env ws c) (split_whitespace segment)) (shell_segments command))"

subsection \<open>Where a command runs\<close>

definition path_extension :: "string \<Rightarrow> string option" where
  "path_extension p = (case file_name_of p of
     None \<Rightarrow> None
   | Some name \<Rightarrow> (case rfind_sub ''.'' name of
       None \<Rightarrow> None | Some 0 \<Rightarrow> None | Some (Suc i) \<Rightarrow> Some (drop (Suc (Suc i)) name)))"

definition scratch_script :: "workspace_env \<Rightarrow> string \<Rightarrow> string \<Rightarrow> bool tool_io" where
  "scratch_script env scratch token0 =
    (let token = unquote token0 in
     if starts_with ''-'' token then retA False
     else (let resolved = (case plan_scratch_relative_rest token of
             Some rest \<Rightarrow> path_join scratch rest
           | None \<Rightarrow> if is_absolute token then token else path_join scratch token) in
       bindA (is_under_dir env resolved scratch) (\<lambda>under. retA (under \<and> (case path_extension resolved of
           None \<Rightarrow> False | Some ext \<Rightarrow> to_ascii_lowercase ext \<in> set [''py'', ''js'', ''mjs'', ''cjs''])))))"

definition is_plan_scratch_command :: "workspace_env \<Rightarrow> approval_controller \<Rightarrow> string \<Rightarrow> bool tool_io" where
  "is_plan_scratch_command env c command = (case scratch_of c of
     None \<Rightarrow> retA False
   | Some scratch \<Rightarrow>
       if list_ex (\<lambda>ch. ch \<in> set shell_meta \<or> ch = CHR '';'' \<or> ch = CHR ''|'') command \<or> contains_sub ''$('' command
       then retA False
       else (case split_whitespace command of
           [] \<Rightarrow> retA False
         | first # tokens \<Rightarrow>
             if program_of first \<notin> set [''python'', ''python3'', ''py'', ''node''] then retA False
             else anyA (scratch_script env scratch) tokens))"

definition shell_root :: "workspace_env \<Rightarrow> workspace \<Rightarrow> approval_controller \<Rightarrow> string \<Rightarrow> string tool_io" where
  "shell_root env ws c command = bindA (is_plan_scratch_command env c command) (\<lambda>script.
     retA (case (script, scratch_of c) of
         (True, Some scratch) \<Rightarrow>
           if list_ex (\<lambda>t. plan_scratch_relative_rest (unquote t) \<noteq> None) (split_whitespace command)
           then ws_root ws else scratch
       | _ \<Rightarrow> ws_root ws))"

subsection \<open>Admission\<close>

definition shell_action :: "shell_invocation \<Rightarrow> string" where
  "shell_action invocation = (case invocation of
     Foreground command \<Rightarrow> ''shell command `'' @ command @ ''`''
   | Background action task_id _ \<Rightarrow> ''background shell '' @ action @ '' task `'' @ task_id @ ''`'')"

definition reads_only :: "workspace_env \<Rightarrow> workspace \<Rightarrow> approval_controller \<Rightarrow> shell_invocation \<Rightarrow> bool tool_io" where
  "reads_only env ws c invocation = (case invocation of
     Foreground command \<Rightarrow> is_bounded_read_only_shell_command env ws c command
   | Background action _ _ \<Rightarrow> retA (action = ''status'' \<or> action = ''logs''))"

definition shell_admission :: "workspace_env \<Rightarrow> 'v value_api \<Rightarrow> workspace \<Rightarrow> approval_controller \<Rightarrow> 'v \<Rightarrow> tool_admission tool_io" where
  "shell_admission env js ws c arguments =
    bindA (ofA (validated_invocation js arguments)) (\<lambda>invocation.
    bindA (if ac_approval_policy c \<in> {Automatic, Trusted} then reads_only env ws c invocation else retA False) (\<lambda>free.
    if free then seqA (ofA (ensure_not_denied (shell_action invocation) c)) (retA (Allowed []))
    else retA (ApprovalRequired (shell_action invocation) [] None)))"

end
