(* ===== verification/Background_Shell.thy ===== *)
theory Background_Shell
  imports Project_Context
begin

section \<open>Background shell tasks (background_shell.rs, sandbox.rs)\<close>

text \<open>
  The manager of processes that outlive a turn.  Processes are a table: a call of the operating
  system takes one tick and may fail at the ticks the schedule names; a process ends when it is
  terminated or by itself.  A task's handle is shared with the thread that watches its process and
  with the readers of its output, so their steps are separate: \<open>monitor_step\<close> is what the watcher does
  between two releases of a lock.  A process identifier is never given out twice and is the address
  of its handle.
\<close>

subsection \<open>Sandbox kinds\<close>

datatype sandbox_kind = Sandbox_Native | Sandbox_None | Sandbox_Docker

definition sandbox_parse :: "string \<Rightarrow> string + sandbox_kind" where
  "sandbox_parse s = (let other = to_ascii_lowercase s in
     if other \<in> set [''native'', ''os'', ''local''] then Inr Sandbox_Native
     else if other \<in> set [''none'', ''unsandboxed'', ''disabled''] then Inr Sandbox_None
     else if other \<in> set [''docker'', ''container''] then Inr Sandbox_Docker
     else Inl (''unknown sandbox kind: '' @ other))"

definition sandbox_name :: "sandbox_kind \<Rightarrow> string" where
  "sandbox_name k = (case k of Sandbox_Native \<Rightarrow> ''native'' | Sandbox_None \<Rightarrow> ''none'' | Sandbox_Docker \<Rightarrow> ''docker'')"

subsection \<open>Data\<close>

definition max_task_id_bytes :: nat where "max_task_id_bytes = 128"

definition max_command_summary_chars :: nat where "max_command_summary_chars = 256"

definition max_log_bytes :: nat where "max_log_bytes = 64 * 1024"

record background_task =
  bt_task_id :: string
  bt_owner_thread_id :: string
  bt_state :: string
  bt_command_summary :: string
  bt_command_hash :: string
  bt_working_directory :: string
  bt_process_id :: "nat option"
  bt_started_at :: nat
  bt_stopped_at :: "nat option"
  bt_exit_code :: "int option"
  bt_log_bytes :: nat
  bt_log_truncated :: bool

record background_logs =
  bgl_task_id :: string
  bgl_text :: string
  bgl_bytes :: nat
  bgl_truncated :: bool

record bounded_log =
  bl_bytes :: string
  bl_total_bytes :: nat
  bl_truncated :: bool

text \<open>What the watcher of a process does next; an exit is its code, none after a signal.\<close>

datatype monitor_phase = Watching | Saw_Exit "int option" | Cleared_Child "int option" | Monitor_Ended

record task_handle =
  hd_task :: background_task
  hd_command :: string
  hd_working_directory :: string
  hd_child :: "nat option"
  hd_logs :: bounded_log
  hd_stop_requested :: bool
  hd_monitor :: monitor_phase

record process_table =
  pt_running :: "nat list"
  pt_exits :: "nat \<Rightarrow> int option"
  pt_commands :: "(nat \<times> string list \<times> string) list"
  pt_next :: nat
  pt_fault :: "nat \<Rightarrow> string option"
  pt_clock :: "nat \<Rightarrow> nat"
  pt_tick :: nat

record shell_manager =
  bs_owner :: "string option"
  bs_allow_tasks :: bool
  bs_tasks :: "(string \<times> nat) list"
  bs_handles :: "nat \<Rightarrow> task_handle option"
  bs_procs :: process_table

type_synonym 'a bg = "(shell_manager, string, 'a) act"

subsection \<open>Calls of the operating system\<close>

definition on_procs :: "(process_table \<Rightarrow> 'a \<times> process_table) \<Rightarrow> 'a bg" where
  "on_procs f = stepA (\<lambda>s. case f (bs_procs s) of (x, p) \<Rightarrow> (x, s\<lparr>bs_procs := p\<rparr>))"

definition proc_tick :: "string option bg" where
  "proc_tick = on_procs (\<lambda>p. (pt_fault p (pt_tick p), p\<lparr>pt_tick := pt_tick p + 1\<rparr>))"

definition unless_failed :: "'a bg \<Rightarrow> 'a bg" where
  "unless_failed m = bindA proc_tick (\<lambda>fault. case fault of Some e \<Rightarrow> raiseA e | None \<Rightarrow> m)"

definition proc_spawn :: "string list \<Rightarrow> string \<Rightarrow> nat bg" where
  "proc_spawn argv dir = unless_failed (on_procs (\<lambda>p. (pt_next p,
     p\<lparr>pt_running := pt_next p # pt_running p, pt_commands := (pt_next p, argv, dir) # pt_commands p, pt_next := pt_next p + 1\<rparr>)))"

definition proc_try_wait :: "nat \<Rightarrow> int option option bg" where
  "proc_try_wait pid = unless_failed (on_procs (\<lambda>p. (if pid \<in> set (pt_running p) then None else Some (pt_exits p pid), p)))"

text \<open>\<open>ProcessSandbox::terminate\<close>: the process group is killed and waited for.\<close>

definition proc_terminate :: "nat \<Rightarrow> int option bg" where
  "proc_terminate pid = unless_failed (on_procs (\<lambda>p.
     if pid \<in> set (pt_running p)
     then (None, p\<lparr>pt_running := filter (\<lambda>q. q \<noteq> pid) (pt_running p), pt_exits := (pt_exits p)(pid := None)\<rparr>)
     else (pt_exits p pid, p)))"

definition timestamp_ms :: "nat bg" where
  "timestamp_ms = on_procs (\<lambda>p. (pt_clock p (pt_tick p), p\<lparr>pt_tick := pt_tick p + 1\<rparr>))"

subsection \<open>Logs\<close>

definition empty_log :: bounded_log where
  "empty_log = \<lparr>bl_bytes = [], bl_total_bytes = 0, bl_truncated = False\<rparr>"

definition log_append :: "string \<Rightarrow> bounded_log \<Rightarrow> bounded_log" where
  "log_append bytes l =
    (let kept = bl_bytes l @ bytes; surplus = length kept - max_log_bytes in
     \<lparr>bl_bytes = drop surplus kept, bl_total_bytes = sat_add (bl_total_bytes l) (length bytes),
       bl_truncated = (bl_truncated l \<or> 0 < surplus)\<rparr>)"

text \<open>
  \<open>String::from_utf8_lossy\<close>: every longest piece that starts like a character but is none becomes one
  replacement character.
\<close>

definition bad_prefix :: "string \<Rightarrow> nat" where
  "bad_prefix s = (case s of
     [] \<Rightarrow> 0
   | c # rest \<Rightarrow>
       if lead_len (bv c) < 2 \<or> rest = [] \<or> \<not> (cont_byte (rest ! 0) \<and> second_ok (bv c) (bv (rest ! 0))) then 1
       else if length rest < 2 \<or> \<not> cont_byte (rest ! 1) then 2 else 3)"

lemma bad_prefix_pos: "s \<noteq> [] \<Longrightarrow> 0 < bad_prefix s"
  by (cases s) (auto simp: bad_prefix_def)

function from_utf8_lossy :: "string \<Rightarrow> string" where
  "from_utf8_lossy s = (if s = [] then []
     else if char_width s = 0 then utf8_bytes [0xEF, 0xBF, 0xBD] @ from_utf8_lossy (drop (bad_prefix s) s)
     else take (char_width s) s @ from_utf8_lossy (drop (char_width s) s))"
  by pat_completeness auto
termination
  by (relation "measure length") (auto simp: bad_prefix_pos)

declare from_utf8_lossy.simps [simp del]

subsection \<open>Tasks\<close>

definition ascii_alphanumeric :: "char \<Rightarrow> bool" where
  "ascii_alphanumeric c \<longleftrightarrow> ascii_digit c \<or> 0x41 \<le> bv c \<and> bv c \<le> 0x5A \<or> 0x61 \<le> bv c \<and> bv c \<le> 0x7A"

definition in_quotes :: "string \<Rightarrow> string" where
  "in_quotes s = [CHR 0x27] @ s @ [CHR 0x27]"

definition validate_task_id :: "string \<Rightarrow> string + unit" where
  "validate_task_id task_id =
    (if task_id = [] \<or> max_task_id_bytes < length task_id
       \<or> \<not> list_all (\<lambda>c. ascii_alphanumeric c \<or> c \<in> {CHR ''-'', CHR ''_'', CHR ''.''}) task_id
     then Inl (''task_id must contain only letters, numbers, '' @ in_quotes ''.'' @ '', '' @ in_quotes ''_'' @ '' or '' @ in_quotes ''-''
       @ '' and be at most '' @ decimal max_task_id_bytes @ '' bytes'')
     else Inr ())"

definition validate_command :: "string \<Rightarrow> string + unit" where
  "validate_command command = (if command = [] \<or> 16 * 1024 < length command
     then Inl ''command must contain 1..=16384 bytes'' else Inr ())"

fun join_words :: "string list \<Rightarrow> string" where
  "join_words [] = []"
| "join_words [w] = w"
| "join_words (w # ws) = w @ '' '' @ join_words ws"

definition command_summary :: "string \<Rightarrow> string" where
  "command_summary command = take_chars max_command_summary_chars (join_words (split_whitespace command))"

definition command_hash :: "string \<Rightarrow> string" where
  "command_hash command = hex_digits 16 (unat (fnv_hash command))"

definition bg_lift :: "string + 'a \<Rightarrow> 'a bg" where
  "bg_lift r = (case r of Inl e \<Rightarrow> raiseA e | Inr x \<Rightarrow> retA x)"

definition no_task :: "string \<Rightarrow> string" where
  "no_task task_id = ''background task `'' @ task_id @ ''` was not found''"

definition mod_handle :: "nat \<Rightarrow> (task_handle \<Rightarrow> task_handle) \<Rightarrow> shell_manager \<Rightarrow> shell_manager" where
  "mod_handle pid f s = s\<lparr>bs_handles := (bs_handles s)(pid := map_option f (bs_handles s pid))\<rparr>"

definition handle_snapshot :: "task_handle \<Rightarrow> background_task" where
  "handle_snapshot h = (hd_task h)\<lparr>bt_log_bytes := bl_total_bytes (hd_logs h), bt_log_truncated := bl_truncated (hd_logs h)\<rparr>"

text \<open>There is a handle for every identifier in use (\<open>manager_but\<close> in \<open>Background_Claims\<close>), so the first case is never reached.\<close>

definition with_handle :: "nat \<Rightarrow> (task_handle \<Rightarrow> 'a bg) \<Rightarrow> 'a bg" where
  "with_handle pid f = bindA (getA (\<lambda>s. bs_handles s pid)) (\<lambda>h. case h of None \<Rightarrow> starveA | Some h \<Rightarrow> f h)"

definition snapshot :: "nat \<Rightarrow> background_task bg" where
  "snapshot pid = with_handle pid (\<lambda>h. retA (handle_snapshot h))"

definition stop_child :: "nat \<Rightarrow> task_handle \<Rightarrow> unit bg" where
  "stop_child pid h = (case hd_child h of
     None \<Rightarrow> retA ()
   | Some child \<Rightarrow> bindA (proc_try_wait child) (\<lambda>st. case st of
       Some _ \<Rightarrow> retA ()
     | None \<Rightarrow> bindA (proc_terminate child) (\<lambda>_. retA ())))"

definition stop_handle :: "nat \<Rightarrow> string \<Rightarrow> unit bg" where
  "stop_handle pid final_state =
    seqA (modA (mod_handle pid (\<lambda>h. h\<lparr>hd_stop_requested := True\<rparr>)))
    (seqA (with_handle pid (stop_child pid))
    (seqA (modA (mod_handle pid (\<lambda>h. h\<lparr>hd_child := None\<rparr>)))
    (bindA timestamp_ms (\<lambda>ts.
      modA (mod_handle pid (\<lambda>h. h\<lparr>hd_task := (hd_task h)\<lparr>bt_state := final_state, bt_stopped_at := Some ts\<rparr>\<rparr>))))))"

text \<open>The command of a background task: the sandbox kind selects nothing here.\<close>

definition shell_command :: "string \<Rightarrow> string list" where
  "shell_command command = [''sh'', ''-lc'', command]"

text \<open>\<open>spawn_task\<close> up to the start of the watcher, and what it does after that.\<close>

definition spawn_task :: "string \<Rightarrow> string \<Rightarrow> string \<Rightarrow> string \<Rightarrow> sandbox_kind \<Rightarrow> nat bg" where
  "spawn_task owner task_id command dir kind =
    bindA (proc_spawn (shell_command command) dir) (\<lambda>pid. bindA timestamp_ms (\<lambda>ts.
    seqA (modA (\<lambda>s. s\<lparr>bs_handles := (bs_handles s)(pid := Some
        \<lparr>hd_task = \<lparr>bt_task_id = task_id, bt_owner_thread_id = owner, bt_state = ''starting'',
           bt_command_summary = command_summary command, bt_command_hash = command_hash command, bt_working_directory = dir,
           bt_process_id = Some pid, bt_started_at = ts, bt_stopped_at = None, bt_exit_code = None, bt_log_bytes = 0,
           bt_log_truncated = False\<rparr>,
         hd_command = command, hd_working_directory = dir, hd_child = Some pid, hd_logs = empty_log,
         hd_stop_requested = False, hd_monitor = Watching\<rparr>)\<rparr>))
    (retA pid)))"

definition mark_running :: "nat \<Rightarrow> unit bg" where
  "mark_running pid = modA (mod_handle pid (\<lambda>h. h\<lparr>hd_task := (hd_task h)\<lparr>bt_state := ''running''\<rparr>\<rparr>))"

definition publish_task :: "string \<Rightarrow> nat \<Rightarrow> background_task bg" where
  "publish_task task_id pid = seqA (mark_running pid)
    (seqA (modA (\<lambda>s. s\<lparr>bs_tasks := (task_id, pid) # filter (\<lambda>(k, _). k \<noteq> task_id) (bs_tasks s)\<rparr>)) (snapshot pid))"

subsection \<open>The manager\<close>

definition manager_new :: "process_table \<Rightarrow> shell_manager" where
  "manager_new p = \<lparr>bs_owner = None, bs_allow_tasks = True, bs_tasks = [], bs_handles = (\<lambda>_. None), bs_procs = p\<rparr>"

definition bind_owner :: "string \<Rightarrow> shell_manager \<Rightarrow> shell_manager" where
  "bind_owner thread s = s\<lparr>bs_owner := Some thread\<rparr>"

definition disable_tasks :: "shell_manager \<Rightarrow> shell_manager" where
  "disable_tasks s = s\<lparr>bs_allow_tasks := False\<rparr>"

definition ensure_owner :: "string \<Rightarrow> unit bg" where
  "ensure_owner thread = bindA (getA bs_owner) (\<lambda>owner.
     if (case owner of None \<Rightarrow> False | Some o' \<Rightarrow> o' \<noteq> thread) then raiseA ''background task belongs to another Thread runtime''
     else retA ())"

definition ensure_enabled :: "unit bg" where
  "ensure_enabled = bindA (getA bs_allow_tasks) (\<lambda>allowed.
     if allowed then retA () else raiseA ''background Shell tasks are disabled for this runtime'')"

definition find_task :: "string \<Rightarrow> nat bg" where
  "find_task task_id = bindA (getA (\<lambda>s. map_of (bs_tasks s) task_id)) (\<lambda>found. case found of
     None \<Rightarrow> raiseA (no_task task_id) | Some pid \<Rightarrow> retA pid)"

definition task_list :: "string \<Rightarrow> background_task list bg" where
  "task_list thread = seqA (ensure_owner thread) (getA (\<lambda>s.
     map (handle_snapshot \<circ> the \<circ> bs_handles s \<circ> snd) (sort_key fst (bs_tasks s))))"

definition start_task :: "string \<Rightarrow> string \<Rightarrow> string \<Rightarrow> string \<Rightarrow> sandbox_kind \<Rightarrow> background_task bg" where
  "start_task thread task_id command dir kind =
    seqA ensure_enabled (seqA (ensure_owner thread)
    (seqA (bg_lift (validate_task_id task_id)) (seqA (bg_lift (validate_command command))
    (bindA (getA (\<lambda>s. map_of (bs_tasks s) task_id)) (\<lambda>existing. case existing of
       Some pid \<Rightarrow> snapshot pid
     | None \<Rightarrow> bindA (spawn_task thread task_id command dir kind) (publish_task task_id))))))"

definition read_task :: "string \<Rightarrow> string \<Rightarrow> background_task bg" where
  "read_task thread task_id = seqA (ensure_owner thread) (bindA (find_task task_id) snapshot)"

definition task_logs :: "string \<Rightarrow> string \<Rightarrow> background_logs bg" where
  "task_logs thread task_id = seqA (ensure_owner thread) (bindA (find_task task_id) (\<lambda>pid. with_handle pid (\<lambda>h.
     retA \<lparr>bgl_task_id = bt_task_id (hd_task h), bgl_text = from_utf8_lossy (bl_bytes (hd_logs h)),
       bgl_bytes = length (bl_bytes (hd_logs h)), bgl_truncated = bl_truncated (hd_logs h)\<rparr>)))"

definition stop_task :: "string \<Rightarrow> string \<Rightarrow> background_task bg" where
  "stop_task thread task_id = seqA (ensure_owner thread) (bindA (find_task task_id) (\<lambda>pid.
     seqA (stop_handle pid ''stopped'') (snapshot pid)))"

definition restart_task :: "string \<Rightarrow> string \<Rightarrow> sandbox_kind \<Rightarrow> background_task bg" where
  "restart_task thread task_id kind = seqA (ensure_owner thread) (bindA (find_task task_id) (\<lambda>old.
     seqA (modA (\<lambda>s. s\<lparr>bs_tasks := filter (\<lambda>(k, _). k \<noteq> task_id) (bs_tasks s)\<rparr>))
     (seqA (stop_handle old ''stopped'') (with_handle old (\<lambda>h.
       bindA (spawn_task thread task_id (hd_command h) (hd_working_directory h) kind) (publish_task task_id))))))"

fun stop_all :: "nat list \<Rightarrow> unit bg" where
  "stop_all [] = retA ()"
| "stop_all (pid # pids) = seqA (stop_handle pid ''stopped'') (stop_all pids)"

definition clear_tasks :: "shell_manager \<Rightarrow> shell_manager" where
  "clear_tasks s = s\<lparr>bs_tasks := []\<rparr>"

definition close_all :: "unit bg" where
  "close_all = bindA (getA (map snd \<circ> bs_tasks)) (\<lambda>pids. seqA (stop_all pids) (modA clear_tasks))"

subsection \<open>The other threads\<close>

definition monitor_step :: "nat \<Rightarrow> unit bg" where
  "monitor_step pid = with_handle pid (\<lambda>h. case hd_monitor h of
     Watching \<Rightarrow> (case hd_child h of
         None \<Rightarrow> modA (mod_handle pid (\<lambda>h. h\<lparr>hd_monitor := Monitor_Ended\<rparr>))
       | Some child \<Rightarrow> caseA (proc_try_wait child)
           (\<lambda>st. case st of None \<Rightarrow> retA () | Some code \<Rightarrow> modA (mod_handle pid (\<lambda>h. h\<lparr>hd_monitor := Saw_Exit code\<rparr>)))
           (\<lambda>_. retA ()))
   | Saw_Exit code \<Rightarrow> modA (mod_handle pid (\<lambda>h. h\<lparr>hd_child := None, hd_monitor := Cleared_Child code\<rparr>))
   | Cleared_Child code \<Rightarrow> bindA timestamp_ms (\<lambda>ts. modA (mod_handle pid (\<lambda>h. h\<lparr>hd_monitor := Monitor_Ended,
       hd_task := (hd_task h)\<lparr>bt_state := (if hd_stop_requested h \<or> code = Some 0 then ''stopped'' else ''failed''),
         bt_exit_code := code, bt_stopped_at := Some ts\<rparr>\<rparr>)))
   | Monitor_Ended \<Rightarrow> retA ())"

definition log_step :: "nat \<Rightarrow> string \<Rightarrow> shell_manager \<Rightarrow> shell_manager" where
  "log_step pid bytes = mod_handle pid (\<lambda>h. h\<lparr>hd_logs := log_append bytes (hd_logs h)\<rparr>)"

definition exit_step :: "nat \<Rightarrow> int option \<Rightarrow> shell_manager \<Rightarrow> shell_manager" where
  "exit_step pid code s = s\<lparr>bs_procs := (bs_procs s)\<lparr>pt_running := filter (\<lambda>q. q \<noteq> pid) (pt_running (bs_procs s)),
     pt_exits := (pt_exits (bs_procs s))(pid := code)\<rparr>\<rparr>"

end
