(* ===== verification/Shell.thy ===== *)
theory Shell
  imports Shell_Policy Background_Shell
begin

section \<open>Executing shell commands (workspace/shell.rs) and reading kept outputs (workspace.rs)\<close>

text \<open>
  A foreground command: the process it runs as, the loop that waits for it, the capture of its two
  streams, the text and the outcome made of them, and the retention of a long output.  What the
  operating system does is the record \<open>process_os\<close>, acting on a world of its own; a stream is the list of
  what the reads of it return.  A background command is a call of the manager of \<open>Background_Shell\<close>.
\<close>

definition max_command_capture_bytes :: nat where "max_command_capture_bytes = 8 * 1024 * 1024"

definition inline_command_output_bytes :: nat where "inline_command_output_bytes = 16 * 1024"

definition tool_output_page_bytes :: nat where "tool_output_page_bytes = 12 * 1024"

definition command_timeout_ms :: nat where "command_timeout_ms = 120 * 1000"

subsection \<open>Capturing a stream\<close>

record captured_output =
  cap_bytes :: string
  cap_total_bytes :: nat
  cap_truncated :: bool

definition push_tail :: "nat \<Rightarrow> string \<Rightarrow> char \<Rightarrow> string" where
  "push_tail tail_limit tail byte =
    (if tail_limit = 0 then tail else (if length tail = tail_limit then drop 1 tail else tail) @ [byte])"

fun capture_loop :: "nat \<Rightarrow> nat \<Rightarrow> string \<Rightarrow> string \<Rightarrow> nat \<Rightarrow> (string + string) list \<Rightarrow> string + string \<times> string \<times> nat" where
  "capture_loop head_limit tail_limit head tail n [] = Inr (head, tail, n)"
| "capture_loop head_limit tail_limit head tail n (Inl e # reads) = Inl e"
| "capture_loop head_limit tail_limit head tail n (Inr buffer # reads) =
    (if buffer = [] then Inr (head, tail, n)
     else let retained = min (length buffer) (head_limit - length head) in
       capture_loop head_limit tail_limit (head @ take retained buffer)
         (foldl (push_tail tail_limit) tail (drop retained buffer)) (sat_add n (length buffer)) reads)"

definition capture_bounded :: "(string + string) list \<Rightarrow> nat \<Rightarrow> string + captured_output" where
  "capture_bounded reads max_bytes =
    (let head_limit = (max_bytes + 1) div 2 in
     map_sum id (\<lambda>(head, tail, n). \<lparr>cap_bytes = head @ tail, cap_total_bytes = n, cap_truncated = (max_bytes < n)\<rparr>)
       (capture_loop head_limit (max_bytes - head_limit) [] [] 0 reads))"

definition render_capture :: "captured_output \<Rightarrow> string" where
  "render_capture c = (let text = from_utf8_lossy (cap_bytes c) in
     if cap_truncated c then ''[retained head+tail from '' @ decimal (cap_total_bytes c) @ '' bytes]'' @ [newline_byte] @ text else text)"

subsection \<open>The process of a command\<close>

record docker_output =
  dko_success :: bool
  dko_stdout :: string
  dko_stderr :: string

record 'w process_os =
  po_docker_linux :: "'w \<Rightarrow> bool \<times> 'w"
  po_container_id :: "'w \<Rightarrow> (nat \<times> nat) \<times> 'w"
  po_spawn :: "string list \<Rightarrow> string \<Rightarrow> 'w \<Rightarrow> (string + unit) \<times> 'w"
  po_try_wait :: "'w \<Rightarrow> (string + int option option) \<times> 'w"
  po_cancelled :: "'w \<Rightarrow> bool \<times> 'w"
  po_elapsed_ms :: "'w \<Rightarrow> nat \<times> 'w"
  po_sleep :: "'w \<Rightarrow> 'w"
  po_terminate :: "'w \<Rightarrow> (string + int option) \<times> 'w"
  po_docker_control :: "string list \<Rightarrow> 'w \<Rightarrow> (string + docker_output) \<times> 'w"
  po_stdout :: "'w \<Rightarrow> (string + string) list \<times> 'w"
  po_stderr :: "'w \<Rightarrow> (string + string) list \<times> 'w"

type_synonym ('w, 'a) os_act = "('w, string, 'a) act"

definition tryA :: "('w \<Rightarrow> (string + 'a) \<times> 'w) \<Rightarrow> ('w, 'a) os_act" where
  "tryA f = bindA (stepA f) (\<lambda>r. case r of Inl e \<Rightarrow> raiseA e | Inr x \<Rightarrow> retA x)"

definition terminate_docker_container :: "'w process_os \<Rightarrow> string \<Rightarrow> ('w, unit) os_act" where
  "terminate_docker_container os name =
    bindA (tryA (po_docker_control os [''kill'', name])) (\<lambda>killed. if dko_success killed then retA ()
    else bindA (tryA (po_docker_control os [''inspect'', ''--format={{.State.Running}}'', name])) (\<lambda>seen.
      if dko_success seen \<and> trim (from_utf8_lossy (dko_stdout seen)) = ''false'' then retA ()
      else if \<not> dko_success seen \<and> (contains_sub ''No such object'' (from_utf8_lossy (dko_stderr seen))
             \<or> contains_sub ''No such container'' (from_utf8_lossy (dko_stderr seen))) then retA ()
      else raiseA (''could not confirm Docker container '' @ name @ '' was stopped'')))"

definition terminate_sandboxed_command :: "'w process_os \<Rightarrow> string option \<Rightarrow> ('w, int option) os_act" where
  "terminate_sandboxed_command os container = bindA (tryA (po_terminate os)) (\<lambda>status.
     case container of None \<Rightarrow> retA status | Some name \<Rightarrow> seqA (terminate_docker_container os name) (retA status))"

text \<open>The loop that waits: the exit, whether the deadline has passed, whether the turn was cancelled.\<close>

fun wait_child :: "nat \<Rightarrow> 'w process_os \<Rightarrow> string option \<Rightarrow> ('w, int option \<times> bool \<times> bool) os_act" where
  "wait_child 0 os container = starveA"
| "wait_child (Suc fuel) os container = bindA (tryA (po_try_wait os)) (\<lambda>st. case st of
     Some status \<Rightarrow> retA (status, False, False)
   | None \<Rightarrow> bindA (stepA (po_cancelled os)) (\<lambda>cancelled.
       if cancelled then bindA (terminate_sandboxed_command os container) (\<lambda>status. retA (status, False, True))
       else bindA (stepA (po_elapsed_ms os)) (\<lambda>elapsed.
         if command_timeout_ms \<le> elapsed
         then bindA (terminate_sandboxed_command os container) (\<lambda>status. retA (status, True, False))
         else seqA (modA (po_sleep os)) (wait_child fuel os container))))"

record command_output =
  co_text :: string
  co_source_bytes :: nat
  co_source_truncated :: bool
  co_timed_out :: bool
  co_cancelled :: bool

definition int_text :: "int \<Rightarrow> string" where
  "int_text i = (if i < 0 then ''-'' @ decimal (nat (- i)) else decimal (nat i))"

definition status_text :: "int option \<Rightarrow> bool \<Rightarrow> bool \<Rightarrow> string" where
  "status_text status timed_out cancelled =
    (if cancelled then ''cancelled by user''
     else if timed_out then ''timed out after '' @ decimal (command_timeout_ms div 1000) @ '' seconds''
     else (case status of None \<Rightarrow> ''terminated by signal'' | Some code \<Rightarrow> int_text code))"

definition command_text :: "string \<Rightarrow> string \<Rightarrow> string \<Rightarrow> string" where
  "command_text status out err = ''exit: '' @ status @ [newline_byte] @ ''stdout:'' @ [newline_byte] @ out @ [newline_byte]
     @ ''stderr:'' @ [newline_byte] @ err"

definition run_sandboxed_command :: "nat \<Rightarrow> 'w process_os \<Rightarrow> string list \<Rightarrow> string \<Rightarrow> string option \<Rightarrow> ('w, command_output) os_act" where
  "run_sandboxed_command fuel os argv root container =
    seqA (tryA (po_spawn os argv root))
    (bindA (wait_child fuel os container) (\<lambda>(status, timed_out, cancelled).
     bindA (tryA (\<lambda>w. apfst (\<lambda>reads. capture_bounded reads (max_command_capture_bytes div 2)) (po_stdout os w))) (\<lambda>out.
     bindA (tryA (\<lambda>w. apfst (\<lambda>reads. capture_bounded reads (max_command_capture_bytes div 2)) (po_stderr os w))) (\<lambda>err.
     retA \<lparr>co_text = command_text (status_text status timed_out cancelled) (render_capture out) (render_capture err),
       co_source_bytes = sat_add (cap_total_bytes out) (cap_total_bytes err),
       co_source_truncated = (cap_truncated out \<or> cap_truncated err),
       co_timed_out = timed_out, co_cancelled = cancelled\<rparr>))))"

definition docker_argv :: "string \<Rightarrow> string \<Rightarrow> string \<Rightarrow> string list" where
  "docker_argv name root command = [''docker'', ''run'', ''--rm'', ''--name'', name, ''-i'', ''-v'', root @ '':/workspace'', ''-w'',
     ''/workspace'', ''alpine'', ''sh'', ''-c'', command]"

definition run_shell_with_cancel :: "nat \<Rightarrow> 'w process_os \<Rightarrow> string \<Rightarrow> string \<Rightarrow> sandbox_kind \<Rightarrow> ('w, command_output) os_act" where
  "run_shell_with_cancel fuel os command root kind =
    (if kind = Sandbox_Docker
     then bindA (stepA (po_docker_linux os)) (\<lambda>ready. if \<not> ready
       then raiseA (''docker sandbox is unavailable unless an available daemon is configured for Linux containers; use '' @ in_quotes ''--sandbox native'' @ '' otherwise'')
       else bindA (stepA (po_container_id os)) (\<lambda>(pid, n).
         let name = ''mini-agent-shell-'' @ decimal pid @ ''-'' @ decimal n in
         run_sandboxed_command fuel os (docker_argv name root command) root (Some name)))
     else run_sandboxed_command fuel os (shell_command command) root None)"

subsection \<open>Output of a command\<close>

definition source_notice :: "bool \<Rightarrow> string" where
  "source_notice truncated = (if truncated
     then '' The original command output exceeded the 8 MiB capture or retention limit; the retained artifact is a head-and-tail excerpt.''
     else [])"

definition kept_output_text :: "stored_result \<Rightarrow> string" where
  "kept_output_text stored = ''Tool output exceeded the 16 KiB inline limit. Full output handle: '' @ sr_handle stored
     @ ''. Read it with read_tool_output(handle: '' @ [CHR 0x22] @ sr_handle stored @ [CHR 0x22]
     @ '', cursor: 0) and continue with each next_cursor.'' @ source_notice (sr_source_truncated stored)
     @ [newline_byte, newline_byte] @ sr_preview stored"

definition lost_output_text :: "string \<Rightarrow> command_output \<Rightarrow> string" where
  "lost_output_text err output = ''Tool output exceeded the 16 KiB inline limit. The complete output was not retained because Session artifact storage failed: ''
     @ bounded_preview err 512 @ [newline_byte] @ ''Source bytes: '' @ decimal (co_source_bytes output)
     @ ''. Only this head-and-tail preview remains available:'' @ [newline_byte, newline_byte]
     @ bounded_preview (co_text output) (6 * 1024)"

text \<open>The state of a tool call: the result store with its disk, and the world of processes.\<close>

type_synonym ('v, 'w) shell_world = "('v result_state \<times> disk) \<times> 'w"

definition on_store :: "('v result_state \<times> disk, string, 'a) act \<Rightarrow> (('v, 'w) shell_world, string, 'a) act" where
  "on_store m = (\<lambda>(x, w). case m x of (r, x') \<Rightarrow> (r, (x', w)))"

definition on_disk :: "'a tool_io \<Rightarrow> (('v, 'w) shell_world, string, 'a) act" where
  "on_disk m = (\<lambda>((st, d), w). case m d of (r, d') \<Rightarrow> (r, ((st, d'), w)))"

definition on_world :: "('w, string, 'a) act \<Rightarrow> (('v, 'w) shell_world, string, 'a) act" where
  "on_world m = (\<lambda>(x, w). case m w of (r, w') \<Rightarrow> (r, (x, w')))"

definition render_command_output ::
  "'v value_api \<Rightarrow> session_binding option \<Rightarrow> command_output \<Rightarrow> (('v, 'w) shell_world, string, string \<times> bool) act" where
  "render_command_output js session output =
    (if length (co_text output) \<le> inline_command_output_bytes then retA (co_text output, co_source_truncated output)
     else caseA (on_store (store_with_metadata js session (co_text output) (co_source_bytes output) (co_source_truncated output)
            (Some (va_object js [(''kind'', va_str js ''tool_output''), (''tool'', va_str js ''shell'')]))))
       (\<lambda>stored. retA (kept_output_text stored, True))
       (\<lambda>e. retA (lost_output_text e output, True)))"

subsection \<open>The tool\<close>

text \<open>The world of processes holds the background manager beside what foreground commands act on.\<close>

definition on_manager :: "'a bg \<Rightarrow> (shell_manager \<times> 'w, string, 'a) act" where
  "on_manager m = (\<lambda>(b, w). case m b of (r, b') \<Rightarrow> (r, (b', w)))"

definition on_os :: "('w, 'a) os_act \<Rightarrow> (shell_manager \<times> 'w, string, 'a) act" where
  "on_os m = (\<lambda>(b, w). case m w of (r, w') \<Rightarrow> (r, (b, w')))"

record ('v, 'w) shell_env =
  she_paths :: workspace_env
  she_json :: "'v value_api"
  she_session :: "session_binding option"
  she_os :: "'w process_os"
  she_fuel :: nat
  she_sandbox :: sandbox_kind
  she_int :: "int \<Rightarrow> 'v"

definition option_value :: "'v value_api \<Rightarrow> ('a \<Rightarrow> 'v) \<Rightarrow> 'a option \<Rightarrow> 'v" where
  "option_value js f x = (case x of None \<Rightarrow> va_null js | Some y \<Rightarrow> f y)"

definition task_value :: "'v value_api \<Rightarrow> (int \<Rightarrow> 'v) \<Rightarrow> background_task \<Rightarrow> 'v" where
  "task_value js num t = va_object js [(''task_id'', va_str js (bt_task_id t)), (''owner_thread_id'', va_str js (bt_owner_thread_id t)),
     (''state'', va_str js (bt_state t)), (''command_summary'', va_str js (bt_command_summary t)),
     (''command_hash'', va_str js (bt_command_hash t)), (''working_directory'', va_str js (bt_working_directory t)),
     (''process_id'', option_value js (va_num js) (bt_process_id t)), (''started_at'', va_num js (bt_started_at t)),
     (''stopped_at'', option_value js (va_num js) (bt_stopped_at t)), (''exit_code'', option_value js num (bt_exit_code t)),
     (''log_bytes'', va_num js (bt_log_bytes t)), (''log_truncated'', va_bool js (bt_log_truncated t))]"

definition execute_background ::
  "('v, 'w) shell_env \<Rightarrow> workspace \<Rightarrow> approval_controller \<Rightarrow> string \<Rightarrow> string \<Rightarrow> string option \<Rightarrow> string
    \<Rightarrow> (('v, shell_manager \<times> 'w) shell_world, string, string) act" where
  "execute_background env ws c action task_id command owner =
    (let as_json = (\<lambda>m. bindA (on_world (on_manager m)) (\<lambda>t. ofA (va_encode (she_json env) (task_value (she_json env) (she_int env) t)))) in
     if action = ''start''
     then (case command of
         None \<Rightarrow> raiseA ''background start command is required''
       | Some cmd \<Rightarrow> bindA (on_disk (shell_root (she_paths env) ws c cmd)) (\<lambda>root.
           as_json (start_task owner task_id cmd root (she_sandbox env))))
     else if action = ''status'' then as_json (read_task owner task_id)
     else if action = ''logs'' then bindA (on_world (on_manager (task_logs owner task_id))) (\<lambda>l. retA (bgl_text l))
     else if action = ''stop'' then as_json (stop_task owner task_id)
     else as_json (restart_task owner task_id (she_sandbox env)))"

definition run_foreground ::
  "('v, 'w) shell_env \<Rightarrow> workspace \<Rightarrow> approval_controller \<Rightarrow> string \<Rightarrow> (('v, shell_manager \<times> 'w) shell_world, string, command_output) act" where
  "run_foreground env ws c command = bindA (on_disk (shell_root (she_paths env) ws c command)) (\<lambda>root.
     on_world (on_os (run_shell_with_cancel (she_fuel env) (she_os env) command root (she_sandbox env))))"

definition command_outcome :: "command_output \<Rightarrow> string \<times> bool \<Rightarrow> tool_execution_outcome" where
  "command_outcome output = (\<lambda>(content, truncated).
     (if co_cancelled output then outcome_failed content
      else if co_timed_out output then outcome_retryable content else outcome_completed content)\<lparr>teo_output_truncated := truncated\<rparr>)"

definition shell_outcome ::
  "('v, 'w) shell_env \<Rightarrow> workspace \<Rightarrow> approval_controller \<Rightarrow> string \<Rightarrow> 'v
    \<Rightarrow> (('v, shell_manager \<times> 'w) shell_world, string, tool_execution_outcome) act" where
  "shell_outcome env ws c owner arguments =
    bindA (ofA (validated_invocation (she_json env) arguments)) (\<lambda>invocation. case invocation of
       Background action task_id command \<Rightarrow>
         bindA (execute_background env ws c action task_id command owner) (\<lambda>s. retA (outcome_completed s))
     | Foreground command \<Rightarrow> bindA (run_foreground env ws c command) (\<lambda>output.
         bindA (render_command_output (she_json env) (she_session env) output) (\<lambda>shown. retA (command_outcome output shown))))"

definition shell_execute_after_admission ::
  "('v, 'w) shell_env \<Rightarrow> workspace \<Rightarrow> approval_controller \<Rightarrow> string \<Rightarrow> 'v \<Rightarrow> ('v, shell_manager \<times> 'w) shell_world
    \<Rightarrow> (string, tool_execution_outcome) outcome \<times> ('v, shell_manager \<times> 'w) shell_world" where
  "shell_execute_after_admission env ws c owner arguments =
    caseA (shell_outcome env ws c owner arguments) retA (\<lambda>e. retA (outcome_failed e))"

text \<open>Outside the orchestrator a foreground command is approved first.\<close>

definition shell_request :: "string \<Rightarrow> tool_approval_request" where
  "shell_request command = (approval_request_legacy (shell_action (Foreground command)))\<lparr>ar_tool_name := Some ''shell''\<rparr>"

definition shell_execute ::
  "('v, 'w) shell_env \<Rightarrow> workspace \<Rightarrow> ('v, shell_manager \<times> 'w) shell_world approval_callback \<Rightarrow> 'v
    \<Rightarrow> (approval_controller \<times> ('v, shell_manager \<times> 'w) shell_world, string, string) act" where
  "shell_execute env ws callback arguments = (\<lambda>(c, x).
    case validated_invocation (she_json env) arguments of
      Inl e \<Rightarrow> (Raised e, (c, x))
    | Inr (Background action task_id command) \<Rightarrow>
        (case execute_background env ws c action task_id command ''default'' x of (r, x') \<Rightarrow> (r, (c, x')))
    | Inr (Foreground command) \<Rightarrow>
        (case approve_request callback (shell_request command) (c, x) of
           (Inl e, cx) \<Rightarrow> (Raised e, cx)
         | (Inr _, (c', x1)) \<Rightarrow>
             (case bindA (run_foreground env ws c' command) (\<lambda>output. bindA (render_command_output (she_json env) (she_session env) output)
                 (\<lambda>(content, _). retA content)) x1 of (r, x2) \<Rightarrow> (r, (c', x2)))))"

subsection \<open>Reading a kept output\<close>

definition read_tool_output :: "'v value_api \<Rightarrow> 'v \<Rightarrow> 'v result_state \<Rightarrow> string + string" where
  "read_tool_output js arguments st = (case text_field js arguments ''handle'' of
     None \<Rightarrow> Inl ''tool output handle is required''
   | Some handle \<Rightarrow>
       (let number = (\<lambda>name. Option.bind (va_get js arguments name) (va_as_u64 js));
            cursor = (case number ''cursor'' of None \<Rightarrow> 0 | Some n \<Rightarrow> n);
            max_bytes = (case number ''max_bytes'' of None \<Rightarrow> tool_output_page_bytes | Some n \<Rightarrow> n) in
        case read_page handle cursor max_bytes st of
          Inl e \<Rightarrow> Inl e
        | Inr page \<Rightarrow>
            if Option.bind (Option.bind (pg_metadata page) (\<lambda>m. va_get js m ''kind'')) (va_as_str js) \<noteq> Some ''tool_output''
            then Inl ''handle does not identify a retained tool output in this Session''
            else Inr (''handle: '' @ handle @ [newline_byte] @ ''cursor: '' @ decimal cursor @ [newline_byte]
              @ ''next_cursor: '' @ (case pg_next_cursor page of None \<Rightarrow> ''end'' | Some n \<Rightarrow> decimal n) @ [newline_byte]
              @ ''source_bytes: '' @ decimal (pg_source_bytes page) @ [newline_byte]
              @ ''source_truncated: '' @ (if pg_source_truncated page then ''true'' else ''false'') @ [newline_byte]
              @ ''--- tool output page ---'' @ [newline_byte] @ pg_content page)))"

end
