(* ===== verification/Patch_Plan.thy ===== *)
theory Patch_Plan
  imports Patch
begin

section \<open>Applying patches\<close>

text \<open>
  What a plan leaves on the disk: its new contents when it succeeds, and, when it fails, the old
  contents of every file but the one whose change failed.
\<close>

subsection \<open>One effect\<close>

definition file_effect_ok :: "file_effect \<Rightarrow> bool" where
  "file_effect_ok e \<longleftrightarrow> fe_before e \<noteq> None \<or> fe_after e \<noteq> None"

definition plan_ok :: "file_effect list \<Rightarrow> bool" where
  "plan_ok es \<longleftrightarrow> distinct (map fe_path es) \<and> list_all file_effect_ok es"

text \<open>What every call of a disk keeps: its schedule, and the nodes at all paths but one.\<close>

definition only_at :: "string set \<Rightarrow> disk \<Rightarrow> disk \<Rightarrow> bool" where
  "only_at ps d d' \<longleftrightarrow> (\<forall>q. q \<notin> ps \<longrightarrow> node_at d' q = node_at d q) \<and> dk_fault d' = dk_fault d \<and> dk_tick d \<le> dk_tick d'"

lemma only_at_refl [simp]: "only_at ps d d"
  by (simp add: only_at_def)

lemma only_at_trans: "only_at ps d d' \<Longrightarrow> only_at qs d' d'' \<Longrightarrow> only_at (ps \<union> qs) d d''"
  by (auto simp: only_at_def)

text \<open>No fault from the present tick on.\<close>

definition quiet :: "disk \<Rightarrow> bool" where
  "quiet d \<longleftrightarrow> (\<forall>u. dk_tick d \<le> u \<longrightarrow> dk_fault d u = None)"

lemma quiet_later: "quiet d \<Longrightarrow> only_at ps d d' \<Longrightarrow> quiet d'"
  by (auto simp: quiet_def only_at_def)

lemma quietD: "quiet d \<Longrightarrow> dk_fault d (dk_tick d) = None \<and> dk_fault d (Suc (dk_tick d)) = None"
  by (simp add: quiet_def)

text \<open>A fault before the present tick.\<close>

definition faulted :: "disk \<Rightarrow> bool" where
  "faulted d \<longleftrightarrow> (\<exists>u < dk_tick d. dk_fault d u \<noteq> None)"

lemma faulted_later: "faulted d \<Longrightarrow> only_at ps d d' \<Longrightarrow> faulted d'"
  by (auto simp: faulted_def only_at_def intro: less_le_trans)

lemma apply_effect_wp:
  "wp (apply_effect e) (\<lambda>r d'. only_at {fe_path e} d d' \<and> r \<noteq> Out_of_fuel
     \<and> (r = Done () \<longrightarrow> node_at d' (fe_path e) = map_option File_Node (fe_after e)
        \<and> (fe_before e = None \<longrightarrow> fe_after e \<noteq> None \<longrightarrow> node_at d (fe_path e) = None))
     \<and> (\<forall>x. r = Raised x \<longrightarrow> (\<exists>s. node_at d (fe_path e) = Some (File_Node s)) \<and> fe_before e \<noteq> None
        \<or> node_at d (fe_path e) = None \<and> fe_before e = None \<and> fe_after e \<noteq> None \<longrightarrow> faulted d')) d"
  by (auto simp: apply_effect_def fs_create_new_def fs_calls wp_simps only_at_def faulted_def less_Suc_eq
      split: option.split node.split)

lemma restore_effect_wp:
  "wp (restore_effect e) (\<lambda>r d'. only_at {fe_path e} d d' \<and> r \<noteq> Out_of_fuel
     \<and> (\<forall>s. r = Done () \<longrightarrow> fe_before e = Some s \<longrightarrow> node_at d' (fe_path e) = Some (File_Node s))
     \<and> (quiet d \<and> node_at d (fe_path e) \<in> insert None (range (Some \<circ> File_Node))
       \<longrightarrow> r = Done () \<and> node_at d' (fe_path e) = map_option File_Node (fe_before e))) d"
  by (auto simp: restore_effect_def fs_calls wp_simps only_at_def quiet_def split: option.split node.split)
    (rule exI [of _ "Suc (dk_tick d)"], simp)

definition plain_at :: "disk \<Rightarrow> file_effect \<Rightarrow> bool" where
  "plain_at d e \<longleftrightarrow> node_at d (fe_path e) \<in> insert None (range (Some \<circ> File_Node))"

definition before_at :: "disk \<Rightarrow> file_effect \<Rightarrow> bool" where
  "before_at d e \<longleftrightarrow> node_at d (fe_path e) = map_option File_Node (fe_before e)"

definition after_at :: "disk \<Rightarrow> file_effect \<Rightarrow> bool" where
  "after_at d e \<longleftrightarrow> node_at d (fe_path e) = map_option File_Node (fe_after e)"

lemma after_plain: "after_at d e \<Longrightarrow> plain_at d e"
  by (cases "fe_after e") (auto simp: after_at_def plain_at_def)

lemma only_at_other: "only_at ps d d' \<Longrightarrow> fe_path e \<notin> ps \<Longrightarrow> (plain_at d' e \<longleftrightarrow> plain_at d e) \<and> (before_at d' e \<longleftrightarrow> before_at d e)
    \<and> (after_at d' e \<longleftrightarrow> after_at d e)"
  by (simp add: only_at_def plain_at_def before_at_def after_at_def)

lemma roll_back_effects_wp:
  "distinct (map fe_path es) \<Longrightarrow> wp (roll_back_effects es) (\<lambda>r d'. only_at (fe_path ` set es) d d'
     \<and> (r = Done True \<or> r = Done False)
     \<and> (r = Done True \<longrightarrow> (\<forall>e \<in> set es. fe_before e \<noteq> None \<longrightarrow> before_at d' e))
     \<and> (quiet d \<and> (\<forall>e \<in> set es. plain_at d e) \<longrightarrow> r = Done True \<and> (\<forall>e \<in> set es. before_at d' e))) d"
proof (induction es arbitrary: d)
  case Nil
  then show ?case by (simp add: wp_simps)
next
  case (Cons e es)
  have other: "fe_path e \<notin> fe_path ` set es" and "distinct (map fe_path es)" using Cons.prems by simp_all
  note rest = Cons.IH [OF this(2)]
  show ?case
  proof (unfold roll_back_effects.simps wp_caseA, rule wp_conseq [OF restore_effect_wp], goal_cases)
    case (1 r d1)
    note first = this
    show ?case
    proof (cases r)
      case (Done u)
      have later: "plain_at d1 x \<longleftrightarrow> plain_at d x" if "x \<in> set es" for x
      proof -
        have "fe_path x \<notin> {fe_path e}" using that other by (metis image_eqI singletonD)
        then show ?thesis using first only_at_other by blast
      qed
      show ?thesis unfolding Done outcome.case
      proof (rule wp_conseq [OF rest [of d1]], goal_cases)
        case (1 r2 d2)
        have kept: "before_at d2 e \<longleftrightarrow> before_at d1 e" using 1 other only_at_other [of _ d1 d2 e] by blast
        have "only_at (fe_path ` set (e # es)) d d2"
          using only_at_trans [of "{fe_path e}" d d1 "fe_path ` set es" d2] first 1 by simp
        moreover have "fe_before e \<noteq> None \<Longrightarrow> before_at d1 e" "quiet d \<and> plain_at d e \<Longrightarrow> before_at d1 e"
          using first Done by (auto simp: before_at_def plain_at_def)
        moreover have "quiet d \<Longrightarrow> quiet d1" using first quiet_later by blast
        ultimately show ?case using 1 kept later by simp
      qed
    next
      case (Raised x)
      then show ?thesis using first by (auto simp: wp_simps only_at_def plain_at_def)
    next
      case Out_of_fuel
      then show ?thesis using first by simp
    qed
  qed
qed

lemma check_effect_wp:
  "wp (map_errA ie_text (bindA (fs_exists (fe_path e)) (\<lambda>there.
      if there then bindA (fs_read_bytes (fe_path e)) (\<lambda>s. retA (Some s)) else retA None)))
    (\<lambda>r d'. only_at {} d d' \<and> r \<noteq> Out_of_fuel
       \<and> (r = Done (fe_before e) \<longrightarrow> (fe_before e \<noteq> None \<longrightarrow> before_at d e) \<and> (before_at d e \<or> faulted d'))) d"
  by (cases "fe_before e") (auto simp: fs_calls wp_simps only_at_def before_at_def faulted_def less_Suc_eq split: option.split node.split)

lemma check_unchanged_wp:
  "wp (check_unchanged es) (\<lambda>r d'. only_at {} d d' \<and> r \<noteq> Out_of_fuel
     \<and> (r = Done () \<longrightarrow> (\<forall>e \<in> set es. (fe_before e \<noteq> None \<longrightarrow> before_at d e) \<and> (before_at d e \<or> faulted d')))) d"
proof (induction es arbitrary: d)
  case (Cons e es)
  show ?case
  proof (unfold check_unchanged.simps wp_bindA, rule wp_conseq [OF check_effect_wp], goal_cases)
    case (1 r d1)
    note first = this
    show ?case
    proof (cases "r = Done (fe_before e)")
      case True
      have same: "before_at d1 x \<longleftrightarrow> before_at d x" for x using first only_at_other [of "{}" d d1 x] by simp
      have "wp (check_unchanged es) (\<lambda>r d'. only_at {} d d' \<and> r \<noteq> Out_of_fuel
         \<and> (r = Done () \<longrightarrow> (\<forall>x \<in> set (e # es). (fe_before x \<noteq> None \<longrightarrow> before_at d x) \<and> (before_at d x \<or> faulted d')))) d1"
      proof (rule wp_conseq [OF Cons.IH [of d1]], goal_cases)
        case (1 r2 d2)
        then show ?case using first True same only_at_trans [of "{}" d d1 "{}" d2] faulted_later [of d1 "{}" d2] by auto
      qed
      then show ?thesis by (simp add: True)
    next
      case False
      then show ?thesis using first by (cases r) (auto simp: wp_simps)
    qed
  qed
qed (simp add: wp_simps)

subsection \<open>Whole plans\<close>

text \<open>What holds between two effects: the applied ones hold, and all others are as at the start.\<close>

definition part_way :: "disk \<Rightarrow> file_effect list \<Rightarrow> file_effect list \<Rightarrow> disk \<Rightarrow> bool" where
  "part_way d0 applied es d \<longleftrightarrow> only_at (fe_path ` set applied) d0 d
     \<and> (\<forall>e \<in> set applied. before_at d0 e \<and> after_at d e)
     \<and> (\<forall>e \<in> set es. (fe_before e \<noteq> None \<longrightarrow> before_at d0 e) \<and> (before_at d0 e \<or> faulted d))"

text \<open>The outcome of a plan whose change to one path failed.\<close>

definition claims_rollback :: "string \<Rightarrow> bool" where
  "claims_rollback x \<longleftrightarrow> ends_with ''; earlier changes were rolled back'' x"

lemma claims_rollback_iff [simp]: "claims_rollback (cannot_apply reason ok) \<longleftrightarrow> ok"
proof -
  have "\<not> ends_with (p @ [a]) (r @ [b])" if "a \<noteq> b" for p r :: string and a b
    using that by (auto simp: ends_with_def Suc_diff_le split: if_splits)
  from this [of "CHR ''k''" "CHR ''d''" "''; earlier changes were rolled bac''" "''cannot apply patch: '' @ reason @ ''; rollback also faile''"]
  show ?thesis by (simp add: claims_rollback_def cannot_apply_def rollback_suffix_def ends_with_def)
qed

definition restored_but :: "disk \<Rightarrow> string set \<Rightarrow> string \<Rightarrow> string \<Rightarrow> disk \<Rightarrow> bool" where
  "restored_but d0 ps bad x d \<longleftrightarrow> bad \<in> ps \<and> (\<exists>reason ok. x = cannot_apply reason ok) \<and> only_at ps d0 d
     \<and> (claims_rollback x \<longrightarrow> (\<forall>q s. q \<noteq> bad \<and> node_at d0 q = Some (File_Node s) \<longrightarrow> node_at d q = Some (File_Node s)))
     \<and> ((\<forall>u v. dk_fault d0 u \<noteq> None \<and> dk_fault d0 v \<noteq> None \<longrightarrow> u = v)
        \<longrightarrow> claims_rollback x \<and> (\<forall>q. q \<noteq> bad \<longrightarrow> node_at d q = node_at d0 q))"

lemma lone_fault: "faulted d \<Longrightarrow> \<forall>u v. dk_fault d u \<noteq> None \<and> dk_fault d v \<noteq> None \<longrightarrow> u = v \<Longrightarrow> quiet d"
  unfolding faulted_def quiet_def by (metis not_le)

lemma part_way_next:
  assumes "part_way d0 applied (e # es) d" and "distinct (map fe_path (applied @ e # es))" and "file_effect_ok e"
    and "only_at {fe_path e} d d1" and "after_at d1 e" and "fe_before e = None \<Longrightarrow> fe_after e \<noteq> None \<Longrightarrow> node_at d (fe_path e) = None"
  shows "part_way d0 (e # applied) es d1"
proof -
  have other: "fe_path e \<notin> fe_path ` set applied" using assms(2) by auto
  then have "node_at d (fe_path e) = node_at d0 (fe_path e)" using assms(1) by (simp add: part_way_def only_at_def)
  then have "before_at d0 e"
    using assms(1,3,6) by (cases "fe_before e") (auto simp: part_way_def before_at_def file_effect_ok_def)
  moreover have "after_at d1 x" if "x \<in> set applied" for x
  proof -
    have "fe_path x \<notin> {fe_path e}" using that other by (metis image_eqI singletonD)
    then show ?thesis using assms(1,4) that only_at_other by (auto simp: part_way_def)
  qed
  moreover have "faulted d \<Longrightarrow> faulted d1" using assms(4) faulted_later by blast
  moreover have "only_at (fe_path ` set (e # applied)) d0 d1"
    using only_at_trans [of "fe_path ` set applied" d0 d "{fe_path e}" d1] assms(1,4) by (simp add: part_way_def insert_commute)
  ultimately show ?thesis using assms(1,5) by (auto simp: part_way_def)
qed

lemma rolled_back:
  assumes "part_way d0 applied (e # es) d" and "distinct (map fe_path (applied @ e # es))" and "file_effect_ok e"
    and "only_at {fe_path e} d d1"
    and "(\<exists>s. node_at d (fe_path e) = Some (File_Node s)) \<and> fe_before e \<noteq> None
        \<or> node_at d (fe_path e) = None \<and> fe_before e = None \<and> fe_after e \<noteq> None \<longrightarrow> faulted d1"
  shows "wp (bindA (roll_back_effects applied) (\<lambda>ok. raiseA (cannot_apply reason ok)))
    (\<lambda>r d'. \<exists>x. r = Raised x \<and> restored_but d0 (fe_path ` set (applied @ e # es)) (fe_path e) x d') d1"
proof -
  have other: "fe_path e \<notin> fe_path ` set applied" and "distinct (map fe_path applied)" using assms(2) by auto
  have same: "node_at d (fe_path e) = node_at d0 (fe_path e)" using assms(1) other by (simp add: part_way_def only_at_def)
  have faulted: "faulted d1"
  proof (cases "before_at d0 e")
    case True
    then show ?thesis using assms(3,5) same by (cases "fe_before e") (auto simp: before_at_def file_effect_ok_def)
  next
    case False
    then show ?thesis using assms(1,4) faulted_later by (auto simp: part_way_def)
  qed
  show ?thesis
  proof (unfold wp_bindA, rule wp_conseq [OF roll_back_effects_wp [OF \<open>distinct (map fe_path applied)\<close>]], goal_cases)
    case (1 r d2)
    then obtain ok where r: "r = Done ok" by blast
    have schedule: "dk_fault d1 = dk_fault d0" using assms(1,4) by (simp add: part_way_def only_at_def)
    have plain: "\<forall>x \<in> set applied. plain_at d1 x"
    proof
      fix x assume x: "x \<in> set applied"
      then have "fe_path x \<notin> {fe_path e}" using other by (metis image_eqI singletonD)
      then show "plain_at d1 x" using x assms(1,4) only_at_other after_plain by (auto simp: part_way_def)
    qed
    have untouched: "node_at d2 q = node_at d0 q" if "q \<noteq> fe_path e" "q \<notin> fe_path ` set applied" for q
      using that 1 assms(1,4) by (simp add: part_way_def only_at_def)
    have existing: "node_at d2 q = Some (File_Node s)"
      if "ok" "q \<noteq> fe_path e" "node_at d0 q = Some (File_Node s)" for q s
    proof (cases "q \<in> fe_path ` set applied")
      case True
      then obtain x where x: "x \<in> set applied" "q = fe_path x" by blast
      then have "before_at d0 x" using assms(1) by (simp add: part_way_def)
      then have "fe_before x = Some s" using that(3) x(2) by (cases "fe_before x") (auto simp: before_at_def)
      then show ?thesis using 1 r that(1) x by (auto simp: before_at_def)
    qed (use that untouched in simp)
    have all: "ok \<and> node_at d2 q = node_at d0 q"
      if "\<forall>u v. dk_fault d0 u \<noteq> None \<and> dk_fault d0 v \<noteq> None \<longrightarrow> u = v" "q \<noteq> fe_path e" for q
    proof -
      have "quiet d1" using lone_fault [OF faulted] that(1) schedule by simp
      then have "ok" "\<forall>x \<in> set applied. before_at d2 x" using 1 r plain by auto
      then show ?thesis using that(2) untouched assms(1) by (cases "q \<in> fe_path ` set applied") (auto simp: part_way_def before_at_def)
    qed
    have "ok" if "\<forall>u v. dk_fault d0 u \<noteq> None \<and> dk_fault d0 v \<noteq> None \<longrightarrow> u = v"
      using 1 r plain lone_fault [OF faulted] that schedule by simp
    moreover have "only_at (fe_path ` set (applied @ e # es)) d0 d2"
      unfolding only_at_def
    proof (intro conjI allI impI)
      fix q assume "q \<notin> fe_path ` set (applied @ e # es)"
      then show "node_at d2 q = node_at d0 q" using untouched by auto
    qed (use 1 assms(1,4) in \<open>auto simp: part_way_def only_at_def\<close>)
    ultimately have "restored_but d0 (fe_path ` set (applied @ e # es)) (fe_path e) (cannot_apply reason ok) d2"
      using existing all unfolding restored_but_def
      by (intro conjI exI [of _ reason] exI [of _ ok]) simp_all
    then show ?case by (simp add: r wp_simps)
  qed
qed

lemma apply_effects_wp:
  "part_way d0 applied es d \<Longrightarrow> distinct (map fe_path (applied @ es)) \<Longrightarrow> list_all file_effect_ok es \<Longrightarrow>
    wp (apply_effects applied es) (\<lambda>r d'. (\<exists>applied'. r = Done () \<and> set applied' = set (applied @ es) \<and> part_way d0 applied' [] d')
      \<or> (\<exists>x e. r = Raised x \<and> e \<in> set es \<and> restored_but d0 (fe_path ` set (applied @ es)) (fe_path e) x d')) d"
proof (induction es arbitrary: applied d)
  case Nil
  then show ?case by (auto simp: wp_simps)
next
  case (Cons e es)
  show ?case
  proof (unfold apply_effects.simps wp_caseA, rule wp_conseq [OF apply_effect_wp], goal_cases)
    case (1 r d1)
    note first = this
    show ?case
    proof (cases r)
      case (Done u)
      have "part_way d0 (e # applied) es d1"
        by (rule part_way_next [OF Cons.prems(1,2)]) (use Cons.prems(3) first Done in \<open>auto simp: after_at_def\<close>)
      then show ?thesis unfolding Done outcome.case
        by (rule wp_conseq [OF Cons.IH]) (use Cons.prems in \<open>auto simp: insert_commute\<close>)
    next
      case (Raised x)
      have "wp (bindA (roll_back_effects applied) (\<lambda>ok. raiseA (cannot_apply (ie_text x) ok)))
        (\<lambda>r d'. \<exists>x. r = Raised x \<and> restored_but d0 (fe_path ` set (applied @ e # es)) (fe_path e) x d') d1"
        by (rule rolled_back [OF Cons.prems(1,2)]) (use Cons.prems(3) first Raised in auto)
      then show ?thesis unfolding Raised outcome.case by (rule wp_conseq) auto
    next
      case Out_of_fuel
      then show ?thesis using first by simp
    qed
  qed
qed

lemma apply_plan_settles: "wp (apply_plan plan) (\<lambda>r d'. plan_ok (pp_effects plan) \<longrightarrow> r \<noteq> Out_of_fuel) d"
proof (unfold apply_plan_def wp_seqA, rule wp_conseq [OF check_unchanged_wp], goal_cases)
  case (1 r d1)
  show ?case
  proof (cases r)
    case (Done u)
    have "plan_ok (pp_effects plan) \<Longrightarrow> wp (apply_effects [] (pp_effects plan)) (\<lambda>r d'. r \<noteq> Out_of_fuel) d1"
      by (rule wp_conseq [OF apply_effects_wp [of d]]) (use 1 Done in \<open>auto simp: plan_ok_def part_way_def only_at_def\<close>)
    then show ?thesis unfolding Done outcome.case
      by (cases "plan_ok (pp_effects plan)") (auto simp: wp_def act_simps split: outcome.splits)
  qed (use 1 in auto)
qed

lemma failed_plan:
  assumes "plan_ok (pp_effects plan)" and "apply_plan plan d = (Raised x, d')"
  shows "(\<forall>q. node_at d' q = node_at d q)
    \<or> (\<exists>bad. restored_but d (fe_path ` set (pp_effects plan)) bad x d')"
proof -
  have "wp (apply_plan plan) (\<lambda>r d'. \<forall>x. r = Raised x \<longrightarrow> (\<forall>q. node_at d' q = node_at d q)
    \<or> (\<exists>bad. restored_but d (fe_path ` set (pp_effects plan)) bad x d')) d"
  proof (unfold apply_plan_def wp_seqA, rule wp_conseq [OF check_unchanged_wp], goal_cases)
    case (1 r d1)
    show ?case
    proof (cases r)
      case (Done u)
      have "part_way d [] (pp_effects plan) d1" using 1 Done by (simp add: part_way_def only_at_def)
      then show ?thesis unfolding Done outcome.case
        by (rule wp_conseq [OF apply_effects_wp]) (use assms(1) in \<open>auto simp: plan_ok_def wp_simps\<close>)
    qed (use 1 in \<open>auto simp: only_at_def\<close>)
  qed
  then show ?thesis using assms(2) by (auto dest: wpD)
qed

lemma applied_plan:
  assumes "plan_ok (pp_effects plan)" and "apply_plan plan d = (Done message, d')"
  shows "(\<forall>e \<in> set (pp_effects plan). file_at d (fe_path e) = fe_before e \<and> file_at d' (fe_path e) = fe_after e)
    \<and> (\<forall>q. q \<notin> fe_path ` set (pp_effects plan) \<longrightarrow> node_at d' q = node_at d q)"
proof -
  have "wp (apply_plan plan) (\<lambda>r d'. \<forall>m. r = Done m \<longrightarrow> (\<exists>applied. set applied = set (pp_effects plan) \<and> part_way d applied [] d')) d"
  proof (unfold apply_plan_def wp_seqA, rule wp_conseq [OF check_unchanged_wp], goal_cases)
    case (1 r d1)
    show ?case
    proof (cases r)
      case (Done u)
      have "part_way d [] (pp_effects plan) d1" using 1 Done by (simp add: part_way_def only_at_def)
      then have "wp (apply_effects [] (pp_effects plan))
          (\<lambda>r d'. \<exists>applied. r = Done () \<longrightarrow> set applied = set (pp_effects plan) \<and> part_way d applied [] d') d1"
        by (rule wp_conseq [OF apply_effects_wp]) (use assms(1) in \<open>auto simp: plan_ok_def\<close>)
      then show ?thesis unfolding Done outcome.case
        by (rule wp_conseq) (auto simp: wp_simps split: outcome.split)
    qed (use 1 in auto)
  qed
  then obtain applied where applied: "set applied = set (pp_effects plan)" "part_way d applied [] d'"
    using assms(2) by (auto dest: wpD)
  have "file_at c (fe_path e) = fe_before e" if "before_at c e" for c e
    using that by (cases "fe_before e") (simp_all add: before_at_def file_at_def)
  moreover have "file_at c (fe_path e) = fe_after e" if "after_at c e" for c e
    using that by (cases "fe_after e") (simp_all add: after_at_def file_at_def)
  ultimately show ?thesis using applied by (auto simp: part_way_def only_at_def)
qed

text \<open>
  C27. A patch that fails is undone.  When applying a validated plan of distinct paths fails, either
  nothing was written, or one file's change failed: then, if the message says that earlier changes
  were rolled back, every other file that existed holds what it held before, and with no more than
  one fault of the disk that is what the message says and every other path, added files included, is
  as before.  No path outside the plan is touched in any case.
\<close>

theorem failed_patch_is_undone:
  assumes "plan_ok (pp_effects plan)" and "apply_plan plan d = (Raised x, d')"
  shows "(\<forall>q. node_at d' q = node_at d q)
    \<or> (\<exists>bad. restored_but d (fe_path ` set (pp_effects plan)) bad x d')"
  using failed_plan [OF assms] .

text \<open>
  A patch that succeeds does what it says: every file of the plan held the content the patch was
  validated against, holds the new content now or is gone if it was to be deleted, and no other
  path is touched.
\<close>

theorem applied_patch_writes_its_plan:
  assumes "plan_ok (pp_effects plan)" and "apply_plan plan d = (Done message, d')"
  shows "(\<forall>e \<in> set (pp_effects plan). file_at d (fe_path e) = fe_before e \<and> file_at d' (fe_path e) = fe_after e)
    \<and> (\<forall>q. q \<notin> fe_path ` set (pp_effects plan) \<longrightarrow> node_at d' q = node_at d q)"
  using applied_plan [OF assms] .

subsection \<open>The file whose change failed\<close>

text \<open>
  The rollback leaves out the effect that failed: a file whose rewriting stopped half way stays cut
  off, under a message that says that earlier changes were rolled back.
\<close>

definition write_fault :: "nat \<Rightarrow> fault option" where
  "write_fault n = (if n = 3 then Some \<lparr>ft_error = io_error Io_Other ''No space left on device'', ft_leftover = Some ''n'', ft_removed = []\<rparr>
     else None)"

definition patched_disk :: "(nat \<Rightarrow> fault option) \<Rightarrow> disk" where
  "patched_disk faults = \<lparr>dk_nodes = [(''/a'', File_Node ''old'')], dk_fault = faults, dk_clock = (\<lambda>_. 0), dk_tick = 0\<rparr>"

definition sample_plan :: patch_plan where
  "sample_plan = \<lparr>pp_effects = [\<lparr>fe_path = ''/a'', fe_before = Some ''old'', fe_after = Some ''new''\<rparr>], pp_paths = [''a'']\<rparr>"

lemma sample_plan_fails:
  "apply_plan sample_plan (patched_disk write_fault) = (Raised (cannot_apply ''No space left on device'' True),
     (patched_disk write_fault)\<lparr>dk_nodes := [(''/a'', File_Node ''n'')], dk_tick := 4\<rparr>)"
  by (simp add: apply_plan_def sample_plan_def patched_disk_def write_fault_def apply_effect_def fs_calls tick_def unless_fault_def
      with_file_def writing_def put_file_def put_node_def node_at_def file_at_def file_of_def ticked_def act_simps io_error_def)

lemma half_written_file_is_left:
  "\<exists>d'. apply_plan sample_plan (patched_disk write_fault) = (Raised (cannot_apply ''No space left on device'' True), d')
     \<and> file_at d' ''/a'' = Some ''n''"
  by (simp add: sample_plan_fails file_at_def node_at_def)

lemma sample_plan_applies:
  "\<exists>m d'. apply_plan sample_plan (patched_disk (\<lambda>_. None)) = (Done m, d')"
  by (simp add: apply_plan_def sample_plan_def patched_disk_def apply_effect_def fs_calls tick_def unless_fault_def
      with_file_def writing_def put_file_def put_node_def node_at_def file_at_def file_of_def ticked_def act_simps)

lemma sample_plan_ok: "plan_ok (pp_effects sample_plan)"
  by (simp add: plan_ok_def sample_plan_def file_effect_ok_def)

theorem failed_patch_is_undone_witness:
  "\<exists>d'. (\<forall>q. node_at d' q = node_at (patched_disk write_fault) q)
    \<or> (\<exists>bad. restored_but (patched_disk write_fault) (fe_path ` set (pp_effects sample_plan)) bad
        (cannot_apply ''No space left on device'' True) d')"
  using failed_patch_is_undone [OF sample_plan_ok sample_plan_fails] by blast

theorem applied_patch_writes_its_plan_witness:
  "\<exists>d'. (\<forall>e \<in> set (pp_effects sample_plan). file_at (patched_disk (\<lambda>_. None)) (fe_path e) = fe_before e \<and> file_at d' (fe_path e) = fe_after e)
    \<and> (\<forall>q. q \<notin> fe_path ` set (pp_effects sample_plan) \<longrightarrow> node_at d' q = node_at (patched_disk (\<lambda>_. None)) q)"
proof -
  obtain m d' where "apply_plan sample_plan (patched_disk (\<lambda>_. None)) = (Done m, d')"
    using sample_plan_applies by blast
  from applied_patch_writes_its_plan [OF sample_plan_ok this] show ?thesis by blast
qed

end
