(* ===== verification/File_Claims.thy ===== *)
theory File_Claims
  imports File_Tools Patch_Plan Patch_Language
begin

section \<open>What the file tools may touch\<close>

text \<open>
  Resolving paths, preparing and admitting change no file; a patch changes admitted paths only; what goes
  through without an approval stays inside the workspace; the pages of a file.
\<close>

subsection \<open>Calls that only look\<close>

text \<open>The files of a disk are untouched: at most its clock has moved.\<close>

definition same_files :: "disk \<Rightarrow> disk \<Rightarrow> bool" where
  "same_files d0 d \<longleftrightarrow> (\<exists>t. d = d0\<lparr>dk_tick := t\<rparr>)"

lemma same_files_refl [simp]: "same_files d d"
  unfolding same_files_def by (rule exI [of _ "dk_tick d"]) simp

lemma same_files_ticked: "same_files d0 d \<Longrightarrow> same_files d0 (ticked d)"
  by (auto simp: same_files_def ticked_def)

lemma same_files_nodes: "same_files d0 d \<Longrightarrow> node_at d p = node_at d0 p \<and> file_at d p = file_at d0 p"
  by (auto simp: same_files_def node_at_def file_at_def)

lemma looks_tick [act_rules]: "keeps (same_files d0) tick"
  by (rule keepsI) (auto simp: done_simps same_files_ticked tick_def act_simps)

lemma looks_unless_fault [act_rules]: "keeps (same_files d0) m \<Longrightarrow> keeps (same_files d0) (unless_fault m)"
  unfolding unless_fault_def by (intro act_rules)

lemma looks_with_file [act_rules]: "(\<And>s. keeps (same_files d0) (m s)) \<Longrightarrow> keeps (same_files d0) (with_file p m)"
  unfolding with_file_def by (intro keeps_bindA keeps_getA) (auto intro: act_rules split: option.split node.split)

lemma looks_fs [act_rules]: "keeps (same_files d0) (fs_canonicalize canon p)" "keeps (same_files d0) (fs_exists p)"
  "keeps (same_files d0) (fs_is_file p)" "keeps (same_files d0) (fs_read_bytes p)" "keeps (same_files d0) (fs_open p)"
  unfolding fs_canonicalize_def fs_calls by (intro act_rules)+

lemma looks_ofA [act_rules]: "keeps P (ofA r)"
  unfolding ofA_def by (intro act_rules)

lemma looks_tool [act_rules]: "keeps (same_files d0) (fs_exists_tool p)" "keeps (same_files d0) (fs_is_file_tool p)"
  unfolding fs_exists_tool_def fs_is_file_tool_def by (intro act_rules)+

lemma looks_orA [act_rules]: "keeps P m \<Longrightarrow> keeps P n \<Longrightarrow> keeps P (orA m n)"
  unfolding orA_def by (intro act_rules)

lemma looks_normalize [act_rules]: "keeps (same_files d0) (normalize_path env p)"
  unfolding normalize_path_def by (intro act_rules)

lemma looks_artifact [act_rules]: "keeps (same_files d0) (is_session_artifact env c p)"
  unfolding is_session_artifact_def is_session_plan_def is_plan_scratch_def is_goal_artifact_def same_path_def is_under_dir_def
  by (intro act_rules)

lemma looks_skill_alias [act_rules]: "keeps (same_files d0) (skill_alias env ws raw aliases)"
  by (induction aliases) (auto intro!: act_rules simp: keeps_retA split: option.split)

lemma looks_candidate [act_rules]: "keeps (same_files d0) (candidate env ws c raw)"
proof -
  have "keeps (same_files d0) (skill_alias_path env ws raw)"
    unfolding skill_alias_path_def Let_def by (intro act_rules)
  then have "keeps (same_files d0) (workspace_candidate env ws raw)"
    unfolding workspace_candidate_def by (intro act_rules)
  then show ?thesis unfolding candidate_def by (auto intro: act_rules split: option.split bool.split)
qed

lemma looks_paths [act_rules]:
  "keeps (same_files d0) (existing_path env ws c raw)" "keeps (same_files d0) (read_path env ws c raw)"
  "keeps (same_files d0) (mutate_path env ws c raw)" "keeps (same_files d0) (create_path env ws c raw)"
  "keeps (same_files d0) (local_file_path_with_admission env ws c raw)"
  unfolding read_path_def mutate_path_def create_path_def local_file_path_with_admission_def existing_path_def
  by (intro act_rules)+

lemma looks_texts [act_rules]: "keeps (same_files d0) (read_bytes env p)" "keeps (same_files d0) (read_text env p)"
  unfolding read_text_def read_bytes_def by (intro act_rules)+

lemma looks_operation [act_rules]: "keeps (same_files d0) (prepare_operation env ws c op pd)"
  unfolding prepare_operation_def prepare_add_def prepare_delete_def prepare_update_def prepare_move_def
  by (cases op) (auto intro!: act_rules split: option.split)

lemma looks_prepare [act_rules]: "keeps (same_files d0) (prepare_patch env js ws c arguments)"
proof -
  have "keeps (same_files d0) (prepare_operations env ws c ops pd)" for ops pd
    by (induction ops arbitrary: pd) (auto intro!: act_rules)
  then show ?thesis unfolding prepare_patch_def by (intro act_rules)
qed

lemma looks_external [act_rules]: "keeps (same_files d0) (has_external_path env ws c es)"
  by (induction es) (auto intro!: act_rules)

subsection \<open>Plans that preparation makes\<close>

definition draft_ok :: "patch_draft \<Rightarrow> bool" where
  "draft_ok pd \<longleftrightarrow> fe_path ` set (pd_effects pd) \<subseteq> set (pd_seen pd) \<and> plan_ok (pd_effects pd)"

lemma reserve_path_ok:
  assumes "reserve_path p pd = Inr pd'" and "draft_ok pd"
  shows "draft_ok pd' \<and> p \<in> set (pd_seen pd') \<and> p \<notin> set (pd_seen pd) \<and> pd_effects pd' = pd_effects pd \<and> set (pd_seen pd) \<subseteq> set (pd_seen pd')"
  using assms by (auto simp: reserve_path_def draft_ok_def list_ex_iff same_text_path_def image_subset_iff split: if_splits)

lemma add_effect_ok: "draft_ok pd \<Longrightarrow> fe_path e \<in> set (pd_seen pd) \<Longrightarrow> fe_path e \<notin> fe_path ` set (pd_effects pd) \<Longrightarrow> file_effect_ok e
    \<Longrightarrow> draft_ok (add_effect e pd)"
  by (auto simp: draft_ok_def add_effect_def plan_ok_def)

lemma add_path_ok [simp]: "draft_ok (add_path p pd) \<longleftrightarrow> draft_ok pd" "pd_seen (add_effect e pd) = pd_seen pd"
    "pd_effects (add_effect e pd) = pd_effects pd @ [e]"
  by (simp_all add: draft_ok_def add_path_def add_effect_def)

lemma done_ofA [done_simps]: "ofA r s = (Done x, s') \<longleftrightarrow> r = Inr x \<and> s' = s"
  by (cases r) (auto simp: ofA_def done_simps)

lemma reserved_effect:
  assumes "reserve_path p pd = Inr pd'" and "draft_ok pd" and "fe_path e = p" and "file_effect_ok e"
  shows "draft_ok (add_effect e pd')"
  using reserve_path_ok [OF assms(1,2)] assms by (intro add_effect_ok) (auto simp: draft_ok_def)

lemma prepare_operation_ok:
  assumes "prepare_operation env ws c op pd d = (Done pd', d')" and "draft_ok pd"
  shows "draft_ok pd'"
proof -
  have move: "draft_ok pd2"
    if "prepare_move env ws c path target resolved before updated pd d1 = (Done pd2, d2)" for path target resolved before updated d1 pd2 d2
  proof -
    from that obtain destination s1 s2 where first: "reserve_path resolved pd = Inr s1" and second: "reserve_path destination s1 = Inr s2"
        and pd2: "pd2 = add_path (path @ '' -> '' @ target)
           (add_effect \<lparr>fe_path = destination, fe_before = None, fe_after = Some updated\<rparr>
             (add_effect \<lparr>fe_path = resolved, fe_before = Some before, fe_after = None\<rparr> s2))"
      by (auto simp: prepare_move_def done_simps split: if_splits)
    note one = reserve_path_ok [OF first assms(2)]
    note two = reserve_path_ok [OF second conjunct1 [OF one]]
    have "draft_ok (add_effect \<lparr>fe_path = resolved, fe_before = Some before, fe_after = None\<rparr> s2)"
      using one two assms(2) by (intro add_effect_ok) (auto simp: draft_ok_def file_effect_ok_def)
    then have "draft_ok (add_effect \<lparr>fe_path = destination, fe_before = None, fe_after = Some updated\<rparr>
        (add_effect \<lparr>fe_path = resolved, fe_before = Some before, fe_after = None\<rparr> s2))"
      using one two assms(2) by (intro add_effect_ok) (auto simp: draft_ok_def file_effect_ok_def)
    then show ?thesis using pd2 by simp
  qed
  show ?thesis
  proof (cases op)
    case (Add_Operation path ls)
    then show ?thesis using assms
      by (auto simp: prepare_operation_def prepare_add_def done_simps file_effect_ok_def intro!: reserved_effect split: if_splits)
  next
    case (Delete_Operation path)
    then show ?thesis using assms
      by (auto simp: prepare_operation_def prepare_delete_def done_simps file_effect_ok_def intro!: reserved_effect split: if_splits)
  next
    case (Update_Operation path mv hs)
    then show ?thesis using assms move
      by (auto simp: prepare_operation_def prepare_update_def done_simps file_effect_ok_def intro!: reserved_effect split: if_splits)
  qed
qed

lemma prepare_patch_ok:
  assumes "prepare_patch env js ws c arguments d = (Done plan, d')"
  shows "plan_ok (pp_effects plan) \<and> same_files d d'"
proof -
  have run: "draft_ok pd \<Longrightarrow> prepare_operations env ws c ops pd s = (Done pd', s') \<Longrightarrow> draft_ok pd'" for ops pd s pd' s'
  proof (induction ops arbitrary: pd s)
    case (Cons op ops)
    then show ?case using prepare_operation_ok by (auto simp: done_simps) blast
  qed (simp add: done_simps)
  have "draft_ok empty_draft" by (simp add: draft_ok_def empty_draft_def plan_ok_def)
  moreover obtain ops s1 pd s2 where "prepare_operations env ws c ops empty_draft s1 = (Done pd, s2)" "pp_effects plan = pd_effects pd"
    using assms by (auto simp: prepare_patch_def done_simps split: if_splits)
  ultimately have "plan_ok (pp_effects plan)" using run by (metis draft_ok_def)
  then show ?thesis using keepsD [OF looks_prepare same_files_refl assms] by simp
qed

lemma into_tool_outcome_status: "teo_status (into_tool_outcome r) = Tool_Completed \<longleftrightarrow> (\<exists>m. r = Done m)"
  by (auto simp: into_tool_outcome_def outcome_completed_def outcome_failed_def plain_outcome_def split: outcome.splits)

text \<open>
  C26. A patch changes only what was admitted: whatever the disk and other processes do between the
  admission and the execution, executing a patch leaves every path outside the admitted targets as
  it is; and if it reports success, it has carried out the plan it prepared on the admitted paths.
\<close>

theorem patch_touches_admitted_paths_only:
  assumes "patch_execute_after_admission env js ws c arguments admission d = (out, d')"
  shows "(\<forall>q. q \<notin> set (case admission_target_paths admission of None \<Rightarrow> [] | Some ps \<Rightarrow> ps) \<longrightarrow> node_at d' q = node_at d q)
    \<and> (teo_status out = Tool_Completed \<longrightarrow> (\<exists>plan d1. prepare_patch env js ws c arguments d = (Done plan, d1)
        \<and> admission_target_paths admission = Some (canonical_target_paths plan)
        \<and> (\<forall>e \<in> set (pp_effects plan). file_at d (fe_path e) = fe_before e \<and> file_at d' (fe_path e) = fe_after e)))"
proof -
  obtain r where run: "patch_result env js ws c arguments admission d = (r, d')" and out: "out = into_tool_outcome r"
    using assms by (auto simp: patch_execute_after_admission_def split: prod.splits)
  obtain r1 d1 where prepared: "prepare_patch env js ws c arguments d = (r1, d1)" by (metis prod.collapse)
  have look: "same_files d d1" using keepsD [OF looks_prepare same_files_refl prepared] .
  show ?thesis
  proof (cases "\<exists>plan. r1 = Done plan \<and> admission_target_paths admission = Some (canonical_target_paths plan)")
    case False
    then have "d' = d1 \<and> \<not> (\<exists>x. r = Done x)" using run prepared
      by (auto simp: patch_result_def act_simps split: outcome.splits option.splits if_splits)
    then show ?thesis using same_files_nodes [OF look] out into_tool_outcome_status [of r] by simp
  next
    case True
    then obtain plan where plan: "prepare_patch env js ws c arguments d = (Done plan, d1)"
        "admission_target_paths admission = Some (canonical_target_paths plan)" using prepared by blast
    then have applied: "apply_plan plan d1 = (r, d')" using run by (simp add: patch_result_def act_simps)
    have ok: "plan_ok (pp_effects plan)" using prepare_patch_ok [OF plan(1)] by simp
    have targets: "set (canonical_target_paths plan) = fe_path ` set (pp_effects plan)"
      by (simp add: canonical_target_paths_def)
    show ?thesis
    proof (cases r)
      case (Done m)
      then show ?thesis using applied_plan [OF ok, of d1 m d'] applied plan targets same_files_nodes [OF look] by auto
    next
      case (Raised x)
      then have "(\<forall>q. node_at d' q = node_at d1 q) \<or> (\<exists>bad. restored_but d1 (fe_path ` set (pp_effects plan)) bad x d')"
        using failed_plan [OF ok, of d1 x d'] applied by simp
      then have "\<forall>q. q \<notin> fe_path ` set (pp_effects plan) \<longrightarrow> node_at d' q = node_at d1 q"
        by (auto simp: restored_but_def only_at_def)
      then show ?thesis using plan targets same_files_nodes [OF look] Raised out into_tool_outcome_status [of r] by simp
    next
      case Out_of_fuel
      then show ?thesis using wpD [OF apply_plan_settles applied] ok by simp
    qed
  qed
qed

subsection \<open>What needs no approval\<close>

text \<open>A path of the session's own (living plan, scratch directory, goal files), as some question
  of the same call found it.\<close>

definition artifact_at :: "workspace_env \<Rightarrow> approval_controller \<Rightarrow> disk \<Rightarrow> string \<Rightarrow> bool" where
  "artifact_at env c d p \<longleftrightarrow> (\<exists>t d2. is_session_artifact env c p (d\<lparr>dk_tick := t\<rparr>) = (Done True, d2))"

lemma artifact_found:
  assumes "is_session_artifact env c p d1 = (Done True, d2)" and "same_files d d1"
  shows "artifact_at env c d p"
  using assms unfolding artifact_at_def same_files_def by blast

lemma no_external_path:
  "has_external_path env ws c es d1 = (Done False, d2) \<Longrightarrow> same_files d d1
    \<Longrightarrow> e \<in> set es \<Longrightarrow> is_write_path ws (fe_path e) \<or> artifact_at env c d (fe_path e)"
proof (induction es arbitrary: d1)
  case (Cons x es)
  then obtain artifact s where s: "is_session_artifact env c (fe_path x) d1 = (Done artifact, s)"
      "artifact \<or> is_write_path ws (fe_path x)" "has_external_path env ws c es s = (Done False, d2)"
    by (auto simp: done_simps split: if_splits)
  have "same_files d s" using keepsD [OF looks_artifact Cons.prems(2) s(1)] .
  then show ?case using Cons.IH [OF s(3)] Cons.prems(2,3) s(1,2) artifact_found by (cases artifact) auto
qed simp

lemma fold_checks:
  "fold (\<lambda>e r. case r of Inl x \<Rightarrow> Inl x | Inr _ \<Rightarrow> f e) es (Inr ()) = Inr () \<Longrightarrow> e \<in> set es \<Longrightarrow> f e = Inr ()"
proof (induction es)
  case (Cons x es)
  have stuck: "fold (\<lambda>e r. case r of Inl x \<Rightarrow> Inl x | Inr _ \<Rightarrow> f e) es (Inl y) = Inl y" for y
    by (induction es) auto
  show ?case using Cons stuck by (cases "f x") auto
qed simp

lemma deny_checks_pass: "deny_checks c es = Inr () \<Longrightarrow> e \<in> set es \<Longrightarrow> evaluate (ac_policy c) (''edit '' @ fe_path e) \<noteq> Decide_Deny"
  unfolding deny_checks_def by (drule (1) fold_checks) (simp add: ensure_not_denied_def split: if_splits)

text \<open>
  C28. What a patch may do without being approved: only under the Trusted policy, only adding and
  updating files, only inside the writable roots of the workspace or among the session's own plan
  and goal files, and never on a path whose editing the security policy denies.
\<close>

theorem unapproved_patch_stays_inside:
  assumes "patch_admission env js ws c arguments d = (Done (Allowed targets), d')"
  shows "ac_approval_policy c = Trusted \<and> (\<exists>plan d1. prepare_patch env js ws c arguments d = (Done plan, d1)
    \<and> targets = canonical_target_paths plan
    \<and> (\<forall>e \<in> set (pp_effects plan). fe_after e \<noteq> None \<and> evaluate (ac_policy c) (''edit '' @ fe_path e) \<noteq> Decide_Deny
        \<and> (is_write_path ws (fe_path e) \<or> artifact_at env c d (fe_path e))))"
proof -
  from assms obtain plan d1 d2 where plan: "prepare_patch env js ws c arguments d = (Done plan, d1)"
      and external: "has_external_path env ws c (pp_effects plan) d1 = (Done False, d2)"
      and rest: "ac_approval_policy c = Trusted" "list_all (\<lambda>e. fe_after e \<noteq> None) (pp_effects plan)"
        "deny_checks c (pp_effects plan) = Inr ()" "targets = canonical_target_paths plan"
    by (auto simp: patch_admission_def done_simps split: if_splits)
  have "same_files d d1" using prepare_patch_ok [OF plan] by simp
  then show ?thesis using plan rest no_external_path [OF external] deny_checks_pass [OF rest(3)] by (auto simp: list_all_iff)
qed

subsection \<open>The workspace while it is locked\<close>

text \<open>A path of the session's own, or the resolved form of one that does not exist yet.\<close>

definition artifact_target :: "workspace_env \<Rightarrow> approval_controller \<Rightarrow> disk \<Rightarrow> string \<Rightarrow> bool" where
  "artifact_target env c d p \<longleftrightarrow> artifact_at env c d p \<or> (\<exists>named up parent name t s. artifact_at env c d named
     \<and> parent_of named = Some up \<and> fs_canonicalize (we_canon env) up (d\<lparr>dk_tick := t\<rparr>) = (Done parent, s)
     \<and> file_name_of named = Some name \<and> p = path_join parent name)"

text \<open>Every path of a plan was resolved by \<open>mutate_path\<close> or by \<open>create_path\<close>.\<close>

lemma prepare_operation_paths:
  assumes "prepare_operation env ws c op pd d1 = (Done pd', d2)" and "same_files d d1"
    and "\<And>raw s p s'. same_files d s \<Longrightarrow> mutate_path env ws c raw s = (Done p, s') \<Longrightarrow> Q p"
    and "\<And>raw s p s'. same_files d s \<Longrightarrow> create_path env ws c raw s = (Done p, s') \<Longrightarrow> Q p"
    and "\<forall>e \<in> set (pd_effects pd). Q (fe_path e)"
  shows "\<forall>e \<in> set (pd_effects pd'). Q (fe_path e)"
proof -
  have same: "reserve_path p x = Inr x' \<Longrightarrow> pd_effects x' = pd_effects x" "pd_effects (add_path q x) = pd_effects x" for p q x x'
    by (auto simp: reserve_path_def add_path_def split: if_splits)
  show ?thesis
  proof (cases op)
    case (Add_Operation path ls)
    then obtain p s x where "create_path env ws c path d1 = (Done p, s)" "reserve_path p pd = Inr x"
        "pd' = add_path path (add_effect \<lparr>fe_path = p, fe_before = None, fe_after = Some (lines_to_text ls)\<rparr> x)"
      using assms(1) by (auto simp: prepare_operation_def prepare_add_def done_simps split: if_splits)
    then show ?thesis using assms(2,4,5) same by simp
  next
    case (Delete_Operation path)
    then obtain p s x bytes where "mutate_path env ws c path d1 = (Done p, s)" "reserve_path p pd = Inr x"
        "pd' = add_path path (add_effect \<lparr>fe_path = p, fe_before = Some bytes, fe_after = None\<rparr> x)"
      using assms(1) by (auto simp: prepare_operation_def prepare_delete_def done_simps split: if_splits)
    then show ?thesis using assms(2,3,5) same by simp
  next
    case (Update_Operation path mv hs)
    then obtain p s original s2 updated where first: "mutate_path env ws c path d1 = (Done p, s)" "read_text env p s = (Done original, s2)"
        and rest: "(case mv of Some target \<Rightarrow> prepare_move env ws c path target p original updated pd
          | None \<Rightarrow> bindA (ofA (reserve_path p pd)) (\<lambda>pd'.
              retA (add_path path (add_effect \<lparr>fe_path = p, fe_before = Some original, fe_after = Some updated\<rparr> pd')))) s2 = (Done pd', d2)"
      using assms(1) by (auto simp: prepare_operation_def prepare_update_def done_simps split: if_splits option.splits)
    have "same_files d s2" using keepsD [OF looks_texts(2) keepsD [OF looks_paths(3) assms(2) first(1)] first(2)] .
    then show ?thesis using rest first(1) assms(2,3,4,5) same
      by (auto simp: prepare_move_def done_simps split: option.splits if_splits)
  qed
qed

lemma prepare_patch_paths:
  assumes "prepare_patch env js ws c arguments d = (Done plan, d')"
    and "\<And>raw s p s'. same_files d s \<Longrightarrow> mutate_path env ws c raw s = (Done p, s') \<Longrightarrow> Q p"
    and "\<And>raw s p s'. same_files d s \<Longrightarrow> create_path env ws c raw s = (Done p, s') \<Longrightarrow> Q p"
  shows "\<forall>e \<in> set (pp_effects plan). Q (fe_path e)"
proof -
  have run: "prepare_operations env ws c ops pd s = (Done pd', s') \<Longrightarrow> same_files d s \<Longrightarrow> \<forall>e \<in> set (pd_effects pd). Q (fe_path e)
      \<Longrightarrow> \<forall>e \<in> set (pd_effects pd'). Q (fe_path e)" for ops pd s pd' s'
  proof (induction ops arbitrary: pd s)
    case (Cons op ops)
    then obtain pd1 s1 where one: "prepare_operation env ws c op pd s = (Done pd1, s1)"
        "prepare_operations env ws c ops pd1 s1 = (Done pd', s')" by (auto simp: done_simps)
    show ?case
      by (rule Cons.IH [OF one(2) keepsD [OF looks_operation Cons.prems(2) one(1)]])
        (rule prepare_operation_paths [OF one(1) Cons.prems(2) assms(2,3) Cons.prems(3)])
  qed (simp add: done_simps)
  obtain ops pd s2 where "prepare_operations env ws c ops empty_draft d = (Done pd, s2)" "pp_effects plan = pd_effects pd"
    using assms(1) by (auto simp: prepare_patch_def done_simps split: if_splits)
  then show ?thesis using run [of ops empty_draft d pd s2] by (simp add: empty_draft_def)
qed

text \<open>
  C29. While the workspace is locked, by Plan Mode or for a read-only agent, the only files a patch
  can be prepared for are the session's own: the living plan, its scratch directory and the goal's
  files.  Any other patch is refused before anything is written.
\<close>

theorem locked_workspace_is_not_patched:
  assumes "prepare_patch env js ws c arguments d = (Done plan, d')" and "plan_mode_block_reason c \<noteq> None"
  shows "\<forall>e \<in> set (pp_effects plan). artifact_target env c d (fe_path e)"
proof (rule prepare_patch_paths [OF assms(1)])
  have locked: "ensure_plan_mode_unlocked c \<noteq> Inr ()"
    using assms(2) by (auto simp: ensure_plan_mode_unlocked_def)
  show "artifact_target env c d p" if look: "same_files d s" and "mutate_path env ws c raw s = (Done p, s')" for raw s p s'
  proof -
    from that(2) obtain s1 s2 where one: "existing_path env ws c raw s = (Done p, s1)" "is_session_artifact env c p s1 = (Done True, s2)"
      using locked by (auto simp: mutate_path_def done_simps split: if_splits)
    then show ?thesis using artifact_found [OF one(2) keepsD [OF looks_paths(1) look one(1)]] by (simp add: artifact_target_def)
  qed
  show "artifact_target env c d p" if look: "same_files d s" and made: "create_path env ws c raw s = (Done p, s')" for raw s p s'
  proof -
    from made obtain named s1 s2 there s3 up parent name where one: "candidate env ws c raw s = (Done named, s1)"
        "is_session_artifact env c named s1 = (Done True, s2)" "fs_exists_tool named s2 = (Done there, s3)"
        "parent_of named = Some up" "fs_canonicalize (we_canon env) up s3 = (Done parent, s')" "file_name_of named = Some name"
        "p = path_join parent name"
      using locked by (auto simp: create_path_def done_simps split: if_splits option.splits)
    have a: "same_files d s1" using keepsD [OF looks_candidate look one(1)] .
    have "same_files d s3" using keepsD [OF looks_tool(1) keepsD [OF looks_artifact a one(2)] one(3)] .
    then obtain t where "s3 = d\<lparr>dk_tick := t\<rparr>" by (auto simp: same_files_def)
    then show ?thesis using artifact_found [OF one(2) a] one(4-7) unfolding artifact_target_def by blast
  qed
qed

subsection \<open>Reading without an approval\<close>

lemma ensure_readable_iff:
  "ensure_readable ws c p = Inr q \<longleftrightarrow> q = p \<and> \<not> has_git_component p \<and> (allows_outside_paths c \<or> is_write_path ws p
     \<or> strictly_in (ws_extra_read_roots ws) p \<or> strictly_in (ws_session_read_roots ws) p \<or> strictly_in (ws_skill_read_roots ws) p)"
  by (auto simp: ensure_readable_def ensure_inside_def)

text \<open>
  What \<open>read_file\<close> shows without an approval: if a read admitted without one succeeds, its text is
  a page of the current content of exactly the admitted file, of at most 2000 lines, and that file is
  one of the session's own or lies, with its links resolved and outside every \<open>.git\<close> directory, in the
  workspace or a root opened for reading (or the policy opens the whole machine).
\<close>

theorem unapproved_read_stays_inside:
  assumes "read_execute_after_admission env js ws c arguments turn (Allowed targets) (b, d) = (out, x')"
    and "teo_status out = Tool_Completed"
  shows "\<exists>p bytes offset wanted. targets = [p] \<and> file_at d p = Some bytes \<and> utf8 bytes
    \<and> teo_content out = format_read_page p bytes offset wanted \<and> 1 \<le> wanted \<and> wanted \<le> max_read_lines
    \<and> (artifact_at env c d p \<or> \<not> has_git_component p \<and> (allows_outside_paths c \<or> is_write_path ws p
        \<or> strictly_in (ws_extra_read_roots ws) p \<or> strictly_in (ws_session_read_roots ws) p \<or> strictly_in (ws_skill_read_roots ws) p))"
proof -
  obtain shown where run: "read_result env js ws c arguments turn (Allowed targets) (b, d) = (Done shown, x')"
      and out: "out = outcome_completed shown"
    using assms into_tool_outcome_status by (auto simp: read_execute_after_admission_def into_tool_outcome_def split: prod.splits)
  from run obtain p requires raw d1 where path: "local_file_path_with_admission env ws c raw d = (Done (p, requires), d1)"
      and admitted: "verify_admitted_path p requires (Allowed targets) = Inr ()"
      and page: "read_file_page env js ws p arguments turn (b, d1) = (Done shown, x')"
    by (auto simp: read_result_def in_budget_def done_simps split: prod.splits)
  have targets: "targets = [p]" "\<not> requires"
    using admitted by (cases targets; auto simp: verify_admitted_path_def admission_target_paths_def split: if_splits)+
  have look: "same_files d d1" using keepsD [OF looks_paths(5) same_files_refl path] .
  from page obtain bytes offset wanted plain s1 s2 where
      "bounded_usize js arguments ''limit'' default_read_lines max_read_lines = Inr wanted"
      "shown = format_read_page p bytes offset wanted" "utf8 bytes"
      and read: "fs_is_file_tool p d1 = (Done plain, s1)" "fs_open p s1 = (Done (), s2)" "file_at s2 p = Some bytes"
    by (auto simp: read_file_page_def done_simps split: prod.splits outcome.splits if_splits sum.splits)
  moreover have "1 \<le> wanted \<and> wanted \<le> max_read_lines"
    using calculation(1) by (auto simp: bounded_usize_def default_read_lines_def max_read_lines_def split: option.splits if_splits)
  moreover have "file_at d p = Some bytes"
    using read(3) same_files_nodes [OF keepsD [OF looks_fs(5) keepsD [OF looks_tool(2) look read(1)] read(2)]] by simp
  moreover have "artifact_at env c d p \<or> ensure_readable ws c p = Inr p"
  proof -
    from path targets(2) obtain q s3 artifact s4 where "existing_path env ws c raw d = (Done q, s3)"
        "is_session_artifact env c q s3 = (Done artifact, s4)" "q = p" "artifact \<or> ensure_readable ws c p = Inr p"
      by (auto simp: local_file_path_with_admission_def done_simps split: if_splits)
    then show ?thesis using artifact_found keepsD [OF looks_paths(1) same_files_refl] by (cases artifact) metis+
  qed
  ultimately show ?thesis using targets out
    by (auto simp: outcome_completed_def plain_outcome_def ensure_readable_iff)
qed

end
