(* ===== verification/Background_Claims.thy ===== *)
theory Background_Claims
  imports Background_Shell
begin

section \<open>What the manager of background tasks promises\<close>

text \<open>
  The log of a task keeps the end of what the process wrote; every process that runs is the process
  of a listed task that can be stopped; two races of the manager with other threads.
\<close>

subsection \<open>Logs\<close>

definition tail_log :: "string \<Rightarrow> bounded_log" where
  "tail_log written = \<lparr>bl_bytes = drop (length written - max_log_bytes) written,
     bl_total_bytes = min (length written) u64_max, bl_truncated = (max_log_bytes < length written)\<rparr>"

lemma log_append_tail: "log_append b (tail_log a) = tail_log (a @ b)"
proof (cases "length a \<le> max_log_bytes")
  case True
  then show ?thesis by (auto simp: log_append_def tail_log_def Let_def sat_add_def)
next
  case False
  moreover have "length a + length b = length b + length a" by simp
  ultimately show ?thesis
    by (auto simp: log_append_def tail_log_def Let_def sat_add_def drop_append add.commute)
qed

text \<open>
  A task's log is the end of what its process wrote: however the output arrives in pieces, the log
  holds its last 64 KiB, counts all of it and says whether something was dropped.
\<close>

theorem log_keeps_the_tail: "fold log_append pieces empty_log = tail_log (concat pieces)"
proof -
  have "fold log_append pieces (tail_log written) = tail_log (written @ concat pieces)" for written
    by (induction pieces arbitrary: written) (simp_all add: log_append_tail)
  moreover have "empty_log = tail_log []" by (simp add: empty_log_def tail_log_def)
  ultimately show ?thesis using append_Nil by metis
qed

text \<open>A log is shown as text: valid UTF-8, and unchanged where it was.\<close>

lemma from_utf8_lossy_text: "utf8 (from_utf8_lossy s)"
proof (induction s rule: from_utf8_lossy.induct)
  case (1 s)
  have mark: "utf8 (utf8_bytes [0xEF, 0xBF, 0xBD])" by code_simp
  show ?case
  proof (cases "s = [] \<or> char_width s = 0")
    case True
    then show ?thesis using 1 mark by (subst from_utf8_lossy.simps) (auto intro: utf8_append)
  next
    case False
    then have "char_width (take (char_width s) s) = char_width s" using char_width_take [of s "char_width s"] by simp
    then have "utf8 (take (char_width s) s)" using False char_width_le [of s] by (subst utf8_step) simp_all
    then show ?thesis using 1 False by (subst from_utf8_lossy.simps) (auto intro: utf8_append)
  qed
qed

lemma from_utf8_lossy_id: "utf8 s \<Longrightarrow> from_utf8_lossy s = s"
proof (induction s rule: from_utf8_lossy.induct)
  case (1 s)
  then show ?case using utf8_nonempty [of s] by (subst from_utf8_lossy.simps) auto
qed

subsection \<open>The processes of the listed tasks\<close>

definition handle_ok :: "nat set \<Rightarrow> nat \<Rightarrow> nat \<Rightarrow> task_handle \<Rightarrow> bool" where
  "handle_ok E fresh pid h \<longleftrightarrow> pid < fresh \<and> (hd_child h = None \<or> hd_child h = Some pid)
     \<and> (hd_monitor h = Monitor_Ended \<longrightarrow> bt_state (hd_task h) \<in> {''stopped'', ''failed''} \<or> pid \<in> E)
     \<and> (hd_monitor h = Watching \<and> hd_child h = None \<longrightarrow> bt_state (hd_task h) = ''stopped'')"

definition live_handle :: "shell_manager \<Rightarrow> nat \<Rightarrow> bool" where
  "live_handle s pid \<longleftrightarrow> (case bs_handles s pid of None \<Rightarrow> False | Some h \<Rightarrow> hd_child h = Some pid \<and> hd_monitor h = Watching)"

text \<open>
  The manager's invariant: processes of the set \<open>X\<close> may be unlisted, tasks of the set \<open>E\<close> may be shown
  as running although their watcher is done.
\<close>

definition manager_but :: "nat set \<Rightarrow> nat set \<Rightarrow> shell_manager \<Rightarrow> bool" where
  "manager_but E X s \<longleftrightarrow> distinct (map fst (bs_tasks s)) \<and> (\<forall>(k, pid) \<in> set (bs_tasks s). bs_handles s pid \<noteq> None)
     \<and> (\<forall>pid h. bs_handles s pid = Some h \<longrightarrow> handle_ok E (pt_next (bs_procs s)) pid h)
     \<and> (\<forall>pid \<in> set (pt_running (bs_procs s)). pid < pt_next (bs_procs s) \<and> live_handle s pid
          \<and> (pid \<in> X \<or> pid \<in> snd ` set (bs_tasks s)))"

definition procs_ticked :: "shell_manager \<Rightarrow> shell_manager" where
  "procs_ticked s = s\<lparr>bs_procs := (bs_procs s)\<lparr>pt_tick := pt_tick (bs_procs s) + 1\<rparr>\<rparr>"

definition running :: "shell_manager \<Rightarrow> nat set" where
  "running s = set (pt_running (bs_procs s))"

lemma wp_call [wp_simps]: "wp (unless_failed (on_procs f)) R s \<longleftrightarrow>
    (case pt_fault (bs_procs s) (pt_tick (bs_procs s)) of Some e \<Rightarrow> R (Raised e) (procs_ticked s)
     | None \<Rightarrow> (case f (bs_procs (procs_ticked s)) of (x, p) \<Rightarrow> R (Done x) ((procs_ticked s)\<lparr>bs_procs := p\<rparr>)))"
  by (auto simp: unless_failed_def proc_tick_def on_procs_def procs_ticked_def wp_simps split: option.splits prod.splits)

lemma wp_timestamp [wp_simps]: "wp timestamp_ms R s \<longleftrightarrow> R (Done (pt_clock (bs_procs s) (pt_tick (bs_procs s)))) (procs_ticked s)"
  by (auto simp: timestamp_ms_def on_procs_def procs_ticked_def wp_simps split: prod.splits)

lemma wp_with_handle [wp_simps]: "wp (with_handle pid f) R s \<longleftrightarrow>
    (case bs_handles s pid of None \<Rightarrow> R Out_of_fuel s | Some h \<Rightarrow> wp (f h) R s)"
  by (auto simp: with_handle_def wp_simps split: option.splits)

lemma ticked_sel [simp]:
  "bs_tasks (procs_ticked s) = bs_tasks s" "bs_handles (procs_ticked s) = bs_handles s" "running (procs_ticked s) = running s"
  "pt_next (bs_procs (procs_ticked s)) = pt_next (bs_procs s)" "pt_running (bs_procs (procs_ticked s)) = pt_running (bs_procs s)"
  "pt_exits (bs_procs (procs_ticked s)) = pt_exits (bs_procs s)"
  by (simp_all add: procs_ticked_def running_def)

lemma mod_handle_sel [simp]:
  "bs_tasks (mod_handle pid f s) = bs_tasks s" "bs_procs (mod_handle pid f s) = bs_procs s"
  "bs_handles (mod_handle pid f s) = (bs_handles s)(pid := map_option f (bs_handles s pid))" "running (mod_handle pid f s) = running s"
  by (simp_all add: mod_handle_def running_def)

lemma manager_ticked [simp]: "manager_but E X (procs_ticked s) \<longleftrightarrow> manager_but E X s"
  by (simp add: manager_but_def live_handle_def)

lemma manager_mod_handle:
  assumes "manager_but E X s"
    and "\<And>h. bs_handles s pid = Some h \<Longrightarrow> handle_ok E (pt_next (bs_procs s)) pid h \<Longrightarrow> handle_ok E (pt_next (bs_procs s)) pid (f h)"
    and "\<And>h. bs_handles s pid = Some h \<Longrightarrow> pid \<in> running s \<Longrightarrow> hd_child h = Some pid \<Longrightarrow> hd_monitor h = Watching
      \<Longrightarrow> hd_child (f h) = Some pid \<and> hd_monitor (f h) = Watching"
  shows "manager_but E X (mod_handle pid f s)"
  using assms by (fastforce simp: manager_but_def live_handle_def running_def split: option.splits)

text \<open>What \<open>stop_handle\<close> does to a known handle: it is stopped, or a call failed and it still runs.\<close>

lemma stop_handle_wp:
  assumes "manager_but E X s" and "bs_handles s pid \<noteq> None"
  shows "wp (stop_handle pid ''stopped'') (\<lambda>r s'. bs_tasks s' = bs_tasks s \<and> running s' \<subseteq> running s \<and> bs_handles s' pid \<noteq> None
      \<and> (\<forall>q. bs_handles s q \<noteq> None \<longrightarrow> bs_handles s' q \<noteq> None) \<and> r \<noteq> Out_of_fuel
      \<and> manager_but E X s' \<and> (r = Done () \<longrightarrow> pid \<notin> running s')) s"
proof -
  obtain h where h: "bs_handles s pid = Some h" using assms(2) by blast
  then have ok: "handle_ok E (pt_next (bs_procs s)) pid h" using assms(1) by (simp add: manager_but_def)
  let ?f = "\<lambda>h. h\<lparr>hd_stop_requested := True\<rparr>"
  have first: "manager_but E X (mod_handle pid ?f s)"
    by (rule manager_mod_handle [OF assms(1)]) (simp_all add: handle_ok_def)
  define g where "g ts h = h\<lparr>hd_child := None, hd_task := (hd_task h)\<lparr>bt_state := ''stopped'', bt_stopped_at := Some ts\<rparr>\<rparr>" for ts :: nat and h :: task_handle
  have last: "manager_but E X (mod_handle pid (\<lambda>h. h\<lparr>hd_task := (hd_task h)\<lparr>bt_state := ''stopped'', bt_stopped_at := Some ts\<rparr>\<rparr>)
      (procs_ticked (mod_handle pid (\<lambda>h. h\<lparr>hd_child := None\<rparr>) s1)))"
    if "manager_but E X s1" "pid \<notin> running s1" for s1 ts
  proof -
    have "mod_handle pid (\<lambda>h. h\<lparr>hd_task := (hd_task h)\<lparr>bt_state := ''stopped'', bt_stopped_at := Some ts\<rparr>\<rparr>)
        (procs_ticked (mod_handle pid (\<lambda>h. h\<lparr>hd_child := None\<rparr>) s1)) = procs_ticked (mod_handle pid (g ts) s1)"
      by (cases "bs_handles s1 pid") (simp_all add: mod_handle_def procs_ticked_def g_def)
    moreover have "manager_but E X (mod_handle pid (g ts) s1)"
      by (rule manager_mod_handle [OF that(1)]) (use that(2) in \<open>auto simp: handle_ok_def g_def\<close>)
    ultimately show ?thesis by simp
  qed
  have dead: "pid \<notin> running s" if "hd_child h = None" using that assms(1) h by (auto simp: manager_but_def live_handle_def running_def)
  have killed: "manager_but E X (s1\<lparr>bs_procs := (bs_procs s1)\<lparr>pt_running := filter (\<lambda>q. q \<noteq> pid) (pt_running (bs_procs s1)), pt_exits := e\<rparr>\<rparr>)"
    if "manager_but E X s1" for s1 e
    using that by (fastforce simp: manager_but_def live_handle_def)
  let ?s1 = "mod_handle pid ?f s"
  have finish: "wp (seqA (modA (mod_handle pid (\<lambda>h. h\<lparr>hd_child := None\<rparr>))) (bindA timestamp_ms (\<lambda>ts.
      modA (mod_handle pid (\<lambda>h. h\<lparr>hd_task := (hd_task h)\<lparr>bt_state := ''stopped'', bt_stopped_at := Some ts\<rparr>\<rparr>)))))
    (\<lambda>r s'. bs_tasks s' = bs_tasks s \<and> running s' \<subseteq> running s \<and> bs_handles s' pid \<noteq> None
      \<and> (\<forall>q. bs_handles s q \<noteq> None \<longrightarrow> bs_handles s' q \<noteq> None) \<and> r \<noteq> Out_of_fuel
      \<and> manager_but E X s' \<and> (r = Done () \<longrightarrow> pid \<notin> running s')) s1"
    if "manager_but E X s1" "pid \<notin> running s1" "bs_tasks s1 = bs_tasks s" "running s1 \<subseteq> running s" "bs_handles s1 = bs_handles ?s1" for s1
    using that last [OF that(1,2)] h by (simp add: wp_simps)
  have stopped: "wp (stop_child pid (?f h)) (\<lambda>r s1. manager_but E X s1 \<and> bs_tasks s1 = bs_tasks s \<and> running s1 \<subseteq> running s
      \<and> bs_handles s1 = bs_handles ?s1 \<and> r \<noteq> Out_of_fuel \<and> (r = Done () \<longrightarrow> pid \<notin> running s1)) ?s1"
  proof (cases "hd_child h")
    case None
    then show ?thesis using first dead by (simp add: stop_child_def wp_simps)
  next
    case (Some child)
    then have "child = pid" using ok by (simp add: handle_ok_def)
    then show ?thesis using Some first killed [of "procs_ticked (procs_ticked ?s1)"]
      by (auto simp: stop_child_def proc_try_wait_def proc_terminate_def wp_simps running_def split: option.splits)
  qed
  note finish' = finish [unfolded wp_seqA wp_modA outcome.case]
  show ?thesis
    unfolding stop_handle_def wp_seqA wp_modA outcome.case wp_with_handle mod_handle_sel
    using h
  proof (simp only: fun_upd_same option.map option.case, intro wp_conseq [OF stopped], goal_cases)
    case (1 r s1)
    show ?case
    proof (cases r)
      case (Done u)
      then have "r = Done ()" by simp
      then show ?thesis using 1 by (simp only: outcome.case) (intro finish'; simp)
    qed (use 1 h in auto)
  qed
qed

subsection \<open>Every operation keeps the invariant\<close>

lemma stop_all_wp:
  assumes "manager_but E X s" and "\<forall>pid \<in> set pids. bs_handles s pid \<noteq> None"
  shows "wp (stop_all pids) (\<lambda>r s'. bs_tasks s' = bs_tasks s \<and> running s' \<subseteq> running s \<and> manager_but E X s'
      \<and> (r = Done () \<longrightarrow> running s' \<inter> set pids = {})) s"
  using assms
proof (induction pids arbitrary: s)
  case (Cons pid pids)
  show ?case unfolding stop_all.simps wp_seqA
  proof (rule wp_conseq [OF stop_handle_wp [OF Cons.prems(1)]], use Cons.prems(2) in simp, goal_cases)
    case (1 r s1)
    show ?case
    proof (cases r)
      case (Done u)
      then have "r = Done ()" by simp
      moreover have "wp (stop_all pids) (\<lambda>r s'. bs_tasks s' = bs_tasks s1 \<and> running s' \<subseteq> running s1 \<and> manager_but E X s'
          \<and> (r = Done () \<longrightarrow> running s' \<inter> set pids = {})) s1"
        by (rule Cons.IH) (use 1 Cons.prems(2) in auto)
      ultimately show ?thesis using 1 by (simp only: outcome.case) (rule wp_conseq, assumption, auto)
    qed (use 1 in auto)
  qed
qed (simp add: wp_simps)

lemma manager_unlisted: "manager_but E X s \<Longrightarrow> X \<inter> running s \<subseteq> Y \<Longrightarrow> manager_but E Y s"
  unfolding manager_but_def running_def by blast

lemma clear_tasks_ok: "manager_but E X s \<Longrightarrow> manager_but E (X \<union> (snd ` set (bs_tasks s) \<inter> running s)) (clear_tasks s)"
  by (auto simp: manager_but_def clear_tasks_def live_handle_def running_def)

lemma close_all_wp:
  assumes "manager_but E X s"
  shows "wp close_all (\<lambda>r s'. r = Done () \<longrightarrow> running s' \<subseteq> X) s"
proof -
  have known: "\<forall>pid \<in> set (map snd (bs_tasks s)). bs_handles s pid \<noteq> None" using assms by (force simp: manager_but_def)
  have listed: "running s' \<subseteq> X \<union> set (map snd (bs_tasks s))" if "manager_but E X s'" "bs_tasks s' = bs_tasks s" for s'
    using that by (auto simp: manager_but_def running_def)
  show ?thesis unfolding close_all_def wp_bindA wp_getA outcome.case wp_seqA comp_def
  proof (rule wp_conseq [OF stop_all_wp [OF assms]], use known in simp, goal_cases)
    case (1 r s1)
    show ?case
    proof (cases r)
      case (Done u)
      then have r: "r = Done ()" by simp
      then have "running s1 \<subseteq> X" using 1 listed [of s1] by auto
      then show ?thesis by (simp add: r wp_simps) (simp add: clear_tasks_def running_def)
    qed (use 1 in auto)
  qed
qed

definition to_publish :: "task_handle \<Rightarrow> bool" where
  "to_publish h \<longleftrightarrow> (hd_child h = None \<longrightarrow> hd_monitor h \<noteq> Watching)"

lemma spawn_task_wp:
  assumes "manager_but E X s"
  shows "wp (spawn_task owner task_id command dir kind) (\<lambda>r s'. bs_tasks s' = bs_tasks s \<and> r \<noteq> Out_of_fuel
      \<and> (\<forall>e. r = Raised e \<longrightarrow> manager_but E X s') \<and> (\<forall>pid. r = Done pid \<longrightarrow> manager_but E (insert pid X) s' \<and> (\<exists>h. bs_handles s' pid = Some h \<and> to_publish h))) s"
proof -
  let ?n = "pt_next (bs_procs s)"
  have fresh: "bs_handles s ?n = None"
    using assms by (cases "bs_handles s ?n") (auto simp: manager_but_def handle_ok_def)
  show ?thesis
  proof (cases "pt_fault (bs_procs s) (pt_tick (bs_procs s))")
    case (Some e)
    then show ?thesis using assms by (simp add: spawn_task_def proc_spawn_def wp_simps)
  next
    case None
    have "?n \<noteq> pid" if "pid \<in> set (pt_running (bs_procs s))" for pid using assms that by (auto simp: manager_but_def)
    with None fresh assms show ?thesis
      by (auto simp: spawn_task_def proc_spawn_def wp_simps to_publish_def procs_ticked_def manager_but_def live_handle_def handle_ok_def
          less_Suc_eq)
  qed
qed

lemma manager_early: "manager_but E X s \<Longrightarrow> E \<subseteq> E' \<Longrightarrow> manager_but E' X s"
  unfolding manager_but_def handle_ok_def by blast

lemma publish_task_wp:
  assumes "manager_but E (insert pid X) s" and h: "bs_handles s pid = Some h" "to_publish h" and "task_id \<notin> fst ` set (bs_tasks s)"
  shows "wp (publish_task task_id pid) (\<lambda>r s'. manager_but (if hd_monitor h = Monitor_Ended then insert pid E else E) X s') s"
proof -
  let ?E = "if hd_monitor h = Monitor_Ended then insert pid E else E"
  let ?f = "\<lambda>h. h\<lparr>hd_task := (hd_task h)\<lparr>bt_state := ''running''\<rparr>\<rparr>"
  have "manager_but ?E (insert pid X) s" using manager_early [OF assms(1)] by auto
  then have "manager_but ?E (insert pid X) (mod_handle pid ?f s)"
    by (rule manager_mod_handle) (use h in \<open>auto simp: handle_ok_def to_publish_def\<close>)
  moreover have "filter (\<lambda>(k, _). k \<noteq> task_id) (bs_tasks s) = bs_tasks s"
    using assms(4) by (force intro: filter_True)
  moreover have "(task_id, b) \<notin> set (bs_tasks s)" for b using assms(4) by force
  ultimately show ?thesis using h
    by (auto simp: publish_task_def mark_running_def snapshot_def wp_simps manager_but_def live_handle_def split: option.splits)
qed

lemma wp_ensure_owner [wp_simps]: "wp (ensure_owner thread) R s \<longleftrightarrow>
    (if bs_owner s = None \<or> bs_owner s = Some thread then R (Done ()) s
     else R (Raised ''background task belongs to another Thread runtime'') s)"
  by (auto simp: ensure_owner_def wp_simps split: option.splits)

lemma wp_find_task [wp_simps]: "wp (find_task task_id) R s \<longleftrightarrow>
    (case map_of (bs_tasks s) task_id of None \<Rightarrow> R (Raised (no_task task_id)) s | Some pid \<Rightarrow> R (Done pid) s)"
  by (auto simp: find_task_def wp_simps split: option.splits)

lemma wp_bg_lift [wp_simps]: "wp (bg_lift r) R s \<longleftrightarrow> (case r of Inl e \<Rightarrow> R (Raised e) s | Inr x \<Rightarrow> R (Done x) s)"
  by (auto simp: bg_lift_def wp_simps split: sum.splits)

lemma listed_handle: "manager_but E X s \<Longrightarrow> map_of (bs_tasks s) task_id = Some pid \<Longrightarrow> bs_handles s pid \<noteq> None"
  by (drule map_of_SomeD) (auto simp: manager_but_def)

lemma unlisted:
  assumes "manager_but E X s" and "map_of (bs_tasks s) task_id = Some pid"
  shows "manager_but E (insert pid X) (s\<lparr>bs_tasks := filter (\<lambda>(k, _). k \<noteq> task_id) (bs_tasks s)\<rparr>)"
proof -
  let ?kept = "filter (\<lambda>(k, _). k \<noteq> task_id) (bs_tasks s)"
  have only: "q = pid" if "(task_id, q) \<in> set (bs_tasks s)" for q
    using that assms map_of_is_SomeI by (fastforce simp: manager_but_def)
  have "q = pid \<or> q \<in> snd ` set ?kept" if "q \<in> snd ` set (bs_tasks s)" for q
    using that only by force
  then have cover: "q = pid \<or> q \<in> X \<or> q \<in> snd ` set ?kept" if "q \<in> set (pt_running (bs_procs s))" for q
    using that assms(1) unfolding manager_but_def by meson
  have keys: "distinct (map fst ?kept)" using assms(1) by (simp add: manager_but_def distinct_map_filter)
  have sub: "set ?kept \<subseteq> set (bs_tasks s)" by auto
  show ?thesis unfolding manager_but_def live_handle_def
  proof (intro conjI ballI allI impI, goal_cases)
    case (2 x) then show ?case using assms(1) sub by (auto simp: manager_but_def)
  next
    case (6 q) then show ?case using cover [of q] by auto
  qed (use assms(1) keys in \<open>auto simp: manager_but_def live_handle_def\<close>)
qed

lemma monitor_step_wp:
  assumes "manager_but E X s"
  shows "wp (monitor_step pid) (\<lambda>r s'. manager_but E X s') s"
proof (cases "bs_handles s pid")
  case (Some h)
  have ok: "handle_ok E (pt_next (bs_procs s)) pid h" using assms Some by (simp add: manager_but_def)
  have keep: "manager_but E X (mod_handle pid f s1)"
    if "manager_but E X s1" "bs_handles s1 pid = Some h" "pid \<notin> running s1" "handle_ok E (pt_next (bs_procs s1)) pid (f h)" for f s1
    by (rule manager_mod_handle [OF that(1)]) (use that in auto)
  have dead: "pid \<notin> running s" if "hd_monitor h \<noteq> Watching \<or> hd_child h = None"
    using that assms Some by (auto simp: manager_but_def live_handle_def running_def)
  show ?thesis
  proof (cases "hd_monitor h")
    case Watching
    then show ?thesis using Some ok dead assms
      by (auto simp: monitor_step_def proc_try_wait_def wp_simps handle_ok_def running_def split: option.splits if_splits intro!: keep)
  next
    case (Saw_Exit code)
    then show ?thesis using Some ok dead assms
      by (auto simp: monitor_step_def wp_simps handle_ok_def intro!: keep)
  next
    case (Cleared_Child code)
    then show ?thesis using Some ok dead assms
      by (auto simp: monitor_step_def wp_simps handle_ok_def intro!: keep)
  qed (use Some assms in \<open>simp add: monitor_step_def wp_simps\<close>)
qed (use assms in \<open>simp add: monitor_step_def wp_simps\<close>)

lemma log_step_ok: "manager_but E X s \<Longrightarrow> manager_but E X (log_step pid bytes s)"
  unfolding log_step_def by (rule manager_mod_handle) (simp_all add: handle_ok_def)

lemma exit_step_ok: "manager_but E X s \<Longrightarrow> manager_but E X (exit_step pid code s)"
  by (fastforce simp: exit_step_def manager_but_def live_handle_def)

subsection \<open>Any order of calls and watchers\<close>

text \<open>
  The calls of the manager in the pieces between which other threads can act, the steps of the watchers
  and of the readers of the output, and the ends of processes, in any order.  Beside the manager are
  kept: the processes that have been lost, the tasks whose watcher was through before they were
  published, and the task that a call, which holds the manager's lock, has spawned but not yet
  published.  A process is lost by a restart that could not stop it, and by the end of \<open>close_all\<close>,
  which clears the list whatever runs by then.
\<close>

type_synonym watched = "shell_manager \<times> nat set \<times> nat set \<times> (string \<times> nat) option"

definition unlist :: "string \<Rightarrow> shell_manager \<Rightarrow> shell_manager" where
  "unlist task_id s = s\<lparr>bs_tasks := filter (\<lambda>(k, _). k \<noteq> task_id) (bs_tasks s)\<rparr>"

inductive tasks_step :: "watched \<Rightarrow> watched \<Rightarrow> bool" where
  Spawn: "spawn_task thread task_id command dir kind s = (Done pid, s') \<Longrightarrow> task_id \<notin> fst ` set (bs_tasks s)
    \<Longrightarrow> tasks_step (s, lost, early, None) (s', lost, early, Some (task_id, pid))"
| Spawn_Fails: "spawn_task thread task_id command dir kind s = (Raised e, s') \<Longrightarrow> tasks_step (s, lost, early, None) (s', lost, early, None)"
| Publish: "bs_handles s pid = Some h \<Longrightarrow> tasks_step (s, lost, early, Some (task_id, pid))
    (snd (publish_task task_id pid s), lost, if hd_monitor h = Monitor_Ended then insert pid early else early, None)"
| Stop: "pid \<notin> snd ` set_option new \<Longrightarrow> tasks_step (s, lost, early, new) (snd (stop_handle pid ''stopped'' s), lost, early, new)"
| Replace: "map_of (bs_tasks s) task_id = Some old \<Longrightarrow> stop_handle old ''stopped'' (unlist task_id s) = (r, s')
    \<Longrightarrow> tasks_step (s, lost, early, None) (s', lost \<union> ({old} \<inter> running s'), early, None)"
| Clear: "tasks_step (s, lost, early, None) (clear_tasks s, lost \<union> (snd ` set (bs_tasks s) \<inter> running s), early, None)"
| Bind: "tasks_step (s, lost, early, new) (bind_owner thread s, lost, early, new)"
| Disable: "tasks_step (s, lost, early, new) (disable_tasks s, lost, early, new)"
| Monitor: "tasks_step (s, lost, early, new) (snd (monitor_step pid s), lost, early, new)"
| Output: "tasks_step (s, lost, early, new) (log_step pid bytes s, lost, early, new)"
| Exit: "tasks_step (s, lost, early, new) (exit_step pid code s, lost, early, new)"

text \<open>The calls, run without interruption, are sequences of these steps.\<close>

lemma stop_handle_frame:
  "wp (stop_handle pid final) (\<lambda>r s'. bs_tasks s' = bs_tasks s \<and> (\<forall>q. q \<noteq> pid \<longrightarrow> bs_handles s' q = bs_handles s q)) s"
  by (auto simp: stop_handle_def stop_child_def proc_try_wait_def proc_terminate_def wp_simps split: option.splits)

lemma spawn_is_steps:
  assumes "bindA (spawn_task thread task_id command dir kind) (publish_task task_id) s = (r, s')" and "r \<noteq> Out_of_fuel"
    and "task_id \<notin> fst ` set (bs_tasks s)"
  shows "\<exists>early'. tasks_step\<^sup>*\<^sup>* (s, lost, early, None) (s', lost, early', None)"
proof -
  obtain q s1 where q: "spawn_task thread task_id command dir kind s = (q, s1)" by fastforce
  show ?thesis
  proof (cases q)
    case (Done pid)
    have "tasks_step (s, lost, early, None) (s1, lost, early, Some (task_id, pid))"
      by (rule tasks_step.Spawn [OF q [unfolded Done] assms(3)])
    moreover obtain h where "bs_handles s1 pid = Some h"
      using assms(1,2) q Done by (cases "bs_handles s1 pid")
        (auto simp: act_simps publish_task_def mark_running_def snapshot_def with_handle_def)
    moreover have "s' = snd (publish_task task_id pid s1)" using assms(1) q Done by (simp add: act_simps)
    ultimately show ?thesis by (metis (no_types) tasks_step.Publish converse_rtranclp_into_rtranclp r_into_rtranclp)
  next
    case (Raised e)
    then show ?thesis
      using assms(1) q tasks_step.Spawn_Fails [of thread task_id command dir kind s e s1 lost early] by (auto simp: act_simps)
  qed (use assms(1,2) q in \<open>auto simp: act_simps\<close>)
qed

lemma start_is_steps:
  assumes "start_task thread task_id command dir kind s = (r, s')" and "r \<noteq> Out_of_fuel"
  shows "\<exists>early'. tasks_step\<^sup>*\<^sup>* (s, lost, early, None) (s', lost, early', None)"
proof (cases "s' = s")
  case False
  then have none: "map_of (bs_tasks s) task_id = None"
    and run: "bindA (spawn_task thread task_id command dir kind) (publish_task task_id) s = (r, s')"
    using assms
    by (auto simp: start_task_def ensure_enabled_def ensure_owner_def bg_lift_def snapshot_def with_handle_def act_simps
        split: option.splits if_splits sum.splits)
  then show ?thesis using spawn_is_steps [OF run assms(2)] by (simp add: map_of_eq_None_iff)
qed auto

lemma restart_is_steps:
  assumes "restart_task thread task_id kind s = (r, s')" and "r \<noteq> Out_of_fuel"
  shows "\<exists>lost' early'. tasks_step\<^sup>*\<^sup>* (s, lost, early, None) (s', lost', early', None)"
proof (cases "s' = s")
  case False
  then obtain old where old: "map_of (bs_tasks s) task_id = Some old"
    using assms(1)
    by (auto simp: restart_task_def find_task_def ensure_owner_def act_simps split: option.splits if_splits)
  obtain q s1 where q: "stop_handle old ''stopped'' (unlist task_id s) = (q, s1)" by fastforce
  let ?lost = "lost \<union> ({old} \<inter> running s1)"
  have first: "tasks_step (s, lost, early, None) (s1, ?lost, early, None)" by (rule tasks_step.Replace [OF old q])
  have tasks: "bs_tasks s1 = bs_tasks (unlist task_id s)" using wpD [OF stop_handle_frame q] by simp
  show ?thesis
  proof (cases q)
    case (Done u)
    then have "\<exists>h :: task_handle. bindA (spawn_task thread task_id (hd_command h) (hd_working_directory h) kind) (publish_task task_id) s1 = (r, s')"
      using assms False old q
      by (auto simp: restart_task_def find_task_def ensure_owner_def with_handle_def unlist_def act_simps split: option.splits if_splits)
    moreover have "task_id \<notin> fst ` set (bs_tasks s1)" by (auto simp: tasks unlist_def)
    ultimately obtain early' where "tasks_step\<^sup>*\<^sup>* (s1, ?lost, early, None) (s', ?lost, early', None)"
      using spawn_is_steps [OF _ assms(2), of thread task_id _ _ kind s1 s' ?lost early] by blast
    then show ?thesis using first by (meson converse_rtranclp_into_rtranclp)
  next
    case (Raised e)
    then have "s' = s1"
      using assms(1) False old q
      by (auto simp: restart_task_def find_task_def ensure_owner_def unlist_def act_simps split: option.splits if_splits)
    then show ?thesis using first by blast
  next
    case Out_of_fuel
    then show ?thesis
      using assms False old q
      by (auto simp: restart_task_def find_task_def ensure_owner_def unlist_def act_simps split: option.splits if_splits)
  qed
qed auto

lemma stops_are_steps: "tasks_step\<^sup>*\<^sup>* (s, lost, early, None) (snd (stop_all pids s), lost, early, None)"
proof (induction pids arbitrary: s)
  case (Cons pid pids)
  obtain r s1 where one: "stop_handle pid ''stopped'' s = (r, s1)" by fastforce
  have "tasks_step (s, lost, early, None) (s1, lost, early, None)" using tasks_step.Stop [of pid None s lost early] one by simp
  then show ?case using Cons [of s1] one by (cases r) (auto simp: act_simps intro: converse_rtranclp_into_rtranclp)
qed (simp add: act_simps)

lemma close_is_steps: "\<exists>lost'. tasks_step\<^sup>*\<^sup>* (s, lost, early, None) (snd (close_all s), lost', early, None)"
proof -
  obtain r s1 where run: "stop_all (map snd (bs_tasks s)) s = (r, s1)" by fastforce
  have stops: "tasks_step\<^sup>*\<^sup>* (s, lost, early, None) (s1, lost, early, None)"
    using stops_are_steps [of s lost early "map snd (bs_tasks s)"] run by simp
  show ?thesis
  proof (cases r)
    case (Done u)
    then have "snd (close_all s) = clear_tasks s1" using run by (simp add: close_all_def act_simps)
    then show ?thesis using rtranclp.rtrancl_into_rtrancl [OF stops tasks_step.Clear] by metis
  qed (use run stops in \<open>auto simp: close_all_def act_simps\<close>)
qed

text \<open>What the steps keep.\<close>

fun watched_ok :: "watched \<Rightarrow> bool" where
  "watched_ok (s, lost, early, new) \<longleftrightarrow> manager_but early (lost \<union> snd ` set_option new) s
     \<and> (case new of None \<Rightarrow> True | Some (task_id, pid) \<Rightarrow> task_id \<notin> fst ` set (bs_tasks s)
         \<and> (\<exists>h. bs_handles s pid = Some h \<and> to_publish h))"

lemma monitor_step_frame:
  "wp (monitor_step q) (\<lambda>r s'. bs_tasks s' = bs_tasks s \<and> (\<forall>pid h. bs_handles s pid = Some h \<longrightarrow> to_publish h \<longrightarrow>
     (\<exists>h'. bs_handles s' pid = Some h' \<and> to_publish h'))) s"
  by (auto simp: monitor_step_def proc_try_wait_def wp_simps to_publish_def split: option.splits monitor_phase.splits)

lemma stop_step_ok:
  assumes "manager_but E X s"
  shows "manager_but E X (snd (stop_handle pid ''stopped'' s))"
proof (cases "bs_handles s pid")
  case None
  then have "mod_handle pid f s = s" for f by (simp add: mod_handle_def fun_upd_idem)
  then show ?thesis using None assms by (simp add: stop_handle_def with_handle_def act_simps)
next
  case (Some h)
  then show ?thesis using stop_handle_wp [OF assms, of pid] by (auto simp: wp_def split: prod.splits)
qed

lemma tasks_step_ok: "tasks_step x y \<Longrightarrow> watched_ok x \<Longrightarrow> watched_ok y"
proof (induction rule: tasks_step.induct)
  case (Spawn thread task_id command dir kind s pid s' lost early)
  from wpD [OF spawn_task_wp Spawn(1), of early lost] Spawn(2,3) show ?case by simp
next
  case (Spawn_Fails thread task_id command dir kind s e s' lost early)
  from wpD [OF spawn_task_wp Spawn_Fails(1), of early lost] Spawn_Fails(2) show ?case by simp
next
  case (Publish s pid h lost early task_id)
  then have "wp (publish_task task_id pid) (\<lambda>r s'. manager_but (if hd_monitor h = Monitor_Ended then insert pid early else early) lost s') s"
    by (intro publish_task_wp) auto
  then show ?case by (simp add: wp_def split: prod.splits)
next
  case (Stop pid new s lost early)
  have "bs_tasks (snd (stop_handle pid ''stopped'' s)) = bs_tasks s"
    "\<forall>q. q \<noteq> pid \<longrightarrow> bs_handles (snd (stop_handle pid ''stopped'' s)) q = bs_handles s q"
    using stop_handle_frame [of pid "''stopped''" s] by (auto simp: wp_def split: prod.splits)
  then show ?case using Stop stop_step_ok [of early "lost \<union> snd ` set_option new" s pid]
    by (cases new) auto
next
  case (Replace s task_id old r s' lost early)
  have "manager_but early (insert old lost) (unlist task_id s)"
    using unlisted [OF _ Replace(1), of early lost] Replace(3) by (simp add: unlist_def)
  from stop_step_ok [OF this, of old] Replace(2) have "manager_but early (insert old lost) s'" by simp
  then have "manager_but early (lost \<union> ({old} \<inter> running s')) s'" by (rule manager_unlisted) auto
  then show ?case by simp
next
  case (Clear s lost early)
  then show ?case using clear_tasks_ok [of early lost s] by simp
next
  case (Bind s lost early new thread)
  then show ?case by (cases new) (auto simp: manager_but_def bind_owner_def live_handle_def)
next
  case (Disable s lost early new)
  then show ?case by (cases new) (auto simp: manager_but_def disable_tasks_def live_handle_def)
next
  case (Monitor s lost early new pid)
  have "bs_tasks (snd (monitor_step pid s)) = bs_tasks s"
    "\<forall>q h. bs_handles s q = Some h \<longrightarrow> to_publish h \<longrightarrow> (\<exists>h'. bs_handles (snd (monitor_step pid s)) q = Some h' \<and> to_publish h')"
    using monitor_step_frame [of pid s] by (auto simp: wp_def split: prod.splits)
  moreover have "manager_but early (lost \<union> snd ` set_option new) (snd (monitor_step pid s))"
    using monitor_step_wp [of early "lost \<union> snd ` set_option new" s pid] Monitor by (auto simp: wp_def split: prod.splits)
  ultimately show ?case using Monitor by (auto split: option.splits)
next
  case (Output s lost early new pid bytes)
  then show ?case using log_step_ok [of early "lost \<union> snd ` set_option new" s pid bytes]
    by (auto simp: log_step_def to_publish_def split: option.splits)
next
  case (Exit s lost early new pid code)
  then show ?case using exit_step_ok [of early "lost \<union> snd ` set_option new" s pid code]
    by (auto simp: exit_step_def split: option.splits)
qed

lemma reachable_watched_ok:
  assumes "tasks_step\<^sup>*\<^sup>* (manager_new p, {}, {}, None) x" and "pt_running p = []"
  shows "watched_ok x"
  using assms(1)
proof (induction rule: rtranclp_induct)
  case base
  then show ?case using assms(2) by (simp add: manager_but_def manager_new_def)
qed (rule tasks_step_ok)

text \<open>
  C25. No background process gets lost but in two ways.  Starts, stops, restarts and closings in any
  order, cut where they release a lock, with watchers, readers and exits in between and under any
  faults of the operating system: every process that runs is the process of a listed task (or of the
  one a call is about to list) whose handle can still stop it, unless a restart failed to stop it or a
  \<open>close_all\<close> cleared the list while it ran; a task whose watcher has finished is shown as stopped or
  failed, unless its watcher was through before the start published it; and a \<open>close_all\<close> that
  succeeds with nothing in between leaves only processes running that were lost before.
\<close>

theorem no_process_is_orphaned:
  assumes "tasks_step\<^sup>*\<^sup>* (manager_new p, {}, {}, None) (s, lost, early, new)" and "pt_running p = []"
  shows "(\<forall>pid \<in> running s. pid \<in> lost \<or> (\<exists>task_id h. ((task_id, pid) \<in> set (bs_tasks s) \<or> new = Some (task_id, pid))
        \<and> bs_handles s pid = Some h \<and> hd_child h = Some pid))
    \<and> (\<forall>pid h. bs_handles s pid = Some h \<and> hd_monitor h = Monitor_Ended \<longrightarrow> bt_state (hd_task h) \<in> {''stopped'', ''failed''} \<or> pid \<in> early)
    \<and> (\<forall>s'. new = None \<and> close_all s = (Done (), s') \<longrightarrow> running s' \<subseteq> lost)"
proof -
  have ok: "manager_but early (lost \<union> snd ` set_option new) s"
    using reachable_watched_ok [OF assms] by simp
  have closing: "running s' \<subseteq> lost" if "new = None" "close_all s = (Done (), s')" for s'
    using wpD [OF close_all_wp that(2)] ok that(1) by simp
  have listed: "pid \<in> lost \<or> (\<exists>task_id h. ((task_id, pid) \<in> set (bs_tasks s) \<or> new = Some (task_id, pid))
        \<and> bs_handles s pid = Some h \<and> hd_child h = Some pid)" if "pid \<in> running s" for pid
    using ok that by (cases new) (fastforce simp: manager_but_def live_handle_def running_def split: option.splits)+
  have shown: "bt_state (hd_task h) \<in> {''stopped'', ''failed''} \<or> pid \<in> early"
    if "bs_handles s pid = Some h" "hd_monitor h = Monitor_Ended" for pid h
    using ok that by (auto simp: manager_but_def handle_ok_def)
  show ?thesis
    by (intro conjI ballI allI impI) (erule listed, erule conjE, erule (1) shown, erule conjE, erule (1) closing)
qed

subsection \<open>A sample run, and three ways to lose a process\<close>

definition calm_table :: process_table where
  "calm_table = \<lparr>pt_running = [], pt_exits = (\<lambda>_. None), pt_commands = [], pt_next = 1, pt_fault = (\<lambda>_. None),
     pt_clock = (\<lambda>_. 0), pt_tick = 0\<rparr>"

definition one_task :: shell_manager where
  "one_task = snd (start_task ''t'' ''a'' ''x'' ''/w'' Sandbox_Docker (manager_new calm_table))"

lemma sample_valid: "validate_task_id ''a'' = Inr ()" "validate_command ''x'' = Inr ()"
  by (code_simp, simp add: validate_command_def)

lemmas manager_runs = start_task_def ensure_enabled_def ensure_owner_def bg_lift_def spawn_task_def proc_spawn_def unless_failed_def
  proc_tick_def on_procs_def timestamp_ms_def publish_task_def mark_running_def snapshot_def with_handle_def mod_handle_def act_simps
  manager_new_def calm_table_def sample_valid shell_command_def running_def

lemma one_task_runs: "running one_task = {1} \<and> map_of (bs_tasks one_task) ''a'' = Some 1"
  by (simp add: one_task_def manager_runs)

text \<open>A task started under the Docker sandbox runs as a process of the host.\<close>

lemma docker_task_runs_on_host: "pt_commands (bs_procs one_task) = [(1, [''sh'', ''-lc'', ''x''], ''/w'')]"
  by (simp add: one_task_def manager_runs)

text \<open>A process that ends before its task is published: the watcher is done, the task is shown as running
  from then on.\<close>

definition watched_to_its_end :: "nat \<Rightarrow> unit bg" where
  "watched_to_its_end pid = seqA (monitor_step pid) (seqA (monitor_step pid) (monitor_step pid))"

lemma early_exit_is_shown_running:
  "\<exists>s h. bindA (spawn_task ''t'' ''a'' ''x'' ''/w'' Sandbox_Native) (\<lambda>pid. seqA (modA (exit_step pid (Some 1)))
      (seqA (watched_to_its_end pid) (publish_task ''a'' pid))) (manager_new calm_table) = (Done (handle_snapshot h), s)
    \<and> bs_handles s 1 = Some h \<and> running s = {} \<and> hd_monitor h = Monitor_Ended
    \<and> bt_state (hd_task h) = ''running'' \<and> bt_exit_code (hd_task h) = Some 1"
  by (simp add: manager_runs watched_to_its_end_def monitor_step_def proc_try_wait_def exit_step_def)

text \<open>A restart that cannot stop the old process forgets the task and leaves the process running.\<close>

definition failing_call :: "shell_manager \<Rightarrow> shell_manager" where
  "failing_call s = s\<lparr>bs_procs := (bs_procs s)\<lparr>pt_fault := (\<lambda>_. Some ''No child processes'')\<rparr>\<rparr>"

lemma failed_restart_loses_process:
  "\<exists>s. restart_task ''t'' ''a'' Sandbox_Native (failing_call one_task) = (Raised ''No child processes'', s)
    \<and> running s = {1} \<and> bs_tasks s = []"
  by (simp add: one_task_def failing_call_def manager_runs restart_task_def find_task_def stop_handle_def stop_child_def proc_try_wait_def)

text \<open>\<open>close_all\<close> stops the tasks it has collected and then clears the list without the lock held in
  between: a task started meanwhile is dropped with its process running.\<close>

lemma close_all_drops_a_new_task:
  "\<exists>s. seqA (stop_all (map snd (bs_tasks (manager_new calm_table))))
      (bindA (start_task ''t'' ''a'' ''x'' ''/w'' Sandbox_Native) (\<lambda>_. modA clear_tasks)) (manager_new calm_table) = (Done (), s)
    \<and> running s = {1} \<and> bs_tasks s = []"
  by (simp add: manager_runs clear_tasks_def)

theorem no_process_is_orphaned_witness:
  "\<exists>task_id h. (task_id, 1) \<in> set (bs_tasks one_task) \<and> bs_handles one_task 1 = Some h \<and> hd_child h = Some 1"
proof -
  obtain r where run: "start_task ''t'' ''a'' ''x'' ''/w'' Sandbox_Docker (manager_new calm_table) = (r, one_task)"
    by (metis one_task_def prod.collapse)
  have "r \<noteq> Out_of_fuel" using run by (auto simp: manager_runs)
  then obtain early where "tasks_step\<^sup>*\<^sup>* (manager_new calm_table, {}, {}, None) (one_task, {}, early, None)"
    using start_is_steps [OF run] by blast
  then show ?thesis using no_process_is_orphaned [of calm_table one_task "{}" early None] one_task_runs by (simp add: calm_table_def)
qed

end
