(* ===== verification/Shell_Claims.thy ===== *)
theory Shell_Claims
  imports Shell File_Claims Background_Claims
begin

section \<open>What the shell tool promises\<close>

text \<open>
  The capture of a stream is independent of how it arrives; a foreground command ends by its
  deadline; a command that needs no approval is one of the listed kind.
\<close>

subsection \<open>Capturing\<close>

definition last_part :: "nat \<Rightarrow> string \<Rightarrow> string" where
  "last_part n s = drop (length s - n) s"

lemma push_tail_last: "push_tail n (last_part n s) b = last_part n (s @ [b])"
  by (cases "length s < n") (auto simp: push_tail_def last_part_def Suc_diff_le)

lemma push_tails: "foldl (push_tail n) (last_part n s) t = last_part n (s @ t)"
  by (induction t arbitrary: s) (simp_all add: push_tail_last)

lemma capture_pieces:
  assumes "\<forall>piece \<in> set pieces. piece \<noteq> []" and "length (s @ concat pieces) \<le> u64_max"
  shows "capture_loop h t (take h s) (last_part t (drop h s)) (length s) (map Inr pieces)
    = Inr (take h (s @ concat pieces), last_part t (drop h (s @ concat pieces)), length (s @ concat pieces))"
  using assms
proof (induction pieces arbitrary: s)
  case (Cons piece pieces)
  let ?r = "min (length piece) (h - length (take h s))"
  have "take h s @ take ?r piece = take h (s @ piece)" by (auto simp: min_def)
  moreover have "drop h s @ drop ?r piece = drop h (s @ piece)" by (auto simp: min_def)
  ultimately show ?case using Cons.prems Cons.IH [of "s @ piece"]
    by (simp add: push_tails sat_add_eq Let_def)
qed simp

text \<open>
  A captured stream does not depend on how it arrives: from any sequence of reads the capture holds the
  whole stream if it fits, and otherwise its first half and its last half of the limit, with the
  number of bytes the process wrote and a mark exactly if some are missing.
\<close>

theorem capture_keeps_both_ends:
  assumes "\<forall>piece \<in> set pieces. piece \<noteq> []" and "length (concat pieces) \<le> u64_max"
  shows "capture_bounded (map Inr pieces) max_bytes = Inr
    \<lparr>cap_bytes = (if length (concat pieces) \<le> max_bytes then concat pieces
       else take ((max_bytes + 1) div 2) (concat pieces) @ last_part (max_bytes div 2) (concat pieces)),
     cap_total_bytes = length (concat pieces), cap_truncated = (max_bytes < length (concat pieces))\<rparr>"
proof -
  let ?h = "(max_bytes + 1) div 2" and ?s = "concat pieces"
  have t: "max_bytes - ?h = max_bytes div 2" by linarith
  have "last_part (max_bytes div 2) (drop ?h ?s) = (if length ?s \<le> max_bytes then drop ?h ?s else last_part (max_bytes div 2) ?s)"
    by (auto simp: last_part_def)
  then have "take ?h ?s @ last_part (max_bytes div 2) (drop ?h ?s)
      = (if length ?s \<le> max_bytes then ?s else take ?h ?s @ last_part (max_bytes div 2) ?s)" by simp
  moreover have "capture_loop ?h (max_bytes div 2) [] [] 0 (map Inr pieces)
      = Inr (take ?h ?s, last_part (max_bytes div 2) (drop ?h ?s), length ?s)"
    using capture_pieces [of pieces "[]" ?h "max_bytes div 2"] assms by (simp add: last_part_def)
  ultimately show ?thesis unfolding capture_bounded_def Let_def t by (simp only: map_sum.simps prod.case)
qed

theorem capture_keeps_both_ends_witness:
  "capture_bounded (map Inr [''ab'', ''cdef'', ''g'']) 4 = Inr \<lparr>cap_bytes = ''abfg'', cap_total_bytes = 7, cap_truncated = True\<rparr>"
  using capture_keeps_both_ends [of "[''ab'', ''cdef'', ''g'']" 4] by (simp add: last_part_def u64_max_def)

subsection \<open>The deadline\<close>

text \<open>A clock that never runs backwards and advances by the length of a sleep.\<close>

definition clock_law :: "('w \<Rightarrow> nat) \<Rightarrow> 'w process_os \<Rightarrow> bool" where
  "clock_law now os \<longleftrightarrow> (\<forall>w. now w \<le> now (snd (po_try_wait os w)) \<and> now w \<le> now (snd (po_cancelled os w))
     \<and> now w \<le> fst (po_elapsed_ms os w) \<and> now w \<le> now (snd (po_elapsed_ms os w)) \<and> now w + 10 \<le> now (po_sleep os w))"

lemma terminate_settles: "terminate_sandboxed_command os container w \<noteq> (Out_of_fuel, w')"
  by (auto simp: terminate_sandboxed_command_def terminate_docker_container_def tryA_def act_simps
      split: option.splits sum.splits prod.splits outcome.splits if_splits)

text \<open>
  C38. A foreground command comes back: whatever the process does, with a clock that advances through
  every sleep the loop that waits for it ends by its deadline of 120 seconds, after at most 12001
  polls, with its exit, a time out, a cancellation or an error.
\<close>

theorem command_returns_by_its_deadline:
  assumes "clock_law now os"
  shows "wait_child 12001 os container w \<noteq> (Out_of_fuel, w')"
proof -
  have "wait_child (Suc n) os container w \<noteq> (Out_of_fuel, w')" if "command_timeout_ms \<le> now w + 10 * n" for n w
    using that
  proof (induction n arbitrary: w)
    case 0
    obtain st w1 stop w2 elapsed w3 where run: "po_try_wait os w = (st, w1)" "po_cancelled os w1 = (stop, w2)"
        "po_elapsed_ms os w2 = (elapsed, w3)" by (metis prod.collapse)
    then have "now w \<le> elapsed" using assms unfolding clock_law_def by (metis fst_conv snd_conv order_trans)
    then have "command_timeout_ms \<le> elapsed" using 0 by simp
    then show ?case using run terminate_settles [of os container]
      by (auto simp: tryA_def act_simps split: sum.splits option.splits outcome.splits prod.splits)
  next
    case (Suc n)
    obtain st w1 stop w2 elapsed w3 where run: "po_try_wait os w = (st, w1)" "po_cancelled os w1 = (stop, w2)"
        "po_elapsed_ms os w2 = (elapsed, w3)" by (metis prod.collapse)
    then have "now w + 10 \<le> now (po_sleep os w3)"
      using assms unfolding clock_law_def by (metis snd_conv order_trans add_le_mono1)
    then have "command_timeout_ms \<le> now (po_sleep os w3) + 10 * n" using Suc.prems by simp
    from Suc.IH [OF this] show ?case using run terminate_settles [of os container]
      by (auto simp: tryA_def act_simps simp del: wait_child.simps(2) simp: wait_child.simps(2) [of "Suc n"]
          split: sum.splits option.splits outcome.splits prod.splits)
  qed
  moreover have "(12001::nat) = Suc 12000" by simp
  moreover have "command_timeout_ms \<le> now w + 10 * 12000" by (simp add: command_timeout_ms_def)
  ultimately show ?thesis by metis
qed

definition ticking_os :: "nat process_os" where
  "ticking_os = \<lparr>po_docker_linux = Pair False, po_container_id = Pair (0, 0), po_spawn = (\<lambda>_ _ w. (Inr (), w)), po_try_wait = Pair (Inr None),
     po_cancelled = Pair False, po_elapsed_ms = (\<lambda>w. (w, w)), po_sleep = (\<lambda>w. w + 10), po_terminate = Pair (Inr None),
     po_docker_control = (\<lambda>_. Pair (Inl ''no docker'')), po_stdout = Pair [], po_stderr = Pair []\<rparr>"

theorem command_returns_by_its_deadline_witness: "fst (wait_child 12001 ticking_os None 0) \<noteq> Out_of_fuel"
proof -
  have "clock_law id ticking_os" by (simp add: clock_law_def ticking_os_def)
  from command_returns_by_its_deadline [OF this] show ?thesis by (metis prod.collapse)
qed

subsection \<open>Commands that need no approval\<close>

text \<open>
  What an unasked command line may be, written out without the tables of the check: the line holds no
  redirection, substitution, grouping or background character; cut at semicolons and bars, each part
  starts with the name of a listed program, \<open>git\<close> only with one of seven subcommands; none of the words
  is one of the named options that write or execute; no word expands a variable, assigns one or names
  a drive, a scheme or a home directory.
\<close>

fun pieces :: "(char \<Rightarrow> bool) \<Rightarrow> string \<Rightarrow> string list" where
  "pieces p [] = [[]]"
| "pieces p (x # xs) = (if p x then [] # pieces p xs else (x # hd (pieces p xs)) # tl (pieces p xs))"








lemma pieces_nonempty [simp]: "pieces p s \<noteq> []"
  by (cases s) auto

















end
