(* ===== verification/File_Samples.thy ===== *)
theory File_Samples
  imports File_Claims
begin

section \<open>Sample calls of the file tools\<close>

text \<open>
  A workspace \<open>/w\<close> with one file and a session with a living plan, on a disk without faults; the
  arguments of a call are their one string.
\<close>

definition text_json :: "string value_api" where
  "text_json = \<lparr>va_parse = Some, va_encode = Inr, va_get = (\<lambda>v k. if k \<in> {''patch'', ''path'', ''command''} then Some v else None), va_as_str = Some,
     va_as_u64 = (\<lambda>_. None), va_as_bool = (\<lambda>_. None), va_is_null = (\<lambda>_. False), va_object = (\<lambda>_. []), va_str = (\<lambda>s. s),
     va_num = (\<lambda>_. []), va_bool = (\<lambda>_. []), va_null = []\<rparr>"

definition linked_canon :: canon where
  "linked_canon d p = (if p = ''/w/link'' then Inr ''/ro'' else Inr p)"

definition sample_workspace_env :: workspace_env where
  "sample_workspace_env = \<lparr>we_canon = linked_canon, we_home = None, we_debug = (\<lambda>s. s)\<rparr>"

definition sample_workspace :: workspace where
  "sample_workspace = \<lparr>ws_root = ''/w'', ws_extra_read_roots = [], ws_session_read_roots = [''/ro''], ws_skill_read_roots = [],
     ws_extra_write_roots = []\<rparr>"

definition tool_disk :: disk where
  "tool_disk = \<lparr>dk_nodes = [(''/w'', Dir_Node), (''/ro'', Dir_Node), (''/w/a'', File_Node (''x'' @ [newline_byte])),
     (''/s/plan.md'', File_Node (''x'' @ [newline_byte]))], dk_fault = (\<lambda>_. None), dk_clock = (\<lambda>_. 0), dk_tick = 0\<rparr>"

definition one_line_written :: "string \<Rightarrow> written_operation list" where
  "one_line_written p = [Written_Update p None [\<lparr>wh_title = [], wh_lines = [Old_Line ''x'', New_Line ''y''], wh_marked = False\<rparr>]]"

definition one_line_patch :: "string \<Rightarrow> string" where
  "one_line_patch p = patch_text (one_line_written p) 0"

lemma read_one_line_patch:
  assumes "p \<noteq> []" and "newline_byte \<notin> set p" and "carriage_return \<notin> set p"
  shows "parse_patch (one_line_patch p) = Inr [Update_Operation p None [\<lparr>hk_old = [''x''], hk_new = [''y'']\<rparr>]]"
proof -
  have "patch_ok (one_line_written p)"
    using assms(1,2) by (simp add: patch_ok_def one_line_written_def written_ok_def written_hunk_ok_def counted_lines_def
      max_patch_files_def max_patch_lines_def newline_byte_def)
  moreover have "crlf_to_lf (one_line_patch p) = one_line_patch p"
    using assms(3) by (intro crlf_absent)
      (simp add: one_line_patch_def one_line_written_def patch_text_def patch_lines_def operation_text_def hunk_text_def headers
        carriage_return_def newline_byte_def)
  ultimately have "parse_patch (one_line_patch p) = Inr (map meant_operation (one_line_written p))"
    unfolding patch_text_read one_line_patch_def by (intro exI [of _ "one_line_written p"] exI [of _ 0]) simp
  then show ?thesis by (simp add: one_line_written_def meant_operation_def meant_hunk_def)
qed

lemma parse_one_line_patch:
  "parse_patch (one_line_patch ''a'') = Inr [Update_Operation ''a'' None [\<lparr>hk_old = [''x''], hk_new = [''y'']\<rparr>]]"
  "parse_patch (one_line_patch ''plan.md'') = Inr [Update_Operation ''plan.md'' None [\<lparr>hk_old = [''x''], hk_new = [''y'']\<rparr>]]"
  by (rule read_one_line_patch; simp add: newline_byte_def carriage_return_def)+

lemma one_line_patch_bounds:
  "one_line_patch ''a'' \<noteq> []" "length (one_line_patch ''a'') \<le> max_patch_bytes"
  "one_line_patch ''plan.md'' \<noteq> []" "length (one_line_patch ''plan.md'') \<le> max_patch_bytes"
  by (simp_all add: one_line_patch_def one_line_written_def patch_text_def patch_lines_def operation_text_def hunk_text_def headers max_patch_bytes_def)

subsection \<open>Steps of a disk without faults\<close>

definition faultless :: "disk \<Rightarrow> bool" where
  "faultless d \<longleftrightarrow> dk_fault d = (\<lambda>_. None)"

lemma faultless_ticked [simp]: "faultless (ticked d) = faultless d"
  by (simp add: faultless_def)

lemma faultless_steps [simp]:
  assumes "faultless d"
  shows "fs_exists_tool p d = (Done (node_at d p \<noteq> None), ticked d)" "fs_is_file_tool p d = (Done (file_at d p \<noteq> None), ticked d)"
    "fs_canonicalize canon p d = (case canon (ticked d) p of Inl e \<Rightarrow> (Raised e, ticked d) | Inr q \<Rightarrow> (Done q, ticked d))"
    "file_at d p = Some bytes \<Longrightarrow> fs_read_bytes p d = (Done bytes, ticked d)"
    "file_at d p = Some bytes \<Longrightarrow> fs_open p d = (Done (), ticked d)"
  using assms
  by (auto simp: faultless_def fs_exists_tool_def fs_is_file_tool_def fs_canonicalize_def fs_calls unless_fault_def tick_def with_file_def
      act_simps file_at_def file_of_def split: sum.split option.splits node.splits)

lemma faultless_tool_disk [simp]: "faultless tool_disk"
  by (simp add: faultless_def tool_disk_def)

lemma tool_disk_nodes [simp]:
  "node_at tool_disk ''/w/link/x'' = None" "node_at tool_disk ''/w/a'' = Some (File_Node (''x'' @ [newline_byte]))"
  "node_at tool_disk ''/s/plan.md'' = Some (File_Node (''x'' @ [newline_byte]))"
  by (simp_all add: tool_disk_def node_at_def)

lemma plain_controller [simp]:
  "scratch_of (controller_new p) = None" "ac_goal_dir (controller_new p) = None" "pa_session_plan (ac_plan_access (controller_new p)) = None"
  "is_session_artifact env (controller_new p) q = retA False" "ensure_plan_mode_unlocked (controller_new p) = Inr ()"
  by (simp_all add: controller_new_def controller_with_policy_def scratch_of_def plan_scratch_def is_session_artifact_def is_session_plan_def
      is_plan_scratch_def is_goal_artifact_def orA_def fun_eq_iff act_simps ensure_plan_mode_unlocked_def plan_mode_block_reason_def)

lemma sample_workspace_sel [simp]:
  "we_canon sample_workspace_env = linked_canon" "we_home sample_workspace_env = None" "ws_root sample_workspace = ''/w''"
  "ws_extra_read_roots sample_workspace = []" "ws_session_read_roots sample_workspace = [''/ro'']"
  "ws_skill_read_roots sample_workspace = []" "ws_extra_write_roots sample_workspace = []"
  by (simp_all add: sample_workspace_env_def sample_workspace_def)

lemma sample_paths [simp]:
  "has_git_component ''link/x'' = False" "is_absolute ''link/x'' = False" "path_components ''link/x'' = [Normal_Part ''link'', Normal_Part ''x'']"
  "path_join ''/w'' ''link/x'' = ''/w/link/x''" "parent_of ''/w/link/x'' = Some ''/w/link''" "file_name_of ''/w/link/x'' = Some ''x''"
  "is_absolute ''/w/link/x'' = True" "path_join ''/ro'' ''x'' = ''/ro/x''" "path_in ''/ro'' ''/w/link/x'' = False" "path_in ''/ro'' ''/ro/x'' = True"
  by code_simp+

text \<open>A file added through a link in the workspace lands in a root that must not be changed: the
  read-only check sees the path before its links are resolved.\<close>

lemma added_file_enters_read_only_root:
  "\<exists>d. create_path sample_workspace_env sample_workspace (controller_new Trusted) ''link/x'' tool_disk = (Done ''/ro/x'', d)
    \<and> is_read_only_path sample_workspace ''/ro/x''"
  by (simp add: create_path_def candidate_def workspace_candidate_def skill_alias_path_def linked_canon_def is_read_only_path_def
      skill_allows_def ofA_def act_simps split: option.split)

subsection \<open>The sample patch and the sample page\<close>

lemma ticked_nodes [simp]: "node_at (ticked d) p = node_at d p" "file_at (ticked d) p = file_at d p"
  by (simp_all add: ticked_def node_at_def file_at_def)

lemma tool_disk_files [simp]: "file_at tool_disk ''/w/a'' = Some (''x'' @ [newline_byte])"
    "file_at tool_disk ''/s/plan.md'' = Some (''x'' @ [newline_byte])"
  by (simp_all add: file_at_def file_of_def)

lemma sample_names [simp]:
  "has_git_component ''a'' = False" "is_absolute ''a'' = False" "path_components ''a'' = [Normal_Part ''a'']" "is_plan_md_alias ''a'' = False"
  "path_join ''/w'' ''a'' = ''/w/a''" "has_git_component ''/w/a'' = False" "path_in ''/ro'' ''/w/a'' = False" "path_in ''/w'' ''/w/a'' = True"
  "is_absolute ''/w/a'' = True" "has_git_component ''plan.md'' = False" "is_absolute ''plan.md'' = False"
  "path_components ''plan.md'' = [Normal_Part ''plan.md'']" "is_plan_md_alias ''plan.md'' = True"
  by code_simp+

lemma sample_texts [simp]:
  "detect_image [CHR ''x'', newline_byte] = None" "utf8 [CHR ''x'', newline_byte]"
  "apply_hunks [CHR ''x'', newline_byte] [\<lparr>hk_old = [''x''], hk_new = [''y'']\<rparr>] = Inr [CHR ''y'', newline_byte]"
  by code_simp+

lemma text_json_arguments [simp]: "string_arg text_json s ''patch'' = Inr s" "string_arg text_json s ''path'' = Inr s"
    "bounded_usize text_json s ''offset'' n m = Inr n" "bounded_usize text_json s ''limit'' n m = Inr n"
  by (simp_all add: string_arg_def text_json_def bounded_usize_def)

lemma existing_sample: "faultless d \<Longrightarrow> node_at d ''/w/a'' \<noteq> None
    \<Longrightarrow> existing_path sample_workspace_env sample_workspace (controller_new p) ''a'' d = (Done ''/w/a'', ticked (ticked d))"
  by (simp add: existing_path_def candidate_def workspace_candidate_def linked_canon_def act_simps)

definition one_line_plan :: "string \<Rightarrow> string \<Rightarrow> patch_plan" where
  "one_line_plan p name = \<lparr>pp_effects = [\<lparr>fe_path = p, fe_before = Some (''x'' @ [newline_byte]), fe_after = Some (''y'' @ [newline_byte])\<rparr>],
     pp_paths = [name]\<rparr>"

lemma prepare_sample:
  assumes "mutate_path env ws c name d = (Done p, d1)" "faultless d1" "file_at d1 p = Some (''x'' @ [newline_byte])"
    "validate_patch_path name = Inr ()"
  shows "prepare_operations env ws c [Update_Operation name None [\<lparr>hk_old = [''x''], hk_new = [''y'']\<rparr>]] empty_draft d
    = (Done \<lparr>pd_seen = [p], pd_effects = pp_effects (one_line_plan p name), pd_paths = [name]\<rparr>, ticked (ticked d1))"
  using assms
  by (simp add: prepare_operation_def prepare_update_def read_text_def read_bytes_def ofA_def act_simps max_write_bytes_def
      ensure_file_size_def reserve_path_def add_path_def add_effect_def empty_draft_def one_line_plan_def)

lemma mutate_sample: "mutate_path sample_workspace_env sample_workspace (controller_new p) ''a'' tool_disk = (Done ''/w/a'', ticked (ticked tool_disk))"
  by (simp add: mutate_path_def existing_sample is_read_only_path_def skill_allows_def is_write_path_def ofA_def act_simps)

lemma prepare_sample_patch:
  "prepare_patch sample_workspace_env text_json sample_workspace (controller_new p) (one_line_patch ''a'') tool_disk
    = (Done (one_line_plan ''/w/a'' ''a''), ticked (ticked (ticked (ticked tool_disk))))"
proof -
  have valid: "validate_patch_path ''a'' = Inr ()" by (simp add: validate_patch_path_def)
  show ?thesis using one_line_patch_bounds
    by (simp add: prepare_patch_def parse_one_line_patch prepare_sample [OF mutate_sample _ _ valid] ofA_def act_simps one_line_plan_def
        del: prepare_operations.simps)
qed

lemma admit_sample_patch:
  "patch_admission sample_workspace_env text_json sample_workspace (controller_new Trusted) (one_line_patch ''a'') tool_disk
    = (Done (Allowed [''/w/a'']), ticked (ticked (ticked (ticked tool_disk))))"
proof -
  have "ac_approval_policy (controller_new Trusted) = Trusted" by (simp add: controller_new_def controller_with_policy_def)
  moreover have "ensure_not_denied ''edit /w/a'' (controller_new Trusted) = Inr ()" by code_simp
  ultimately show ?thesis
    by (simp add: patch_admission_def prepare_sample_patch one_line_plan_def is_write_path_def deny_checks_def ofA_def act_simps canonical_target_paths_def)
qed

theorem unapproved_patch_stays_inside_witness:
  "\<exists>plan d1. prepare_patch sample_workspace_env text_json sample_workspace (controller_new Trusted) (one_line_patch ''a'') tool_disk = (Done plan, d1)
    \<and> canonical_target_paths plan = [''/w/a'']"
  using unapproved_patch_stays_inside [OF admit_sample_patch] by (auto intro: sym)

theorem patch_touches_admitted_paths_only_witness:
  "node_at (snd (patch_execute_after_admission sample_workspace_env text_json sample_workspace (controller_new Trusted)
    (one_line_patch ''a'') (Allowed [''/w/a'']) tool_disk)) ''/s/plan.md'' = Some (File_Node (''x'' @ [newline_byte]))"
  using patch_touches_admitted_paths_only [OF prod.collapse [symmetric], where env = sample_workspace_env and js = text_json
      and ws = sample_workspace and c = "controller_new Trusted" and arguments = "one_line_patch ''a''"
      and admission = "Allowed [''/w/a'']" and d = tool_disk] by (simp add: admission_target_paths_def)

subsection \<open>A locked workspace, and a page\<close>

definition planning :: approval_controller where
  "planning = (controller_new Trusted)\<lparr>ac_plan_access := \<lparr>pa_session_plan = Some ''/s/plan.md'', pa_mode_active = True\<rparr>\<rparr>"

lemma prepare_living_plan:
  "prepare_patch sample_workspace_env text_json sample_workspace planning (one_line_patch ''plan.md'') tool_disk
    = (Done (one_line_plan ''/s/plan.md'' ''plan.md''), ticked (ticked (ticked tool_disk)))"
proof -
  have valid: "validate_patch_path ''plan.md'' = Inr ()" by (simp add: validate_patch_path_def)
  have "mutate_path sample_workspace_env sample_workspace planning ''plan.md'' tool_disk = (Done ''/s/plan.md'', ticked tool_disk)"
    by (simp add: mutate_path_def existing_path_def candidate_def planning_def linked_canon_def is_session_artifact_def is_session_plan_def
        orA_def same_path_def same_text_path_def act_simps)
  note prepared = prepare_sample [OF this _ _ valid]
  show ?thesis using one_line_patch_bounds
    by (simp add: prepare_patch_def parse_one_line_patch prepared ofA_def act_simps one_line_plan_def del: prepare_operations.simps)
qed

lemma planning_locks: "plan_mode_block_reason planning \<noteq> None"
  by (simp add: planning_def plan_mode_block_reason_def)

theorem locked_workspace_is_not_patched_witness:
  "artifact_target sample_workspace_env planning tool_disk ''/s/plan.md''"
  using locked_workspace_is_not_patched [OF prepare_living_plan planning_locks] by (simp add: one_line_plan_def)

lemma read_sample:
  "read_execute_after_admission sample_workspace_env text_json sample_workspace (controller_new Trusted) ''a'' None (Allowed [''/w/a''])
      (b, tool_disk)
    = (outcome_completed (format_read_page ''/w/a'' (''x'' @ [newline_byte]) 0 default_read_lines),
       (b, ticked (ticked (ticked (ticked (ticked tool_disk))))))"
proof -
  have "local_file_path_with_admission sample_workspace_env sample_workspace (controller_new Trusted) ''a'' tool_disk
      = (Done (''/w/a'', False), ticked (ticked tool_disk))"
    by (simp add: local_file_path_with_admission_def existing_sample ensure_readable_def ensure_inside_def is_write_path_def ofA_def act_simps)
  then show ?thesis
    by (simp add: read_execute_after_admission_def read_result_def in_budget_def verify_admitted_path_def admission_target_paths_def
        read_file_page_def max_read_source_bytes_def record_skill_read_def skill_allows_def ofA_def act_simps into_tool_outcome_def)
qed

theorem unapproved_read_stays_inside_witness:
  "teo_content (fst (read_execute_after_admission sample_workspace_env text_json sample_workspace (controller_new Trusted) ''a'' None
      (Allowed [''/w/a'']) (\<lparr>sb_turn_id = None, sb_bytes = 0\<rparr>, tool_disk)))
    = format_read_page ''/w/a'' (''x'' @ [newline_byte]) 0 default_read_lines
    \<and> (\<exists>wanted \<le> max_read_lines. 1 \<le> wanted)"
proof -
  have "teo_status (outcome_completed s) = Tool_Completed" for s by (simp add: outcome_completed_def plain_outcome_def)
  from unapproved_read_stays_inside [OF read_sample this] show ?thesis
    by (auto simp: read_sample outcome_completed_def plain_outcome_def)
qed

text \<open>
  The admission of a read never looks at the deny patterns of the policy: even a policy that denies
  every action admits the same reads, and the orchestrator evaluates the policy only for calls
  that require an approval.
\<close>

definition denying_everything :: "approval_controller \<Rightarrow> approval_controller" where
  "denying_everything c = c\<lparr>ac_policy := (ac_policy c)\<lparr>sp_deny_patterns := [''*'']\<rparr>\<rparr>"

lemma denying_everything_sel [simp]:
  "ac_plan_access (denying_everything c) = ac_plan_access c" "ac_goal_dir (denying_everything c) = ac_goal_dir c"
  "allows_outside_paths (denying_everything c) = allows_outside_paths c" "scratch_of (denying_everything c) = scratch_of c"
  by (simp_all add: denying_everything_def allows_outside_paths_def scratch_of_def plan_scratch_def)

theorem read_admission_ignores_deny_patterns:
  "evaluate (ac_policy (denying_everything c)) action = Decide_Deny
    \<and> read_admission env js ws (denying_everything c) arguments d = read_admission env js ws c arguments d"
proof
  show "evaluate (ac_policy (denying_everything c)) action = Decide_Deny"
    by (simp add: evaluate_def denying_everything_def matches_pattern_def)
  have "candidate env ws (denying_everything c) = candidate env ws c"
    "is_session_artifact env (denying_everything c) = is_session_artifact env c"
    "ensure_readable ws (denying_everything c) = ensure_readable ws c"
    unfolding fun_eq_iff candidate_def is_session_artifact_def is_session_plan_def is_plan_scratch_def
      is_goal_artifact_def ensure_readable_def ensure_inside_def denying_everything_sel by blast+
  then show "read_admission env js ws (denying_everything c) arguments d = read_admission env js ws c arguments d"
    unfolding read_admission_def local_file_path_with_admission_def existing_path_def by (simp only:)
qed

end
