(* ===== verification/Shell_Samples.thy ===== *)
theory Shell_Samples
  imports Shell_Claims File_Samples
begin

section \<open>Sample commands\<close>

text \<open>
  Commands in the workspace \<open>/w\<close>, where \<open>link\<close> is a link to a file outside: one that only reads a file of
  the workspace, and five that do more than the classification sees.
\<close>

definition outside_canon :: canon where
  "outside_canon d p = (if p = ''/w/link'' then Inr ''/etc/passwd''
     else if node_at d p = None then Inl (io_error Io_NotFound ''No such file or directory (os error 2)'') else Inr p)"

definition shell_paths :: workspace_env where
  "shell_paths = \<lparr>we_canon = outside_canon, we_home = None, we_debug = (\<lambda>s. s)\<rparr>"

abbreviation unasked :: "string \<Rightarrow> bool" where
  "unasked command \<equiv> \<exists>d. shell_admission shell_paths text_json sample_workspace (controller_new Trusted) command tool_disk = (Done (Allowed []), d)"

definition escaped_path :: string where
  "escaped_path = [CHR 0x5C] @ ''/etc/passwd''"

lemma shell_arguments: "validated_invocation text_json s = (if s = [] \<or> max_command_bytes < length s
     then Inl (''command must contain 1..='' @ decimal max_command_bytes @ '' bytes'') else Inr (Foreground s))"
  by (simp add: validated_invocation_def text_field_def validated_command_def string_arg_def text_json_def Let_def)

lemma trusted_controller: "ac_approval_policy (controller_new Trusted) = Trusted"
  by (simp add: controller_new_def controller_with_policy_def)

lemma free_command:
  assumes "is_bounded_read_only_shell_command shell_paths sample_workspace (controller_new Trusted) s tool_disk = (Done True, d)"
    and "s \<noteq> []" and "length s \<le> max_command_bytes" and "ensure_not_denied (shell_action (Foreground s)) (controller_new Trusted) = Inr ()"
  shows "unasked s"
  using assms by (simp add: shell_admission_def shell_arguments reads_only_def trusted_controller ofA_def act_simps)

lemma plain_words:
  "is_read_only_shell_command ''cat a''" "shell_segments ''cat a'' = [''cat a'']" "split_whitespace ''cat a'' = [''cat'', ''a'']"
  "is_read_only_shell_command ''cat link''" "shell_segments ''cat link'' = [''cat link'']" "split_whitespace ''cat link'' = [''cat'', ''link'']"
  "is_read_only_shell_command ''tree -o a''" "shell_segments ''tree -o a'' = [''tree -o a'']"
  "split_whitespace ''tree -o a'' = [''tree'', ''-o'', ''a'']"
  "is_read_only_shell_command (''cat '' @ escaped_path)" "shell_segments (''cat '' @ escaped_path) = [''cat '' @ escaped_path]"
  "split_whitespace (''cat '' @ escaped_path) = [''cat'', escaped_path]"
  "is_read_only_shell_command ''rg -f/etc/passwd x''" "shell_segments ''rg -f/etc/passwd x'' = [''rg -f/etc/passwd x'']"
  "split_whitespace ''rg -f/etc/passwd x'' = [''rg'', ''-f/etc/passwd'', ''x'']"
  by code_simp+

lemma token_shapes:
  "list_all (\<lambda>t. unquote t = t \<and> plain_shell_token t \<and> \<not> shell_token_looks_like_path t) [''cat'', ''a'', ''link'', ''tree'', ''-o'', ''rg'', ''x'']"
  "list_all (\<lambda>t. unquote t = t \<and> plain_shell_token t \<and> shell_token_looks_like_path t) [escaped_path, ''-f/etc/passwd'']"
  by code_simp+

lemma not_denied:
  "list_all (\<lambda>s. ensure_not_denied (shell_action (Foreground s)) (controller_new Trusted) = Inr () \<and> s \<noteq> [])
     [''cat a'', ''cat link'', ''tree -o a'', ''cat '' @ escaped_path, ''rg -f/etc/passwd x'']"
  by code_simp

lemma token_paths:
  "CHR '':'' \<notin> set escaped_path" "Parent_Dir \<notin> set (path_components escaped_path)" "has_git_component escaped_path = False"
  "is_absolute escaped_path = False" "Root_Dir \<notin> set (path_components escaped_path)" "escaped_path \<noteq> []"
  "CHR '':'' \<notin> set ''-f/etc/passwd''" "Parent_Dir \<notin> set (path_components ''-f/etc/passwd'')" "has_git_component ''-f/etc/passwd'' = False"
  "is_absolute ''-f/etc/passwd'' = False" "Root_Dir \<notin> set (path_components ''-f/etc/passwd'')"
  "path_in ''/w'' (path_join ''/w'' escaped_path)" "path_in ''/w'' (path_join ''/w'' ''-f/etc/passwd'')"
  "has_git_component (path_join ''/w'' escaped_path) = False" "has_git_component (path_join ''/w'' ''-f/etc/passwd'') = False"
  "node_at tool_disk (path_join ''/w'' escaped_path) = None" "node_at tool_disk (path_join ''/w'' ''-f/etc/passwd'') = None"
  "path_join ''/w'' escaped_path \<noteq> ''/w/link''" "path_join ''/w'' ''-f/etc/passwd'' \<noteq> ''/w/link''"
  "parent_of (path_join ''/w'' escaped_path) = Some (''/w/'' @ [CHR 0x5C] @ ''/etc'')" "parent_of (path_join ''/w'' ''-f/etc/passwd'') = Some ''/w/-f/etc''"
  "node_at tool_disk (''/w/'' @ [CHR 0x5C] @ ''/etc'') = None" "node_at tool_disk ''/w/-f/etc'' = None"
  by code_simp+

text \<open>A path that does not exist is taken for the name itself, and that lies in the workspace.\<close>

lemma missing_path_readable:
  assumes "unquote t = t" and "CHR '':'' \<notin> set t" and "Parent_Dir \<notin> set (path_components t)" and "has_git_component t = False"
    and "is_absolute t = False" and "Root_Dir \<notin> set (path_components t)" and "t \<noteq> []" and "path_in ''/w'' (path_join ''/w'' t)"
    and "has_git_component (path_join ''/w'' t) = False" and "node_at tool_disk (path_join ''/w'' t) = None"
    and "path_join ''/w'' t \<noteq> ''/w/link''" and "parent_of (path_join ''/w'' t) = Some up" and "node_at tool_disk up = None" and "up \<noteq> ''/w/link''"
  shows "\<exists>d. is_readable_shell_path shell_paths sample_workspace (controller_new Trusted) t tool_disk = (Done True, d)"
  using assms
  by (simp add: is_readable_shell_path_def shell_paths_def candidate_def workspace_candidate_def skill_alias_path_def normalize_path_def
      outside_canon_def ensure_readable_def ensure_inside_def is_write_path_def act_simps)

definition plain_word :: "string \<Rightarrow> bool" where
  "plain_word t \<longleftrightarrow> plain_shell_token (unquote t) \<and> \<not> shell_token_looks_like_path (unquote t)"

lemma plain_word_bounded: "plain_word t \<Longrightarrow> is_bounded_shell_token env ws c t d = (Done True, d)"
  by (simp add: plain_word_def is_bounded_shell_token_def act_simps)

lemma plain_words_sample: "list_all plain_word [''cat'', ''a'', ''link'', ''tree'', ''-o'', ''rg'', ''x'']"
  using token_shapes(1) by (simp add: plain_word_def)

lemma one_segment:
  assumes "is_read_only_shell_command s" and "shell_segments s = [s]" and "split_whitespace s = ts" and "s \<noteq> []"
    and "allA (is_bounded_shell_token env ws c) ts d = (Done True, d')"
  shows "is_bounded_read_only_shell_command env ws c s d = (Done True, d')"
  using assms by (simp add: is_bounded_read_only_shell_command_def act_simps)

lemma plain_command:
  assumes "is_read_only_shell_command s" and "shell_segments s = [s]" and "split_whitespace s = ts" and "list_all plain_word ts"
    and "s \<noteq> []" and "length s \<le> max_command_bytes" and "ensure_not_denied (shell_action (Foreground s)) (controller_new Trusted) = Inr ()"
  shows "unasked s"
proof -
  have "allA (is_bounded_shell_token shell_paths sample_workspace (controller_new Trusted)) ts tool_disk = (Done True, tool_disk)"
    using assms(4) by (induction ts) (simp_all add: plain_word_bounded act_simps)
  from free_command [OF one_segment [OF assms(1-3,5) this]] assms(5-7) show ?thesis by blast
qed


text \<open>A link in the workspace is read through: a bare name is not taken for a path.\<close>

lemma link_out_of_the_workspace_is_read: "unasked ''cat link'' \<and> outside_canon tool_disk ''/w/link'' = Inr ''/etc/passwd''"
proof
  show "unasked ''cat link''"
    by (rule plain_command [OF plain_words(4-6)]) (use plain_words_sample not_denied in \<open>simp_all add: max_command_bytes_def\<close>)
qed (simp add: outside_canon_def)

text \<open>\<open>tree -o a\<close> writes its output to the file \<open>a\<close>.\<close>

lemma tree_writes_a_file_unasked: "unasked ''tree -o a''"
  by (rule plain_command [OF plain_words(7-9)]) (use plain_words_sample not_denied in \<open>simp_all add: max_command_bytes_def\<close>)

text \<open>The shell drops the backslash of \<open>cat \/etc/passwd\<close>; the check takes it for a directory of the workspace.\<close>

lemma path_command:
  assumes "is_read_only_shell_command s" and "shell_segments s = [s]" and "split_whitespace s = first # t # rest" and "s \<noteq> []"
    and "plain_word first" and "list_all plain_word rest" and "unquote t = t" and "plain_shell_token t" and "shell_token_looks_like_path t"
    and "is_readable_shell_path shell_paths sample_workspace (controller_new Trusted) t tool_disk = (Done True, d)"
    and "length s \<le> max_command_bytes" and "ensure_not_denied (shell_action (Foreground s)) (controller_new Trusted) = Inr ()"
  shows "unasked s"
proof -
  have "allA (is_bounded_shell_token shell_paths sample_workspace (controller_new Trusted)) rest d = (Done True, d)"
    using assms(6) by (induction rest) (simp_all add: plain_word_bounded act_simps)
  then have "allA (is_bounded_shell_token shell_paths sample_workspace (controller_new Trusted)) (first # t # rest) tool_disk = (Done True, d)"
    using assms(5,7-10) by (simp add: plain_word_bounded is_bounded_shell_token_def [of _ _ _ t] act_simps)
  from free_command [OF one_segment [OF assms(1-4) this]] assms(4,11,12) show ?thesis by blast
qed

lemma escaped_path_is_unasked: "unasked (''cat '' @ escaped_path)"
proof -
  obtain d where "is_readable_shell_path shell_paths sample_workspace (controller_new Trusted) escaped_path tool_disk = (Done True, d)"
    using missing_path_readable [of escaped_path "''/w/'' @ [CHR 0x5C] @ ''/etc''"] token_shapes(2) token_paths by auto
  then show ?thesis
    by (intro path_command [OF plain_words(10-12)])
      (use plain_words_sample not_denied token_shapes(2) in \<open>simp_all add: max_command_bytes_def\<close>, simp add: escaped_path_def)
qed

text \<open>An option with its value attached, \<open>rg -f/etc/passwd\<close>, is taken for a path inside the workspace.\<close>

lemma attached_path_is_unasked: "unasked ''rg -f/etc/passwd x''"
proof -
  obtain d where "is_readable_shell_path shell_paths sample_workspace (controller_new Trusted) ''-f/etc/passwd'' tool_disk = (Done True, d)"
    using missing_path_readable [of "''-f/etc/passwd''" "''/w/-f/etc''"] token_shapes(2) token_paths by auto
  then show ?thesis
    by (intro path_command [OF plain_words(13-15)])
      (use plain_words_sample not_denied token_shapes(2) in \<open>simp_all add: max_command_bytes_def\<close>)
qed

text \<open>
  The quotes around the program are dropped before it is looked up, those around an option are not:
  \<open>fd "-x" rm\<close>, which runs \<open>rm\<close> on every file it finds, needs no approval.
\<close>

definition quoted_exec :: string where
  "quoted_exec = ''fd '' @ [CHR 0x22] @ ''-x'' @ [CHR 0x22] @ '' rm''"

lemma quoted_words:
  "is_read_only_shell_command quoted_exec" "shell_segments quoted_exec = [quoted_exec]"
  "split_whitespace quoted_exec = [''fd'', [CHR 0x22] @ ''-x'' @ [CHR 0x22], ''rm'']"
  "list_all plain_word [''fd'', [CHR 0x22] @ ''-x'' @ [CHR 0x22], ''rm'']"
  "ensure_not_denied (shell_action (Foreground quoted_exec)) (controller_new Trusted) = Inr ()"
  "\<not> is_read_only_shell_command ''fd -x rm''"
  by code_simp+

lemma quoted_option_is_unasked: "unasked quoted_exec \<and> \<not> is_read_only_shell_command ''fd -x rm''"
  using plain_command [OF quoted_words(1-4) _ _ quoted_words(5)] quoted_words(6)
  by (simp add: max_command_bytes_def) (simp add: quoted_exec_def)


end
