(* ===== verification/Web_Address.thy ===== *)
theory Web_Address
  imports Str_Split "HOL-Library.Word"
begin

section \<open>Which targets may be fetched (web.rs)\<close>

text \<open>
  Addresses, as \<open>std::net\<close> parses them, and their classes: public, loopback, or refused.  An IPv4
  address is its four octets and an IPv6 address its eight segments.  The table of refused IPv4
  networks is written once more as the prefixes of the registry of special-purpose addresses, and the
  octet tests of the code are shown to be that table.
\<close>

unbundle bit_operations_syntax

datatype ip_addr = V4 "8 word" "8 word" "8 word" "8 word" | V6 "16 word list"

datatype target_class = Public | Loopback

subsection \<open>Parsing an address (\<open>std::net\<close>)\<close>

text \<open>The value of a digit in a radix, upper or lower case.\<close>

definition to_digit :: "nat \<Rightarrow> char \<Rightarrow> nat option" where
  "to_digit radix c =
    (let d = (if 0x30 \<le> bv c \<and> bv c \<le> 0x39 then Some (bv c - 0x30)
              else if 0x41 \<le> bv c \<and> bv c \<le> 0x5A then Some (bv c - 0x41 + 10)
              else if 0x61 \<le> bv c \<and> bv c \<le> 0x7A then Some (bv c - 0x61 + 10) else None) in
     case d of Some v \<Rightarrow> if v < radix then Some v else None | None \<Rightarrow> None)"

fun read_digits :: "nat \<Rightarrow> string \<Rightarrow> nat list \<times> string" where
  "read_digits radix [] = ([], [])"
| "read_digits radix (c # s) = (case to_digit radix c of
     None \<Rightarrow> ([], c # s)
   | Some d \<Rightarrow> (case read_digits radix s of (ds, r) \<Rightarrow> (d # ds, r)))"

definition digits_number :: "nat \<Rightarrow> nat list \<Rightarrow> nat" where
  "digits_number radix ds = foldl (\<lambda>n d. radix * n + d) 0 ds"

text \<open>\<open>Parser::read_number\<close>: at most \<open>max_digits\<close> digits, a value below \<open>bound\<close>.\<close>

definition read_number :: "nat \<Rightarrow> nat \<Rightarrow> bool \<Rightarrow> nat \<Rightarrow> string \<Rightarrow> (nat \<times> string) option" where
  "read_number radix max_digits allow_zero_prefix bound s = (case read_digits radix s of (ds, r) \<Rightarrow>
     if ds = [] \<or> max_digits < length ds then None
     else if \<not> allow_zero_prefix \<and> hd ds = 0 \<and> 1 < length ds then None
     else if bound \<le> digits_number radix ds then None
     else Some (digits_number radix ds, r))"

text \<open>\<open>Parser::read_separator\<close>: the separator before every item but the first.\<close>

definition read_separator :: "char \<Rightarrow> nat \<Rightarrow> string \<Rightarrow> string option" where
  "read_separator sep i s = (if i = 0 then Some s
     else (case s of c # r \<Rightarrow> if c = sep then Some r else None | [] \<Rightarrow> None))"

definition read_octet :: "nat \<Rightarrow> string \<Rightarrow> (8 word \<times> string) option" where
  "read_octet i s = Option.bind (read_separator (CHR ''.'') i s)
     (\<lambda>r. map_option (apfst of_nat) (read_number 10 3 False 256 r))"

definition read_ipv4_addr :: "string \<Rightarrow> ((8 word \<times> 8 word \<times> 8 word \<times> 8 word) \<times> string) option" where
  "read_ipv4_addr s =
    Option.bind (read_octet 0 s) (\<lambda>(a, s1). Option.bind (read_octet 1 s1) (\<lambda>(b, s2).
    Option.bind (read_octet 2 s2) (\<lambda>(c, s3). Option.bind (read_octet 3 s3) (\<lambda>(d, s4).
    Some ((a, b, c, d), s4)))))"

definition from_be_bytes :: "8 word \<Rightarrow> 8 word \<Rightarrow> 16 word" where
  "from_be_bytes a b = push_bit 8 (ucast a) OR ucast b"

text \<open>
  \<open>read_groups\<close>: up to \<open>left\<close> groups, the last two of which an embedded IPv4 address may stand for;
  the groups read, whether they end in such an address, and the rest of the text.
\<close>

fun read_groups :: "nat \<Rightarrow> nat \<Rightarrow> string \<Rightarrow> 16 word list \<times> bool \<times> string" where
  "read_groups i 0 s = ([], False, s)"
| "read_groups i (Suc left) s =
    (case (if 0 < left then Option.bind (read_separator (CHR '':'') i s) read_ipv4_addr else None) of
       Some ((a, b, c, d), r) \<Rightarrow> ([from_be_bytes a b, from_be_bytes c d], True, r)
     | None \<Rightarrow> (case Option.bind (read_separator (CHR '':'') i s) (read_number 16 4 True 65536) of
         Some (g, r) \<Rightarrow> (case read_groups (Suc i) left r of (gs, v4, r') \<Rightarrow> (of_nat g # gs, v4, r'))
       | None \<Rightarrow> ([], False, s)))"

definition read_ipv6_addr :: "string \<Rightarrow> (16 word list \<times> string) option" where
  "read_ipv6_addr s = (case read_groups 0 8 s of (head, head_ipv4, r) \<Rightarrow>
     if length head = 8 then Some (head, r)
     else if head_ipv4 then None
     else (case strip_prefix ''::'' r of
         None \<Rightarrow> None
       | Some r' \<Rightarrow> (case read_groups 0 (8 - (length head + 1)) r' of (tail, _, r'') \<Rightarrow>
           Some (head @ replicate (8 - length head - length tail) 0 @ tail, r''))))"

definition parse_ip :: "string \<Rightarrow> ip_addr option" where
  "parse_ip s = (case (case read_ipv4_addr s of
       Some ((a, b, c, d), r) \<Rightarrow> Some (V4 a b c d, r)
     | None \<Rightarrow> map_option (apfst V6) (read_ipv6_addr s)) of
     Some (ip, []) \<Rightarrow> Some ip
   | _ \<Rightarrow> None)"

definition parse_host_ip :: "string \<Rightarrow> ip_addr option" where
  "parse_host_ip host = (case parse_ip host of
     Some ip \<Rightarrow> Some ip
   | None \<Rightarrow> Option.bind (strip_prefix ''['' host) (\<lambda>h. Option.bind (strip_suffix '']'' h) parse_ip))"

subsection \<open>Classes of addresses and names\<close>

definition ipv4_blocked :: "8 word \<Rightarrow> 8 word \<Rightarrow> 8 word \<Rightarrow> 8 word \<Rightarrow> bool" where
  "ipv4_blocked a b c d \<longleftrightarrow>
     (a = 0 \<or> a = 10 \<or> 224 \<le> a)
   \<or> (a = 100 \<and> b AND 0xC0 = 64)
   \<or> (a = 169 \<and> b = 254)
   \<or> (a = 172 \<and> b AND 0xF0 = 16)
   \<or> (a = 192 \<and> b = 168)
   \<or> (a = 192 \<and> b = 0 \<and> (c = 0 \<or> c = 2))
   \<or> (a = 192 \<and> b = 88 \<and> c = 99)
   \<or> (a = 198 \<and> (b = 18 \<or> b = 19))
   \<or> (a = 198 \<and> b = 51 \<and> c = 100)
   \<or> (a = 203 \<and> b = 0 \<and> c = 113)"

definition not_public :: string where
  "not_public = ''url is not a public internet address''"

definition classify_ipv4 :: "8 word \<Rightarrow> 8 word \<Rightarrow> 8 word \<Rightarrow> 8 word \<Rightarrow> string + target_class" where
  "classify_ipv4 a b c d = (if a = 127 then Inr Loopback
     else if ipv4_blocked a b c d then Inl not_public else Inr Public)"

text \<open>\<open>Ipv6Addr::to_ipv4_mapped\<close>: the addresses \<open>::ffff:a.b.c.d\<close>.\<close>

definition to_ipv4_mapped :: "16 word list \<Rightarrow> (8 word \<times> 8 word \<times> 8 word \<times> 8 word) option" where
  "to_ipv4_mapped g = (if take 6 g = [0, 0, 0, 0, 0, 0xFFFF]
     then Some (ucast (drop_bit 8 (g ! 6)), ucast (g ! 6), ucast (drop_bit 8 (g ! 7)), ucast (g ! 7)) else None)"

definition classify_ipv6 :: "16 word list \<Rightarrow> string + target_class" where
  "classify_ipv6 g = (case to_ipv4_mapped g of
     Some (a, b, c, d) \<Rightarrow> classify_ipv4 a b c d
   | None \<Rightarrow>
       if g = [0, 0, 0, 0, 0, 0, 0, 1] then Inr Loopback
       else if g = replicate 8 0 \<or> drop_bit 8 (g ! 0) = 0xFF \<or> g ! 0 AND 0xFFC0 = 0xFE80 \<or> g ! 0 AND 0xFE00 = 0xFC00
         \<or> (g ! 0 = 0x2001 \<and> g ! 1 = 0x0DB8) \<or> g ! 0 = 0x2002
       then Inl not_public else Inr Public)"

definition classify_ip :: "ip_addr \<Rightarrow> string + target_class" where
  "classify_ip ip = (case ip of V4 a b c d \<Rightarrow> classify_ipv4 a b c d | V6 g \<Rightarrow> classify_ipv6 g)"

definition trim_end_dots :: "string \<Rightarrow> string" where
  "trim_end_dots s = rev (dropWhile (\<lambda>c. c = CHR ''.'') (rev s))"

definition private_suffixes :: "string list" where
  "private_suffixes = [''.local'', ''.internal'', ''.intranet'', ''.private'', ''.lan'', ''.home'', ''.corp'']"

definition classify_domain :: "string \<Rightarrow> string + target_class" where
  "classify_domain raw = (let host = to_ascii_lowercase (trim_end_dots raw) in
     if host = [] then Inl ''url is missing a host''
     else if host = ''localhost'' \<or> ends_with ''.localhost'' host then Inr Loopback
     else if \<not> contains_sub ''.'' host then Inl ''url host is not a public DNS name''
     else if list_ex (\<lambda>suffix. ends_with suffix host) private_suffixes
     then Inl ''non-public hostnames are not allowed''
     else Inr Public)"

definition classify_host :: "string \<Rightarrow> string + target_class" where
  "classify_host host = (case parse_host_ip host of Some ip \<Rightarrow> classify_ip ip | None \<Rightarrow> classify_domain host)"

definition is_clash_fake_ip :: "ip_addr \<Rightarrow> bool" where
  "is_clash_fake_ip ip = (case ip of V4 a b _ _ \<Rightarrow> a = 198 \<and> (b = 18 \<or> b = 19) | V6 _ \<Rightarrow> False)"

subsection \<open>The table of special-purpose networks\<close>

text \<open>
  The reference: a network is an address and a prefix length, as in the registry of special-purpose
  IPv4 addresses.
\<close>

definition ipv4_value :: "nat \<Rightarrow> nat \<Rightarrow> nat \<Rightarrow> nat \<Rightarrow> nat" where
  "ipv4_value a b c d = ((a * 256 + b) * 256 + c) * 256 + d"

definition in_network :: "nat \<Rightarrow> nat \<times> nat \<Rightarrow> bool" where
  "in_network v n \<longleftrightarrow> v div 2 ^ (32 - snd n) = fst n div 2 ^ (32 - snd n)"

definition special_networks :: "(nat \<times> nat) list" where
  "special_networks =
    [(ipv4_value 0 0 0 0, 8), (ipv4_value 10 0 0 0, 8), (ipv4_value 224 0 0 0, 4), (ipv4_value 240 0 0 0, 4),
     (ipv4_value 100 64 0 0, 10), (ipv4_value 169 254 0 0, 16), (ipv4_value 172 16 0 0, 12),
     (ipv4_value 192 168 0 0, 16), (ipv4_value 192 0 0 0, 24), (ipv4_value 192 0 2 0, 24), (ipv4_value 192 88 99 0, 24),
     (ipv4_value 198 18 0 0, 15), (ipv4_value 198 51 100 0, 24), (ipv4_value 203 0 113 0, 24)]"

definition special_address :: "nat \<Rightarrow> bool" where
  "special_address v \<longleftrightarrow> list_ex (in_network v) special_networks"

definition loopback_network :: "nat \<times> nat" where
  "loopback_network = (ipv4_value 127 0 0 0, 8)"

lemma octet_bound: "unat (x :: 8 word) < 256"
  using unsigned_less [of x, where ?'a = nat] by simp

lemma octet_eq: "(x :: 8 word) = numeral n \<longleftrightarrow> unat x = numeral n" if "(numeral n :: nat) < 256"
proof -
  have "numeral n mod (2 :: nat) ^ LENGTH(8) = numeral n" by (rule mod_less) (use that in simp)
  then show ?thesis by (simp only: word_unat_eq_iff unat_numeral)
qed

lemma bits_of_octet:
  "(\<forall>n<8. P n) \<longleftrightarrow> P 0 \<and> P 1 \<and> P 2 \<and> P 3 \<and> P 4 \<and> P 5 \<and> P 6 \<and> P (7 :: nat)"
  by (simp add: numeral_eq_Suc All_less_Suc) blast

lemma octet_eq_bits: "x = y \<longleftrightarrow> (\<forall>n<8. bit x n = bit y n)" for x y :: "8 word"
  by (auto intro: bit_word_eqI)

lemma octet_prefix_bits:
  "(x :: 8 word) AND 0xC0 = 64 \<longleftrightarrow> drop_bit 6 x = 1"
  "(x :: 8 word) AND 0xF0 = 16 \<longleftrightarrow> drop_bit 4 x = 1"
  using bit_imp_le_length [of x 8] bit_imp_le_length [of x 9] bit_imp_le_length [of x 10] bit_imp_le_length [of x 11]
    bit_imp_le_length [of x 12] bit_imp_le_length [of x 13]
  by (auto simp: octet_eq_bits bits_of_octet bit_simps)

lemma octet_prefix:
  "(x :: 8 word) AND 0xC0 = 64 \<longleftrightarrow> unat x div 64 = 1"
  "(x :: 8 word) AND 0xF0 = 16 \<longleftrightarrow> unat x div 16 = 1"
  unfolding octet_prefix_bits by (simp_all add: word_unat_eq_iff drop_bit_eq_div unat_div_distrib)

text \<open>The leading bits of an address, octet by octet.\<close>

lemma ipv4_value_div:
  assumes "B < 256" "C < 256" "D < 256"
  shows "ipv4_value A B C D div 16777216 = A" "ipv4_value A B C D div 65536 = A * 256 + B"
    "ipv4_value A B C D div 256 = (A * 256 + B) * 256 + C" "ipv4_value A B C D div 4194304 = A * 4 + B div 64"
    "ipv4_value A B C D div 1048576 = A * 16 + B div 16" "ipv4_value A B C D div 131072 = A * 128 + B div 2"
    "ipv4_value A B C D div 268435456 = A div 16"
  using assms by (simp_all add: ipv4_value_def)

lemma base_eq: "A * K + B = A' * K + B' \<longleftrightarrow> A = A' \<and> B = B'" if "B < K" "B' < K" for A B K :: nat
proof
  assume "A * K + B = A' * K + B'"
  then have "(A * K + B) div K = (A' * K + B') div K" "(A * K + B) mod K = (A' * K + B') mod K" by simp_all
  with that show "A = A' \<and> B = B'" by simp
qed simp

text \<open>What it means to lie in a network of each of the prefix lengths of the table.\<close>

lemma in_network_prefix:
  assumes "B < 256" "C < 256" "D < 256" "B' < 256" "C' < 256" "D' < 256"
  shows "in_network (ipv4_value A B C D) (ipv4_value A' B' C' D', 4) \<longleftrightarrow> A div 16 = A' div 16"
    "in_network (ipv4_value A B C D) (ipv4_value A' B' C' D', 8) \<longleftrightarrow> A = A'"
    "in_network (ipv4_value A B C D) (ipv4_value A' B' C' D', 10) \<longleftrightarrow> A = A' \<and> B div 64 = B' div 64"
    "in_network (ipv4_value A B C D) (ipv4_value A' B' C' D', 12) \<longleftrightarrow> A = A' \<and> B div 16 = B' div 16"
    "in_network (ipv4_value A B C D) (ipv4_value A' B' C' D', 15) \<longleftrightarrow> A = A' \<and> B div 2 = B' div 2"
    "in_network (ipv4_value A B C D) (ipv4_value A' B' C' D', 16) \<longleftrightarrow> A = A' \<and> B = B'"
    "in_network (ipv4_value A B C D) (ipv4_value A' B' C' D', 24) \<longleftrightarrow> A = A' \<and> B = B' \<and> C = C'"
  using assms base_eq [of "B div 64" 4 "B' div 64" A A'] base_eq [of "B div 16" 16 "B' div 16" A A']
    base_eq [of "B div 2" 128 "B' div 2" A A'] base_eq [of B 256 B' A A']
    base_eq [of C 256 C' "A * 256 + B" "A' * 256 + B'"]
  by (simp_all add: in_network_def ipv4_value_div)

lemma special_address_iff:
  assumes "B < 256" "C < 256" "D < 256"
  shows "special_address (ipv4_value A B C D) \<longleftrightarrow>
      A = 0 \<or> A = 10 \<or> A div 16 = 14 \<or> A div 16 = 15 \<or> (A = 100 \<and> B div 64 = 1)
    \<or> (A = 169 \<and> B = 254) \<or> (A = 172 \<and> B div 16 = 1) \<or> (A = 192 \<and> B = 168)
    \<or> (A = 192 \<and> B = 0 \<and> C = 0) \<or> (A = 192 \<and> B = 0 \<and> C = 2) \<or> (A = 192 \<and> B = 88 \<and> C = 99)
    \<or> (A = 198 \<and> B div 2 = 9) \<or> (A = 198 \<and> B = 51 \<and> C = 100) \<or> (A = 203 \<and> B = 0 \<and> C = 113)"
  by (simp add: special_address_def special_networks_def in_network_prefix assms)

lemma ipv4_blocked_iff:
  fixes a b c d :: "8 word"
  shows "ipv4_blocked a b c d \<longleftrightarrow> special_address (ipv4_value (unat a) (unat b) (unat c) (unat d))"
proof -
  have ge: "224 \<le> a \<longleftrightarrow> unat a div 16 = 14 \<or> unat a div 16 = 15"
    using octet_bound [of a] by (simp add: word_le_nat_alt) linarith
  have two: "unat b div 2 = 9 \<longleftrightarrow> unat b = 18 \<or> unat b = 19" by linarith
  show ?thesis
    unfolding ipv4_blocked_def special_address_iff [OF octet_bound octet_bound octet_bound] ge two octet_prefix
    by (simp add: octet_eq unat_eq_zero conj_disj_distribL disj_assoc)
qed

lemma loopback_network_iff:
  fixes a b c d :: "8 word"
  shows "in_network (ipv4_value (unat a) (unat b) (unat c) (unat d)) loopback_network \<longleftrightarrow> a = 127"
  by (simp add: loopback_network_def in_network_prefix octet_bound octet_eq)

text \<open>
  C39. The octet tests of \<open>classify_ipv4\<close> are the registry's table: an IPv4 address is loopback exactly
  when it lies in 127.0.0.0/8, is refused exactly when it lies in one of the fourteen other
  special-purpose networks, and is public otherwise.
\<close>

theorem ipv4_classes_are_the_networks:
  "classify_ip (V4 a b c d) =
     (let v = ipv4_value (unat a) (unat b) (unat c) (unat d) in
      if in_network v loopback_network then Inr Loopback
      else if special_address v then Inl not_public else Inr Public)"
  by (simp add: classify_ip_def classify_ipv4_def Let_def loopback_network_iff ipv4_blocked_iff)

end
