(* ===== verification/Web_Text.thy ===== *)
theory Web_Text
  imports Str_Split
begin

section \<open>The text of a fetched page (web.rs)\<close>

text \<open>
  What a fetched body becomes: its media type, the title of an HTML page with its entities decoded,
  the plain text with its white space collapsed, and the bounds on both.  The conversion of HTML to
  Markdown is a library's, the parameter \<open>convert\<close>.
\<close>

subsection \<open>Data\<close>

definition max_fetch_title_chars :: nat where "max_fetch_title_chars = 256"
definition max_fetch_source_bytes :: nat where "max_fetch_source_bytes = 8 * 1024 * 1024"
definition max_extract_chars :: nat where "max_extract_chars = max_fetch_source_bytes"

record fetched_page =
  fp_final_url :: string
  fp_status :: nat
  fp_content_type :: string
  fp_body :: string

subsection \<open>Characters\<close>

text \<open>\<open>chars().count()\<close>: the bytes that begin a character.\<close>

definition char_count :: "string \<Rightarrow> nat" where
  "char_count s = length (filter (\<lambda>c. \<not> cont_byte c) s)"

definition ellipsis :: string where
  "ellipsis = map char_of [0xE2, 0x80, 0xA6 :: nat]"

definition truncate_chars :: "string \<Rightarrow> nat \<Rightarrow> string" where
  "truncate_chars text max_chars = (if char_count text \<le> max_chars then text
     else take_chars (max_chars - 1) text @ ellipsis)"

text \<open>\<open>char::from_u32\<close>, with the bytes of the character.\<close>

definition char_from_u32 :: "nat \<Rightarrow> string option" where
  "char_from_u32 n =
    (if n < 0x80 then Some (map char_of [n])
     else if n < 0x800 then Some (map char_of [0xC0 + n div 64, 0x80 + n mod 64])
     else if 0xD800 \<le> n \<and> n \<le> 0xDFFF then None
     else if n < 0x10000 then Some (map char_of [0xE0 + n div 4096, 0x80 + n div 64 mod 64, 0x80 + n mod 64])
     else if n < 0x110000 then Some (map char_of
       [0xF0 + n div 262144, 0x80 + n div 4096 mod 64, 0x80 + n div 64 mod 64, 0x80 + n mod 64])
     else None)"

definition hex_digit_value :: "char \<Rightarrow> nat option" where
  "hex_digit_value c =
    (if 0x30 \<le> bv c \<and> bv c \<le> 0x39 then Some (bv c - 0x30)
     else if 0x41 \<le> bv c \<and> bv c \<le> 0x46 then Some (bv c - 0x41 + 10)
     else if 0x61 \<le> bv c \<and> bv c \<le> 0x66 then Some (bv c - 0x61 + 10) else None)"

text \<open>\<open>u32::from_str_radix\<close>: a plus sign is allowed, a minus sign and overflow are not.\<close>

definition u32_from_str_radix :: "nat \<Rightarrow> string \<Rightarrow> nat option" where
  "u32_from_str_radix radix s =
    (let digits = (case s of c # cs \<Rightarrow> if c = CHR ''+'' then cs else s | [] \<Rightarrow> s);
         values = map hex_digit_value digits;
         n = foldl (\<lambda>n v. radix * n + (case v of Some d \<Rightarrow> d | None \<Rightarrow> 0)) 0 values in
     if digits = [] \<or> \<not> list_all (\<lambda>v. case v of Some d \<Rightarrow> d < radix | None \<Rightarrow> False) values \<or> 2 ^ 32 \<le> n
     then None else Some n)"

subsection \<open>Entities, tags and white space\<close>

definition decode_numeric_entity :: "string \<Rightarrow> string option" where
  "decode_numeric_entity entity =
    (case (case strip_prefix ''#x'' entity of Some d \<Rightarrow> Some d | None \<Rightarrow> strip_prefix ''#X'' entity) of
       Some digits \<Rightarrow> Option.bind (u32_from_str_radix 16 digits) char_from_u32
     | None \<Rightarrow> Option.bind (strip_prefix ''#'' entity) (\<lambda>digits. Option.bind (u32_from_str_radix 10 digits) char_from_u32))"

definition decode_entity :: "string \<Rightarrow> string option" where
  "decode_entity entity =
    (if entity = ''amp'' then Some ''&'' else if entity = ''lt'' then Some ''<'' else if entity = ''gt'' then Some ''>''
     else if entity = ''quot'' then Some [CHR 0x22] else if entity = ''apos'' \<or> entity = ''#39'' then Some [CHR 0x27]
     else if entity = ''nbsp'' then Some '' '' else decode_numeric_entity entity)"

function decode_entities :: "string \<Rightarrow> string" where
  "decode_entities text = (case split_once ''&'' text of
     None \<Rightarrow> text
   | Some (before, rest) \<Rightarrow> (case split_once '';'' rest of
       None \<Rightarrow> before @ ''&'' @ rest
     | Some (entity, after) \<Rightarrow> before @ (case decode_entity entity of
           Some decoded \<Rightarrow> decoded
         | None \<Rightarrow> ''&'' @ entity @ '';'') @ decode_entities after))"
  by pat_completeness auto
termination
  by (relation "measure length") (auto dest!: split_once_SomeD)

declare decode_entities.simps [simp del]

fun strip_tags_from :: "bool \<Rightarrow> string \<Rightarrow> string" where
  "strip_tags_from in_tag [] = []"
| "strip_tags_from in_tag (c # s) =
    (if c = CHR ''<'' then strip_tags_from True s
     else if c = CHR ''>'' then strip_tags_from False s
     else if in_tag then strip_tags_from in_tag s else c # strip_tags_from in_tag s)"

definition strip_tags :: "string \<Rightarrow> string" where
  "strip_tags html = strip_tags_from False html"

definition collapse_ws :: "string \<Rightarrow> string" where
  "collapse_ws text = foldl (\<lambda>out word. (if out = [] then [] else out @ '' '') @ word) [] (split_whitespace text)"

text \<open>The markup between the first opening tag of a name and the closing tag after it.\<close>

definition inner_markup :: "string \<Rightarrow> string \<Rightarrow> string option" where
  "inner_markup html tag =
    (let lower = to_ascii_lowercase html; open_tag = ''<'' @ tag; close_tag = ''</'' @ tag @ ''>'' in
     Option.bind (find_sub open_tag lower) (\<lambda>start. let after_open = start + length open_tag in
     Option.bind (find_sub ''>'' (drop after_open html)) (\<lambda>tag_end. let inner_at = after_open + tag_end + 1 in
     map_option (\<lambda>stop. take stop (drop inner_at html)) (find_sub close_tag (drop inner_at lower)))))"

definition inner_text :: "string \<Rightarrow> string \<Rightarrow> string option" where
  "inner_text html tag = Option.bind (inner_markup html tag) (\<lambda>markup.
     let text = collapse_ws (decode_entities (strip_tags markup)) in if text = [] then None else Some text)"

subsection \<open>Media types\<close>

definition mime_type :: "string \<Rightarrow> string" where
  "mime_type content_type = trim (hd (split_on (CHR '';'') content_type))"

definition is_textual :: "string \<Rightarrow> bool" where
  "is_textual raw \<longleftrightarrow> (let mime = to_ascii_lowercase raw in
     mime = [] \<or> starts_with ''text/'' mime \<or> mime = ''application/json'' \<or> ends_with ''+json'' mime
     \<or> mime = ''application/javascript'' \<or> mime = ''application/xml'' \<or> ends_with ''+xml'' mime
     \<or> mime = ''application/xhtml+xml'')"

definition looks_like_html :: "string \<Rightarrow> bool" where
  "looks_like_html body \<longleftrightarrow> (let trimmed = trim_start body in
     if length trimmed < 5 \<or> \<not> is_char_boundary trimmed 5 then False
     else to_ascii_lowercase (take 5 trimmed) \<in> {''<html'', ''<!doc'', ''<head'', ''<body''})"

definition is_html :: "string \<Rightarrow> string \<Rightarrow> bool" where
  "is_html raw body \<longleftrightarrow> (let mime = to_ascii_lowercase raw in
     contains_sub ''html'' mime \<or> (mime = [] \<and> looks_like_html body))"

text \<open>
  \<open>is_weak_html\<close> compares the quotient of two lengths, rounded to \<open>f32\<close>, with the \<open>f32\<close> nearest 0.02,
  which is 10737418 / 2 ^ 29.  The lengths are at most 2 ^ 23 and so exact, and the neighbours of the
  constant are 2 ^ -29 apart, so the rounded quotient is below the constant exactly when the quotient is
  below the midpoint 21474835 / 2 ^ 30 (the midpoint itself rounds to the even constant).
\<close>

definition density_is_low :: "string \<Rightarrow> string \<Rightarrow> bool" where
  "density_is_low text html \<longleftrightarrow> html \<noteq> [] \<and> length text * 2 ^ 30 < 21474835 * length html"

definition is_weak_html :: "string \<Rightarrow> string \<Rightarrow> bool" where
  "is_weak_html html text \<longleftrightarrow>
    (let lower = to_ascii_lowercase html;
         js_required = contains_sub ''enable javascript'' lower \<or> contains_sub ''javascript required'' lower
           \<or> contains_sub ''please turn on javascript'' lower;
         chars = char_count text in
     chars < 40 \<or> (chars < 120 \<and> (js_required \<or> density_is_low text html)))"

subsection \<open>The parts of a page\<close>

text \<open>\<open>HtmlToMarkdown::convert\<close> without script, style, noscript, svg and template elements.\<close>

type_synonym html_converter = "string \<Rightarrow> string option"

definition html_to_markdown :: "html_converter \<Rightarrow> string \<Rightarrow> string" where
  "html_to_markdown convert html =
    truncate_chars (trim (case convert html of Some t \<Rightarrow> t | None \<Rightarrow> [])) max_extract_chars"

definition extract_html :: "html_converter \<Rightarrow> string \<Rightarrow> string option \<times> string \<times> bool" where
  "extract_html convert html = (let text = html_to_markdown convert html in
     (inner_text html ''title'', text, is_weak_html html text))"

definition javascript_warning :: string where
  "javascript_warning = ''page may require JavaScript; this tool does not execute JavaScript''"

definition rendered_parts :: "html_converter \<Rightarrow> fetched_page \<Rightarrow> string option \<times> string \<times> string option" where
  "rendered_parts convert page =
    (let mime = mime_type (fp_content_type page) in
     if \<not> is_textual mime
     then (None, [], Some (''non-text content type `'' @ mime @ ''` is not fetched as a body''))
     else (case (if is_html mime (fp_body page) then extract_html convert (fp_body page)
                 else (None, truncate_chars (collapse_ws (fp_body page)) max_extract_chars, False)) of
       (title, text, weak) \<Rightarrow>
         (case title of
            Some t \<Rightarrow> if t = [] then None else Some (truncate_chars t max_fetch_title_chars)
          | None \<Rightarrow> None,
          text, if weak then Some javascript_warning else None)))"

end
