(* ===== verification/Web_Fetch.thy ===== *)
theory Web_Fetch
  imports Web_Address Web_Text File_Tools
begin

section \<open>The tool \<open>web_fetch\<close> (web.rs)\<close>

text \<open>
  Classifying a URL, choosing the endpoint a request may connect to, the request with its redirects and
  bounds, and the tool around it: its admission, the page it shows and the continuation of a retained
  page.  The URL parser, the resolver of names, the HTTP client and the HTML converter are libraries:
  the record \<open>web_env\<close> holds them, with a log of what the client did.
\<close>

subsection \<open>Parameters\<close>

text \<open>What the code uses of \<open>reqwest::Url\<close>.\<close>

record 'u url_api =
  ua_parse :: "string \<Rightarrow> string + 'u"
  ua_text :: "'u \<Rightarrow> string"
  ua_scheme :: "'u \<Rightarrow> string"
  ua_username :: "'u \<Rightarrow> string"
  ua_password :: "'u \<Rightarrow> string option"
  ua_host :: "'u \<Rightarrow> string option"
  ua_port_or_known_default :: "'u \<Rightarrow> nat option"

text \<open>
  A client is configured with whether proxies of the environment are ignored, the address a name is pinned
  to, and the redirect policy, which is shown the URLs requested before and the next one.  The client
  reports every request it made, each with the endpoint it connected to.
\<close>

datatype fetch_endpoint = Direct ip_addr | Via_proxy

record 'u client_config =
  cl_no_proxy :: bool
  cl_resolve :: "(string \<times> ip_addr) option"
  cl_policy :: "'u list \<Rightarrow> 'u \<Rightarrow> string + unit"
  cl_timeout_secs :: nat
  cl_user_agent :: string
  cl_accept :: string

record 'u http_response =
  hr_url :: 'u
  hr_status :: nat
  hr_content_type :: "string option"
  hr_content_length :: "nat option"
  hr_chunks :: "(string + string) list"

text \<open>\<open>send\<close> fails with a text and whether a redirect was refused.\<close>

type_synonym 'u http_client =
  "'u client_config \<Rightarrow> 'u \<Rightarrow> ((string \<times> bool) + 'u http_response) \<times> ('u \<times> fetch_endpoint) list"

record proxy_environment =
  pe_all :: "string option"
  pe_http :: "string option"
  pe_https :: "string option"
  pe_no_proxy :: "string option"
  pe_cgi :: bool

record 'u web_env =
  we_url :: "'u url_api"
  we_show_ip :: "ip_addr \<Rightarrow> string"
  we_lookup :: "string \<Rightarrow> nat \<Rightarrow> string + ip_addr list"
  we_env_var :: "string \<Rightarrow> string option"
  we_build_error :: "string option"
  we_start_error :: "string option"
  we_client :: "'u http_client"
  we_convert :: html_converter

datatype fetch_error = Fetch_Failed string | Fetch_Retryable string

definition max_url_bytes :: nat where "max_url_bytes = 2000"
definition max_redirects :: nat where "max_redirects = 5"
definition fetch_timeout_secs :: nat where "fetch_timeout_secs = 15"
definition inline_fetch_output_bytes :: nat where "inline_fetch_output_bytes = 8 * 1024"

subsection \<open>Classifying a URL\<close>

definition classify_url :: "'u url_api \<Rightarrow> string \<Rightarrow> string + 'u \<times> target_class" where
  "classify_url ua raw =
    (if raw = [] then Inl ''url must not be empty''
     else if max_url_bytes < length raw then Inl (''url exceeds '' @ decimal max_url_bytes @ '' byte limit'')
     else if list_ex (\<lambda>b. bv b < 0x20 \<or> bv b = 0x7F) raw then Inl ''url contains control characters''
     else (case ua_parse ua raw of
       Inl err \<Rightarrow> Inl (''invalid url: '' @ err)
     | Inr url \<Rightarrow>
         if ua_scheme ua url \<noteq> ''http'' \<and> ua_scheme ua url \<noteq> ''https''
         then Inl ''only http and https URLs are supported''
         else if ua_username ua url \<noteq> [] \<or> ua_password ua url \<noteq> None
         then Inl ''credentialed URLs are not allowed''
         else (case ua_host ua url of
             None \<Rightarrow> Inl ''url is missing a host''
           | Some host \<Rightarrow> (case classify_host host of
               Inl err \<Rightarrow> Inl err
             | Inr class \<Rightarrow> Inr (url, class)))))"

definition same_class_redirect :: "'u url_api \<Rightarrow> target_class \<Rightarrow> string \<Rightarrow> string \<Rightarrow> string + 'u" where
  "same_class_redirect ua from_class origin_host location = (case classify_url ua location of
     Inl err \<Rightarrow> Inl err
   | Inr (url, class) \<Rightarrow>
       if (case ua_host ua url of None \<Rightarrow> True | Some host \<Rightarrow> \<not> eq_ignore_ascii_case host origin_host)
       then Inl ''redirect to a different host is not allowed''
       else if class \<noteq> from_class then Inl ''redirect changed address class (public and loopback cannot mix)''
       else Inr url)"

subsection \<open>Endpoints and proxies\<close>

datatype endpoint_resolution = Pinned ip_addr | ProxyResolvesOrigin

fun validate_from :: "(ip_addr \<Rightarrow> string) \<Rightarrow> string \<Rightarrow> target_class \<Rightarrow> ip_addr option \<Rightarrow> ip_addr list \<Rightarrow> string + ip_addr" where
  "validate_from show_ip host expected selected [] = (case selected of
     None \<Rightarrow> Inl (''host '' @ host @ '' did not resolve to an address'') | Some a \<Rightarrow> Inr a)"
| "validate_from show_ip host expected selected (a # addresses) = (case classify_ip a of
     Inl _ \<Rightarrow> Inl (''host '' @ host @ '' resolved to a non-public address ('' @ show_ip a @ '')'')
   | Inr actual \<Rightarrow>
       if actual \<noteq> expected then Inl (''host '' @ host @ '' resolved to an unexpected address class ('' @ show_ip a @ '')'')
       else validate_from show_ip host expected (case selected of None \<Rightarrow> Some a | Some b \<Rightarrow> Some b) addresses)"

definition validate_resolved_addresses :: "(ip_addr \<Rightarrow> string) \<Rightarrow> string \<Rightarrow> target_class \<Rightarrow> ip_addr list \<Rightarrow> string + ip_addr" where
  "validate_resolved_addresses show_ip host expected addresses = validate_from show_ip host expected None addresses"

definition checked_endpoint ::
  "(ip_addr \<Rightarrow> string) \<Rightarrow> string \<Rightarrow> target_class \<Rightarrow> ip_addr list \<Rightarrow> bool \<Rightarrow> string + endpoint_resolution" where
  "checked_endpoint show_ip host expected addresses proxy_configured =
    (if expected = Public \<and> proxy_configured \<and> addresses \<noteq> [] \<and> list_all is_clash_fake_ip addresses
     then Inr ProxyResolvesOrigin
     else map_sum id Pinned (validate_resolved_addresses show_ip host expected addresses))"

text \<open>\<open>to_socket_addrs\<close> takes a literal address as it is and looks every other host up.\<close>

definition to_socket_addrs :: "'u web_env \<Rightarrow> string \<Rightarrow> nat \<Rightarrow> string + ip_addr list" where
  "to_socket_addrs env host port = (case parse_ip host of
     Some ip \<Rightarrow> Inr [ip]
   | None \<Rightarrow> we_lookup env host port)"

definition resolve_checked_endpoint ::
  "'u web_env \<Rightarrow> string \<Rightarrow> nat option \<Rightarrow> target_class \<Rightarrow> bool \<Rightarrow> string + endpoint_resolution" where
  "resolve_checked_endpoint env host port expected proxy_configured = (case port of
     None \<Rightarrow> Inl ''url is missing a port''
   | Some p \<Rightarrow> (case to_socket_addrs env host p of
       Inl err \<Rightarrow> Inl (''cannot resolve host '' @ host @ '': '' @ err)
     | Inr addresses \<Rightarrow> checked_endpoint (we_show_ip env) host expected addresses proxy_configured))"

definition proxy_from_process :: "'u web_env \<Rightarrow> proxy_environment" where
  "proxy_from_process env =
    (let env_value = (\<lambda>upper lower. case we_env_var env upper of Some v \<Rightarrow> Some v | None \<Rightarrow> we_env_var env lower) in
     \<lparr>pe_all = env_value ''ALL_PROXY'' ''all_proxy'', pe_http = env_value ''HTTP_PROXY'' ''http_proxy'',
      pe_https = env_value ''HTTPS_PROXY'' ''https_proxy'', pe_no_proxy = env_value ''NO_PROXY'' ''no_proxy'',
      pe_cgi = (we_env_var env ''REQUEST_METHOD'' \<noteq> None)\<rparr>)"

definition no_proxy_contains :: "string \<Rightarrow> string \<Rightarrow> bool" where
  "no_proxy_contains entries raw = (let host = trim_end_dots raw in
     list_ex (\<lambda>entry. entry = ''*'' \<or>
       (let domain = trim_end_dots (dropWhile (\<lambda>c. c = CHR ''.'') entry) in
        eq_ignore_ascii_case host domain
        \<or> (case strip_suffix domain host of Some prefix \<Rightarrow> ends_with ''.'' prefix | None \<Rightarrow> False)))
       (map trim (split_on (CHR '','') entries)))"

definition valid_proxy_url :: "'u url_api \<Rightarrow> string \<Rightarrow> bool" where
  "valid_proxy_url ua raw =
    (case ua_parse ua (if contains_sub ''://'' raw then raw else ''http://'' @ raw) of
       Inl _ \<Rightarrow> False
     | Inr url \<Rightarrow> ua_host ua url \<noteq> None
         \<and> ua_scheme ua url \<in> {''http'', ''https'', ''socks4'', ''socks4a'', ''socks5'', ''socks5h''})"

definition configured_for :: "'u url_api \<Rightarrow> proxy_environment \<Rightarrow> 'u \<Rightarrow> bool" where
  "configured_for ua pe url = (case ua_host ua url of
     None \<Rightarrow> False
   | Some host \<Rightarrow>
       if pe_cgi pe \<or> (case pe_no_proxy pe of Some entries \<Rightarrow> no_proxy_contains entries host | None \<Rightarrow> False)
       then False
       else (let specific = (if ua_scheme ua url = ''http'' then pe_http pe
                else if ua_scheme ua url = ''https'' then pe_https pe else None);
              valid = (\<lambda>p. case p of Some proxy \<Rightarrow> valid_proxy_url ua proxy | None \<Rightarrow> False) in
         valid specific \<or> valid (pe_all pe)))"

subsection \<open>The request\<close>

definition accept_header :: string where
  "accept_header = ''text/html, text/plain, application/json, application/xhtml+xml;q=0.9, */*;q=0.1''"

definition redirect_policy :: "'u url_api \<Rightarrow> target_class \<Rightarrow> string \<Rightarrow> 'u list \<Rightarrow> 'u \<Rightarrow> string + unit" where
  "redirect_policy ua class origin_host previous url =
    (if max_redirects \<le> length previous then Inl ''too many redirects''
     else map_sum id (\<lambda>_. ()) (same_class_redirect ua class origin_host (ua_text ua url)))"

definition configured_client :: "'u web_env \<Rightarrow> target_class \<Rightarrow> string \<Rightarrow> endpoint_resolution \<Rightarrow> 'u client_config" where
  "configured_client env class origin_host endpoint = \<lparr>cl_no_proxy = (class = Loopback),
     cl_resolve = (case endpoint of Pinned a \<Rightarrow> Some (origin_host, a) | ProxyResolvesOrigin \<Rightarrow> None),
     cl_policy = redirect_policy (we_url env) class origin_host,
     cl_timeout_secs = fetch_timeout_secs, cl_user_agent = ''mini-agent/0.2 (web_fetch)'',
     cl_accept = accept_header\<rparr>"

definition response_too_large :: fetch_error where
  "response_too_large = Fetch_Failed (''response exceeds '' @ decimal max_fetch_source_bytes @ '' byte fetch limit'')"

fun collect_body :: "string \<Rightarrow> (string + string) list \<Rightarrow> fetch_error + string" where
  "collect_body collected [] = Inr collected"
| "collect_body collected (Inl err # chunks) = Inl (Fetch_Retryable (''fetch failed: '' @ err))"
| "collect_body collected (Inr chunk # chunks) =
    (if max_fetch_source_bytes < sat_add (length collected) (length chunk) then Inl response_too_large
     else collect_body (collected @ chunk) chunks)"

definition page_of_response ::
  "'u url_api \<Rightarrow> target_class \<Rightarrow> string \<Rightarrow> 'u http_response \<Rightarrow> fetch_error + fetched_page" where
  "page_of_response ua class origin_host response =
    (case same_class_redirect ua class origin_host (ua_text ua (hr_url response)) of
       Inl err \<Rightarrow> Inl (Fetch_Failed err)
     | Inr _ \<Rightarrow>
         if (case hr_content_length response of Some n \<Rightarrow> max_fetch_source_bytes < n | None \<Rightarrow> False)
         then Inl response_too_large
         else (case collect_body [] (hr_chunks response) of
             Inl err \<Rightarrow> Inl err
           | Inr body \<Rightarrow>
               if \<not> utf8 body then Inl (Fetch_Failed ''response is not UTF-8 text'')
               else Inr \<lparr>fp_final_url = ua_text ua (hr_url response), fp_status = hr_status response,
                 fp_content_type = (case hr_content_type response of Some t \<Rightarrow> t | None \<Rightarrow> []), fp_body = body\<rparr>))"

text \<open>A request gives its result and the log of the client.\<close>

type_synonym 'u request_log = "('u \<times> fetch_endpoint) list"

definition fetch_admitted ::
  "'u web_env \<Rightarrow> 'u \<Rightarrow> target_class \<Rightarrow> (fetch_error + fetched_page) \<times> 'u request_log" where
  "fetch_admitted env url class = (let ua = we_url env in
     case ua_host ua url of
       None \<Rightarrow> (Inl (Fetch_Failed ''url is missing a host''), [])
     | Some origin_host \<Rightarrow>
         (case resolve_checked_endpoint env origin_host (ua_port_or_known_default ua url) class
             (configured_for ua (proxy_from_process env) url) of
            Inl err \<Rightarrow> (Inl (Fetch_Failed err), [])
          | Inr endpoint \<Rightarrow>
              (case we_build_error env of
                 Some err \<Rightarrow> (Inl (Fetch_Failed (''cannot build http client: '' @ err)), [])
               | None \<Rightarrow>
                   (case we_client env (configured_client env class origin_host endpoint) url of
                      (Inl (err, refused), log) \<Rightarrow>
                        (Inl ((if refused then Fetch_Failed else Fetch_Retryable) (''fetch failed: '' @ err)), log)
                    | (Inr response, log) \<Rightarrow> (page_of_response ua class origin_host response, log)))))"

definition http_get :: "'u web_env \<Rightarrow> string \<Rightarrow> (fetch_error + fetched_page) \<times> 'u request_log" where
  "http_get env raw = (case classify_url (we_url env) raw of
     Inl err \<Rightarrow> (Inl (Fetch_Failed err), [])
   | Inr (admitted, class) \<Rightarrow> (case we_start_error env of
       Some err \<Rightarrow> (Inl (Fetch_Failed err), [])
     | None \<Rightarrow> fetch_admitted env admitted class))"

subsection \<open>The tool\<close>

text \<open>The tool acts on the log of requests and on the store of results.\<close>

type_synonym ('u, 'v) web_state = "'u request_log \<times> 'v result_state \<times> disk"

type_synonym ('u, 'v, 'a) web_io = "(('u, 'v) web_state, fetch_error, 'a) act"

definition on_results :: "('v result_state \<times> disk, string, 'a) act \<Rightarrow> ('u, 'v, 'a) web_io" where
  "on_results m = map_errA Fetch_Failed (\<lambda>(log, s). apsnd (Pair log) (m s))"

definition web_get :: "'u web_env \<Rightarrow> string \<Rightarrow> ('u, 'v, fetched_page) web_io" where
  "web_get env raw = (\<lambda>(log, s). case http_get env raw of (r, made) \<Rightarrow>
     (case r of Inl err \<Rightarrow> Raised err | Inr page \<Rightarrow> Done page, (log @ made, s)))"

definition va_opt_str :: "'v value_api \<Rightarrow> string option \<Rightarrow> 'v" where
  "va_opt_str js v = (case v of None \<Rightarrow> va_null js | Some t \<Rightarrow> va_str js t)"

definition encode_fetch_result :: "'v value_api \<Rightarrow> 'v \<Rightarrow> ('u, 'v, string) web_io" where
  "encode_fetch_result js v = (case va_encode js v of
     Inl err \<Rightarrow> raiseA (Fetch_Failed (''cannot encode fetched page: '' @ err))
   | Inr text \<Rightarrow> retA text)"

definition read_web_page :: "string \<Rightarrow> nat \<Rightarrow> ('u, 'v, 'v stored_page) web_io" where
  "read_web_page handle cursor = on_results (\<lambda>(st, d).
     (case read_page handle cursor inline_fetch_output_bytes st of Inl err \<Rightarrow> Raised err | Inr page \<Rightarrow> Done page, (st, d)))"

definition metadata_str :: "'v value_api \<Rightarrow> 'v option \<Rightarrow> string \<Rightarrow> string option" where
  "metadata_str js metadata key = Option.bind (Option.bind metadata (\<lambda>m. va_get js m key)) (va_as_str js)"

definition continue_fetch :: "'v value_api \<Rightarrow> string \<Rightarrow> string option \<Rightarrow> ('u, 'v, string) web_io" where
  "continue_fetch js handle cursor =
    (if 64 < length handle then raiseA (Fetch_Failed ''result handle is invalid'')
     else (case cursor of
       None \<Rightarrow> raiseA (Fetch_Failed ''cursor is required when continuing a result'')
     | Some text \<Rightarrow> (case parse_u64 text of
         None \<Rightarrow> raiseA (Fetch_Failed ''result cursor is invalid'')
       | Some at \<Rightarrow>
           bindA (read_web_page handle at) (\<lambda>page.
           if metadata_str js (pg_metadata page) ''kind'' \<noteq> Some ''web_fetch''
           then raiseA (Fetch_Failed ''result handle is not a cached web page'')
           else encode_fetch_result js (va_object js
             [(''kind'', va_str js ''web_fetch''),
              (''url'', va_opt_str js (metadata_str js (pg_metadata page) ''url'')),
              (''title'', va_opt_str js (metadata_str js (pg_metadata page) ''title'')),
              (''content'', va_str js (pg_content page)), (''handle'', va_str js handle),
              (''nextCursor'', va_opt_str js (map_option decimal (pg_next_cursor page))),
              (''sourceTruncated'', va_bool js (pg_source_truncated page)), (''continuation'', va_bool js True)])))))"

definition page_metadata :: "'v value_api \<Rightarrow> fetched_page \<Rightarrow> string option \<Rightarrow> 'v" where
  "page_metadata js page title = va_object js
     [(''kind'', va_str js ''web_fetch''), (''url'', va_str js (fp_final_url page)), (''title'', va_opt_str js title)]"

definition inline_page :: "'v value_api \<Rightarrow> fetched_page \<Rightarrow> string option \<Rightarrow> string \<Rightarrow> string option \<Rightarrow> 'v" where
  "inline_page js page title content warning = va_object js
     [(''kind'', va_str js ''web_fetch''), (''url'', va_str js (fp_final_url page)), (''status'', va_num js (fp_status page)),
      (''title'', va_opt_str js title), (''content'', va_str js content), (''warning'', va_opt_str js warning),
      (''sourceTruncated'', va_bool js False), (''handle'', va_null js), (''nextCursor'', va_null js)]"

definition retained_page ::
  "'v value_api \<Rightarrow> fetched_page \<Rightarrow> string option \<Rightarrow> string option \<Rightarrow> stored_result \<Rightarrow> 'v stored_page \<Rightarrow> 'v" where
  "retained_page js page title warning stored first_page = va_object js
     [(''kind'', va_str js ''web_fetch''), (''url'', va_str js (fp_final_url page)), (''status'', va_num js (fp_status page)),
      (''title'', va_opt_str js title), (''content'', va_str js (pg_content first_page)), (''warning'', va_opt_str js warning),
      (''handle'', va_str js (sr_handle stored)),
      (''nextCursor'', va_opt_str js (map_option decimal (pg_next_cursor first_page))),
      (''sourceTruncated'', va_bool js (pg_source_truncated first_page))]"

definition show_page ::
  "'u web_env \<Rightarrow> 'v value_api \<Rightarrow> session_binding option \<Rightarrow> fetched_page \<Rightarrow> ('u, 'v, string) web_io" where
  "show_page env js session page = (case rendered_parts (we_convert env) page of (title, content, warning) \<Rightarrow>
     if length content \<le> inline_fetch_output_bytes
     then encode_fetch_result js (inline_page js page title content warning)
     else bindA (on_results (store_with_metadata js session content (length (fp_body page)) False
              (Some (page_metadata js page title)))) (\<lambda>stored.
          bindA (read_web_page (sr_handle stored) 0) (\<lambda>first_page.
          encode_fetch_result js (retained_page js page title warning stored first_page))))"

definition fetch :: "'u web_env \<Rightarrow> 'v value_api \<Rightarrow> session_binding option \<Rightarrow> 'v \<Rightarrow> ('u, 'v, string) web_io" where
  "fetch env js session arguments = (case Option.bind (va_get js arguments ''handle'') (va_as_str js) of
     Some handle \<Rightarrow> continue_fetch js handle (Option.bind (va_get js arguments ''cursor'') (va_as_str js))
   | None \<Rightarrow> (case string_arg js arguments ''url'' of
       Inl err \<Rightarrow> raiseA (Fetch_Failed err)
     | Inr raw \<Rightarrow> bindA (web_get env raw) (show_page env js session)))"

definition fetch_admission :: "'u url_api \<Rightarrow> 'v value_api \<Rightarrow> 'v \<Rightarrow> string + tool_admission" where
  "fetch_admission ua js arguments =
    (if va_get js arguments ''handle'' \<noteq> None
     then (if va_get js arguments ''url'' \<noteq> None then Inl ''provide either url or handle, not both''
           else Inr (Allowed []))
     else (case string_arg js arguments ''url'' of
       Inl err \<Rightarrow> Inl err
     | Inr raw \<Rightarrow> (case classify_url ua raw of
         Inl err \<Rightarrow> Inl err
       | Inr (url, class) \<Rightarrow> if class = Loopback then Inr (Allowed [])
           else Inr (ApprovalRequired (''fetch URL '' @ ua_text ua url) [] None))))"

definition fetch_execute_after_admission ::
  "'u web_env \<Rightarrow> 'v value_api \<Rightarrow> session_binding option \<Rightarrow> 'v \<Rightarrow> ('u, 'v) web_state
    \<Rightarrow> tool_execution_outcome option \<times> ('u, 'v) web_state" where
  "fetch_execute_after_admission env js session arguments s = (case fetch env js session arguments s of
     (Done content, s') \<Rightarrow> (Some (outcome_completed content), s')
   | (Raised (Fetch_Retryable err), s') \<Rightarrow> (Some (outcome_retryable err), s')
   | (Raised (Fetch_Failed err), s') \<Rightarrow> (Some (outcome_failed err), s')
   | (Out_of_fuel, s') \<Rightarrow> (None, s'))"

end
