(* ===== verification/Web_Claims.thy ===== *)
theory Web_Claims
  imports Web_Fetch
begin

section \<open>What a fetch may connect to\<close>

text \<open>
  The documented behaviour of the URL parser and the HTTP client, and what follows for the requests of a
  fetch: they stay with the admitted host and, but for an origin that was left to a proxy, connect only to
  addresses of the admitted class; a fetch nobody was asked about never leaves the machine.
\<close>

subsection \<open>Laws of the libraries\<close>

text \<open>A URL reads back from its text, and the parser writes hosts in lower case.\<close>

definition url_laws :: "'u url_api \<Rightarrow> bool" where
  "url_laws ua \<longleftrightarrow> (\<forall>u. ua_parse ua (ua_text ua u) = Inr u)
     \<and> (\<forall>u h. ua_host ua u = Some h \<longrightarrow> to_ascii_lowercase h = h)"

text \<open>
  A client requests the given URL first and each further one only when the policy follows it; without
  proxies it connects itself; a literal address is connected to as it is and a pinned name at its pin.
\<close>

definition client_laws :: "'u url_api \<Rightarrow> 'u http_client \<Rightarrow> bool" where
  "client_laws ua client \<longleftrightarrow> (\<forall>cfg url r log. client cfg url = (r, log) \<longrightarrow>
     (log \<noteq> [] \<longrightarrow> fst (hd log) = url)
   \<and> (\<forall>i. 0 < i \<and> i < length log \<longrightarrow> cl_policy cfg (map fst (take i log)) (fst (log ! i)) = Inr ())
   \<and> (\<forall>u e. (u, e) \<in> set log \<longrightarrow> (cl_no_proxy cfg \<longrightarrow> e \<noteq> Via_proxy)
      \<and> (\<forall>a h. e = Direct a \<and> ua_host ua u = Some h \<longrightarrow>
          (case parse_host_ip h of
             Some ip \<Rightarrow> a = ip
           | None \<Rightarrow> (\<forall>b. cl_resolve cfg = Some (h, b) \<longrightarrow> a = b)))))"

subsection \<open>Classified URLs\<close>

lemma classify_url_Inr:
  assumes "classify_url ua raw = Inr (url, class)"
  obtains host where "ua_parse ua raw = Inr url" "ua_scheme ua url \<in> {''http'', ''https''}" "ua_username ua url = []"
    "ua_password ua url = None" "ua_host ua url = Some host" "classify_host host = Inr class" "length raw \<le> max_url_bytes"
  using assms by (auto simp: classify_url_def split: if_splits sum.splits option.splits)

lemma same_class_redirect_Inr:
  assumes laws: "url_laws ua" and ok: "same_class_redirect ua class origin (ua_text ua u) = Inr v"
    and origin: "to_ascii_lowercase origin = origin"
  shows "ua_host ua u = Some origin" "ua_scheme ua u \<in> {''http'', ''https''}" "classify_host origin = Inr class"
proof -
  from ok have c: "classify_url ua (ua_text ua u) = Inr (v, class)"
    and h: "\<exists>h. ua_host ua v = Some h \<and> eq_ignore_ascii_case h origin"
    by (auto simp: same_class_redirect_def split: sum.splits prod.splits if_splits option.splits)
  from c obtain host where p: "ua_parse ua (ua_text ua u) = Inr v" "ua_scheme ua v \<in> {''http'', ''https''}"
    "ua_host ua v = Some host" "classify_host host = Inr class" by (rule classify_url_Inr)
  from laws p(1) have "v = u" by (simp add: url_laws_def)
  moreover from laws p(3) h origin have "host = origin" by (auto simp: url_laws_def eq_ignore_ascii_case_def)
  ultimately show "ua_host ua u = Some origin" "ua_scheme ua u \<in> {''http'', ''https''}" "classify_host origin = Inr class"
    using p by auto
qed

lemma validate_from_Inr:
  "validate_from show_ip host expected selected addresses = Inr a \<Longrightarrow>
     (\<forall>b. selected = Some b \<longrightarrow> classify_ip b = Inr expected) \<Longrightarrow> classify_ip a = Inr expected"
proof (induction show_ip host expected selected addresses rule: validate_from.induct)
  case (2 show_ip host expected selected b addresses)
  then show ?case by (auto split: sum.splits if_splits option.splits)
qed (auto split: option.splits)

text \<open>
  A host is left to a proxy when one is configured for the URL and every address the name resolves to is one
  of the fake addresses such a proxy hands out, those of the network 198.18.0.0/15.
\<close>

definition fake_address :: "ip_addr \<Rightarrow> bool" where
  "fake_address ip \<longleftrightarrow> (\<exists>b c d. ip = V4 198 b c d \<and> b \<in> {18, 19})"

lemma fake_address_iff: "is_clash_fake_ip = fake_address"
  by (auto simp: fun_eq_iff is_clash_fake_ip_def fake_address_def split: ip_addr.split)

definition left_to_proxy :: "'u web_env \<Rightarrow> 'u \<Rightarrow> bool" where
  "left_to_proxy env url \<longleftrightarrow> (let ua = we_url env in
     configured_for ua (proxy_from_process env) url
     \<and> (case (ua_host ua url, ua_port_or_known_default ua url) of
          (Some host, Some port) \<Rightarrow> (case to_socket_addrs env host port of
             Inr addresses \<Rightarrow> addresses \<noteq> [] \<and> list_all fake_address addresses
           | Inl _ \<Rightarrow> False)
        | _ \<Rightarrow> False))"

lemma resolve_checked_endpoint_Inr:
  assumes "resolve_checked_endpoint env host (ua_port_or_known_default (we_url env) url) expected
      (configured_for (we_url env) (proxy_from_process env) url) = Inr endpoint"
    and "ua_host (we_url env) url = Some host"
  shows "case endpoint of Pinned a \<Rightarrow> classify_ip a = Inr expected
     | ProxyResolvesOrigin \<Rightarrow> expected = Public \<and> left_to_proxy env url"
proof -
  from assms obtain port addresses where
    c: "checked_endpoint (we_show_ip env) host expected addresses (configured_for (we_url env) (proxy_from_process env) url) = Inr endpoint"
    and p: "ua_port_or_known_default (we_url env) url = Some port" "to_socket_addrs env host port = Inr addresses"
    by (auto simp: resolve_checked_endpoint_def split: option.splits sum.splits)
  show ?thesis
  proof (cases "validate_resolved_addresses (we_show_ip env) host expected addresses")
    case (Inr a)
    then have "classify_ip a = Inr expected"
      unfolding validate_resolved_addresses_def by (rule validate_from_Inr) simp
    with c p Inr assms(2) show ?thesis by (auto simp: checked_endpoint_def left_to_proxy_def fake_address_iff split: if_splits)
  qed (use c p assms(2) in \<open>auto simp: checked_endpoint_def left_to_proxy_def fake_address_iff split: if_splits\<close>)
qed

subsection \<open>The requests of a fetch\<close>

text \<open>What \<open>http_get\<close> promises of one request it made.\<close>

definition request_admitted :: "'u web_env \<Rightarrow> string \<Rightarrow> 'u \<times> fetch_endpoint \<Rightarrow> bool" where
  "request_admitted env raw request \<longleftrightarrow> (let ua = we_url env in
     case classify_url ua raw of
       Inl _ \<Rightarrow> False
     | Inr (url, class) \<Rightarrow>
         ua_host ua (fst request) = ua_host ua url \<and> ua_scheme ua (fst request) \<in> {''http'', ''https''}
       \<and> (case snd request of
            Via_proxy \<Rightarrow> class = Public
          | Direct a \<Rightarrow> classify_ip a = Inr class
              \<or> (class = Public \<and> left_to_proxy env url)))"

text \<open>The length of a chain of redirects.\<close>

lemma log_bounded:
  assumes "client_laws ua client" "client cfg url = (r, log)"
    and "\<And>previous u. cl_policy cfg previous u = Inr () \<Longrightarrow> length previous < n" and "0 < n"
  shows "length log \<le> n"
proof (rule ccontr)
  assume "\<not> length log \<le> n"
  then have n: "0 < n \<and> n < length log" using assms(4) by simp
  with assms(1,2) have "cl_policy cfg (map fst (take n log)) (fst (log ! n)) = Inr ()"
    unfolding client_laws_def by blast
  with assms(3) have "length (map fst (take n log)) < n" by blast
  with n show False by simp
qed

lemma fetch_admitted_requests:
  assumes laws: "url_laws (we_url env)" "client_laws (we_url env) (we_client env)"
    and url: "ua_host (we_url env) url = Some host" "ua_scheme (we_url env) url \<in> {''http'', ''https''}"
      "classify_host host = Inr class"
    and run: "fetch_admitted env url class = (r, log)"
  shows "length log \<le> max_redirects" and "(u, e) \<in> set log \<Longrightarrow>
     ua_host (we_url env) u = Some host \<and> ua_scheme (we_url env) u \<in> {''http'', ''https''}
   \<and> (case e of Via_proxy \<Rightarrow> class = Public
      | Direct a \<Rightarrow> classify_ip a = Inr class
          \<or> (class = Public \<and> left_to_proxy env url))"
proof -
  let ?ua = "we_url env" and ?conf = "configured_for (we_url env) (proxy_from_process env) url"
  have calls: "log = [] \<or> (\<exists>endpoint r'. resolve_checked_endpoint env host (ua_port_or_known_default ?ua url) class ?conf = Inr endpoint
      \<and> we_client env (configured_client env class host endpoint) url = (r', log))"
    using run url(1) by (auto simp: fetch_admitted_def Let_def split: sum.splits option.splits prod.splits)
  show "length log \<le> max_redirects" and "(u, e) \<in> set log \<Longrightarrow>
     ua_host (we_url env) u = Some host \<and> ua_scheme (we_url env) u \<in> {''http'', ''https''}
   \<and> (case e of Via_proxy \<Rightarrow> class = Public
      | Direct a \<Rightarrow> classify_ip a = Inr class
          \<or> (class = Public \<and> left_to_proxy env url))"
  proof (goal_cases)
    case 1
    have pos: "0 < max_redirects" by (simp add: max_redirects_def)
    have bound: "length previous < max_redirects"
      if "cl_policy (configured_client env class host endpoint) previous v = Inr ()" for endpoint previous v
      using that by (auto simp: configured_client_def redirect_policy_def split: if_splits)
    from calls show ?case by (elim disjE exE conjE) (simp, erule log_bounded [OF laws(2) _ bound pos])
  next
    case 2
    with calls obtain endpoint r' where
      res: "resolve_checked_endpoint env host (ua_port_or_known_default ?ua url) class ?conf = Inr endpoint"
      and sent: "we_client env (configured_client env class host endpoint) url = (r', log)" by auto
    let ?cfg = "configured_client env class host endpoint"
    have law: "log \<noteq> [] \<longrightarrow> fst (hd log) = url"
      "\<forall>i. 0 < i \<and> i < length log \<longrightarrow> cl_policy ?cfg (map fst (take i log)) (fst (log ! i)) = Inr ()"
      "cl_no_proxy ?cfg \<longrightarrow> e \<noteq> Via_proxy"
      "\<forall>a h. e = Direct a \<and> ua_host ?ua u = Some h \<longrightarrow>
          (case parse_host_ip h of Some ip \<Rightarrow> a = ip | None \<Rightarrow> (\<forall>b. cl_resolve ?cfg = Some (h, b) \<longrightarrow> a = b))"
      using laws(2) sent \<open>(u, e) \<in> set log\<close> unfolding client_laws_def by blast+
    from \<open>(u, e) \<in> set log\<close> obtain i where i: "i < length log" "log ! i = (u, e)" by (auto simp: in_set_conv_nth)
    have u: "ua_host ?ua u = Some host \<and> ua_scheme ?ua u \<in> {''http'', ''https''}"
    proof (cases "i = 0")
      case True
      with i law(1) have "u = url" by (cases log) auto
      with url show ?thesis by simp
    next
      case False
      with i law(2) have "cl_policy ?cfg (map fst (take i log)) u = Inr ()" by force
      then obtain v where "same_class_redirect ?ua class host (ua_text ?ua u) = Inr v"
        by (cases "same_class_redirect ?ua class host (ua_text ?ua u)")
          (auto simp: configured_client_def redirect_policy_def split: if_splits)
      moreover have "to_ascii_lowercase host = host" using laws(1) url(1) by (auto simp: url_laws_def)
      ultimately show ?thesis using same_class_redirect_Inr [OF laws(1)] by blast
    qed
    have "class = Public" if "e = Via_proxy"
      using law(3) that by (cases "class") (auto simp: configured_client_def)
    moreover have "classify_ip a = Inr class \<or> (class = Public \<and> left_to_proxy env url)" if a: "e = Direct a" for a
    proof (cases "parse_host_ip host")
      case (Some ip)
      with law(4) u a url(3) show ?thesis by (auto simp: classify_host_def)
    next
      case None
      with law(4) u a resolve_checked_endpoint_Inr [OF res url(1)] show ?thesis
        by (auto simp: configured_client_def split: endpoint_resolution.splits)
    qed
    ultimately show ?case using u by (simp split: fetch_endpoint.split)
  qed
qed

lemma http_get_requests:
  assumes laws: "url_laws (we_url env)" "client_laws (we_url env) (we_client env)"
    and run: "http_get env raw = (r, log)"
  shows "length log \<le> max_redirects \<and> list_all (request_admitted env raw) log"
proof (cases "log = []")
  case False
  with run obtain url "class" where c: "classify_url (we_url env) raw = Inr (url, class)"
    and f: "fetch_admitted env url class = (r, log)"
    by (auto simp: http_get_def split: sum.splits option.splits prod.splits)
  from c obtain host where h: "ua_host (we_url env) url = Some host"
    "ua_scheme (we_url env) url \<in> {''http'', ''https''}" "classify_host host = Inr class" by (rule classify_url_Inr)
  note F = fetch_admitted_requests [OF laws h f]
  show ?thesis
    unfolding list_all_iff request_admitted_def
  proof (intro conjI ballI)
    fix request assume "request \<in> set log"
    with F(2) [of "fst request" "snd request"] h(1)
    show "let ua = we_url env in case classify_url ua raw of Inl _ \<Rightarrow> False
      | Inr (url, class) \<Rightarrow> ua_host ua (fst request) = ua_host ua url \<and> ua_scheme ua (fst request) \<in> {''http'', ''https''}
         \<and> (case snd request of Via_proxy \<Rightarrow> class = Public
            | Direct a \<Rightarrow> classify_ip a = Inr class \<or> (class = Public \<and> left_to_proxy env url))"
      by (simp add: Let_def c)
  qed (rule F(1))
qed simp

text \<open>The body of a page is bounded and UTF-8.\<close>

lemma collect_body_bounded:
  "collect_body collected chunks = Inr body \<Longrightarrow> length collected \<le> max_fetch_source_bytes
    \<Longrightarrow> length body \<le> max_fetch_source_bytes"
proof (induction collected chunks rule: collect_body.induct)
  case (3 collected chunk chunks)
  have "max_fetch_source_bytes < u64_max" by (simp add: max_fetch_source_bytes_def u64_max_def)
  with 3 show ?case by (auto split: if_splits dest: sat_add_le_below simp: not_less)
qed auto

lemma http_get_page:
  assumes "http_get env raw = (Inr page, log)"
  shows "length (fp_body page) \<le> max_fetch_source_bytes \<and> utf8 (fp_body page)"
  using assms collect_body_bounded [of "[]"]
  by (auto simp: http_get_def fetch_admitted_def page_of_response_def Let_def split: sum.splits option.splits prod.splits if_splits)

subsection \<open>The tool\<close>

lemma on_results_log: "on_results m (log, s) = (r, (log', s')) \<Longrightarrow> log' = log"
  by (cases "m s") (auto simp: on_results_def act_simps split: outcome.splits)

lemma keeps_log_on_results [act_rules]: "keeps (\<lambda>s. fst s = log) (on_results m)"
  by (rule keepsI) (metis on_results_log prod.collapse)

lemma keeps_log_encode [act_rules]: "keeps (\<lambda>s. fst s = log) (encode_fetch_result js v)"
  by (auto simp: encode_fetch_result_def intro: act_rules split: sum.split)




text \<open>
  C30. Every request of a fetch stays with the admitted host over http or https, there are at most five,
  and each connects to an address of the class that was admitted: to a loopback address, never through
  a proxy, when the URL was loopback; to a public address when it was public, unless it goes through a
  proxy or a proxy is configured for the URL and every address of its host is a fake one of that proxy's.
\<close>

theorem fetch_stays_in_class:
  assumes "url_laws (we_url env)" and "client_laws (we_url env) (we_client env)"
    and "http_get env raw = (r, log)"
  shows "length log \<le> 5 \<and> list_all (request_admitted env raw) log"
  using http_get_requests [OF assms] by (simp add: max_redirects_def)



end
