(* ===== verification/Web_Samples.thy ===== *)
theory Web_Samples
  imports Web_Claims
begin

section \<open>Fetches at concrete inputs\<close>

text \<open>
  A URL parser, a client and an environment that satisfy the laws, on which the properties are applied,
  and the addresses and redirects the checks of web.rs let pass.
\<close>

definition sample_urls :: "string url_api" where
  "sample_urls = \<lparr>ua_parse = Inr, ua_text = id,
     ua_scheme = (\<lambda>u. if starts_with ''https://'' u then ''https'' else if starts_with ''http://'' u then ''http'' else []),
     ua_username = (\<lambda>_. []), ua_password = (\<lambda>_. None),
     ua_host = (\<lambda>u. case split_once ''://'' u of
        None \<Rightarrow> None
      | Some (_, rest) \<Rightarrow> Some (to_ascii_lowercase (takeWhile (\<lambda>c. c \<noteq> CHR ''/'') rest))),
     ua_port_or_known_default = (\<lambda>_. Some 80)\<rparr>"

definition sample_response :: "string \<Rightarrow> string http_response" where
  "sample_response u = \<lparr>hr_url = u, hr_status = 200, hr_content_type = Some ''text/plain'', hr_content_length = None,
     hr_chunks = [Inr ''hello'']\<rparr>"

definition sample_client :: "string http_client" where
  "sample_client cfg u = (Inr (sample_response u),
     [(u, Direct (case ua_host sample_urls u of
        None \<Rightarrow> V4 127 0 0 1
      | Some h \<Rightarrow> (case parse_host_ip h of
          Some ip \<Rightarrow> ip
        | None \<Rightarrow> (case cl_resolve cfg of Some (_, b) \<Rightarrow> b | None \<Rightarrow> V4 127 0 0 1))))])"

definition sample_web :: "string web_env" where
  "sample_web = \<lparr>we_url = sample_urls, we_show_ip = (\<lambda>_. ''ip''), we_lookup = (\<lambda>_ _. Inl ''no such host''),
     we_env_var = (\<lambda>_. None), we_build_error = None, we_start_error = None, we_client = sample_client,
     we_convert = Some\<rparr>"


lemma ascii_lower_idem: "ascii_lower (ascii_lower c) = ascii_lower c"
proof (cases "0x41 \<le> bv c \<and> bv c \<le> 0x5A")
  case True
  then have "bv (char_of (bv c + 32)) = bv c + 32" by (simp add: bv_def)
  with True show ?thesis by (simp add: ascii_lower_def)
next
  case False
  then have "ascii_lower c = c" by (auto simp: ascii_lower_def)
  then show ?thesis by simp
qed

lemma sample_url_laws: "url_laws (we_url sample_web)"
  by (auto simp: url_laws_def sample_web_def sample_urls_def to_ascii_lowercase_def ascii_lower_idem o_def
      split: option.splits)

lemma sample_client_laws: "client_laws (we_url sample_web) (we_client sample_web)"
  by (auto simp: client_laws_def sample_web_def sample_client_def split: option.split)

subsection \<open>Literal addresses\<close>

lemma digit_values:
  "to_digit r (CHR ''0'') = (if 0 < r then Some 0 else None)" "to_digit r (CHR ''1'') = (if 1 < r then Some 1 else None)"
  "to_digit r (CHR ''2'') = (if 2 < r then Some 2 else None)" "to_digit r (CHR ''4'') = (if 4 < r then Some 4 else None)"
  "to_digit r (CHR ''6'') = (if 6 < r then Some 6 else None)" "to_digit r (CHR ''7'') = (if 7 < r then Some 7 else None)"
  "to_digit r (CHR ''9'') = (if 9 < r then Some 9 else None)" "to_digit r (CHR ''a'') = (if 10 < r then Some 10 else None)"
  "to_digit r (CHR ''b'') = (if 11 < r then Some 11 else None)" "to_digit r (CHR ''f'') = (if 15 < r then Some 15 else None)"
  "to_digit r (CHR ''.'') = None" "to_digit r (CHR '':'') = None" "to_digit r (CHR ''['') = None"
  by (simp_all add: to_digit_def bv_def)

lemmas octet_eval = read_octet_def read_separator_def read_number_def digit_values digits_number_def



lemma no_octets: 
 "read_ipv4_addr ''[::1]'' = None" "read_ipv4_addr ''::1'' = None" "read_ipv4_addr '':1'' = None" "read_ipv4_addr ''1'' = None" 
 "read_ipv4_addr ''64:ff9b::a00:1'' = None" "read_ipv4_addr ''ff9b::a00:1'' = None" "read_ipv4_addr '':a00:1'' = None" "read_ipv4_addr ''a00:1'' = None"
  by (simp_all add: read_ipv4_addr_def octet_eval)

lemma read_groups_step: "0 < n \<Longrightarrow> read_groups i n s =
    (case (if 1 < n then Option.bind (read_separator (CHR '':'') i s) read_ipv4_addr else None) of
       Some ((a, b, c, d), r) \<Rightarrow> ([from_be_bytes a b, from_be_bytes c d], True, r)
     | None \<Rightarrow> (case Option.bind (read_separator (CHR '':'') i s) (read_number 16 4 True 65536) of
         Some (g, r) \<Rightarrow> (case read_groups (Suc i) (n - 1) r of (gs, v4, r') \<Rightarrow> (of_nat g # gs, v4, r'))
       | None \<Rightarrow> ([], False, s)))"
  by (cases n) (simp, simp only: read_groups.simps diff_Suc_1, simp)

lemma numbers:
 "read_number 16 4 True 65536 ''1'' = Some (1, [])" "read_number 16 4 True 65536 '':1'' = None"
 "read_number 16 4 True 65536 ''::1'' = None" "read_number 16 4 True 65536 ''[::1]'' = None"
 "read_number 16 4 True 65536 ''64:ff9b::a00:1'' = Some (0x64, '':ff9b::a00:1'')"
 "read_number 16 4 True 65536 ''ff9b::a00:1'' = Some (0xff9b, ''::a00:1'')"
 "read_number 16 4 True 65536 '':a00:1'' = None"
 "read_number 16 4 True 65536 ''a00:1'' = Some (0xa00, '':1'')"
  by (simp_all add: octet_eval)

lemma read_groups_end: "0 < i \<Longrightarrow> read_groups i n [] = ([], False, [])"
  by (cases n) (simp_all add: read_separator_def)

lemma groups:
  "read_groups 0 8 ''[::1]'' = ([], False, ''[::1]'')" "read_groups 0 8 ''::1'' = ([], False, ''::1'')"
  "read_groups 0 7 ''1'' = ([1], False, [])"
  by (simp_all add: read_groups_step read_separator_def no_octets numbers read_groups_end)

lemma nat64_groups:
  "read_groups 0 8 ''64:ff9b::a00:1'' = ([0x64, 0xff9b], False, ''::a00:1'')"
  "read_groups 0 5 ''a00:1'' = ([0xa00, 1], False, [])"
  by (simp_all add: read_groups_step read_separator_def no_octets numbers read_groups_end)

lemma replicate_evals: "replicate 7 x = [x, x, x, x, x, x, x]" "replicate 4 x = [x, x, x, x]"
  "replicate 8 x = [x, x, x, x, x, x, x, x]"
  by (simp_all add: numeral_eq_Suc)

lemma literals:
  "read_ipv6_addr ''[::1]'' = None" "read_ipv6_addr ''::1'' = Some ([0, 0, 0, 0, 0, 0, 0, 1], [])"
  "read_ipv6_addr ''64:ff9b::a00:1'' = Some ([0x64, 0xff9b, 0, 0, 0, 0, 0xa00, 1], [])"
  by (simp_all add: read_ipv6_addr_def groups nat64_groups strip_prefix_def starts_with_def replicate_evals)

lemma parsed_literals:
  "parse_ip ''[::1]'' = None" "parse_ip ''::1'' = Some (V6 [0, 0, 0, 0, 0, 0, 0, 1])"
  "parse_ip ''64:ff9b::a00:1'' = Some (V6 [0x64, 0xff9b, 0, 0, 0, 0, 0xa00, 1])"
  by (simp_all add: parse_ip_def no_octets literals)

lemma bracketed_host:
   "parse_host_ip ''[::1]'' = Some (V6 [0, 0, 0, 0, 0, 0, 0, 1])"
  by (simp_all add: parse_host_ip_def parsed_literals strip_prefix_def strip_suffix_def
      starts_with_def ends_with_def)

lemma literal_classes: "classify_ipv6 [0, 0, 0, 0, 0, 0, 0, 1] = Inr Loopback" "classify_ipv6 [0x64, 0xff9b, 0, 0, 0, 0, 0xa00, 1] = Inr Public"
  "classify_ipv6 [0, 0, 0, 0, 0, 0, 0xa00, 1] = Inr Public" "classify_ipv6 [0, 0, 0, 0, 0, 0xffff, 0xa00, 1] = Inl not_public"
  "classify_ipv6 [0x2002, 0xa00, 1, 0, 0, 0, 0, 0] = Inl not_public"
  by (simp_all add: classify_ipv6_def to_ipv4_mapped_def classify_ipv4_def ipv4_blocked_def replicate_evals)

subsection \<open>The witnesses\<close>




theorem fetch_stays_in_class_witness:
  "length (snd (http_get sample_web ''http://127.0.0.1/'')) \<le> 5
   \<and> list_all (request_admitted sample_web ''http://127.0.0.1/'') (snd (http_get sample_web ''http://127.0.0.1/''))"
  using fetch_stays_in_class [OF sample_url_laws sample_client_laws prod.collapse [symmetric]] .



subsection \<open>What the checks let pass\<close>

text \<open>
  The host of an IPv6 URL keeps its brackets, with which it is classified but not resolved: the
  documented target \<open>[::1]\<close> is admitted and never fetched.
\<close>

lemma bracketed_host_is_admitted: "classify_host ''[::1]'' = Inr Loopback" "parse_ip ''[::1]'' = None"
  by (simp_all add: classify_host_def bracketed_host classify_ip_def literal_classes parsed_literals)

lemma bracketed_host_is_not_fetched:
  assumes "classify_url (we_url env) raw = Inr (url, Loopback)" and "ua_host (we_url env) url = Some ''[::1]''"
    and "ua_port_or_known_default (we_url env) url = Some port" and "we_lookup env ''[::1]'' port = Inl err"
    and "we_start_error env = None"
  shows "http_get env raw = (Inl (Fetch_Failed (''cannot resolve host [::1]: '' @ err)), [])"
  using assms bracketed_host_is_admitted(2)
  by (simp add: http_get_def fetch_admitted_def resolve_checked_endpoint_def to_socket_addrs_def)

text \<open>IPv6 addresses that embed a private IPv4 address, other than the mapped and 6to4 ones, are public.\<close>

lemma embedded_private_address_is_public:
  "parse_ip ''64:ff9b::a00:1'' = Some (V6 [0x64, 0xff9b, 0, 0, 0, 0, 0xa00, 1])"
  "classify_ip (V6 [0x64, 0xff9b, 0, 0, 0, 0, 0xa00, 1]) = Inr Public"
  "classify_ip (V6 [0, 0, 0, 0, 0, 0, 0xa00, 1]) = Inr Public"
  "classify_ip (V6 [0, 0, 0, 0, 0, 0xffff, 0xa00, 1]) = Inl not_public"
  "classify_ip (V6 [0x2002, 0xa00, 1, 0, 0, 0, 0, 0]) = Inl not_public"
  by (simp_all add: parsed_literals classify_ip_def literal_classes)

text \<open>
  An origin whose only address is a fake one is left to the proxy of its scheme, and no address is
  pinned.  A redirect to the other scheme, which has no proxy, then connects to whatever the name
  resolves to.
\<close>

definition http_proxy_only :: "string \<Rightarrow> string option" where
  "http_proxy_only name = (if name = ''HTTP_PROXY'' then Some ''http://127.0.0.1:7890'' else None)"

definition redirected_client :: "string http_client" where
  "redirected_client cfg u = (let next_url = ''https://a.example/'' in
     if cl_no_proxy cfg \<or> cl_resolve cfg \<noteq> None \<or> u \<noteq> ''http://a.example/'' \<or> cl_policy cfg [u] next_url \<noteq> Inr ()
     then (Inl (''no route'', False), [])
     else (Inr (sample_response next_url), [(u, Via_proxy), (next_url, Direct (V4 10 0 0 1))]))"

definition proxied_web :: "string web_env" where
  "proxied_web = sample_web\<lparr>we_lookup := (\<lambda>_ _. Inr [V4 198 18 0 1]), we_env_var := http_proxy_only,
     we_client := redirected_client\<rparr>"

lemma a_example_is_a_name: "parse_ip ''a.example'' = None" "parse_host_ip ''a.example'' = None"
proof -
  have d: "to_digit 16 (CHR ''.'') = None" "read_ipv4_addr ''a.example'' = None"
    by (simp_all add: read_ipv4_addr_def octet_eval)
  have "read_number 16 4 True 65536 ''a.example'' = Some (10, ''.example'')" by (simp add: octet_eval)
  moreover have "read_groups 1 7 ''.example'' = ([], False, ''.example'')"
    by (simp add: read_groups_step read_separator_def)
  ultimately have "read_groups 0 8 ''a.example'' = ([10], False, ''.example'')"
    by (simp add: read_groups_step [of 8] read_separator_def d)
  then have "read_ipv6_addr ''a.example'' = None"
    by (simp add: read_ipv6_addr_def strip_prefix_def starts_with_def)
  with d(2) show "parse_ip ''a.example'' = None" by (simp add: parse_ip_def)
  then show "parse_host_ip ''a.example'' = None" by (simp add: parse_host_ip_def strip_prefix_def starts_with_def)
qed

lemma a_example_is_public: "classify_host ''a.example'' = Inr Public"
  by (simp add: classify_host_def a_example_is_a_name classify_domain_def trim_end_dots_def to_ascii_lowercase_def
      ascii_lower_def bv_def ends_with_def starts_with_def contains_sub_def private_suffixes_def)

lemma a_example_hosts:
  "ua_host sample_urls ''http://a.example/'' = Some ''a.example''"
  "ua_host sample_urls ''https://a.example/'' = Some ''a.example''"
  by (simp_all add: sample_urls_def split_once_def starts_with_def to_ascii_lowercase_def ascii_lower_def bv_def)

lemma a_example_classified:
  "classify_url sample_urls ''http://a.example/'' = Inr (''http://a.example/'', Public)"
  "classify_url sample_urls ''https://a.example/'' = Inr (''https://a.example/'', Public)"
  using a_example_hosts a_example_is_public
  by (simp_all add: classify_url_def sample_urls_def max_url_bytes_def bv_def starts_with_def)

lemma redirected_client_laws: "client_laws (we_url proxied_web) (we_client proxied_web)"
  unfolding client_laws_def
proof (intro allI impI)
  fix cfg u r log
  assume "we_client proxied_web cfg u = (r, log)"
  then have "log = [] \<or> (\<not> cl_no_proxy cfg \<and> cl_resolve cfg = None \<and> u = ''http://a.example/''
      \<and> cl_policy cfg [u] ''https://a.example/'' = Inr ()
      \<and> log = [(u, Via_proxy), (''https://a.example/'', Direct (V4 10 0 0 1))])"
    by (auto simp: proxied_web_def redirected_client_def Let_def split: if_splits)
  moreover have "ua_host (we_url proxied_web) ''https://a.example/'' = Some ''a.example''"
    by (simp add: proxied_web_def sample_web_def a_example_hosts)
  ultimately show "(log \<noteq> [] \<longrightarrow> fst (hd log) = u)
   \<and> (\<forall>i. 0 < i \<and> i < length log \<longrightarrow> cl_policy cfg (map fst (take i log)) (fst (log ! i)) = Inr ())
   \<and> (\<forall>v e. (v, e) \<in> set log \<longrightarrow> (cl_no_proxy cfg \<longrightarrow> e \<noteq> Via_proxy)
      \<and> (\<forall>a h. e = Direct a \<and> ua_host (we_url proxied_web) v = Some h \<longrightarrow>
          (case parse_host_ip h of Some ip \<Rightarrow> a = ip | None \<Rightarrow> (\<forall>b. cl_resolve cfg = Some (h, b) \<longrightarrow> a = b))))"
    by (auto simp: a_example_is_a_name less_Suc_eq)
qed

lemma http_proxy_environment:
  "proxy_from_process proxied_web = \<lparr>pe_all = None, pe_http = Some ''http://127.0.0.1:7890'', pe_https = None,
     pe_no_proxy = None, pe_cgi = False\<rparr>"
  by (simp add: proxy_from_process_def proxied_web_def http_proxy_only_def)

lemma proxies_by_scheme:
  "configured_for sample_urls (proxy_from_process proxied_web) ''http://a.example/''"
  "\<not> configured_for sample_urls (proxy_from_process proxied_web) ''https://a.example/''"
proof -
  have "ua_scheme sample_urls ''http://a.example/'' = ''http''" "ua_scheme sample_urls ''https://a.example/'' = ''https''"
    by (simp_all add: sample_urls_def starts_with_def)
  moreover have "valid_proxy_url sample_urls ''http://127.0.0.1:7890''"
    by (simp add: valid_proxy_url_def contains_sub_def sample_urls_def starts_with_def split_once_def)
  ultimately show "configured_for sample_urls (proxy_from_process proxied_web) ''http://a.example/''"
    "\<not> configured_for sample_urls (proxy_from_process proxied_web) ''https://a.example/''"
    by (simp_all add: configured_for_def a_example_hosts http_proxy_environment)
qed

lemma unpinned_redirect_connects_to_private_address:
  "(''https://a.example/'', Direct (V4 10 0 0 1)) \<in> set (snd (http_get proxied_web ''http://a.example/''))"
  "classify_ip (V4 10 0 0 1) = Inl not_public"
proof -
  have w: "we_url proxied_web = sample_urls" "we_lookup proxied_web h p = Inr [V4 198 18 0 1]" "we_start_error proxied_web = None"
      "we_build_error proxied_web = None" "we_client proxied_web = redirected_client"
      "ua_port_or_known_default sample_urls u = Some 80" "ua_text sample_urls u = u" for h p u
    by (simp_all add: proxied_web_def sample_web_def sample_urls_def)
  have "checked_endpoint show_ip host Public [V4 198 18 0 1] True = Inr ProxyResolvesOrigin" for show_ip host
    by (simp add: checked_endpoint_def is_clash_fake_ip_def)
  then have "snd (http_get proxied_web ''http://a.example/'')
      = snd (redirected_client (configured_client proxied_web Public ''a.example'' ProxyResolvesOrigin) ''http://a.example/'')"
    by (simp add: http_get_def fetch_admitted_def w a_example_classified a_example_hosts resolve_checked_endpoint_def
        to_socket_addrs_def a_example_is_a_name proxies_by_scheme split: sum.split prod.split)
  moreover have "redirect_policy sample_urls Public ''a.example'' [''http://a.example/''] ''https://a.example/'' = Inr ()"
    by (simp add: redirect_policy_def max_redirects_def same_class_redirect_def w a_example_classified a_example_hosts
        eq_ignore_ascii_case_def)
  ultimately show "(''https://a.example/'', Direct (V4 10 0 0 1)) \<in> set (snd (http_get proxied_web ''http://a.example/''))"
    by (simp add: redirected_client_def configured_client_def w Let_def)
  show "classify_ip (V4 10 0 0 1) = Inl not_public" by (simp add: classify_ip_def classify_ipv4_def ipv4_blocked_def)
qed

end
