(* ===== verification/Question_Broker.thy ===== *)
theory Question_Broker
  imports Session_Journal Digest "HOL-Library.AList"
begin

section \<open>Questions to the user (user_questions.rs of the application server and the host)\<close>

text \<open>
  The tool \<open>ask_user\<close>: how its arguments become bounded questions, and the broker between the tool,
  which waits for answers in its own thread, and the clients that answer.  Every critical section of
  the broker is one function on the state; the loop of \<open>ask\<close> is its opening, the recording of the
  interaction, and one poll for every time the waiting thread wakes up.  The interactions are an
  association list: the order in which a hash map yields its values is some order of the list.
\<close>

subsection \<open>Requests and answers\<close>

record user_question_request =
  uqr_context :: tool_execution_context
  uqr_call_id :: string
  uqr_questions :: "user_question list"

record respond_params =
  rp_interaction_id :: string
  rp_thread_id :: thread_id
  rp_turn_id :: turn_id
  rp_call_id :: string
  rp_question_id :: string
  rp_answer :: user_question_answer

datatype question_phase = Phase_Requested | Phase_Updated | Phase_Resolved | Phase_Cancelled

definition resolved_capacity :: nat where "resolved_capacity = 128"

definition interaction_id :: "tool_execution_context \<Rightarrow> string \<Rightarrow> string" where
  "interaction_id context call_id = ''uq-'' @ stable_digest (thread_id_str (tec_thread_id context) @ newline
     @ turn_id_str (tec_turn_id context) @ newline @ call_id)"

definition validate_answer :: "user_question \<Rightarrow> user_question_answer \<Rightarrow> string + unit" where
  "validate_answer question answer = (case answer of
     Answer_Option option_id \<Rightarrow>
       if list_ex (\<lambda>option. uqo_id option = option_id) (uq_options question) then Inr ()
       else Inl ''answer references an unknown option''
   | Answer_Text text \<Rightarrow>
       if uq_allow_free_text question \<and> trim text \<noteq> [] \<and> length text \<le> 4000 then Inr ()
       else Inl ''free-text answer must contain 1 to 4000 UTF-8 bytes''
   | Answer_Skipped \<Rightarrow>
       if uq_allow_skip question then Inr () else Inl ''this question cannot be skipped'')"

subsection \<open>State\<close>

text \<open>
  A cancellation handle is a shared flag: \<open>None\<close> once its owner has dropped it.  A journal lives with
  the state it shares with the store.
\<close>

record broker_state =
  bs_interactions :: "(string \<times> user_question_interaction) list"
  bs_cancellations :: "(string \<times> nat) list"
  bs_terminal :: "string list"

record 'v question_world =
  qw_broker :: broker_state
  qw_journals :: "((string \<times> string) \<times> execution_journal \<times> 'v journal_live) list"
  qw_disk :: disk
  qw_flags :: "nat \<Rightarrow> bool option"
  qw_events :: "(question_phase \<times> user_question_interaction) list"

definition broker_new :: broker_state where
  "broker_new = \<lparr>bs_interactions = [], bs_cancellations = [], bs_terminal = []\<rparr>"

definition remove_interaction :: "string \<Rightarrow> broker_state \<Rightarrow> broker_state" where
  "remove_interaction i s = s\<lparr>bs_interactions := AList.delete i (bs_interactions s),
     bs_cancellations := AList.delete i (bs_cancellations s)\<rparr>"

definition put_interaction :: "string \<Rightarrow> user_question_interaction \<Rightarrow> broker_state \<Rightarrow> broker_state" where
  "put_interaction i q s = s\<lparr>bs_interactions := AList.update i q (bs_interactions s)\<rparr>"

definition push_terminal :: "string \<Rightarrow> broker_state \<Rightarrow> broker_state" where
  "push_terminal i s = s\<lparr>bs_terminal := bs_terminal s @ [i]\<rparr>"

function trim_terminal :: "broker_state \<Rightarrow> broker_state" where
  "trim_terminal s = (if resolved_capacity < length (bs_terminal s)
     then (case bs_terminal s of
         [] \<Rightarrow> s
       | i # rest \<Rightarrow> trim_terminal (s\<lparr>bs_terminal := rest, bs_interactions := AList.delete i (bs_interactions s)\<rparr>))
     else s)"
  by pat_completeness auto
termination
  by (relation "measure (length \<circ> bs_terminal)") auto

declare trim_terminal.simps [simp del]

definition send_event :: "question_phase \<Rightarrow> user_question_interaction \<Rightarrow> 'v question_world \<Rightarrow> 'v question_world" where
  "send_event phase q w = w\<lparr>qw_events := qw_events w @ [(phase, q)]\<rparr>"

definition journal_key :: "user_question_interaction \<Rightarrow> string \<times> string" where
  "journal_key q = (thread_id_str (uqi_thread_id q), turn_id_str (uqi_turn_id q))"

text \<open>Recording an interaction in the journal bound to its turn, if there is one.\<close>

definition persist_interaction ::
  "'v session_json \<Rightarrow> user_question_interaction \<Rightarrow> 'v question_world \<Rightarrow> (string, unit) outcome \<times> 'v question_world" where
  "persist_interaction js q w = (case map_of (qw_journals w) (journal_key q) of
     None \<Rightarrow> (Done (), w)
   | Some (j, live) \<Rightarrow> (case persist_user_question js j q (live, qw_disk w) of (r, (live', d')) \<Rightarrow>
       ((case r of Done _ \<Rightarrow> Done () | Raised err \<Rightarrow> Raised err | Out_of_fuel \<Rightarrow> Out_of_fuel),
        w\<lparr>qw_journals := AList.update (journal_key q) (j, live') (qw_journals w), qw_disk := d'\<rparr>)))"

subsection \<open>Answering\<close>

definition identity_matches :: "user_question_interaction \<Rightarrow> thread_id \<Rightarrow> turn_id \<Rightarrow> string \<Rightarrow> bool" where
  "identity_matches q thread turn call_id \<longleftrightarrow>
     uqi_thread_id q = thread \<and> uqi_turn_id q = turn \<and> uqi_call_id q = call_id"

definition is_cancelled :: "string \<Rightarrow> 'v question_world \<Rightarrow> bool" where
  "is_cancelled i w \<longleftrightarrow> (case map_of (bs_cancellations (qw_broker w)) i of
     None \<Rightarrow> False | Some flag \<Rightarrow> qw_flags w flag = Some True)"

definition cancel_interaction :: "string \<Rightarrow> user_question_interaction \<Rightarrow> 'v question_world \<Rightarrow> 'v question_world" where
  "cancel_interaction i q w = send_event Phase_Cancelled q
     (w\<lparr>qw_broker := trim_terminal (push_terminal i (remove_interaction i (qw_broker w)))\<rparr>)"

definition answered_index :: "user_question_interaction \<Rightarrow> string \<Rightarrow> nat option" where
  "answered_index q question_id = (case position (\<lambda>question. uq_id question = question_id) (uqi_questions q) of
     None \<Rightarrow> None | Some k \<Rightarrow> if k < uqi_current_index q then Some k else None)"

definition with_answer :: "user_question_interaction \<Rightarrow> user_question_answer \<Rightarrow> user_question_interaction" where
  "with_answer q answer = q\<lparr>uqi_answers := (uqi_answers q)[uqi_current_index q := Some answer],
     uqi_current_index := uqi_current_index q + 1\<rparr>"

text \<open>The answer of the current question is recorded, stored and announced.\<close>

definition accept_answer ::
  "'v session_json \<Rightarrow> string \<Rightarrow> user_question_interaction \<Rightarrow> 'v question_world
    \<Rightarrow> (string, user_question_interaction) outcome \<times> 'v question_world" where
  "accept_answer js i snapshot w = (case persist_interaction js snapshot w of
     (Done _, w1) \<Rightarrow>
       let complete = interaction_is_complete snapshot;
           s1 = put_interaction i snapshot (qw_broker w1);
           s2 = trim_terminal (if complete then push_terminal i s1 else s1) in
       (Done snapshot, send_event (if complete then Phase_Resolved else Phase_Updated) snapshot (w1\<lparr>qw_broker := s2\<rparr>))
   | (Raised err, w1) \<Rightarrow> (Raised err, w1)
   | (Out_of_fuel, w1) \<Rightarrow> (Out_of_fuel, w1))"

definition respond ::
  "'v session_json \<Rightarrow> respond_params \<Rightarrow> 'v question_world
    \<Rightarrow> (string, user_question_interaction) outcome \<times> 'v question_world" where
  "respond js params w = (case map_of (bs_interactions (qw_broker w)) (rp_interaction_id params) of
     None \<Rightarrow> (Raised ''user question interaction is no longer active'', w)
   | Some q \<Rightarrow>
       if \<not> identity_matches q (rp_thread_id params) (rp_turn_id params) (rp_call_id params)
       then (Raised ''user question identity does not match the active interaction'', w)
       else if is_cancelled (rp_interaction_id params) w
       then (Raised ''user question interaction is no longer active'', cancel_interaction (rp_interaction_id params) q w)
       else (case answered_index q (rp_question_id params) of
           Some k \<Rightarrow> if uqi_answers q ! k = Some (rp_answer params) then (Done q, w)
             else (Raised ''question already has a different answer'', w)
         | None \<Rightarrow> (case current_question q of
             None \<Rightarrow> (Raised ''question is stale or is not the current question'', w)
           | Some question \<Rightarrow>
               if uq_id question \<noteq> rp_question_id params
               then (Raised ''question is stale or is not the current question'', w)
               else (case validate_answer question (rp_answer params) of
                   Inl err \<Rightarrow> (Raised err, w)
                 | Inr _ \<Rightarrow> accept_answer js (rp_interaction_id params) (with_answer q (rp_answer params)) w))))"

text \<open>\<open>max_by_key\<close> takes the last of the greatest.\<close>

fun max_by_index :: "user_question_interaction option \<Rightarrow> user_question_interaction list
    \<Rightarrow> user_question_interaction option" where
  "max_by_index best [] = best"
| "max_by_index best (q # qs) = max_by_index (case best of
     None \<Rightarrow> Some q
   | Some b \<Rightarrow> if uqi_current_index b \<le> uqi_current_index q then Some q else Some b) qs"

definition pending_for_thread :: "thread_id \<Rightarrow> broker_state \<Rightarrow> user_question_interaction option" where
  "pending_for_thread thread s = max_by_index None
     (filter (\<lambda>q. uqi_thread_id q = thread \<and> \<not> interaction_is_complete q) (map snd (bs_interactions s)))"

definition restore_pending :: "user_question_interaction \<Rightarrow> broker_state \<Rightarrow> broker_state" where
  "restore_pending q s = put_interaction (uqi_interaction_id q) q
     (s\<lparr>bs_terminal := filter (\<lambda>i. i \<noteq> uqi_interaction_id q) (bs_terminal s)\<rparr>)"

definition bind_journal ::
  "thread_id \<Rightarrow> turn_id \<Rightarrow> execution_journal \<Rightarrow> 'v journal_live \<Rightarrow> 'v question_world \<Rightarrow> 'v question_world" where
  "bind_journal thread turn j live w =
    (let restored = (case Option.bind (jl_state live) ses_pending_user_question of
           None \<Rightarrow> qw_broker w | Some q \<Rightarrow> restore_pending q (qw_broker w)) in
     w\<lparr>qw_broker := restored,
       qw_journals := AList.update (thread_id_str thread, turn_id_str turn) (j, live)
         (filter (\<lambda>((t, _), _). t \<noteq> thread_id_str thread) (qw_journals w))\<rparr>)"

subsection \<open>Asking\<close>

datatype asker =
    Ask_Opened user_question_interaction bool
  | Ask_Waiting
  | Ask_Returned "string + user_question_answer list"

definition new_interaction :: "user_question_request \<Rightarrow> user_question_interaction" where
  "new_interaction request = \<lparr>uqi_interaction_id = interaction_id (uqr_context request) (uqr_call_id request),
     uqi_thread_id = tec_thread_id (uqr_context request), uqi_turn_id = tec_turn_id (uqr_context request),
     uqi_call_id = uqr_call_id request, uqi_questions = uqr_questions request,
     uqi_answers = replicate (length (uqr_questions request)) None, uqi_current_index = 0\<rparr>"

definition given_answers :: "user_question_interaction \<Rightarrow> user_question_answer list" where
  "given_answers q = List.map_filter id (uqi_answers q)"

text \<open>The first critical section, and the checks after it.\<close>

definition ask_open ::
  "user_question_request \<Rightarrow> nat option \<Rightarrow> broker_state \<Rightarrow> asker \<times> broker_state" where
  "ask_open request cancellation s =
    (let i = interaction_id (uqr_context request) (uqr_call_id request);
         inserted = (map_of (bs_interactions s) i = None);
         q = (case map_of (bs_interactions s) i of None \<Rightarrow> new_interaction request | Some q \<Rightarrow> q);
         s1 = (if inserted then put_interaction i q s else s);
         s2 = (case cancellation of
             Some flag \<Rightarrow> if interaction_is_complete q then s1
               else s1\<lparr>bs_cancellations := AList.update i flag (bs_cancellations s1)\<rparr>
           | None \<Rightarrow> s1) in
     (if \<not> identity_matches q (tec_thread_id (uqr_context request)) (tec_turn_id (uqr_context request)) (uqr_call_id request)
      then Ask_Returned (Inl ''restored question identity does not match this tool call'')
      else if uqi_questions q \<noteq> uqr_questions request
      then Ask_Returned (Inl ''restored questions do not match this tool call'')
      else if interaction_is_complete q then Ask_Returned (Inr (given_answers q))
      else Ask_Opened q inserted, s2))"

text \<open>Recording the interaction, if this call created it, and announcing it.\<close>

definition ask_announce ::
  "'v session_json \<Rightarrow> string \<Rightarrow> user_question_interaction \<Rightarrow> bool \<Rightarrow> 'v question_world \<Rightarrow> asker \<times> 'v question_world" where
  "ask_announce js i q inserted w =
    (case (if inserted then persist_interaction js q w else (Done (), w)) of
       (Raised err, w1) \<Rightarrow> (Ask_Returned (Inl err), w1\<lparr>qw_broker := remove_interaction i (qw_broker w1)\<rparr>)
     | (Done _, w1) \<Rightarrow> (Ask_Waiting, send_event Phase_Requested q w1)
     | (Out_of_fuel, w1) \<Rightarrow> (Ask_Opened q inserted, w1))"

text \<open>One round of the waiting loop.\<close>

definition ask_poll :: "string \<Rightarrow> nat option \<Rightarrow> 'v question_world \<Rightarrow> asker \<times> 'v question_world" where
  "ask_poll i cancellation w =
    (let s = qw_broker w; found = map_of (bs_interactions s) i in
     case (case found of Some q \<Rightarrow> if interaction_is_complete q then Some q else None | None \<Rightarrow> None) of
       Some q \<Rightarrow> (Ask_Returned (Inr (given_answers q)),
         w\<lparr>qw_broker := s\<lparr>bs_cancellations := AList.delete i (bs_cancellations s)\<rparr>\<rparr>)
     | None \<Rightarrow>
         if (case cancellation of Some flag \<Rightarrow> qw_flags w flag = Some True | None \<Rightarrow> False)
         then (Ask_Returned (Inl ''user question was cancelled''), (case found of
             Some q \<Rightarrow> cancel_interaction i q w
           | None \<Rightarrow> w\<lparr>qw_broker := remove_interaction i s\<rparr>))
         else (Ask_Waiting, w))"

end
