(* ===== verification/Ask_User.thy ===== *)
theory Ask_User
  imports Question_Broker
begin

section \<open>The tool \<open>ask_user\<close> (user_questions.rs of the host)\<close>

text \<open>
  The bounded questions made of a model's arguments, and the answers as the tool reports them.  The
  derived decoder of the arguments is the parameter \<open>decode\<close>.
\<close>

definition max_question_bytes :: nat where "max_question_bytes = 1000"
definition max_option_bytes :: nat where "max_option_bytes = 240"

record option_input =
  oi_label :: string
  oi_description :: "string option"
  oi_recommended :: bool
  oi_recommendation_reason :: "string option"

record question_input =
  qi_question :: string
  qi_options :: "option_input list"
  qi_allow_free_text :: bool
  qi_allow_skip :: bool

fun collect_results :: "(string + 'a) list \<Rightarrow> string + 'a list" where
  "collect_results [] = Inr []"
| "collect_results (Inl err # rs) = Inl err"
| "collect_results (Inr x # rs) = map_sum id (Cons x) (collect_results rs)"

definition bounded_optional :: "string option \<Rightarrow> nat \<Rightarrow> string + string option" where
  "bounded_optional value max_bytes = (case value of
     None \<Rightarrow> Inr None
   | Some v \<Rightarrow>
       if max_bytes < length (trim v) then Inl (''question detail exceeds '' @ decimal max_bytes @ '' UTF-8 bytes'')
       else if trim v = [] then Inr None else Inr (Some (trim v)))"

definition parse_option :: "nat \<Rightarrow> nat \<Rightarrow> option_input \<Rightarrow> string + user_question_option" where
  "parse_option question_index option_index option =
    (let label = trim (oi_label option) in
     if label = [] \<or> max_option_bytes < length label then Inl ''option labels must contain 1 to 240 UTF-8 bytes''
     else (case bounded_optional (oi_description option) max_option_bytes of
         Inl err \<Rightarrow> Inl err
       | Inr description \<Rightarrow> (case bounded_optional (oi_recommendation_reason option) max_option_bytes of
           Inl err \<Rightarrow> Inl err
         | Inr reason \<Rightarrow>
             if \<not> oi_recommended option \<and> reason \<noteq> None then Inl ''recommendationReason requires recommended=true''
             else Inr \<lparr>uqo_id = ''q'' @ decimal (question_index + 1) @ ''-o'' @ decimal (option_index + 1), uqo_label = label,
               uqo_description = description, uqo_recommended = oi_recommended option, uqo_recommendation_reason = reason\<rparr>)))"

definition parse_question :: "nat \<Rightarrow> question_input \<Rightarrow> string + user_question" where
  "parse_question question_index question =
    (let prompt = trim (qi_question question) in
     if prompt = [] \<or> max_question_bytes < length prompt then Inl ''question text must contain 1 to 1000 UTF-8 bytes''
     else if 6 < length (qi_options question) then Inl ''a question may contain at most six options''
     else if qi_options question = [] \<and> \<not> qi_allow_free_text question
     then Inl ''a question needs an option or free-text input''
     else if 1 < length (filter oi_recommended (qi_options question))
     then Inl ''a question may mark at most one option as recommended''
     else map_sum id (\<lambda>options. \<lparr>uq_id = ''q'' @ decimal (question_index + 1), uq_prompt = prompt, uq_options = options,
         uq_allow_free_text = qi_allow_free_text question, uq_allow_skip = qi_allow_skip question\<rparr>)
       (collect_results (map (\<lambda>(i, option). parse_option question_index i option) (enumerate 0 (qi_options question)))))"

definition parse_questions :: "('v \<Rightarrow> string + question_input list) \<Rightarrow> 'v \<Rightarrow> string + user_question list" where
  "parse_questions decode arguments = (case decode arguments of
     Inl err \<Rightarrow> Inl (''invalid ask_user arguments: '' @ err)
   | Inr input \<Rightarrow>
       if input = [] \<or> 3 < length input then Inl ''ask_user requires between one and three questions''
       else collect_results (map (\<lambda>(i, question). parse_question i question) (enumerate 0 input)))"

definition ask_admission :: "('v \<Rightarrow> string + question_input list) \<Rightarrow> 'v \<Rightarrow> string + tool_admission" where
  "ask_admission decode arguments = map_sum id (\<lambda>_. Allowed []) (parse_questions decode arguments)"

text \<open>The label of an answer, with the fixed texts for an option that is gone and for a skipped question.\<close>

definition chosen_text :: string where
  "chosen_text = map char_of [0xE5, 0xB7, 0xB2, 0xE9, 0x80, 0x89, 0xE6, 0x8B, 0xA9, 0xE9, 0x80, 0x89, 0xE9, 0xA1, 0xB9 :: nat]"

definition skipped_text :: string where
  "skipped_text = map char_of [0xE5, 0xB7, 0xB2, 0xE8, 0xB7, 0xB3, 0xE8, 0xBF, 0x87 :: nat]"

definition answer_label :: "user_question \<Rightarrow> user_question_answer \<Rightarrow> string" where
  "answer_label question answer = (case answer of
     Answer_Option option_id \<Rightarrow> (case find (\<lambda>option. uqo_id option = option_id) (uq_options question) of
         Some option \<Rightarrow> uqo_label option | None \<Rightarrow> chosen_text)
   | Answer_Text text \<Rightarrow> text
   | Answer_Skipped \<Rightarrow> skipped_text)"

text \<open>The report of the answers; \<open>encode\<close> is the encoding of the list of \<open>questionId\<close>, \<open>question\<close>, \<open>answer\<close>
  and \<open>answerLabel\<close>.\<close>

definition answers_outcome ::
  "((string \<times> string \<times> user_question_answer \<times> string) list \<Rightarrow> string + string) \<Rightarrow> user_question list
    \<Rightarrow> user_question_answer list \<Rightarrow> tool_execution_outcome" where
  "answers_outcome encode questions answers =
    (if length answers \<noteq> length questions
     then outcome_failed ''user question handler returned an incomplete answer set''
     else outcome_completed (case encode (map (\<lambda>(q, a). (uq_id q, uq_prompt q, a, answer_label q a)) (zip questions answers)) of
         Inr text \<Rightarrow> text
       | Inl _ \<Rightarrow> ''{'' @ [CHR 0x22] @ ''answers'' @ [CHR 0x22] @ '':[]}''))"

text \<open>
  The start and the end of a call: the request the handler is asked, if there is one, and the outcome of
  its result.
\<close>

definition ask_user_request ::
  "('v \<Rightarrow> string + question_input list) \<Rightarrow> 'v tool_execution_request \<Rightarrow> tool_execution_outcome + user_question_request" where
  "ask_user_request decode request = (case ter_context request of
     None \<Rightarrow> Inl (outcome_failed ''ask_user requires an App Server Thread and Turn identity'')
   | Some context \<Rightarrow> (case parse_questions decode (ter_arguments request) of
       Inl err \<Rightarrow> Inl (outcome_failed err)
     | Inr questions \<Rightarrow> Inr \<lparr>uqr_context = context, uqr_call_id = ter_call_id request, uqr_questions = questions\<rparr>))"

definition ask_user_outcome ::
  "((string \<times> string \<times> user_question_answer \<times> string) list \<Rightarrow> string + string) \<Rightarrow> user_question_request
    \<Rightarrow> string + user_question_answer list \<Rightarrow> tool_execution_outcome" where
  "ask_user_outcome encode request result = (case result of
     Inl err \<Rightarrow> outcome_failed err
   | Inr answers \<Rightarrow> answers_outcome encode (uqr_questions request) answers)"

subsection \<open>What parsed questions look like\<close>

text \<open>The bounds a client can rely on.\<close>

definition bounded_text :: "nat \<Rightarrow> string \<Rightarrow> bool" where
  "bounded_text n s \<longleftrightarrow> s \<noteq> [] \<and> length s \<le> n"

definition option_bounded :: "user_question_option \<Rightarrow> bool" where
  "option_bounded option \<longleftrightarrow> bounded_text max_option_bytes (uqo_label option)
     \<and> pred_option (bounded_text max_option_bytes) (uqo_description option)
     \<and> pred_option (bounded_text max_option_bytes) (uqo_recommendation_reason option)
     \<and> (uqo_recommended option \<or> uqo_recommendation_reason option = None)"

text \<open>
  A question that can be answered: its text is bounded, it has at most six options, whose ids differ and of
  which at most one is recommended, and where it has none it takes free text.
\<close>

definition question_bounded :: "user_question \<Rightarrow> bool" where
  "question_bounded q \<longleftrightarrow> bounded_text max_question_bytes (uq_prompt q) \<and> length (uq_options q) \<le> 6
     \<and> list_all option_bounded (uq_options q) \<and> distinct (map uqo_id (uq_options q))
     \<and> length (filter uqo_recommended (uq_options q)) \<le> 1 \<and> (uq_options q \<noteq> [] \<or> uq_allow_free_text q)"

lemma collect_results_Inr: "collect_results rs = Inr xs \<longleftrightarrow> rs = map Inr xs"
proof (induction rs arbitrary: xs)
  case (Cons r rs)
  show ?case
  proof (cases r)
    case (Inr x)
    show ?thesis
    proof (cases "collect_results rs")
      case (Inl err)
      with Cons.IH have "rs \<noteq> map Inr ys" for ys by (metis Inl_Inr_False)
      with Inl \<open>r = Inr x\<close> show ?thesis by (cases xs) auto
    next
      case (Inr ys)
      with Cons.IH [of ys] \<open>r = Inr x\<close> show ?thesis by (cases xs) (auto dest: map_injective)
    qed
  qed auto
qed auto

lemma bounded_optional_Inr: "bounded_optional v n = Inr r \<Longrightarrow> pred_option (bounded_text n) r"
  by (auto simp: bounded_optional_def bounded_text_def split: option.splits if_splits)

lemma parse_option_Inr:
  "parse_option k i oi = Inr option \<Longrightarrow> option_bounded option \<and> uqo_recommended option = oi_recommended oi
     \<and> uqo_id option = ''q'' @ decimal (k + 1) @ ''-o'' @ decimal (i + 1)"
  by (auto simp: parse_option_def Let_def option_bounded_def bounded_text_def dest: bounded_optional_Inr
      split: if_splits sum.splits)

lemma enumerate_results:
  assumes "map (\<lambda>(i, x). f i x) (enumerate 0 xs) = map Inr ys"
  shows "length ys = length xs \<and> (\<forall>i < length xs. f i (xs ! i) = Inr (ys ! i))"
proof -
  from assms have len: "length xs = length ys" by (metis length_enumerate length_map)
  have "f i (xs ! i) = Inr (ys ! i)" if "i < length xs" for i
    using arg_cong [OF assms, of "\<lambda>l. l ! i"] that len by (simp add: nth_enumerate_eq)
  with len show ?thesis by simp
qed

lemma filter_length_transfer:
  assumes "length ys = length xs" and "\<And>i. i < length xs \<Longrightarrow> P (xs ! i) = Q (ys ! i)"
  shows "length (filter P xs) = length (filter Q ys)"
  using assms by (auto simp: length_filter_conv_card intro!: arg_cong [where f = card])

lemma parse_question_Inr:
  assumes "parse_question k qi = Inr q"
  shows "question_bounded q \<and> uq_id q = ''q'' @ decimal (k + 1)"
proof -
  from assms obtain options where
    c: "trim (qi_question qi) \<noteq> []" "length (trim (qi_question qi)) \<le> max_question_bytes" "length (qi_options qi) \<le> 6"
      "qi_options qi \<noteq> [] \<or> qi_allow_free_text qi" "length (filter oi_recommended (qi_options qi)) \<le> 1"
    and o: "collect_results (map (\<lambda>(i, option). parse_option k i option) (enumerate 0 (qi_options qi))) = Inr options"
    and q: "q = \<lparr>uq_id = ''q'' @ decimal (k + 1), uq_prompt = trim (qi_question qi), uq_options = options,
         uq_allow_free_text = qi_allow_free_text qi, uq_allow_skip = qi_allow_skip qi\<rparr>"
    by (cases "collect_results (map (\<lambda>(i, option). parse_option k i option) (enumerate 0 (qi_options qi)))")
      (auto simp: parse_question_def Let_def split: if_splits)
  from o have e: "length options = length (qi_options qi)"
    "\<And>i. i < length options \<Longrightarrow> parse_option k i (qi_options qi ! i) = Inr (options ! i)"
    using enumerate_results [of "parse_option k"] by (auto simp: collect_results_Inr)
  note p = parse_option_Inr [OF e(2)]
  have "list_all option_bounded options" using p by (simp add: list_all_length)
  moreover have "distinct (map uqo_id options)" using p by (simp add: distinct_conv_nth)
  moreover have "length (filter uqo_recommended options) = length (filter oi_recommended (qi_options qi))"
    by (rule filter_length_transfer) (use e(1) p in auto)
  ultimately show ?thesis using c e(1) by (auto simp: q question_bounded_def bounded_text_def)
qed

text \<open>
  C40. The questions of an admitted \<open>ask_user\<close> call are one to three, numbered q1, q2, q3, and every one can be
  shown and answered: its texts are trimmed, non-empty and within their bounds, it has at most six options
  with distinct ids, at most one recommended and reasons only there, and free text where it has no option.
\<close>

theorem parsed_questions_are_bounded:
  assumes "parse_questions decode arguments = Inr questions"
  shows "1 \<le> length questions \<and> length questions \<le> 3 \<and> list_all question_bounded questions
    \<and> map uq_id questions = map (\<lambda>k. ''q'' @ decimal (k + 1)) [0..<length questions]"
proof -
  from assms obtain input where i: "input \<noteq> []" "length input \<le> 3"
    and r: "collect_results (map (\<lambda>(i, question). parse_question i question) (enumerate 0 input)) = Inr questions"
    by (auto simp: parse_questions_def split: sum.splits if_splits)
  from r have e: "length questions = length input"
    "\<And>k. k < length questions \<Longrightarrow> parse_question k (input ! k) = Inr (questions ! k)"
    using enumerate_results [of parse_question] by (auto simp: collect_results_Inr)
  note p = parse_question_Inr [OF e(2)]
  have "list_all question_bounded questions" using p by (simp add: list_all_length)
  moreover have "map uq_id questions = map (\<lambda>k. ''q'' @ decimal (k + 1)) [0..<length questions]"
    by (rule nth_equalityI) (use p in simp_all)
  moreover have "1 \<le> length input" using i(1) by (cases input) simp_all
  ultimately show ?thesis using i(2) e(1) by simp
qed

text \<open>A call with one question.\<close>

definition sample_question_input :: question_input where
  "sample_question_input = \<lparr>qi_question = ''Which one?'', qi_options =
     [\<lparr>oi_label = ''A'', oi_description = None, oi_recommended = True, oi_recommendation_reason = Some ''safe''\<rparr>,
      \<lparr>oi_label = ''B'', oi_description = None, oi_recommended = False, oi_recommendation_reason = None\<rparr>],
     qi_allow_free_text = False, qi_allow_skip = True\<rparr>"

definition sample_questions :: "user_question list" where
  "sample_questions = [\<lparr>uq_id = ''q1'', uq_prompt = ''Which one?'', uq_options =
     [\<lparr>uqo_id = ''q1-o1'', uqo_label = ''A'', uqo_description = None, uqo_recommended = True, uqo_recommendation_reason = Some ''safe''\<rparr>,
      \<lparr>uqo_id = ''q1-o2'', uqo_label = ''B'', uqo_description = None, uqo_recommended = False, uqo_recommendation_reason = None\<rparr>],
     uq_allow_free_text = False, uq_allow_skip = True\<rparr>]"

lemma trim_ascii_letters: "trim ''Which one?'' = ''Which one?''" "trim ''A'' = ''A''" "trim ''B'' = ''B''" "trim ''safe'' = ''safe''"
  by (simp_all add: trim_def trim_start.simps trim_end.simps ws_width_def ws_width_end_def bv_def)

lemma option_digits: "char_of (49 :: nat) = CHR ''1''" "char_of (50 :: nat) = CHR ''2''"
  by code_simp+

lemma sample_questions_parsed: "parse_questions Inr [sample_question_input] = Inr sample_questions"
  by (simp add: parse_questions_def parse_question_def parse_option_def bounded_optional_def sample_question_input_def
      sample_questions_def trim_ascii_letters max_question_bytes_def max_option_bytes_def decimal.simps Let_def option_digits)

theorem parsed_questions_are_bounded_witness:
  "1 \<le> length sample_questions \<and> length sample_questions \<le> 3 \<and> list_all question_bounded sample_questions
    \<and> map uq_id sample_questions = map (\<lambda>k. ''q'' @ decimal (k + 1)) [0..<length sample_questions]"
  by (rule parsed_questions_are_bounded [OF sample_questions_parsed])

end
