(* ===== verification/Question_Claims.thy ===== *)
theory Question_Claims
  imports Ask_User Session_Claims Session_Samples
begin

section \<open>What an answered question promises\<close>

text \<open>
  The threads around the broker in any order: calls that ask, the rounds of their waits, clients that
  answer, interactions restored from journals, flags that are raised and dropped.  Every answer a call
  gets was given by a client to that question and is one the question allows; and an answer that was
  acknowledged is what the session loads again.
\<close>

subsection \<open>Interleavings\<close>

datatype 'v broker_event =
    Ev_Ask nat user_question_request "nat option"
  | Ev_Announce nat
  | Ev_Poll nat
  | Ev_Respond respond_params
  | Ev_Restore user_question_interaction
  | Ev_Bind thread_id turn_id execution_journal "'v journal_live"
  | Ev_Flag nat "bool option"
  | Ev_Elsewhere "((string \<times> string) \<times> execution_journal \<times> 'v journal_live) list" disk

text \<open>A call that asks: its request, its cancellation flag and where it is.\<close>

type_synonym asking = "user_question_request \<times> nat option \<times> asker"

definition request_id :: "user_question_request \<Rightarrow> string" where
  "request_id request = interaction_id (uqr_context request) (uqr_call_id request)"

fun question_event :: "'v session_json \<Rightarrow> 'v broker_event \<Rightarrow> 'v question_world \<times> (nat \<Rightarrow> asking option)
    \<Rightarrow> 'v question_world \<times> (nat \<Rightarrow> asking option)" where
  "question_event js (Ev_Ask n request flag) (w, askers) = (case askers n of
     Some _ \<Rightarrow> (w, askers)
   | None \<Rightarrow> (case ask_open request flag (qw_broker w) of (a, s) \<Rightarrow>
       (w\<lparr>qw_broker := s\<rparr>, askers(n \<mapsto> (request, flag, a)))))"
| "question_event js (Ev_Announce n) (w, askers) = (case askers n of
     Some (request, flag, Ask_Opened q inserted) \<Rightarrow> (case ask_announce js (request_id request) q inserted w of (a, w') \<Rightarrow>
       (w', askers(n \<mapsto> (request, flag, a))))
   | _ \<Rightarrow> (w, askers))"
| "question_event js (Ev_Poll n) (w, askers) = (case askers n of
     Some (request, flag, Ask_Waiting) \<Rightarrow> (case ask_poll (request_id request) flag w of (a, w') \<Rightarrow>
       (w', askers(n \<mapsto> (request, flag, a))))
   | _ \<Rightarrow> (w, askers))"
| "question_event js (Ev_Respond params) (w, askers) = (snd (respond js params w), askers)"
| "question_event js (Ev_Restore q) (w, askers) = (w\<lparr>qw_broker := restore_pending q (qw_broker w)\<rparr>, askers)"
| "question_event js (Ev_Bind thread turn j live) (w, askers) = (bind_journal thread turn j live w, askers)"
| "question_event js (Ev_Flag f v) (w, askers) = (w\<lparr>qw_flags := (qw_flags w)(f := v)\<rparr>, askers)"
| "question_event js (Ev_Elsewhere journals d) (w, askers) = (w\<lparr>qw_journals := journals, qw_disk := d\<rparr>, askers)"

definition question_run :: "'v session_json \<Rightarrow> 'v broker_event list \<Rightarrow> 'v question_world
    \<Rightarrow> 'v question_world \<times> (nat \<Rightarrow> asking option)" where
  "question_run js es w = foldl (\<lambda>x e. question_event js e x) (w, Map.empty) es"

lemma question_run_snoc: "question_run js (es @ [e]) w = question_event js e (question_run js es w)"
  by (simp add: question_run_def)

subsection \<open>Where an answer comes from\<close>

fun restored_by :: "'v broker_event \<Rightarrow> user_question_interaction option" where
  "restored_by (Ev_Restore q) = Some q"
| "restored_by (Ev_Bind thread turn j live) = Option.bind (jl_state live) ses_pending_user_question"
| "restored_by e = None"

definition given :: "'v broker_event list \<Rightarrow> string \<Rightarrow> user_question \<Rightarrow> user_question_answer \<Rightarrow> bool" where
  "given es i question a \<longleftrightarrow>
     (\<exists>p. Ev_Respond p \<in> set es \<and> rp_interaction_id p = i \<and> rp_question_id p = uq_id question \<and> rp_answer p = a)
   \<or> (\<exists>e q k. e \<in> set es \<and> restored_by e = Some q \<and> uqi_interaction_id q = i \<and> k < length (uqi_questions q)
        \<and> uqi_questions q ! k = question \<and> uqi_answers q ! k = Some a)"

text \<open>An interaction in order: the questions before the current one have an allowed answer, the others none.\<close>

definition in_order :: "(user_question \<Rightarrow> user_question_answer \<Rightarrow> bool) \<Rightarrow> user_question_interaction \<Rightarrow> bool" where
  "in_order ok q \<longleftrightarrow> length (uqi_answers q) = length (uqi_questions q) \<and> uqi_current_index q \<le> length (uqi_questions q)
     \<and> (\<forall>k < uqi_current_index q. \<exists>a. uqi_answers q ! k = Some a \<and> ok (uqi_questions q ! k) a)
     \<and> (\<forall>k < length (uqi_questions q). uqi_current_index q \<le> k \<longrightarrow> uqi_answers q ! k = None)"

definition allowed :: "user_question \<Rightarrow> user_question_answer \<Rightarrow> bool" where
  "allowed question a \<longleftrightarrow> validate_answer question a = Inr ()"

text \<open>A call is open as long as it may still be answered.\<close>

definition is_open :: "asker \<Rightarrow> bool" where
  "is_open a \<longleftrightarrow> (case a of Ask_Returned _ \<Rightarrow> False | _ \<Rightarrow> True)"

definition open_questions :: "(nat \<Rightarrow> asking option) \<Rightarrow> string \<Rightarrow> user_question list \<Rightarrow> bool" where
  "open_questions askers i questions \<longleftrightarrow>
     (\<forall>n request flag a. askers n = Some (request, flag, a) \<longrightarrow> is_open a \<longrightarrow> request_id request = i \<longrightarrow>
        uqr_questions request = questions)"

text \<open>
  What the events are assumed to respect: an interaction out of a journal is in order, and as long as a
  call is open, no journal and no other call brings different questions under its interaction id.
  A journal may hold any questions for a call that is still to be made.
\<close>

fun event_fits :: "(nat \<Rightarrow> asking option) \<Rightarrow> 'v broker_event \<Rightarrow> bool" where
  "event_fits askers (Ev_Ask n request flag) \<longleftrightarrow> open_questions askers (request_id request) (uqr_questions request)"
| "event_fits askers (Ev_Restore q) \<longleftrightarrow> in_order allowed q \<and> open_questions askers (uqi_interaction_id q) (uqi_questions q)"
| "event_fits askers (Ev_Bind thread turn j live) \<longleftrightarrow> pred_option (\<lambda>q. in_order allowed q
     \<and> open_questions askers (uqi_interaction_id q) (uqi_questions q)) (Option.bind (jl_state live) ses_pending_user_question)"
| "event_fits askers e \<longleftrightarrow> True"

definition run_fits :: "'v session_json \<Rightarrow> 'v broker_event list \<Rightarrow> 'v question_world \<Rightarrow> bool" where
  "run_fits js es w \<longleftrightarrow> (\<forall>k < length es. event_fits (snd (question_run js (take k es) w)) (es ! k))"

lemma run_fits_snoc:
  "run_fits js (es @ [e]) w \<longleftrightarrow> run_fits js es w \<and> event_fits (snd (question_run js es w)) e"
  by (auto simp: run_fits_def nth_append less_Suc_eq)

definition sound_in :: "'v broker_event list \<Rightarrow> string \<Rightarrow> user_question_interaction \<Rightarrow> bool" where
  "sound_in es i q \<longleftrightarrow> in_order (\<lambda>question a. allowed question a \<and> given es i question a) q"

abbreviation interaction_of :: "broker_state \<Rightarrow> string \<Rightarrow> user_question_interaction option" where
  "interaction_of s \<equiv> map_of (bs_interactions s)"

definition all_sound :: "'v broker_event list \<Rightarrow> broker_state \<Rightarrow> bool" where
  "all_sound es s \<longleftrightarrow> (\<forall>i q. interaction_of s i = Some q \<longrightarrow> sound_in es i q)"

lemma given_mono: "given es i question a \<Longrightarrow> set es \<subseteq> set es' \<Longrightarrow> given es' i question a"
  by (auto simp: given_def; blast)

lemma in_order_mono: "in_order ok q \<Longrightarrow> (\<And>x a. ok x a \<Longrightarrow> ok' x a) \<Longrightarrow> in_order ok' q"
  by (auto simp: in_order_def; blast)

lemma sound_in_mono: "sound_in es i q \<Longrightarrow> set es \<subseteq> set es' \<Longrightarrow> sound_in es' i q"
  unfolding sound_in_def by (blast intro: in_order_mono given_mono)

lemma all_sound_mono: "all_sound es s \<Longrightarrow> set es \<subseteq> set es' \<Longrightarrow> all_sound es' s"
  unfolding all_sound_def by (blast intro: sound_in_mono)

subsection \<open>The broker keeps its interactions in order\<close>

text \<open>A step that brings no other questions under any id.\<close>

definition same_questions :: "broker_state \<Rightarrow> broker_state \<Rightarrow> bool" where
  "same_questions s s' \<longleftrightarrow> (\<forall>i q'. interaction_of s' i = Some q' \<longrightarrow>
     (\<exists>q. interaction_of s i = Some q \<and> uqi_questions q = uqi_questions q'))"

lemma same_questions_refl [simp]: "same_questions s s"
  by (simp add: same_questions_def)

lemma same_questions_trans: "same_questions s t \<Longrightarrow> same_questions t u \<Longrightarrow> same_questions s u"
  unfolding same_questions_def by metis

lemma broker_fields [simp]:
  "all_sound es (s\<lparr>bs_cancellations := c\<rparr>) = all_sound es s" "all_sound es (s\<lparr>bs_terminal := t\<rparr>) = all_sound es s"
  "all_sound es (push_terminal i s) = all_sound es s"
  "same_questions s0 (s\<lparr>bs_cancellations := c\<rparr>) = same_questions s0 s" "same_questions s0 (s\<lparr>bs_terminal := t\<rparr>) = same_questions s0 s"
  "same_questions s0 (push_terminal i s) = same_questions s0 s"
  by (simp_all add: all_sound_def same_questions_def push_terminal_def)

lemma all_sound_put: "all_sound es s \<Longrightarrow> sound_in es i q \<Longrightarrow> all_sound es (put_interaction i q s)"
  by (simp add: all_sound_def put_interaction_def AList.update_conv')

lemma all_sound_submap:
  "all_sound es s \<Longrightarrow> interaction_of s' \<subseteq>\<^sub>m interaction_of s \<Longrightarrow> all_sound es s'"
  by (auto simp: all_sound_def map_le_def dom_def)

lemma same_questions_submap: "interaction_of s' \<subseteq>\<^sub>m interaction_of s \<Longrightarrow> same_questions s s'"
  by (force simp: same_questions_def map_le_def dom_def)

lemma interaction_of_remove: "interaction_of (remove_interaction i s) \<subseteq>\<^sub>m interaction_of s"
  by (auto simp: remove_interaction_def AList.delete_conv' map_le_def)

lemma interaction_of_trim: "interaction_of (trim_terminal s) \<subseteq>\<^sub>m interaction_of s"
proof (induction s rule: trim_terminal.induct)
  case (1 s)
  show ?case
  proof (cases "resolved_capacity < length (bs_terminal s)")
    case True
    then obtain i rest where t: "bs_terminal s = i # rest" by (cases "bs_terminal s") auto
    have "interaction_of (s\<lparr>bs_terminal := rest, bs_interactions := AList.delete i (bs_interactions s)\<rparr>) \<subseteq>\<^sub>m interaction_of s"
      by (auto simp: AList.delete_conv' map_le_def)
    with "1.IH" [OF True t] True t show ?thesis by (subst trim_terminal.simps) (simp add: map_le_trans)
  qed (subst trim_terminal.simps, simp)
qed

lemmas all_sound_trim = all_sound_submap [OF _ interaction_of_trim]
lemmas all_sound_remove = all_sound_submap [OF _ interaction_of_remove]
lemmas same_questions_trim = same_questions_trans [OF _ same_questions_submap [OF interaction_of_trim]]
lemmas same_questions_remove = same_questions_trans [OF _ same_questions_submap [OF interaction_of_remove]]

lemma same_questions_put:
  "interaction_of s i = Some q \<Longrightarrow> uqi_questions q' = uqi_questions q \<Longrightarrow> same_questions s (put_interaction i q' s)"
  by (simp add: same_questions_def put_interaction_def AList.update_conv')

lemma broker_of_cancel: "qw_broker (cancel_interaction i q w) = trim_terminal (push_terminal i (remove_interaction i (qw_broker w)))"
  by (simp add: cancel_interaction_def send_event_def)

lemma broker_of_persist: "persist_interaction js q w = (r, w') \<Longrightarrow> qw_broker w' = qw_broker w"
  by (auto simp: persist_interaction_def split: option.splits prod.splits)

lemma cancel_keeps:
  "all_sound es (qw_broker w) \<Longrightarrow> all_sound es (qw_broker (cancel_interaction i q w))"
  "same_questions (qw_broker w) (qw_broker (cancel_interaction i q w))"
  by (simp_all add: broker_of_cancel all_sound_trim all_sound_remove same_questions_trim same_questions_remove)

lemma with_answer_in_order:
  assumes "in_order ok q" and "current_question q = Some question" and "ok question a"
  shows "in_order ok (with_answer q a)"
  using assms by (auto simp: in_order_def with_answer_def current_question_def nth_list_update less_Suc_eq split: if_splits)

lemma accept_answer_keeps:
  assumes "all_sound es (qw_broker w)" and "sound_in es i q'"
    and "interaction_of (qw_broker w) i = Some q" and "uqi_questions q' = uqi_questions q"
  shows "all_sound es (qw_broker (snd (accept_answer js i q' w)))
    \<and> same_questions (qw_broker w) (qw_broker (snd (accept_answer js i q' w)))"
proof -
  obtain r w1 where p: "persist_interaction js q' w = (r, w1)" by fastforce
  with assms show ?thesis
    by (cases r) (simp_all add: accept_answer_def broker_of_persist Let_def send_event_def all_sound_trim all_sound_put
        same_questions_trim same_questions_put)
qed

lemma respond_keeps:
  assumes sound: "all_sound es (qw_broker w)" and p: "Ev_Respond params \<in> set es"
  shows "all_sound es (qw_broker (snd (respond js params w)))
    \<and> same_questions (qw_broker w) (qw_broker (snd (respond js params w)))"
proof (cases "interaction_of (qw_broker w) (rp_interaction_id params)")
  case None
  with sound show ?thesis by (simp add: respond_def)
next
  case (Some q)
  with sound have q: "sound_in es (rp_interaction_id params) q" by (simp add: all_sound_def)
  have "all_sound es (qw_broker (snd (accept_answer js (rp_interaction_id params) (with_answer q (rp_answer params)) w)))
      \<and> same_questions (qw_broker w) (qw_broker (snd (accept_answer js (rp_interaction_id params) (with_answer q (rp_answer params)) w)))"
    if "current_question q = Some question" "uq_id question = rp_question_id params"
      "validate_answer question (rp_answer params) = Inr u" for question u
  proof (rule accept_answer_keeps [OF sound _ Some])
    have "allowed question (rp_answer params) \<and> given es (rp_interaction_id params) question (rp_answer params)"
      using that p by (auto simp: allowed_def given_def)
    with q that show "sound_in es (rp_interaction_id params) (with_answer q (rp_answer params))"
      unfolding sound_in_def by (auto intro!: with_answer_in_order)
  qed (simp add: with_answer_def)
  with sound Some show ?thesis
    by (auto simp: respond_def cancel_keeps split: option.split sum.split)
qed

lemma restored_sound:
  assumes "restored_by e = Some q" and "event_fits askers e" and "e \<in> set es"
  shows "sound_in es (uqi_interaction_id q) q \<and> open_questions askers (uqi_interaction_id q) (uqi_questions q)"
proof -
  have q: "in_order allowed q" "open_questions askers (uqi_interaction_id q) (uqi_questions q)"
    using assms(1,2) by (cases e; auto)+
  have "given es (uqi_interaction_id q) (uqi_questions q ! k) a"
    if "k < uqi_current_index q" "uqi_answers q ! k = Some a" for k a
    using assms(1,3) that q(1) unfolding given_def in_order_def by (metis order_less_le_trans)
  with q show ?thesis by (fastforce simp: sound_in_def in_order_def)
qed

text \<open>Answers in order of the questions.\<close>

definition answers_fit :: "'v broker_event list \<Rightarrow> string \<Rightarrow> user_question list \<Rightarrow> user_question_answer list \<Rightarrow> bool" where
  "answers_fit es i questions answers \<longleftrightarrow> list_all2 (\<lambda>question a. allowed question a \<and> given es i question a) questions answers"

lemma map_filter_all: "list_all (\<lambda>a. a \<noteq> None) xs \<Longrightarrow> List.map_filter id xs = map the xs"
  by (induction xs) (auto simp: List.map_filter_def)

lemma complete_answers:
  assumes "sound_in es i q" and "interaction_is_complete q"
  shows "answers_fit es i (uqi_questions q) (given_answers q)"
proof -
  from assms(2) have all: "list_all (\<lambda>a. a \<noteq> None) (uqi_answers q)" "length (uqi_answers q) = length (uqi_questions q)"
    by (simp_all add: interaction_is_complete_def)
  have o: "in_order (\<lambda>question a. allowed question a \<and> given es i question a) q"
    using assms(1) by (simp add: sound_in_def)
  have "k < uqi_current_index q" if "k < length (uqi_questions q)" for k
    using all o that by (fastforce simp: in_order_def list_all_length)
  then have "\<exists>a. uqi_answers q ! k = Some a \<and> allowed (uqi_questions q ! k) a \<and> given es i (uqi_questions q ! k) a"
    if "k < length (uqi_questions q)" for k
    using o that unfolding in_order_def by blast
  then show ?thesis
    using all(2) by (fastforce simp: answers_fit_def given_answers_def map_filter_all [OF all(1)] list_all2_conv_all_nth)
qed

text \<open>
  Where a call may stand: an open call finds its own questions under its interaction id, if anything is
  there, and a call that was answered has answers that fit its questions.
\<close>

definition asker_ok :: "broker_state \<Rightarrow> 'v broker_event list \<Rightarrow> asking \<Rightarrow> bool" where
  "asker_ok s es x \<longleftrightarrow> (case x of (request, flag, a) \<Rightarrow>
     (is_open a \<longrightarrow> (\<forall>q. interaction_of s (request_id request) = Some q \<longrightarrow> uqi_questions q = uqr_questions request))
     \<and> (\<forall>answers. a = Ask_Returned (Inr answers) \<longrightarrow> answers_fit es (request_id request) (uqr_questions request) answers))"

lemma answers_fit_mono: "answers_fit es i qs as \<Longrightarrow> set es \<subseteq> set es' \<Longrightarrow> answers_fit es' i qs as"
  unfolding answers_fit_def by (erule list_all2_mono) (auto intro: given_mono)

lemma asker_ok_mono: "asker_ok s es x \<Longrightarrow> set es \<subseteq> set es' \<Longrightarrow> asker_ok s es' x"
  by (auto simp: asker_ok_def intro: answers_fit_mono)

lemma asker_ok_kept: "asker_ok s es x \<Longrightarrow> same_questions s s' \<Longrightarrow> asker_ok s' es x"
  unfolding asker_ok_def same_questions_def by (cases x) (simp, metis)

lemma asker_ok_put:
  assumes "asker_ok s es x" and "askers n = Some x" and "open_questions askers i (uqi_questions q)"
  shows "asker_ok (put_interaction i q s) es x"
proof -
  obtain request flag a where x: "x = (request, flag, a)" by (cases x)
  have "uqr_questions request = uqi_questions q" if "is_open a" "request_id request = i"
    using assms(2,3) that unfolding open_questions_def x by blast
  then show ?thesis using assms(1) by (auto simp: asker_ok_def x put_interaction_def AList.update_conv')
qed

lemma ask_open_ok:
  assumes sound: "all_sound es s" and run: "ask_open request flag s = (a, s')"
    and others: "\<And>n y. askers n = Some y \<Longrightarrow> asker_ok s es y" and fits: "open_questions askers (request_id request) (uqr_questions request)"
  shows "all_sound es s' \<and> asker_ok s' es (request, flag, a) \<and> (\<forall>n y. askers n = Some y \<longrightarrow> asker_ok s' es y)"
proof -
  let ?i = "request_id request"
  let ?q = "case interaction_of s ?i of None \<Rightarrow> new_interaction request | Some q \<Rightarrow> q"
  let ?s1 = "if interaction_of s ?i = None then put_interaction ?i ?q s else s"
  have q: "sound_in es ?i ?q"
    using sound by (auto simp: all_sound_def sound_in_def in_order_def new_interaction_def split: option.split)
  have s': "bs_interactions s' = bs_interactions ?s1"
    using run by (auto simp: ask_open_def request_id_def [symmetric] Let_def put_interaction_def split: option.splits if_splits)
  have cong: "all_sound es s' = all_sound es ?s1" "\<And>t. same_questions t s' = same_questions t ?s1"
    by (simp_all only: all_sound_def same_questions_def s')
  have at: "interaction_of s' ?i = Some ?q"
    by (auto simp: s' put_interaction_def AList.update_conv' split: option.split)
  have "all_sound es s'" using sound q by (auto simp: cong intro: all_sound_put)
  moreover have "asker_ok s' es y" if y: "askers n = Some y" for n y
  proof (cases "interaction_of s ?i")
    case None
    have "uqi_questions (new_interaction request) = uqr_questions request" by (simp add: new_interaction_def)
    with asker_ok_put [where askers = askers and i = ?i and q = "new_interaction request", OF others [OF y]] y fits
    have "asker_ok (put_interaction ?i (new_interaction request) s) es y" by simp
    then show ?thesis by (rule asker_ok_kept) (simp add: cong None)
  next
    case (Some q)
    show ?thesis by (rule asker_ok_kept [OF others [OF y]]) (simp add: cong Some)
  qed
  moreover have "asker_ok s' es (request, flag, a)"
  proof (cases "uqi_questions ?q = uqr_questions request")
    case True
    have "answers_fit es ?i (uqr_questions request) answers" if "a = Ask_Returned (Inr answers)" for answers
      using run that complete_answers [OF q] True by (auto simp: ask_open_def request_id_def [symmetric] Let_def split: if_splits)
    with at True show ?thesis by (simp add: asker_ok_def)
  next
    case False
    then have "\<not> is_open a \<and> (\<forall>answers. a \<noteq> Ask_Returned (Inr answers))"
      using run by (auto simp: ask_open_def request_id_def [symmetric] Let_def is_open_def split: if_splits)
    then show ?thesis by (simp add: asker_ok_def)
  qed
  ultimately show ?thesis by blast
qed

lemma ask_announce_ok:
  assumes "all_sound es (qw_broker w)" and "ask_announce js i q inserted w = (a, w')"
  shows "all_sound es (qw_broker w') \<and> same_questions (qw_broker w) (qw_broker w') \<and> (\<forall>answers. a \<noteq> Ask_Returned (Inr answers))"
proof -
  obtain r w1 where p: "(if inserted then persist_interaction js q w else (Done (), w)) = (r, w1)" by fastforce
  then have "qw_broker w1 = qw_broker w" by (auto simp: broker_of_persist split: if_splits)
  with assms p show ?thesis
    by (cases r) (auto simp: ask_announce_def all_sound_remove same_questions_remove send_event_def)
qed

lemma ask_poll_ok:
  assumes sound: "all_sound es (qw_broker w)" and run: "ask_poll i flag w = (a, w')"
  shows "all_sound es (qw_broker w') \<and> same_questions (qw_broker w) (qw_broker w')
    \<and> (\<forall>answers. a = Ask_Returned (Inr answers) \<longrightarrow>
        (\<exists>q. interaction_of (qw_broker w) i = Some q \<and> answers_fit es i (uqi_questions q) answers))"
proof (cases "interaction_of (qw_broker w) i")
  case None
  with run sound show ?thesis
    by (auto simp: ask_poll_def Let_def all_sound_remove same_questions_remove split: if_splits option.splits)
next
  case (Some q)
  with sound have q: "sound_in es i q" by (simp add: all_sound_def)
  show ?thesis
    using run Some sound complete_answers [OF q]
    by (cases "interaction_is_complete q") (auto simp: ask_poll_def Let_def cancel_keeps split: if_splits option.splits)
qed

text \<open>One event keeps everything in order.\<close>

definition questions_ok :: "'v broker_event list \<Rightarrow> 'v question_world \<times> (nat \<Rightarrow> asking option) \<Rightarrow> bool" where
  "questions_ok es x \<longleftrightarrow> all_sound es (qw_broker (fst x))
     \<and> (\<forall>n y. snd x n = Some y \<longrightarrow> asker_ok (qw_broker (fst x)) es y)"

lemma questions_ok_step:
  assumes "all_sound es (qw_broker w')" and "same_questions (qw_broker w) (qw_broker w')"
    and "\<And>n y. askers n = Some y \<Longrightarrow> asker_ok (qw_broker w) es y" and "asker_ok (qw_broker w') es y"
  shows "questions_ok es (w', askers)" and "questions_ok es (w', askers(n \<mapsto> y))"
  using assms asker_ok_kept [OF assms(3) assms(2)] by (auto simp: questions_ok_def)

lemma restore_pending_ok:
  assumes "all_sound es (qw_broker w)" and "\<And>n y. askers n = Some y \<Longrightarrow> asker_ok (qw_broker w) es y"
    and "sound_in es (uqi_interaction_id q) q \<and> open_questions askers (uqi_interaction_id q) (uqi_questions q)"
    and "qw_broker w' = restore_pending q (qw_broker w)"
  shows "questions_ok es (w', askers)"
proof -
  let ?s = "(qw_broker w)\<lparr>bs_terminal := filter (\<lambda>i. i \<noteq> uqi_interaction_id q) (bs_terminal (qw_broker w))\<rparr>"
  have "asker_ok ?s es y" if "askers n = Some y" for n y
    by (rule asker_ok_kept [OF assms(2) [OF that]]) simp
  then show ?thesis
    using assms(1,3) by (auto simp: questions_ok_def assms(4) restore_pending_def intro: all_sound_put asker_ok_put)
qed

lemma question_event_ok:
  assumes ok: "questions_ok es (w, askers)" and e: "e \<in> set es" and c: "event_fits askers e"
  shows "questions_ok es (question_event js e (w, askers))"
proof -
  have s: "all_sound es (qw_broker w)" and a: "\<And>n y. askers n = Some y \<Longrightarrow> asker_ok (qw_broker w) es y"
    using ok unfolding questions_ok_def by (metis fst_conv, metis fst_conv snd_conv)
  show ?thesis
  proof (cases e)
    case (Ev_Ask n request flag)
    show ?thesis
    proof (cases "askers n")
      case None
      obtain b s' where o: "ask_open request flag (qw_broker w) = (b, s')" by fastforce
      from ask_open_ok [OF s o a] c Ev_Ask have "all_sound es s' \<and> asker_ok s' es (request, flag, b)
          \<and> (\<forall>n y. askers n = Some y \<longrightarrow> asker_ok s' es y)" by simp
      with Ev_Ask None o show ?thesis by (simp add: questions_ok_def)
    qed (use Ev_Ask ok in simp)
  next
    case (Ev_Announce n)
    show ?thesis
    proof (cases "\<exists>request flag q inserted. askers n = Some (request, flag, Ask_Opened q inserted)")
      case True
      then obtain request flag q inserted where n: "askers n = Some (request, flag, Ask_Opened q inserted)" by blast
      obtain b w' where o: "ask_announce js (request_id request) q inserted w = (b, w')" by fastforce
      note keeps = ask_announce_ok [OF s o]
      have "asker_ok (qw_broker w') es (request, flag, Ask_Opened q inserted)"
        by (rule asker_ok_kept [OF a [OF n]]) (use keeps in simp)
      then have "asker_ok (qw_broker w') es (request, flag, b)" using keeps by (simp add: asker_ok_def is_open_def)
      then show ?thesis using questions_ok_step(2) [OF _ _ a, of w'] keeps Ev_Announce n o by simp
    qed (use Ev_Announce ok in \<open>auto split: option.split prod.split asker.split\<close>)
  next
    case (Ev_Poll n)
    show ?thesis
    proof (cases "\<exists>request flag. askers n = Some (request, flag, Ask_Waiting)")
      case True
      then obtain request flag where n: "askers n = Some (request, flag, Ask_Waiting)" by blast
      obtain b w' where o: "ask_poll (request_id request) flag w = (b, w')" by fastforce
      note keeps = ask_poll_ok [OF s o]
      have here: "interaction_of (qw_broker w) (request_id request) = Some q \<Longrightarrow> uqi_questions q = uqr_questions request" for q
        using a [OF n] by (simp add: asker_ok_def is_open_def)
      have "asker_ok (qw_broker w') es (request, flag, Ask_Waiting)"
        by (rule asker_ok_kept [OF a [OF n]]) (use keeps in simp)
      then have "asker_ok (qw_broker w') es (request, flag, b)" using keeps here by (auto simp: asker_ok_def is_open_def)
      then show ?thesis using questions_ok_step(2) [OF _ _ a, of w'] keeps Ev_Poll n o by simp
    qed (use Ev_Poll ok in \<open>auto split: option.split prod.split asker.split\<close>)
  next
    case (Ev_Respond params)
    with e have "Ev_Respond params \<in> set es" by simp
    from respond_keeps [OF s this] Ev_Respond asker_ok_kept [OF a] show ?thesis by (simp add: questions_ok_def)
  next
    case (Ev_Restore q)
    with restored_sound [OF _ c e] show ?thesis by (auto intro!: restore_pending_ok [OF s a])
  next
    case (Ev_Bind thread turn j live)
    show ?thesis
    proof (cases "Option.bind (jl_state live) ses_pending_user_question")
      case None
      with Ev_Bind s a show ?thesis by (simp add: questions_ok_def bind_journal_def)
    next
      case (Some q)
      with Ev_Bind restored_sound [OF _ c e, of q] show ?thesis
        by (auto simp: bind_journal_def Let_def intro!: restore_pending_ok [OF s a])
    qed
  qed (use s a in \<open>simp_all add: questions_ok_def\<close>)
qed

lemma question_run_ok:
  assumes "qw_broker w = broker_new" and "run_fits js es w"
  shows "questions_ok es (question_run js es w)"
  using assms(2)
proof (induction es rule: rev_induct)
  case Nil
  then show ?case using assms(1) by (simp add: question_run_def questions_ok_def all_sound_def broker_new_def)
next
  case (snoc e es)
  then have ok: "questions_ok es (question_run js es w)" and e: "event_fits (snd (question_run js es w)) e"
    by (simp_all add: run_fits_snoc)
  have sub: "set es \<subseteq> set (es @ [e])" by auto
  from ok have "questions_ok (es @ [e]) (question_run js es w)"
    unfolding questions_ok_def using all_sound_mono [OF _ sub] asker_ok_mono [OF _ sub] by blast
  with e question_event_ok [of "es @ [e]" "fst (question_run js es w)" "snd (question_run js es w)" e]
  show ?case by (simp add: question_run_snoc)
qed

text \<open>
  C22. Whatever a call of \<open>ask_user\<close> is answered, the user answered: in any interleaving of calls, waits,
  clients, restored journals and cancellations, the answers a call returns with are as many as its
  questions, each is one its question allows, and each was sent by a client to that question of that
  call or stood as the answer to that question in the journal the call was restored from.  A journal may
  have held other questions for the call; then the call is refused.  Assumed are that the interactions
  of the journals are in order, and that while a call is open no other call and no journal brings
  different questions under its interaction id.
\<close>

theorem answers_come_from_the_user:
  assumes "qw_broker w = broker_new" and "run_fits js es w"
    and "snd (question_run js es w) n = Some (request, flag, Ask_Returned (Inr answers))"
  shows "length answers = length (uqr_questions request)
    \<and> answers_fit es (request_id request) (uqr_questions request) answers"
proof -
  have "asker_ok (qw_broker (fst (question_run js es w))) es (request, flag, Ask_Returned (Inr answers))"
    using question_run_ok [OF assms(1,2)] assms(3) unfolding questions_ok_def by blast
  then show ?thesis by (auto simp: asker_ok_def answers_fit_def dest: list_all2_lengthD)
qed

subsection \<open>Acknowledged answers\<close>

lemma persist_interaction_replays:
  assumes laws: "session_laws js" and here: "replays js j base (live, qw_disk w)"
    and bound: "map_of (qw_journals w) (journal_key q) = Some (j, live)"
    and run: "persist_interaction js q w = (Done (), w')"
  shows "\<exists>live' s. map_of (qw_journals w') (journal_key q) = Some (j, live') \<and> replays js j base (live', qw_disk w')
    \<and> jl_state live' = Some s \<and> ses_pending_user_question s = Some q"
proof -
  obtain r live' d' where p: "persist_user_question js j q (live, qw_disk w) = (r, (live', d'))" by (metis prod.collapse)
  with run bound obtain n where n: "r = Done n"
    by (cases r) (auto simp: persist_interaction_def)
  with run bound p have w': "qw_journals w' = AList.update (journal_key q) (j, live') (qw_journals w)" "qw_disk w' = d'"
    by (auto simp: persist_interaction_def)
  from question_outcome [OF laws here p] n have "replays js j base (live', d')" by auto
  moreover have writer: "jw_turn_id (jl_writer live) = Some (uqi_turn_id q)"
    and state: "\<exists>ts. jl_state live' = apply_user_question ts q (jl_state live)"
    using p n by (force simp: persist_user_question_def act_simps on_file_def split: if_splits outcome.splits prod.splits)+
  moreover have "\<exists>s0. jl_state live = Some s0 \<and> ses_turn_id s0 = uqi_turn_id q"
  proof -
    have "jw_turn_id (jl_writer live) = jw_turn_id (fresh_writer (jl_state live) (jw_messages (jl_writer live)))"
      using here by (auto simp: replays_def writer_ok_def)
    with writer show ?thesis by (cases "jl_state live") (simp_all add: fresh_writer_def)
  qed
  ultimately show ?thesis by (auto simp: w' AList.update_conv' apply_user_question_def on_turn_def)
qed

text \<open>
  C23. An acknowledged answer survives.  Let a client's answer be accepted for an interaction that was
  still open, whose turn has a journal, while the session file replays to the state in memory and
  holds a settled checkpoint of the thread (a new thread has none until its first turn settles, and
  its file may not load: \<open>new_thread_checkpoint_breaks_session\<close>).  Then the session file loads,
  should the process stop right then, to an execution state whose pending question is the
  acknowledged interaction, with this answer in it.
\<close>

theorem acknowledged_answer_survives:
  assumes "session_laws js" and "replays js j base (live, qw_disk w)" and "settled_messages (ej_thread_id j) base = Some ms"
    and "map_of (qw_journals w) (journal_key before) = Some (j, live)"
    and "map_of (bs_interactions (qw_broker w)) (rp_interaction_id params) = Some before"
    and "respond js params w = (Done after, w')" and "after \<noteq> before"
  shows "after = with_answer before (rp_answer params)
    \<and> (\<exists>bytes lr s. file_at (qw_disk w') (ej_path j) = Some bytes \<and> load_records js (ej_session_id j) bytes = Inr lr
      \<and> lr_execution_state lr = Some s \<and> ses_pending_user_question s = Some after)"
proof -
  have acc: "after = with_answer before (rp_answer params)"
    "\<exists>w1. persist_interaction js after w = (Done (), w1) \<and> qw_disk w' = qw_disk w1"
    using assms(5-7) by (auto simp: respond_def accept_answer_def Let_def send_event_def
        split: if_splits option.splits sum.splits prod.splits outcome.splits)
  then obtain w1 where w1: "persist_interaction js after w = (Done (), w1)" "qw_disk w' = qw_disk w1" by blast
  have "journal_key after = journal_key before" by (simp add: acc(1) journal_key_def with_answer_def)
  with assms(4) have "map_of (qw_journals w) (journal_key after) = Some (j, live)" by simp
  from persist_interaction_replays [OF assms(1,2) this w1(1)] obtain live' s
    where l: "replays js j base (live', qw_disk w1)" "jl_state live' = Some s" "ses_pending_user_question s = Some after" by blast
  have "\<exists>bytes lr. file_at (qw_disk w1) (ej_path j) = Some bytes \<and> load_records js (ej_session_id j) bytes = Inr lr
      \<and> lr_execution_state lr = jl_state live'"
    using l(1) file_agrees_loads [OF _ assms(3), where d = "qw_disk w1"] by (simp add: replays_file) blast
  with acc(1) l w1(2) show ?thesis by auto
qed

end
