(* ===== verification/Question_Samples.thy ===== *)
theory Question_Samples
  imports Question_Claims
begin

section \<open>Questions at concrete inputs\<close>

text \<open>
  A call with one question, asked and answered, without a journal and with one; and what the capacity
  of the broker does to interactions that are still waited for.
\<close>

definition sample_context :: tool_execution_context where
  "sample_context = \<lparr>tec_thread_id = ThreadId ''t'', tec_turn_id = TurnId ''t-1'', tec_project_id = None,
     tec_workspace_id = None, tec_workspace_revision = None, tec_session_id = None\<rparr>"

definition question_request :: user_question_request where
  "question_request = \<lparr>uqr_context = sample_context, uqr_call_id = ''c'', uqr_questions = sample_questions\<rparr>"

definition sample_reply :: respond_params where
  "sample_reply = \<lparr>rp_interaction_id = request_id question_request, rp_thread_id = ThreadId ''t'', rp_turn_id = TurnId ''t-1'',
     rp_call_id = ''c'', rp_question_id = ''q1'', rp_answer = Answer_Option ''q1-o1''\<rparr>"

definition asked :: user_question_interaction where
  "asked = new_interaction question_request"

definition answered_once :: user_question_interaction where
  "answered_once = with_answer asked (Answer_Option ''q1-o1'')"

definition quiet_world :: "((string \<times> string) \<times> execution_journal \<times> sv journal_live) list \<Rightarrow> disk \<Rightarrow> sv question_world" where
  "quiet_world journals d = \<lparr>qw_broker = broker_new, qw_journals = journals, qw_disk = d, qw_flags = (\<lambda>_. None), qw_events = []\<rparr>"

definition question_events :: "sv broker_event list" where
  "question_events = [Ev_Ask 0 question_request None, Ev_Announce 0, Ev_Respond sample_reply, Ev_Poll 0]"

lemma asked_fields:
  "uqi_questions asked = sample_questions" "uqi_answers asked = [None]" "uqi_current_index asked = 0"
  "identity_matches asked (ThreadId ''t'') (TurnId ''t-1'') ''c''" "\<not> interaction_is_complete asked"
  "current_question asked = Some (hd sample_questions)" "answered_index asked ''q1'' = None"
  "journal_key asked = (''t'', ''t-1'')" "uqi_thread_id asked = ThreadId ''t''" "uqi_turn_id asked = TurnId ''t-1''"
  by (simp_all add: asked_def new_interaction_def question_request_def sample_context_def sample_questions_def identity_matches_def
      interaction_is_complete_def current_question_def answered_index_def journal_key_def)

lemma answered_fields:
  "interaction_is_complete answered_once" "given_answers answered_once = [Answer_Option ''q1-o1'']" "answered_once \<noteq> asked"
  "journal_key answered_once = (''t'', ''t-1'')" "uqi_thread_id answered_once = ThreadId ''t''" "uqi_turn_id answered_once = TurnId ''t-1''"
proof -
  have "length (uqi_questions asked) = 1" by (simp add: asked_fields sample_questions_def)
  then show "interaction_is_complete answered_once" "given_answers answered_once = [Answer_Option ''q1-o1'']"
    "journal_key answered_once = (''t'', ''t-1'')" "uqi_thread_id answered_once = ThreadId ''t''" "uqi_turn_id answered_once = TurnId ''t-1''"
    using asked_fields by (simp_all add: answered_once_def with_answer_def interaction_is_complete_def given_answers_def journal_key_def
        List.map_filter_def)
  have "uqi_current_index answered_once \<noteq> uqi_current_index asked" by (simp add: answered_once_def with_answer_def)
  then show "answered_once \<noteq> asked" by auto
qed

lemma reply_is_valid: "validate_answer (hd sample_questions) (Answer_Option ''q1-o1'') = Inr ()" "uq_id (hd sample_questions) = ''q1''"
  by (simp_all add: validate_answer_def sample_questions_def)

text \<open>The broker after the call has opened.\<close>

definition open_broker :: broker_state where
  "open_broker = put_interaction (request_id question_request) asked broker_new"

lemma sample_open: "ask_open question_request None broker_new = (Ask_Opened asked True, open_broker)"
  using asked_fields
  by (simp add: ask_open_def broker_new_def open_broker_def Let_def asked_def [symmetric] request_id_def)
    (simp add: question_request_def sample_context_def)

lemma open_broker_lookup: "map_of (bs_interactions open_broker) (request_id question_request) = Some asked"
    "bs_cancellations open_broker = []" "bs_terminal open_broker = []"
  by (simp_all add: open_broker_def put_interaction_def broker_new_def)

lemma sample_respond:
  "qw_broker w = open_broker \<Longrightarrow> respond js sample_reply w = accept_answer js (request_id question_request) answered_once w"
  using asked_fields(4) reply_is_valid
  by (simp add: respond_def open_broker_lookup is_cancelled_def sample_reply_def asked_fields answered_once_def)

lemma trim_short: "length (bs_terminal s) \<le> resolved_capacity \<Longrightarrow> trim_terminal s = s"
  by (subst trim_terminal.simps) simp

lemma sample_run_answers:
  "snd (question_run js question_events (quiet_world [] d)) 0
    = Some (question_request, None, Ask_Returned (Inr [Answer_Option ''q1-o1'']))"
proof -
  have id: "rp_interaction_id sample_reply = request_id question_request" by (simp add: sample_reply_def)
  have s: "map_of (bs_interactions (trim_terminal (push_terminal i (put_interaction i answered_once s)))) i = Some answered_once"
    if "bs_terminal s = []" for i s
    using that by (simp add: trim_short push_terminal_def put_interaction_def resolved_capacity_def AList.update_conv')
  show ?thesis
    by (simp add: question_run_def question_events_def quiet_world_def sample_open ask_announce_def persist_interaction_def
        send_event_def sample_respond accept_answer_def Let_def answered_fields ask_poll_def s open_broker_lookup)
qed

theorem answers_come_from_the_user_witness:
  "length [Answer_Option ''q1-o1''] = length (uqr_questions question_request)
    \<and> answers_fit question_events (request_id question_request) (uqr_questions question_request) [Answer_Option ''q1-o1'']"
proof -
  have "run_fits sample_session question_events (quiet_world [] (session_disk steady))"
    by (auto simp: run_fits_def question_events_def question_run_def open_questions_def less_Suc_eq)
  from answers_come_from_the_user [OF _ this sample_run_answers [of sample_session "session_disk steady"]]
  show ?thesis by (simp add: quiet_world_def)
qed

subsection \<open>A call with a journal\<close>

text \<open>The session file holds its header, a settled checkpoint and the checkpoint of the turn that asks.\<close>

definition question_table :: "sv list" where
  "question_table = take 3 sample_table @
     [sv_set (question_record (sample_json []) sample_journal 7 answered_once) ''seq'' (SV_Num 4)]"

definition question_session :: "sv session_json" where
  "question_session = sample_json question_table"

definition question_file :: string where
  "question_file = joined [''R'', ''R.'', ''R..'']"

definition question_disk :: disk where
  "question_disk = \<lparr>dk_nodes = [(''p'', File_Node question_file)], dk_fault = steady, dk_clock = (\<lambda>_. 7), dk_tick = 0\<rparr>"

lemma question_disk_simps [simp]:
  "node_at question_disk ''p'' = Some (File_Node question_file)" "dk_fault question_disk = steady"
  "dk_clock question_disk = (\<lambda>_. 7)" "dk_tick question_disk = 0"
  by (simp_all add: question_disk_def node_at_def)

definition turn_state :: "sv session_execution_state" where
  "turn_state = apply_checkpoint 3 7 sample_checkpoint None"

definition question_live :: "sv journal_live" where
  "question_live = \<lparr>jl_state = Some turn_state, jl_writer = fresh_writer (Some turn_state) []\<rparr>"

lemmas question_defs = question_session_def question_table_def sample_json_def sample_values_def sv_get_def sv_set_def
  table_parse_def sample_table_def

lemma question_lines: "complete_lines question_file = [''R'', ''R.'', ''R..'']" "valid_prefix_length question_file = length question_file"
    "take (length question_file) question_file = question_file" "file_lines question_file = [''R'', ''R.'', ''R..'']"
  using complete_lines_joined [of "[''R'', ''R.'', ''R..'']" "[]"] valid_prefix_length_joined [of "[]" "[''R'', ''R.'', ''R..'']"]
    file_lines_joined [of "[''R'', ''R.'', ''R..'']"]
  by (simp_all add: question_file_def newline_byte_def)

lemma question_head: "load_all_records question_session ''s'' [''R'', ''R.''] loading_start = Inr sample_loaded"
  by (simp add: load_record_def load_kind_def load_header_def load_checkpoint_def str_field_def u64_field_def question_defs
      max_record_bytes_def trying_def required_def decoded_def loading_start_def sample_loaded_def sat_add_def u64_max_def
      schema_version_def)

text \<open>Stamping does not depend on the table.\<close>

lemma stamps_agree:
  "record_stamped question_session (checkpoint_record question_session ''t'' [] 7 sample_checkpoint) ''s'' 3
    = record_stamped (sample_json []) (checkpoint_record (sample_json []) ''t'' [] 7 sample_checkpoint) ''s'' 3"
  "question_record question_session sample_journal 7 answered_once = question_record (sample_json []) sample_journal 7 answered_once"
  by (simp_all add: question_session_def sample_json_def sample_values_def record_stamped_def checkpoint_record_def
      question_record_def Let_def)

definition question_loaded :: "sv loading" where
  "question_loaded = sample_loaded\<lparr>ld_expected_seq := 4, ld_offset := 9, ld_execution_state := Some turn_state\<rparr>"

lemma question_laws: "session_laws question_session"
  by (simp add: question_session_def sample_laws)

lemma turn_record_loads: "load_record question_session ''s'' ''R..'' sample_loaded = Inr question_loaded"
proof -
  have parse: "sj_parse question_session ''R..'' = Inr (record_stamped question_session
      (checkpoint_record question_session ''t'' [] 7 sample_checkpoint) ''s'' 3)"
    unfolding stamps_agree by (simp add: question_session_def sample_json_def table_parse_def question_table_def sample_table_def)
  have hdr: "ld_header_seen sample_loaded" "ld_header_seen (sample_loaded\<lparr>ld_expected_seq := 4\<rparr>)" by (simp_all add: sample_loaded_def)
  have "replayed_messages ''t'' [] sample_checkpoint (sample_loaded\<lparr>ld_expected_seq := 4\<rparr>) = Some (ecp_messages sample_checkpoint)"
    by (simp add: replayed_messages_def can_append_def append_base_def sample_loaded_def loading_start_def)
  then show ?thesis
    using parse load_checkpoint_record [OF question_laws hdr(2)] record_stamped_fields(1) [OF question_laws]
    by (simp add: load_record_def question_loaded_def sample_loaded_def max_record_bytes_def trying_def required_def turn_state_def
        sat_add_def u64_max_def loading_start_def decoded_def)
qed

lemma question_replays:
  "replays question_session sample_journal sample_base (question_live, question_disk)"
proof -
  have "load_all_records question_session ''s'' (complete_lines question_file) loading_start = Inr question_loaded"
    using load_all_append [of question_session "''s''" "[''R'', ''R.'']" "[''R..'']" loading_start]
    by (simp add: question_lines question_head turn_record_loads trying_def del: load_all_records.simps(2)) (simp add: turn_record_loads trying_def)
  moreover have "holds_at ''p'' question_file question_disk"
    by (simp add: holds_at_def question_disk_def node_at_def torn_lines_def steady_def)
  ultimately have "loads_at question_session sample_journal question_loaded question_disk"
    by (auto simp: loads_at_def sample_journal_def)
  moreover have "settled question_loaded = sample_base"
    by (simp add: settled_def question_loaded_def sample_base_def sample_loaded_def)
  moreover have "writer_ok question_live" by (simp add: writer_ok_def question_live_def fresh_writer_def turn_state_def apply_checkpoint_def sample_checkpoint_def)
  ultimately show ?thesis by (auto simp: replays_def question_live_def question_loaded_def sample_loaded_def)
qed

lemma question_scan: "scan_seq question_session [''R'', ''R.'', ''R..''] (Suc 0) = Inr 4"
proof -
  have "u64_field question_session (record_stamped (sample_json []) (checkpoint_record (sample_json []) ''t'' [] 7 sample_checkpoint) ''s'' 3) ''seq'' = Some 3"
    using record_stamped_fields(1) [OF question_laws] unfolding stamps_agree(1) [symmetric] by simp
  moreover have "sj_parse question_session ''R..'' = Inr (record_stamped (sample_json []) (checkpoint_record (sample_json []) ''t'' [] 7 sample_checkpoint) ''s'' 3)"
    by (simp add: question_session_def sample_json_def table_parse_def question_table_def sample_table_def)
  moreover have "scan_seq question_session [''R'', ''R.''] (Suc 0) = Inr 3"
    by (simp add: u64_field_def question_defs sat_add_def u64_max_def)
  moreover have "scan_seq question_session (xs @ [y]) n = (case scan_seq question_session xs n of Inl e \<Rightarrow> Inl e
      | Inr m \<Rightarrow> scan_seq question_session [y] m)" for xs y n
    by (induction xs arbitrary: n) (simp_all split: sum.split option.split)
  from this [of "[''R'', ''R.'']" "''R..''"] calculation show ?thesis by (simp add: sat_add_def u64_max_def)
qed

lemma question_encodes:
  "va_encode (sj_values question_session) (sj_set question_session (question_record question_session sample_journal 7 answered_once)
      ''seq'' (va_num (sj_values question_session) 4)) = Inr ''R...''"
  unfolding stamps_agree
  by (simp add: question_session_def sample_json_def sample_values_def table_encode_def question_table_def sample_table_def
      record_stamped_def checkpoint_record_def question_record_def sv_set_def Let_def)

lemma question_write:
  "\<exists>d. write_record ''p'' (length question_file) ''R...'' (ticked (ticked (ticked (ticked question_disk)))) = (Done (), d)"
  by (simp add: write_record_def act_simps fs_calls writing_def put_file_def unless_fault_def tick_def with_file_def steady_def)

lemma question_persisted:
  "\<exists>live d. persist_user_question question_session sample_journal answered_once (question_live, question_disk) = (Done 4, (live, d))"
proof -
  have size: "length question_file = 9" by (simp add: question_file_def newline_byte_def)
  have small: "\<not> max_session_bytes < sat_add (sat_add (length question_file) (length ''R...'')) 1" "\<not> max_record_bytes < length ''R...''"
    by (simp_all add: size max_session_bytes_def max_record_bytes_def sat_add_def u64_max_def)
  obtain d where w: "write_record ''p'' (length question_file) ''R...'' (ticked (ticked (ticked (ticked question_disk)))) = (Done (), d)"
    using question_write by blast
  have app: "append_execution_record question_session ''p'' (question_record question_session sample_journal 7 answered_once) (ticked question_disk)
      = (Done 4, d)"
    using question_encodes small w
    by (simp add: append_execution_record_def act_simps fs_calls unless_fault_def tick_def with_file_def question_lines question_scan Let_def
        steady_def del: scan_seq.simps)
  have "jw_turn_id (jl_writer question_live) = Some (uqi_turn_id answered_once)"
    by (simp add: question_live_def fresh_writer_def turn_state_def apply_checkpoint_def sample_checkpoint_def answered_fields ses_turn_id_def)
  then show ?thesis
    using app by (simp add: persist_user_question_def act_simps on_file_def fs_now_ms_def answered_fields sample_journal_def)
qed

definition journaled_world :: "sv question_world" where
  "journaled_world = (quiet_world [((''t'', ''t-1''), sample_journal, question_live)] question_disk)\<lparr>qw_broker := open_broker\<rparr>"

lemma journaled_world_simps:
  "qw_broker journaled_world = open_broker" "qw_disk journaled_world = question_disk"
  "map_of (qw_journals journaled_world) (''t'', ''t-1'') = Some (sample_journal, question_live)"
  by (simp_all add: journaled_world_def quiet_world_def)

lemma sample_acknowledged: "\<exists>w. respond question_session sample_reply journaled_world = (Done answered_once, w)"
proof -
  obtain live d where p: "persist_user_question question_session sample_journal answered_once (question_live, question_disk) = (Done 4, (live, d))"
    using question_persisted by blast
  have "\<exists>w1. persist_interaction question_session answered_once journaled_world = (Done (), w1)"
    by (simp add: persist_interaction_def answered_fields journaled_world_simps p)
  then show ?thesis
    by (auto simp: sample_respond journaled_world_simps accept_answer_def Let_def)
qed

theorem acknowledged_answer_survives_witness:
  "\<exists>w. respond question_session sample_reply journaled_world = (Done answered_once, w)
    \<and> (\<exists>bytes lr s. file_at (qw_disk w) ''p'' = Some bytes \<and> load_records question_session ''s'' bytes = Inr lr
      \<and> lr_execution_state lr = Some s \<and> ses_pending_user_question s = Some answered_once)"
proof -
  obtain w where w: "respond question_session sample_reply journaled_world = (Done answered_once, w)"
    using sample_acknowledged by blast
  have "map_of (qw_journals journaled_world) (journal_key asked) = Some (sample_journal, question_live)"
    by (simp add: asked_fields journaled_world_simps)
  moreover have "map_of (bs_interactions (qw_broker journaled_world)) (rp_interaction_id sample_reply) = Some asked"
    by (simp add: journaled_world_simps sample_reply_def open_broker_lookup)
  moreover have "replays question_session sample_journal sample_base (question_live, qw_disk journaled_world)"
    by (simp add: journaled_world_simps question_replays)
  ultimately show ?thesis
    using acknowledged_answer_survives [OF question_laws _ sample_settled _ _ w answered_fields(3)] w
    by (auto simp: sample_journal_def)
qed

subsection \<open>What the capacity forgets\<close>

text \<open>
  When more interactions have ended than the broker remembers, it drops the first, even if the call it
  belongs to has not seen its answers yet: that call then waits on until it is cancelled.
\<close>

lemma ended_interaction_is_dropped_unseen:
  assumes "bs_terminal s = i # rest" and "length rest = resolved_capacity"
  shows "map_of (bs_interactions (trim_terminal s)) i = None"
proof -
  have "trim_terminal s = trim_terminal (s\<lparr>bs_terminal := rest, bs_interactions := AList.delete i (bs_interactions s)\<rparr>)"
    using assms by (subst trim_terminal.simps) simp
  then show ?thesis using assms(2) by (simp add: trim_short AList.delete_conv')
qed

lemma dropped_interaction_waits_on:
  assumes "map_of (bs_interactions (qw_broker w)) i = None"
  shows "ask_poll i None w = (Ask_Waiting, w)"
  using assms by (simp add: ask_poll_def Let_def)

text \<open>
  A call that is asked again after it was cancelled is active while its id still stands among the ended
  ones: \<open>restore_pending\<close> clears the id, \<open>ask\<close> does not.
\<close>

lemma asked_again_is_still_listed_as_ended:
  assumes "i = request_id request" and "i \<in> set (bs_terminal s)" and "ask_open request flag s = (a, s')"
  shows "i \<in> set (bs_terminal s')"
  using assms by (auto simp: ask_open_def Let_def put_interaction_def split: if_splits option.splits)

end
