(* ===== verification/Spec2Isabelle.thy ===== *)
theory Spec2Isabelle
  imports Digest Harness_Claims Thread_Claims Orchestrator_Claims Goal_Claims Session_Samples Session_Steers Read_Pages Shell_Samples Web_Samples Question_Samples
begin

text \<open>
  The mini agent harness: a verification library.

  The repository (Rust, \<open>src/crates\<close>) is an agent runtime.  A \<^emph>\<open>harness\<close> sends the messages of a
  conversation to a language model, executes the tool calls of its answers and goes on until the
  model has nothing more to do; a \<^emph>\<open>thread\<close> runs turns over a harness for a client; the \<^emph>\<open>host\<close>
  puts policies, approvals, instructions and goals around the tools; the \<^emph>\<open>capabilities\<close> are the tools
  and the stores on disk; an application server and a command line make it available.  The library
  models the core, the policies of the host and the stores and file tools, from the source, and
  states what makes each correct.


  \<^bold>\<open>Conventions.\<close>  A Rust \<open>str\<close> or byte vector is the list of its bytes (\<^typ>\<open>string\<close>), and \<open>utf8\<close> says
  that it is text; \<open>usize\<close> and \<open>u64\<close> are natural numbers under saturating addition (\<open>sat_add\<close>), or
  machine words where the code wraps or divides (\<open>Digest\<close>, \<open>Compaction\<close>).  Code with effects is a
  computation \<open>('s, 'e, 'a) act\<close> (\<open>Prelude\<close>): from a state to \<open>Done x\<close>, \<open>Raised e\<close> or \<open>Out_of_fuel\<close>
  with the state it leaves, composed by \<open>bindA\<close>, \<open>seqA\<close> and \<open>caseA\<close> as the code composes its calls;
  an early return is a \<open>raiseA\<close>.  \<open>keeps\<close>, \<open>wp\<close> and the collections \<open>act_rules\<close>, \<open>act_simps\<close>,
  \<open>done_simps\<close> carry the proofs over such computations.  Plain fallible functions return a sum with the
  error on the left.  Definitions keep the names of the code; a name in the comment of a definition
  is the file it comes from.

  What is not part of the repository is a parameter: \<open>serde_json\<close> (\<open>serde\<close>, \<open>value_api\<close>,
  \<open>host_json\<close>, \<open>session_json\<close>), the resolution of links (\<open>canon\<close>), the model and the tools (the
  records \<open>model\<close> and \<open>tool\<close>), the user who answers an approval, the observer and the journal of a run,
  the other threads that act on a run between its steps (\<open>host_env\<close>), the processes of the
  operating system (\<open>process_os\<close>, \<open>process_table\<close>), the libraries behind a fetch (\<open>web_env\<close>), and the schedule of the faults of a disk.  Laws a property needs of a parameter are hypotheses of the property (that an
  encoding reads back, that a message's JSON has a size), and its witness has an instance of them.


  \<^bold>\<open>Theories, in the order the code builds on itself.\<close>

  \<^item> \<open>Prelude\<close>, \<open>Rust_Str\<close>, \<open>Str_Split\<close>: computations and their rules; the functions of \<open>str\<close> the code
    uses.  \<open>Disk\<close>: \<open>std::fs\<close> over a tree of files, each call of which may fail and leave part of its work.
  \<^item> \<open>Protocol\<close> and \<open>Digest\<close> (mini-agent-protocol): messages, tool calls, outcomes, events; FNV-1a,
    each step of which is shown to permute the hash state.
  \<^item> \<open>Text_Cut\<close> (tool_batch_executor.rs: \<open>truncate_utf8\<close>): both boundary searches satisfy the contract
    \<open>boundary_search\<close>; a cut text is well-formed UTF-8 within its bound.
  \<^item> \<open>Session\<close> (mini-agent-core/session.rs): the conversation.  The invariant \<open>owed\<close> says that every tool
    call is answered at once by its result; repair establishes it and every operation keeps it.  The
    inventory of contexts is an interpretation of \<open>slot_store\<close>.
  \<^item> \<open>Compaction\<close> (context_controller.rs): the waterline, splitting, trimming and assembling.
  \<^item> \<open>Run_Control\<close> (input.rs, run_control.rs): the bounded queue, twice a \<open>fifo_lane\<close>, and the flags; a step
    relation interleaves producers, a running turn and a cancelling thread.
  \<^item> \<open>Execution\<close>, \<open>Tool_Batch\<close> (execution.rs, tool.rs, turn_engine.rs, tool_batch_executor.rs): the journal
    entries, the router, and the execution and recovery of a batch, with the life cycle of its effects.
  \<^item> \<open>Harness\<close>, \<open>Harness_Safety\<close>, \<open>Harness_Claims\<close> (harness.rs): the run loop, the invariant carried through it
    and what a run promises on every ending; \<open>World_Invariant\<close> and \<open>Run_Simulation\<close> lift invariants of the
    parties and projections of the world to whole runs (the locales \<open>world_invariant\<close>, extended
    by \<open>harness_world\<close>, and \<open>larger_world\<close>).
  \<^item> \<open>Thread\<close>, \<open>Thread_Claims\<close> (thread.rs): turns, their numbered envelopes, and checkpoints; the two locales
    are interpreted for a run under envelopes.
  \<^item> \<open>Result_Store\<close>, \<open>Result_Claims\<close> (result_store.rs): retained outputs, their pages and sidecar files.
  \<^item> \<open>Security\<close>, \<open>Security_Claims\<close> (security.rs, workspace/approval.rs): the policy, the store of grants and
    the controller; grants are traced to answers of the user over any sequence of requests.
  \<^item> \<open>Project_Context\<close>, \<open>Orchestrator\<close>, \<open>Orchestrator_Claims\<close> (project_context.rs, tool_orchestrator.rs): the
    instructions of a workspace, and a tool call from its admission to the retention of its output.
  \<^item> \<open>Goal\<close>, \<open>Goal_Runtime\<close>, \<open>Goal_Claims\<close> (goal.rs, goal_runtime.rs, goal_service.rs): the state file of a goal, its
    owner and the verdicts of the verifier.
  \<^item> \<open>Session_Record\<close>, \<open>Session_Journal\<close>, \<open>Session_Replay\<close>, \<open>Session_Samples\<close>, \<open>Session_Claims\<close>, \<open>Session_Steers\<close>
    (mini-agent-capabilities/session.rs, session/storage.rs): the records of a session file, the reducer that
    folds them into the recoverable state, the reader and the journal that appends.  The journal's state
    in memory is an abstraction the file refines: what was appended replays to it, under any faults, as
    long as checkpoints are grounded and no rollback fails; lemmas show what happens otherwise.
  \<^item> \<open>Patch\<close>, \<open>Patch_Grammar\<close>, \<open>Patch_Language\<close>, \<open>Patch_Plan\<close> (workspace/patch.rs): the parser and the grammar it
    accepts, the meaning of hunks (\<open>hunks_placed\<close>) down to the line ends of the file, and the application of
    a plan with its rollback.
  \<^item> \<open>Workspace\<close>, \<open>File_Tools\<close>, \<open>Read_Pages\<close>, \<open>File_Claims\<close>, \<open>File_Samples\<close> (workspace.rs, path_policy.rs,
    workspace/files.rs, workspace/patch.rs): what a path a model names resolves to, what may be read and
    changed, the tools \<open>apply_patch\<close> and \<open>read_file\<close> from admission to execution.
  \<^item> \<open>Shell_Policy\<close>, \<open>Background_Shell\<close>, \<open>Background_Claims\<close>, \<open>Shell\<close>, \<open>Shell_Claims\<close>, \<open>Shell_Samples\<close>
    (workspace/shell.rs, workspace/background_shell.rs, sandbox.rs, the shell checks of workspace.rs and
    path_policy.rs): which commands need no approval, against a list of its own, and which paths a command
    names; the manager of background tasks with its bounded log, its calls cut where they release a lock; a
    foreground command with its bounded capture and its deadline.
  \<^item> \<open>Web_Address\<close>, \<open>Web_Text\<close>, \<open>Web_Fetch\<close>, \<open>Web_Claims\<close>, \<open>Web_Samples\<close> (web.rs): the classes of addresses
    and names, the rendering of a page, and the tool \<open>web_fetch\<close> with the requests it may make.
  \<^item> \<open>Question_Broker\<close>, \<open>Ask_User\<close>, \<open>Question_Claims\<close>, \<open>Question_Samples\<close> (user_questions.rs of the application
    server and the host): the tool \<open>ask_user\<close> and the broker between a waiting call and the clients, under
    any interleaving; what is acknowledged is recorded in the journal of \<open>Session_Journal\<close>.


  \<^bold>\<open>How the parts meet.\<close>  A run of \<open>Harness\<close> calls \<open>Tool_Batch\<close>, whose router calls a \<open>tool\<close>; \<open>Orchestrator\<close> is
  the tool's delegate and calls \<open>Security\<close>, \<open>Project_Context\<close>, the plan mode file of \<open>Goal\<close> and \<open>Result_Store\<close>.  The
  admissions it compares are those \<open>File_Tools\<close> gives.  A run writes \<open>execution_journal_entry\<close> values
  (\<open>Execution\<close>), which \<open>Session_Journal\<close> stores; \<open>Thread\<close> checkpoints are the harness's, and the verdicts of
  \<open>Goal_Runtime\<close> are about settled turns.


  \<^bold>\<open>Fuel.\<close>  The waits of a run (a model's answer, a parked turn) are loops over polls with fuel of their
  own, and the run loop has fuel for its iterations.  \<open>run_returns\<close> shows that with a step cap the
  cap's successor is enough for the loop, provided the model answers within the polls granted to it;
  the other properties of a run hold on every ending, running out of fuel included.  The wait for a
  foreground command sleeps ten milliseconds a round and its deadline is at most 120 seconds, so 12001
  rounds are enough (\<open>command_returns_by_its_deadline\<close>).  Loops that
  shrink their data (trimming, parsing, searching boundaries) are total by a measure.


  \<^bold>\<open>Not modelled.\<close>  The texts of tool schemas; telemetry and warnings on standard error; the
  search and image tools (web_search.rs, image.rs but for its magic bytes), which are calls
  of libraries; of the shell its Windows branches, its environment variables and the two second
  watch of \<open>docker_control\<close>; child
  agents (child_tasks.rs) and the actors of the application server (worker.rs, runtime_actor.rs,
  management.rs), whose state is which thread waits for which answer; JSON-RPC, configuration, model
  catalogues and the command line, which decode, dispatch and print; skills and MCP.  Of the session
  store the directory of sessions, the leases, child operations and the client's replay of events are
  left out.  Windows paths are not modelled.  Where the code holds a lock over a whole operation, the
  operation is one step; what interleaves (queue, cancellation, approvals, questions, the parts of a call
  of the task manager, disk faults, other processes between admission and execution) is explicit.
\<close>

end
